(* ===== verification/Prelude.thy ===== *)
theory Prelude
  imports Main "HOL-Library.Sublist"
begin

text \<open>
  Shared material of the development: the collections of theorems the component theories add
  to, the value types of Go that the source uses (byte strings, runes, byte offsets), slicing,
  and generic lemmas on lists.

  A Go string is a sequence of bytes. Its model is \<^typ>\<open>string\<close>, a list of 8-bit
  \<^typ>\<open>char\<close>s, so that every index and every length below is a byte index and a byte length,
  as in the source. A rune (Go's \<^verbatim>\<open>int32\<close> code point) is a \<^typ>\<open>nat\<close>.
  Lengths and offsets that the code keeps non-negative are \<^typ>\<open>nat\<close>; where the source
  tests an \<^verbatim>\<open>int\<close> for a negative value the model has an \<^typ>\<open>int\<close>.
\<close>

type_synonym bytes = string
type_synonym rune = nat

section \<open>Collections of theorems\<close>

named_theorems utf8_simps \<open>equations of the UTF-8 functions on encoded runes\<close>
named_theorems go_defs \<open>definitions of Go operations that proofs unfold together\<close>
named_theorems result_simps \<open>case analysis of result values\<close>

section \<open>Slices\<close>

text \<open>
  \<^verbatim>\<open>s[lo:hi]\<close>. Go panics unless \<open>lo \<le> hi \<le> len(s)\<close>; the callers' bounds are proved
  where the slice is taken.
\<close>

definition gslice :: "'a list \<Rightarrow> nat \<Rightarrow> nat \<Rightarrow> 'a list" where
  "gslice xs lo hi = take (hi - lo) (drop lo xs)"

lemma length_slice [simp]: "hi \<le> length xs \<Longrightarrow> length (gslice xs lo hi) = hi - lo"
  by (simp add: gslice_def)

lemma slice_full [simp]: "gslice xs 0 (length xs) = xs"
  by (simp add: gslice_def)

lemma slice_empty [simp]: "gslice xs i i = []"
  by (simp add: gslice_def)

lemma slice_append_slice:
  "a \<le> b \<Longrightarrow> b \<le> c \<Longrightarrow> gslice xs a b @ gslice xs b c = gslice xs a c"
proof -
  assume ab: "a \<le> b" and bc: "b \<le> c"
  have "gslice xs a c = take ((b - a) + (c - b)) (drop a xs)"
    using ab bc by (simp add: gslice_def)
  also have "\<dots> = gslice xs a b @ take (c - b) (drop (b - a) (drop a xs))"
    by (simp only: take_add gslice_def)
  also have "drop (b - a) (drop a xs) = drop b xs"
    using ab by simp
  finally show ?thesis by (simp add: gslice_def)
qed

lemma slice_append_drop: "a \<le> b \<Longrightarrow> gslice xs a b @ drop b xs = drop a xs"
  by (metis append_take_drop_id drop_drop le_add_diff_inverse2 gslice_def)

lemma take_append_slice: "a \<le> b \<Longrightarrow> take a xs @ gslice xs a b = take b xs"
  by (metis le_add_diff_inverse gslice_def take_add)

lemma slice_append1: "hi \<le> length xs \<Longrightarrow> gslice (xs @ ys) lo hi = gslice xs lo hi"
  by (simp add: gslice_def)

lemma slice_append2:
  "length xs \<le> lo \<Longrightarrow> gslice (xs @ ys) lo hi = gslice ys (lo - length xs) (hi - length xs)"
  by (simp add: gslice_def)

lemma slice_mid: "gslice (xs @ ys @ zs) (length xs) (length xs + length ys) = ys"
  by (simp add: gslice_def)

lemma set_slice_subset: "set (gslice xs lo hi) \<subseteq> set xs"
  by (auto simp: gslice_def dest: in_set_takeD in_set_dropD)

lemma nth_slice: "i < hi - lo \<Longrightarrow> hi \<le> length xs \<Longrightarrow> gslice xs lo hi ! i = xs ! (lo + i)"
  by (simp add: gslice_def)

section \<open>Stable sorting by a comparison\<close>

text \<open>
  \<^verbatim>\<open>sort.SliceStable(xs, less)\<close>: elements that \<open>less\<close> does not separate keep their order.
  Insertion from the right, in front of the first element that is not smaller, is stable.
\<close>

fun insert_stable :: "('a \<Rightarrow> 'a \<Rightarrow> bool) \<Rightarrow> 'a \<Rightarrow> 'a list \<Rightarrow> 'a list" where
  "insert_stable lt x [] = [x]"
| "insert_stable lt x (y # ys) = (if lt y x then y # insert_stable lt x ys else x # y # ys)"

fun slice_stable :: "('a \<Rightarrow> 'a \<Rightarrow> bool) \<Rightarrow> 'a list \<Rightarrow> 'a list" where
  "slice_stable lt [] = []"
| "slice_stable lt (x # xs) = insert_stable lt x (slice_stable lt xs)"

lemma set_insert_stable [simp]: "set (insert_stable lt x ys) = insert x (set ys)"
  by (induction ys) auto

lemma set_slice_stable [simp]: "set (slice_stable lt xs) = set xs"
  by (induction xs) auto

lemma length_insert_stable [simp]: "length (insert_stable lt x ys) = Suc (length ys)"
  by (induction ys) auto

lemma length_slice_stable [simp]: "length (slice_stable lt xs) = length xs"
  by (induction xs) auto

lemma slice_stable_eq_Nil_iff [simp]: "slice_stable lt xs = [] \<longleftrightarrow> xs = []"
  by (metis length_0_conv length_slice_stable)

text \<open>
  What the sort promises for a comparison that is transitive in its negation (as a strict weak
  order is): no later element is smaller than an earlier one.
\<close>

lemma sorted_insert_stable:
  assumes asym: "\<And>a b. lt a b \<Longrightarrow> \<not> lt b a"
    and neg_trans: "\<And>a b c. \<not> lt b a \<Longrightarrow> \<not> lt c b \<Longrightarrow> \<not> lt c a"
    and "sorted_wrt (\<lambda>a b. \<not> lt b a) ys"
  shows "sorted_wrt (\<lambda>a b. \<not> lt b a) (insert_stable lt x ys)"
  using assms(3)
proof (induction ys)
  case (Cons y ys)
  show ?case
  proof (cases "lt y x")
    case True
    with Cons show ?thesis by (auto dest: asym)
  next
    case False
    with Cons.prems have "\<forall>z \<in> set ys. \<not> lt z x"
      using neg_trans [of y x] by auto
    with False Cons.prems show ?thesis by simp
  qed
qed simp

lemma sorted_slice_stable:
  assumes "\<And>a b. lt a b \<Longrightarrow> \<not> lt b a"
    and "\<And>a b c. \<not> lt b a \<Longrightarrow> \<not> lt c b \<Longrightarrow> \<not> lt c a"
  shows "sorted_wrt (\<lambda>a b. \<not> lt b a) (slice_stable lt xs)"
  by (induction xs) (auto intro!: sorted_insert_stable [OF assms])

lemma sorted_key_slice_stable:
  fixes k :: "'a \<Rightarrow> 'b::linorder"
  assumes "\<And>x y. lt y x \<Longrightarrow> k y \<le> k x" and "\<And>x y. \<not> lt y x \<Longrightarrow> k x \<le> k y"
  shows "sorted (map k (slice_stable lt xs))"
proof (induction xs)
  case (Cons x xs)
  have "sorted (map k ys) \<Longrightarrow> sorted (map k (insert_stable lt x ys))" for ys
  proof (induction ys)
    case (Cons y ys)
    then show ?case using assms(1) [of y x] assms(2) [of y x] by (auto intro: order_trans)
  qed simp
  with Cons show ?case by simp
qed simp

section \<open>Binary search\<close>

text \<open>
  \<^verbatim>\<open>sort.Search(n, f)\<close>: the loop of the standard library,
  \<^verbatim>\<open>for i < j { h := (i+j)/2; if !f(h) { i = h + 1 } else { j = h } }\<close>.
\<close>

function search_between :: "nat \<Rightarrow> nat \<Rightarrow> (nat \<Rightarrow> bool) \<Rightarrow> nat" where
  "search_between i j f =
     (if i < j
      then (let h = (i + j) div 2 in
            if f h then search_between i h f else search_between (Suc h) j f)
      else i)"
  by pat_completeness auto
termination
  by (relation "measure (\<lambda>(i, j, f). j - i)") auto

declare search_between.simps [simp del]

lemma search_between_done [simp]: "\<not> i < j \<Longrightarrow> search_between i j f = i"
  by (simp add: search_between.simps [of i j f])

definition sort_Search :: "nat \<Rightarrow> (nat \<Rightarrow> bool) \<Rightarrow> nat" where
  "sort_Search n f = search_between 0 n f"

lemma search_between_bounds: "i \<le> j \<Longrightarrow> i \<le> search_between i j f \<and> search_between i j f \<le> j"
proof (induction i j f rule: search_between.induct)
  case (1 i j f)
  let ?h = "(i + j) div 2"
  show ?case
  proof (cases "i < j")
    case True
    then have h: "i \<le> ?h" "?h < j" by auto
    show ?thesis
    proof (cases "f ?h")
      case fh: True
      with True h 1(1) have "i \<le> search_between i ?h f \<and> search_between i ?h f \<le> ?h" by simp
      with True fh h show ?thesis by (simp add: search_between.simps [of i j f] Let_def)
    next
      case fh: False
      with True h 1(2) have "Suc ?h \<le> search_between (Suc ?h) j f \<and> search_between (Suc ?h) j f \<le> j"
        by simp
      with True fh h show ?thesis by (simp add: search_between.simps [of i j f] Let_def)
    qed
  next
    case False
    with 1(3) show ?thesis by simp
  qed
qed

lemma search_between_stop:
  "i \<le> j \<Longrightarrow> search_between i j f < j \<Longrightarrow> f (search_between i j f)"
proof (induction i j f rule: search_between.induct)
  case (1 i j f)
  let ?h = "(i + j) div 2"
  show ?case
  proof (cases "i < j")
    case False
    with 1(3,4) show ?thesis by simp
  next
    case True
    then have h: "i \<le> ?h" "?h < j" by auto
    show ?thesis
    proof (cases "f ?h")
      case fh: True
      have eq: "search_between i j f = search_between i ?h f"
        using True fh by (simp add: search_between.simps [of i j f] Let_def)
      show ?thesis
      proof (cases "search_between i ?h f < ?h")
        case True
        with 1(1) \<open>i < j\<close> fh h eq show ?thesis by simp
      next
        case False
        with search_between_bounds [of i ?h f] h fh eq show ?thesis by (metis le_neq_implies_less)
      qed
    next
      case fh: False
      have eq: "search_between i j f = search_between (Suc ?h) j f"
        using True fh by (simp add: search_between.simps [of i j f] Let_def)
      with 1(2,4) True fh h show ?thesis by (simp add: Suc_leI)
    qed
  qed
qed


end
