(* ===== verification/Unicode.thy ===== *)
theory Unicode
  imports Prelude
begin

text \<open>
  The part of Go's \<^verbatim>\<open>unicode\<close> package that the source uses: the categories behind
  \<^verbatim>\<open>IsLetter\<close>, \<^verbatim>\<open>IsUpper\<close>, \<^verbatim>\<open>IsLower\<close>, \<^verbatim>\<open>IsDigit\<close>, \<^verbatim>\<open>IsMark\<close>,
  \<^verbatim>\<open>IsSpace\<close> and the regexp classes \<^verbatim>\<open>\p{L}\<close>, \<^verbatim>\<open>\p{N}\<close>, \<^verbatim>\<open>\p{Zs}\<close>,
  the simple case mappings \<^verbatim>\<open>ToLower\<close> and \<^verbatim>\<open>ToUpper\<close>, and simple case folding
  (\<^verbatim>\<open>SimpleFold\<close>). The tables are those of Unicode 15.0.0, the version of the Go
  toolchain named in \<^verbatim>\<open>go.mod\<close>, in the \<open>(lo, hi, stride)\<close> form of Go's own tables.
  They are split at U+0400 and U+0530 so that a lookup of a Latin or Cyrillic rune reads a
  short table.
\<close>

section \<open>Range tables\<close>

type_synonym range_table = "(rune \<times> rune \<times> nat) list"
type_synonym case_table = "(rune \<times> rune \<times> nat \<times> int) list"

fun in_table :: "range_table \<Rightarrow> rune \<Rightarrow> bool" where
  "in_table [] r = False"
| "in_table ((lo, hi, st) # t) r =
     (if r < lo then False
      else if r \<le> hi \<and> (r - lo) mod st = 0 then True
      else in_table t r)"

fun case_map :: "case_table \<Rightarrow> rune \<Rightarrow> rune" where
  "case_map [] r = r"
| "case_map ((lo, hi, st, d) # t) r =
     (if r < lo then r
      else if r \<le> hi \<and> (r - lo) mod st = 0 then nat (int r + d)
      else case_map t r)"

section \<open>The tables\<close>

definition letter_latin :: range_table where
  "letter_latin = [
   (0x41, 0x5A, 1), (0x61, 0x7A, 1), (0xAA, 0xAA, 1), (0xB5, 0xB5, 1), (0xBA, 0xBA, 1),
   (0xC0, 0xD6, 1), (0xD8, 0xF6, 1), (0xF8, 0x2C1, 1), (0x2C6, 0x2D1, 1), (0x2E0, 0x2E4, 1),
   (0x2EC, 0x2EE, 2), (0x370, 0x374, 1), (0x376, 0x377, 1), (0x37A, 0x37D, 1), (0x37F, 0x37F, 1),
   (0x386, 0x386, 1), (0x388, 0x38A, 1), (0x38C, 0x38C, 1), (0x38E, 0x3A1, 1), (0x3A3, 0x3F5, 1),
   (0x3F7, 0x3FF, 1)]"

definition letter_cyrillic :: range_table where
  "letter_cyrillic = [
   (0x400, 0x481, 1), (0x48A, 0x52F, 1)]"

definition letter_high :: range_table where
  "letter_high = [
   (0x531, 0x556, 1), (0x559, 0x559, 1), (0x560, 0x588, 1), (0x5D0, 0x5EA, 1), (0x5EF, 0x5F2, 1),
   (0x620, 0x64A, 1), (0x66E, 0x66F, 1), (0x671, 0x6D3, 1), (0x6D5, 0x6D5, 1), (0x6E5, 0x6E6, 1),
   (0x6EE, 0x6EF, 1), (0x6FA, 0x6FC, 1), (0x6FF, 0x6FF, 1), (0x710, 0x710, 1), (0x712, 0x72F, 1),
   (0x74D, 0x7A5, 1), (0x7B1, 0x7B1, 1), (0x7CA, 0x7EA, 1), (0x7F4, 0x7F5, 1), (0x7FA, 0x7FA, 1),
   (0x800, 0x815, 1), (0x81A, 0x81A, 1), (0x824, 0x824, 1), (0x828, 0x828, 1), (0x840, 0x858, 1),
   (0x860, 0x86A, 1), (0x870, 0x887, 1), (0x889, 0x88E, 1), (0x8A0, 0x8C9, 1), (0x904, 0x939, 1),
   (0x93D, 0x93D, 1), (0x950, 0x950, 1), (0x958, 0x961, 1), (0x971, 0x980, 1), (0x985, 0x98C, 1),
   (0x98F, 0x990, 1), (0x993, 0x9A8, 1), (0x9AA, 0x9B0, 1), (0x9B2, 0x9B2, 1), (0x9B6, 0x9B9, 1),
   (0x9BD, 0x9BD, 1), (0x9CE, 0x9CE, 1), (0x9DC, 0x9DD, 1), (0x9DF, 0x9E1, 1), (0x9F0, 0x9F1, 1),
   (0x9FC, 0x9FC, 1), (0xA05, 0xA0A, 1), (0xA0F, 0xA10, 1), (0xA13, 0xA28, 1), (0xA2A, 0xA30, 1),
   (0xA32, 0xA33, 1), (0xA35, 0xA36, 1), (0xA38, 0xA39, 1), (0xA59, 0xA5C, 1), (0xA5E, 0xA5E, 1),
   (0xA72, 0xA74, 1), (0xA85, 0xA8D, 1), (0xA8F, 0xA91, 1), (0xA93, 0xAA8, 1), (0xAAA, 0xAB0, 1),
   (0xAB2, 0xAB3, 1), (0xAB5, 0xAB9, 1), (0xABD, 0xABD, 1), (0xAD0, 0xAD0, 1), (0xAE0, 0xAE1, 1),
   (0xAF9, 0xAF9, 1), (0xB05, 0xB0C, 1), (0xB0F, 0xB10, 1), (0xB13, 0xB28, 1), (0xB2A, 0xB30, 1),
   (0xB32, 0xB33, 1), (0xB35, 0xB39, 1), (0xB3D, 0xB3D, 1), (0xB5C, 0xB5D, 1), (0xB5F, 0xB61, 1),
   (0xB71, 0xB71, 1), (0xB83, 0xB83, 1), (0xB85, 0xB8A, 1), (0xB8E, 0xB90, 1), (0xB92, 0xB95, 1),
   (0xB99, 0xB9A, 1), (0xB9C, 0xB9C, 1), (0xB9E, 0xB9F, 1), (0xBA3, 0xBA4, 1), (0xBA8, 0xBAA, 1),
   (0xBAE, 0xBB9, 1), (0xBD0, 0xBD0, 1), (0xC05, 0xC0C, 1), (0xC0E, 0xC10, 1), (0xC12, 0xC28, 1),
   (0xC2A, 0xC39, 1), (0xC3D, 0xC3D, 1), (0xC58, 0xC5A, 1), (0xC5D, 0xC5D, 1), (0xC60, 0xC61, 1),
   (0xC80, 0xC80, 1), (0xC85, 0xC8C, 1), (0xC8E, 0xC90, 1), (0xC92, 0xCA8, 1), (0xCAA, 0xCB3, 1),
   (0xCB5, 0xCB9, 1), (0xCBD, 0xCBD, 1), (0xCDD, 0xCDE, 1), (0xCE0, 0xCE1, 1), (0xCF1, 0xCF2, 1),
   (0xD04, 0xD0C, 1), (0xD0E, 0xD10, 1), (0xD12, 0xD3A, 1), (0xD3D, 0xD3D, 1), (0xD4E, 0xD4E, 1),
   (0xD54, 0xD56, 1), (0xD5F, 0xD61, 1), (0xD7A, 0xD7F, 1), (0xD85, 0xD96, 1), (0xD9A, 0xDB1, 1),
   (0xDB3, 0xDBB, 1), (0xDBD, 0xDBD, 1), (0xDC0, 0xDC6, 1), (0xE01, 0xE30, 1), (0xE32, 0xE33, 1),
   (0xE40, 0xE46, 1), (0xE81, 0xE82, 1), (0xE84, 0xE84, 1), (0xE86, 0xE8A, 1), (0xE8C, 0xEA3, 1),
   (0xEA5, 0xEA5, 1), (0xEA7, 0xEB0, 1), (0xEB2, 0xEB3, 1), (0xEBD, 0xEBD, 1), (0xEC0, 0xEC4, 1),
   (0xEC6, 0xEC6, 1), (0xEDC, 0xEDF, 1), (0xF00, 0xF00, 1), (0xF40, 0xF47, 1), (0xF49, 0xF6C, 1),
   (0xF88, 0xF8C, 1), (0x1000, 0x102A, 1), (0x103F, 0x103F, 1), (0x1050, 0x1055, 1),
   (0x105A, 0x105D, 1), (0x1061, 0x1061, 1), (0x1065, 0x1066, 1), (0x106E, 0x1070, 1),
   (0x1075, 0x1081, 1), (0x108E, 0x108E, 1), (0x10A0, 0x10C5, 1), (0x10C7, 0x10C7, 1),
   (0x10CD, 0x10CD, 1), (0x10D0, 0x10FA, 1), (0x10FC, 0x1248, 1), (0x124A, 0x124D, 1),
   (0x1250, 0x1256, 1), (0x1258, 0x1258, 1), (0x125A, 0x125D, 1), (0x1260, 0x1288, 1),
   (0x128A, 0x128D, 1), (0x1290, 0x12B0, 1), (0x12B2, 0x12B5, 1), (0x12B8, 0x12BE, 1),
   (0x12C0, 0x12C0, 1), (0x12C2, 0x12C5, 1), (0x12C8, 0x12D6, 1), (0x12D8, 0x1310, 1),
   (0x1312, 0x1315, 1), (0x1318, 0x135A, 1), (0x1380, 0x138F, 1), (0x13A0, 0x13F5, 1),
   (0x13F8, 0x13FD, 1), (0x1401, 0x166C, 1), (0x166F, 0x167F, 1), (0x1681, 0x169A, 1),
   (0x16A0, 0x16EA, 1), (0x16F1, 0x16F8, 1), (0x1700, 0x1711, 1), (0x171F, 0x1731, 1),
   (0x1740, 0x1751, 1), (0x1760, 0x176C, 1), (0x176E, 0x1770, 1), (0x1780, 0x17B3, 1),
   (0x17D7, 0x17D7, 1), (0x17DC, 0x17DC, 1), (0x1820, 0x1878, 1), (0x1880, 0x1884, 1),
   (0x1887, 0x18A8, 1), (0x18AA, 0x18AA, 1), (0x18B0, 0x18F5, 1), (0x1900, 0x191E, 1),
   (0x1950, 0x196D, 1), (0x1970, 0x1974, 1), (0x1980, 0x19AB, 1), (0x19B0, 0x19C9, 1),
   (0x1A00, 0x1A16, 1), (0x1A20, 0x1A54, 1), (0x1AA7, 0x1AA7, 1), (0x1B05, 0x1B33, 1),
   (0x1B45, 0x1B4C, 1), (0x1B83, 0x1BA0, 1), (0x1BAE, 0x1BAF, 1), (0x1BBA, 0x1BE5, 1),
   (0x1C00, 0x1C23, 1), (0x1C4D, 0x1C4F, 1), (0x1C5A, 0x1C7D, 1), (0x1C80, 0x1C88, 1),
   (0x1C90, 0x1CBA, 1), (0x1CBD, 0x1CBF, 1), (0x1CE9, 0x1CEC, 1), (0x1CEE, 0x1CF3, 1),
   (0x1CF5, 0x1CF6, 1), (0x1CFA, 0x1CFA, 1), (0x1D00, 0x1DBF, 1), (0x1E00, 0x1F15, 1),
   (0x1F18, 0x1F1D, 1), (0x1F20, 0x1F45, 1), (0x1F48, 0x1F4D, 1), (0x1F50, 0x1F57, 1),
   (0x1F59, 0x1F5D, 2), (0x1F5F, 0x1F7D, 1), (0x1F80, 0x1FB4, 1), (0x1FB6, 0x1FBC, 1),
   (0x1FBE, 0x1FBE, 1), (0x1FC2, 0x1FC4, 1), (0x1FC6, 0x1FCC, 1), (0x1FD0, 0x1FD3, 1),
   (0x1FD6, 0x1FDB, 1), (0x1FE0, 0x1FEC, 1), (0x1FF2, 0x1FF4, 1), (0x1FF6, 0x1FFC, 1),
   (0x2071, 0x2071, 1), (0x207F, 0x207F, 1), (0x2090, 0x209C, 1), (0x2102, 0x2102, 1),
   (0x2107, 0x2107, 1), (0x210A, 0x2113, 1), (0x2115, 0x2115, 1), (0x2119, 0x211D, 1),
   (0x2124, 0x2128, 2), (0x212A, 0x212D, 1), (0x212F, 0x2139, 1), (0x213C, 0x213F, 1),
   (0x2145, 0x2149, 1), (0x214E, 0x214E, 1), (0x2183, 0x2184, 1), (0x2C00, 0x2CE4, 1),
   (0x2CEB, 0x2CEE, 1), (0x2CF2, 0x2CF3, 1), (0x2D00, 0x2D25, 1), (0x2D27, 0x2D27, 1),
   (0x2D2D, 0x2D2D, 1), (0x2D30, 0x2D67, 1), (0x2D6F, 0x2D6F, 1), (0x2D80, 0x2D96, 1),
   (0x2DA0, 0x2DA6, 1), (0x2DA8, 0x2DAE, 1), (0x2DB0, 0x2DB6, 1), (0x2DB8, 0x2DBE, 1),
   (0x2DC0, 0x2DC6, 1), (0x2DC8, 0x2DCE, 1), (0x2DD0, 0x2DD6, 1), (0x2DD8, 0x2DDE, 1),
   (0x2E2F, 0x2E2F, 1), (0x3005, 0x3006, 1), (0x3031, 0x3035, 1), (0x303B, 0x303C, 1),
   (0x3041, 0x3096, 1), (0x309D, 0x309F, 1), (0x30A1, 0x30FA, 1), (0x30FC, 0x30FF, 1),
   (0x3105, 0x312F, 1), (0x3131, 0x318E, 1), (0x31A0, 0x31BF, 1), (0x31F0, 0x31FF, 1),
   (0x3400, 0x4DBF, 1), (0x4E00, 0xA48C, 1), (0xA4D0, 0xA4FD, 1), (0xA500, 0xA60C, 1),
   (0xA610, 0xA61F, 1), (0xA62A, 0xA62B, 1), (0xA640, 0xA66E, 1), (0xA67F, 0xA69D, 1),
   (0xA6A0, 0xA6E5, 1), (0xA717, 0xA71F, 1), (0xA722, 0xA788, 1), (0xA78B, 0xA7CA, 1),
   (0xA7D0, 0xA7D1, 1), (0xA7D3, 0xA7D3, 1), (0xA7D5, 0xA7D9, 1), (0xA7F2, 0xA801, 1),
   (0xA803, 0xA805, 1), (0xA807, 0xA80A, 1), (0xA80C, 0xA822, 1), (0xA840, 0xA873, 1),
   (0xA882, 0xA8B3, 1), (0xA8F2, 0xA8F7, 1), (0xA8FB, 0xA8FB, 1), (0xA8FD, 0xA8FE, 1),
   (0xA90A, 0xA925, 1), (0xA930, 0xA946, 1), (0xA960, 0xA97C, 1), (0xA984, 0xA9B2, 1),
   (0xA9CF, 0xA9CF, 1), (0xA9E0, 0xA9E4, 1), (0xA9E6, 0xA9EF, 1), (0xA9FA, 0xA9FE, 1),
   (0xAA00, 0xAA28, 1), (0xAA40, 0xAA42, 1), (0xAA44, 0xAA4B, 1), (0xAA60, 0xAA76, 1),
   (0xAA7A, 0xAA7A, 1), (0xAA7E, 0xAAAF, 1), (0xAAB1, 0xAAB1, 1), (0xAAB5, 0xAAB6, 1),
   (0xAAB9, 0xAABD, 1), (0xAAC0, 0xAAC2, 2), (0xAADB, 0xAADD, 1), (0xAAE0, 0xAAEA, 1),
   (0xAAF2, 0xAAF4, 1), (0xAB01, 0xAB06, 1), (0xAB09, 0xAB0E, 1), (0xAB11, 0xAB16, 1),
   (0xAB20, 0xAB26, 1), (0xAB28, 0xAB2E, 1), (0xAB30, 0xAB5A, 1), (0xAB5C, 0xAB69, 1),
   (0xAB70, 0xABE2, 1), (0xAC00, 0xD7A3, 1), (0xD7B0, 0xD7C6, 1), (0xD7CB, 0xD7FB, 1),
   (0xF900, 0xFA6D, 1), (0xFA70, 0xFAD9, 1), (0xFB00, 0xFB06, 1), (0xFB13, 0xFB17, 1),
   (0xFB1D, 0xFB1D, 1), (0xFB1F, 0xFB28, 1), (0xFB2A, 0xFB36, 1), (0xFB38, 0xFB3C, 1),
   (0xFB3E, 0xFB3E, 1), (0xFB40, 0xFB41, 1), (0xFB43, 0xFB44, 1), (0xFB46, 0xFBB1, 1),
   (0xFBD3, 0xFD3D, 1), (0xFD50, 0xFD8F, 1), (0xFD92, 0xFDC7, 1), (0xFDF0, 0xFDFB, 1),
   (0xFE70, 0xFE74, 1), (0xFE76, 0xFEFC, 1), (0xFF21, 0xFF3A, 1), (0xFF41, 0xFF5A, 1),
   (0xFF66, 0xFFBE, 1), (0xFFC2, 0xFFC7, 1), (0xFFCA, 0xFFCF, 1), (0xFFD2, 0xFFD7, 1),
   (0xFFDA, 0xFFDC, 1), (0x10000, 0x1000B, 1), (0x1000D, 0x10026, 1), (0x10028, 0x1003A, 1),
   (0x1003C, 0x1003D, 1), (0x1003F, 0x1004D, 1), (0x10050, 0x1005D, 1), (0x10080, 0x100FA, 1),
   (0x10280, 0x1029C, 1), (0x102A0, 0x102D0, 1), (0x10300, 0x1031F, 1), (0x1032D, 0x10340, 1),
   (0x10342, 0x10349, 1), (0x10350, 0x10375, 1), (0x10380, 0x1039D, 1), (0x103A0, 0x103C3, 1),
   (0x103C8, 0x103CF, 1), (0x10400, 0x1049D, 1), (0x104B0, 0x104D3, 1), (0x104D8, 0x104FB, 1),
   (0x10500, 0x10527, 1), (0x10530, 0x10563, 1), (0x10570, 0x1057A, 1), (0x1057C, 0x1058A, 1),
   (0x1058C, 0x10592, 1), (0x10594, 0x10595, 1), (0x10597, 0x105A1, 1), (0x105A3, 0x105B1, 1),
   (0x105B3, 0x105B9, 1), (0x105BB, 0x105BC, 1), (0x10600, 0x10736, 1), (0x10740, 0x10755, 1),
   (0x10760, 0x10767, 1), (0x10780, 0x10785, 1), (0x10787, 0x107B0, 1), (0x107B2, 0x107BA, 1),
   (0x10800, 0x10805, 1), (0x10808, 0x10808, 1), (0x1080A, 0x10835, 1), (0x10837, 0x10838, 1),
   (0x1083C, 0x1083C, 1), (0x1083F, 0x10855, 1), (0x10860, 0x10876, 1), (0x10880, 0x1089E, 1),
   (0x108E0, 0x108F2, 1), (0x108F4, 0x108F5, 1), (0x10900, 0x10915, 1), (0x10920, 0x10939, 1),
   (0x10980, 0x109B7, 1), (0x109BE, 0x109BF, 1), (0x10A00, 0x10A00, 1), (0x10A10, 0x10A13, 1),
   (0x10A15, 0x10A17, 1), (0x10A19, 0x10A35, 1), (0x10A60, 0x10A7C, 1), (0x10A80, 0x10A9C, 1),
   (0x10AC0, 0x10AC7, 1), (0x10AC9, 0x10AE4, 1), (0x10B00, 0x10B35, 1), (0x10B40, 0x10B55, 1),
   (0x10B60, 0x10B72, 1), (0x10B80, 0x10B91, 1), (0x10C00, 0x10C48, 1), (0x10C80, 0x10CB2, 1),
   (0x10CC0, 0x10CF2, 1), (0x10D00, 0x10D23, 1), (0x10E80, 0x10EA9, 1), (0x10EB0, 0x10EB1, 1),
   (0x10F00, 0x10F1C, 1), (0x10F27, 0x10F27, 1), (0x10F30, 0x10F45, 1), (0x10F70, 0x10F81, 1),
   (0x10FB0, 0x10FC4, 1), (0x10FE0, 0x10FF6, 1), (0x11003, 0x11037, 1), (0x11071, 0x11072, 1),
   (0x11075, 0x11075, 1), (0x11083, 0x110AF, 1), (0x110D0, 0x110E8, 1), (0x11103, 0x11126, 1),
   (0x11144, 0x11144, 1), (0x11147, 0x11147, 1), (0x11150, 0x11172, 1), (0x11176, 0x11176, 1),
   (0x11183, 0x111B2, 1), (0x111C1, 0x111C4, 1), (0x111DA, 0x111DC, 2), (0x11200, 0x11211, 1),
   (0x11213, 0x1122B, 1), (0x1123F, 0x11240, 1), (0x11280, 0x11286, 1), (0x11288, 0x11288, 1),
   (0x1128A, 0x1128D, 1), (0x1128F, 0x1129D, 1), (0x1129F, 0x112A8, 1), (0x112B0, 0x112DE, 1),
   (0x11305, 0x1130C, 1), (0x1130F, 0x11310, 1), (0x11313, 0x11328, 1), (0x1132A, 0x11330, 1),
   (0x11332, 0x11333, 1), (0x11335, 0x11339, 1), (0x1133D, 0x1133D, 1), (0x11350, 0x11350, 1),
   (0x1135D, 0x11361, 1), (0x11400, 0x11434, 1), (0x11447, 0x1144A, 1), (0x1145F, 0x11461, 1),
   (0x11480, 0x114AF, 1), (0x114C4, 0x114C5, 1), (0x114C7, 0x114C7, 1), (0x11580, 0x115AE, 1),
   (0x115D8, 0x115DB, 1), (0x11600, 0x1162F, 1), (0x11644, 0x11644, 1), (0x11680, 0x116AA, 1),
   (0x116B8, 0x116B8, 1), (0x11700, 0x1171A, 1), (0x11740, 0x11746, 1), (0x11800, 0x1182B, 1),
   (0x118A0, 0x118DF, 1), (0x118FF, 0x11906, 1), (0x11909, 0x11909, 1), (0x1190C, 0x11913, 1),
   (0x11915, 0x11916, 1), (0x11918, 0x1192F, 1), (0x1193F, 0x11941, 2), (0x119A0, 0x119A7, 1),
   (0x119AA, 0x119D0, 1), (0x119E1, 0x119E3, 2), (0x11A00, 0x11A00, 1), (0x11A0B, 0x11A32, 1),
   (0x11A3A, 0x11A3A, 1), (0x11A50, 0x11A50, 1), (0x11A5C, 0x11A89, 1), (0x11A9D, 0x11A9D, 1),
   (0x11AB0, 0x11AF8, 1), (0x11C00, 0x11C08, 1), (0x11C0A, 0x11C2E, 1), (0x11C40, 0x11C40, 1),
   (0x11C72, 0x11C8F, 1), (0x11D00, 0x11D06, 1), (0x11D08, 0x11D09, 1), (0x11D0B, 0x11D30, 1),
   (0x11D46, 0x11D46, 1), (0x11D60, 0x11D65, 1), (0x11D67, 0x11D68, 1), (0x11D6A, 0x11D89, 1),
   (0x11D98, 0x11D98, 1), (0x11EE0, 0x11EF2, 1), (0x11F02, 0x11F02, 1), (0x11F04, 0x11F10, 1),
   (0x11F12, 0x11F33, 1), (0x11FB0, 0x11FB0, 1), (0x12000, 0x12399, 1), (0x12480, 0x12543, 1),
   (0x12F90, 0x12FF0, 1), (0x13000, 0x1342F, 1), (0x13441, 0x13446, 1), (0x14400, 0x14646, 1),
   (0x16800, 0x16A38, 1), (0x16A40, 0x16A5E, 1), (0x16A70, 0x16ABE, 1), (0x16AD0, 0x16AED, 1),
   (0x16B00, 0x16B2F, 1), (0x16B40, 0x16B43, 1), (0x16B63, 0x16B77, 1), (0x16B7D, 0x16B8F, 1),
   (0x16E40, 0x16E7F, 1), (0x16F00, 0x16F4A, 1), (0x16F50, 0x16F50, 1), (0x16F93, 0x16F9F, 1),
   (0x16FE0, 0x16FE1, 1), (0x16FE3, 0x16FE3, 1), (0x17000, 0x187F7, 1), (0x18800, 0x18CD5, 1),
   (0x18D00, 0x18D08, 1), (0x1AFF0, 0x1AFF3, 1), (0x1AFF5, 0x1AFFB, 1), (0x1AFFD, 0x1AFFE, 1),
   (0x1B000, 0x1B122, 1), (0x1B132, 0x1B132, 1), (0x1B150, 0x1B152, 1), (0x1B155, 0x1B155, 1),
   (0x1B164, 0x1B167, 1), (0x1B170, 0x1B2FB, 1), (0x1BC00, 0x1BC6A, 1), (0x1BC70, 0x1BC7C, 1),
   (0x1BC80, 0x1BC88, 1), (0x1BC90, 0x1BC99, 1), (0x1D400, 0x1D454, 1), (0x1D456, 0x1D49C, 1),
   (0x1D49E, 0x1D49F, 1), (0x1D4A2, 0x1D4A2, 1), (0x1D4A5, 0x1D4A6, 1), (0x1D4A9, 0x1D4AC, 1),
   (0x1D4AE, 0x1D4B9, 1), (0x1D4BB, 0x1D4BB, 1), (0x1D4BD, 0x1D4C3, 1), (0x1D4C5, 0x1D505, 1),
   (0x1D507, 0x1D50A, 1), (0x1D50D, 0x1D514, 1), (0x1D516, 0x1D51C, 1), (0x1D51E, 0x1D539, 1),
   (0x1D53B, 0x1D53E, 1), (0x1D540, 0x1D544, 1), (0x1D546, 0x1D546, 1), (0x1D54A, 0x1D550, 1),
   (0x1D552, 0x1D6A5, 1), (0x1D6A8, 0x1D6C0, 1), (0x1D6C2, 0x1D6DA, 1), (0x1D6DC, 0x1D6FA, 1),
   (0x1D6FC, 0x1D714, 1), (0x1D716, 0x1D734, 1), (0x1D736, 0x1D74E, 1), (0x1D750, 0x1D76E, 1),
   (0x1D770, 0x1D788, 1), (0x1D78A, 0x1D7A8, 1), (0x1D7AA, 0x1D7C2, 1), (0x1D7C4, 0x1D7CB, 1),
   (0x1DF00, 0x1DF1E, 1), (0x1DF25, 0x1DF2A, 1), (0x1E030, 0x1E06D, 1), (0x1E100, 0x1E12C, 1),
   (0x1E137, 0x1E13D, 1), (0x1E14E, 0x1E14E, 1), (0x1E290, 0x1E2AD, 1), (0x1E2C0, 0x1E2EB, 1),
   (0x1E4D0, 0x1E4EB, 1), (0x1E7E0, 0x1E7E6, 1), (0x1E7E8, 0x1E7EB, 1), (0x1E7ED, 0x1E7EE, 1),
   (0x1E7F0, 0x1E7FE, 1), (0x1E800, 0x1E8C4, 1), (0x1E900, 0x1E943, 1), (0x1E94B, 0x1E94B, 1),
   (0x1EE00, 0x1EE03, 1), (0x1EE05, 0x1EE1F, 1), (0x1EE21, 0x1EE22, 1), (0x1EE24, 0x1EE24, 1),
   (0x1EE27, 0x1EE27, 1), (0x1EE29, 0x1EE32, 1), (0x1EE34, 0x1EE37, 1), (0x1EE39, 0x1EE3B, 2),
   (0x1EE42, 0x1EE42, 1), (0x1EE47, 0x1EE4B, 2), (0x1EE4D, 0x1EE4F, 1), (0x1EE51, 0x1EE52, 1),
   (0x1EE54, 0x1EE54, 1), (0x1EE57, 0x1EE5F, 2), (0x1EE61, 0x1EE62, 1), (0x1EE64, 0x1EE64, 1),
   (0x1EE67, 0x1EE6A, 1), (0x1EE6C, 0x1EE72, 1), (0x1EE74, 0x1EE77, 1), (0x1EE79, 0x1EE7C, 1),
   (0x1EE7E, 0x1EE7E, 1), (0x1EE80, 0x1EE89, 1), (0x1EE8B, 0x1EE9B, 1), (0x1EEA1, 0x1EEA3, 1),
   (0x1EEA5, 0x1EEA9, 1), (0x1EEAB, 0x1EEBB, 1), (0x20000, 0x2A6DF, 1), (0x2A700, 0x2B739, 1),
   (0x2B740, 0x2B81D, 1), (0x2B820, 0x2CEA1, 1), (0x2CEB0, 0x2EBE0, 1), (0x2F800, 0x2FA1D, 1),
   (0x30000, 0x3134A, 1), (0x31350, 0x323AF, 1)]"

definition upper_latin :: range_table where
  "upper_latin = [
   (0x41, 0x5A, 1), (0xC0, 0xD6, 1), (0xD8, 0xDE, 1), (0x100, 0x136, 2), (0x139, 0x147, 2),
   (0x14A, 0x176, 2), (0x178, 0x179, 1), (0x17B, 0x17D, 2), (0x181, 0x182, 1), (0x184, 0x184, 1),
   (0x186, 0x187, 1), (0x189, 0x18B, 1), (0x18E, 0x191, 1), (0x193, 0x194, 1), (0x196, 0x198, 1),
   (0x19C, 0x19D, 1), (0x19F, 0x1A0, 1), (0x1A2, 0x1A4, 2), (0x1A6, 0x1A7, 1), (0x1A9, 0x1A9, 1),
   (0x1AC, 0x1AC, 1), (0x1AE, 0x1AF, 1), (0x1B1, 0x1B3, 1), (0x1B5, 0x1B5, 1), (0x1B7, 0x1B8, 1),
   (0x1BC, 0x1BC, 1), (0x1C4, 0x1C4, 1), (0x1C7, 0x1C7, 1), (0x1CA, 0x1CA, 1), (0x1CD, 0x1DB, 2),
   (0x1DE, 0x1EE, 2), (0x1F1, 0x1F1, 1), (0x1F4, 0x1F4, 1), (0x1F6, 0x1F8, 1), (0x1FA, 0x232, 2),
   (0x23A, 0x23B, 1), (0x23D, 0x23E, 1), (0x241, 0x241, 1), (0x243, 0x246, 1), (0x248, 0x24E, 2),
   (0x370, 0x372, 2), (0x376, 0x376, 1), (0x37F, 0x37F, 1), (0x386, 0x386, 1), (0x388, 0x38A, 1),
   (0x38C, 0x38C, 1), (0x38E, 0x38F, 1), (0x391, 0x3A1, 1), (0x3A3, 0x3AB, 1), (0x3CF, 0x3CF, 1),
   (0x3D2, 0x3D4, 1), (0x3D8, 0x3EE, 2), (0x3F4, 0x3F4, 1), (0x3F7, 0x3F7, 1), (0x3F9, 0x3FA, 1),
   (0x3FD, 0x3FF, 1)]"

definition upper_cyrillic :: range_table where
  "upper_cyrillic = [
   (0x400, 0x42F, 1), (0x460, 0x480, 2), (0x48A, 0x4BE, 2), (0x4C0, 0x4C1, 1), (0x4C3, 0x4CD, 2),
   (0x4D0, 0x52E, 2)]"

definition upper_high :: range_table where
  "upper_high = [
   (0x531, 0x556, 1), (0x10A0, 0x10C5, 1), (0x10C7, 0x10C7, 1), (0x10CD, 0x10CD, 1),
   (0x13A0, 0x13F5, 1), (0x1C90, 0x1CBA, 1), (0x1CBD, 0x1CBF, 1), (0x1E00, 0x1E94, 2),
   (0x1E9E, 0x1EFE, 2), (0x1F08, 0x1F0F, 1), (0x1F18, 0x1F1D, 1), (0x1F28, 0x1F2F, 1),
   (0x1F38, 0x1F3F, 1), (0x1F48, 0x1F4D, 1), (0x1F59, 0x1F5F, 2), (0x1F68, 0x1F6F, 1),
   (0x1FB8, 0x1FBB, 1), (0x1FC8, 0x1FCB, 1), (0x1FD8, 0x1FDB, 1), (0x1FE8, 0x1FEC, 1),
   (0x1FF8, 0x1FFB, 1), (0x2102, 0x2102, 1), (0x2107, 0x2107, 1), (0x210B, 0x210D, 1),
   (0x2110, 0x2112, 1), (0x2115, 0x2115, 1), (0x2119, 0x211D, 1), (0x2124, 0x2128, 2),
   (0x212A, 0x212D, 1), (0x2130, 0x2133, 1), (0x213E, 0x213F, 1), (0x2145, 0x2145, 1),
   (0x2183, 0x2183, 1), (0x2C00, 0x2C2F, 1), (0x2C60, 0x2C60, 1), (0x2C62, 0x2C64, 1),
   (0x2C67, 0x2C6B, 2), (0x2C6D, 0x2C70, 1), (0x2C72, 0x2C72, 1), (0x2C75, 0x2C75, 1),
   (0x2C7E, 0x2C80, 1), (0x2C82, 0x2CE2, 2), (0x2CEB, 0x2CED, 2), (0x2CF2, 0x2CF2, 1),
   (0xA640, 0xA66C, 2), (0xA680, 0xA69A, 2), (0xA722, 0xA72E, 2), (0xA732, 0xA76E, 2),
   (0xA779, 0xA77B, 2), (0xA77D, 0xA77E, 1), (0xA780, 0xA786, 2), (0xA78B, 0xA78D, 2),
   (0xA790, 0xA792, 2), (0xA796, 0xA7A8, 2), (0xA7AA, 0xA7AE, 1), (0xA7B0, 0xA7B4, 1),
   (0xA7B6, 0xA7C2, 2), (0xA7C4, 0xA7C7, 1), (0xA7C9, 0xA7C9, 1), (0xA7D0, 0xA7D0, 1),
   (0xA7D6, 0xA7D8, 2), (0xA7F5, 0xA7F5, 1), (0xFF21, 0xFF3A, 1), (0x10400, 0x10427, 1),
   (0x104B0, 0x104D3, 1), (0x10570, 0x1057A, 1), (0x1057C, 0x1058A, 1), (0x1058C, 0x10592, 1),
   (0x10594, 0x10595, 1), (0x10C80, 0x10CB2, 1), (0x118A0, 0x118BF, 1), (0x16E40, 0x16E5F, 1),
   (0x1D400, 0x1D419, 1), (0x1D434, 0x1D44D, 1), (0x1D468, 0x1D481, 1), (0x1D49C, 0x1D49C, 1),
   (0x1D49E, 0x1D49F, 1), (0x1D4A2, 0x1D4A2, 1), (0x1D4A5, 0x1D4A6, 1), (0x1D4A9, 0x1D4AC, 1),
   (0x1D4AE, 0x1D4B5, 1), (0x1D4D0, 0x1D4E9, 1), (0x1D504, 0x1D505, 1), (0x1D507, 0x1D50A, 1),
   (0x1D50D, 0x1D514, 1), (0x1D516, 0x1D51C, 1), (0x1D538, 0x1D539, 1), (0x1D53B, 0x1D53E, 1),
   (0x1D540, 0x1D544, 1), (0x1D546, 0x1D546, 1), (0x1D54A, 0x1D550, 1), (0x1D56C, 0x1D585, 1),
   (0x1D5A0, 0x1D5B9, 1), (0x1D5D4, 0x1D5ED, 1), (0x1D608, 0x1D621, 1), (0x1D63C, 0x1D655, 1),
   (0x1D670, 0x1D689, 1), (0x1D6A8, 0x1D6C0, 1), (0x1D6E2, 0x1D6FA, 1), (0x1D71C, 0x1D734, 1),
   (0x1D756, 0x1D76E, 1), (0x1D790, 0x1D7A8, 1), (0x1D7CA, 0x1D7CA, 1), (0x1E900, 0x1E921, 1)]"

definition lower_latin :: range_table where
  "lower_latin = [
   (0x61, 0x7A, 1), (0xB5, 0xB5, 1), (0xDF, 0xF6, 1), (0xF8, 0xFF, 1), (0x101, 0x135, 2),
   (0x137, 0x138, 1), (0x13A, 0x146, 2), (0x148, 0x149, 1), (0x14B, 0x177, 2), (0x17A, 0x17C, 2),
   (0x17E, 0x180, 1), (0x183, 0x185, 2), (0x188, 0x188, 1), (0x18C, 0x18D, 1), (0x192, 0x192, 1),
   (0x195, 0x195, 1), (0x199, 0x19B, 1), (0x19E, 0x19E, 1), (0x1A1, 0x1A5, 2), (0x1A8, 0x1A8, 1),
   (0x1AA, 0x1AB, 1), (0x1AD, 0x1AD, 1), (0x1B0, 0x1B0, 1), (0x1B4, 0x1B6, 2), (0x1B9, 0x1BA, 1),
   (0x1BD, 0x1BF, 1), (0x1C6, 0x1C6, 1), (0x1C9, 0x1C9, 1), (0x1CC, 0x1DA, 2), (0x1DC, 0x1DD, 1),
   (0x1DF, 0x1ED, 2), (0x1EF, 0x1F0, 1), (0x1F3, 0x1F5, 2), (0x1F9, 0x231, 2), (0x233, 0x239, 1),
   (0x23C, 0x23C, 1), (0x23F, 0x240, 1), (0x242, 0x242, 1), (0x247, 0x24D, 2), (0x24F, 0x293, 1),
   (0x295, 0x2AF, 1), (0x371, 0x373, 2), (0x377, 0x377, 1), (0x37B, 0x37D, 1), (0x390, 0x390, 1),
   (0x3AC, 0x3CE, 1), (0x3D0, 0x3D1, 1), (0x3D5, 0x3D7, 1), (0x3D9, 0x3ED, 2), (0x3EF, 0x3F3, 1),
   (0x3F5, 0x3F5, 1), (0x3F8, 0x3F8, 1), (0x3FB, 0x3FC, 1)]"

definition lower_cyrillic :: range_table where
  "lower_cyrillic = [
   (0x430, 0x45F, 1), (0x461, 0x481, 2), (0x48B, 0x4BF, 2), (0x4C2, 0x4CC, 2), (0x4CE, 0x4CF, 1),
   (0x4D1, 0x52F, 2)]"

definition lower_high :: range_table where
  "lower_high = [
   (0x560, 0x588, 1), (0x10D0, 0x10FA, 1), (0x10FD, 0x10FF, 1), (0x13F8, 0x13FD, 1),
   (0x1C80, 0x1C88, 1), (0x1D00, 0x1D2B, 1), (0x1D6B, 0x1D77, 1), (0x1D79, 0x1D9A, 1),
   (0x1E01, 0x1E93, 2), (0x1E95, 0x1E9D, 1), (0x1E9F, 0x1EFD, 2), (0x1EFF, 0x1F07, 1),
   (0x1F10, 0x1F15, 1), (0x1F20, 0x1F27, 1), (0x1F30, 0x1F37, 1), (0x1F40, 0x1F45, 1),
   (0x1F50, 0x1F57, 1), (0x1F60, 0x1F67, 1), (0x1F70, 0x1F7D, 1), (0x1F80, 0x1F87, 1),
   (0x1F90, 0x1F97, 1), (0x1FA0, 0x1FA7, 1), (0x1FB0, 0x1FB4, 1), (0x1FB6, 0x1FB7, 1),
   (0x1FBE, 0x1FBE, 1), (0x1FC2, 0x1FC4, 1), (0x1FC6, 0x1FC7, 1), (0x1FD0, 0x1FD3, 1),
   (0x1FD6, 0x1FD7, 1), (0x1FE0, 0x1FE7, 1), (0x1FF2, 0x1FF4, 1), (0x1FF6, 0x1FF7, 1),
   (0x210A, 0x210A, 1), (0x210E, 0x210F, 1), (0x2113, 0x2113, 1), (0x212F, 0x212F, 1),
   (0x2134, 0x2134, 1), (0x2139, 0x2139, 1), (0x213C, 0x213D, 1), (0x2146, 0x2149, 1),
   (0x214E, 0x214E, 1), (0x2184, 0x2184, 1), (0x2C30, 0x2C5F, 1), (0x2C61, 0x2C61, 1),
   (0x2C65, 0x2C66, 1), (0x2C68, 0x2C6C, 2), (0x2C71, 0x2C71, 1), (0x2C73, 0x2C74, 1),
   (0x2C76, 0x2C7B, 1), (0x2C81, 0x2CE1, 2), (0x2CE3, 0x2CE4, 1), (0x2CEC, 0x2CEE, 2),
   (0x2CF3, 0x2CF3, 1), (0x2D00, 0x2D25, 1), (0x2D27, 0x2D27, 1), (0x2D2D, 0x2D2D, 1),
   (0xA641, 0xA66D, 2), (0xA681, 0xA69B, 2), (0xA723, 0xA72D, 2), (0xA72F, 0xA731, 1),
   (0xA733, 0xA76F, 2), (0xA771, 0xA778, 1), (0xA77A, 0xA77C, 2), (0xA77F, 0xA787, 2),
   (0xA78C, 0xA78E, 2), (0xA791, 0xA791, 1), (0xA793, 0xA795, 1), (0xA797, 0xA7A9, 2),
   (0xA7AF, 0xA7AF, 1), (0xA7B5, 0xA7C3, 2), (0xA7C8, 0xA7CA, 2), (0xA7D1, 0xA7D9, 2),
   (0xA7F6, 0xA7F6, 1), (0xA7FA, 0xA7FA, 1), (0xAB30, 0xAB5A, 1), (0xAB60, 0xAB68, 1),
   (0xAB70, 0xABBF, 1), (0xFB00, 0xFB06, 1), (0xFB13, 0xFB17, 1), (0xFF41, 0xFF5A, 1),
   (0x10428, 0x1044F, 1), (0x104D8, 0x104FB, 1), (0x10597, 0x105A1, 1), (0x105A3, 0x105B1, 1),
   (0x105B3, 0x105B9, 1), (0x105BB, 0x105BC, 1), (0x10CC0, 0x10CF2, 1), (0x118C0, 0x118DF, 1),
   (0x16E60, 0x16E7F, 1), (0x1D41A, 0x1D433, 1), (0x1D44E, 0x1D454, 1), (0x1D456, 0x1D467, 1),
   (0x1D482, 0x1D49B, 1), (0x1D4B6, 0x1D4B9, 1), (0x1D4BB, 0x1D4BB, 1), (0x1D4BD, 0x1D4C3, 1),
   (0x1D4C5, 0x1D4CF, 1), (0x1D4EA, 0x1D503, 1), (0x1D51E, 0x1D537, 1), (0x1D552, 0x1D56B, 1),
   (0x1D586, 0x1D59F, 1), (0x1D5BA, 0x1D5D3, 1), (0x1D5EE, 0x1D607, 1), (0x1D622, 0x1D63B, 1),
   (0x1D656, 0x1D66F, 1), (0x1D68A, 0x1D6A5, 1), (0x1D6C2, 0x1D6DA, 1), (0x1D6DC, 0x1D6E1, 1),
   (0x1D6FC, 0x1D714, 1), (0x1D716, 0x1D71B, 1), (0x1D736, 0x1D74E, 1), (0x1D750, 0x1D755, 1),
   (0x1D770, 0x1D788, 1), (0x1D78A, 0x1D78F, 1), (0x1D7AA, 0x1D7C2, 1), (0x1D7C4, 0x1D7C9, 1),
   (0x1D7CB, 0x1D7CB, 1), (0x1DF00, 0x1DF09, 1), (0x1DF0B, 0x1DF1E, 1), (0x1DF25, 0x1DF2A, 1),
   (0x1E922, 0x1E943, 1)]"

definition mark_latin :: range_table where
  "mark_latin = [
   (0x300, 0x36F, 1)]"

definition mark_cyrillic :: range_table where
  "mark_cyrillic = [
   (0x483, 0x489, 1)]"

definition mark_high :: range_table where
  "mark_high = [
   (0x591, 0x5BD, 1), (0x5BF, 0x5BF, 1), (0x5C1, 0x5C2, 1), (0x5C4, 0x5C5, 1), (0x5C7, 0x5C7, 1),
   (0x610, 0x61A, 1), (0x64B, 0x65F, 1), (0x670, 0x670, 1), (0x6D6, 0x6DC, 1), (0x6DF, 0x6E4, 1),
   (0x6E7, 0x6E8, 1), (0x6EA, 0x6ED, 1), (0x711, 0x711, 1), (0x730, 0x74A, 1), (0x7A6, 0x7B0, 1),
   (0x7EB, 0x7F3, 1), (0x7FD, 0x7FD, 1), (0x816, 0x819, 1), (0x81B, 0x823, 1), (0x825, 0x827, 1),
   (0x829, 0x82D, 1), (0x859, 0x85B, 1), (0x898, 0x89F, 1), (0x8CA, 0x8E1, 1), (0x8E3, 0x903, 1),
   (0x93A, 0x93C, 1), (0x93E, 0x94F, 1), (0x951, 0x957, 1), (0x962, 0x963, 1), (0x981, 0x983, 1),
   (0x9BC, 0x9BC, 1), (0x9BE, 0x9C4, 1), (0x9C7, 0x9C8, 1), (0x9CB, 0x9CD, 1), (0x9D7, 0x9D7, 1),
   (0x9E2, 0x9E3, 1), (0x9FE, 0x9FE, 1), (0xA01, 0xA03, 1), (0xA3C, 0xA3C, 1), (0xA3E, 0xA42, 1),
   (0xA47, 0xA48, 1), (0xA4B, 0xA4D, 1), (0xA51, 0xA51, 1), (0xA70, 0xA71, 1), (0xA75, 0xA75, 1),
   (0xA81, 0xA83, 1), (0xABC, 0xABC, 1), (0xABE, 0xAC5, 1), (0xAC7, 0xAC9, 1), (0xACB, 0xACD, 1),
   (0xAE2, 0xAE3, 1), (0xAFA, 0xAFF, 1), (0xB01, 0xB03, 1), (0xB3C, 0xB3C, 1), (0xB3E, 0xB44, 1),
   (0xB47, 0xB48, 1), (0xB4B, 0xB4D, 1), (0xB55, 0xB57, 1), (0xB62, 0xB63, 1), (0xB82, 0xB82, 1),
   (0xBBE, 0xBC2, 1), (0xBC6, 0xBC8, 1), (0xBCA, 0xBCD, 1), (0xBD7, 0xBD7, 1), (0xC00, 0xC04, 1),
   (0xC3C, 0xC3C, 1), (0xC3E, 0xC44, 1), (0xC46, 0xC48, 1), (0xC4A, 0xC4D, 1), (0xC55, 0xC56, 1),
   (0xC62, 0xC63, 1), (0xC81, 0xC83, 1), (0xCBC, 0xCBC, 1), (0xCBE, 0xCC4, 1), (0xCC6, 0xCC8, 1),
   (0xCCA, 0xCCD, 1), (0xCD5, 0xCD6, 1), (0xCE2, 0xCE3, 1), (0xCF3, 0xCF3, 1), (0xD00, 0xD03, 1),
   (0xD3B, 0xD3C, 1), (0xD3E, 0xD44, 1), (0xD46, 0xD48, 1), (0xD4A, 0xD4D, 1), (0xD57, 0xD57, 1),
   (0xD62, 0xD63, 1), (0xD81, 0xD83, 1), (0xDCA, 0xDCA, 1), (0xDCF, 0xDD4, 1), (0xDD6, 0xDD6, 1),
   (0xDD8, 0xDDF, 1), (0xDF2, 0xDF3, 1), (0xE31, 0xE31, 1), (0xE34, 0xE3A, 1), (0xE47, 0xE4E, 1),
   (0xEB1, 0xEB1, 1), (0xEB4, 0xEBC, 1), (0xEC8, 0xECE, 1), (0xF18, 0xF19, 1), (0xF35, 0xF39, 2),
   (0xF3E, 0xF3F, 1), (0xF71, 0xF84, 1), (0xF86, 0xF87, 1), (0xF8D, 0xF97, 1), (0xF99, 0xFBC, 1),
   (0xFC6, 0xFC6, 1), (0x102B, 0x103E, 1), (0x1056, 0x1059, 1), (0x105E, 0x1060, 1),
   (0x1062, 0x1064, 1), (0x1067, 0x106D, 1), (0x1071, 0x1074, 1), (0x1082, 0x108D, 1),
   (0x108F, 0x108F, 1), (0x109A, 0x109D, 1), (0x135D, 0x135F, 1), (0x1712, 0x1715, 1),
   (0x1732, 0x1734, 1), (0x1752, 0x1753, 1), (0x1772, 0x1773, 1), (0x17B4, 0x17D3, 1),
   (0x17DD, 0x17DD, 1), (0x180B, 0x180D, 1), (0x180F, 0x180F, 1), (0x1885, 0x1886, 1),
   (0x18A9, 0x18A9, 1), (0x1920, 0x192B, 1), (0x1930, 0x193B, 1), (0x1A17, 0x1A1B, 1),
   (0x1A55, 0x1A5E, 1), (0x1A60, 0x1A7C, 1), (0x1A7F, 0x1A7F, 1), (0x1AB0, 0x1ACE, 1),
   (0x1B00, 0x1B04, 1), (0x1B34, 0x1B44, 1), (0x1B6B, 0x1B73, 1), (0x1B80, 0x1B82, 1),
   (0x1BA1, 0x1BAD, 1), (0x1BE6, 0x1BF3, 1), (0x1C24, 0x1C37, 1), (0x1CD0, 0x1CD2, 1),
   (0x1CD4, 0x1CE8, 1), (0x1CED, 0x1CED, 1), (0x1CF4, 0x1CF4, 1), (0x1CF7, 0x1CF9, 1),
   (0x1DC0, 0x1DFF, 1), (0x20D0, 0x20F0, 1), (0x2CEF, 0x2CF1, 1), (0x2D7F, 0x2D7F, 1),
   (0x2DE0, 0x2DFF, 1), (0x302A, 0x302F, 1), (0x3099, 0x309A, 1), (0xA66F, 0xA672, 1),
   (0xA674, 0xA67D, 1), (0xA69E, 0xA69F, 1), (0xA6F0, 0xA6F1, 1), (0xA802, 0xA802, 1),
   (0xA806, 0xA806, 1), (0xA80B, 0xA80B, 1), (0xA823, 0xA827, 1), (0xA82C, 0xA82C, 1),
   (0xA880, 0xA881, 1), (0xA8B4, 0xA8C5, 1), (0xA8E0, 0xA8F1, 1), (0xA8FF, 0xA8FF, 1),
   (0xA926, 0xA92D, 1), (0xA947, 0xA953, 1), (0xA980, 0xA983, 1), (0xA9B3, 0xA9C0, 1),
   (0xA9E5, 0xA9E5, 1), (0xAA29, 0xAA36, 1), (0xAA43, 0xAA43, 1), (0xAA4C, 0xAA4D, 1),
   (0xAA7B, 0xAA7D, 1), (0xAAB0, 0xAAB0, 1), (0xAAB2, 0xAAB4, 1), (0xAAB7, 0xAAB8, 1),
   (0xAABE, 0xAABF, 1), (0xAAC1, 0xAAC1, 1), (0xAAEB, 0xAAEF, 1), (0xAAF5, 0xAAF6, 1),
   (0xABE3, 0xABEA, 1), (0xABEC, 0xABED, 1), (0xFB1E, 0xFB1E, 1), (0xFE00, 0xFE0F, 1),
   (0xFE20, 0xFE2F, 1), (0x101FD, 0x101FD, 1), (0x102E0, 0x102E0, 1), (0x10376, 0x1037A, 1),
   (0x10A01, 0x10A03, 1), (0x10A05, 0x10A06, 1), (0x10A0C, 0x10A0F, 1), (0x10A38, 0x10A3A, 1),
   (0x10A3F, 0x10A3F, 1), (0x10AE5, 0x10AE6, 1), (0x10D24, 0x10D27, 1), (0x10EAB, 0x10EAC, 1),
   (0x10EFD, 0x10EFF, 1), (0x10F46, 0x10F50, 1), (0x10F82, 0x10F85, 1), (0x11000, 0x11002, 1),
   (0x11038, 0x11046, 1), (0x11070, 0x11070, 1), (0x11073, 0x11074, 1), (0x1107F, 0x11082, 1),
   (0x110B0, 0x110BA, 1), (0x110C2, 0x110C2, 1), (0x11100, 0x11102, 1), (0x11127, 0x11134, 1),
   (0x11145, 0x11146, 1), (0x11173, 0x11173, 1), (0x11180, 0x11182, 1), (0x111B3, 0x111C0, 1),
   (0x111C9, 0x111CC, 1), (0x111CE, 0x111CF, 1), (0x1122C, 0x11237, 1), (0x1123E, 0x1123E, 1),
   (0x11241, 0x11241, 1), (0x112DF, 0x112EA, 1), (0x11300, 0x11303, 1), (0x1133B, 0x1133C, 1),
   (0x1133E, 0x11344, 1), (0x11347, 0x11348, 1), (0x1134B, 0x1134D, 1), (0x11357, 0x11357, 1),
   (0x11362, 0x11363, 1), (0x11366, 0x1136C, 1), (0x11370, 0x11374, 1), (0x11435, 0x11446, 1),
   (0x1145E, 0x1145E, 1), (0x114B0, 0x114C3, 1), (0x115AF, 0x115B5, 1), (0x115B8, 0x115C0, 1),
   (0x115DC, 0x115DD, 1), (0x11630, 0x11640, 1), (0x116AB, 0x116B7, 1), (0x1171D, 0x1172B, 1),
   (0x1182C, 0x1183A, 1), (0x11930, 0x11935, 1), (0x11937, 0x11938, 1), (0x1193B, 0x1193E, 1),
   (0x11940, 0x11940, 1), (0x11942, 0x11943, 1), (0x119D1, 0x119D7, 1), (0x119DA, 0x119E0, 1),
   (0x119E4, 0x119E4, 1), (0x11A01, 0x11A0A, 1), (0x11A33, 0x11A39, 1), (0x11A3B, 0x11A3E, 1),
   (0x11A47, 0x11A47, 1), (0x11A51, 0x11A5B, 1), (0x11A8A, 0x11A99, 1), (0x11C2F, 0x11C36, 1),
   (0x11C38, 0x11C3F, 1), (0x11C92, 0x11CA7, 1), (0x11CA9, 0x11CB6, 1), (0x11D31, 0x11D36, 1),
   (0x11D3A, 0x11D3A, 1), (0x11D3C, 0x11D3D, 1), (0x11D3F, 0x11D45, 1), (0x11D47, 0x11D47, 1),
   (0x11D8A, 0x11D8E, 1), (0x11D90, 0x11D91, 1), (0x11D93, 0x11D97, 1), (0x11EF3, 0x11EF6, 1),
   (0x11F00, 0x11F01, 1), (0x11F03, 0x11F03, 1), (0x11F34, 0x11F3A, 1), (0x11F3E, 0x11F42, 1),
   (0x13440, 0x13440, 1), (0x13447, 0x13455, 1), (0x16AF0, 0x16AF4, 1), (0x16B30, 0x16B36, 1),
   (0x16F4F, 0x16F4F, 1), (0x16F51, 0x16F87, 1), (0x16F8F, 0x16F92, 1), (0x16FE4, 0x16FE4, 1),
   (0x16FF0, 0x16FF1, 1), (0x1BC9D, 0x1BC9E, 1), (0x1CF00, 0x1CF2D, 1), (0x1CF30, 0x1CF46, 1),
   (0x1D165, 0x1D169, 1), (0x1D16D, 0x1D172, 1), (0x1D17B, 0x1D182, 1), (0x1D185, 0x1D18B, 1),
   (0x1D1AA, 0x1D1AD, 1), (0x1D242, 0x1D244, 1), (0x1DA00, 0x1DA36, 1), (0x1DA3B, 0x1DA6C, 1),
   (0x1DA75, 0x1DA75, 1), (0x1DA84, 0x1DA84, 1), (0x1DA9B, 0x1DA9F, 1), (0x1DAA1, 0x1DAAF, 1),
   (0x1E000, 0x1E006, 1), (0x1E008, 0x1E018, 1), (0x1E01B, 0x1E021, 1), (0x1E023, 0x1E024, 1),
   (0x1E026, 0x1E02A, 1), (0x1E08F, 0x1E08F, 1), (0x1E130, 0x1E136, 1), (0x1E2AE, 0x1E2AE, 1),
   (0x1E2EC, 0x1E2EF, 1), (0x1E4EC, 0x1E4EF, 1), (0x1E8D0, 0x1E8D6, 1), (0x1E944, 0x1E94A, 1),
   (0xE0100, 0xE01EF, 1)]"

definition digit_latin :: range_table where
  "digit_latin = [
   (0x30, 0x39, 1)]"

definition digit_cyrillic :: range_table where
  "digit_cyrillic = []"

definition digit_high :: range_table where
  "digit_high = [
   (0x660, 0x669, 1), (0x6F0, 0x6F9, 1), (0x7C0, 0x7C9, 1), (0x966, 0x96F, 1), (0x9E6, 0x9EF, 1),
   (0xA66, 0xA6F, 1), (0xAE6, 0xAEF, 1), (0xB66, 0xB6F, 1), (0xBE6, 0xBEF, 1), (0xC66, 0xC6F, 1),
   (0xCE6, 0xCEF, 1), (0xD66, 0xD6F, 1), (0xDE6, 0xDEF, 1), (0xE50, 0xE59, 1), (0xED0, 0xED9, 1),
   (0xF20, 0xF29, 1), (0x1040, 0x1049, 1), (0x1090, 0x1099, 1), (0x17E0, 0x17E9, 1),
   (0x1810, 0x1819, 1), (0x1946, 0x194F, 1), (0x19D0, 0x19D9, 1), (0x1A80, 0x1A89, 1),
   (0x1A90, 0x1A99, 1), (0x1B50, 0x1B59, 1), (0x1BB0, 0x1BB9, 1), (0x1C40, 0x1C49, 1),
   (0x1C50, 0x1C59, 1), (0xA620, 0xA629, 1), (0xA8D0, 0xA8D9, 1), (0xA900, 0xA909, 1),
   (0xA9D0, 0xA9D9, 1), (0xA9F0, 0xA9F9, 1), (0xAA50, 0xAA59, 1), (0xABF0, 0xABF9, 1),
   (0xFF10, 0xFF19, 1), (0x104A0, 0x104A9, 1), (0x10D30, 0x10D39, 1), (0x11066, 0x1106F, 1),
   (0x110F0, 0x110F9, 1), (0x11136, 0x1113F, 1), (0x111D0, 0x111D9, 1), (0x112F0, 0x112F9, 1),
   (0x11450, 0x11459, 1), (0x114D0, 0x114D9, 1), (0x11650, 0x11659, 1), (0x116C0, 0x116C9, 1),
   (0x11730, 0x11739, 1), (0x118E0, 0x118E9, 1), (0x11950, 0x11959, 1), (0x11C50, 0x11C59, 1),
   (0x11D50, 0x11D59, 1), (0x11DA0, 0x11DA9, 1), (0x11F50, 0x11F59, 1), (0x16A60, 0x16A69, 1),
   (0x16AC0, 0x16AC9, 1), (0x16B50, 0x16B59, 1), (0x1D7CE, 0x1D7FF, 1), (0x1E140, 0x1E149, 1),
   (0x1E2F0, 0x1E2F9, 1), (0x1E4F0, 0x1E4F9, 1), (0x1E950, 0x1E959, 1), (0x1FBF0, 0x1FBF9, 1)]"

definition number_latin :: range_table where
  "number_latin = [
   (0x30, 0x39, 1), (0xB2, 0xB3, 1), (0xB9, 0xB9, 1), (0xBC, 0xBE, 1)]"

definition number_cyrillic :: range_table where
  "number_cyrillic = []"

definition number_high :: range_table where
  "number_high = [
   (0x660, 0x669, 1), (0x6F0, 0x6F9, 1), (0x7C0, 0x7C9, 1), (0x966, 0x96F, 1), (0x9E6, 0x9EF, 1),
   (0x9F4, 0x9F9, 1), (0xA66, 0xA6F, 1), (0xAE6, 0xAEF, 1), (0xB66, 0xB6F, 1), (0xB72, 0xB77, 1),
   (0xBE6, 0xBF2, 1), (0xC66, 0xC6F, 1), (0xC78, 0xC7E, 1), (0xCE6, 0xCEF, 1), (0xD58, 0xD5E, 1),
   (0xD66, 0xD78, 1), (0xDE6, 0xDEF, 1), (0xE50, 0xE59, 1), (0xED0, 0xED9, 1), (0xF20, 0xF33, 1),
   (0x1040, 0x1049, 1), (0x1090, 0x1099, 1), (0x1369, 0x137C, 1), (0x16EE, 0x16F0, 1),
   (0x17E0, 0x17E9, 1), (0x17F0, 0x17F9, 1), (0x1810, 0x1819, 1), (0x1946, 0x194F, 1),
   (0x19D0, 0x19DA, 1), (0x1A80, 0x1A89, 1), (0x1A90, 0x1A99, 1), (0x1B50, 0x1B59, 1),
   (0x1BB0, 0x1BB9, 1), (0x1C40, 0x1C49, 1), (0x1C50, 0x1C59, 1), (0x2070, 0x2070, 1),
   (0x2074, 0x2079, 1), (0x2080, 0x2089, 1), (0x2150, 0x2182, 1), (0x2185, 0x2189, 1),
   (0x2460, 0x249B, 1), (0x24EA, 0x24FF, 1), (0x2776, 0x2793, 1), (0x2CFD, 0x2CFD, 1),
   (0x3007, 0x3007, 1), (0x3021, 0x3029, 1), (0x3038, 0x303A, 1), (0x3192, 0x3195, 1),
   (0x3220, 0x3229, 1), (0x3248, 0x324F, 1), (0x3251, 0x325F, 1), (0x3280, 0x3289, 1),
   (0x32B1, 0x32BF, 1), (0xA620, 0xA629, 1), (0xA6E6, 0xA6EF, 1), (0xA830, 0xA835, 1),
   (0xA8D0, 0xA8D9, 1), (0xA900, 0xA909, 1), (0xA9D0, 0xA9D9, 1), (0xA9F0, 0xA9F9, 1),
   (0xAA50, 0xAA59, 1), (0xABF0, 0xABF9, 1), (0xFF10, 0xFF19, 1), (0x10107, 0x10133, 1),
   (0x10140, 0x10178, 1), (0x1018A, 0x1018B, 1), (0x102E1, 0x102FB, 1), (0x10320, 0x10323, 1),
   (0x10341, 0x10341, 1), (0x1034A, 0x1034A, 1), (0x103D1, 0x103D5, 1), (0x104A0, 0x104A9, 1),
   (0x10858, 0x1085F, 1), (0x10879, 0x1087F, 1), (0x108A7, 0x108AF, 1), (0x108FB, 0x108FF, 1),
   (0x10916, 0x1091B, 1), (0x109BC, 0x109BD, 1), (0x109C0, 0x109CF, 1), (0x109D2, 0x109FF, 1),
   (0x10A40, 0x10A48, 1), (0x10A7D, 0x10A7E, 1), (0x10A9D, 0x10A9F, 1), (0x10AEB, 0x10AEF, 1),
   (0x10B58, 0x10B5F, 1), (0x10B78, 0x10B7F, 1), (0x10BA9, 0x10BAF, 1), (0x10CFA, 0x10CFF, 1),
   (0x10D30, 0x10D39, 1), (0x10E60, 0x10E7E, 1), (0x10F1D, 0x10F26, 1), (0x10F51, 0x10F54, 1),
   (0x10FC5, 0x10FCB, 1), (0x11052, 0x1106F, 1), (0x110F0, 0x110F9, 1), (0x11136, 0x1113F, 1),
   (0x111D0, 0x111D9, 1), (0x111E1, 0x111F4, 1), (0x112F0, 0x112F9, 1), (0x11450, 0x11459, 1),
   (0x114D0, 0x114D9, 1), (0x11650, 0x11659, 1), (0x116C0, 0x116C9, 1), (0x11730, 0x1173B, 1),
   (0x118E0, 0x118F2, 1), (0x11950, 0x11959, 1), (0x11C50, 0x11C6C, 1), (0x11D50, 0x11D59, 1),
   (0x11DA0, 0x11DA9, 1), (0x11F50, 0x11F59, 1), (0x11FC0, 0x11FD4, 1), (0x12400, 0x1246E, 1),
   (0x16A60, 0x16A69, 1), (0x16AC0, 0x16AC9, 1), (0x16B50, 0x16B59, 1), (0x16B5B, 0x16B61, 1),
   (0x16E80, 0x16E96, 1), (0x1D2C0, 0x1D2D3, 1), (0x1D2E0, 0x1D2F3, 1), (0x1D360, 0x1D378, 1),
   (0x1D7CE, 0x1D7FF, 1), (0x1E140, 0x1E149, 1), (0x1E2F0, 0x1E2F9, 1), (0x1E4F0, 0x1E4F9, 1),
   (0x1E8C7, 0x1E8CF, 1), (0x1E950, 0x1E959, 1), (0x1EC71, 0x1ECAB, 1), (0x1ECAD, 0x1ECAF, 1),
   (0x1ECB1, 0x1ECB4, 1), (0x1ED01, 0x1ED2D, 1), (0x1ED2F, 0x1ED3D, 1), (0x1F100, 0x1F10C, 1),
   (0x1FBF0, 0x1FBF9, 1)]"

definition space_separator_table :: range_table where
  "space_separator_table = [
   (0x20, 0x20, 1), (0xA0, 0xA0, 1), (0x1680, 0x1680, 1), (0x2000, 0x200A, 1),
   (0x202F, 0x202F, 1), (0x205F, 0x205F, 1), (0x3000, 0x3000, 1)]"

definition white_space_table :: range_table where
  "white_space_table = [
   (0x9, 0xD, 1), (0x20, 0x20, 1), (0x85, 0x85, 1), (0xA0, 0xA0, 1), (0x1680, 0x1680, 1),
   (0x2000, 0x200A, 1), (0x2028, 0x2029, 1), (0x202F, 0x202F, 1), (0x205F, 0x205F, 1),
   (0x3000, 0x3000, 1)]"

definition to_lower_latin :: case_table where
  "to_lower_latin = [
   (0x41, 0x5A, 1, 32), (0xC0, 0xD6, 1, 32), (0xD8, 0xDE, 1, 32), (0x100, 0x12E, 2, 1),
   (0x130, 0x130, 1, - 199), (0x132, 0x136, 2, 1), (0x139, 0x147, 2, 1), (0x14A, 0x176, 2, 1),
   (0x178, 0x178, 1, - 121), (0x179, 0x17D, 2, 1), (0x181, 0x181, 1, 210), (0x182, 0x184, 2, 1),
   (0x186, 0x186, 1, 206), (0x187, 0x187, 1, 1), (0x189, 0x18A, 1, 205), (0x18B, 0x18B, 1, 1),
   (0x18E, 0x18E, 1, 79), (0x18F, 0x18F, 1, 202), (0x190, 0x190, 1, 203), (0x191, 0x191, 1, 1),
   (0x193, 0x193, 1, 205), (0x194, 0x194, 1, 207), (0x196, 0x196, 1, 211),
   (0x197, 0x197, 1, 209), (0x198, 0x198, 1, 1), (0x19C, 0x19C, 1, 211), (0x19D, 0x19D, 1, 213),
   (0x19F, 0x19F, 1, 214), (0x1A0, 0x1A4, 2, 1), (0x1A6, 0x1A6, 1, 218), (0x1A7, 0x1A7, 1, 1),
   (0x1A9, 0x1A9, 1, 218), (0x1AC, 0x1AC, 1, 1), (0x1AE, 0x1AE, 1, 218), (0x1AF, 0x1AF, 1, 1),
   (0x1B1, 0x1B2, 1, 217), (0x1B3, 0x1B5, 2, 1), (0x1B7, 0x1B7, 1, 219), (0x1B8, 0x1B8, 1, 1),
   (0x1BC, 0x1BC, 1, 1), (0x1C4, 0x1C4, 1, 2), (0x1C5, 0x1C5, 1, 1), (0x1C7, 0x1C7, 1, 2),
   (0x1C8, 0x1C8, 1, 1), (0x1CA, 0x1CA, 1, 2), (0x1CB, 0x1DB, 2, 1), (0x1DE, 0x1EE, 2, 1),
   (0x1F1, 0x1F1, 1, 2), (0x1F2, 0x1F4, 2, 1), (0x1F6, 0x1F6, 1, - 97), (0x1F7, 0x1F7, 1, - 56),
   (0x1F8, 0x21E, 2, 1), (0x220, 0x220, 1, - 130), (0x222, 0x232, 2, 1),
   (0x23A, 0x23A, 1, 10795), (0x23B, 0x23B, 1, 1), (0x23D, 0x23D, 1, - 163),
   (0x23E, 0x23E, 1, 10792), (0x241, 0x241, 1, 1), (0x243, 0x243, 1, - 195),
   (0x244, 0x244, 1, 69), (0x245, 0x245, 1, 71), (0x246, 0x24E, 2, 1), (0x370, 0x372, 2, 1),
   (0x376, 0x376, 1, 1), (0x37F, 0x37F, 1, 116), (0x386, 0x386, 1, 38), (0x388, 0x38A, 1, 37),
   (0x38C, 0x38C, 1, 64), (0x38E, 0x38F, 1, 63), (0x391, 0x3A1, 1, 32), (0x3A3, 0x3AB, 1, 32),
   (0x3CF, 0x3CF, 1, 8), (0x3D8, 0x3EE, 2, 1), (0x3F4, 0x3F4, 1, - 60), (0x3F7, 0x3F7, 1, 1),
   (0x3F9, 0x3F9, 1, - 7), (0x3FA, 0x3FA, 1, 1), (0x3FD, 0x3FF, 1, - 130)]"

definition to_lower_cyrillic :: case_table where
  "to_lower_cyrillic = [
   (0x400, 0x40F, 1, 80), (0x410, 0x42F, 1, 32), (0x460, 0x480, 2, 1), (0x48A, 0x4BE, 2, 1),
   (0x4C0, 0x4C0, 1, 15), (0x4C1, 0x4CD, 2, 1), (0x4D0, 0x52E, 2, 1)]"

definition to_lower_high :: case_table where
  "to_lower_high = [
   (0x531, 0x556, 1, 48), (0x10A0, 0x10C5, 1, 7264), (0x10C7, 0x10C7, 1, 7264),
   (0x10CD, 0x10CD, 1, 7264), (0x13A0, 0x13EF, 1, 38864), (0x13F0, 0x13F5, 1, 8),
   (0x1C90, 0x1CBA, 1, - 3008), (0x1CBD, 0x1CBF, 1, - 3008), (0x1E00, 0x1E94, 2, 1),
   (0x1E9E, 0x1E9E, 1, - 7615), (0x1EA0, 0x1EFE, 2, 1), (0x1F08, 0x1F0F, 1, - 8),
   (0x1F18, 0x1F1D, 1, - 8), (0x1F28, 0x1F2F, 1, - 8), (0x1F38, 0x1F3F, 1, - 8),
   (0x1F48, 0x1F4D, 1, - 8), (0x1F59, 0x1F5F, 2, - 8), (0x1F68, 0x1F6F, 1, - 8),
   (0x1F88, 0x1F8F, 1, - 8), (0x1F98, 0x1F9F, 1, - 8), (0x1FA8, 0x1FAF, 1, - 8),
   (0x1FB8, 0x1FB9, 1, - 8), (0x1FBA, 0x1FBB, 1, - 74), (0x1FBC, 0x1FBC, 1, - 9),
   (0x1FC8, 0x1FCB, 1, - 86), (0x1FCC, 0x1FCC, 1, - 9), (0x1FD8, 0x1FD9, 1, - 8),
   (0x1FDA, 0x1FDB, 1, - 100), (0x1FE8, 0x1FE9, 1, - 8), (0x1FEA, 0x1FEB, 1, - 112),
   (0x1FEC, 0x1FEC, 1, - 7), (0x1FF8, 0x1FF9, 1, - 128), (0x1FFA, 0x1FFB, 1, - 126),
   (0x1FFC, 0x1FFC, 1, - 9), (0x2126, 0x2126, 1, - 7517), (0x212A, 0x212A, 1, - 8383),
   (0x212B, 0x212B, 1, - 8262), (0x2132, 0x2132, 1, 28), (0x2160, 0x216F, 1, 16),
   (0x2183, 0x2183, 1, 1), (0x24B6, 0x24CF, 1, 26), (0x2C00, 0x2C2F, 1, 48),
   (0x2C60, 0x2C60, 1, 1), (0x2C62, 0x2C62, 1, - 10743), (0x2C63, 0x2C63, 1, - 3814),
   (0x2C64, 0x2C64, 1, - 10727), (0x2C67, 0x2C6B, 2, 1), (0x2C6D, 0x2C6D, 1, - 10780),
   (0x2C6E, 0x2C6E, 1, - 10749), (0x2C6F, 0x2C6F, 1, - 10783), (0x2C70, 0x2C70, 1, - 10782),
   (0x2C72, 0x2C72, 1, 1), (0x2C75, 0x2C75, 1, 1), (0x2C7E, 0x2C7F, 1, - 10815),
   (0x2C80, 0x2CE2, 2, 1), (0x2CEB, 0x2CED, 2, 1), (0x2CF2, 0x2CF2, 1, 1),
   (0xA640, 0xA66C, 2, 1), (0xA680, 0xA69A, 2, 1), (0xA722, 0xA72E, 2, 1),
   (0xA732, 0xA76E, 2, 1), (0xA779, 0xA77B, 2, 1), (0xA77D, 0xA77D, 1, - 35332),
   (0xA77E, 0xA786, 2, 1), (0xA78B, 0xA78B, 1, 1), (0xA78D, 0xA78D, 1, - 42280),
   (0xA790, 0xA792, 2, 1), (0xA796, 0xA7A8, 2, 1), (0xA7AA, 0xA7AA, 1, - 42308),
   (0xA7AB, 0xA7AB, 1, - 42319), (0xA7AC, 0xA7AC, 1, - 42315), (0xA7AD, 0xA7AD, 1, - 42305),
   (0xA7AE, 0xA7AE, 1, - 42308), (0xA7B0, 0xA7B0, 1, - 42258), (0xA7B1, 0xA7B1, 1, - 42282),
   (0xA7B2, 0xA7B2, 1, - 42261), (0xA7B3, 0xA7B3, 1, 928), (0xA7B4, 0xA7C2, 2, 1),
   (0xA7C4, 0xA7C4, 1, - 48), (0xA7C5, 0xA7C5, 1, - 42307), (0xA7C6, 0xA7C6, 1, - 35384),
   (0xA7C7, 0xA7C9, 2, 1), (0xA7D0, 0xA7D0, 1, 1), (0xA7D6, 0xA7D8, 2, 1),
   (0xA7F5, 0xA7F5, 1, 1), (0xFF21, 0xFF3A, 1, 32), (0x10400, 0x10427, 1, 40),
   (0x104B0, 0x104D3, 1, 40), (0x10570, 0x1057A, 1, 39), (0x1057C, 0x1058A, 1, 39),
   (0x1058C, 0x10592, 1, 39), (0x10594, 0x10595, 1, 39), (0x10C80, 0x10CB2, 1, 64),
   (0x118A0, 0x118BF, 1, 32), (0x16E40, 0x16E5F, 1, 32), (0x1E900, 0x1E921, 1, 34)]"

definition to_upper_latin :: case_table where
  "to_upper_latin = [
   (0x61, 0x7A, 1, - 32), (0xB5, 0xB5, 1, 743), (0xE0, 0xF6, 1, - 32), (0xF8, 0xFE, 1, - 32),
   (0xFF, 0xFF, 1, 121), (0x101, 0x12F, 2, - 1), (0x131, 0x131, 1, - 232),
   (0x133, 0x137, 2, - 1), (0x13A, 0x148, 2, - 1), (0x14B, 0x177, 2, - 1),
   (0x17A, 0x17E, 2, - 1), (0x17F, 0x17F, 1, - 300), (0x180, 0x180, 1, 195),
   (0x183, 0x185, 2, - 1), (0x188, 0x188, 1, - 1), (0x18C, 0x18C, 1, - 1),
   (0x192, 0x192, 1, - 1), (0x195, 0x195, 1, 97), (0x199, 0x199, 1, - 1), (0x19A, 0x19A, 1, 163),
   (0x19E, 0x19E, 1, 130), (0x1A1, 0x1A5, 2, - 1), (0x1A8, 0x1A8, 1, - 1),
   (0x1AD, 0x1AD, 1, - 1), (0x1B0, 0x1B0, 1, - 1), (0x1B4, 0x1B6, 2, - 1),
   (0x1B9, 0x1B9, 1, - 1), (0x1BD, 0x1BD, 1, - 1), (0x1BF, 0x1BF, 1, 56), (0x1C5, 0x1C5, 1, - 1),
   (0x1C6, 0x1C6, 1, - 2), (0x1C8, 0x1C8, 1, - 1), (0x1C9, 0x1C9, 1, - 2),
   (0x1CB, 0x1CB, 1, - 1), (0x1CC, 0x1CC, 1, - 2), (0x1CE, 0x1DC, 2, - 1),
   (0x1DD, 0x1DD, 1, - 79), (0x1DF, 0x1EF, 2, - 1), (0x1F2, 0x1F2, 1, - 1),
   (0x1F3, 0x1F3, 1, - 2), (0x1F5, 0x1F5, 1, - 1), (0x1F9, 0x21F, 2, - 1),
   (0x223, 0x233, 2, - 1), (0x23C, 0x23C, 1, - 1), (0x23F, 0x240, 1, 10815),
   (0x242, 0x242, 1, - 1), (0x247, 0x24F, 2, - 1), (0x250, 0x250, 1, 10783),
   (0x251, 0x251, 1, 10780), (0x252, 0x252, 1, 10782), (0x253, 0x253, 1, - 210),
   (0x254, 0x254, 1, - 206), (0x256, 0x257, 1, - 205), (0x259, 0x259, 1, - 202),
   (0x25B, 0x25B, 1, - 203), (0x25C, 0x25C, 1, 42319), (0x260, 0x260, 1, - 205),
   (0x261, 0x261, 1, 42315), (0x263, 0x263, 1, - 207), (0x265, 0x265, 1, 42280),
   (0x266, 0x266, 1, 42308), (0x268, 0x268, 1, - 209), (0x269, 0x269, 1, - 211),
   (0x26A, 0x26A, 1, 42308), (0x26B, 0x26B, 1, 10743), (0x26C, 0x26C, 1, 42305),
   (0x26F, 0x26F, 1, - 211), (0x271, 0x271, 1, 10749), (0x272, 0x272, 1, - 213),
   (0x275, 0x275, 1, - 214), (0x27D, 0x27D, 1, 10727), (0x280, 0x280, 1, - 218),
   (0x282, 0x282, 1, 42307), (0x283, 0x283, 1, - 218), (0x287, 0x287, 1, 42282),
   (0x288, 0x288, 1, - 218), (0x289, 0x289, 1, - 69), (0x28A, 0x28B, 1, - 217),
   (0x28C, 0x28C, 1, - 71), (0x292, 0x292, 1, - 219), (0x29D, 0x29D, 1, 42261),
   (0x29E, 0x29E, 1, 42258), (0x345, 0x345, 1, 84), (0x371, 0x373, 2, - 1),
   (0x377, 0x377, 1, - 1), (0x37B, 0x37D, 1, 130), (0x3AC, 0x3AC, 1, - 38),
   (0x3AD, 0x3AF, 1, - 37), (0x3B1, 0x3C1, 1, - 32), (0x3C2, 0x3C2, 1, - 31),
   (0x3C3, 0x3CB, 1, - 32), (0x3CC, 0x3CC, 1, - 64), (0x3CD, 0x3CE, 1, - 63),
   (0x3D0, 0x3D0, 1, - 62), (0x3D1, 0x3D1, 1, - 57), (0x3D5, 0x3D5, 1, - 47),
   (0x3D6, 0x3D6, 1, - 54), (0x3D7, 0x3D7, 1, - 8), (0x3D9, 0x3EF, 2, - 1),
   (0x3F0, 0x3F0, 1, - 86), (0x3F1, 0x3F1, 1, - 80), (0x3F2, 0x3F2, 1, 7),
   (0x3F3, 0x3F3, 1, - 116), (0x3F5, 0x3F5, 1, - 96), (0x3F8, 0x3F8, 1, - 1),
   (0x3FB, 0x3FB, 1, - 1)]"

definition to_upper_cyrillic :: case_table where
  "to_upper_cyrillic = [
   (0x430, 0x44F, 1, - 32), (0x450, 0x45F, 1, - 80), (0x461, 0x481, 2, - 1),
   (0x48B, 0x4BF, 2, - 1), (0x4C2, 0x4CE, 2, - 1), (0x4CF, 0x4CF, 1, - 15), (0x4D1, 0x52F, 2, - 1)]"

definition to_upper_high :: case_table where
  "to_upper_high = [
   (0x561, 0x586, 1, - 48), (0x10D0, 0x10FA, 1, 3008), (0x10FD, 0x10FF, 1, 3008),
   (0x13F8, 0x13FD, 1, - 8), (0x1C80, 0x1C80, 1, - 6254), (0x1C81, 0x1C81, 1, - 6253),
   (0x1C82, 0x1C82, 1, - 6244), (0x1C83, 0x1C84, 1, - 6242), (0x1C85, 0x1C85, 1, - 6243),
   (0x1C86, 0x1C86, 1, - 6236), (0x1C87, 0x1C87, 1, - 6181), (0x1C88, 0x1C88, 1, 35266),
   (0x1D79, 0x1D79, 1, 35332), (0x1D7D, 0x1D7D, 1, 3814), (0x1D8E, 0x1D8E, 1, 35384),
   (0x1E01, 0x1E95, 2, - 1), (0x1E9B, 0x1E9B, 1, - 59), (0x1EA1, 0x1EFF, 2, - 1),
   (0x1F00, 0x1F07, 1, 8), (0x1F10, 0x1F15, 1, 8), (0x1F20, 0x1F27, 1, 8),
   (0x1F30, 0x1F37, 1, 8), (0x1F40, 0x1F45, 1, 8), (0x1F51, 0x1F57, 2, 8),
   (0x1F60, 0x1F67, 1, 8), (0x1F70, 0x1F71, 1, 74), (0x1F72, 0x1F75, 1, 86),
   (0x1F76, 0x1F77, 1, 100), (0x1F78, 0x1F79, 1, 128), (0x1F7A, 0x1F7B, 1, 112),
   (0x1F7C, 0x1F7D, 1, 126), (0x1F80, 0x1F87, 1, 8), (0x1F90, 0x1F97, 1, 8),
   (0x1FA0, 0x1FA7, 1, 8), (0x1FB0, 0x1FB1, 1, 8), (0x1FB3, 0x1FB3, 1, 9),
   (0x1FBE, 0x1FBE, 1, - 7205), (0x1FC3, 0x1FC3, 1, 9), (0x1FD0, 0x1FD1, 1, 8),
   (0x1FE0, 0x1FE1, 1, 8), (0x1FE5, 0x1FE5, 1, 7), (0x1FF3, 0x1FF3, 1, 9),
   (0x214E, 0x214E, 1, - 28), (0x2170, 0x217F, 1, - 16), (0x2184, 0x2184, 1, - 1),
   (0x24D0, 0x24E9, 1, - 26), (0x2C30, 0x2C5F, 1, - 48), (0x2C61, 0x2C61, 1, - 1),
   (0x2C65, 0x2C65, 1, - 10795), (0x2C66, 0x2C66, 1, - 10792), (0x2C68, 0x2C6C, 2, - 1),
   (0x2C73, 0x2C73, 1, - 1), (0x2C76, 0x2C76, 1, - 1), (0x2C81, 0x2CE3, 2, - 1),
   (0x2CEC, 0x2CEE, 2, - 1), (0x2CF3, 0x2CF3, 1, - 1), (0x2D00, 0x2D25, 1, - 7264),
   (0x2D27, 0x2D27, 1, - 7264), (0x2D2D, 0x2D2D, 1, - 7264), (0xA641, 0xA66D, 2, - 1),
   (0xA681, 0xA69B, 2, - 1), (0xA723, 0xA72F, 2, - 1), (0xA733, 0xA76F, 2, - 1),
   (0xA77A, 0xA77C, 2, - 1), (0xA77F, 0xA787, 2, - 1), (0xA78C, 0xA78C, 1, - 1),
   (0xA791, 0xA793, 2, - 1), (0xA794, 0xA794, 1, 48), (0xA797, 0xA7A9, 2, - 1),
   (0xA7B5, 0xA7C3, 2, - 1), (0xA7C8, 0xA7CA, 2, - 1), (0xA7D1, 0xA7D1, 1, - 1),
   (0xA7D7, 0xA7D9, 2, - 1), (0xA7F6, 0xA7F6, 1, - 1), (0xAB53, 0xAB53, 1, - 928),
   (0xAB70, 0xABBF, 1, - 38864), (0xFF41, 0xFF5A, 1, - 32), (0x10428, 0x1044F, 1, - 40),
   (0x104D8, 0x104FB, 1, - 40), (0x10597, 0x105A1, 1, - 39), (0x105A3, 0x105B1, 1, - 39),
   (0x105B3, 0x105B9, 1, - 39), (0x105BB, 0x105BC, 1, - 39), (0x10CC0, 0x10CF2, 1, - 64),
   (0x118C0, 0x118DF, 1, - 32), (0x16E60, 0x16E7F, 1, - 32), (0x1E922, 0x1E943, 1, - 34)]"

definition fold_latin :: case_table where
  "fold_latin = [
   (0x41, 0x5A, 1, 32), (0xB5, 0xB5, 1, 775), (0xC0, 0xD6, 1, 32), (0xD8, 0xDE, 1, 32),
   (0x100, 0x12E, 2, 1), (0x132, 0x136, 2, 1), (0x139, 0x147, 2, 1), (0x14A, 0x176, 2, 1),
   (0x178, 0x178, 1, - 121), (0x179, 0x17D, 2, 1), (0x17F, 0x17F, 1, - 268),
   (0x181, 0x181, 1, 210), (0x182, 0x184, 2, 1), (0x186, 0x186, 1, 206), (0x187, 0x187, 1, 1),
   (0x189, 0x18A, 1, 205), (0x18B, 0x18B, 1, 1), (0x18E, 0x18E, 1, 79), (0x18F, 0x18F, 1, 202),
   (0x190, 0x190, 1, 203), (0x191, 0x191, 1, 1), (0x193, 0x193, 1, 205), (0x194, 0x194, 1, 207),
   (0x196, 0x196, 1, 211), (0x197, 0x197, 1, 209), (0x198, 0x198, 1, 1), (0x19C, 0x19C, 1, 211),
   (0x19D, 0x19D, 1, 213), (0x19F, 0x19F, 1, 214), (0x1A0, 0x1A4, 2, 1), (0x1A6, 0x1A6, 1, 218),
   (0x1A7, 0x1A7, 1, 1), (0x1A9, 0x1A9, 1, 218), (0x1AC, 0x1AC, 1, 1), (0x1AE, 0x1AE, 1, 218),
   (0x1AF, 0x1AF, 1, 1), (0x1B1, 0x1B2, 1, 217), (0x1B3, 0x1B5, 2, 1), (0x1B7, 0x1B7, 1, 219),
   (0x1B8, 0x1B8, 1, 1), (0x1BC, 0x1BC, 1, 1), (0x1C4, 0x1C4, 1, 2), (0x1C5, 0x1C5, 1, 1),
   (0x1C7, 0x1C7, 1, 2), (0x1C8, 0x1C8, 1, 1), (0x1CA, 0x1CA, 1, 2), (0x1CB, 0x1DB, 2, 1),
   (0x1DE, 0x1EE, 2, 1), (0x1F1, 0x1F1, 1, 2), (0x1F2, 0x1F4, 2, 1), (0x1F6, 0x1F6, 1, - 97),
   (0x1F7, 0x1F7, 1, - 56), (0x1F8, 0x21E, 2, 1), (0x220, 0x220, 1, - 130), (0x222, 0x232, 2, 1),
   (0x23A, 0x23A, 1, 10795), (0x23B, 0x23B, 1, 1), (0x23D, 0x23D, 1, - 163),
   (0x23E, 0x23E, 1, 10792), (0x241, 0x241, 1, 1), (0x243, 0x243, 1, - 195),
   (0x244, 0x244, 1, 69), (0x245, 0x245, 1, 71), (0x246, 0x24E, 2, 1), (0x345, 0x345, 1, 116),
   (0x370, 0x372, 2, 1), (0x376, 0x376, 1, 1), (0x37F, 0x37F, 1, 116), (0x386, 0x386, 1, 38),
   (0x388, 0x38A, 1, 37), (0x38C, 0x38C, 1, 64), (0x38E, 0x38F, 1, 63), (0x391, 0x3A1, 1, 32),
   (0x3A3, 0x3AB, 1, 32), (0x3C2, 0x3C2, 1, 1), (0x3CF, 0x3CF, 1, 8), (0x3D0, 0x3D0, 1, - 30),
   (0x3D1, 0x3D1, 1, - 25), (0x3D5, 0x3D5, 1, - 15), (0x3D6, 0x3D6, 1, - 22),
   (0x3D8, 0x3EE, 2, 1), (0x3F0, 0x3F0, 1, - 54), (0x3F1, 0x3F1, 1, - 48),
   (0x3F4, 0x3F4, 1, - 60), (0x3F5, 0x3F5, 1, - 64), (0x3F7, 0x3F7, 1, 1),
   (0x3F9, 0x3F9, 1, - 7), (0x3FA, 0x3FA, 1, 1), (0x3FD, 0x3FF, 1, - 130)]"

definition fold_cyrillic :: case_table where
  "fold_cyrillic = [
   (0x400, 0x40F, 1, 80), (0x410, 0x42F, 1, 32), (0x460, 0x480, 2, 1), (0x48A, 0x4BE, 2, 1),
   (0x4C0, 0x4C0, 1, 15), (0x4C1, 0x4CD, 2, 1), (0x4D0, 0x52E, 2, 1)]"

definition fold_high :: case_table where
  "fold_high = [
   (0x531, 0x556, 1, 48), (0x10A0, 0x10C5, 1, 7264), (0x10C7, 0x10C7, 1, 7264),
   (0x10CD, 0x10CD, 1, 7264), (0x13F8, 0x13FD, 1, - 8), (0x1C80, 0x1C80, 1, - 6222),
   (0x1C81, 0x1C81, 1, - 6221), (0x1C82, 0x1C82, 1, - 6212), (0x1C83, 0x1C84, 1, - 6210),
   (0x1C85, 0x1C85, 1, - 6211), (0x1C86, 0x1C86, 1, - 6204), (0x1C87, 0x1C87, 1, - 6180),
   (0x1C88, 0x1C88, 1, 35267), (0x1C90, 0x1CBA, 1, - 3008), (0x1CBD, 0x1CBF, 1, - 3008),
   (0x1E00, 0x1E94, 2, 1), (0x1E9B, 0x1E9B, 1, - 58), (0x1E9E, 0x1E9E, 1, - 7615),
   (0x1EA0, 0x1EFE, 2, 1), (0x1F08, 0x1F0F, 1, - 8), (0x1F18, 0x1F1D, 1, - 8),
   (0x1F28, 0x1F2F, 1, - 8), (0x1F38, 0x1F3F, 1, - 8), (0x1F48, 0x1F4D, 1, - 8),
   (0x1F59, 0x1F5F, 2, - 8), (0x1F68, 0x1F6F, 1, - 8), (0x1F88, 0x1F8F, 1, - 8),
   (0x1F98, 0x1F9F, 1, - 8), (0x1FA8, 0x1FAF, 1, - 8), (0x1FB8, 0x1FB9, 1, - 8),
   (0x1FBA, 0x1FBB, 1, - 74), (0x1FBC, 0x1FBC, 1, - 9), (0x1FBE, 0x1FBE, 1, - 7173),
   (0x1FC8, 0x1FCB, 1, - 86), (0x1FCC, 0x1FCC, 1, - 9), (0x1FD8, 0x1FD9, 1, - 8),
   (0x1FDA, 0x1FDB, 1, - 100), (0x1FE8, 0x1FE9, 1, - 8), (0x1FEA, 0x1FEB, 1, - 112),
   (0x1FEC, 0x1FEC, 1, - 7), (0x1FF8, 0x1FF9, 1, - 128), (0x1FFA, 0x1FFB, 1, - 126),
   (0x1FFC, 0x1FFC, 1, - 9), (0x2126, 0x2126, 1, - 7517), (0x212A, 0x212A, 1, - 8383),
   (0x212B, 0x212B, 1, - 8262), (0x2132, 0x2132, 1, 28), (0x2160, 0x216F, 1, 16),
   (0x2183, 0x2183, 1, 1), (0x24B6, 0x24CF, 1, 26), (0x2C00, 0x2C2F, 1, 48),
   (0x2C60, 0x2C60, 1, 1), (0x2C62, 0x2C62, 1, - 10743), (0x2C63, 0x2C63, 1, - 3814),
   (0x2C64, 0x2C64, 1, - 10727), (0x2C67, 0x2C6B, 2, 1), (0x2C6D, 0x2C6D, 1, - 10780),
   (0x2C6E, 0x2C6E, 1, - 10749), (0x2C6F, 0x2C6F, 1, - 10783), (0x2C70, 0x2C70, 1, - 10782),
   (0x2C72, 0x2C72, 1, 1), (0x2C75, 0x2C75, 1, 1), (0x2C7E, 0x2C7F, 1, - 10815),
   (0x2C80, 0x2CE2, 2, 1), (0x2CEB, 0x2CED, 2, 1), (0x2CF2, 0x2CF2, 1, 1),
   (0xA640, 0xA66C, 2, 1), (0xA680, 0xA69A, 2, 1), (0xA722, 0xA72E, 2, 1),
   (0xA732, 0xA76E, 2, 1), (0xA779, 0xA77B, 2, 1), (0xA77D, 0xA77D, 1, - 35332),
   (0xA77E, 0xA786, 2, 1), (0xA78B, 0xA78B, 1, 1), (0xA78D, 0xA78D, 1, - 42280),
   (0xA790, 0xA792, 2, 1), (0xA796, 0xA7A8, 2, 1), (0xA7AA, 0xA7AA, 1, - 42308),
   (0xA7AB, 0xA7AB, 1, - 42319), (0xA7AC, 0xA7AC, 1, - 42315), (0xA7AD, 0xA7AD, 1, - 42305),
   (0xA7AE, 0xA7AE, 1, - 42308), (0xA7B0, 0xA7B0, 1, - 42258), (0xA7B1, 0xA7B1, 1, - 42282),
   (0xA7B2, 0xA7B2, 1, - 42261), (0xA7B3, 0xA7B3, 1, 928), (0xA7B4, 0xA7C2, 2, 1),
   (0xA7C4, 0xA7C4, 1, - 48), (0xA7C5, 0xA7C5, 1, - 42307), (0xA7C6, 0xA7C6, 1, - 35384),
   (0xA7C7, 0xA7C9, 2, 1), (0xA7D0, 0xA7D0, 1, 1), (0xA7D6, 0xA7D8, 2, 1),
   (0xA7F5, 0xA7F5, 1, 1), (0xAB70, 0xABBF, 1, - 38864), (0xFF21, 0xFF3A, 1, 32),
   (0x10400, 0x10427, 1, 40), (0x104B0, 0x104D3, 1, 40), (0x10570, 0x1057A, 1, 39),
   (0x1057C, 0x1058A, 1, 39), (0x1058C, 0x10592, 1, 39), (0x10594, 0x10595, 1, 39),
   (0x10C80, 0x10CB2, 1, 64), (0x118A0, 0x118BF, 1, 32), (0x16E40, 0x16E5F, 1, 32),
   (0x1E900, 0x1E921, 1, 34)]"

section \<open>Categories and case mappings\<close>

definition unicode_IsLetter :: "rune \<Rightarrow> bool" where
  "unicode_IsLetter r = (if r < 0x400 then in_table letter_latin r
           else if r < 0x530 then in_table letter_cyrillic r
           else in_table letter_high r)"

definition unicode_IsUpper :: "rune \<Rightarrow> bool" where
  "unicode_IsUpper r = (if r < 0x400 then in_table upper_latin r
           else if r < 0x530 then in_table upper_cyrillic r
           else in_table upper_high r)"

definition unicode_IsLower :: "rune \<Rightarrow> bool" where
  "unicode_IsLower r = (if r < 0x400 then in_table lower_latin r
           else if r < 0x530 then in_table lower_cyrillic r
           else in_table lower_high r)"

definition unicode_IsMark :: "rune \<Rightarrow> bool" where
  "unicode_IsMark r = (if r < 0x400 then in_table mark_latin r
           else if r < 0x530 then in_table mark_cyrillic r
           else in_table mark_high r)"

definition unicode_IsDigit :: "rune \<Rightarrow> bool" where
  "unicode_IsDigit r = (if r < 0x400 then in_table digit_latin r
           else if r < 0x530 then in_table digit_cyrillic r
           else in_table digit_high r)"

definition unicode_IsNumber :: "rune \<Rightarrow> bool" where
  "unicode_IsNumber r = (if r < 0x400 then in_table number_latin r
           else if r < 0x530 then in_table number_cyrillic r
           else in_table number_high r)"

definition unicode_IsSpace :: "rune \<Rightarrow> bool" where
  "unicode_IsSpace r = in_table white_space_table r"

definition unicode_IsZs :: "rune \<Rightarrow> bool" where
  "unicode_IsZs r = in_table space_separator_table r"

definition unicode_ToLower :: "rune \<Rightarrow> rune" where
  "unicode_ToLower r = (if r < 0x400 then case_map to_lower_latin r
           else if r < 0x530 then case_map to_lower_cyrillic r
           else case_map to_lower_high r)"

definition unicode_ToUpper :: "rune \<Rightarrow> rune" where
  "unicode_ToUpper r = (if r < 0x400 then case_map to_upper_latin r
           else if r < 0x530 then case_map to_upper_cyrillic r
           else case_map to_upper_high r)"

definition fold_rune :: "rune \<Rightarrow> rune" where
  "fold_rune r = (if r < 0x400 then case_map fold_latin r
           else if r < 0x530 then case_map fold_cyrillic r
           else case_map fold_high r)"

text \<open>
  \<^const>\<open>fold_rune\<close> sends a rune to the representative of its case-folding orbit, so two
  runes are equal up to case (\<^verbatim>\<open>SimpleFold\<close> leads from one to the other) iff they have the
  same image. The orbit itself is found by inverting the table.
\<close>

fun fold_preimages :: "case_table \<Rightarrow> rune \<Rightarrow> rune list" where
  "fold_preimages [] c = []"
| "fold_preimages ((lo, hi, st, d) # t) c =
     (let x = nat (int c - d) in
      (if lo \<le> x \<and> x \<le> hi then [x] else []) @ fold_preimages t c)"

definition fold_orbit :: "rune \<Rightarrow> rune list" where
  "fold_orbit r =
     (let c = fold_rune r in
      filter (\<lambda>x. fold_rune x = c)
        (c # fold_preimages fold_latin c @ fold_preimages fold_cyrillic c @ fold_preimages fold_high c))"

section \<open>Facts\<close>

text \<open>No entry of the folding tables leads below zero, so the inversion is exact.\<close>

definition case_table_ok :: "case_table \<Rightarrow> bool" where
  "case_table_ok t = list_all (\<lambda>(lo, hi, st, d). 0 \<le> int lo + d) t"

lemma fold_tables_ok:
  "case_table_ok fold_latin" "case_table_ok fold_cyrillic" "case_table_ok fold_high"
  by (simp_all add: case_table_ok_def fold_latin_def fold_cyrillic_def fold_high_def)

lemma case_map_preimage:
  assumes "case_table_ok t" and "case_map t r = c"
  shows "r = c \<or> r \<in> set (fold_preimages t c)"
  using assms
proof (induction t r rule: case_map.induct)
  case (2 lo hi st d t r)
  then have IH: "\<lbrakk>\<not> r < lo; \<not> (r \<le> hi \<and> (r - lo) mod st = 0)\<rbrakk>
      \<Longrightarrow> r = c \<or> r \<in> set (fold_preimages t c)"
    by (auto simp: case_table_ok_def split: if_splits)
  show ?case
  proof (cases "\<not> r < lo \<and> r \<le> hi \<and> (r - lo) mod st = 0")
    case True
    moreover from 2 have "0 \<le> int lo + d" by (simp add: case_table_ok_def)
    ultimately have "nat (int c - d) = r" using 2 by auto
    with True show ?thesis by (simp add: Let_def)
  next
    case False
    with IH 2(3) show ?thesis by (auto simp: Let_def split: if_splits)
  qed
qed simp

lemma set_fold_orbit: "set (fold_orbit r) \<subseteq> {x. fold_rune x = fold_rune r}"
  by (auto simp: fold_orbit_def Let_def)

lemma fold_orbit_complete:
  assumes "fold_rune x = fold_rune r"
  shows "x \<in> set (fold_orbit r)"
proof -
  let ?c = "fold_rune r"
  have "x = ?c \<or> x \<in> set (fold_preimages fold_latin ?c) \<or> x \<in> set (fold_preimages fold_cyrillic ?c)
      \<or> x \<in> set (fold_preimages fold_high ?c)"
    using assms case_map_preimage [OF fold_tables_ok(1), of x ?c]
      case_map_preimage [OF fold_tables_ok(2), of x ?c] case_map_preimage [OF fold_tables_ok(3), of x ?c]
    unfolding fold_rune_def [of x] by (auto split: if_splits)
  with assms show ?thesis by (auto simp: fold_orbit_def Let_def)
qed

lemma fold_orbit_iff: "x \<in> set (fold_orbit r) \<longleftrightarrow> fold_rune x = fold_rune r"
  using set_fold_orbit [of r] fold_orbit_complete [of x r] by auto

text \<open>The mask character is neither a letter nor a digit nor a space.\<close>

lemma star_category [simp]:
  "\<not> unicode_IsDigit 0x2A" "\<not> unicode_IsLetter 0x2A" "\<not> unicode_IsSpace 0x2A"
  by (simp_all add: unicode_IsDigit_def digit_latin_def unicode_IsLetter_def letter_latin_def
      unicode_IsSpace_def white_space_table_def)

lemma ascii_digit_IsDigit: "0x30 \<le> r \<Longrightarrow> r \<le> 0x39 \<Longrightarrow> unicode_IsDigit r"
  by (simp add: unicode_IsDigit_def digit_latin_def)

lemma IsSpace_bound: "unicode_IsSpace r \<Longrightarrow> r \<le> 0x3000"
  by (auto simp: unicode_IsSpace_def white_space_table_def split: if_splits)

end
