(* ===== verification/Utf8.thy ===== *)
theory Utf8
  imports Unicode
begin

text \<open>
  Go's \<^verbatim>\<open>unicode/utf8\<close>: encoding and decoding of runes, validity of a string, and the
  conversions between strings and rune slices. Invalid bytes decode to U+FFFD with width 1, as
  in Go. The lemmas give the round trips and the fact that a valid string splits only at the
  starts of its runes.
\<close>

section \<open>Definitions\<close>

definition byte :: "char \<Rightarrow> nat" where
  "byte c = of_char c"

definition rune_error :: rune where
  "rune_error = 0xFFFD"

definition valid_rune :: "rune \<Rightarrow> bool" where
  "valid_rune r \<longleftrightarrow> r < 0xD800 \<or> (0xE000 \<le> r \<and> r \<le> 0x10FFFF)"

text \<open>\<^verbatim>\<open>string(r)\<close> and \<^verbatim>\<open>Builder.WriteRune\<close>: an invalid code point is written as U+FFFD.\<close>

definition encode_rune :: "rune \<Rightarrow> bytes" where
  "encode_rune r0 =
     (let r = (if valid_rune r0 then r0 else rune_error) in
      if r < 0x80 then [char_of r]
      else if r < 0x800 then [char_of (0xC0 + r div 64), char_of (0x80 + r mod 64)]
      else if r < 0x10000 then
        [char_of (0xE0 + r div 4096), char_of (0x80 + r div 64 mod 64), char_of (0x80 + r mod 64)]
      else
        [char_of (0xF0 + r div 262144), char_of (0x80 + r div 4096 mod 64),
         char_of (0x80 + r div 64 mod 64), char_of (0x80 + r mod 64)])"

definition rune_start :: "char \<Rightarrow> bool" where
  "rune_start c \<longleftrightarrow> byte c < 0x80 \<or> 0xC0 \<le> byte c"

text \<open>The range of the second byte depends on the first (no overlong forms, no surrogates).\<close>

definition second_ok :: "nat \<Rightarrow> nat \<Rightarrow> bool" where
  "second_ok b0 b1 \<longleftrightarrow>
     (if b0 = 0xE0 then 0xA0 else if b0 = 0xF0 then 0x90 else 0x80) \<le> b1 \<and>
     b1 \<le> (if b0 = 0xED then 0x9F else if b0 = 0xF4 then 0x8F else 0xBF)"

definition cont_ok :: "nat \<Rightarrow> bool" where
  "cont_ok b \<longleftrightarrow> 0x80 \<le> b \<and> b \<le> 0xBF"

definition decode_rune :: "bytes \<Rightarrow> rune \<times> nat" where
  "decode_rune s =
     (case s of
        [] \<Rightarrow> (rune_error, 0)
      | c0 # t \<Rightarrow>
          let b0 = byte c0 in
          if b0 < 0x80 then (b0, 1)
          else if 0xC2 \<le> b0 \<and> b0 \<le> 0xDF then
            (case t of
               c1 # _ \<Rightarrow>
                 if cont_ok (byte c1) then ((b0 - 0xC0) * 64 + (byte c1 - 0x80), 2)
                 else (rune_error, 1)
             | _ \<Rightarrow> (rune_error, 1))
          else if 0xE0 \<le> b0 \<and> b0 \<le> 0xEF then
            (case t of
               c1 # c2 # _ \<Rightarrow>
                 if second_ok b0 (byte c1) \<and> cont_ok (byte c2)
                 then ((b0 - 0xE0) * 4096 + (byte c1 - 0x80) * 64 + (byte c2 - 0x80), 3)
                 else (rune_error, 1)
             | _ \<Rightarrow> (rune_error, 1))
          else if 0xF0 \<le> b0 \<and> b0 \<le> 0xF4 then
            (case t of
               c1 # c2 # c3 # _ \<Rightarrow>
                 if second_ok b0 (byte c1) \<and> cont_ok (byte c2) \<and> cont_ok (byte c3)
                 then ((b0 - 0xF0) * 262144 + (byte c1 - 0x80) * 4096 + (byte c2 - 0x80) * 64
                         + (byte c3 - 0x80), 4)
                 else (rune_error, 1)
             | _ \<Rightarrow> (rune_error, 1))
          else (rune_error, 1))"

text \<open>
  \<^verbatim>\<open>DecodeLastRuneInString\<close>: the last rune start among the last four bytes, if the rune that
  starts there ends the string.
\<close>

definition last_start :: "bytes \<Rightarrow> nat" where
  "last_start s =
     (let lim = length s - 4 in
      case find (\<lambda>i. rune_start (s ! i)) (rev [lim..<length s - 1]) of
        Some i \<Rightarrow> i
      | None \<Rightarrow> lim - 1)"

definition decode_last_rune :: "bytes \<Rightarrow> rune \<times> nat" where
  "decode_last_rune s =
     (if s = [] then (rune_error, 0)
      else if byte (last s) < 0x80 then (byte (last s), 1)
      else (let start = last_start s; (r, size) = decode_rune (drop start s) in
            if start + size \<noteq> length s then (rune_error, 1) else (r, size)))"

text \<open>\<^verbatim>\<open>[]rune(s)\<close>, and the ranges of \<^verbatim>\<open>for pos, r := range s\<close>.\<close>

lemma decode_rune_size: "s \<noteq> [] \<Longrightarrow> 0 < snd (decode_rune s) \<and> snd (decode_rune s) \<le> length s"
  by (cases s) (auto simp: decode_rune_def Let_def split: list.splits)

function runes_at :: "nat \<Rightarrow> bytes \<Rightarrow> (nat \<times> rune) list" where
  "runes_at pos s =
     (if s = [] then []
      else (pos, fst (decode_rune s)) #
             runes_at (pos + snd (decode_rune s)) (drop (snd (decode_rune s)) s))"
  by pat_completeness auto
termination
  by (relation "measure (\<lambda>(pos, s). length s)") (auto dest: decode_rune_size)

declare runes_at.simps [simp del]

definition range_string :: "bytes \<Rightarrow> (nat \<times> rune) list" where
  "range_string s = runes_at 0 s"

definition runes :: "bytes \<Rightarrow> rune list" where
  "runes s = map snd (range_string s)"

definition of_runes :: "rune list \<Rightarrow> bytes" where
  "of_runes rs = concat (map encode_rune rs)"

text \<open>\<^verbatim>\<open>utf8.ValidString\<close>: no rune of the string is the width-1 error.\<close>

function valid_string :: "bytes \<Rightarrow> bool" where
  "valid_string s =
     (if s = [] then True
      else decode_rune s \<noteq> (rune_error, 1) \<and> valid_string (drop (snd (decode_rune s)) s))"
  by pat_completeness auto
termination
  by (relation "measure length") (auto dest: decode_rune_size)

declare valid_string.simps [simp del]

section \<open>Encoding and decoding one rune\<close>

lemma byte_char_of [simp]: "n < 256 \<Longrightarrow> byte (char_of n) = n"
  by (simp add: byte_def)

lemma byte_bound [simp]: "byte c < 256"
  by (simp add: byte_def)

lemma char_of_byte [simp]: "char_of (byte c) = c"
  by (simp add: byte_def)

lemma valid_rune_error [simp]: "valid_rune rune_error"
  by (simp add: valid_rune_def rune_error_def)

lemma valid_rune_bound: "valid_rune r \<Longrightarrow> r < 0x110000"
  by (auto simp: valid_rune_def)

lemma mod64_le [simp]: "n mod 64 \<le> (63::nat)"
  by (rule less_Suc_eq_le [THEN iffD1]) simp

lemma base64_split:
  fixes r :: nat
  shows "r div 4096 * 4096 + r div 64 mod 64 * 64 + r mod 64 = r"
    and "r div 262144 * 262144 + r div 4096 mod 64 * 4096 + r div 64 mod 64 * 64 + r mod 64 = r"
proof -
  have d: "r div 4096 = r div 64 div 64" "r div 262144 = r div 64 div 64 div 64"
    by (simp_all add: div_mult2_eq [symmetric])
  have r: "r div 64 * 64 + r mod 64 = r" by simp
  have q: "r div 64 div 64 * 64 + r div 64 mod 64 = r div 64" by simp
  have p: "r div 64 div 64 div 64 * 64 + r div 64 div 64 mod 64 = r div 64 div 64" by simp
  show "r div 4096 * 4096 + r div 64 mod 64 * 64 + r mod 64 = r"
    using r q unfolding d by linarith
  show "r div 262144 * 262144 + r div 4096 mod 64 * 4096 + r div 64 mod 64 * 64 + r mod 64 = r"
    using r q p unfolding d by linarith
qed

lemma decode_encode [simp]:
  assumes "valid_rune r"
  shows "decode_rune (encode_rune r @ s) = (r, length (encode_rune r))"
proof -
  consider "r < 0x80" | "0x80 \<le> r" "r < 0x800" | "0x800 \<le> r" "r < 0x10000"
    | "0x10000 \<le> r" "r < 0x110000"
    using assms valid_rune_bound [of r] by linarith
  then show ?thesis
  proof cases
    case 1
    with assms show ?thesis by (simp add: encode_rune_def decode_rune_def Let_def)
  next
    case 2
    then have "0xC2 \<le> 0xC0 + r div 64" "0xC0 + r div 64 \<le> 0xDF" by auto
    with 2 assms show ?thesis
      by (simp add: encode_rune_def decode_rune_def Let_def cont_ok_def)
  next
    case 3
    then have b0: "0xE0 + r div 4096 \<le> 0xEF" by auto
    have split: "r div 4096 * 4096 + r div 64 mod 64 * 64 + r mod 64 = r"
      by (rule base64_split)
    have "second_ok (0xE0 + r div 4096) (0x80 + r div 64 mod 64)"
      using 3 assms base64_split(1) [of r] by (auto simp: second_ok_def valid_rune_def)
    with 3 assms b0 split show ?thesis
      by (simp add: encode_rune_def decode_rune_def Let_def cont_ok_def)
  next
    case 4
    then have b0: "0xF0 + r div 262144 \<le> 0xF4" by auto
    have split: "r div 262144 * 262144 + r div 4096 mod 64 * 4096 + r div 64 mod 64 * 64 + r mod 64 = r"
      by (rule base64_split)
    from 4 have "second_ok (0xF0 + r div 262144) (0x80 + r div 4096 mod 64)"
      using base64_split(2) [of r] by (auto simp: second_ok_def)
    with 4 assms b0 split show ?thesis
      by (simp add: encode_rune_def decode_rune_def Let_def cont_ok_def)
  qed
qed

text \<open>The other direction: what decodes without error is the encoding of its rune.\<close>

lemma digits64:
  fixes x y z w :: nat
  assumes "y < 64" "z < 64" "w < 64"
  shows "(x * 64 + w) div 64 = x" "(x * 64 + w) mod 64 = w"
    and "(x * 4096 + z * 64 + w) div 4096 = x" "(x * 4096 + z * 64 + w) div 64 mod 64 = z"
    and "(x * 4096 + z * 64 + w) mod 64 = w"
    and "(x * 262144 + y * 4096 + z * 64 + w) div 262144 = x"
    and "(x * 262144 + y * 4096 + z * 64 + w) div 4096 mod 64 = y"
    and "(x * 262144 + y * 4096 + z * 64 + w) div 64 mod 64 = z"
    and "(x * 262144 + y * 4096 + z * 64 + w) mod 64 = w"
proof -
  have step: "(a * 64 + b) div 64 = a" "(a * 64 + b) mod 64 = b" if "b < 64" for a b :: nat
    using that by simp_all
  show "(x * 64 + w) div 64 = x" "(x * 64 + w) mod 64 = w"
    using assms step by simp_all
  have three: "x * 4096 + z * 64 + w = (x * 64 + z) * 64 + w" by simp
  have four: "x * 262144 + y * 4096 + z * 64 + w = ((x * 64 + y) * 64 + z) * 64 + w" by simp
  have d: "n div 4096 = n div 64 div 64" "n div 262144 = n div 64 div 64 div 64" for n :: nat
    by (simp_all add: div_mult2_eq [symmetric])
  show "(x * 4096 + z * 64 + w) div 4096 = x" "(x * 4096 + z * 64 + w) div 64 mod 64 = z"
    "(x * 4096 + z * 64 + w) mod 64 = w"
    unfolding three d by (simp_all only: step assms)
  show "(x * 262144 + y * 4096 + z * 64 + w) div 262144 = x"
    "(x * 262144 + y * 4096 + z * 64 + w) div 4096 mod 64 = y"
    "(x * 262144 + y * 4096 + z * 64 + w) div 64 mod 64 = z"
    "(x * 262144 + y * 4096 + z * 64 + w) mod 64 = w"
    unfolding four d by (simp_all only: step assms)
qed

lemma decode_rune_sound:
  assumes "decode_rune s = (r, n)" and "s \<noteq> []" and "(r, n) \<noteq> (rune_error, 1)"
  shows "valid_rune r \<and> n = length (encode_rune r) \<and> s = encode_rune r @ drop n s"
proof -
  obtain c0 t where s: "s = c0 # t" using assms(2) by (cases s) auto
  let ?b0 = "byte c0"
  consider (one) "?b0 < 0x80" | (two) "0xC2 \<le> ?b0" "?b0 \<le> 0xDF" | (three) "0xE0 \<le> ?b0" "?b0 \<le> 0xEF"
    | (four) "0xF0 \<le> ?b0" "?b0 \<le> 0xF4"
    | (bad) "\<not> (?b0 < 0x80 \<or> (0xC2 \<le> ?b0 \<and> ?b0 \<le> 0xDF) \<or> (0xE0 \<le> ?b0 \<and> ?b0 \<le> 0xEF)
        \<or> (0xF0 \<le> ?b0 \<and> ?b0 \<le> 0xF4))" by blast
  then show ?thesis
  proof cases
    case one
    with assms s have "r = ?b0" "n = 1" by (auto simp: decode_rune_def Let_def)
    with one s show ?thesis by (simp add: encode_rune_def valid_rune_def Let_def)
  next
    case two
    with assms s obtain c1 t1 where t: "t = c1 # t1" and c: "cont_ok (byte c1)"
      and r: "r = (?b0 - 0xC0) * 64 + (byte c1 - 0x80)" and n: "n = 2"
      by (auto simp: decode_rune_def Let_def split: list.splits if_splits)
    define x where "x = ?b0 - 0xC0"
    define y where "y = byte c1 - 0x80"
    have c0: "c0 = char_of (0xC0 + x)" and c1: "c1 = char_of (0x80 + y)" and b: "y < 64" "2 \<le> x" "x < 32"
      using two c by (auto simp: x_def y_def cont_ok_def)
    have r: "r = x * 64 + y" using r by (simp add: x_def y_def)
    have "encode_rune r = [c0, c1]"
      using b digits64(1,2) [of 0 0 y x] unfolding r c0 c1 by (simp add: encode_rune_def valid_rune_def Let_def)
    moreover have "valid_rune r" using b unfolding r by (simp add: valid_rune_def)
    ultimately show ?thesis using n s t by simp
  next
    case three
    with assms s obtain c1 c2 t1 where t: "t = c1 # c2 # t1"
      and c: "second_ok ?b0 (byte c1)" "cont_ok (byte c2)"
      and r: "r = (?b0 - 0xE0) * 4096 + (byte c1 - 0x80) * 64 + (byte c2 - 0x80)" and n: "n = 3"
      by (auto simp: decode_rune_def Let_def split: list.splits if_splits)
    define x where "x = ?b0 - 0xE0"
    define y where "y = byte c1 - 0x80"
    define z where "z = byte c2 - 0x80"
    have c0: "c0 = char_of (0xE0 + x)" and c1: "c1 = char_of (0x80 + y)" and c2: "c2 = char_of (0x80 + z)"
      and b: "y < 64" "z < 64" "x < 16" "x = 0 \<Longrightarrow> 32 \<le> y" "x = 13 \<Longrightarrow> y < 32"
      using three c by (auto simp: x_def y_def z_def cont_ok_def second_ok_def split: if_splits)
    have r: "r = x * 4096 + y * 64 + z" using r by (simp add: x_def y_def z_def)
    have v: "valid_rune r" "0x800 \<le> r" "r < 0x10000"
      using b unfolding r valid_rune_def by (cases "x = 0"; cases "x \<le> 12"; cases "x = 13"; simp)+
    then have "encode_rune r = [c0, c1, c2]"
      using digits64(3-5) [of 0 y z x] b unfolding c0 c1 c2
      by (simp add: encode_rune_def Let_def r)
    with v n s t show ?thesis by simp
  next
    case four
    with assms s obtain c1 c2 c3 t1 where t: "t = c1 # c2 # c3 # t1"
      and c: "second_ok ?b0 (byte c1)" "cont_ok (byte c2)" "cont_ok (byte c3)"
      and r: "r = (?b0 - 0xF0) * 262144 + (byte c1 - 0x80) * 4096 + (byte c2 - 0x80) * 64
                + (byte c3 - 0x80)" and n: "n = 4"
      by (auto simp: decode_rune_def Let_def split: list.splits if_splits)
    define x where "x = ?b0 - 0xF0"
    define y where "y = byte c1 - 0x80"
    define z where "z = byte c2 - 0x80"
    define w where "w = byte c3 - 0x80"
    have c0: "c0 = char_of (0xF0 + x)" and c1: "c1 = char_of (0x80 + y)" and c2: "c2 = char_of (0x80 + z)"
      and c3: "c3 = char_of (0x80 + w)"
      and b: "y < 64" "z < 64" "w < 64" "x < 5" "x = 0 \<Longrightarrow> 16 \<le> y" "x = 4 \<Longrightarrow> y < 16"
      using four c by (auto simp: x_def y_def z_def w_def cont_ok_def second_ok_def split: if_splits)
    have r: "r = x * 262144 + y * 4096 + z * 64 + w" using r by (simp add: x_def y_def z_def w_def)
    have v: "valid_rune r" "0x10000 \<le> r"
      using b unfolding r valid_rune_def by (cases "x = 0"; cases "x = 4"; simp)+
    then have "encode_rune r = [c0, c1, c2, c3]"
      using digits64(6-9) [of y z w x] b unfolding c0 c1 c2 c3
      by (simp add: encode_rune_def Let_def r)
    with v n s t show ?thesis by simp
  next
    case bad
    with assms s show ?thesis by (auto simp: decode_rune_def Let_def split: if_splits)
  qed
qed

section \<open>Valid strings\<close>

lemma encode_rune_not_Nil [simp]: "encode_rune r \<noteq> []"
  by (simp add: encode_rune_def Let_def)

lemma length_encode_rune_bounds: "0 < length (encode_rune r)" "length (encode_rune r) \<le> 4"
  by (simp_all add: encode_rune_def Let_def)

lemma encode_rune_ascii: "r < 0x80 \<Longrightarrow> encode_rune r = [char_of r]"
  by (simp add: encode_rune_def valid_rune_def)

lemma rune_error_encoding: "length (encode_rune rune_error) = 3"
  by (simp add: encode_rune_def rune_error_def valid_rune_def)

lemma valid_string_Nil [simp]: "valid_string []"
  by (simp add: valid_string.simps)

lemma valid_string_encode_append [simp]:
  assumes "valid_rune r"
  shows "valid_string (encode_rune r @ s) \<longleftrightarrow> valid_string s"
proof -
  have "(r, length (encode_rune r)) \<noteq> (rune_error, 1)"
    using rune_error_encoding by auto
  with assms show ?thesis
    by (simp add: valid_string.simps [of "encode_rune r @ s"])
qed

text \<open>A valid string is empty or starts with the encoding of a valid rune.\<close>

lemma valid_string_cases:
  assumes "valid_string s"
  obtains "s = []" | r s' where "s = encode_rune r @ s'" "valid_rune r" "valid_string s'"
proof (cases "s = []")
  case False
  with assms have ne: "decode_rune s \<noteq> (rune_error, 1)"
    and v: "valid_string (drop (snd (decode_rune s)) s)"
    by (auto simp: valid_string.simps [of s])
  obtain r n where d: "decode_rune s = (r, n)" by fastforce
  with False ne have "valid_rune r" "s = encode_rune r @ drop n s"
    using decode_rune_sound [OF d False] by auto
  with v d that(2) show ?thesis by auto
qed (use that(1) in blast)

lemma valid_string_induct [consumes 1, case_names Nil Rune]:
  assumes "valid_string s"
    and Nil: "P []"
    and Rune: "\<And>r s. valid_rune r \<Longrightarrow> valid_string s \<Longrightarrow> P s \<Longrightarrow> P (encode_rune r @ s)"
  shows "P s"
  using assms(1)
proof (induction s rule: measure_induct_rule [of length])
  case (less s)
  from less.prems show ?case
  proof (cases rule: valid_string_cases)
    case 1
    then show ?thesis by (simp add: Nil)
  next
    case (2 r s')
    then have "length s' < length s" using length_encode_rune_bounds by simp
    with 2 less.IH Rune show ?thesis by blast
  qed
qed

lemma of_runes_simps [simp]:
  "of_runes [] = []" "of_runes (r # rs) = encode_rune r @ of_runes rs"
  "of_runes (rs @ rs') = of_runes rs @ of_runes rs'"
  by (simp_all add: of_runes_def)

lemma valid_of_runes: "\<forall>r \<in> set rs. valid_rune r \<Longrightarrow> valid_string (of_runes rs)"
  by (induction rs) auto

text \<open>Whatever the runes, the string written from them is valid: bad ones become U+FFFD.\<close>

lemma encode_rune_normal: "encode_rune r = encode_rune (if valid_rune r then r else rune_error)"
  by (simp add: encode_rune_def)

lemma valid_string_encode [simp]: "valid_string (encode_rune r @ s) \<longleftrightarrow> valid_string s"
  by (subst encode_rune_normal) simp

lemma valid_string_of_runes [simp]: "valid_string (of_runes rs)"
  by (induction rs) simp_all

lemma runes_at_encode [simp]:
  "valid_rune r \<Longrightarrow>
   runes_at p (encode_rune r @ s) = (p, r) # runes_at (p + length (encode_rune r)) s"
  by (subst runes_at.simps) simp

lemma runes_at_Nil [simp]: "runes_at p [] = []"
  by (subst runes_at.simps) simp

lemma map_snd_runes_at: "map snd (runes_at p s) = map snd (runes_at q s)"
proof (induction p s arbitrary: q rule: runes_at.induct)
  case (1 pos s)
  then show ?case
    by (cases "s = []") (simp_all add: runes_at.simps [of pos s] runes_at.simps [of q s])
qed

lemma runes_Nil [simp]: "runes [] = []"
  by (simp add: runes_def range_string_def)

lemma runes_encode_append [simp]:
  "valid_rune r \<Longrightarrow> runes (encode_rune r @ s) = r # runes s"
  using map_snd_runes_at [of "length (encode_rune r)" s 0]
  by (simp add: runes_def range_string_def)

lemma runes_of_runes: "\<forall>r \<in> set rs. valid_rune r \<Longrightarrow> runes (of_runes rs) = rs"
  by (induction rs) auto

lemma of_runes_runes: "valid_string s \<Longrightarrow> of_runes (runes s) = s"
  by (induction rule: valid_string_induct) auto

lemma valid_runes: "valid_string s \<Longrightarrow> r \<in> set (runes s) \<Longrightarrow> valid_rune r"
  by (induction arbitrary: r rule: valid_string_induct) auto

lemma valid_string_append: "valid_string s \<Longrightarrow> valid_string (s @ t) \<longleftrightarrow> valid_string t"
  by (induction rule: valid_string_induct) auto

lemma runes_append: "valid_string s \<Longrightarrow> runes (s @ t) = runes s @ runes t"
  by (induction rule: valid_string_induct) auto

section \<open>Rune boundaries\<close>

text \<open>
  The code cuts strings only where \<^verbatim>\<open>utf8.RuneStart\<close> holds (or at the end). In a valid
  string these positions are exactly those where the two halves are valid.
\<close>

definition rune_boundary :: "bytes \<Rightarrow> nat \<Rightarrow> bool" where
  "rune_boundary s i \<longleftrightarrow> i \<le> length s \<and> (i < length s \<longrightarrow> rune_start (s ! i))"

lemma not_rune_start_cont: "n < (64::nat) \<Longrightarrow> \<not> rune_start (char_of (0x80 + n))"
  by (simp add: rune_start_def)

lemma encode_rune_shape:
  "\<exists>c cs. encode_rune r = c # cs \<and> rune_start c \<and> (\<forall>d \<in> set cs. \<not> rune_start d)"
proof -
  define q where "q = (if valid_rune r then r else rune_error)"
  have bound: "q < 0x110000"
    using valid_rune_bound [of q] by (simp add: q_def)
  have eq: "encode_rune r =
      (if q < 0x80 then [char_of q]
       else if q < 0x800 then [char_of (0xC0 + q div 64), char_of (0x80 + q mod 64)]
       else if q < 0x10000 then
         [char_of (0xE0 + q div 4096), char_of (0x80 + q div 64 mod 64), char_of (0x80 + q mod 64)]
       else
         [char_of (0xF0 + q div 262144), char_of (0x80 + q div 4096 mod 64),
          char_of (0x80 + q div 64 mod 64), char_of (0x80 + q mod 64)])"
    by (simp add: encode_rune_def q_def Let_def)
  have start: "rune_start (char_of (0xC0 + n))" if "n < 64" for n :: nat
    using that by (simp add: rune_start_def)
  have "q div 64 < 64" if "q < 0x800" using that by auto
  moreover have "rune_start (char_of (0xE0 + q div 4096))" if "q < 0x10000"
    using that start [of "0x20 + q div 4096"] by auto
  moreover have "rune_start (char_of (0xF0 + q div 262144))"
    using bound start [of "0x30 + q div 262144"] by auto
  moreover have "rune_start (char_of q)" if "q < 0x80" using that by (simp add: rune_start_def)
  ultimately show ?thesis
    using start unfolding eq by (auto simp: not_rune_start_cont)
qed

lemma encode_rune_start:
  assumes "i < length (encode_rune r)"
  shows "rune_start (encode_rune r ! i) \<longleftrightarrow> i = 0"
  using assms encode_rune_shape [of r] by (cases i) auto

lemma rune_boundary_split:
  assumes "valid_string s" and "rune_boundary s i"
  shows "valid_string (take i s) \<and> valid_string (drop i s)"
  using assms
proof (induction arbitrary: i rule: valid_string_induct)
  case Nil
  then show ?case by simp
next
  case (Rune r s)
  let ?n = "length (encode_rune r)"
  show ?case
  proof (cases "i < ?n")
    case True
    with Rune.prems have "rune_start (encode_rune r ! i)"
      by (simp add: rune_boundary_def nth_append)
    with True have "i = 0" by (simp add: encode_rune_start)
    with Rune.hyps show ?thesis by simp
  next
    case False
    with Rune.prems have "rune_boundary s (i - ?n)"
      by (auto simp: rune_boundary_def nth_append)
    with Rune.IH Rune.hyps False show ?thesis by simp
  qed
qed

lemma valid_string_rune_start: "valid_string s \<Longrightarrow> s \<noteq> [] \<Longrightarrow> rune_start (s ! 0)"
proof (induction rule: valid_string_induct)
  case (Rune r s)
  then show ?case
    using encode_rune_start [of 0 r] length_encode_rune_bounds(1) [of r] by (simp add: nth_append)
qed simp

lemma rune_boundary_append [simp]: "valid_string t \<Longrightarrow> rune_boundary (s @ t) (length s)"
  using valid_string_rune_start [of t] by (cases "t = []") (auto simp: rune_boundary_def nth_append)

lemma valid_slice:
  assumes "valid_string s" "rune_boundary s lo" "rune_boundary s hi" "lo \<le> hi"
  shows "valid_string (gslice s lo hi)"
proof -
  have "valid_string (drop lo s)" using assms rune_boundary_split by blast
  moreover have "rune_boundary (drop lo s) (hi - lo)"
    using assms by (auto simp: rune_boundary_def)
  ultimately show ?thesis using rune_boundary_split by (simp add: gslice_def)
qed

text \<open>The boundaries of a string, counted by the runes in front of them.\<close>

lemma length_of_runes_take_mono:
  assumes "k < k'" "k' \<le> length rs"
  shows "length (of_runes (take k rs)) < length (of_runes (take k' rs))"
proof -
  have "take k' rs = take k rs @ take (k' - k) (drop k rs)"
    using assms by (metis le_add_diff_inverse less_imp_le_nat take_add)
  moreover have "take (k' - k) (drop k rs) \<noteq> []"
    using assms by simp
  then have "0 < length (of_runes (take (k' - k) (drop k rs)))"
    by (cases "take (k' - k) (drop k rs)") (simp_all add: length_encode_rune_bounds)
  ultimately show ?thesis by (metis length_append less_add_same_cancel1 of_runes_simps(3))
qed

lemma ex_le_Suc: "(\<exists>k \<le> Suc n. P k) \<longleftrightarrow> P 0 \<or> (\<exists>k \<le> n. P (Suc k))"
proof
  assume "\<exists>k \<le> Suc n. P k"
  then obtain k where "k \<le> Suc n" "P k" by blast
  then show "P 0 \<or> (\<exists>k \<le> n. P (Suc k))" by (cases k) auto
qed auto

lemma rune_boundary_of_runes:
  assumes "\<forall>r \<in> set rs. valid_rune r"
  shows "rune_boundary (of_runes rs) i \<longleftrightarrow> (\<exists>k \<le> length rs. i = length (of_runes (take k rs)))"
  using assms
proof (induction rs arbitrary: i)
  case Nil
  then show ?case by (simp add: rune_boundary_def)
next
  case (Cons r rs)
  let ?n = "length (encode_rune r)"
  have shift: "(\<exists>k \<le> length (r # rs). i = length (of_runes (take k (r # rs)))) \<longleftrightarrow>
      i = 0 \<or> (\<exists>k \<le> length rs. i = ?n + length (of_runes (take k rs)))"
    by (simp add: ex_le_Suc)
  show ?case
  proof (cases "i < ?n")
    case True
    then have "rune_boundary (of_runes (r # rs)) i \<longleftrightarrow> i = 0"
      using encode_rune_start [OF True] by (auto simp: rune_boundary_def nth_append)
    with True show ?thesis unfolding shift by auto
  next
    case False
    then have "rune_boundary (of_runes (r # rs)) i \<longleftrightarrow> rune_boundary (of_runes rs) (i - ?n)"
      by (auto simp: rune_boundary_def nth_append)
    also have "\<dots> \<longleftrightarrow> (\<exists>k \<le> length rs. i - ?n = length (of_runes (take k rs)))"
      using Cons by simp
    finally show ?thesis
      using False length_encode_rune_bounds(1) [of r] unfolding shift by auto
  qed
qed

end
