(* ===== verification/Go_Strings.thy ===== *)
theory Go_Strings
  imports Utf8
begin

text \<open>
  The functions of Go's \<^verbatim>\<open>strings\<close>, \<^verbatim>\<open>strconv\<close> and \<^verbatim>\<open>encoding/hex\<close> packages that the source
  calls, on byte strings. \<open>ru\<close> writes a Russian literal of the source: the Go sources contain
  Cyrillic string constants, and a theory file is ASCII, so every Cyrillic letter is written as
  one Latin letter.
\<close>

section \<open>Russian literals\<close>

definition ru_alphabet :: "(char \<times> rune) list" where
  "ru_alphabet =
     zip ''abvgdeZzijklmnoprstufhcCSWQyxAUY'' [0x430..<0x450] @ [(CHR ''E'', 0x451), (CHR ''N'', 0x2116)]"

text \<open>
  In order: a, be, ve, ghe, de, ie, \<open>Z\<close> zhe, ze, i, \<open>j\<close> short i, ka, el, em, en, o, pe, er, es,
  te, u, ef, \<open>h\<close> ha, \<open>c\<close> tse, \<open>C\<close> che, \<open>S\<close> sha, \<open>W\<close> shcha, \<open>Q\<close> hard sign, \<open>y\<close> yeru,
  \<open>x\<close> soft sign, \<open>A\<close> e, \<open>U\<close> yu, \<open>Y\<close> ya; \<open>E\<close> is io and \<open>N\<close> the numero sign. Every other
  character stands for itself.
\<close>

definition ru_rune :: "char \<Rightarrow> rune" where
  "ru_rune c = (case map_of ru_alphabet c of Some r \<Rightarrow> r | None \<Rightarrow> byte c)"

definition ru_runes :: "string \<Rightarrow> rune list" where
  "ru_runes s = map ru_rune s"

definition ru :: "string \<Rightarrow> bytes" where
  "ru s = of_runes (ru_runes s)"

definition ascii_runes :: "string \<Rightarrow> rune list" where
  "ascii_runes s = map byte s"

section \<open>Runes of a string with their bytes\<close>

function chunks :: "bytes \<Rightarrow> (rune \<times> bytes) list" where
  "chunks s =
     (if s = [] then []
      else (fst (decode_rune s), take (snd (decode_rune s)) s) # chunks (drop (snd (decode_rune s)) s))"
  by pat_completeness auto
termination
  by (relation "measure length") (auto dest: decode_rune_size)

declare chunks.simps [simp del]

lemma chunks_Nil [simp]: "chunks [] = []"
  by (simp add: chunks.simps)

lemma chunks_encode [simp]:
  "valid_rune r \<Longrightarrow> chunks (encode_rune r @ s) = (r, encode_rune r) # chunks s"
  by (simp add: chunks.simps [of "encode_rune r @ s"])

lemma concat_chunks: "concat (map snd (chunks s)) = s"
proof (induction s rule: chunks.induct)
  case (1 s)
  then show ?case by (cases "s = []") (simp_all add: chunks.simps [of s])
qed

section \<open>Package strings\<close>

fun fields_from :: "bytes \<Rightarrow> (rune \<times> bytes) list \<Rightarrow> bytes list" where
  "fields_from cur [] = (if cur = [] then [] else [cur])"
| "fields_from cur ((r, b) # cs) =
     (if unicode_IsSpace r
      then (if cur = [] then fields_from [] cs else cur # fields_from [] cs)
      else fields_from (cur @ b) cs)"

definition strings_Fields :: "bytes \<Rightarrow> bytes list" where
  "strings_Fields s = fields_from [] (chunks s)"

definition strings_ToLower :: "bytes \<Rightarrow> bytes" where
  "strings_ToLower s = of_runes (map unicode_ToLower (runes s))"

definition strings_ToUpper :: "bytes \<Rightarrow> bytes" where
  "strings_ToUpper s = of_runes (map unicode_ToUpper (runes s))"

definition strings_HasPrefix :: "bytes \<Rightarrow> bytes \<Rightarrow> bool" where
  "strings_HasPrefix s p \<longleftrightarrow> take (length p) s = p"

definition strings_HasSuffix :: "bytes \<Rightarrow> bytes \<Rightarrow> bool" where
  "strings_HasSuffix s p \<longleftrightarrow> length p \<le> length s \<and> drop (length s - length p) s = p"

definition strings_TrimPrefix :: "bytes \<Rightarrow> bytes \<Rightarrow> bytes" where
  "strings_TrimPrefix s p = (if strings_HasPrefix s p then drop (length p) s else s)"

definition strings_TrimSuffix :: "bytes \<Rightarrow> bytes \<Rightarrow> bytes" where
  "strings_TrimSuffix s p = (if strings_HasSuffix s p then take (length s - length p) s else s)"

fun strings_Contains :: "bytes \<Rightarrow> bytes \<Rightarrow> bool" where
  "strings_Contains [] p = (p = [])"
| "strings_Contains (c # s) p = (strings_HasPrefix (c # s) p \<or> strings_Contains s p)"

text \<open>\<^verbatim>\<open>IndexByte\<close>, \<^verbatim>\<open>LastIndexByte\<close>: the value \<^const>\<open>None\<close> is Go's -1.\<close>

fun strings_IndexByte :: "bytes \<Rightarrow> char \<Rightarrow> nat option" where
  "strings_IndexByte [] c = None"
| "strings_IndexByte (d # s) c = (if d = c then Some 0 else map_option Suc (strings_IndexByte s c))"

definition strings_LastIndexByte :: "bytes \<Rightarrow> char \<Rightarrow> nat option" where
  "strings_LastIndexByte s c = map_option (\<lambda>i. length s - 1 - i) (strings_IndexByte (rev s) c)"

text \<open>\<^verbatim>\<open>IndexAny(s, chars)\<close>, \<^verbatim>\<open>LastIndexAny\<close>, \<^verbatim>\<open>ContainsAny\<close>: \<open>cs\<close> are the runes of \<open>chars\<close>.\<close>

definition strings_IndexAny :: "bytes \<Rightarrow> rune list \<Rightarrow> nat option" where
  "strings_IndexAny s cs = map_option fst (find (\<lambda>(i, r). r \<in> set cs) (range_string s))"

definition strings_LastIndexAny :: "bytes \<Rightarrow> rune list \<Rightarrow> nat option" where
  "strings_LastIndexAny s cs = map_option fst (find (\<lambda>(i, r). r \<in> set cs) (rev (range_string s)))"

definition strings_ContainsAny :: "bytes \<Rightarrow> rune list \<Rightarrow> bool" where
  "strings_ContainsAny s cs \<longleftrightarrow> list_ex (\<lambda>r. r \<in> set cs) (runes s)"

fun trim_left_chunks :: "rune list \<Rightarrow> (rune \<times> bytes) list \<Rightarrow> bytes" where
  "trim_left_chunks cs [] = []"
| "trim_left_chunks cs ((r, b) # t) =
     (if r \<in> set cs then trim_left_chunks cs t else b @ concat (map snd t))"

definition strings_TrimLeft :: "bytes \<Rightarrow> rune list \<Rightarrow> bytes" where
  "strings_TrimLeft s cs = trim_left_chunks cs (chunks s)"

text \<open>\<^verbatim>\<open>Cut\<close> and \<^verbatim>\<open>Split\<close> at a one-byte separator.\<close>

fun strings_Cut :: "bytes \<Rightarrow> char \<Rightarrow> bytes \<times> bytes \<times> bool" where
  "strings_Cut [] c = ([], [], False)"
| "strings_Cut (d # s) c =
     (if d = c then ([], s, True)
      else (case strings_Cut s c of (p, rest, more) \<Rightarrow> (d # p, rest, more)))"

fun strings_Split :: "bytes \<Rightarrow> char \<Rightarrow> bytes list" where
  "strings_Split [] c = [[]]"
| "strings_Split (d # s) c =
     (if d = c then [] # strings_Split s c
      else (case strings_Split s c of [] \<Rightarrow> [[d]] | p # ps \<Rightarrow> (d # p) # ps))"

fun strings_Join :: "bytes list \<Rightarrow> bytes \<Rightarrow> bytes" where
  "strings_Join [] sep = []"
| "strings_Join [p] sep = p"
| "strings_Join (p # ps) sep = p @ sep @ strings_Join ps sep"

definition strings_EqualFold :: "bytes \<Rightarrow> bytes \<Rightarrow> bool" where
  "strings_EqualFold s t \<longleftrightarrow> map fold_rune (runes s) = map fold_rune (runes t)"

section \<open>Numbers\<close>

text \<open>\<^verbatim>\<open>fmt.Sprintf("%d", n)\<close> for a non-negative \<open>n\<close>, and \<^verbatim>\<open>hex.EncodeToString\<close>.\<close>

definition digit_char :: "nat \<Rightarrow> char" where
  "digit_char d = char_of (0x30 + d)"

fun decimal :: "nat \<Rightarrow> bytes" where
  "decimal n = (if n < 10 then [digit_char n] else decimal (n div 10) @ [digit_char (n mod 10)])"

declare decimal.simps [simp del]

definition hex_digit :: "nat \<Rightarrow> char" where
  "hex_digit d = (if d < 10 then char_of (0x30 + d) else char_of (0x57 + d))"

definition hex_encode :: "bytes \<Rightarrow> bytes" where
  "hex_encode s = concat (map (\<lambda>c. [hex_digit (byte c div 16), hex_digit (byte c mod 16)]) s)"

section \<open>Facts\<close>

lemma digit_char_byte: "d < 10 \<Longrightarrow> byte (digit_char d) = 0x30 + d"
  by (simp add: digit_char_def)

lemma digit_char_inject: "a < 10 \<Longrightarrow> b < 10 \<Longrightarrow> digit_char a = digit_char b \<longleftrightarrow> a = b"
  by (metis add_left_cancel digit_char_byte)

lemma decimal_not_Nil [simp]: "decimal n \<noteq> []"
  by (simp add: decimal.simps [of n])

lemma Nil_not_decimal [simp]: "[] \<noteq> decimal n"
  by (simp add: decimal.simps [of n])

lemma decimal_inject: "decimal m = decimal n \<longleftrightarrow> m = n"
proof (induction m arbitrary: n rule: decimal.induct)
  case (1 m)
  have big: "decimal k = decimal (k div 10) @ [digit_char (k mod 10)]" if "\<not> k < 10" for k
    using that by (simp add: decimal.simps [of k])
  have small: "decimal k = [digit_char k]" if "k < 10" for k
    using that by (simp add: decimal.simps [of k])
  show ?case
  proof (cases "m < 10"; cases "n < 10")
    assume "m < 10" "n < 10"
    then show ?thesis by (simp add: small digit_char_inject)
  next
    assume "m < 10" "\<not> n < 10"
    then show ?thesis by (auto simp: small big)
  next
    assume "\<not> m < 10" "n < 10"
    then show ?thesis by (auto simp: small big)
  next
    assume m: "\<not> m < 10" and n: "\<not> n < 10"
    then have "decimal m = decimal n \<longleftrightarrow> m div 10 = n div 10 \<and> m mod 10 = n mod 10"
      using 1 by (simp add: big digit_char_inject)
    then show ?thesis by (metis mult_div_mod_eq)
  qed
qed

lemma set_decimal: "set (decimal n) \<subseteq> digit_char ` {..<10}"
proof (induction n rule: decimal.induct)
  case (1 n)
  then show ?case by (cases "n < 10") (auto simp: decimal.simps [of n])
qed

lemma length_hex_encode [simp]: "length (hex_encode s) = 2 * length s"
  by (induction s) (simp_all add: hex_encode_def)

lemma set_hex_encode: "set (hex_encode s) \<subseteq> hex_digit ` {..<16}"
proof -
  have "byte c div 16 < 16" for c
    using byte_bound [of c] by (simp add: less_mult_imp_div_less del: byte_bound)
  then show ?thesis by (induction s) (auto simp: hex_encode_def)
qed

lemma strings_IndexByte_None: "strings_IndexByte s c = None \<longleftrightarrow> c \<notin> set s"
  by (induction s) auto

lemma strings_IndexByte_Some:
  "strings_IndexByte s c = Some i \<Longrightarrow> i < length s \<and> s ! i = c \<and> c \<notin> set (take i s)"
  by (induction s arbitrary: i) (auto split: if_splits simp: strings_IndexByte_None)

lemma strings_HasPrefix_append [simp]: "strings_HasPrefix (p @ s) p"
  by (simp add: strings_HasPrefix_def)

lemma strings_Contains_iff: "strings_Contains s p \<longleftrightarrow> (\<exists>a b. s = a @ p @ b)"
proof (induction s p rule: strings_Contains.induct)
  case (2 c s p)
  have "strings_HasPrefix (c # s) p \<longleftrightarrow> (\<exists>b. c # s = p @ b)"
    by (metis append_eq_conv_conj strings_HasPrefix_def)
  with 2 show ?case by (auto simp: Cons_eq_append_conv)
qed auto

text \<open>ASCII characters, for the evaluation of concrete strings.\<close>

lemma ascii_encoding: "byte c < 0x80 \<Longrightarrow> encode_rune (byte c) = [c] \<and> valid_rune (byte c)"
  by (simp add: encode_rune_ascii valid_rune_def)

lemma ascii_Cons [simp]:
  assumes "byte c < 0x80"
  shows "valid_string (c # s) \<longleftrightarrow> valid_string s" "runes (c # s) = byte c # runes s"
    "chunks (c # s) = (byte c, [c]) # chunks s"
    "runes_at p (c # s) = (p, byte c) # runes_at (Suc p) s"
  using valid_string_encode [of "byte c" s] runes_encode_append [of "byte c" s] chunks_encode [of "byte c" s]
    runes_at_encode [of "byte c" p s] ascii_encoding [OF assms] by simp_all

end
