(* ===== verification/Regex.thy ===== *)
theory Regex
  imports Go_Strings
begin

text \<open>
  The part of Go's \<^verbatim>\<open>regexp\<close> and \<^verbatim>\<open>regexp/syntax\<close> that the source uses: the syntax tree of an
  expression and leftmost-first matching. The expressions of the source are written as trees
  where they are used. Matching lists the outcomes of an expression at a position in order
  of preference; the first one is the match that the package reports. The flags are those
  of \<^verbatim>\<open>syntax.Perl\<close>: \<^verbatim>\<open>^\<close> and \<^verbatim>\<open>$\<close> are the ends of the text, a negated class matches a newline,
  and \<^verbatim>\<open>\b\<close>, \<^verbatim>\<open>\s\<close>, \<^verbatim>\<open>\d\<close> are ASCII.
\<close>

section \<open>Syntax\<close>

datatype class_item =
    ClsRange rune rune
  | ClsL
  | ClsN
  | ClsZs
  | ClsSpace
  | ClsDigit

datatype regex =
    Lit "rune list" bool
  | Cls bool bool "class_item list"
  | Cap nat regex
  | Star regex
  | Plus regex
  | Quest regex
  | Rep nat "nat option" regex
  | Cat "regex list"
  | Alt "regex list"
  | BeginText
  | EndText
  | WordBoundary

text \<open>\<open>Lit rs ci\<close>; \<open>Cls negated ci items\<close>; \<open>Rep min max re\<close> with \<^const>\<open>None\<close> for no maximum.\<close>

section \<open>Matching\<close>

definition isSpaceASCII :: "rune \<Rightarrow> bool" where
  "isSpaceASCII r \<longleftrightarrow> r = 0x09 \<or> r = 0x0A \<or> r = 0x0C \<or> r = 0x0D \<or> r = 0x20"

fun item_match :: "class_item \<Rightarrow> rune \<Rightarrow> bool" where
  "item_match (ClsRange a b) r = (a \<le> r \<and> r \<le> b)"
| "item_match ClsL r = unicode_IsLetter r"
| "item_match ClsN r = unicode_IsNumber r"
| "item_match ClsZs r = unicode_IsZs r"
| "item_match ClsSpace r = isSpaceASCII r"
| "item_match ClsDigit r = (0x30 \<le> r \<and> r \<le> 0x39)"

definition class_match :: "bool \<Rightarrow> bool \<Rightarrow> class_item list \<Rightarrow> rune \<Rightarrow> bool" where
  "class_match negated ci items r =
     ((if ci then list_ex (\<lambda>x. list_ex (\<lambda>c. item_match c x) items) (fold_orbit r)
       else list_ex (\<lambda>c. item_match c r) items) \<noteq> negated)"

definition lit_match :: "bool \<Rightarrow> rune \<Rightarrow> rune \<Rightarrow> bool" where
  "lit_match ci l r = (if ci then fold_rune r = fold_rune l else r = l)"

definition word_char :: "char \<Rightarrow> bool" where
  "word_char c =
     (let b = byte c in
      0x41 \<le> b \<and> b \<le> 0x5A \<or> 0x61 \<le> b \<and> b \<le> 0x7A \<or> 0x30 \<le> b \<and> b \<le> 0x39 \<or> b = 0x5F)"

definition word_boundary :: "bytes \<Rightarrow> nat \<Rightarrow> bool" where
  "word_boundary s i \<longleftrightarrow>
     (0 < i \<and> i \<le> length s \<and> word_char (s ! (i - 1))) \<noteq> (i < length s \<and> word_char (s ! i))"

text \<open>A state of a match: the position and the groups captured so far.\<close>

type_synonym rstate = "nat \<times> (nat \<Rightarrow> (nat \<times> nat) option)"

definition step_rune :: "bytes \<Rightarrow> (rune \<Rightarrow> bool) \<Rightarrow> rstate \<Rightarrow> rstate list" where
  "step_rune s p st =
     (case st of (i, c) \<Rightarrow>
        if i < length s then
          (case decode_rune (drop i s) of (r, w) \<Rightarrow> if p r then [(i + w, c)] else [])
        else [])"

fun lit_runes :: "bytes \<Rightarrow> bool \<Rightarrow> rune list \<Rightarrow> rstate \<Rightarrow> rstate list" where
  "lit_runes s ci [] st = [st]"
| "lit_runes s ci (l # ls) st =
     concat (map (lit_runes s ci ls) (step_rune s (lit_match ci l) st))"

text \<open>
  Greedy repetition. An iteration that consumes nothing ends it, so the length of the text
  bounds the number of iterations.
\<close>

fun star_iter :: "nat \<Rightarrow> (rstate \<Rightarrow> rstate list) \<Rightarrow> rstate \<Rightarrow> rstate list" where
  "star_iter 0 f st = [st]"
| "star_iter (Suc n) f st =
     concat (map (\<lambda>st'. if fst st < fst st' then star_iter n f st' else [st']) (f st)) @ [st]"

fun times_iter :: "nat \<Rightarrow> (rstate \<Rightarrow> rstate list) \<Rightarrow> rstate \<Rightarrow> rstate list" where
  "times_iter 0 f st = [st]"
| "times_iter (Suc n) f st = concat (map (times_iter n f) (f st))"

fun upto_iter :: "nat \<Rightarrow> (rstate \<Rightarrow> rstate list) \<Rightarrow> rstate \<Rightarrow> rstate list" where
  "upto_iter 0 f st = [st]"
| "upto_iter (Suc n) f st = concat (map (upto_iter n f) (f st)) @ [st]"

definition star_at :: "bytes \<Rightarrow> (rstate \<Rightarrow> rstate list) \<Rightarrow> rstate \<Rightarrow> rstate list" where
  "star_at s f st = star_iter (Suc (length s) - fst st) f st"

fun rm :: "bytes \<Rightarrow> regex \<Rightarrow> rstate \<Rightarrow> rstate list"
  and rm_cat :: "bytes \<Rightarrow> regex list \<Rightarrow> rstate \<Rightarrow> rstate list"
  and rm_alt :: "bytes \<Rightarrow> regex list \<Rightarrow> rstate \<Rightarrow> rstate list"
where
  "rm s (Lit rs ci) st = lit_runes s ci rs st"
| "rm s (Cls negated ci items) st = step_rune s (class_match negated ci items) st"
| "rm s (Cap k re) st = map (\<lambda>(j, c). (j, c(k \<mapsto> (fst st, j)))) (rm s re st)"
| "rm s (Star re) st = star_at s (rm s re) st"
| "rm s (Plus re) st = concat (map (star_at s (rm s re)) (rm s re st))"
| "rm s (Quest re) st = rm s re st @ [st]"
| "rm s (Rep lo None re) st = concat (map (star_at s (rm s re)) (times_iter lo (rm s re) st))"
| "rm s (Rep lo (Some hi) re) st =
     concat (map (upto_iter (hi - lo) (rm s re)) (times_iter lo (rm s re) st))"
| "rm s (Cat res) st = rm_cat s res st"
| "rm s (Alt res) st = rm_alt s res st"
| "rm s BeginText st = (if fst st = 0 then [st] else [])"
| "rm s EndText st = (if fst st = length s then [st] else [])"
| "rm s WordBoundary st = (if word_boundary s (fst st) then [st] else [])"
| "rm_cat s [] st = [st]"
| "rm_cat s (re # res) st = concat (map (rm_cat s res) (rm s re st))"
| "rm_alt s [] st = []"
| "rm_alt s (re # res) st = rm s re st @ rm_alt s res st"

section \<open>Searching\<close>

record rmatch =
  rm_start :: nat
  rm_end :: nat
  rm_groups :: "nat \<Rightarrow> (nat \<times> nat) option"

definition match_at :: "regex \<Rightarrow> bytes \<Rightarrow> nat \<Rightarrow> rmatch option" where
  "match_at re s i =
     (case rm s re (i, Map.empty) of [] \<Rightarrow> None
      | (j, c) # _ \<Rightarrow> Some \<lparr>rm_start = i, rm_end = j, rm_groups = c\<rparr>)"

function find_from :: "regex \<Rightarrow> bytes \<Rightarrow> nat \<Rightarrow> rmatch option" where
  "find_from re s i =
     (case match_at re s i of Some m \<Rightarrow> Some m
      | None \<Rightarrow> if i < length s then find_from re s (i + snd (decode_rune (drop i s))) else None)"
  by pat_completeness auto
termination
proof (relation "measure (\<lambda>(re, s, i). Suc (length s) - i)", goal_cases)
  case (2 re s i)
  then show ?case using decode_rune_size [of "drop i s"] by (simp, linarith)
qed simp

declare find_from.simps [simp del]

definition regexp_MatchString :: "regex \<Rightarrow> bytes \<Rightarrow> bool" where
  "regexp_MatchString re s \<longleftrightarrow> find_from re s 0 \<noteq> None"

text \<open>\<^verbatim>\<open>FindAll\<close>: an empty match next to the previous match is dropped.\<close>

function all_from :: "regex \<Rightarrow> bytes \<Rightarrow> nat \<Rightarrow> nat option \<Rightarrow> rmatch list" where
  "all_from re s pos prevEnd =
     (if length s < pos then []
      else case find_from re s pos of
        None \<Rightarrow> []
      | Some m \<Rightarrow>
          if rm_end m \<le> pos then
            (if Some (rm_start m) = prevEnd then [] else [m]) @
            all_from re s (if pos < length s then pos + snd (decode_rune (drop pos s)) else Suc (length s))
              (Some (rm_end m))
          else m # all_from re s (rm_end m) (Some (rm_end m)))"
  by pat_completeness auto
termination
proof (relation "measure (\<lambda>(re, s, i, p). Suc (length s) - i)", goal_cases)
  case (2 re s pos prevEnd m)
  then show ?case using decode_rune_size [of "drop pos s"] by auto
qed auto

declare all_from.simps [simp del]

definition regexp_FindAll :: "regex \<Rightarrow> bytes \<Rightarrow> rmatch list" where
  "regexp_FindAll re s = all_from re s 0 None"

section \<open>Invariants of a match\<close>

text \<open>
  A relation between states that is reflexive and transitive and holds across one consumed rune
  and across the recording of a group holds between the start and every outcome of a match.
\<close>

definition keeps :: "(rstate \<Rightarrow> rstate \<Rightarrow> bool) \<Rightarrow> (rstate \<Rightarrow> rstate list) \<Rightarrow> bool" where
  "keeps R f \<longleftrightarrow> (\<forall>st. \<forall>st' \<in> set (f st). R st st')"

locale match_relation =
  fixes s :: bytes and R :: "rstate \<Rightarrow> rstate \<Rightarrow> bool"
  assumes R_refl: "R st st"
    and R_trans: "R st st' \<Longrightarrow> R st' st'' \<Longrightarrow> R st st''"
    and R_step: "st' \<in> set (step_rune s p st) \<Longrightarrow> R st st'"
    and R_cap: "R st (j, c) \<Longrightarrow> R st (j, c(k \<mapsto> (fst st, j)))"
begin

lemma keeps_single: "keeps R (\<lambda>st. [st])"
  by (simp add: keeps_def R_refl)

lemma keeps_bind: "keeps R f \<Longrightarrow> keeps R g \<Longrightarrow> keeps R (\<lambda>st. concat (map g (f st)))"
  unfolding keeps_def set_concat set_map using R_trans by blast

lemma keeps_choice: "keeps R f \<Longrightarrow> keeps R g \<Longrightarrow> keeps R (\<lambda>st. f st @ g st)"
  unfolding keeps_def set_append by blast

lemma keeps_guard: "keeps R f \<Longrightarrow> keeps R (\<lambda>st. if p st then f st else [])"
  by (simp add: keeps_def)

lemma keeps_step: "keeps R (step_rune s p)"
  using R_step by (simp add: keeps_def)

lemma keeps_lit: "keeps R (lit_runes s ci ls)"
proof (induction ls)
  case (Cons l ls)
  show ?case using keeps_bind [OF keeps_step Cons] by (simp add: keeps_def)
qed (simp add: keeps_def R_refl)

lemma keeps_star_iter: "keeps R f \<Longrightarrow> keeps R (star_iter n f)"
proof (induction n)
  case (Suc n)
  have g: "keeps R (star_iter n f)" using Suc by blast
  have "R st x" if "st' \<in> set (f st)" "x \<in> set (if fst st < fst st' then star_iter n f st' else [st'])" for st st' x
  proof (cases "fst st < fst st'")
    case True
    with that have "x \<in> set (star_iter n f st')" by simp
    with g have "R st' x" unfolding keeps_def by blast
    moreover have "R st st'" using that(1) Suc.prems unfolding keeps_def by blast
    ultimately show ?thesis by (rule R_trans [rotated])
  next
    case False
    with that have "x \<in> set (f st)" by simp
    with Suc.prems show ?thesis unfolding keeps_def by blast
  qed
  then show ?case unfolding keeps_def star_iter.simps set_append set_concat set_map using R_refl by fastforce
qed (simp add: keeps_def R_refl)

lemma keeps_star: "keeps R f \<Longrightarrow> keeps R (star_at s f)"
  using keeps_star_iter by (simp add: star_at_def keeps_def)

lemma keeps_times: "keeps R f \<Longrightarrow> keeps R (times_iter n f)"
proof (induction n)
  case (Suc n)
  show ?case using keeps_bind [OF Suc.prems Suc.IH [OF Suc.prems]] by (simp add: keeps_def)
qed (simp add: keeps_def R_refl)

lemma keeps_upto: "keeps R f \<Longrightarrow> keeps R (upto_iter n f)"
proof (induction n)
  case (Suc n)
  show ?case
    using keeps_choice [OF keeps_bind [OF Suc.prems Suc.IH [OF Suc.prems]] keeps_single]
    by (simp add: keeps_def)
qed (simp add: keeps_def R_refl)

lemma keeps_cap:
  "keeps R f \<Longrightarrow> keeps R (\<lambda>st. map (\<lambda>(j, c). (j, c(k \<mapsto> (fst st, j)))) (f st))"
  unfolding keeps_def using R_cap by fastforce

lemma keeps_cat: "(\<And>re. re \<in> set res \<Longrightarrow> keeps R (rm s re)) \<Longrightarrow> keeps R (rm_cat s res)"
proof (induction res)
  case (Cons re res)
  have "keeps R (rm s re)" "keeps R (rm_cat s res)" using Cons by simp_all
  from keeps_bind [OF this] show ?case by (simp add: keeps_def)
qed (simp add: keeps_def R_refl)

lemma keeps_alt: "(\<And>re. re \<in> set res \<Longrightarrow> keeps R (rm s re)) \<Longrightarrow> keeps R (rm_alt s res)"
proof (induction res)
  case (Cons re res)
  have "keeps R (rm s re)" "keeps R (rm_alt s res)" using Cons by simp_all
  from keeps_choice [OF this] show ?case by (simp add: keeps_def)
qed (simp add: keeps_def)

lemma keeps_rm: "keeps R (rm s re)"
proof (induction re)
  case (Rep lo hi re)
  note f = keeps_times [OF Rep]
  show ?case
    using keeps_bind [OF f keeps_star [OF Rep]] keeps_bind [OF f keeps_upto [OF Rep]]
    by (cases hi) (simp_all add: keeps_def)
next
  case (Plus re)
  show ?case using keeps_bind [OF Plus keeps_star [OF Plus]] by (simp add: keeps_def)
next
  case (Quest re)
  show ?case using keeps_choice [OF Quest keeps_single] by (simp add: keeps_def)
next
  case (Cap k re)
  show ?case using keeps_cap [OF Cap] by (simp add: keeps_def)
next
  case (Star re)
  show ?case using keeps_star [OF Star] by (simp add: keeps_def)
next
  case (Cat res)
  show ?case using keeps_cat [OF Cat] by (simp add: keeps_def)
next
  case (Alt res)
  show ?case using keeps_alt [OF Alt] by (simp add: keeps_def)
next
  case (Lit rs ci)
  show ?case using keeps_lit by (simp add: keeps_def)
next
  case (Cls n ci items)
  show ?case using keeps_step by (simp add: keeps_def)
qed (simp_all add: keeps_def R_refl)

lemma R_rm: "st' \<in> set (rm s re st) \<Longrightarrow> R st st'"
  using keeps_rm unfolding keeps_def by blast

end

text \<open>
  A match moves forward inside the text, from one rune boundary to another, and the groups it
  records are pieces of the text cut at rune boundaries; a group that is set stays set.
\<close>

definition groups_ok :: "bytes \<Rightarrow> (nat \<Rightarrow> (nat \<times> nat) option) \<Rightarrow> bool" where
  "groups_ok s c \<longleftrightarrow>
     (\<forall>k a b. c k = Some (a, b) \<longrightarrow> a \<le> b \<and> rune_boundary s a \<and> rune_boundary s b)"

definition advances :: "bytes \<Rightarrow> rstate \<Rightarrow> rstate \<Rightarrow> bool" where
  "advances s st st' \<longleftrightarrow>
     fst st \<le> fst st' \<and> dom (snd st) \<subseteq> dom (snd st') \<and> (fst st \<le> length s \<longrightarrow> fst st' \<le> length s) \<and>
     (valid_string s \<and> rune_boundary s (fst st) \<longrightarrow>
        rune_boundary s (fst st') \<and> (groups_ok s (snd st) \<longrightarrow> groups_ok s (snd st')))"

lemma step_rune_iff:
  "st' \<in> set (step_rune s p st) \<longleftrightarrow>
     fst st < length s \<and> p (fst (decode_rune (drop (fst st) s))) \<and>
     st' = (fst st + snd (decode_rune (drop (fst st) s)), snd st)"
proof (cases "fst st < length s")
  case True
  then show ?thesis
    by (cases "p (fst (decode_rune (drop (fst st) s)))") (simp_all add: step_rune_def case_prod_unfold)
next
  case False
  then show ?thesis by (simp add: step_rune_def case_prod_unfold)
qed

lemma decode_boundary:
  assumes "valid_string s" and "rune_boundary s i" and "i < length s"
  shows "rune_boundary s (i + snd (decode_rune (drop i s)))"
proof -
  have v: "valid_string (drop i s)" using assms rune_boundary_split by blast
  then obtain r t where r: "valid_rune r" "drop i s = encode_rune r @ t" "valid_string t"
    using assms(3) by (cases rule: valid_string_cases) auto
  then have d: "snd (decode_rune (drop i s)) = length (encode_rune r)" by simp
  have "s = (take i s @ encode_rune r) @ t" using r(2) append_take_drop_id [of i s] by simp
  moreover have "length (take i s @ encode_rune r) = i + length (encode_rune r)" using assms(3) by simp
  ultimately show ?thesis using rune_boundary_append [OF r(3)] d by metis
qed

interpretation advance: match_relation s "advances s" for s
proof (unfold_locales, goal_cases)
  case (1 st)
  show ?case by (simp add: advances_def)
next
  case (2 st st' st'')
  then show ?case unfolding advances_def by (meson order_trans)
next
  case (3 st' p st)
  then show ?case
    using decode_rune_size [of "drop (fst st) s"] decode_boundary [of s "fst st"]
    by (auto simp: advances_def step_rune_iff)
next
  case (4 st j c k)
  have "dom (snd st) \<subseteq> dom (c(k \<mapsto> (fst st, j)))"
    using 4 by (auto simp: advances_def)
  moreover have "groups_ok s (c(k \<mapsto> (fst st, j)))"
    if "groups_ok s c" "rune_boundary s (fst st)" "rune_boundary s j"
    using that 4 by (simp add: groups_ok_def advances_def)
  ultimately show ?case using 4 by (simp add: advances_def)
qed

lemma match_at_advances:
  assumes "match_at re s i = Some m"
  shows "rm_start m = i" and "advances s (i, Map.empty) (rm_end m, rm_groups m)"
  using assms advance.R_rm [of "(rm_end m, rm_groups m)" s re "(i, Map.empty)"]
  by (auto simp: match_at_def split: list.splits)

section \<open>Invariants of a search\<close>

definition match_ok :: "bytes \<Rightarrow> rmatch \<Rightarrow> bool" where
  "match_ok s m \<longleftrightarrow>
     rm_start m \<le> rm_end m \<and> rune_boundary s (rm_start m) \<and> rune_boundary s (rm_end m) \<and>
     groups_ok s (rm_groups m)"

lemma match_at_ok:
  assumes "match_at re s i = Some m" and "valid_string s" and "rune_boundary s i"
  shows "match_ok s m"
  using match_at_advances [OF assms(1)] assms(2,3)
  by (simp add: match_ok_def advances_def groups_ok_def)

lemma rune_boundary_0 [simp]: "valid_string s \<Longrightarrow> rune_boundary s 0"
  using valid_string_rune_start [of s] by (auto simp: rune_boundary_def)

lemma rune_boundary_le: "rune_boundary s i \<Longrightarrow> i \<le> length s"
  by (simp add: rune_boundary_def)

lemma find_from_sound:
  "find_from re s i = Some m \<Longrightarrow>
   i \<le> rm_start m \<and> match_at re s (rm_start m) = Some m \<and>
   (valid_string s \<and> rune_boundary s i \<longrightarrow> rune_boundary s (rm_start m))"
proof (induction re s i rule: find_from.induct)
  case (1 re s i)
  show ?case
  proof (cases "match_at re s i")
    case (Some m')
    with 1(2) have "m' = m" by (simp add: find_from.simps [of re s i])
    with Some match_at_advances(1) [OF Some] show ?thesis by simp
  next
    case None
    with 1(2) have i: "i < length s" "find_from re s (i + snd (decode_rune (drop i s))) = Some m"
      by (auto simp: find_from.simps [of re s i] split: if_splits)
    from 1(1) [OF None i] decode_boundary [of s i] i(1) show ?thesis by auto
  qed
qed

lemma find_from_match_ok:
  "find_from re s i = Some m \<Longrightarrow> valid_string s \<Longrightarrow> rune_boundary s i \<Longrightarrow> match_ok s m"
  using find_from_sound match_at_ok by blast

lemma find_from_end: "find_from re s i = Some m \<Longrightarrow> rm_start m \<le> rm_end m"
  using find_from_sound [of re s i m] match_at_advances(2) by (fastforce simp: advances_def)

lemma all_from_stop: "length s < pos \<or> find_from re s pos = None \<Longrightarrow> all_from re s pos pe = []"
  by (subst all_from.simps) auto

lemma all_from_empty:
  "\<not> length s < pos \<Longrightarrow> find_from re s pos = Some f \<Longrightarrow> rm_end f \<le> pos \<Longrightarrow>
   all_from re s pos pe = (if Some (rm_start f) = pe then [] else [f]) @
     all_from re s (if pos < length s then pos + snd (decode_rune (drop pos s)) else Suc (length s))
       (Some (rm_end f))"
  by (subst all_from.simps) simp

lemma all_from_more:
  "\<not> length s < pos \<Longrightarrow> find_from re s pos = Some f \<Longrightarrow> \<not> rm_end f \<le> pos \<Longrightarrow>
   all_from re s pos pe = f # all_from re s (rm_end f) (Some (rm_end f))"
  by (subst all_from.simps) simp

text \<open>
  The matches that \<^verbatim>\<open>FindAll\<close> lists are matches, they follow each other without overlap, and in
  valid text they are cut at rune boundaries.
\<close>

lemma all_from_sound:
  "m \<in> set (all_from re s pos pe) \<Longrightarrow>
   pos \<le> rm_start m \<and> match_at re s (rm_start m) = Some m \<and>
   (valid_string s \<and> rune_boundary s pos \<longrightarrow> match_ok s m)"
proof (induction re s pos pe rule: all_from.induct)
  case (1 re s pos pe)
  show ?case
  proof (cases "length s < pos \<or> find_from re s pos = None")
    case True
    with 1(3) show ?thesis by (simp add: all_from_stop)
  next
    case False
    then obtain f where f: "find_from re s pos = Some f" and pos: "\<not> length s < pos" by auto
    let ?nx = "if pos < length s then pos + snd (decode_rune (drop pos s)) else Suc (length s)"
    have ge: "pos \<le> ?nx" using pos by simp
    have fe: "pos \<le> rm_end f" using find_from_sound [OF f] find_from_end [OF f] by simp
    have bd: "valid_string s \<and> rune_boundary s pos \<longrightarrow> rune_boundary s (rm_end f)"
      using find_from_match_ok [OF f] by (simp add: match_ok_def)
    have fok: "pos \<le> rm_start f \<and> match_at re s (rm_start f) = Some f \<and>
        (valid_string s \<and> rune_boundary s pos \<longrightarrow> match_ok s f)"
      using find_from_sound [OF f] find_from_match_ok [OF f] by blast
    show ?thesis
    proof (cases "rm_end f \<le> pos")
      case True
      then have "m = f \<or> m \<in> set (all_from re s ?nx (Some (rm_end f)))"
        using 1(3) all_from_empty [OF pos f True] by (auto split: if_splits)
      then show ?thesis
      proof
        assume m: "m \<in> set (all_from re s ?nx (Some (rm_end f)))"
        then have lt: "pos < length s"
          by (cases "pos < length s") (simp_all add: all_from_stop)
        with 1(1) [OF pos f True m] decode_boundary [of s pos] ge show ?thesis by auto
      qed (use fok in blast)
    next
      case False
      then have "m = f \<or> m \<in> set (all_from re s (rm_end f) (Some (rm_end f)))"
        using 1(3) all_from_more [OF pos f False] by auto
      with 1(2) [OF pos f False] fok fe bd show ?thesis by auto
    qed
  qed
qed

lemma all_from_ordered: "sorted_wrt (\<lambda>a b. rm_end a \<le> rm_start b) (all_from re s pos pe)"
proof (induction re s pos pe rule: all_from.induct)
  case (1 re s pos pe)
  show ?case
  proof (cases "length s < pos \<or> find_from re s pos = None")
    case True
    then show ?thesis by (simp add: all_from_stop)
  next
    case False
    then obtain f where f: "find_from re s pos = Some f" and pos: "\<not> length s < pos" by auto
    let ?nx = "if pos < length s then pos + snd (decode_rune (drop pos s)) else Suc (length s)"
    show ?thesis
    proof (cases "rm_end f \<le> pos")
      case True
      have "rm_end f \<le> rm_start b" if "b \<in> set (all_from re s ?nx (Some (rm_end f)))" for b
      proof -
        have "pos \<le> ?nx" using pos by simp
        also have "\<dots> \<le> rm_start b" using all_from_sound [OF that] by blast
        finally show ?thesis using True by simp
      qed
      with 1(1) [OF pos f True] all_from_empty [OF pos f True] show ?thesis by simp
    next
      case False
      have "rm_end f \<le> rm_start b" if "b \<in> set (all_from re s (rm_end f) (Some (rm_end f)))" for b
        using all_from_sound [OF that] by simp
      with 1(2) [OF pos f False] all_from_more [OF pos f False] show ?thesis by simp
    qed
  qed
qed

lemma FindAll_match_ok: "valid_string s \<Longrightarrow> m \<in> set (regexp_FindAll re s) \<Longrightarrow> match_ok s m"
  using all_from_sound [of m re s 0 None] by (simp add: regexp_FindAll_def)

lemma FindAll_match_at: "m \<in> set (regexp_FindAll re s) \<Longrightarrow> match_at re s (rm_start m) = Some m"
  using all_from_sound [of m re s 0 None] by (simp add: regexp_FindAll_def)

lemma FindAll_ordered: "sorted_wrt (\<lambda>a b. rm_end a \<le> rm_start b) (regexp_FindAll re s)"
  by (simp add: regexp_FindAll_def all_from_ordered)

lemma FindAll_le: "m \<in> set (regexp_FindAll re s) \<Longrightarrow> rm_start m \<le> rm_end m"
  using FindAll_match_at match_at_advances(2) by (fastforce simp: advances_def)

section \<open>Groups that every match sets\<close>

fun sets_group :: "nat \<Rightarrow> regex \<Rightarrow> bool" where
  "sets_group k (Cap j re) = (k = j \<or> sets_group k re)"
| "sets_group k (Plus re) = sets_group k re"
| "sets_group k (Cat res) = list_ex (sets_group k) res"
| "sets_group k (Alt res) = (res \<noteq> [] \<and> list_all (sets_group k) res)"
| "sets_group k _ = False"

lemma rm_keeps_group: "st' \<in> set (rm s re st) \<Longrightarrow> snd st k \<noteq> None \<Longrightarrow> snd st' k \<noteq> None"
  using advance.R_rm [of st' s re st] by (auto simp: advances_def)

lemma cat_keeps_group: "st' \<in> set (rm_cat s res st) \<Longrightarrow> snd st k \<noteq> None \<Longrightarrow> snd st' k \<noteq> None"
  using rm_keeps_group [of st' s "Cat res" st k] by simp

lemma star_keeps_group:
  "st' \<in> set (star_at s (rm s re) st) \<Longrightarrow> snd st k \<noteq> None \<Longrightarrow> snd st' k \<noteq> None"
  using rm_keeps_group [of st' s "Star re" st k] by simp

lemma sets_group_cat:
  assumes "\<And>re st st'. re \<in> set res \<Longrightarrow> sets_group k re \<Longrightarrow> st' \<in> set (rm s re st) \<Longrightarrow> snd st' k \<noteq> None"
  shows "st' \<in> set (rm_cat s res st) \<Longrightarrow> list_ex (sets_group k) res \<Longrightarrow> snd st' k \<noteq> None"
  using assms
proof (induction res arbitrary: st)
  case (Cons re res)
  then obtain mid where mid: "mid \<in> set (rm s re st)" "st' \<in> set (rm_cat s res mid)" by auto
  show ?case
  proof (cases "sets_group k re")
    case True
    with Cons.prems(3) mid have "snd mid k \<noteq> None" by (meson list.set_intros(1))
    with mid cat_keeps_group show ?thesis by blast
  next
    case False
    with Cons.prems(2) have "list_ex (sets_group k) res" by simp
    with Cons.IH [OF mid(2)] Cons.prems(3) show ?thesis by (meson list.set_intros(2))
  qed
qed simp

lemma sets_group_alt:
  assumes "\<And>re st st'. re \<in> set res \<Longrightarrow> sets_group k re \<Longrightarrow> st' \<in> set (rm s re st) \<Longrightarrow> snd st' k \<noteq> None"
  shows "st' \<in> set (rm_alt s res st) \<Longrightarrow> list_all (sets_group k) res \<Longrightarrow> snd st' k \<noteq> None"
  using assms
proof (induction res arbitrary: st)
  case (Cons re res)
  then consider "st' \<in> set (rm s re st)" | "st' \<in> set (rm_alt s res st)" by auto
  then show ?case
  proof cases
    case 1
    moreover have "sets_group k re" using Cons.prems(2) by simp
    ultimately show ?thesis using Cons.prems(3) by (meson list.set_intros(1))
  next
    case 2
    moreover have "list_all (sets_group k) res" using Cons.prems(2) by simp
    ultimately show ?thesis using Cons.IH Cons.prems(3) by (meson list.set_intros(2))
  qed
qed simp

lemma rm_sets_group: "sets_group k re \<Longrightarrow> st' \<in> set (rm s re st) \<Longrightarrow> snd st' k \<noteq> None"
proof (induction re arbitrary: st st')
  case (Cap j re)
  then obtain q where q: "q \<in> set (rm s re st)" "st' = (fst q, (snd q)(j \<mapsto> (fst st, fst q)))"
    by (auto simp: case_prod_unfold)
  with Cap show ?case by (cases "k = j") auto
next
  case (Plus re)
  then obtain q where q: "q \<in> set (rm s re st)" "st' \<in> set (star_at s (rm s re) q)" by auto
  have "snd q k \<noteq> None" using Plus.IH [OF _ q(1)] Plus.prems(1) by simp
  with star_keeps_group [OF q(2)] show ?case by blast
next
  case (Cat res)
  have "st' \<in> set (rm_cat s res st)" "list_ex (sets_group k) res" using Cat.prems by simp_all
  then show ?case by (rule sets_group_cat [rotated]) (rule Cat.IH)
next
  case (Alt res)
  have "st' \<in> set (rm_alt s res st)" "list_all (sets_group k) res" using Alt.prems by simp_all
  then show ?case by (rule sets_group_alt [rotated]) (rule Alt.IH)
qed simp_all

lemma match_at_group:
  "match_at re s i = Some m \<Longrightarrow> sets_group k re \<Longrightarrow> rm_groups m k \<noteq> None"
  using rm_sets_group [of k re "(rm_end m, rm_groups m)" s "(i, Map.empty)"]
  by (auto simp: match_at_def split: list.splits)

end
