(* ===== verification/Pattern.thy ===== *)
theory Pattern
  imports Regex
begin

text \<open>
  \<^verbatim>\<open>internal/pii/detectors/pattern.go\<close>: a regular expression with a literal prefilter. An
  expression is given by its syntax tree, the value that \<^verbatim>\<open>syntax.Parse\<close> returns. The main
  result is that the prefilter changes no answer.
\<close>

section \<open>Definitions\<close>

record literal =
  l_text :: bytes
  l_fold :: bool
  l_first :: bytes
  l_runes :: nat

record pattern =
  p_re :: regex
  p_needles :: "literal list"

definition regexpLiteral :: "rune list \<Rightarrow> bool \<Rightarrow> literal list" where
  "regexpLiteral rs ci =
     (case rs of [] \<Rightarrow> []
      | r # _ \<Rightarrow>
          [\<lparr>l_text = of_runes rs, l_fold = ci,
            l_first = (if ci then of_runes (r # filter (\<lambda>x. x \<noteq> r) (fold_orbit r)) else of_runes [r]),
            l_runes = length rs\<rparr>])"

definition shortestLiteral :: "literal list \<Rightarrow> nat" where
  "shortestLiteral candidates =
     (case candidates of [] \<Rightarrow> 0
      | c # _ \<Rightarrow> foldl (\<lambda>score l. min score (length (l_text l))) (length (l_text c)) candidates)"

fun concatLiterals_loop :: "literal list \<Rightarrow> nat \<Rightarrow> literal list list \<Rightarrow> literal list" where
  "concatLiterals_loop best bestScore [] = best"
| "concatLiterals_loop best bestScore (candidates # rest) =
     (if shortestLiteral candidates > bestScore
      then concatLiterals_loop candidates (shortestLiteral candidates) rest
      else concatLiterals_loop best bestScore rest)"

definition concatLiterals :: "literal list list \<Rightarrow> literal list" where
  "concatLiterals parts = concatLiterals_loop [] 0 parts"

fun alternateLiterals_loop :: "literal list \<Rightarrow> literal list list \<Rightarrow> literal list" where
  "alternateLiterals_loop acc [] = acc"
| "alternateLiterals_loop acc (candidates # rest) =
     (if candidates = [] then []
      else if length (acc @ candidates) > 16 then []
      else alternateLiterals_loop (acc @ candidates) rest)"

definition alternateLiterals :: "literal list list \<Rightarrow> literal list" where
  "alternateLiterals parts = alternateLiterals_loop [] parts"

text \<open>The argument of the two functions above is the list of the literals of the parts.\<close>

fun requiredLiterals :: "regex \<Rightarrow> literal list" where
  "requiredLiterals (Lit rs ci) = regexpLiteral rs ci"
| "requiredLiterals (Cap k re) = requiredLiterals re"
| "requiredLiterals (Plus re) = requiredLiterals re"
| "requiredLiterals (Rep lo hi re) = (if lo > 0 then requiredLiterals re else [])"
| "requiredLiterals (Cat res) = concatLiterals (map requiredLiterals res)"
| "requiredLiterals (Alt res) = alternateLiterals (map requiredLiterals res)"
| "requiredLiterals _ = []"

definition compilePattern :: "regex \<Rightarrow> pattern" where
  "compilePattern re = \<lparr>p_re = re, p_needles = requiredLiterals re\<rparr>"

text \<open>The first \<open>n\<close> runes of a string, or all of it.\<close>

definition first_runes :: "nat \<Rightarrow> bytes \<Rightarrow> bytes" where
  "first_runes n s = concat (map snd (take n (chunks s)))"

function fold_matches :: "literal \<Rightarrow> bytes \<Rightarrow> bool" where
  "fold_matches n rest =
     (if rest = [] then False
      else case strings_IndexAny rest (runes (l_first n)) of
        None \<Rightarrow> False
      | Some i \<Rightarrow>
          if strings_EqualFold (first_runes (l_runes n) (drop i rest)) (l_text n) then True
          else if length rest \<le> i then False
          else fold_matches n (drop (snd (decode_rune (drop i rest))) (drop i rest)))"
  by pat_completeness auto
termination
proof (relation "measure (\<lambda>(n, rest). length rest)", goal_cases)
  case (2 n rest i)
  then show ?case using decode_rune_size [of "drop i rest"] by auto
qed simp

declare fold_matches.simps [simp del]

definition literal_matches :: "literal \<Rightarrow> bytes \<Rightarrow> bool" where
  "literal_matches n input =
     (if \<not> l_fold n then strings_Contains input (l_text n) else fold_matches n input)"

definition possible :: "pattern \<Rightarrow> bytes \<Rightarrow> bool" where
  "possible p input \<longleftrightarrow> p_needles p = [] \<or> list_ex (\<lambda>n. literal_matches n input) (p_needles p)"

definition MatchString :: "pattern \<Rightarrow> bytes \<Rightarrow> bool" where
  "MatchString p s \<longleftrightarrow> possible p s \<and> regexp_MatchString (p_re p) s"

definition FindAllStringSubmatchIndex :: "pattern \<Rightarrow> bytes \<Rightarrow> rmatch list" where
  "FindAllStringSubmatchIndex p s = (if \<not> possible p s then [] else regexp_FindAll (p_re p) s)"

definition FindAllStringIndex :: "pattern \<Rightarrow> bytes \<Rightarrow> (nat \<times> nat) list" where
  "FindAllStringIndex p s =
     (if \<not> possible p s then [] else map (\<lambda>m. (rm_start m, rm_end m)) (regexp_FindAll (p_re p) s))"

section \<open>Literals in a text\<close>

lemma chunks_of_runes:
  "\<forall>r \<in> set rs. valid_rune r \<Longrightarrow> chunks (of_runes rs) = map (\<lambda>r. (r, encode_rune r)) rs"
  by (induction rs) auto

lemma first_runes_of_runes:
  "\<forall>r \<in> set rs. valid_rune r \<Longrightarrow> first_runes n (of_runes rs) = of_runes (take n rs)"
  unfolding first_runes_def by (simp add: chunks_of_runes take_map) (simp add: of_runes_def comp_def)

lemma find_runes_at:
  assumes "\<forall>r \<in> set us. valid_rune r \<and> r \<notin> set cs" and "valid_rune r" and "r \<in> set cs"
  shows "find (\<lambda>(i, r). r \<in> set cs) (runes_at p (of_runes us @ encode_rune r @ t)) =
    Some (p + length (of_runes us), r)"
  using assms by (induction us arbitrary: p) auto

lemma IndexAny_of_runes:
  assumes "\<forall>r \<in> set us. valid_rune r \<and> r \<notin> set cs" and "valid_rune r" and "r \<in> set cs"
  shows "strings_IndexAny (of_runes (us @ r # vs)) cs = Some (length (of_runes us))"
  using find_runes_at [OF assms, of 0 "of_runes vs"] by (simp add: strings_IndexAny_def range_string_def)

text \<open>The loop over the candidates finds a window of runes that fold to the literal.\<close>

lemma fold_matches_complete:
  assumes "l_text n = of_runes (l # ls)" and "\<forall>r \<in> set (l # ls). valid_rune r"
    and "l_runes n = Suc (length ls)"
    and "\<And>x. valid_rune x \<Longrightarrow> fold_rune x = fold_rune l \<Longrightarrow> x \<in> set (runes (l_first n))"
    and "\<forall>r \<in> set (us @ ms @ vs). valid_rune r" and "map fold_rune ms = map fold_rune (l # ls)"
  shows "fold_matches n (of_runes (us @ ms @ vs))"
  using assms(5)
proof (induction us rule: length_induct)
  case (1 us)
  let ?cs = "runes (l_first n)"
  obtain m mt where ms: "ms = m # mt" "fold_rune m = fold_rune l" using assms(6) by (cases ms) auto
  obtain as r bs where split: "us @ ms @ vs = as @ r # bs" "r \<in> set ?cs" "\<forall>x \<in> set as. x \<notin> set ?cs"
    using split_list_first_prop [of "us @ ms @ vs" "\<lambda>x. x \<in> set ?cs"] assms(4) [of m] ms 1(2) by auto
  have v: "\<forall>x \<in> set as. valid_rune x \<and> x \<notin> set ?cs" "valid_rune r" "\<forall>x \<in> set (r # bs). valid_rune x"
    using 1(2) split by auto
  have ix: "strings_IndexAny (of_runes (as @ r # bs)) ?cs = Some (length (of_runes as))"
    by (rule IndexAny_of_runes) (use v split in auto)
  have dr: "drop (length (of_runes as)) (of_runes (as @ r # bs)) = of_runes (r # bs)" by simp
  have ne: "of_runes (as @ r # bs) \<noteq> []" and lt: "\<not> length (of_runes (as @ r # bs)) \<le> length (of_runes as)"
    using length_encode_rune_bounds(1) [of r] by auto
  have unfold: "fold_matches n (of_runes (as @ r # bs)) =
      (strings_EqualFold (of_runes (take (l_runes n) (r # bs))) (l_text n) \<or> fold_matches n (of_runes bs))"
    using v ne lt first_runes_of_runes [of "r # bs"]
    by (subst fold_matches.simps) (simp add: ix dr del: of_runes_simps(2,3), simp)
  consider (skip) us' where "us = as @ r # us'" "bs = us' @ ms @ vs"
    | (here) "as = us" "r # bs = ms @ vs"
    | (late) w where "as = us @ m # w"
  proof -
    obtain w where "us = as @ w \<and> w @ ms @ vs = r # bs \<or> us @ w = as \<and> ms @ vs = w @ r # bs"
      using split(1) unfolding append_eq_append_conv2 by blast
    then show thesis using that ms(1) by (cases w) auto
  qed
  then show ?case
  proof cases
    case skip
    then have "length us' < length us" "\<forall>x \<in> set (us' @ ms @ vs). valid_rune x" using 1(2) by auto
    with 1(1) skip(2) have "fold_matches n (of_runes bs)" by blast
    then show ?thesis unfolding split(1) unfold by simp
  next
    case here
    have "take (l_runes n) (ms @ vs) = ms"
      using assms(3) map_eq_imp_length_eq [OF assms(6)] by simp
    moreover have "strings_EqualFold (of_runes ms) (l_text n)"
      using assms(1,2,6) 1(2) unfolding strings_EqualFold_def by (simp del: of_runes_simps add: runes_of_runes)
    ultimately have "strings_EqualFold (of_runes (take (l_runes n) (r # bs))) (l_text n)"
      by (simp only: here(2))
    then show ?thesis unfolding split(1) unfold by blast
  next
    case late
    then show ?thesis using split(3) assms(4) [of m] ms 1(2) by auto
  qed
qed

section \<open>The prefilter is sound\<close>

text \<open>What a matched literal leaves in the text.\<close>

lemma decode_at_boundary:
  assumes "valid_string s" and "rune_boundary s i" and "i < length s"
  obtains r t where "valid_rune r" "drop i s = encode_rune r @ t" "valid_string t"
    "decode_rune (drop i s) = (r, length (encode_rune r))"
    "drop (i + length (encode_rune r)) s = t"
proof -
  have v: "valid_string (drop i s)" using assms rune_boundary_split by blast
  then obtain r t where r: "valid_rune r" "drop i s = encode_rune r @ t" "valid_string t"
    using assms(3) by (cases rule: valid_string_cases) auto
  moreover have "drop (i + length (encode_rune r)) s = t"
    using r(2) by (metis append_eq_conv_conj drop_drop add.commute)
  ultimately show ?thesis using that by simp
qed

lemma lit_runes_window:
  assumes "valid_string s" and "(j, d) \<in> set (lit_runes s ci ls (i, c))" and "rune_boundary s i"
  shows "\<exists>ms t. drop i s = of_runes ms @ t \<and> valid_string t \<and> (\<forall>r \<in> set ms. valid_rune r) \<and>
    list_all2 (lit_match ci) ls ms"
  using assms(2,3)
proof (induction ls arbitrary: i c)
  case Nil
  then have "drop i s = of_runes [] @ drop i s \<and> valid_string (drop i s)"
    using assms(1) rune_boundary_split by simp
  then show ?case by (metis empty_iff list.set(1) list_all2_Nil)
next
  case (Cons l ls)
  then obtain st where st: "st \<in> set (step_rune s (lit_match ci l) (i, c))" "(j, d) \<in> set (lit_runes s ci ls st)"
    by auto
  then have i: "i < length s" by (simp add: step_rune_iff)
  obtain r t where r: "valid_rune r" "drop i s = encode_rune r @ t"
      "decode_rune (drop i s) = (r, length (encode_rune r))" "drop (i + length (encode_rune r)) s = t"
    using decode_at_boundary [OF assms(1) Cons.prems(2) i] by metis
  have "lit_match ci l r" "st = (i + length (encode_rune r), c)" using st(1) r(3) by (simp_all add: step_rune_iff)
  moreover have "rune_boundary s (i + length (encode_rune r))"
    using decode_boundary [OF assms(1) Cons.prems(2) i] r(3) by simp
  ultimately obtain ms t' where "t = of_runes ms @ t'" "valid_string t'" "\<forall>r \<in> set ms. valid_rune r"
      "list_all2 (lit_match ci) ls ms" "lit_match ci l r"
    using Cons.IH st(2) r(4) by metis
  with r(1,2) have "drop i s = of_runes (r # ms) @ t' \<and> valid_string t' \<and> (\<forall>x \<in> set (r # ms). valid_rune x) \<and>
      list_all2 (lit_match ci) (l # ls) (r # ms)" by simp
  then show ?case by blast
qed

lemma list_all2_lit_match:
  "list_all2 (lit_match ci) ls ms \<longleftrightarrow> (if ci then map fold_rune ms = map fold_rune ls else ms = ls)"
  by (induction ls arbitrary: ms) (auto simp: lit_match_def list_all2_Cons1 map_eq_Cons_conv)

text \<open>The runes of a literal of an expression are code points.\<close>

fun valid_regex :: "regex \<Rightarrow> bool" where
  "valid_regex (Lit rs ci) = list_all valid_rune rs"
| "valid_regex (Cap k re) = valid_regex re"
| "valid_regex (Star re) = valid_regex re"
| "valid_regex (Plus re) = valid_regex re"
| "valid_regex (Quest re) = valid_regex re"
| "valid_regex (Rep lo hi re) = valid_regex re"
| "valid_regex (Cat res) = list_all valid_regex res"
| "valid_regex (Alt res) = list_all valid_regex res"
| "valid_regex _ = True"

lemma runes_of_runes_mem: "x \<in> set ys \<Longrightarrow> valid_rune x \<Longrightarrow> x \<in> set (runes (of_runes ys))"
proof (induction ys)
  case (Cons y ys)
  have "runes (of_runes (y # ys)) = (if valid_rune y then y else rune_error) # runes (of_runes ys)"
    using encode_rune_normal [of y] runes_encode_append [of "if valid_rune y then y else rune_error" "of_runes ys"]
    by (simp split: if_splits)
  with Cons show ?case by auto
qed simp

lemma literal_found:
  assumes "valid_string s" and "rune_boundary s i" and "(j, d) \<in> set (lit_runes s ci ls (i, c))"
    and "list_all valid_rune ls" and "regexpLiteral ls ci \<noteq> []"
  shows "\<exists>n \<in> set (regexpLiteral ls ci). literal_matches n s"
proof -
  obtain l lt where ls: "ls = l # lt" using assms(5) by (cases ls) (simp_all add: regexpLiteral_def)
  define n where "n = hd (regexpLiteral ls ci)"
  have n: "regexpLiteral ls ci = [n]" "l_text n = of_runes ls" "l_fold n = ci" "l_runes n = length ls"
    and first: "ci \<Longrightarrow> l_first n = of_runes (l # filter (\<lambda>x. x \<noteq> l) (fold_orbit l))"
    using ls by (simp_all add: regexpLiteral_def n_def)
  obtain ms t where w: "drop i s = of_runes ms @ t" "valid_string t" "\<forall>r \<in> set ms. valid_rune r"
      "list_all2 (lit_match ci) ls ms"
    using lit_runes_window [OF assms(1,3,2)] by blast
  have s: "s = take i s @ of_runes ms @ t" using w(1) by (metis append_take_drop_id)
  have "literal_matches n s"
  proof (cases ci)
    case False
    with w(4) have "ms = ls" by (simp add: list_all2_lit_match)
    with s n(2,3) False show ?thesis by (auto simp: literal_matches_def strings_Contains_iff)
  next
    case True
    with w(4) have fold: "map fold_rune ms = map fold_rune (l # lt)" by (simp add: list_all2_lit_match ls)
    have "valid_string (take i s)" using assms(1,2) rune_boundary_split by blast
    then obtain us vs where "take i s = of_runes us" "\<forall>r \<in> set us. valid_rune r"
        "t = of_runes vs" "\<forall>r \<in> set vs. valid_rune r"
      using w(2) valid_runes of_runes_runes by metis
    then have eq: "s = of_runes (us @ ms @ vs)" "\<forall>r \<in> set (us @ ms @ vs). valid_rune r" using s w(3) by auto
    have "x \<in> set (runes (l_first n))" if "valid_rune x" "fold_rune x = fold_rune l" for x
      using that fold_orbit_iff [of x l] unfolding first [OF True] by (intro runes_of_runes_mem) auto
    then have "fold_matches n (of_runes (us @ ms @ vs))"
      using fold_matches_complete [of n l lt us ms vs] n(2,4) ls assms(4) eq(2) fold by (simp add: list_all_iff)
    with True n(3) eq(1) show ?thesis by (simp add: literal_matches_def)
  qed
  with n(1) show ?thesis by simp
qed

lemma concatLiterals_loop_from:
  "concatLiterals_loop best score parts = best \<or> concatLiterals_loop best score parts \<in> set parts"
  by (induction best score parts rule: concatLiterals_loop.induct) auto

lemma concatLiterals_from: "concatLiterals parts = [] \<or> concatLiterals parts \<in> set parts"
  using concatLiterals_loop_from [of "[]" 0 parts] by (simp add: concatLiterals_def)

lemma alternateLiterals_loop_all:
  "alternateLiterals_loop acc parts \<noteq> [] \<Longrightarrow>
   set acc \<subseteq> set (alternateLiterals_loop acc parts) \<and>
   (\<forall>p \<in> set parts. p \<noteq> [] \<and> set p \<subseteq> set (alternateLiterals_loop acc parts))"
proof (induction acc parts rule: alternateLiterals_loop.induct)
  case (2 acc candidates rest)
  from 2(2) have ne: "candidates \<noteq> []" "\<not> length (acc @ candidates) > 16"
    and eq: "alternateLiterals_loop acc (candidates # rest) = alternateLiterals_loop (acc @ candidates) rest"
    by (simp_all split: if_splits)
  from 2(1) [OF ne] 2(2) ne show ?case unfolding eq by simp
qed simp

lemma alternateLiterals_all:
  "alternateLiterals parts \<noteq> [] \<Longrightarrow> p \<in> set parts \<Longrightarrow> p \<noteq> [] \<and> set p \<subseteq> set (alternateLiterals parts)"
  using alternateLiterals_loop_all [of "[]" parts] by (simp add: alternateLiterals_def)

lemma rm_boundary:
  "valid_string s \<Longrightarrow> rune_boundary s (fst st) \<Longrightarrow> st' \<in> set (rm s re st) \<Longrightarrow> rune_boundary s (fst st')"
  using advance.R_rm [of st' s re st] by (simp add: advances_def)

text \<open>Every part of a concatenation is matched somewhere.\<close>

lemma rm_cat_parts:
  assumes "valid_string s" and "st' \<in> set (rm_cat s res st)" and "rune_boundary s (fst st)" and "re \<in> set res"
  shows "\<exists>a b. rune_boundary s (fst a) \<and> b \<in> set (rm s re a)"
  using assms(2-4)
proof (induction res arbitrary: st)
  case (Cons r res)
  then obtain q where q: "q \<in> set (rm s r st)" "st' \<in> set (rm_cat s res q)" by auto
  show ?case
  proof (cases "re = r")
    case True
    with q(1) Cons.prems(2) show ?thesis by blast
  next
    case False
    with Cons.IH [OF q(2) rm_boundary [OF assms(1) Cons.prems(2) q(1)]] Cons.prems(3) show ?thesis by simp
  qed
qed simp

lemma rm_alt_part: "st' \<in> set (rm_alt s res st) \<Longrightarrow> \<exists>re \<in> set res. st' \<in> set (rm s re st)"
  by (induction res) auto

lemma rm_repeat_part: "st' \<in> set (rm s (Rep lo hi re) st) \<Longrightarrow> 0 < lo \<Longrightarrow> \<exists>b. b \<in> set (rm s re st)"
  by (cases hi; cases lo; cases "rm s re st") auto

lemma required_literal_found:
  assumes "valid_string s" and "valid_regex re" and "rune_boundary s (fst st)" and "st' \<in> set (rm s re st)"
    and "requiredLiterals re \<noteq> []"
  shows "\<exists>n \<in> set (requiredLiterals re). literal_matches n s"
  using assms(2-5)
proof (induction re arbitrary: st st')
  case (Lit ls ci)
  then show ?case
    using literal_found [OF assms(1), of "fst st" "fst st'" "snd st'" ci ls "snd st"] by simp
next
  case (Cap k re)
  then obtain q where "q \<in> set (rm s re st)" by auto
  with Cap show ?case by auto
next
  case (Plus re)
  then obtain q where "q \<in> set (rm s re st)" by auto
  with Plus show ?case by auto
next
  case (Rep lo hi re)
  have lo: "0 < lo" using Rep.prems(4) by (simp split: if_splits)
  obtain q where "q \<in> set (rm s re st)" using rm_repeat_part [OF Rep.prems(3) lo] by blast
  with Rep lo show ?case by auto
next
  case (Cat res)
  from Cat.prems(4) concatLiterals_from [of "map requiredLiterals res"]
  obtain re where re: "re \<in> set res" "requiredLiterals (Cat res) = requiredLiterals re" by auto
  have "st' \<in> set (rm_cat s res st)" using Cat.prems(3) by simp
  from rm_cat_parts [OF assms(1) this Cat.prems(2) re(1)]
  obtain a b where "rune_boundary s (fst a)" "b \<in> set (rm s re a)" by blast
  moreover have "valid_regex re" using Cat.prems(1) re(1) by (simp add: list_all_iff)
  ultimately show ?case using Cat.IH [OF re(1)] Cat.prems(4) re(2) by metis
next
  case (Alt res)
  have "st' \<in> set (rm_alt s res st)" using Alt.prems(3) by simp
  from rm_alt_part [OF this] obtain re where re: "re \<in> set res" "st' \<in> set (rm s re st)" by blast
  have "requiredLiterals re \<noteq> [] \<and> set (requiredLiterals re) \<subseteq> set (requiredLiterals (Alt res))"
    using alternateLiterals_all [of "map requiredLiterals res" "requiredLiterals re"] Alt.prems(4) re(1) by simp
  moreover have "valid_regex re" using Alt.prems(1) re(1) by (simp add: list_all_iff)
  ultimately show ?case using Alt.IH [OF re(1) _ Alt.prems(2) re(2)] by blast
qed simp_all

lemma match_possible:
  assumes "valid_string s" and "valid_regex re" and "find_from re s 0 = Some m"
  shows "possible (compilePattern re) s"
proof -
  have "match_at re s (rm_start m) = Some m" "rune_boundary s (rm_start m)"
    using find_from_sound [OF assms(3)] assms(1) by auto
  then obtain st' where "st' \<in> set (rm s re (rm_start m, Map.empty))"
    by (auto simp: match_at_def split: list.splits)
  with required_literal_found [OF assms(1,2), of "(rm_start m, Map.empty)" st'] \<open>rune_boundary s (rm_start m)\<close>
  show ?thesis by (auto simp: possible_def compilePattern_def list_ex_iff)
qed

lemma compilePattern_re [simp]: "p_re (compilePattern re) = re"
  by (simp add: compilePattern_def)

lemma regexp_FindAll_none: "find_from re s 0 = None \<Longrightarrow> regexp_FindAll re s = []"
  by (simp add: regexp_FindAll_def all_from_stop)

section \<open>Properties\<close>

text \<open>
  C38. The literal prefilter is transparent: on valid text the three search functions of a compiled pattern
  answer what the plain regular expression answers.
\<close>

theorem prefilter_transparent:
  assumes "valid_string s" and "valid_regex re"
  shows "MatchString (compilePattern re) s = regexp_MatchString re s \<and>
    FindAllStringSubmatchIndex (compilePattern re) s = regexp_FindAll re s \<and>
    FindAllStringIndex (compilePattern re) s = map (\<lambda>m. (rm_start m, rm_end m)) (regexp_FindAll re s)"
proof (cases "find_from re s 0")
  case None
  then show ?thesis
    by (simp add: MatchString_def FindAllStringSubmatchIndex_def FindAllStringIndex_def
        regexp_MatchString_def regexp_FindAll_none)
next
  case (Some m)
  from match_possible [OF assms this] show ?thesis
    by (simp add: MatchString_def FindAllStringSubmatchIndex_def FindAllStringIndex_def)
qed

theorem prefilter_transparent_witness:
  "MatchString (compilePattern (Cat [Lit [0x70, 0x69, 0x6E] True, Plus (Cls False False [ClsDigit])])) ''my PIN7'' =
   regexp_MatchString (Cat [Lit [0x70, 0x69, 0x6E] True, Plus (Cls False False [ClsDigit])]) ''my PIN7''"
  by (rule prefilter_transparent [THEN conjunct1]) (simp_all add: byte_def valid_rune_def)

end
