(* ===== verification/Pii.thy ===== *)
theory Pii
  imports Go_Strings "HOL-Library.Word" Complex_Main
begin

text \<open>
  The domain types of \<^verbatim>\<open>internal/pii/pii.go\<close> and \<^verbatim>\<open>internal/contracts/contracts.go\<close>: categories
  of personal data, findings, the detector interface, policies, scopes and the error values
  that cross component boundaries.

  A confidence is a \<^verbatim>\<open>float64\<close> in the source. It is a rational here: every value the code
  computes is a constant with two decimals or a sum of two or three of them, and the code only
  compares them. \<^verbatim>\<open>NaN\<close> has no counterpart. A nil slice is \<^const>\<open>None\<close> where the code
  distinguishes it from the empty one.
\<close>

unbundle bit_operations_syntax

section \<open>Categories\<close>

type_synonym PIIType = bytes

definition TypeFullName :: PIIType where "TypeFullName = ''full_name''"
definition TypeDateOfBirth :: PIIType where "TypeDateOfBirth = ''date_of_birth''"
definition TypePlaceOfBirth :: PIIType where "TypePlaceOfBirth = ''place_of_birth''"
definition TypePassportNumber :: PIIType where "TypePassportNumber = ''passport_number''"
definition TypeCitizenship :: PIIType where "TypeCitizenship = ''citizenship''"
definition TypePassportIssuer :: PIIType where "TypePassportIssuer = ''passport_issuer''"
definition TypePassportDivision :: PIIType where "TypePassportDivision = ''passport_division_code''"
definition TypePassportIssueDate :: PIIType where "TypePassportIssueDate = ''passport_issue_date''"
definition TypeDriverLicense :: PIIType where "TypeDriverLicense = ''driver_license''"
definition TypeAddress :: PIIType where "TypeAddress = ''address''"
definition TypeEmail :: PIIType where "TypeEmail = ''email''"
definition TypePhone :: PIIType where "TypePhone = ''phone''"
definition TypeINN :: PIIType where "TypeINN = ''inn''"
definition TypeCardNumber :: PIIType where "TypeCardNumber = ''card_number''"
definition TypeCVV :: PIIType where "TypeCVV = ''cvv''"
definition TypeCardPIN :: PIIType where "TypeCardPIN = ''card_pin''"
definition TypeCardHolder :: PIIType where "TypeCardHolder = ''card_holder''"

lemmas type_defs [go_defs] =
  TypeFullName_def TypeDateOfBirth_def TypePlaceOfBirth_def TypePassportNumber_def
  TypeCitizenship_def TypePassportIssuer_def TypePassportDivision_def TypePassportIssueDate_def
  TypeDriverLicense_def TypeAddress_def TypeEmail_def TypePhone_def TypeINN_def
  TypeCardNumber_def TypeCVV_def TypeCardPIN_def TypeCardHolder_def

definition AllTypes :: "PIIType list" where
  "AllTypes =
     [TypeFullName, TypeDateOfBirth, TypePlaceOfBirth, TypePassportNumber, TypeCitizenship,
      TypePassportIssuer, TypePassportDivision, TypePassportIssueDate, TypeDriverLicense,
      TypeAddress, TypeEmail, TypePhone, TypeINN, TypeCardNumber, TypeCVV, TypeCardPIN,
      TypeCardHolder]"

section \<open>Confidence, evidence, findings\<close>

type_synonym Confidence = rat

definition ConfidenceLow :: Confidence where "ConfidenceLow = 40 / 100"
definition ConfidenceMedium :: Confidence where "ConfidenceMedium = 70 / 100"
definition ConfidenceHigh :: Confidence where "ConfidenceHigh = 95 / 100"

type_synonym Evidence = "8 word"

definition EvidenceLabel :: Evidence where "EvidenceLabel = 1"
definition EvidenceTrap :: Evidence where "EvidenceTrap = 2"
definition EvidenceRequiresAnchor :: Evidence where "EvidenceRequiresAnchor = 4"

record Finding =
  f_Type :: PIIType
  f_Start :: int
  f_End :: int
  f_Confidence :: Confidence
  f_Detector :: bytes
  f_Value :: bytes
  f_Evidence :: Evidence

text \<open>\<^verbatim>\<open>text[start:end]\<close> at the offsets of a finding.\<close>

definition span :: "bytes \<Rightarrow> int \<Rightarrow> int \<Rightarrow> bytes" where
  "span s a b = gslice s (nat a) (nat b)"

section \<open>Detectors\<close>

text \<open>
  The interface \<^verbatim>\<open>Detector\<close> with its two optional extensions: \<^verbatim>\<open>Types() []PIIType\<close> and
  \<^verbatim>\<open>CandidateDetector\<close>. A detector is pure; \<^const>\<open>None\<close> as the result of a run stands for a
  panic.
\<close>

record Detector =
  d_Type :: PIIType
  d_Types :: "PIIType list option"
  d_Detect :: "bytes \<Rightarrow> Finding list option"
  d_Candidates :: "(bytes \<Rightarrow> Finding list option) option"

definition SupportedTypes :: "Detector \<Rightarrow> PIIType list" where
  "SupportedTypes d = (case d_Types d of Some ts \<Rightarrow> ts | None \<Rightarrow> [d_Type d])"

section \<open>Policies, scopes, errors\<close>

record PolicyRule =
  pr_Type :: bytes
  pr_Requires :: "bytes list"

record CPolicy =
  cp_DetectionProfile :: bytes
  cp_Version :: bytes
  cp_Mode :: bytes
  cp_DetectTypes :: "bytes list option"
  cp_MaskTypes :: "bytes list option"
  cp_AllowDemask :: bool
  cp_TTL :: int
  cp_Rules :: "PolicyRule list"

record Consumer =
  co_ID :: bytes
  co_Enabled :: bool
  co_APIKey :: bytes
  co_Policy :: CPolicy

record Scope =
  s_TenantID :: bytes
  s_ContextID :: bytes
  s_Policy :: CPolicy

record Masked =
  m_Text :: bytes
  m_ContextID :: bytes
  m_PolicyVersion :: bytes

text \<open>
  The error values of \<^verbatim>\<open>contracts\<close>, the two errors of a request context, and the anonymous
  errors made with \<^verbatim>\<open>errors.New\<close> or \<^verbatim>\<open>fmt.Errorf\<close>, which carry their text.
\<close>

datatype error =
    ErrConflict
  | ErrContextGone
  | ErrDemaskDenied
  | ErrInvalidPolicy
  | ErrStoreUnavailable
  | ErrDetectionUnavailable
  | ErrInvalidRequest
  | ErrInvalidModel
  | ErrCanceled
  | ErrDeadlineExceeded
  | ErrText bytes

section \<open>Facts\<close>

lemma distinct_AllTypes: "distinct AllTypes"
  by (simp add: AllTypes_def type_defs)

lemma span_eq_slice: "span s (int a) (int b) = gslice s a b"
  by (simp add: span_def)

end
