(* ===== verification/World.thy ===== *)
theory World
  imports Pii
begin

text \<open>
  What the code observes of its surroundings, as a state that is passed along: the answers of
  \<^verbatim>\<open>ctx.Err()\<close>, the readings of \<^verbatim>\<open>time.Now()\<close>, the bytes of \<^verbatim>\<open>crypto/rand\<close>, and the events
  sent to the metrics observer. The \<open>n\<close>-th observation of each kind reads position \<open>n\<close> of a
  sequence, so a context may be cancelled between any two polls and the clock may advance
  between any two readings. Durations sent to the observer are left out.
\<close>

record OperationEvent =
  oe_Operation :: bytes
  oe_System :: bytes
  oe_RequestID :: bytes
  oe_Outcome :: bytes
  oe_Types :: "bytes list"
  oe_Bytes :: nat

datatype event =
    ObserveFindings "bytes list"
  | ObserveProcessed nat nat
  | ObserveStage bytes
  | ObserveStoreError bytes
  | ObserveOperation OperationEvent
  | ObserveContextDecision bytes bytes nat

record world =
  w_ctx :: "nat \<Rightarrow> error option"
  w_polls :: nat
  w_clock :: "nat \<Rightarrow> int"
  w_times :: nat
  w_rand :: "nat \<Rightarrow> bytes option"
  w_draws :: nat
  w_reqid :: bytes
  w_log :: "event list"

definition ctx_Err :: "'a world_scheme \<Rightarrow> error option \<times> 'a world_scheme" where
  "ctx_Err w = (w_ctx w (w_polls w), w\<lparr>w_polls := Suc (w_polls w)\<rparr>)"

definition time_Now :: "'a world_scheme \<Rightarrow> int \<times> 'a world_scheme" where
  "time_Now w = (w_clock w (w_times w), w\<lparr>w_times := Suc (w_times w)\<rparr>)"

definition rand_Read :: "'a world_scheme \<Rightarrow> bytes option \<times> 'a world_scheme" where
  "rand_Read w = (w_rand w (w_draws w), w\<lparr>w_draws := Suc (w_draws w)\<rparr>)"

definition emit :: "event \<Rightarrow> 'a world_scheme \<Rightarrow> 'a world_scheme" where
  "emit e w = w\<lparr>w_log := w_log w @ [e]\<rparr>"

text \<open>
  A time value: \<^const>\<open>None\<close> is the zero \<^verbatim>\<open>time.Time\<close>. A deadline has passed when
  \<^verbatim>\<open>!now.Before(deadline)\<close>.
\<close>

type_synonym gotime = "int option"

definition passed :: "int \<Rightarrow> gotime \<Rightarrow> bool" where
  "passed now t = (case t of None \<Rightarrow> False | Some d \<Rightarrow> \<not> now < d)"

text \<open>A world in which the request is never cancelled.\<close>

definition live_ctx :: "'a world_scheme \<Rightarrow> bool" where
  "live_ctx w \<longleftrightarrow> (\<forall>n. w_ctx w n = None)"

text \<open>The error of a context is one of the two errors of package \<^verbatim>\<open>context\<close>.\<close>

definition ctx_errors_only :: "'a world_scheme \<Rightarrow> bool" where
  "ctx_errors_only w \<longleftrightarrow> (\<forall>n e. w_ctx w n = Some e \<longrightarrow> e = ErrCanceled \<or> e = ErrDeadlineExceeded)"

text \<open>Observations move the reading positions and leave the sequences alone.\<close>

definition same_sources :: "'a world_scheme \<Rightarrow> 'a world_scheme \<Rightarrow> bool" where
  "same_sources w w' \<longleftrightarrow>
     w_ctx w' = w_ctx w \<and> w_clock w' = w_clock w \<and> w_rand w' = w_rand w \<and>
     w_polls w \<le> w_polls w' \<and> w_times w \<le> w_times w' \<and> w_draws w \<le> w_draws w'"

lemma same_sources_refl [simp]: "same_sources w w"
  by (simp add: same_sources_def)

lemma same_sources_trans: "same_sources a b \<Longrightarrow> same_sources b c \<Longrightarrow> same_sources a c"
  by (auto simp: same_sources_def)

lemma ctx_Err_live [simp]: "live_ctx w \<Longrightarrow> fst (ctx_Err w) = None"
  by (simp add: ctx_Err_def live_ctx_def)

lemma same_sources_steps [simp]:
  "same_sources w (snd (ctx_Err w))" "same_sources w (snd (time_Now w))"
  "same_sources w (snd (rand_Read w))" "same_sources w (emit e w)"
  by (simp_all add: same_sources_def ctx_Err_def time_Now_def rand_Read_def emit_def)

lemma ctx_Err_same: "ctx_Err w = (e, w') \<Longrightarrow> same_sources w w'"
  and time_Now_same: "time_Now w = (t, w') \<Longrightarrow> same_sources w w'"
  and rand_Read_same: "rand_Read w = (b, w') \<Longrightarrow> same_sources w w'"
  by (metis same_sources_steps snd_conv)+

lemma live_ctx_same_sources: "same_sources w w' \<Longrightarrow> live_ctx w \<Longrightarrow> live_ctx w'"
  by (simp add: same_sources_def live_ctx_def)

end
