(* ===== verification/Normalize.thy ===== *)
theory Normalize
  imports Pii
begin

text \<open>
  \<^verbatim>\<open>internal/pii/normalize.go\<close>: the detection-only view of a text, in which exotic spaces,
  hyphens, full-width digits and line separators are replaced by their ASCII forms, with a
  table that leads from byte offsets of the view back to the original text.
\<close>

section \<open>Definitions\<close>

record normalizedText =
  n_text :: bytes
  n_offsets :: "nat list option"

definition normalizeRune :: "rune \<Rightarrow> rune" where
  "normalizeRune r =
     (if r = 0x0D \<or> r = 0x2028 \<or> r = 0x2029 then 0x0A
      else if unicode_IsSpace r \<and> r \<noteq> 0x0A then 0x20
      else if r = 0x2010 \<or> r = 0x2011 \<or> r = 0x2212 \<or> r = 0xFF0D then 0x2D
      else if 0xFF10 \<le> r \<and> r \<le> 0xFF19 then 0x30 + r - 0xFF10
      else if r = 0xFF0B then 0x2B
      else if r = 0xFF1A then 0x3A
      else r)"

definition normalizeText :: "bytes \<Rightarrow> normalizedText" where
  "normalizeText input =
     (if \<not> list_ex (\<lambda>r. normalizeRune r \<noteq> r) (runes input)
      then \<lparr>n_text = input, n_offsets = None\<rparr>
      else
        \<lparr>n_text = of_runes (map (\<lambda>(pos, r). normalizeRune r) (range_string input)),
         n_offsets = Some
           (concat (map (\<lambda>(pos, r). replicate (length (encode_rune (normalizeRune r))) pos)
                     (range_string input)) @ [length input])\<rparr>)"

definition originalOffset :: "normalizedText \<Rightarrow> nat \<Rightarrow> nat" where
  "originalOffset n i = (case n_offsets n of None \<Rightarrow> i | Some os \<Rightarrow> os ! i)"

section \<open>Facts\<close>

lemma valid_normalizeRune: "valid_rune r \<Longrightarrow> valid_rune (normalizeRune r)"
  by (auto simp: normalizeRune_def valid_rune_def)

text \<open>The offset table, written over the runes of the input.\<close>

fun offsets_of :: "nat \<Rightarrow> rune list \<Rightarrow> nat list" where
  "offsets_of p [] = []"
| "offsets_of p (r # rs) =
     replicate (length (encode_rune (normalizeRune r))) p @ offsets_of (p + length (encode_rune r)) rs"

lemma offsets_of_runes_at:
  "\<forall>r \<in> set rs. valid_rune r \<Longrightarrow>
   concat (map (\<lambda>(pos, r). replicate (length (encode_rune (normalizeRune r))) pos)
     (runes_at p (of_runes rs))) = offsets_of p rs"
  by (induction rs arbitrary: p) auto

lemma normalized_runes_at:
  "\<forall>r \<in> set rs. valid_rune r \<Longrightarrow>
   map (\<lambda>(pos, r). normalizeRune r) (runes_at p (of_runes rs)) = map normalizeRune rs"
  by (induction rs arbitrary: p) auto

lemma length_offsets_of: "length (offsets_of p rs) = length (of_runes (map normalizeRune rs))"
  by (induction rs arbitrary: p) auto

lemma offsets_of_nth:
  "k \<le> length rs \<Longrightarrow>
   (offsets_of p rs @ [p + length (of_runes rs)]) ! length (of_runes (take k (map normalizeRune rs)))
     = p + length (of_runes (take k rs))"
proof (induction rs arbitrary: p k)
  case Nil
  then show ?case by simp
next
  case (Cons r rs)
  show ?case
  proof (cases k)
    case 0
    then show ?thesis using length_encode_rune_bounds(1) [of "normalizeRune r"] by (simp add: nth_append)
  next
    case (Suc j)
    with Cons.prems have "j \<le> length rs" by simp
    from Cons.IH [OF this, of "p + length (encode_rune r)"] Suc show ?thesis
      by (simp add: nth_append add.assoc split: if_splits)
  qed
qed

lemma of_runes_valid_repr: "valid_string s \<Longrightarrow> \<exists>rs. s = of_runes rs \<and> (\<forall>r \<in> set rs. valid_rune r)"
  by (metis of_runes_runes valid_runes)

text \<open>
  The view and its table together: the view is the normalised text, and the \<open>k\<close>-th rune
  boundary of the view leads to the \<open>k\<close>-th rune boundary of the input.
\<close>

lemma normalizeText_of_runes:
  assumes "\<forall>r \<in> set rs. valid_rune r"
  shows "n_text (normalizeText (of_runes rs)) = of_runes (map normalizeRune rs)"
    and "k \<le> length rs \<Longrightarrow>
      originalOffset (normalizeText (of_runes rs)) (length (of_runes (take k (map normalizeRune rs))))
        = length (of_runes (take k rs))"
proof -
  show "n_text (normalizeText (of_runes rs)) = of_runes (map normalizeRune rs)"
  proof (cases "list_ex (\<lambda>r. normalizeRune r \<noteq> r) rs")
    case True
    with assms show ?thesis
      by (simp add: normalizeText_def runes_of_runes range_string_def normalized_runes_at)
  next
    case False
    then have "map normalizeRune rs = rs" by (auto simp: list_ex_iff intro: map_idI)
    with False assms show ?thesis by (simp add: normalizeText_def runes_of_runes)
  qed
  assume k: "k \<le> length rs"
  show "originalOffset (normalizeText (of_runes rs)) (length (of_runes (take k (map normalizeRune rs))))
        = length (of_runes (take k rs))"
  proof (cases "list_ex (\<lambda>r. normalizeRune r \<noteq> r) rs")
    case True
    with assms offsets_of_nth [OF k, of 0] show ?thesis
      by (simp add: normalizeText_def originalOffset_def runes_of_runes range_string_def offsets_of_runes_at)
  next
    case False
    then have "map normalizeRune rs = rs" by (auto simp: list_ex_iff intro: map_idI)
    with False assms show ?thesis by (simp add: normalizeText_def originalOffset_def runes_of_runes)
  qed
qed

lemma valid_normalizeText: "valid_string s \<Longrightarrow> valid_string (n_text (normalizeText s))"
  using of_runes_valid_repr [of s] normalizeText_of_runes(1) by auto

lemma originalOffset_boundary:
  assumes "valid_string s" and "rune_boundary (n_text (normalizeText s)) i"
  shows "rune_boundary s (originalOffset (normalizeText s) i)"
proof -
  obtain rs where s: "s = of_runes rs" and v: "\<forall>r \<in> set rs. valid_rune r"
    using of_runes_valid_repr [OF assms(1)] by blast
  then have v': "\<forall>r \<in> set (map normalizeRune rs). valid_rune r" using valid_normalizeRune by auto
  obtain k where "k \<le> length rs" "i = length (of_runes (take k (map normalizeRune rs)))"
    using assms(2) rune_boundary_of_runes [OF v'] normalizeText_of_runes(1) [OF v] s by auto
  then show ?thesis
    using normalizeText_of_runes(2) [OF v] rune_boundary_of_runes [OF v] s by auto
qed

lemma originalOffset_strict_mono:
  assumes "valid_string s" and "rune_boundary (n_text (normalizeText s)) i"
    and "rune_boundary (n_text (normalizeText s)) j" and "i < j"
  shows "originalOffset (normalizeText s) i < originalOffset (normalizeText s) j"
proof -
  obtain rs where s: "s = of_runes rs" and v: "\<forall>r \<in> set rs. valid_rune r"
    using of_runes_valid_repr [OF assms(1)] by blast
  then have v': "\<forall>r \<in> set (map normalizeRune rs). valid_rune r" using valid_normalizeRune by auto
  have bd: "\<exists>k \<le> length rs. b = length (of_runes (take k (map normalizeRune rs)))"
    if "rune_boundary (n_text (normalizeText s)) b" for b
    using that rune_boundary_of_runes [OF v'] normalizeText_of_runes(1) [OF v] s by auto
  obtain k where k: "k \<le> length rs" "i = length (of_runes (take k (map normalizeRune rs)))"
    using bd [OF assms(2)] by blast
  obtain l where l: "l \<le> length rs" "j = length (of_runes (take l (map normalizeRune rs)))"
    using bd [OF assms(3)] by blast
  have "k < l"
  proof (rule ccontr)
    assume "\<not> k < l"
    then have "l < k \<or> l = k" by auto
    with k l assms(4) length_of_runes_take_mono [of l k "map normalizeRune rs"] show False by auto
  qed
  then have "length (of_runes (take k rs)) < length (of_runes (take l rs))"
    using l(1) by (rule length_of_runes_take_mono)
  then show ?thesis using normalizeText_of_runes(2) [OF v] k l s by simp
qed

lemma gslice_of_runes:
  assumes "k \<le> l" and "l \<le> length rs"
  shows "gslice (of_runes rs) (length (of_runes (take k rs))) (length (of_runes (take l rs))) = of_runes (gslice rs k l)"
proof -
  have l: "take l rs = take k rs @ gslice rs k l" using assms(1) by (simp add: take_append_slice)
  have "of_runes rs = of_runes (take k rs) @ of_runes (gslice rs k l) @ of_runes (drop l rs)"
    using assms by (metis append.assoc append_take_drop_id l of_runes_simps(3))
  moreover have "length (of_runes (take l rs)) = length (of_runes (take k rs)) + length (of_runes (gslice rs k l))"
    by (simp add: l)
  ultimately show ?thesis by (metis slice_mid)
qed

lemma map_gslice: "map f (gslice xs a b) = gslice (map f xs) a b"
  by (simp add: gslice_def take_map drop_map)

section \<open>Properties\<close>

text \<open>
  The detection view and its offset table belong together: two rune boundaries of the view lead to two rune
  boundaries of the text in the same order, and the piece of the view between them is the
  normalised piece of the text.
\<close>

theorem view_offsets_faithful:
  assumes "valid_string s" and "rune_boundary (n_text (normalizeText s)) i"
    and "rune_boundary (n_text (normalizeText s)) j" and "i < j"
    and "a = originalOffset (normalizeText s) i" and "b = originalOffset (normalizeText s) j"
  shows "a < b \<and> rune_boundary s a \<and> rune_boundary s b \<and>
    gslice (n_text (normalizeText s)) i j = of_runes (map normalizeRune (runes (gslice s a b)))"
proof -
  obtain rs where s: "s = of_runes rs" and v: "\<forall>r \<in> set rs. valid_rune r"
    using of_runes_valid_repr [OF assms(1)] by blast
  then have v': "\<forall>r \<in> set (map normalizeRune rs). valid_rune r" using valid_normalizeRune by auto
  let ?n = "map normalizeRune rs"
  have bd: "\<exists>k \<le> length rs. x = length (of_runes (take k ?n))"
    if "rune_boundary (n_text (normalizeText s)) x" for x
    using that rune_boundary_of_runes [OF v'] normalizeText_of_runes(1) [OF v] s by auto
  obtain k l where k: "k \<le> length rs" "i = length (of_runes (take k ?n))"
    and l: "l \<le> length rs" "j = length (of_runes (take l ?n))"
    using bd [OF assms(2)] bd [OF assms(3)] by blast
  have ab: "a = length (of_runes (take k rs))" "b = length (of_runes (take l rs))"
    using normalizeText_of_runes(2) [OF v] k l assms(5,6) s by auto
  have kl: "k \<le> l"
    using length_of_runes_take_mono [of l k ?n] k l assms(4) by (metis le_less_linear length_map less_asym)
  have "gslice (n_text (normalizeText s)) i j = of_runes (gslice ?n k l)"
    using gslice_of_runes [of k l ?n] kl l k normalizeText_of_runes(1) [OF v] s by simp
  moreover have "gslice s a b = of_runes (gslice rs k l)"
    using gslice_of_runes [OF kl l(1)] ab s by simp
  moreover have "\<forall>r \<in> set (gslice rs k l). valid_rune r" using v set_slice_subset by fast
  ultimately show ?thesis
    using originalOffset_strict_mono [OF assms(1-4)] originalOffset_boundary [OF assms(1,2)]
      originalOffset_boundary [OF assms(1,3)] assms(5,6) by (simp add: runes_of_runes map_gslice)
qed

theorem view_offsets_faithful_witness:
  "0 < originalOffset (normalizeText (encode_rune 0x2003 @ ''7'')) 1"
proof -
  have rs: "encode_rune 0x2003 @ ''7'' = of_runes [0x2003, 0x37]"
    by (simp add: encode_rune_ascii char_of_def bit_Suc_0_iff)
  have v: "\<forall>r \<in> set [0x2003, 0x37]. valid_rune r" by (simp add: valid_rune_def)
  have n: "map normalizeRune [0x2003, 0x37] = [0x20, 0x37]"
    by (simp add: normalizeRune_def unicode_IsSpace_def white_space_table_def)
  have t: "n_text (normalizeText (of_runes [0x2003, 0x37])) = of_runes [0x20, 0x37]"
    using normalizeText_of_runes(1) [OF v] n by simp
  have "rune_boundary (of_runes [0x20, 0x37]) 0" "rune_boundary (of_runes [0x20, 0x37]) 1"
    by (simp_all add: rune_boundary_def encode_rune_ascii rune_start_def)
  then have "originalOffset (normalizeText (of_runes [0x2003, 0x37])) 0 <
      originalOffset (normalizeText (of_runes [0x2003, 0x37])) 1"
    by (intro view_offsets_faithful [OF valid_string_of_runes _ _ zero_less_one refl refl, THEN conjunct1])
      (simp_all only: t)
  then show ?thesis unfolding rs by linarith
qed

end
