(* ===== verification/Registry.thy ===== *)
theory Registry
  imports World Normalize
begin

text \<open>
  \<^verbatim>\<open>internal/pii/registry.go\<close>: the registry of detectors, the collection of validated findings
  and the resolution of overlapping findings. A Go map used as a set is the list of its keys.
\<close>

section \<open>The registry\<close>

record Registry =
  r_detectors :: "Detector list"
  r_supported :: "PIIType list list"
  r_supportedSet :: "PIIType list"

definition NewRegistry :: "Detector list \<Rightarrow> Registry" where
  "NewRegistry ds =
     (let supported = map SupportedTypes ds in
      \<lparr>r_detectors = ds, r_supported = supported, r_supportedSet = concat supported\<rparr>)"

definition SupportedTypeNames :: "Registry \<Rightarrow> bytes list" where
  "SupportedTypeNames r = r_supportedSet r"

section \<open>Collection\<close>

definition requestedTypes :: "Registry \<Rightarrow> bytes list option \<Rightarrow> PIIType list" where
  "requestedTypes r types = (case types of None \<Rightarrow> r_supportedSet r | Some ts \<Rightarrow> ts)"

text \<open>Whether a detector has to run, and the requested types it covers.\<close>

definition coverRequested :: "PIIType list \<Rightarrow> PIIType list \<Rightarrow> PIIType list \<Rightarrow> bool \<times> PIIType list" where
  "coverRequested supported wanted covered =
     (let hit = filter (\<lambda>t. t \<in> set wanted) supported in (hit \<noteq> [], covered @ hit))"

definition validateFinding :: "bytes \<Rightarrow> Finding \<Rightarrow> error option" where
  "validateFinding text f =
     (if f_Start f < 0 \<or> f_End f \<le> f_Start f \<or> f_End f > int (length text)
      then Some (ErrText ''invalid detector span'')
      else if \<not> rune_start (text ! nat (f_Start f)) \<or>
              (f_End f < int (length text) \<and> \<not> rune_start (text ! nat (f_End f)))
      then Some (ErrText ''invalid detector span'')
      else if f_Confidence f < 0 \<or> f_Confidence f > 1
      then Some (ErrText ''invalid detector confidence'')
      else None)"

fun appendOriginalFindings ::
  "Finding list \<Rightarrow> bytes \<Rightarrow> normalizedText \<Rightarrow> PIIType list \<Rightarrow> Finding list \<Rightarrow> error + Finding list"
where
  "appendOriginalFindings out input view wanted [] = Inr out"
| "appendOriginalFindings out input view wanted (f # fs) =
     (if f_Type f \<notin> set wanted then appendOriginalFindings out input view wanted fs
      else case validateFinding (n_text view) f of
        Some e \<Rightarrow> Inl e
      | None \<Rightarrow>
          (let a = int (originalOffset view (nat (f_Start f)));
               b = int (originalOffset view (nat (f_End f))) in
           appendOriginalFindings
             (out @ [f\<lparr>f_Start := a, f_End := b, f_Value := span input a b\<rparr>]) input view wanted fs))"

definition detectorFindings :: "Detector \<Rightarrow> bytes \<Rightarrow> bool \<Rightarrow> Finding list option" where
  "detectorFindings d text candidates =
     (case d_Candidates d of
        Some cd \<Rightarrow> if candidates then cd text else d_Detect d text
      | None \<Rightarrow> d_Detect d text)"

text \<open>
  The loop over the detectors, each with the types it supports. A panic of a detector is
  recovered by the deferred function and becomes the error \<open>detector failed\<close>.
\<close>

fun collect_loop ::
  "(Detector \<times> PIIType list) list \<Rightarrow> bytes \<Rightarrow> normalizedText \<Rightarrow> PIIType list \<Rightarrow> bool \<Rightarrow>
   PIIType list \<Rightarrow> Finding list \<Rightarrow> 'a world_scheme \<Rightarrow>
   (error + PIIType list \<times> Finding list) \<times> 'a world_scheme"
where
  "collect_loop [] input view wanted candidates covered out w = (Inr (covered, out), w)"
| "collect_loop ((d, supported) # ds) input view wanted candidates covered out w =
     (case ctx_Err w of
        (Some e, w) \<Rightarrow> (Inl e, w)
      | (None, w) \<Rightarrow>
          (case coverRequested supported wanted covered of
             (False, covered) \<Rightarrow> collect_loop ds input view wanted candidates covered out w
           | (True, covered) \<Rightarrow>
               (case detectorFindings d (n_text view) candidates of
                  None \<Rightarrow> (Inl (ErrText ''detector failed''), w)
                | Some findings \<Rightarrow>
                    (case ctx_Err w of
                       (Some e, w) \<Rightarrow> (Inl e, w)
                     | (None, w) \<Rightarrow>
                         (case appendOriginalFindings out input view wanted findings of
                            Inl e \<Rightarrow> (Inl e, w)
                          | Inr out \<Rightarrow>
                              collect_loop ds input view wanted candidates covered out w)))))"

definition collect ::
  "Registry \<Rightarrow> bytes \<Rightarrow> bytes list option \<Rightarrow> bool \<Rightarrow> 'a world_scheme \<Rightarrow>
   (error + Finding list) \<times> 'a world_scheme"
where
  "collect r input types candidates w =
     (if \<not> valid_string input then (Inl (ErrText ''invalid UTF-8''), w)
      else
        (let view = normalizeText input; wanted = requestedTypes r types in
         case collect_loop (zip (r_detectors r) (r_supported r)) input view wanted candidates [] [] w of
           (Inl e, w) \<Rightarrow> (Inl e, w)
         | (Inr (covered, out), w) \<Rightarrow>
             if list_all (\<lambda>t. t \<in> set covered) wanted then (Inr out, w)
             else (Inl (ErrText ''required detector unavailable''), w)))"

definition Collect ::
  "Registry \<Rightarrow> bytes \<Rightarrow> bytes list option \<Rightarrow> 'a world_scheme \<Rightarrow> (error + Finding list) \<times> 'a world_scheme"
where
  "Collect r input types w = collect r input types False w"

definition CollectCandidates ::
  "Registry \<Rightarrow> bytes \<Rightarrow> bytes list option \<Rightarrow> 'a world_scheme \<Rightarrow> (error + Finding list) \<times> 'a world_scheme"
where
  "CollectCandidates r input types w = collect r input types True w"

section \<open>Overlaps\<close>

definition better :: "Finding \<Rightarrow> Finding \<Rightarrow> bool" where
  "better a b =
     (if f_Confidence a \<noteq> f_Confidence b then f_Confidence a > f_Confidence b
      else
        (let aLen = f_End a - f_Start a; bLen = f_End b - f_Start b in
         if aLen \<noteq> bLen then aLen > bLen
         else if f_Start a \<noteq> f_Start b then f_Start a < f_Start b
         else False))"

definition overlap_less :: "Finding \<Rightarrow> Finding \<Rightarrow> bool" where
  "overlap_less a b = (if f_Start a \<noteq> f_Start b then f_Start a < f_Start b else better a b)"

text \<open>
  The sweep. \<open>prev\<close> is the last element of the output so far, the others are final.
\<close>

fun overlap_sweep :: "Finding \<Rightarrow> Finding list \<Rightarrow> Finding list" where
  "overlap_sweep prev [] = [prev]"
| "overlap_sweep prev (f # fs) =
     (if f_Start f \<ge> f_End prev then prev # overlap_sweep f fs
      else
        (let start = f_Start prev;
             stop = (if f_End f > f_End prev then f_End f else f_End prev);
             keep = (if better f prev then f else prev) in
         overlap_sweep (keep\<lparr>f_Start := start, f_End := stop\<rparr>) fs))"

definition ResolveOverlaps :: "Finding list \<Rightarrow> Finding list" where
  "ResolveOverlaps findings =
     (case slice_stable overlap_less findings of [] \<Rightarrow> [] | f # fs \<Rightarrow> overlap_sweep f fs)"

section \<open>Well-formed findings\<close>

text \<open>What the rest of the engine may rely on: a non-empty span of the text that cuts no rune.\<close>

definition finding_ok :: "bytes \<Rightarrow> Finding \<Rightarrow> bool" where
  "finding_ok text f \<longleftrightarrow>
     0 \<le> f_Start f \<and> f_Start f < f_End f \<and> f_End f \<le> int (length text) \<and>
     rune_boundary text (nat (f_Start f)) \<and> rune_boundary text (nat (f_End f)) \<and>
     0 \<le> f_Confidence f \<and> f_Confidence f \<le> 1"

lemma validateFinding_None:
  "validateFinding text f = None \<Longrightarrow> finding_ok text f"
  by (auto simp: validateFinding_def finding_ok_def rune_boundary_def split: if_splits)

text \<open>A finding of the view, carried over to the original text.\<close>

lemma original_finding_ok:
  assumes "valid_string input" and "finding_ok (n_text (normalizeText input)) f"
    and "a = int (originalOffset (normalizeText input) (nat (f_Start f)))"
    and "b = int (originalOffset (normalizeText input) (nat (f_End f)))"
  shows "finding_ok input (f\<lparr>f_Start := a, f_End := b, f_Value := v\<rparr>)"
proof -
  let ?v = "normalizeText input"
  have bs: "rune_boundary (n_text ?v) (nat (f_Start f))" "rune_boundary (n_text ?v) (nat (f_End f))"
    and lt: "nat (f_Start f) < nat (f_End f)"
    using assms(2) by (auto simp: finding_ok_def)
  have "rune_boundary input (nat a)" "rune_boundary input (nat b)"
    using originalOffset_boundary [OF assms(1)] bs assms(3,4) by auto
  moreover have "a < b"
    using originalOffset_strict_mono [OF assms(1) bs lt] assms(3,4) by simp
  ultimately show ?thesis
    using assms(2-4) by (auto simp: finding_ok_def rune_boundary_def)
qed

definition collected_ok :: "bytes \<Rightarrow> PIIType list \<Rightarrow> Finding \<Rightarrow> bool" where
  "collected_ok input wanted f \<longleftrightarrow>
     finding_ok input f \<and> f_Type f \<in> set wanted \<and> f_Value f = span input (f_Start f) (f_End f)"

lemma appendOriginalFindings_ok:
  assumes "valid_string input"
    and "appendOriginalFindings out input (normalizeText input) wanted fs = Inr out'"
    and "\<forall>f \<in> set out. collected_ok input wanted f"
  shows "\<forall>f \<in> set out'. collected_ok input wanted f"
  using assms(2,3)
proof (induction fs arbitrary: out)
  case (Cons f fs)
  show ?case
  proof (cases "f_Type f \<in> set wanted")
    case False
    with Cons show ?thesis by simp
  next
    case True
    with Cons.prems have v: "validateFinding (n_text (normalizeText input)) f = None"
      by (auto split: option.splits)
    let ?g = "f\<lparr>f_Start := int (originalOffset (normalizeText input) (nat (f_Start f))),
        f_End := int (originalOffset (normalizeText input) (nat (f_End f))),
        f_Value := span input (int (originalOffset (normalizeText input) (nat (f_Start f))))
          (int (originalOffset (normalizeText input) (nat (f_End f))))\<rparr>"
    have "collected_ok input wanted ?g"
      using original_finding_ok [OF assms(1) validateFinding_None [OF v]] True
      by (simp add: collected_ok_def)
    with Cons.prems have "\<forall>h \<in> set (out @ [?g]). collected_ok input wanted h" by simp
    moreover have "appendOriginalFindings (out @ [?g]) input (normalizeText input) wanted fs = Inr out'"
      using Cons.prems(1) True v by (simp add: Let_def)
    ultimately show ?thesis using Cons.IH by blast
  qed
qed simp

lemma collect_loop_ok:
  assumes "valid_string input"
    and "collect_loop ds input (normalizeText input) wanted candidates covered out w = (Inr (cov, out'), w')"
    and "\<forall>f \<in> set out. collected_ok input wanted f"
  shows "\<forall>f \<in> set out'. collected_ok input wanted f"
  using assms(2,3)
proof (induction ds arbitrary: covered out w)
  case (Cons d ds)
  from Cons.prems show ?case
    by (cases d)
      (auto split: prod.splits option.splits bool.splits sum.splits
        dest!: Cons.IH dest: appendOriginalFindings_ok [OF assms(1) _ Cons.prems(2)])
qed simp

lemma collect_loop_same_sources:
  "collect_loop ds input view wanted candidates covered out w = (res, w') \<Longrightarrow> same_sources w w'"
proof (induction ds arbitrary: covered out w)
  case (Cons d ds)
  show ?case
    using Cons.prems
    by (cases d)
      (auto split: prod.splits option.splits bool.splits sum.splits
        dest!: Cons.IH ctx_Err_same; meson same_sources_trans)
qed simp

text \<open>
  Everything the registry returns is a non-empty span of the original text, of a requested
  type, cut at rune boundaries and with the value it covers.
\<close>

lemma collect_ok:
  assumes "collect r input types candidates w = (Inr out, w')"
  shows "valid_string input \<and> (\<forall>f \<in> set out. collected_ok input (requestedTypes r types) f)"
  using assms
  by (auto simp: collect_def Let_def split: if_splits prod.splits sum.splits dest: collect_loop_ok)

lemma collect_same_sources:
  "collect r input types candidates w = (res, w') \<Longrightarrow> same_sources w w'"
  by (auto simp: collect_def Let_def split: if_splits prod.splits sum.splits
      dest: collect_loop_same_sources)

section \<open>Properties of the overlap resolution\<close>

lemma better_irrefl: "\<not> better a a"
  by (simp add: better_def)

lemma overlap_less_asym: "overlap_less a b \<Longrightarrow> \<not> overlap_less b a"
  by (auto simp: overlap_less_def better_def Let_def split: if_splits)

lemma overlap_less_neg_trans: "\<not> overlap_less b a \<Longrightarrow> \<not> overlap_less c b \<Longrightarrow> \<not> overlap_less c a"
  by (auto simp: overlap_less_def better_def Let_def split: if_splits)

lemma sorted_starts: "sorted (map f_Start (slice_stable overlap_less fs))"
  by (rule sorted_key_slice_stable) (auto simp: overlap_less_def split: if_splits)

definition covers :: "Finding list \<Rightarrow> int \<Rightarrow> bool" where
  "covers fs p \<longleftrightarrow> (\<exists>f \<in> set fs. f_Start f \<le> p \<and> p < f_End f)"

definition disjoint_spans :: "Finding list \<Rightarrow> bool" where
  "disjoint_spans fs = sorted_wrt (\<lambda>a b. f_End a \<le> f_Start b) fs"

lemma overlap_sweep_start: "\<exists>g gs. overlap_sweep prev fs = g # gs \<and> f_Start g = f_Start prev"
proof (induction fs arbitrary: prev)
  case (Cons f fs)
  show ?case
  proof (cases "f_Start f \<ge> f_End prev")
    case False
    then show ?thesis using Cons [of "(if better f prev then f else prev)\<lparr>f_Start := f_Start prev,
        f_End := if f_End f > f_End prev then f_End f else f_End prev\<rparr>"] by (simp add: Let_def)
  qed simp
qed simp

lemma overlap_sweep_covers:
  assumes "sorted (map f_Start (prev # fs))"
  shows "covers (overlap_sweep prev fs) p \<longleftrightarrow> covers (prev # fs) p"
  using assms
proof (induction fs arbitrary: prev)
  case (Cons f fs)
  show ?case
  proof (cases "f_Start f \<ge> f_End prev")
    case True
    with Cons show ?thesis by (auto simp: covers_def)
  next
    case False
    let ?m = "(if better f prev then f else prev)\<lparr>f_Start := f_Start prev,
        f_End := if f_End f > f_End prev then f_End f else f_End prev\<rparr>"
    have "covers (overlap_sweep ?m fs) p \<longleftrightarrow> covers (?m # fs) p"
      using Cons by auto
    moreover have "covers (?m # fs) p \<longleftrightarrow> covers (prev # f # fs) p"
      using False Cons.prems by (auto simp: covers_def)
    ultimately show ?thesis using False by (simp add: Let_def)
  qed
qed simp

lemma overlap_sweep_disjoint:
  assumes "sorted (map f_Start (prev # fs))" and "\<forall>f \<in> set (prev # fs). f_Start f < f_End f"
  shows "disjoint_spans (overlap_sweep prev fs) \<and>
    (\<forall>g \<in> set (overlap_sweep prev fs). f_Start prev \<le> f_Start g \<and> f_Start g < f_End g)"
  using assms
proof (induction fs arbitrary: prev)
  case Nil
  then show ?case by (simp add: disjoint_spans_def)
next
  case (Cons f fs)
  show ?case
  proof (cases "f_Start f \<ge> f_End prev")
    case True
    with Cons.IH [of f] Cons.prems show ?thesis by (fastforce simp: disjoint_spans_def)
  next
    case False
    let ?m = "(if better f prev then f else prev)\<lparr>f_Start := f_Start prev,
        f_End := if f_End f > f_End prev then f_End f else f_End prev\<rparr>"
    have "sorted (map f_Start (?m # fs))" "\<forall>f \<in> set (?m # fs). f_Start f < f_End f"
      using Cons.prems by auto
    from Cons.IH [OF this] False show ?thesis by (simp add: Let_def)
  qed
qed

text \<open>Ends and types of the result come from the input.\<close>

lemma overlap_sweep_from:
  "g \<in> set (overlap_sweep prev fs) \<Longrightarrow>
   f_Start g \<in> f_Start ` set (prev # fs) \<and> f_End g \<in> f_End ` set (prev # fs) \<and>
   (\<exists>f \<in> set (prev # fs). f_Type g = f_Type f \<and> f_Confidence g = f_Confidence f)"
proof (induction fs arbitrary: prev)
  case (Cons f fs)
  show ?case
  proof (cases "f_Start f \<ge> f_End prev")
    case True
    with Cons show ?thesis by fastforce
  next
    case False
    let ?m = "(if better f prev then f else prev)\<lparr>f_Start := f_Start prev,
        f_End := if f_End f > f_End prev then f_End f else f_End prev\<rparr>"
    have "g \<in> set (overlap_sweep ?m fs)" using Cons.prems False by (simp add: Let_def)
    from Cons.IH [OF this] show ?thesis by (auto split: if_splits)
  qed
qed auto

lemma ResolveOverlaps_covers: "covers (ResolveOverlaps fs) p \<longleftrightarrow> covers fs p"
proof (cases "slice_stable overlap_less fs")
  case Nil
  then show ?thesis by (simp add: ResolveOverlaps_def)
next
  case (Cons g gs)
  have "covers (overlap_sweep g gs) p \<longleftrightarrow> covers (g # gs) p"
    using sorted_starts [of fs] Cons by (intro overlap_sweep_covers) simp
  also have "\<dots> \<longleftrightarrow> covers fs p"
    using set_slice_stable [of overlap_less fs] Cons by (simp add: covers_def)
  finally show ?thesis using Cons by (simp add: ResolveOverlaps_def)
qed

lemma ResolveOverlaps_disjoint:
  assumes "\<forall>f \<in> set fs. f_Start f < f_End f"
  shows "disjoint_spans (ResolveOverlaps fs)"
    and "\<forall>g \<in> set (ResolveOverlaps fs). f_Start g < f_End g"
proof -
  have "disjoint_spans (ResolveOverlaps fs) \<and> (\<forall>g \<in> set (ResolveOverlaps fs). f_Start g < f_End g)"
  proof (cases "slice_stable overlap_less fs")
    case Nil
    then show ?thesis by (simp add: ResolveOverlaps_def disjoint_spans_def)
  next
    case (Cons g gs)
    have "\<forall>f \<in> set (g # gs). f_Start f < f_End f"
      using assms set_slice_stable [of overlap_less fs] Cons by simp
    with overlap_sweep_disjoint [of g gs] sorted_starts [of fs] Cons show ?thesis
      by (simp add: ResolveOverlaps_def)
  qed
  then show "disjoint_spans (ResolveOverlaps fs)"
    and "\<forall>g \<in> set (ResolveOverlaps fs). f_Start g < f_End g" by blast+
qed

lemma ResolveOverlaps_from:
  assumes "g \<in> set (ResolveOverlaps fs)"
  shows "f_Start g \<in> f_Start ` set fs \<and> f_End g \<in> f_End ` set fs \<and>
    (\<exists>f \<in> set fs. f_Type g = f_Type f \<and> f_Confidence g = f_Confidence f)"
proof (cases "slice_stable overlap_less fs")
  case Nil
  with assms show ?thesis by (simp add: ResolveOverlaps_def)
next
  case (Cons h hs)
  with assms have "g \<in> set (overlap_sweep h hs)" by (simp add: ResolveOverlaps_def)
  from overlap_sweep_from [OF this] show ?thesis
    using set_slice_stable [of overlap_less fs] Cons by auto
qed

lemma ResolveOverlaps_ok:
  assumes "\<forall>f \<in> set fs. finding_ok text f"
  shows "\<forall>g \<in> set (ResolveOverlaps fs). finding_ok text g"
proof
  fix g assume g: "g \<in> set (ResolveOverlaps fs)"
  have "f_Start g < f_End g"
    using ResolveOverlaps_disjoint(2) [of fs] assms g by (auto simp: finding_ok_def)
  with ResolveOverlaps_from [OF g] assms show "finding_ok text g"
    by (auto simp: finding_ok_def)
qed

section \<open>Completeness of the collection\<close>

text \<open>A finding of the view as it is reported for the original text.\<close>

definition to_original :: "bytes \<Rightarrow> Finding \<Rightarrow> Finding" where
  "to_original input f =
     (let v = normalizeText input;
          a = int (originalOffset v (nat (f_Start f)));
          b = int (originalOffset v (nat (f_End f))) in
      f\<lparr>f_Start := a, f_End := b, f_Value := span input a b\<rparr>)"

lemma appendOriginalFindings_eq:
  "appendOriginalFindings out input (normalizeText input) wanted fs = Inr out' \<Longrightarrow>
   out' = out @ map (to_original input) (filter (\<lambda>f. f_Type f \<in> set wanted) fs)"
proof (induction fs arbitrary: out)
  case (Cons f fs)
  from Cons.prems show ?case
    by (auto simp: to_original_def Let_def split: if_splits option.splits dest!: Cons.IH)
qed simp

lemma collect_loop_complete:
  assumes "collect_loop ds input (normalizeText input) wanted candidates covered out w = (Inr (cov, out'), w')"
  shows "set out \<subseteq> set out' \<and> set cov = set covered \<union> (\<Union>(d, ts) \<in> set ds. set ts \<inter> set wanted) \<and>
    (\<forall>(d, ts) \<in> set ds. set ts \<inter> set wanted \<noteq> {} \<longrightarrow>
      (\<exists>fs. detectorFindings d (n_text (normalizeText input)) candidates = Some fs \<and>
        (\<forall>f \<in> set fs. f_Type f \<in> set wanted \<longrightarrow> to_original input f \<in> set out')))"
  using assms
proof (induction ds arbitrary: covered out w)
  case (Cons dt ds)
  obtain d ts where dt: "dt = (d, ts)" by (cases dt)
  let ?hit = "filter (\<lambda>t. t \<in> set wanted) ts"
  have hit: "set ?hit = set ts \<inter> set wanted" by auto
  show ?case
  proof (cases "?hit = []")
    case True
    with Cons.prems dt obtain w1 where
      "collect_loop ds input (normalizeText input) wanted candidates covered out w1 = (Inr (cov, out'), w')"
      by (auto simp: coverRequested_def split: prod.splits option.splits)
    from Cons.IH [OF this] True hit dt show ?thesis by auto
  next
    case False
    with Cons.prems dt obtain fs out1 w1 where fs: "detectorFindings d (n_text (normalizeText input)) candidates = Some fs"
      and out1: "appendOriginalFindings out input (normalizeText input) wanted fs = Inr out1"
      and rec: "collect_loop ds input (normalizeText input) wanted candidates (covered @ ?hit) out1 w1 = (Inr (cov, out'), w')"
      by (auto simp: coverRequested_def Let_def split: prod.splits option.splits sum.splits bool.splits)
    have "\<forall>f \<in> set fs. f_Type f \<in> set wanted \<longrightarrow> to_original input f \<in> set out1" "set out \<subseteq> set out1"
      using appendOriginalFindings_eq [OF out1] by auto
    with Cons.IH [OF rec] fs hit dt show ?thesis by auto
  qed
qed simp

lemma collect_success:
  assumes "collect r input types candidates w = (Inr out, w')"
  obtains cov where "collect_loop (zip (r_detectors r) (r_supported r)) input (normalizeText input)
      (requestedTypes r types) candidates [] [] w = (Inr (cov, out), w')"
    "\<forall>t \<in> set (requestedTypes r types). t \<in> set cov" "valid_string input"
  using assms by (auto simp: collect_def Let_def list_all_iff split: if_splits prod.splits sum.splits)

section \<open>Properties\<close>

text \<open>
  C30. Whatever the detectors do, a collection that succeeds returns findings of requested categories only, each a
  non-empty piece of the original text cut at rune boundaries, with the text it covers as its value
  and a confidence between 0 and 1.
\<close>

theorem collect_well_formed:
  assumes "collect r input types candidates w = (Inr out, w')"
  shows "valid_string input \<and> (\<forall>f \<in> set out. collected_ok input (requestedTypes r types) f)"
  by (rule collect_ok [OF assms])

definition sample_detector :: Detector where
  "sample_detector =
     \<lparr>d_Type = TypeCVV, d_Types = None,
      d_Detect = (\<lambda>s. Some [\<lparr>f_Type = TypeCVV, f_Start = 0, f_End = 1, f_Confidence = ConfidenceHigh,
        f_Detector = ''cvv'', f_Value = [], f_Evidence = 0\<rparr>]),
      d_Candidates = None\<rparr>"

definition sample_world :: world where
  "sample_world =
     \<lparr>w_ctx = (\<lambda>_. None), w_polls = 0, w_clock = (\<lambda>n. int n), w_times = 0, w_rand = (\<lambda>_. Some ''0123456789abcdef''),
      w_draws = 0, w_reqid = [], w_log = []\<rparr>"

lemma normalizeRune_ascii:
  assumes "0x20 \<le> r" and "r < 0x7F"
  shows "normalizeRune r = r"
proof (cases "r = 0x20")
  case True
  show ?thesis unfolding True normalizeRune_def by simp
next
  case False
  with assms have "\<not> unicode_IsSpace r" by (simp add: unicode_IsSpace_def white_space_table_def)
  with assms show ?thesis by (simp add: normalizeRune_def)
qed

lemma ascii_not_normalized:
  "list_all (\<lambda>c. 0x20 \<le> byte c \<and> byte c < 0x7F) s \<Longrightarrow> valid_string s \<and> normalizeText s = \<lparr>n_text = s, n_offsets = None\<rparr>"
proof -
  assume s: "list_all (\<lambda>c. 0x20 \<le> byte c \<and> byte c < 0x7F) s"
  have "valid_string s \<and> runes s = map byte s" using s by (induction s) auto
  moreover have "normalizeRune (byte c) = byte c" if "c \<in> set s" for c
    using that s by (simp add: list_all_iff normalizeRune_ascii)
  ultimately show ?thesis by (auto simp: normalizeText_def list_ex_iff)
qed

lemma sample_collect:
  "collect (NewRegistry [sample_detector]) ''7x'' None False sample_world =
   (Inr [\<lparr>f_Type = TypeCVV, f_Start = 0, f_End = 1, f_Confidence = ConfidenceHigh,
      f_Detector = ''cvv'', f_Value = ''7'', f_Evidence = 0\<rparr>], sample_world\<lparr>w_polls := 2\<rparr>)"
  using ascii_not_normalized [of "''7x''"]
  by (simp add: collect_def NewRegistry_def SupportedTypes_def sample_detector_def requestedTypes_def
      coverRequested_def detectorFindings_def ctx_Err_def sample_world_def validateFinding_def
      rune_start_def originalOffset_def span_def gslice_def ConfidenceHigh_def byte_def Let_def)

theorem collect_well_formed_witness:
  "collected_ok ''7x'' [TypeCVV] \<lparr>f_Type = TypeCVV, f_Start = 0, f_End = 1, f_Confidence = ConfidenceHigh,
      f_Detector = ''cvv'', f_Value = ''7'', f_Evidence = 0\<rparr>"
  using collect_well_formed [OF sample_collect]
  by (simp add: requestedTypes_def NewRegistry_def SupportedTypes_def sample_detector_def)

text \<open>
  A collection fails closed and loses nothing: when it succeeds, every requested category is supported by a
  registered detector, and every finding of a requested category that such a detector reported
  is in the result, moved to the offsets of the original text.
\<close>

theorem collect_complete:
  assumes "collect r input types candidates w = (Inr out, w')"
    and "length (r_supported r) = length (r_detectors r)"
  shows "(\<forall>t \<in> set (requestedTypes r types). \<exists>ts \<in> set (r_supported r). t \<in> set ts) \<and>
    (\<forall>i < length (r_detectors r). set (r_supported r ! i) \<inter> set (requestedTypes r types) \<noteq> {} \<longrightarrow>
      (\<exists>fs. detectorFindings (r_detectors r ! i) (n_text (normalizeText input)) candidates = Some fs \<and>
        (\<forall>f \<in> set fs. f_Type f \<in> set (requestedTypes r types) \<longrightarrow> to_original input f \<in> set out)))"
proof -
  let ?ds = "zip (r_detectors r) (r_supported r)"
  obtain cov where loop: "collect_loop ?ds input (normalizeText input) (requestedTypes r types) candidates [] [] w
      = (Inr (cov, out), w')" and cov: "\<forall>t \<in> set (requestedTypes r types). t \<in> set cov"
    using collect_success [OF assms(1)] by blast
  note c = collect_loop_complete [OF loop]
  have "\<exists>ts \<in> set (r_supported r). t \<in> set ts" if "t \<in> set (requestedTypes r types)" for t
  proof -
    have "t \<in> (\<Union>(d, ts) \<in> set ?ds. set ts \<inter> set (requestedTypes r types))" using cov that c by simp
    then obtain d ts where "(d, ts) \<in> set ?ds" "t \<in> set ts" by auto
    then show ?thesis by (auto dest: set_zip_rightD)
  qed
  moreover have "(r_detectors r ! i, r_supported r ! i) \<in> set ?ds" if "i < length (r_detectors r)" for i
    using that assms(2) by (auto simp: set_zip)
  ultimately show ?thesis using c by fast
qed

theorem collect_complete_witness:
  "to_original ''7x'' \<lparr>f_Type = TypeCVV, f_Start = 0, f_End = 1, f_Confidence = ConfidenceHigh,
      f_Detector = ''cvv'', f_Value = [], f_Evidence = 0\<rparr> \<in>
   set [\<lparr>f_Type = TypeCVV, f_Start = 0, f_End = 1, f_Confidence = ConfidenceHigh,
      f_Detector = ''cvv'', f_Value = ''7'', f_Evidence = 0\<rparr>]"
  using collect_complete [OF sample_collect]
  by (simp add: requestedTypes_def NewRegistry_def SupportedTypes_def sample_detector_def detectorFindings_def)

text \<open>
  C31. The resolution of overlaps covers every byte that some finding covers and no other, its findings are in
  order and do not overlap, and their ends and categories are those of given findings.
\<close>

theorem resolve_overlaps_exact:
  assumes "\<forall>f \<in> set fs. f_Start f < f_End f"
  shows "disjoint_spans (ResolveOverlaps fs) \<and> (\<forall>p. covers (ResolveOverlaps fs) p \<longleftrightarrow> covers fs p) \<and>
    (\<forall>g \<in> set (ResolveOverlaps fs). f_Start g < f_End g \<and> f_Start g \<in> f_Start ` set fs \<and>
      f_End g \<in> f_End ` set fs \<and> f_Type g \<in> f_Type ` set fs)"
  using ResolveOverlaps_disjoint [OF assms] ResolveOverlaps_covers [of fs] ResolveOverlaps_from [of _ fs]
  by blast

theorem resolve_overlaps_exact_witness:
  "\<exists>a b. disjoint_spans (ResolveOverlaps [a\<lparr>f_Start := 0, f_End := 5\<rparr>, b\<lparr>f_Start := 3, f_End := 8\<rparr>]) \<and>
    covers (ResolveOverlaps [a\<lparr>f_Start := 0, f_End := 5\<rparr>, b\<lparr>f_Start := 3, f_End := 8\<rparr>]) 7"
proof -
  have "\<forall>f \<in> set [a\<lparr>f_Start := 0, f_End := 5\<rparr>, b\<lparr>f_Start := 3, f_End := 8\<rparr>]. f_Start f < f_End f"
    for a b :: Finding by simp
  from resolve_overlaps_exact [OF this] show ?thesis by (auto simp: covers_def)
qed

end
