(* ===== verification/Masking.thy ===== *)
theory Masking
  imports Pii
begin

text \<open>
  \<^verbatim>\<open>internal/pii/masking/transform.go\<close>: the format-preserving masks, one per category, and the
  typed tokens of the token mode. The masks work on the runes of a value; the mask of an e-mail
  address works on its bytes.
\<close>

section \<open>Definitions\<close>

definition star :: rune where "star = 0x2A"

definition isDigitRune :: "rune \<Rightarrow> bool" where "isDigitRune r = unicode_IsDigit r"
definition isLetterRune :: "rune \<Rightarrow> bool" where "isLetterRune r = unicode_IsLetter r"

text \<open>\<^verbatim>\<open>itoa\<close>, for a non-negative number: the loop puts the digits in front of the output.\<close>

function itoa_loop :: "nat \<Rightarrow> bytes \<Rightarrow> bytes" where
  "itoa_loop n b = (if n > 0 then itoa_loop (n div 10) (digit_char (n mod 10) # b) else b)"
  by pat_completeness auto
termination
  by (relation "measure fst") auto

declare itoa_loop.simps [simp del]

definition itoa :: "nat \<Rightarrow> bytes" where
  "itoa n = (if n = 0 then ''0'' else itoa_loop n [])"

definition MaskToken :: "PIIType \<Rightarrow> nat \<Rightarrow> bytes" where
  "MaskToken typ index = ''<'' @ strings_ToUpper typ @ ''_'' @ itoa (index + 1) @ ''>''"

text \<open>Words become initials.\<close>

fun full_name_loop :: "bool \<Rightarrow> bytes list \<Rightarrow> bytes" where
  "full_name_loop first [] = []"
| "full_name_loop first (w # ws) =
     (if first then [] else '' '') @
     (case runes w of [] \<Rightarrow> [] | r # rs \<Rightarrow> encode_rune r @ ''.'') @ full_name_loop False ws"

definition maskFullName :: "bytes \<Rightarrow> bytes" where
  "maskFullName value =
     (let words = strings_Fields value in
      if words = [] then value else full_name_loop True words)"

definition maskWords_runes :: "rune list \<Rightarrow> rune list" where
  "maskWords_runes rs = map (\<lambda>r. if isLetterRune r then star else r) rs"

definition maskWords :: "bytes \<Rightarrow> bytes" where
  "maskWords value = of_runes (maskWords_runes (runes value))"

text \<open>
  The runs of digits of a date: how many digits there are, and where the last run of exactly
  four digits, the year, starts and ends (\<^const>\<open>None\<close> for the pair -1, -1).
\<close>

function dateDigitRuns_loop ::
  "nat \<Rightarrow> rune list \<Rightarrow> nat \<Rightarrow> (nat \<times> nat) option \<Rightarrow> nat \<times> (nat \<times> nat) option"
where
  "dateDigitRuns_loop i [] digitTotal year = (digitTotal, year)"
| "dateDigitRuns_loop i (r # rs) digitTotal year =
     (if isDigitRune r then
        (let n = length (takeWhile isDigitRune (r # rs)) in
         dateDigitRuns_loop (i + n) (drop n (r # rs)) (digitTotal + n)
           (if n = 4 then Some (i, i + n) else year))
      else dateDigitRuns_loop (i + 1) rs digitTotal year)"
  by pat_completeness auto
termination
  by (relation "measure (\<lambda>(i, rs, t, y). length rs)") auto

definition dateDigitRuns :: "rune list \<Rightarrow> nat \<times> (nat \<times> nat) option" where
  "dateDigitRuns rs = dateDigitRuns_loop 0 rs 0 None"

definition maskDate_at :: "bool \<Rightarrow> (nat \<times> nat) option \<Rightarrow> nat \<Rightarrow> rune \<Rightarrow> rune" where
  "maskDate_at keepYear year i r =
     (let inYear = (\<lambda>k. case year of None \<Rightarrow> False | Some (a, b) \<Rightarrow> a + k \<le> i \<and> i < b) in
      if keepYear \<and> inYear 0 then r
      else if \<not> keepYear \<and> inYear 2 then r
      else if isDigitRune r then star
      else r)"

definition maskDate_runes :: "rune list \<Rightarrow> rune list" where
  "maskDate_runes rs =
     (case dateDigitRuns rs of (digitTotal, year) \<Rightarrow>
        if digitTotal = 0 then maskWords_runes rs
        else
          (let keepYear = (case year of None \<Rightarrow> False | Some (a, b) \<Rightarrow> digitTotal > b - a) in
           map (\<lambda>(i, r). maskDate_at keepYear year i r) (zip [0..<length rs] rs)))"

definition maskDate :: "bytes \<Rightarrow> bytes" where
  "maskDate value = of_runes (maskDate_runes (runes value))"

text \<open>
  The loop that the masks of passports, cards and phones share: the first \<open>lo\<close> and the last \<open>hi\<close>
  of \<open>digits\<close> digits stay, \<open>idx\<close> digits have been seen.
\<close>

fun keep_edges_loop :: "nat \<Rightarrow> nat \<Rightarrow> nat \<Rightarrow> nat \<Rightarrow> rune list \<Rightarrow> rune list" where
  "keep_edges_loop lo hi digits idx [] = []"
| "keep_edges_loop lo hi digits idx (r # rs) =
     (if isDigitRune r
      then (if idx < lo \<or> digits \<le> idx + hi then r else star) # keep_edges_loop lo hi digits (idx + 1) rs
      else r # keep_edges_loop lo hi digits idx rs)"

definition digits_of :: "rune list \<Rightarrow> rune list" where
  "digits_of rs = filter isDigitRune rs"

definition maskPassport_runes :: "rune list \<Rightarrow> rune list" where
  "maskPassport_runes rs = keep_edges_loop 2 2 (length (digits_of rs)) 0 rs"

definition maskPassport :: "bytes \<Rightarrow> bytes" where
  "maskPassport value = of_runes (maskPassport_runes (runes value))"

definition maskDriverLicense :: "bytes \<Rightarrow> bytes" where
  "maskDriverLicense value = maskPassport value"

definition maskCardNumber_runes :: "rune list \<Rightarrow> rune list" where
  "maskCardNumber_runes rs = keep_edges_loop 4 4 (length (digits_of rs)) 0 rs"

definition maskCardNumber :: "bytes \<Rightarrow> bytes" where
  "maskCardNumber value = of_runes (maskCardNumber_runes (runes value))"

definition maskDigitsKeepEdges :: "bytes \<Rightarrow> bytes" where
  "maskDigitsKeepEdges value = maskPassport value"

definition maskAllDigits_runes :: "rune list \<Rightarrow> rune list" where
  "maskAllDigits_runes rs = map (\<lambda>r. if isDigitRune r then star else r) rs"

definition maskAllDigits :: "bytes \<Rightarrow> bytes" where
  "maskAllDigits value = of_runes (maskAllDigits_runes (runes value))"

definition maskAllAlphaNumeric_runes :: "rune list \<Rightarrow> rune list" where
  "maskAllAlphaNumeric_runes rs = map (\<lambda>r. if isDigitRune r \<or> isLetterRune r then star else r) rs"

definition maskAllAlphaNumeric :: "bytes \<Rightarrow> bytes" where
  "maskAllAlphaNumeric value = of_runes (maskAllAlphaNumeric_runes (runes value))"

definition maskPhone_runes :: "rune list \<Rightarrow> rune list" where
  "maskPhone_runes rs = keep_edges_loop 1 2 (length (digits_of rs)) 0 rs"

definition maskPhone :: "bytes \<Rightarrow> bytes" where
  "maskPhone value = of_runes (maskPhone_runes (runes value))"

text \<open>
  \<^verbatim>\<open>string(local[0])\<close> is the string of the code point that the first byte names, which is the
  first character only when that character is ASCII.
\<close>

definition maskEmail :: "bytes \<Rightarrow> bytes" where
  "maskEmail value =
     (case strings_IndexByte value (CHR ''@'') of
        None \<Rightarrow> maskWords value
      | Some atp \<Rightarrow>
          (let local = take atp value; domain = drop (atp + 1) value;
               maskedLocal = (case local of
                   c # cs \<Rightarrow> encode_rune (byte c) @ replicate (length local - 1) (CHR ''*'')
                 | [] \<Rightarrow> ''*'');
               maskedDomain = (case strings_LastIndexByte domain (CHR ''.'') of
                   Some dot \<Rightarrow> if dot > 0 then replicate dot (CHR ''*'') @ drop dot domain
                               else replicate (length domain) (CHR ''*'')
                 | None \<Rightarrow> replicate (length domain) (CHR ''*'')) in
           maskedLocal @ ''@'' @ maskedDomain))"

type_synonym Strategy = "bytes \<Rightarrow> bytes"

definition strategies :: "(PIIType \<times> Strategy) list" where
  "strategies =
     [(TypeFullName, maskFullName), (TypeDateOfBirth, maskDate), (TypePlaceOfBirth, maskWords),
      (TypePassportNumber, maskPassport), (TypeCitizenship, maskWords),
      (TypePassportIssuer, maskAllAlphaNumeric), (TypePassportDivision, maskDigitsKeepEdges),
      (TypePassportIssueDate, maskDate), (TypeDriverLicense, maskDriverLicense),
      (TypeAddress, maskAllAlphaNumeric), (TypeEmail, maskEmail), (TypePhone, maskPhone),
      (TypeINN, maskDigitsKeepEdges), (TypeCardNumber, maskCardNumber), (TypeCVV, maskAllDigits),
      (TypeCardPIN, maskAllDigits), (TypeCardHolder, maskFullName)]"

definition Mask_value :: "PIIType \<Rightarrow> bytes \<Rightarrow> bytes" where
  "Mask_value typ value =
     (case map_of strategies typ of Some s \<Rightarrow> s value | None \<Rightarrow> maskAllAlphaNumeric value)"

section \<open>Masks that keep the shape of a value\<close>

definition kept_or_star :: "rune list \<Rightarrow> rune list \<Rightarrow> bool" where
  "kept_or_star rs ms = list_all2 (\<lambda>r m. m = r \<or> m = star) rs ms"

text \<open>The contract of a rune mask: every rune stays or becomes an asterisk.\<close>

locale rune_mask =
  fixes m :: "rune list \<Rightarrow> rune list"
  assumes kept: "kept_or_star rs (m rs)"
begin

lemma length_mask: "length (m rs) = length rs"
  using kept [of rs] by (simp add: kept_or_star_def list_all2_lengthD)

lemma mask_valid: "\<forall>r \<in> set rs. valid_rune r \<Longrightarrow> \<forall>r \<in> set (m rs). valid_rune r"
  using kept [of rs] by (fastforce simp: kept_or_star_def list_all2_conv_all_nth in_set_conv_nth star_def valid_rune_def)

lemma mask_runes: "valid_string v \<Longrightarrow> runes (of_runes (m (runes v))) = m (runes v)"
  by (intro runes_of_runes mask_valid ballI) (rule valid_runes)

lemma mask_shape: "valid_string v \<Longrightarrow> kept_or_star (runes v) (runes (of_runes (m (runes v))))"
  using kept by (simp add: mask_runes)

lemma mask_changes:
  assumes "valid_string v" and "i < length (runes v)" and "runes v ! i \<noteq> star" and "m (runes v) ! i = star"
  shows "of_runes (m (runes v)) \<noteq> v"
  using assms mask_runes by metis

end

lemma kept_or_star_map:
  "(\<And>r. f r = r \<or> f r = star) \<Longrightarrow> kept_or_star rs (map f rs)"
  by (simp add: kept_or_star_def list_all2_conv_all_nth)

lemma kept_or_star_keep_edges: "kept_or_star rs (keep_edges_loop lo hi digits idx rs)"
  by (induction rs arbitrary: idx) (simp_all add: kept_or_star_def)

lemma kept_or_star_date: "kept_or_star rs (maskDate_runes rs)"
  by (auto simp: maskDate_runes_def maskWords_runes_def kept_or_star_def maskDate_at_def Let_def
      list_all2_conv_all_nth split: prod.splits)

interpretation mask_words: rune_mask maskWords_runes
  by unfold_locales (simp add: maskWords_runes_def kept_or_star_map)

interpretation mask_digits: rune_mask maskAllDigits_runes
  by unfold_locales (simp add: maskAllDigits_runes_def kept_or_star_map)

interpretation mask_alnum: rune_mask maskAllAlphaNumeric_runes
  by unfold_locales (simp add: maskAllAlphaNumeric_runes_def kept_or_star_map)

interpretation mask_passport: rune_mask maskPassport_runes
  by unfold_locales (simp add: maskPassport_runes_def kept_or_star_keep_edges)

interpretation mask_card: rune_mask maskCardNumber_runes
  by unfold_locales (simp add: maskCardNumber_runes_def kept_or_star_keep_edges)

interpretation mask_phone: rune_mask maskPhone_runes
  by unfold_locales (simp add: maskPhone_runes_def kept_or_star_keep_edges)

interpretation mask_date: rune_mask maskDate_runes
  by unfold_locales (rule kept_or_star_date)

lemmas mask_defs =
  maskFullName_def maskDate_def maskWords_def maskPassport_def maskAllAlphaNumeric_def
  maskDigitsKeepEdges_def maskDriverLicense_def maskPhone_def maskCardNumber_def maskAllDigits_def

lemma Mask_value_types:
  "Mask_value TypeFullName v = maskFullName v" "Mask_value TypeDateOfBirth v = maskDate v"
  "Mask_value TypePlaceOfBirth v = maskWords v" "Mask_value TypePassportNumber v = maskPassport v"
  "Mask_value TypeCitizenship v = maskWords v" "Mask_value TypePassportIssuer v = maskAllAlphaNumeric v"
  "Mask_value TypePassportDivision v = maskDigitsKeepEdges v"
  "Mask_value TypePassportIssueDate v = maskDate v" "Mask_value TypeDriverLicense v = maskDriverLicense v"
  "Mask_value TypeAddress v = maskAllAlphaNumeric v" "Mask_value TypeEmail v = maskEmail v"
  "Mask_value TypePhone v = maskPhone v" "Mask_value TypeINN v = maskDigitsKeepEdges v"
  "Mask_value TypeCardNumber v = maskCardNumber v" "Mask_value TypeCVV v = maskAllDigits v"
  "Mask_value TypeCardPIN v = maskAllDigits v" "Mask_value TypeCardHolder v = maskFullName v"
  unfolding Mask_value_def strategies_def type_defs by simp_all

lemma Mask_value_other: "typ \<notin> set AllTypes \<Longrightarrow> Mask_value typ v = maskAllAlphaNumeric v"
  unfolding Mask_value_def strategies_def AllTypes_def by simp

text \<open>The categories whose mask is not a rune mask.\<close>

definition reshaping_types :: "PIIType list" where
  "reshaping_types = [TypeFullName, TypeCardHolder, TypeEmail]"

lemma Mask_value_shape:
  assumes "valid_string v" and "typ \<notin> set reshaping_types"
  shows "kept_or_star (runes v) (runes (Mask_value typ v))"
  using assms
  by (simp add: Mask_value_def strategies_def mask_defs reshaping_types_def
      mask_words.mask_shape mask_digits.mask_shape mask_alnum.mask_shape mask_passport.mask_shape
      mask_card.mask_shape mask_phone.mask_shape mask_date.mask_shape)

section \<open>Digits that stay visible\<close>

lemma star_not_digit [simp]: "\<not> isDigitRune star"
  by (simp add: isDigitRune_def star_def)

lemma star_not_letter [simp]: "\<not> isLetterRune star"
  by (simp add: isLetterRune_def star_def)

text \<open>
  The digits of the output of the loop are the first digits of the input up to \<open>lo\<close> and the
  last \<open>hi\<close> of the \<open>digits\<close> digits.
\<close>

lemma digits_keep_edges:
  "digits_of (keep_edges_loop lo hi digits idx rs) =
   map snd (filter (\<lambda>(k, r). k < lo \<or> digits \<le> k + hi)
     (zip [idx..<idx + length (digits_of rs)] (digits_of rs)))"
proof (induction rs arbitrary: idx)
  case (Cons r rs)
  show ?case
  proof (cases "isDigitRune r")
    case True
    have "[idx..<idx + length (digits_of (r # rs))] = idx # [Suc idx..<Suc idx + length (digits_of rs)]"
      using True by (simp add: digits_of_def upt_conv_Cons del: upt_Suc)
    with True Cons [of "Suc idx"] show ?thesis by (simp add: digits_of_def)
  next
    case False
    with Cons [of idx] show ?thesis by (simp add: digits_of_def)
  qed
qed (simp add: digits_of_def)

lemma filter_zip_upt_edges:
  "map snd (filter (\<lambda>(k, r). k < lo \<or> length ds \<le> k + hi) (zip [0..<length ds] ds)) =
   (if length ds \<le> lo + hi then ds else take lo ds @ drop (length ds - hi) ds)"
proof (cases "length ds \<le> lo + hi")
  case True
  have "filter (\<lambda>(k, r). k < lo \<or> length ds \<le> k + hi) (zip [0..<length ds] ds) = zip [0..<length ds] ds"
    using True by (intro filter_True) (auto simp: set_zip)
  with True show ?thesis by simp
next
  case False
  let ?n = "length ds" and ?P = "\<lambda>(k::nat, r). k < lo \<or> length ds \<le> k + hi"
  have split: "[0..<?n] = [0..<lo] @ [lo..<?n - hi] @ [?n - hi..<?n]"
    using False upt_add_eq_append [of 0 lo "?n - lo"] upt_add_eq_append [of lo "?n - hi" hi] by simp
  have ds: "ds = take lo ds @ gslice ds lo (?n - hi) @ drop (?n - hi) ds"
    using False by (metis append_take_drop_id diff_le_self le_add_diff_inverse2 nat_le_linear add_diff_cancel_right' add_le_imp_le_diff slice_append_drop)
  have z: "zip [0..<?n] ds = zip [0..<lo] (take lo ds) @ zip [lo..<?n - hi] (gslice ds lo (?n - hi))
      @ zip [?n - hi..<?n] (drop (?n - hi) ds)"
    by (subst (2) ds, subst split) (use False in simp)
  have "filter ?P (zip [0..<lo] (take lo ds)) = zip [0..<lo] (take lo ds)"
    by (intro filter_True) (auto simp: set_zip)
  moreover have "filter ?P (zip [lo..<?n - hi] (gslice ds lo (?n - hi))) = []"
    by (intro filter_False) (auto simp: set_zip)
  moreover have "filter ?P (zip [?n - hi..<?n] (drop (?n - hi) ds)) = zip [?n - hi..<?n] (drop (?n - hi) ds)"
    using False by (intro filter_True) (auto simp: set_zip)
  ultimately show ?thesis using False by (subst z) simp
qed

definition edge_digits :: "nat \<Rightarrow> nat \<Rightarrow> rune list \<Rightarrow> rune list" where
  "edge_digits lo hi ds =
     (if length ds \<le> lo + hi then ds else take lo ds @ drop (length ds - hi) ds)"

lemma digits_keep_edges_all:
  "digits_of (keep_edges_loop lo hi (length (digits_of rs)) 0 rs) = edge_digits lo hi (digits_of rs)"
  using digits_keep_edges [of lo hi "length (digits_of rs)" 0 rs] filter_zip_upt_edges [of lo "digits_of rs" hi]
  by (simp add: edge_digits_def)

lemma digits_map_star:
  "(\<And>r. isDigitRune r \<Longrightarrow> f r = star) \<Longrightarrow> (\<And>r. \<not> isDigitRune r \<Longrightarrow> f r = r \<or> f r = star) \<Longrightarrow>
   digits_of (map f rs) = []"
  by (induction rs) (auto simp: digits_of_def, metis star_not_digit)

section \<open>Dates\<close>

definition year_ok :: "rune list \<Rightarrow> (nat \<times> nat) option \<Rightarrow> bool" where
  "year_ok rs year =
     (case year of None \<Rightarrow> True
      | Some (a, b) \<Rightarrow> b = a + 4 \<and> b \<le> length rs \<and> (\<forall>k \<in> {a..<b}. isDigitRune (rs ! k)))"

lemma length_filter_takeWhile:
  "length (filter P xs) = length (takeWhile P xs) + length (filter P (drop (length (takeWhile P xs)) xs))"
proof -
  have "filter P (takeWhile P xs) = takeWhile P xs"
    by (intro filter_True) (auto dest: set_takeWhileD)
  then show ?thesis
    by (metis append_take_drop_id filter_append length_append takeWhile_eq_take)
qed

lemma dateDigitRuns_loop_spec:
  assumes "dateDigitRuns_loop i rs t y = (t', y')" and "rs = drop i xs" and "i \<le> length xs"
    and "year_ok xs y"
  shows "t' = t + length (digits_of rs) \<and> year_ok xs y'"
  using assms
proof (induction i rs t y rule: dateDigitRuns_loop.induct)
  case (2 i r rs t y)
  let ?n = "length (takeWhile isDigitRune (r # rs))"
  have rest: "rs = drop (Suc i) xs" using 2(4) by (metis drop_Suc drop_tl list.sel(3))
  show ?case
  proof (cases "isDigitRune r")
    case True
    have len: "i + ?n \<le> length xs"
      using length_takeWhile_le [of isDigitRune "r # rs"] 2(4,5) by (metis add_le_cancel_left le_add_diff_inverse length_drop)
    have "year_ok xs (if ?n = 4 then Some (i, i + ?n) else y)"
    proof (cases "?n = 4")
      case four: True
      have "isDigitRune (xs ! k)" if "k \<in> {i..<i + 4}" for k
      proof -
        have "k - i < ?n" using that four by auto
        then have "isDigitRune ((r # rs) ! (k - i))"
          by (metis nth_mem set_takeWhileD takeWhile_nth)
        then show ?thesis using that 2(4,5) by simp
      qed
      with four len show ?thesis by (simp add: year_ok_def)
    qed (use 2(6) in simp)
    moreover have "drop ?n (r # rs) = drop (i + ?n) xs" using 2(4) by (simp add: add.commute)
    moreover have "dateDigitRuns_loop (i + ?n) (drop ?n (r # rs)) (t + ?n)
        (if ?n = 4 then Some (i, i + ?n) else y) = (t', y')"
      using 2(3) True by (simp only: dateDigitRuns_loop.simps Let_def if_True)
    ultimately have "t' = t + ?n + length (digits_of (drop ?n (r # rs))) \<and> year_ok xs y'"
      using 2(1) [OF True refl] len by blast
    then show ?thesis
      using length_filter_takeWhile [of isDigitRune "r # rs"] by (simp add: digits_of_def)
  next
    case False
    have "Suc i \<le> length xs" using 2(4,5) by (metis drop_all list.distinct(1) not_less_eq_eq)
    with 2(2) [OF False] 2(3,6) False rest have "t' = t + length (digits_of rs) \<and> year_ok xs y'" by simp
    with False show ?thesis by (simp add: digits_of_def)
  qed
qed (simp add: digits_of_def)

lemma dateDigitRuns_spec:
  "dateDigitRuns rs = (t, y) \<Longrightarrow> t = length (digits_of rs) \<and> year_ok rs y"
  using dateDigitRuns_loop_spec [of 0 rs 0 None t y rs] by (simp add: dateDigitRuns_def year_ok_def)

lemma length_digits_map_zip:
  "length (digits_of (map (\<lambda>(i, r). f i r) (zip [0..<length rs] rs))) =
   card {i. i < length rs \<and> isDigitRune (f i (rs ! i))}"
  by (simp add: digits_of_def length_filter_conv_card cong: conj_cong)

lemma maskDate_digits_count:
  assumes "digits_of rs \<noteq> []"
  shows "length (digits_of (maskDate_runes rs)) \<le> 4 \<and>
    length (digits_of (maskDate_runes rs)) < length (digits_of rs)"
proof -
  obtain t y where ty: "dateDigitRuns rs = (t, y)" by force
  from dateDigitRuns_spec [OF ty] have t: "t = length (digits_of rs)" and y: "year_ok rs y" by auto
  let ?keep = "case y of None \<Rightarrow> False | Some (a, b) \<Rightarrow> t > b - a"
  have m: "length (digits_of (maskDate_runes rs)) =
      card {i. i < length rs \<and> isDigitRune (maskDate_at ?keep y i (rs ! i))}"
    using ty assms unfolding t by (simp add: maskDate_runes_def length_digits_map_zip)
  show ?thesis
  proof (cases y)
    case None
    then have "{i. i < length rs \<and> isDigitRune (maskDate_at ?keep y i (rs ! i))} = {}"
      by (auto simp: maskDate_at_def)
    with m assms show ?thesis by simp
  next
    case (Some ab)
    obtain a where ab: "y = Some (a, a + 4)" "a + 4 \<le> length rs"
      using y Some by (auto simp: year_ok_def split: prod.splits)
    have "{i. i < length rs \<and> isDigitRune (maskDate_at ?keep y i (rs ! i))} \<subseteq>
        (if t > 4 then {a..<a + 4} else {a + 2..<a + 4})"
      using ab by (auto simp: maskDate_at_def split: if_splits)
    from card_mono [OF _ this] have le: "length (digits_of (maskDate_runes rs)) \<le> (if t > 4 then 4 else 2)"
      using m by (auto split: if_splits)
    have "{a..<a + 4} \<subseteq> {i. i < length rs \<and> isDigitRune (rs ! i)}"
      using y ab by (auto simp: year_ok_def)
    from card_mono [OF _ this] have "4 \<le> t"
      using t by (simp add: digits_of_def length_filter_conv_card)
    with le t show ?thesis by (auto split: if_splits)
  qed
qed

section \<open>Names, addresses of mail, tokens\<close>

lemma full_name_loop_initials:
  "map (\<lambda>w. take 1 (runes w)) ws = map (\<lambda>w. take 1 (runes w)) ws' \<Longrightarrow>
   full_name_loop first ws = full_name_loop first ws'"
proof (induction ws arbitrary: ws' first)
  case (Cons w ws)
  then obtain w' ws'' where ws': "ws' = w' # ws''"
    and eq: "take 1 (runes w) = take 1 (runes w')"
      "map (\<lambda>w. take 1 (runes w)) ws = map (\<lambda>w. take 1 (runes w)) ws''"
    by (cases ws') auto
  from Cons.IH [OF eq(2)] eq(1) ws' show ?case
    by (cases "runes w"; cases "runes w'") simp_all
qed simp

lemma valid_replicate_star [simp]: "valid_string (replicate n (CHR ''*'') @ s) \<longleftrightarrow> valid_string s"
  by (induction n) (simp_all add: byte_def)

lemma valid_full_name_loop: "valid_string (full_name_loop first ws)"
proof (induction ws arbitrary: first)
  case (Cons w ws)
  from Cons [of False] show ?case by (auto simp: byte_def split: list.splits)
qed simp

lemma valid_drop:
  "valid_string s \<Longrightarrow> rune_boundary s i \<Longrightarrow> valid_string (drop i s)"
  using valid_slice [of s i "length s"] by (simp add: rune_boundary_def gslice_def)

lemma strings_LastIndexByte_Some:
  "strings_LastIndexByte s c = Some i \<Longrightarrow> i < length s \<and> s ! i = c"
  by (auto simp: strings_LastIndexByte_def rev_nth dest!: strings_IndexByte_Some)

lemma valid_maskEmail:
  assumes "valid_string v"
  shows "valid_string (maskEmail v)"
proof (cases "strings_IndexByte v (CHR ''@'')")
  case None
  then show ?thesis by (simp add: maskEmail_def maskWords_def)
next
  case (Some i)
  then have i: "i < length v" "v ! i = CHR ''@''" by (auto dest: strings_IndexByte_Some)
  have "rune_boundary v i" using i by (simp add: rune_boundary_def rune_start_def byte_def)
  from valid_drop [OF assms this] have "valid_string (CHR ''@'' # drop (Suc i) v)"
    using i by (simp add: Cons_nth_drop_Suc [symmetric])
  then have d: "valid_string (drop (Suc i) v)" by (simp add: byte_def)
  have dd: "valid_string (drop k (drop (Suc i) v))"
    if "strings_LastIndexByte (drop (Suc i) v) (CHR ''.'') = Some k" for k
    using strings_LastIndexByte_Some [OF that]
    by (intro valid_drop [OF d]) (simp add: rune_boundary_def rune_start_def byte_def)
  have stars: "valid_string (replicate n (CHR ''*''))" for n
    using valid_replicate_star [of n "[]"] by simp
  show ?thesis
    using Some dd stars by (auto simp: maskEmail_def Let_def byte_def split: list.splits option.splits)
qed

lemma valid_strategies:
  assumes "valid_string v" and "(t, s) \<in> set strategies"
  shows "valid_string (s v)"
proof -
  have "s \<in> {maskFullName, maskDate, maskWords, maskPassport, maskAllAlphaNumeric, maskDigitsKeepEdges,
      maskDriverLicense, maskEmail, maskPhone, maskCardNumber, maskAllDigits}"
    using assms(2) unfolding strategies_def by auto
  then show ?thesis
    using assms(1) valid_maskEmail [OF assms(1)]
    by (elim insertE) (simp_all add: mask_defs valid_full_name_loop Let_def)
qed

lemma itoa_loop_decimal: "0 < n \<Longrightarrow> itoa_loop n b = decimal n @ b"
proof (induction n arbitrary: b rule: less_induct)
  case (less n)
  show ?case
  proof (cases "n < 10")
    case True
    with less.prems show ?thesis
      by (simp add: itoa_loop.simps [of n] itoa_loop.simps [of 0] decimal.simps [of n])
  next
    case False
    with less show ?thesis by (simp add: itoa_loop.simps [of n] decimal.simps [of n])
  qed
qed

lemma itoa_decimal: "itoa n = decimal n"
  by (simp add: itoa_def itoa_loop_decimal decimal.simps [of 0] digit_char_def char_of_def bit_Suc_0_iff)

section \<open>Properties\<close>

text \<open>
  C40. Masking a valid text value gives valid text. Outside names, card holders and e-mail addresses it keeps
  the shape: as many characters as the value, each of them unchanged or an asterisk.
\<close>

theorem mask_format_preserving:
  assumes "valid_string v"
  shows "valid_string (Mask_value typ v) \<and>
    (typ \<notin> set reshaping_types \<longrightarrow> kept_or_star (runes v) (runes (Mask_value typ v)))"
proof -
  have "valid_string (Mask_value typ v)"
    using valid_strategies [OF assms]
    by (auto simp: Mask_value_def maskAllAlphaNumeric_def split: option.splits dest: map_of_SomeD)
  with Mask_value_shape [OF assms] show ?thesis by blast
qed

theorem mask_format_preserving_witness:
  "kept_or_star (runes ''45 09'') (runes (Mask_value TypeINN ''45 09''))"
proof -
  have "valid_string ''45 09''" by (simp add: byte_def)
  moreover have "TypeINN \<notin> set reshaping_types" by (simp add: reshaping_types_def type_defs)
  ultimately show ?thesis using mask_format_preserving [of "''45 09''" TypeINN] by blast
qed

definition visible_edges :: "PIIType \<Rightarrow> nat \<times> nat" where
  "visible_edges typ =
     (if typ = TypeCardNumber then (4, 4)
      else if typ = TypePhone then (1, 2)
      else if typ \<in> set [TypePassportNumber, TypePassportDivision, TypeDriverLicense, TypeINN] then (2, 2)
      else (0, 0))"

lemma visible_edges_types:
  "visible_edges TypeCardNumber = (4, 4)" "visible_edges TypePhone = (1, 2)"
  "visible_edges TypePassportNumber = (2, 2)" "visible_edges TypePassportDivision = (2, 2)"
  "visible_edges TypeDriverLicense = (2, 2)" "visible_edges TypeINN = (2, 2)"
  "visible_edges TypeCVV = (0, 0)" "visible_edges TypeCardPIN = (0, 0)"
  "visible_edges TypeAddress = (0, 0)" "visible_edges TypePassportIssuer = (0, 0)"
  unfolding visible_edges_def type_defs by simp_all

text \<open>The categories whose mask does not count digits.\<close>

definition word_types :: "PIIType list" where
  "word_types = [TypeFullName, TypeCardHolder, TypeEmail, TypePlaceOfBirth, TypeCitizenship,
     TypeDateOfBirth, TypePassportIssueDate]"

lemma digits_none_map:
  "digits_of (maskAllDigits_runes rs) = []" "digits_of (maskAllAlphaNumeric_runes rs) = []"
  unfolding maskAllDigits_runes_def maskAllAlphaNumeric_runes_def
  by (rule digits_map_star; simp)+

lemma edge_digits_0 [simp]: "edge_digits 0 0 ds = []"
  by (simp add: edge_digits_def)

lemma digits_maskers:
  assumes "valid_string v"
  shows "digits_of (runes (maskPassport v)) = edge_digits 2 2 (digits_of (runes v))"
    and "digits_of (runes (maskCardNumber v)) = edge_digits 4 4 (digits_of (runes v))"
    and "digits_of (runes (maskPhone v)) = edge_digits 1 2 (digits_of (runes v))"
    and "digits_of (runes (maskAllDigits v)) = []"
    and "digits_of (runes (maskAllAlphaNumeric v)) = []"
  using assms
  by (simp_all del: One_nat_def add: maskPassport_def maskCardNumber_def maskPhone_def maskAllDigits_def
      maskAllAlphaNumeric_def digits_none_map mask_passport.mask_runes mask_card.mask_runes
      mask_phone.mask_runes mask_digits.mask_runes mask_alnum.mask_runes)
    (simp_all only: maskPassport_runes_def maskCardNumber_runes_def maskPhone_runes_def digits_keep_edges_all)

text \<open>
  How many digits stay readable: of a card number the first and last four, of a phone the
  first and the last two, of a passport, a taxpayer number, a division code or a driver's
  licence the first and last two, and none of a CVV, a PIN, an address, an issuer or a
  configured category. A value that has no more digits than that stays as it is.
\<close>

theorem mask_visible_digits:
  assumes "valid_string v" and "typ \<notin> set word_types"
  shows "digits_of (runes (Mask_value typ v)) =
    (case visible_edges typ of (lo, hi) \<Rightarrow> edge_digits lo hi (digits_of (runes v)))"
proof (cases "typ \<in> set AllTypes")
  case True
  then have "typ \<in> set [TypeCardNumber, TypePhone, TypePassportNumber, TypePassportDivision,
      TypeDriverLicense, TypeINN, TypeCVV, TypeCardPIN, TypeAddress, TypePassportIssuer]"
    using assms(2) unfolding AllTypes_def word_types_def by auto
  then consider "typ = TypeCardNumber" | "typ = TypePhone" | "typ = TypePassportNumber"
    | "typ = TypePassportDivision" | "typ = TypeDriverLicense" | "typ = TypeINN" | "typ = TypeCVV"
    | "typ = TypeCardPIN" | "typ = TypeAddress" | "typ = TypePassportIssuer"
    by auto
  then show ?thesis
    using digits_maskers [OF assms(1)]
    by cases (simp_all add: Mask_value_types visible_edges_types maskDriverLicense_def maskDigitsKeepEdges_def)
next
  case False
  then have "visible_edges typ = (0, 0)"
    by (auto simp: AllTypes_def visible_edges_def)
  then show ?thesis using digits_maskers(5) [OF assms(1)] Mask_value_other [OF False] by simp
qed

theorem mask_visible_digits_witness:
  "digits_of (runes (Mask_value TypeCVV ''123'')) = []"
proof -
  have "valid_string ''123''" by (simp add: byte_def)
  moreover have "TypeCVV \<notin> set word_types" by (simp add: word_types_def type_defs)
  moreover have "visible_edges TypeCVV = (0, 0)" by (simp add: visible_edges_def type_defs)
  ultimately show ?thesis using mask_visible_digits [of "''123''" TypeCVV] by simp
qed

text \<open>
  A date that has a digit or a letter never leaves the mask unchanged. If it has digits, some of
  them are hidden, and at most the four digits of a year stay.
\<close>

theorem mask_date_hides:
  assumes "valid_string v" and "typ = TypeDateOfBirth \<or> typ = TypePassportIssueDate"
    and "\<exists>r \<in> set (runes v). isDigitRune r \<or> isLetterRune r"
  shows "Mask_value typ v \<noteq> v \<and>
    (digits_of (runes v) \<noteq> [] \<longrightarrow>
      length (digits_of (runes (Mask_value typ v))) \<le> 4 \<and>
      length (digits_of (runes (Mask_value typ v))) < length (digits_of (runes v)))"
proof -
  have m: "Mask_value typ v = maskDate v"
    using assms(2) by (auto simp: Mask_value_types)
  then have rs: "runes (Mask_value typ v) = maskDate_runes (runes v)"
    using assms(1) by (simp add: maskDate_def mask_date.mask_runes)
  show ?thesis
  proof (cases "digits_of (runes v) = []")
    case False
    from maskDate_digits_count [OF this] rs False show ?thesis by auto
  next
    case True
    with assms(3) obtain i where i: "i < length (runes v)" "isLetterRune (runes v ! i)"
      by (auto simp: digits_of_def filter_empty_conv in_set_conv_nth)
    have "maskDate_runes (runes v) = maskWords_runes (runes v)"
      using dateDigitRuns_spec [of "runes v"] True by (auto simp: maskDate_runes_def split: prod.splits)
    then have "runes (Mask_value typ v) ! i = star"
      using rs i by (simp add: maskWords_runes_def)
    with i have "runes (Mask_value typ v) \<noteq> runes v" by auto
    with True show ?thesis by auto
  qed
qed

theorem mask_date_hides_witness: "Mask_value TypeDateOfBirth ''1990'' \<noteq> ''1990''"
proof -
  have v: "valid_string ''1990''" by (simp add: byte_def)
  have "0x31 \<in> set (runes ''1990'')" by (simp add: byte_def)
  moreover have "isDigitRune 0x31" by (simp add: isDigitRune_def ascii_digit_IsDigit)
  ultimately show ?thesis using mask_date_hides [OF v, of TypeDateOfBirth] by blast
qed

text \<open>
  The mask of a name or a card holder shows the initials of the words and nothing else: values with the
  same initials have the same mask.
\<close>

theorem mask_name_only_initials:
  assumes "strings_Fields v \<noteq> []" and "typ = TypeFullName \<or> typ = TypeCardHolder"
    and "map (\<lambda>w. take 1 (runes w)) (strings_Fields v) = map (\<lambda>w. take 1 (runes w)) (strings_Fields v')"
  shows "Mask_value typ v = Mask_value typ v'"
proof -
  have "strings_Fields v' \<noteq> []" using assms(1,3) by auto
  then have "maskFullName v = maskFullName v'"
    using assms(1) full_name_loop_initials [OF assms(3), of True] by (simp add: maskFullName_def)
  then show ?thesis using assms(2) by (auto simp: Mask_value_types)
qed

theorem mask_name_only_initials_witness:
  "Mask_value TypeFullName ''Ann Lee'' = Mask_value TypeFullName ''Abe Lin''"
proof (rule mask_name_only_initials)
  have f: "strings_Fields ''Ann Lee'' = [''Ann'', ''Lee'']" "strings_Fields ''Abe Lin'' = [''Abe'', ''Lin'']"
    by (simp_all add: strings_Fields_def byte_def unicode_IsSpace_def white_space_table_def)
  show "strings_Fields ''Ann Lee'' \<noteq> []" using f by simp
  show "map (\<lambda>w. take 1 (runes w)) (strings_Fields ''Ann Lee'') =
      map (\<lambda>w. take 1 (runes w)) (strings_Fields ''Abe Lin'')"
    unfolding f by (simp add: byte_def)
qed simp

text \<open>
  The tokens of a category differ when their numbers do.
\<close>

theorem mask_token_inject: "MaskToken typ i = MaskToken typ j \<longleftrightarrow> i = j"
  by (simp add: MaskToken_def itoa_decimal decimal_inject)

end
