(* ===== verification/Context.thy ===== *)
theory Context
  imports Registry Regex
begin

text \<open>
  \<^verbatim>\<open>internal/pii/context.go\<close>: detection profiles and their thresholds, logical records of a
  text, and the resolution of ambiguous candidates (names and addresses) by their context.
  Findings reach the resolver after validation, so their offsets are used as natural numbers.
  The two counting maps of \<^verbatim>\<open>ContextStats\<close> are functions that are 0 where the map has no key.
  Also \<^verbatim>\<open>Registry.Detect\<close>, which runs the resolver.
\<close>

section \<open>Profiles\<close>

definition ProfileConservative :: bytes where "ProfileConservative = ''conservative''"
definition ProfileBalanced :: bytes where "ProfileBalanced = ''balanced''"
definition ProfileStrict :: bytes where "ProfileStrict = ''strict''"
definition NameCandidateConfidence :: Confidence where "NameCandidateConfidence = 60 / 100"
definition AddressCandidateConfidence :: Confidence where "AddressCandidateConfidence = 60 / 100"
definition BalancedThreshold :: Confidence where "BalancedThreshold = 80 / 100"
definition StrictThreshold :: Confidence where "StrictThreshold = 55 / 100"
definition ConservativeThreshold :: Confidence where "ConservativeThreshold = 95 / 100"
definition AnchorPromotion :: Confidence where "AnchorPromotion = 22 / 100"
definition MultipleTypesPromotion :: Confidence where "MultipleTypesPromotion = 8 / 100"
definition NegativePenalty :: Confidence where "NegativePenalty = 1"
definition ContextWindowBytes :: nat where "ContextWindowBytes = 512"
definition MaxStructuredRecordBytes :: nat where "MaxStructuredRecordBytes = 2048"
definition MaxStructuredRecordLines :: nat where "MaxStructuredRecordLines = 8"

lemmas score_defs =
  ConfidenceHigh_def ConfidenceMedium_def NameCandidateConfidence_def AddressCandidateConfidence_def
  BalancedThreshold_def StrictThreshold_def ConservativeThreshold_def AnchorPromotion_def
  MultipleTypesPromotion_def NegativePenalty_def

definition ValidProfile :: "bytes \<Rightarrow> bool" where
  "ValidProfile profile \<longleftrightarrow>
     profile = [] \<or> profile = ProfileConservative \<or> profile = ProfileBalanced \<or> profile = ProfileStrict"

definition Threshold :: "bytes \<Rightarrow> PIIType \<Rightarrow> Confidence" where
  "Threshold profile typ =
     (if profile = ProfileStrict then StrictThreshold
      else if profile = ProfileConservative then ConservativeThreshold
      else if typ = TypeFullName \<or> typ = TypeAddress then BalancedThreshold
      else ConfidenceMedium)"

definition FilterConfidence :: "Finding list \<Rightarrow> bytes \<Rightarrow> Finding list" where
  "FilterConfidence all profile = filter (\<lambda>f. f_Confidence f \<ge> Threshold profile (f_Type f)) all"

section \<open>Expressions\<close>

definition ilit :: "string \<Rightarrow> regex" where "ilit s = Lit (ru_runes s) True"
definition alit :: "string \<Rightarrow> regex" where "alit s = Lit (ascii_runes s) True"
definition anySpace :: regex where "anySpace = Cls False True [ClsSpace, ClsZs]"
definition letters :: regex where "letters = Star (Cls False True [ClsL])"
definition colonClass :: regex where
  "colonClass = Cls False True [ClsRange 0x3A 0x3A, ClsRange 0xFF1A 0xFF1A]"

definition personHeader :: regex where
  "personHeader =
     Cat [BeginText, Star anySpace,
       Alt (map ilit [''fio'', ''klient'', ''poluCatelx'', ''pacient'', ''zaYvitelx'', ''vladelec'']),
       Star anySpace, colonClass]"

definition fieldHeader :: regex where
  "fieldHeader =
     Cat [BeginText, Star anySpace,
       Alt [ilit ''imY'', ilit ''familiY'', ilit ''otCestvo'', ilit ''gorod'',
         Cat [ilit ''adres'', Quest (Cat [Plus anySpace, Alt [ilit ''proZivaniY'', ilit ''registracii'']])],
         Cat [ilit ''mesto'', Plus anySpace, ilit ''Zitelxstva''],
         ilit ''telefon'', alit ''email'', ilit ''poCta'', ilit ''pasport'', ilit ''inn'', ilit ''karta'',
         Cat [ilit ''data'', Plus anySpace, ilit ''roZdeniY'']],
       Star anySpace, colonClass]"

definition notLetter :: regex where "notLetter = Cls True True [ClsL]"

definition negativeContext :: regex where
  "negativeContext =
     Cat [Alt [BeginText, notLetter],
       Alt [Cat [ilit ''poAt'', letters], Cat [ilit ''pisatel'', letters], Cat [ilit ''avtor'', letters],
         ilit ''roman'', Cat [ilit ''ofis'', letters], Cat [ilit ''otdeleni'', letters],
         Cat [ilit ''filial'', letters], Cat [ilit ''sklad'', letters], Cat [ilit ''kompani'', letters],
         Cat [ilit ''organizaci'', letters], Cat [ilit ''magazin'', letters], Cat [ilit ''zavod'', letters],
         Cat [ilit ''predstavitelxstv'', letters],
         Cat [ilit ''punkt'', Plus (Cls False True [ClsSpace]), ilit ''vydaCi'']],
       Alt [EndText, notLetter]]"

section \<open>Logical records\<close>

record textRecord =
  tr_start :: nat
  tr_end :: nat

definition lineBreaks :: "rune list" where
  "lineBreaks = [0x0A, 0x0D, 0x2028, 0x2029]"

text \<open>End of the line that starts at \<open>start\<close>, and start of the next one.\<close>

definition line_end :: "bytes \<Rightarrow> nat \<Rightarrow> nat" where
  "line_end text start =
     (case strings_IndexAny (drop start text) lineBreaks of
        Some i \<Rightarrow> start + i
      | None \<Rightarrow> length text)"

definition next_line :: "bytes \<Rightarrow> nat \<Rightarrow> nat" where
  "next_line text stop =
     (let start = (if stop < length text then stop + snd (decode_rune (drop stop text)) else stop) in
      if stop < length text \<and> text ! stop = char_of (0x0D::nat) \<and> start < length text \<and> text ! start = char_of (0x0A::nat)
      then start + 1 else start)"

definition join_line :: "bytes \<Rightarrow> textRecord list \<Rightarrow> bool \<Rightarrow> nat \<Rightarrow> nat \<Rightarrow> nat \<Rightarrow> textRecord list \<times> bool \<times> nat" where
  "join_line text out active lines start stop =
     (let prefix = take ContextWindowBytes (gslice text start stop);
          person = regexp_MatchString personHeader prefix in
      if active \<and> \<not> person \<and> regexp_MatchString fieldHeader prefix \<and> lines < MaxStructuredRecordLines \<and>
         stop - tr_start (last out) \<le> MaxStructuredRecordBytes
      then (butlast out @ [(last out)\<lparr>tr_end := stop\<rparr>], active, lines + 1)
      else (out @ [\<lparr>tr_start = start, tr_end = stop\<rparr>], person, 1))"

lemma IndexAny_bound: "strings_IndexAny s cs = Some i \<Longrightarrow> i < length s"
proof -
  have "(i, r) \<in> set (runes_at p s) \<Longrightarrow> i < p + length s" for i r p
  proof (induction p s rule: runes_at.induct)
    case (1 p s)
    then show ?case
      using decode_rune_size [of s] by (cases "s = []") (fastforce simp: runes_at.simps [of p s])+
  qed
  from this [of i _ 0] show "strings_IndexAny s cs = Some i \<Longrightarrow> i < length s"
    by (auto simp: strings_IndexAny_def range_string_def find_Some_iff) (metis nth_mem prod.collapse fst_conv)
qed

lemma line_end_bounds: "start \<le> length text \<Longrightarrow> start \<le> line_end text start \<and> line_end text start \<le> length text"
  by (auto simp: line_end_def split: option.splits dest: IndexAny_bound)

lemma next_line_bounds:
  "stop \<le> length text \<Longrightarrow> stop \<le> next_line text stop \<and> next_line text stop \<le> length text \<and>
   (stop < length text \<longrightarrow> stop < next_line text stop)"
  using decode_rune_size [of "drop stop text"] by (auto simp: next_line_def Let_def)

lemma next_line_progress: "start < length text \<Longrightarrow> start < next_line text (line_end text start)"
proof -
  assume s: "start < length text"
  note e = line_end_bounds [of start "text"] next_line_bounds [of "line_end text start" "text"]
  show ?thesis
  proof (cases "line_end text start < length text")
    case True
    with e s show ?thesis by linarith
  next
    case False
    with e s have "length text \<le> next_line text (line_end text start)" by linarith
    with s show ?thesis by linarith
  qed
qed

function logicalRecords_loop ::
  "bytes \<Rightarrow> nat \<Rightarrow> textRecord list \<Rightarrow> bool \<Rightarrow> nat \<Rightarrow> textRecord list"
where
  "logicalRecords_loop text start out active lines =
     (if start < length text then
        (let stop = line_end text start in
         case join_line text out active lines start stop of (out, active, lines) \<Rightarrow>
           logicalRecords_loop text (next_line text stop) out active lines)
      else out)"
  by pat_completeness auto
termination
  by (relation "measure (\<lambda>(text, start, out, active, lines). length text - start)")
    (auto intro!: diff_less_mono2 next_line_progress)

declare logicalRecords_loop.simps [simp del]

definition logicalRecords :: "bytes \<Rightarrow> textRecord list" where
  "logicalRecords text = logicalRecords_loop text 0 [] False 0"

section \<open>Windows\<close>

definition anchorType :: "PIIType \<Rightarrow> bool" where
  "anchorType t \<longleftrightarrow>
     t \<in> set [TypeFullName, TypePhone, TypeEmail, TypePassportNumber, TypeCardNumber, TypeINN]"

fun abbreviation_start :: "nat \<Rightarrow> bytes \<Rightarrow> nat \<Rightarrow> nat" where
  "abbreviation_start 0 text start = start"
| "abbreviation_start (Suc n) text start =
     (if start > 0 then
        (case decode_last_rune (take start text) of (r, sz) \<Rightarrow>
           if \<not> unicode_IsLetter r then start else abbreviation_start n text (start - sz))
      else start)"

definition SentenceBoundary :: "bytes \<Rightarrow> nat \<Rightarrow> bool" where
  "SentenceBoundary text i =
     (let c = text ! i in
      if c \<in> set ''!?|{}'' then True
      else if c = CHR ''.'' then
        (if i + 1 < length text \<and> \<not> unicode_IsSpace (fst (decode_rune (drop (i + 1) text))) then False
         else
           (let start = abbreviation_start 5 text i in
            strings_ToLower (gslice text start i) \<notin>
              set (map ru [''g'', ''gor'', ''ul'', ''d'', ''kv'', ''str'', ''per'', ''pr'', ''nab''])))
      else False)"

text \<open>\<^verbatim>\<open>for lo < stop && !RuneStart(text[lo]) { lo++ }\<close> and its mirror image.\<close>

definition rune_start_up :: "bytes \<Rightarrow> nat \<Rightarrow> nat \<Rightarrow> nat" where
  "rune_start_up text lo stop = (case find (\<lambda>i. rune_start (text ! i)) [lo..<stop] of Some i \<Rightarrow> i | None \<Rightarrow> stop)"

definition rune_start_down :: "bytes \<Rightarrow> nat \<Rightarrow> nat \<Rightarrow> nat" where
  "rune_start_down text hi stop =
     (case find (\<lambda>i. \<not> (i < length text \<and> \<not> rune_start (text ! i))) (rev [Suc stop..<Suc hi]) of
        Some i \<Rightarrow> i | None \<Rightarrow> stop)"

definition recordWindow :: "bytes \<Rightarrow> Finding \<Rightarrow> textRecord list \<Rightarrow> nat \<times> nat" where
  "recordWindow text f records =
     (let a = nat (f_Start f); b = nat (f_End f);
          i = sort_Search (length records) (\<lambda>i. tr_end (records ! i) \<ge> b);
          (lo, hi) = (if i < length records \<and> tr_start (records ! i) \<le> a
                      then (tr_start (records ! i), tr_end (records ! i)) else (a, b));
          lo = (if a - lo > ContextWindowBytes then rune_start_up text (a - ContextWindowBytes) a else lo);
          hi = (if hi - b > ContextWindowBytes then rune_start_down text (b + ContextWindowBytes) b else hi) in
      (lo, hi))"

definition contextWindow :: "bytes \<Rightarrow> Finding \<Rightarrow> textRecord list \<Rightarrow> nat \<times> nat" where
  "contextWindow text f records =
     (let (lo, hi) = recordWindow text f records;
          lo = (case find (SentenceBoundary text) (rev [lo..<nat (f_Start f)]) of Some j \<Rightarrow> j + 1 | None \<Rightarrow> lo);
          hi = (case find (SentenceBoundary text) [nat (f_End f)..<hi] of Some j \<Rightarrow> j | None \<Rightarrow> hi) in
      (lo, hi))"

definition fieldBreaks :: "rune list" where
  "fieldBreaks = [0x2C, 0x3B, 0x0A, 0x0D, 0x2028, 0x2029]"

definition localWindow :: "bytes \<Rightarrow> Finding \<Rightarrow> textRecord list \<Rightarrow> nat \<times> nat" where
  "localWindow text f records =
     (let (lo, hi) = contextWindow text f records;
          lo = (case strings_LastIndexAny (gslice text lo (nat (f_Start f))) fieldBreaks of
                  Some j \<Rightarrow> lo + j + snd (decode_rune (drop (lo + j) text)) | None \<Rightarrow> lo);
          hi = (case strings_IndexAny (gslice text (nat (f_End f)) hi) fieldBreaks of
                  Some j \<Rightarrow> nat (f_End f) + j | None \<Rightarrow> hi) in
      (lo, hi))"

section \<open>Resolution\<close>

record ContextStats =
  cs_Promoted :: "PIIType \<Rightarrow> nat"
  cs_Suppressed :: "PIIType \<Rightarrow> nat"

definition no_stats :: ContextStats where
  "no_stats = \<lparr>cs_Promoted = (\<lambda>_. 0), cs_Suppressed = (\<lambda>_. 0)\<rparr>"

definition count_suppressed :: "PIIType \<Rightarrow> ContextStats \<Rightarrow> ContextStats" where
  "count_suppressed t st = st\<lparr>cs_Suppressed := (cs_Suppressed st)(t := cs_Suppressed st t + 1)\<rparr>"

definition count_promoted :: "PIIType \<Rightarrow> ContextStats \<Rightarrow> ContextStats" where
  "count_promoted t st = st\<lparr>cs_Promoted := (cs_Promoted st)(t := cs_Promoted st t + 1)\<rparr>"

definition negativeOutsideValue :: "bytes \<Rightarrow> Finding \<Rightarrow> nat \<Rightarrow> nat \<Rightarrow> bool" where
  "negativeOutsideValue text f lo hi \<longleftrightarrow>
     regexp_MatchString negativeContext (gslice text lo (nat (f_Start f))) \<or>
     regexp_MatchString negativeContext (gslice text (nat (f_End f)) hi)"

fun negativeOutsideNames_loop :: "bytes \<Rightarrow> nat \<Rightarrow> nat \<Rightarrow> Finding list \<Rightarrow> bool" where
  "negativeOutsideNames_loop text cursor hi [] =
     regexp_MatchString negativeContext (gslice text cursor hi)"
| "negativeOutsideNames_loop text cursor hi (f # fs) =
     (if \<not> nat (f_Start f) < hi then regexp_MatchString negativeContext (gslice text cursor hi)
      else if f_Type f \<noteq> TypeFullName \<or> f_Confidence f < NameCandidateConfidence \<or> nat (f_End f) \<le> cursor
      then negativeOutsideNames_loop text cursor hi fs
      else if nat (f_Start f) > cursor \<and>
              regexp_MatchString negativeContext (gslice text cursor (nat (f_Start f)))
      then True
      else negativeOutsideNames_loop text (min hi (nat (f_End f))) hi fs)"

definition negativeOutsideNames :: "bytes \<Rightarrow> nat \<Rightarrow> nat \<Rightarrow> Finding list \<Rightarrow> bool" where
  "negativeOutsideNames text lo hi findings =
     (let i = sort_Search (length findings) (\<lambda>i. nat (f_Start (findings ! i)) \<ge> lo) in
      negativeOutsideNames_loop text lo hi (drop (if i > 0 then i - 1 else i) findings))"

definition ambiguousType :: "PIIType \<Rightarrow> bool" where
  "ambiguousType t \<longleftrightarrow> t = TypeFullName \<or> t = TypeAddress"

definition suppressed :: "bytes \<Rightarrow> textRecord list \<Rightarrow> Finding \<Rightarrow> bool" where
  "suppressed text records f \<longleftrightarrow>
     ambiguousType (f_Type f) \<and>
     (f_Evidence f AND EvidenceTrap \<noteq> 0 \<or>
      (case localWindow text f records of (lo, hi) \<Rightarrow>
         f_Evidence f AND EvidenceLabel = 0 \<and> negativeOutsideValue text f lo hi))"

definition penalized :: "Finding \<Rightarrow> Finding" where
  "penalized f =
     (let c = f_Confidence f - NegativePenalty in f\<lparr>f_Confidence := (if c < 0 then 0 else c)\<rparr>)"

fun suppressContext ::
  "bytes \<Rightarrow> textRecord list \<Rightarrow> Finding list \<Rightarrow> ContextStats \<Rightarrow> Finding list \<times> ContextStats"
where
  "suppressContext text records [] st = ([], st)"
| "suppressContext text records (f # fs) st =
     (if suppressed text records f then
        (case suppressContext text records fs (count_suppressed (f_Type f) st) of
           (out, st) \<Rightarrow> (penalized f # out, st))
      else (case suppressContext text records fs st of (out, st) \<Rightarrow> (f # out, st)))"

definition contextAnchors :: "bytes \<Rightarrow> Finding list \<Rightarrow> textRecord list \<Rightarrow> Finding list" where
  "contextAnchors text out records =
     filter (\<lambda>f. f_Confidence f \<ge> ConfidenceHigh \<and> anchorType (f_Type f) \<and>
        (case localWindow text f records of (lo, hi) \<Rightarrow>
           \<not> (f_Evidence f AND EvidenceLabel = 0 \<and> negativeOutsideNames text lo hi out))) out"

fun nearby_loop :: "Finding \<Rightarrow> nat \<Rightarrow> Finding list \<Rightarrow> PIIType list" where
  "nearby_loop f hi [] = []"
| "nearby_loop f hi (a # as) =
     (if \<not> nat (f_Start a) < hi then []
      else (if nat (f_End a) \<le> hi \<and> f_Type a \<noteq> f_Type f \<and> (f_End a \<le> f_Start f \<or> f_Start a \<ge> f_End f)
            then [f_Type a] else []) @ nearby_loop f hi as)"

definition nearbyAnchorTypes :: "Finding \<Rightarrow> Finding list \<Rightarrow> nat \<Rightarrow> nat \<Rightarrow> PIIType list" where
  "nearbyAnchorTypes f anchors lo hi =
     (let j = sort_Search (length anchors) (\<lambda>j. nat (f_Start (anchors ! j)) \<ge> lo) in
      remdups (nearby_loop f hi (drop j anchors)))"

definition promoted :: "Finding \<Rightarrow> PIIType list \<Rightarrow> Finding" where
  "promoted f seen =
     (let c = f_Confidence f + AnchorPromotion + (if length seen > 1 then MultipleTypesPromotion else 0) in
      f\<lparr>f_Confidence := min c ConfidenceHigh\<rparr>)"

definition promote_one ::
  "bytes \<Rightarrow> textRecord list \<Rightarrow> Finding list \<Rightarrow> Finding \<Rightarrow> ContextStats \<Rightarrow> Finding \<times> ContextStats"
where
  "promote_one text records anchors f st =
     (if f_Confidence f \<le> 0 \<or> f_Confidence f \<ge> ConfidenceHigh \<or> \<not> ambiguousType (f_Type f) then (f, st)
      else
        (case contextWindow text f records of (lo, hi) \<Rightarrow>
           (let seen = nearbyAnchorTypes f anchors lo hi in
            if seen = [] then
              (if f_Evidence f AND EvidenceRequiresAnchor \<noteq> 0
               then (f\<lparr>f_Confidence := 0\<rparr>, count_suppressed (f_Type f) st)
               else (f, st))
            else (promoted f seen, count_promoted (f_Type f) st))))"

fun promoteContext ::
  "bytes \<Rightarrow> textRecord list \<Rightarrow> Finding list \<Rightarrow> Finding list \<Rightarrow> ContextStats \<Rightarrow> Finding list \<times> ContextStats"
where
  "promoteContext text records anchors [] st = ([], st)"
| "promoteContext text records anchors (f # fs) st =
     (case promote_one text records anchors f st of (f, st) \<Rightarrow>
        (case promoteContext text records anchors fs st of (out, st) \<Rightarrow> (f # out, st)))"

definition ResolveContext :: "bytes \<Rightarrow> Finding list \<Rightarrow> Finding list \<times> ContextStats" where
  "ResolveContext text all =
     (if all = [] then ([], no_stats)
      else
        (let out = slice_stable (\<lambda>a b. f_Start a < f_Start b) all;
             records = logicalRecords text;
             (out, st) = suppressContext text records out no_stats;
             anchors = contextAnchors text out records in
         promoteContext text records anchors out st))"

section \<open>The detection helper of the registry\<close>

definition Registry_Detect :: "Registry \<Rightarrow> bytes \<Rightarrow> 'a world_scheme \<Rightarrow> Finding list" where
  "Registry_Detect r input background =
     (let types = concat (r_supported r) in
      case CollectCandidates r input (if types = [] then None else Some types) background of
        (Inl e, _) \<Rightarrow> []
      | (Inr all, _) \<Rightarrow>
          ResolveOverlaps (FilterConfidence (fst (ResolveContext input all)) ProfileBalanced))"

section \<open>What the resolution changes\<close>

definition suppress_one :: "bytes \<Rightarrow> textRecord list \<Rightarrow> Finding \<Rightarrow> Finding" where
  "suppress_one text records f = (if suppressed text records f then penalized f else f)"

lemma suppressContext_map: "fst (suppressContext text records fs st) = map (suppress_one text records) fs"
  by (induction fs arbitrary: st) (auto simp: suppress_one_def split: prod.splits dest: arg_cong [where f = fst])

lemma promote_one_fst: "fst (promote_one text records anchors f st) = fst (promote_one text records anchors f st')"
  by (auto simp: promote_one_def Let_def split: prod.splits)

lemma promoteContext_map:
  "fst (promoteContext text records anchors fs st) =
   map (\<lambda>f. fst (promote_one text records anchors f no_stats)) fs"
proof (induction fs arbitrary: st)
  case (Cons f fs)
  then show ?case using promote_one_fst [of "text" records anchors f st no_stats]
    by (auto split: prod.splits dest: arg_cong [where f = fst])
qed simp

definition by_start :: "Finding list \<Rightarrow> Finding list" where
  "by_start all = slice_stable (\<lambda>a b. f_Start a < f_Start b) all"

definition frozen_anchors :: "bytes \<Rightarrow> Finding list \<Rightarrow> Finding list" where
  "frozen_anchors text all =
     contextAnchors text (map (suppress_one text (logicalRecords text)) (by_start all)) (logicalRecords text)"

definition resolve_one :: "bytes \<Rightarrow> Finding list \<Rightarrow> Finding \<Rightarrow> Finding" where
  "resolve_one text all f =
     fst (promote_one text (logicalRecords text) (frozen_anchors text all)
       (suppress_one text (logicalRecords text) f) no_stats)"

text \<open>The three passes, as one function applied to every candidate.\<close>

lemma ResolveContext_map: "fst (ResolveContext text all) = map (resolve_one text all) (by_start all)"
proof (cases "all = []")
  case False
  then show ?thesis
    by (auto simp: ResolveContext_def by_start_def frozen_anchors_def resolve_one_def Let_def
        promoteContext_map suppressContext_map comp_def split: prod.splits
        dest!: arg_cong [where f = fst])
qed (simp add: ResolveContext_def by_start_def)

lemma suppress_one_same: "suppress_one text records f = f\<lparr>f_Confidence := f_Confidence (suppress_one text records f)\<rparr>"
  by (simp add: suppress_one_def penalized_def Let_def)

lemma promote_one_same:
  "fst (promote_one text records anchors f st) = f\<lparr>f_Confidence := f_Confidence (fst (promote_one text records anchors f st))\<rparr>"
  by (auto simp: promote_one_def promoted_def Let_def split: prod.splits)

lemma suppress_one_confidence:
  "f_Confidence (suppress_one text records f) \<le> f_Confidence f \<or> f_Confidence f < 0"
  "0 \<le> f_Confidence f \<Longrightarrow> 0 \<le> f_Confidence (suppress_one text records f)"
  "f_Confidence f \<le> 1 \<Longrightarrow> suppressed text records f \<Longrightarrow> f_Confidence (suppress_one text records f) = 0"
  "\<not> ambiguousType (f_Type f) \<Longrightarrow> suppress_one text records f = f"
  by (auto simp: suppress_one_def suppressed_def penalized_def NegativePenalty_def Let_def)

lemma promote_one_confidence:
  assumes "g = fst (promote_one text records anchors f st)"
  shows "0 \<le> f_Confidence f \<Longrightarrow> 0 \<le> f_Confidence g"
    and "f_Confidence g \<le> max (f_Confidence f) ConfidenceHigh"
    and "\<not> ambiguousType (f_Type f) \<Longrightarrow> g = f"
    and "f_Confidence f < f_Confidence g \<Longrightarrow>
      (case contextWindow text f records of (lo, hi) \<Rightarrow> nearbyAnchorTypes f anchors lo hi \<noteq> [])"
  unfolding assms
  by (auto simp: promote_one_def promoted_def Let_def score_defs min_def split: prod.splits if_splits)

text \<open>What the three passes change about one candidate.\<close>

lemma resolve_one_conservative:
  assumes "0 \<le> f_Confidence f"
  shows "resolve_one text all f = f\<lparr>f_Confidence := f_Confidence (resolve_one text all f)\<rparr>"
    and "0 \<le> f_Confidence (resolve_one text all f)"
    and "f_Confidence (resolve_one text all f) \<le> max (f_Confidence f) ConfidenceHigh"
    and "\<not> ambiguousType (f_Type f) \<Longrightarrow> resolve_one text all f = f"
proof -
  let ?R = "logicalRecords text"
  let ?s = "suppress_one text ?R f" and ?g = "resolve_one text all f"
  have g: "?g = fst (promote_one text ?R (frozen_anchors text all) ?s no_stats)"
    by (simp add: resolve_one_def)
  have c: "0 \<le> f_Confidence ?s" "f_Confidence ?s \<le> f_Confidence f"
    using suppress_one_confidence(1,2) assms by (blast, meson not_le)
  have t: "f_Type ?s = f_Type f" by (subst suppress_one_same) simp
  show "?g = f\<lparr>f_Confidence := f_Confidence ?g\<rparr>"
    using promote_one_same [of "text" ?R "frozen_anchors text all" ?s no_stats] suppress_one_same [of "text" ?R f]
    unfolding g by (metis (no_types, lifting) Finding.surjective Finding.update_convs(4))
  show "?g = f" if "\<not> ambiguousType (f_Type f)"
    using that promote_one_confidence(3) [OF g] suppress_one_confidence(4) [OF that] by metis
  show "0 \<le> f_Confidence ?g" "f_Confidence ?g \<le> max (f_Confidence f) ConfidenceHigh"
    using promote_one_confidence(1,2) [OF g] c by auto
qed

lemma nearby_loop_sound:
  "t \<in> set (nearby_loop f hi as) \<Longrightarrow>
   \<exists>a \<in> set as. f_Type a = t \<and> f_Type a \<noteq> f_Type f \<and> nat (f_End a) \<le> hi \<and>
     (f_End a \<le> f_Start f \<or> f_Start a \<ge> f_End f)"
  by (induction as) (auto split: if_splits)

text \<open>In a sorted list the search for the lower end of the window leaves out just what starts before it.\<close>

lemma drop_search_lower:
  assumes "sorted (map f_Start anchors)"
    and "a \<in> set (drop (sort_Search (length anchors) (\<lambda>j. lo \<le> nat (f_Start (anchors ! j)))) anchors)"
  shows "lo \<le> nat (f_Start a)"
proof -
  let ?j = "sort_Search (length anchors) (\<lambda>j. lo \<le> nat (f_Start (anchors ! j)))"
  obtain k where "k < length (drop ?j anchors)" "a = drop ?j anchors ! k"
    using assms(2) unfolding in_set_conv_nth by metis
  then have k: "?j + k < length anchors" "a = anchors ! (?j + k)" by simp_all
  then have "?j < length anchors" by linarith
  then have "lo \<le> nat (f_Start (anchors ! ?j))"
    using search_between_stop [of 0 "length anchors" "\<lambda>j. lo \<le> nat (f_Start (anchors ! j))"]
    by (simp add: sort_Search_def)
  moreover have "f_Start (anchors ! ?j) \<le> f_Start a"
    using sorted_nth_mono [OF assms(1), of ?j "?j + k"] k by simp
  ultimately show ?thesis by (meson nat_mono order_trans)
qed

lemma nearbyAnchorTypes_sound:
  assumes "nearbyAnchorTypes f anchors lo hi \<noteq> []" and "sorted (map f_Start anchors)"
  shows "\<exists>a \<in> set anchors. f_Type a \<noteq> f_Type f \<and> lo \<le> nat (f_Start a) \<and> nat (f_End a) \<le> hi \<and>
     (f_End a \<le> f_Start f \<or> f_Start a \<ge> f_End f)"
proof -
  obtain t where "t \<in> set (nearbyAnchorTypes f anchors lo hi)" using assms(1) by (metis hd_in_set)
  then show ?thesis
    unfolding nearbyAnchorTypes_def Let_def
    by (auto dest!: nearby_loop_sound dest: drop_search_lower [OF assms(2)] in_set_dropD)
qed

lemma sorted_frozen_anchors: "sorted (map f_Start (frozen_anchors text all))"
proof -
  have "f_Start (suppress_one t r f) = f_Start f" for t r f by (subst suppress_one_same) simp
  then have "map f_Start (map (suppress_one text (logicalRecords text)) (by_start all)) = map f_Start (by_start all)"
    by simp
  moreover have "sorted (map f_Start (by_start all))"
    unfolding by_start_def by (rule sorted_key_slice_stable) auto
  ultimately show ?thesis
    unfolding frozen_anchors_def contextAnchors_def by (simp only: sorted_filter)
qed

lemma frozen_anchors_original:
  assumes "a \<in> set (frozen_anchors text all)" and "\<forall>f \<in> set all. f_Confidence f \<le> 1"
  shows "a \<in> set all \<and> f_Confidence a \<ge> ConfidenceHigh \<and> anchorType (f_Type a)"
proof -
  from assms(1) obtain f where f: "f \<in> set all" "a = suppress_one text (logicalRecords text) f"
      "f_Confidence a \<ge> ConfidenceHigh" "anchorType (f_Type a)"
    by (auto simp: frozen_anchors_def contextAnchors_def by_start_def)
  moreover have "a = f"
  proof (cases "suppressed text (logicalRecords text) f")
    case True
    with suppress_one_confidence(3) assms(2) f show ?thesis by (fastforce simp: score_defs)
  qed (use f in \<open>simp add: suppress_one_def\<close>)
  ultimately show ?thesis by simp
qed

section \<open>Windows stay inside the text\<close>

definition records_ok :: "bytes \<Rightarrow> textRecord list \<Rightarrow> bool" where
  "records_ok text records \<longleftrightarrow>
     (\<forall>r \<in> set records. tr_start r \<le> tr_end r \<and> rune_boundary text (tr_start r) \<and> rune_boundary text (tr_end r))"

lemma range_string_split:
  assumes "valid_string s" and "(i, r) \<in> set (runes_at p s)"
  shows "\<exists>u v. s = u @ encode_rune r @ v \<and> i = p + length u \<and> valid_string u \<and> valid_string v \<and> valid_rune r"
  using assms
proof (induction arbitrary: p rule: valid_string_induct)
  case (Rune q s)
  show ?case
  proof (cases "(i, r) = (p, q)")
    case True
    with Rune have "encode_rune q @ s = [] @ encode_rune r @ s \<and> i = p + length [] \<and> valid_string s" by simp
    with Rune True show ?thesis by (metis Pair_inject valid_string_Nil)
  next
    case False
    with Rune have "(i, r) \<in> set (runes_at (p + length (encode_rune q)) s)" by auto
    from Rune(3) [OF this] obtain u v where "s = u @ encode_rune r @ v" "i = p + length (encode_rune q) + length u"
        "valid_string u" "valid_string v" "valid_rune r" by blast
    then have "encode_rune q @ s = (encode_rune q @ u) @ encode_rune r @ v \<and> i = p + length (encode_rune q @ u) \<and>
        valid_string (encode_rune q @ u) \<and> valid_string v \<and> valid_rune r" using Rune(1) by simp
    then show ?thesis by blast
  qed
qed simp

lemma find_mem: "find P xs = Some x \<Longrightarrow> x \<in> set xs \<and> P x"
  by (auto simp: find_Some_iff)

lemma IndexAny_split:
  assumes "valid_string s" and "strings_IndexAny s cs = Some i \<or> strings_LastIndexAny s cs = Some i"
  obtains u r v where "s = u @ encode_rune r @ v" "i = length u" "valid_string u" "valid_string v"
    "valid_rune r" "r \<in> set cs"
proof -
  from assms(2) obtain r where "(i, r) \<in> set (runes_at 0 s)" "r \<in> set cs"
    by (auto simp: strings_IndexAny_def strings_LastIndexAny_def range_string_def dest!: find_mem)
  with range_string_split [OF assms(1), of i r 0] that show thesis by auto
qed

lemma boundary_drop: "valid_string s \<Longrightarrow> rune_boundary s i \<Longrightarrow> valid_string (drop i s)"
  using rune_boundary_split by blast

lemma boundary_shift:
  "rune_boundary (drop i s) j \<Longrightarrow> i \<le> length s \<Longrightarrow> rune_boundary s (i + j)"
  by (auto simp: rune_boundary_def)

lemma line_end_boundary:
  assumes "valid_string text" and "rune_boundary text start"
  shows "rune_boundary text (line_end text start)"
proof (cases "strings_IndexAny (drop start text) lineBreaks")
  case None
  then show ?thesis by (simp add: line_end_def rune_boundary_def)
next
  case (Some i)
  from IndexAny_split [OF boundary_drop [OF assms]] Some
  obtain u r v where u: "drop start text = u @ encode_rune r @ v" "i = length u" "valid_string v" "valid_rune r"
    by metis
  have "valid_string (encode_rune r @ v)" using u by simp
  from rune_boundary_append [OF this, of u] u have "rune_boundary (drop start text) i" by simp
  with boundary_shift rune_boundary_le [OF assms(2)] Some show ?thesis by (simp add: line_end_def)
qed

lemma next_line_boundary:
  assumes "valid_string text" and "rune_boundary text stop"
  shows "rune_boundary text (next_line text stop)"
proof (cases "stop < length text")
  case True
  define n where "n = stop + snd (decode_rune (drop stop text))"
  have n: "rune_boundary text n" using decode_boundary [OF assms True] by (simp add: n_def)
  have eq: "next_line text stop = (if text ! stop = char_of (0x0D::nat) \<and> n < length text \<and> text ! n = char_of (0x0A::nat)
      then n + 1 else n)"
    using True by (simp add: next_line_def n_def Let_def)
  show ?thesis
  proof (cases "n < length text \<and> text ! n = char_of (0x0A::nat)")
    case nl: True
    then have "drop n text = encode_rune 0x0A @ drop (Suc n) text"
      by (simp add: Cons_nth_drop_Suc [symmetric] encode_rune_ascii)
    then have "snd (decode_rune (drop n text)) = 1"
      using decode_encode [of "0x0A" "drop (Suc n) text"] by (simp add: valid_rune_def) (simp add: encode_rune_ascii)
    with decode_boundary [OF assms(1) n] nl n eq show ?thesis by simp
  next
    case False
    with n eq show ?thesis by simp
  qed
next
  case False
  with assms(2) show ?thesis by (simp add: next_line_def Let_def)
qed

lemma records_ok_append: "records_ok text (xs @ ys) \<longleftrightarrow> records_ok text xs \<and> records_ok text ys"
  by (auto simp: records_ok_def)

definition record_bounded :: "bytes \<Rightarrow> textRecord \<Rightarrow> bool" where
  "record_bounded text r \<longleftrightarrow>
     tr_end r = line_end text (tr_start r) \<or> tr_end r - tr_start r \<le> MaxStructuredRecordBytes"

definition records_inv :: "bytes \<Rightarrow> nat \<Rightarrow> textRecord list \<Rightarrow> bool \<Rightarrow> bool" where
  "records_inv text start out active \<longleftrightarrow>
     rune_boundary text start \<and> records_ok text out \<and> sorted_wrt (\<lambda>a b. tr_end a < tr_start b) out \<and>
     list_all (record_bounded text) out \<and> (active \<longrightarrow> out \<noteq> []) \<and>
     (start < length text \<longrightarrow> (\<forall>r \<in> set out. tr_end r < start))"

lemma join_line_inv:
  assumes "valid_string text" and "records_inv text start out active" and "start < length text"
    and "stop = line_end text start"
    and "join_line text out active lines start stop = (out', active', lines')"
  shows "records_inv text (next_line text stop) out' active'"
proof -
  have st: "rune_boundary text start" "rune_boundary text stop" "rune_boundary text (next_line text stop)"
    using assms line_end_boundary next_line_boundary by (auto simp: records_inv_def)
  have le: "start \<le> stop" "stop \<le> length text" "stop < length text \<Longrightarrow> stop < next_line text stop"
      "stop \<le> next_line text stop"
    using assms(3,4) line_end_bounds [of start "text"] next_line_bounds [of stop "text"] by auto
  have before: "\<forall>r \<in> set out. tr_end r < start" using assms(2,3) by (simp add: records_inv_def)
  consider (join) "active" "out' = butlast out @ [(last out)\<lparr>tr_end := stop\<rparr>]" "active' = active"
      "stop - tr_start (last out) \<le> MaxStructuredRecordBytes"
    | (new) "out' = out @ [\<lparr>tr_start = start, tr_end = stop\<rparr>]"
    using assms(5) by (auto simp: join_line_def Let_def split: if_splits)
  then show ?thesis
  proof cases
    case join
    then obtain init l where out: "out = init @ [l]"
      using assms(2) by (metis append_butlast_last_id records_inv_def)
    have "tr_start l \<le> tr_end l" using assms(2) out by (simp add: records_inv_def records_ok_def)
    moreover have "tr_end l < start" using before out by simp
    ultimately have "tr_start l \<le> stop" using le(1) by linarith
    then show ?thesis
      using join st le before assms(2) unfolding out
      by (auto simp: records_inv_def records_ok_def sorted_wrt_append record_bounded_def list_all_iff)
  next
    case new
    then show ?thesis
      using assms(2,4) st le before
      by (auto simp: records_inv_def records_ok_def sorted_wrt_append record_bounded_def list_all_iff)
  qed
qed

lemma logicalRecords_loop_inv:
  assumes "valid_string text" and "records_inv text start out active"
  shows "records_ok text (logicalRecords_loop text start out active lines) \<and>
    sorted_wrt (\<lambda>a b. tr_end a < tr_start b) (logicalRecords_loop text start out active lines) \<and>
    list_all (record_bounded text) (logicalRecords_loop text start out active lines)"
  using assms
proof (induction "text" start out active lines rule: logicalRecords_loop.induct)
  case (1 t start out active lines)
  show ?case
  proof (cases "start < length t")
    case True
    obtain out' active' lines' where j: "join_line t out active lines start (line_end t start) = (out', active', lines')"
      by (cases "join_line t out active lines start (line_end t start)")
    from 1(1) [OF True refl j [symmetric] refl 1(2) join_line_inv [OF 1(2,3) True refl j]] True j
    show ?thesis by (simp add: logicalRecords_loop.simps [of t start])
  next
    case False
    with 1(3) show ?thesis by (simp add: logicalRecords_loop.simps [of t start] records_inv_def)
  qed
qed

lemma logicalRecords_ok:
  assumes "valid_string text"
  shows "records_ok text (logicalRecords text)"
    and "sorted_wrt (\<lambda>a b. tr_end a < tr_start b) (logicalRecords text)"
    and "list_all (record_bounded text) (logicalRecords text)"
  using logicalRecords_loop_inv [of "text" 0 "[]" False 0] assms
  by (auto simp: logicalRecords_def records_inv_def records_ok_def)

text \<open>A window around a finding: it contains the finding, is cut at rune boundaries and is limited.\<close>

definition window_ok :: "bytes \<Rightarrow> Finding \<Rightarrow> nat \<times> nat \<Rightarrow> bool" where
  "window_ok text f w =
     (case w of (lo, hi) \<Rightarrow>
        lo \<le> nat (f_Start f) \<and> nat (f_End f) \<le> hi \<and> rune_boundary text lo \<and> rune_boundary text hi \<and>
        nat (f_Start f) - lo \<le> ContextWindowBytes \<and> hi - nat (f_End f) \<le> ContextWindowBytes)"

lemma ascii_boundary:
  assumes "valid_string text" and "j < length text" and "byte (text ! j) < 0x80"
  shows "rune_boundary text j" and "rune_boundary text (Suc j)"
proof -
  show j: "rune_boundary text j" using assms(2,3) by (simp add: rune_boundary_def rune_start_def)
  have "drop j text = encode_rune (byte (text ! j)) @ drop (Suc j) text"
    using assms ascii_encoding [OF assms(3)] by (simp add: Cons_nth_drop_Suc)
  moreover have "valid_rune (byte (text ! j))" "length (encode_rune (byte (text ! j))) = 1"
    using ascii_encoding [OF assms(3)] by simp_all
  ultimately have "snd (decode_rune (drop j text)) = 1" by simp
  with decode_boundary [OF assms(1) j assms(2)] show "rune_boundary text (Suc j)" by simp
qed

lemma rune_start_up_ok:
  assumes "rune_boundary text stop" and "lo \<le> stop"
  shows "lo \<le> rune_start_up text lo stop \<and> rune_start_up text lo stop \<le> stop \<and>
    rune_boundary text (rune_start_up text lo stop)"
  using assms rune_boundary_le [OF assms(1)]
  by (auto simp: rune_start_up_def rune_boundary_def split: option.splits dest!: find_mem)

lemma rune_start_down_ok:
  assumes "rune_boundary text stop" and "stop \<le> hi" and "hi \<le> length text"
  shows "stop \<le> rune_start_down text hi stop \<and> rune_start_down text hi stop \<le> hi \<and>
    rune_boundary text (rune_start_down text hi stop)"
  using assms
  by (auto simp: rune_start_down_def rune_boundary_def split: option.splits dest!: find_mem)

lemma recordWindow_ok:
  assumes "finding_ok text f" and "records_ok text records"
  shows "window_ok text f (recordWindow text f records)"
proof -
  let ?a = "nat (f_Start f)" and ?b = "nat (f_End f)"
  let ?i = "sort_Search (length records) (\<lambda>i. tr_end (records ! i) \<ge> ?b)"
  define lo where "lo = (if ?i < length records \<and> tr_start (records ! ?i) \<le> ?a then tr_start (records ! ?i) else ?a)"
  define hi where "hi = (if ?i < length records \<and> tr_start (records ! ?i) \<le> ?a then tr_end (records ! ?i) else ?b)"
  have f: "rune_boundary text ?a" "rune_boundary text ?b" "?a < ?b"
    using assms(1) by (auto simp: finding_ok_def)
  have ends: "tr_end (records ! ?i) \<ge> ?b" if "?i < length records"
    using that search_between_stop [of 0 "length records" "\<lambda>i. tr_end (records ! i) \<ge> ?b"]
    by (simp add: sort_Search_def)
  have lohi: "lo \<le> ?a" "?b \<le> hi" "rune_boundary text lo" "rune_boundary text hi"
    using f ends assms(2) by (auto simp: lo_def hi_def records_ok_def)
  have "recordWindow text f records =
      (if ?a - lo > ContextWindowBytes then rune_start_up text (?a - ContextWindowBytes) ?a else lo,
       if hi - ?b > ContextWindowBytes then rune_start_down text (?b + ContextWindowBytes) ?b else hi)"
    unfolding recordWindow_def lo_def hi_def Let_def
    by (cases "?i < length records \<and> tr_start (records ! ?i) \<le> ?a") (simp_all only: if_True if_False case_prod_conv simp_thms)
  moreover have "x \<le> ?a \<and> rune_boundary text x \<and> ?a - x \<le> ContextWindowBytes"
    if x: "x = (if ?a - lo > ContextWindowBytes then rune_start_up text (?a - ContextWindowBytes) ?a else lo)" for x
  proof (cases "?a - lo > ContextWindowBytes")
    case True
    from x True rune_start_up_ok [OF f(1), of "?a - ContextWindowBytes"] show ?thesis by simp linarith
  next
    case False
    with x lohi show ?thesis by simp
  qed
  moreover have "?b \<le> y \<and> rune_boundary text y \<and> y - ?b \<le> ContextWindowBytes"
    if y: "y = (if hi - ?b > ContextWindowBytes then rune_start_down text (?b + ContextWindowBytes) ?b else hi)" for y
  proof (cases "hi - ?b > ContextWindowBytes")
    case True
    have "?b + ContextWindowBytes \<le> length text" using True rune_boundary_le [OF lohi(4)] by simp
    with y True rune_start_down_ok [OF f(2), of "?b + ContextWindowBytes"] show ?thesis by simp linarith
  next
    case False
    with y lohi show ?thesis by simp
  qed
  ultimately show ?thesis by (simp only: window_ok_def case_prod_conv simp_thms)
qed

lemma SentenceBoundary_ascii: "SentenceBoundary text j \<Longrightarrow> byte (text ! j) < 0x80"
  by (auto simp: SentenceBoundary_def Let_def byte_def split: if_splits)

lemma contextWindow_ok:
  assumes "valid_string text" and "finding_ok text f" and "records_ok text records"
  shows "window_ok text f (contextWindow text f records)"
proof -
  obtain lo hi where w: "recordWindow text f records = (lo, hi)" by force
  have ok: "window_ok text f (lo, hi)" using recordWindow_ok [OF assms(2,3)] w by simp
  then have hl: "hi \<le> length text" "lo \<le> nat (f_Start f)" "nat (f_End f) \<le> hi"
    by (auto simp: window_ok_def rune_boundary_def)
  have fl: "nat (f_Start f) \<le> length text" using assms(2) by (auto simp: finding_ok_def)
  have lo': "lo \<le> j \<and> j < nat (f_Start f) \<and> rune_boundary text (Suc j)"
    if "find (SentenceBoundary text) (rev [lo..<nat (f_Start f)]) = Some j" for j
    using find_mem [OF that] ascii_boundary(2) [OF assms(1), of j] SentenceBoundary_ascii fl by auto
  have hi': "nat (f_End f) \<le> j \<and> j < hi \<and> rune_boundary text j"
    if "find (SentenceBoundary text) [nat (f_End f)..<hi] = Some j" for j
    using find_mem [OF that] ascii_boundary(1) [OF assms(1), of j] SentenceBoundary_ascii hl by auto
  show ?thesis
    using ok w by (auto simp: contextWindow_def window_ok_def Let_def split: option.splits dest!: lo' hi')
qed

lemma localWindow_ok:
  assumes "valid_string text" and "finding_ok text f" and "records_ok text records"
  shows "window_ok text f (localWindow text f records)"
proof -
  obtain lo hi where w: "contextWindow text f records = (lo, hi)" by force
  let ?a = "nat (f_Start f)" and ?b = "nat (f_End f)"
  have ok: "window_ok text f (lo, hi)" using contextWindow_ok [OF assms] w by simp
  have f: "rune_boundary text ?a" "rune_boundary text ?b" using assms(2) by (auto simp: finding_ok_def)
  have lo': "lo + j + snd (decode_rune (drop (lo + j) text)) \<le> ?a \<and>
      rune_boundary text (lo + j + snd (decode_rune (drop (lo + j) text)))"
    if j: "strings_LastIndexAny (gslice text lo ?a) fieldBreaks = Some j" for j
  proof -
    have v: "valid_string (gslice text lo ?a)"
      using assms(1) ok f by (intro valid_slice) (auto simp: window_ok_def)
    obtain u r t where u: "gslice text lo ?a = u @ encode_rune r @ t" "j = length u" "valid_rune r" "valid_string t"
      using IndexAny_split [OF v] j by metis
    have d: "drop lo text = (u @ encode_rune r @ t) @ drop ?a text"
      using slice_append_drop [of lo ?a "text"] ok u(1) by (simp add: window_ok_def)
    then have dj: "drop (lo + j) text = encode_rune r @ t @ drop ?a text"
      using u(2) by (metis append.assoc append_eq_conv_conj drop_drop add.commute)
    have "length (gslice text lo ?a) = ?a - lo" using rune_boundary_le [OF f(1)] by simp
    moreover have "lo \<le> ?a" using ok by (simp add: window_ok_def)
    ultimately have len: "lo + j + length (encode_rune r) \<le> ?a" using u(1,2) by simp
    have "rune_boundary (drop lo text) j"
      using rune_boundary_append [of "encode_rune r @ t @ drop ?a text" u] d u boundary_drop [OF assms(1) f(1)]
      by (simp add: valid_string_append)
    then have b: "rune_boundary text (lo + j)"
      using boundary_shift ok rune_boundary_le by (auto simp: window_ok_def)
    have "lo + j < length text" using len rune_boundary_le [OF f(1)] length_encode_rune_bounds(1) [of r] by linarith
    with decode_boundary [OF assms(1) b] dj len u(3) show ?thesis by simp
  qed
  have hi': "?b + j \<le> hi \<and> rune_boundary text (?b + j)"
    if j: "strings_IndexAny (gslice text ?b hi) fieldBreaks = Some j" for j
  proof -
    have v: "valid_string (gslice text ?b hi)"
      using assms(1) ok f by (intro valid_slice) (auto simp: window_ok_def)
    have hl: "rune_boundary text hi" "?b \<le> hi" using ok by (simp_all add: window_ok_def)
    obtain u r t where u: "gslice text ?b hi = u @ encode_rune r @ t" "j = length u" "valid_rune r" "valid_string t"
      using IndexAny_split [OF v] j by metis
    have "drop ?b text = u @ encode_rune r @ t @ drop hi text"
      using slice_append_drop [of ?b hi "text"] hl u(1) by simp
    then have "rune_boundary (drop ?b text) j"
      using rune_boundary_append [of "encode_rune r @ t @ drop hi text" u] u boundary_drop [OF assms(1) hl(1)]
      by (simp add: valid_string_append)
    with boundary_shift rune_boundary_le [OF f(2)] IndexAny_bound [OF j] rune_boundary_le [OF hl(1)]
    show ?thesis by simp
  qed
  show ?thesis
    using ok w by (auto simp: localWindow_def window_ok_def Let_def split: option.splits dest!: lo' hi')
qed

section \<open>A sample\<close>

text \<open>A name candidate next to a phone in a text of one line, both with a label.\<close>

definition sample_name :: Finding where
  "sample_name = \<lparr>f_Type = TypeFullName, f_Start = 0, f_End = 1, f_Confidence = NameCandidateConfidence,
     f_Detector = ''full_name'', f_Value = ''A'', f_Evidence = EvidenceLabel\<rparr>"

definition sample_phone :: Finding where
  "sample_phone = \<lparr>f_Type = TypePhone, f_Start = 2, f_End = 3, f_Confidence = ConfidenceHigh,
     f_Detector = ''phone'', f_Value = ''7'', f_Evidence = EvidenceLabel\<rparr>"

lemmas sample_defs = sample_name_def sample_phone_def

lemma sample_valid: "valid_string ''A,7''"
  by (simp add: byte_def)

lemma sample_ok: "finding_ok ''A,7'' sample_name" "finding_ok ''A,7'' sample_phone"
  by (simp_all add: finding_ok_def sample_defs rune_boundary_def rune_start_def byte_def score_defs)

lemma sample_confidence: "\<forall>f \<in> set [sample_name, sample_phone]. 0 \<le> f_Confidence f \<and> f_Confidence f \<le> 1"
  by (simp add: sample_defs score_defs)

lemma sample_records: "logicalRecords ''A,7'' = [\<lparr>tr_start = 0, tr_end = 3\<rparr>]"
proof -
  have e: "line_end ''A,7'' 0 = 3"
    by (simp add: line_end_def strings_IndexAny_def range_string_def lineBreaks_def byte_def)
  have n: "next_line ''A,7'' 3 = 3" by (simp add: next_line_def)
  have j: "join_line ''A,7'' [] False 0 0 3 =
      ([\<lparr>tr_start = 0, tr_end = 3\<rparr>], regexp_MatchString personHeader ''A,7'', 1)"
    by (simp add: join_line_def Let_def gslice_def ContextWindowBytes_def)
  have stop: "logicalRecords_loop ''A,7'' 3 out act l = out" for out act l
    by (simp add: logicalRecords_loop.simps [of "''A,7''" 3])
  show ?thesis
    unfolding logicalRecords_def by (subst logicalRecords_loop.simps) (simp add: e n j stop)
qed

lemma sample_not_sentence: "j < 3 \<Longrightarrow> \<not> SentenceBoundary ''A,7'' j"
  by (auto simp: SentenceBoundary_def Let_def less_Suc_eq numeral_3_eq_3)

lemma sample_window: "contextWindow ''A,7'' sample_name [\<lparr>tr_start = 0, tr_end = 3\<rparr>] = (0, 3)"
proof -
  have f: "find (SentenceBoundary ''A,7'') xs = None" if "set xs \<subseteq> {..<3}" for xs
    using that sample_not_sentence by (auto simp: find_None_iff)
  have "search_between 0 (Suc 0) (\<lambda>i. 1 \<le> tr_end ([\<lparr>tr_start = 0, tr_end = 3\<rparr>] ! i)) = 0"
    by (subst search_between.simps) simp
  then have r: "recordWindow ''A,7'' sample_name [\<lparr>tr_start = 0, tr_end = 3\<rparr>] = (0, 3)"
    by (simp add: recordWindow_def sample_name_def sort_Search_def ContextWindowBytes_def)
  have "find (SentenceBoundary ''A,7'') [Suc 0..<3] = None" by (rule f) auto
  then show ?thesis unfolding contextWindow_def r by (simp add: sample_name_def)
qed

lemma sample_promoted:
  "f_Confidence (resolve_one ''A,7'' [sample_name, sample_phone] sample_name) > f_Confidence sample_name"
proof -
  have sup: "suppress_one t r sample_name = sample_name" "suppress_one t r sample_phone = sample_phone" for t r
    by (simp_all add: suppress_one_def suppressed_def sample_defs EvidenceLabel_def EvidenceTrap_def case_prod_unfold
        ambiguousType_def type_defs)
  have anc: "frozen_anchors ''A,7'' [sample_name, sample_phone] = [sample_phone]"
    by (simp add: frozen_anchors_def by_start_def sup contextAnchors_def)
      (simp add: sample_defs score_defs anchorType_def EvidenceLabel_def type_defs case_prod_unfold)
  have "nearbyAnchorTypes sample_name [sample_phone] 0 3 = [TypePhone]"
    by (simp add: nearbyAnchorTypes_def sort_Search_def search_between.simps [of 0 "Suc 0"])
      (simp add: sample_defs type_defs)
  then show ?thesis
    by (simp add: resolve_one_def sup anc sample_records promote_one_def sample_window promoted_def)
      (simp add: sample_defs score_defs ambiguousType_def min_def)
qed

section \<open>Properties\<close>

text \<open>
  The resolution of the context keeps every candidate, in the order of the text, and changes nothing but the
  confidence of names and addresses, which stays between 0 and the larger of its old value and the
  high confidence. So well-formed findings stay well-formed.
\<close>

theorem resolve_context_conservative:
  assumes "\<forall>f \<in> set all. 0 \<le> f_Confidence f \<and> f_Confidence f \<le> 1"
  shows "list_all2 (\<lambda>f g. g = f\<lparr>f_Confidence := f_Confidence g\<rparr> \<and> 0 \<le> f_Confidence g \<and>
      f_Confidence g \<le> max (f_Confidence f) ConfidenceHigh \<and> (\<not> ambiguousType (f_Type f) \<longrightarrow> g = f))
    (by_start all) (fst (ResolveContext text all))"
proof -
  have "f \<in> set (by_start all) \<Longrightarrow> 0 \<le> f_Confidence f" for f using assms by (simp add: by_start_def)
  then show ?thesis
    using resolve_one_conservative by (auto simp: ResolveContext_map list_all2_conv_all_nth)
qed

theorem resolve_context_conservative_witness:
  "length (fst (ResolveContext ''A,7'' [sample_name, sample_phone])) = 2"
  using resolve_context_conservative [OF sample_confidence, of "''A,7''"]
  by (auto dest!: list_all2_lengthD simp: by_start_def sample_defs)

text \<open>
  C39. Promotion needs evidence: a candidate whose confidence rises has, inside its context window and apart from it, a
  finding of another category that the detectors themselves reported with high confidence. A
  promoted candidate never serves as such evidence.
\<close>

theorem promotion_needs_anchor:
  assumes "\<forall>f \<in> set all. 0 \<le> f_Confidence f \<and> f_Confidence f \<le> 1"
    and "f \<in> set all" and "f_Confidence (resolve_one text all f) > f_Confidence f"
  shows "\<exists>a \<in> set all. f_Confidence a \<ge> ConfidenceHigh \<and> anchorType (f_Type a) \<and> f_Type a \<noteq> f_Type f \<and>
    (f_End a \<le> f_Start f \<or> f_End f \<le> f_Start a) \<and>
    fst (contextWindow text f (logicalRecords text)) \<le> nat (f_Start a) \<and>
    nat (f_End a) \<le> snd (contextWindow text f (logicalRecords text))"
proof -
  let ?R = "logicalRecords text"
  have s: "suppress_one text ?R f = f"
  proof (cases "suppressed text ?R f")
    case True
    then have "f_Confidence (suppress_one text ?R f) = 0"
      using suppress_one_confidence(3) assms(1,2) by blast
    then have "resolve_one text all f = suppress_one text ?R f"
      by (simp add: resolve_one_def promote_one_def)
    with \<open>f_Confidence (suppress_one text ?R f) = 0\<close> assms show ?thesis by fastforce
  qed (simp add: suppress_one_def)
  obtain lo hi where w: "contextWindow text f ?R = (lo, hi)" by force
  have g: "resolve_one text all f = fst (promote_one text ?R (frozen_anchors text all) f no_stats)"
    using s by (simp add: resolve_one_def)
  from promote_one_confidence(4) [OF g assms(3)] w
  have "nearbyAnchorTypes f (frozen_anchors text all) lo hi \<noteq> []" by simp
  from nearbyAnchorTypes_sound [OF this sorted_frozen_anchors] frozen_anchors_original [of _ "text" all] assms(1) w
  show ?thesis by fastforce
qed

theorem promotion_needs_anchor_witness:
  "\<exists>a \<in> set [sample_name, sample_phone]. f_Confidence a \<ge> ConfidenceHigh \<and> f_Type a \<noteq> TypeFullName \<and>
     fst (contextWindow ''A,7'' sample_name (logicalRecords ''A,7'')) \<le> nat (f_Start a)"
  using promotion_needs_anchor [OF sample_confidence _ sample_promoted]
  by (force simp: sample_defs)

text \<open>
  The three windows around a well-formed finding contain it, are cut at rune boundaries of the text and reach at
  most 512 bytes to either side, so every slice the resolver takes is in range.
\<close>

theorem context_windows_bounded:
  assumes "valid_string text" and "finding_ok text f"
  shows "window_ok text f (recordWindow text f (logicalRecords text)) \<and>
    window_ok text f (contextWindow text f (logicalRecords text)) \<and>
    window_ok text f (localWindow text f (logicalRecords text))"
  using assms recordWindow_ok contextWindow_ok localWindow_ok logicalRecords_ok(1) by blast

theorem context_windows_bounded_witness:
  "window_ok ''A,7'' sample_phone (localWindow ''A,7'' sample_phone (logicalRecords ''A,7''))"
  using context_windows_bounded [OF sample_valid sample_ok(2)] by blast

text \<open>
  Logical records are pieces of the text in order, with a separator between two of them; a record that
  joins several lines has at most 2048 bytes.
\<close>

theorem logical_records_ordered:
  assumes "valid_string text"
  shows "records_ok text (logicalRecords text) \<and> sorted_wrt (\<lambda>a b. tr_end a < tr_start b) (logicalRecords text) \<and>
    list_all (record_bounded text) (logicalRecords text)"
  using logicalRecords_ok [OF assms] by blast

theorem logical_records_ordered_witness:
  "records_ok ''A,7'' (logicalRecords ''A,7'')"
  using logical_records_ordered [OF sample_valid] by blast

text \<open>
  The profiles are ordered: what the conservative profile accepts the balanced one accepts, and what that one accepts
  the strict one accepts.
\<close>

theorem profiles_monotone:
  "set (FilterConfidence fs ProfileConservative) \<subseteq> set (FilterConfidence fs ProfileBalanced) \<and>
   set (FilterConfidence fs ProfileBalanced) \<subseteq> set (FilterConfidence fs ProfileStrict)"
  by (auto simp: FilterConfidence_def Threshold_def ProfileConservative_def ProfileBalanced_def ProfileStrict_def
      score_defs split: if_splits)

end
