(* ===== verification/Policy.thy ===== *)
theory Policy
  imports Context
begin

text \<open>
  \<^verbatim>\<open>internal/pii/policy/policy.go\<close> and \<^verbatim>\<open>contract.go\<close>: the policy of a consumer system, the
  request contract made from it, the validation of a contract, and the filter that decides which
  findings are masked. The map \<^verbatim>\<open>Types\<close> is a list of key-value pairs with distinct keys, in the
  order in which the loop over the map happens to visit them. The quoted argument of the
  \<^verbatim>\<open>mask_mode\<close> error is left out of its text.
\<close>

section \<open>Policies\<close>

definition MaskModeFormat :: bytes where "MaskModeFormat = ''format''"
definition MaskModeToken :: bytes where "MaskModeToken = ''token''"

record Rule =
  ru_Type :: PIIType
  ru_Requires :: "PIIType list"

record Policy =
  po_DetectionProfile :: bytes
  po_SystemID :: bytes
  po_Enabled :: bool
  po_Types :: "(PIIType \<times> bool) list option"
  po_MaskMode :: bytes
  po_AllowDemask :: bool
  po_Rules :: "Rule list"
  po_DetectTypes :: "bytes list option"
  po_Version :: bytes
  po_TTL :: int

text \<open>Durations are in nanoseconds.\<close>

definition time_Hour :: int where "time_Hour = 3600000000000"

definition New_policy :: "bytes \<Rightarrow> Policy" where
  "New_policy systemID =
     \<lparr>po_DetectionProfile = ProfileBalanced, po_SystemID = systemID, po_Enabled = True, po_Types = None,
      po_MaskMode = MaskModeFormat, po_AllowDemask = True, po_Rules = [], po_DetectTypes = None,
      po_Version = ''v1'', po_TTL = time_Hour\<rparr>"

text \<open>\<^verbatim>\<open>sort.Strings\<close>: byte-wise lexicographic order.\<close>

fun bytes_less :: "bytes \<Rightarrow> bytes \<Rightarrow> bool" where
  "bytes_less [] [] = False"
| "bytes_less [] (d # t) = True"
| "bytes_less (c # s) [] = False"
| "bytes_less (c # s) (d # t) = (byte c < byte d \<or> c = d \<and> bytes_less s t)"

definition sort_Strings :: "bytes list \<Rightarrow> bytes list" where
  "sort_Strings ss = slice_stable bytes_less ss"

definition Contract :: "Policy \<Rightarrow> CPolicy" where
  "Contract p =
     \<lparr>cp_DetectionProfile = po_DetectionProfile p, cp_Version = po_Version p,
      cp_Mode = (if po_MaskMode p = MaskModeToken then ''tokens'' else ''benchmark''),
      cp_DetectTypes = po_DetectTypes p,
      cp_MaskTypes = map_option (\<lambda>ts. sort_Strings (map fst (filter snd ts))) (po_Types p),
      cp_AllowDemask = po_AllowDemask p, cp_TTL = po_TTL p,
      cp_Rules = map (\<lambda>r. \<lparr>pr_Type = ru_Type r, pr_Requires = ru_Requires r\<rparr>) (po_Rules p)\<rparr>"

definition Allows :: "Policy \<Rightarrow> PIIType \<Rightarrow> bool" where
  "Allows p typ =
     (if \<not> po_Enabled p then False
      else case po_Types p of None \<Rightarrow> True | Some ts \<Rightarrow> map_of ts typ = Some True)"

fun ruleAllows_loop :: "Rule list \<Rightarrow> PIIType \<Rightarrow> PIIType list \<Rightarrow> bool" where
  "ruleAllows_loop [] typ present = True"
| "ruleAllows_loop (r # rs) typ present =
     (if ru_Type r \<noteq> typ then ruleAllows_loop rs typ present
      else if list_ex (\<lambda>req. req \<notin> set present) (ru_Requires r) then False
      else ruleAllows_loop rs typ present)"

definition ruleAllows :: "Policy \<Rightarrow> PIIType \<Rightarrow> PIIType list \<Rightarrow> bool" where
  "ruleAllows p typ present = ruleAllows_loop (po_Rules p) typ present"

definition Apply :: "Policy \<Rightarrow> Finding list \<Rightarrow> PIIType list \<Rightarrow> Finding list" where
  "Apply p findings present =
     (if \<not> po_Enabled p then []
      else filter (\<lambda>f. Allows p (f_Type f) \<and> ruleAllows p (f_Type f) present) findings)"

definition Validate :: "Policy \<Rightarrow> error option" where
  "Validate p =
     (if \<not> ValidProfile (po_DetectionProfile p) then Some ErrInvalidPolicy
      else if po_SystemID p = [] then Some (ErrText ''policy: system_id is required'')
      else if po_MaskMode p \<noteq> MaskModeFormat \<and> po_MaskMode p \<noteq> MaskModeToken
      then Some (ErrText ''policy: unknown mask_mode'')
      else if list_ex (\<lambda>r. ru_Type r = []) (po_Rules p)
      then Some (ErrText ''policy: rule with empty type'')
      else None)"

section \<open>Contracts\<close>

definition BuiltinTypes :: "bytes list" where "BuiltinTypes = AllTypes"

definition knownTypes :: "bytes list \<Rightarrow> bytes list \<Rightarrow> bool" where
  "knownTypes types validTypes = list_all (\<lambda>t. t \<in> set validTypes) types"

definition detectionEnabled :: "CPolicy \<Rightarrow> bytes \<Rightarrow> bool" where
  "detectionEnabled pol typ = (case cp_DetectTypes pol of None \<Rightarrow> True | Some ts \<Rightarrow> typ \<in> set ts)"

definition allDetected :: "CPolicy \<Rightarrow> bytes list \<Rightarrow> bool" where
  "allDetected pol types = list_all (detectionEnabled pol) types"

text \<open>Ranging over a nil slice does nothing.\<close>

definition elems :: "bytes list option \<Rightarrow> bytes list" where
  "elems ts = (case ts of None \<Rightarrow> [] | Some l \<Rightarrow> l)"

definition validateMaskTypes :: "CPolicy \<Rightarrow> error option" where
  "validateMaskTypes pol =
     (if cp_DetectTypes pol \<noteq> None \<and> cp_MaskTypes pol = None \<and>
         list_ex (\<lambda>typ. \<not> detectionEnabled pol typ) AllTypes
      then Some ErrInvalidPolicy
      else if \<not> allDetected pol (elems (cp_MaskTypes pol)) then Some ErrInvalidPolicy
      else None)"

fun validateRules :: "CPolicy \<Rightarrow> bytes list \<Rightarrow> PolicyRule list \<Rightarrow> error option" where
  "validateRules pol validTypes [] = None"
| "validateRules pol validTypes (rule # rules) =
     (if pr_Type rule \<notin> set validTypes \<or> \<not> detectionEnabled pol (pr_Type rule) then Some ErrInvalidPolicy
      else if \<not> knownTypes (pr_Requires rule) validTypes \<or> \<not> allDetected pol (pr_Requires rule)
      then Some ErrInvalidPolicy
      else validateRules pol validTypes rules)"

definition ValidateContract :: "CPolicy \<Rightarrow> bytes list \<Rightarrow> error option" where
  "ValidateContract pol validTypes =
     (if \<not> ValidProfile (cp_DetectionProfile pol) \<or> cp_Version pol = [] \<or> cp_TTL pol \<le> 0 \<or>
         (cp_Mode pol \<noteq> ''tokens'' \<and> cp_Mode pol \<noteq> ''benchmark'')
      then Some ErrInvalidPolicy
      else if \<not> knownTypes (elems (cp_DetectTypes pol)) validTypes \<or> \<not> knownTypes (elems (cp_MaskTypes pol)) validTypes
      then Some ErrInvalidPolicy
      else case validateMaskTypes pol of Some e \<Rightarrow> Some e
      | None \<Rightarrow> validateRules pol validTypes (cp_Rules pol))"

section \<open>Facts\<close>

lemma ruleAllows_iff:
  "ruleAllows p typ present \<longleftrightarrow>
   (\<forall>r \<in> set (po_Rules p). ru_Type r = typ \<longrightarrow> set (ru_Requires r) \<subseteq> set present)"
proof -
  have "ruleAllows_loop rs typ present \<longleftrightarrow> (\<forall>r \<in> set rs. ru_Type r = typ \<longrightarrow> set (ru_Requires r) \<subseteq> set present)" for rs
    by (induction rs) (auto simp: list_ex_iff)
  then show ?thesis by (simp add: ruleAllows_def)
qed

lemma set_sort_Strings [simp]: "set (sort_Strings ss) = set ss"
  by (simp add: sort_Strings_def)

lemma validateRules_None:
  "validateRules pol valid rules = None \<longleftrightarrow>
   (\<forall>r \<in> set rules. pr_Type r \<in> set valid \<and> detectionEnabled pol (pr_Type r) \<and>
      set (pr_Requires r) \<subseteq> set valid \<and> (\<forall>t \<in> set (pr_Requires r). detectionEnabled pol t))"
  by (induction rules) (auto simp: knownTypes_def allDetected_def list_all_iff)

lemma validateRules_error: "validateRules pol valid rules = Some e \<Longrightarrow> e = ErrInvalidPolicy"
  by (induction rules) (auto split: if_splits)

lemma ValidateContract_error: "ValidateContract pol valid = Some e \<Longrightarrow> e = ErrInvalidPolicy"
  by (auto simp: ValidateContract_def validateMaskTypes_def split: if_splits dest: validateRules_error)

text \<open>What the policy of a request promises to mask.\<close>

definition mask_selected :: "CPolicy \<Rightarrow> bytes \<Rightarrow> bool" where
  "mask_selected pol typ = (case cp_MaskTypes pol of None \<Rightarrow> True | Some ts \<Rightarrow> typ \<in> set ts)"

lemma bytes_less_asym: "bytes_less a b \<Longrightarrow> \<not> bytes_less b a"
  by (induction a b rule: bytes_less.induct) auto

lemma byte_inject: "byte c = byte d \<longleftrightarrow> c = d"
  by (metis char_of_byte)

lemma bytes_less_total: "\<not> bytes_less a b \<Longrightarrow> \<not> bytes_less b a \<Longrightarrow> a = b"
  by (induction a b rule: bytes_less.induct) (auto simp: not_less byte_inject)

lemma bytes_less_trans: "bytes_less a b \<Longrightarrow> bytes_less b c \<Longrightarrow> bytes_less a c"
proof (induction a b arbitrary: c rule: bytes_less.induct)
  case (4 x s y t)
  then show ?case by (cases c) auto
next
  case (2 d t)
  then show ?case by (cases c) auto
qed auto

lemma sorted_sort_Strings: "sorted_wrt (\<lambda>a b. \<not> bytes_less b a) (sort_Strings ss)"
  unfolding sort_Strings_def
proof (rule sorted_slice_stable)
  show "\<not> bytes_less b a" if "bytes_less a b" for a b using that by (rule bytes_less_asym)
  show "\<not> bytes_less c a" if "\<not> bytes_less b a" "\<not> bytes_less c b" for a b c
    using that bytes_less_total bytes_less_trans by metis
qed

section \<open>Properties\<close>

text \<open>
  A contract that validates is coherent: its categories are known, every category selected for masking is also
  detected (all built-in ones when the selection is open), and so are the category and the
  requirements of every rule. A contract that does not validate gives the policy error.
\<close>

theorem validated_contract_coherent:
  "(ValidateContract pol valid = None \<longrightarrow>
      ValidProfile (cp_DetectionProfile pol) \<and> cp_TTL pol > 0 \<and> cp_Version pol \<noteq> [] \<and>
      (\<forall>t \<in> set (elems (cp_MaskTypes pol)). t \<in> set valid \<and> detectionEnabled pol t) \<and>
      (cp_MaskTypes pol = None \<longrightarrow> (\<forall>t \<in> set AllTypes. detectionEnabled pol t)) \<and>
      (\<forall>r \<in> set (cp_Rules pol). \<forall>t \<in> set (pr_Type r # pr_Requires r). t \<in> set valid \<and> detectionEnabled pol t)) \<and>
   (ValidateContract pol valid \<noteq> None \<longrightarrow> ValidateContract pol valid = Some ErrInvalidPolicy)"
proof -
  have "ValidateContract pol valid = Some ErrInvalidPolicy" if "ValidateContract pol valid \<noteq> None"
    using that ValidateContract_error by auto
  moreover have "detectionEnabled pol t" if "cp_DetectTypes pol = None" for t
    using that by (simp add: detectionEnabled_def)
  ultimately show ?thesis
    by (auto simp: ValidateContract_def validateMaskTypes_def knownTypes_def allDetected_def list_all_iff
        list_ex_iff elems_def validateRules_None split: if_splits option.splits)
qed

lemma default_contract_valid: "ValidateContract (Contract (New_policy ''crm'')) BuiltinTypes = None"
  by (simp add: ValidateContract_def Contract_def New_policy_def ValidProfile_def elems_def knownTypes_def
      validateMaskTypes_def allDetected_def time_Hour_def)

theorem validated_contract_coherent_witness:
  "list_all (detectionEnabled (Contract (New_policy ''crm''))) AllTypes"
  using validated_contract_coherent [of "Contract (New_policy ''crm'')" BuiltinTypes] default_contract_valid
  by (simp add: Contract_def New_policy_def list_all_iff)

text \<open>
  The request contract of an enabled policy selects for masking exactly the categories that the policy
  allows, in an order that does not depend on the order of the map.
\<close>

theorem contract_selects_allowed:
  assumes "po_Enabled p" and "case po_Types p of None \<Rightarrow> True | Some ts \<Rightarrow> distinct (map fst ts)"
  shows "(mask_selected (Contract p) typ \<longleftrightarrow> Allows p typ) \<and>
    sorted_wrt (\<lambda>a b. \<not> bytes_less b a) (elems (cp_MaskTypes (Contract p)))"
  using assms sorted_sort_Strings
  by (auto simp: mask_selected_def Contract_def Allows_def elems_def split: option.splits
      dest: map_of_SomeD intro: rev_image_eqI)

theorem contract_selects_allowed_witness:
  "mask_selected (Contract ((New_policy ''crm'')\<lparr>po_Types := Some [(TypeINN, True), (TypeCVV, False)]\<rparr>)) TypeINN"
proof -
  let ?p = "(New_policy ''crm'')\<lparr>po_Types := Some [(TypeINN, True), (TypeCVV, False)]\<rparr>"
  have "po_Enabled ?p" "case po_Types ?p of None \<Rightarrow> True | Some ts \<Rightarrow> distinct (map fst ts)" "Allows ?p TypeINN"
    by (simp_all add: New_policy_def Allows_def type_defs)
  with contract_selects_allowed [of ?p TypeINN] show ?thesis by blast
qed

text \<open>
  A finding is masked iff its category is allowed and every requirement of every rule for the category is among
  the detected categories; more detected categories never remove a finding from the result.
\<close>

theorem apply_by_rules:
  "set (Apply p findings present) =
     {f \<in> set findings. Allows p (f_Type f) \<and>
        (\<forall>r \<in> set (po_Rules p). ru_Type r = f_Type f \<longrightarrow> set (ru_Requires r) \<subseteq> set present)} \<and>
   (set present \<subseteq> set present' \<longrightarrow> set (Apply p findings present) \<subseteq> set (Apply p findings present'))"
  by (auto simp: Apply_def ruleAllows_iff Allows_def)

theorem apply_by_rules_witness:
  "set (Apply (New_policy ''crm'') [sample_name] []) \<subseteq> set (Apply (New_policy ''crm'') [sample_name] [TypePhone])"
  by (rule apply_by_rules [THEN conjunct2, rule_format]) simp

end
