(* ===== verification/Store.thy ===== *)
theory Store
  imports World
begin

text \<open>
  \<^verbatim>\<open>internal/pii/store/store.go\<close>: records of processed texts, the store interface and the in-memory
  store with expiry. The store is part of the world. A method holds its lock from the first use of the
  map to the last, so it is one step; only \<^verbatim>\<open>Get\<close> gives its lock up between the lookup and the removal of
  an expired item, so it is two. An item has an identity, which stands for its address, since \<^verbatim>\<open>Get\<close>
  compares pointers before it removes. The result of \<^verbatim>\<open>Get\<close> and \<^verbatim>\<open>CreateIfAbsent\<close> is an error or the pair of a
  record pointer (\<^const>\<open>None\<close> for nil) and a flag.
\<close>

section \<open>Records and the interface\<close>

record Record =
  rec_Original :: bytes
  rec_Masked :: bytes
  rec_Findings :: "Finding list"
  rec_TransformMap :: "bytes \<rightharpoonup> bytes"
  rec_TokenNonce :: bytes
  rec_CreatedAt :: gotime
  rec_ExpiresAt :: gotime
  rec_PolicyVersion :: bytes

type_synonym store_result = "error + Record option \<times> bool"

record 'w store_ops =
  so_Get :: "bytes \<Rightarrow> 'w \<Rightarrow> store_result \<times> 'w"
  so_CreateIfAbsent :: "bytes \<Rightarrow> Record \<Rightarrow> 'w \<Rightarrow> store_result \<times> 'w"
  so_Check :: "('w \<Rightarrow> error option \<times> 'w) option"

section \<open>The in-memory store\<close>

record item =
  it_id :: nat
  it_rec :: Record
  it_expires :: gotime

text \<open>The last field is the identity of the next item that is allocated.\<close>

record TTLStore = world +
  ts_items :: "bytes \<rightharpoonup> item"
  ts_ttl :: int
  ts_next :: nat

definition NewTTLStore :: "int \<Rightarrow> world \<Rightarrow> TTLStore" where
  "NewTTLStore ttl w =
     \<lparr>w_ctx = w_ctx w, w_polls = w_polls w, w_clock = w_clock w, w_times = w_times w, w_rand = w_rand w,
      w_draws = w_draws w, w_reqid = w_reqid w, w_log = w_log w, ts_items = Map.empty, ts_ttl = ttl, ts_next = 0\<rparr>"

text \<open>A deep copy is the same value.\<close>

definition cloneRecord :: "Record \<Rightarrow> Record" where
  "cloneRecord rec = rec\<lparr>rec_Findings := [] @ rec_Findings rec\<rparr>"

definition expired :: "item \<Rightarrow> 'a TTLStore_scheme \<Rightarrow> bool \<times> 'a TTLStore_scheme" where
  "expired it w =
     (if it_expires it = None then (False, w)
      else (case time_Now w of (now, w) \<Rightarrow> (passed now (it_expires it), w)))"

definition expiry :: "'a TTLStore_scheme \<Rightarrow> gotime \<times> 'a TTLStore_scheme" where
  "expiry w =
     (if ts_ttl w \<le> 0 then (None, w)
      else (case time_Now w of (now, w) \<Rightarrow> (Some (now + ts_ttl w), w)))"

definition recordExpiry :: "Record \<Rightarrow> 'a TTLStore_scheme \<Rightarrow> gotime \<times> 'a TTLStore_scheme" where
  "recordExpiry rec w = (if rec_ExpiresAt rec \<noteq> None then (rec_ExpiresAt rec, w) else expiry w)"

text \<open>
  \<^verbatim>\<open>Get\<close> up to the point where it gives the read lock up: its answer, and the item that it has found
  expired, which it is about to remove.
\<close>

definition TTL_lookup :: "bytes \<Rightarrow> 'a TTLStore_scheme \<Rightarrow> (store_result \<times> item option) \<times> 'a TTLStore_scheme" where
  "TTL_lookup key w =
     (case ctx_Err w of
        (Some e, w) \<Rightarrow> ((Inl e, None), w)
      | (None, w) \<Rightarrow>
          (case ts_items w key of
             None \<Rightarrow> ((Inr (None, False), None), w)
           | Some it \<Rightarrow>
               (case expired it w of
                  (True, w) \<Rightarrow> ((Inr (None, False), Some it), w)
                | (False, w) \<Rightarrow> ((Inr (Some (cloneRecord (it_rec it)), True), None), w))))"

text \<open>What it does under the write lock: the item under the key is removed if it is still the same one.\<close>

definition TTL_evict :: "bytes \<Rightarrow> item \<Rightarrow> 'a TTLStore_scheme \<Rightarrow> 'a TTLStore_scheme" where
  "TTL_evict key it w =
     (if map_option it_id (ts_items w key) = Some (it_id it) then w\<lparr>ts_items := (ts_items w)(key := None)\<rparr> else w)"

definition TTL_Get :: "bytes \<Rightarrow> 'a TTLStore_scheme \<Rightarrow> store_result \<times> 'a TTLStore_scheme" where
  "TTL_Get key w =
     (case TTL_lookup key w of
        ((res, None), w) \<Rightarrow> (res, w)
      | ((res, Some it), w) \<Rightarrow> (res, TTL_evict key it w))"

definition TTL_Put :: "bytes \<Rightarrow> Record \<Rightarrow> 'a TTLStore_scheme \<Rightarrow> 'a TTLStore_scheme" where
  "TTL_Put key rec w =
     (case recordExpiry rec w of
        (expires, w) \<Rightarrow>
          w\<lparr>ts_items := (ts_items w)(key \<mapsto> \<lparr>it_id = ts_next w, it_rec = cloneRecord rec, it_expires = expires\<rparr>),
            ts_next := Suc (ts_next w)\<rparr>)"

definition TTL_insert :: "bytes \<Rightarrow> Record \<Rightarrow> 'a TTLStore_scheme \<Rightarrow> store_result \<times> 'a TTLStore_scheme" where
  "TTL_insert key rec w = (Inr (Some (cloneRecord rec), True), TTL_Put key rec w)"

definition TTL_CreateIfAbsent ::
  "bytes \<Rightarrow> Record \<Rightarrow> 'a TTLStore_scheme \<Rightarrow> store_result \<times> 'a TTLStore_scheme"
where
  "TTL_CreateIfAbsent key rec w =
     (case ctx_Err w of
        (Some e, w) \<Rightarrow> (Inl e, w)
      | (None, w) \<Rightarrow>
          (case ts_items w key of
             None \<Rightarrow> TTL_insert key rec w
           | Some it \<Rightarrow>
               (case expired it w of
                  (False, w) \<Rightarrow> (Inr (Some (cloneRecord (it_rec it)), False), w)
                | (True, w) \<Rightarrow> TTL_insert key rec w)))"

definition TTL_Delete :: "bytes \<Rightarrow> 'a TTLStore_scheme \<Rightarrow> 'a TTLStore_scheme" where
  "TTL_Delete key w = w\<lparr>ts_items := (ts_items w)(key := None)\<rparr>"

definition TTL_Len :: "'a TTLStore_scheme \<Rightarrow> nat" where
  "TTL_Len w = card (dom (ts_items w))"

definition TTL_Cleanup :: "'a TTLStore_scheme \<Rightarrow> 'a TTLStore_scheme" where
  "TTL_Cleanup w =
     (case time_Now w of (now, w) \<Rightarrow>
        w\<lparr>ts_items := (\<lambda>key. case ts_items w key of None \<Rightarrow> None
          | Some it \<Rightarrow> if passed now (it_expires it) then None else Some it)\<rparr>)"

definition TTL_Check :: "'a TTLStore_scheme \<Rightarrow> error option \<times> 'a TTLStore_scheme" where
  "TTL_Check w = ctx_Err w"

definition TTL_ops :: "'a TTLStore_scheme store_ops" where
  "TTL_ops = \<lparr>so_Get = TTL_Get, so_CreateIfAbsent = TTL_CreateIfAbsent, so_Check = Some TTL_Check\<rparr>"

section \<open>The contract of a store\<close>

text \<open>
  What a client may rely on. The view of a world is the map from identifiers to records. A
  successful \<^verbatim>\<open>Get\<close> returns the record of the view; \<^verbatim>\<open>CreateIfAbsent\<close> returns the record that is in
  the view afterwards, which is its argument iff the flag says that it was created. Nothing is
  added or changed otherwise; records may expire at any time.
\<close>

locale context_store =
  fixes ops :: "'a world_scheme store_ops" and view :: "'a world_scheme \<Rightarrow> bytes \<rightharpoonup> Record"
  assumes get_hit: "so_Get ops key w = (Inr (r, True), w') \<Longrightarrow>
      \<exists>rec. r = Some rec \<and> view w key = Some rec \<and> view w' = view w"
    and get_miss: "so_Get ops key w = (Inr (r, False), w') \<Longrightarrow> r = None \<and> view w' = (view w)(key := None)"
    and get_error: "so_Get ops key w = (Inl e, w') \<Longrightarrow> view w' = view w"
    and create_new: "so_CreateIfAbsent ops key rec w = (Inr (r, True), w') \<Longrightarrow>
      r = Some rec \<and> view w' = (view w)(key \<mapsto> rec)"
    and create_old: "so_CreateIfAbsent ops key rec w = (Inr (r, False), w') \<Longrightarrow>
      \<exists>old. r = Some old \<and> view w key = Some old \<and> view w' = view w"
    and create_error: "so_CreateIfAbsent ops key rec w = (Inl e, w') \<Longrightarrow> view w' = view w"
    and sources: "same_sources w (snd (so_Get ops key w))" "same_sources w (snd (so_CreateIfAbsent ops key rec w))"
    and silent: "w_log (snd (so_Get ops key w)) = w_log w" "w_log (snd (so_CreateIfAbsent ops key rec w)) = w_log w"
    and view_emit: "view (emit ev w) = view w" and view_ctx: "view (snd (ctx_Err w)) = view w"
    and view_time: "view (snd (time_Now w)) = view w" and view_rand: "view (snd (rand_Read w)) = view w"
begin

text \<open>Whoever wins, the record that \<^verbatim>\<open>CreateIfAbsent\<close> returns is the one that later reads see.\<close>

lemma create_agrees:
  "so_CreateIfAbsent ops key rec w = (Inr (r, c), w') \<Longrightarrow> \<exists>rec'. r = Some rec' \<and> view w' key = Some rec'"
  using create_new create_old by (cases c) fastforce+

lemma get_agrees:
  assumes "so_CreateIfAbsent ops key rec w = (Inr (Some rec', c), w')"
    and "so_Get ops key w' = (Inr (Some rec'', True), w'')"
  shows "rec'' = rec'"
  using create_agrees [OF assms(1)] get_hit [OF assms(2)] by simp

lemma second_create_loses:
  assumes "so_CreateIfAbsent ops key rec w = (Inr (Some a, c), w')"
    and "so_CreateIfAbsent ops key rec2 w' = (Inr (Some b, False), w'')"
  shows "b = a"
  using create_agrees [OF assms(1)] create_old [OF assms(2)] by auto

end

section \<open>The in-memory store keeps the contract\<close>

definition TTL_view :: "'a TTLStore_scheme \<Rightarrow> bytes \<rightharpoonup> Record" where
  "TTL_view w key = map_option it_rec (ts_items w key)"

lemma cloneRecord_id [simp]: "cloneRecord rec = rec"
  by (simp add: cloneRecord_def)

lemma world_items [simp]:
  "ts_items (snd (ctx_Err w)) = ts_items w" "ts_items (snd (time_Now w)) = ts_items w"
  "ts_items (snd (rand_Read w)) = ts_items w" "ts_items (emit ev w) = ts_items w"
  by (simp_all add: ctx_Err_def time_Now_def rand_Read_def emit_def)

lemma expired_frame:
  "ts_items (snd (expired it w)) = ts_items w" "same_sources w (snd (expired it w))"
  "w_log (snd (expired it w)) = w_log w"
  by (simp_all add: expired_def time_Now_def same_sources_def)

lemma recordExpiry_frame:
  "ts_items (snd (recordExpiry rec w)) = ts_items w" "same_sources w (snd (recordExpiry rec w))"
  "w_log (snd (recordExpiry rec w)) = w_log w"
  by (simp_all add: recordExpiry_def expiry_def time_Now_def same_sources_def)

lemma ctx_Err_frame: "w_log (snd (ctx_Err w)) = w_log w" "ts_items (snd (ctx_Err w)) = ts_items w"
  by (simp_all add: ctx_Err_def)

lemma same_sources_items [simp]:
  "same_sources w (w'\<lparr>ts_items := m\<rparr>) \<longleftrightarrow> same_sources w w'" "same_sources w (w'\<lparr>ts_next := n\<rparr>) \<longleftrightarrow> same_sources w w'"
  by (simp_all add: same_sources_def)

lemma TTL_insert_frame:
  "TTL_view (snd (TTL_insert key rec w)) = (TTL_view w)(key \<mapsto> rec)"
  "same_sources w (snd (TTL_insert key rec w))" "w_log (snd (TTL_insert key rec w)) = w_log w"
  "fst (TTL_insert key rec w) = Inr (Some rec, True)"
  using recordExpiry_frame [where rec = rec and w = w]
  by (auto simp: TTL_insert_def TTL_Put_def TTL_view_def fun_eq_iff split: prod.splits)

lemma TTL_insert_result:
  "TTL_insert key rec w = (Inr (r, c), w') \<Longrightarrow> r = Some rec \<and> c \<and> TTL_view w' = (TTL_view w)(key \<mapsto> rec)"
  using TTL_insert_frame(1,4) [of key rec w] by simp

text \<open>The steps of the two operations, with the world in which each one ends.\<close>

lemma TTL_lookup_cases:
  obtains (error) e where "TTL_lookup key w = ((Inl e, None), snd (ctx_Err w))"
  | (absent) "TTL_lookup key w = ((Inr (None, False), None), snd (ctx_Err w))" "ts_items w key = None"
  | (gone) it where "ts_items w key = Some it" "fst (expired it (snd (ctx_Err w)))"
      "TTL_lookup key w = ((Inr (None, False), Some it), snd (expired it (snd (ctx_Err w))))"
  | (hit) it where "ts_items w key = Some it" "\<not> fst (expired it (snd (ctx_Err w)))"
      "TTL_lookup key w = ((Inr (Some (it_rec it), True), None), snd (expired it (snd (ctx_Err w))))"
proof -
  obtain e v where e: "ctx_Err w = (e, v)" by force
  then have v: "ts_items v = ts_items w" using ctx_Err_frame(2) [of w] by simp
  show thesis
  proof (cases e)
    case None
    show ?thesis
    proof (cases "ts_items w key")
      case none: None
      with e None v that(2) show ?thesis by (simp add: TTL_lookup_def)
    next
      case (Some it)
      obtain x u where x: "expired it v = (x, u)" by force
      with e None v Some that(3,4) show ?thesis by (cases x) (simp_all add: TTL_lookup_def)
    qed
  qed (use e that(1) in \<open>simp add: TTL_lookup_def\<close>)
qed

lemma TTL_Get_cases:
  obtains (error) e where "TTL_Get key w = (Inl e, snd (ctx_Err w))"
  | (absent) "TTL_Get key w = (Inr (None, False), snd (ctx_Err w))" "ts_items w key = None"
  | (gone) it where "ts_items w key = Some it" "fst (expired it (snd (ctx_Err w)))"
      "TTL_Get key w = (Inr (None, False), TTL_Delete key (snd (expired it (snd (ctx_Err w)))))"
  | (hit) it where "ts_items w key = Some it" "\<not> fst (expired it (snd (ctx_Err w)))"
      "TTL_Get key w = (Inr (Some (it_rec it), True), snd (expired it (snd (ctx_Err w))))"
proof (cases rule: TTL_lookup_cases [of key w])
  case (error e)
  with that(1) show ?thesis by (simp add: TTL_Get_def)
next
  case absent
  with that(2) show ?thesis by (simp add: TTL_Get_def)
next
  case (gone it)
  with that(3) show ?thesis by (simp add: TTL_Get_def TTL_evict_def TTL_Delete_def expired_frame)
next
  case (hit it)
  with that(4) show ?thesis by (simp add: TTL_Get_def)
qed

lemma TTL_CreateIfAbsent_cases:
  obtains (error) e where "TTL_CreateIfAbsent key rec w = (Inl e, snd (ctx_Err w))"
  | (absent) "TTL_CreateIfAbsent key rec w = TTL_insert key rec (snd (ctx_Err w))" "ts_items w key = None"
  | (gone) it where "ts_items w key = Some it" "fst (expired it (snd (ctx_Err w)))"
      "TTL_CreateIfAbsent key rec w = TTL_insert key rec (snd (expired it (snd (ctx_Err w))))"
  | (hit) it where "ts_items w key = Some it" "\<not> fst (expired it (snd (ctx_Err w)))"
      "TTL_CreateIfAbsent key rec w = (Inr (Some (it_rec it), False), snd (expired it (snd (ctx_Err w))))"
proof -
  obtain e v where e: "ctx_Err w = (e, v)" by force
  then have v: "ts_items v = ts_items w" using ctx_Err_frame(2) [of w] by simp
  show thesis
  proof (cases e)
    case None
    show ?thesis
    proof (cases "ts_items w key")
      case none: None
      with e None v that(2) show ?thesis by (simp add: TTL_CreateIfAbsent_def)
    next
      case (Some it)
      obtain x u where x: "expired it v = (x, u)" by force
      with e None v Some that(3,4) show ?thesis by (cases x) (simp_all add: TTL_CreateIfAbsent_def)
    qed
  qed (use e that(1) in \<open>simp add: TTL_CreateIfAbsent_def\<close>)
qed

lemma TTL_view_cong: "ts_items w = ts_items w' \<Longrightarrow> TTL_view w = TTL_view w'"
  by (simp add: TTL_view_def fun_eq_iff)

lemma TTL_view_Delete: "TTL_view (TTL_Delete key w) = (TTL_view w)(key := None)"
  by (simp add: TTL_Delete_def TTL_view_def fun_eq_iff)

lemma TTL_frame [simp]:
  "TTL_view (snd (expired it w)) = TTL_view w" "TTL_view (snd (ctx_Err w)) = TTL_view w"
  "TTL_view (snd (time_Now w)) = TTL_view w" "TTL_view (snd (rand_Read w)) = TTL_view w"
  "TTL_view (emit ev w) = TTL_view w"
  by (rule TTL_view_cong; simp add: expired_frame)+

lemma TTL_view_None: "ts_items w key = None \<Longrightarrow> (TTL_view w)(key := None) = TTL_view w"
  by (simp add: TTL_view_def fun_eq_iff)

lemma same_sources_expired: "same_sources w (snd (expired it (snd (ctx_Err w))))"
  using same_sources_trans expired_frame(2) same_sources_steps(1) by blast

interpretation ttl: context_store TTL_ops TTL_view
proof (unfold_locales, goal_cases)
  case (1 key w r w')
  then show ?case by (cases rule: TTL_Get_cases [of key w]) (auto simp: TTL_ops_def TTL_view_def)
next
  case (2 key w r w')
  then show ?case
    by (cases rule: TTL_Get_cases [of key w])
      (auto simp: TTL_ops_def TTL_view_Delete TTL_view_None)
next
  case (3 key w e w')
  then show ?case by (cases rule: TTL_Get_cases [of key w]) (auto simp: TTL_ops_def)
next
  case (4 key rec w r w')
  then show ?case
    by (cases rule: TTL_CreateIfAbsent_cases [of key rec w])
      (auto simp: TTL_ops_def dest!: TTL_insert_result)
next
  case (5 key rec w r w')
  then show ?case
    by (cases rule: TTL_CreateIfAbsent_cases [of key rec w])
      (auto simp: TTL_ops_def TTL_view_def TTL_insert_def)
next
  case (6 key rec w e w')
  then show ?case
    by (cases rule: TTL_CreateIfAbsent_cases [of key rec w]) (auto simp: TTL_ops_def TTL_insert_def)
next
  case (7 w key)
  then show ?case
    by (cases rule: TTL_Get_cases [of key w])
      (auto simp: TTL_ops_def same_sources_expired TTL_Delete_def)
next
  case (8 w key rec)
  then show ?case
    by (cases rule: TTL_CreateIfAbsent_cases [of key rec w])
      (auto simp: TTL_ops_def same_sources_expired
        intro: same_sources_trans [OF same_sources_steps(1) TTL_insert_frame(2)]
          same_sources_trans [OF same_sources_expired TTL_insert_frame(2)])
next
  case (9 key w)
  then show ?case
    by (cases rule: TTL_Get_cases [of key w])
      (auto simp: TTL_ops_def expired_frame ctx_Err_frame TTL_Delete_def)
next
  case (10 key rec w)
  then show ?case
    by (cases rule: TTL_CreateIfAbsent_cases [of key rec w])
      (auto simp: TTL_ops_def expired_frame ctx_Err_frame TTL_insert_frame)
qed simp_all

section \<open>Items leave only when their time has come\<close>

definition never_passed :: "gotime \<Rightarrow> 'a world_scheme \<Rightarrow> bool" where
  "never_passed t w \<longleftrightarrow> (\<forall>n. \<not> passed (w_clock w n) t)"

text \<open>Between \<open>w\<close> and \<open>w'\<close> the clock has been read after the deadline.\<close>

definition passed_between :: "'a world_scheme \<Rightarrow> 'a world_scheme \<Rightarrow> gotime \<Rightarrow> bool" where
  "passed_between w w' t \<longleftrightarrow> (\<exists>n. w_times w \<le> n \<and> n < w_times w' \<and> passed (w_clock w n) t)"

text \<open>An item stays where it is, unless its deadline has passed.\<close>

definition items_kept :: "'a TTLStore_scheme \<Rightarrow> 'a TTLStore_scheme \<Rightarrow> bool" where
  "items_kept w w' \<longleftrightarrow>
     w_clock w' = w_clock w \<and> w_times w \<le> w_times w' \<and>
     (\<forall>k it. ts_items w k = Some it \<longrightarrow> ts_items w' k = Some it \<or> passed_between w w' (it_expires it))"

lemma items_kept_refl [simp]: "items_kept w w"
  by (simp add: items_kept_def)

lemma passed_between_mono:
  "passed_between w v t \<Longrightarrow> w_times v \<le> w_times u \<Longrightarrow> passed_between w u t"
  "passed_between v u t \<Longrightarrow> w_clock v = w_clock w \<Longrightarrow> w_times w \<le> w_times v \<Longrightarrow> passed_between w u t"
  unfolding passed_between_def by (metis less_le_trans, metis order_trans)

lemma items_kept_trans:
  assumes "items_kept w v" and "items_kept v u"
  shows "items_kept w u"
  using assms passed_between_mono unfolding items_kept_def by (metis order_trans)

lemma items_kept_same:
  "w_clock w' = w_clock w \<Longrightarrow> w_times w \<le> w_times w' \<Longrightarrow> ts_items w' = ts_items w \<Longrightarrow> items_kept w w'"
  by (simp add: items_kept_def)

lemma items_kept_steps:
  "items_kept w (snd (ctx_Err w))" "items_kept w (snd (time_Now w))" "items_kept w (snd (rand_Read w))" "items_kept w (emit ev w)"
  "items_kept w (snd (expired it w))" "items_kept w (snd (recordExpiry rec w))"
  by (rule items_kept_same; simp add: ctx_Err_def time_Now_def rand_Read_def emit_def expired_def recordExpiry_def expiry_def)+

text \<open>A new item may take a place that is free, or one whose item has expired, and an item may go that has expired.\<close>

lemma items_kept_update:
  assumes "items_kept w v" and "w_clock u = w_clock v" and "w_times v \<le> w_times u"
    and "\<And>k. k \<noteq> key \<Longrightarrow> ts_items u k = ts_items v k"
    and "\<And>it. ts_items w key = Some it \<Longrightarrow> passed_between w v (it_expires it)"
  shows "items_kept w u"
proof -
  have "ts_items u k = Some it \<or> passed_between w u (it_expires it)" if k: "ts_items w k = Some it" for k it
  proof (cases "k = key")
    case True
    with assms(5) k passed_between_mono(1) [OF _ assms(3)] show ?thesis by blast
  next
    case False
    with assms(1,4) k have "ts_items u k = Some it \<or> passed_between w v (it_expires it)" by (simp add: items_kept_def)
    with passed_between_mono(1) [OF _ assms(3)] show ?thesis by blast
  qed
  with assms(1-3) show ?thesis by (auto simp: items_kept_def)
qed

lemma expired_passed:
  assumes "fst (expired it (snd (ctx_Err w)))"
  shows "passed_between w (snd (expired it (snd (ctx_Err w)))) (it_expires it)"
  using assms by (auto simp: expired_def time_Now_def ctx_Err_def passed_between_def split: if_splits)

lemma TTL_Put_frame:
  "w_clock (TTL_Put key rec w) = w_clock w" "w_times w \<le> w_times (TTL_Put key rec w)"
  "k \<noteq> key \<Longrightarrow> ts_items (TTL_Put key rec w) k = ts_items w k" "ts_next (TTL_Put key rec w) = Suc (ts_next w)"
  "map_option it_id (ts_items (TTL_Put key rec w) key) = Some (ts_next w)"
  by (simp_all add: TTL_Put_def recordExpiry_def expiry_def time_Now_def)

lemma snd_TTL_insert [simp]: "snd (TTL_insert key rec w) = TTL_Put key rec w"
  by (simp add: TTL_insert_def)

lemma items_kept_expired: "items_kept w (snd (expired it (snd (ctx_Err w))))"
  using items_kept_trans items_kept_steps(1,5) by blast

lemma TTL_Get_kept: "items_kept w (snd (TTL_Get key w))"
proof (cases rule: TTL_Get_cases [of key w])
  case (gone it)
  have "items_kept w (TTL_Delete key (snd (expired it (snd (ctx_Err w)))))"
    by (rule items_kept_update [OF items_kept_expired, where key = key])
      (use gone expired_passed in \<open>auto simp: TTL_Delete_def\<close>)
  with gone show ?thesis by simp
qed (simp_all add: items_kept_steps items_kept_expired)

lemma TTL_CreateIfAbsent_kept: "items_kept w (snd (TTL_CreateIfAbsent key rec w))"
proof (cases rule: TTL_CreateIfAbsent_cases [of key rec w])
  case absent
  have "items_kept w (TTL_Put key rec (snd (ctx_Err w)))"
    by (rule items_kept_update [OF items_kept_steps(1), where key = key])
      (use absent in \<open>simp_all add: TTL_Put_frame(1-3)\<close>)
  with absent show ?thesis by simp
next
  case (gone it)
  have "items_kept w (TTL_Put key rec (snd (expired it (snd (ctx_Err w)))))"
    by (rule items_kept_update [OF items_kept_expired, where key = key])
      (use gone expired_passed in \<open>auto simp: TTL_Put_frame(1-3)\<close>)
  with gone show ?thesis by simp
qed (simp_all add: items_kept_steps items_kept_expired)

lemma TTL_Cleanup_kept: "items_kept w (TTL_Cleanup w)"
  by (auto simp: items_kept_def TTL_Cleanup_def time_Now_def passed_between_def)

section \<open>Interleaved clients\<close>

text \<open>
  Any number of clients and the periodic cleanup share the store. A state is the store together with
  the removals that readers have still to do: a reader that finds an expired item gives its lock up,
  and anything may happen before it removes the item. \<^verbatim>\<open>Put\<close> and \<^verbatim>\<open>Delete\<close>, which overwrite whatever there is,
  are called for keys of the set \<open>K\<close> only.
\<close>

inductive store_step :: "bytes set \<Rightarrow> TTLStore \<times> (bytes \<times> item) list \<Rightarrow> TTLStore \<times> (bytes \<times> item) list \<Rightarrow> bool"
  for K :: "bytes set"
where
  step_lookup: "TTL_lookup key w = ((r, None), w') \<Longrightarrow> store_step K (w, ps) (w', ps)"
| step_doomed: "TTL_lookup key w = ((r, Some it), w') \<Longrightarrow> store_step K (w, ps) (w', (key, it) # ps)"
| step_evict: "(key, it) \<in> set ps \<Longrightarrow> store_step K (w, ps) (TTL_evict key it w, remove1 (key, it) ps)"
| step_create: "store_step K (w, ps) (snd (TTL_CreateIfAbsent key rec w), ps)"
| step_cleanup: "store_step K (w, ps) (TTL_Cleanup w, ps)"
| step_put: "key \<in> K \<Longrightarrow> store_step K (w, ps) (TTL_Put key rec w, ps)"
| step_delete: "key \<in> K \<Longrightarrow> store_step K (w, ps) (TTL_Delete key w, ps)"
| step_time: "store_step K (w, ps) (snd (time_Now w), ps)"

text \<open>Identities are not used twice, so an item that is about to be removed is the one under its key or gone.\<close>

definition doomed_ok :: "TTLStore \<Rightarrow> (bytes \<times> item) list \<Rightarrow> bool" where
  "doomed_ok w ps \<longleftrightarrow>
     (\<forall>k it. ts_items w k = Some it \<longrightarrow> it_id it < ts_next w) \<and>
     (\<forall>k it. (k, it) \<in> set ps \<longrightarrow> it_id it < ts_next w \<and> (\<forall>cur. ts_items w k = Some cur \<and> it_id cur = it_id it \<longrightarrow> cur = it))"

lemma doomed_ok_sub:
  assumes "doomed_ok w ps" and "ts_items w' \<subseteq>\<^sub>m ts_items w" and "ts_next w' = ts_next w" and "set ps' \<subseteq> set ps"
  shows "doomed_ok w' ps'"
proof -
  have "ts_items w k = Some it" if "ts_items w' k = Some it" for k it
    using assms(2) that by (metis domI map_le_def)
  then show ?thesis using assms(1,4) unfolding doomed_ok_def assms(3) subset_iff by blast
qed

lemma frame_items:
  "ts_items (snd (ctx_Err w)) = ts_items w" "ts_next (snd (ctx_Err w)) = ts_next w"
  "ts_next (snd (time_Now w)) = ts_next w" "ts_next (snd (expired it w)) = ts_next w"
  by (simp_all add: ctx_Err_def time_Now_def expired_def)

lemma doomed_ok_frame:
  "doomed_ok w ps \<Longrightarrow> ts_items w' = ts_items w \<Longrightarrow> ts_next w' = ts_next w \<Longrightarrow> doomed_ok w' ps"
  by (simp add: doomed_ok_def)

lemma doomed_okD: "doomed_ok w ps \<Longrightarrow> (k, it) \<in> set ps \<Longrightarrow> ts_items w k = Some cur \<Longrightarrow> it_id cur = it_id it \<Longrightarrow> cur = it"
  by (simp add: doomed_ok_def del: split_paired_All)

lemma doomed_ok_Put: "doomed_ok w ps \<Longrightarrow> doomed_ok (TTL_Put key rec w) ps"
proof -
  assume ok: "doomed_ok w ps"
  have key: "it_id it = ts_next w" if "ts_items (TTL_Put key rec w) key = Some it" for it
    using TTL_Put_frame(5) [of key rec w] that by simp
  have other: "ts_items (TTL_Put key rec w) k = ts_items w k" if "k \<noteq> key" for k using TTL_Put_frame(3) that .
  show ?thesis
    unfolding doomed_ok_def TTL_Put_frame(4)
  proof (intro conjI allI impI)
    fix k it assume it: "ts_items (TTL_Put key rec w) k = Some it"
    show "it_id it < Suc (ts_next w)"
    proof (cases "k = key")
      case False
      with it other ok have "it_id it < ts_next w" by (simp add: doomed_ok_def)
      then show ?thesis by simp
    qed (use it key in simp)
  next
    fix k it assume p: "(k, it) \<in> set ps"
    with ok have lt: "it_id it < ts_next w" by (simp add: doomed_ok_def)
    then show "it_id it < Suc (ts_next w)" by simp
    fix cur assume cur: "ts_items (TTL_Put key rec w) k = Some cur \<and> it_id cur = it_id it"
    have "k \<noteq> key"
    proof
      assume "k = key"
      then have "it_id cur = ts_next w" using cur key by blast
      with cur lt show False by linarith
    qed
    then have "ts_items w k = Some cur" using cur other by metis
    from doomed_okD [OF ok p this] cur show "cur = it" by blast
  qed
qed

lemma store_step_ok:
  assumes "store_step K (w, ps) (w', ps')" and "doomed_ok w ps"
  shows "doomed_ok w' ps'"
  using assms(1)
proof cases
  case (step_lookup key r)
  then show ?thesis
    by (cases rule: TTL_lookup_cases [of key w])
      (auto simp: frame_items expired_frame intro: doomed_ok_frame [OF assms(2)])
next
  case (step_doomed key r it)
  then have "ts_items w key = Some it" "w' = snd (expired it (snd (ctx_Err w)))"
    by (cases rule: TTL_lookup_cases [of key w]; auto)+
  with step_doomed assms(2) show ?thesis by (auto simp: doomed_ok_def frame_items expired_frame)
next
  case (step_evict key it)
  then show ?thesis
    by (auto simp: TTL_evict_def map_le_def intro!: doomed_ok_sub [OF assms(2)] dest: set_remove1_subset [THEN subsetD])
next
  case (step_create key rec)
  then show ?thesis
    by (cases rule: TTL_CreateIfAbsent_cases [of key rec w])
      (auto simp: frame_items expired_frame intro!: doomed_ok_Put doomed_ok_frame [OF assms(2)])
next
  case step_cleanup
  then show ?thesis
    by (auto simp: TTL_Cleanup_def time_Now_def map_le_def split: option.splits if_splits intro!: doomed_ok_sub [OF assms(2)])
next
  case (step_put key rec)
  with doomed_ok_Put [OF assms(2)] show ?thesis by simp
next
  case (step_delete key)
  then show ?thesis by (auto simp: TTL_Delete_def map_le_def intro!: doomed_ok_sub [OF assms(2)])
next
  case step_time
  then show ?thesis by (auto simp: frame_items intro: doomed_ok_frame [OF assms(2)])
qed

lemma doomed_ok_new: "doomed_ok (NewTTLStore ttl v) []"
  by (simp add: doomed_ok_def NewTTLStore_def)

lemma reachable_ok: "(store_step K)\<^sup>*\<^sup>* (NewTTLStore ttl v, []) (w, ps) \<Longrightarrow> doomed_ok w ps"
  by (induction rule: rtranclp_induct2) (auto simp: doomed_ok_new dest: store_step_ok)

text \<open>What one step does to time, to the removals that are due, and to an item that nobody is asked to overwrite.\<close>

lemma lookup_kept: "TTL_lookup key w = (x, w') \<Longrightarrow> items_kept w w'"
  by (cases rule: TTL_lookup_cases [of key w]) (auto simp: items_kept_steps items_kept_expired)

lemma store_step_progress:
  assumes "store_step K (w, ps) (w', ps')"
  shows "w_clock w' = w_clock w" "w_times w \<le> w_times w'"
    "(k, d) \<in> set ps' \<Longrightarrow> (k, d) \<in> set ps \<or> passed_between w w' (it_expires d)"
proof -
  have "w_clock w' = w_clock w \<and> w_times w \<le> w_times w' \<and>
      ((k, d) \<in> set ps' \<longrightarrow> (k, d) \<in> set ps \<or> passed_between w w' (it_expires d))"
    using assms
  proof cases
    case (step_doomed key r it)
    have "w' = snd (expired it (snd (ctx_Err w))) \<and> fst (expired it (snd (ctx_Err w)))"
      by (cases rule: TTL_lookup_cases [of key w]) (use step_doomed in auto)
    with expired_passed [of it w] lookup_kept [OF step_doomed(2)] step_doomed(1) show ?thesis by (auto simp: items_kept_def)
  next
    case (step_evict key it)
    then show ?thesis by (auto simp: TTL_evict_def dest: set_remove1_subset [THEN subsetD])
  next
    case (step_create key rec)
    then show ?thesis using TTL_CreateIfAbsent_kept [of w key rec] by (simp add: items_kept_def)
  next
    case (step_lookup key r)
    then show ?thesis using lookup_kept [OF step_lookup(2)] by (simp add: items_kept_def)
  qed (auto simp: TTL_Cleanup_def time_Now_def TTL_Put_frame TTL_Delete_def)
  then show "w_clock w' = w_clock w" "w_times w \<le> w_times w'"
    "(k, d) \<in> set ps' \<Longrightarrow> (k, d) \<in> set ps \<or> passed_between w w' (it_expires d)" by blast+
qed

lemma store_step_keeps:
  assumes "store_step K (w, ps) (w', ps')" and "doomed_ok w ps" and "key \<notin> K" and "ts_items w key = Some it"
  shows "ts_items w' key = Some it \<or> passed_between w w' (it_expires it) \<or> (key, it) \<in> set ps"
  using assms(1)
proof cases
  case (step_evict key' d)
  show ?thesis
  proof (cases "ts_items w' key = Some it")
    case False
    then have "key' = key" "it_id it = it_id d"
      using step_evict(1) assms(4) by (auto simp: TTL_evict_def split: if_splits)
    with doomed_okD [OF assms(2)] step_evict(3) assms(4) show ?thesis by metis
  qed simp
next
  case (step_lookup key' r)
  then show ?thesis using lookup_kept [OF step_lookup(2)] assms(4) by (auto simp: items_kept_def)
next
  case (step_doomed key' r d)
  then show ?thesis using lookup_kept [OF step_doomed(2)] assms(4) by (auto simp: items_kept_def)
next
  case (step_create key' rec)
  then show ?thesis using TTL_CreateIfAbsent_kept [of w key' rec] assms(4) by (auto simp: items_kept_def)
next
  case step_cleanup
  then show ?thesis using TTL_Cleanup_kept [of w] assms(4) by (auto simp: items_kept_def)
next
  case (step_put key' rec)
  with assms(3) have "key \<noteq> key'" by auto
  with step_put(1) assms(4) show ?thesis by (simp add: TTL_Put_frame(3))
next
  case (step_delete key')
  with assms(3,4) show ?thesis by (auto simp: TTL_Delete_def)
next
  case step_time
  with assms(4) show ?thesis by simp
qed

lemma store_history:
  assumes "(store_step K)\<^sup>*\<^sup>* (w, ps) (w', ps')" and "doomed_ok w ps" and "key \<notin> K" and "ts_items w key = Some it" and "(key, it) \<notin> set ps"
  shows "doomed_ok w' ps' \<and> w_clock w' = w_clock w \<and> w_times w \<le> w_times w' \<and>
    ((key, it) \<in> set ps' \<longrightarrow> passed_between w w' (it_expires it)) \<and>
    (ts_items w' key = Some it \<or> passed_between w w' (it_expires it))"
  using assms(1)
proof (induction rule: rtranclp_induct2)
  case (step v qs u rs)
  note IH = step.IH and next_step = step.hyps(2)
  have ok: "doomed_ok v qs" "w_clock v = w_clock w" "w_times w \<le> w_times v" using IH by blast+
  note p = store_step_progress [OF next_step]
  have up: "passed_between w v t \<Longrightarrow> passed_between w u t" "passed_between v u t \<Longrightarrow> passed_between w u t" for t
    using passed_between_mono ok(2,3) p(2) by blast+
  have "passed_between w u (it_expires it)" if "(key, it) \<in> set rs" using p(3) [OF that] IH up by blast
  moreover have "ts_items u key = Some it \<or> passed_between w u (it_expires it)"
    using IH store_step_keeps [OF next_step ok(1) assms(3)] up by blast
  ultimately show ?case using store_step_ok [OF next_step ok(1)] p(1,2) ok(2,3) by simp
qed (use assms(2,4,5) in simp)

section \<open>Properties\<close>

text \<open>
  C35. First writer wins, for every interleaving of lookups, the removals that follow them later, creations and
  cleanups, and of \<^verbatim>\<open>Put\<close> and \<^verbatim>\<open>Delete\<close> of other keys: an item that a reader has not already found
  expired stays under its key until the clock is read after its deadline. In particular a reader
  that found an older item expired does not remove the one that has replaced it.
\<close>

theorem first_writer_wins:
  assumes "(store_step UNIV)\<^sup>*\<^sup>* (NewTTLStore ttl v, []) (w, ps)" and "(store_step K)\<^sup>*\<^sup>* (w, ps) (w', ps')"
    and "key \<notin> K" and "ts_items w key = Some it" and "(key, it) \<notin> set ps"
  shows "ts_items w' key = Some it \<or>
    (\<exists>n. w_times w \<le> n \<and> n < w_times w' \<and> passed (w_clock w n) (it_expires it))"
  using store_history [OF assms(2) reachable_ok [OF assms(1)] assms(3-5)] by (simp add: passed_between_def)

definition sample_record :: Record where
  "sample_record = \<lparr>rec_Original = ''ab'', rec_Masked = ''a*'', rec_Findings = [], rec_TransformMap = Map.empty,
     rec_TokenNonce = [], rec_CreatedAt = None, rec_ExpiresAt = None, rec_PolicyVersion = ''v1''\<rparr>"

definition sample_item :: item where
  "sample_item = \<lparr>it_id = 0, it_rec = sample_record, it_expires = None\<rparr>"

lemma sample_item_fields [simp]: "it_rec sample_item = sample_record" "it_expires sample_item = None"
  by (simp_all add: sample_item_def)

definition sample_store :: TTLStore where
  "sample_store = \<lparr>w_ctx = (\<lambda>_. None), w_polls = 0, w_clock = (\<lambda>n. int n), w_times = 0,
     w_rand = (\<lambda>_. Some ''0123456789abcdef''), w_draws = 0, w_reqid = [], w_log = [],
     ts_items = [''k'' \<mapsto> sample_item], ts_ttl = 0, ts_next = 1\<rparr>"

text \<open>
  A store whose items live for one tick. A reader finds the only item expired; before it removes it
  another client replaces it, and the late removal leaves the new item alone.
\<close>

definition race_start :: TTLStore where
  "race_start = TTL_Put ''k'' sample_record (NewTTLStore 1 (world.truncate sample_store))"

definition race_replaced :: TTLStore where
  "race_replaced = snd (TTL_CreateIfAbsent ''k'' sample_record (snd (TTL_lookup ''k'' race_start)))"

definition old_item :: item where "old_item = \<lparr>it_id = 0, it_rec = sample_record, it_expires = Some 1\<rparr>"
definition new_item :: item where "new_item = \<lparr>it_id = 1, it_rec = sample_record, it_expires = Some 4\<rparr>"

lemma race_found: "TTL_lookup ''k'' race_start = ((Inr (None, False), Some old_item), snd (TTL_lookup ''k'' race_start))"
  by (simp add: race_start_def NewTTLStore_def world.truncate_def sample_store_def TTL_Put_def recordExpiry_def expiry_def time_Now_def
      TTL_lookup_def ctx_Err_def expired_def passed_def old_item_def sample_record_def)

lemma race_items: "ts_items race_replaced ''k'' = Some new_item" "w_times race_replaced = 4" "w_clock race_replaced = int"
  by (simp_all add: race_replaced_def race_start_def NewTTLStore_def world.truncate_def sample_store_def TTL_Put_def recordExpiry_def
      expiry_def time_Now_def TTL_lookup_def TTL_CreateIfAbsent_def TTL_insert_def ctx_Err_def expired_def passed_def new_item_def
      sample_record_def)

theorem first_writer_wins_witness:
  "ts_items (TTL_evict ''k'' old_item race_replaced) ''k'' = Some new_item \<and> old_item \<noteq> new_item"
proof -
  let ?s = "\<lambda>K. store_step K :: TTLStore \<times> (bytes \<times> item) list \<Rightarrow> _"
  have "?s UNIV (NewTTLStore 1 (world.truncate sample_store), []) (race_start, [])"
    unfolding race_start_def by (rule step_put) simp
  moreover have "?s UNIV (race_start, []) (snd (TTL_lookup ''k'' race_start), [(''k'', old_item)])"
    by (rule step_doomed [OF race_found])
  moreover have "?s UNIV (snd (TTL_lookup ''k'' race_start), [(''k'', old_item)]) (race_replaced, [(''k'', old_item)])"
    unfolding race_replaced_def by (rule step_create)
  ultimately have reach: "(?s UNIV)\<^sup>*\<^sup>* (NewTTLStore 1 (world.truncate sample_store), []) (race_replaced, [(''k'', old_item)])"
    by (meson converse_rtranclp_into_rtranclp r_into_rtranclp)
  have "?s {} (race_replaced, [(''k'', old_item)]) (TTL_evict ''k'' old_item race_replaced, remove1 (''k'', old_item) [(''k'', old_item)])"
    by (rule step_evict) simp
  then have later: "(?s {})\<^sup>*\<^sup>* (race_replaced, [(''k'', old_item)]) (TTL_evict ''k'' old_item race_replaced, [])" by auto
  have ne: "old_item \<noteq> new_item" by (simp add: old_item_def new_item_def)
  have "w_times (TTL_evict ''k'' old_item race_replaced) = 4" by (simp add: TTL_evict_def race_items)
  with first_writer_wins [OF reach later _ race_items(1)] ne show ?thesis by (auto simp: race_items(2))
qed

text \<open>
  Racing creators agree: every creator gets back a record, it is the one that a later read returns, and a creator
  that comes second gets the record of the first.
\<close>

theorem creators_agree:
  assumes "TTL_CreateIfAbsent key rec w = (Inr (r, c), w')"
  shows "\<exists>a. r = Some a \<and> TTL_view w' key = Some a \<and> (c \<longrightarrow> a = rec) \<and>
    (\<forall>rec2 b w''. TTL_CreateIfAbsent key rec2 w' = (Inr (Some b, False), w'') \<longrightarrow> b = a) \<and>
    (\<forall>b w''. TTL_Get key w' = (Inr (Some b, True), w'') \<longrightarrow> b = a)"
proof -
  have ops: "so_CreateIfAbsent TTL_ops = TTL_CreateIfAbsent" "so_Get TTL_ops = TTL_Get"
    by (simp_all add: TTL_ops_def)
  obtain a where a: "r = Some a" "TTL_view w' key = Some a"
    using ttl.create_agrees [unfolded ops, OF assms] by blast
  moreover have "a = rec" if c using ttl.create_new [unfolded ops, of key rec w r w'] assms that a by simp
  moreover have "b = a" if "TTL_CreateIfAbsent key rec2 w' = (Inr (Some b, False), w'')" for rec2 b w''
    using ttl.second_create_loses [unfolded ops] assms a(1) that by blast
  moreover have "b = a" if "TTL_Get key w' = (Inr (Some b, True), w'')" for b w''
    using ttl.get_agrees [unfolded ops] assms a(1) that by blast
  ultimately show ?thesis by blast
qed

theorem creators_agree_witness:
  "\<exists>a. TTL_view (snd (TTL_CreateIfAbsent ''k2'' sample_record sample_store)) ''k2'' = Some a \<and> a = sample_record"
proof -
  have "TTL_CreateIfAbsent ''k2'' sample_record sample_store =
      (Inr (Some sample_record, True), snd (TTL_CreateIfAbsent ''k2'' sample_record sample_store))"
    by (simp add: TTL_CreateIfAbsent_def ctx_Err_def sample_store_def TTL_insert_def)
  from creators_agree [OF this] show ?thesis by auto
qed

text \<open>
  C36. An expired record is never served: a read that returns a record read the clock before its deadline, and a
  cleanup leaves no record whose deadline has passed and removes no other.
\<close>

theorem expired_never_served:
  "(TTL_Get key w = (Inr (Some rec, True), w') \<longrightarrow>
     (\<exists>it. ts_items w key = Some it \<and> it_rec it = rec \<and> \<not> passed (w_clock w (w_times w)) (it_expires it))) \<and>
   (TTL_Cleanup w = v \<longrightarrow>
     (ts_items v key = Some it \<longleftrightarrow> ts_items w key = Some it \<and> \<not> passed (w_clock w (w_times w)) (it_expires it)))"
proof -
  have "\<exists>it. ts_items w key = Some it \<and> it_rec it = rec \<and> \<not> passed (w_clock w (w_times w)) (it_expires it)"
    if "TTL_Get key w = (Inr (Some rec, True), w')"
    using that
    by (cases rule: TTL_Get_cases [of key w])
      (auto simp: expired_def time_Now_def ctx_Err_def passed_def split: if_splits)
  then show ?thesis by (auto simp: TTL_Cleanup_def time_Now_def split: option.splits if_splits)
qed

theorem expired_never_served_witness:
  "ts_items (TTL_Cleanup sample_store) ''k'' = Some sample_item"
  using expired_never_served [THEN conjunct2, rule_format, OF refl, of sample_store "''k''" sample_item]
  by (simp add: sample_store_def passed_def)

end
