(* ===== verification/Tokens.thy ===== *)
theory Tokens
  imports Regex World
begin

text \<open>
  \<^verbatim>\<open>internal/pii/engine/tokens.go\<close>: the table of opaque markers of one text, their restoration, and
  the blanking of markers before a text is scanned again. \<^verbatim>\<open>hmac\<close> with SHA-256 is the parameter
  \<open>hmac\<close> (key, message).
\<close>

section \<open>Markers\<close>

definition markerPattern :: regex where
  "markerPattern =
     Cat [Lit [0x3C] False,
       Cap 1 (Plus (Cls False False [ClsRange 0x41 0x5A, ClsRange 0x30 0x39, ClsRange 0x5F 0x5F])),
       Lit [0x5F] False,
       Cap 2 (Rep 32 (Some 32) (Cls False False [ClsRange 0x61 0x66, ClsRange 0x30 0x39])),
       Lit [0x5F] False,
       Cap 3 (Plus (Cls False False [ClsRange 0x30 0x39])),
       Lit [0x3E] False]"

definition marker_spans :: "bytes \<Rightarrow> (nat \<times> nat) list" where
  "marker_spans s = map (\<lambda>m. (rm_start m, rm_end m)) (regexp_FindAll markerPattern s)"

section \<open>The token table\<close>

type_synonym tokenValue = "PIIType \<times> bytes"

record tokenTable =
  tt_nonce :: bytes
  tt_next :: nat
  tt_reserved :: "bytes list"
  tt_values :: "tokenValue \<rightharpoonup> bytes"

definition newTokenTable :: "bytes \<Rightarrow> bytes \<Rightarrow> tokenTable" where
  "newTokenTable input nonce =
     \<lparr>tt_nonce = nonce, tt_next = 0,
      tt_reserved = (if nonce \<noteq> [] then map (\<lambda>(a, b). gslice input a b) (marker_spans input) else []),
      tt_values = Map.empty\<rparr>"

text \<open>\<^verbatim>\<open>binary.BigEndian.PutUint64\<close>\<close>

definition be64 :: "nat \<Rightarrow> bytes" where
  "be64 n = map (\<lambda>k. char_of (n div 256 ^ (7 - k) mod 256)) [0..<8]"

definition make_token :: "(bytes \<Rightarrow> bytes \<Rightarrow> bytes) \<Rightarrow> bytes \<Rightarrow> PIIType \<Rightarrow> bytes \<Rightarrow> nat \<Rightarrow> bytes" where
  "make_token hmac nonce typ value n =
     (let tag = hmac nonce (typ @ [char_of (0::nat)] @ value @ be64 n) in
      ''<'' @ strings_ToUpper typ @ ''_'' @ hex_encode (take 16 tag) @ ''_'' @ decimal n @ ''>'')"

text \<open>The number at the end of a token determines it.\<close>

lemma underscore_not_decimal: "CHR ''_'' \<notin> set (decimal n)"
proof -
  have "digit_char d \<noteq> CHR ''_''" if "d < 10" for d
    using digit_char_byte [OF that] that by (auto simp: byte_def)
  then show ?thesis using set_decimal [of n] by fastforce
qed

lemma token_number_inject:
  assumes "a @ ''_'' @ decimal m @ ''>'' = b @ ''_'' @ decimal n @ ''>''"
  shows "m = n"
proof -
  have tail: "takeWhile (\<lambda>c. c \<noteq> CHR ''_'') (rev (x @ ''_'' @ decimal k)) = rev (decimal k)" for x k
    using underscore_not_decimal [of k] by (auto simp: takeWhile_append)
  have "rev (a @ ''_'' @ decimal m) = rev (b @ ''_'' @ decimal n)"
    using assms by (metis append.assoc append_same_eq)
  then have "decimal m = decimal n" using tail by (metis rev_rev_ident)
  then show ?thesis by (simp add: decimal_inject)
qed

lemma make_token_inject: "make_token hmac nonce typ value m = make_token hmac nonce typ' value' n \<Longrightarrow> m = n"
  unfolding make_token_def Let_def
  by (rule token_number_inject [of "''<'' @ strings_ToUpper typ @ ''_'' @ hex_encode (take 16 (hmac nonce (typ @ [char_of (0::nat)] @ value @ be64 m)))" _
        "''<'' @ strings_ToUpper typ' @ ''_'' @ hex_encode (take 16 (hmac nonce (typ' @ [char_of (0::nat)] @ value' @ be64 n)))"])
    simp

text \<open>
  The loop that skips reserved tokens. It ends because every round asks for a token with a new
  number and only finitely many are reserved.
\<close>

function token_loop ::
  "(bytes \<Rightarrow> bytes \<Rightarrow> bytes) \<Rightarrow> PIIType \<Rightarrow> bytes \<Rightarrow> tokenTable \<Rightarrow> bytes \<times> tokenTable"
where
  "token_loop hmac typ value t =
     (let token = make_token hmac (tt_nonce t) typ value (tt_next t); t = t\<lparr>tt_next := tt_next t + 1\<rparr> in
      if token \<in> set (tt_reserved t) then token_loop hmac typ value t
      else (token, t\<lparr>tt_reserved := token # tt_reserved t, tt_values := (tt_values t)((typ, value) \<mapsto> token)\<rparr>))"
  by pat_completeness auto
termination
proof (relation "measure (\<lambda>(hmac, typ, value, t).
    card {n. tt_next t \<le> n \<and> make_token hmac (tt_nonce t) typ value n \<in> set (tt_reserved t)})", goal_cases)
  case (2 hmac ty v t tok t')
  let ?mk = "make_token hmac (tt_nonce t) ty v"
  let ?S = "{n. tt_next t \<le> n \<and> ?mk n \<in> set (tt_reserved t)}"
  have "inj ?mk" by (meson injI make_token_inject)
  then have "finite (?mk -` set (tt_reserved t))" by (simp add: finite_vimageI)
  then have fin: "finite ?S" by (rule rev_finite_subset) auto
  have "tt_next t \<in> ?S" using 2 by simp
  then have "{n. Suc (tt_next t) \<le> n \<and> ?mk n \<in> set (tt_reserved t)} \<subset> ?S"
    by (intro psubsetI) (auto, metis (no_types, lifting) mem_Collect_eq not_less_eq_eq order_refl)
  from psubset_card_mono [OF fin this] 2 show ?case by simp
qed simp

declare token_loop.simps [simp del]

definition token ::
  "(bytes \<Rightarrow> bytes \<Rightarrow> bytes) \<Rightarrow> PIIType \<Rightarrow> bytes \<Rightarrow> tokenTable \<Rightarrow> bytes \<times> tokenTable"
where
  "token hmac typ value t =
     (case tt_values t (typ, value) of Some tk \<Rightarrow> (tk, t) | None \<Rightarrow> token_loop hmac typ value t)"

section \<open>Restoring\<close>

definition tokenBoundary :: "bytes \<Rightarrow> int \<Rightarrow> bool" where
  "tokenBoundary text i =
     (if i < 0 \<or> i \<ge> int (length text) then True
      else
        (let k = nat i;
             r = (if \<not> rune_start (text ! k) then fst (decode_last_rune (take (k + 1) text))
                  else fst (decode_rune (drop k text))) in
         r \<noteq> 0x3C \<and> r \<noteq> 0x3E \<and> r \<noteq> 0x5F \<and> \<not> unicode_IsLetter r \<and> \<not> unicode_IsDigit r \<and> \<not> unicode_IsMark r))"

fun restore_loop :: "bytes \<Rightarrow> (bytes \<rightharpoonup> bytes) \<Rightarrow> nat \<Rightarrow> bytes \<Rightarrow> (nat \<times> nat) list \<Rightarrow> nat \<times> bytes" where
  "restore_loop text mapping cursor out [] = (cursor, out)"
| "restore_loop text mapping cursor out ((a, b) # spans) =
     (case mapping (gslice text a b) of
        None \<Rightarrow> restore_loop text mapping cursor out spans
      | Some value \<Rightarrow>
          if \<not> tokenBoundary text (int a - 1) \<or> \<not> tokenBoundary text (int b)
          then restore_loop text mapping cursor out spans
          else restore_loop text mapping b (out @ gslice text cursor a @ value) spans)"

definition restoreTokens :: "bytes \<Rightarrow> (bytes \<rightharpoonup> bytes) \<Rightarrow> bytes" where
  "restoreTokens text mapping =
     (case restore_loop text mapping 0 [] (marker_spans text) of
        (cursor, out) \<Rightarrow> if cursor = 0 then text else out @ drop cursor text)"

section \<open>Hiding\<close>

definition hide_span :: "bytes \<Rightarrow> nat \<times> nat \<Rightarrow> bytes" where
  "hide_span scan ab = (case ab of (a, b) \<Rightarrow> take a scan @ replicate (b - a) (CHR '' '') @ drop b scan)"

definition hideMarkerSpans :: "bytes \<Rightarrow> (nat \<times> nat) list \<Rightarrow> bytes" where
  "hideMarkerSpans text spans = (if spans = [] then text else foldl hide_span text spans)"

definition hideMarkers :: "bytes \<Rightarrow> bytes" where
  "hideMarkers text = hideMarkerSpans text (marker_spans text)"

section \<open>Facts about tokens\<close>

text \<open>
  The invariant of a table: the issued tokens are reserved, none of them is one of the strings
  \<open>R\<close> reserved at the start, and different values have different tokens.
\<close>

definition table_ok :: "bytes set \<Rightarrow> tokenTable \<Rightarrow> bool" where
  "table_ok R t \<longleftrightarrow>
     R \<subseteq> set (tt_reserved t) \<and> (\<forall>k tk. tt_values t k = Some tk \<longrightarrow> tk \<in> set (tt_reserved t) - R) \<and>
     inj_on (tt_values t) (dom (tt_values t))"

lemma newTokenTable_ok: "table_ok (set (tt_reserved (newTokenTable input nonce))) (newTokenTable input nonce)"
  by (simp add: table_ok_def newTokenTable_def)

lemma token_loop_spec:
  "token_loop hmac typ v t = (tk, t') \<Longrightarrow>
   tk \<notin> set (tt_reserved t) \<and> tt_reserved t' = tk # tt_reserved t \<and>
   tt_values t' = (tt_values t)((typ, v) \<mapsto> tk) \<and> tt_nonce t' = tt_nonce t \<and>
   (\<exists>n. tk = make_token hmac (tt_nonce t) typ v n \<and> tt_next t \<le> n \<and> tt_next t' = Suc n)"
proof (induction hmac "typ" v t rule: token_loop.induct)
  case (1 hmac ty v t)
  let ?tk = "make_token hmac (tt_nonce t) ty v (tt_next t)" and ?t = "t\<lparr>tt_next := tt_next t + 1\<rparr>"
  show ?case
  proof (cases "?tk \<in> set (tt_reserved t)")
    case True
    with 1(2) have "token_loop hmac ty v ?t = (tk, t')" by (subst (asm) token_loop.simps) (simp add: Let_def)
    with 1(1) [OF refl refl] True show ?thesis by auto
  next
    case False
    with 1(2) show ?thesis by (subst (asm) token_loop.simps) (auto simp: Let_def)
  qed
qed

lemma token_spec:
  assumes "token hmac typ v t = (tk, t')" and "table_ok R t"
  shows "table_ok R t' \<and> tt_values t' (typ, v) = Some tk \<and> tt_values t \<subseteq>\<^sub>m tt_values t' \<and>
    tt_nonce t' = tt_nonce t \<and> tk \<notin> R \<and> dom (tt_values t') = insert (typ, v) (dom (tt_values t))"
proof (cases "tt_values t (typ, v)")
  case None
  with assms(1) have "token_loop hmac typ v t = (tk, t')" by (simp add: token_def)
  note l = token_loop_spec [OF this]
  have fresh: "tk \<notin> ran (tt_values t)" "tk \<notin> R" using l assms(2) by (auto simp: table_ok_def ran_def)
  have "inj_on (tt_values t') (dom (tt_values t'))"
    using l assms(2) fresh(1) None unfolding table_ok_def inj_on_def ran_def by (auto split: if_splits)
  with l assms(2) fresh None show ?thesis by (auto simp: table_ok_def map_le_def)
next
  case (Some x)
  with assms show ?thesis by (auto simp: token_def table_ok_def)
qed

section \<open>Facts about hidden markers\<close>

lemma length_hide_span: "snd ab \<le> length s \<Longrightarrow> fst ab \<le> snd ab \<Longrightarrow> length (hide_span s ab) = length s"
  by (simp add: hide_span_def case_prod_unfold)

lemma nth_hide_span:
  assumes "b \<le> length s" and "a \<le> b" and "i < length s"
  shows "hide_span s (a, b) ! i = (if a \<le> i \<and> i < b then CHR '' '' else s ! i)"
  using assms by (auto simp: hide_span_def nth_append)

lemma hide_spans:
  assumes "\<forall>ab \<in> set spans. fst ab \<le> snd ab \<and> snd ab \<le> length s"
  shows "length (foldl hide_span s spans) = length s \<and>
    (\<forall>i < length s. foldl hide_span s spans ! i =
       (if \<exists>ab \<in> set spans. fst ab \<le> i \<and> i < snd ab then CHR '' '' else s ! i))"
  using assms
proof (induction spans arbitrary: s)
  case (Cons ab spans)
  have l: "length (hide_span s ab) = length s" using Cons.prems length_hide_span by simp
  with Cons.prems Cons.IH [of "hide_span s ab"]
  have "length (foldl hide_span s (ab # spans)) = length s \<and> (\<forall>i < length s. foldl hide_span s (ab # spans) ! i =
      (if \<exists>ab \<in> set spans. fst ab \<le> i \<and> i < snd ab then CHR '' '' else hide_span s ab ! i))"
    by simp
  moreover have "hide_span s ab ! i = (if fst ab \<le> i \<and> i < snd ab then CHR '' '' else s ! i)" if "i < length s" for i
    using nth_hide_span [of "snd ab" s "fst ab" i] that Cons.prems by simp
  ultimately show ?case by auto
qed simp

lemma marker_spans_bounds: "ab \<in> set (marker_spans s) \<Longrightarrow> fst ab \<le> snd ab \<and> snd ab \<le> length s"
proof -
  assume "ab \<in> set (marker_spans s)"
  then obtain m where m: "m \<in> set (regexp_FindAll markerPattern s)" "ab = (rm_start m, rm_end m)"
    by (auto simp: marker_spans_def)
  have "rm_end m \<le> length s"
  proof (rule ccontr)
    assume "\<not> rm_end m \<le> length s"
    moreover have "advances s (rm_start m, Map.empty) (rm_end m, rm_groups m)"
      using match_at_advances(2) [OF FindAll_match_at [OF m(1)]] by simp
    ultimately have "length s < rm_start m" by (auto simp: advances_def)
    then have "rm s markerPattern (rm_start m, Map.empty) = []"
      by (simp add: markerPattern_def step_rune_def)
    then show False using FindAll_match_at [OF m(1)] by (simp add: match_at_def)
  qed
  with m FindAll_le show ?thesis by simp
qed

lemma hideMarkers_nth:
  "length (hideMarkers s) = length s \<and>
   (\<forall>i < length s. hideMarkers s ! i =
      (if \<exists>ab \<in> set (marker_spans s). fst ab \<le> i \<and> i < snd ab then CHR '' '' else s ! i))"
  using hide_spans [of "marker_spans s" s] marker_spans_bounds
  by (auto simp: hideMarkers_def hideMarkerSpans_def)

lemma marker_spans_ordered: "sorted_wrt (\<lambda>x y. snd x \<le> fst y) (marker_spans s)"
  using FindAll_ordered [of markerPattern s] by (simp add: marker_spans_def sorted_wrt_map)

end
