(* ===== verification/Markers.thy ===== *)
theory Markers
  imports Tokens
begin

text \<open>
  What the marker expression matches, and the round trip of \<^verbatim>\<open>restoreTokens\<close>: markers that stand
  apart from letters and digits are replaced by the saved values, all other text stays.
\<close>

section \<open>ASCII steps\<close>

lemma decode_ascii_iff: "fst (decode_rune (b # t)) < 0x80 \<longleftrightarrow> byte b < 0x80"
proof
  assume "byte b < 0x80"
  then have "decode_rune (b # t) = (byte b, 1)"
    using ascii_encoding [of b] decode_encode [of "byte b" t] by simp
  then show "fst (decode_rune (b # t)) < 0x80" using \<open>byte b < 0x80\<close> by simp
next
  assume r: "fst (decode_rune (b # t)) < 0x80"
  then have "decode_rune (b # t) \<noteq> (rune_error, 1)" by (auto simp: rune_error_def)
  then have "b # t = encode_rune (fst (decode_rune (b # t))) @ drop (snd (decode_rune (b # t))) (b # t)"
    using decode_rune_sound [of "b # t" "fst (decode_rune (b # t))" "snd (decode_rune (b # t))"]
    by (metis list.distinct(1) prod.collapse)
  then have "b = char_of (fst (decode_rune (b # t)))"
    using encode_rune_ascii [OF r] by (metis append_Cons list.inject)
  moreover have "byte (char_of (fst (decode_rune (b # t)))) = fst (decode_rune (b # t))" using r by simp
  ultimately have "byte b = fst (decode_rune (b # t))" by (rule ssubst)
  with r show "byte b < 0x80" by simp
qed

lemma decode_ascii: "byte b < 0x80 \<Longrightarrow> decode_rune (b # t) = (byte b, 1)"
  using ascii_encoding [of b] decode_encode [of "byte b" t] by simp

lemma step_ascii:
  assumes "\<And>r. p r \<Longrightarrow> r < 0x80"
  shows "st' \<in> set (step_rune s p (i, c)) \<longleftrightarrow> i < length s \<and> p (byte (s ! i)) \<and> st' = (Suc i, c)"
proof (cases "i < length s")
  case True
  then have d: "drop i s = s ! i # drop (Suc i) s" by (simp add: Cons_nth_drop_Suc)
  show ?thesis
  proof (cases "byte (s ! i) < 0x80")
    case lt: True
    with True show ?thesis by (simp add: step_rune_iff d decode_ascii)
  next
    case False
    then have "\<not> p (fst (decode_rune (drop i s)))" "\<not> p (byte (s ! i))"
      using assms decode_ascii_iff [of "s ! i" "drop (Suc i) s"] d by auto
    with True show ?thesis by (simp add: step_rune_iff)
  qed
qed (simp add: step_rune_iff)

definition ascii_class :: "class_item list \<Rightarrow> bool" where
  "ascii_class items \<longleftrightarrow> (\<forall>r. class_match False False items r \<longrightarrow> r < 0x80)"

definition in_class :: "class_item list \<Rightarrow> char \<Rightarrow> bool" where
  "in_class items ch = class_match False False items (byte ch)"

definition class_run :: "class_item list \<Rightarrow> bytes \<Rightarrow> nat \<Rightarrow> nat \<Rightarrow> bool" where
  "class_run items s i j \<longleftrightarrow> i \<le> j \<and> j \<le> length s \<and> (\<forall>k \<in> {i..<j}. in_class items (s ! k))"

lemma class_step:
  "ascii_class items \<Longrightarrow>
   st' \<in> set (rm s (Cls False False items) (i, c)) \<longleftrightarrow> i < length s \<and> in_class items (s ! i) \<and> st' = (Suc i, c)"
  using step_ascii [of "class_match False False items"] by (auto simp: ascii_class_def in_class_def)

lemma class_run_Suc: "i < length s \<Longrightarrow> class_run items s i j \<longleftrightarrow> i = j \<or> in_class items (s ! i) \<and> class_run items s (Suc i) j"
  by (auto simp: class_run_def) (metis Suc_leI atLeastLessThan_iff le_neq_implies_less)+

text \<open>The next three lemmas are about a matcher that consumes one character of a class.\<close>

definition consumes :: "(rstate \<Rightarrow> rstate list) \<Rightarrow> class_item list \<Rightarrow> bytes \<Rightarrow> bool" where
  "consumes f items s \<longleftrightarrow>
     (\<forall>i c. set (f (i, c)) = (if i < length s \<and> in_class items (s ! i) then {(Suc i, c)} else {}))"

lemma class_consumes: "ascii_class items \<Longrightarrow> consumes (rm s (Cls False False items)) items s"
  unfolding consumes_def by (intro allI set_eqI) (simp only: class_step, auto)

lemma star_class:
  assumes "consumes f items s" and "length s - i \<le> n" and "i \<le> length s"
  shows "(j, c') \<in> set (star_iter n f (i, c)) \<longleftrightarrow> class_run items s i j \<and> c' = c"
  using assms(2,3)
proof (induction n arbitrary: i)
  case 0
  then show ?case by (auto simp: class_run_def)
next
  case (Suc n)
  have f: "set (f (i, c)) = (if i < length s \<and> in_class items (s ! i) then {(Suc i, c)} else {})"
    using assms(1) by (simp add: consumes_def)
  show ?case
  proof (cases "i < length s \<and> in_class items (s ! i)")
    case True
    then have "(j, c') \<in> set (star_iter (Suc n) f (i, c)) \<longleftrightarrow>
        (j, c') \<in> set (star_iter n f (Suc i, c)) \<or> (j, c') = (i, c)"
      using f by auto
    also have "\<dots> \<longleftrightarrow> class_run items s i j \<and> c' = c"
      using Suc.IH [of "Suc i"] Suc.prems True class_run_Suc [of i s items j] by (auto simp: class_run_def)
    finally show ?thesis .
  next
    case False
    then have "(j, c') \<in> set (star_iter (Suc n) f (i, c)) \<longleftrightarrow> (j, c') = (i, c)" using f by auto
    also have "\<dots> \<longleftrightarrow> class_run items s i j \<and> c' = c"
      using False Suc.prems by (force simp: class_run_def)
    finally show ?thesis .
  qed
qed

lemma times_class:
  assumes "consumes f items s"
  shows "(j, c') \<in> set (times_iter n f (i, c)) \<longleftrightarrow> j = i + n \<and> (n = 0 \<or> class_run items s i j) \<and> c' = c"
proof (induction n arbitrary: i)
  case (Suc n)
  have f: "set (f (i, c)) = (if i < length s \<and> in_class items (s ! i) then {(Suc i, c)} else {})"
    using assms by (simp add: consumes_def)
  show ?case
  proof (cases "i < length s \<and> in_class items (s ! i)")
    case True
    then have "(j, c') \<in> set (times_iter (Suc n) f (i, c)) \<longleftrightarrow> (j, c') \<in> set (times_iter n f (Suc i, c))"
      using f by simp
    with Suc [of "Suc i"] True class_run_Suc [of i s items j] show ?thesis by (auto simp: class_run_def)
  next
    case False
    with f show ?thesis by (force simp: class_run_def)
  qed
qed auto

lemma plus_class:
  assumes "ascii_class items"
  shows "(j, c') \<in> set (rm s (Plus (Cls False False items)) (i, c)) \<longleftrightarrow> i < j \<and> class_run items s i j \<and> c' = c"
proof -
  let ?f = "rm s (Cls False False items)"
  note cons = class_consumes [OF assms, of s]
  have f: "set (?f (i, c)) = (if i < length s \<and> in_class items (s ! i) then {(Suc i, c)} else {})"
    using cons by (simp only: consumes_def)
  have "(j, c') \<in> set (rm s (Plus (Cls False False items)) (i, c)) \<longleftrightarrow>
      (\<exists>st \<in> set (?f (i, c)). (j, c') \<in> set (star_at s ?f st))"
    by auto
  also have "\<dots> \<longleftrightarrow> i < length s \<and> in_class items (s ! i) \<and> (j, c') \<in> set (star_at s ?f (Suc i, c))"
    unfolding f by (cases "i < length s \<and> in_class items (s ! i)") auto
  also have "\<dots> \<longleftrightarrow> i < length s \<and> in_class items (s ! i) \<and> class_run items s (Suc i) j \<and> c' = c"
    using star_class [OF cons, of "Suc i" "Suc (length s) - Suc i" j c' c] unfolding star_at_def fst_conv by auto
  also have "\<dots> \<longleftrightarrow> i < j \<and> class_run items s i j \<and> c' = c"
    using class_run_Suc [of i s items j] by (auto simp: class_run_def)
  finally show ?thesis .
qed

lemma lit_ascii:
  assumes "l < 0x80"
  shows "(j, c') \<in> set (rm s (Lit [l] False) (i, c)) \<longleftrightarrow> i < length s \<and> byte (s ! i) = l \<and> j = Suc i \<and> c' = c"
proof -
  have "(j, c') \<in> set (rm s (Lit [l] False) (i, c)) \<longleftrightarrow> (j, c') \<in> set (step_rune s (lit_match False l) (i, c))"
    by auto
  also have "\<dots> \<longleftrightarrow> i < length s \<and> lit_match False l (byte (s ! i)) \<and> (j, c') = (Suc i, c)"
    by (rule step_ascii) (use assms in \<open>simp add: lit_match_def\<close>)
  finally show ?thesis by (auto simp: lit_match_def)
qed

section \<open>The marker expression\<close>

definition type_items :: "class_item list" where
  "type_items = [ClsRange 0x41 0x5A, ClsRange 0x30 0x39, ClsRange 0x5F 0x5F]"
definition hex_items :: "class_item list" where
  "hex_items = [ClsRange 0x61 0x66, ClsRange 0x30 0x39]"
definition digit_items :: "class_item list" where
  "digit_items = [ClsRange 0x30 0x39]"

lemmas items_defs = type_items_def hex_items_def digit_items_def

lemma items_ascii: "ascii_class type_items" "ascii_class hex_items" "ascii_class digit_items"
  by (auto simp: ascii_class_def items_defs class_match_def)

lemma items_no_angle:
  "in_class type_items ch \<Longrightarrow> ch \<noteq> CHR ''<'' \<and> ch \<noteq> CHR ''>''"
  "in_class hex_items ch \<Longrightarrow> ch \<noteq> CHR ''<'' \<and> ch \<noteq> CHR ''>''"
  "in_class digit_items ch \<Longrightarrow> ch \<noteq> CHR ''<'' \<and> ch \<noteq> CHR ''>''"
  by (auto simp: in_class_def items_defs class_match_def byte_def)

text \<open>The positions of a marker in a text.\<close>

definition marker_at :: "bytes \<Rightarrow> nat \<Rightarrow> nat \<Rightarrow> bool" where
  "marker_at s i j \<longleftrightarrow>
     (\<exists>a e. i < length s \<and> s ! i = CHR ''<'' \<and> Suc i < a \<and> class_run type_items s (Suc i) a \<and>
        a < length s \<and> s ! a = CHR ''_'' \<and> class_run hex_items s (Suc a) (a + 33) \<and>
        a + 33 < length s \<and> s ! (a + 33) = CHR ''_'' \<and> a + 34 < e \<and> class_run digit_items s (a + 34) e \<and>
        e < length s \<and> s ! e = CHR ''>'' \<and> j = Suc e)"

lemma in_rm_cat:
  "(j, d') \<in> set (rm_cat s (re # res) st) \<longleftrightarrow> (\<exists>y d. (y, d) \<in> set (rm s re st) \<and> (j, d') \<in> set (rm_cat s res (y, d)))"
  by auto

lemma in_rm_cap: "(j, d') \<in> set (rm s (Cap k re) (i, c)) \<longleftrightarrow> (\<exists>d. (j, d) \<in> set (rm s re (i, c)) \<and> d' = d(k \<mapsto> (i, j)))"
  by auto

lemma in_rm_cat_Nil: "(j, d') \<in> set (rm_cat s [] (y, d)) \<longleftrightarrow> j = y \<and> d' = d"
  by simp

lemma byte_eq_char: "n < 256 \<Longrightarrow> byte ch = n \<longleftrightarrow> ch = char_of n"
  by auto

lemma rep_class:
  assumes "ascii_class items"
  shows "(j, c') \<in> set (rm s (Rep 32 (Some 32) (Cls False False items)) (i, c)) \<longleftrightarrow>
    j = i + 32 \<and> class_run items s i j \<and> c' = c"
proof -
  have "(j, c') \<in> set (rm s (Rep 32 (Some 32) (Cls False False items)) (i, c)) \<longleftrightarrow>
      (j, c') \<in> set (times_iter 32 (rm s (Cls False False items)) (i, c))"
    by (simp del: rm.simps add: rm.simps(8))
  then show ?thesis using times_class [OF class_consumes [OF assms], where n = 32] by simp
qed

lemma marker_match_iff: "(\<exists>d. (j, d) \<in> set (rm s markerPattern (i, c))) \<longleftrightarrow> marker_at s i j"
proof -
  have chars: "char_of (0x3C::nat) = CHR ''<''" "char_of (0x5F::nat) = CHR ''_''" "char_of (0x3E::nat) = CHR ''>''"
    by (simp_all add: char_of_def bit_Suc_0_iff)
  have lit: "(y, d') \<in> set (rm s (Lit [l] False) (x, d)) \<longleftrightarrow> x < length s \<and> s ! x = char_of l \<and> y = Suc x \<and> d' = d"
    if "l < 0x80" for l x y d d'
    using lit_ascii [OF that] that by (auto simp: byte_eq_char)
  have mp: "markerPattern = Cat [Lit [0x3C] False, Cap 1 (Plus (Cls False False type_items)), Lit [0x5F] False,
      Cap 2 (Rep 32 (Some 32) (Cls False False hex_items)), Lit [0x5F] False,
      Cap 3 (Plus (Cls False False digit_items)), Lit [0x3E] False]"
    by (simp add: markerPattern_def items_defs)
  note cls = plus_class [OF items_ascii(1)] plus_class [OF items_ascii(3)] rep_class [OF items_ascii(2)]
  have "(\<exists>d. (j, d) \<in> set (rm s markerPattern (i, c))) \<longleftrightarrow>
    (\<exists>a e. i < length s \<and> s ! i = CHR ''<'' \<and> (Suc i < a \<and> class_run type_items s (Suc i) a) \<and>
        a < length s \<and> s ! a = CHR ''_'' \<and> class_run hex_items s (Suc a) (Suc a + 32) \<and>
        Suc a + 32 < length s \<and> s ! (Suc a + 32) = CHR ''_'' \<and>
        (Suc (Suc a + 32) < e \<and> class_run digit_items s (Suc (Suc a + 32)) e) \<and>
        e < length s \<and> s ! e = CHR ''>'' \<and> j = Suc e)"
    unfolding mp rm.simps(9) in_rm_cat in_rm_cat_Nil in_rm_cap
    by (simp del: rm.simps rm_cat.simps add: lit cls chars) blast
  then show ?thesis by (simp add: marker_at_def add.commute)
qed

lemma marker_inner:
  assumes "marker_at s i j"
  shows "Suc i < j" "j \<le> length s" "s ! i = CHR ''<''" "s ! (j - 1) = CHR ''>''"
    "\<And>k. i < k \<Longrightarrow> k < j - 1 \<Longrightarrow> s ! k \<noteq> CHR ''<'' \<and> s ! k \<noteq> CHR ''>''"
proof -
  obtain a e where ae: "s ! i = CHR ''<''" "Suc i < a" "class_run type_items s (Suc i) a" "s ! a = CHR ''_''"
      "class_run hex_items s (Suc a) (a + 33)" "s ! (a + 33) = CHR ''_''" "a + 34 < e"
      "class_run digit_items s (a + 34) e" "e < length s" "s ! e = CHR ''>''" "j = Suc e"
    using assms by (auto simp: marker_at_def)
  then show "Suc i < j" "j \<le> length s" "s ! i = CHR ''<''" "s ! (j - 1) = CHR ''>''" by simp_all
  fix k assume k: "i < k" "k < j - 1"
  then consider "k \<in> {Suc i..<a}" | "k = a" | "k \<in> {Suc a..<a + 33}" | "k = a + 33" | "k \<in> {a + 34..<e}"
    using ae(11) by fastforce
  then show "s ! k \<noteq> CHR ''<'' \<and> s ! k \<noteq> CHR ''>''"
    using ae by cases (auto simp: class_run_def dest: items_no_angle)
qed

lemma marker_at_unique: "marker_at s i j \<Longrightarrow> marker_at s i j' \<Longrightarrow> j = j'"
proof (rule ccontr)
  assume m: "marker_at s i j" "marker_at s i j'" and ne: "j \<noteq> j'"
  have "False" if "marker_at s i x" "marker_at s i y" "x < y" for x y
  proof -
    have "i < x - 1" "x - 1 < y - 1" using marker_inner(1) [OF that(1)] that(3) by auto
    with marker_inner(5) [OF that(2)] marker_inner(4) [OF that(1)] show False by blast
  qed
  with m ne show False by (metis linorder_neqE_nat)
qed

lemma match_at_marker:
  assumes "marker_at s i j"
  shows "\<exists>c. match_at markerPattern s i = Some \<lparr>rm_start = i, rm_end = j, rm_groups = c\<rparr>"
proof -
  obtain d where "(j, d) \<in> set (rm s markerPattern (i, Map.empty))"
    using assms marker_match_iff by blast
  then obtain j' c' rest where r: "rm s markerPattern (i, Map.empty) = (j', c') # rest"
    by (metis in_set_conv_nth length_pos_if_in_set neq_Nil_conv surj_pair list.size(3) less_irrefl)
  then have "(j', c') \<in> set (rm s markerPattern (i, Map.empty))" by simp
  then have "marker_at s i j'" using marker_match_iff by blast
  then have "j' = j" using assms marker_at_unique by blast
  with r show ?thesis by (simp add: match_at_def)
qed

lemma match_at_no_marker: "s ! i \<noteq> CHR ''<'' \<or> length s \<le> i \<Longrightarrow> match_at markerPattern s i = None"
proof -
  assume no: "s ! i \<noteq> CHR ''<'' \<or> length s \<le> i"
  have "rm s markerPattern (i, Map.empty) = []"
  proof (rule ccontr)
    assume "rm s markerPattern (i, Map.empty) \<noteq> []"
    then obtain j d where "(j, d) \<in> set (rm s markerPattern (i, Map.empty))" by (metis hd_in_set surj_pair)
    then have "marker_at s i j" using marker_match_iff by blast
    with no show False by (auto simp: marker_at_def)
  qed
  then show ?thesis by (simp add: match_at_def)
qed

section \<open>Texts made of markers and plain pieces\<close>

definition is_marker :: "bytes \<Rightarrow> bool" where
  "is_marker m \<longleftrightarrow> marker_at m 0 (length m)"

lemma class_run_shift:
  "class_run items m i j \<Longrightarrow> class_run items (p @ m @ q) (length p + i) (length p + j)"
proof (unfold class_run_def, elim conjE, intro conjI ballI)
  fix k assume c: "\<forall>k \<in> {i..<j}. in_class items (m ! k)" "j \<le> length m" "k \<in> {length p + i..<length p + j}"
  then have "(p @ m @ q) ! k = m ! (k - length p)" "k - length p \<in> {i..<j}" by (auto simp: nth_append)
  with c(1) show "in_class items ((p @ m @ q) ! k)" by simp
qed simp_all

lemma marker_at_shift:
  assumes "marker_at m i j"
  shows "marker_at (p @ m @ q) (length p + i) (length p + j)"
proof -
  obtain a e where ae: "i < length m" "m ! i = CHR ''<''" "Suc i < a" "class_run type_items m (Suc i) a"
      "a < length m" "m ! a = CHR ''_''" "class_run hex_items m (Suc a) (a + 33)" "a + 33 < length m"
      "m ! (a + 33) = CHR ''_''" "a + 34 < e" "class_run digit_items m (a + 34) e" "e < length m"
      "m ! e = CHR ''>''" "j = Suc e"
    using assms by (auto simp: marker_at_def)
  have nth: "(p @ m @ q) ! (length p + k) = m ! k" if "k < length m" for k using that by (simp add: nth_append)
  show ?thesis
    unfolding marker_at_def
    by (intro exI [of _ "length p + a"] exI [of _ "length p + e"])
      (use ae nth [of i] nth [of a] nth [of "a + 33"] nth [of e] class_run_shift [OF ae(4), of p q]
        class_run_shift [OF ae(7), of p q] class_run_shift [OF ae(11), of p q] in \<open>simp add: add.assoc\<close>)
qed

lemma find_skip:
  assumes "valid_string p" and "CHR ''<'' \<notin> set p"
  shows "find_from markerPattern (u @ p @ t) (length u) = find_from markerPattern (u @ p @ t) (length u + length p)"
  using assms
proof (induction arbitrary: u rule: valid_string_induct)
  case (Rune r p)
  let ?s = "u @ (encode_rune r @ p) @ t"
  have pos: "length u < length ?s" "0 < length (encode_rune r)" by (simp_all add: length_encode_rune_bounds)
  have "?s ! length u = encode_rune r ! 0" using pos(2) by (simp add: nth_append)
  moreover have "encode_rune r ! 0 \<noteq> CHR ''<''" using Rune(4) pos(2) by (metis UnCI nth_mem set_append)
  ultimately have "match_at markerPattern ?s (length u) = None" using match_at_no_marker by auto
  moreover have "snd (decode_rune (drop (length u) ?s)) = length (encode_rune r)" using Rune(1) by simp
  ultimately have "find_from markerPattern ?s (length u) = find_from markerPattern ?s (length u + length (encode_rune r))"
    using pos(1) by (subst find_from.simps) simp
  also have "\<dots> = find_from markerPattern ((u @ encode_rune r) @ p @ t) (length (u @ encode_rune r))" by simp
  also have "\<dots> = find_from markerPattern ((u @ encode_rune r) @ p @ t) (length (u @ encode_rune r) + length p)"
    by (rule Rune(3)) (use Rune(4) in simp)
  finally show ?case by (simp add: add.assoc)
qed simp

lemma find_none:
  assumes "valid_string p" and "CHR ''<'' \<notin> set p"
  shows "find_from markerPattern (u @ p) (length u) = None"
proof -
  have "find_from markerPattern (u @ p) (length u) = find_from markerPattern (u @ p) (length (u @ p))"
    using find_skip [OF assms, of u "[]"] by simp
  also have "\<dots> = None" by (subst find_from.simps) (simp add: match_at_no_marker)
  finally show ?thesis .
qed

lemma find_marker:
  assumes "valid_string p" and "CHR ''<'' \<notin> set p" and "is_marker m"
  shows "\<exists>c. find_from markerPattern (u @ p @ m @ t) (length u) =
    Some \<lparr>rm_start = length u + length p, rm_end = length u + length p + length m, rm_groups = c\<rparr>"
proof -
  have "marker_at ((u @ p) @ m @ t) (length (u @ p) + 0) (length (u @ p) + length m)"
    using assms(3) marker_at_shift unfolding is_marker_def by blast
  from match_at_marker [OF this] obtain c where c: "match_at markerPattern (u @ p @ m @ t) (length u + length p) =
      Some \<lparr>rm_start = length u + length p, rm_end = length u + length p + length m, rm_groups = c\<rparr>"
    by auto
  have "find_from markerPattern (u @ p @ m @ t) (length u) = find_from markerPattern (u @ p @ m @ t) (length u + length p)"
    using find_skip [OF assms(1,2)] by blast
  also have "\<dots> = Some \<lparr>rm_start = length u + length p, rm_end = length u + length p + length m, rm_groups = c\<rparr>"
    by (subst find_from.simps) (simp add: c)
  finally show ?thesis by blast
qed

fun seg_text :: "(bytes \<times> bytes) list \<Rightarrow> bytes \<Rightarrow> bytes" where
  "seg_text [] rest = rest"
| "seg_text ((p, m) # segs) rest = p @ m @ seg_text segs rest"

fun seg_spans :: "nat \<Rightarrow> (bytes \<times> bytes) list \<Rightarrow> (nat \<times> nat) list" where
  "seg_spans n [] = []"
| "seg_spans n ((p, m) # segs) =
     (n + length p, n + length p + length m) # seg_spans (n + length p + length m) segs"

definition plain :: "bytes \<Rightarrow> bool" where
  "plain p \<longleftrightarrow> valid_string p \<and> CHR ''<'' \<notin> set p"

lemma all_from_segs:
  assumes "\<forall>(p, m) \<in> set segs. plain p \<and> is_marker m" and "plain rest"
  shows "map (\<lambda>m. (rm_start m, rm_end m)) (all_from markerPattern (u @ seg_text segs rest) (length u) pe) =
    seg_spans (length u) segs"
  using assms(1)
proof (induction segs arbitrary: u pe)
  case Nil
  then show ?case using find_none [of rest u] assms(2) by (simp add: all_from_stop plain_def)
next
  case (Cons seg segs)
  obtain p m where seg: "seg = (p, m)" by force
  let ?s = "u @ p @ m @ seg_text segs rest"
  have pm: "valid_string p" "CHR ''<'' \<notin> set p" "is_marker m" using Cons.prems seg by (auto simp: plain_def)
  obtain c where f: "find_from markerPattern ?s (length u) =
      Some \<lparr>rm_start = length u + length p, rm_end = length u + length p + length m, rm_groups = c\<rparr>"
    using find_marker [OF pm, of u "seg_text segs rest"] by blast
  have "0 < length m" using pm(3) marker_inner(1) unfolding is_marker_def by fastforce
  then have "all_from markerPattern ?s (length u) pe =
      \<lparr>rm_start = length u + length p, rm_end = length u + length p + length m, rm_groups = c\<rparr> #
      all_from markerPattern ?s (length u + length p + length m) (Some (length u + length p + length m))"
    using all_from_more [OF _ f] by simp
  moreover have "map (\<lambda>m. (rm_start m, rm_end m)) (all_from markerPattern ?s (length u + length p + length m)
      (Some (length u + length p + length m))) = seg_spans (length u + length p + length m) segs"
    using Cons.IH [of "u @ p @ m"] Cons.prems by (simp add: add.assoc)
  ultimately show ?case using seg by simp
qed

lemma marker_spans_segs:
  assumes "\<forall>(p, m) \<in> set segs. plain p \<and> is_marker m" and "plain rest"
  shows "marker_spans (seg_text segs rest) = seg_spans 0 segs"
  using all_from_segs [OF assms, of "[]" None] by (simp add: marker_spans_def regexp_FindAll_def)

section \<open>Restoration\<close>

text \<open>
  What a match is replaced by: the saved value, when the matched marker is saved and stands apart
  from words at both ends, and itself otherwise.
\<close>

definition restored :: "bytes \<Rightarrow> (bytes \<rightharpoonup> bytes) \<Rightarrow> nat \<Rightarrow> nat \<Rightarrow> bytes" where
  "restored text mapping a b =
     (case mapping (gslice text a b) of
        None \<Rightarrow> gslice text a b
      | Some value \<Rightarrow> if tokenBoundary text (int a - 1) \<and> tokenBoundary text (int b) then value else gslice text a b)"

fun replaced_spans :: "bytes \<Rightarrow> (bytes \<rightharpoonup> bytes) \<Rightarrow> nat \<Rightarrow> (nat \<times> nat) list \<Rightarrow> bytes" where
  "replaced_spans text mapping n [] = drop n text"
| "replaced_spans text mapping n ((a, b) # spans) =
     gslice text n a @ restored text mapping a b @ replaced_spans text mapping b spans"

lemma gslice_join: "i \<le> j \<Longrightarrow> j \<le> k \<Longrightarrow> gslice s i j @ gslice s j k = gslice s i k"
  using take_add [of "j - i" "k - j" "drop i s"] by (simp add: gslice_def)

lemma restore_loop_spans:
  assumes "sorted_wrt (\<lambda>x y. snd x \<le> fst y) spans" and "\<forall>(a, b) \<in> set spans. n \<le> a \<and> a < b"
    and "cursor \<le> n"
  shows "case restore_loop s mapping cursor out spans of (c, o') \<Rightarrow>
    o' @ drop c s = out @ gslice s cursor n @ replaced_spans s mapping n spans \<and>
    (c = 0 \<longrightarrow> o' = out \<and> cursor = 0)"
  using assms
proof (induction spans arbitrary: n cursor out)
  case Nil
  then show ?case using append_take_drop_id [of "n - cursor" "drop cursor s"] by (simp add: gslice_def)
next
  case (Cons ab spans)
  obtain a b where ab: "ab = (a, b)" by force
  have ord: "n \<le> a" "a < b" "sorted_wrt (\<lambda>x y. snd x \<le> fst y) spans" "\<forall>(x, y) \<in> set spans. b \<le> x \<and> x < y"
    using Cons.prems(1,2) ab by auto
  show ?case
  proof (cases "restore_loop s mapping cursor out (ab # spans) = restore_loop s mapping cursor out spans \<and>
      restored s mapping a b = gslice s a b")
    case True
    have "gslice s cursor b = gslice s cursor n @ gslice s n a @ gslice s a b"
      using Cons.prems(3) ord(1,2) by (simp add: gslice_join)
    moreover have "cursor \<le> b" using Cons.prems(3) ord(1,2) by linarith
    ultimately show ?thesis
      using Cons.IH [OF ord(3,4), of cursor out] True ab by (simp add: append_assoc)
  next
    case False
    then obtain v where v: "restored s mapping a b = v"
        "restore_loop s mapping cursor out (ab # spans) = restore_loop s mapping b (out @ gslice s cursor a @ v) spans"
      using ab by (auto simp: restored_def split: option.splits if_splits)
    have g: "gslice s cursor a = gslice s cursor n @ gslice s n a" "gslice s b b = []"
      using Cons.prems(3) ord(1) by (simp add: gslice_join, simp add: gslice_def)
    show ?thesis
      using Cons.IH [OF ord(3,4) le_refl, of "out @ gslice s cursor a @ v"] ord(2) v
      by (auto simp: ab g split: prod.splits simp del: restore_loop.simps)
  qed
qed

lemma marker_spans_marker:
  assumes "(a, b) \<in> set (marker_spans text)"
  shows "marker_at text a b"
proof -
  obtain m where m: "m \<in> set (regexp_FindAll markerPattern text)" "a = rm_start m" "b = rm_end m"
    using assms by (auto simp: marker_spans_def)
  from FindAll_match_at [OF m(1)] have "match_at markerPattern text a = Some m" using m(2) by simp
  then have "\<exists>d. (b, d) \<in> set (rm text markerPattern (a, Map.empty))"
    using m(3) by (auto simp: match_at_def split: list.splits)
  then show ?thesis by (simp only: marker_match_iff)
qed

lemma restoreTokens_spans: "restoreTokens text mapping = replaced_spans text mapping 0 (marker_spans text)"
proof -
  have "\<forall>(a, b) \<in> set (marker_spans text). 0 \<le> a \<and> a < b"
    using marker_inner(1) [OF marker_spans_marker] by fastforce
  from restore_loop_spans [OF marker_spans_ordered this le_refl, where s = "text" and mapping = mapping and out = "[]"] show ?thesis
    by (auto simp: restoreTokens_def gslice_def split: prod.splits)
qed

text \<open>The text with its pieces between the markers kept and each marker replaced or kept.\<close>

definition seg_restored :: "bytes \<Rightarrow> (bytes \<rightharpoonup> bytes) \<Rightarrow> nat \<Rightarrow> bytes \<Rightarrow> bytes" where
  "seg_restored text mapping n m =
     (if m \<in> dom mapping \<and> tokenBoundary text (int n - 1) \<and> tokenBoundary text (int (n + length m))
      then the (mapping m) else m)"

fun segs_restored :: "bytes \<Rightarrow> (bytes \<rightharpoonup> bytes) \<Rightarrow> nat \<Rightarrow> (bytes \<times> bytes) list \<Rightarrow> bytes \<Rightarrow> bytes" where
  "segs_restored text mapping n [] rest = rest"
| "segs_restored text mapping n ((p, m) # segs) rest =
     p @ seg_restored text mapping (n + length p) m @ segs_restored text mapping (n + length p + length m) segs rest"

lemma replaced_segs:
  "replaced_spans (u @ seg_text segs rest) mapping (length u) (seg_spans (length u) segs) =
   segs_restored (u @ seg_text segs rest) mapping (length u) segs rest"
proof (induction segs arbitrary: u)
  case (Cons seg segs)
  obtain p m where seg: "seg = (p, m)" by force
  let ?s = "u @ p @ m @ seg_text segs rest" and ?a = "length u + length p"
  have "gslice ?s ?a (?a + length m) = m" "gslice ?s (length u) ?a = p" by (simp_all add: gslice_def)
  then have "restored ?s mapping ?a (?a + length m) = seg_restored ?s mapping ?a m"
    by (auto simp: restored_def seg_restored_def split: option.splits)
  with Cons.IH [of "u @ p @ m"] seg \<open>gslice ?s (length u) ?a = p\<close> show ?case by (simp add: add.assoc)
qed simp

lemma is_marker_not_Nil: "is_marker m \<Longrightarrow> m \<noteq> []"
  using marker_inner(1) unfolding is_marker_def by fastforce

section \<open>Issued tokens are markers\<close>

lemma class_run_list:
  assumes "list_all (in_class items) m"
  shows "class_run items (p @ m @ q) (length p) (length p + length m)"
  using class_run_shift [of items m 0 "length m" p q] assms by (simp add: class_run_def list_all_length)

lemma marker_intro:
  assumes "ty \<noteq> []" and "list_all (in_class type_items) ty" and "length tag = 32"
    and "list_all (in_class hex_items) tag" and "d \<noteq> []" and "list_all (in_class digit_items) d"
  shows "is_marker (''<'' @ ty @ ''_'' @ tag @ ''_'' @ d @ ''>'')"
proof -
  let ?m = "''<'' @ ty @ ''_'' @ tag @ ''_'' @ d @ ''>''"
  let ?a = "Suc (length ty)" and ?e = "length ty + length d + 35"
  have nth: "(x @ ch # y) ! n = ch" if "n = length x" for x y n and ch :: char using that by simp
  have at: "?m ! 0 = CHR ''<''" "?m ! ?a = CHR ''_''" "?m ! (?a + 33) = CHR ''_''" "?m ! ?e = CHR ''>''"
    using nth [of "?a" "''<'' @ ty" "CHR ''_''" "tag @ ''_'' @ d @ ''>''"]
      nth [of "?a + 33" "''<'' @ ty @ ''_'' @ tag" "CHR ''_''" "d @ ''>''"]
      nth [of ?e "''<'' @ ty @ ''_'' @ tag @ ''_'' @ d" "CHR ''>''" "[]"] assms(3) by simp_all
  have runs: "class_run type_items ?m (Suc 0) ?a" "class_run hex_items ?m (Suc ?a) (?a + 33)"
      "class_run digit_items ?m (?a + 34) ?e"
    using class_run_list [OF assms(2), of "''<''" "''_'' @ tag @ ''_'' @ d @ ''>''"]
      class_run_list [OF assms(4), of "''<'' @ ty @ ''_''" "''_'' @ d @ ''>''"]
      class_run_list [OF assms(6), of "''<'' @ ty @ ''_'' @ tag @ ''_''" "''>''"] assms(3)
    by (simp_all add: numeral_eq_Suc)
  have len: "length ?m = Suc ?e" using assms(3) by simp
  show ?thesis
    unfolding is_marker_def marker_at_def len
    by (intro exI [of _ ?a] exI [of _ ?e]) (use at runs len assms(1,5) in simp)
qed

lemma digit_in_class: "list_all (in_class digit_items) (decimal n)"
proof -
  have "in_class digit_items (digit_char k)" if "k < 10" for k
    using that by (simp add: in_class_def digit_items_def class_match_def digit_char_byte)
  then show ?thesis using set_decimal [of n] by (auto simp: list_all_iff)
qed

lemma hex_in_class: "list_all (in_class hex_items) (hex_encode s)"
proof -
  have "in_class hex_items (hex_digit k)" if "k < 16" for k
    using that by (auto simp: in_class_def hex_items_def class_match_def hex_digit_def)
  then show ?thesis using set_hex_encode [of s] by (auto simp: list_all_iff)
qed

text \<open>The names of categories whose tokens the marker expression recognises.\<close>

definition token_char :: "char \<Rightarrow> bool" where
  "token_char ch \<longleftrightarrow> 0x61 \<le> byte ch \<and> byte ch \<le> 0x7A \<or> 0x30 \<le> byte ch \<and> byte ch \<le> 0x39 \<or> byte ch = 0x5F"

definition token_type :: "PIIType \<Rightarrow> bool" where
  "token_type ty \<longleftrightarrow> ty \<noteq> [] \<and> list_all token_char ty"

lemma upper_in_class:
  assumes "token_char ch"
  shows "byte ch < 0x80" "unicode_ToUpper (byte ch) < 0x80"
    "in_class type_items (char_of (unicode_ToUpper (byte ch)))"
proof -
  show "byte ch < 0x80" using assms by (auto simp: token_char_def)
  have u: "unicode_ToUpper (byte ch) = (if 0x61 \<le> byte ch then byte ch - 0x20 else byte ch)"
  proof -
    obtain t where t: "to_upper_latin = (0x61, 0x7A, 1, - 32) # t" by (simp add: to_upper_latin_def)
    have b: "byte ch < 0x400" using assms by (auto simp: token_char_def)
    show ?thesis
    proof (cases "0x61 \<le> byte ch")
      case True
      then have "byte ch \<le> 0x7A" using assms by (auto simp: token_char_def)
      with True b show ?thesis by (simp add: unicode_ToUpper_def t nat_diff_distrib)
    next
      case False
      with b show ?thesis by (simp add: unicode_ToUpper_def t)
    qed
  qed
  show lt: "unicode_ToUpper (byte ch) < 0x80" using u assms by (auto simp: token_char_def)
  show "in_class type_items (char_of (unicode_ToUpper (byte ch)))"
    using assms lt unfolding u by (auto simp: token_char_def in_class_def type_items_def class_match_def)
qed

lemma runes_token_type: "list_all token_char ty \<Longrightarrow> runes ty = map byte ty"
  by (induction ty) (simp_all add: upper_in_class(1))

lemma of_runes_upper:
  "list_all token_char ty \<Longrightarrow>
   of_runes (map unicode_ToUpper (map byte ty)) = map (\<lambda>ch. char_of (unicode_ToUpper (byte ch))) ty"
  by (induction ty) (simp_all add: encode_rune_ascii upper_in_class(2))

lemma ToUpper_token_type:
  assumes "token_type ty"
  shows "strings_ToUpper ty \<noteq> []" "list_all (in_class type_items) (strings_ToUpper ty)"
proof -
  have up: "strings_ToUpper ty = map (\<lambda>ch. char_of (unicode_ToUpper (byte ch))) ty"
    using assms unfolding strings_ToUpper_def token_type_def by (simp only: runes_token_type of_runes_upper)
  show "strings_ToUpper ty \<noteq> []" using up assms by (simp add: token_type_def)
  show "list_all (in_class type_items) (strings_ToUpper ty)"
    unfolding up using assms upper_in_class(3) by (simp add: token_type_def list_all_iff)
qed

section \<open>Properties\<close>

text \<open>
  C37. Restoration of markers, for every text: the matches of the marker expression are markers, and the result is the
  text with each of them replaced by its saved value when it is saved and stands apart from words at
  both ends; every other byte stays, that of an unknown marker or of one glued to a word included. In
  a text of plain pieces and markers the matches are just the markers.
\<close>

theorem restore_markers:
  "restoreTokens text mapping = replaced_spans text mapping 0 (marker_spans text) \<and>
   (\<forall>(a, b) \<in> set (marker_spans text). marker_at text a b) \<and>
   (text = seg_text segs rest \<and> (\<forall>(p, m) \<in> set segs. plain p \<and> is_marker m) \<and> plain rest \<longrightarrow>
     restoreTokens text mapping = segs_restored text mapping 0 segs rest)"
proof -
  have "restoreTokens text mapping = segs_restored text mapping 0 segs rest"
    if "text = seg_text segs rest" "\<forall>(p, m) \<in> set segs. plain p \<and> is_marker m" "plain rest"
    using restoreTokens_spans [of "text" mapping] marker_spans_segs [OF that(2,3)] that(1)
      replaced_segs [of "[]" segs rest mapping] by simp
  then show ?thesis using restoreTokens_spans marker_spans_marker by blast
qed

definition sample_mac :: "bytes \<Rightarrow> bytes \<Rightarrow> bytes" where
  "sample_mac k m = replicate 16 (CHR ''a'')"

definition sample_marker :: bytes where
  "sample_marker = make_token sample_mac ''n'' ''cvv'' ''123'' 0"

lemma sample_marker_ok: "is_marker sample_marker"
proof -
  have "token_type ''cvv''" by (simp add: token_type_def token_char_def byte_def)
  from marker_intro [OF ToUpper_token_type [OF this] _ hex_in_class decimal_not_Nil digit_in_class]
  show ?thesis by (simp add: sample_marker_def make_token_def sample_mac_def)
qed

lemma sample_marker_longer: "sample_marker \<noteq> ''<x>''"
proof -
  have "length (hex_encode (replicate 16 (CHR ''a''))) = 32" by (simp add: hex_encode_def length_concat sum_list_replicate)
  then have "3 < length sample_marker" by (simp add: sample_marker_def make_token_def sample_mac_def)
  moreover have "length ''<x>'' = 3" by simp
  ultimately show ?thesis by (metis less_irrefl)
qed

lemma sample_boundary:
  "tokenBoundary (u @ ''a'' @ v) (int (length u)) = False" "tokenBoundary (u @ '' '' @ v) (int (length u)) = True"
proof -
  have t: "unicode_IsLetter 0x61" "\<not> unicode_IsLetter 0x20" "\<not> unicode_IsDigit 0x20" "\<not> unicode_IsMark 0x20"
    by code_simp+
  have b: "byte (CHR ''a'') = 0x61" "byte (CHR '' '') = 0x20" by (simp_all add: byte_def)
  show "tokenBoundary (u @ ''a'' @ v) (int (length u)) = False" "tokenBoundary (u @ '' '' @ v) (int (length u)) = True"
    using t by (simp_all add: tokenBoundary_def decode_ascii b rune_start_def)
qed

text \<open>A saved marker is replaced, a marker that is not saved and one behind a letter stay.\<close>

theorem restore_markers_witness:
  "restoreTokens (sample_marker @ '' '' @ sample_marker @ ''a'' @ sample_marker) [sample_marker \<mapsto> ''123''] =
     ''123 '' @ sample_marker @ ''a'' @ sample_marker \<and>
   restoreTokens sample_marker [''<x>'' \<mapsto> ''123''] = sample_marker"
proof -
  let ?t = "sample_marker @ '' '' @ sample_marker @ ''a'' @ sample_marker"
  let ?segs = "[([], sample_marker), ('' '', sample_marker), (''a'', sample_marker)] :: (bytes \<times> bytes) list"
  let ?n = "length sample_marker" and ?m = "[sample_marker \<mapsto> ''123''] :: bytes \<rightharpoonup> bytes"
  have p: "plain []" "plain '' ''" "plain ''a''" by (simp_all add: plain_def byte_def)
  have a: "\<not> tokenBoundary ?t (int (?n + 1 + ?n))" "tokenBoundary ?t (int ?n)" "tokenBoundary ?t (- 1)"
    using sample_boundary(2) [of sample_marker "sample_marker @ ''a'' @ sample_marker"]
      sample_boundary(1) [of "sample_marker @ '' '' @ sample_marker" sample_marker]
    by (simp_all add: tokenBoundary_def [of _ "- 1"])
  have idx: "int (?n + 1) - 1 = int ?n" "int (?n + 1 + ?n + 1) - 1 = int (?n + 1 + ?n)" by simp_all
  have r: "seg_restored ?t ?m (0 + length ([] :: bytes)) sample_marker = ''123''"
      "seg_restored ?t ?m (0 + length ([] :: bytes) + ?n + length '' '') sample_marker = sample_marker"
      "seg_restored ?t ?m (0 + length ([] :: bytes) + ?n + length '' '' + ?n + length ''a'') sample_marker = sample_marker"
    using a idx unfolding seg_restored_def list.size add_0 plus_1_eq_Suc Suc_eq_plus1 by simp_all
  have "restoreTokens ?t [sample_marker \<mapsto> ''123''] = segs_restored ?t [sample_marker \<mapsto> ''123''] 0 ?segs []"
    using restore_markers [of ?t ?m ?segs "[]", THEN conjunct2, THEN conjunct2, rule_format] p sample_marker_ok
    by (simp del: segs_restored.simps)
  also have "\<dots> = ''123 '' @ sample_marker @ ''a'' @ sample_marker"
    unfolding segs_restored.simps r by simp
  finally show ?thesis
    using restore_markers [of sample_marker "[''<x>'' \<mapsto> ''123'']" "[([], sample_marker)]" "[]",
        THEN conjunct2, THEN conjunct2, rule_format] p sample_marker_ok sample_marker_longer
    by (simp add: seg_restored_def)
qed

text \<open>
  Nothing is restored by guesswork: a text in which no saved marker occurs is returned unchanged.
\<close>

theorem restore_unknown:
  assumes "\<forall>m \<in> dom mapping. \<not> strings_Contains text m"
  shows "restoreTokens text mapping = text"
proof -
  have none: "mapping (gslice text a b) = None" for a b
  proof (rule ccontr)
    assume "mapping (gslice text a b) \<noteq> None"
    then have "\<not> strings_Contains text (gslice text a b)" using assms by blast
    moreover have "text = take a text @ gslice text a b @ drop (b - a) (drop a text)"
      unfolding gslice_def by (metis append_take_drop_id)
    ultimately show False using strings_Contains_iff by blast
  qed
  have "restore_loop text mapping c out spans = (c, out)" for c out spans
  proof (induction spans arbitrary: c out)
    case (Cons ab spans)
    then show ?case by (cases ab) (simp add: none)
  qed simp
  then show ?thesis by (simp add: restoreTokens_def)
qed

theorem restore_unknown_witness: "restoreTokens ''a <b'' [''<c>'' \<mapsto> ''v''] = ''a <b''"
  by (rule restore_unknown) (simp add: strings_HasPrefix_def)

text \<open>
  Every token the table issues for a category with a lower-case name is recognised by the marker expression, for
  any authentication code of at least 16 bytes; so saved markers can always be found again.
\<close>

lemma make_token_marker:
  assumes "token_type ty" and "\<And>k m. 16 \<le> length (hmac k m)"
  shows "is_marker (make_token hmac nonce ty v n)"
proof -
  have "length (hex_encode (take 16 t)) = 32" if "16 \<le> length t" for t :: bytes using that by simp
  with assms(2) marker_intro [OF ToUpper_token_type [OF assms(1)] _ hex_in_class decimal_not_Nil digit_in_class]
  show ?thesis unfolding make_token_def Let_def by blast
qed

end
