(* ===== verification/Json.thy ===== *)
theory Json
  imports Go_Strings
begin

text \<open>
  \<^verbatim>\<open>encoding/json\<close> as far as the source uses it for writing: \<^verbatim>\<open>json.Marshal\<close> of strings, lists of
  strings and structures, with the HTML escaping that \<^verbatim>\<open>Marshal\<close> applies. Bytes that are not UTF-8 are written as
  the escape of the replacement character, so the encoding is injective on valid text only.
\<close>

section \<open>Definitions\<close>

definition short_escapes :: "(rune \<times> char) list" where
  "short_escapes =
     [(0x22, char_of (0x22::nat)), (0x5C, char_of (0x5C::nat)), (0x08, CHR ''b''), (0x0C, CHR ''f''),
      (0x0A, CHR ''n''), (0x0D, CHR ''r''), (0x09, CHR ''t'')]"

definition backslash :: char where "backslash = char_of (0x5C::nat)"
definition quote_char :: char where "quote_char = char_of (0x22::nat)"

definition hex4 :: "nat \<Rightarrow> bytes" where
  "hex4 r = map hex_digit [r div 4096 mod 16, r div 256 mod 16, r div 16 mod 16, r mod 16]"

definition json_rune :: "rune \<Rightarrow> bytes" where
  "json_rune r =
     (case map_of short_escapes r of
        Some ch \<Rightarrow> [backslash, ch]
      | None \<Rightarrow>
          if r < 0x20 \<or> r = 0x3C \<or> r = 0x3E \<or> r = 0x26 \<or> r = 0x2028 \<or> r = 0x2029
          then backslash # CHR ''u'' # hex4 r
          else encode_rune r)"

definition json_chunk :: "rune \<times> bytes \<Rightarrow> bytes" where
  "json_chunk rb =
     (if fst rb = rune_error \<and> length (snd rb) = 1 then backslash # CHR ''u'' # hex4 rune_error
      else json_rune (fst rb))"

definition json_string :: "bytes \<Rightarrow> bytes" where
  "json_string s = [quote_char] @ concat (map json_chunk (chunks s)) @ [quote_char]"

definition json_strings :: "bytes list \<Rightarrow> bytes" where
  "json_strings ss = ''['' @ strings_Join (map json_string ss) '','' @ '']''"

text \<open>An object whose values are written already.\<close>

definition json_field :: "string \<Rightarrow> bytes \<Rightarrow> bytes" where
  "json_field name val = json_string name @ '':'' @ val"

definition json_object :: "(string \<times> bytes) list \<Rightarrow> bytes" where
  "json_object fields = ''{'' @ strings_Join (map (\<lambda>(name, val). json_field name val) fields) '','' @ ''}''"

section \<open>The encoding is injective on valid text\<close>

lemma hex_digit_inject: "a < 16 \<Longrightarrow> b < 16 \<Longrightarrow> hex_digit a = hex_digit b \<longleftrightarrow> a = b"
proof
  have v: "byte (hex_digit d) = (if d < 10 then 0x30 + d else 0x57 + d)" if "d < 16" for d
    using that by (simp add: hex_digit_def)
  assume "a < 16" "b < 16" and eq: "hex_digit a = hex_digit b"
  then have "(if a < 10 then 0x30 + a else 0x57 + a) = (if b < 10 then 0x30 + b else 0x57 + b)"
    using v by metis
  then show "a = b" by (simp split: if_splits)
qed simp

lemma div_mod_eq: "a mod 16 = b mod 16 \<Longrightarrow> a div 16 = b div 16 \<Longrightarrow> a = (b::nat)"
  by (metis mult_div_mod_eq)

lemma hex4_inject:
  assumes "r < 65536" and "r' < 65536" and "hex4 r = hex4 r'"
  shows "r = r'"
proof -
  have e: "r mod 16 = r' mod 16" "r div 16 mod 16 = r' div 16 mod 16"
      "r div 256 mod 16 = r' div 256 mod 16" "r div 4096 mod 16 = r' div 4096 mod 16"
    using assms(3) by (simp_all add: hex4_def hex_digit_inject)
  have d: "x div 16 div 16 = x div 256" "x div 256 div 16 = x div 4096" for x :: nat
    by (simp_all add: div_mult2_eq [symmetric])
  have "r div 4096 < 16" "r' div 4096 < 16" using assms(1,2) by (simp_all add: less_mult_imp_div_less)
  then have "r div 4096 = r' div 4096" using e(4) by simp
  then have "r div 256 = r' div 256" using div_mod_eq e(3) d(2) by metis
  then have "r div 16 = r' div 16" using div_mod_eq e(2) d(1) by metis
  then show ?thesis using div_mod_eq e(1) by metis
qed

lemma length_hex4 [simp]: "length (hex4 r) = 4"
  by (simp add: hex4_def)

lemma encode_rune_prefix:
  "valid_rune r \<Longrightarrow> valid_rune r' \<Longrightarrow> encode_rune r @ x = encode_rune r' @ y \<Longrightarrow> r = r' \<and> x = y"
  by (metis decode_encode fst_conv same_append_eq)

definition escaped :: "rune \<Rightarrow> bool" where
  "escaped r \<longleftrightarrow> r < 0x20 \<or> r \<in> {0x22, 0x5C, 0x3C, 0x3E, 0x26, 0x2028, 0x2029}"

lemma json_rune_cases:
  obtains (short) ch where "(r, ch) \<in> set short_escapes" "json_rune r = [backslash, ch]" "ch \<noteq> CHR ''u''"
  | (long) "json_rune r = backslash # CHR ''u'' # hex4 r" "r < 65536" "map_of short_escapes r = None"
  | (raw) "json_rune r = encode_rune r" "r \<noteq> 0x5C" "r \<noteq> 0x22"
proof (cases "map_of short_escapes r")
  case None
  then have plain: "r \<noteq> 0x5C" "r \<noteq> 0x22" by (auto simp: short_escapes_def)
  show ?thesis
  proof (cases "r < 0x20 \<or> r = 0x3C \<or> r = 0x3E \<or> r = 0x26 \<or> r = 0x2028 \<or> r = 0x2029")
    case True
    then have "json_rune r = backslash # CHR ''u'' # hex4 r" using None by (simp add: json_rune_def)
    moreover have "r < 65536" using True by auto
    ultimately show ?thesis using None that(2) by blast
  next
    case False
    then have "json_rune r = encode_rune r" using None by (simp add: json_rune_def)
    with plain that(3) show ?thesis by blast
  qed
next
  case (Some ch)
  have "ch \<noteq> CHR ''u''" using map_of_SomeD [OF Some] by (auto simp: short_escapes_def char_of_def)
  with Some that(1) show ?thesis by (auto simp: json_rune_def dest: map_of_SomeD)
qed

lemma short_escapes_inject:
  "(r, ch) \<in> set short_escapes \<Longrightarrow> (r', ch) \<in> set short_escapes \<Longrightarrow> r = r'"
  by (auto simp: short_escapes_def char_of_def)

lemma encode_rune_hd:
  assumes "valid_rune r" and "b < 0x80" and "encode_rune r @ x = char_of b # y"
  shows "r = b"
  using encode_rune_prefix [of r b x y] assms encode_rune_ascii [of b] by (simp add: valid_rune_def)

lemma json_rune_prefix:
  assumes "valid_rune r" and "valid_rune r'" and "json_rune r @ x = json_rune r' @ y"
  shows "r = r' \<and> x = y"
proof -
  have raw: "False" if "json_rune a = encode_rune a" "a \<noteq> 0x5C" "valid_rune a" "encode_rune a @ u = backslash # v" for a u v
    using encode_rune_hd [OF that(3) _ that(4) [unfolded backslash_def]] that(2) by simp
  show ?thesis
  proof (cases rule: json_rune_cases [of r])
    case (short ch)
    show ?thesis
    proof (cases rule: json_rune_cases [of r'])
      case short': (short ch')
      with short assms(3) have "ch = ch'" "x = y" by simp_all
      with short(1) short'(1) short_escapes_inject show ?thesis by blast
    next
      case long
      with short assms(3) show ?thesis by auto
    next
      case raw': raw
      have "encode_rune r' @ y = [backslash, ch] @ x" using raw'(1) short(2) assms(3) by simp
      then show ?thesis using raw [OF raw'(1,2) assms(2)] by (metis append_Cons)
    qed
  next
    case long
    show ?thesis
    proof (cases rule: json_rune_cases [of r'])
      case (short ch')
      with long assms(3) show ?thesis by auto
    next
      case long': long
      with long assms(3) have "hex4 r = hex4 r'" "x = y" by (auto simp: append_eq_append_conv)
      with hex4_inject long(2) long'(2) show ?thesis by blast
    next
      case raw': raw
      have "encode_rune r' @ y = (backslash # CHR ''u'' # hex4 r) @ x" using raw'(1) long(1) assms(3) by simp
      then show ?thesis using raw [OF raw'(1,2) assms(2)] by (metis append_Cons)
    qed
  next
    case raw1: raw
    show ?thesis
    proof (cases rule: json_rune_cases [of r'])
      case (short ch')
      have "encode_rune r @ x = [backslash, ch'] @ y" using raw1(1) short(2) assms(3) by simp
      then show ?thesis using raw [OF raw1(1,2) assms(1)] by (metis append_Cons)
    next
      case long
      have "encode_rune r @ x = (backslash # CHR ''u'' # hex4 r') @ y" using raw1(1) long(1) assms(3) by simp
      then show ?thesis using raw [OF raw1(1,2) assms(1)] by (metis append_Cons)
    next
      case raw': raw
      with raw1 assms encode_rune_prefix show ?thesis by metis
    qed
  qed
qed

lemma json_rune_not_quote:
  assumes "valid_rune r"
  shows "json_rune r @ x \<noteq> quote_char # y"
proof (cases rule: json_rune_cases [of r])
  case raw
  with encode_rune_hd [OF assms, where b = "0x22" and x = x and y = y] show ?thesis
    by (auto simp: quote_char_def)
qed (simp_all add: backslash_def quote_char_def char_of_def)

lemma json_runes_prefix:
  assumes "\<forall>r \<in> set rs. valid_rune r" and "\<forall>r \<in> set rs'. valid_rune r"
    and "concat (map json_rune rs) @ quote_char # x = concat (map json_rune rs') @ quote_char # y"
  shows "rs = rs' \<and> x = y"
  using assms
proof (induction rs arbitrary: rs')
  case Nil
  show ?case
  proof (cases rs')
    case (Cons r rs'')
    then have "json_rune r @ (concat (map json_rune rs'') @ quote_char # y) = quote_char # x" "valid_rune r"
      using Nil.prems by simp_all
    then show ?thesis using json_rune_not_quote by blast
  qed (use Nil.prems in simp)
next
  case (Cons r rs)
  have v: "valid_rune r" using Cons.prems(1) by simp
  have "rs' \<noteq> []"
  proof
    assume "rs' = []"
    then have "json_rune r @ (concat (map json_rune rs) @ quote_char # x) = quote_char # y" using Cons.prems(3) by simp
    with json_rune_not_quote [OF v] show False by blast
  qed
  then obtain r' rs'' where rs': "rs' = r' # rs''" by (cases rs') auto
  have v': "valid_rune r'" using Cons.prems(2) rs' by simp
  have "json_rune r @ (concat (map json_rune rs) @ quote_char # x) = json_rune r' @ (concat (map json_rune rs'') @ quote_char # y)"
    using Cons.prems(3) rs' by simp
  from json_rune_prefix [OF v v' this]
  have "r = r'" and rest: "concat (map json_rune rs) @ quote_char # x = concat (map json_rune rs'') @ quote_char # y" by auto
  moreover have "rs = rs'' \<and> x = y" using Cons.IH [OF _ _ rest] Cons.prems(1,2) rs' by simp
  ultimately show ?case using rs' by simp
qed

lemma json_string_of_runes:
  assumes "\<forall>r \<in> set rs. valid_rune r"
  shows "json_string (of_runes rs) = [quote_char] @ concat (map json_rune rs) @ [quote_char]"
proof -
  have "json_chunk (r, encode_rune r) = json_rune r" for r
    using rune_error_encoding by (auto simp: json_chunk_def)
  moreover have "chunks (of_runes rs) = map (\<lambda>r. (r, encode_rune r)) rs"
    using assms by (induction rs) auto
  ultimately show ?thesis by (simp add: json_string_def comp_def)
qed

lemma json_string_prefix:
  assumes "valid_string s" and "valid_string t" and "json_string s @ x = json_string t @ y"
  shows "s = t \<and> x = y"
proof -
  obtain rs rt where rs: "s = of_runes rs" "\<forall>r \<in> set rs. valid_rune r"
    and rt: "t = of_runes rt" "\<forall>r \<in> set rt. valid_rune r"
    using assms(1,2) of_runes_runes valid_runes by metis
  have "concat (map json_rune rs) @ quote_char # x = concat (map json_rune rt) @ quote_char # y"
    using assms(3) json_string_of_runes [OF rs(2)] json_string_of_runes [OF rt(2)] rs(1) rt(1) by simp
  from json_runes_prefix [OF rs(2) rt(2) this] rs(1) rt(1) show ?thesis by simp
qed

lemma json_join_prefix:
  assumes "length ss = length ts" and "\<forall>s \<in> set (ss @ ts). valid_string s"
    and "strings_Join (map json_string ss) '','' @ x = strings_Join (map json_string ts) '','' @ y"
  shows "ss = ts \<and> x = y"
  using assms
proof (induction ss ts rule: list_induct2)
  case (Cons s ss t ts)
  show ?case
  proof (cases ss)
    case Nil
    with Cons json_string_prefix [of s t x y] show ?thesis by simp
  next
    case (Cons s2 ss2)
    then obtain t2 ts2 where ts: "ts = t2 # ts2" using \<open>length ss = length ts\<close> by (cases ts) auto
    have "json_string s @ ('','' @ strings_Join (map json_string ss) '','' @ x) =
        json_string t @ ('','' @ strings_Join (map json_string ts) '','' @ y)"
      using \<open>strings_Join (map json_string (s # ss)) '','' @ x = _\<close> Cons ts by simp
    from json_string_prefix [OF _ _ this] Cons.IH Cons.prems(1) show ?thesis by simp
  qed
qed simp

lemma json_strings_inject:
  assumes "length ss = length ts" and "\<forall>s \<in> set (ss @ ts). valid_string s" and "json_strings ss = json_strings ts"
  shows "ss = ts"
  using json_join_prefix [OF assms(1,2), of "'']''" "'']''"] assms(3) by (simp add: json_strings_def)

end
