(* ===== verification/Engine.thy ===== *)
theory Engine
  imports Registry Masking Context Policy Store Markers Json
begin

text \<open>
  \<^verbatim>\<open>internal/pii/engine/processor.go\<close> and \<^verbatim>\<open>verify.go\<close>: the processor that masks a text, keeps the
  pair of original and masked text under a key, and restores it. \<^verbatim>\<open>sha256.Sum256\<close> and \<^verbatim>\<open>hmac\<close> are
  the parameters \<open>pr_sum256\<close> and \<open>pr_hmac\<close> of the processor. A nil observer is \<^const>\<open>None\<close>; the
  flag of a present observer tells whether it also implements \<^verbatim>\<open>PIIContextObserver\<close>. Deferred
  calls of \<^verbatim>\<open>stage\<close> happen when the function returns. After \<^verbatim>\<open>ctx.Err()\<close> was not nil the context
  keeps returning the same error, so a test followed by a second call is one observation.
\<close>

section \<open>The processor and its events\<close>

record 'a Processor =
  pr_store :: "'a world_scheme store_ops"
  pr_registry :: Registry
  pr_metrics :: "bool option"
  pr_sum256 :: "bytes \<Rightarrow> bytes"
  pr_hmac :: "bytes \<Rightarrow> bytes \<Rightarrow> bytes"

definition observed :: "('a, 'b) Processor_scheme \<Rightarrow> event list \<Rightarrow> 'a world_scheme \<Rightarrow> 'a world_scheme" where
  "observed p es w = (if pr_metrics p = None then w else fold emit es w)"

definition stage :: "('a, 'b) Processor_scheme \<Rightarrow> bytes \<Rightarrow> 'a world_scheme \<Rightarrow> 'a world_scheme" where
  "stage p name w = observed p [ObserveStage name] w"

definition deferred_stage ::
  "('a, 'b) Processor_scheme \<Rightarrow> bytes \<Rightarrow> 'r \<times> 'a world_scheme \<Rightarrow> 'r \<times> 'a world_scheme"
where
  "deferred_stage p name rw = (fst rw, stage p name (snd rw))"

definition storeError :: "('a, 'b) Processor_scheme \<Rightarrow> bytes \<Rightarrow> 'a world_scheme \<Rightarrow> 'a world_scheme" where
  "storeError p operation w = observed p [ObserveStoreError operation] w"

definition typesOf :: "Finding list \<Rightarrow> bytes list" where
  "typesOf findings = map f_Type findings"

definition observe :: "('a, 'b) Processor_scheme \<Rightarrow> bytes \<Rightarrow> Finding list \<Rightarrow> 'a world_scheme \<Rightarrow> 'a world_scheme" where
  "observe p text findings w =
     observed p [ObserveFindings (typesOf findings), ObserveProcessed (length text) ((length text + 3) div 4)] w"

fun uniqueTypes_loop :: "bytes list \<Rightarrow> bytes list \<Rightarrow> bytes list" where
  "uniqueTypes_loop seen [] = []"
| "uniqueTypes_loop seen (t # ts) =
     (if t \<notin> set seen then t # uniqueTypes_loop (t # seen) ts else uniqueTypes_loop seen ts)"

definition uniqueTypes :: "bytes list \<Rightarrow> bytes list" where
  "uniqueTypes types = uniqueTypes_loop [] types"

definition failureOutcome :: "error \<Rightarrow> bytes \<Rightarrow> bytes" where
  "failureOutcome err fallback =
     (if err = ErrCanceled then ''cancelled''
      else if err = ErrDeadlineExceeded then ''deadline_exceeded''
      else if err = ErrInvalidPolicy then ''invalid_policy''
      else fallback)"

definition logOp ::
  "('a, 'b) Processor_scheme \<Rightarrow> bytes \<Rightarrow> Scope \<Rightarrow> bytes \<Rightarrow> bytes list \<Rightarrow> nat \<Rightarrow> 'a world_scheme \<Rightarrow> 'a world_scheme"
where
  "logOp p operation scope outcome types textLen w =
     observed p [ObserveOperation \<lparr>oe_Operation = operation, oe_System = s_TenantID scope, oe_RequestID = w_reqid w,
       oe_Outcome = outcome, oe_Types = uniqueTypes types, oe_Bytes = textLen\<rparr>] w"

text \<open>Readiness: both fields may be nil pointers, and the health check of a store is optional.\<close>

definition Check ::
  "'a world_scheme store_ops option \<Rightarrow> Registry option \<Rightarrow> 'a world_scheme \<Rightarrow> error option \<times> 'a world_scheme"
where
  "Check st registry w =
     (case (st, registry) of
        (Some ops, Some r) \<Rightarrow> (case so_Check ops of Some check \<Rightarrow> check w | None \<Rightarrow> (None, w))
      | _ \<Rightarrow> (Some (ErrText ''PII is not configured''), w))"

section \<open>Keys and the store\<close>

definition validate :: "('a, 'b) Processor_scheme \<Rightarrow> Scope \<Rightarrow> error option" where
  "validate p scope =
     (if s_TenantID scope = [] \<or> s_ContextID scope = [] then Some ErrInvalidRequest
      else ValidateContract (s_Policy scope) (SupportedTypeNames (pr_registry p)))"

definition key :: "('a, 'b) Processor_scheme \<Rightarrow> Scope \<Rightarrow> bytes \<Rightarrow> bytes" where
  "key p scope namespace =
     hex_encode (pr_sum256 p (json_strings [s_TenantID scope, namespace, s_ContextID scope]))"

text \<open>The record is \<^const>\<open>None\<close> when the flag of the source is false.\<close>

definition read_checked ::
  "('a, 'b) Processor_scheme \<Rightarrow> bytes \<Rightarrow> 'a world_scheme \<Rightarrow> (error + Record option) \<times> 'a world_scheme"
where
  "read_checked p rid w =
     (case so_Get (pr_store p) rid w of
        (res, w) \<Rightarrow>
          (case ctx_Err w of
             (Some e, w) \<Rightarrow> (Inl e, w)
           | (None, w) \<Rightarrow>
               (case res of
                  Inl e \<Rightarrow> (Inl ErrStoreUnavailable, storeError p ''read'' w)
                | Inr (rec, False) \<Rightarrow> (Inr None, w)
                | Inr (None, True) \<Rightarrow> (Inl ErrStoreUnavailable, w)
                | Inr (Some rec, True) \<Rightarrow>
                    if rec_ExpiresAt rec = None then (Inr (Some rec), w)
                    else
                      (case time_Now w of (now, w) \<Rightarrow>
                         if passed now (rec_ExpiresAt rec) then (Inr None, w) else (Inr (Some rec), w)))))"

definition read ::
  "('a, 'b) Processor_scheme \<Rightarrow> bytes \<Rightarrow> 'a world_scheme \<Rightarrow> (error + Record option) \<times> 'a world_scheme"
where
  "read p rid w =
     (case ctx_Err w of
        (Some e, w) \<Rightarrow> (Inl e, w)
      | (None, w) \<Rightarrow> deferred_stage p ''store_read'' (read_checked p rid w))"

definition save_checked ::
  "('a, 'b) Processor_scheme \<Rightarrow> bytes \<Rightarrow> Record \<Rightarrow> 'a world_scheme \<Rightarrow> (error + Record \<times> bool) \<times> 'a world_scheme"
where
  "save_checked p rid rec w =
     (case so_CreateIfAbsent (pr_store p) rid rec w of
        (res, w) \<Rightarrow>
          (case ctx_Err w of
             (Some e, w) \<Rightarrow> (Inl e, w)
           | (None, w) \<Rightarrow>
               (case res of
                  Inl e \<Rightarrow> (Inl ErrStoreUnavailable, storeError p ''write'' w)
                | Inr (None, created) \<Rightarrow> (Inl ErrStoreUnavailable, storeError p ''write'' w)
                | Inr (Some saved, created) \<Rightarrow>
                    if rec_ExpiresAt saved = None then (Inr (saved, created), w)
                    else
                      (case time_Now w of (now, w) \<Rightarrow>
                         if passed now (rec_ExpiresAt saved) then (Inl ErrStoreUnavailable, w)
                         else (Inr (saved, created), w)))))"

definition save ::
  "('a, 'b) Processor_scheme \<Rightarrow> bytes \<Rightarrow> Record \<Rightarrow> 'a world_scheme \<Rightarrow> (error + Record \<times> bool) \<times> 'a world_scheme"
where
  "save p rid rec w =
     (case ctx_Err w of
        (Some e, w) \<Rightarrow> (Inl e, w)
      | (None, w) \<Rightarrow> deferred_stage p ''store_write'' (save_checked p rid rec w))"

section \<open>Detection\<close>

definition observe_context :: "('a, 'b) Processor_scheme \<Rightarrow> ContextStats \<Rightarrow> 'a world_scheme \<Rightarrow> 'a world_scheme" where
  "observe_context p st w =
     (if pr_metrics p = Some True then
        fold emit (concat (map (\<lambda>typ.
          [ObserveContextDecision typ ''promoted'' (cs_Promoted st typ),
           ObserveContextDecision typ ''suppressed'' (cs_Suppressed st typ)]) [TypeFullName, TypeAddress])) w
      else w)"

definition request_filter :: "CPolicy \<Rightarrow> Policy" where
  "request_filter pol =
     (New_policy ''request'')\<lparr>
        po_Types := map_option (map (\<lambda>typ. (typ, True))) (cp_MaskTypes pol),
        po_Rules := map (\<lambda>r. \<lparr>ru_Type = pr_Type r, ru_Requires = pr_Requires r\<rparr>) (cp_Rules pol)\<rparr>"

text \<open>The findings the policy applies to, once the candidates are accepted.\<close>

definition select_findings :: "CPolicy \<Rightarrow> Finding list \<Rightarrow> Finding list" where
  "select_findings pol all = ResolveOverlaps (Apply (request_filter pol) all (map f_Type all))"

definition detect ::
  "('a, 'b) Processor_scheme \<Rightarrow> bytes \<Rightarrow> CPolicy \<Rightarrow> 'a world_scheme \<Rightarrow> (error + Finding list) \<times> 'a world_scheme"
where
  "detect p text pol w = deferred_stage p ''detect''
     (case CollectCandidates (pr_registry p) text (cp_DetectTypes pol) w of
        (Inl err, w) \<Rightarrow>
          (case ctx_Err w of (Some e, w) \<Rightarrow> (Inl e, w) | (None, w) \<Rightarrow> (Inl ErrDetectionUnavailable, w))
      | (Inr all, w) \<Rightarrow>
          (case ResolveContext text all of (all, st) \<Rightarrow>
             (case ctx_Err (observe_context p st w) of
                (Some e, w) \<Rightarrow> (Inl e, w)
              | (None, w) \<Rightarrow> (Inr (select_findings pol (FilterConfidence all (cp_DetectionProfile pol))), w))))"

section \<open>Verification of a result\<close>

definition criticalTypes :: "bytes list" where
  "criticalTypes =
     [''phone'', ''email'', ''card_number'', ''cvv'', ''card_pin'', ''inn'', ''passport_number'', ''driver_license'']"

definition selectedType :: "bytes list option \<Rightarrow> bytes \<Rightarrow> bool" where
  "selectedType types typ = (case types of None \<Rightarrow> True | Some ts \<Rightarrow> typ \<in> set ts)"

definition conditional :: "CPolicy \<Rightarrow> bytes \<Rightarrow> bool" where
  "conditional pol typ = list_ex (\<lambda>rule. pr_Type rule = typ \<and> pr_Requires rule \<noteq> []) (cp_Rules pol)"

definition verificationTypes :: "CPolicy \<Rightarrow> Finding list \<Rightarrow> bytes list" where
  "verificationTypes pol applied =
     filter (\<lambda>typ. \<not> (conditional pol typ \<and> typ \<notin> set (map f_Type applied)) \<and>
       selectedType (cp_DetectTypes pol) typ \<and> selectedType (cp_MaskTypes pol) typ) criticalTypes"

definition verify ::
  "('a, 'b) Processor_scheme \<Rightarrow> bytes \<Rightarrow> CPolicy \<Rightarrow> Finding list \<Rightarrow> 'a world_scheme \<Rightarrow> error option \<times> 'a world_scheme"
where
  "verify p masked pol applied w = deferred_stage p ''verify''
     (let types = verificationTypes pol applied in
      if types = [] then ctx_Err w
      else
        (case Collect (pr_registry p) (hideMarkers masked) (Some types) w of
           (res, w) \<Rightarrow>
             (case ctx_Err w of
                (Some e, w) \<Rightarrow> (Some e, w)
              | (None, w) \<Rightarrow>
                  (case res of
                     Inl e \<Rightarrow> (Some ErrDetectionUnavailable, w)
                   | Inr findings \<Rightarrow>
                       if length (FilterConfidence findings (cp_DetectionProfile pol)) > 0
                       then (Some ErrDetectionUnavailable, w)
                       else (None, w)))))"

section \<open>Masking\<close>

record mask_state =
  ms_cursor :: int
  ms_out :: bytes
  ms_mapping :: "bytes \<rightharpoonup> bytes"
  ms_tokens :: tokenTable

definition mask_start :: "bytes \<Rightarrow> bytes \<Rightarrow> mask_state" where
  "mask_start text nonce =
     \<lparr>ms_cursor = 0, ms_out = [], ms_mapping = Map.empty, ms_tokens = newTokenTable text nonce\<rparr>"

definition mask_one :: "(bytes \<Rightarrow> bytes \<Rightarrow> bytes) \<Rightarrow> bytes \<Rightarrow> bytes \<Rightarrow> Finding \<Rightarrow> mask_state \<Rightarrow> mask_state" where
  "mask_one hmac text nonce f st =
     (let out = ms_out st @ span text (ms_cursor st) (f_Start f);
          value = span text (f_Start f) (f_End f) in
      if nonce \<noteq> [] then
        (case token hmac (f_Type f) value (ms_tokens st) of (replacement, tokens) \<Rightarrow>
           \<lparr>ms_cursor = f_End f, ms_out = out @ replacement,
            ms_mapping = (ms_mapping st)(replacement \<mapsto> value), ms_tokens = tokens\<rparr>)
      else st\<lparr>ms_cursor := f_End f, ms_out := out @ Mask_value (f_Type f) value\<rparr>)"

fun mask_loop ::
  "(bytes \<Rightarrow> bytes \<Rightarrow> bytes) \<Rightarrow> bytes \<Rightarrow> bytes \<Rightarrow> Finding list \<Rightarrow> mask_state \<Rightarrow> 'a world_scheme \<Rightarrow>
   (error + mask_state) \<times> 'a world_scheme"
where
  "mask_loop hmac text nonce [] st w = (Inr st, w)"
| "mask_loop hmac text nonce (f # fs) st w =
     (case ctx_Err w of
        (Some e, w) \<Rightarrow> (Inl e, w)
      | (None, w) \<Rightarrow> mask_loop hmac text nonce fs (mask_one hmac text nonce f st) w)"

text \<open>What \<^verbatim>\<open>mask\<close> returns besides the error: masked text, mapping, findings, nonce.\<close>

type_synonym mask_result = "bytes \<times> (bytes \<rightharpoonup> bytes) \<times> Finding list \<times> bytes"

definition mask_with ::
  "('a, 'b) Processor_scheme \<Rightarrow> bytes \<Rightarrow> CPolicy \<Rightarrow> Finding list \<Rightarrow> bytes \<Rightarrow> 'a world_scheme \<Rightarrow>
   (error + mask_result) \<times> 'a world_scheme"
where
  "mask_with p text pol findings nonce w =
     (case mask_loop (pr_hmac p) text nonce findings (mask_start text nonce) w of
        (Inl e, w) \<Rightarrow> (Inl e, w)
      | (Inr st, w) \<Rightarrow>
          (let masked = ms_out st @ drop (nat (ms_cursor st)) text in
           if findings \<noteq> [] then
             (case verify p masked pol findings w of
                (Some e, w) \<Rightarrow> (Inl e, w)
              | (None, w) \<Rightarrow> (Inr (masked, ms_mapping st, findings, nonce), w))
           else (Inr (masked, ms_mapping st, findings, nonce), w)))"

definition token_mode :: "CPolicy \<Rightarrow> bool \<Rightarrow> bool" where
  "token_mode pol forceTokens \<longleftrightarrow> forceTokens \<or> cp_Mode pol = ''tokens'' \<or> cp_DetectionProfile pol = ProfileStrict"

definition mask ::
  "('a, 'b) Processor_scheme \<Rightarrow> bytes \<Rightarrow> CPolicy \<Rightarrow> bool \<Rightarrow> 'a world_scheme \<Rightarrow> (error + mask_result) \<times> 'a world_scheme"
where
  "mask p text pol forceTokens w =
     (case detect p text pol w of
        (Inl e, w) \<Rightarrow> (Inl e, w)
      | (Inr findings, w) \<Rightarrow> deferred_stage p ''mask''
          (if token_mode pol forceTokens then
             (case rand_Read w of
                (None, w) \<Rightarrow> (Inl ErrDetectionUnavailable, w)
              | (Some b, w) \<Rightarrow> mask_with p text pol findings (hex_encode b) w)
           else mask_with p text pol findings [] w))"

definition make_record :: "bytes \<Rightarrow> mask_result \<Rightarrow> CPolicy \<Rightarrow> 'a world_scheme \<Rightarrow> Record \<times> 'a world_scheme" where
  "make_record text res pol w =
     (case res of (masked, mapping, findings, nonce) \<Rightarrow>
        (case time_Now w of (now, w) \<Rightarrow>
           (\<lparr>rec_Original = text, rec_Masked = masked, rec_Findings = [], rec_TransformMap = mapping,
             rec_TokenNonce = nonce, rec_CreatedAt = Some now, rec_ExpiresAt = Some (now + cp_TTL pol),
             rec_PolicyVersion = cp_Version pol\<rparr>, w)))"

section \<open>Process\<close>

definition processExisting :: "Record \<Rightarrow> bytes \<Rightarrow> bool \<Rightarrow> error + bytes" where
  "processExisting rec text allow =
     (if rec_Original rec = text then Inr (rec_Masked rec)
      else if rec_Masked rec = text then (if \<not> allow then Inl ErrDemaskDenied else Inr (rec_Original rec))
      else Inl ErrConflict)"

definition outcomeOf :: "error + bytes \<Rightarrow> bool \<Rightarrow> bytes" where
  "outcomeOf res wasMasked =
     (if res = Inl ErrDemaskDenied then ''demask_denied''
      else if res = Inl ErrConflict then ''conflict''
      else if wasMasked then ''demasked''
      else ''masked_existing'')"

definition was_masked :: "Record \<Rightarrow> bytes \<Rightarrow> bool" where
  "was_masked rec text \<longleftrightarrow> rec_Original rec \<noteq> text \<and> rec_Masked rec = text"

definition Process_new ::
  "('a, 'b) Processor_scheme \<Rightarrow> Scope \<Rightarrow> bytes \<Rightarrow> bytes \<Rightarrow> 'a world_scheme \<Rightarrow> (error + bytes) \<times> 'a world_scheme"
where
  "Process_new p scope rid text w =
     (case mask p text (s_Policy scope) False w of
        (Inl err, w) \<Rightarrow>
          (Inl err, logOp p ''process'' scope (failureOutcome err ''detection_failed'') [] (length text) w)
      | (Inr res, w) \<Rightarrow>
          (let findings = fst (snd (snd res)); types = typesOf findings in
           case make_record text res (s_Policy scope) w of (new, w) \<Rightarrow>
             (case save p rid new w of
                (Inl err, w) \<Rightarrow>
                  (Inl err, logOp p ''process'' scope (failureOutcome err ''store_unavailable'') types (length text) w)
              | (Inr (rec, created), w) \<Rightarrow>
                  (let w = (if created then observe p text findings w else w);
                       result = processExisting rec text (cp_AllowDemask (s_Policy scope));
                       outcome = (if created \<and> isl result = False then ''masked_new''
                                  else outcomeOf result (was_masked rec text)) in
                   (result, logOp p ''process'' scope outcome types (length text) w)))))"

definition Process ::
  "('a, 'b) Processor_scheme \<Rightarrow> Scope \<Rightarrow> bytes \<Rightarrow> 'a world_scheme \<Rightarrow> (error + bytes) \<times> 'a world_scheme"
where
  "Process p scope text w =
     (case validate p scope of
        Some err \<Rightarrow> (Inl err, logOp p ''process'' scope (failureOutcome err ''invalid_request'') [] (length text) w)
      | None \<Rightarrow>
          (let rid = key p scope ''process'' in
           case read p rid w of
             (Inl err, w) \<Rightarrow>
               (Inl err, logOp p ''process'' scope (failureOutcome err ''store_unavailable'') [] (length text) w)
           | (Inr (Some rec), w) \<Rightarrow>
               (let result = processExisting rec text (cp_AllowDemask (s_Policy scope)) in
                (result, logOp p ''process'' scope (outcomeOf result (was_masked rec text)) [] (length text) w))
           | (Inr None, w) \<Rightarrow> Process_new p scope rid text w))"

section \<open>Mask\<close>

text \<open>The end of \<^verbatim>\<open>Mask\<close>, common to an existing and a new record.\<close>

definition Mask_answer ::
  "('a, 'b) Processor_scheme \<Rightarrow> Scope \<Rightarrow> bytes \<Rightarrow> Record \<Rightarrow> bytes list \<Rightarrow> bytes \<Rightarrow> 'a world_scheme \<Rightarrow>
   (error + Masked) \<times> 'a world_scheme"
where
  "Mask_answer p scope text rec types outcome w =
     (if rec_Original rec \<noteq> text then
        (Inl ErrConflict, logOp p ''mask'' scope ''conflict'' types (length text) w)
      else
        (Inr \<lparr>m_Text = rec_Masked rec, m_ContextID = s_ContextID scope, m_PolicyVersion = rec_PolicyVersion rec\<rparr>,
         logOp p ''mask'' scope outcome types (length text) w))"

definition Mask_new ::
  "('a, 'b) Processor_scheme \<Rightarrow> Scope \<Rightarrow> bytes \<Rightarrow> bytes \<Rightarrow> 'a world_scheme \<Rightarrow> (error + Masked) \<times> 'a world_scheme"
where
  "Mask_new p scope rid text w =
     (case mask p text (s_Policy scope) True w of
        (Inl err, w) \<Rightarrow>
          (Inl err, logOp p ''mask'' scope (failureOutcome err ''detection_failed'') [] (length text) w)
      | (Inr res, w) \<Rightarrow>
          (let findings = fst (snd (snd res)); types = typesOf findings in
           case make_record text res (s_Policy scope) w of (new, w) \<Rightarrow>
             (case save p rid new w of
                (Inl err, w) \<Rightarrow>
                  (Inl err, logOp p ''mask'' scope (failureOutcome err ''store_unavailable'') types (length text) w)
              | (Inr (rec, created), w) \<Rightarrow>
                  (if created then Mask_answer p scope text rec types ''masked_new'' (observe p text findings w)
                   else Mask_answer p scope text rec types ''masked_existing'' w))))"

definition Mask ::
  "('a, 'b) Processor_scheme \<Rightarrow> Scope \<Rightarrow> bytes \<Rightarrow> 'a world_scheme \<Rightarrow> (error + Masked) \<times> 'a world_scheme"
where
  "Mask p scope text w =
     (case validate p scope of
        Some err \<Rightarrow> (Inl err, logOp p ''mask'' scope (failureOutcome err ''invalid_request'') [] (length text) w)
      | None \<Rightarrow>
          (let rid = key p scope ''generate'' in
           case read p rid w of
             (Inl err, w) \<Rightarrow>
               (Inl err, logOp p ''mask'' scope (failureOutcome err ''store_unavailable'') [] (length text) w)
           | (Inr (Some rec), w) \<Rightarrow> Mask_answer p scope text rec [] ''masked_existing'' w
           | (Inr None, w) \<Rightarrow> Mask_new p scope rid text w))"

section \<open>Demask\<close>

text \<open>The two loops of the source share one index into the spans.\<close>

fun findingsCrossMarkers :: "Finding list \<Rightarrow> (nat \<times> nat) list \<Rightarrow> bool" where
  "findingsCrossMarkers [] spans = False"
| "findingsCrossMarkers (f # fs) spans =
     (let spans = dropWhile (\<lambda>s. int (snd s) \<le> f_Start f) spans in
      case spans of
        [] \<Rightarrow> findingsCrossMarkers fs spans
      | s # _ \<Rightarrow>
          if f_Start f < int (snd s) \<and> int (fst s) < f_End f then True else findingsCrossMarkers fs spans)"

fun redact_loop :: "bytes \<Rightarrow> Finding list \<Rightarrow> int \<Rightarrow> bytes \<Rightarrow> bytes" where
  "redact_loop text [] cursor out = out @ drop (nat cursor) text"
| "redact_loop text (f # fs) cursor out =
     redact_loop text fs (f_End f) (out @ span text cursor (f_Start f) @ ''[REDACTED]'')"

definition Demask_scan ::
  "('a, 'b) Processor_scheme \<Rightarrow> Scope \<Rightarrow> bytes \<Rightarrow> Record \<Rightarrow> 'a world_scheme \<Rightarrow> (error + bytes) \<times> 'a world_scheme"
where
  "Demask_scan p scope text rec w =
     (let spans = marker_spans text; scan = hideMarkerSpans text spans in
      case detect p scan (s_Policy scope) w of
        (Inl err, w) \<Rightarrow>
          (Inl err, logOp p ''demask'' scope (failureOutcome err ''detection_failed'') [] (length text) w)
      | (Inr findings, w) \<Rightarrow>
          (let types = typesOf findings in
           if findingsCrossMarkers findings spans then
             (Inl ErrDetectionUnavailable, logOp p ''demask'' scope ''marker_conflict'' types (length text) w)
           else
             (let result = redact_loop text findings 0 [] in
              case ctx_Err w of
                (Some err, w) \<Rightarrow>
                  (Inl err, logOp p ''demask'' scope (failureOutcome err ''cancelled'') types (length text) w)
              | (None, w) \<Rightarrow>
                  if \<not> cp_AllowDemask (s_Policy scope) then
                    (Inr result, logOp p ''demask'' scope ''sanitized_only'' types (length text) w)
                  else
                    (Inr (restoreTokens result (rec_TransformMap rec)),
                     logOp p ''demask'' scope ''demasked'' types (length text) w))))"

definition Demask ::
  "('a, 'b) Processor_scheme \<Rightarrow> Scope \<Rightarrow> bytes \<Rightarrow> 'a world_scheme \<Rightarrow> (error + bytes) \<times> 'a world_scheme"
where
  "Demask p scope text w =
     (case validate p scope of
        Some err \<Rightarrow> (Inl err, logOp p ''demask'' scope (failureOutcome err ''invalid_request'') [] (length text) w)
      | None \<Rightarrow>
          (case read p (key p scope ''generate'') w of
             (Inl err, w) \<Rightarrow>
               (Inl err, logOp p ''demask'' scope (failureOutcome err ''store_unavailable'') [] (length text) w)
           | (Inr None, w) \<Rightarrow> (Inl ErrContextGone, logOp p ''demask'' scope ''context_gone'' [] (length text) w)
           | (Inr (Some rec), w) \<Rightarrow>
               if cp_AllowDemask (s_Policy scope) \<and> text = rec_Masked rec then
                 (Inr (rec_Original rec), logOp p ''demask'' scope ''demasked'' [] (length text) w)
               else deferred_stage p ''demask'' (Demask_scan p scope text rec w)))"

end
