(* ===== verification/Engine_Frame.thy ===== *)
theory Engine_Frame
  imports Engine
begin

text \<open>
  What the steps of the processor leave alone: the sources of the world, the records of the store
  and the operation events. Everything but \<^verbatim>\<open>save\<close> and the expiry in \<^verbatim>\<open>read\<close> keeps the view of the
  store, and only \<^verbatim>\<open>logOp\<close> reports an operation.
\<close>

section \<open>Operation events\<close>

fun is_operation :: "event \<Rightarrow> bool" where
  "is_operation (ObserveOperation e) = True"
| "is_operation _ = False"

definition operations :: "'a world_scheme \<Rightarrow> event list" where
  "operations w = filter is_operation (w_log w)"

lemma operations_steps [simp]:
  "operations (snd (ctx_Err w)) = operations w" "operations (snd (time_Now w)) = operations w"
  "operations (snd (rand_Read w)) = operations w"
  by (simp_all add: operations_def ctx_Err_def time_Now_def rand_Read_def)

lemma operations_emit: "operations (emit e w) = operations w @ filter is_operation [e]"
  by (simp add: operations_def emit_def)

lemma operations_fold: "operations (fold emit es w) = operations w @ filter is_operation es"
  by (induction es arbitrary: w) (auto simp: operations_emit)

section \<open>A generic frame\<close>

text \<open>
  A relation between an earlier and a later world that every observation of the surroundings and every event other
  than an operation keeps up. Then every step that does not use the store keeps it up.
\<close>

locale world_order =
  fixes R :: "'a world_scheme \<Rightarrow> 'a world_scheme \<Rightarrow> bool"
  assumes R_refl: "R w w" and R_trans: "R w v \<Longrightarrow> R v u \<Longrightarrow> R w u"
    and R_ctx: "R w (snd (ctx_Err w))" and R_time: "R w (snd (time_Now w))"
    and R_rand: "R w (snd (rand_Read w))" and R_emit: "\<not> is_operation e \<Longrightarrow> R w (emit e w)"
begin

lemma R_report: "R v w \<Longrightarrow> \<not> is_operation e \<Longrightarrow> R v (emit e w)"
  using R_trans R_emit by blast

lemma R_fold: "list_all (\<lambda>e. \<not> is_operation e) es \<Longrightarrow> R v w \<Longrightarrow> R v (fold emit es w)"
  by (induction es arbitrary: w) (auto intro: R_report)

lemma R_observed: "list_all (\<lambda>e. \<not> is_operation e) es \<Longrightarrow> R v w \<Longrightarrow> R v (observed p es w)"
  by (simp add: observed_def R_fold)

lemma R_events:
  assumes "R v w"
  shows "R v (stage p name w)" "R v (storeError p name w)" "R v (observe p text fs w)" "R v (observe_context p st w)"
  using assms by (auto simp: stage_def storeError_def observe_def observe_context_def intro!: R_observed R_report)

lemma R_deferred: "R v (snd rw) \<Longrightarrow> R v (snd (deferred_stage p name rw))"
  by (simp add: deferred_stage_def R_events)

lemma R_ctx_eq: "ctx_Err w = (e, w') \<Longrightarrow> R v w \<Longrightarrow> R v w'"
  and R_time_eq: "time_Now w = (t, w') \<Longrightarrow> R v w \<Longrightarrow> R v w'"
  and R_rand_eq: "rand_Read w = (b, w') \<Longrightarrow> R v w \<Longrightarrow> R v w'"
  using R_ctx [of w] R_time [of w] R_rand [of w] R_trans by (metis snd_conv)+

lemma R_collect_loop: "collect_loop ds input view wanted candidates covered out w = (res, w') \<Longrightarrow> R v w \<Longrightarrow> R v w'"
proof (induction ds arbitrary: covered out w)
  case (Cons d ds)
  show ?case
    using Cons.prems
    by (cases d) (auto split: prod.splits option.splits bool.splits sum.splits intro: R_ctx_eq dest!: Cons.IH)
qed simp

lemma R_collect: "collect r input types candidates w = (res, w') \<Longrightarrow> R v w \<Longrightarrow> R v w'"
  by (auto simp: collect_def Let_def split: if_splits prod.splits sum.splits dest: R_collect_loop)

lemma R_detect: "R v w \<Longrightarrow> R v (snd (detect p text pol w))"
  unfolding detect_def CollectCandidates_def
  by (rule R_deferred) (auto split: prod.splits option.splits sum.splits intro: R_collect R_ctx_eq R_events)

lemma R_verify: "R v w \<Longrightarrow> R v (snd (verify p masked pol applied w))"
  unfolding verify_def Collect_def
  by (rule R_deferred)
    (auto simp: Let_def split: prod.splits option.splits sum.splits intro: R_collect R_ctx_eq R_trans [OF _ R_ctx])

lemma R_mask_loop: "mask_loop hmac text nonce fs st w = (res, w') \<Longrightarrow> R v w \<Longrightarrow> R v w'"
  by (induction fs arbitrary: st w) (auto split: prod.splits option.splits dest: R_ctx_eq)

lemma R_verify_eq: "verify p masked pol applied w = (r, w') \<Longrightarrow> R v w \<Longrightarrow> R v w'"
  and R_detect_eq: "detect p text pol w = (d, w') \<Longrightarrow> R v w \<Longrightarrow> R v w'"
  using R_verify R_detect by (metis snd_conv)+

lemma R_mask_with: "R v w \<Longrightarrow> R v (snd (mask_with p text pol fs nonce w))"
  by (auto simp: mask_with_def Let_def split: prod.splits option.splits sum.splits intro: R_mask_loop R_verify_eq)

lemma R_mask: "R v w \<Longrightarrow> R v (snd (mask p text pol force w))"
  by (auto simp: mask_def split: prod.splits option.splits sum.splits intro!: R_deferred R_mask_with intro: R_rand_eq R_detect_eq)

lemma R_make_record: "R v w \<Longrightarrow> R v (snd (make_record text res pol w))"
  by (auto simp: make_record_def split: prod.splits intro: R_time_eq)

end

text \<open>
  A quantity of the world that neither the observations of the surroundings nor an event other than
  an operation changes. Both the view of a store and the list of operations are such.
\<close>

locale world_frame =
  fixes q :: "'a world_scheme \<Rightarrow> 'q"
  assumes q_ctx: "q (snd (ctx_Err w)) = q w" and q_time: "q (snd (time_Now w)) = q w"
    and q_rand: "q (snd (rand_Read w)) = q w" and q_emit: "\<not> is_operation e \<Longrightarrow> q (emit e w) = q w"

sublocale world_frame \<subseteq> order: world_order "\<lambda>w w'. q w' = q w"
  by unfold_locales (simp_all add: q_ctx q_time q_rand q_emit)

context world_frame
begin

lemma q_events [simp]:
  "q (stage p name w) = q w" "q (storeError p name w) = q w" "q (observe p text fs w) = q w"
  "q (observe_context p st w) = q w"
  by (rule order.R_events, rule refl)+

lemma q_deferred [simp]: "q (snd (deferred_stage p name rw)) = q (snd rw)"
  by (rule order.R_deferred) (rule refl)

lemma q_ctx_eq: "ctx_Err w = (e, w') \<Longrightarrow> q w' = q w"
  and q_time_eq: "time_Now w = (t, w') \<Longrightarrow> q w' = q w"
  and q_rand_eq: "rand_Read w = (b, w') \<Longrightarrow> q w' = q w"
  using order.R_ctx_eq order.R_time_eq order.R_rand_eq by blast+

lemma q_detect: "q (snd (detect p text pol w)) = q w"
  by (rule order.R_detect) (rule refl)

lemma q_mask: "q (snd (mask p text pol force w)) = q w"
  by (rule order.R_mask) (rule refl)

lemma q_make_record: "q (snd (make_record text res pol w)) = q w"
  by (rule order.R_make_record) (rule refl)

end

text \<open>
  With a store whose two operations keep the relation up, and all events, the whole processor does.
\<close>

locale store_order = world_order R for R :: "'a world_scheme \<Rightarrow> 'a world_scheme \<Rightarrow> bool" +
  fixes ops :: "'a world_scheme store_ops"
  assumes R_get: "R w (snd (so_Get ops rid w))" and R_create: "R w (snd (so_CreateIfAbsent ops rid rec w))"
    and R_any_emit: "R w (emit e w)"
begin

lemma R_get_eq: "so_Get st rid w = (r, w') \<Longrightarrow> st = ops \<Longrightarrow> R v w \<Longrightarrow> R v w'"
  and R_create_eq: "so_CreateIfAbsent st rid rec w = (r, w') \<Longrightarrow> st = ops \<Longrightarrow> R v w \<Longrightarrow> R v w'"
  using R_get [of w rid] R_create [of w rid rec] R_trans by (metis snd_conv)+

lemma R_logOp: "R v w \<Longrightarrow> R v (logOp p operation scope outcome types n w)"
  using R_trans [OF _ R_any_emit] by (simp add: logOp_def observed_def)

lemma R_read_checked: "pr_store p = ops \<Longrightarrow> R v w \<Longrightarrow> R v (snd (read_checked p rid w))"
  by (auto simp: read_checked_def split: prod.splits option.splits sum.splits bool.splits
      intro!: R_events(2) elim!: R_time_eq R_ctx_eq R_get_eq)

lemma R_save_checked: "pr_store p = ops \<Longrightarrow> R v w \<Longrightarrow> R v (snd (save_checked p rid rec w))"
  by (auto simp: save_checked_def split: prod.splits option.splits sum.splits bool.splits
      intro!: R_events(2) elim!: R_time_eq R_ctx_eq R_create_eq)

lemma R_read: "pr_store p = ops \<Longrightarrow> R v w \<Longrightarrow> R v (snd (read p rid w))"
  by (auto simp: read_def split: prod.splits option.splits intro!: R_deferred R_read_checked elim!: R_ctx_eq)

lemma R_save: "pr_store p = ops \<Longrightarrow> R v w \<Longrightarrow> R v (snd (save p rid rec w))"
  by (auto simp: save_def split: prod.splits option.splits intro!: R_deferred R_save_checked elim!: R_ctx_eq)

lemma R_read_eq: "read p rid w = (x, w') \<Longrightarrow> pr_store p = ops \<Longrightarrow> R v w \<Longrightarrow> R v w'"
  and R_save_eq: "save p rid rec w = (y, w') \<Longrightarrow> pr_store p = ops \<Longrightarrow> R v w \<Longrightarrow> R v w'"
  using R_read R_save by (metis snd_conv)+

lemma R_mask_eq: "mask p text pol force w = (r, w') \<Longrightarrow> R v w \<Longrightarrow> R v w'"
  and R_make_record_eq: "make_record text res pol w = (rec, w') \<Longrightarrow> R v w \<Longrightarrow> R v w'"
  using R_mask R_make_record by (metis snd_conv)+

lemma R_Process_new: "pr_store p = ops \<Longrightarrow> R v w \<Longrightarrow> R v (snd (Process_new p scope rid text w))"
  by (auto simp: Process_new_def Let_def split: prod.splits sum.splits
      intro!: R_logOp R_events(3) elim!: R_save_eq R_make_record_eq R_mask_eq)

lemma R_Process: "pr_store p = ops \<Longrightarrow> R w (snd (Process p scope text w))"
  by (auto simp: Process_def Let_def split: prod.splits sum.splits option.splits
      intro!: R_logOp R_Process_new intro: R_read_eq R_refl)

lemma R_Mask_answer: "R v w \<Longrightarrow> R v (snd (Mask_answer p scope text rec types outcome w))"
  by (simp add: Mask_answer_def R_logOp)

lemma R_Mask_new: "pr_store p = ops \<Longrightarrow> R v w \<Longrightarrow> R v (snd (Mask_new p scope rid text w))"
  by (auto simp: Mask_new_def Let_def split: prod.splits sum.splits
      intro!: R_logOp R_Mask_answer R_events(3) elim!: R_save_eq R_make_record_eq R_mask_eq)

lemma R_Mask: "pr_store p = ops \<Longrightarrow> R w (snd (Mask p scope text w))"
  by (auto simp: Mask_def Let_def split: prod.splits sum.splits option.splits
      intro!: R_logOp R_Mask_answer R_Mask_new intro: R_read_eq R_refl)

lemma R_Demask_scan: "R v w \<Longrightarrow> R v (snd (Demask_scan p scope text rec w))"
  by (auto simp: Demask_scan_def Let_def split: prod.splits sum.splits option.splits
      intro!: R_logOp intro: R_ctx_eq R_detect_eq)

lemma R_Demask: "pr_store p = ops \<Longrightarrow> R w (snd (Demask p scope text w))"
  by (auto simp: Demask_def split: prod.splits sum.splits option.splits
      intro!: R_logOp R_deferred R_Demask_scan intro: R_read_eq R_refl)

end

interpretation ops_frame: world_frame operations
  by unfold_locales (simp_all add: operations_emit)

text \<open>The records of any store that keeps its contract are framed in the same way.\<close>

sublocale context_store \<subseteq> frame: world_frame view
  by unfold_locales (simp_all add: view_emit view_ctx view_time view_rand)

end
