(* ===== verification/Processing.thy ===== *)
theory Processing
  imports Engine_Frame
begin

text \<open>
  The exchange of texts and masks: what \<^verbatim>\<open>Process\<close>, \<^verbatim>\<open>Mask\<close> and \<^verbatim>\<open>Demask\<close> answer and what they do to
  the store. The lemmas are proved once for every store that keeps the contract
  \<open>context_store\<close>; the properties state them for the in-memory store.
\<close>

section \<open>Steps of the store\<close>

text \<open>
  What one call for \<open>text\<close> may do to the record under its key: keep it, drop it (expiry), or put one
  there that was made for \<open>text\<close>. No other key is touched.
\<close>

definition view_step :: "bytes \<Rightarrow> bytes \<Rightarrow> (bytes \<rightharpoonup> Record) \<Rightarrow> (bytes \<rightharpoonup> Record) \<Rightarrow> bool" where
  "view_step rid inp v v' \<longleftrightarrow>
     (\<forall>k. k \<noteq> rid \<longrightarrow> v' k = v k) \<and>
     (v' rid = v rid \<or> v' rid = None \<or> (\<exists>new. v' rid = Some new \<and> rec_Original new = inp))"

lemma view_step_refl [simp]: "view_step rid inp v v"
  by (simp add: view_step_def)

lemma view_step_trans: "view_step rid inp u v \<Longrightarrow> view_step rid inp v w \<Longrightarrow> view_step rid inp u w"
  unfolding view_step_def by metis

lemma view_step_drop: "v' = v \<or> v' = v(rid := None) \<Longrightarrow> view_step rid inp v v'"
  by (auto simp: view_step_def)

lemma view_step_put: "v' = v \<or> v' = v(rid \<mapsto> new) \<Longrightarrow> rec_Original new = inp \<Longrightarrow> view_step rid inp v v'"
  by (auto simp: view_step_def)

lemma make_record_fields:
  assumes "make_record inp res pol w = (new, w')"
  shows "rec_Original new = inp" "rec_Masked new = fst res" "rec_TransformMap new = fst (snd res)"
    "rec_ExpiresAt new = Some (w_clock w (w_times w) + cp_TTL pol)"
  using assms by (auto simp: make_record_def time_Now_def split: prod.splits)

section \<open>For every store\<close>

context context_store
begin

lemma read_some:
  assumes "pr_store p = ops" and "read p rid w = (Inr (Some rec), w')"
  shows "view w rid = Some rec \<and> view w' = view w"
  using assms(2-)
  by (auto simp: assms(1) read_def read_checked_def deferred_stage_def split: prod.splits option.splits sum.splits bool.splits if_splits
      dest!: get_hit frame.q_ctx_eq frame.q_time_eq)

lemma get_frame: "so_Get ops rid w = (res, w') \<Longrightarrow> view w' = view w \<or> view w' = (view w)(rid := None)"
proof (cases res)
  case (Inr rb)
  moreover assume "so_Get ops rid w = (res, w')"
  ultimately show ?thesis using get_hit get_miss by (cases rb; cases "snd rb") fastforce+
qed (simp add: get_error)

lemma read_other:
  assumes "pr_store p = ops" and "read p rid w = (res, w')" and "\<forall>rec. res \<noteq> Inr (Some rec)"
  shows "view w' = view w \<or> view w' = (view w)(rid := None)"
  using assms(2-)
  by (auto simp: assms(1) read_def read_checked_def deferred_stage_def split: prod.splits option.splits sum.splits bool.splits if_splits
      dest!: get_frame frame.q_ctx_eq frame.q_time_eq)

lemma save_some:
  assumes "pr_store p = ops" and "save p rid new w = (Inr (rec, c), w')"
  shows "view w' rid = Some rec \<and> (c \<longrightarrow> rec = new \<and> view w' = (view w)(rid \<mapsto> new)) \<and> (\<not> c \<longrightarrow> view w' = view w)"
  using assms(2)
  by (cases c)
    (auto simp: assms(1) save_def save_checked_def deferred_stage_def split: prod.splits option.splits sum.splits bool.splits if_splits
      dest!: create_new create_old frame.q_ctx_eq frame.q_time_eq)

lemma create_frame:
  "so_CreateIfAbsent ops rid new w = (res, w') \<Longrightarrow> view w' = view w \<or> view w' = (view w)(rid \<mapsto> new)"
proof (cases res)
  case (Inr rb)
  moreover assume "so_CreateIfAbsent ops rid new w = (res, w')"
  ultimately show ?thesis using create_new create_old by (cases rb; cases "snd rb") fastforce+
qed (simp add: create_error)

lemma save_frame:
  assumes "pr_store p = ops" and "save p rid new w = (res, w')"
  shows "view w' = view w \<or> view w' = (view w)(rid \<mapsto> new)"
  using assms(2)
  by (auto simp: assms(1) save_def save_checked_def deferred_stage_def split: prod.splits option.splits sum.splits bool.splits if_splits
      dest!: create_frame frame.q_ctx_eq frame.q_time_eq)

lemma view_observed [simp]: "view (observed p es w) = view w"
proof -
  have "view (fold emit es w) = view w" by (induction es arbitrary: w) (auto simp: view_emit)
  then show ?thesis by (simp add: observed_def)
qed

lemma view_logOp [simp]: "view (logOp p operation scope outcome types n w) = view w"
  by (simp add: logOp_def)

lemma Process_new_spec:
  assumes "pr_store p = ops" and "Process_new p scope rid inp w = (res, w')"
  shows "view_step rid inp (view w) (view w')"
    and "res = Inr out \<Longrightarrow> \<exists>rec. view w' rid = Some rec \<and> processExisting rec inp (cp_AllowDemask (s_Policy scope)) = Inr out"
proof -
  obtain m w1 where m: "mask p inp (s_Policy scope) False w = (m, w1)" by force
  have w1: "view w1 = view w" using frame.q_mask [of p inp "s_Policy scope" False w] m by simp
  have "view_step rid inp (view w) (view w') \<and> (res = Inr out \<longrightarrow>
      (\<exists>rec. view w' rid = Some rec \<and> processExisting rec inp (cp_AllowDemask (s_Policy scope)) = Inr out))"
  proof (cases m)
    case (Inl e)
    with assms(2) m w1 show ?thesis by (auto simp: Process_new_def)
  next
    case (Inr r)
    obtain new w2 where r: "make_record inp r (s_Policy scope) w1 = (new, w2)" by force
    have w2: "view w2 = view w" using frame.q_make_record [of inp r "s_Policy scope" w1] r w1 by simp
    obtain sv w3 where sv: "save p rid new w2 = (sv, w3)" by force
    have step: "view_step rid inp (view w) (view w3)"
      using view_step_put [OF save_frame [OF assms(1) sv] make_record_fields(1) [OF r]] w2 by simp
    show ?thesis
    proof (cases sv)
      case e: (Inl e)
      with assms(2) m Inr r sv step show ?thesis by (auto simp: Process_new_def)
    next
      case rc: (Inr rc)
      have "view w' = view w3" and "res = processExisting (fst rc) inp (cp_AllowDemask (s_Policy scope))"
        using assms(2) m Inr r sv rc by (auto simp: Process_new_def Let_def case_prod_unfold)
      with step save_some [OF assms(1), of rid new w2 "fst rc" "snd rc" w3] sv rc show ?thesis by auto
    qed
  qed
  then show "view_step rid inp (view w) (view w')"
    and "res = Inr out \<Longrightarrow> \<exists>rec. view w' rid = Some rec \<and> processExisting rec inp (cp_AllowDemask (s_Policy scope)) = Inr out"
    by blast+
qed

lemma Process_spec:
  assumes "pr_store p = ops" and "Process p scope inp w = (res, w')"
  shows "view_step (key p scope ''process'') inp (view w) (view w')"
    and "res = Inr out \<Longrightarrow> \<exists>rec. view w' (key p scope ''process'') = Some rec \<and>
      processExisting rec inp (cp_AllowDemask (s_Policy scope)) = Inr out"
proof -
  let ?k = "key p scope ''process''"
  have "view_step ?k inp (view w) (view w') \<and> (res = Inr out \<longrightarrow>
      (\<exists>rec. view w' ?k = Some rec \<and> processExisting rec inp (cp_AllowDemask (s_Policy scope)) = Inr out))"
  proof (cases "validate p scope")
    case (Some e)
    with assms(2) show ?thesis by (auto simp: Process_def)
  next
    case None
    obtain rd w1 where rd: "read p ?k w = (rd, w1)" by force
    consider (err) e where "rd = Inl e" | (hit) rec where "rd = Inr (Some rec)" | (miss) "rd = Inr None"
      by (metis not_None_eq sum.exhaust)
    then show ?thesis
    proof cases
      case err
      with assms(2) None rd view_step_drop [OF read_other [OF assms(1) rd]] show ?thesis
        by (auto simp: Process_def Let_def)
    next
      case hit
      with assms(2) None rd read_some [OF assms(1)] show ?thesis by (auto simp: Process_def Let_def)
    next
      case miss
      then have new: "Process_new p scope ?k inp w1 = (res, w')" using assms(2) None rd by (simp add: Process_def Let_def)
      have "view_step ?k inp (view w) (view w1)" using view_step_drop [OF read_other [OF assms(1) rd]] miss by simp
      with Process_new_spec [OF assms(1) new] view_step_trans show ?thesis by blast
    qed
  qed
  then show "view_step ?k inp (view w) (view w')"
    and "res = Inr out \<Longrightarrow> \<exists>rec. view w' ?k = Some rec \<and> processExisting rec inp (cp_AllowDemask (s_Policy scope)) = Inr out"
    by blast+
qed

lemma Mask_answer_spec:
  assumes "Mask_answer p scope inp rec types outcome w = (res, w')"
  shows "view w' = view w" and "res = Inr out \<Longrightarrow> rec_Original rec = inp \<and> m_Text out = rec_Masked rec"
  using assms by (auto simp: Mask_answer_def split: if_splits)

lemma Mask_new_spec:
  assumes "pr_store p = ops" and "Mask_new p scope rid inp w = (res, w')"
  shows "view_step rid inp (view w) (view w') \<and> (res = Inr out \<longrightarrow>
    (\<exists>rec. view w' rid = Some rec \<and> rec_Original rec = inp \<and> m_Text out = rec_Masked rec))"
proof -
  obtain m w1 where m: "mask p inp (s_Policy scope) True w = (m, w1)" by force
  have w1: "view w1 = view w" using frame.q_mask [of p inp "s_Policy scope" True w] m by simp
  show ?thesis
  proof (cases m)
    case (Inl e)
    with assms(2) m w1 show ?thesis by (auto simp: Mask_new_def)
  next
    case (Inr r)
    obtain new w2 where r: "make_record inp r (s_Policy scope) w1 = (new, w2)" by force
    have w2: "view w2 = view w" using frame.q_make_record [of inp r "s_Policy scope" w1] r w1 by simp
    obtain sv w3 where sv: "save p rid new w2 = (sv, w3)" by force
    have step: "view_step rid inp (view w) (view w3)"
      using view_step_put [OF save_frame [OF assms(1) sv] make_record_fields(1) [OF r]] w2 by simp
    show ?thesis
    proof (cases sv)
      case e: (Inl e)
      with assms(2) m Inr r sv step show ?thesis by (auto simp: Mask_new_def)
    next
      case rc: (Inr rc)
      then obtain w4 oc where "Mask_answer p scope inp (fst rc) (typesOf (fst (snd (snd r)))) oc w4 = (res, w')" "view w4 = view w3"
        using assms(2) m Inr r sv by (auto simp: Mask_new_def Let_def case_prod_unfold split: if_splits)
      with step save_some [OF assms(1), of rid new w2 "fst rc" "snd rc" w3] sv rc Mask_answer_spec show ?thesis
        by (metis prod.collapse)
    qed
  qed
qed

lemma Mask_spec:
  assumes "pr_store p = ops" and "Mask p scope inp w = (res, w')"
  shows "view_step (key p scope ''generate'') inp (view w) (view w') \<and> (res = Inr out \<longrightarrow>
    (\<exists>rec. view w' (key p scope ''generate'') = Some rec \<and> rec_Original rec = inp \<and> m_Text out = rec_Masked rec))"
proof (cases "validate p scope")
  case (Some e)
  with assms(2) show ?thesis by (auto simp: Mask_def)
next
  case None
  let ?k = "key p scope ''generate''"
  obtain rd w1 where rd: "read p ?k w = (rd, w1)" by force
  consider (err) e where "rd = Inl e" | (hit) rec where "rd = Inr (Some rec)" | (miss) "rd = Inr None"
    by (metis not_None_eq sum.exhaust)
  then show ?thesis
  proof cases
    case err
    with assms(2) None rd view_step_drop [OF read_other [OF assms(1) rd]] show ?thesis
      by (auto simp: Mask_def Let_def)
  next
    case hit
    then have "Mask_answer p scope inp rec [] ''masked_existing'' w1 = (res, w')"
      using assms(2) None rd by (simp add: Mask_def Let_def)
    with read_some [OF assms(1), of ?k w rec w1] rd hit Mask_answer_spec show ?thesis by (metis view_step_refl)
  next
    case miss
    then have new: "Mask_new p scope ?k inp w1 = (res, w')" using assms(2) None rd by (simp add: Mask_def Let_def)
    have "view_step ?k inp (view w) (view w1)" using view_step_drop [OF read_other [OF assms(1) rd]] miss by simp
    with Mask_new_spec [OF assms(1) new] view_step_trans show ?thesis by blast
  qed
qed

lemma Demask_scan_frame: "view (snd (Demask_scan p scope inp rec w)) = view w"
  using frame.q_detect [of p "hideMarkerSpans inp (marker_spans inp)" "s_Policy scope" w]
  by (auto simp: Demask_scan_def Let_def split: prod.splits sum.splits option.splits dest: frame.q_ctx_eq)

lemma Demask_spec:
  assumes "pr_store p = ops" and "Demask p scope inp w = (res, w')"
  shows "view w' = view w \<or> view w' = (view w)(key p scope ''generate'' := None)"
proof (cases "validate p scope")
  case None
  let ?k = "key p scope ''generate''"
  obtain rd w1 where rd: "read p ?k w = (rd, w1)" by force
  have "view w1 = view w \<or> view w1 = (view w)(?k := None)"
    using read_some [OF assms(1)] read_other [OF assms(1)] rd by blast
  moreover have "view w' = view w1"
    using assms(2) None rd Demask_scan_frame [of p scope inp _ w1]
    by (auto simp: Demask_def split: sum.splits option.splits if_splits dest: arg_cong [where f = "\<lambda>x. view (snd x)"])
  ultimately show ?thesis by simp
qed (use assms(2) in \<open>auto simp: Demask_def\<close>)

text \<open>The store reports nothing itself.\<close>

lemma silent_get: "so_Get ops rid w = (res, w') \<Longrightarrow> operations w' = operations w"
  and silent_create: "so_CreateIfAbsent ops rid new w = (res, w') \<Longrightarrow> operations w' = operations w"
  using silent(1) [of rid w] silent(2) [of rid new w] by (simp_all add: operations_def)

lemma read_operations:
  assumes "pr_store p = ops"
  shows "operations (snd (read p rid w)) = operations w"
  by (auto simp: assms read_def read_checked_def split: prod.splits option.splits sum.splits bool.splits
      dest!: silent_get ops_frame.q_ctx_eq ops_frame.q_time_eq)

lemma save_operations:
  assumes "pr_store p = ops"
  shows "operations (snd (save p rid new w)) = operations w"
  by (auto simp: assms save_def save_checked_def split: prod.splits option.splits sum.splits bool.splits
      dest!: silent_create ops_frame.q_ctx_eq ops_frame.q_time_eq)

end

text \<open>No call of the processor takes a live item out of the in-memory store.\<close>

interpretation kept: store_order items_kept TTL_ops
  by unfold_locales
    (simp_all add: items_kept_steps TTL_ops_def TTL_Get_kept TTL_CreateIfAbsent_kept items_kept_trans)

section \<open>Operation events\<close>

definition successes :: "bytes list" where
  "successes = [''masked_new'', ''masked_existing'', ''demasked'', ''sanitized_only'']"

text \<open>One event about the call, and the outcome in it tells success from failure.\<close>

definition reports :: "bytes \<Rightarrow> Scope \<Rightarrow> bytes \<Rightarrow> bool \<Rightarrow> event list \<Rightarrow> bool" where
  "reports operation scope inp ok es \<longleftrightarrow>
     (\<exists>e. es = [ObserveOperation e] \<and> oe_Operation e = operation \<and> oe_System e = s_TenantID scope \<and>
        oe_Bytes e = length inp \<and> distinct (oe_Types e) \<and> (oe_Outcome e \<in> set successes \<longleftrightarrow> ok))"

lemma uniqueTypes_loop_set:
  "set (uniqueTypes_loop seen ts) = set ts - set seen" "distinct (uniqueTypes_loop seen ts)"
  by (induction ts arbitrary: seen) auto

lemma failure_not_success: "fb \<notin> set successes \<Longrightarrow> failureOutcome e fb \<notin> set successes"
  by (simp add: failureOutcome_def successes_def)

lemma logOp_reports:
  assumes "pr_metrics p \<noteq> None" and "operations w = ops0" and "outcome \<in> set successes \<longleftrightarrow> ok"
  shows "\<exists>es. operations (logOp p operation scope outcome types (length inp) w) = ops0 @ es \<and> reports operation scope inp ok es"
  using assms uniqueTypes_loop_set(2)
  by (auto simp: logOp_def observed_def operations_emit reports_def uniqueTypes_def)

lemma outcome_success: "outcomeOf (processExisting rec inp allow) (was_masked rec inp) \<in> set successes \<longleftrightarrow>
    \<not> isl (processExisting rec inp allow)"
  by (simp add: outcomeOf_def processExisting_def was_masked_def successes_def)

context context_store
begin

lemma Process_new_reports:
  assumes "pr_store p = ops" and "pr_metrics p \<noteq> None" and "Process_new p scope rid inp w = (res, w')"
  shows "\<exists>es. operations w' = operations w @ es \<and> reports ''process'' scope inp (\<not> isl res) es"
proof -
  obtain m w1 where m: "mask p inp (s_Policy scope) False w = (m, w1)" by force
  have w1: "operations w1 = operations w" using ops_frame.q_mask [of p inp "s_Policy scope" False w] m by simp
  show ?thesis
  proof (cases m)
    case (Inl e)
    have "failureOutcome e ''detection_failed'' \<notin> set successes" by (rule failure_not_success) (simp add: successes_def)
    with logOp_reports [OF assms(2) w1] assms(3) m Inl show ?thesis by (auto simp: Process_new_def)
  next
    case (Inr r)
    obtain new w2 where r: "make_record inp r (s_Policy scope) w1 = (new, w2)" by force
    obtain sv w3 where sv: "save p rid new w2 = (sv, w3)" by force
    have w3: "operations w3 = operations w"
      using ops_frame.q_make_record [of inp r "s_Policy scope" w1] save_operations [OF assms(1), of rid new w2] r sv w1 by simp
    show ?thesis
    proof (cases sv)
      case e: (Inl e)
      have "failureOutcome e ''store_unavailable'' \<notin> set successes" by (rule failure_not_success) (simp add: successes_def)
      with logOp_reports [OF assms(2) w3] assms(3) m Inr r sv e show ?thesis by (auto simp: Process_new_def)
    next
      case rc: (Inr rc)
      obtain rec c where p: "rc = (rec, c)" by force
      let ?res = "processExisting rec inp (cp_AllowDemask (s_Policy scope))"
      let ?w = "if c then observe p inp (fst (snd (snd r))) w3 else w3"
      let ?oc = "if c \<and> isl ?res = False then ''masked_new'' else outcomeOf ?res (was_masked rec inp)"
      have a: "operations ?w = operations w" using w3 by simp
      have b: "?oc \<in> set successes \<longleftrightarrow> \<not> isl ?res" using outcome_success by (auto simp: successes_def)
      have c: "?res = res" "logOp p ''process'' scope ?oc (typesOf (fst (snd (snd r)))) (length inp) ?w = w'"
        using assms(3) m Inr r sv rc p by (auto simp: Process_new_def Let_def)
      show ?thesis
        using logOp_reports [OF assms(2) a b, where operation = "''process''" and scope = scope and inp = inp
          and types = "typesOf (fst (snd (snd r)))"]
        unfolding c(2) unfolding c(1) .
    qed
  qed
qed

lemma Process_reports:
  assumes "pr_store p = ops" and "pr_metrics p \<noteq> None" and "Process p scope inp w = (res, w')"
  shows "\<exists>es. operations w' = operations w @ es \<and> reports ''process'' scope inp (\<not> isl res) es"
proof (cases "validate p scope")
  case (Some e)
  have "failureOutcome e ''invalid_request'' \<notin> set successes" by (rule failure_not_success) (simp add: successes_def)
  with logOp_reports [OF assms(2) refl] assms(3) Some show ?thesis by (auto simp: Process_def)
next
  case None
  let ?k = "key p scope ''process''"
  obtain rd w1 where rd: "read p ?k w = (rd, w1)" by force
  have w1: "operations w1 = operations w" using read_operations [OF assms(1), of ?k w] rd by simp
  consider (err) e where "rd = Inl e" | (hit) rec where "rd = Inr (Some rec)" | (miss) "rd = Inr None"
    by (metis not_None_eq sum.exhaust)
  then show ?thesis
  proof cases
    case err
    have "failureOutcome e ''store_unavailable'' \<notin> set successes" by (rule failure_not_success) (simp add: successes_def)
    with logOp_reports [OF assms(2) w1] assms(3) None rd err show ?thesis by (auto simp: Process_def)
  next
    case hit
    with logOp_reports [OF assms(2) w1 outcome_success] assms(3) None rd show ?thesis
      by (auto simp: Process_def Let_def)
  next
    case miss
    then have "Process_new p scope ?k inp w1 = (res, w')" using assms(3) None rd by (simp add: Process_def Let_def)
    from Process_new_reports [OF assms(1,2) this] w1 show ?thesis by simp
  qed
qed

lemma Mask_answer_reports:
  assumes "pr_metrics p \<noteq> None" and "operations w = ops0" and "outcome \<in> set successes"
    and "Mask_answer p scope inp rec types outcome w = (res, w')"
  shows "\<exists>es. operations w' = ops0 @ es \<and> reports ''mask'' scope inp (\<not> isl res) es"
  using assms(3,4) logOp_reports [OF assms(1,2)]
  by (auto simp: Mask_answer_def successes_def split: if_splits)

lemma Mask_new_reports:
  assumes "pr_store p = ops" and "pr_metrics p \<noteq> None" and "Mask_new p scope rid inp w = (res, w')"
  shows "\<exists>es. operations w' = operations w @ es \<and> reports ''mask'' scope inp (\<not> isl res) es"
proof -
  obtain m w1 where m: "mask p inp (s_Policy scope) True w = (m, w1)" by force
  have w1: "operations w1 = operations w" using ops_frame.q_mask [of p inp "s_Policy scope" True w] m by simp
  show ?thesis
  proof (cases m)
    case (Inl e)
    have "failureOutcome e ''detection_failed'' \<notin> set successes" by (rule failure_not_success) (simp add: successes_def)
    with logOp_reports [OF assms(2) w1] assms(3) m Inl show ?thesis by (auto simp: Mask_new_def)
  next
    case (Inr r)
    obtain new w2 where r: "make_record inp r (s_Policy scope) w1 = (new, w2)" by force
    obtain sv w3 where sv: "save p rid new w2 = (sv, w3)" by force
    have w3: "operations w3 = operations w"
      using ops_frame.q_make_record [of inp r "s_Policy scope" w1] save_operations [OF assms(1), of rid new w2] r sv w1 by simp
    show ?thesis
    proof (cases sv)
      case e: (Inl e)
      have "failureOutcome e ''store_unavailable'' \<notin> set successes" by (rule failure_not_success) (simp add: successes_def)
      with logOp_reports [OF assms(2) w3] assms(3) m Inr r sv e show ?thesis by (auto simp: Mask_new_def)
    next
      case rc: (Inr rc)
      obtain rec c where p: "rc = (rec, c)" by force
      let ?w = "if c then observe p inp (fst (snd (snd r))) w3 else w3"
      let ?oc = "if c then ''masked_new'' else ''masked_existing''"
      have "operations ?w = operations w" "?oc \<in> set successes" using w3 by (simp_all add: successes_def)
      moreover have "Mask_answer p scope inp rec (typesOf (fst (snd (snd r)))) ?oc ?w = (res, w')"
        using assms(3) m Inr r sv rc p by (auto simp: Mask_new_def Let_def)
      ultimately show ?thesis using Mask_answer_reports [OF assms(2)] by blast
    qed
  qed
qed

lemma Mask_reports:
  assumes "pr_store p = ops" and "pr_metrics p \<noteq> None" and "Mask p scope inp w = (res, w')"
  shows "\<exists>es. operations w' = operations w @ es \<and> reports ''mask'' scope inp (\<not> isl res) es"
proof (cases "validate p scope")
  case (Some e)
  have "failureOutcome e ''invalid_request'' \<notin> set successes" by (rule failure_not_success) (simp add: successes_def)
  with logOp_reports [OF assms(2) refl] assms(3) Some show ?thesis by (auto simp: Mask_def)
next
  case None
  let ?k = "key p scope ''generate''"
  obtain rd w1 where rd: "read p ?k w = (rd, w1)" by force
  have w1: "operations w1 = operations w" using read_operations [OF assms(1), of ?k w] rd by simp
  consider (err) e where "rd = Inl e" | (hit) rec where "rd = Inr (Some rec)" | (miss) "rd = Inr None"
    by (metis not_None_eq sum.exhaust)
  then show ?thesis
  proof cases
    case err
    have "failureOutcome e ''store_unavailable'' \<notin> set successes" by (rule failure_not_success) (simp add: successes_def)
    with logOp_reports [OF assms(2) w1] assms(3) None rd err show ?thesis by (auto simp: Mask_def)
  next
    case hit
    then have "Mask_answer p scope inp rec [] ''masked_existing'' w1 = (res, w')"
      using assms(3) None rd by (simp add: Mask_def Let_def)
    from Mask_answer_reports [OF assms(2) w1 _ this] show ?thesis by (simp add: successes_def)
  next
    case miss
    then have "Mask_new p scope ?k inp w1 = (res, w')" using assms(3) None rd by (simp add: Mask_def Let_def)
    from Mask_new_reports [OF assms(1,2) this] w1 show ?thesis by simp
  qed
qed

lemma Demask_scan_reports:
  assumes "pr_metrics p \<noteq> None" and "Demask_scan p scope inp rec w = (res, w')"
  shows "\<exists>es. operations w' = operations w @ es \<and> reports ''demask'' scope inp (\<not> isl res) es"
proof -
  obtain d w1 where d: "detect p (hideMarkerSpans inp (marker_spans inp)) (s_Policy scope) w = (d, w1)" by force
  have w1: "operations w1 = operations w"
    using ops_frame.q_detect [of p "hideMarkerSpans inp (marker_spans inp)" "s_Policy scope" w] d by simp
  obtain e w2 where e: "ctx_Err w1 = (e, w2)" by force
  have w2: "operations w2 = operations w" using ops_frame.q_ctx_eq [OF e] w1 by simp
  have f: "failureOutcome e ''detection_failed'' \<notin> set successes" "failureOutcome e ''cancelled'' \<notin> set successes" for e
    by (rule failure_not_success; simp add: successes_def)+
  show ?thesis
    using assms(2) d e logOp_reports [OF assms(1) w1] logOp_reports [OF assms(1) w2] f
    by (auto simp: Demask_scan_def Let_def successes_def split: sum.splits option.splits if_splits)
qed

lemma Demask_reports:
  assumes "pr_store p = ops" and "pr_metrics p \<noteq> None" and "Demask p scope inp w = (res, w')"
  shows "\<exists>es. operations w' = operations w @ es \<and> reports ''demask'' scope inp (\<not> isl res) es"
proof (cases "validate p scope")
  case (Some e)
  have "failureOutcome e ''invalid_request'' \<notin> set successes" by (rule failure_not_success) (simp add: successes_def)
  with logOp_reports [OF assms(2) refl] assms(3) Some show ?thesis by (auto simp: Demask_def)
next
  case None
  let ?k = "key p scope ''generate''"
  obtain rd w1 where rd: "read p ?k w = (rd, w1)" by force
  have w1: "operations w1 = operations w" using read_operations [OF assms(1), of ?k w] rd by simp
  consider (err) e where "rd = Inl e" | (hit) rec where "rd = Inr (Some rec)" | (miss) "rd = Inr None"
    by (metis not_None_eq sum.exhaust)
  then show ?thesis
  proof cases
    case err
    have "failureOutcome e ''store_unavailable'' \<notin> set successes" by (rule failure_not_success) (simp add: successes_def)
    with logOp_reports [OF assms(2) w1] assms(3) None rd err show ?thesis by (auto simp: Demask_def)
  next
    case hit
    obtain r2 w2 where d: "Demask_scan p scope inp rec w1 = (r2, w2)" by force
    have "operations (stage p ''demask'' w2) = operations w2" by simp
    with Demask_scan_reports [OF assms(2) d] w1 assms(3) None rd hit d logOp_reports [OF assms(2) w1] show ?thesis
      by (auto simp: Demask_def deferred_stage_def successes_def split: if_splits)
  next
    case miss
    with logOp_reports [OF assms(2) w1] assms(3) None rd show ?thesis by (auto simp: Demask_def successes_def)
  qed
qed

end

section \<open>Samples\<close>

definition sample_policy :: CPolicy where
  "sample_policy =
     \<lparr>cp_DetectionProfile = ProfileBalanced, cp_Version = ''v1'', cp_Mode = ''benchmark'', cp_DetectTypes = Some [TypeCVV],
      cp_MaskTypes = Some [TypeCVV], cp_AllowDemask = True, cp_TTL = 100, cp_Rules = []\<rparr>"

definition sample_scope :: Scope where
  "sample_scope = \<lparr>s_TenantID = ''crm'', s_ContextID = ''c1'', s_Policy = sample_policy\<rparr>"

text \<open>A detector that reports a leading 7 as a security code.\<close>

definition leading_seven :: Detector where
  "leading_seven = sample_detector\<lparr>d_Detect := (\<lambda>s. if take 1 s = ''7'' then d_Detect sample_detector s else Some [])\<rparr>"

definition sample_processor :: "unit TTLStore_ext Processor" where
  "sample_processor =
     \<lparr>pr_store = TTL_ops, pr_registry = NewRegistry [leading_seven], pr_metrics = Some True, pr_sum256 = (\<lambda>s. s),
      pr_hmac = sample_mac\<rparr>"

text \<open>A store with the record of \<^term>\<open>sample_record\<close> under the two keys of the scope.\<close>

definition sample_world_of :: "bytes \<Rightarrow> TTLStore" where
  "sample_world_of k = sample_store\<lparr>ts_items := [k \<mapsto> sample_item]\<rparr>"

lemma sample_validate: "validate sample_processor sample_scope = None"
  by (simp add: validate_def sample_scope_def sample_processor_def ValidateContract_def sample_policy_def
      knownTypes_def SupportedTypeNames_def NewRegistry_def leading_seven_def sample_detector_def SupportedTypes_def
      validateMaskTypes_def allDetected_def detectionEnabled_def elems_def ValidProfile_def)

lemma sample_store_op: "pr_store sample_processor = TTL_ops" "pr_metrics sample_processor \<noteq> None"
  by (simp_all add: sample_processor_def)

lemma sample_live: "live_ctx (sample_world_of k)"
  by (simp add: sample_world_of_def sample_store_def live_ctx_def)

text \<open>A live request finds the unexpired record under its key.\<close>

lemma read_live:
  assumes "pr_store p = TTL_ops" and "live_ctx w" and "ts_items w rid = Some it"
    and "never_passed (it_expires it) w" and "never_passed (rec_ExpiresAt (it_rec it)) w"
  shows "\<exists>w'. read p rid w = (Inr (Some (it_rec it)), w')"
proof -
  let ?w1 = "w\<lparr>w_polls := Suc (w_polls w)\<rparr>"
  let ?w2 = "?w1\<lparr>w_polls := Suc (w_polls ?w1)\<rparr>"
  have c: "ctx_Err v = (None, v\<lparr>w_polls := Suc (w_polls v)\<rparr>)" if "w_ctx v = w_ctx w" for v
    using assms(2) that by (simp add: ctx_Err_def live_ctx_def)
  obtain w3 where w3: "expired it ?w2 = (False, w3)" "w_ctx w3 = w_ctx w" "w_clock w3 = w_clock w"
    using assms(4) by (cases "it_expires it = None") (auto simp: expired_def time_Now_def never_passed_def)
  have "TTL_Get rid ?w1 = (Inr (Some (it_rec it), True), w3)"
    using c [of ?w1] w3(1) assms(3) by (simp add: TTL_Get_def TTL_lookup_def)
  moreover have "\<not> passed (w_clock w3 n) (rec_ExpiresAt (it_rec it))" for n
    using assms(5) w3(3) by (simp add: never_passed_def)
  ultimately show ?thesis
    using c [OF refl] c [OF w3(2)] assms(1)
    by (auto simp: read_def read_checked_def TTL_ops_def deferred_stage_def time_Now_def)
qed

lemma Process_live:
  assumes "pr_store p = TTL_ops" and "validate p scope = None" and "live_ctx w"
    and "ts_items w (key p scope ''process'') = Some it"
    and "never_passed (it_expires it) w" and "never_passed (rec_ExpiresAt (it_rec it)) w"
  shows "fst (Process p scope inp w) = processExisting (it_rec it) inp (cp_AllowDemask (s_Policy scope))"
  using read_live [OF assms(1,3-6)] assms(2) by (auto simp: Process_def Let_def)

lemma Process_validated: "Process p scope inp w = (Inr out, w') \<Longrightarrow> validate p scope = None"
  by (auto simp: Process_def split: option.splits)

lemma hex_encode_inject: "hex_encode s = hex_encode t \<Longrightarrow> s = t"
proof (induction s arbitrary: t)
  case Nil
  then show ?case by (cases t) (simp_all add: hex_encode_def)
next
  case (Cons c s)
  then obtain d t' where t: "t = d # t'" by (cases t) (simp_all add: hex_encode_def)
  have b: "byte x div 16 < 16" "byte x mod 16 < 16" for x
    using byte_bound [of x] by (auto simp: less_mult_imp_div_less)
  have "byte c div 16 = byte d div 16" "byte c mod 16 = byte d mod 16" "hex_encode s = hex_encode t'"
    using Cons.prems t b by (simp_all add: hex_encode_def hex_digit_inject)
  then show ?case using Cons.IH t byte_inject by (metis div_mult_mod_eq)
qed

lemma sample_processExisting: "processExisting sample_record ''ab'' a = Inr ''a*''"
  by (simp add: processExisting_def sample_record_def)

lemma sample_unpassed: "never_passed (it_expires sample_item) w"
    "never_passed (rec_ExpiresAt (it_rec sample_item)) w"
  by (simp_all add: never_passed_def passed_def sample_record_def)

lemma sample_items: "ts_items (sample_world_of k) k = Some sample_item"
  by (simp add: sample_world_of_def)

lemma sample_process:
  "Process sample_processor sample_scope ''ab'' (sample_world_of (key sample_processor sample_scope ''process'')) =
   (Inr ''a*'', snd (Process sample_processor sample_scope ''ab'' (sample_world_of (key sample_processor sample_scope ''process''))))"
  using Process_live [OF sample_store_op(1) sample_validate sample_live sample_items sample_unpassed, of "''ab''"]
  by (simp add: sample_processExisting prod_eq_iff)

lemma sample_process_world:
  "same_sources (sample_world_of (key sample_processor sample_scope ''process''))
     (snd (Process sample_processor sample_scope ''ab'' (sample_world_of (key sample_processor sample_scope ''process'')))) \<and>
   ts_items (snd (Process sample_processor sample_scope ''ab'' (sample_world_of (key sample_processor sample_scope ''process''))))
     (key sample_processor sample_scope ''process'') = Some sample_item"
proof -
  define k where "k = key sample_processor sample_scope ''process''"
  obtain w' where r: "read sample_processor k (sample_world_of k) = (Inr (Some sample_record), w')"
      "same_sources (sample_world_of k) w'" "ts_items w' k = Some sample_item"
    by (simp add: read_def read_checked_def sample_processor_def TTL_ops_def TTL_Get_def TTL_lookup_def ctx_Err_def sample_world_of_def
        sample_store_def expired_def deferred_stage_def stage_def observed_def emit_def sample_record_def same_sources_def)
  show ?thesis
    using r sample_validate
    by (simp add: Process_def k_def [symmetric] Let_def logOp_def observed_def emit_def same_sources_def)
qed

section \<open>Properties\<close>

text \<open>
  C1. Whatever \<^verbatim>\<open>Process\<close> answers comes from the record that is stored under the key of the request when it
  returns: the mask of the text when the text is the original, the original when the text is the
  mask and demasking is allowed, and nothing else.
\<close>

theorem process_answers:
  assumes "pr_store p = TTL_ops" and "Process p scope inp w = (Inr out, w')"
  shows "\<exists>rec. TTL_view w' (key p scope ''process'') = Some rec \<and>
    (rec_Original rec = inp \<and> out = rec_Masked rec \<or>
     rec_Original rec \<noteq> inp \<and> rec_Masked rec = inp \<and> cp_AllowDemask (s_Policy scope) \<and> out = rec_Original rec)"
  using ttl.Process_spec(2) [OF assms refl] by (auto simp: processExisting_def split: if_splits)

theorem process_answers_witness:
  "\<exists>rec. TTL_view (snd (Process sample_processor sample_scope ''ab'' (sample_world_of (key sample_processor sample_scope ''process''))))
      (key sample_processor sample_scope ''process'') = Some rec \<and>
    (rec_Original rec = ''ab'' \<and> ''a*'' = rec_Masked rec \<or>
     rec_Original rec \<noteq> ''ab'' \<and> rec_Masked rec = ''ab'' \<and> cp_AllowDemask (s_Policy sample_scope) \<and> ''a*'' = rec_Original rec)"
  by (rule process_answers [OF sample_store_op(1)]) (rule sample_process)

text \<open>
  C7. The discipline of the store, whatever the outcome of a call, errors, conflicts and cancellations included:
  \<^verbatim>\<open>Process\<close> and \<^verbatim>\<open>Mask\<close> touch no key but their own and put a record there only for the text of the
  call; \<^verbatim>\<open>Demask\<close> adds nothing; and none of the three replaces or removes an item of the store, under
  any key, unless a reading of the clock during the call has passed its deadline.
\<close>

theorem engine_store_discipline:
  assumes "pr_store p = TTL_ops"
  shows "view_step (key p scope ''process'') inp (TTL_view w) (TTL_view (snd (Process p scope inp w))) \<and>
    view_step (key p scope ''generate'') inp (TTL_view w) (TTL_view (snd (Mask p scope inp w))) \<and>
    TTL_view (snd (Demask p scope inp w)) \<subseteq>\<^sub>m TTL_view w \<and>
    items_kept w (snd (Process p scope inp w)) \<and> items_kept w (snd (Mask p scope inp w)) \<and>
    items_kept w (snd (Demask p scope inp w))"
  using kept.R_Process [OF assms, of w scope inp] kept.R_Mask [OF assms, of w scope inp] kept.R_Demask [OF assms, of w scope inp]
    ttl.Process_spec(1) [OF assms, of scope inp w] ttl.Mask_spec [OF assms, of scope inp w]
    ttl.Demask_spec [OF assms, of scope inp w]
  by (cases "Process p scope inp w"; cases "Mask p scope inp w"; cases "Demask p scope inp w")
    (auto simp: map_le_def split: if_splits)

text \<open>A third text does not push the record of another one out.\<close>

theorem engine_store_discipline_witness:
  "ts_items (snd (Process sample_processor sample_scope ''7x'' (sample_world_of (key sample_processor sample_scope ''process''))))
     (key sample_processor sample_scope ''process'') = Some sample_item"
proof -
  have "items_kept (sample_world_of k) (snd (Process sample_processor sample_scope ''7x'' (sample_world_of k)))" for k
    using engine_store_discipline [OF sample_store_op(1)] by blast
  moreover have "\<not> passed_between w w' (it_expires sample_item)" for w w' :: TTLStore
    by (simp add: passed_between_def passed_def)
  ultimately show ?thesis using sample_items unfolding items_kept_def by blast
qed

text \<open>
  C2. Round trip of \<^verbatim>\<open>Process\<close>: while the record of a successful call lives and the request is not cancelled, the
  answer is exchanged for the text, the text again for the same answer, and every third text is
  a conflict.
\<close>

theorem process_roundtrip:
  assumes "pr_store p = TTL_ops" and "cp_AllowDemask (s_Policy scope)" and "Process p scope inp w = (Inr out, w')"
    and "live_ctx w'" and "ts_items w' (key p scope ''process'') = Some it"
    and "never_passed (it_expires it) w'" and "never_passed (rec_ExpiresAt (it_rec it)) w'"
  shows "fst (Process p scope out w') = Inr inp \<and> fst (Process p scope inp w') = Inr out \<and>
    (other \<notin> {inp, out} \<longrightarrow> fst (Process p scope other w') = Inl ErrConflict)"
proof -
  obtain rec where rec: "TTL_view w' (key p scope ''process'') = Some rec"
      "processExisting rec inp (cp_AllowDemask (s_Policy scope)) = Inr out"
    using ttl.Process_spec(2) [OF assms(1,3) refl] by blast
  then have "rec = it_rec it" using assms(5) by (simp add: TTL_view_def)
  with rec(2) assms(2) Process_live [OF assms(1) Process_validated [OF assms(3)] assms(4-7)] show ?thesis
    by (auto simp: processExisting_def split: if_splits)
qed

theorem process_roundtrip_witness:
  "fst (Process sample_processor sample_scope ''a*''
     (snd (Process sample_processor sample_scope ''ab'' (sample_world_of (key sample_processor sample_scope ''process'')))))
   = Inr ''ab''"
proof -
  let ?w = "snd (Process sample_processor sample_scope ''ab'' (sample_world_of (key sample_processor sample_scope ''process'')))"
  let ?it = sample_item
  have w: "same_sources (sample_world_of (key sample_processor sample_scope ''process'')) ?w \<and>
      ts_items ?w (key sample_processor sample_scope ''process'') = Some ?it"
    using sample_process_world by blast
  have "live_ctx ?w" using live_ctx_same_sources [OF conjunct1 [OF w] sample_live] .
  from process_roundtrip [OF sample_store_op(1) _ sample_process this conjunct2 [OF w]] show ?thesis
    by (simp add: never_passed_def passed_def sample_record_def sample_scope_def sample_policy_def)
qed

text \<open>
  C8. Every call of \<^verbatim>\<open>Process\<close>, \<^verbatim>\<open>Mask\<close> and \<^verbatim>\<open>Demask\<close> reports exactly one operation, for the caller's system and with
  the length of the text, and the reported outcome is one of the successes iff the call succeeded.
\<close>

theorem operation_audited:
  assumes "pr_store p = TTL_ops" and "pr_metrics p \<noteq> None"
  shows "(\<exists>es. operations (snd (Process p scope inp w)) = operations w @ es \<and>
      reports ''process'' scope inp (\<not> isl (fst (Process p scope inp w))) es) \<and>
    (\<exists>es. operations (snd (Mask p scope inp w)) = operations w @ es \<and>
      reports ''mask'' scope inp (\<not> isl (fst (Mask p scope inp w))) es) \<and>
    (\<exists>es. operations (snd (Demask p scope inp w)) = operations w @ es \<and>
      reports ''demask'' scope inp (\<not> isl (fst (Demask p scope inp w))) es)"
  using ttl.Process_reports [OF assms surjective_pairing] ttl.Mask_reports [OF assms surjective_pairing]
    ttl.Demask_reports [OF assms surjective_pairing]
  by (intro conjI)

theorem operation_audited_witness:
  "\<exists>es. operations (snd (Mask sample_processor sample_scope ''7x'' sample_store)) = operations sample_store @ es \<and>
    reports ''mask'' sample_scope ''7x'' (\<not> isl (fst (Mask sample_processor sample_scope ''7x'' sample_store))) es"
  using operation_audited [OF sample_store_op] by blast

text \<open>
  C9. Contexts are separated: two requests share a key only if tenant, namespace and context agree, or their two
  different encodings collide under the hash. So tenants cannot reach each other's records, nor \<^verbatim>\<open>Process\<close> those of \<^verbatim>\<open>Mask\<close>.
\<close>

theorem key_separation:
  assumes "key p a n = key p b m"
    and "\<forall>s \<in> {s_TenantID a, n, s_ContextID a, s_TenantID b, m, s_ContextID b}. valid_string s"
  shows "(s_TenantID a = s_TenantID b \<and> n = m \<and> s_ContextID a = s_ContextID b) \<or>
    (let x = json_strings [s_TenantID a, n, s_ContextID a]; y = json_strings [s_TenantID b, m, s_ContextID b] in
     x \<noteq> y \<and> pr_sum256 p x = pr_sum256 p y)"
proof -
  let ?x = "json_strings [s_TenantID a, n, s_ContextID a]" and ?y = "json_strings [s_TenantID b, m, s_ContextID b]"
  have "pr_sum256 p ?x = pr_sum256 p ?y" using hex_encode_inject assms(1) by (simp add: key_def)
  moreover have "?x = ?y \<Longrightarrow> [s_TenantID a, n, s_ContextID a] = [s_TenantID b, m, s_ContextID b]"
    using json_strings_inject [of "[s_TenantID a, n, s_ContextID a]" "[s_TenantID b, m, s_ContextID b]"] assms(2) by simp
  ultimately show ?thesis by (auto simp: Let_def)
qed

theorem key_separation_witness:
  "key sample_processor sample_scope ''process'' \<noteq> key sample_processor sample_scope ''generate''"
proof
  assume "key sample_processor sample_scope ''process'' = key sample_processor sample_scope ''generate''"
  from key_separation [OF this] show False
    by (simp add: sample_scope_def byte_def sample_processor_def Let_def)
qed

end
