(* ===== verification/Mask_Result.thy ===== *)
theory Mask_Result
  imports Processing
begin

text \<open>
  What a masked text looks like: the text outside the findings is kept, every finding is replaced,
  in token mode by a marker that the mapping takes back to the value. What the verification
  guarantees, and what \<^verbatim>\<open>Demask\<close> may return.
\<close>

section \<open>Weaving replacements into a text\<close>

fun weave :: "bytes \<Rightarrow> int \<Rightarrow> (Finding \<times> bytes) list \<Rightarrow> bytes" where
  "weave inp c [] = drop (nat c) inp"
| "weave inp c ((f, r) # frs) = span inp c (f_Start f) @ r @ weave inp (f_End f) frs"

definition value_of :: "bytes \<Rightarrow> Finding \<Rightarrow> bytes" where
  "value_of inp f = span inp (f_Start f) (f_End f)"

text \<open>Findings in order, apart from each other and inside the text.\<close>

definition spans_ok :: "bytes \<Rightarrow> Finding list \<Rightarrow> bool" where
  "spans_ok inp fs \<longleftrightarrow> disjoint_spans fs \<and> (\<forall>f \<in> set fs. finding_ok inp f)"

text \<open>Putting the values back gives the text.\<close>

lemma weave_values:
  assumes "spans_ok inp fs" and "0 \<le> c" and "\<forall>f \<in> set fs. c \<le> f_Start f"
  shows "weave inp c (zip fs (map (value_of inp) fs)) = drop (nat c) inp"
  using assms
proof (induction fs arbitrary: c)
  case (Cons f fs)
  have f: "c \<le> f_Start f" "0 \<le> f_Start f" "f_Start f < f_End f"
    using Cons.prems by (auto simp: spans_ok_def finding_ok_def)
  have "weave inp (f_End f) (zip fs (map (value_of inp) fs)) = drop (nat (f_End f)) inp"
    using Cons.prems f by (intro Cons.IH) (auto simp: spans_ok_def disjoint_spans_def)
  then show ?case
    using f Cons.prems(2)
    by (simp add: value_of_def [of inp f] span_def slice_append_drop)
qed simp

lemma detect_ok:
  assumes "detect p inp pol w = (Inr fs, w')"
  shows "spans_ok inp fs"
proof -
  obtain all v where c: "CollectCandidates (pr_registry p) inp (cp_DetectTypes pol) w = (Inr all, v)"
    and fs: "fs = select_findings pol (FilterConfidence (fst (ResolveContext inp all)) (cp_DetectionProfile pol))"
    using assms by (auto simp: detect_def deferred_stage_def split: prod.splits sum.splits option.splits)
  have ok: "\<forall>f \<in> set all. finding_ok inp f"
    using collect_ok [OF c [unfolded CollectCandidates_def]] by (auto simp: collected_ok_def)
  have "finding_ok inp g" if "g \<in> set (fst (ResolveContext inp all))" for g
  proof -
    obtain f where f: "f \<in> set all" "g = resolve_one inp all f"
      using \<open>g \<in> _\<close> by (auto simp: ResolveContext_map by_start_def)
    then have "0 \<le> f_Confidence f" "f_Confidence f \<le> 1" using ok by (auto simp: finding_ok_def)
    note r = resolve_one_conservative [OF this(1), of inp all]
    have "f_Confidence (resolve_one inp all f) \<le> 1"
      using r(3) \<open>f_Confidence f \<le> 1\<close> by (simp add: ConfidenceHigh_def max_def split: if_splits)
    moreover have "finding_ok inp f" using ok f(1) by blast
    ultimately have "finding_ok inp (f\<lparr>f_Confidence := f_Confidence (resolve_one inp all f)\<rparr>)"
      using r(2) by (simp add: finding_ok_def)
    then show ?thesis using f(2) r(1) by simp
  qed
  then have "\<forall>f \<in> set (Apply (request_filter pol) (FilterConfidence (fst (ResolveContext inp all)) (cp_DetectionProfile pol))
      (map f_Type (FilterConfidence (fst (ResolveContext inp all)) (cp_DetectionProfile pol)))). finding_ok inp f"
    by (simp add: FilterConfidence_def Apply_def)
  then show ?thesis
    unfolding spans_ok_def fs select_findings_def
    using ResolveOverlaps_ok ResolveOverlaps_disjoint(1) unfolding finding_ok_def by blast
qed

text \<open>The sources of randomness and of cancellation are framed like the store.\<close>

interpretation rand_frame: world_frame w_rand
  by unfold_locales (simp_all add: ctx_Err_def time_Now_def rand_Read_def emit_def)

interpretation ctx_frame: world_frame w_ctx
  by unfold_locales (simp_all add: ctx_Err_def time_Now_def rand_Read_def emit_def)

section \<open>The loop over the findings\<close>

text \<open>
  The state of the loop in token mode: the mapping takes exactly the issued tokens back to their
  values.
\<close>

definition mapping_ok :: "bytes set \<Rightarrow> mask_state \<Rightarrow> bool" where
  "mapping_ok R st \<longleftrightarrow>
     table_ok R (ms_tokens st) \<and>
     (\<forall>tk v. ms_mapping st tk = Some v \<longleftrightarrow> (\<exists>ty. tt_values (ms_tokens st) (ty, v) = Some tk))"

lemma mapping_ok_start: "mapping_ok (set (tt_reserved (newTokenTable inp nonce))) (mask_start inp nonce)"
  using newTokenTable_ok [of inp nonce] by (simp add: mapping_ok_def mask_start_def newTokenTable_def)

lemma table_inject:
  "table_ok R t \<Longrightarrow> tt_values t k = Some tk \<Longrightarrow> tt_values t k' = Some tk \<Longrightarrow> k = k'"
  unfolding table_ok_def by (metis (mono_tags) domI inj_on_def)

lemma mask_one_token:
  assumes "nonce \<noteq> []" and "mapping_ok R st" and "token hmac (f_Type f) (value_of inp f) (ms_tokens st) = (tk, t')"
  shows "mask_one hmac inp nonce f st =
      \<lparr>ms_cursor = f_End f, ms_out = ms_out st @ span inp (ms_cursor st) (f_Start f) @ tk,
       ms_mapping = (ms_mapping st)(tk \<mapsto> value_of inp f), ms_tokens = t'\<rparr>"
    and "mapping_ok R (mask_one hmac inp nonce f st)"
proof -
  show eq: "mask_one hmac inp nonce f st =
      \<lparr>ms_cursor = f_End f, ms_out = ms_out st @ span inp (ms_cursor st) (f_Start f) @ tk,
       ms_mapping = (ms_mapping st)(tk \<mapsto> value_of inp f), ms_tokens = t'\<rparr>"
    using assms(1,3) by (simp add: mask_one_def value_of_def)
  have "table_ok R (ms_tokens st)" using assms(2) by (simp add: mapping_ok_def)
  note spec = token_spec [OF assms(3) this]
  have "((ms_mapping st)(tk \<mapsto> value_of inp f)) x = Some u \<longleftrightarrow> (\<exists>ty. tt_values t' (ty, u) = Some x)" for x u
  proof (cases "x = tk")
    case True
    have ok: "table_ok R t'" and tk: "tt_values t' (f_Type f, value_of inp f) = Some tk" using spec by auto
    have "u = value_of inp f" if "tt_values t' (ty, u) = Some tk" for ty
      using table_inject [OF ok that tk] by simp
    with tk show ?thesis unfolding True by auto
  next
    case False
    have "tt_values t' (ty, u) = Some x \<longleftrightarrow> tt_values (ms_tokens st) (ty, u) = Some x" for ty
    proof
      assume a: "tt_values t' (ty, u) = Some x"
      have "(ty, u) \<noteq> (f_Type f, value_of inp f)" using a spec False by auto
      moreover have "(ty, u) \<in> dom (tt_values t')" using a by (rule domI)
      ultimately have "(ty, u) \<in> dom (tt_values (ms_tokens st))" using spec by blast
      with spec a show "tt_values (ms_tokens st) (ty, u) = Some x" by (auto simp: map_le_def)
    qed (use spec in \<open>auto simp: map_le_def dom_def\<close>)
    with False assms(2) show ?thesis by (simp add: mapping_ok_def)
  qed
  with spec show "mapping_ok R (mask_one hmac inp nonce f st)" by (simp add: eq mapping_ok_def)
qed

text \<open>Both modes write the text between the findings and one replacement per finding.\<close>

lemma mask_loop_format:
  assumes "mask_loop hmac inp [] fs st w = (Inr st', w')"
  shows "ms_out st' @ drop (nat (ms_cursor st')) inp =
      ms_out st @ weave inp (ms_cursor st) (zip fs (map (\<lambda>f. Mask_value (f_Type f) (value_of inp f)) fs)) \<and>
    ms_mapping st' = ms_mapping st"
  using assms
proof (induction fs arbitrary: st w)
  case (Cons f fs)
  then obtain v where "mask_loop hmac inp [] fs (mask_one hmac inp [] f st) v = (Inr st', w')"
    by (auto split: prod.splits option.splits)
  from Cons.IH [OF this] show ?case by (simp add: mask_one_def value_of_def Let_def)
qed auto

lemma mask_loop_tokens:
  assumes "mask_loop hmac inp nonce fs st w = (Inr st', w')" and "nonce \<noteq> []" and "mapping_ok R st"
  shows "mapping_ok R st' \<and> tt_values (ms_tokens st) \<subseteq>\<^sub>m tt_values (ms_tokens st') \<and>
    (\<exists>rs. length rs = length fs \<and>
      ms_out st' @ drop (nat (ms_cursor st')) inp = ms_out st @ weave inp (ms_cursor st) (zip fs rs) \<and>
      list_all2 (\<lambda>f r. tt_values (ms_tokens st') (f_Type f, value_of inp f) = Some r) fs rs)"
  using assms(1,3)
proof (induction fs arbitrary: st w)
  case (Cons f fs)
  let ?st = "mask_one hmac inp nonce f st"
  obtain v where loop: "mask_loop hmac inp nonce fs ?st v = (Inr st', w')"
    using Cons.prems(1) by (auto split: prod.splits option.splits)
  obtain tk t' where tk: "token hmac (f_Type f) (value_of inp f) (ms_tokens st) = (tk, t')" by force
  note one = mask_one_token [OF assms(2) Cons.prems(2) tk]
  have "table_ok R (ms_tokens st)" using Cons.prems(2) by (simp add: mapping_ok_def)
  note spec = token_spec [OF tk this]
  obtain rs where rs: "length rs = length fs"
      "ms_out st' @ drop (nat (ms_cursor st')) inp = ms_out ?st @ weave inp (ms_cursor ?st) (zip fs rs)"
      "list_all2 (\<lambda>f r. tt_values (ms_tokens st') (f_Type f, value_of inp f) = Some r) fs rs"
    and ok: "mapping_ok R st'" "tt_values t' \<subseteq>\<^sub>m tt_values (ms_tokens st')"
    using Cons.IH [OF loop one(2)] one(1) by auto
  have "tt_values (ms_tokens st) \<subseteq>\<^sub>m tt_values (ms_tokens st')"
    using spec ok(2) map_le_trans by blast
  moreover have "tt_values (ms_tokens st') (f_Type f, value_of inp f) = Some tk"
    using spec ok(2) by (simp add: map_le_def dom_def)
  moreover have "ms_out st' @ drop (nat (ms_cursor st')) inp = ms_out st @ weave inp (ms_cursor st) (zip (f # fs) (tk # rs))"
    using rs(2) one(1) by simp
  ultimately show ?case using ok(1) rs(1,3) by (intro conjI exI [of _ "tk # rs"]) simp_all
qed auto

section \<open>A successful mask\<close>

lemma mask_success:
  fixes p :: "('a, 'b) Processor_scheme"
  assumes "mask p inp pol force w = (Inr (masked, mapping, fs, nonce), w')"
  obtains st and u u' :: "'a world_scheme" where "spans_ok inp fs"
    and "mask_loop (pr_hmac p) inp nonce fs (mask_start inp nonce) u = (Inr st, u')"
    and "masked = ms_out st @ drop (nat (ms_cursor st)) inp" "mapping = ms_mapping st"
    and "\<not> token_mode pol force \<Longrightarrow> nonce = []"
    and "token_mode pol force \<Longrightarrow> \<exists>b n. w_rand w n = Some b \<and> nonce = hex_encode b"
    and "fs \<noteq> [] \<Longrightarrow> \<exists>v v'. verify p masked pol fs v = (None, v')"
proof -
  obtain w1 where d: "detect p inp pol w = (Inr fs, w1)" and m: "\<exists>w2 w3. (\<not> token_mode pol force \<longrightarrow> nonce = []) \<and>
      (token_mode pol force \<longrightarrow> (\<exists>b n. w_rand w1 n = Some b \<and> nonce = hex_encode b)) \<and>
      mask_with p inp pol fs nonce w2 = (Inr (masked, mapping, fs, nonce), w3)"
  proof (cases "detect p inp pol w")
    case (Pair r w1)
    with assms obtain fs' where r: "r = Inr fs'" by (cases r) (auto simp: mask_def)
    have keep: "fs' = f \<and> nonce' = n" if "mask_with p inp pol fs' nonce' x = (Inr (a, b, f, n), y)" for nonce' x a b f n y
      using that by (auto simp: mask_with_def Let_def split: prod.splits sum.splits option.splits if_splits)
    have mw: "\<exists>w2 w3. (\<not> token_mode pol force \<longrightarrow> nonce = []) \<and>
      (token_mode pol force \<longrightarrow> (\<exists>b n. w_rand w1 n = Some b \<and> nonce = hex_encode b)) \<and>
      mask_with p inp pol fs' nonce w2 = (Inr (masked, mapping, fs, nonce), w3)"
    proof (cases "token_mode pol force")
      case True
      then obtain b v where b: "rand_Read w1 = (Some b, v)"
          "fst (mask_with p inp pol fs' (hex_encode b) v) = Inr (masked, mapping, fs, nonce)"
        using assms Pair r by (auto simp: mask_def deferred_stage_def split: prod.splits option.splits)
      obtain v' where mw: "mask_with p inp pol fs' (hex_encode b) v = (Inr (masked, mapping, fs, nonce), v')"
        using b(2) by (metis prod.collapse)
      with keep [OF mw] b(1) True show ?thesis by (auto simp: rand_Read_def)
    next
      case False
      then have "fst (mask_with p inp pol fs' [] w1) = Inr (masked, mapping, fs, nonce)"
        using assms Pair r by (auto simp: mask_def deferred_stage_def)
      then obtain v' where mw: "mask_with p inp pol fs' [] w1 = (Inr (masked, mapping, fs, nonce), v')"
        by (metis prod.collapse)
      with keep [OF mw] False show ?thesis by auto
    qed
    then have "fs' = fs" using keep by blast
    with that Pair r mw show ?thesis by blast
  qed
  have src: "w_rand w1 = w_rand w"
    using rand_frame.q_detect [of p inp pol w] d by simp
  obtain w2 w3 where mw: "mask_with p inp pol fs nonce w2 = (Inr (masked, mapping, fs, nonce), w3)" using m by blast
  obtain st u' where st: "mask_loop (pr_hmac p) inp nonce fs (mask_start inp nonce) w2 = (Inr st, u')"
      "masked = ms_out st @ drop (nat (ms_cursor st)) inp" "mapping = ms_mapping st"
      "fs \<noteq> [] \<Longrightarrow> \<exists>v'. verify p masked pol fs u' = (None, v')"
    using mw by (auto simp: mask_with_def Let_def split: prod.splits sum.splits option.splits if_splits)
  show thesis
  proof (rule that [OF detect_ok [OF d] st(1,2,3)])
    show "nonce = []" if "\<not> token_mode pol force" using m that by blast
    show "\<exists>b n. w_rand w n = Some b \<and> nonce = hex_encode b" if "token_mode pol force" using m that src by simp
    show "\<exists>v v'. verify p masked pol fs v = (None, v')" if "fs \<noteq> []" using st(4) that by blast
  qed
qed

section \<open>Demasking\<close>

lemma redact_weave: "redact_loop inp fs c out = out @ weave inp c (map (\<lambda>f. (f, ''[REDACTED]'')) fs)"
  by (induction fs arbitrary: c out) auto

lemma Demask_denied_result:
  assumes "Demask p scope inp w = (Inr out, w')" and "\<not> cp_AllowDemask (s_Policy scope)"
  obtains fs v v' where "detect p (hideMarkers inp) (s_Policy scope) v = (Inr fs, v')"
    and "\<not> findingsCrossMarkers fs (marker_spans inp)" and "out = redact_loop inp fs 0 []"
  using assms
  by (auto simp: Demask_def Demask_scan_def deferred_stage_def Let_def hideMarkers_def split: prod.splits sum.splits option.splits if_splits)

text \<open>The two pointers of the source against the definition with quantifiers.\<close>

definition overlaps :: "Finding \<Rightarrow> nat \<times> nat \<Rightarrow> bool" where
  "overlaps f s \<longleftrightarrow> f_Start f < int (snd s) \<and> int (fst s) < f_End f"

lemma findingsCrossMarkers_iff:
  assumes "disjoint_spans fs" and "\<forall>f \<in> set fs. f_Start f < f_End f"
    and "sorted_wrt (\<lambda>x y. snd x \<le> fst y) spans" and "\<forall>s \<in> set spans. fst s \<le> snd s"
  shows "findingsCrossMarkers fs spans \<longleftrightarrow> (\<exists>f \<in> set fs. \<exists>s \<in> set spans. overlaps f s)"
  using assms
proof (induction fs arbitrary: spans)
  case (Cons f fs)
  let ?rest = "dropWhile (\<lambda>s. int (snd s) \<le> f_Start f) spans"
  have split: "spans = takeWhile (\<lambda>s. int (snd s) \<le> f_Start f) spans @ ?rest" by simp
  have skipped: "\<not> overlaps g s" if "s \<in> set (takeWhile (\<lambda>s. int (snd s) \<le> f_Start f) spans)" "g \<in> set (f # fs)" for s g
  proof -
    have "f_Start f \<le> f_Start g" using that(2) Cons.prems(1,2) by (force simp: disjoint_spans_def)
    with set_takeWhileD [OF that(1)] show ?thesis by (simp add: overlaps_def)
  qed
  have tail: "sorted_wrt (\<lambda>x y. snd x \<le> fst y) ?rest" "\<forall>s \<in> set ?rest. fst s \<le> snd s"
    using Cons.prems(3,4) by (metis split sorted_wrt_append, metis set_dropWhileD)
  have ex: "(\<exists>g \<in> set (f # fs). \<exists>s \<in> set spans. overlaps g s) \<longleftrightarrow> (\<exists>g \<in> set (f # fs). \<exists>s \<in> set ?rest. overlaps g s)"
    using skipped by (subst split) (metis Un_iff set_append)
  have ih: "findingsCrossMarkers fs ?rest \<longleftrightarrow> (\<exists>g \<in> set fs. \<exists>s \<in> set ?rest. overlaps g s)"
    using Cons.IH [OF _ _ tail] Cons.prems(1,2) by (simp add: disjoint_spans_def)
  show ?case
  proof (cases ?rest)
    case Nil
    then show ?thesis
      unfolding findingsCrossMarkers.simps Let_def Nil using ih [unfolded Nil] ex [unfolded Nil] by simp
  next
    case (Cons s ss)
    have hd: "\<not> int (snd s) \<le> f_Start f" using Cons unfolding dropWhile_eq_Cons_conv by blast
    have first: "(\<exists>u \<in> set (s # ss). overlaps f u) \<longleftrightarrow> overlaps f s"
    proof
      assume "\<exists>u \<in> set (s # ss). overlaps f u"
      then obtain u where u: "u \<in> set (s # ss)" "overlaps f u" by blast
      then have "fst s \<le> fst u" using tail unfolding Cons by (cases "u = s") force+
      with u hd show "overlaps f s" by (simp add: overlaps_def)
    qed simp
    have "findingsCrossMarkers (f # fs) spans \<longleftrightarrow> overlaps f s \<or> findingsCrossMarkers fs (s # ss)"
      unfolding findingsCrossMarkers.simps Let_def Cons overlaps_def by (simp del: findingsCrossMarkers.simps) blast
    moreover have "(\<exists>g \<in> set (f # fs). \<exists>u \<in> set (s # ss). overlaps g u) \<longleftrightarrow>
        (\<exists>u \<in> set (s # ss). overlaps f u) \<or> (\<exists>g \<in> set fs. \<exists>u \<in> set (s # ss). overlaps g u)"
      unfolding list.set(2) [of f fs] by blast
    ultimately show ?thesis using ih [unfolded Cons] ex [unfolded Cons] first by (simp only:)
  qed
qed simp

section \<open>Samples\<close>

definition seven :: Finding where
  "seven = \<lparr>f_Type = TypeCVV, f_Start = 0, f_End = 1, f_Confidence = ConfidenceHigh, f_Detector = ''cvv'',
     f_Value = ''7'', f_Evidence = 0\<rparr>"

lemma ctx_Err_sample: "w_ctx w = (\<lambda>_. None) \<Longrightarrow> ctx_Err w = (None, w\<lparr>w_polls := Suc (w_polls w)\<rparr>)"
  by (simp add: ctx_Err_def)

definition printable :: "bytes \<Rightarrow> bool" where
  "printable s = list_all (\<lambda>c. 0x20 \<le> byte c \<and> byte c < 0x7F) s"

lemma sample_collect_seven:
  assumes "printable s" and "w_ctx w = (\<lambda>_. None)" and "s \<noteq> []"
  shows "collect (NewRegistry [leading_seven]) s (Some [TypeCVV]) c w =
    (Inr (if take 1 s = ''7'' then [seven] else []),
     w\<lparr>w_polls := Suc (Suc (w_polls w))\<rparr>)"
proof -
  have n: "valid_string s \<and> normalizeText s = \<lparr>n_text = s, n_offsets = None\<rparr>"
    using ascii_not_normalized assms(1) by (simp add: printable_def)
  obtain a r where s: "s = a # r" using assms(3) by (cases s) auto
  have rs: "r \<noteq> [] \<Longrightarrow> rune_start (hd r)"
    using assms(1) s by (cases r) (simp_all add: printable_def rune_start_def)
  show ?thesis
    using n assms(2) s rs
    by (cases r)
      (auto simp: collect_def NewRegistry_def SupportedTypes_def leading_seven_def sample_detector_def requestedTypes_def
      coverRequested_def detectorFindings_def ctx_Err_sample validateFinding_def seven_def
      rune_start_def originalOffset_def span_def gslice_def ConfidenceHigh_def byte_def Let_def)
qed

lemma sample_select: "select_findings sample_policy (FilterConfidence [seven] (cp_DetectionProfile sample_policy)) = [seven]"
  by (simp add: select_findings_def FilterConfidence_def sample_policy_def Threshold_def seven_def score_defs
      ProfileBalanced_def ProfileStrict_def ProfileConservative_def type_defs Apply_def Allows_def request_filter_def
      New_policy_def ruleAllows_def ResolveOverlaps_def)

lemma sample_resolve: "fst (ResolveContext s [seven]) = [seven]"
proof -
  have "resolve_one s [seven] seven = seven"
    by (rule resolve_one_conservative(4)) (simp_all add: seven_def ConfidenceHigh_def ambiguousType_def type_defs)
  then show ?thesis by (simp add: ResolveContext_map by_start_def)
qed

lemma sample_detect:
  assumes "w_ctx w = (\<lambda>_. None)"
  shows "\<exists>w'. detect sample_processor ''7x'' sample_policy w = (Inr [seven], w') \<and> w_ctx w' = (\<lambda>_. None) \<and> w_rand w' = w_rand w"
proof -
  have "collect (NewRegistry [leading_seven]) ''7x'' (Some [TypeCVV]) True w = (Inr [seven], w\<lparr>w_polls := Suc (Suc (w_polls w))\<rparr>)"
    using sample_collect_seven [OF _ assms, of "''7x''" True] by (simp add: printable_def byte_def)
  moreover obtain st where "ResolveContext ''7x'' [seven] = ([seven], st)"
    using sample_resolve [of "''7x''"] by (metis prod.collapse)
  moreover have "pr_registry sample_processor = NewRegistry [leading_seven]" "cp_DetectTypes sample_policy = Some [TypeCVV]"
    by (simp_all add: sample_processor_def sample_policy_def)
  ultimately have "fst (detect sample_processor ''7x'' sample_policy w) = Inr [seven]"
    using assms sample_select
    by (simp add: detect_def deferred_stage_def CollectCandidates_def ctx_Err_sample
        ctx_frame.q_events split: prod.splits)
  then show ?thesis
    using ctx_frame.q_detect [of sample_processor "''7x''" sample_policy w] assms
      rand_frame.q_detect [of sample_processor "''7x''" sample_policy w]
    by (metis prod.collapse)
qed

lemma sample_verify:
  assumes "w_ctx w = (\<lambda>_. None)" and "printable (hideMarkers s)" and "hideMarkers s \<noteq> []" and "take 1 (hideMarkers s) \<noteq> ''7''"
  shows "\<exists>w'. verify sample_processor s sample_policy [seven] w = (None, w')"
proof -
  have "verificationTypes sample_policy [seven] = [TypeCVV]"
    by (simp add: verificationTypes_def criticalTypes_def sample_policy_def conditional_def selectedType_def TypeCVV_def)
  moreover have "pr_registry sample_processor = NewRegistry [leading_seven]" by (simp add: sample_processor_def)
  ultimately show ?thesis
    using sample_collect_seven [OF assms(2,1,3), of False] assms(1,4)
    by (auto simp: verify_def Collect_def deferred_stage_def ctx_Err_sample FilterConfidence_def Let_def)
qed

lemma hideMarkers_first:
  assumes "s \<noteq> []"
  shows "take 1 (hideMarkers s) = take 1 s \<or> take 1 (hideMarkers s) = '' ''"
  using hideMarkers_nth [of s] assms spec [OF conjunct2 [OF hideMarkers_nth [of s]], of 0]
  by (cases s; cases "hideMarkers s") (auto split: if_splits)

lemma hideMarkers_printable: "printable s \<Longrightarrow> printable (hideMarkers s)"
  using hideMarkers_nth [of s] by (auto simp: printable_def list_all_length byte_def)

lemma hideMarkers_Nil [simp]: "hideMarkers s = [] \<longleftrightarrow> s = []"
  using hideMarkers_nth [of s] by auto

lemma sample_verify_plain:
  assumes "w_ctx w = (\<lambda>_. None)" and "printable s" and "s \<noteq> []" and "take 1 s \<noteq> ''7''"
  shows "\<exists>w'. verify sample_processor s sample_policy [seven] w = (None, w')"
  using sample_verify [OF assms(1) hideMarkers_printable [OF assms(2)]] hideMarkers_first [OF assms(3)] assms(3,4) by auto

lemma sample_mask:
  assumes "w_ctx w = (\<lambda>_. None)"
  shows "\<exists>w'. mask sample_processor ''7x'' sample_policy False w = (Inr (''*x'', Map.empty, [seven], []), w')"
proof -
  obtain w1 where d: "detect sample_processor ''7x'' sample_policy w = (Inr [seven], w1)" "w_ctx w1 = (\<lambda>_. None)"
    using sample_detect [OF assms] by blast
  have "Mask_value TypeCVV ''7'' = ''*''"
    by (simp add: Mask_value_types maskAllDigits_def maskAllDigits_runes_def isDigitRune_def star_def byte_def
        ascii_digit_IsDigit encode_rune_ascii char_of_def bit_Suc_0_iff)
  then have loop: "mask_loop (pr_hmac sample_processor) ''7x'' [] [seven] (mask_start ''7x'' []) w1 =
      (Inr \<lparr>ms_cursor = 1, ms_out = ''*'', ms_mapping = Map.empty, ms_tokens = newTokenTable ''7x'' []\<rparr>,
       w1\<lparr>w_polls := Suc (w_polls w1)\<rparr>)"
    using d(2) by (simp add: ctx_Err_sample mask_one_def mask_start_def seven_def span_def gslice_def)
  obtain w2 where "verify sample_processor ''*x'' sample_policy [seven] (w1\<lparr>w_polls := Suc (w_polls w1)\<rparr>) = (None, w2)"
    using sample_verify_plain [of "w1\<lparr>w_polls := Suc (w_polls w1)\<rparr>" "''*x''"] d(2) by (auto simp: printable_def byte_def)
  with d(1) loop show ?thesis
    by (simp add: mask_def token_mode_def sample_policy_def mask_with_def deferred_stage_def Let_def
        ProfileBalanced_def ProfileStrict_def)
qed

lemma make_token_printable:
  assumes "token_type ty"
  shows "printable (make_token hmac nonce ty v n) \<and> hd (make_token hmac nonce ty v n) = CHR ''<'' \<and> make_token hmac nonce ty v n \<noteq> []"
proof -
  have c: "printable s" if "list_all (in_class items) s" "items \<in> {type_items, hex_items, digit_items}" for items s
  proof -
    have "32 \<le> byte ch \<and> byte ch < 127" if "in_class items ch" for ch
      using that \<open>items \<in> _\<close> by (auto simp: in_class_def items_defs class_match_def)
    then show ?thesis using that(1) by (auto simp: printable_def list_all_iff)
  qed
  have "printable (strings_ToUpper ty)" using ToUpper_token_type [OF assms] c by blast
  moreover have "printable (hex_encode s)" for s using hex_in_class c by blast
  moreover have "printable (decimal k)" for k using digit_in_class c by blast
  ultimately show ?thesis by (simp add: make_token_def Let_def printable_def byte_def)
qed

lemma sample_mask_token:
  assumes "w_ctx w = (\<lambda>_. None)" and "w_rand w = (\<lambda>_. Some ''0123456789abcdef'')"
  shows "\<exists>masked mapping nonce w'. mask sample_processor ''7x'' sample_policy True w = (Inr (masked, mapping, [seven], nonce), w')"
proof -
  let ?nonce = "hex_encode ''0123456789abcdef''"
  obtain w1 where d: "detect sample_processor ''7x'' sample_policy w = (Inr [seven], w1)" "w_ctx w1 = (\<lambda>_. None)" "w_rand w1 = w_rand w"
    using sample_detect [OF assms(1)] by blast
  let ?w2 = "w1\<lparr>w_draws := Suc (w_draws w1)\<rparr>"
  let ?w3 = "?w2\<lparr>w_polls := Suc (w_polls ?w2)\<rparr>"
  have n: "?nonce \<noteq> []" by (simp add: hex_encode_def)
  obtain tk t' where tk: "token sample_mac TypeCVV ''7'' (newTokenTable ''7x'' ?nonce) = (tk, t')" by force
  then have "token_loop sample_mac TypeCVV ''7'' (newTokenTable ''7x'' ?nonce) = (tk, t')"
    by (simp add: token_def newTokenTable_def)
  then obtain k where k: "tk = make_token sample_mac (tt_nonce (newTokenTable ''7x'' ?nonce)) TypeCVV ''7'' k"
    using token_loop_spec by blast
  have "token_type TypeCVV" by (simp add: token_type_def token_char_def byte_def TypeCVV_def)
  from make_token_printable [OF this]
  have pr: "printable tk" "hd tk = CHR ''<''" "tk \<noteq> []" by (simp_all add: k)
  have loop: "mask_loop (pr_hmac sample_processor) ''7x'' ?nonce [seven] (mask_start ''7x'' ?nonce) ?w2 =
      (Inr \<lparr>ms_cursor = 1, ms_out = tk, ms_mapping = [tk \<mapsto> ''7''], ms_tokens = t'\<rparr>, ?w3)"
    using d(2) tk n
    by (simp add: ctx_Err_sample mask_one_def mask_start_def seven_def span_def gslice_def sample_processor_def)
  obtain r where "tk = CHR ''<'' # r" using pr(2,3) by (cases tk) auto
  then have "take 1 (tk @ ''x'') \<noteq> ''7''" by simp
  moreover have "printable (tk @ ''x'')" using pr(1) by (simp add: printable_def byte_def)
  ultimately obtain w4 where "verify sample_processor (tk @ ''x'') sample_policy [seven] ?w3 = (None, w4)"
    using sample_verify_plain [of ?w3 "tk @ ''x''"] d(2) by auto
  then have "mask_with sample_processor ''7x'' sample_policy [seven] ?nonce ?w2 = (Inr (tk @ ''x'', [tk \<mapsto> ''7''], [seven], ?nonce), w4)"
    using loop by (simp add: mask_with_def Let_def)
  with d assms(2) show ?thesis
    by (simp add: mask_def token_mode_def rand_Read_def deferred_stage_def)
qed

lemma detect_allow: "detect p s (pol\<lparr>cp_AllowDemask := b\<rparr>) w = detect p s pol w"
proof -
  have "select_findings (pol\<lparr>cp_AllowDemask := b\<rparr>) = select_findings pol"
    by (simp add: select_findings_def request_filter_def fun_eq_iff)
  moreover have "cp_DetectionProfile (pol\<lparr>cp_AllowDemask := b\<rparr>) = cp_DetectionProfile pol"
      "cp_DetectTypes (pol\<lparr>cp_AllowDemask := b\<rparr>) = cp_DetectTypes pol"
    by simp_all
  ultimately show ?thesis by (simp only: detect_def)
qed

text \<open>A scope that may not demask.\<close>

definition denied_scope :: Scope where
  "denied_scope = sample_scope\<lparr>s_Policy := sample_policy\<lparr>cp_AllowDemask := False\<rparr>\<rparr>"

lemma sample_no_markers: "marker_spans ''7x'' = []"
  using marker_spans_segs [of "[]" "''7x''"] by (simp add: plain_def byte_def)

lemma sample_demask_denied:
  "\<exists>w'. Demask sample_processor denied_scope ''7x'' (sample_world_of (key sample_processor denied_scope ''generate'')) = (Inr ''[REDACTED]x'', w')"
proof -
  let ?k = "key sample_processor denied_scope ''generate''"
  have v: "validate sample_processor denied_scope = None"
    by (simp add: validate_def denied_scope_def sample_scope_def sample_processor_def ValidateContract_def sample_policy_def
      knownTypes_def SupportedTypeNames_def NewRegistry_def leading_seven_def sample_detector_def SupportedTypes_def
      validateMaskTypes_def allDetected_def detectionEnabled_def elems_def ValidProfile_def)
  obtain w1 where r: "read sample_processor ?k (sample_world_of ?k) = (Inr (Some sample_record), w1)" "w_ctx w1 = (\<lambda>_. None)"
    by (simp add: read_def read_checked_def sample_processor_def TTL_ops_def TTL_Get_def TTL_lookup_def ctx_Err_def sample_world_of_def
        sample_store_def expired_def deferred_stage_def stage_def observed_def emit_def sample_record_def)
  obtain w2 where d: "detect sample_processor ''7x'' sample_policy w1 = (Inr [seven], w2)" "w_ctx w2 = (\<lambda>_. None)"
    using sample_detect [OF r(2)] by blast
  have p: "s_Policy denied_scope = sample_policy\<lparr>cp_AllowDemask := False\<rparr>" by (simp add: denied_scope_def)
  have "\<exists>w'. Demask_scan sample_processor denied_scope ''7x'' sample_record w1 = (Inr ''[REDACTED]x'', w')"
    using d
    by (simp add: Demask_scan_def sample_no_markers hideMarkerSpans_def p detect_allow Let_def ctx_Err_sample span_def gslice_def)
      (simp add: seven_def gslice_def)
  with v r(1) p show ?thesis by (auto simp: Demask_def deferred_stage_def)
qed

section \<open>Properties\<close>

text \<open>
  C4. The masked text without tokens: the findings are ordered, disjoint, rune-aligned pieces of the text, the result is
  the text with every finding replaced by the mask of its category and every other byte kept, and
  nothing is remembered in the mapping.
\<close>

theorem mask_replaces_findings:
  assumes "mask p inp pol force w = (Inr (masked, mapping, fs, nonce), w')" and "\<not> token_mode pol force"
  shows "spans_ok inp fs \<and> mapping = Map.empty \<and>
    masked = weave inp 0 (zip fs (map (\<lambda>f. Mask_value (f_Type f) (value_of inp f)) fs)) \<and>
    inp = weave inp 0 (zip fs (map (value_of inp) fs))"
proof (rule mask_success [OF assms(1)])
  fix st u u'
  assume m: "spans_ok inp fs" "mask_loop (pr_hmac p) inp nonce fs (mask_start inp nonce) u = (Inr st, u')"
    "masked = ms_out st @ drop (nat (ms_cursor st)) inp" "mapping = ms_mapping st" "\<not> token_mode pol force \<Longrightarrow> nonce = []"
  then have n: "nonce = []" using assms(2) by blast
  have "weave inp 0 (zip fs (map (value_of inp) fs)) = inp"
    using weave_values [OF m(1), of 0] m(1) by (simp add: spans_ok_def finding_ok_def)
  with mask_loop_format [OF m(2) [unfolded n]] m show ?thesis by (simp add: mask_start_def)
qed

theorem mask_replaces_findings_witness:
  "spans_ok ''7x'' [seven] \<and> ''*x'' = weave ''7x'' 0 (zip [seven] (map (\<lambda>f. Mask_value (f_Type f) (value_of ''7x'' f)) [seven]))"
proof -
  obtain w' where "mask sample_processor ''7x'' sample_policy False sample_store = (Inr (''*x'', Map.empty, [seven], []), w')"
    using sample_mask [of sample_store] by (auto simp: sample_store_def)
  from mask_replaces_findings [OF this] show ?thesis
    by (simp add: token_mode_def sample_policy_def ProfileBalanced_def ProfileStrict_def)
qed

text \<open>
  C3. The masked text with tokens: every finding is replaced by a token and the mapping takes each token back to the value,
  so putting the values back restores the text; equal tokens stand for equal categories and values,
  and no token is a marker that the text already contained.
\<close>

theorem mask_tokens_invertible:
  assumes "mask p inp pol force w = (Inr (masked, mapping, fs, nonce), w')" and "token_mode pol force"
    and "\<forall>n b. w_rand w n = Some b \<longrightarrow> length b = 16"
  shows "\<exists>rs. length rs = length fs \<and> masked = weave inp 0 (zip fs rs) \<and>
    (\<forall>r \<in> set rs. r \<in> dom mapping) \<and> weave inp 0 (zip fs (map (the \<circ> mapping) rs)) = inp \<and>
    (\<forall>i < length fs. \<forall>j < length fs. rs ! i = rs ! j \<longleftrightarrow>
      f_Type (fs ! i) = f_Type (fs ! j) \<and> value_of inp (fs ! i) = value_of inp (fs ! j)) \<and>
    set rs \<inter> set (map (\<lambda>(a, b). gslice inp a b) (marker_spans inp)) = {}"
proof (rule mask_success [OF assms(1)])
  fix st u u'
  assume m: "spans_ok inp fs" "mask_loop (pr_hmac p) inp nonce fs (mask_start inp nonce) u = (Inr st, u')"
    "masked = ms_out st @ drop (nat (ms_cursor st)) inp" "mapping = ms_mapping st"
    "token_mode pol force \<Longrightarrow> \<exists>b n. w_rand w n = Some b \<and> nonce = hex_encode b"
  let ?R = "set (map (\<lambda>(a, b). gslice inp a b) (marker_spans inp))" and ?V = "tt_values (ms_tokens st)"
  have "length nonce = 32" using m(5) [OF assms(2)] assms(3) by auto
  then have n: "nonce \<noteq> []" by auto
  then have "set (tt_reserved (newTokenTable inp nonce)) = ?R" by (simp add: newTokenTable_def)
  with mapping_ok_start [of inp nonce] have "mapping_ok ?R (mask_start inp nonce)" by simp
  from mask_loop_tokens [OF m(2) n this] obtain rs where ok: "mapping_ok ?R st"
    and rs: "length rs = length fs" "masked = weave inp 0 (zip fs rs)"
      "list_all2 (\<lambda>f r. ?V (f_Type f, value_of inp f) = Some r) fs rs"
    using m(3) by (auto simp: mask_start_def)
  have t: "table_ok ?R (ms_tokens st)" using ok by (simp add: mapping_ok_def)
  have V: "?V (f_Type (fs ! i), value_of inp (fs ! i)) = Some (rs ! i)" if "i < length fs" for i
    using rs(3) that by (simp add: list_all2_conv_all_nth)
  have inv: "mapping (rs ! i) = Some (value_of inp (fs ! i))" if "i < length fs" for i
    using V [OF that] ok m(4) by (auto simp: mapping_ok_def)
  have "map (the \<circ> mapping) rs = map (value_of inp) fs"
    using inv rs(1) by (intro nth_equalityI) simp_all
  moreover have "weave inp 0 (zip fs (map (value_of inp) fs)) = inp"
    using weave_values [OF m(1), of 0] m(1) by (simp add: spans_ok_def finding_ok_def)
  moreover have "rs ! i = rs ! j \<longleftrightarrow> f_Type (fs ! i) = f_Type (fs ! j) \<and> value_of inp (fs ! i) = value_of inp (fs ! j)"
    if "i < length fs" "j < length fs" for i j
    using V [OF that(1)] V [OF that(2)] table_inject [OF t] by (metis option.inject prod.inject)
  moreover have "r \<notin> ?R" if r: "r \<in> set rs" for r
  proof -
    obtain i where "i < length fs" "r = rs ! i" using r rs(1) by (auto simp: in_set_conv_nth)
    with V t show ?thesis unfolding table_ok_def by blast
  qed
  moreover have "\<forall>r \<in> set rs. r \<in> dom mapping" using inv rs(1) by (force simp: in_set_conv_nth)
  ultimately show ?thesis
    using rs(1,2) by (intro exI [of _ rs] conjI) (simp_all, blast)
qed

theorem mask_tokens_invertible_witness:
  "\<exists>masked mapping nonce w'. mask sample_processor ''7x'' sample_policy True sample_store = (Inr (masked, mapping, [seven], nonce), w') \<and>
    (\<exists>rs. length rs = 1 \<and> masked = weave ''7x'' 0 (zip [seven] rs) \<and> weave ''7x'' 0 (zip [seven] (map (the \<circ> mapping) rs)) = ''7x'')"
proof -
  obtain masked mapping nonce w' where
    m: "mask sample_processor ''7x'' sample_policy True sample_store = (Inr (masked, mapping, [seven], nonce), w')"
    using sample_mask_token [of sample_store] by (auto simp: sample_store_def)
  have "\<forall>n b. w_rand sample_store n = Some b \<longrightarrow> length b = 16" by (simp add: sample_store_def)
  from mask_tokens_invertible [OF m _ this] m show ?thesis by (auto simp: token_mode_def)
qed

text \<open>
  C5. No critical value survives: when something was masked, the recognizers of every critical category that the policy
  promises to mask ran on the result, with the markers blanked out, and found nothing that the
  profile accepts. The policy promises a category that it detects and masks, whether or not a value
  of it was found; only a category that a rule makes conditional is promised just when a value of it
  was accepted.
\<close>

theorem masked_text_verified:
  fixes p :: "('a, 'b) Processor_scheme"
  assumes "mask p inp pol force w = (Inr (masked, mapping, fs, nonce), w')" and "fs \<noteq> []"
    and "typ \<in> set criticalTypes"
    and "(\<forall>rule \<in> set (cp_Rules pol). pr_Type rule = typ \<longrightarrow> pr_Requires rule = []) \<or> typ \<in> f_Type ` set fs"
    and "selectedType (cp_DetectTypes pol) typ" and "selectedType (cp_MaskTypes pol) typ"
  shows "\<exists>(v :: 'a world_scheme) v' found. Collect (pr_registry p) (hideMarkers masked) (Some (verificationTypes pol fs)) v = (Inr found, v') \<and>
    typ \<in> set (verificationTypes pol fs) \<and>
    (\<forall>f \<in> set found. f_Confidence f < Threshold (cp_DetectionProfile pol) (f_Type f))"
proof (rule mask_success [OF assms(1)])
  assume v: "fs \<noteq> [] \<Longrightarrow> \<exists>v v'. verify p masked pol fs v = (None, v')"
  have t: "typ \<in> set (verificationTypes pol fs)"
    using assms(3-6) by (auto simp: verificationTypes_def conditional_def list_ex_iff)
  then have ne: "verificationTypes pol fs \<noteq> []" by auto
  obtain v v' where "verify p masked pol fs v = (None, v')" using v assms(2) by blast
  then obtain found u where c: "Collect (pr_registry p) (hideMarkers masked) (Some (verificationTypes pol fs)) v = (Inr found, u)"
    and "FilterConfidence found (cp_DetectionProfile pol) = []"
    using ne by (auto simp: verify_def deferred_stage_def Let_def split: prod.splits option.splits sum.splits if_splits)
  then have "\<forall>f \<in> set found. f_Confidence f < Threshold (cp_DetectionProfile pol) (f_Type f)"
    by (auto simp: FilterConfidence_def filter_empty_conv)
  with c t show ?thesis by blast
qed

theorem masked_text_verified_witness:
  "\<exists>(v :: TTLStore) v' found. Collect (pr_registry sample_processor) (hideMarkers ''*x'') (Some (verificationTypes sample_policy [seven])) v = (Inr found, v') \<and>
    TypeCVV \<in> set (verificationTypes sample_policy [seven]) \<and>
    (\<forall>f \<in> set found. f_Confidence f < Threshold (cp_DetectionProfile sample_policy) (f_Type f))"
proof -
  obtain w' where "mask sample_processor ''7x'' sample_policy False sample_store = (Inr (''*x'', Map.empty, [seven], []), w')"
    using sample_mask [of sample_store] by (auto simp: sample_store_def)
  from masked_text_verified [OF this, of TypeCVV] show ?thesis
    by (simp add: criticalTypes_def seven_def selectedType_def sample_policy_def TypeCVV_def)
qed

text \<open>
  C6. Without permission nothing is restored: \<^verbatim>\<open>Demask\<close> returns the given text with what the detectors find outside its
  markers redacted; markers and all other bytes stay, and no byte comes from the stored record.
\<close>

theorem demask_denied_redacts:
  assumes "Demask p scope inp w = (Inr out, w')" and "\<not> cp_AllowDemask (s_Policy scope)"
  shows "\<exists>fs v v'. detect p (hideMarkers inp) (s_Policy scope) v = (Inr fs, v') \<and> spans_ok (hideMarkers inp) fs \<and>
    out = weave inp 0 (map (\<lambda>f. (f, ''[REDACTED]'')) fs) \<and> (\<forall>f \<in> set fs. \<forall>s \<in> set (marker_spans inp). \<not> overlaps f s)"
proof -
  obtain fs v v' where d: "detect p (hideMarkers inp) (s_Policy scope) v = (Inr fs, v')"
    "\<not> findingsCrossMarkers fs (marker_spans inp)" "out = redact_loop inp fs 0 []"
    using Demask_denied_result [OF assms] by metis
  have ok: "spans_ok (hideMarkers inp) fs" by (rule detect_ok [OF d(1)])
  then have "\<forall>f \<in> set fs. \<forall>s \<in> set (marker_spans inp). \<not> overlaps f s"
    using findingsCrossMarkers_iff [of fs "marker_spans inp"] d(2) marker_spans_ordered marker_spans_bounds
    by (auto simp: spans_ok_def finding_ok_def)
  with d ok show ?thesis by (auto simp: redact_weave)
qed

theorem demask_denied_redacts_witness:
  "\<exists>fs v v'. detect sample_processor (hideMarkers ''7x'') (s_Policy denied_scope) v = (Inr fs, v') \<and> spans_ok (hideMarkers ''7x'') fs \<and>
    ''[REDACTED]x'' = weave ''7x'' 0 (map (\<lambda>f. (f, ''[REDACTED]'')) fs) \<and>
    (\<forall>f \<in> set fs. \<forall>s \<in> set (marker_spans ''7x''). \<not> overlaps f s)"
proof -
  obtain w' where "Demask sample_processor denied_scope ''7x'' (sample_world_of (key sample_processor denied_scope ''generate'')) =
      (Inr ''[REDACTED]x'', w')"
    using sample_demask_denied by blast
  from demask_denied_redacts [OF this] show ?thesis by (simp add: denied_scope_def)
qed

end
