(* ===== verification/Helpers.thy ===== *)
theory Helpers
  imports Pattern Context
begin

text \<open>
  \<^verbatim>\<open>internal/pii/detectors/helpers.go\<close>: scanning after a label, windows around a candidate, nearest
  markers, digit neighbourhoods, and the words in which the expressions of the detectors are
  written. An expression is the tree of its text; common prefixes of alternatives, which
  \<^verbatim>\<open>syntax.Parse\<close> moves in front of the alternatives, stay where they are written. Neither the
  matches nor their order of preference depend on that.
\<close>

section \<open>Words for expressions\<close>

definition clit :: "string \<Rightarrow> regex" where "clit s = Lit (ascii_runes s) False"
definition digit :: regex where "digit = Cls False False [ClsDigit]"
definition digits :: "nat \<Rightarrow> regex" where "digits n = Rep n (Some n) digit"
definition space :: regex where "space = Cls False False [ClsSpace]"
definition notWord :: regex where "notWord = Cls True True [ClsL, ClsN]"
definition wordStart :: regex where "wordStart = Alt [BeginText, notWord]"
definition wordEnd :: regex where "wordEnd = Alt [EndText, notWord]"

lemmas regex_words =
  ilit_def alit_def clit_def digit_def digits_def space_def notWord_def wordStart_def wordEnd_def letters_def notLetter_def

definition patterns :: "regex list \<Rightarrow> pattern list" where
  "patterns res = map compilePattern res"

section \<open>Classes of runes\<close>

definition isCyrillic :: "rune \<Rightarrow> bool" where "isCyrillic r \<longleftrightarrow> 0x400 \<le> r \<and> r \<le> 0x4FF"

definition isLatin :: "rune \<Rightarrow> bool" where
  "isLatin r \<longleftrightarrow> (0x61 \<le> r \<and> r \<le> 0x7A) \<or> (0x41 \<le> r \<and> r \<le> 0x5A)"

definition isLetter :: "rune \<Rightarrow> bool" where "isLetter r \<longleftrightarrow> isCyrillic r \<or> isLatin r"

definition isDigit :: "rune \<Rightarrow> bool" where "isDigit r \<longleftrightarrow> 0x30 \<le> r \<and> r \<le> 0x39"

definition allLatinLetters :: "bytes \<Rightarrow> bool" where
  "allLatinLetters word \<longleftrightarrow> word \<noteq> [] \<and> list_all isLatin (runes word)"

definition isCyrillicWord :: "bytes \<Rightarrow> bool" where
  "isCyrillicWord w \<longleftrightarrow> list_all isCyrillic (runes w) \<and> length w > 0"

definition containsLetterOrDigit :: "bytes \<Rightarrow> bool" where
  "containsLetterOrDigit s \<longleftrightarrow> list_ex (\<lambda>r. unicode_IsLetter r \<or> unicode_IsDigit r) (runes s)"

definition hasLowerLetter :: "bytes \<Rightarrow> bool" where
  "hasLowerLetter s \<longleftrightarrow> list_ex unicode_IsLower (runes s)"

definition normalizeDigits :: "bytes \<Rightarrow> bytes" where
  "normalizeDigits s = of_runes (filter isDigit (runes s))"

definition fieldLabelWord :: "bytes \<Rightarrow> bool" where
  "fieldLabelWord word \<longleftrightarrow>
     word \<in> set (''email'' # map ru [''telefon'', ''poCta'', ''pasport'', ''inn'', ''fio'', ''gorod'', ''adres'', ''data'',
       ''indeks'', ''dom'', ''kvartira'', ''ul'', ''d'', ''kv'', ''klient'', ''poluCatelx''])"

section \<open>Scanning\<close>

text \<open>The position of the first rune from \<open>pos\<close> on that does not satisfy \<open>p\<close>.\<close>

function scan_while :: "(rune \<Rightarrow> bool) \<Rightarrow> bytes \<Rightarrow> nat \<Rightarrow> nat" where
  "scan_while p input pos =
     (if pos < length input then
        (case decode_rune (drop pos input) of (r, width) \<Rightarrow>
           if p r then scan_while p input (pos + width) else pos)
      else pos)"
  by pat_completeness auto
termination
proof (relation "measure (\<lambda>(p, input, pos). length input - pos)", goal_cases)
  case (2 p input pos r width)
  then have "snd (decode_rune (drop pos input)) = width" by (metis snd_conv)
  with 2 show ?case using decode_rune_size [of "drop pos input"] by auto
qed simp

declare scan_while.simps [simp del]

definition scanLetters :: "bytes \<Rightarrow> nat \<Rightarrow> bool \<Rightarrow> nat" where
  "scanLetters input pos wanted = scan_while (\<lambda>r. isLetter r = wanted) input pos"

definition labelValueStart :: "bytes \<Rightarrow> nat \<Rightarrow> nat" where
  "labelValueStart input start =
     scan_while (\<lambda>r. \<not> (r = 0x3B \<or> r = 0x0A) \<and> \<not> (\<not> unicode_IsSpace r \<and> r \<noteq> 0x3A \<and> r \<noteq> 0x2D)) input start"

definition boundedLabelInput :: "bytes \<Rightarrow> nat \<Rightarrow> bytes" where
  "boundedLabelInput input start =
     (if length input - start \<le> 512 then input
      else take (rune_start_down input (start + 512) start) input)"

section \<open>The value after a label\<close>

record labelScanner =
  ls_input :: bytes
  ls_pos :: nat
  ls_start :: int
  ls_end :: int
  ls_count :: nat
  ls_skippedPrefix :: bool

definition endsAtGap :: "labelScanner \<Rightarrow> bytes \<Rightarrow> bool" where
  "endsAtGap s gap =
     (if strings_ContainsAny gap [0x3B, 0x0A] then True
      else if ls_count s > 0 then strings_ContainsAny gap (ascii_runes '',.!?:0123456789<>@'')
      else \<not> ls_skippedPrefix s \<and> strings_ContainsAny gap (ascii_runes ''0123456789,!?''))"

text \<open>\<^const>\<open>None\<close> when the word is not accepted.\<close>

definition acceptWord :: "labelScanner \<Rightarrow> nat \<Rightarrow> nat \<Rightarrow> bytes list \<Rightarrow> labelScanner option" where
  "acceptWord s start stop skipPrefixes =
     (let word = gslice (ls_input s) start stop; lower = strings_ToLower word in
      if ls_count s > 0 \<and> fieldLabelWord lower then None
      else if stop < length (ls_input s) \<and> ls_input s ! stop = CHR '':'' then None
      else if ls_count s = 0 \<and> lower \<in> set skipPrefixes then Some (s\<lparr>ls_skippedPrefix := True, ls_pos := stop\<rparr>)
      else if \<not> isCyrillicWord word \<and> \<not> allLatinLetters word then None
      else Some (s\<lparr>ls_start := (if ls_start s < 0 then int start else ls_start s), ls_end := int stop,
        ls_pos := stop, ls_count := ls_count s + 1\<rparr>))"

definition issuer_tail :: "bytes \<Rightarrow> bytes option" where
  "issuer_tail tail =
     (if strings_HasPrefix tail ''-'' then Some (drop 1 tail)
      else
        (let tail = strings_TrimLeft tail [0x20, 0x09] in
         if \<not> strings_HasPrefix tail (ru ''N'') then None
         else Some (strings_TrimLeft (strings_TrimPrefix tail (ru ''N'')) [0x20, 0x09])))"

definition acceptIssuerNumber :: "labelScanner \<Rightarrow> labelScanner" where
  "acceptIssuerNumber s =
     (case issuer_tail (drop (ls_pos s) (ls_input s)) of
        None \<Rightarrow> s
      | Some tail \<Rightarrow>
          (let n = length (takeWhile (\<lambda>c. isDigit (byte c)) tail) in
           if n = 0 \<or> n > 4 then s
           else if n < length tail \<and>
             (let r = fst (decode_rune (drop n tail)) in isLetter r \<or> r = 0x2D) then s
           else
             (let stop = length (ls_input s) - length tail + n in s\<lparr>ls_end := int stop, ls_pos := stop\<rparr>)))"

text \<open>One round of the loop; \<^const>\<open>None\<close> is a \<^verbatim>\<open>break\<close>.\<close>

definition label_step :: "bytes list \<Rightarrow> bool \<Rightarrow> labelScanner \<Rightarrow> labelScanner option" where
  "label_step skipPrefixes issuerNumbers scan =
     (let input = ls_input scan; word_start = scanLetters input (ls_pos scan) False in
      if word_start \<ge> length input \<or> endsAtGap scan (gslice input (ls_pos scan) word_start) then None
      else
        (let word_end = scanLetters input word_start True in
         case acceptWord scan word_start word_end skipPrefixes of
           None \<Rightarrow> None
         | Some scan \<Rightarrow> Some (if issuerNumbers then acceptIssuerNumber scan else scan)))"

lemma scan_while_ge: "pos \<le> scan_while p input pos"
proof (induction p input pos rule: scan_while.induct)
  case (1 p input pos)
  show ?case
    using 1 decode_rune_size [of "drop pos input"]
    by (subst scan_while.simps) (fastforce split: prod.splits)
qed

lemma scan_while_le: "pos \<le> length input \<Longrightarrow> scan_while p input pos \<le> length input"
proof (induction p input pos rule: scan_while.induct)
  case (1 p input pos)
  show ?case
    using 1 decode_rune_size [of "drop pos input"]
    by (subst scan_while.simps) (auto split: prod.splits)
qed

lemma scan_while_stop:
  "scan_while p input pos < length input \<Longrightarrow> \<not> p (fst (decode_rune (drop (scan_while p input pos) input)))"
proof (induction p input pos rule: scan_while.induct)
  case (1 p input pos)
  show ?case
    using 1 by (subst scan_while.simps, subst (asm) (2) scan_while.simps) (auto split: prod.splits if_splits)
qed

lemma scan_while_boundary:
  "valid_string input \<Longrightarrow> rune_boundary input pos \<Longrightarrow> rune_boundary input (scan_while p input pos)"
proof (induction p input pos rule: scan_while.induct)
  case (1 p input pos)
  show ?case
    using 1 decode_boundary [OF 1(2,3)] by (subst scan_while.simps) (auto split: prod.splits)
qed

lemma scan_while_progress:
  assumes "pos < length input" and "p (fst (decode_rune (drop pos input)))"
  shows "pos < scan_while p input pos"
proof -
  obtain r w where d: "decode_rune (drop pos input) = (r, w)" by force
  then have "scan_while p input pos = scan_while p input (pos + w)"
    using assms by (subst scan_while.simps) simp
  moreover have "0 < w" using decode_rune_size [of "drop pos input"] assms(1) d by simp
  ultimately show ?thesis using scan_while_ge [of "pos + w" p input] by simp
qed

lemma TrimLeft_suffix: "\<exists>u. s = u @ strings_TrimLeft s cs"
proof -
  have "\<exists>u. concat (map snd c) = u @ trim_left_chunks cs c" for c :: "(rune \<times> bytes) list"
  proof (induction c)
    case (Cons x c)
    then obtain u where u: "concat (map snd c) = u @ trim_left_chunks cs c" by blast
    show ?case
    proof (cases "fst x \<in> set cs")
      case True
      with u show ?thesis by (cases x) (auto intro: exI [of _ "snd x @ u"])
    next
      case False
      then show ?thesis by (cases x) (auto intro: exI [of _ "[]"])
    qed
  qed simp
  from this [of "chunks s"] show ?thesis by (simp add: strings_TrimLeft_def concat_chunks)
qed

lemma TrimPrefix_suffix: "\<exists>u. s = u @ strings_TrimPrefix s p"
  unfolding strings_TrimPrefix_def by (metis append_take_drop_id append_Nil)

lemma issuer_tail_suffix:
  assumes "issuer_tail t = Some u"
  shows "\<exists>v. t = v @ u"
proof (cases "strings_HasPrefix t ''-''")
  case True
  with assms show ?thesis by (simp add: issuer_tail_def) (metis append_take_drop_id)
next
  case False
  with assms have "u = strings_TrimLeft (strings_TrimPrefix (strings_TrimLeft t [0x20, 0x09]) (ru ''N'')) [0x20, 0x09]"
    by (auto simp: issuer_tail_def Let_def split: if_splits)
  with TrimLeft_suffix TrimPrefix_suffix show ?thesis by (metis append.assoc)
qed

lemma acceptIssuerNumber_cases:
  obtains "acceptIssuerNumber s = s"
  | v tail n where "drop (ls_pos s) (ls_input s) = v @ tail" "0 < n" "n \<le> length tail" "isDigit (byte (tail ! (n - 1)))"
      "acceptIssuerNumber s = s\<lparr>ls_end := int (length (ls_input s) - length tail + n),
         ls_pos := length (ls_input s) - length tail + n\<rparr>"
proof (cases "acceptIssuerNumber s = s")
  case False
  obtain tail where t: "issuer_tail (drop (ls_pos s) (ls_input s)) = Some tail"
    using False by (auto simp: acceptIssuerNumber_def split: option.splits)
  obtain v where v: "drop (ls_pos s) (ls_input s) = v @ tail" using issuer_tail_suffix [OF t] by blast
  let ?w = "takeWhile (\<lambda>c. isDigit (byte c)) tail"
  have n: "0 < length ?w" using False t by (auto simp: acceptIssuerNumber_def Let_def)
  have "?w ! (length ?w - 1) = tail ! (length ?w - 1)" using n by (simp add: takeWhile_nth)
  moreover have "?w ! (length ?w - 1) \<in> set ?w" using n by (intro nth_mem) simp
  ultimately have "isDigit (byte (tail ! (length ?w - 1)))" by (metis set_takeWhileD)
  moreover have "acceptIssuerNumber s = s\<lparr>ls_end := int (length (ls_input s) - length tail + length ?w),
         ls_pos := length (ls_input s) - length tail + length ?w\<rparr>"
    using False t by (auto simp: acceptIssuerNumber_def Let_def split: if_splits)
  ultimately show ?thesis using that(2) v n length_takeWhile_le by blast
qed

lemma acceptWord_cases:
  assumes "acceptWord s a b skip = Some s'"
  shows "s' = s\<lparr>ls_skippedPrefix := True, ls_pos := b\<rparr> \<and> ls_count s = 0 \<or>
    s' = s\<lparr>ls_start := (if ls_start s < 0 then int a else ls_start s), ls_end := int b, ls_pos := b, ls_count := ls_count s + 1\<rparr>"
  using assms unfolding acceptWord_def Let_def by (auto split: if_splits)

lemma label_step_word:
  assumes "label_step skip issuer s = Some s'"
  obtains a b s1 where "ls_pos s \<le> a" "a < b" "b \<le> length (ls_input s)" "a = scanLetters (ls_input s) (ls_pos s) False"
    "b = scanLetters (ls_input s) a True" "acceptWord s a b skip = Some s1" "s' = (if issuer then acceptIssuerNumber s1 else s1)"
proof -
  let ?a = "scanLetters (ls_input s) (ls_pos s) False" and ?b = "scanLetters (ls_input s) (scanLetters (ls_input s) (ls_pos s) False) True"
  have a: "?a < length (ls_input s)" and acc: "\<exists>s1. acceptWord s ?a ?b skip = Some s1 \<and> s' = (if issuer then acceptIssuerNumber s1 else s1)"
    using assms unfolding label_step_def Let_def by (auto split: if_splits option.splits)
  have "isLetter (fst (decode_rune (drop ?a (ls_input s))))"
    using scan_while_stop a unfolding scanLetters_def by metis
  then have "?a < ?b" using scan_while_progress a unfolding scanLetters_def by metis
  moreover have "?b \<le> length (ls_input s)" using scan_while_le a unfolding scanLetters_def by (metis less_imp_le)
  moreover have "ls_pos s \<le> ?a" using scan_while_ge unfolding scanLetters_def by blast
  ultimately show ?thesis using that acc by blast
qed

lemma label_step_progress:
  assumes "label_step skip issuer s = Some s'"
  shows "ls_input s' = ls_input s \<and> ls_pos s < ls_pos s' \<and> ls_pos s' \<le> length (ls_input s)"
proof (rule label_step_word [OF assms])
  fix a b s1
  assume w: "ls_pos s \<le> a" "a < b" "b \<le> length (ls_input s)" "acceptWord s a b skip = Some s1"
    "s' = (if issuer then acceptIssuerNumber s1 else s1)"
  have s1: "ls_input s1 = ls_input s \<and> ls_pos s1 = b" using acceptWord_cases [OF w(4)] by auto
  show ?thesis
  proof (cases rule: acceptIssuerNumber_cases [of s1])
    case 1
    then show ?thesis using w s1 by simp
  next
    case (2 v tail n)
    have "length (ls_input s) - b = length v + length tail" using arg_cong [OF 2(1), of length] s1 by simp
    then show ?thesis using 2 w s1 by auto
  qed
qed

function label_loop :: "nat \<Rightarrow> bytes list \<Rightarrow> bool \<Rightarrow> labelScanner \<Rightarrow> labelScanner" where
  "label_loop maxWords skipPrefixes issuerNumbers scan =
     (if ls_count scan < maxWords \<and> ls_pos scan < length (ls_input scan) then
        (case label_step skipPrefixes issuerNumbers scan of
           None \<Rightarrow> scan
         | Some scan' \<Rightarrow> label_loop maxWords skipPrefixes issuerNumbers scan')
      else scan)"
  by pat_completeness auto
termination
proof (relation "measure (\<lambda>(m, sk, i, s). length (ls_input s) - ls_pos s)", goal_cases)
  case (2 m sk i s s')
  then show ?case using label_step_progress [OF 2(2)] by auto
qed simp

declare label_loop.simps [simp del]

definition collectLabelValue :: "bytes \<Rightarrow> nat \<Rightarrow> nat \<Rightarrow> bytes list \<Rightarrow> bool \<Rightarrow> int \<times> int \<times> bool" where
  "collectLabelValue input start maxWords skipPrefixes issuerNumbers =
     (let input = boundedLabelInput input start;
          scan = label_loop maxWords skipPrefixes issuerNumbers
            \<lparr>ls_input = input, ls_pos = labelValueStart input start, ls_start = -1, ls_end = -1, ls_count = 0,
             ls_skippedPrefix = False\<rparr> in
      (ls_start scan, ls_end scan, ls_count scan > 0))"

definition collectLabeledWords :: "bytes \<Rightarrow> nat \<Rightarrow> nat \<Rightarrow> bytes list \<Rightarrow> int \<times> int \<times> bool" where
  "collectLabeledWords input start maxWords skipPrefixes = collectLabelValue input start maxWords skipPrefixes False"

section \<open>Windows and markers\<close>

definition contextWindow_runes :: nat where "contextWindow_runes = 96"

text \<open>At most \<open>n\<close> runes back from \<open>pos\<close>, in front of which \<open>stop\<close> ends the walk, and forward.\<close>

fun back_runes :: "nat \<Rightarrow> (rune \<Rightarrow> bool) \<Rightarrow> bytes \<Rightarrow> nat \<Rightarrow> nat" where
  "back_runes 0 stop input pos = pos"
| "back_runes (Suc n) stop input pos =
     (if pos > 0 then
        (case decode_last_rune (take pos input) of (r, width) \<Rightarrow>
           if stop r then pos else back_runes n stop input (pos - width))
      else pos)"

fun forward_runes :: "nat \<Rightarrow> bytes \<Rightarrow> nat \<Rightarrow> nat" where
  "forward_runes 0 input pos = pos"
| "forward_runes (Suc n) input pos =
     (if pos < length input then forward_runes n input (pos + snd (decode_rune (drop pos input))) else pos)"

definition contextBounds :: "bytes \<Rightarrow> nat \<Rightarrow> nat \<Rightarrow> nat \<times> nat" where
  "contextBounds input start stop =
     (back_runes contextWindow_runes (\<lambda>_. False) input start, forward_runes contextWindow_runes input stop)"

definition hasContextRegex :: "bytes \<Rightarrow> nat \<Rightarrow> nat \<Rightarrow> pattern list \<Rightarrow> bool" where
  "hasContextRegex input start stop markers =
     (case contextBounds input start stop of (lo, hi) \<Rightarrow>
        list_ex (\<lambda>m. MatchString m (gslice input lo hi)) markers)"

definition precedingLabel :: "bytes \<Rightarrow> nat \<Rightarrow> pattern \<Rightarrow> bool" where
  "precedingLabel input start re =
     (let fieldStart = back_runes contextWindow_runes (\<lambda>r. r = 0x3B \<or> r = 0x0A \<or> r = 0x2C) input start in
      MatchString re (gslice input fieldStart start))"

record markerGroup =
  mg_typ :: int
  mg_markers :: "pattern list"

definition lastMarkerEnd :: "bytes \<Rightarrow> pattern list \<Rightarrow> int" where
  "lastMarkerEnd input markers =
     foldl (\<lambda>e re. foldl (\<lambda>e m. max e (int (rm_end m))) e (FindAllStringSubmatchIndex re input)) (-1) markers"

fun best_marker :: "bytes \<Rightarrow> markerGroup list \<Rightarrow> int \<Rightarrow> int \<Rightarrow> int \<Rightarrow> int \<times> int" where
  "best_marker pref [] gi bestEnd bestGroup = (bestEnd, bestGroup)"
| "best_marker pref (g # gs) gi bestEnd bestGroup =
     (let stop = lastMarkerEnd pref (mg_markers g) in
      if stop > bestEnd then best_marker pref gs (gi + 1) stop gi
      else best_marker pref gs (gi + 1) bestEnd bestGroup)"

definition nearestPrecedingMarkerMatch :: "bytes \<Rightarrow> nat \<Rightarrow> markerGroup list \<Rightarrow> int \<times> int" where
  "nearestPrecedingMarkerMatch input start groups =
     (let fieldStart = back_runes contextWindow_runes (\<lambda>r. r = 0x3B \<or> r = 0x0A) input start in
      case best_marker (gslice input fieldStart start) groups 0 (-1) (-1) of (bestEnd, bestGroup) \<Rightarrow>
        if bestGroup < 0 then (-1, -1) else (bestGroup, int fieldStart + bestEnd))"

definition nearestPrecedingMarker :: "bytes \<Rightarrow> nat \<Rightarrow> markerGroup list \<Rightarrow> int" where
  "nearestPrecedingMarker input start groups = fst (nearestPrecedingMarkerMatch input start groups)"

section \<open>Digits around a candidate\<close>

definition is_digit_at :: "bytes \<Rightarrow> nat \<Rightarrow> bool" where
  "is_digit_at input i \<longleftrightarrow> isDigit (byte (input ! i))"

definition group_separator :: "char \<Rightarrow> bool" where
  "group_separator c \<longleftrightarrow> c = CHR '' '' \<or> c = CHR ''-''"

definition precededByMoreDigits :: "bytes \<Rightarrow> nat \<Rightarrow> bool" where
  "precededByMoreDigits input start =
     (let i = (if start > 0 \<and> group_separator (input ! (start - 1)) then start - 1 else start) in
      i > 0 \<and> is_digit_at input (i - 1))"

definition followedByMoreDigits :: "bytes \<Rightarrow> nat \<Rightarrow> bool" where
  "followedByMoreDigits input stop =
     (let i = (if stop < length input \<and> group_separator (input ! stop) then stop + 1 else stop) in
      i < length input \<and> is_digit_at input i)"

definition partOfLongerDigitSequence :: "bytes \<Rightarrow> nat \<Rightarrow> nat \<Rightarrow> bool" where
  "partOfLongerDigitSequence input start stop \<longleftrightarrow>
     precededByMoreDigits input start \<or> followedByMoreDigits input stop"

section \<open>Facts about the value after a label\<close>

text \<open>The state of the scan: positions are rune boundaries, and an accepted value is not empty.\<close>

definition scan_ok :: "labelScanner \<Rightarrow> bool" where
  "scan_ok s \<longleftrightarrow>
     rune_boundary (ls_input s) (ls_pos s) \<and> (ls_count s = 0 \<longrightarrow> ls_start s < 0) \<and>
     (ls_count s > 0 \<longrightarrow> 0 \<le> ls_start s \<and> ls_start s < ls_end s \<and> ls_end s \<le> int (ls_pos s) \<and>
        rune_boundary (ls_input s) (nat (ls_start s)) \<and> rune_boundary (ls_input s) (nat (ls_end s)))"

lemma acceptIssuerNumber_ok:
  assumes "valid_string (ls_input s)" and "scan_ok s"
  shows "scan_ok (acceptIssuerNumber s)"
proof (cases rule: acceptIssuerNumber_cases [of s])
  case (2 v tail n)
  have pos: "ls_pos s \<le> length (ls_input s)" using assms(2) by (auto simp: scan_ok_def rune_boundary_def)
  have len: "length (ls_input s) - ls_pos s = length v + length tail" using arg_cong [OF 2(1), of length] by simp
  let ?b = "length (ls_input s) - length tail + n"
  have j: "?b - 1 < length (ls_input s)" "?b - 1 = ls_pos s + (length v + (n - 1))" using 2(2,3) len pos by auto
  have "ls_input s ! (?b - 1) = drop (ls_pos s) (ls_input s) ! (length v + (n - 1))" using j pos by simp
  also have "\<dots> = tail ! (n - 1)" using 2(1) by simp
  finally have "byte (ls_input s ! (?b - 1)) < 0x80" using 2(4) by (simp add: isDigit_def)
  from ascii_boundary(2) [OF assms(1) j(1) this] have "rune_boundary (ls_input s) ?b" using 2(2) by simp
  moreover have "ls_pos s \<le> ?b" using j 2(2) by linarith
  moreover have "nat (int (length (ls_input s) - length tail) + int n) = ?b" by simp
  ultimately show ?thesis using assms(2) 2(5) by (auto simp: scan_ok_def)
qed (use assms(2) in simp)

lemma label_step_ok:
  assumes "label_step skip issuer s = Some s'" and "valid_string (ls_input s)" and "scan_ok s"
  shows "scan_ok s'"
proof (rule label_step_word [OF assms(1)])
  fix a b s1
  assume w: "ls_pos s \<le> a" "a < b" "b \<le> length (ls_input s)" "a = scanLetters (ls_input s) (ls_pos s) False"
    "b = scanLetters (ls_input s) a True" "acceptWord s a b skip = Some s1" "s' = (if issuer then acceptIssuerNumber s1 else s1)"
  have pos: "rune_boundary (ls_input s) (ls_pos s)" using assms(3) by (simp add: scan_ok_def)
  have a: "rune_boundary (ls_input s) a" using scan_while_boundary [OF assms(2) pos] w(4) by (simp add: scanLetters_def)
  have b: "rune_boundary (ls_input s) b" using scan_while_boundary [OF assms(2) a] w(5) by (simp add: scanLetters_def)
  have "scan_ok s1 \<and> ls_input s1 = ls_input s"
    using acceptWord_cases [OF w(6)] assms(3) a b w(1,2) by (auto simp: scan_ok_def)
  with acceptIssuerNumber_ok [of s1] assms(2) w(7) show ?thesis by simp
qed

lemma label_loop_ok:
  "valid_string (ls_input s) \<Longrightarrow> scan_ok s \<Longrightarrow>
   scan_ok (label_loop m skip issuer s) \<and> ls_input (label_loop m skip issuer s) = ls_input s"
proof (induction m skip issuer s rule: label_loop.induct)
  case (1 m skip issuer s)
  show ?case
  proof (cases "ls_count s < m \<and> ls_pos s < length (ls_input s)")
    case True
    show ?thesis
    proof (cases "label_step skip issuer s")
      case None
      with True 1 show ?thesis by (simp add: label_loop.simps [of m skip issuer s])
    next
      case (Some s')
      have "scan_ok s'" "ls_input s' = ls_input s"
        using label_step_ok [OF Some 1(2,3)] label_step_progress [OF Some] by auto
      with 1(1) [OF True Some] 1(2) True Some show ?thesis by (simp add: label_loop.simps [of m skip issuer s])
    qed
  next
    case False
    then have "label_loop m skip issuer s = s" by (subst label_loop.simps) auto
    with 1(2,3) show ?thesis by simp
  qed
qed

lemma boundedLabelInput_ok:
  assumes "valid_string input" and "rune_boundary input start"
  shows "valid_string (boundedLabelInput input start) \<and> rune_boundary (boundedLabelInput input start) start \<and>
    (\<forall>i. rune_boundary (boundedLabelInput input start) i \<longrightarrow> rune_boundary input i)"
proof (cases "length input - start \<le> 512")
  case False
  let ?e = "rune_start_down input (start + 512) start"
  have e: "start \<le> ?e" "?e \<le> start + 512" "rune_boundary input ?e"
    using rune_start_down_ok [OF assms(2), of "start + 512"] False by auto
  have "boundedLabelInput input start = take ?e input" using False by (simp add: boundedLabelInput_def)
  moreover have "valid_string (take ?e input)" using rune_boundary_split [OF assms(1) e(3)] by blast
  moreover have "rune_boundary (take ?e input) start" using assms(2) e(1) by (auto simp: rune_boundary_def)
  moreover have "rune_boundary (take ?e input) i \<Longrightarrow> rune_boundary input i" for i
    using e(2,3) False unfolding rune_boundary_def
    by (cases "i < ?e") (auto simp: min_def split: if_splits)
  ultimately show ?thesis by simp
qed (simp add: boundedLabelInput_def assms)

text \<open>A collected value is a non-empty piece of the text that cuts no rune.\<close>

lemma collectLabelValue_ok:
  assumes "valid_string input" and "rune_boundary input start" and "collectLabelValue input start m skip issuer = (a, b, True)"
  shows "0 \<le> a \<and> a < b \<and> rune_boundary input (nat a) \<and> rune_boundary input (nat b)"
proof -
  let ?in = "boundedLabelInput input start"
  let ?s = "\<lparr>ls_input = ?in, ls_pos = labelValueStart ?in start, ls_start = -1, ls_end = -1, ls_count = 0, ls_skippedPrefix = False\<rparr>"
  note bd = boundedLabelInput_ok [OF assms(1,2)]
  have "scan_ok ?s" using bd scan_while_boundary by (simp add: scan_ok_def labelValueStart_def)
  from label_loop_ok [OF _ this] bd have "scan_ok (label_loop m skip issuer ?s)" "ls_input (label_loop m skip issuer ?s) = ?in"
    by auto
  with assms(3) bd show ?thesis by (auto simp: collectLabelValue_def Let_def scan_ok_def)
qed

lemma collectLabeledWords_ok:
  assumes "valid_string input" and "rune_boundary input start" and "collectLabeledWords input start m skip = (a, b, True)"
  shows "0 \<le> a \<and> a < b \<and> rune_boundary input (nat a) \<and> rune_boundary input (nat b)"
  using collectLabelValue_ok [OF assms(1,2)] assms(3) by (simp add: collectLabeledWords_def)

end
