(* ===== verification/Regex_Spans.thy ===== *)
theory Regex_Spans
  imports Helpers
begin

text \<open>
  What the detectors rely on about the spans of a match: an expression that must consume a rune has
  no empty match, groups lie inside the match, and a group at the end of an expression ends
  with the match. The tests are executable, so a detector checks them by evaluation.
\<close>

section \<open>Expressions that consume\<close>

fun eats :: "regex \<Rightarrow> bool" where
  "eats (Lit rs ci) = (rs \<noteq> [])"
| "eats (Cls neg ci items) = True"
| "eats (Cap k re) = eats re"
| "eats (Plus re) = eats re"
| "eats (Rep lo hi re) = (lo > 0 \<and> eats re)"
| "eats (Cat res) = list_ex eats res"
| "eats (Alt res) = list_all eats res"
| "eats _ = False"

lemma rm_ge: "st' \<in> set (rm s re st) \<Longrightarrow> fst st \<le> fst st'"
  using advance.R_rm [of st' s re st] by (simp add: advances_def)

lemma keeps_advances_ge: "keeps (advances s) f \<Longrightarrow> st' \<in> set (f st) \<Longrightarrow> fst st \<le> fst st'"
  unfolding keeps_def advances_def by blast

lemma star_ge: "st' \<in> set (star_at s (rm s re) st) \<Longrightarrow> fst st \<le> fst st'"
  by (rule keeps_advances_ge [OF advance.keeps_star [OF advance.keeps_rm]])

lemma times_ge: "st' \<in> set (times_iter n (rm s re) st) \<Longrightarrow> fst st \<le> fst st'"
  by (rule keeps_advances_ge [OF advance.keeps_times [OF advance.keeps_rm]])

lemma upto_ge: "st' \<in> set (upto_iter n (rm s re) st) \<Longrightarrow> fst st \<le> fst st'"
  by (rule keeps_advances_ge [OF advance.keeps_upto [OF advance.keeps_rm]])

lemma lit_ge: "st' \<in> set (lit_runes s ci ls st) \<Longrightarrow> fst st \<le> fst st'"
  by (rule keeps_advances_ge [OF advance.keeps_lit])

lemma cat_ge: "st' \<in> set (rm_cat s res st) \<Longrightarrow> fst st \<le> fst st'"
  using rm_ge [of st' s "Cat res" st] by simp

lemma step_gt: "st' \<in> set (step_rune s p st) \<Longrightarrow> fst st < fst st'"
  using decode_rune_size [of "drop (fst st) s"] by (auto simp: step_rune_iff)

lemma lit_gt: "st' \<in> set (lit_runes s ci rs st) \<Longrightarrow> rs \<noteq> [] \<Longrightarrow> fst st < fst st'"
proof (cases rs)
  case (Cons l ls)
  assume "st' \<in> set (lit_runes s ci rs st)"
  then obtain mid where mid: "mid \<in> set (step_rune s (lit_match ci l) st)" "st' \<in> set (lit_runes s ci ls mid)"
    using Cons by auto
  from step_gt [OF mid(1)] lit_ge [OF mid(2)] show ?thesis by simp
qed simp

lemma cat_gt:
  assumes "\<And>re st st'. re \<in> set res \<Longrightarrow> eats re \<Longrightarrow> st' \<in> set (rm s re st) \<Longrightarrow> fst st < fst st'"
  shows "st' \<in> set (rm_cat s res st) \<Longrightarrow> list_ex eats res \<Longrightarrow> fst st < fst st'"
  using assms
proof (induction res arbitrary: st)
  case (Cons re res)
  then obtain mid where mid: "mid \<in> set (rm s re st)" "st' \<in> set (rm_cat s res mid)" by auto
  show ?case
  proof (cases "eats re")
    case True
    then have "fst st < fst mid" using Cons.prems(3) [OF _ True mid(1)] by simp
    with cat_ge [OF mid(2)] show ?thesis by simp
  next
    case False
    have "list_ex eats res" using False Cons.prems(2) by simp
    then have "fst mid < fst st'"
      using Cons.IH [OF mid(2)] Cons.prems(3) by (meson list.set_intros(2))
    with rm_ge [OF mid(1)] show ?thesis by simp
  qed
qed simp

lemma alt_cases: "st' \<in> set (rm_alt s res st) \<Longrightarrow> \<exists>re \<in> set res. st' \<in> set (rm s re st)"
  by (induction res) auto

lemma rm_eats: "eats re \<Longrightarrow> st' \<in> set (rm s re st) \<Longrightarrow> fst st < fst st'"
proof (induction re arbitrary: st st')
  case (Plus re)
  then obtain mid where mid: "mid \<in> set (rm s re st)" "st' \<in> set (star_at s (rm s re) mid)" by auto
  have "fst st < fst mid" using Plus.IH [OF _ mid(1)] Plus.prems(1) by simp
  with star_ge [OF mid(2)] show ?case by simp
next
  case (Rep lo hi re)
  then obtain n where lo: "lo = Suc n" by (cases lo) auto
  obtain m where m: "m \<in> set (times_iter lo (rm s re) st)" "fst m \<le> fst st'"
  proof (cases hi)
    case None
    then obtain m where "m \<in> set (times_iter lo (rm s re) st)" "st' \<in> set (star_at s (rm s re) m)" using Rep.prems(2) by auto
    with star_ge that show ?thesis by blast
  next
    case (Some h)
    then obtain m where "m \<in> set (times_iter lo (rm s re) st)" "st' \<in> set (upto_iter (h - lo) (rm s re) m)"
      using Rep.prems(2) by auto
    with upto_ge that show ?thesis by blast
  qed
  obtain m1 where m1: "m1 \<in> set (rm s re st)" "m \<in> set (times_iter n (rm s re) m1)" using m(1) lo by auto
  have "fst st < fst m1" using Rep.IH [OF _ m1(1)] Rep.prems(1) by simp
  with times_ge [OF m1(2)] m(2) show ?case by simp
next
  case (Cat res)
  then show ?case using cat_gt [of res s st' st] by simp
next
  case (Alt res)
  then obtain re where "re \<in> set res" "st' \<in> set (rm s re st)" using alt_cases by fastforce
  with Alt show ?case by (auto simp: list_all_iff)
next
  case (Lit rs ci)
  then show ?case using lit_gt by simp
next
  case (Cls n ci items)
  then show ?case using step_gt by simp
next
  case (Cap k re)
  then obtain j c where "(j, c) \<in> set (rm s re st)" "fst st' = j" by auto
  with Cap.IH Cap.prems(1) show ?case by (metis eats.simps(3) fst_conv)
qed simp_all

lemma FindAll_state:
  assumes "m \<in> set (regexp_FindAll re s)"
  shows "(rm_end m, rm_groups m) \<in> set (rm s re (rm_start m, Map.empty))"
proof (cases "rm s re (rm_start m, Map.empty)")
  case Nil
  then show ?thesis using FindAll_match_at [OF assms] by (simp add: match_at_def)
next
  case (Cons x xs)
  then have "m = \<lparr>rm_start = rm_start m, rm_end = fst x, rm_groups = snd x\<rparr>"
    using FindAll_match_at [OF assms] by (simp add: match_at_def case_prod_unfold)
  then have "rm_end m = fst x" "rm_groups m = snd x" by (metis rmatch.select_convs(2), metis rmatch.select_convs(3))
  then show ?thesis using Cons by simp
qed

lemma FindAll_nonempty: "eats re \<Longrightarrow> m \<in> set (regexp_FindAll re s) \<Longrightarrow> rm_start m < rm_end m"
  using rm_eats [OF _ FindAll_state] by fastforce

section \<open>Groups inside a match\<close>

definition inside :: "rstate \<Rightarrow> rstate \<Rightarrow> bool" where
  "inside st st' \<longleftrightarrow> fst st \<le> fst st' \<and>
     (\<forall>k a b. snd st' k = Some (a, b) \<longrightarrow> snd st k = Some (a, b) \<or> fst st \<le> a \<and> a \<le> b \<and> b \<le> fst st')"

interpretation inside: match_relation s inside for s
proof (unfold_locales, goal_cases)
  case (2 st st' st'')
  show ?case
    unfolding inside_def
  proof (intro conjI allI impI)
    show "fst st \<le> fst st''" using 2 by (simp add: inside_def)
    fix k a b assume k: "snd st'' k = Some (a, b)"
    then have "snd st' k = Some (a, b) \<or> fst st' \<le> a \<and> a \<le> b \<and> b \<le> fst st''" using 2(2) by (simp add: inside_def)
    then show "snd st k = Some (a, b) \<or> fst st \<le> a \<and> a \<le> b \<and> b \<le> fst st''"
    proof
      assume "snd st' k = Some (a, b)"
      then have "snd st k = Some (a, b) \<or> fst st \<le> a \<and> a \<le> b \<and> b \<le> fst st'" using 2(1) by (simp add: inside_def)
      moreover have "fst st' \<le> fst st''" using 2(2) by (simp add: inside_def)
      ultimately show ?thesis by auto
    qed (use 2(1) in \<open>auto simp: inside_def\<close>)
  qed
next
  case (3 st' p st)
  then show ?case using step_gt [OF 3] by (auto simp: inside_def step_rune_iff)
qed (auto simp: inside_def)

lemma FindAll_group_inside:
  assumes "m \<in> set (regexp_FindAll re s)" and "rm_groups m k = Some (a, b)"
  shows "rm_start m \<le> a \<and> a \<le> b \<and> b \<le> rm_end m"
proof -
  have "(rm_end m, rm_groups m) \<in> set (rm s re (rm_start m, Map.empty))"
    by (rule FindAll_state [OF assms(1)])
  from inside.R_rm [OF this] assms(2) show ?thesis by (auto simp: inside_def)
qed

section \<open>Groups that are not empty\<close>

fun group_eats :: "nat \<Rightarrow> regex \<Rightarrow> bool" where
  "group_eats k (Cap j re) = ((k = j \<longrightarrow> eats re) \<and> group_eats k re)"
| "group_eats k (Star re) = group_eats k re"
| "group_eats k (Plus re) = group_eats k re"
| "group_eats k (Quest re) = group_eats k re"
| "group_eats k (Rep lo hi re) = group_eats k re"
| "group_eats k (Cat res) = list_all (group_eats k) res"
| "group_eats k (Alt res) = list_all (group_eats k) res"
| "group_eats k _ = True"

definition full_group :: "nat \<Rightarrow> rstate \<Rightarrow> bool" where
  "full_group k st \<longleftrightarrow> (\<forall>a b. snd st k = Some (a, b) \<longrightarrow> a < b)"

definition keeps_full :: "nat \<Rightarrow> (rstate \<Rightarrow> rstate list) \<Rightarrow> bool" where
  "keeps_full k f \<longleftrightarrow> (\<forall>st. full_group k st \<longrightarrow> (\<forall>st' \<in> set (f st). full_group k st'))"

lemma full_bind: "keeps_full k f \<Longrightarrow> keeps_full k g \<Longrightarrow> keeps_full k (\<lambda>st. concat (map g (f st)))"
  unfolding keeps_full_def set_concat set_map by blast

lemma full_step: "keeps_full k (step_rune s p)"
  by (auto simp: keeps_full_def full_group_def step_rune_iff)

lemma full_lit: "keeps_full k (lit_runes s ci rs)"
proof (induction rs)
  case (Cons l ls)
  show ?case using full_bind [OF full_step Cons] by (simp add: keeps_full_def)
qed (simp add: keeps_full_def)

lemma full_star: "keeps_full k f \<Longrightarrow> keeps_full k (star_iter n f)"
proof (induction n)
  case (Suc n)
  then have "keeps_full k (star_iter n f)" by blast
  have "full_group k x" if "full_group k st" "st' \<in> set (f st)"
      "x \<in> set (if fst st < fst st' then star_iter n f st' else [st'])" for st st' x
  proof -
    have "full_group k st'" using Suc.prems that(1,2) unfolding keeps_full_def by blast
    with \<open>keeps_full k (star_iter n f)\<close> have "\<forall>x \<in> set (star_iter n f st'). full_group k x"
      unfolding keeps_full_def by blast
    with \<open>full_group k st'\<close> that(3) show ?thesis by (cases "fst st < fst st'") simp_all
  qed
  then show ?case unfolding keeps_full_def star_iter.simps set_append set_concat set_map by auto
qed (simp add: keeps_full_def)

lemma full_times: "keeps_full k f \<Longrightarrow> keeps_full k (times_iter n f)"
proof (induction n)
  case (Suc n)
  show ?case using full_bind [OF Suc.prems Suc.IH [OF Suc.prems]] by (simp add: keeps_full_def)
qed (simp add: keeps_full_def)

lemma full_upto: "keeps_full k f \<Longrightarrow> keeps_full k (upto_iter n f)"
proof (induction n)
  case (Suc n)
  show ?case using full_bind [OF Suc.prems Suc.IH [OF Suc.prems]] by (auto simp: keeps_full_def)
qed (simp add: keeps_full_def)

lemma full_cat: "(\<And>re. re \<in> set res \<Longrightarrow> keeps_full k (rm s re)) \<Longrightarrow> keeps_full k (rm_cat s res)"
proof (induction res)
  case (Cons re res)
  have "keeps_full k (rm s re)" "keeps_full k (rm_cat s res)" using Cons by simp_all
  from full_bind [OF this] show ?case by (simp add: keeps_full_def)
qed (simp add: keeps_full_def)

lemma full_alt: "(\<And>re. re \<in> set res \<Longrightarrow> keeps_full k (rm s re)) \<Longrightarrow> keeps_full k (rm_alt s res)"
  unfolding keeps_full_def by (metis alt_cases)

lemma rm_full: "group_eats k re \<Longrightarrow> keeps_full k (rm s re)"
proof (induction re)
  case (Rep lo hi re)
  then have re: "keeps_full k (rm s re)" by simp
  have st: "keeps_full k (star_at s (rm s re))" using full_star [OF re] unfolding keeps_full_def star_at_def by blast
  show ?case
  proof (cases hi)
    case None
    show ?thesis using full_bind [OF full_times [OF re] st] unfolding None keeps_full_def by simp
  next
    case (Some h)
    show ?thesis using full_bind [OF full_times [OF re] full_upto [OF re]] unfolding Some keeps_full_def by simp
  qed
next
  case (Star re)
  then have "keeps_full k (star_iter n (rm s re))" for n using full_star by simp
  then show ?case unfolding keeps_full_def rm.simps star_at_def by blast
next
  case (Plus re)
  then have re: "keeps_full k (rm s re)" by simp
  have "keeps_full k (star_at s (rm s re))" using full_star [OF re] unfolding keeps_full_def star_at_def by blast
  from full_bind [OF re this] show ?case by (simp add: keeps_full_def)
next
  case (Cap j re)
  then have re: "keeps_full k (rm s re)" by simp
  show ?case
    unfolding keeps_full_def
  proof (intro allI impI ballI)
    fix st st' assume st: "full_group k st" "st' \<in> set (rm s (Cap j re) st)"
    then obtain i c where ic: "(i, c) \<in> set (rm s re st)" "st' = (i, c(j \<mapsto> (fst st, i)))" by auto
    have "fst st < i" if "k = j" using rm_eats [OF _ ic(1)] Cap.prems that by simp
    moreover have "full_group k (i, c)" using re ic(1) st(1) unfolding keeps_full_def by blast
    ultimately show "full_group k st'" using ic(2) by (auto simp: full_group_def)
  qed
next
  case (Cat res)
  have "keeps_full k (rm s re)" if "re \<in> set res" for re
    using Cat.IH [OF that] Cat.prems that by (simp add: list_all_iff)
  from full_cat [OF this] show ?case unfolding keeps_full_def rm.simps .
next
  case (Alt res)
  have "keeps_full k (rm s re)" if "re \<in> set res" for re
    using Alt.IH [OF that] Alt.prems that by (simp add: list_all_iff)
  from full_alt [OF this] show ?case unfolding keeps_full_def rm.simps .
next
  case (Lit rs ci)
  show ?case using full_lit [of k s ci rs] unfolding keeps_full_def rm.simps .
next
  case (Cls n ci items)
  show ?case using full_step unfolding keeps_full_def rm.simps by blast
next
  case (Quest re)
  then have "keeps_full k (rm s re)" by simp
  then show ?case by (auto simp: keeps_full_def)
qed (simp_all add: keeps_full_def)

lemma FindAll_group_nonempty:
  assumes "group_eats k re" and "m \<in> set (regexp_FindAll re s)" and "rm_groups m k = Some (a, b)"
  shows "a < b"
proof -
  have "(rm_end m, rm_groups m) \<in> set (rm s re (rm_start m, Map.empty))"
    by (rule FindAll_state [OF assms(2)])
  moreover have "full_group k (rm_start m, Map.empty)" by (simp add: full_group_def)
  ultimately have "full_group k (rm_end m, rm_groups m)" using rm_full [OF assms(1), of s] unfolding keeps_full_def by blast
  with assms(3) show ?thesis by (simp add: full_group_def)
qed

section \<open>Groups at the end of an expression\<close>

lemma cat_last_group:
  "st' \<in> set (rm_cat s (res @ [Cap k re]) st) \<Longrightarrow> \<exists>a. snd st' k = Some (a, fst st')"
proof (induction res arbitrary: st)
  case (Cons r res)
  then show ?case by auto
qed auto

lemma FindAll_last_group:
  assumes "m \<in> set (regexp_FindAll (Cat (res @ [Cap k re])) s)"
  shows "\<exists>a. rm_groups m k = Some (a, rm_end m)"
proof -
  have "(rm_end m, rm_groups m) \<in> set (rm_cat s (res @ [Cap k re]) (rm_start m, Map.empty))"
    using FindAll_state [OF assms] by simp
  from cat_last_group [OF this] show ?thesis by simp
qed

end
