(* ===== verification/Number_Detectors.thy ===== *)
theory Number_Detectors
  imports Regex_Spans
begin

text \<open>
  The detectors for numbers and addresses with a fixed form: \<^verbatim>\<open>inn.go\<close>, \<^verbatim>\<open>card_number.go\<close>, \<^verbatim>\<open>phone.go\<close>,
  \<^verbatim>\<open>email.go\<close>, \<^verbatim>\<open>driver_license.go\<close>, \<^verbatim>\<open>custom_pattern.go\<close> of \<^verbatim>\<open>internal/pii/detectors\<close>, and the contract that
  every detector keeps: in valid text it reports non-empty, rune-aligned pieces of its
  categories. So the registry never rejects one of its findings.
\<close>

section \<open>Findings of a detector\<close>

definition report :: "PIIType \<Rightarrow> Confidence \<Rightarrow> bytes \<Rightarrow> bytes \<Rightarrow> nat \<Rightarrow> nat \<Rightarrow> Finding" where
  "report typ conf name input a b =
     \<lparr>f_Type = typ, f_Start = int a, f_End = int b, f_Confidence = conf, f_Detector = name,
      f_Value = gslice input a b, f_Evidence = 0\<rparr>"

text \<open>A detector of one category without weak candidates.\<close>

definition simple_detector :: "PIIType \<Rightarrow> (bytes \<Rightarrow> Finding list) \<Rightarrow> Detector" where
  "simple_detector typ D =
     \<lparr>d_Type = typ, d_Types = None, d_Detect = (\<lambda>s. Some (D s)), d_Candidates = None\<rparr>"

lemma finding_ok_accepted: "finding_ok s f \<Longrightarrow> validateFinding s f = None"
  by (auto simp: finding_ok_def validateFinding_def rune_boundary_def)

locale span_detector =
  fixes D :: "bytes \<Rightarrow> Finding list" and types :: "PIIType list"
  assumes wf: "valid_string s \<Longrightarrow> f \<in> set (D s) \<Longrightarrow> finding_ok s f \<and> f_Type f \<in> set types"
begin

lemma accepted: "valid_string s \<Longrightarrow> f \<in> set (D s) \<Longrightarrow> validateFinding s f = None"
  using wf finding_ok_accepted by blast

lemma sub_detector: "(\<And>s. set (D' s) \<subseteq> set (D s)) \<Longrightarrow> span_detector D' types"
  using wf by unfold_locales blast

end

lemma report_ok:
  assumes "a < b" and "rune_boundary s a" and "rune_boundary s b" and "0 \<le> c" and "c \<le> 1"
  shows "finding_ok s (report typ c name s a b)"
  using assms rune_boundary_le [of s b] by (simp add: report_def finding_ok_def)

lemma f_Type_report [simp]: "f_Type (report typ c name s a b) = typ"
  by (simp add: report_def)

lemma confidences [simp]:
  "0 \<le> ConfidenceHigh" "ConfidenceHigh \<le> 1" "0 \<le> ConfidenceMedium" "ConfidenceMedium \<le> 1"
  "0 \<le> AddressCandidateConfidence" "AddressCandidateConfidence \<le> 1" "0 \<le> NameCandidateConfidence" "NameCandidateConfidence \<le> 1"
  by (simp_all add: score_defs)

lemma submatch_ok:
  assumes "valid_string s" and "m \<in> set (FindAllStringSubmatchIndex (compilePattern re) s)"
  shows "rune_boundary s (rm_start m)" and "rune_boundary s (rm_end m)" and "eats re \<Longrightarrow> rm_start m < rm_end m"
proof -
  have m: "m \<in> set (regexp_FindAll re s)"
    using assms(2) by (simp add: FindAllStringSubmatchIndex_def compilePattern_def split: if_splits)
  show "rune_boundary s (rm_start m)" "rune_boundary s (rm_end m)"
    using FindAll_match_ok [OF assms(1) m] by (auto simp: match_ok_def)
  show "rm_start m < rm_end m" if "eats re" using FindAll_nonempty [OF that m] .
qed

lemma index_ok:
  assumes "valid_string s" and "(a, b) \<in> set (FindAllStringIndex (compilePattern re) s)"
  shows "rune_boundary s a" and "rune_boundary s b" and "a \<le> b"
proof -
  obtain m where m: "m \<in> set (regexp_FindAll re s)" "a = rm_start m" "b = rm_end m"
    using assms(2) by (auto simp: FindAllStringIndex_def compilePattern_def split: if_splits)
  show "rune_boundary s a" "rune_boundary s b" "a \<le> b"
    using FindAll_match_ok [OF assms(1) m(1)] m(2,3) by (auto simp: match_ok_def)
qed

text \<open>The common form: the matches of an expression that pass some tests.\<close>

lemma match_detector:
  assumes "\<And>s. D s = map (\<lambda>m. report typ (conf s m) name s (rm_start m) (rm_end m))
      (filter (ok s) (FindAllStringSubmatchIndex (compilePattern re) s))"
    and "eats re" and "\<And>s m. 0 \<le> conf s m \<and> conf s m \<le> 1" and "typ \<in> set types"
  shows "span_detector D types"
proof
  fix s f assume s: "valid_string s" and f: "f \<in> set (D s)"
  then obtain m where m: "m \<in> set (FindAllStringSubmatchIndex (compilePattern re) s)"
    and "f = report typ (conf s m) name s (rm_start m) (rm_end m)"
    using assms(1) by auto
  then show "finding_ok s f \<and> f_Type f \<in> set types"
    using submatch_ok [OF s m] assms(2-4) by (simp add: report_ok)
qed

section \<open>INN\<close>

definition inn_re :: regex where
  "inn_re =
     Cat [WordBoundary, Cap 1 (Alt [digits 10, digits 12]), WordBoundary]"

definition inn_markers :: "pattern list" where
  "inn_markers =
     patterns [
       ilit ''inn'',
       Cat [ilit ''identifikacionn'', letters, Plus space, ilit ''nomer'', Plus space, ilit
         ''nalogoplatelxWika'']]"

text \<open>\<^verbatim>\<open>int(inn[i]-'0')\<close>: a byte below 48 wraps around.\<close>

definition digit_value :: "char \<Rightarrow> nat" where
  "digit_value c = (byte c + 256 - 48) mod 256"

definition weighted_sum :: "bytes \<Rightarrow> nat list \<Rightarrow> nat" where
  "weighted_sum inn weights = sum_list (map (\<lambda>(c, w). digit_value c * w) (zip inn weights))"

definition innChecksum :: "bytes \<Rightarrow> bool" where
  "innChecksum inn =
     (if length inn = 10 then
        weighted_sum inn [2, 4, 10, 3, 5, 9, 4, 6, 8] mod 11 mod 10 = digit_value (inn ! 9)
      else if length inn = 12 then
        (let n11 = weighted_sum inn [7, 2, 4, 10, 3, 5, 9, 4, 6, 8] mod 11 mod 10 in
         if n11 \<noteq> digit_value (inn ! 10) then False
         else
           (let n12 = weighted_sum inn [3, 7, 2, 4, 10, 3, 5, 9, 4, 6, 8] mod 11 mod 10 in
            n12 = digit_value (inn ! 11)))
      else False)"

definition INN_Detect :: "bytes \<Rightarrow> Finding list" where
  "INN_Detect input =
     concat (map (\<lambda>m.
       let start = rm_start m; stop = rm_end m; text_digits = gslice input start stop in
       if partOfLongerDigitSequence input start stop then []
       else
         (let hasCtx = hasContextRegex input start stop inn_markers; valid = innChecksum text_digits in
          if \<not> hasCtx then []
          else
            (let conf = ConfidenceMedium;
                 conf = (if valid then ConfidenceHigh else conf);
                 conf = (if hasCtx then ConfidenceHigh else conf) in
             [report TypeINN conf ''inn'' input start stop])))
       (FindAllStringSubmatchIndex (compilePattern inn_re) input))"

definition INNDetector :: Detector where "INNDetector = simple_detector TypeINN INN_Detect"

section \<open>Card numbers\<close>

definition card_re :: regex where
  "card_re =
     Cat [WordBoundary, Alt [Rep 13 (Some 19) digit, Cat [digits 4, Cls False False [ClsSpace, ClsRange 0x2D
       0x2D], digits 6, Cls False False [ClsSpace, ClsRange 0x2D 0x2D], digits 5], Cat [digits 4, Rep 2 (Some 3)
       (Cat [Cls False False [ClsSpace, ClsRange 0x2D 0x2D], digits 4]), Quest (Cat [Cls False False [ClsSpace,
       ClsRange 0x2D 0x2D], Rep 1 (Some 3) digit])]], WordBoundary]"

definition card_markers :: "pattern list" where
  "card_markers =
     patterns [
       Cat [ilit ''nomer'', Plus space, ilit ''kart'', letters],
       Cat [ilit ''kart'', letters],
       Cat [ilit ''bankovsk'', letters, Plus space, ilit ''kart'', letters],
       Cat [ilit ''platEZn'', letters, Plus space, ilit ''kart'', letters],
       Cat [ilit ''plateZn'', letters, Plus space, ilit ''kart'', letters]]"

definition nonCardContext :: regex where
  "nonCardContext =
     Cat [wordStart, Alt [ilit ''nomer'', Cat [ilit ''sC'', Cls False True [ClsRange 0x435 0x435, ClsRange 0x451
       0x451], ilit ''t''], ilit ''kod'', ilit ''artikul'', ilit ''zakaz'', ilit ''dogovor'', ilit ''nakladnaY''
       , ilit ''telefon'', Cat [ilit ''registracionnyj'', Plus space, ilit ''nomer'']], Star space, Quest (Cls
       False True [ClsRange 0x3A 0x3A, ClsRange 0x23 0x23, ClsRange 0x2116 0x2116, ClsRange 0x2D 0x2D]), Star
       space, EndText]"

text \<open>\<open>seen\<close> is the separator met first.\<close>

fun consistent_from :: "char option \<Rightarrow> bytes \<Rightarrow> bool" where
  "consistent_from seen [] = True"
| "consistent_from seen (c # s) =
     (if group_separator c then
        (case seen of None \<Rightarrow> consistent_from (Some c) s
         | Some sep \<Rightarrow> if c \<noteq> sep then False else consistent_from seen s)
      else consistent_from seen s)"

definition consistentSeparators :: "bytes \<Rightarrow> bool" where
  "consistentSeparators s = consistent_from None s"

text \<open>The loop runs from the last digit to the first.\<close>

fun luhn_sum :: "bool \<Rightarrow> bytes \<Rightarrow> nat" where
  "luhn_sum double [] = 0"
| "luhn_sum double (c # s) =
     (let d = digit_value c; d = (if double then (if d * 2 > 9 then d * 2 - 9 else d * 2) else d) in
      d + luhn_sum (\<not> double) s)"

definition luhn :: "bytes \<Rightarrow> bool" where
  "luhn s \<longleftrightarrow> luhn_sum False (rev s) mod 10 = 0"

definition card_accepted :: "bytes \<Rightarrow> rmatch \<Rightarrow> bool" where
  "card_accepted input m =
     (let start = rm_start m; stop = rm_end m; candidate = gslice input start stop;
          ds = normalizeDigits candidate in
      if length ds < 13 \<or> length ds > 19 then False
      else if \<not> consistentSeparators candidate then False
      else if partOfLongerDigitSequence input start stop then False
      else
        (let hasCtx = hasContextRegex input start stop card_markers in
         if \<not> hasCtx \<and> precedingLabel input start (compilePattern nonCardContext) then False
         else luhn ds \<or> hasCtx))"

definition Card_Detect :: "bytes \<Rightarrow> Finding list" where
  "Card_Detect input =
     map (\<lambda>m. report TypeCardNumber ConfidenceHigh ''card_number'' input (rm_start m) (rm_end m))
       (filter (card_accepted input) (FindAllStringSubmatchIndex (compilePattern card_re) input))"

definition CardNumberDetector :: Detector where
  "CardNumberDetector = simple_detector TypeCardNumber Card_Detect"

section \<open>Phones\<close>

definition phone_re :: regex where
  "phone_re =
     Cat [Alt [clit ''+7'', clit ''8''], Quest (Cls False False [ClsSpace, ClsRange 0x2D 0x2D]), Alt [Cat [Quest
       (clit ''(''), digits 4, Quest (clit '')''), Quest (Cls False False [ClsSpace, ClsRange 0x2D 0x2D]),
       digits 2, Quest (Cls False False [ClsSpace, ClsRange 0x2D 0x2D]), digits 2, Quest (Cls False False
       [ClsSpace, ClsRange 0x2D 0x2D]), digits 2], Cat [Quest (clit ''(''), digits 3, Quest (clit '')''), Quest
       (Cls False False [ClsSpace, ClsRange 0x2D 0x2D]), digits 3, Quest (Cls False False [ClsSpace, ClsRange
       0x2D 0x2D]), digits 2, Quest (Cls False False [ClsSpace, ClsRange 0x2D 0x2D]), digits 2]]]"

definition phoneMarkers :: "pattern list" where
  "phoneMarkers =
     patterns [
       ilit ''telefon'',
       Cat [ilit ''mobilxn'', letters],
       Cat [ilit ''kontaktn'', letters]]"

definition nonPhoneContext :: regex where
  "nonPhoneContext =
     Cat [wordStart, Alt [Cat [ilit ''nomer'', Quest (Cat [Plus space, Alt [ilit ''zakaza'', ilit ''dogovora'',
       Cat [ilit ''sC'', Cls False True [ClsRange 0x435 0x435, ClsRange 0x451 0x451], ilit ''ta''], ilit
       ''nakladnoj'']])], Cat [ilit ''sC'', Cls False True [ClsRange 0x435 0x435, ClsRange 0x451 0x451], ilit
       ''t''], ilit ''zakaz'', ilit ''nakladnaY'', ilit ''kod'', ilit ''artikul'', ilit ''dogovor'', Cat [ilit
       ''registracionnyj'', Plus space, ilit ''nomer'']], Star space, Quest (Cls False True [ClsRange 0x3A 0x3A,
       ClsRange 0x23 0x23, ClsRange 0x2116 0x2116, ClsRange 0x2D 0x2D, ClsRange 0x2014 0x2014]), Star space,
       EndText]"

definition phone_accepted :: "bytes \<Rightarrow> rmatch \<Rightarrow> bool" where
  "phone_accepted input m =
     (let start = rm_start m; stop = rm_end m in
      if partOfLongerDigitSequence input start stop then False
      else \<not> (\<not> hasContextRegex input start stop phoneMarkers \<and>
        precedingLabel input start (compilePattern nonPhoneContext)))"

definition Phone_Detect :: "bytes \<Rightarrow> Finding list" where
  "Phone_Detect input =
     map (\<lambda>m. report TypePhone ConfidenceHigh ''phone'' input (rm_start m) (rm_end m))
       (filter (phone_accepted input) (FindAllStringSubmatchIndex (compilePattern phone_re) input))"

definition PhoneDetector :: Detector where "PhoneDetector = simple_detector TypePhone Phone_Detect"

section \<open>Mail addresses\<close>

definition email_re :: regex where
  "email_re =
     Cat [WordBoundary, Plus (Cls False True [ClsRange 0x41 0x5A, ClsRange 0x30 0x39, ClsRange 0x2E 0x2E,
       ClsRange 0x5F 0x5F, ClsRange 0x25 0x25, ClsRange 0x2B 0x2B, ClsRange 0x2D 0x2D]), alit ''@'', Plus (Cls
       False True [ClsRange 0x41 0x5A, ClsRange 0x30 0x39, ClsRange 0x2E 0x2E, ClsRange 0x2D 0x2D]), alit ''.'',
       Rep 2 None (Cls False True [ClsRange 0x41 0x5A]), WordBoundary]"

definition validEmailPart :: "bytes \<Rightarrow> bool" where
  "validEmailPart s =
     (if s = [] \<or> strings_HasPrefix s ''.'' \<or> strings_HasSuffix s ''.'' then False
      else if strings_Contains s ''..'' then False
      else list_all (\<lambda>label. \<not> (label = [] \<or> strings_HasPrefix label ''-'' \<or> strings_HasSuffix label ''-''))
        (strings_Split s (CHR ''.'')))"

definition validEmail :: "bytes \<Rightarrow> bool" where
  "validEmail s =
     (case strings_LastIndexByte s (CHR ''@'') of
        None \<Rightarrow> False
      | Some at_ \<Rightarrow>
          if at_ \<le> 0 \<or> at_ = length s - 1 then False
          else
            (let local = take at_ s; domain = drop (at_ + 1) s in
             if \<not> validEmailPart local \<or> \<not> validEmailPart domain then False
             else strings_Contains domain ''.''))"

definition Email_Detect :: "bytes \<Rightarrow> Finding list" where
  "Email_Detect input =
     map (\<lambda>m. report TypeEmail ConfidenceHigh ''email'' input (rm_start m) (rm_end m))
       (filter (\<lambda>m. validEmail (gslice input (rm_start m) (rm_end m)))
         (FindAllStringSubmatchIndex (compilePattern email_re) input))"

definition EmailDetector :: Detector where "EmailDetector = simple_detector TypeEmail Email_Detect"

section \<open>Driver licenses\<close>

definition license_markers :: "pattern list" where
  "license_markers =
     patterns [
       Cat [ilit ''voditelxsk'', letters, Plus space, ilit ''udostovereni'', letters],
       Cat [ilit ''voditelxsk'', letters, Plus space, ilit ''prava''],
       ilit ''prava'',
       ilit ''v.u.'',
       Cat [ilit ''udostoverenie'', Plus space, ilit ''voditelY''],
       Cat [ilit ''voditelxsk'', letters]]"

definition license_re :: regex where
  "license_re =
     Cap 1 (Alt [Cat [digits 2, Rep 2 (Some 2) (Cls False True [ClsRange 0x410 0x42F, ClsRange 0x401 0x401]),
       Quest space, digits 6], Cat [digits 4, Quest space, digits 6]])"

definition License_Detect :: "bytes \<Rightarrow> Finding list" where
  "License_Detect input =
     map (\<lambda>m. report TypeDriverLicense ConfidenceHigh ''driver_license'' input (rm_start m) (rm_end m))
       (filter (\<lambda>m. \<not> partOfLongerDigitSequence input (rm_start m) (rm_end m) \<and>
           hasContextRegex input (rm_start m) (rm_end m) license_markers)
         (FindAllStringSubmatchIndex (compilePattern license_re) input))"

definition DriverLicenseDetector :: Detector where
  "DriverLicenseDetector = simple_detector TypeDriverLicense License_Detect"

section \<open>Configured expressions\<close>

text \<open>
  \<^verbatim>\<open>regexp.Compile\<close> is not in the repository: \<open>compile\<close> gives the tree of an expression, or
  \<^const>\<open>None\<close> with an error.
\<close>

record PatternDetector =
  pd_typ :: PIIType
  pd_confidence :: Confidence
  pd_re :: pattern

definition NewPatternDetector ::
  "(bytes \<Rightarrow> regex option) \<Rightarrow> PIIType \<Rightarrow> bytes \<Rightarrow> Confidence \<Rightarrow> error + PatternDetector"
where
  "NewPatternDetector compile typ expr confidence =
     (if typ = [] then Inl (ErrText ''pii: custom pattern detector requires a type'')
      else if expr = [] then Inl (ErrText ''pii: custom pattern detector requires a pattern'')
      else case compile expr of
        None \<Rightarrow> Inl (ErrText (''pii: invalid pattern for type '' @ typ))
      | Some re \<Rightarrow> Inr \<lparr>pd_typ = typ, pd_confidence = confidence, pd_re = compilePattern re\<rparr>)"

definition Pattern_Detect :: "PatternDetector \<Rightarrow> bytes \<Rightarrow> Finding list" where
  "Pattern_Detect d input =
     map (\<lambda>(start, stop). report (pd_typ d) (pd_confidence d) (''custom:'' @ pd_typ d) input start stop)
       (filter (\<lambda>(start, stop). start \<noteq> stop) (FindAllStringIndex (pd_re d) input))"

definition custom_detector :: "PatternDetector \<Rightarrow> Detector" where
  "custom_detector d = simple_detector (pd_typ d) (Pattern_Detect d)"

section \<open>The detectors keep the contract\<close>

lemma regexes_eat: "eats inn_re" "eats card_re" "eats phone_re" "eats email_re" "eats license_re"
  by (simp_all add: inn_re_def card_re_def phone_re_def email_re_def license_re_def regex_words ascii_runes_def)

interpretation card_numbers: span_detector Card_Detect "[TypeCardNumber]"
  by (rule match_detector [OF Card_Detect_def regexes_eat(2)]) simp_all

interpretation phones: span_detector Phone_Detect "[TypePhone]"
  by (rule match_detector [OF Phone_Detect_def regexes_eat(3)]) simp_all

interpretation emails: span_detector Email_Detect "[TypeEmail]"
  by (rule match_detector [OF Email_Detect_def regexes_eat(4)]) simp_all

interpretation licenses: span_detector License_Detect "[TypeDriverLicense]"
  by (rule match_detector [OF License_Detect_def regexes_eat(5)]) simp_all

text \<open>The checksum does not influence the result: the context decides alone.\<close>

lemma INN_Detect_eq:
  "INN_Detect input =
     map (\<lambda>m. report TypeINN ConfidenceHigh ''inn'' input (rm_start m) (rm_end m))
       (filter (\<lambda>m. \<not> partOfLongerDigitSequence input (rm_start m) (rm_end m) \<and>
           hasContextRegex input (rm_start m) (rm_end m) inn_markers)
         (FindAllStringSubmatchIndex (compilePattern inn_re) input))"
proof -
  have "concat (map (\<lambda>m. if P m then [] else if \<not> Q m then [] else [f m]) ms) = map f (filter (\<lambda>m. \<not> P m \<and> Q m) ms)"
    for P Q :: "rmatch \<Rightarrow> bool" and f :: "rmatch \<Rightarrow> Finding" and ms
    by (induction ms) auto
  then show ?thesis unfolding INN_Detect_def Let_def by simp
qed

interpretation inns: span_detector INN_Detect "[TypeINN]"
  by (rule match_detector [OF INN_Detect_eq regexes_eat(1)]) simp_all

lemma Pattern_Detect_ok:
  assumes "0 \<le> pd_confidence d" and "pd_confidence d \<le> 1" and "pd_re d = compilePattern re"
  shows "span_detector (Pattern_Detect d) [pd_typ d]"
proof
  fix s f assume s: "valid_string s" and f: "f \<in> set (Pattern_Detect d s)"
  then obtain a b where ab: "(a, b) \<in> set (FindAllStringIndex (compilePattern re) s)" "a \<noteq> b"
    and "f = report (pd_typ d) (pd_confidence d) (''custom:'' @ pd_typ d) s a b"
    using assms(3) by (auto simp: Pattern_Detect_def)
  then show "finding_ok s f \<and> f_Type f \<in> set [pd_typ d]"
    using index_ok [OF s ab(1)] assms(1,2) by (simp add: report_ok)
qed

end
