(* ===== verification/Date_Detectors.thy ===== *)
theory Date_Detectors
  imports Number_Detectors
begin

text \<open>
  \<^verbatim>\<open>date.go\<close>, \<^verbatim>\<open>cvv.go\<close> and \<^verbatim>\<open>card_pin.go\<close> of \<^verbatim>\<open>internal/pii/detectors\<close>: dates in digits and in words, and short
  codes, which are reported only after the nearest marker in their field.
\<close>

section \<open>Markers and number words\<close>

definition dateDOBMarkers :: "pattern list" where
  "dateDOBMarkers =
     patterns [
       Cat [ilit ''data'', Plus space, ilit ''roZdeniY''],
       Cat [ilit ''data'', Plus space, ilit ''roZd''],
       Cat [ilit ''rodil'', letters, Star space, Quest (Cls False True [ClsRange 0x3A 0x3A, ClsRange 0x2E
         0x2E]), Star space, EndText],
       ilit ''rodilsY'',
       ilit ''rodilasx'',
       ilit ''d.r.'',
       Cat [ilit ''god'', Plus space, ilit ''roZdeniY'']]"

definition dateIssueMarkers :: "pattern list" where
  "dateIssueMarkers =
     patterns [
       Cat [wordStart, ilit ''data'', Plus space, ilit ''vydaCi'', Quest (Cat [Plus space, ilit ''pasporta'']),
         wordEnd],
       Cat [wordStart, ilit ''vydan'', Quest (Alt (map ilit [''o'', ''a''])), wordEnd]]"

definition dateGenericMarkers :: "pattern list" where
  "dateGenericMarkers =
     patterns [
       ilit ''Cislo'',
       Cat [ilit ''denx'', Plus space, ilit ''roZdeniY''],
       Cat [wordStart, ilit ''god'']]"

definition dayOrdinalWords :: "(bytes \<times> nat) list" where
  "dayOrdinalWords = map (\<lambda>(w, n). (ru w, n))
     [(''pervogo'', 1), (''vtorogo'', 2), (''tretxego'', 3), (''CetvErtogo'', 4), (''Cetvertogo'', 4), (
       ''pYtogo'', 5), (''Sestogo'', 6), (''sedxmogo'', 7), (''vosxmogo'', 8), (''devYtogo'', 9), (''desYtogo'',
       10), (''odinnadcatogo'', 11), (''dvenadcatogo'', 12), (''trinadcatogo'', 13), (''Cetyrnadcatogo'', 14), (
       ''pYtnadcatogo'', 15), (''Sestnadcatogo'', 16), (''semnadcatogo'', 17), (''vosemnadcatogo'', 18), (
       ''devYtnadcatogo'', 19), (''dvadcatogo'', 20), (''tridcatogo'', 30)]"

definition dayTensWords :: "(bytes \<times> nat) list" where
  "dayTensWords = map (\<lambda>(w, n). (ru w, n))
     [(''dvadcatx'', 20), (''tridcatx'', 30)]"

definition monthWords :: "(bytes \<times> nat) list" where
  "monthWords = map (\<lambda>(w, n). (ru w, n))
     [(''YnvarY'', 1), (''fevralY'', 2), (''marta'', 3), (''aprelY'', 4), (''maY'', 5), (''iUnY'', 6), (''iUlY''
       , 7), (''avgusta'', 8), (''sentYbrY'', 9), (''oktYbrY'', 10), (''noYbrY'', 11), (''dekabrY'', 12)]"

definition yearOrdinalUnderHundred :: "(bytes \<times> nat) list" where
  "yearOrdinalUnderHundred = map (\<lambda>(w, n). (ru w, n))
     [(''pervogo'', 1), (''vtorogo'', 2), (''tretxego'', 3), (''CetvErtogo'', 4), (''Cetvertogo'', 4), (
       ''pYtogo'', 5), (''Sestogo'', 6), (''sedxmogo'', 7), (''vosxmogo'', 8), (''devYtogo'', 9), (''desYtogo'',
       10), (''odinnadcatogo'', 11), (''dvenadcatogo'', 12), (''trinadcatogo'', 13), (''Cetyrnadcatogo'', 14), (
       ''pYtnadcatogo'', 15), (''Sestnadcatogo'', 16), (''semnadcatogo'', 17), (''vosemnadcatogo'', 18), (
       ''devYtnadcatogo'', 19), (''dvadcatogo'', 20), (''tridcatogo'', 30), (''sorokovogo'', 40), (
       ''pYtidesYtogo'', 50), (''SestidesYtogo'', 60), (''semidesYtogo'', 70), (''vosxmidesYtogo'', 80), (
       ''devYnostogo'', 90)]"

definition yearCardinalTens :: "(bytes \<times> nat) list" where
  "yearCardinalTens = map (\<lambda>(w, n). (ru w, n))
     [(''dvadcatx'', 20), (''tridcatx'', 30), (''sorok'', 40), (''pYtxdesYt'', 50), (''SestxdesYt'', 60), (
       ''semxdesYt'', 70), (''vosemxdesYt'', 80), (''devYnosto'', 90)]"

definition dayMonthRe :: regex where
  "dayMonthRe =
     Cat [wordStart, Cap 1 (Cat [Alt (map ilit [''pervogo'', ''vtorogo'', ''tretxego'', ''CetvErtogo'',
       ''Cetvertogo'', ''pYtogo'', ''Sestogo'', ''sedxmogo'', ''vosxmogo'', ''devYtogo'', ''desYtogo'',
       ''odinnadcatogo'', ''dvenadcatogo'', ''trinadcatogo'', ''Cetyrnadcatogo'', ''pYtnadcatogo'',
       ''Sestnadcatogo'', ''semnadcatogo'', ''vosemnadcatogo'', ''devYtnadcatogo'', ''dvadcatogo'',
       ''tridcatogo'', ''dvadcatx'', ''tridcatx'']), Quest (Cat [Plus space, Alt (map ilit [''pervogo'',
       ''vtorogo'', ''tretxego'', ''CetvErtogo'', ''Cetvertogo'', ''pYtogo'', ''Sestogo'', ''sedxmogo'',
       ''vosxmogo'', ''devYtogo''])])]), Plus space, Cap 2 (Alt (map ilit [''YnvarY'', ''fevralY'', ''marta'',
       ''aprelY'', ''maY'', ''iUnY'', ''iUlY'', ''avgusta'', ''sentYbrY'', ''oktYbrY'', ''noYbrY'', ''dekabrY''
       ]))]"

definition numericRe :: regex where
  "numericRe =
     Cat [WordBoundary, Cap 1 (Rep 1 (Some 2) digit), Cls False False [ClsRange 0x2E 0x2E, ClsRange 0x2F 0x2F,
       ClsRange 0x2D 0x2D], Cap 2 (Rep 1 (Some 2) digit), Cls False False [ClsRange 0x2E 0x2E, ClsRange 0x2F
       0x2F, ClsRange 0x2D 0x2D], Cap 3 (Rep 2 (Some 4) digit), WordBoundary]"

definition yearFirstRe :: regex where
  "yearFirstRe =
     Cat [WordBoundary, Cap 1 (digits 4), Cls False False [ClsRange 0x2E 0x2E, ClsRange 0x2F 0x2F, ClsRange 0x2D
       0x2D], Cap 2 (Rep 1 (Some 2) digit), Cls False False [ClsRange 0x2E 0x2E, ClsRange 0x2F 0x2F, ClsRange
       0x2D 0x2D], Cap 3 (Rep 1 (Some 2) digit), WordBoundary]"

definition textualRe :: regex where
  "textualRe =
     Cat [Cap 1 (Rep 1 (Some 2) digit), Plus space, Cap 2 (Alt (map ilit [''YnvarY'', ''fevralY'', ''marta'',
       ''aprelY'', ''maY'', ''iUnY'', ''iUlY'', ''avgusta'', ''sentYbrY'', ''oktYbrY'', ''noYbrY'', ''dekabrY''
       ])), Plus space, Cap 3 (digits 4)]"

definition yearOnlyRe :: regex where
  "yearOnlyRe =
     Cat [wordStart, ilit ''god'', Plus space, ilit ''roZdeniY'', Star space, Quest (Cls False True [ClsRange
       0x3A 0x3A, ClsRange 0x2D 0x2D]), Star space, Cap 1 (Cat [Alt [alit ''19'', alit ''20''], digits 2]), Alt
       [EndText, Cls True True [ClsDigit]]]"

section \<open>Calendar\<close>

definition isLeap :: "nat \<Rightarrow> bool" where
  "isLeap yy \<longleftrightarrow> yy mod 4 = 0 \<and> (yy mod 100 \<noteq> 0 \<or> yy mod 400 = 0)"

definition month_days :: "nat \<Rightarrow> nat list" where
  "month_days yy =
     (let days = [31, 28, 31, 30, 31, 30, 31, 31, 30, 31, 30, 31] in if isLeap yy then days[1 := 29] else days)"

definition validDateParts :: "nat \<Rightarrow> nat \<Rightarrow> nat \<Rightarrow> bool" where
  "validDateParts dd mm yy =
     (if mm < 1 \<or> mm > 12 \<or> dd < 1 then False
      else
        (let yy = (if yy < 100 then yy + 2000 else yy) in
         if yy < 1900 \<or> yy > 2100 then False
         else dd \<le> month_days yy ! (mm - 1)))"

text \<open>\<^verbatim>\<open>atoi\<close> is used on at most four digits.\<close>

definition atoi :: "bytes \<Rightarrow> nat" where
  "atoi s = foldl (\<lambda>n r. if r < 0x30 \<or> r > 0x39 then n else n * 10 + (r - 0x30)) 0 (runes s)"

fun dedup_loop :: "(int \<times> int) list \<Rightarrow> Finding list \<Rightarrow> Finding list" where
  "dedup_loop seen [] = []"
| "dedup_loop seen (f # fs) =
     (if (f_Start f, f_End f) \<in> set seen then dedup_loop seen fs
      else f # dedup_loop ((f_Start f, f_End f) # seen) fs)"

definition dedupBySpan :: "Finding list \<Rightarrow> Finding list" where
  "dedupBySpan findings = (if length findings < 2 then findings else dedup_loop [] findings)"

section \<open>Dates in words\<close>

definition lookup_word :: "(bytes \<times> nat) list \<Rightarrow> bytes \<Rightarrow> nat option" where
  "lookup_word words w = map_of words (strings_ToLower w)"

definition parseDayWords :: "bytes \<Rightarrow> nat option" where
  "parseDayWords s =
     (case strings_Fields s of
        [] \<Rightarrow> None
      | [w] \<Rightarrow> lookup_word dayOrdinalWords w
      | w # v # _ \<Rightarrow>
          (case lookup_word dayTensWords w of None \<Rightarrow> None
           | Some tens \<Rightarrow>
               (case lookup_word dayOrdinalWords v of None \<Rightarrow> None | Some ones \<Rightarrow> Some (tens + ones))))"

definition dateWordContinues :: "bytes \<Rightarrow> nat \<Rightarrow> bool" where
  "dateWordContinues input stop =
     (if stop \<ge> length input then False
      else (let r = fst (decode_rune (drop stop input)) in unicode_IsLetter r \<or> unicode_IsDigit r))"

text \<open>The word with the position after it.\<close>

definition nextDateWord :: "bytes \<Rightarrow> nat \<Rightarrow> (bytes \<times> nat) option" where
  "nextDateWord input start =
     (let word_start = scan_while unicode_IsSpace input start;
          i = scan_while unicode_IsLetter input word_start in
      if i = word_start then None else Some (gslice input word_start i, i))"

definition finishYearWords :: "bytes \<Rightarrow> nat \<Rightarrow> nat \<Rightarrow> (nat \<times> nat) option" where
  "finishYearWords input start year =
     (case nextDateWord input start of
        None \<Rightarrow> None
      | Some (word, stop) \<Rightarrow>
          if strings_ToLower word \<noteq> ru ''goda'' \<or> year < 1900 \<or> year > 2099 then None
          else if stop < length input \<and>
            (let r = fst (decode_rune (drop stop input)) in unicode_IsLetter r \<or> unicode_IsDigit r) then None
          else Some (year, stop))"

text \<open>The part of the year after the century.\<close>

definition parseYearRest :: "bytes \<Rightarrow> nat \<Rightarrow> nat \<Rightarrow> (nat \<times> nat) option" where
  "parseYearRest input start base =
     (case nextDateWord input start of
        None \<Rightarrow> None
      | Some (remainder, stop) \<Rightarrow>
          (case lookup_word yearOrdinalUnderHundred remainder of
             Some v \<Rightarrow> finishYearWords input stop (base + v)
           | None \<Rightarrow>
               (case lookup_word yearCardinalTens remainder of
                  None \<Rightarrow> None
                | Some tens \<Rightarrow>
                    (case nextDateWord input stop of
                       None \<Rightarrow> None
                     | Some (onesWord, onesEnd) \<Rightarrow>
                         (case lookup_word dayOrdinalWords onesWord of
                            None \<Rightarrow> None
                          | Some ones \<Rightarrow>
                              if ones < 1 \<or> ones > 9 then None
                              else finishYearWords input onesEnd (base + tens + ones))))))"

definition parseYearWords :: "bytes \<Rightarrow> nat \<Rightarrow> (nat \<times> nat) option" where
  "parseYearWords input start =
     (case nextDateWord input start of
        None \<Rightarrow> None
      | Some (word, stop) \<Rightarrow>
          (let word = strings_ToLower word in
           if word = ru ''dvuhtysYCnogo'' then finishYearWords input stop 2000
           else if word \<noteq> ru ''tysYCa'' \<and> word \<noteq> ru ''dve'' then None
           else
             (case nextDateWord input stop of
                None \<Rightarrow> None
              | Some (second, secondEnd) \<Rightarrow>
                  (let second = strings_ToLower second in
                   if word = ru ''tysYCa'' \<and> second = ru ''devYtisotogo'' then finishYearWords input secondEnd 1900
                   else if word = ru ''tysYCa'' \<and> second = ru ''devYtxsot'' then parseYearRest input secondEnd 1900
                   else if word = ru ''dve'' \<and> second = ru ''tysYCi'' then parseYearRest input secondEnd 2000
                   else None))))"

section \<open>Classification and the detector\<close>

definition date_groups :: "markerGroup list" where
  "date_groups =
     [\<lparr>mg_typ = 0, mg_markers = dateDOBMarkers\<rparr>, \<lparr>mg_typ = 1, mg_markers = dateIssueMarkers\<rparr>,
      \<lparr>mg_typ = 2, mg_markers = dateGenericMarkers\<rparr>]"

text \<open>\<^const>\<open>None\<close> is the empty type.\<close>

definition classify :: "bytes \<Rightarrow> nat \<Rightarrow> nat \<Rightarrow> (PIIType \<times> Confidence) option" where
  "classify input start stop =
     (case nearestPrecedingMarkerMatch input start date_groups of (typ, markerEnd) \<Rightarrow>
        if typ = 0 then Some (TypeDateOfBirth, ConfidenceHigh)
        else if typ = 1 then
          (if containsLetterOrDigit (gslice input (nat markerEnd) start) then None
           else Some (TypePassportIssueDate, ConfidenceHigh))
        else if typ = 2 then Some (TypeDateOfBirth, ConfidenceMedium)
        else None)"

definition classified :: "bytes \<Rightarrow> nat \<Rightarrow> nat \<Rightarrow> Finding list" where
  "classified input start stop =
     (case classify input start stop of None \<Rightarrow> []
      | Some (typ, conf) \<Rightarrow> [report typ conf ''date'' input start stop])"

text \<open>The text of a group that took part in the match.\<close>

definition group_text :: "bytes \<Rightarrow> rmatch \<Rightarrow> nat \<Rightarrow> bytes" where
  "group_text input m k = (case rm_groups m k of Some (a, b) \<Rightarrow> gslice input a b | None \<Rightarrow> [])"

definition group_start :: "rmatch \<Rightarrow> nat \<Rightarrow> nat" where
  "group_start m k = (case rm_groups m k of Some (a, b) \<Rightarrow> a | None \<Rightarrow> 0)"

definition group_end :: "rmatch \<Rightarrow> nat \<Rightarrow> nat" where
  "group_end m k = (case rm_groups m k of Some (a, b) \<Rightarrow> b | None \<Rightarrow> 0)"

definition detectYearLast :: "bytes \<Rightarrow> Finding list" where
  "detectYearLast input =
     concat (map (\<lambda>m.
       let a = atoi (group_text input m 1); b = atoi (group_text input m 2);
           yy = atoi (gslice input (group_start m 3) (rm_end m)) in
       if \<not> validDateParts a b yy \<and> \<not> validDateParts b a yy then []
       else classified input (rm_start m) (rm_end m))
       (FindAllStringSubmatchIndex (compilePattern numericRe) input))"

definition detectYearFirst :: "bytes \<Rightarrow> Finding list" where
  "detectYearFirst input =
     concat (map (\<lambda>m.
       let yy = atoi (group_text input m 1); a = atoi (group_text input m 2);
           b = atoi (gslice input (group_start m 3) (rm_end m)) in
       if \<not> validDateParts b a yy \<and> \<not> validDateParts a b yy then []
       else classified input (rm_start m) (rm_end m))
       (FindAllStringSubmatchIndex (compilePattern yearFirstRe) input))"

definition detectTextual :: "bytes \<Rightarrow> Finding list" where
  "detectTextual input =
     concat (map (\<lambda>m.
       let dd = atoi (group_text input m 1); yy = atoi (gslice input (group_start m 3) (rm_end m));
           mm = (case lookup_word monthWords (group_text input m 2) of Some n \<Rightarrow> n | None \<Rightarrow> 0) in
       if \<not> validDateParts dd mm yy then [] else classified input (rm_start m) (rm_end m))
       (FindAllStringSubmatchIndex (compilePattern textualRe) input))"

definition detectWordsInWords :: "bytes \<Rightarrow> Finding list" where
  "detectWordsInWords input =
     concat (map (\<lambda>m.
       let start = group_start m 1; monthEnd = group_end m 2 in
       if dateWordContinues input monthEnd then []
       else
         (case (parseDayWords (group_text input m 1), lookup_word monthWords (group_text input m 2), parseYearWords input monthEnd) of
            (Some day, Some month, Some (year, stop)) \<Rightarrow>
              if \<not> validDateParts day month year then [] else classified input start stop
          | _ \<Rightarrow> []))
       (FindAllStringSubmatchIndex (compilePattern dayMonthRe) input))"

definition detectYearOnly :: "bytes \<Rightarrow> Finding list" where
  "detectYearOnly input =
     map (\<lambda>m. report TypeDateOfBirth ConfidenceHigh ''date'' input (group_start m 1) (group_end m 1))
       (FindAllStringSubmatchIndex (compilePattern yearOnlyRe) input)"

definition Date_Detect :: "bytes \<Rightarrow> Finding list" where
  "Date_Detect input =
     dedupBySpan (detectYearOnly input @ detectYearLast input @ detectYearFirst input @ detectTextual input @
       detectWordsInWords input)"

definition DateDetector :: Detector where
  "DateDetector =
     \<lparr>d_Type = TypeDateOfBirth, d_Types = Some [TypeDateOfBirth, TypePassportIssueDate],
      d_Detect = (\<lambda>s. Some (Date_Detect s)), d_Candidates = None\<rparr>"

section \<open>Security codes and PINs\<close>

definition cvvMarkers :: "pattern list" where
  "cvvMarkers =
     patterns [
       Cat [WordBoundary, alit ''cvv'', WordBoundary],
       Cat [WordBoundary, alit ''cvc'', WordBoundary],
       Cat [ilit ''kod'', Plus space, ilit ''bezopasnosti''],
       Cat [ilit ''zaWitnyj'', Plus space, ilit ''kod''],
       Cat [ilit ''kod'', Plus space, ilit ''proverki''],
       Cat [ilit ''proveroCnyj'', Plus space, ilit ''kod'']]"

definition pinMarkers :: "pattern list" where
  "pinMarkers =
     patterns [
       Cat [WordBoundary, alit ''pin'', WordBoundary],
       Cat [wordStart, ilit ''pin''],
       ilit ''pin-kod'',
       Cat [ilit ''pin'', Plus space, ilit ''kod''],
       Cat [ilit ''parolx'', Plus space, ilit ''ot'', Plus space, ilit ''kart'', letters]]"

definition cvv_re :: regex where
  "cvv_re =
     Cat [WordBoundary, Cap 1 (Rep 3 (Some 4) digit), WordBoundary]"

definition pin_re :: regex where
  "pin_re =
     Cat [WordBoundary, Cap 1 (digits 4), WordBoundary]"

definition cvvLocalContext :: "bytes \<Rightarrow> nat \<Rightarrow> bool" where
  "cvvLocalContext input start \<longleftrightarrow>
     nearestPrecedingMarker input start
       [\<lparr>mg_typ = 0, mg_markers = cvvMarkers\<rparr>, \<lparr>mg_typ = 1, mg_markers = dateDOBMarkers\<rparr>,
        \<lparr>mg_typ = 1, mg_markers = dateIssueMarkers\<rparr>, \<lparr>mg_typ = 1, mg_markers = dateGenericMarkers\<rparr>,
        \<lparr>mg_typ = 2, mg_markers = pinMarkers\<rparr>] = 0"

definition pinLocalContext :: "bytes \<Rightarrow> nat \<Rightarrow> bool" where
  "pinLocalContext input start \<longleftrightarrow>
     nearestPrecedingMarker input start
       [\<lparr>mg_typ = 0, mg_markers = pinMarkers\<rparr>, \<lparr>mg_typ = 1, mg_markers = dateDOBMarkers\<rparr>,
        \<lparr>mg_typ = 1, mg_markers = dateIssueMarkers\<rparr>, \<lparr>mg_typ = 1, mg_markers = dateGenericMarkers\<rparr>,
        \<lparr>mg_typ = 2, mg_markers = cvvMarkers\<rparr>] = 0"

definition CVV_Detect :: "bytes \<Rightarrow> Finding list" where
  "CVV_Detect input =
     map (\<lambda>m. report TypeCVV ConfidenceHigh ''cvv'' input (rm_start m) (rm_end m))
       (filter (\<lambda>m. \<not> partOfLongerDigitSequence input (rm_start m) (rm_end m) \<and> cvvLocalContext input (rm_start m))
         (FindAllStringSubmatchIndex (compilePattern cvv_re) input))"

definition CVVDetector :: Detector where "CVVDetector = simple_detector TypeCVV CVV_Detect"

definition PIN_Detect :: "bytes \<Rightarrow> Finding list" where
  "PIN_Detect input =
     map (\<lambda>m. report TypeCardPIN ConfidenceHigh ''card_pin'' input (rm_start m) (rm_end m))
       (filter (\<lambda>m. \<not> partOfLongerDigitSequence input (rm_start m) (rm_end m) \<and> pinLocalContext input (rm_start m))
         (FindAllStringSubmatchIndex (compilePattern pin_re) input))"

definition CardPINDetector :: Detector where "CardPINDetector = simple_detector TypeCardPIN PIN_Detect"

section \<open>The detectors keep the contract\<close>

text \<open>A parsed year ends behind its start, at a rune.\<close>

definition ends_after :: "bytes \<Rightarrow> nat \<Rightarrow> (nat \<times> nat) option \<Rightarrow> bool" where
  "ends_after s a r \<longleftrightarrow> (\<forall>y b. r = Some (y, b) \<longrightarrow> a < b \<and> rune_boundary s b)"

lemma code_regexes: "eats cvv_re" "eats pin_re"
  by (simp_all add: cvv_re_def pin_re_def regex_words)

interpretation cvvs: span_detector CVV_Detect "[TypeCVV]"
  by (rule match_detector [OF CVV_Detect_def code_regexes(1)]) simp_all

interpretation pins: span_detector PIN_Detect "[TypeCardPIN]"
  by (rule match_detector [OF PIN_Detect_def code_regexes(2)]) simp_all

lemma classified_ok:
  assumes "f \<in> set (classified s a b)" and "a < b" and "rune_boundary s a" and "rune_boundary s b"
  shows "finding_ok s f \<and> f_Type f \<in> {TypeDateOfBirth, TypePassportIssueDate}"
  using assms report_ok [OF assms(2-4)]
  by (auto simp: classified_def classify_def split: option.splits if_splits prod.splits)

lemma date_regexes: "eats numericRe" "eats yearFirstRe" "eats textualRe" "eats dayMonthRe" "group_eats 1 yearOnlyRe" "group_eats 1 dayMonthRe"
    "sets_group 1 yearOnlyRe" "sets_group 1 dayMonthRe" "sets_group 2 dayMonthRe"
  by (simp_all add: numericRe_def yearFirstRe_def textualRe_def dayMonthRe_def yearOnlyRe_def regex_words ascii_runes_def
      ru_runes_def)

lemma group_ok:
  assumes "valid_string s" and "m \<in> set (FindAllStringSubmatchIndex (compilePattern re) s)" and "sets_group k re"
  shows "rm_groups m k = Some (group_start m k, group_end m k)" and "rune_boundary s (group_start m k)"
    and "rune_boundary s (group_end m k)" and "rm_start m \<le> group_start m k" and "group_end m k \<le> rm_end m"
    and "group_eats k re \<Longrightarrow> group_start m k < group_end m k"
proof -
  have m: "m \<in> set (regexp_FindAll re s)"
    using assms(2) by (simp add: FindAllStringSubmatchIndex_def compilePattern_def split: if_splits)
  obtain a b where ab: "rm_groups m k = Some (a, b)" using match_at_group [OF FindAll_match_at [OF m] assms(3)] by auto
  then have e: "group_start m k = a" "group_end m k = b" by (simp_all add: group_start_def group_end_def)
  show "rm_groups m k = Some (group_start m k, group_end m k)" using ab e by simp
  show "rune_boundary s (group_start m k)" "rune_boundary s (group_end m k)"
    using FindAll_match_ok [OF assms(1) m] ab e by (auto simp: match_ok_def groups_ok_def)
  show "rm_start m \<le> group_start m k" "group_end m k \<le> rm_end m" using FindAll_group_inside [OF m ab] e by auto
  show "group_start m k < group_end m k" if "group_eats k re" using FindAll_group_nonempty [OF that m ab] e by simp
qed

lemma last_group_end:
  assumes "m \<in> set (FindAllStringSubmatchIndex (compilePattern re) s)" and "re = Cat (res @ [Cap k e])"
  shows "group_end m k = rm_end m"
proof -
  have "m \<in> set (regexp_FindAll (Cat (res @ [Cap k e])) s)"
    using assms by (simp add: FindAllStringSubmatchIndex_def compilePattern_def split: if_splits)
  from FindAll_last_group [OF this] show ?thesis by (auto simp: group_end_def)
qed

lemma dayMonth_end:
  assumes "m \<in> set (FindAllStringSubmatchIndex (compilePattern dayMonthRe) s)"
  shows "group_end m 2 = rm_end m"
proof -
  obtain res re where "dayMonthRe = Cat (res @ [Cap 2 re])"
    unfolding dayMonthRe_def by (metis append_Cons append_Nil)
  from last_group_end [OF assms this] show ?thesis .
qed

lemma detectWordsInWords_cases:
  assumes "f \<in> set (detectWordsInWords s)"
  obtains m y b where "m \<in> set (FindAllStringSubmatchIndex (compilePattern dayMonthRe) s)"
    "parseYearWords s (group_end m 2) = Some (y, b)" "f \<in> set (classified s (group_start m 1) b)"
  using assms
  by (auto simp: detectWordsInWords_def Let_def split: if_splits option.splits) (metis)

lemma dedup_subset: "set (dedupBySpan fs) \<subseteq> set fs"
proof -
  have "set (dedup_loop seen fs) \<subseteq> set fs" for seen by (induction fs arbitrary: seen) auto
  then show ?thesis by (auto simp: dedupBySpan_def)
qed

lemma nextDateWord_ok:
  assumes "nextDateWord s a = Some (w, b)" and "valid_string s" and "rune_boundary s a"
  shows "a < b" and "rune_boundary s b"
proof -
  let ?w = "scan_while unicode_IsSpace s a"
  have w: "rune_boundary s ?w" "a \<le> ?w" using scan_while_boundary [OF assms(2,3)] scan_while_ge by blast+
  have b: "b = scan_while unicode_IsLetter s ?w" "b \<noteq> ?w" using assms(1) by (auto simp: nextDateWord_def Let_def split: if_splits)
  then show "a < b" using scan_while_ge [of ?w unicode_IsLetter s] w(2) by simp
  show "rune_boundary s b" using scan_while_boundary [OF assms(2) w(1)] b(1) by simp
qed

lemma finishYearWords_ok: "valid_string s \<Longrightarrow> rune_boundary s a \<Longrightarrow> ends_after s a (finishYearWords s a year)"
  using nextDateWord_ok [of s a] by (auto simp: finishYearWords_def ends_after_def split: option.splits if_splits)

lemma ends_after_trans: "a \<le> b \<Longrightarrow> ends_after s b r \<Longrightarrow> ends_after s a r"
  by (auto simp: ends_after_def)

lemma ends_after_None [simp]: "ends_after s a None"
  by (simp add: ends_after_def)

lemma parseYearRest_ok:
  assumes "valid_string s" and "rune_boundary s a"
  shows "ends_after s a (parseYearRest s a base)"
proof (cases "nextDateWord s a")
  case (Some wb)
  then obtain w b where w: "nextDateWord s a = Some (w, b)" by (cases wb) auto
  note b = nextDateWord_ok [OF w assms]
  have fin: "ends_after s a (finishYearWords s c y)" if "rune_boundary s c" "a \<le> c" for c y
    using finishYearWords_ok [OF assms(1) that(1)] ends_after_trans that(2) by blast
  have ones: "ends_after s a (finishYearWords s c y)" if "nextDateWord s b = Some (v, c)" for v c y
    using nextDateWord_ok [OF that assms(1) b(2)] fin b(1) by simp
  show ?thesis
    unfolding parseYearRest_def using w b(1) fin [OF b(2)] ones
    by (auto split: option.splits)
qed (simp add: parseYearRest_def)

lemma parseYearWords_ok:
  assumes "valid_string s" and "rune_boundary s a"
  shows "ends_after s a (parseYearWords s a)"
proof (cases "nextDateWord s a")
  case (Some wb)
  then obtain w b where w: "nextDateWord s a = Some (w, b)" by (cases wb) auto
  note b = nextDateWord_ok [OF w assms]
  have fin: "ends_after s a (finishYearWords s b y)" for y
    using finishYearWords_ok [OF assms(1) b(2)] ends_after_trans b(1) by (meson less_imp_le)
  have rest: "ends_after s a (finishYearWords s c y) \<and> ends_after s a (parseYearRest s c y)"
    if "nextDateWord s b = Some (v, c)" for v c y
  proof -
    note c = nextDateWord_ok [OF that assms(1) b(2)]
    have "a \<le> c" using b(1) c(1) by simp
    with finishYearWords_ok [OF assms(1) c(2)] parseYearRest_ok [OF assms(1) c(2)] ends_after_trans show ?thesis by blast
  qed
  show ?thesis
    unfolding parseYearWords_def using w fin rest
    by (auto simp: Let_def split: option.splits)
qed (simp add: parseYearWords_def)

interpretation dates: span_detector Date_Detect "[TypeDateOfBirth, TypePassportIssueDate]"
proof
  fix s f assume s: "valid_string s" and "f \<in> set (Date_Detect s)"
  then have "f \<in> set (detectYearOnly s @ detectYearLast s @ detectYearFirst s @ detectTextual s @ detectWordsInWords s)"
    using dedup_subset unfolding Date_Detect_def by blast
  then consider
      (only) m where "m \<in> set (FindAllStringSubmatchIndex (compilePattern yearOnlyRe) s)"
        "f = report TypeDateOfBirth ConfidenceHigh ''date'' s (group_start m 1) (group_end m 1)"
    | (span) m re where "m \<in> set (FindAllStringSubmatchIndex (compilePattern re) s)" "eats re" "f \<in> set (classified s (rm_start m) (rm_end m))"
    | (wrd) m y b where "m \<in> set (FindAllStringSubmatchIndex (compilePattern dayMonthRe) s)"
        "parseYearWords s (group_end m 2) = Some (y, b)" "f \<in> set (classified s (group_start m 1) b)"
    using date_regexes
    by (auto simp: detectYearOnly_def detectYearLast_def detectYearFirst_def detectTextual_def Let_def
        split: if_splits elim: detectWordsInWords_cases)
  then show "finding_ok s f \<and> f_Type f \<in> set [TypeDateOfBirth, TypePassportIssueDate]"
  proof cases
    case only
    then show ?thesis using group_ok [OF s only(1) date_regexes(7)] date_regexes(5) by (simp add: report_ok)
  next
    case span
    then show ?thesis using classified_ok [OF span(3)] submatch_ok [OF s span(1)] by simp
  next
    case wrd
    note g1 = group_ok [OF s wrd(1) date_regexes(8)] and g2 = group_ok [OF s wrd(1) date_regexes(9)]
    have b: "group_end m 2 < b" "rune_boundary s b"
      using parseYearWords_ok [OF s g2(3)] wrd(2) by (auto simp: ends_after_def)
    have "group_start m 1 < b"
      using g1(5) g1(6) [OF date_regexes(6)] b(1) dayMonth_end [OF wrd(1)] by simp
    then show ?thesis using classified_ok [OF wrd(3)] g1(2) b(2) by simp
  qed
qed

end
