(* ===== verification/Label_Detectors.thy ===== *)
theory Label_Detectors
  imports Date_Detectors
begin

text \<open>
  \<^verbatim>\<open>passport.go\<close>, \<^verbatim>\<open>card_holder.go\<close>, \<^verbatim>\<open>citizenship.go\<close> and \<^verbatim>\<open>place_of_birth.go\<close> of \<^verbatim>\<open>internal/pii/detectors\<close>: values
  behind a label. What they report is bounded by the scanner of \<^verbatim>\<open>helpers.go\<close>.
\<close>

section \<open>Values behind labels\<close>

text \<open>The finding for the value that the scanner returned, when it is there and passes a test.\<close>

definition label_finding ::
  "PIIType \<Rightarrow> bytes \<Rightarrow> (bytes \<Rightarrow> bool) \<Rightarrow> bytes \<Rightarrow> int \<times> int \<times> bool \<Rightarrow> Finding list"
where
  "label_finding typ name wanted input r =
     (case r of (start, stop, ok) \<Rightarrow>
        if \<not> ok then []
        else if \<not> wanted (gslice input (nat start) (nat stop)) then []
        else [report typ ConfidenceHigh name input (nat start) (nat stop)])"

text \<open>The loop over the markers and their occurrences; \<open>take_value\<close> starts behind the label.\<close>

definition label_values ::
  "pattern list \<Rightarrow> (bytes \<Rightarrow> nat \<Rightarrow> int \<times> int \<times> bool) \<Rightarrow> PIIType \<Rightarrow> bytes \<Rightarrow> (bytes \<Rightarrow> bool) \<Rightarrow> bytes \<Rightarrow> Finding list"
where
  "label_values markers take_value typ name wanted input =
     concat (map (\<lambda>m. concat (map (\<lambda>(a, b). label_finding typ name wanted input (take_value input b))
       (FindAllStringIndex m input))) markers)"

section \<open>Passports\<close>

definition passportMarkers :: "pattern list" where
  "passportMarkers =
     patterns [
       ilit ''pasport'',
       ilit ''seriY'',
       Cat [ilit ''nomer'', Plus space, ilit ''pasporta''],
       Cat [ilit ''pasportnye'', Plus space, ilit ''dannye''],
       Cat [ilit ''udostoverenie'', Plus space, ilit ''liCnosti'']]"

definition issuerMarkers :: "pattern list" where
  "issuerMarkers =
     patterns [
       Cat [wordStart, ilit ''vydan'', Quest (Alt (map ilit [''o'', ''a''])), wordEnd],
       Cat [wordStart, ilit ''organ'', letters, Plus space, ilit ''vydavS'', letters, wordEnd],
       Cat [wordStart, ilit ''kem'', Plus space, ilit ''vydan'', wordEnd]]"

definition divisionMarkers :: "pattern list" where
  "divisionMarkers =
     patterns [
       Cat [ilit ''kod'', Plus space, ilit ''podrazdeleniY''],
       ilit ''podrazdelenie'']"

definition seriesNumberRe :: regex where
  "seriesNumberRe =
     Cat [Quest (Cat [ilit ''seriY'', Star space]), Cap 1 (digits 2), Quest (Cls False True [ClsSpace, ClsRange
       0x2D 0x2D]), Cap 2 (digits 2), Star space, Quest (alit '',''), Star space, Quest (Cat [Alt (map ilit [
       ''nomer'', ''N'']), Star space]), Cap 3 (digits 6)]"

definition mergedRe :: regex where
  "mergedRe =
     Cat [WordBoundary, Cap 1 (digits 10), WordBoundary]"

definition divisionRe :: regex where
  "divisionRe =
     Cat [WordBoundary, Cap 1 (digits 3), Cls False False [ClsSpace, ClsRange 0x2D 0x2D], Cap 2 (digits 3),
       WordBoundary]"

definition isPassportAuthority :: "bytes \<Rightarrow> bool" where
  "isPassportAuthority s =
     (let lower = strings_ToLower s in
      list_ex (\<lambda>marker. strings_Contains lower marker)
        (map ru [''ovd'', ''uvd'', ''ufms'', ''mvd'', ''otdel policii'', ''otdelom policii'']))"

definition detectIssuer :: "bytes \<Rightarrow> Finding list" where
  "detectIssuer input =
     label_values issuerMarkers (\<lambda>input b. collectLabelValue input b 8 [] True) TypePassportIssuer ''passport_issuer''
       isPassportAuthority input"

definition detectSeriesNumber :: "bytes \<Rightarrow> Finding list" where
  "detectSeriesNumber input =
     concat (map (\<lambda>m.
       let start = group_start m 1; stop = group_end m 3 in
       if partOfLongerDigitSequence input start stop then []
       else if \<not> hasContextRegex input start stop passportMarkers then []
       else [report TypePassportNumber ConfidenceHigh ''passport'' input start stop])
       (FindAllStringSubmatchIndex (compilePattern seriesNumberRe) input))"

text \<open>The Go map \<^verbatim>\<open>covered\<close> gives 0 for a key that is not there.\<close>

definition covered :: "Finding list \<Rightarrow> int \<Rightarrow> int" where
  "covered previous = foldl (\<lambda>c f. if f_End f > c (f_Start f) then c(f_Start f := f_End f) else c) (\<lambda>_. 0) previous"

definition detectMergedNumber :: "bytes \<Rightarrow> Finding list \<Rightarrow> Finding list" where
  "detectMergedNumber input previous =
     map (\<lambda>m. report TypePassportNumber ConfidenceMedium ''passport'' input (rm_start m) (rm_end m))
       (filter (\<lambda>m. \<not> partOfLongerDigitSequence input (rm_start m) (rm_end m) \<and>
           hasContextRegex input (rm_start m) (rm_end m) passportMarkers \<and>
           \<not> covered previous (int (rm_start m)) \<ge> int (rm_end m))
         (FindAllStringSubmatchIndex (compilePattern mergedRe) input))"

definition detectDivision :: "bytes \<Rightarrow> Finding list" where
  "detectDivision input =
     map (\<lambda>m. report TypePassportDivision ConfidenceHigh ''passport_division'' input (rm_start m) (rm_end m))
       (filter (\<lambda>m. \<not> partOfLongerDigitSequence input (rm_start m) (rm_end m) \<and>
           hasContextRegex input (rm_start m) (rm_end m) divisionMarkers)
         (FindAllStringSubmatchIndex (compilePattern divisionRe) input))"

definition Passport_Detect :: "bytes \<Rightarrow> Finding list" where
  "Passport_Detect input =
     (let out = detectSeriesNumber input;
          out = out @ detectMergedNumber input out;
          out = out @ detectDivision input in
      out @ detectIssuer input)"

definition PassportDetector :: Detector where
  "PassportDetector =
     \<lparr>d_Type = TypePassportNumber, d_Types = Some [TypePassportNumber, TypePassportIssuer, TypePassportDivision],
      d_Detect = (\<lambda>s. Some (Passport_Detect s)), d_Candidates = None\<rparr>"

section \<open>Card holders, citizenship, places of birth\<close>

definition holder_markers :: "pattern list" where
  "holder_markers =
     patterns [
       Cat [ilit ''derZatel'', letters, Plus space, ilit ''kart'', letters],
       Cat [ilit ''imY'', Plus space, ilit ''derZatelY''],
       Cat [ilit ''imY'', Plus space, ilit ''na'', Plus space, ilit ''kart'', letters],
       Cat [WordBoundary, alit ''cardholder'', WordBoundary],
       Cat [WordBoundary, alit ''card'', Plus space, alit ''holder'', WordBoundary]]"

definition CardHolder_Detect :: "bytes \<Rightarrow> Finding list" where
  "CardHolder_Detect input =
     label_values holder_markers (\<lambda>input b. collectLabeledWords input b 3 []) TypeCardHolder ''card_holder'' (\<lambda>_. True) input"

definition CardHolderDetector :: Detector where
  "CardHolderDetector = simple_detector TypeCardHolder CardHolder_Detect"

definition citizenship_markers :: "pattern list" where
  "citizenship_markers =
     patterns [
       ilit ''graZdanstvo'']"

definition stated_citizenship :: "bytes \<Rightarrow> bool" where
  "stated_citizenship s \<longleftrightarrow>
     \<not> list_ex (strings_Contains (strings_ToLower s)) (map ru [''ne ukazano'', ''ne podtverZdeno'', ''otsutstvuet'', ''neizvestno''])"

definition Citizenship_Detect :: "bytes \<Rightarrow> Finding list" where
  "Citizenship_Detect input =
     label_values citizenship_markers (\<lambda>input b. collectLabeledWords input b 3 []) TypeCitizenship ''citizenship''
       stated_citizenship input"

definition CitizenshipDetector :: Detector where
  "CitizenshipDetector = simple_detector TypeCitizenship Citizenship_Detect"

definition birthplace_markers :: "pattern list" where
  "birthplace_markers =
     patterns [
       Cat [ilit ''mesto'', Plus space, ilit ''roZdeniY''],
       Cat [ilit ''mesto'', Plus space, ilit ''roZd.''],
       Cat [ilit ''rodil'', letters, Plus space, ilit ''v''],
       ilit ''uroZenec'',
       ilit ''uroZenka'']"

definition stated_birthplace :: "bytes \<Rightarrow> bool" where
  "stated_birthplace s \<longleftrightarrow>
     strings_ToLower (strings_Join (strings_Fields s) '' '') \<notin>
       set (map ru [''neizvestno'', ''ne ukazano'', ''ne ustanovleno'', ''otsutstvuet''])"

definition PlaceOfBirth_Detect :: "bytes \<Rightarrow> Finding list" where
  "PlaceOfBirth_Detect input =
     label_values birthplace_markers
       (\<lambda>input b. collectLabeledWords input b 4 (map ru [''g'', ''gor'', ''gorod'', ''gorode'', ''goroda'', ''s'', ''selo'']))
       TypePlaceOfBirth ''place_of_birth'' stated_birthplace input"

definition PlaceOfBirthDetector :: Detector where
  "PlaceOfBirthDetector = simple_detector TypePlaceOfBirth PlaceOfBirth_Detect"

section \<open>The detectors keep the contract\<close>

lemma label_values_ok:
  assumes "valid_string s" and "f \<in> set (label_values (patterns res) take_value typ name wanted s)"
    and "\<And>a x y. rune_boundary s a \<Longrightarrow> take_value s a = (x, y, True) \<Longrightarrow>
      0 \<le> x \<and> x < y \<and> rune_boundary s (nat x) \<and> rune_boundary s (nat y)"
  shows "finding_ok s f \<and> f_Type f = typ"
proof -
  obtain re a b where ab: "(a, b) \<in> set (FindAllStringIndex (compilePattern re) s)"
    and f: "f \<in> set (label_finding typ name wanted s (take_value s b))"
    using assms(2) by (auto simp: label_values_def patterns_def)
  then obtain x y where c: "take_value s b = (x, y, True)" and r: "f = report typ ConfidenceHigh name s (nat x) (nat y)"
    by (cases "take_value s b") (auto simp: label_finding_def split: if_splits)
  from assms(3) [OF index_ok(2) [OF assms(1) ab] c] r show ?thesis by (simp add: report_ok)
qed

interpretation card_holders: span_detector CardHolder_Detect "[TypeCardHolder]"
  unfolding CardHolder_Detect_def holder_markers_def
  by unfold_locales (use label_values_ok collectLabeledWords_ok in fastforce)

interpretation citizenships: span_detector Citizenship_Detect "[TypeCitizenship]"
  unfolding Citizenship_Detect_def citizenship_markers_def
  by unfold_locales (use label_values_ok collectLabeledWords_ok in fastforce)

interpretation birthplaces: span_detector PlaceOfBirth_Detect "[TypePlaceOfBirth]"
  unfolding PlaceOfBirth_Detect_def birthplace_markers_def
  by unfold_locales (use label_values_ok collectLabeledWords_ok in fastforce)

interpretation issuers: span_detector detectIssuer "[TypePassportIssuer]"
  unfolding detectIssuer_def issuerMarkers_def
  by unfold_locales (use label_values_ok collectLabelValue_ok in fastforce)

lemma passport_regexes: "eats mergedRe" "eats divisionRe" "group_eats 1 seriesNumberRe"
    "sets_group 1 seriesNumberRe" "sets_group 3 seriesNumberRe"
  by (simp_all add: mergedRe_def divisionRe_def seriesNumberRe_def regex_words ascii_runes_def)

interpretation merged_numbers: span_detector "\<lambda>s. detectMergedNumber s (detectSeriesNumber s)" "[TypePassportNumber]"
  by (rule match_detector [OF detectMergedNumber_def passport_regexes(1)]) simp_all

interpretation divisions: span_detector detectDivision "[TypePassportDivision]"
  by (rule match_detector [OF detectDivision_def passport_regexes(2)]) simp_all

interpretation series: span_detector detectSeriesNumber "[TypePassportNumber]"
proof
  fix s f assume s: "valid_string s" and "f \<in> set (detectSeriesNumber s)"
  then obtain m where m: "m \<in> set (FindAllStringSubmatchIndex (compilePattern seriesNumberRe) s)"
    and f: "f = report TypePassportNumber ConfidenceHigh ''passport'' s (group_start m 1) (group_end m 3)"
    by (auto simp: detectSeriesNumber_def Let_def split: if_splits)
  note g1 = group_ok [OF s m passport_regexes(4)] and g3 = group_ok [OF s m passport_regexes(5)]
  obtain res e where "seriesNumberRe = Cat (res @ [Cap 3 e])"
    unfolding seriesNumberRe_def by (metis append_Cons append_Nil)
  from last_group_end [OF m this] have "group_start m 1 < group_end m 3"
    using g1(5) g1(6) [OF passport_regexes(3)] by simp
  then show "finding_ok s f \<and> f_Type f \<in> set [TypePassportNumber]" using f g1(2) g3(3) by (simp add: report_ok)
qed

interpretation passports: span_detector Passport_Detect "[TypePassportNumber, TypePassportIssuer, TypePassportDivision]"
  by unfold_locales
    (auto simp: Passport_Detect_def Let_def dest: series.wf merged_numbers.wf divisions.wf issuers.wf)

end
