(* ===== verification/Address_Detector.thy ===== *)
theory Address_Detector
  imports Label_Detectors
begin

text \<open>
  \<^verbatim>\<open>address.go\<close> of \<^verbatim>\<open>internal/pii/detectors\<close>: postal codes, streets, houses, flats and labelled components, with
  a confidence that depends on a client marker in the same sentence. \<^verbatim>\<open>addressComponentPrefix\<close>
  indexes the fields of a value and would panic on a blank one; it is never given one.
\<close>

section \<open>Expressions\<close>

definition clientMarkers :: "pattern list" where
  "clientMarkers =
     patterns [
       ilit ''klient'',
       Cat [ilit ''proZiva'', letters],
       Cat [ilit ''zaregistrirovan'', letters],
       Cat [ilit ''propisan'', letters],
       Cat [ilit ''adres'', Plus space, ilit ''proZivaniY''],
       Cat [ilit ''adres'', Plus space, ilit ''registracii''],
       Cat [ilit ''mesto'', Plus space, ilit ''Zitelxstva''],
       Cat [ilit ''poluCatel'', letters],
       Cat [ilit ''derZatel'', letters]]"

definition address_components :: "pattern list" where
  "address_components =
     patterns [
       ilit ''strana'',
       ilit ''gorod'',
       ilit ''gor.'',
       Cat [wordStart, ilit ''g.''],
       Cat [wordStart, ilit ''g'', space],
       Cat [ilit ''naselEnn'', letters, Plus space, ilit ''punkt''],
       Cat [ilit ''naselenn'', letters, Plus space, ilit ''punkt''],
       ilit ''region'',
       ilit ''oblastx'',
       ilit ''kraj'',
       ilit ''respublika'']"

text \<open>The Go map \<^verbatim>\<open>componentMarkers\<close> has one key, so that its order of iteration does not matter.\<close>

definition componentMarkers :: "(PIIType \<times> pattern list) list" where
  "componentMarkers = [(TypeAddress, address_components)]"

definition postalRe :: regex where
  "postalRe =
     Cat [WordBoundary, Cap 1 (digits 6), WordBoundary]"

definition streetRe :: regex where
  "streetRe =
     Cat [Alt (map ilit [''ul.'', ''ulica'', ''prospekt'', ''pr-t'', ''proezd'', ''pereulok'', ''per.'',
       ''bulxvar'', ''b-r'', ''nabereZnaY'', ''nab.'', ''Sosse'', ''alleY'']), Plus space, Cap 1 (Cat [Cls False
       True [ClsRange 0x410 0x42F, ClsRange 0x401 0x401], Plus (Cls False True [ClsRange 0x410 0x42F, ClsRange
       0x401 0x401, ClsRange 0x430 0x44F, ClsRange 0x451 0x451, ClsRange 0x2D 0x2D]), Star (Cat [Plus space, Cls
       False True [ClsRange 0x410 0x42F, ClsRange 0x401 0x401], Plus (Cls False True [ClsRange 0x410 0x42F,
       ClsRange 0x401 0x401, ClsRange 0x430 0x44F, ClsRange 0x451 0x451, ClsRange 0x2D 0x2D])])])]"

definition houseRe :: regex where
  "houseRe =
     Cat [Alt (map ilit [''d.'', ''dom'', ''stroenie'', ''str.'']), Star space, Cap 1 (Cat [Plus digit, Quest
       (Cls False True [ClsRange 0x410 0x42F, ClsRange 0x401 0x401, ClsRange 0x430 0x44F, ClsRange 0x451
       0x451])])]"

definition apartmentRe :: regex where
  "apartmentRe =
     Cat [Alt (map ilit [''kv.'', ''kvartira'', ''ofis'', ''pomeWenie'']), Star space, Cap 1 (Plus digit)]"

definition postalLabel :: regex where
  "postalLabel =
     Cat [Alt [BeginText, notLetter], ilit ''indeks'', Star space, Quest (alit '':''), Star space, EndText]"

definition plainAddressLabel :: regex where
  "plainAddressLabel =
     Cat [Alt [BeginText, notLetter], ilit ''adres'', Star space, alit '':'', Star space]"

section \<open>The detector\<close>

definition sentence_break :: "bytes \<Rightarrow> nat \<Rightarrow> bool" where
  "sentence_break input j \<longleftrightarrow>
     input ! j \<in> set [CHR 0x0A, CHR 0x0D, CHR '';'', CHR ''!'', CHR ''?''] \<or> SentenceBoundary input j"

definition address_confidence :: "bytes \<Rightarrow> nat \<Rightarrow> nat \<Rightarrow> Confidence" where
  "address_confidence input start stop =
     (let (lo, hi) = contextBounds input start stop;
          lo = (case find (sentence_break input) (rev [lo..<start]) of Some j \<Rightarrow> j + 1 | None \<Rightarrow> lo);
          hi = (case find (sentence_break input) [stop..<hi] of Some j \<Rightarrow> j | None \<Rightarrow> hi) in
      if hasContextRegex (gslice input lo hi) (start - lo) (stop - lo) clientMarkers then ConfidenceHigh
      else AddressCandidateConfidence)"

definition address_finding :: "bytes \<Rightarrow> nat \<Rightarrow> nat \<Rightarrow> PIIType \<Rightarrow> Confidence \<Rightarrow> Finding" where
  "address_finding input start stop typ conf = report typ conf ''address'' input start stop"

text \<open>The finding for a value behind a label, if there is one.\<close>

definition address_value :: "bytes \<Rightarrow> PIIType \<Rightarrow> Confidence \<Rightarrow> int \<times> int \<times> bool \<Rightarrow> Finding list" where
  "address_value input typ conf r =
     (case r of (start, stop, ok) \<Rightarrow>
        if \<not> ok then [] else [address_finding input (nat start) (nat stop) typ conf])"

text \<open>\<^const>\<open>None\<close>: \<^verbatim>\<open>strings.Fields(value)[0]\<close> panics.\<close>

definition addressComponentPrefix :: "bytes \<Rightarrow> bool option" where
  "addressComponentPrefix s =
     (case strings_Fields s of [] \<Rightarrow> None
      | w # _ \<Rightarrow>
          Some (strings_ToLower w \<in>
            set (map ru [''g'', ''gor'', ''gorod'', ''ul'', ''ulica'', ''dom'', ''d'', ''kv''])))"

definition postal_codes :: "bytes \<Rightarrow> Finding list" where
  "postal_codes input =
     concat (map (\<lambda>m.
       let start = rm_start m; stop = rm_end m in
       if address_confidence input start stop < ConfidenceHigh \<and> \<not> precedingLabel input start (compilePattern postalLabel)
       then []
       else [address_finding input start stop TypeAddress (address_confidence input start stop)])
       (FindAllStringSubmatchIndex (compilePattern postalRe) input))"

definition streets :: "bytes \<Rightarrow> Finding list" where
  "streets input =
     concat (map (\<lambda>m.
       address_value input TypeAddress (address_confidence input (rm_start m) (rm_end m))
         (collectLabeledWords input (group_start m 1) 4 []))
       (FindAllStringSubmatchIndex (compilePattern streetRe) input))"

text \<open>The loops for houses and for flats.\<close>

definition numbered :: "regex \<Rightarrow> bytes \<Rightarrow> Finding list" where
  "numbered re input =
     map (\<lambda>m. address_finding input (group_start m 1) (group_end m 1) TypeAddress
         (address_confidence input (rm_start m) (rm_end m)))
       (FindAllStringSubmatchIndex (compilePattern re) input)"

definition detectLabeledComponents :: "bytes \<Rightarrow> Finding list" where
  "detectLabeledComponents input =
     (let skipPrefixes = map ru [''g'', ''gor'', ''gorod''] in
      concat (map (\<lambda>(typ, markers). concat (map (\<lambda>m. concat (map (\<lambda>(a, b).
        address_value input typ (address_confidence input a b) (collectLabeledWords input b 4 skipPrefixes))
        (FindAllStringIndex m input))) markers)) componentMarkers))"

fun plain_addresses :: "bytes \<Rightarrow> (nat \<times> nat) list \<Rightarrow> Finding list option" where
  "plain_addresses input [] = Some []"
| "plain_addresses input ((a, b) # locs) =
     (case collectLabeledWords input b 4 [] of (start, stop, ok) \<Rightarrow>
        if \<not> ok then plain_addresses input locs
        else
          (case addressComponentPrefix (gslice input (nat start) (nat stop)) of
             None \<Rightarrow> None
           | Some True \<Rightarrow> plain_addresses input locs
           | Some False \<Rightarrow>
               map_option
                 (Cons (address_finding input (nat start) (nat stop) TypeAddress AddressCandidateConfidence))
                 (plain_addresses input locs)))"

definition Address_Candidates :: "bytes \<Rightarrow> Finding list option" where
  "Address_Candidates input =
     map_option
       (\<lambda>plain. dedupBySpan (postal_codes input @ streets input @ numbered houseRe input @ numbered apartmentRe input @
          detectLabeledComponents input @ plain))
       (plain_addresses input (FindAllStringIndex (compilePattern plainAddressLabel) input))"

definition Address_Detect :: "bytes \<Rightarrow> Finding list option" where
  "Address_Detect input = map_option (filter (\<lambda>f. f_Confidence f \<ge> ConfidenceMedium)) (Address_Candidates input)"

definition AddressDetector :: Detector where
  "AddressDetector =
     \<lparr>d_Type = TypeAddress, d_Types = None, d_Detect = Address_Detect, d_Candidates = Some Address_Candidates\<rparr>"

section \<open>No panic\<close>

lemma letter_not_space: "isLetter r \<Longrightarrow> \<not> unicode_IsSpace r"
  by (auto simp: isLetter_def isCyrillic_def isLatin_def unicode_IsSpace_def white_space_table_def)

text \<open>The value starts with a letter.\<close>

definition letter_first :: "labelScanner \<Rightarrow> bool" where
  "letter_first s \<longleftrightarrow>
     (0 \<le> ls_start s \<longrightarrow> isLetter (fst (decode_rune (drop (nat (ls_start s)) (ls_input s)))) \<and>
       nat (ls_start s) < length (ls_input s))"

lemma label_step_letter:
  assumes "label_step skip issuer s = Some s'" and "letter_first s"
  shows "letter_first s'"
proof (rule label_step_word [OF assms(1)])
  fix a b s1
  assume w: "a < b" "b \<le> length (ls_input s)" "a = scanLetters (ls_input s) (ls_pos s) False"
    and s1: "acceptWord s a b skip = Some s1" and s': "s' = (if issuer then acceptIssuerNumber s1 else s1)"
  have "isLetter (fst (decode_rune (drop a (ls_input s))))"
    using scan_while_stop [of "\<lambda>r. isLetter r = False" "ls_input s" "ls_pos s"] w unfolding scanLetters_def by simp
  with acceptWord_cases [OF s1] assms(2) w(1,2) have "letter_first s1" by (auto simp: letter_first_def)
  moreover have "ls_start (acceptIssuerNumber s1) = ls_start s1 \<and> ls_input (acceptIssuerNumber s1) = ls_input s1"
    by (cases rule: acceptIssuerNumber_cases [of s1]) simp_all
  ultimately show ?thesis using s' by (simp add: letter_first_def)
qed

lemma label_loop_letter: "letter_first s \<Longrightarrow> letter_first (label_loop m skip issuer s)"
proof (induction m skip issuer s rule: label_loop.induct)
  case (1 m skip issuer s)
  then show ?case using label_step_letter by (subst label_loop.simps) (auto split: option.splits)
qed

lemma Fields_letter:
  assumes "valid_string s" and "s \<noteq> []" and "isLetter (fst (decode_rune s))"
  shows "strings_Fields s \<noteq> []"
proof -
  obtain r t where r: "s = encode_rune r @ t" "valid_rune r" using valid_string_cases [OF assms(1)] assms(2) by blast
  have keep: "cur \<noteq> [] \<Longrightarrow> fields_from cur cs \<noteq> []" for cur cs
    by (induction cs arbitrary: cur) (auto split: if_splits)
  show ?thesis using r assms(3) keep [of "encode_rune r"] letter_not_space by (simp add: strings_Fields_def)
qed

lemma decode_take:
  assumes "valid_string s" and "rune_boundary s i" and "0 < i"
  shows "decode_rune (take i s) = decode_rune s"
proof (cases "s = []")
  case False
  then obtain r t where r: "s = encode_rune r @ t" "valid_rune r" using valid_string_cases [OF assms(1)] by blast
  have "length (encode_rune r) \<le> i"
  proof (rule ccontr)
    assume "\<not> length (encode_rune r) \<le> i"
    with assms(2) r encode_rune_start [of i r] have "i = 0" by (auto simp: rune_boundary_def nth_append)
    with assms(3) show False by simp
  qed
  then show ?thesis using r by simp
qed simp

lemma labelled_not_blank:
  assumes "valid_string input" and "rune_boundary input start" and "collectLabeledWords input start m skip = (a, b, True)"
  shows "strings_Fields (gslice input (nat a) (nat b)) \<noteq> []"
proof -
  let ?in = "boundedLabelInput input start"
  define s0 where "s0 = \<lparr>ls_input = ?in, ls_pos = labelValueStart ?in start, ls_start = -1, ls_end = -1, ls_count = 0, ls_skippedPrefix = False\<rparr>"
  define s1 where "s1 = label_loop m skip False s0"
  have ab: "ls_start s1 = a" "ls_end s1 = b" "0 < ls_count s1"
    using assms(3) by (auto simp: collectLabeledWords_def collectLabelValue_def Let_def s1_def s0_def)
  note bd = boundedLabelInput_ok [OF assms(1,2)]
  have "scan_ok s0" using bd scan_while_boundary by (simp add: scan_ok_def labelValueStart_def s0_def)
  with label_loop_ok [of s0] bd have s1: "scan_ok s1" "ls_input s1 = ?in" by (auto simp: s1_def s0_def)
  then have ord: "0 \<le> a" "a < b" and bnd: "rune_boundary ?in (nat a)" "rune_boundary ?in (nat b)"
    using ab by (auto simp: scan_ok_def)
  have "letter_first s1" unfolding s1_def by (rule label_loop_letter) (simp add: letter_first_def s0_def)
  then have letter: "isLetter (fst (decode_rune (drop (nat a) ?in)))" using ab ord s1(2) by (simp add: letter_first_def)
  have "rune_boundary (drop (nat a) ?in) (nat b - nat a)" using bnd ord by (auto simp: rune_boundary_def)
  then have "decode_rune (gslice ?in (nat a) (nat b)) = decode_rune (drop (nat a) ?in)"
    unfolding gslice_def using rune_boundary_split [of ?in "nat a"] bd bnd ord by (intro decode_take) auto
  moreover have "valid_string (gslice ?in (nat a) (nat b))" using valid_slice [of ?in "nat a" "nat b"] bd bnd ord by simp
  moreover have "gslice ?in (nat a) (nat b) \<noteq> []" using bnd ord by (auto simp: gslice_def rune_boundary_def)
  ultimately have "strings_Fields (gslice ?in (nat a) (nat b)) \<noteq> []" using letter Fields_letter by simp
  moreover have "gslice ?in (nat a) (nat b) = gslice input (nat a) (nat b)"
    using bnd(2) by (auto simp: boundedLabelInput_def gslice_def rune_boundary_def drop_take min_def split: if_splits)
  ultimately show ?thesis by simp
qed

lemma plain_addresses_ok:
  assumes "valid_string s" and "\<And>a b. (a, b) \<in> set locs \<Longrightarrow> rune_boundary s b"
  shows "\<exists>fs. plain_addresses s locs = Some fs \<and> (\<forall>f \<in> set fs. finding_ok s f \<and> f_Type f = TypeAddress)"
  using assms(2)
proof (induction locs)
  case (Cons l locs)
  obtain a b where l: "l = (a, b)" by force
  obtain x y ok where c: "collectLabeledWords s b 4 [] = (x, y, ok)" by (cases "collectLabeledWords s b 4 []") auto
  obtain fs where fs: "plain_addresses s locs = Some fs" "\<forall>f \<in> set fs. finding_ok s f \<and> f_Type f = TypeAddress"
    using Cons.IH Cons.prems by (meson list.set_intros(2))
  have b: "rune_boundary s b" using Cons.prems [of a b] l by simp
  show ?case
  proof (cases ok)
    case True
    then have c': "collectLabeledWords s b 4 [] = (x, y, True)" using c by simp
    note v = collectLabeledWords_ok [OF assms(1) b c'] labelled_not_blank [OF assms(1) b c']
    obtain p where p: "addressComponentPrefix (gslice s (nat x) (nat y)) = Some p"
      using v(2) by (cases "strings_Fields (gslice s (nat x) (nat y))") (simp_all add: addressComponentPrefix_def)
    show ?thesis using l c' p fs v(1) by (cases p) (auto simp: address_finding_def report_ok)
  qed (use l c fs in auto)
qed simp

section \<open>The detector keeps the contract\<close>

lemma address_regexes: "eats postalRe" "group_eats 1 houseRe" "group_eats 1 apartmentRe"
    "sets_group 1 streetRe" "sets_group 1 houseRe" "sets_group 1 apartmentRe"
  by (simp_all add: postalRe_def streetRe_def houseRe_def apartmentRe_def regex_words ascii_runes_def)

lemma address_value_cases:
  "f \<in> set (address_value s typ conf r) \<Longrightarrow>
   \<exists>x y. r = (x, y, True) \<and> f = report typ conf ''address'' s (nat x) (nat y)"
  by (cases r) (auto simp: address_value_def address_finding_def split: if_splits)

lemma address_confidence_range [simp]: "0 \<le> address_confidence s a b" "address_confidence s a b \<le> 1"
  by (auto simp: address_confidence_def Let_def split: prod.splits option.splits)

interpretation postal: span_detector postal_codes "[TypeAddress]"
proof
  fix s f assume s: "valid_string s" and "f \<in> set (postal_codes s)"
  then obtain m where m: "m \<in> set (FindAllStringSubmatchIndex (compilePattern postalRe) s)"
    and f: "f = report TypeAddress (address_confidence s (rm_start m) (rm_end m)) ''address'' s (rm_start m) (rm_end m)"
    by (auto simp: postal_codes_def address_finding_def Let_def split: if_splits)
  with submatch_ok [OF s m] address_regexes(1) show "finding_ok s f \<and> f_Type f \<in> set [TypeAddress]" by (simp add: report_ok)
qed

interpretation street: span_detector streets "[TypeAddress]"
proof
  fix s f assume s: "valid_string s" and "f \<in> set (streets s)"
  then obtain m x y where m: "m \<in> set (FindAllStringSubmatchIndex (compilePattern streetRe) s)"
    and c: "collectLabeledWords s (group_start m 1) 4 [] = (x, y, True)"
    and f: "f = report TypeAddress (address_confidence s (rm_start m) (rm_end m)) ''address'' s (nat x) (nat y)"
    by (auto simp: streets_def address_finding_def dest!: address_value_cases)
  with collectLabeledWords_ok [OF s group_ok(2) [OF s m address_regexes(4)] c]
  show "finding_ok s f \<and> f_Type f \<in> set [TypeAddress]" by (simp add: report_ok)
qed

lemma numbered_ok: "group_eats 1 re \<Longrightarrow> sets_group 1 re \<Longrightarrow> span_detector (numbered re) [TypeAddress]"
  by unfold_locales (use group_ok in \<open>auto simp: numbered_def address_finding_def intro!: report_ok\<close>)

interpretation houses: span_detector "numbered houseRe" "[TypeAddress]"
  by (rule numbered_ok) (rule address_regexes)+

interpretation flats: span_detector "numbered apartmentRe" "[TypeAddress]"
  by (rule numbered_ok) (rule address_regexes)+

interpretation components: span_detector detectLabeledComponents "[TypeAddress]"
proof
  fix s f assume s: "valid_string s" and "f \<in> set (detectLabeledComponents s)"
  then obtain re a b skip x y where m: "(a, b) \<in> set (FindAllStringIndex (compilePattern re) s)"
    and c: "collectLabeledWords s b 4 skip = (x, y, True)"
    and f: "f = report TypeAddress (address_confidence s a b) ''address'' s (nat x) (nat y)"
    by (auto simp: detectLabeledComponents_def componentMarkers_def address_components_def patterns_def address_finding_def Let_def
        dest!: address_value_cases)
  with collectLabeledWords_ok [OF s index_ok(2) [OF s m] c]
  show "finding_ok s f \<and> f_Type f \<in> set [TypeAddress]" by (simp add: report_ok)
qed

lemma Address_Candidates_ok:
  assumes "valid_string s"
  shows "\<exists>fs. Address_Candidates s = Some fs \<and> (\<forall>f \<in> set fs. finding_ok s f \<and> f_Type f = TypeAddress)"
proof -
  obtain fs where fs: "plain_addresses s (FindAllStringIndex (compilePattern plainAddressLabel) s) = Some fs"
      "\<forall>f \<in> set fs. finding_ok s f \<and> f_Type f = TypeAddress"
    using plain_addresses_ok [OF assms] index_ok(2) [OF assms] by blast
  let ?all = "postal_codes s @ streets s @ numbered houseRe s @ numbered apartmentRe s @ detectLabeledComponents s @ fs"
  have "finding_ok s f \<and> f_Type f = TypeAddress" if "f \<in> set ?all" for f
    using that fs(2) postal.wf [OF assms] street.wf [OF assms] houses.wf [OF assms] flats.wf [OF assms] components.wf [OF assms]
    by auto
  then have "\<forall>f \<in> set (dedupBySpan ?all). finding_ok s f \<and> f_Type f = TypeAddress" using dedup_subset by blast
  then show ?thesis using fs(1) by (simp add: Address_Candidates_def)
qed

lemma Address_Detect_ok:
  assumes "valid_string s"
  shows "\<exists>fs. Address_Detect s = Some fs \<and> (\<forall>f \<in> set fs. finding_ok s f \<and> f_Type f = TypeAddress)"
  using Address_Candidates_ok [OF assms] by (auto simp: Address_Detect_def)

end
