(* ===== verification/Name_Detector.thy ===== *)
theory Name_Detector
  imports Address_Detector
begin

text \<open>
  \<^verbatim>\<open>name_lexicon.go\<close> and \<^verbatim>\<open>full_name.go\<close> of \<^verbatim>\<open>internal/pii/detectors\<close>: the vocabulary of names, the words of a
  text, and names of up to three words with the evidence for them.
\<close>

section \<open>Vocabulary\<close>

definition givenNames :: "bytes list" where
  "givenNames = map ru
     [''avgust'', ''adam'', ''adrian'', ''aleksandr'', ''aleksej'', ''alxbert'', ''anatolij'', ''andrej'',
       ''anton'', ''arkadij'', ''arsenij'', ''artEm'', ''artem'', ''artur'', ''boris'', ''vadim'', ''valentin'',
       ''valerij'', ''vasilij'', ''viktor'', ''vitalij'', ''vladimir'', ''vladislav'', ''vYCeslav'',
       ''gennadij'', ''georgij'', ''german'', ''gleb'', ''grigorij'', ''daniil'', ''danila'', ''denis'',
       ''dmitrij'', ''evgenij'', ''egor'', ''ivan'', ''igorx'', ''ilxY'', ''kirill'', ''konstantin'', ''lev'',
       ''leonid'', ''maksim'', ''mark'', ''matvej'', ''mihail'', ''nikita'', ''nikolaj'', ''oleg'', ''pavel'',
       ''pEtr'', ''petr'', ''platon'', ''roman'', ''rostislav'', ''ruslan'', ''savelij'', ''semEn'', ''semen'',
       ''sergej'', ''sidor'', ''stanislav'', ''stepan'', ''timofej'', ''timur'', ''fEdor'', ''fedor'',
       ''filipp'', ''Aduard'', ''Urij'', ''Yroslav'', ''agata'', ''aleksandra'', ''alina'', ''alisa'', ''alla'',
       ''anastasiY'', ''angelina'', ''anna'', ''antonina'', ''valentina'', ''valeriY'', ''varvara'', ''vera'',
       ''veronika'', ''viktoriY'', ''galina'', ''darxY'', ''diana'', ''evgeniY'', ''ekaterina'', ''elena'',
       ''elizaveta'', ''Zanna'', ''zinaida'', ''zoY'', ''inna'', ''irina'', ''karina'', ''kira'', ''kseniY'',
       ''larisa'', ''lidiY'', ''lUbovx'', ''lUdmila'', ''margarita'', ''marina'', ''mariY'', ''nadeZda'',
       ''natalxY'', ''nina'', ''oksana'', ''olxga'', ''polina'', ''svetlana'', ''sofiY'', ''sofxY'', ''tamara'',
       ''tatxYna'', ''ulxYna'', ''UliY'', ''Yna'']"

text \<open>\<^verbatim>\<open>strings.Cut\<close> at hyphens until a part fails or none is left.\<close>

lemma Cut_shorter: "strings_Cut w c = (p, rest, True) \<Longrightarrow> length rest < length w"
proof (induction w arbitrary: p rest)
  case (Cons d w)
  then show ?case by (cases "strings_Cut w c") (fastforce split: if_splits)
qed simp

function all_parts :: "(bytes \<Rightarrow> bool) \<Rightarrow> bytes \<Rightarrow> bool" where
  "all_parts ok w =
     (case strings_Cut w (CHR ''-'') of (part, rest, again) \<Rightarrow>
        if \<not> ok part then False else if \<not> again then True else all_parts ok rest)"
  by pat_completeness auto
termination
  by (relation "measure (\<lambda>(ok, w). length w)") (auto dest: Cut_shorter [OF sym])

declare all_parts.simps [simp del]

definition givenNameForm :: "bytes \<Rightarrow> bool" where
  "givenNameForm p \<longleftrightarrow>
     p \<in> set givenNames \<or>
     list_ex (\<lambda>ending. strings_HasSuffix p ending \<and>
         (let stem = strings_TrimSuffix p ending in
          list_ex (\<lambda>base. base \<in> set givenNames) [stem, stem @ ru ''a'', stem @ ru ''Y'', stem @ ru ''j'', stem @ ru ''x'']))
       (map ru [''om'', ''em'', ''ej'', ''u'', ''U'', ''a'', ''Y'', ''e'', ''y'', ''i'', ''oj''])"

definition commonGivenName :: "bytes \<Rightarrow> bool" where
  "commonGivenName w = all_parts givenNameForm (strings_ToLower w)"

definition surname_suffix :: "bytes \<Rightarrow> bool" where
  "surname_suffix part \<longleftrightarrow>
     list_ex (\<lambda>suffix. strings_HasSuffix part suffix \<and> length part > length suffix + 2)
       (map ru
       [''ov'', ''ev'', ''Ev'', ''in'', ''yn'', ''ova'', ''eva'', ''Eva'', ''ina'', ''yna'', ''oj'', ''skij'',
       ''ckij'', ''skaY'', ''ckaY'', ''enko'', ''ko'', ''uk'', ''Uk'', ''ih'', ''yh'', ''ogo'', ''omu'',
       ''ovoj'', ''evoj'', ''inoj'', ''ovym'', ''evym'', ''inym'', ''ovu'', ''evu'', ''inu'', ''skuU''])"

definition surnameForm :: "bytes \<Rightarrow> bool" where
  "surnameForm w = all_parts surname_suffix (strings_ToLower w)"

definition isPatronymic :: "bytes \<Rightarrow> bool" where
  "isPatronymic w =
     (let l = strings_ToLower w in
      list_ex (\<lambda>suffix. strings_HasSuffix l suffix \<and> length l > length suffix)
        (map ru
       [''oviC'', ''eviC'', ''iC'', ''ovna'', ''evna'', ''Cna'', ''iCna'', ''oviCa'', ''eviCa'', ''oviCu'',
       ''eviCu'', ''oviCem'', ''eviCem'', ''ovnoj'', ''evnoj'', ''ovny'', ''evny'']))"

definition trapNames :: "bytes list" where
  "trapNames = map ru
     [''puSkin'', ''aleksandr sergeeviC puSkin'', ''aleksandr puSkin'', ''tolstoj'', ''lev tolstoj'', ''lev
       nikolaeviC tolstoj'', ''dostoevskij'', ''Cehov'', ''gogolx'', ''lermontov'', ''esenin'', ''maYkovskij'',
       ''pasternak'', ''ahmatova'', ''cvetaeva'', ''blok'', ''tUtCev'', ''fet'', ''nekrasov'', ''turgenev'',
       ''gonCarov'', ''ostrovskij'', ''saltykov-Wedrin'', ''bunin'', ''kuprin'', ''gorxkij'', ''Solohov'',
       ''solZenicyn'', ''brodskij'']"

definition isMarkerWord :: "bytes \<Rightarrow> bool" where
  "isMarkerWord w \<longleftrightarrow> strings_ToLower w \<in> set (map ru
     [''klient'', ''fio'', ''derZatelx'', ''derZatelY'', ''poluCatelx'', ''poluCatelY'', ''zakazCik'',
       ''pacient'', ''sotrudnik'', ''graZdanin'', ''zaYvitelx'', ''vladelec'', ''polxzovatelx'', ''abonent'',
       ''imY'', ''familiY'', ''otCestvo'', ''g-n'', ''g-Za'', ''tovariW'', ''uvaZaemyj'', ''uvaZaemaY'',
       ''uvaZaemye'', ''gospodin'', ''gospoZa'', ''graZdanka''])"

definition nameStop :: "bytes \<Rightarrow> bool" where
  "nameStop w =
     (if isMarkerWord w then True
      else strings_ToLower w \<in> set (''email'' # map ru
       [''gorod'', ''adres'', ''telefon'', ''poCta'', ''pasport'', ''inn'', ''karta'', ''karty'', ''sCEta'',
       ''sCeta'', ''proZivaet'', ''po'', ''adresu'', ''mesto'', ''Zitelxstva'', ''roZdeniY'', ''data'',
       ''kompaniY'', ''kompanii'', ''ofis'', ''banka'', ''napisal'', ''pisatelx'', ''poAt'', ''avtor'',
       ''otdelenie'', ''filial'', ''sklad'', ''nahoditsY'', ''ne'', ''ukazano'', ''otsutstvuet'',
       ''zdravstvujte'', ''spasibo'', ''poZalujsta'', ''privet'', ''kakoj'', ''kakaY'', ''kakie'', ''kakogo'',
       ''kotoryj'', ''kotoraY'', ''kto'', ''Cto'', ''Ato'', ''strany'', ''vy'']))"

definition strongMarkers :: "pattern list" where
  "strongMarkers =
     patterns [
       ilit ''fio'',
       ilit ''klient'',
       Cat [ilit ''derZatel'', letters],
       Cat [ilit ''poluCatel'', letters],
       ilit ''zakazCik'',
       ilit ''pacient'',
       ilit ''sotrudnik'',
       ilit ''graZdanin'',
       Cat [ilit ''zaYvitel'', letters],
       ilit ''vladelec'',
       Cat [ilit ''polxzovatel'', letters],
       ilit ''abonent'',
       ilit ''imY'',
       ilit ''familiY'',
       ilit ''otCestvo'']"

definition weakMarkers :: "pattern list" where
  "weakMarkers =
     patterns [
       ilit ''g-n'',
       ilit ''g-Za'',
       ilit ''tovariW'',
       Cat [ilit ''uvaZaem'', letters]]"

section \<open>Words\<close>

record wordTok =
  wt_text :: bytes
  wt_start :: nat
  wt_end :: nat

function words_from :: "bytes \<Rightarrow> nat \<Rightarrow> wordTok list" where
  "words_from input i =
     (if i < length input then
        (let start = scan_while (\<lambda>r. \<not> isLetter r) input i in
         if start \<ge> length input then []
         else
           (let stop = scan_while isLetter input start in
            \<lparr>wt_text = gslice input start stop, wt_start = start, wt_end = stop\<rparr> # words_from input stop))
      else [])"
  by pat_completeness auto
termination
proof (relation "measure (\<lambda>(input, i). length input - i)", goal_cases)
  case (2 input i start stop)
  then have "isLetter (fst (decode_rune (drop start input)))"
    using scan_while_stop [of "\<lambda>r. \<not> isLetter r" input i] by simp
  then have "start < stop" using 2 scan_while_progress [of start input isLetter] by simp
  moreover have "i \<le> start" using 2 scan_while_ge by simp
  ultimately show ?case using 2 by simp
qed simp

declare words_from.simps [simp del]

definition tokenizeWords :: "bytes \<Rightarrow> wordTok list" where
  "tokenizeWords input = words_from input 0"

text \<open>The result reuses the array of the words, but only behind the index that is read.\<close>

fun join_hyphens :: "bytes \<Rightarrow> wordTok list \<Rightarrow> wordTok list \<Rightarrow> wordTok list" where
  "join_hyphens input out [] = out"
| "join_hyphens input out (w # ws) =
     (if length out > 0 \<and> gslice input (wt_end (last out)) (wt_start w) = ''-'' then
        (let l = last out in
         join_hyphens input
           (butlast out @ [l\<lparr>wt_end := wt_end w, wt_text := gslice input (wt_start l) (wt_end w)\<rparr>]) ws)
      else join_hyphens input (out @ [w]) ws)"

definition nameTokens :: "bytes \<Rightarrow> wordTok list" where
  "nameTokens input = join_hyphens input [] (tokenizeWords input)"

definition nameLetters :: "bytes \<Rightarrow> bool" where
  "nameLetters w = all_parts isCyrillicWord w"

definition nameCapitalized :: "bytes \<Rightarrow> bool" where
  "nameCapitalized w = all_parts (\<lambda>part. unicode_IsUpper (fst (decode_rune part))) w"

definition isCapitalizedWord :: "bytes \<Rightarrow> bool" where
  "isCapitalizedWord w =
     (if length w = 0 then False
      else if \<not> unicode_IsUpper (fst (decode_rune w)) then False
      else hasLowerLetter w)"

definition plausibleNamePair :: "bytes \<Rightarrow> bytes \<Rightarrow> bool" where
  "plausibleNamePair a b \<longleftrightarrow> commonGivenName a \<and> surnameForm b \<or> surnameForm a \<and> commonGivenName b"

definition wordsAdjacent :: "bytes \<Rightarrow> wordTok \<Rightarrow> wordTok \<Rightarrow> bool" where
  "wordsAdjacent input left right =
     list_all (\<lambda>r. \<not> (r = 0x0A \<or> r = 0x0D \<or> \<not> unicode_IsSpace r \<and> r \<noteq> 0x2D)) (runes (gslice input (wt_end left) (wt_start right)))"

definition nameWordsAdjacent :: "bytes \<Rightarrow> wordTok \<Rightarrow> wordTok \<Rightarrow> bool \<Rightarrow> bool" where
  "nameWordsAdjacent input left right labelled =
     (if \<not> labelled then wordsAdjacent input left right
      else list_all (\<lambda>r. \<not> (r = 0x0A \<or> r = 0x0D \<or> \<not> unicode_IsSpace r \<and> r \<noteq> 0x2C))
        (runes (gslice input (wt_end left) (wt_start right))))"

section \<open>Labels in front of a name\<close>

lemma decode_last_rune_size: "s \<noteq> [] \<Longrightarrow> 0 < snd (decode_last_rune s)"
proof -
  assume s: "s \<noteq> []"
  have "last_start s < length s"
    using s by (auto simp: last_start_def Let_def split: option.splits dest!: find_mem)
  then have "0 < snd (decode_rune (drop (last_start s) s))" using decode_rune_size [of "drop (last_start s) s"] by simp
  with s show ?thesis by (auto simp: decode_last_rune_def Let_def split: prod.splits)
qed

text \<open>The loop condition \<^verbatim>\<open>end > 0\<close>, for a position in the text, says that there is text in front of it.\<close>

function back_while :: "(rune \<Rightarrow> bool) \<Rightarrow> bytes \<Rightarrow> nat \<Rightarrow> nat" where
  "back_while p s stop =
     (if take stop s \<noteq> [] then
        (case decode_last_rune (take stop s) of (r, width) \<Rightarrow>
           if p r then back_while p s (stop - width) else stop)
      else stop)"
  by pat_completeness auto
termination
proof (relation "measure (\<lambda>(p, s, stop). stop)", goal_cases)
  case (2 p s stop r width)
  then have "0 < width" using decode_last_rune_size [of "take stop s"] by (metis snd_conv)
  with 2 show ?case by (cases stop) auto
qed simp

declare back_while.simps [simp del]

definition label_gap :: "rune \<Rightarrow> bool" where
  "label_gap r \<longleftrightarrow> unicode_IsSpace r \<or> r \<in> set [0x3A, 0x2D, 0x2014, 0xAB, 0x22, 0x27]"

text \<open>A line break in the gap in front of the name ends the search with the empty label.\<close>

definition precedingNameLabel :: "bytes \<Rightarrow> nat \<Rightarrow> bytes" where
  "precedingNameLabel input start =
     (let lo = fst (contextBounds input start start);
          pref = gslice input lo start;
          stop = back_while (\<lambda>r. \<not> (r = 0x0A \<or> r = 0x0D) \<and> label_gap r) pref (length pref) in
      if stop > 0 \<and> fst (decode_last_rune (take stop pref)) \<in> set [0x0A, 0x0D] then []
      else
        (let first = back_while (\<lambda>r. unicode_IsLetter r \<or> r = 0x2D) pref stop in
         gslice pref first stop))"

definition regexp_FindStringIndex :: "regex \<Rightarrow> bytes \<Rightarrow> (nat \<times> nat) option" where
  "regexp_FindStringIndex re s = map_option (\<lambda>m. (rm_start m, rm_end m)) (find_from re s 0)"

definition markerImmediatelyBefore :: "bytes \<Rightarrow> nat \<Rightarrow> pattern list \<Rightarrow> bool" where
  "markerImmediatelyBefore input start markers =
     (let candidate = precedingNameLabel input start in
      if candidate = [] then False
      else list_ex (\<lambda>m. regexp_FindStringIndex (p_re m) candidate = Some (0, length candidate)) markers)"

section \<open>Candidates\<close>

definition nameStart :: "bytes \<Rightarrow> bool" where
  "nameStart word \<longleftrightarrow>
     \<not> nameStop word \<and> nameLetters word \<and> (nameCapitalized word \<or> commonGivenName word \<or> surnameForm word)"

definition name_continues :: "bytes \<Rightarrow> wordTok list \<Rightarrow> bool \<Rightarrow> nat \<Rightarrow> bool" where
  "name_continues input words strong count =
     (let nxt = words ! count in
      \<not> (nameStop (wt_text nxt) \<or> \<not> nameLetters (wt_text nxt) \<or> \<not> strong \<and> \<not> nameCapitalized (wt_text nxt) \<or>
         \<not> nameWordsAdjacent input (words ! (count - 1)) nxt strong))"

function count_words :: "bytes \<Rightarrow> wordTok list \<Rightarrow> bool \<Rightarrow> nat \<Rightarrow> nat" where
  "count_words input words strong count =
     (if count < 3 \<and> count < length words then
        (if name_continues input words strong count then count_words input words strong (count + 1) else count)
      else count)"
  by pat_completeness auto
termination
  by (relation "measure (\<lambda>(input, words, strong, count). 3 - count)") auto

declare count_words.simps [simp del]

definition nameWordCount :: "bytes \<Rightarrow> wordTok list \<Rightarrow> bool \<Rightarrow> nat" where
  "nameWordCount input words strong =
     (let count = count_words input words strong 1 in
      if count = 3 \<and> \<not> isPatronymic (wt_text (words ! 1)) \<and> \<not> isPatronymic (wt_text (words ! 2)) then 2 else count)"

definition nameConfidence :: "wordTok list \<Rightarrow> bool \<Rightarrow> Confidence" where
  "nameConfidence words labelled =
     (if labelled then
        (if length words \<ge> 2 \<or> commonGivenName (wt_text (words ! 0)) \<or> surnameForm (wt_text (words ! 0))
         then ConfidenceHigh else 0)
      else if length words = 3 then ConfidenceHigh
      else if length words = 2 \<and> plausibleNamePair (wt_text (words ! 0)) (wt_text (words ! 1))
      then NameCandidateConfidence
      else 0)"

definition contextualNamePair :: "bytes \<Rightarrow> wordTok list \<Rightarrow> nat \<Rightarrow> bool" where
  "contextualNamePair input words count =
     (if count \<noteq> 2 \<or> \<not> isCapitalizedWord (wt_text (words ! 0)) \<or> \<not> isCapitalizedWord (wt_text (words ! 1)) then False
      else if commonGivenName (wt_text (words ! 1)) \<and> length words > 2 \<and> nameCapitalized (wt_text (words ! 2)) \<and>
        \<not> nameStop (wt_text (words ! 2)) \<and> wordsAdjacent input (words ! 1) (words ! 2) then False
      else commonGivenName (wt_text (words ! 0)) \<noteq> commonGivenName (wt_text (words ! 1)))"

definition hasTrapName :: "wordTok list \<Rightarrow> bool" where
  "hasTrapName words = list_ex (\<lambda>word. strings_ToLower (wt_text word) \<in> set trapNames) words"

definition name_finding :: "bytes \<Rightarrow> nat \<Rightarrow> nat \<Rightarrow> Finding" where
  "name_finding input start stop = report TypeFullName ConfidenceHigh ''full_name'' input start stop"

text \<open>\<^const>\<open>None\<close> stands for the count 0; the words are not empty.\<close>

definition nameCandidate :: "bytes \<Rightarrow> wordTok list \<Rightarrow> (Finding \<times> nat) option" where
  "nameCandidate input words =
     (let w = words ! 0 in
      if \<not> nameStart (wt_text w) then None
      else
        (let strong = markerImmediatelyBefore input (wt_start w) strongMarkers;
             weak = (\<not> strong \<and> markerImmediatelyBefore input (wt_start w) weakMarkers) in
         if \<not> nameCapitalized (wt_text w) \<and> \<not> strong then None
         else
           (let count = nameWordCount input words strong;
                conf = nameConfidence (take count words) (strong \<or> weak);
                requiresAnchor = (conf = 0 \<and> contextualNamePair input words count);
                conf = (if requiresAnchor then NameCandidateConfidence else conf) in
            if conf = 0 then None
            else
              (let f = (name_finding input (wt_start w) (wt_end (words ! (count - 1))))\<lparr>f_Confidence := conf\<rparr>;
                   f = (if requiresAnchor then f\<lparr>f_Evidence := f_Evidence f OR EvidenceRequiresAnchor\<rparr> else f);
                   f = (if strong \<or> weak then f\<lparr>f_Evidence := f_Evidence f OR EvidenceLabel\<rparr> else f);
                   f = (if \<not> strong \<and> hasTrapName (take count words)
                        then f\<lparr>f_Evidence := f_Evidence f OR EvidenceTrap\<rparr> else f) in
               Some (f, count)))))"

function candidates_loop :: "bytes \<Rightarrow> wordTok list \<Rightarrow> Finding list" where
  "candidates_loop input [] = []"
| "candidates_loop input (w # ws) =
     (case nameCandidate input (w # ws) of
        None \<Rightarrow> candidates_loop input ws
      | Some (finding, count) \<Rightarrow> finding # candidates_loop input (drop (count - 1) ws))"
  by pat_completeness auto
termination
  by (relation "measure (\<lambda>(input, words). length words)") auto

definition Name_Candidates :: "bytes \<Rightarrow> Finding list" where
  "Name_Candidates input = candidates_loop input (nameTokens input)"

definition Name_Detect :: "bytes \<Rightarrow> Finding list" where
  "Name_Detect input =
     filter (\<lambda>f. f_Confidence f \<ge> ConfidenceHigh \<and> f_Evidence f AND EvidenceTrap = 0) (Name_Candidates input)"

definition FullNameDetector :: Detector where
  "FullNameDetector =
     \<lparr>d_Type = TypeFullName, d_Types = None, d_Detect = (\<lambda>s. Some (Name_Detect s)),
      d_Candidates = Some (\<lambda>s. Some (Name_Candidates s))\<rparr>"

section \<open>The words of a text\<close>

text \<open>Words are non-empty, cut no rune, and come in order.\<close>

definition tok_ok :: "bytes \<Rightarrow> wordTok \<Rightarrow> bool" where
  "tok_ok s w \<longleftrightarrow> wt_start w < wt_end w \<and> rune_boundary s (wt_start w) \<and> rune_boundary s (wt_end w)"

definition toks_ok :: "bytes \<Rightarrow> wordTok list \<Rightarrow> bool" where
  "toks_ok s ws \<longleftrightarrow> list_all (tok_ok s) ws \<and> sorted_wrt (\<lambda>a b. wt_end a \<le> wt_start b) ws"

lemma words_from_ok:
  "valid_string s \<Longrightarrow> rune_boundary s i \<Longrightarrow>
   toks_ok s (words_from s i) \<and> (\<forall>w \<in> set (words_from s i). i \<le> wt_start w)"
proof (induction s i rule: words_from.induct)
  case (1 s i)
  let ?a = "scan_while (\<lambda>r. \<not> isLetter r) s i"
  let ?b = "scan_while isLetter s ?a"
  have a: "i \<le> ?a" "rune_boundary s ?a" using scan_while_ge scan_while_boundary 1(2,3) by blast+
  show ?case
  proof (cases "i < length s \<and> ?a < length s")
    case True
    have "isLetter (fst (decode_rune (drop ?a s)))" using scan_while_stop [of "\<lambda>r. \<not> isLetter r" s i] True by simp
    with True have "?a < ?b" by (simp add: scan_while_progress)
    moreover have b: "rune_boundary s ?b" using scan_while_boundary a(2) 1(2) by blast
    moreover have "toks_ok s (words_from s ?b) \<and> (\<forall>w \<in> set (words_from s ?b). ?b \<le> wt_start w)"
      using 1(1) [OF _ refl _ refl 1(2) b] True by simp
    ultimately show ?thesis
      using True a by (subst (1 2) words_from.simps) (fastforce simp: Let_def toks_ok_def tok_ok_def)
  next
    case False
    then have "words_from s i = []" by (subst words_from.simps) (auto simp: Let_def)
    then show ?thesis by (simp add: toks_ok_def)
  qed
qed

lemma join_hyphens_ok: "toks_ok s (out @ ws) \<Longrightarrow> toks_ok s (join_hyphens s out ws)"
proof (induction s out ws rule: join_hyphens.induct)
  case (2 s out w ws)
  show ?case
  proof (cases "length out > 0 \<and> gslice s (wt_end (last out)) (wt_start w) = ''-''")
    case True
    then obtain ys l where out: "out = ys @ [l]" by (cases out rule: rev_cases) auto
    let ?l = "l\<lparr>wt_end := wt_end w, wt_text := gslice s (wt_start l) (wt_end w)\<rparr>"
    have "toks_ok s ((ys @ [?l]) @ ws)"
      using 2(3) by (auto simp: toks_ok_def tok_ok_def out sorted_wrt_append)
    with 2(1) [OF True refl] True out show ?thesis by (simp add: Let_def)
  next
    case False
    with 2(2) [OF False] 2(3) show ?thesis by auto
  qed
qed simp

lemma nameTokens_ok: "valid_string s \<Longrightarrow> toks_ok s (nameTokens s)"
  using words_from_ok [of s 0] join_hyphens_ok [of s "[]"] by (simp add: nameTokens_def tokenizeWords_def)

lemma count_words_bounds:
  "count \<le> count_words s ws strong count \<and> (count \<le> length ws \<longrightarrow> count_words s ws strong count \<le> length ws)"
proof (induction s ws strong count rule: count_words.induct)
  case (1 s ws strong count)
  then show ?case by (subst (1 2) count_words.simps) auto
qed

lemma nameWordCount_bounds:
  assumes "ws \<noteq> []"
  shows "1 \<le> nameWordCount s ws strong \<and> nameWordCount s ws strong \<le> length ws"
proof -
  have "1 \<le> length ws" using assms by (cases ws) auto
  with count_words_bounds [of 1 s ws strong] show ?thesis by (auto simp: nameWordCount_def Let_def)
qed

section \<open>The detector keeps the contract\<close>

lemma toks_span:
  assumes "toks_ok s ws" and "1 \<le> n" and "n \<le> length ws"
  shows "wt_start (ws ! 0) < wt_end (ws ! (n - 1))" and "rune_boundary s (wt_start (ws ! 0))"
    and "rune_boundary s (wt_end (ws ! (n - 1)))"
proof -
  have ok: "tok_ok s (ws ! k)" if "k < length ws" for k using assms(1) that by (simp add: toks_ok_def list_all_length)
  have ln: "0 < length ws" "n - 1 < length ws" using assms(2,3) by auto
  from ok [OF ln(1)] ok [OF ln(2)]
  show "rune_boundary s (wt_start (ws ! 0))" "rune_boundary s (wt_end (ws ! (n - 1)))" by (auto simp: tok_ok_def)
  show "wt_start (ws ! 0) < wt_end (ws ! (n - 1))"
  proof (cases "n = 1")
    case False
    then have "wt_end (ws ! 0) \<le> wt_start (ws ! (n - 1))"
      using assms sorted_wrt_nth_less [of "\<lambda>a b. wt_end a \<le> wt_start b" ws 0 "n - 1"] by (simp add: toks_ok_def)
    with ok [OF ln(1)] ok [OF ln(2)] show ?thesis by (auto simp: tok_ok_def)
  qed (use ok [OF ln(1)] in \<open>simp add: tok_ok_def\<close>)
qed

lemma nameConfidence_range: "0 \<le> nameConfidence ws l \<and> nameConfidence ws l \<le> 1"
  by (simp add: nameConfidence_def)

lemma finding_ok_evidence [simp]: "finding_ok s (f\<lparr>f_Evidence := e\<rparr>) = finding_ok s f"
  by (simp add: finding_ok_def)

lemma nameCandidate_ok:
  assumes "nameCandidate s ws = Some (f, n)" and "toks_ok s ws" and "ws \<noteq> []"
  shows "finding_ok s f \<and> f_Type f = TypeFullName \<and> n \<le> length ws \<and> 1 \<le> n"
proof -
  obtain strong conf e where n: "n = nameWordCount s ws strong"
    and c: "0 \<le> conf" "conf \<le> 1"
    and f: "f = (name_finding s (wt_start (ws ! 0)) (wt_end (ws ! (n - 1))))\<lparr>f_Confidence := conf, f_Evidence := e\<rparr>"
    using assms(1) nameConfidence_range [of "take n ws"]
    unfolding nameCandidate_def Let_def
    by (auto split: if_splits simp: name_finding_def report_def)
  note b = nameWordCount_bounds [OF assms(3), of s strong, folded n]
  note sp = toks_span [OF assms(2) conjunct1 [OF b] conjunct2 [OF b]]
  have "f = report TypeFullName conf ''full_name'' s (wt_start (ws ! 0)) (wt_end (ws ! (n - 1)))\<lparr>f_Evidence := e\<rparr>"
    using f by (simp add: name_finding_def report_def)
  then show ?thesis using report_ok [OF sp c] b by simp
qed

lemma toks_ok_drop: "toks_ok s ws \<Longrightarrow> toks_ok s (drop n ws)"
  by (auto simp: toks_ok_def list_all_iff sorted_wrt_drop dest: in_set_dropD)

lemma candidates_loop_ok:
  "toks_ok s ws \<Longrightarrow> f \<in> set (candidates_loop s ws) \<Longrightarrow> finding_ok s f \<and> f_Type f = TypeFullName"
proof (induction s ws rule: candidates_loop.induct)
  case (2 s w ws)
  have tail: "toks_ok s (drop k ws)" for k using toks_ok_drop [OF 2(3), of "Suc k"] by simp
  show ?case
  proof (cases "nameCandidate s (w # ws)")
    case None
    with 2 tail [of 0] show ?thesis by simp
  next
    case (Some p)
    obtain g n where p: "p = (g, n)" by force
    with Some have c: "nameCandidate s (w # ws) = Some (g, n)" by simp
    from 2(4) c consider (now) "f = g" | (later) "f \<in> set (candidates_loop s (drop (n - 1) ws))" by auto
    then show ?thesis
    proof cases
      case now
      with nameCandidate_ok [OF c 2(3)] show ?thesis by simp
    next
      case later
      show ?thesis by (rule 2(2) [OF Some p [symmetric] tail later])
    qed
  qed
qed simp

interpretation names: span_detector Name_Candidates "[TypeFullName]"
  by unfold_locales (use candidates_loop_ok nameTokens_ok in \<open>auto simp: Name_Candidates_def\<close>)

interpretation strong_names: span_detector Name_Detect "[TypeFullName]"
  by (rule names.sub_detector) (auto simp: Name_Detect_def)

end
