(* ===== verification/All_Detectors.thy ===== *)
theory All_Detectors
  imports Name_Detector
begin

text \<open>
  \<^verbatim>\<open>all.go\<close>: the built-in detectors, and what the registry gets from them. Each keeps the
  contract of a detector, so that a collection over them succeeds on every valid text unless the
  request is cancelled.
\<close>

definition All :: "Detector list" where
  "All =
     [CardHolderDetector, FullNameDetector, DateDetector, PlaceOfBirthDetector, PassportDetector, CitizenshipDetector,
      DriverLicenseDetector, AddressDetector, EmailDetector, PhoneDetector, INNDetector, CardNumberDetector, CVVDetector,
      CardPINDetector]"

section \<open>The contract of a detector\<close>

text \<open>
  On valid text a detector does not panic, with and without weak candidates, and reports
  well-formed findings of the categories that it declares.
\<close>

locale sound_detector =
  fixes d :: Detector
  assumes sound: "valid_string s \<Longrightarrow>
    \<exists>fs. detectorFindings d s c = Some fs \<and> (\<forall>f \<in> set fs. finding_ok s f \<and> f_Type f \<in> set (SupportedTypes d))"
begin

lemma append_succeeds:
  assumes "valid_string input"
  shows "\<exists>fs. detectorFindings d (n_text (normalizeText input)) c = Some fs \<and>
    (\<forall>wanted out. \<exists>out'. appendOriginalFindings out input (normalizeText input) wanted fs = Inr out')"
proof -
  obtain fs where fs: "detectorFindings d (n_text (normalizeText input)) c = Some fs"
      "\<forall>f \<in> set fs. finding_ok (n_text (normalizeText input)) f"
    using sound [OF valid_normalizeText [OF assms]] by blast
  have "\<exists>out'. appendOriginalFindings out input (normalizeText input) wanted fs = Inr out'" for wanted out
    using fs(2) by (induction fs arbitrary: out) (auto simp: finding_ok_accepted Let_def)
  with fs(1) show ?thesis by blast
qed

end

lemma span_sound:
  assumes "span_detector D types" and "SupportedTypes d = types" and "d_Candidates d = None" and "d_Detect d = (\<lambda>s. Some (D s))"
  shows "sound_detector d"
  using span_detector.wf [OF assms(1)] assms(2-4) by unfold_locales (simp add: detectorFindings_def)

lemma simple_sound: "span_detector D [typ] \<Longrightarrow> sound_detector (simple_detector typ D)"
  by (erule span_sound) (simp_all add: simple_detector_def SupportedTypes_def)

interpretation card_holder: sound_detector CardHolderDetector
  unfolding CardHolderDetector_def by (rule simple_sound) (rule card_holders.span_detector_axioms)

interpretation full_name: sound_detector FullNameDetector
  using names.wf strong_names.wf
  by unfold_locales (auto simp: detectorFindings_def FullNameDetector_def SupportedTypes_def)

interpretation date: sound_detector DateDetector
  by (rule span_sound [OF dates.span_detector_axioms]) (simp_all add: DateDetector_def SupportedTypes_def)

interpretation place_of_birth: sound_detector PlaceOfBirthDetector
  unfolding PlaceOfBirthDetector_def by (rule simple_sound) (rule birthplaces.span_detector_axioms)

interpretation passport: sound_detector PassportDetector
  by (rule span_sound [OF passports.span_detector_axioms]) (simp_all add: PassportDetector_def SupportedTypes_def)

interpretation citizenship: sound_detector CitizenshipDetector
  unfolding CitizenshipDetector_def by (rule simple_sound) (rule citizenships.span_detector_axioms)

interpretation driver_license: sound_detector DriverLicenseDetector
  unfolding DriverLicenseDetector_def by (rule simple_sound) (rule licenses.span_detector_axioms)

interpretation address: sound_detector AddressDetector
  using Address_Candidates_ok Address_Detect_ok
  by unfold_locales (auto simp: detectorFindings_def AddressDetector_def SupportedTypes_def)

interpretation email: sound_detector EmailDetector
  unfolding EmailDetector_def by (rule simple_sound) (rule emails.span_detector_axioms)

interpretation phone: sound_detector PhoneDetector
  unfolding PhoneDetector_def by (rule simple_sound) (rule phones.span_detector_axioms)

interpretation inn: sound_detector INNDetector
  unfolding INNDetector_def by (rule simple_sound) (rule inns.span_detector_axioms)

interpretation card_number: sound_detector CardNumberDetector
  unfolding CardNumberDetector_def by (rule simple_sound) (rule card_numbers.span_detector_axioms)

interpretation cvv: sound_detector CVVDetector
  unfolding CVVDetector_def by (rule simple_sound) (rule cvvs.span_detector_axioms)

interpretation card_pin: sound_detector CardPINDetector
  unfolding CardPINDetector_def by (rule simple_sound) (rule pins.span_detector_axioms)

lemmas builtin_sound =
  card_holder.sound_detector_axioms full_name.sound_detector_axioms date.sound_detector_axioms
  place_of_birth.sound_detector_axioms passport.sound_detector_axioms citizenship.sound_detector_axioms
  driver_license.sound_detector_axioms address.sound_detector_axioms email.sound_detector_axioms phone.sound_detector_axioms
  inn.sound_detector_axioms card_number.sound_detector_axioms cvv.sound_detector_axioms card_pin.sound_detector_axioms

lemma All_sound: "d \<in> set All \<Longrightarrow> sound_detector d"
  unfolding All_def using builtin_sound by auto

lemma custom_sound:
  assumes "NewPatternDetector compile typ expr conf = Inr d" and "0 \<le> conf" and "conf \<le> 1"
  shows "sound_detector (custom_detector d)"
proof -
  obtain re where "d = \<lparr>pd_typ = typ, pd_confidence = conf, pd_re = compilePattern re\<rparr>"
    using assms(1) by (auto simp: NewPatternDetector_def split: if_splits option.splits)
  then have "span_detector (Pattern_Detect d) [pd_typ d]" using assms(2,3) by (intro Pattern_Detect_ok) simp_all
  then show ?thesis unfolding custom_detector_def by (rule simple_sound)
qed

section \<open>A collection over sound detectors\<close>

lemma collect_loop_succeeds:
  assumes "valid_string input" and "live_ctx w" and "\<forall>p \<in> set ds. sound_detector (fst p)"
  shows "\<exists>r w'. collect_loop ds input (normalizeText input) wanted c cv out w = (Inr r, w')"
  using assms(2,3)
proof (induction ds arbitrary: cv out w)
  case (Cons dt ds)
  obtain d ts where dt: "dt = (d, ts)" by force
  then have "sound_detector d" using Cons.prems(2) by simp
  from sound_detector.append_succeeds [OF this assms(1)]
  obtain fs where fs: "detectorFindings d (n_text (normalizeText input)) c = Some fs"
    "\<And>wanted out. \<exists>out'. appendOriginalFindings out input (normalizeText input) wanted fs = Inr out'" by blast
  obtain out' where out': "appendOriginalFindings out input (normalizeText input) wanted fs = Inr out'" using fs(2) by blast
  have live: "ctx_Err v = (None, v\<lparr>w_polls := Suc (w_polls v)\<rparr>)" "live_ctx (v\<lparr>w_polls := Suc (w_polls v)\<rparr>)"
    if "live_ctx v" for v :: "'a world_scheme"
    using that by (simp_all add: ctx_Err_def live_ctx_def)
  have IH: "\<exists>r w'. collect_loop ds input (normalizeText input) wanted c cov o' v = (Inr r, w')" if "live_ctx v" for cov o' and v :: "'a world_scheme"
    using Cons.IH [OF that] Cons.prems(2) by simp
  note l1 = live [OF Cons.prems(1)] and l2 = live [OF live(2) [OF Cons.prems(1)]]
  show ?case
    using IH [OF l1(2)] IH [OF l2(2)]
    by (cases "coverRequested ts wanted cv") (auto simp: dt l1(1) l2(1) fs(1) out' split: bool.splits)
qed simp

lemma collect_loop_covers:
  assumes "collect_loop ds input (normalizeText input) wanted c cv out w = (Inr (cov, out'), w')"
    and "t \<in> set wanted" and "(d, ts) \<in> set ds" and "t \<in> set ts"
  shows "t \<in> set cov"
  using collect_loop_complete [OF assms(1)] assms(2-4) by auto

lemma collect_succeeds:
  assumes "valid_string input" and "live_ctx w" and "\<And>d. d \<in> set ds \<Longrightarrow> sound_detector d"
    and "\<forall>t \<in> set (requestedTypes (NewRegistry ds) types). \<exists>d \<in> set ds. t \<in> set (SupportedTypes d)"
  shows "\<exists>out w'. collect (NewRegistry ds) input types c w = (Inr out, w')"
proof -
  let ?r = "NewRegistry ds"
  let ?wanted = "requestedTypes ?r types"
  let ?zs = "zip (r_detectors ?r) (r_supported ?r)"
  have zs: "set ?zs = (\<lambda>d. (d, SupportedTypes d)) ` set ds"
    by (simp add: NewRegistry_def Let_def) (induction ds, auto)
  then have "\<forall>p \<in> set ?zs. sound_detector (fst p)" using assms(3) by auto
  from collect_loop_succeeds [OF assms(1,2) this, where wanted = ?wanted and c = c and cv = "[]" and out = "[]"]
  obtain p w' where p: "collect_loop ?zs input (normalizeText input) ?wanted c [] [] w = (Inr p, w')" by blast
  obtain cov out where loop: "collect_loop ?zs input (normalizeText input) ?wanted c [] [] w = (Inr (cov, out), w')"
    using p by (cases p) simp
  have "t \<in> set cov" if t: "t \<in> set ?wanted" for t
  proof -
    obtain d where d: "d \<in> set ds" "t \<in> set (SupportedTypes d)" using assms(4) t by blast
    then have "(d, SupportedTypes d) \<in> set ?zs" using zs by auto
    from collect_loop_covers [OF loop t this d(2)] show ?thesis .
  qed
  then have "list_all (\<lambda>t. t \<in> set cov) ?wanted" by (simp add: list_all_iff)
  then show ?thesis using assms(1) loop by (simp add: collect_def Let_def)
qed

section \<open>Properties\<close>

lemma builtin_types: "set AllTypes \<subseteq> (\<Union>d \<in> set All. set (SupportedTypes d))"
  by (simp add: All_def AllTypes_def SupportedTypes_def simple_detector_def CardHolderDetector_def FullNameDetector_def
      DateDetector_def PlaceOfBirthDetector_def PassportDetector_def CitizenshipDetector_def DriverLicenseDetector_def
      AddressDetector_def EmailDetector_def PhoneDetector_def INNDetector_def CardNumberDetector_def CVVDetector_def
      CardPINDetector_def)

lemma requested_supported:
  assumes "\<forall>ts. types = Some ts \<longrightarrow> set ts \<subseteq> set AllTypes"
  shows "\<forall>t \<in> set (requestedTypes (NewRegistry All) types). \<exists>d \<in> set All. t \<in> set (SupportedTypes d)"
  using assms builtin_types by (cases types) (auto simp: requestedTypes_def NewRegistry_def Let_def)

text \<open>
  C32. The built-in detectors never fail a request: on every valid text, for every choice of known categories (or all), with
  and without weak candidates, a collection that is not cancelled succeeds. No detector panics, reports a span that
  cuts a rune or a confidence out of range, and no known category is without a detector.
\<close>

theorem builtin_collect_succeeds:
  assumes "valid_string input" and "live_ctx w" and "\<forall>ts. types = Some ts \<longrightarrow> set ts \<subseteq> set AllTypes"
  shows "\<exists>out w'. collect (NewRegistry All) input types c w = (Inr out, w') \<and>
    (\<forall>f \<in> set out. finding_ok input f \<and> f_Value f = span input (f_Start f) (f_End f))"
proof -
  obtain out w' where c: "collect (NewRegistry All) input types c w = (Inr out, w')"
    using collect_succeeds [OF assms(1,2) All_sound requested_supported [OF assms(3)]] by blast
  with collect_ok [OF c] show ?thesis by (auto simp: collected_ok_def)
qed

theorem builtin_collect_succeeds_witness:
  "\<exists>out w'. collect (NewRegistry All) ''tel 8 999 123-45-67'' (Some [TypePhone, TypeEmail]) True sample_world = (Inr out, w') \<and>
    (\<forall>f \<in> set out. finding_ok ''tel 8 999 123-45-67'' f \<and>
      f_Value f = span ''tel 8 999 123-45-67'' (f_Start f) (f_End f))"
  by (rule builtin_collect_succeeds) (simp_all add: live_ctx_def sample_world_def AllTypes_def byte_def)

end
