(* ===== verification/Detector_Properties.thy ===== *)
theory Detector_Properties
  imports All_Detectors
begin

text \<open>
  Properties of single detectors beyond the common contract: the checksum of card numbers, the
  choice of the nearest marker, the extent of a value behind a label, and names.
\<close>

section \<open>The checksum of card numbers\<close>

definition luhn_digit :: "bool \<Rightarrow> char \<Rightarrow> nat" where
  "luhn_digit double c =
     (let d = digit_value c in if double then (if d * 2 > 9 then d * 2 - 9 else d * 2) else d)"

definition decimal_digit :: "char \<Rightarrow> bool" where
  "decimal_digit c \<longleftrightarrow> isDigit (byte c)"

lemma luhn_sum_Cons: "luhn_sum b (c # s) = luhn_digit b c + luhn_sum (\<not> b) s"
  by (simp add: luhn_digit_def Let_def)

lemma luhn_sum_append: "luhn_sum b (s @ t) = luhn_sum b s + luhn_sum (if even (length s) then b else \<not> b) t"
  by (induction s arbitrary: b) (simp_all add: luhn_sum_Cons del: luhn_sum.simps(2))

lemma digit_value_eq: "decimal_digit c \<Longrightarrow> digit_value c = byte c - 48 \<and> 48 \<le> byte c \<and> byte c \<le> 57"
  by (auto simp: decimal_digit_def isDigit_def digit_value_def mod_if)

lemma digit_value_bound: "decimal_digit c \<Longrightarrow> digit_value c < 10"
  using digit_value_eq [of c] by auto

lemma digit_value_inject:
  assumes "decimal_digit c" and "decimal_digit d" and "digit_value c = digit_value d"
  shows "c = d"
proof -
  have "byte c = byte d" using digit_value_eq [OF assms(1)] digit_value_eq [OF assms(2)] assms(3) by linarith
  then show ?thesis by (metis char_of_byte)
qed

text \<open>The sum of the digits of twice a digit.\<close>

definition doubled :: "nat \<Rightarrow> nat" where
  "doubled x = (if x * 2 > 9 then x * 2 - 9 else x * 2)"

lemma doubled_table:
  "list_all (\<lambda>x. list_all (\<lambda>y. x = y \<or>
     doubled x mod 10 \<noteq> doubled y mod 10 \<and>
     (x = 0 \<and> y = 9 \<or> x = 9 \<and> y = 0 \<or> (x + doubled y) mod 10 \<noteq> (y + doubled x) mod 10)) [0..<10]) [0..<10]"
  by code_simp

lemma doubled_inject:
  assumes "x < 10" and "y < 10" and "x \<noteq> y"
  shows "doubled x mod 10 \<noteq> doubled y mod 10"
proof -
  have "x \<in> set [0..<10]" "y \<in> set [0..<10]" using assms by simp_all
  with doubled_table assms(3) show ?thesis unfolding list_all_iff by blast
qed

lemma doubled_swap:
  assumes "x < 10" and "y < 10" and "x \<noteq> y" and "\<not> (x = 0 \<and> y = 9)" and "\<not> (x = 9 \<and> y = 0)"
  shows "(x + doubled y) mod 10 \<noteq> (y + doubled x) mod 10"
proof -
  have "x \<in> set [0..<10]" "y \<in> set [0..<10]" using assms by simp_all
  with doubled_table assms(3-5) show ?thesis unfolding list_all_iff by blast
qed

lemma luhn_digit_eq: "luhn_digit b c = (if b then doubled (digit_value c) else digit_value c)"
  by (simp add: luhn_digit_def doubled_def Let_def)

lemma luhn_digit_inject:
  assumes "decimal_digit c" and "decimal_digit d" and "c \<noteq> d"
  shows "luhn_digit b c mod 10 \<noteq> luhn_digit b d mod 10"
proof -
  have "digit_value c \<noteq> digit_value d" using digit_value_inject assms by blast
  with doubled_inject digit_value_bound [OF assms(1)] digit_value_bound [OF assms(2)] show ?thesis
    by (simp add: luhn_digit_eq)
qed

lemma luhn_digit_swap:
  assumes "decimal_digit c" and "decimal_digit d" and "c \<noteq> d" and "{c, d} \<noteq> {CHR ''0'', CHR ''9''}"
  shows "(luhn_digit b d + luhn_digit (\<not> b) c) mod 10 \<noteq> (luhn_digit b c + luhn_digit (\<not> b) d) mod 10"
proof -
  have ends: "digit_value (CHR ''0'') = 0" "digit_value (CHR ''9'') = 9" "decimal_digit (CHR ''0'')" "decimal_digit (CHR ''9'')"
    by (simp_all add: digit_value_def decimal_digit_def isDigit_def byte_def)
  let ?x = "digit_value c" and ?y = "digit_value d"
  have neq: "?x \<noteq> ?y" using digit_value_inject assms(1-3) by blast
  have "\<not> (?x = 0 \<and> ?y = 9)" "\<not> (?x = 9 \<and> ?y = 0)"
    using digit_value_inject [OF assms(1)] digit_value_inject [OF assms(2)] ends assms(4) by (metis insert_commute)+
  from doubled_swap [OF digit_value_bound [OF assms(1)] digit_value_bound [OF assms(2)] neq this]
  show ?thesis by (cases b) (simp_all add: luhn_digit_eq add.commute)
qed

lemma sum_mod_neq:
  assumes "a mod 10 \<noteq> b mod (10::nat)"
  shows "(x + a + y) mod 10 \<noteq> (x + b + y) mod 10"
proof
  assume "(x + a + y) mod 10 = (x + b + y) mod 10"
  then have "int (x + a + y) mod 10 = int (x + b + y) mod 10" by (metis of_nat_mod of_nat_numeral)
  then have "(10::int) dvd int (x + a + y) - int (x + b + y)" by (simp only: mod_eq_dvd_iff)
  then have "(10::int) dvd int a - int b" by simp
  then have "int a mod 10 = int b mod 10" by (simp only: mod_eq_dvd_iff)
  with assms show False by (metis of_nat_eq_iff of_nat_mod of_nat_numeral)
qed

lemma luhn_sum_digit:
  "luhn_sum False (rev (u @ x # v)) =
   luhn_sum False (rev v) + luhn_digit (odd (length v)) x + luhn_sum (even (length v)) (rev u)"
  by (simp add: luhn_sum_append luhn_sum_Cons del: luhn_sum.simps(2))

lemma luhn_sum_pair:
  "luhn_sum False (rev (u @ x # y # v)) =
   luhn_sum False (rev v) + (luhn_digit (odd (length v)) y + luhn_digit (even (length v)) x) +
     luhn_sum (odd (length v)) (rev u)"
  by (simp add: luhn_sum_append luhn_sum_Cons del: luhn_sum.simps(2))

text \<open>
  C34. The checksum of a card number detects every wrong digit, the check digit included, and every exchange of two
  different neighbours other than 0 and 9: a number that passes does not pass any more after such a
  change.
\<close>

theorem luhn_detects_errors:
  assumes "list_all decimal_digit (u @ c # v)" and "luhn (u @ c # v)"
  shows "(\<forall>e. decimal_digit e \<and> e \<noteq> c \<longrightarrow> \<not> luhn (u @ e # v)) \<and>
    (\<forall>d t. v = d # t \<and> c \<noteq> d \<and> {c, d} \<noteq> {CHR ''0'', CHR ''9''} \<longrightarrow> \<not> luhn (u @ d # c # t))"
proof (intro conjI allI impI; elim conjE)
  fix e assume e: "decimal_digit e" "e \<noteq> c"
  have "decimal_digit c" using assms(1) by simp
  from sum_mod_neq [OF luhn_digit_inject [OF e(1) this e(2)]] assms(2)
  show "\<not> luhn (u @ e # v)" unfolding luhn_def luhn_sum_digit by metis
next
  fix d t assume d: "v = d # t" "c \<noteq> d" "{c, d} \<noteq> {CHR ''0'', CHR ''9''}"
  have digits: "decimal_digit c" "decimal_digit d" using assms(1) d(1) by simp_all
  from sum_mod_neq [OF luhn_digit_swap [OF digits d(2,3), of "odd (length t)"]] assms(2)
  show "\<not> luhn (u @ d # c # t)" unfolding luhn_def d(1) luhn_sum_pair by metis
qed

theorem luhn_detects_errors_witness:
  "\<not> luhn ''4539148803436468'' \<and> \<not> luhn ''4539148803434667''"
proof -
  have n: "luhn ''4539148803436467''"
    by (simp add: luhn_def luhn_digit_def luhn_sum_Cons digit_value_def byte_def del: luhn_sum.simps(2))
  have "\<not> luhn ''4539148803436468''"
    using luhn_detects_errors [of "''453914880343646''" "CHR ''7''" "[]"] n
    by (simp add: decimal_digit_def isDigit_def byte_def)
  moreover have "\<not> luhn ''4539148803434667''"
    using luhn_detects_errors [of "''453914880343''" "CHR ''6''" "''467''"] n
    by (simp add: decimal_digit_def isDigit_def byte_def doubleton_eq_iff)
  ultimately show ?thesis by simp
qed

section \<open>The nearest marker\<close>

text \<open>Where the markers of a group end in a text.\<close>

definition marker_ends :: "bytes \<Rightarrow> pattern list \<Rightarrow> nat set" where
  "marker_ends s markers = (\<Union>re \<in> set markers. rm_end ` set (FindAllStringSubmatchIndex re s))"

lemma foldl_max:
  "e \<le> foldl (\<lambda>e x. max e (f x)) e xs" "x \<in> set xs \<Longrightarrow> f x \<le> foldl (\<lambda>e x. max e (f x)) e xs"
  "foldl (\<lambda>e x. max e (f x)) e xs = e \<or> foldl (\<lambda>e x. max e (f x)) e xs \<in> f ` set xs" for e :: int
proof -
  show a: "e \<le> foldl (\<lambda>e x. max e (f x)) e xs" for e :: int
    by (induction xs arbitrary: e) (auto intro: order_trans [OF max.cobounded1])
  show "x \<in> set xs \<Longrightarrow> f x \<le> foldl (\<lambda>e x. max e (f x)) e xs" for e :: int
  proof (induction xs arbitrary: e)
    case (Cons y xs)
    have "max e (f y) \<le> foldl (\<lambda>e x. max e (f x)) (max e (f y)) xs" for e :: int
      by (induction xs arbitrary: e y) (auto intro: order_trans [OF max.cobounded1])
    then have "f y \<le> foldl (\<lambda>e x. max e (f x)) (max e (f y)) xs" by (rule order_trans [OF max.cobounded2])
    with Cons show ?case by auto
  qed simp
  show "foldl (\<lambda>e x. max e (f x)) e xs = e \<or> foldl (\<lambda>e x. max e (f x)) e xs \<in> f ` set xs" for e :: int
  proof (induction xs arbitrary: e)
    case (Cons x xs)
    from Cons.IH [of "max e (f x)"] show ?case by (auto simp: max_def split: if_splits)
  qed simp
qed

definition ends_from :: "bytes \<Rightarrow> int \<Rightarrow> pattern list \<Rightarrow> int" where
  "ends_from s e markers =
     foldl (\<lambda>e re. foldl (\<lambda>e m. max e (int (rm_end m))) e (FindAllStringSubmatchIndex re s)) e markers"

lemma ends_from_spec:
  "e \<le> ends_from s e ms \<and> (\<forall>n \<in> marker_ends s ms. int n \<le> ends_from s e ms) \<and>
   (ends_from s e ms = e \<or> ends_from s e ms \<in> int ` marker_ends s ms)"
proof (induction ms arbitrary: e)
  case (Cons re ms)
  let ?xs = "FindAllStringSubmatchIndex re s"
  let ?e = "foldl (\<lambda>e m. max e (int (rm_end m))) e ?xs"
  have step: "ends_from s e (re # ms) = ends_from s ?e ms" by (simp add: ends_from_def)
  have ends: "marker_ends s (re # ms) = rm_end ` set ?xs \<union> marker_ends s ms" by (simp add: marker_ends_def)
  note f = foldl_max [where f = "\<lambda>m. int (rm_end m)" and e = e and xs = ?xs]
  from Cons.IH [of ?e] have IH: "?e \<le> ends_from s ?e ms" "\<forall>n \<in> marker_ends s ms. int n \<le> ends_from s ?e ms"
    "ends_from s ?e ms = ?e \<or> ends_from s ?e ms \<in> int ` marker_ends s ms" by simp_all
  have "int n \<le> ends_from s ?e ms" if "n \<in> rm_end ` set ?xs" for n
    using that f(2) IH(1) by (auto intro: order_trans)
  moreover have "ends_from s ?e ms = e \<or> ends_from s ?e ms \<in> int ` (rm_end ` set ?xs \<union> marker_ends s ms)"
    using IH(3) f(3) by (auto simp: image_Un image_image)
  ultimately show ?case unfolding step ends using IH(1,2) f(1) by auto
qed (simp add: ends_from_def marker_ends_def)

lemma lastMarkerEnd_ends_from: "lastMarkerEnd s ms = ends_from s (-1) ms"
  by (simp add: lastMarkerEnd_def ends_from_def)

lemma lastMarkerEnd_spec:
  "-1 \<le> lastMarkerEnd s ms" "n \<in> marker_ends s ms \<Longrightarrow> int n \<le> lastMarkerEnd s ms"
  "lastMarkerEnd s ms = -1 \<or> lastMarkerEnd s ms \<in> int ` marker_ends s ms"
  using ends_from_spec [of "-1" s ms] unfolding lastMarkerEnd_ends_from by auto

lemma best_marker_spec:
  assumes "best_marker s gs gi e g = (e', g')"
  shows "e \<le> e' \<and> (\<forall>h \<in> set gs. lastMarkerEnd s (mg_markers h) \<le> e') \<and>
    (e' = e \<and> g' = g \<or>
     (\<exists>k < length gs. g' = gi + int k \<and> e' = lastMarkerEnd s (mg_markers (gs ! k)) \<and> e < e' \<and>
        (\<forall>h < k. lastMarkerEnd s (mg_markers (gs ! h)) < e')))"
  using assms
proof (induction gs arbitrary: gi e g)
  case (Cons h gs)
  let ?x = "lastMarkerEnd s (mg_markers h)"
  show ?case
  proof (cases "?x > e")
    case True
    with Cons.prems have "best_marker s gs (gi + 1) ?x gi = (e', g')" by (simp add: Let_def)
    from Cons.IH [OF this] show ?thesis
    proof (elim conjE disjE exE)
      assume "?x \<le> e'" "\<forall>h \<in> set gs. lastMarkerEnd s (mg_markers h) \<le> e'" "e' = ?x" "g' = gi"
      with True show ?thesis by (intro conjI disjI2 exI [of _ 0]) auto
    next
      fix k
      assume "?x \<le> e'" "\<forall>h \<in> set gs. lastMarkerEnd s (mg_markers h) \<le> e'" "k < length gs" "g' = gi + 1 + int k"
        "e' = lastMarkerEnd s (mg_markers (gs ! k))" "?x < e'" "\<forall>h < k. lastMarkerEnd s (mg_markers (gs ! h)) < e'"
      with True show ?thesis
        by (intro conjI disjI2 exI [of _ "Suc k"]) (auto simp: less_Suc_eq_0_disj)
    qed
  next
    case False
    with Cons.prems have "best_marker s gs (gi + 1) e g = (e', g')" by (simp add: Let_def)
    from Cons.IH [OF this] show ?thesis
    proof (elim conjE disjE exE)
      assume "e \<le> e'" "\<forall>h \<in> set gs. lastMarkerEnd s (mg_markers h) \<le> e'" "e' = e" "g' = g"
      with False show ?thesis by auto
    next
      fix k
      assume "e \<le> e'" "\<forall>h \<in> set gs. lastMarkerEnd s (mg_markers h) \<le> e'" "k < length gs" "g' = gi + 1 + int k"
        "e' = lastMarkerEnd s (mg_markers (gs ! k))" "e < e'" "\<forall>h < k. lastMarkerEnd s (mg_markers (gs ! h)) < e'"
      with False show ?thesis
        by (intro conjI disjI2 exI [of _ "Suc k"]) (auto simp: less_Suc_eq_0_disj)
    qed
  qed
qed simp

text \<open>The part of the field in front of a position in which markers are sought.\<close>

definition field_start :: "bytes \<Rightarrow> nat \<Rightarrow> nat" where
  "field_start input start = back_runes contextWindow_runes (\<lambda>r. r = 0x3B \<or> r = 0x0A) input start"

text \<open>
  The nearest marker decides, and the answer is exact: the search says that there is no marker (the group -1) only if no
  marker of any group occurs in the field in front of the position; otherwise it names a group with
  a marker that ends at the given position, no marker of any group ends later, and none of an earlier group ends as late.
\<close>

theorem nearest_marker_exact:
  assumes "nearestPrecedingMarkerMatch input start groups = (g, e)"
    and "pref = gslice input (field_start input start) start"
  shows "g = -1 \<and> e = -1 \<and> (\<forall>h \<in> set groups. marker_ends pref (mg_markers h) = {}) \<or>
    (\<exists>k < length groups. g = int k \<and>
       e \<in> (\<lambda>n. int (field_start input start + n)) ` marker_ends pref (mg_markers (groups ! k)) \<and>
       (\<forall>h \<in> set groups. \<forall>n \<in> marker_ends pref (mg_markers h). int (field_start input start + n) \<le> e) \<and>
       (\<forall>h < k. \<forall>n \<in> marker_ends pref (mg_markers (groups ! h)). int (field_start input start + n) < e))"
proof -
  obtain be bg where b: "best_marker pref groups 0 (-1) (-1) = (be, bg)" by force
  note spec = best_marker_spec [OF b]
  have res: "(g, e) = (if bg < 0 then (-1, -1) else (bg, int (field_start input start) + be))"
    using assms(1) b unfolding assms(2) nearestPrecedingMarkerMatch_def field_start_def Let_def by simp
  from spec consider (no) "be = -1" "bg = -1" "\<forall>h \<in> set groups. lastMarkerEnd pref (mg_markers h) \<le> -1"
    | (yes) k where "k < length groups" "bg = int k" "be = lastMarkerEnd pref (mg_markers (groups ! k))" "-1 < be"
      "\<forall>h \<in> set groups. lastMarkerEnd pref (mg_markers h) \<le> be" "\<forall>h < k. lastMarkerEnd pref (mg_markers (groups ! h)) < be"
    by auto
  then show ?thesis
  proof cases
    case no
    have "marker_ends pref (mg_markers h) = {}" if "h \<in> set groups" for h
    proof (rule ccontr)
      assume "marker_ends pref (mg_markers h) \<noteq> {}"
      then obtain n where "n \<in> marker_ends pref (mg_markers h)" by blast
      from lastMarkerEnd_spec(2) [OF this] no(3) that show False by force
    qed
    then show ?thesis using no res by simp
  next
    case yes
    have ge: "g = int k" "e = int (field_start input start) + be" using res yes(2) by auto
    have "be \<in> int ` marker_ends pref (mg_markers (groups ! k))" using lastMarkerEnd_spec(3) yes(3,4) by force
    then have "e \<in> (\<lambda>n. int (field_start input start + n)) ` marker_ends pref (mg_markers (groups ! k))" using ge(2) by auto
    moreover have "int (field_start input start + n) \<le> e" if "h \<in> set groups" "n \<in> marker_ends pref (mg_markers h)" for h n
      using lastMarkerEnd_spec(2) [OF that(2)] yes(5) that(1) ge(2) by fastforce
    moreover have "int (field_start input start + n) < e" if "h < k" "n \<in> marker_ends pref (mg_markers (groups ! h))" for h n
      using lastMarkerEnd_spec(2) [OF that(2)] yes(6) that(1) ge(2) by fastforce
    ultimately show ?thesis using yes(1) ge(1) by blast
  qed
qed

definition code_groups :: "markerGroup list" where
  "code_groups = [\<lparr>mg_typ = 0, mg_markers = cvvMarkers\<rparr>, \<lparr>mg_typ = 1, mg_markers = pinMarkers\<rparr>]"

theorem nearest_marker_exact_witness:
  "\<exists>g e. nearestPrecedingMarkerMatch ''pin 1234 cvv 123'' 13 code_groups = (g, e) \<and>
    (g = -1 \<and> e = -1 \<and> (\<forall>h \<in> set code_groups. marker_ends (gslice ''pin 1234 cvv 123''
        (field_start ''pin 1234 cvv 123'' 13) 13) (mg_markers h) = {}) \<or> g \<in> {0, 1})"
proof -
  let ?m = "nearestPrecedingMarkerMatch ''pin 1234 cvv 123'' 13 code_groups"
  have l: "length code_groups = 2" by (simp add: code_groups_def)
  from nearest_marker_exact [OF surjective_pairing [of ?m] refl] show ?thesis
    unfolding l by (intro exI [of _ "fst ?m"] exI [of _ "snd ?m"]) (auto simp: less_2_cases_iff)
qed

section \<open>The extent of a value behind a label\<close>

text \<open>An ASCII byte in a valid string is a rune of its own.\<close>

lemma ascii_byte_rune:
  assumes "valid_string s" and "c \<in> set s" and "byte c < 0x80"
  shows "byte c \<in> set (runes s)"
  using assms(1,2)
proof (induction rule: valid_string_induct)
  case (Rune r s)
  show ?case
  proof (cases "c \<in> set s")
    case False
    then obtain i where i: "i < length (encode_rune r)" "encode_rune r ! i = c"
      using Rune.prems by (auto simp: in_set_conv_nth)
    have "i = 0" using encode_rune_start [OF i(1)] i(2) assms(3) by (simp add: rune_start_def)
    then obtain t where t: "encode_rune r @ s = c # t" using i by (cases "encode_rune r") auto
    have "decode_rune (c # t) = (byte c, 1)" using assms(3) by (simp add: decode_rune_def)
    then have "r = byte c" using t decode_encode [of r s] Rune.hyps by (metis fst_conv)
    with Rune.hyps show ?thesis by simp
  qed (use Rune in simp)
qed simp

lemma gslice_runes_ascii:
  assumes "valid_string s" and "rune_boundary s a" and "rune_boundary s b" and "a \<le> i" and "i < b" and "byte (s ! i) < 0x80"
  shows "byte (s ! i) \<in> set (runes (gslice s a b))"
proof -
  have b: "b \<le> length s" using assms(3) by (simp add: rune_boundary_def)
  have "gslice s a b ! (i - a) = s ! i" "i - a < length (gslice s a b)" using assms(4,5) b by (auto simp: gslice_def)
  then have "s ! i \<in> set (gslice s a b)" by (metis nth_mem)
  with ascii_byte_rune [OF valid_slice [OF assms(1-3)]] assms(4-6) show ?thesis by simp
qed

lemma scan_while_bytes:
  "valid_string s \<Longrightarrow> rune_boundary s pos \<Longrightarrow> pos \<le> i \<Longrightarrow> i < scan_while p s pos \<Longrightarrow> byte (s ! i) < 0x80 \<Longrightarrow> p (byte (s ! i))"
proof (induction p s pos rule: scan_while.induct)
  case (1 p s pos)
  obtain r w where d: "decode_rune (drop pos s) = (r, w)" by force
  have "scan_while p s pos = (if pos < length s then if p r then scan_while p s (pos + w) else pos else pos)"
    using d by (subst scan_while.simps) simp
  with 1(4,5) have len: "pos < length s" and pr: "p r" and step: "scan_while p s pos = scan_while p s (pos + w)"
    by (auto split: if_splits)
  show ?case
  proof (cases "i < pos + w")
    case True
    have v: "valid_string (drop pos s)" "drop pos s \<noteq> []" using rune_boundary_split [OF 1(2,3)] len by simp_all
    obtain q t where q: "drop pos s = encode_rune q @ t" "valid_rune q" using valid_string_cases [OF v(1)] v(2) by blast
    then have w: "q = r" "w = length (encode_rune q)" using d decode_encode [of q t] by auto
    have "i - pos < length (encode_rune q)" using True 1(4) w(2) by linarith
    then have nth: "s ! i = encode_rune q ! (i - pos)"
      using True 1(4) len w(2) arg_cong [OF q(1), of "\<lambda>u. u ! (i - pos)"] by (simp add: nth_append)
    have "i - pos = 0"
      using encode_rune_start [of "i - pos" q] nth 1(6) True 1(4) w(2) by (simp add: rune_start_def)
    then have "i = pos" using 1(4) by simp
    then obtain u where "drop pos s = s ! i # u" using len by (metis Cons_nth_drop_Suc)
    with d 1(6) have "r = byte (s ! i)" by (simp add: decode_rune_def)
    with pr show ?thesis by simp
  next
    case False
    have "rune_boundary s (pos + w)" using decode_boundary [OF 1(2,3) len] d by simp
    with 1(1) [OF len d [symmetric] pr 1(2)] False 1(5,6) step show ?thesis by simp
  qed
qed

definition separator_free :: "bytes \<Rightarrow> nat \<Rightarrow> nat \<Rightarrow> bool" where
  "separator_free s a b \<longleftrightarrow> (\<forall>i. a \<le> i \<and> i < b \<longrightarrow> s ! i \<notin> {CHR '';'', CHR 0x0A})"

lemma separator_free_join: "separator_free s a b \<Longrightarrow> separator_free s b c \<Longrightarrow> separator_free s a c"
  unfolding separator_free_def by (meson not_le)

lemma separator_byte: "c \<in> {CHR '';'', CHR 0x0A} \<longleftrightarrow> byte c = 0x3B \<or> byte c = 0x0A"
proof -
  have "char_of (0x3B :: nat) = CHR '';''" "char_of (0x0A :: nat) = CHR 0x0A" by code_simp+
  then have "c = CHR '';''" if "byte c = 0x3B" using char_of_byte [of c] that by metis
  moreover have "c = CHR 0x0A" if "byte c = 0x0A" using char_of_byte [of c] that
    \<open>char_of (0x0A :: nat) = CHR 0x0A\<close> by metis
  ultimately show ?thesis by (auto simp: byte_def)
qed

lemma letters_separator_free:
  assumes "valid_string s" and "rune_boundary s pos"
  shows "separator_free s pos (scanLetters s pos True)"
  unfolding separator_free_def separator_byte
proof (intro allI impI notI)
  fix i assume i: "pos \<le> i \<and> i < scanLetters s pos True" and "byte (s ! i) = 0x3B \<or> byte (s ! i) = 0x0A"
  moreover have "isLetter (byte (s ! i)) = True" if "byte (s ! i) < 0x80"
    using scan_while_bytes [OF assms, of i "\<lambda>r. isLetter r = True"] i that by (simp add: scanLetters_def)
  ultimately show False by (auto simp: isLetter_def isCyrillic_def isLatin_def)
qed

lemma gap_separator_free:
  assumes "valid_string s" and "rune_boundary s a" and "rune_boundary s b" and "\<not> strings_ContainsAny (gslice s a b) [0x3B, 0x0A]"
  shows "separator_free s a b"
  unfolding separator_free_def separator_byte
proof (intro allI impI notI)
  fix i assume i: "a \<le> i \<and> i < b" and c: "byte (s ! i) = 0x3B \<or> byte (s ! i) = 0x0A"
  then have "byte (s ! i) \<in> set (runes (gslice s a b))" using gslice_runes_ascii [OF assms(1-3), of i] by auto
  with c assms(4) show False by (auto simp: strings_ContainsAny_def list_ex_iff)
qed

text \<open>The state of the scan for a value without numbers of offices.\<close>

definition value_ok :: "nat \<Rightarrow> labelScanner \<Rightarrow> bool" where
  "value_ok start s \<longleftrightarrow> rune_boundary (ls_input s) (ls_pos s) \<and> start \<le> ls_pos s \<and>
     (ls_count s = 0 \<longrightarrow> ls_start s < 0) \<and>
     (ls_count s > 0 \<longrightarrow> ls_end s = int (ls_pos s) \<and> int start \<le> ls_start s \<and>
        separator_free (ls_input s) (nat (ls_start s)) (ls_pos s))"

lemma label_step_value:
  assumes "label_step skip False s = Some s'" and "valid_string (ls_input s)" and "value_ok start s"
  shows "value_ok start s'"
proof (rule label_step_word [OF assms(1)])
  fix a b s1
  assume w: "ls_pos s \<le> a" "a < b" "b \<le> length (ls_input s)" "a = scanLetters (ls_input s) (ls_pos s) False"
    "b = scanLetters (ls_input s) a True" and s1: "acceptWord s a b skip = Some s1"
    and s': "s' = (if False then acceptIssuerNumber s1 else s1)"
  have a: "rune_boundary (ls_input s) a"
    using assms(2,3) w(4) scan_while_boundary by (simp add: value_ok_def scanLetters_def)
  have b: "rune_boundary (ls_input s) b" using assms(2) a w(5) scan_while_boundary by (simp add: scanLetters_def)
  have "\<not> endsAtGap s (gslice (ls_input s) (ls_pos s) a)"
    using assms(1) w(4) unfolding label_step_def Let_def by (auto split: if_splits)
  then have "\<not> strings_ContainsAny (gslice (ls_input s) (ls_pos s) a) [0x3B, 0x0A]"
    by (auto simp: endsAtGap_def split: if_splits)
  then have gap: "separator_free (ls_input s) (ls_pos s) a"
    using gap_separator_free [OF assms(2) _ a] assms(3) by (simp add: value_ok_def)
  have word: "separator_free (ls_input s) a b" using letters_separator_free [OF assms(2) a] w(5) by simp
  from acceptWord_cases [OF s1] show ?thesis
  proof
    assume "s1 = s\<lparr>ls_skippedPrefix := True, ls_pos := b\<rparr> \<and> ls_count s = 0"
    then show ?thesis using s' b w(1,2) assms(3) by (auto simp: value_ok_def)
  next
    assume new: "s1 = s\<lparr>ls_start := if ls_start s < 0 then int a else ls_start s, ls_end := int b, ls_pos := b,
      ls_count := ls_count s + 1\<rparr>"
    have start: "start \<le> a" "start \<le> b" using assms(3) w(1,2) by (auto simp: value_ok_def)
    have "separator_free (ls_input s) (nat (ls_start s)) b" if "\<not> ls_start s < 0"
      using assms(3) that separator_free_join [OF separator_free_join [OF _ gap] word] by (auto simp: value_ok_def)
    then show ?thesis using new s' b word start assms(3) by (auto simp: value_ok_def)
  qed
qed

lemma label_loop_value:
  "valid_string (ls_input s) \<Longrightarrow> value_ok start s \<Longrightarrow>
   value_ok start (label_loop m skip False s) \<and> ls_input (label_loop m skip False s) = ls_input s"
proof (induction m skip False s rule: label_loop.induct)
  case (1 m skip s)
  show ?case
  proof (cases "ls_count s < m \<and> ls_pos s < length (ls_input s)")
    case True
    show ?thesis
    proof (cases "label_step skip False s")
      case None
      with True 1(2,3) show ?thesis by (subst (1 2) label_loop.simps) simp
    next
      case (Some s')
      have "ls_input s' = ls_input s" using label_step_progress [OF Some] by simp
      moreover have "label_loop m skip False s = label_loop m skip False s'" using True Some by (subst label_loop.simps) simp
      ultimately show ?thesis using 1(1) [OF True Some] label_step_value [OF Some 1(2,3)] 1(2) by simp
    qed
  next
    case False
    then have "label_loop m skip False s = s" by (subst label_loop.simps) auto
    with 1(2,3) show ?thesis by simp
  qed
qed

text \<open>
  C33. A value behind a label stays in its field: it starts behind the label, is not blank, ends at most 512 bytes behind
  the label, cuts no rune, and neither a semicolon nor a line feed lies in it, so that the value of one field
  is never reported together with the text of the next one.
\<close>

theorem labelled_value_in_field:
  assumes "valid_string input" and "rune_boundary input start"
    and "collectLabeledWords input start m skip = (a, b, True)"
  shows "int start \<le> a \<and> a < b \<and> b \<le> int start + 512 \<and>
    rune_boundary input (nat a) \<and> rune_boundary input (nat b) \<and>
    strings_Fields (gslice input (nat a) (nat b)) \<noteq> [] \<and> separator_free input (nat a) (nat b)"
proof -
  let ?in = "boundedLabelInput input start"
  define s0 where "s0 = \<lparr>ls_input = ?in, ls_pos = labelValueStart ?in start, ls_start = -1, ls_end = -1, ls_count = 0, ls_skippedPrefix = False\<rparr>"
  define s1 where "s1 = label_loop m skip False s0"
  have ab: "ls_start s1 = a" "ls_end s1 = b" "0 < ls_count s1"
    using assms(3) by (auto simp: collectLabeledWords_def collectLabelValue_def Let_def s1_def s0_def)
  note bd = boundedLabelInput_ok [OF assms(1,2)] and ok = collectLabeledWords_ok [OF assms]
  have "value_ok start s0"
    using bd scan_while_boundary scan_while_ge by (simp add: value_ok_def labelValueStart_def s0_def)
  with label_loop_value [of s0 start m skip] bd have s1: "value_ok start s1" "ls_input s1 = ?in" by (auto simp: s1_def s0_def)
  then have pos: "nat b = ls_pos s1" "int start \<le> a" "separator_free ?in (nat a) (nat b)" "nat b \<le> length ?in"
    using ab ok by (auto simp: value_ok_def rune_boundary_def)
  have "length ?in \<le> start + 512"
  proof (cases "length input - start \<le> 512")
    case False
    then have "rune_start_down input (start + 512) start \<le> start + 512"
      using rune_start_down_ok [OF assms(2), of "start + 512"] by auto
    then show ?thesis using False by (simp add: boundedLabelInput_def)
  qed (simp add: boundedLabelInput_def)
  with pos(4) have "b \<le> int start + 512" using ok by linarith
  moreover have "separator_free input (nat a) (nat b)"
    using pos(3,4) by (auto simp: separator_free_def boundedLabelInput_def split: if_splits)
  ultimately show ?thesis using ok pos(2) labelled_not_blank [OF assms] by blast
qed

lemma ascii_decode: "byte c < 0x80 \<Longrightarrow> decode_rune (c # s) = (byte c, 1)"
  by (simp add: decode_rune_def)

lemma labelled_sample: "collectLabeledWords ''fio: Bob;x'' 3 1 [] = (5, 8, True)"
proof -
  let ?in = "''fio: Bob;x''"
  let ?st = "\<lparr>ls_input = ?in, ls_pos = 5, ls_start = -1, ls_end = -1, ls_count = 0, ls_skippedPrefix = False\<rparr>"
  have 1: "boundedLabelInput ?in 3 = ?in" by (simp add: boundedLabelInput_def)
  have 2: "labelValueStart ?in 3 = 5"
    by (simp add: labelValueStart_def scan_while.simps [of _ _ 3] scan_while.simps [of _ _ 4] scan_while.simps [of _ _ 5] ascii_decode byte_def unicode_IsSpace_def white_space_table_def)
  have 3: "scanLetters ?in 5 False = 5"
    by (simp add: scanLetters_def scan_while.simps [of _ _ 5] ascii_decode byte_def isLetter_def isLatin_def)
  have 4: "scanLetters ?in 5 True = 8"
    by (simp add: scanLetters_def scan_while.simps [of _ _ 5] scan_while.simps [of _ _ 6] scan_while.simps [of _ _ 7] scan_while.simps [of _ _ 8] ascii_decode byte_def isLetter_def isLatin_def isCyrillic_def)
  have 5: "label_step [] False ?st = Some (?st\<lparr>ls_start := 5, ls_end := 8, ls_pos := 8, ls_count := 1\<rparr>)"
    using 3 4 by (simp add: label_step_def acceptWord_def endsAtGap_def strings_ContainsAny_def allLatinLetters_def gslice_def isLatin_def byte_def Let_def)
  have "label_loop 1 [] False ?st = ?st\<lparr>ls_start := 5, ls_end := 8, ls_pos := 8, ls_count := 1\<rparr>"
    using 5 by (subst label_loop.simps, simp) (subst label_loop.simps, simp)
  with 1 2 show ?thesis by (simp add: collectLabeledWords_def collectLabelValue_def)
qed

theorem labelled_value_in_field_witness:
  "collectLabeledWords ''fio: Bob;x'' 3 1 [] = (5, 8, True) \<and> separator_free ''fio: Bob;x'' 5 8 \<and> (8::int) \<le> int 3 + 512"
  using labelled_value_in_field [OF _ _ labelled_sample] labelled_sample
  by (simp add: byte_def rune_boundary_def rune_start_def)

section \<open>Names\<close>

text \<open>
  A candidate runs from one word to another. Without a label in front it has two words at least. Only an
  unlabelled pair may need an anchor, and it is weak.
\<close>

definition name_evidence_ok :: "wordTok list \<Rightarrow> Finding \<Rightarrow> bool" where
  "name_evidence_ok words f \<longleftrightarrow>
     (\<exists>u \<in> set words. \<exists>v \<in> set words.
        f_Start f = int (wt_start u) \<and> f_End f = int (wt_end v) \<and>
        (f_Evidence f AND EvidenceLabel = 0 \<longrightarrow> wt_end u \<le> wt_start v)) \<and>
     (f_Confidence f = ConfidenceHigh \<or> f_Confidence f = NameCandidateConfidence) \<and>
     (f_Evidence f AND EvidenceRequiresAnchor \<noteq> 0 \<longrightarrow>
        f_Confidence f = NameCandidateConfidence \<and> f_Evidence f AND EvidenceLabel = 0)"

lemma evidence_bits:
  "(if t then (if l then (if r then (0 :: Evidence) OR EvidenceRequiresAnchor else 0) OR EvidenceLabel
       else (if r then 0 OR EvidenceRequiresAnchor else 0)) OR EvidenceTrap
    else (if l then (if r then 0 OR EvidenceRequiresAnchor else 0) OR EvidenceLabel
       else (if r then 0 OR EvidenceRequiresAnchor else 0))) AND EvidenceLabel = 0 \<longleftrightarrow> \<not> l"
  "(if t then (if l then (if r then (0 :: Evidence) OR EvidenceRequiresAnchor else 0) OR EvidenceLabel
       else (if r then 0 OR EvidenceRequiresAnchor else 0)) OR EvidenceTrap
    else (if l then (if r then 0 OR EvidenceRequiresAnchor else 0) OR EvidenceLabel
       else (if r then 0 OR EvidenceRequiresAnchor else 0))) AND EvidenceRequiresAnchor = 0 \<longleftrightarrow> \<not> r"
  by (simp_all add: EvidenceRequiresAnchor_def EvidenceLabel_def EvidenceTrap_def)

lemma nameConfidence_labelled: "2 \<le> length ws \<Longrightarrow> nameConfidence ws True = ConfidenceHigh"
  by (simp add: nameConfidence_def)

lemma nameConfidence_values: "nameConfidence ws l \<in> {0, ConfidenceHigh, NameCandidateConfidence}"
  by (simp add: nameConfidence_def)

lemma nameConfidence_single: "length ws < 2 \<Longrightarrow> nameConfidence ws False = 0"
  by (simp add: nameConfidence_def)

lemma candidate_shape:
  assumes "nameCandidate s ws = Some (f, n)" and "ws \<noteq> []"
  obtains conf e l r where "f = (name_finding s (wt_start (ws ! 0)) (wt_end (ws ! (n - 1))))\<lparr>f_Confidence := conf, f_Evidence := e\<rparr>"
    "conf = ConfidenceHigh \<or> conf = NameCandidateConfidence" "1 \<le> n" "n \<le> length ws"
    "e AND EvidenceLabel = 0 \<longleftrightarrow> \<not> l" "e AND EvidenceRequiresAnchor = 0 \<longleftrightarrow> \<not> r"
    "r \<Longrightarrow> conf = NameCandidateConfidence \<and> \<not> l" "\<not> l \<Longrightarrow> 2 \<le> n"
proof -
  define strong where "strong = markerImmediatelyBefore s (wt_start (ws ! 0)) strongMarkers"
  define weak where "weak = (\<not> strong \<and> markerImmediatelyBefore s (wt_start (ws ! 0)) weakMarkers)"
  define c where "c = nameConfidence (take n ws) (strong \<or> weak)"
  define r where "r = (c = 0 \<and> contextualNamePair s ws n)"
  define conf where "conf = (if r then NameCandidateConfidence else c)"
  define t where "t = (\<not> strong \<and> hasTrapName (take n ws))"
  let ?e = "if t then (if strong \<or> weak then (if r then (0 :: Evidence) OR EvidenceRequiresAnchor else 0) OR EvidenceLabel
       else (if r then 0 OR EvidenceRequiresAnchor else 0)) OR EvidenceTrap
    else (if strong \<or> weak then (if r then 0 OR EvidenceRequiresAnchor else 0) OR EvidenceLabel
       else (if r then 0 OR EvidenceRequiresAnchor else 0))"
  have n: "n = nameWordCount s ws strong" and conf: "conf \<noteq> 0"
    and start: "(\<not> nameStart (wt_text (ws ! 0))) = False" "(\<not> nameCapitalized (wt_text (ws ! 0)) \<and> \<not> strong) = False"
    using assms(1) unfolding nameCandidate_def Let_def strong_def [symmetric]
    by (auto simp: c_def r_def conf_def weak_def split: if_splits)
  let ?g = "(name_finding s (wt_start (ws ! 0)) (wt_end (ws ! (n - 1))))\<lparr>f_Confidence := conf\<rparr>"
  let ?g1 = "if r then ?g\<lparr>f_Evidence := f_Evidence ?g OR EvidenceRequiresAnchor\<rparr> else ?g"
  let ?g2 = "if strong \<or> weak then ?g1\<lparr>f_Evidence := f_Evidence ?g1 OR EvidenceLabel\<rparr> else ?g1"
  have "f = (if t then ?g2\<lparr>f_Evidence := f_Evidence ?g2 OR EvidenceTrap\<rparr> else ?g2)"
    using assms(1) unfolding nameCandidate_def Let_def strong_def [symmetric] weak_def [symmetric] n [symmetric]
      c_def [symmetric] r_def [symmetric] conf_def [symmetric] t_def [symmetric]
    by (simp only: start conf if_False option.inject prod.inject)
  then have f: "f = (name_finding s (wt_start (ws ! 0)) (wt_end (ws ! (n - 1))))\<lparr>f_Confidence := conf, f_Evidence := ?e\<rparr>"
    by (cases t; cases "strong \<or> weak"; cases r) (simp_all add: name_finding_def report_def)
  note b = nameWordCount_bounds [OF assms(2), of s strong, folded n]
  have two: "r \<Longrightarrow> n = 2" by (auto simp: r_def contextualNamePair_def split: if_splits)
  have "\<not> (strong \<or> weak)" if r
  proof
    assume l: "strong \<or> weak"
    have "2 \<le> length (take n ws)" using two [OF that] b by simp
    from nameConfidence_labelled [OF this] l have "c = ConfidenceHigh" unfolding c_def by simp
    moreover have "c = 0" using that unfolding r_def by blast
    ultimately show False by (simp add: score_defs)
  qed
  moreover have "2 \<le> n" if "\<not> (strong \<or> weak)"
  proof (rule ccontr)
    assume "\<not> 2 \<le> n"
    then have "length (take n ws) < 2" "\<not> r" using two by auto
    with that nameConfidence_single [of "take n ws"] have "c = 0" unfolding c_def by simp
    with conf \<open>\<not> r\<close> show False by (simp add: conf_def)
  qed
  moreover have "conf = ConfidenceHigh \<or> conf = NameCandidateConfidence"
    using conf nameConfidence_values [of "take n ws" "strong \<or> weak"] unfolding conf_def c_def [symmetric]
    by (cases r) auto
  ultimately show ?thesis
    using that [OF f _ _ _ evidence_bits [of t "strong \<or> weak" r]] b by (simp add: conf_def)
qed

lemma name_evidence_mono: "name_evidence_ok ws f \<Longrightarrow> set ws \<subseteq> set ws' \<Longrightarrow> name_evidence_ok ws' f"
  unfolding name_evidence_ok_def by blast

lemma candidate_evidence:
  assumes "nameCandidate s ws = Some (f, n)" and "toks_ok s ws" and "ws \<noteq> []"
  shows "name_evidence_ok ws f" and "f_Start f = int (wt_start (ws ! 0))" and "f_End f = int (wt_end (ws ! (n - 1)))"
    and "1 \<le> n \<and> n \<le> length ws"
proof -
  obtain conf e l r where f: "f = (name_finding s (wt_start (ws ! 0)) (wt_end (ws ! (n - 1))))\<lparr>f_Confidence := conf, f_Evidence := e\<rparr>"
    and c: "conf = ConfidenceHigh \<or> conf = NameCandidateConfidence" and n: "1 \<le> n" "n \<le> length ws"
    and e: "e AND EvidenceLabel = 0 \<longleftrightarrow> \<not> l" "e AND EvidenceRequiresAnchor = 0 \<longleftrightarrow> \<not> r"
      "r \<Longrightarrow> conf = NameCandidateConfidence \<and> \<not> l" "\<not> l \<Longrightarrow> 2 \<le> n"
    by (rule candidate_shape [OF assms(1,3)]) blast
  show fs: "f_Start f = int (wt_start (ws ! 0))" "f_End f = int (wt_end (ws ! (n - 1)))"
    using f by (simp_all add: name_finding_def report_def)
  show "1 \<le> n \<and> n \<le> length ws" using n by simp
  have "wt_end (ws ! 0) \<le> wt_start (ws ! (n - 1))" if "\<not> l"
    using assms(2) sorted_wrt_nth_less [of "\<lambda>a b. wt_end a \<le> wt_start b" ws 0 "n - 1"] e(4) [OF that] n by (simp add: toks_ok_def)
  moreover have "ws ! 0 \<in> set ws" "ws ! (n - 1) \<in> set ws" using n assms(3) by (auto intro!: nth_mem)
  moreover have "f_Evidence f = e" "f_Confidence f = conf" using f by simp_all
  ultimately show "name_evidence_ok ws f" unfolding name_evidence_ok_def using fs c e(1-3) by metis
qed

lemma candidates_loop_names:
  "toks_ok s ws \<Longrightarrow>
   sorted_wrt (\<lambda>f g. f_End f \<le> f_Start g) (candidates_loop s ws) \<and>
   (\<forall>f \<in> set (candidates_loop s ws). name_evidence_ok ws f)"
proof (induction s ws rule: candidates_loop.induct)
  case (2 s w ws)
  have tail: "toks_ok s (drop k ws)" for k using toks_ok_drop [OF 2(3), of "Suc k"] by simp
  show ?case
  proof (cases "nameCandidate s (w # ws)")
    case None
    with 2(1) [OF None] tail [of 0] show ?thesis by (auto intro: name_evidence_mono)
  next
    case (Some p)
    obtain g n where p: "p = (g, n)" by force
    with Some have c: "nameCandidate s (w # ws) = Some (g, n)" by simp
    note ev = candidate_evidence [OF c 2(3)]
    let ?rest = "drop (n - 1) ws"
    from 2(2) [OF Some p [symmetric] tail] have IH: "sorted_wrt (\<lambda>f g. f_End f \<le> f_Start g) (candidates_loop s ?rest)"
      "\<forall>f \<in> set (candidates_loop s ?rest). name_evidence_ok ?rest f" by simp_all
    have "f_End g \<le> f_Start f" if f: "f \<in> set (candidates_loop s ?rest)" for f
    proof -
      obtain u where u: "u \<in> set ?rest" "f_Start f = int (wt_start u)" using IH(2) f unfolding name_evidence_ok_def by blast
      then obtain i where i: "u = (w # ws) ! (n + i)" "n + i < length (w # ws)"
        using ev(4) by (auto simp: in_set_conv_nth nth_Cons' less_diff_conv intro!: that)
      have "wt_end ((w # ws) ! (n - 1)) \<le> wt_start ((w # ws) ! (n + i))"
        using 2(3) i(2) ev(4) sorted_wrt_nth_less [of "\<lambda>a b. wt_end a \<le> wt_start b" "w # ws" "n - 1" "n + i"]
        by (simp add: toks_ok_def del: sorted_wrt.simps)
      with ev(3) u(2) i(1) show ?thesis by simp
    qed
    moreover have "name_evidence_ok (w # ws) f" if "f \<in> set (candidates_loop s ?rest)" for f
      using IH(2) that name_evidence_mono [of ?rest f "w # ws"] set_drop_subset [of "n - 1" ws] by auto
    ultimately show ?thesis using c IH(1) ev(1) by auto
  qed
qed simp

text \<open>
  The names that the detector proposes are disjoint and come in the order of the text; each runs from one of its
  words to another. A name without a label in front has at least two words, and only an unlabelled
  weak pair is marked as needing an anchor.
\<close>

theorem name_candidates_in_order:
  assumes "valid_string s"
  shows "sorted_wrt (\<lambda>f g. f_End f \<le> f_Start g) (Name_Candidates s) \<and>
    list_all (name_evidence_ok (nameTokens s)) (Name_Candidates s)"
  using candidates_loop_names [OF nameTokens_ok [OF assms]] by (simp add: Name_Candidates_def list_all_iff)

theorem name_candidates_in_order_witness:
  "list_all (name_evidence_ok (nameTokens (ru ''ivan petrov, fio: anna''))) (Name_Candidates (ru ''ivan petrov, fio: anna''))"
  using name_candidates_in_order [of "ru ''ivan petrov, fio: anna''"] by (simp add: ru_def)

end
