(* ===== verification/Json_Parse.thy ===== *)
theory Json_Parse
  imports Json
begin

text \<open>
  \<^verbatim>\<open>encoding/json\<close> as far as the source uses it for reading. The scanner works on the runes of the input: its
  structural characters are ASCII, and a byte that is not UTF-8 is the replacement character inside a string
  and a syntax error outside of one. A value is read from the front of the input and the runes behind it are
  returned, as the stream decoder does.
\<close>

section \<open>Strings\<close>

definition json_space :: "rune \<Rightarrow> bool" where
  "json_space r \<longleftrightarrow> r = 0x20 \<or> r = 0x09 \<or> r = 0x0A \<or> r = 0x0D"

definition skip_space :: "rune list \<Rightarrow> rune list" where
  "skip_space s = dropWhile json_space s"

definition hex_value :: "rune \<Rightarrow> nat option" where
  "hex_value r =
     (if 0x30 \<le> r \<and> r \<le> 0x39 then Some (r - 0x30)
      else if 0x61 \<le> r \<and> r \<le> 0x66 then Some (r - 0x61 + 10)
      else if 0x41 \<le> r \<and> r \<le> 0x46 then Some (r - 0x41 + 10)
      else None)"

fun getu4 :: "rune list \<Rightarrow> (rune \<times> rune list) option" where
  "getu4 (a # b # c # d # s) =
     (case (hex_value a, hex_value b, hex_value c, hex_value d) of
        (Some a, Some b, Some c, Some d) \<Rightarrow> Some (a * 4096 + b * 256 + c * 16 + d, s)
      | _ \<Rightarrow> None)"
| "getu4 _ = None"

definition high_surrogate :: "rune \<Rightarrow> bool" where "high_surrogate r \<longleftrightarrow> 0xD800 \<le> r \<and> r < 0xDC00"
definition low_surrogate :: "rune \<Rightarrow> bool" where "low_surrogate r \<longleftrightarrow> 0xDC00 \<le> r \<and> r < 0xE000"

text \<open>
  \<^verbatim>\<open>utf16.DecodeRune\<close> on the escape that follows; a surrogate without its partner is replaced, and what
  follows it is read on its own.
\<close>

definition surrogate_pair :: "rune \<Rightarrow> rune list \<Rightarrow> rune \<times> rune list" where
  "surrogate_pair r t =
     (case t of
        a # b # t' \<Rightarrow>
          (case (if a = 0x5C \<and> b = 0x75 then getu4 t' else None) of
             Some (r2, t'') \<Rightarrow>
               if high_surrogate r \<and> low_surrogate r2
               then ((r - 0xD800) * 0x400 + (r2 - 0xDC00) + 0x10000, t'')
               else (rune_error, t)
           | None \<Rightarrow> (rune_error, t))
      | _ \<Rightarrow> (rune_error, t))"

text \<open>The rune that an escape stands for, behind its backslash.\<close>

definition simple_escapes :: "(rune \<times> rune) list" where
  "simple_escapes =
     [(0x22, 0x22), (0x5C, 0x5C), (0x2F, 0x2F), (0x62, 0x08), (0x66, 0x0C), (0x6E, 0x0A), (0x72, 0x0D), (0x74, 0x09)]"

definition escape :: "rune list \<Rightarrow> (rune \<times> rune list) option" where
  "escape s =
     (case s of
        [] \<Rightarrow> None
      | e # t \<Rightarrow>
          if e = 0x75 then
            (case getu4 t of
               None \<Rightarrow> None
             | Some (r, t') \<Rightarrow> Some (if high_surrogate r \<or> low_surrogate r then surrogate_pair r t' else (r, t')))
          else map_option (\<lambda>r. (r, t)) (map_of simple_escapes e))"

lemma getu4_shorter: "getu4 t = Some (r, t') \<Longrightarrow> length t' < length t"
  by (induction t rule: getu4.induct) (auto split: option.splits)

lemma surrogate_pair_length: "length (snd (surrogate_pair r t)) \<le> length t"
  by (auto simp: surrogate_pair_def dest!: getu4_shorter split: list.splits option.splits)

lemma escape_shorter: "escape s = Some (r, t) \<Longrightarrow> length t < length s"
  using surrogate_pair_length
  by (auto simp: escape_def dest!: getu4_shorter split: list.splits if_splits option.splits)
    (metis le_less_trans less_SucI snd_conv)+

text \<open>The body of a string up to its closing quote.\<close>

function unquote :: "rune list \<Rightarrow> (rune list \<times> rune list) option" where
  "unquote [] = None"
| "unquote (r # s) =
     (if r = 0x22 then Some ([], s)
      else if r < 0x20 then None
      else if r = 0x5C then
        (case escape s of None \<Rightarrow> None | Some (e, t) \<Rightarrow> map_option (\<lambda>(rs, u). (e # rs, u)) (unquote t))
      else map_option (\<lambda>(rs, u). (r # rs, u)) (unquote s))"
  by pat_completeness auto
termination by (relation "measure length") (auto dest: escape_shorter)

section \<open>Values\<close>

datatype json =
    JNull
  | JBool bool
  | JNumber "rune list"
  | JString "rune list"
  | JArray "json list"
  | JObject "(rune list \<times> json) list"

definition is_digit_rune :: "rune \<Rightarrow> bool" where "is_digit_rune r \<longleftrightarrow> 0x30 \<le> r \<and> r \<le> 0x39"

text \<open>Some digits; \<^const>\<open>None\<close> when there is none.\<close>

definition scan_digits :: "rune list \<Rightarrow> (rune list \<times> rune list) option" where
  "scan_digits s =
     (if takeWhile is_digit_rune s = [] then None else Some (takeWhile is_digit_rune s, dropWhile is_digit_rune s))"

definition scan_integer :: "rune list \<Rightarrow> (rune list \<times> rune list) option" where
  "scan_integer s =
     (case s of
        [] \<Rightarrow> None
      | r # t \<Rightarrow>
          if r = 0x2D then
            (case t of
               [] \<Rightarrow> None
             | d # u \<Rightarrow> if d = 0x30 then Some ([r, d], u) else map_option (\<lambda>(ds, v). (r # ds, v)) (scan_digits t))
          else if r = 0x30 then Some ([r], t)
          else scan_digits s)"

definition scan_fraction :: "rune list \<Rightarrow> (rune list \<times> rune list) option" where
  "scan_fraction s =
     (case s of
        r # t \<Rightarrow> if r = 0x2E then map_option (\<lambda>(ds, u). (r # ds, u)) (scan_digits t) else Some ([], s)
      | [] \<Rightarrow> Some ([], s))"

definition scan_exponent :: "rune list \<Rightarrow> (rune list \<times> rune list) option" where
  "scan_exponent s =
     (case s of
        r # t \<Rightarrow>
          if r = 0x65 \<or> r = 0x45 then
            (case t of
               c # u \<Rightarrow>
                 if c = 0x2B \<or> c = 0x2D then map_option (\<lambda>(ds, v). (r # c # ds, v)) (scan_digits u)
                 else map_option (\<lambda>(ds, v). (r # ds, v)) (scan_digits t)
             | [] \<Rightarrow> None)
          else Some ([], s)
      | [] \<Rightarrow> Some ([], s))"

definition scan_number :: "rune list \<Rightarrow> (rune list \<times> rune list) option" where
  "scan_number s =
     (case scan_integer s of
        None \<Rightarrow> None
      | Some (a, t) \<Rightarrow>
          (case scan_fraction t of
             None \<Rightarrow> None
           | Some (b, u) \<Rightarrow>
               (case scan_exponent u of None \<Rightarrow> None | Some (c, v) \<Rightarrow> Some (a @ b @ c, v))))"

definition expect :: "string \<Rightarrow> json \<Rightarrow> rune list \<Rightarrow> (json \<times> rune list) option" where
  "expect word v s =
     (if take (length word) s = map byte word then Some (v, drop (length word) s) else None)"

definition maxNestingDepth :: nat where "maxNestingDepth = 10000"

text \<open>
  A value, the rest of an array behind its opening bracket or a comma, and the rest of an object. The first
  argument bounds the number of calls that are nested in one another. An array and its first element start at the
  same place and every other call follows a rune that has been read, so twice the length of the input is enough;
  \<open>parse_fuel\<close> below shows that more makes no difference. The second is the depth of nesting that the
  decoder allows.
\<close>

fun parse_value :: "nat \<Rightarrow> nat \<Rightarrow> rune list \<Rightarrow> (json \<times> rune list) option"
  and parse_elements :: "nat \<Rightarrow> nat \<Rightarrow> rune list \<Rightarrow> (json list \<times> rune list) option"
  and parse_members :: "nat \<Rightarrow> nat \<Rightarrow> rune list \<Rightarrow> ((rune list \<times> json) list \<times> rune list) option"
where
  "parse_value 0 d s = None"
| "parse_value (Suc n) d s =
     (case skip_space s of
        [] \<Rightarrow> None
      | r # t \<Rightarrow>
          if r = 0x22 then map_option (\<lambda>(rs, u). (JString rs, u)) (unquote t)
          else if r = 0x7B then
            (if d = 0 then None
             else
               (case skip_space t of
                  [] \<Rightarrow> None
                | c # u \<Rightarrow>
                    if c = 0x7D then Some (JObject [], u)
                    else map_option (\<lambda>(ms, v). (JObject ms, v)) (parse_members n (d - 1) t)))
          else if r = 0x5B then
            (if d = 0 then None
             else
               (case skip_space t of
                  [] \<Rightarrow> None
                | c # u \<Rightarrow>
                    if c = 0x5D then Some (JArray [], u)
                    else map_option (\<lambda>(vs, v). (JArray vs, v)) (parse_elements n (d - 1) t)))
          else if r = 0x74 then expect ''true'' (JBool True) (r # t)
          else if r = 0x66 then expect ''false'' (JBool False) (r # t)
          else if r = 0x6E then expect ''null'' JNull (r # t)
          else map_option (\<lambda>(ds, u). (JNumber ds, u)) (scan_number (r # t)))"
| "parse_elements 0 d s = None"
| "parse_elements (Suc n) d s =
     (case parse_value n d s of
        None \<Rightarrow> None
      | Some (v, t) \<Rightarrow>
          (case skip_space t of
             [] \<Rightarrow> None
           | c # u \<Rightarrow>
               if c = 0x2C then map_option (\<lambda>(vs, w). (v # vs, w)) (parse_elements n d u)
               else if c = 0x5D then Some ([v], u)
               else None))"
| "parse_members 0 d s = None"
| "parse_members (Suc n) d s =
     (case skip_space s of
        [] \<Rightarrow> None
      | q # t \<Rightarrow>
          if q \<noteq> 0x22 then None
          else
            (case unquote t of
               None \<Rightarrow> None
             | Some (name, t) \<Rightarrow>
                 (case skip_space t of
                    [] \<Rightarrow> None
                  | k # t \<Rightarrow>
                      if k \<noteq> 0x3A then None
                      else
                        (case parse_value n d t of
                           None \<Rightarrow> None
                         | Some (v, t) \<Rightarrow>
                             (case skip_space t of
                                [] \<Rightarrow> None
                              | c # u \<Rightarrow>
                                  if c = 0x2C then map_option (\<lambda>(ms, w). ((name, v) # ms, w)) (parse_members n d u)
                                  else if c = 0x7D then Some ([(name, v)], u)
                                  else None)))))"

definition parse_json :: "rune list \<Rightarrow> (json \<times> rune list) option" where
  "parse_json s = parse_value (Suc (2 * length s)) maxNestingDepth s"

text \<open>\<^verbatim>\<open>json.Unmarshal\<close> reads one value with nothing but space behind it.\<close>

definition json_document :: "bytes \<Rightarrow> json option" where
  "json_document s =
     (case parse_json (runes s) of
        Some (v, t) \<Rightarrow> if skip_space t = [] then Some v else None
      | None \<Rightarrow> None)"

section \<open>Enough fuel\<close>

lemma skip_space_length: "length (skip_space s) \<le> length s"
  by (simp add: skip_space_def length_dropWhile_le)

lemma skip_space_shorter: "skip_space s = c # t \<Longrightarrow> length t < length s"
  using skip_space_length [of s] by simp

lemma unquote_shorter: "unquote s = Some (rs, t) \<Longrightarrow> length t < length s"
proof (induction s arbitrary: rs t rule: unquote.induct)
  case (2 r s)
  show ?case
  proof (cases "escape s")
    case None
    with 2 show ?thesis by (fastforce split: if_splits)
  next
    case (Some eu)
    obtain e u where eu: "eu = (e, u)" by force
    with Some have "length u < length s" using escape_shorter by blast
    with 2 Some eu show ?thesis by (fastforce split: if_splits)
  qed
qed simp

lemma scan_digits_shorter: "scan_digits s = Some (ds, t) \<Longrightarrow> length t < length s"
  by (cases s) (auto simp: scan_digits_def less_Suc_eq_le length_dropWhile_le split: if_splits)

lemma scan_integer_shorter: "scan_integer s = Some (a, t) \<Longrightarrow> length t < length s"
  by (auto simp: scan_integer_def dest!: scan_digits_shorter split: list.splits if_splits)

lemma scan_fraction_length: "scan_fraction s = Some (a, t) \<Longrightarrow> length t \<le> length s"
  by (auto simp: scan_fraction_def dest!: scan_digits_shorter split: list.splits if_splits)

lemma scan_exponent_length: "scan_exponent s = Some (a, t) \<Longrightarrow> length t \<le> length s"
  by (auto simp: scan_exponent_def dest!: scan_digits_shorter split: list.splits if_splits)

lemma scan_number_shorter: "scan_number s = Some (ds, t) \<Longrightarrow> length t < length s"
  by (auto simp: scan_number_def split: option.splits
      dest!: scan_integer_shorter scan_fraction_length scan_exponent_length)

lemma expect_shorter: "expect word v s = Some (j, t) \<Longrightarrow> word \<noteq> [] \<Longrightarrow> s \<noteq> [] \<Longrightarrow> length t < length s"
  by (auto simp: expect_def split: if_splits)

lemma parse_shorter:
  "parse_value n d s = Some (v, t) \<Longrightarrow> length t < length s"
  "parse_elements n d s = Some (vs, t) \<Longrightarrow> length t < length s"
  "parse_members n d s = Some (ms, t) \<Longrightarrow> length t < length s"
proof (induction n d s and n d s and n d s arbitrary: v t and vs t and ms t
    rule: parse_value_parse_elements_parse_members.induct)
  case (2 n d s)
  then show ?case
    by (auto split: list.splits if_splits
        dest!: skip_space_shorter unquote_shorter scan_number_shorter expect_shorter)
      (force+)?
next
  case (4 n d s)
  then show ?case
    by (auto split: list.splits if_splits option.splits dest!: skip_space_shorter) (force+)?
next
  case (6 n d s)
  then show ?case
    by (auto split: list.splits if_splits option.splits dest!: skip_space_shorter unquote_shorter) (force+)?
qed auto

lemma parse_fuel_step:
  "2 * length s < n \<Longrightarrow> parse_value (Suc n) d s = parse_value n d s"
  "2 * length s + 1 < n \<Longrightarrow> parse_elements (Suc n) d s = parse_elements n d s"
  "2 * length s < n \<Longrightarrow> parse_members (Suc n) d s = parse_members n d s"
proof (induction n arbitrary: d s and d s and d s)
  case (Suc n)
  { case 1
    have m: "parse_members (Suc n) d' t = parse_members n d' t" "parse_elements (Suc n) d' t = parse_elements n d' t"
      if "skip_space s = c # t" for c t d'
      using skip_space_shorter [OF that] 1 Suc.IH(2,3) by auto
    show ?case using m by (auto simp del: parse_members.simps parse_elements.simps split: list.splits) }
  { case 2
    have v: "parse_value (Suc n) d s = parse_value n d s" using 2 Suc.IH(1) by simp
    have e: "parse_elements (Suc n) d u = parse_elements n d u"
      if "parse_value n d s = Some (v, t)" "skip_space t = c # u" for v t c u
      using parse_shorter(1) [OF that(1)] skip_space_shorter [OF that(2)] 2 Suc.IH(2) by simp
    show ?case
      unfolding parse_elements.simps(2) [of "Suc n" d s] parse_elements.simps(2) [of n d s] v
      by (auto simp del: parse_elements.simps simp: e split: option.splits list.splits) }
  { case 3
    have v: "parse_value (Suc n) d u = parse_value n d u"
      if "skip_space s = q # t" "unquote t = Some (name, t')" "skip_space t' = k # u" for q t name t' k u
      using skip_space_shorter [OF that(1)] unquote_shorter [OF that(2)] skip_space_shorter [OF that(3)] 3 Suc.IH(1) by simp
    have m: "parse_members (Suc n) d z = parse_members n d z"
      if "skip_space s = q # t" "unquote t = Some (name, t')" "skip_space t' = k # u"
        "parse_value n d u = Some (x, y)" "skip_space y = c # z" for q t name t' k u x y c z
      using skip_space_shorter [OF that(1)] unquote_shorter [OF that(2)] skip_space_shorter [OF that(3)]
        parse_shorter(1) [OF that(4)] skip_space_shorter [OF that(5)] 3 Suc.IH(3) by simp
    show ?case
      unfolding parse_members.simps(2) [of "Suc n" d s] parse_members.simps(2) [of n d s]
      by (auto simp del: parse_members.simps parse_value.simps simp: v m split: option.splits list.splits) }
qed auto

lemma parse_fuel:
  assumes "2 * length s < n"
  shows "parse_value n d s = parse_value (Suc (2 * length s)) d s"
  using assms
proof (induction n)
  case (Suc n)
  then show ?case using parse_fuel_step(1) [of s n d] by (cases "2 * length s < n") (auto simp: less_Suc_eq)
qed simp

section \<open>Strings that were written can be read back\<close>

lemma hex_digit_byte: "k < 16 \<Longrightarrow> byte (hex_digit k) = (if k < 10 then 0x30 + k else 0x57 + k)"
  by (simp add: hex_digit_def)

lemma hex_digit_read: "k < 16 \<Longrightarrow> hex_value (byte (hex_digit k)) = Some k"
  and hex_digit_ascii: "k < 16 \<Longrightarrow> byte (hex_digit k) < 0x80"
  by (auto simp: hex_digit_byte hex_value_def)

lemma getu4_digits:
  "a < 16 \<Longrightarrow> b < 16 \<Longrightarrow> c < 16 \<Longrightarrow> d < 16 \<Longrightarrow>
    getu4 (runes (map hex_digit [a, b, c, d] @ t)) = Some (a * 4096 + b * 256 + c * 16 + d, runes t)"
  by (simp add: hex_digit_read hex_digit_ascii)

lemma hex4_value:
  assumes "r < 65536"
  shows "r div 4096 mod 16 * 4096 + r div 256 mod 16 * 256 + r div 16 mod 16 * 16 + r mod 16 = (r::nat)"
proof -
  have d: "r div 16 div 16 = r div 256" "r div 256 div 16 = r div 4096" by (simp_all add: div_mult2_eq [symmetric])
  have "r div 4096 < 16" using assms by (simp add: less_mult_imp_div_less)
  then have "r div 4096 mod 16 = r div 4096" by (rule mod_less)
  then show ?thesis
    using div_mult_mod_eq [of r 16] div_mult_mod_eq [of "r div 16" 16] div_mult_mod_eq [of "r div 256" 16] unfolding d by linarith
qed

lemma getu4_hex4: "r < 65536 \<Longrightarrow> getu4 (runes (hex4 r @ t)) = Some (r, runes t)"
  unfolding hex4_def by (subst getu4_digits) (simp_all only: hex4_value mod_less_divisor zero_less_numeral)

lemma short_escapes_read:
  "(r, ch) \<in> set short_escapes \<Longrightarrow> byte ch < 0x80 \<and> byte ch \<noteq> 0x75 \<and> map_of simple_escapes (byte ch) = Some r"
proof -
  have "list_all (\<lambda>(r, ch). byte ch < 0x80 \<and> byte ch \<noteq> 0x75 \<and> map_of simple_escapes (byte ch) = Some r) short_escapes"
    by code_simp
  then show "(r, ch) \<in> set short_escapes \<Longrightarrow> ?thesis" unfolding list_all_iff by fastforce
qed

lemma unquote_json_rune:
  assumes "valid_rune r"
  shows "unquote (runes (json_rune r @ t)) = map_option (\<lambda>(rs, u). (r # rs, u)) (unquote (runes t))"
proof (cases "map_of short_escapes r")
  case (Some ch)
  with short_escapes_read [OF map_of_SomeD [OF Some]] show ?thesis
    by (simp add: json_rune_def backslash_def escape_def)
next
  case None
  then have plain: "r \<noteq> 0x5C" "r \<noteq> 0x22" by (auto simp: short_escapes_def)
  show ?thesis
  proof (cases "r < 0x20 \<or> r = 0x3C \<or> r = 0x3E \<or> r = 0x26 \<or> r = 0x2028 \<or> r = 0x2029")
    case True
    then have r: "r < 65536" "\<not> high_surrogate r" "\<not> low_surrogate r" by (auto simp: high_surrogate_def low_surrogate_def)
    have "runes (json_rune r @ t) = 0x5C # 0x75 # runes (hex4 r @ t)"
      using True None by (simp add: json_rune_def backslash_def byte_def)
    then show ?thesis using r getu4_hex4 [OF r(1)] by (simp add: escape_def)
  next
    case False
    with None plain assms show ?thesis by (simp add: json_rune_def)
  qed
qed

lemma unquote_json_runes:
  "\<forall>r \<in> set rs. valid_rune r \<Longrightarrow> unquote (runes (concat (map json_rune rs) @ quote_char # t)) = Some (rs, runes t)"
  by (induction rs) (simp_all add: unquote_json_rune quote_char_def)

lemma unquote_json_string:
  assumes "valid_string s"
  obtains q where "runes (json_string s @ t) = 0x22 # q" "unquote q = Some (runes s, runes t)"
proof -
  have v: "\<forall>r \<in> set (runes s). valid_rune r" using assms valid_runes by blast
  have "json_string s = [quote_char] @ concat (map json_rune (runes s)) @ [quote_char]"
    using json_string_of_runes [OF v] of_runes_runes [OF assms] by simp
  then show ?thesis using unquote_json_runes [OF v, of t] that by (simp add: quote_char_def)
qed

lemma byte_quote [simp]: "byte quote_char = 0x22"
  by (simp add: quote_char_def)

lemma skip_space_Cons [simp]: "\<not> json_space r \<Longrightarrow> skip_space (r # s) = r # s"
  by (simp add: skip_space_def)

lemma json_space_simps [simp]:
  "\<not> json_space 0x22" "\<not> json_space 0x2C" "\<not> json_space 0x3A" "\<not> json_space 0x7B" "\<not> json_space 0x7D"
  by (simp_all add: json_space_def)

lemma parse_json_string:
  assumes "valid_string s"
  shows "parse_value (Suc n) d (runes (json_string s @ t)) = Some (JString (runes s), runes t)"
  using unquote_json_string [OF assms, of t] by fastforce

text \<open>A member of an object with a string for its value, in front of another member or of the closing brace.\<close>

lemma parse_member:
  assumes "valid_string name" and "parse_value (Suc n) d (runes v) = Some (j, c # u)" and "c = 0x2C \<or> c = 0x7D"
  shows "parse_members (Suc (Suc n)) d (runes (json_string name @ CHR '':'' # v)) =
    (if c = 0x2C then map_option (\<lambda>(ms, w). ((runes name, j) # ms, w)) (parse_members (Suc n) d u)
     else Some ([(runes name, j)], u))"
proof -
  obtain q where q: "runes (json_string name @ CHR '':'' # v) = 0x22 # q" "unquote q = Some (runes name, 0x3A # runes v)"
    using unquote_json_string [OF assms(1), of "CHR '':'' # v"] by (auto simp: byte_def)
  have c: "skip_space (c # u) = c # u" using assms(3) by auto
  show ?thesis
    unfolding q(1) parse_members.simps(2) [of "Suc n"]
    using assms(2,3) by (auto simp del: parse_members.simps parse_value.simps simp: q(2) c)
qed

section \<open>Structures\<close>

text \<open>
  The field of a structure that a member of an object is stored in: the one with its name, or else one whose name
  differs in case only. Members without a field are skipped.
\<close>

definition struct_field :: "string list \<Rightarrow> rune list \<Rightarrow> string option" where
  "struct_field names n =
     (case find (\<lambda>f. map byte f = n) names of
        Some f \<Rightarrow> Some f
      | None \<Rightarrow> find (\<lambda>f. map (fold_rune \<circ> byte) f = map fold_rune n) names)"

text \<open>A field of type \<^verbatim>\<open>string\<close>; null leaves it alone. Then one of type \<^verbatim>\<open>int\<close>.\<close>

definition assign_string :: "json \<Rightarrow> bytes \<Rightarrow> bytes option" where
  "assign_string v old = (case v of JString rs \<Rightarrow> Some (of_runes rs) | JNull \<Rightarrow> Some old | _ \<Rightarrow> None)"

definition digits_value :: "rune list \<Rightarrow> int" where
  "digits_value ds = foldl (\<lambda>n d. 10 * n + (int d - 0x30)) 0 ds"

definition parse_int64 :: "rune list \<Rightarrow> int option" where
  "parse_int64 ds =
     (let neg = (ds \<noteq> [] \<and> hd ds = 0x2D); m = (if neg then tl ds else ds);
          n = (if neg then - digits_value m else digits_value m)
      in if m = [] \<or> \<not> list_all is_digit_rune m \<or> n < - (2 ^ 63) \<or> 2 ^ 63 \<le> n then None else Some n)"

definition assign_int :: "json \<Rightarrow> int \<Rightarrow> int option" where
  "assign_int v old = (case v of JNumber ds \<Rightarrow> parse_int64 ds | JNull \<Rightarrow> Some old | _ \<Rightarrow> None)"

end
