(* ===== verification/Codec.thy ===== *)
theory Codec
  imports Json_Parse Store
begin

text \<open>
  \<^verbatim>\<open>internal/pii/store/codec.go\<close>: records are encrypted at rest, under keys that may be rotated. The ciphers
  and the keyed hash of \<^verbatim>\<open>crypto\<close> and the JSON of a record are arguments; the encodings of
  \<^verbatim>\<open>encoding/base64\<close> and the JSON of an envelope are defined here.
\<close>

section \<open>Base 64\<close>

definition b64_std :: string where
  "b64_std = ''ABCDEFGHIJKLMNOPQRSTUVWXYZabcdefghijklmnopqrstuvwxyz0123456789+/''"

definition b64_url :: string where
  "b64_url = ''ABCDEFGHIJKLMNOPQRSTUVWXYZabcdefghijklmnopqrstuvwxyz0123456789-_''"

text \<open>Digits of a string, without padding; with it the last group is filled up to four characters.\<close>

fun b64_digits :: "bytes \<Rightarrow> nat list" where
  "b64_digits [] = []"
| "b64_digits [a] = [byte a div 4, byte a mod 4 * 16]"
| "b64_digits [a, b] = [byte a div 4, byte a mod 4 * 16 + byte b div 16, byte b mod 16 * 4]"
| "b64_digits (a # b # c # s) =
     byte a div 4 # (byte a mod 4 * 16 + byte b div 16) # (byte b mod 16 * 4 + byte c div 64) # byte c mod 64 # b64_digits s"

definition b64_padding :: "bytes \<Rightarrow> bytes" where
  "b64_padding s = replicate ((3 - length s mod 3) mod 3) (CHR ''='')"

definition StdEncoding_EncodeToString :: "bytes \<Rightarrow> bytes" where
  "StdEncoding_EncodeToString s = map (\<lambda>d. b64_std ! d) (b64_digits s) @ b64_padding s"

definition RawURLEncoding_EncodeToString :: "bytes \<Rightarrow> bytes" where
  "RawURLEncoding_EncodeToString s = map (\<lambda>d. b64_url ! d) (b64_digits s)"

definition b64_value :: "char \<Rightarrow> nat option" where
  "b64_value c = (case find (\<lambda>i. b64_std ! i = c) [0..<64] of Some i \<Rightarrow> Some i | None \<Rightarrow> None)"

text \<open>Line breaks are skipped, and bits behind the last byte are ignored.\<close>

fun b64_decode :: "bytes \<Rightarrow> bytes option" where
  "b64_decode [] = Some []"
| "b64_decode (a # b # c # d # s) =
     (case (b64_value a, b64_value b) of
        (Some x, Some y) \<Rightarrow>
          (if c = CHR ''='' \<and> d = CHR ''='' then (if s = [] then Some [char_of (x * 4 + y div 16)] else None)
           else
             (case b64_value c of
                None \<Rightarrow> None
              | Some z \<Rightarrow>
                  if d = CHR ''='' then
                    (if s = [] then Some [char_of (x * 4 + y div 16), char_of (y mod 16 * 16 + z div 4)] else None)
                  else
                    (case b64_value d of
                       None \<Rightarrow> None
                     | Some u \<Rightarrow>
                         map_option (\<lambda>t. char_of (x * 4 + y div 16) # char_of (y mod 16 * 16 + z div 4) #
                             char_of (z mod 4 * 64 + u) # t)
                           (b64_decode s))))
      | _ \<Rightarrow> None)"
| "b64_decode _ = None"

definition StdEncoding_DecodeString :: "bytes \<Rightarrow> bytes option" where
  "StdEncoding_DecodeString s = b64_decode (filter (\<lambda>c. c \<noteq> CHR 0x0A \<and> c \<noteq> CHR 0x0D) s)"

section \<open>Envelopes\<close>

definition envelopeVersion :: int where "envelopeVersion = 2"

record encryptedEnvelope =
  ee_Version :: int
  ee_KeyID :: bytes
  ee_Nonce :: bytes
  ee_Ciphertext :: bytes
  ee_OriginalHMAC :: bytes
  ee_MaskedHMAC :: bytes

text \<open>\<^verbatim>\<open>json.Marshal(envelope)\<close>, and the associated data: a list of two strings and a number.\<close>

definition marshal_envelope :: "encryptedEnvelope \<Rightarrow> bytes" where
  "marshal_envelope e =
     json_object
       [(''version'', decimal (nat (ee_Version e))), (''key_id'', json_string (ee_KeyID e)),
        (''nonce'', json_string (ee_Nonce e)), (''ciphertext'', json_string (ee_Ciphertext e)),
        (''original_hmac'', json_string (ee_OriginalHMAC e)), (''masked_hmac'', json_string (ee_MaskedHMAC e))]"

text \<open>\<^verbatim>\<open>json.Unmarshal(encoded, &envelope)\<close>, with \<^const>\<open>None\<close> for every error.\<close>

definition envelope_fields :: "string list" where
  "envelope_fields = [''version'', ''key_id'', ''nonce'', ''ciphertext'', ''original_hmac'', ''masked_hmac'']"

definition assign_envelope :: "string \<Rightarrow> json \<Rightarrow> encryptedEnvelope \<Rightarrow> encryptedEnvelope option" where
  "assign_envelope f v e =
     (if f = ''version'' then map_option (\<lambda>x. e\<lparr>ee_Version := x\<rparr>) (assign_int v (ee_Version e))
      else if f = ''key_id'' then map_option (\<lambda>x. e\<lparr>ee_KeyID := x\<rparr>) (assign_string v (ee_KeyID e))
      else if f = ''nonce'' then map_option (\<lambda>x. e\<lparr>ee_Nonce := x\<rparr>) (assign_string v (ee_Nonce e))
      else if f = ''ciphertext'' then map_option (\<lambda>x. e\<lparr>ee_Ciphertext := x\<rparr>) (assign_string v (ee_Ciphertext e))
      else if f = ''original_hmac'' then map_option (\<lambda>x. e\<lparr>ee_OriginalHMAC := x\<rparr>) (assign_string v (ee_OriginalHMAC e))
      else map_option (\<lambda>x. e\<lparr>ee_MaskedHMAC := x\<rparr>) (assign_string v (ee_MaskedHMAC e)))"

fun assign_members :: "(rune list \<times> json) list \<Rightarrow> encryptedEnvelope \<Rightarrow> encryptedEnvelope option" where
  "assign_members [] e = Some e"
| "assign_members ((name, v) # ms) e =
     (case struct_field envelope_fields name of
        None \<Rightarrow> assign_members ms e
      | Some f \<Rightarrow> (case assign_envelope f v e of None \<Rightarrow> None | Some e \<Rightarrow> assign_members ms e))"

definition zero_envelope :: encryptedEnvelope where
  "zero_envelope = \<lparr>ee_Version = 0, ee_KeyID = [], ee_Nonce = [], ee_Ciphertext = [], ee_OriginalHMAC = [], ee_MaskedHMAC = []\<rparr>"

definition unmarshal_envelope :: "bytes \<Rightarrow> encryptedEnvelope option" where
  "unmarshal_envelope s =
     (case json_document s of
        Some (JObject ms) \<Rightarrow> assign_members ms zero_envelope
      | Some JNull \<Rightarrow> Some zero_envelope
      | _ \<Rightarrow> None)"

definition associated :: "int \<Rightarrow> bytes \<Rightarrow> bytes \<Rightarrow> bytes" where
  "associated version keyID key =
     ''['' @ strings_Join [json_string ''alfagen-context'', decimal (nat version), json_string keyID, json_string key] '','' @ '']''"

section \<open>The codec\<close>

text \<open>
  What the codec gets from the standard library. \<open>cr_Seal k n p a\<close> and \<open>cr_Open k n c a\<close> are AES-GCM under the key
  \<open>k\<close>; \<open>cr_hmac\<close> is HMAC-SHA256; the last two write and read a record as JSON.
\<close>

record crypto =
  cr_Seal :: "bytes \<Rightarrow> bytes \<Rightarrow> bytes \<Rightarrow> bytes \<Rightarrow> bytes"
  cr_Open :: "bytes \<Rightarrow> bytes \<Rightarrow> bytes \<Rightarrow> bytes \<Rightarrow> bytes option"
  cr_hmac :: "bytes \<Rightarrow> bytes \<Rightarrow> bytes"
  cr_marshal :: "Record \<Rightarrow> bytes"
  cr_unmarshal :: "bytes \<Rightarrow> Record option"

definition NonceSize :: nat where "NonceSize = 12"

text \<open>A cipher is given by its key.\<close>

record Codec =
  cd_activeID :: bytes
  cd_ciphers :: "bytes \<rightharpoonup> bytes"
  cd_macKeys :: "bytes \<rightharpoonup> bytes \<times> bytes"

definition deriveMACKey :: "crypto \<Rightarrow> bytes \<Rightarrow> bytes \<Rightarrow> bytes" where
  "deriveMACKey cr key domain = cr_hmac cr key (''alfagen-hmac:'' @ domain)"

definition macValue :: "crypto \<Rightarrow> bytes \<Rightarrow> bytes \<Rightarrow> bytes" where
  "macValue cr macKey val = RawURLEncoding_EncodeToString (cr_hmac cr macKey val)"

definition recordMAC :: "crypto \<Rightarrow> bytes \<Rightarrow> bytes \<Rightarrow> bytes \<Rightarrow> bytes" where
  "recordMAC cr key domain val = macValue cr (deriveMACKey cr key domain) val"

text \<open>The map of the keys, as a list of its entries; the message does not name the key that is refused.\<close>

definition NewCodec :: "crypto \<Rightarrow> bytes \<Rightarrow> (bytes \<times> bytes) list \<Rightarrow> error + Codec" where
  "NewCodec cr activeID keys =
     (if activeID = [] then Inl (ErrText ''store codec: active key ID is required'')
      else if list_ex (\<lambda>(id, key). length key \<noteq> 32) keys then Inl (ErrText ''store codec: key must be 32 bytes'')
      else if map_of keys activeID = None then Inl (ErrText ''store codec: active key is missing'')
      else
        Inr \<lparr>cd_activeID = activeID, cd_ciphers = map_of keys,
          cd_macKeys = map_option (\<lambda>key. (deriveMACKey cr key ''original'', deriveMACKey cr key ''masked'')) \<circ> map_of keys\<rparr>)"

definition DecodeKey :: "bytes \<Rightarrow> error + bytes" where
  "DecodeKey s =
     (case StdEncoding_DecodeString s of
        None \<Rightarrow> Inl (ErrText ''store codec: key must be base64-encoded 32 bytes'')
      | Some key \<Rightarrow>
          if length key \<noteq> 32 then Inl (ErrText ''store codec: key must be base64-encoded 32 bytes'') else Inr key)"

definition seal_envelope :: "crypto \<Rightarrow> Codec \<Rightarrow> bytes \<Rightarrow> bytes \<Rightarrow> Record \<Rightarrow> bytes \<Rightarrow> bytes \<times> bytes \<Rightarrow> encryptedEnvelope" where
  "seal_envelope cr c nonce key rec cipher_key macs =
     \<lparr>ee_Version = envelopeVersion, ee_KeyID = cd_activeID c, ee_Nonce = StdEncoding_EncodeToString nonce,
      ee_Ciphertext = StdEncoding_EncodeToString
        (cr_Seal cr cipher_key nonce (cr_marshal cr rec) (associated envelopeVersion (cd_activeID c) key)),
      ee_OriginalHMAC = macValue cr (fst macs) (rec_Original rec),
      ee_MaskedHMAC = macValue cr (snd macs) (rec_Masked rec)\<rparr>"

text \<open>A codec without its active key, which \<^const>\<open>NewCodec\<close> never builds, would panic.\<close>

definition Codec_Seal :: "crypto \<Rightarrow> Codec \<Rightarrow> bytes \<Rightarrow> Record \<Rightarrow> 'a world_scheme \<Rightarrow> (error + bytes) \<times> 'a world_scheme" where
  "Codec_Seal cr c key rec w =
     (case (cd_ciphers c (cd_activeID c), cd_macKeys c (cd_activeID c)) of
        (Some cipher_key, Some macs) \<Rightarrow>
          (case rand_Read w of
             (None, w) \<Rightarrow> (Inl (ErrText ''rand''), w)
           | (Some nonce, w) \<Rightarrow> (Inr (marshal_envelope (seal_envelope cr c nonce key rec cipher_key macs)), w))
      | _ \<Rightarrow> (Inl (ErrText ''panic''), w))"

definition open_record :: "crypto \<Rightarrow> bytes \<times> bytes \<Rightarrow> encryptedEnvelope \<Rightarrow> bytes \<Rightarrow> error + Record" where
  "open_record cr macs e plaintext =
     (case cr_unmarshal cr plaintext of
        None \<Rightarrow> Inl (ErrText ''store codec: invalid record'')
      | Some rec \<Rightarrow>
          if ee_OriginalHMAC e \<noteq> macValue cr (fst macs) (rec_Original rec) \<or>
             ee_MaskedHMAC e \<noteq> macValue cr (snd macs) (rec_Masked rec)
          then Inl (ErrText ''store codec: record digest mismatch'')
          else Inr rec)"

definition Codec_Open :: "crypto \<Rightarrow> Codec \<Rightarrow> bytes \<Rightarrow> bytes \<Rightarrow> error + Record" where
  "Codec_Open cr c key encoded =
     (case unmarshal_envelope encoded of
        None \<Rightarrow> Inl (ErrText ''store codec: invalid envelope'')
      | Some e \<Rightarrow>
          if ee_Version e \<noteq> envelopeVersion then Inl (ErrText ''store codec: invalid envelope'')
          else
            (case (cd_ciphers c (ee_KeyID e), cd_macKeys c (ee_KeyID e)) of
               (Some cipher_key, Some macs) \<Rightarrow>
                 (case StdEncoding_DecodeString (ee_Nonce e) of
                    None \<Rightarrow> Inl (ErrText ''store codec: invalid nonce'')
                  | Some nonce \<Rightarrow>
                      (case StdEncoding_DecodeString (ee_Ciphertext e) of
                         None \<Rightarrow> Inl (ErrText ''store codec: invalid ciphertext'')
                       | Some ciphertext \<Rightarrow>
                           if length nonce \<noteq> NonceSize then Inl (ErrText ''store codec: invalid nonce length'')
                           else
                             (case cr_Open cr cipher_key nonce ciphertext (associated (ee_Version e) (ee_KeyID e) key) of
                                None \<Rightarrow> Inl (ErrText ''store codec: authentication failed'')
                              | Some plaintext \<Rightarrow> open_record cr macs e plaintext)))
             | _ \<Rightarrow> Inl (ErrText ''store codec: unknown key version'')))"

section \<open>Base 64 can be read back\<close>

lemma b64_table: "list_all (\<lambda>i. b64_value (b64_std ! i) = Some i \<and> b64_std ! i \<notin> {CHR ''='', CHR 0x0A, CHR 0x0D}) [0..<64]"
  by code_simp

lemma b64_digit: "i < 64 \<Longrightarrow> b64_value (b64_std ! i) = Some i" "i < 64 \<Longrightarrow> b64_std ! i \<notin> {CHR ''='', CHR 0x0A, CHR 0x0D}"
  using b64_table unfolding list_all_iff by auto

lemma six_bits:
  "a < 256 \<Longrightarrow> a div 4 < (64::nat)" "b < 256 \<Longrightarrow> a mod 4 * 16 + b div 16 < (64::nat)"
  "c < 256 \<Longrightarrow> b mod 16 * 4 + c div 64 < (64::nat)" "c mod 64 < (64::nat)" "a mod 4 * 16 < (64::nat)" "b mod 16 * 4 < (64::nat)"
  by auto

lemma regroup:
  "b < 256 \<Longrightarrow> (a div 4) * 4 + (a mod 4 * 16 + b div 16) div 16 = (a::nat)"
  "b < 256 \<Longrightarrow> c < 256 \<Longrightarrow> (a mod 4 * 16 + b div 16) mod 16 * 16 + (b mod 16 * 4 + c div 64) div 4 = (b::nat)"
  "c < 256 \<Longrightarrow> (b mod 16 * 4 + c div 64) mod 4 * 64 + c mod 64 = (c::nat)"
  by auto

lemma b64_digits_bound: "d \<in> set (b64_digits s) \<Longrightarrow> d < 64"
  by (induction s rule: b64_digits.induct) (auto simp: six_bits)

lemma b64_decode_digits: "b64_decode (StdEncoding_EncodeToString s) = Some s"
  unfolding StdEncoding_EncodeToString_def b64_padding_def
proof (induction s rule: b64_digits.induct)
  case (2 a)
  have "b64_std ! (byte a mod 4 * 16) \<noteq> CHR ''=''" using b64_digit(2) [OF six_bits(5)] by blast
  then show ?case
    using b64_digit(1) [OF six_bits(1) [OF byte_bound [of a]]] b64_digit(1) [OF six_bits(5) [of "byte a"]] regroup(1) [of 0 "byte a"]
    by (simp add: numeral_2_eq_2)
next
  case (3 a b)
  note v = b64_digit(1) [OF six_bits(1) [OF byte_bound [of a]]] b64_digit(1) [OF six_bits(2) [OF byte_bound [of b], of "byte a"]]
    b64_digit(1) [OF six_bits(6) [of "byte b"]]
  have "b64_std ! (byte b mod 16 * 4) \<noteq> CHR ''=''" using b64_digit(2) [OF six_bits(6)] by blast
  then show ?case using v regroup(1) [of "byte b" "byte a"] regroup(2) [of "byte b" 0 "byte a"] by simp
next
  case (4 a b c s)
  note v = b64_digit(1) [OF six_bits(1) [OF byte_bound [of a]]] b64_digit(1) [OF six_bits(2) [OF byte_bound [of b], of "byte a"]]
    b64_digit(1) [OF six_bits(3) [OF byte_bound [of c], of "byte b"]] b64_digit(1) [OF six_bits(4) [of "byte c"]]
  have ne: "b64_std ! (byte b mod 16 * 4 + byte c div 64) \<noteq> CHR ''=''" "b64_std ! (byte c mod 64) \<noteq> CHR ''=''"
    using b64_digit(2) [OF six_bits(3) [OF byte_bound [of c]]] b64_digit(2) [OF six_bits(4)] by blast+
  have "replicate ((3 - length (a # b # c # s) mod 3) mod 3) (CHR ''='') = replicate ((3 - length s mod 3) mod 3) (CHR ''='')"
    by simp
  with 4 v ne regroup(1) [of "byte b" "byte a"] regroup(2) [of "byte b" "byte c" "byte a"] regroup(3) [of "byte c" "byte b"]
  show ?case by simp
qed simp

lemma base64_roundtrip: "StdEncoding_DecodeString (StdEncoding_EncodeToString s) = Some s"
proof -
  have "c \<noteq> CHR 0x0A \<and> c \<noteq> CHR 0x0D" if "c \<in> set (StdEncoding_EncodeToString s)" for c
    using that b64_digits_bound b64_digit(2) by (fastforce simp: StdEncoding_EncodeToString_def b64_padding_def)
  then have "filter (\<lambda>c. c \<noteq> CHR 0x0A \<and> c \<noteq> CHR 0x0D) (StdEncoding_EncodeToString s) = StdEncoding_EncodeToString s"
    by (simp add: filter_id_conv)
  then show ?thesis by (simp add: StdEncoding_DecodeString_def b64_decode_digits)
qed

section \<open>The associated data names version, key and identifier\<close>

lemma associated_inject:
  assumes "valid_string k" and "valid_string k'" and "valid_string i" and "valid_string i'"
    and "associated v k i = associated v k' i'"
  shows "k = k' \<and> i = i'"
proof -
  have "json_string k @ ('','' @ json_string i @ '']'') = json_string k' @ ('','' @ json_string i' @ '']'')"
    using assms(5) by (simp add: associated_def)
  from json_string_prefix [OF assms(1,2) this] json_string_prefix [OF assms(3,4), of "'']''" "'']''"] show ?thesis by simp
qed

section \<open>An envelope that was written can be read back\<close>

lemma runes_ascii_string: "\<forall>c \<in> set s. byte c < 0x80 \<Longrightarrow> runes s = map byte s \<and> valid_string s"
  by (induction s) auto

lemma envelope_names:
  "list_all (\<lambda>f. valid_string f \<and> struct_field envelope_fields (runes f) = Some f) envelope_fields"
  by (simp add: envelope_fields_def struct_field_def byte_def)

definition envelope_valid :: "encryptedEnvelope \<Rightarrow> bool" where
  "envelope_valid e \<longleftrightarrow> ee_Version e = envelopeVersion \<and> valid_string (ee_KeyID e) \<and> valid_string (ee_Nonce e) \<and>
     valid_string (ee_Ciphertext e) \<and> valid_string (ee_OriginalHMAC e) \<and> valid_string (ee_MaskedHMAC e)"

lemma parse_string_field:
  assumes "name \<in> set envelope_fields" and "valid_string s" and "c = CHR '','' \<or> c = CHR ''}''"
  shows "parse_members (Suc (Suc n)) d (runes (json_field name (json_string s) @ c # u)) =
    (if c = CHR '','' then map_option (\<lambda>(ms, w). ((runes name, JString (runes s)) # ms, w)) (parse_members (Suc n) d (runes u))
     else Some ([(runes name, JString (runes s))], runes u))"
proof -
  have name: "valid_string name" using assms(1) envelope_names by (auto simp: list_all_iff)
  have ascii: "byte c < 0x80" "byte c = 0x2C \<or> byte c = 0x7D" "byte c = 0x2C \<longleftrightarrow> c = CHR '',''"
    using assms(3) by (auto simp: byte_def)
  show ?thesis
    using parse_member [OF name, of n d "json_string s @ c # u" "JString (runes s)" "byte c" "runes u"]
      parse_json_string [OF assms(2), of n d "c # u"] ascii by (simp add: json_field_def)
qed

lemma parse_version_field:
  "parse_members (Suc (Suc n)) d (runes (json_field ''version'' (decimal 2) @ CHR '','' # u)) =
    map_option (\<lambda>(ms, w). ((runes ''version'', JNumber [0x32]) # ms, w)) (parse_members (Suc n) d (runes u))"
proof -
  have "parse_value (Suc n) d (runes (decimal 2 @ CHR '','' # u)) = Some (JNumber [0x32], 0x2C # runes u)"
    by (simp add: decimal.simps [of 2] digit_char_def byte_def json_space_def skip_space_def scan_number_def
        scan_integer_def scan_digits_def scan_fraction_def scan_exponent_def is_digit_rune_def)
  from parse_member [OF _ this, of "''version''"] show ?thesis
    by (simp add: json_field_def byte_def)
qed

lemma envelope_roundtrip:
  assumes "envelope_valid e"
  shows "unmarshal_envelope (marshal_envelope e) = Some e"
proof -
  let ?ms = "[(runes ''version'', JNumber [0x32]), (runes ''key_id'', JString (runes (ee_KeyID e))),
    (runes ''nonce'', JString (runes (ee_Nonce e))), (runes ''ciphertext'', JString (runes (ee_Ciphertext e))),
    (runes ''original_hmac'', JString (runes (ee_OriginalHMAC e))), (runes ''masked_hmac'', JString (runes (ee_MaskedHMAC e)))]"
  note v = assms [unfolded envelope_valid_def envelopeVersion_def]
  define body where "body = json_field ''version'' (decimal 2) @ CHR '','' #
    json_field ''key_id'' (json_string (ee_KeyID e)) @ CHR '','' # json_field ''nonce'' (json_string (ee_Nonce e)) @ CHR '','' #
    json_field ''ciphertext'' (json_string (ee_Ciphertext e)) @ CHR '','' #
    json_field ''original_hmac'' (json_string (ee_OriginalHMAC e)) @ CHR '','' #
    json_field ''masked_hmac'' (json_string (ee_MaskedHMAC e)) @ CHR ''}'' # []"
  have m: "marshal_envelope e = CHR ''{'' # body" using v by (simp add: marshal_envelope_def json_object_def body_def)
  have hd: "runes (CHR ''{'' # body) = 0x7B # runes body" by (simp add: byte_def)
  obtain rest where q: "runes body = 0x22 # rest"
    using unquote_json_string [of "''version''" "CHR '':'' # decimal 2 @ CHR '','' # drop 12 body"]
    unfolding body_def json_field_def by (simp add: json_string_def byte_def quote_char_def)
  let ?n = "2 * length (runes (CHR ''{'' # body))"
  have p: "parse_members (Suc (Suc (Suc (Suc (Suc (Suc (Suc k)))))))  d (runes body) = Some (?ms, [])" for k d
    unfolding body_def
    by (subst parse_version_field, (subst parse_string_field, simp add: envelope_fields_def, simp add: v, simp)+) simp
  have "parse_value (Suc ?n) maxNestingDepth (runes (CHR ''{'' # body)) =
      parse_value (Suc (Suc (Suc (Suc (Suc (Suc (Suc (Suc ?n)))))))) maxNestingDepth (runes (CHR ''{'' # body))"
    by (rule parse_fuel [symmetric]) simp
  also have "\<dots> = Some (JObject ?ms, [])"
    using p [of ?n] q unfolding hd by (simp del: parse_members.simps add: maxNestingDepth_def)
  finally have "json_document (marshal_envelope e) = Some (JObject ?ms)"
    by (simp add: json_document_def parse_json_def m skip_space_def)
  moreover have "struct_field envelope_fields (runes f) = Some f" if "f \<in> set envelope_fields" for f
    using that envelope_names by (auto simp: list_all_iff)
  ultimately show ?thesis
    using v by (simp add: unmarshal_envelope_def assign_envelope_def assign_string_def assign_int_def parse_int64_def
        digits_value_def is_digit_rune_def zero_envelope_def of_runes_runes envelope_fields_def)
qed

section \<open>Sealed records\<close>

lemma base64_valid: "valid_string (StdEncoding_EncodeToString s)" "valid_string (RawURLEncoding_EncodeToString s)"
proof -
  have std: "list_all (\<lambda>c. byte c < 0x80) b64_std" and url: "list_all (\<lambda>c. byte c < 0x80) b64_url" by code_simp+
  have len: "length b64_std = 64" "length b64_url = 64" by code_simp+
  have "byte c < 0x80" if "c \<in> set (StdEncoding_EncodeToString s)" for c
    using that b64_digits_bound std len
    by (auto simp: StdEncoding_EncodeToString_def b64_padding_def list_all_length byte_def)
  moreover have "byte c < 0x80" if "c \<in> set (RawURLEncoding_EncodeToString s)" for c
    using that b64_digits_bound url len by (auto simp: RawURLEncoding_EncodeToString_def list_all_length)
  ultimately show "valid_string (StdEncoding_EncodeToString s)" "valid_string (RawURLEncoding_EncodeToString s)"
    using runes_ascii_string by blast+
qed

lemma NewCodec_result:
  assumes "NewCodec cr activeID keys = Inr c"
  shows "cd_activeID c = activeID" "cd_ciphers c = map_of keys"
    "cd_macKeys c k = map_option (\<lambda>key. (deriveMACKey cr key ''original'', deriveMACKey cr key ''masked'')) (map_of keys k)"
    "\<exists>key. map_of keys activeID = Some key"
  using assms by (auto simp: NewCodec_def split: if_splits)

lemma Seal_result:
  assumes "NewCodec cr activeID keys = Inr c" and "Codec_Seal cr c cid rec w = (Inr sealed, w')"
  obtains key nonce where "map_of keys activeID = Some key" "fst (rand_Read w) = Some nonce"
    "sealed = marshal_envelope (seal_envelope cr c nonce cid rec key
      (deriveMACKey cr key ''original'', deriveMACKey cr key ''masked''))"
  using assms(2) NewCodec_result [OF assms(1)] that
  by (auto simp: Codec_Seal_def split: option.splits prod.splits)

lemma seal_envelope_valid: "valid_string (cd_activeID c) \<Longrightarrow> envelope_valid (seal_envelope cr c nonce cid rec key macs)"
  by (simp add: envelope_valid_def seal_envelope_def base64_valid macValue_def)

lemma Open_sealed:
  assumes "NewCodec cr activeID keys = Inr c" and "valid_string activeID"
    and "cd_ciphers c2 activeID = Some key"
    and "cd_macKeys c2 activeID = Some macs" and "length nonce = NonceSize"
  shows "Codec_Open cr c2 cid2 (marshal_envelope (seal_envelope cr c nonce cid rec key macs)) =
    (case cr_Open cr key nonce (cr_Seal cr key nonce (cr_marshal cr rec) (associated envelopeVersion activeID cid))
        (associated envelopeVersion activeID cid2) of
       None \<Rightarrow> Inl (ErrText ''store codec: authentication failed'')
     | Some plaintext \<Rightarrow> open_record cr macs (seal_envelope cr c nonce cid rec key macs) plaintext)"
proof -
  let ?e = "seal_envelope cr c nonce cid rec key macs"
  have a: "cd_activeID c = activeID" using NewCodec_result(1) [OF assms(1)] .
  have "unmarshal_envelope (marshal_envelope ?e) = Some ?e"
    using seal_envelope_valid assms(2) a by (intro envelope_roundtrip) simp
  moreover have "ee_Version ?e = envelopeVersion" "ee_KeyID ?e = activeID"
    "StdEncoding_DecodeString (ee_Nonce ?e) = Some nonce"
    "StdEncoding_DecodeString (ee_Ciphertext ?e) =
      Some (cr_Seal cr key nonce (cr_marshal cr rec) (associated envelopeVersion activeID cid))"
    by (simp_all add: seal_envelope_def base64_roundtrip a)
  ultimately show ?thesis using assms(3-5) by (simp add: Codec_Open_def)
qed

text \<open>
  What the documentation of \<^verbatim>\<open>cipher.AEAD\<close> promises for one message: it opens under the associated data it was
  sealed with, and under no other.
\<close>

definition aead_message :: "crypto \<Rightarrow> bytes \<Rightarrow> bytes \<Rightarrow> bytes \<Rightarrow> bool" where
  "aead_message cr key nonce plaintext \<longleftrightarrow>
     (\<forall>a a'. cr_Open cr key nonce (cr_Seal cr key nonce plaintext a) a' = (if a' = a then Some plaintext else None))"

lemma sealed_opens:
  assumes "NewCodec cr activeID keys = Inr c" and "NewCodec cr activeID2 keys2 = Inr c2"
    and "map_of keys activeID = Some key" and "map_of keys2 activeID = Some key"
    and "Codec_Seal cr c cid rec w = (Inr sealed, w')" and "fst (rand_Read w) = Some nonce" and "length nonce = NonceSize"
    and "valid_string activeID" and "aead_message cr key nonce (cr_marshal cr rec)"
    and "cr_unmarshal cr (cr_marshal cr rec) = Some rec"
  shows "Codec_Open cr c2 cid2 sealed =
    (if associated envelopeVersion activeID cid2 = associated envelopeVersion activeID cid then Inr rec
     else Inl (ErrText ''store codec: authentication failed''))"
proof -
  let ?macs = "(deriveMACKey cr key ''original'', deriveMACKey cr key ''masked'')"
  have sealed: "sealed = marshal_envelope (seal_envelope cr c nonce cid rec key ?macs)"
    using Seal_result [OF assms(1,5)] assms(3,6) by auto
  have c2: "cd_ciphers c2 activeID = Some key" "cd_macKeys c2 activeID = Some ?macs"
    using NewCodec_result [OF assms(2)] assms(4) by auto
  show ?thesis
    unfolding sealed Open_sealed [OF assms(1,8) c2 assms(7)]
    using assms(9,10) by (auto simp: aead_message_def open_record_def seal_envelope_def)
qed

text \<open>
  C10. A sealed record opens under its own identifier and under no other, also after a key rotation: a codec with
  another active key opens it as long as it still has the key it was sealed under, and returns the record that was
  sealed. Under another identifier, authentication fails. (The cipher authenticates, and the JSON of this record can
  be read back.)
\<close>

theorem sealed_record_opens:
  assumes "NewCodec cr activeID keys = Inr c" and "NewCodec cr activeID2 keys2 = Inr c2"
    and "map_of keys activeID = Some key" and "map_of keys2 activeID = Some key"
    and "Codec_Seal cr c cid rec w = (Inr sealed, w')" and "fst (rand_Read w) = Some nonce" and "length nonce = NonceSize"
    and "valid_string activeID" and "valid_string cid" and "valid_string cid2"
    and "aead_message cr key nonce (cr_marshal cr rec)" and "cr_unmarshal cr (cr_marshal cr rec) = Some rec"
  shows "Codec_Open cr c2 cid2 sealed =
    (if cid2 = cid then Inr rec else Inl (ErrText ''store codec: authentication failed''))"
proof -
  have "associated envelopeVersion activeID cid2 = associated envelopeVersion activeID cid \<longleftrightarrow> cid2 = cid"
    using associated_inject assms(8-10) by blast
  then show ?thesis using sealed_opens [OF assms(1-8,11,12)] by simp
qed

text \<open>A cipher for examples: it writes the associated data, behind their length, in front of the text.\<close>

definition plain_prefix :: "bytes \<Rightarrow> bytes" where
  "plain_prefix a = replicate (length a) (CHR ''1'') @ CHR ''0'' # a"

definition plain_crypto :: "Record \<Rightarrow> crypto" where
  "plain_crypto rec =
     \<lparr>cr_Seal = (\<lambda>k n p a. plain_prefix a @ p),
      cr_Open = (\<lambda>k n c a. if take (length (plain_prefix a)) c = plain_prefix a then Some (drop (length (plain_prefix a)) c) else None),
      cr_hmac = (\<lambda>k v. v), cr_marshal = (\<lambda>r. ''record''), cr_unmarshal = (\<lambda>s. Some rec)\<rparr>"

lemma plain_prefix_unique: "take (length (plain_prefix a')) (plain_prefix a @ p) = plain_prefix a' \<Longrightarrow> a' = a"
proof -
  assume t: "take (length (plain_prefix a')) (plain_prefix a @ p) = plain_prefix a'"
  have ones: "takeWhile (\<lambda>c. c = CHR ''1'') (plain_prefix x @ y) = replicate (length x) (CHR ''1'')" for x y
    by (simp add: plain_prefix_def takeWhile_append)
  have "plain_prefix a @ p = plain_prefix a' @ drop (length (plain_prefix a')) (plain_prefix a @ p)"
    using t append_take_drop_id by metis
  then obtain q where q: "plain_prefix a @ p = plain_prefix a' @ q" by blast
  then have "length a = length a'" using ones [of a p] ones [of a' q] by (metis length_replicate)
  with q show "a' = a" by (simp add: plain_prefix_def)
qed

lemma plain_aead: "aead_message (plain_crypto rec) k n p"
proof -
  have "take (length (plain_prefix a')) (plain_prefix a @ p) \<noteq> plain_prefix a'" if "a' \<noteq> a" for a a'
    using that plain_prefix_unique by blast
  then show ?thesis unfolding aead_message_def plain_crypto_def crypto.simps by (metis append_eq_conv_conj)
qed

lemma sealed_record_opens_witness:
  "\<exists>sealed. fst (Codec_Seal (plain_crypto sample_record)
      \<lparr>cd_activeID = ''a'', cd_ciphers = map_of [(''a'', replicate 32 (CHR ''k''))],
        cd_macKeys = map_option (\<lambda>key. (deriveMACKey (plain_crypto sample_record) key ''original'',
          deriveMACKey (plain_crypto sample_record) key ''masked'')) \<circ> map_of [(''a'', replicate 32 (CHR ''k''))]\<rparr>
      ''id'' sample_record (sample_store\<lparr>w_rand := \<lambda>_. Some (replicate 12 (CHR ''n''))\<rparr>)) = Inr sealed \<and>
    Codec_Open (plain_crypto sample_record)
      \<lparr>cd_activeID = ''b'', cd_ciphers = map_of [(''b'', replicate 32 (CHR ''x'')), (''a'', replicate 32 (CHR ''k''))],
        cd_macKeys = map_option (\<lambda>key. (deriveMACKey (plain_crypto sample_record) key ''original'',
          deriveMACKey (plain_crypto sample_record) key ''masked'')) \<circ>
          map_of [(''b'', replicate 32 (CHR ''x'')), (''a'', replicate 32 (CHR ''k''))]\<rparr>
      ''id'' sealed = Inr sample_record"
proof -
  let ?cr = "plain_crypto sample_record" and ?keys = "[(''a'', replicate 32 (CHR ''k''))]"
  let ?keys2 = "[(''b'', replicate 32 (CHR ''x'')), (''a'', replicate 32 (CHR ''k''))]"
  let ?w = "sample_store\<lparr>w_rand := \<lambda>_. Some (replicate 12 (CHR ''n''))\<rparr>"
  define c where "c = \<lparr>cd_activeID = ''a'', cd_ciphers = map_of ?keys,
    cd_macKeys = map_option (\<lambda>key. (deriveMACKey ?cr key ''original'', deriveMACKey ?cr key ''masked'')) \<circ> map_of ?keys\<rparr>"
  define c2 where "c2 = \<lparr>cd_activeID = ''b'', cd_ciphers = map_of ?keys2,
    cd_macKeys = map_option (\<lambda>key. (deriveMACKey ?cr key ''original'', deriveMACKey ?cr key ''masked'')) \<circ> map_of ?keys2\<rparr>"
  have n1: "NewCodec ?cr ''a'' ?keys = Inr c" and n2: "NewCodec ?cr ''b'' ?keys2 = Inr c2"
    by (simp_all add: NewCodec_def c_def c2_def)
  have r: "fst (rand_Read ?w) = Some (replicate 12 (CHR ''n''))" by (simp add: rand_Read_def)
  then obtain sealed w' where s: "Codec_Seal ?cr c ''id'' sample_record ?w = (Inr sealed, w')"
    by (auto simp: Codec_Seal_def c_def rand_Read_def)
  have "Codec_Open ?cr c2 ''id'' sealed = Inr sample_record"
    using sealed_record_opens [OF n1 n2 _ _ s r, of "replicate 32 (CHR ''k'')" "''id''"]
    by (simp add: NonceSize_def plain_aead byte_def) (simp add: plain_crypto_def)
  with s show ?thesis unfolding c_def c2_def by auto
qed

end
