(* ===== verification/Redis.thy ===== *)
theory Redis
  imports Codec
begin

text \<open>
  \<^verbatim>\<open>internal/pii/store/redis.go\<close>: the shared store. Records are sealed by the codec and kept in a Redis server. The
  client of the server is an argument: \<^verbatim>\<open>Get\<close>, whose answer \<^verbatim>\<open>redis.Nil\<close> is \<^const>\<open>None\<close>, \<^verbatim>\<open>SetNX\<close> with the time to
  live in nanoseconds, and \<^verbatim>\<open>Ping\<close>.
\<close>

record 'w redis_client =
  rc_Get :: "bytes \<Rightarrow> 'w \<Rightarrow> (error + bytes option) \<times> 'w"
  rc_SetNX :: "bytes \<Rightarrow> bytes \<Rightarrow> int \<Rightarrow> 'w \<Rightarrow> (error + bool) \<times> 'w"
  rc_Ping :: "'w \<Rightarrow> error option \<times> 'w"

record 'w RedisStore =
  rs_client :: "'w redis_client"
  rs_codec :: Codec
  rs_ttl :: int
  rs_prefix :: bytes

definition NewRedisStore :: "'w redis_client option \<Rightarrow> Codec option \<Rightarrow> int \<Rightarrow> bytes \<Rightarrow> error + 'w RedisStore" where
  "NewRedisStore client codec ttl pre =
     (case (client, codec) of
        (Some cl, Some c) \<Rightarrow>
          if ttl \<le> 0 then Inl (ErrText ''redis store: positive TTL is required'')
          else
            Inr \<lparr>rs_client = cl, rs_codec = c, rs_ttl = ttl,
              rs_prefix = (if pre = [] then ''alfagen:context:'' else pre)\<rparr>
      | _ \<Rightarrow> Inl (ErrText ''redis store: client and codec are required''))"

definition Redis_Get :: "crypto \<Rightarrow> 'a world_scheme RedisStore \<Rightarrow> bytes \<Rightarrow> 'a world_scheme \<Rightarrow> store_result \<times> 'a world_scheme" where
  "Redis_Get cr s key w =
     (case rc_Get (rs_client s) (rs_prefix s @ key) w of
        (Inl e, w) \<Rightarrow> (Inl e, w)
      | (Inr None, w) \<Rightarrow> (Inr (None, False), w)
      | (Inr (Some val), w) \<Rightarrow>
          (case Codec_Open cr (rs_codec s) (rs_prefix s @ key) val of
             Inl e \<Rightarrow> (Inl e, w)
           | Inr rec \<Rightarrow> (Inr (Some rec, True), w)))"

text \<open>The time to live of a record: \<^const>\<open>None\<close> when it has expired.\<close>

definition redis_ttl :: "'a world_scheme RedisStore \<Rightarrow> Record \<Rightarrow> 'a world_scheme \<Rightarrow> int option \<times> 'a world_scheme" where
  "redis_ttl s rec w =
     (case rec_ExpiresAt rec of
        None \<Rightarrow> (Some (rs_ttl s), w)
      | Some t \<Rightarrow> (case time_Now w of (now, w) \<Rightarrow> (if t - now \<le> 0 then None else Some (t - now), w)))"

definition Redis_CreateIfAbsent ::
  "crypto \<Rightarrow> 'a world_scheme RedisStore \<Rightarrow> bytes \<Rightarrow> Record \<Rightarrow> 'a world_scheme \<Rightarrow> store_result \<times> 'a world_scheme"
where
  "Redis_CreateIfAbsent cr s key rec w =
     (case Codec_Seal cr (rs_codec s) (rs_prefix s @ key) rec w of
        (Inl e, w) \<Rightarrow> (Inl e, w)
      | (Inr val, w) \<Rightarrow>
          (case redis_ttl s rec w of
             (None, w) \<Rightarrow> (Inl (ErrText ''redis store: expired record''), w)
           | (Some ttl, w) \<Rightarrow>
               (case rc_SetNX (rs_client s) (rs_prefix s @ key) val ttl w of
                  (Inl e, w) \<Rightarrow> (Inl e, w)
                | (Inr True, w) \<Rightarrow> (Inr (Some (cloneRecord rec), True), w)
                | (Inr False, w) \<Rightarrow>
                    (case Redis_Get cr s key w of
                       (Inl e, w) \<Rightarrow> (Inl e, w)
                     | (Inr (_, False), w) \<Rightarrow> (Inl (ErrText ''redis store: winner disappeared''), w)
                     | (Inr (stored, True), w) \<Rightarrow> (Inr (stored, False), w)))))"

definition Redis_Check :: "'w RedisStore \<Rightarrow> 'w \<Rightarrow> error option \<times> 'w" where
  "Redis_Check s w = rc_Ping (rs_client s) w"

definition Redis_ops :: "crypto \<Rightarrow> 'a world_scheme RedisStore \<Rightarrow> 'a world_scheme store_ops" where
  "Redis_ops cr s =
     \<lparr>so_Get = Redis_Get cr s, so_CreateIfAbsent = Redis_CreateIfAbsent cr s, so_Check = Some (Redis_Check s)\<rparr>"

section \<open>What the server promises\<close>

text \<open>
  \<open>kv w\<close> is the content of the server in the world \<open>w\<close>, each value with the time at which it expires, and \<open>clk w\<close> is the
  time of the server. A key is not removed or overwritten before its time; it may be gone at any
  moment afterwards, also during a call. \<^verbatim>\<open>SetNX\<close> sets a key only when there is none or its time has
  passed, and the new value lives for the time it was given. A call that fails may have been carried
  out, within these rules.
\<close>

definition redis_kept :: "('w \<Rightarrow> bytes \<rightharpoonup> bytes \<times> int) \<Rightarrow> ('w \<Rightarrow> int) \<Rightarrow> 'w \<Rightarrow> 'w \<Rightarrow> bool" where
  "redis_kept kv clk w w' \<longleftrightarrow>
     clk w \<le> clk w' \<and> (\<forall>k v d. kv w k = Some (v, d) \<and> clk w' < d \<longrightarrow> kv w' k = Some (v, d))"

definition redis_lapsed :: "('w \<Rightarrow> bytes \<rightharpoonup> bytes \<times> int) \<Rightarrow> ('w \<Rightarrow> int) \<Rightarrow> bytes \<Rightarrow> 'w \<Rightarrow> 'w \<Rightarrow> bool" where
  "redis_lapsed kv clk k w w' \<longleftrightarrow> (\<forall>v d. kv w k = Some (v, d) \<longrightarrow> d \<le> clk w')"

definition redis_laws ::
  "'a world_scheme redis_client \<Rightarrow> ('a world_scheme \<Rightarrow> bytes \<rightharpoonup> bytes \<times> int) \<Rightarrow> ('a world_scheme \<Rightarrow> int) \<Rightarrow> bool"
where
  "redis_laws client kv clk \<longleftrightarrow>
     (\<forall>k w r w'. rc_Get client k w = (r, w') \<longrightarrow> redis_kept kv clk w w' \<and>
        (r = Inr None \<longrightarrow> redis_lapsed kv clk k w w') \<and> (\<forall>v. r = Inr (Some v) \<longrightarrow> (\<exists>d. kv w k = Some (v, d)))) \<and>
     (\<forall>k v ttl w r w'. rc_SetNX client k v ttl w = (r, w') \<longrightarrow> redis_kept kv clk w w' \<and>
        (r = Inr True \<longrightarrow> redis_lapsed kv clk k w w' \<and> (\<exists>d. kv w' k = Some (v, d) \<and> clk w + ttl \<le> d)) \<and>
        (r = Inr False \<longrightarrow> kv w k \<noteq> None)) \<and>
     (\<forall>w. redis_kept kv clk w (snd (rand_Read w)) \<and> redis_kept kv clk w (snd (time_Now w)))"

lemma redis_kept_refl [simp]: "redis_kept kv clk w w"
  by (simp add: redis_kept_def)

lemma redis_kept_trans: "redis_kept kv clk w v \<Longrightarrow> redis_kept kv clk v u \<Longrightarrow> redis_kept kv clk w u"
  by (auto simp: redis_kept_def)

lemma redis_keptD: "redis_kept kv clk w w' \<Longrightarrow> kv w k = Some (v, d) \<Longrightarrow> clk w' < d \<Longrightarrow> kv w' k = Some (v, d)"
  by (simp add: redis_kept_def)

lemma redis_Get_law:
  assumes "redis_laws client kv clk" and "rc_Get client k w = (r, w')"
  shows "redis_kept kv clk w w'" "r = Inr None \<Longrightarrow> redis_lapsed kv clk k w w'" "r = Inr (Some v) \<Longrightarrow> \<exists>d. kv w k = Some (v, d)"
  using assms unfolding redis_laws_def by blast+

lemma redis_SetNX_law:
  assumes "redis_laws client kv clk" and "rc_SetNX client k v ttl w = (r, w')"
  shows "redis_kept kv clk w w'" "r = Inr True \<Longrightarrow> redis_lapsed kv clk k w w'"
    "r = Inr True \<Longrightarrow> \<exists>d. kv w' k = Some (v, d) \<and> clk w + ttl \<le> d"
  using assms unfolding redis_laws_def by blast+

lemma redis_source_law:
  "redis_laws client kv clk \<Longrightarrow> redis_kept kv clk w (snd (rand_Read w))"
  "redis_laws client kv clk \<Longrightarrow> redis_kept kv clk w (snd (time_Now w))"
  by (simp_all add: redis_laws_def)

section \<open>What a replica does to the server\<close>

lemma Codec_Seal_world: "Codec_Seal cr c k rec w = (r, w') \<Longrightarrow> w' = w \<or> w' = snd (rand_Read w)"
  by (auto simp: Codec_Seal_def split: option.splits prod.splits)

lemma Codec_Seal_drawn: "Codec_Seal cr c k rec w = (Inr v, w') \<Longrightarrow> w' = snd (rand_Read w)"
  by (auto simp: Codec_Seal_def split: option.splits prod.splits)

lemma redis_ttl_world: "redis_ttl s rec w = (t, w') \<Longrightarrow> w' = w \<or> w' = snd (time_Now w)"
  by (auto simp: redis_ttl_def split: option.splits prod.splits if_splits)

lemma Redis_Get_kept:
  assumes "redis_laws (rs_client s) kv clk" and "Redis_Get cr s key w = (r, w')"
  shows "redis_kept kv clk w w'"
  using assms(2) redis_Get_law(1) [OF assms(1), of "rs_prefix s @ key" w]
  by (auto simp: Redis_Get_def split: sum.splits prod.splits option.splits)

text \<open>The calls of a creation, one after the other.\<close>

lemma Redis_Create_calls:
  assumes "redis_laws (rs_client s) kv clk" and "Redis_CreateIfAbsent cr s key rec w = (r, w')"
  obtains (failed) e where "r = Inl e" "redis_kept kv clk w w'"
  | (created) v ttl a b where "r = Inr (Some rec, True)" "Codec_Seal cr (rs_codec s) (rs_prefix s @ key) rec w = (Inr v, a)"
      "redis_ttl s rec a = (Some ttl, b)" "rc_SetNX (rs_client s) (rs_prefix s @ key) v ttl b = (Inr True, w')"
      "redis_kept kv clk w b" "redis_kept kv clk w w'"
  | (found) stored u where "r = Inr (stored, False)" "redis_kept kv clk w u" "Redis_Get cr s key u = (Inr (stored, True), w')"
      "redis_kept kv clk w w'"
proof -
  obtain sealed a where a: "Codec_Seal cr (rs_codec s) (rs_prefix s @ key) rec w = (sealed, a)" by force
  have ka: "redis_kept kv clk w a"
    using Codec_Seal_world [OF a] redis_source_law(1) [OF assms(1)] by (metis redis_kept_refl)
  show thesis
  proof (cases sealed)
    case (Inl e)
    with assms(2) a have "r = Inl e" "a = w'" by (simp_all add: Redis_CreateIfAbsent_def)
    with ka that(1) show ?thesis by simp
  next
    case v: (Inr v)
    obtain t b where b: "redis_ttl s rec a = (t, b)" by force
    have kb: "redis_kept kv clk w b"
      using redis_ttl_world [OF b] ka redis_source_law(2) [OF assms(1)] redis_kept_trans by metis
    show ?thesis
    proof (cases t)
      case None
      with assms(2) a v b have "r = Inl (ErrText ''redis store: expired record'')" "b = w'"
        by (simp_all add: Redis_CreateIfAbsent_def)
      with kb that(1) show ?thesis by simp
    next
      case ttl: (Some ttl)
      obtain x c where c: "rc_SetNX (rs_client s) (rs_prefix s @ key) v ttl b = (x, c)" by force
      have kc: "redis_kept kv clk w c" using redis_kept_trans [OF kb redis_SetNX_law(1) [OF assms(1) c]] .
      obtain y u where u: "Redis_Get cr s key c = (y, u)" by force
      have ku: "redis_kept kv clk w u" using redis_kept_trans [OF kc Redis_Get_kept [OF assms(1) u]] .
      have step: "(case x of Inl e \<Rightarrow> (Inl e, c) | Inr True \<Rightarrow> (Inr (Some (cloneRecord rec), True), c)
          | Inr False \<Rightarrow> (case y of Inl e \<Rightarrow> (Inl e, u) | Inr (_, False) \<Rightarrow> (Inl (ErrText ''redis store: winner disappeared''), u)
              | Inr (stored, True) \<Rightarrow> (Inr (stored, False), u))) = (r, w')"
        using assms(2) a v b ttl c u by (auto simp: Redis_CreateIfAbsent_def split: sum.splits bool.splits)
      consider e where "x = Inl e" | "x = Inr True" | "x = Inr False" by (cases x) auto
      then show ?thesis
      proof cases
        case (1 e)
        with step have "r = Inl e" "c = w'" by simp_all
        with kc that(1) show ?thesis by simp
      next
        case 2
        with step have "r = Inr (Some rec, True)" "c = w'" by simp_all
        with that(2) [OF _ a [unfolded v] b [unfolded ttl] _ kb] c 2 kc show ?thesis by simp
      next
        case 3
        show ?thesis
        proof (cases y)
          case (Inl e)
          with step 3 have "r = Inl e" "u = w'" by simp_all
          with ku that(1) show ?thesis by simp
        next
          case (Inr p)
          obtain stored f where "p = (stored, f)" by force
          with step 3 Inr u ku kc that(1,3) show ?thesis by (cases f) auto
        qed
      qed
    qed
  qed
qed

text \<open>
  Histories of a server that replicas share: their reads and creations, under any identifier, and
  whatever else happens to the world within the rules of the server.
\<close>

inductive redis_step ::
  "crypto \<Rightarrow> 'a world_scheme redis_client \<Rightarrow> ('a world_scheme \<Rightarrow> bytes \<rightharpoonup> bytes \<times> int) \<Rightarrow> ('a world_scheme \<Rightarrow> int) \<Rightarrow>
   'a world_scheme \<Rightarrow> 'a world_scheme \<Rightarrow> bool"
  for cr client kv clk
where
  redis_read: "rs_client s = client \<Longrightarrow> Redis_Get cr s cid w = (r, w') \<Longrightarrow> redis_step cr client kv clk w w'"
| redis_create: "rs_client s = client \<Longrightarrow> Redis_CreateIfAbsent cr s cid rec w = (r, w') \<Longrightarrow> redis_step cr client kv clk w w'"
| redis_elapse: "redis_kept kv clk w w' \<Longrightarrow> redis_step cr client kv clk w w'"

lemma redis_step_kept:
  assumes "redis_step cr client kv clk w w'" and "redis_laws client kv clk"
  shows "redis_kept kv clk w w'"
  using assms(1)
proof cases
  case (redis_read s cid r)
  then show ?thesis using Redis_Get_kept assms(2) by blast
next
  case (redis_create s cid rec r)
  then show ?thesis using assms(2) by (auto elim!: Redis_Create_calls [rotated])
qed

lemma redis_history_kept:
  assumes "(redis_step cr client kv clk)\<^sup>*\<^sup>* w w'" and "redis_laws client kv clk"
  shows "redis_kept kv clk w w'"
  using assms(1) by (induction rule: rtranclp_induct) (auto intro: redis_kept_trans redis_step_kept [OF _ assms(2)])

section \<open>Replicas agree\<close>

text \<open>A record that is created is on the server as it was sealed, for at least its time to live.\<close>

lemma Redis_created:
  assumes "Redis_CreateIfAbsent cr s key rec w = (Inr (r, True), w')" and "redis_laws (rs_client s) kv clk"
  obtains v d u where "Codec_Seal cr (rs_codec s) (rs_prefix s @ key) rec w = (Inr v, u)" "r = Some rec"
    "kv w' (rs_prefix s @ key) = Some (v, d)" "redis_lapsed kv clk (rs_prefix s @ key) w w'"
    "rec_ExpiresAt rec = None \<Longrightarrow> clk w + rs_ttl s \<le> d"
    "\<And>t. rec_ExpiresAt rec = Some t \<Longrightarrow> clk w + (t - fst (time_Now (snd (rand_Read w)))) \<le> d"
proof (cases rule: Redis_Create_calls [OF assms(2,1)])
  case (2 v ttl a b)
  obtain d where d: "kv w' (rs_prefix s @ key) = Some (v, d)" "clk b + ttl \<le> d"
    using redis_SetNX_law(3) [OF assms(2) 2(4)] by blast
  have "clk w \<le> clk b" using 2(5) by (simp add: redis_kept_def)
  moreover have ttl: "rec_ExpiresAt rec = None \<Longrightarrow> ttl = rs_ttl s"
    "\<And>t. rec_ExpiresAt rec = Some t \<Longrightarrow> ttl = t - fst (time_Now (snd (rand_Read w)))"
    using 2(3) Codec_Seal_drawn [OF 2(2)] by (auto simp: redis_ttl_def split: prod.splits if_splits)
  moreover have "redis_lapsed kv clk (rs_prefix s @ key) w w'"
    unfolding redis_lapsed_def
  proof (intro allI impI)
    fix x e assume x: "kv w (rs_prefix s @ key) = Some (x, e)"
    show "e \<le> clk w'"
    proof (rule ccontr)
      assume e: "\<not> e \<le> clk w'"
      have "clk b \<le> clk w'" using redis_SetNX_law(1) [OF assms(2) 2(4)] by (simp add: redis_kept_def)
      with e x redis_keptD [OF 2(5)] have "kv b (rs_prefix s @ key) = Some (x, e)" by simp
      with redis_SetNX_law(2) [OF assms(2) 2(4)] e show False by (simp add: redis_lapsed_def)
    qed
  qed
  moreover have "rec_ExpiresAt rec = None \<Longrightarrow> clk w + rs_ttl s \<le> d"
    "\<And>t. rec_ExpiresAt rec = Some t \<Longrightarrow> clk w + (t - fst (time_Now (snd (rand_Read w)))) \<le> d"
    using ttl d(2) \<open>clk w \<le> clk b\<close> by fastforce+
  ultimately show thesis using that [OF 2(2) _ d(1)] 2(1) by simp
qed auto

text \<open>While a record of the server lives, whoever can open it reads it, and nobody creates another one.\<close>

lemma live_record_read:
  assumes "redis_laws (rs_client s) kv clk" and "Redis_Get cr s key w = (r, w')"
    and "kv w (rs_prefix s @ key) = Some (v, d)" and "clk w' < d" and "Codec_Open cr (rs_codec s) (rs_prefix s @ key) v = Inr rec"
  shows "r = Inr (Some rec, True) \<or> (\<exists>e. r = Inl e \<and> fst (rc_Get (rs_client s) (rs_prefix s @ key) w) = Inl e)"
proof -
  obtain x u where x: "rc_Get (rs_client s) (rs_prefix s @ key) w = (x, u)" by force
  then have "u = w'" using assms(2) by (auto simp: Redis_Get_def split: sum.splits option.splits)
  with redis_Get_law(2) [OF assms(1) x] assms(3,4) have "x \<noteq> Inr None" by (auto simp: redis_lapsed_def)
  moreover have "y = v" if "x = Inr (Some y)" for y using redis_Get_law(3) [OF assms(1) x that] assms(3) by simp
  ultimately show ?thesis
    using assms(2,5) x by (cases x) (auto simp: Redis_Get_def split: option.splits)
qed

lemma live_record_found:
  assumes "redis_laws (rs_client s) kv clk" and "Redis_CreateIfAbsent cr s key rec2 w = (r, w')"
    and "kv w (rs_prefix s @ key) = Some (v, d)" and "clk w' < d" and "Codec_Open cr (rs_codec s) (rs_prefix s @ key) v = Inr rec"
  shows "r = Inr (Some rec, False) \<or> (\<exists>e. r = Inl e)"
proof (cases rule: Redis_Create_calls [OF assms(1,2)])
  case (2 x ttl a b)
  then have "redis_lapsed kv clk (rs_prefix s @ key) w w'"
    using Redis_created [of cr s key rec2 w _ w' kv clk] assms(1,2) by metis
  with assms(3,4) show ?thesis by (auto simp: redis_lapsed_def)
next
  case (3 stored u)
  have "clk u \<le> clk w'" using Redis_Get_kept [OF assms(1) 3(3)] by (simp add: redis_kept_def)
  then have "kv u (rs_prefix s @ key) = Some (v, d)" using redis_keptD [OF 3(2) assms(3)] assms(4) by simp
  from live_record_read [OF assms(1) 3(3) this assms(4,5)] 3(1) show ?thesis by auto
qed simp

text \<open>An expired record never reaches the server.\<close>

lemma Redis_expired:
  assumes "rec_ExpiresAt rec = Some t" and "t \<le> fst (time_Now (snd (rand_Read w)))"
  shows "\<exists>e u. Redis_CreateIfAbsent cr s key rec w = (Inl e, u)"
  using assms by (cases "Codec_Seal cr (rs_codec s) (rs_prefix s @ key) rec w" rule: prod.exhaust)
    (auto simp: Redis_CreateIfAbsent_def redis_ttl_def dest: Codec_Seal_drawn split: sum.splits prod.splits)

lemma redis_replicas:
  assumes "redis_laws client kv clk" and "rs_client s = client" and "rs_client s2 = client" and "rs_prefix s2 = rs_prefix s"
    and "NewCodec cr activeID keys = Inr (rs_codec s)" and "NewCodec cr activeID2 keys2 = Inr (rs_codec s2)"
    and "map_of keys activeID = Some key" and "map_of keys2 activeID = Some key" and "valid_string activeID"
    and "\<And>nonce. fst (rand_Read w) = Some nonce \<Longrightarrow> length nonce = NonceSize \<and> aead_message cr key nonce (cr_marshal cr rec)"
    and "cr_unmarshal cr (cr_marshal cr rec) = Some rec"
    and "Redis_CreateIfAbsent cr s cid rec w = (Inr (r, True), w1)" and "(redis_step cr client kv clk)\<^sup>*\<^sup>* w1 w2"
  obtains v d where "r = Some rec" "kv w1 (rs_prefix s @ cid) = Some (v, d)"
    "rec_ExpiresAt rec = None \<Longrightarrow> clk w + rs_ttl s \<le> d"
    "\<And>t. rec_ExpiresAt rec = Some t \<Longrightarrow> clk w + (t - fst (time_Now (snd (rand_Read w)))) \<le> d"
    "clk w2 < d \<Longrightarrow> kv w2 (rs_prefix s @ cid) = Some (v, d)"
    "\<And>x w3. Redis_Get cr s2 cid w2 = (x, w3) \<Longrightarrow> clk w3 < d \<Longrightarrow> x = Inr (Some rec, True) \<or> isl (fst (rc_Get client (rs_prefix s @ cid) w2))"
    "\<And>rec2 x w3. Redis_CreateIfAbsent cr s2 cid rec2 w2 = (x, w3) \<Longrightarrow> clk w3 < d \<Longrightarrow> x = Inr (Some rec, False) \<or> isl x"
proof -
  let ?k = "rs_prefix s @ cid"
  obtain v d u where v: "Codec_Seal cr (rs_codec s) ?k rec w = (Inr v, u)" "r = Some rec" "kv w1 ?k = Some (v, d)"
    "rec_ExpiresAt rec = None \<Longrightarrow> clk w + rs_ttl s \<le> d"
    "\<And>t. rec_ExpiresAt rec = Some t \<Longrightarrow> clk w + (t - fst (time_Now (snd (rand_Read w)))) \<le> d"
    using Redis_created [OF assms(12)] assms(1,2) by metis
  obtain nonce where n: "fst (rand_Read w) = Some nonce" using Seal_result [OF assms(5) v(1)] by metis
  have open2: "Codec_Open cr (rs_codec s2) ?k v = Inr rec"
    using sealed_opens [OF assms(5-8) v(1) n _ assms(9) _ assms(11), of ?k] assms(10) [OF n] by simp
  have live: "clk w2 < d \<Longrightarrow> kv w2 ?k = Some (v, d)"
    using redis_keptD [OF redis_history_kept [OF assms(13,1)] v(3)] .
  have later: "redis_kept kv clk w2 w3 \<Longrightarrow> clk w3 < d \<Longrightarrow> kv w2 ?k = Some (v, d)" for w3
    using live by (simp add: redis_kept_def)
  note laws = assms(1) [folded assms(3)]
  have get: "x = Inr (Some rec, True) \<or> isl (fst (rc_Get client ?k w2))"
    if "Redis_Get cr s2 cid w2 = (x, w3)" "clk w3 < d" for x w3
    using live_record_read [OF laws that(1), unfolded assms(3,4), OF later [OF Redis_Get_kept [OF laws that(1)] that(2)] that(2) open2]
    by auto
  have create: "x = Inr (Some rec, False) \<or> isl x"
    if c: "Redis_CreateIfAbsent cr s2 cid rec2 w2 = (x, w3)" "clk w3 < d" for rec2 x w3
  proof -
    have "redis_kept kv clk w2 w3" by (cases rule: Redis_Create_calls [OF laws c(1)])
    from live_record_found [OF laws c(1), unfolded assms(4), OF later [OF this c(2)] c(2) open2] show ?thesis by auto
  qed
  show thesis using that [OF v(2-5) live get create] .
qed

text \<open>
  C11. Replicas that share a Redis server agree on a record. Once one of them has created it, the record keeps its place
  for at least its time to live, whatever reads and creations of any replica follow and in whatever
  order. During this time every replica that still has the key it was sealed under, whatever its own
  active key is, reads exactly this record, or passes on an error of the client; and no creation under
  the identifier succeeds a second time: it returns this record and says that it is not new, or fails.
\<close>

theorem redis_replicas_agree:
  assumes "redis_laws client kv clk" and "rs_client s = client" and "rs_client s2 = client" and "rs_prefix s2 = rs_prefix s"
    and "NewCodec cr activeID keys = Inr (rs_codec s)" and "NewCodec cr activeID2 keys2 = Inr (rs_codec s2)"
    and "map_of keys activeID = Some key" and "map_of keys2 activeID = Some key" and "valid_string activeID"
    and "\<And>nonce. fst (rand_Read w) = Some nonce \<Longrightarrow> length nonce = NonceSize \<and> aead_message cr key nonce (cr_marshal cr rec)"
    and "cr_unmarshal cr (cr_marshal cr rec) = Some rec"
    and "Redis_CreateIfAbsent cr s cid rec w = (Inr (r, True), w1)" and "(redis_step cr client kv clk)\<^sup>*\<^sup>* w1 w2"
  shows "\<exists>v d. r = Some rec \<and> kv w1 (rs_prefix s @ cid) = Some (v, d) \<and>
    (rec_ExpiresAt rec = None \<longrightarrow> clk w + rs_ttl s \<le> d) \<and>
    (\<forall>t. rec_ExpiresAt rec = Some t \<longrightarrow> clk w + (t - fst (time_Now (snd (rand_Read w)))) \<le> d) \<and>
    (clk w2 < d \<longrightarrow> kv w2 (rs_prefix s @ cid) = Some (v, d)) \<and>
    (\<forall>x w3. Redis_Get cr s2 cid w2 = (x, w3) \<and> clk w3 < d \<longrightarrow>
      x = Inr (Some rec, True) \<or> isl (fst (rc_Get client (rs_prefix s @ cid) w2))) \<and>
    (\<forall>rec2 x w3. Redis_CreateIfAbsent cr s2 cid rec2 w2 = (x, w3) \<and> clk w3 < d \<longrightarrow> x = Inr (Some rec, False) \<or> isl x)"
proof (rule redis_replicas [OF assms])
  fix v d
  assume *: "r = Some rec" "kv w1 (rs_prefix s @ cid) = Some (v, d)" "rec_ExpiresAt rec = None \<Longrightarrow> clk w + rs_ttl s \<le> d"
    "\<And>t. rec_ExpiresAt rec = Some t \<Longrightarrow> clk w + (t - fst (time_Now (snd (rand_Read w)))) \<le> d"
    "clk w2 < d \<Longrightarrow> kv w2 (rs_prefix s @ cid) = Some (v, d)"
    "\<And>x w3. Redis_Get cr s2 cid w2 = (x, w3) \<Longrightarrow> clk w3 < d \<Longrightarrow> x = Inr (Some rec, True) \<or> isl (fst (rc_Get client (rs_prefix s @ cid) w2))"
    "\<And>rec2 x w3. Redis_CreateIfAbsent cr s2 cid rec2 w2 = (x, w3) \<Longrightarrow> clk w3 < d \<Longrightarrow> x = Inr (Some rec, False) \<or> isl x"
  show ?thesis by (intro exI [of _ v] exI [of _ d] conjI allI impI) (use * in blast)+
qed

text \<open>A server for examples, with a clock of its own: a value counts as long as its time has not come.\<close>

record example_world = world +
  ew_kv :: "bytes \<rightharpoonup> bytes \<times> int"
  ew_now :: int

definition example_live :: "example_world \<Rightarrow> bytes \<Rightarrow> bytes option" where
  "example_live w k = (case ew_kv w k of None \<Rightarrow> None | Some (v, d) \<Rightarrow> if ew_now w < d then Some v else None)"

definition example_client :: "example_world redis_client" where
  "example_client =
     \<lparr>rc_Get = (\<lambda>k w. (Inr (example_live w k), w)),
      rc_SetNX = (\<lambda>k v ttl w.
        if example_live w k = None then (Inr True, w\<lparr>ew_kv := (ew_kv w)(k \<mapsto> (v, ew_now w + ttl))\<rparr>) else (Inr False, w)),
      rc_Ping = (\<lambda>w. (None, w))\<rparr>"

lemma example_laws: "redis_laws example_client ew_kv ew_now"
  by (auto simp: redis_laws_def redis_kept_def redis_lapsed_def example_client_def example_live_def rand_Read_def time_Now_def
      split: option.splits prod.splits if_splits)

definition example_codec :: "bytes \<Rightarrow> (bytes \<times> bytes) list \<Rightarrow> Codec" where
  "example_codec active keys = projr (NewCodec (plain_crypto sample_record) active keys)"

definition example_world :: example_world where
  "example_world = \<lparr>w_ctx = \<lambda>_. None, w_polls = 0, w_clock = \<lambda>_. 0, w_times = 0,
     w_rand = \<lambda>_. Some (replicate 12 (CHR ''n'')), w_draws = 0, w_reqid = [], w_log = [], ew_kv = Map.empty, ew_now = 0\<rparr>"

lemma example_now:
  assumes "rs_client s = example_client"
  shows "ew_now (snd (Redis_CreateIfAbsent cr s key rec w)) = ew_now w"
proof -
  have src: "ew_now (snd (rand_Read w)) = ew_now w" "ew_now (snd (time_Now w)) = ew_now w" for w :: example_world
    by (simp_all add: rand_Read_def time_Now_def)
  have get: "ew_now w' = ew_now w" if "Redis_Get cr s key w = (r, w')" for r w w'
    using that assms by (auto simp: Redis_Get_def example_client_def split: sum.splits option.splits)
  have set: "ew_now w' = ew_now w" if "rc_SetNX (rs_client s) k v ttl w = (r, w')" for k v ttl r w w'
    using that assms by (auto simp: example_client_def split: if_splits)
  have seal: "ew_now w' = ew_now w" if "Codec_Seal cr c k rec w = (r, w')" for c k r and w w' :: example_world
    using Codec_Seal_world [OF that] src by auto
  have ttl: "ew_now w' = ew_now w" if "redis_ttl s rec w = (r, w')" for r w w'
    using redis_ttl_world [OF that] src by auto
  show ?thesis
    by (auto simp: Redis_CreateIfAbsent_def split: prod.splits sum.splits option.splits bool.splits dest!: get set seal ttl)
qed

text \<open>
  One replica creates the record; another one, with another active key, tries to create a different
  one, five nanoseconds pass, and it still reads the first.
\<close>

lemma redis_replicas_agree_witness:
  "\<exists>s s2 w1 w2. Redis_CreateIfAbsent (plain_crypto sample_record) s ''i'' sample_record example_world = (Inr (Some sample_record, True), w1) \<and>
    cd_activeID (rs_codec s) \<noteq> cd_activeID (rs_codec s2) \<and>
    w2 = snd (Redis_CreateIfAbsent (plain_crypto sample_record) s2 ''i'' (sample_record\<lparr>rec_Original := ''zz''\<rparr>) w1)\<lparr>ew_now := 5\<rparr> \<and>
    fst (Redis_Get (plain_crypto sample_record) s2 ''i'' w2) = Inr (Some sample_record, True)"
proof -
  let ?cr = "plain_crypto sample_record" and ?k = "replicate 32 (CHR ''k'')" and ?rec2 = "sample_record\<lparr>rec_Original := ''zz''\<rparr>"
  define keys keys2 where "keys = [(''a'', ?k)]" and "keys2 = [(''b'', replicate 32 (CHR ''x'')), (''a'', ?k)]"
  define c c2 where "c = example_codec ''a'' keys" and "c2 = example_codec ''b'' keys2"
  define s s2 where "s = \<lparr>rs_client = example_client, rs_codec = c, rs_ttl = 9, rs_prefix = ''p:''\<rparr>"
    and "s2 = \<lparr>rs_client = example_client, rs_codec = c2, rs_ttl = 9, rs_prefix = ''p:''\<rparr>"
  have n: "NewCodec ?cr ''a'' keys = Inr (rs_codec s)" "NewCodec ?cr ''b'' keys2 = Inr (rs_codec s2)"
    by (simp_all add: NewCodec_def s_def s2_def c_def c2_def keys_def keys2_def example_codec_def)
  obtain w1 where w1: "Redis_CreateIfAbsent ?cr s ''i'' sample_record example_world = (Inr (Some sample_record, True), w1)"
    using NewCodec_result [OF n(1)]
    by (auto simp: Redis_CreateIfAbsent_def Codec_Seal_def redis_ttl_def s_def example_client_def example_live_def example_world_def
        keys_def rand_Read_def sample_record_def)
  have client: "rs_client s = example_client" "rs_client s2 = example_client" by (simp_all add: s_def s2_def)
  define u where "u = snd (Redis_CreateIfAbsent ?cr s2 ''i'' ?rec2 w1)"
  define w2 where "w2 = u\<lparr>ew_now := 5\<rparr>"
  have u: "redis_step ?cr example_client ew_kv ew_now w1 u"
    by (rule redis_create [OF client(2)]) (unfold u_def, rule prod.collapse [symmetric])
  have "ew_now w1 = 0" "ew_now u = 0"
    using example_now [OF client(1), of ?cr "''i''" sample_record example_world] example_now [OF client(2), of ?cr "''i''" ?rec2 w1] w1
    by (simp_all add: u_def example_world_def)
  then have "redis_step ?cr example_client ew_kv ew_now u w2"
    by (intro redis_elapse) (simp add: redis_kept_def w2_def)
  with u have h: "(redis_step ?cr example_client ew_kv ew_now)\<^sup>*\<^sup>* w1 w2" by auto
  have rand: "length nonce = NonceSize \<and> aead_message ?cr ?k nonce (cr_marshal ?cr sample_record)"
    if "fst (rand_Read example_world) = Some nonce" for nonce
    using that plain_aead by (auto simp: rand_Read_def example_world_def NonceSize_def)
  obtain x w3 where g: "Redis_Get ?cr s2 ''i'' w2 = (x, w3)" by force
  have "w3 = w2" using g by (auto simp: Redis_Get_def s2_def example_client_def split: option.splits sum.splits)
  have pre: "rs_prefix s2 = rs_prefix s" "map_of keys ''a'' = Some ?k" "map_of keys2 ''a'' = Some ?k" "valid_string ''a''"
      "cr_unmarshal ?cr (cr_marshal ?cr sample_record) = Some sample_record"
    by (simp_all add: s_def s2_def keys_def keys2_def byte_def plain_crypto_def)
  have ex: "rec_ExpiresAt sample_record = None" by (simp add: sample_record_def)
  from redis_replicas_agree [OF example_laws client pre(1) n pre(2,3,4) rand pre(5) w1 h] ex
  obtain d where d: "ew_now example_world + rs_ttl s \<le> d"
    "\<forall>x w3. Redis_Get ?cr s2 ''i'' w2 = (x, w3) \<and> ew_now w3 < d \<longrightarrow>
      x = Inr (Some sample_record, True) \<or> isl (fst (rc_Get example_client (rs_prefix s @ ''i'') w2))"
    by blast
  have "ew_now w3 < d" using d(1) \<open>w3 = w2\<close> by (simp add: example_world_def s_def w2_def)
  with d(2) g have "x = Inr (Some sample_record, True) \<or> isl (fst (rc_Get example_client (rs_prefix s @ ''i'') w2))" by blast
  then have "x = Inr (Some sample_record, True)" by (auto simp: example_client_def)
  moreover have "cd_activeID (rs_codec s) \<noteq> cd_activeID (rs_codec s2)" using NewCodec_result(1) n by fastforce
  ultimately show ?thesis using w1 g unfolding w2_def u_def by (metis fst_conv)
qed

end
