(* ===== verification/Request_Decoding.thy ===== *)
theory Request_Decoding
  imports Json_Parse World "HOL-Library.Word"
begin

text \<open>
  \<^verbatim>\<open>internal/proxy/decode.go\<close>: the strict decoding of request bodies, with the token stream of \<^verbatim>\<open>json.Decoder\<close> that it
  works on.
\<close>

unbundle bit_operations_syntax

section \<open>The token stream of a decoder\<close>

datatype token_state =
    TopValue
  | ArrayStart | ArrayValue | ArrayComma
  | ObjectStart | ObjectKey | ObjectColon | ObjectValue | ObjectComma

record decoder =
  dec_state :: token_state
  dec_stack :: "token_state list"
  dec_rest :: "rune list"

definition NewDecoder :: "bytes \<Rightarrow> decoder" where
  "NewDecoder s = \<lparr>dec_state = TopValue, dec_stack = [], dec_rest = runes s\<rparr>"

datatype token = Delim rune | Scalar json

datatype token_error = EOF | SyntaxError | RangeError

text \<open>
  A number becomes a \<^verbatim>\<open>float64\<close>, and one that is too large for that is an error: its absolute value,
  rounded to the nearest such number, must not reach \<open>2 ^ 1024\<close>. As in \<^verbatim>\<open>strconv\<close>, an exponent of more
  than five digits counts with its first five.
\<close>

definition exponent_value :: "rune list \<Rightarrow> int" where
  "exponent_value ds = foldl (\<lambda>e d. if e < 10000 then 10 * e + (int d - 0x30) else e) 0 ds"

definition below_float_limit :: "int \<Rightarrow> int \<Rightarrow> bool" where
  "below_float_limit m e \<longleftrightarrow>
     m = 0 \<or> (if 0 \<le> e then m * 10 ^ nat e < 2 ^ 1024 - 2 ^ 970 else m < (2 ^ 1024 - 2 ^ 970) * 10 ^ nat (- e))"

definition number_fits :: "rune list \<Rightarrow> bool" where
  "number_fits ds =
     (let ds = (if take 1 ds = [0x2D] then drop 1 ds else ds);
          whole = takeWhile is_digit_rune ds;
          rest = dropWhile is_digit_rune ds;
          point = (take 1 rest = [0x2E]);
          fraction = (if point then takeWhile is_digit_rune (drop 1 rest) else []);
          rest = drop 1 (if point then dropWhile is_digit_rune (drop 1 rest) else rest);
          minus = (take 1 rest = [0x2D]);
          digits = (if minus \<or> take 1 rest = [0x2B] then drop 1 rest else rest);
          exponent = (if minus then - exponent_value digits else exponent_value digits)
      in below_float_limit (digits_value (whole @ fraction)) (exponent - int (length fraction)))"

definition scalar_fits :: "json \<Rightarrow> bool" where
  "scalar_fits v = (case v of JNumber ds \<Rightarrow> number_fits ds | _ \<Rightarrow> True)"

definition value_allowed :: "token_state \<Rightarrow> bool" where
  "value_allowed st \<longleftrightarrow> st \<in> {TopValue, ArrayStart, ArrayValue, ObjectValue}"

definition value_end :: "token_state \<Rightarrow> token_state" where
  "value_end st =
     (case st of ArrayStart \<Rightarrow> ArrayComma | ArrayValue \<Rightarrow> ArrayComma | ObjectValue \<Rightarrow> ObjectComma | st \<Rightarrow> st)"

definition open_delim :: "rune \<Rightarrow> token_state \<Rightarrow> decoder \<Rightarrow> rune list \<Rightarrow> (token_error + token) \<times> decoder" where
  "open_delim c st d t =
     (if value_allowed (dec_state d)
      then (Inr (Delim c), d\<lparr>dec_stack := dec_state d # dec_stack d, dec_state := st, dec_rest := t\<rparr>)
      else (Inl SyntaxError, d))"

definition close_delim :: "rune \<Rightarrow> token_state set \<Rightarrow> decoder \<Rightarrow> rune list \<Rightarrow> (token_error + token) \<times> decoder" where
  "close_delim c sts d t =
     (case dec_stack d of
        st # stack \<Rightarrow>
          if dec_state d \<in> sts then (Inr (Delim c), d\<lparr>dec_stack := stack, dec_state := value_end st, dec_rest := t\<rparr>)
          else (Inl SyntaxError, d)
      | [] \<Rightarrow> (Inl SyntaxError, d))"

text \<open>A token behind the separator.\<close>

definition token_at :: "decoder \<Rightarrow> (token_error + token) \<times> decoder" where
  "token_at d =
     (case skip_space (dec_rest d) of
        [] \<Rightarrow> (Inl EOF, d)
      | c # t \<Rightarrow>
          if c = 0x5B then open_delim c ArrayStart d t
          else if c = 0x5D then close_delim c {ArrayStart, ArrayComma} d t
          else if c = 0x7B then open_delim c ObjectStart d t
          else if c = 0x7D then close_delim c {ObjectStart, ObjectComma} d t
          else if c = 0x22 \<and> dec_state d \<in> {ObjectStart, ObjectKey} then
            (case unquote t of
               None \<Rightarrow> (Inl SyntaxError, d)
             | Some (rs, u) \<Rightarrow> (Inr (Scalar (JString rs)), d\<lparr>dec_state := ObjectColon, dec_rest := u\<rparr>))
          else if value_allowed (dec_state d) then
            (case parse_json (c # t) of
               None \<Rightarrow> (Inl SyntaxError, d)
             | Some (v, u) \<Rightarrow>
                 (if scalar_fits v then Inr (Scalar v) else Inl RangeError,
                  d\<lparr>dec_state := value_end (dec_state d), dec_rest := u\<rparr>))
          else (Inl SyntaxError, d))"

definition dec_Token :: "decoder \<Rightarrow> (token_error + token) \<times> decoder" where
  "dec_Token d =
     (case skip_space (dec_rest d) of
        [] \<Rightarrow> (Inl EOF, d)
      | c # t \<Rightarrow>
          if c = 0x3A \<and> dec_state d = ObjectColon then token_at (d\<lparr>dec_state := ObjectValue, dec_rest := t\<rparr>)
          else if c = 0x2C \<and> dec_state d = ArrayComma then token_at (d\<lparr>dec_state := ArrayValue, dec_rest := t\<rparr>)
          else if c = 0x2C \<and> dec_state d = ObjectComma then token_at (d\<lparr>dec_state := ObjectKey, dec_rest := t\<rparr>)
          else token_at d)"

definition dec_More :: "decoder \<Rightarrow> bool" where
  "dec_More d = (case skip_space (dec_rest d) of [] \<Rightarrow> False | c # t \<Rightarrow> c \<noteq> 0x5D \<and> c \<noteq> 0x7D)"

text \<open>\<^verbatim>\<open>Decode\<close> reads a whole value; a separator in front of it must be there.\<close>

definition prepare_decode :: "decoder \<Rightarrow> decoder option" where
  "prepare_decode d =
     (if dec_state d = ArrayComma \<or> dec_state d = ObjectColon then
        (case skip_space (dec_rest d) of
           [] \<Rightarrow> None
         | c # t \<Rightarrow>
             if dec_state d = ArrayComma then
               (if c = 0x2C then Some (d\<lparr>dec_state := ArrayValue, dec_rest := t\<rparr>) else None)
             else (if c = 0x3A then Some (d\<lparr>dec_state := ObjectValue, dec_rest := t\<rparr>) else None))
      else if value_allowed (dec_state d) then Some d
      else None)"

definition dec_Decode :: "decoder \<Rightarrow> (json \<times> decoder) option" where
  "dec_Decode d =
     (case prepare_decode d of
        None \<Rightarrow> None
      | Some d \<Rightarrow>
          (case parse_json (dec_rest d) of
             None \<Rightarrow> None
           | Some (v, t) \<Rightarrow> Some (v, d\<lparr>dec_state := value_end (dec_state d), dec_rest := t\<rparr>)))"

text \<open>A value for a \<^verbatim>\<open>*string\<close>: null gives nil.\<close>

definition string_pointer :: "json \<Rightarrow> bytes option option" where
  "string_pointer v = (case v of JString rs \<Rightarrow> Some (Some (of_runes rs)) | JNull \<Rightarrow> Some None | _ \<Rightarrow> None)"

lemma parse_json_shorter: "parse_json s = Some (v, t) \<Longrightarrow> length t < length s"
  unfolding parse_json_def by (rule parse_shorter(1))

lemma token_at_length: "length (dec_rest (snd (token_at d))) \<le> length (dec_rest d)"
  by (auto simp: token_at_def open_delim_def close_delim_def split: list.splits option.splits
      dest!: skip_space_shorter unquote_shorter parse_json_shorter)

lemma dec_Token_length: "length (dec_rest (snd (dec_Token d))) \<le> length (dec_rest d)"
  using token_at_length [of "d\<lparr>dec_state := st, dec_rest := t\<rparr>" for st t] token_at_length [of d]
  by (auto simp: dec_Token_def split: list.splits dest!: skip_space_shorter) (meson le_trans less_imp_le)+

lemma dec_Decode_shorter:
  assumes "dec_Decode d = Some (v, d')"
  shows "length (dec_rest d') < length (dec_rest d)"
proof -
  obtain e where e: "prepare_decode d = Some e" using assms by (auto simp: dec_Decode_def split: option.splits)
  then have "length (dec_rest e) \<le> length (dec_rest d)"
    by (auto simp: prepare_decode_def split: if_splits list.splits dest!: skip_space_shorter)
  with e assms show ?thesis by (auto simp: dec_Decode_def split: option.splits dest!: parse_json_shorter)
qed

section \<open>Request bodies\<close>

datatype proxy_error = ErrInvalidJSON | ErrMissingField | ErrExtraField | ErrBodyTooLarge | ErrOf error

text \<open>The first position of a name in the list.\<close>

fun slices_Index :: "'a list \<Rightarrow> 'a \<Rightarrow> nat option" where
  "slices_Index [] x = None"
| "slices_Index (y # ys) x = (if y = x then Some 0 else map_option Suc (slices_Index ys x))"

function decodeFields ::
  "decoder \<Rightarrow> bytes list \<Rightarrow> bytes option list \<Rightarrow> 32 word \<Rightarrow> proxy_error + bytes option list \<times> decoder"
where
  "decodeFields d allowed vals seen =
     (if \<not> dec_More d then Inr (vals, d)
      else
        (case dec_Token d of
           (Inr (Scalar (JString rs)), d1) \<Rightarrow>
             (case slices_Index allowed (of_runes rs) of
                None \<Rightarrow> Inl ErrExtraField
              | Some index \<Rightarrow>
                  if bit seen index then Inl ErrExtraField
                  else
                    (case dec_Decode d1 of
                       None \<Rightarrow> Inl ErrInvalidJSON
                     | Some (v, d2) \<Rightarrow>
                         (case string_pointer v of
                            None \<Rightarrow> Inl ErrInvalidJSON
                          | Some p \<Rightarrow> decodeFields d2 allowed (vals[index := p]) (seen OR push_bit index 1))))
         | _ \<Rightarrow> Inl ErrInvalidJSON))"
  by pat_completeness auto
termination
proof (relation "measure (\<lambda>(d, allowed, vals, seen). length (dec_rest d))", goal_cases)
  case (2 d allowed vals seen x d1 y v rs index z u d2)
  then have "dec_Decode d1 = Some (u, d2)" "d1 = snd (dec_Token d)" by (simp, metis snd_conv)
  then show ?case using dec_Token_length [of d] dec_Decode_shorter [of d1 u d2] by simp
qed simp

declare decodeFields.simps [simp del]

text \<open>
  The body of a request: the bytes that arrive, and whether reading behind them fails. \<^verbatim>\<open>io.LimitReader\<close> stops after
  \<open>n\<close> bytes; the sum \<^verbatim>\<open>maxBytes+1\<close> is one of \<^verbatim>\<open>int64\<close>.
\<close>

record request_body =
  rb_bytes :: bytes
  rb_fails :: bool

definition read_limited :: "request_body \<Rightarrow> int \<Rightarrow> bytes option" where
  "read_limited b n =
     (if n \<le> 0 then Some []
      else if n \<le> int (length (rb_bytes b)) then Some (take (nat n) (rb_bytes b))
      else if rb_fails b then None
      else Some (rb_bytes b))"

definition int64_succ :: "int \<Rightarrow> int" where
  "int64_succ n = sint (word_of_int n + 1 :: 64 word)"

definition decode_document :: "bytes \<Rightarrow> bytes list \<Rightarrow> proxy_error + bytes option list" where
  "decode_document body allowed =
     (if \<not> valid_string body then Inl ErrInvalidJSON
      else
        (case dec_Token (NewDecoder body) of
           (Inr (Delim c), d) \<Rightarrow>
             if c \<noteq> 0x7B then Inl ErrInvalidJSON
             else
               (case decodeFields d allowed (replicate (length allowed) None) 0 of
                  Inl e \<Rightarrow> Inl e
                | Inr (vals, d) \<Rightarrow>
                    (case dec_Token d of
                       (Inl e, d) \<Rightarrow> Inl ErrInvalidJSON
                     | (Inr t, d) \<Rightarrow> if fst (dec_Token d) = Inl EOF then Inr vals else Inl ErrExtraField))
         | _ \<Rightarrow> Inl ErrInvalidJSON))"

text \<open>A context that is done stays done, so its error is read once.\<close>

definition decodeObject ::
  "request_body \<Rightarrow> int \<Rightarrow> bytes list \<Rightarrow> 'a world_scheme \<Rightarrow> (proxy_error + bytes option list) \<times> 'a world_scheme"
where
  "decodeObject b maxBytes allowed w =
     (case read_limited b (int64_succ maxBytes) of
        None \<Rightarrow> (case ctx_Err w of (Some e, w) \<Rightarrow> (Inl (ErrOf e), w) | (None, w) \<Rightarrow> (Inl ErrInvalidJSON, w))
      | Some body \<Rightarrow>
          (if int (length body) > maxBytes then Inl ErrBodyTooLarge else decode_document body allowed, w))"

record request =
  req_Payload :: bytes
  req_PayloadID :: bytes

definition request_fields :: "bytes list" where "request_fields = [''payload'', ''payload_id'']"

definition decodeRequest :: "request_body \<Rightarrow> int \<Rightarrow> 'a world_scheme \<Rightarrow> (proxy_error + request) \<times> 'a world_scheme" where
  "decodeRequest b maxBytes w =
     (case decodeObject b maxBytes request_fields w of
        (Inl e, w) \<Rightarrow> (Inl e, w)
      | (Inr vals, w) \<Rightarrow>
          (case (vals ! 0, vals ! 1) of
             (Some payload, Some payload_id) \<Rightarrow>
               (if payload_id = [] then Inl ErrMissingField
                else Inr \<lparr>req_Payload = payload, req_PayloadID = payload_id\<rparr>, w)
           | _ \<Rightarrow> (Inl ErrMissingField, w)))"

section \<open>Strict decoding accepts exactly the right documents\<close>

text \<open>What the loop does, on the members of a parsed object.\<close>

fun assign_fields :: "bytes list \<Rightarrow> (rune list \<times> json) list \<Rightarrow> bytes option list \<Rightarrow> 32 word \<Rightarrow> bytes option list option" where
  "assign_fields allowed [] vals seen = Some vals"
| "assign_fields allowed ((name, v) # ms) vals seen =
     (case slices_Index allowed (of_runes name) of
        None \<Rightarrow> None
      | Some index \<Rightarrow>
          if bit seen index then None
          else
            (case string_pointer v of
               None \<Rightarrow> None
             | Some p \<Rightarrow> assign_fields allowed ms (vals[index := p]) (seen OR push_bit index 1)))"

text \<open>The rest of an object behind its opening brace, or behind a member.\<close>

definition object_rest :: "nat \<Rightarrow> nat \<Rightarrow> token_state \<Rightarrow> rune list \<Rightarrow> ((rune list \<times> json) list \<times> rune list) option" where
  "object_rest n d st s =
     (case skip_space s of
        [] \<Rightarrow> None
      | c # u \<Rightarrow>
          if c = 0x7D then Some ([], u)
          else if st = ObjectStart then parse_members n d s
          else if c = 0x2C then parse_members n d u
          else None)"

lemma parse_members_rest:
  "parse_members (Suc n) d s =
     (case skip_space s of
        [] \<Rightarrow> None
      | q # t \<Rightarrow>
          if q \<noteq> 0x22 then None
          else
            (case unquote t of
               None \<Rightarrow> None
             | Some (name, t) \<Rightarrow>
                 (case skip_space t of
                    [] \<Rightarrow> None
                  | k # t \<Rightarrow>
                      if k \<noteq> 0x3A then None
                      else
                        (case parse_value n d t of
                           None \<Rightarrow> None
                         | Some (v, t) \<Rightarrow> map_option (\<lambda>(ms, w). ((name, v) # ms, w)) (object_rest n d ObjectComma t)))))"
  by (auto simp: object_rest_def split: list.splits option.splits)

lemma expect_value: "expect word v s = Some (j, t) \<Longrightarrow> j = v"
  by (simp add: expect_def split: if_splits)

text \<open>A string or null is read the same way at every depth.\<close>

lemma parse_simple_value:
  assumes "parse_value (Suc n) d s = Some (v, t)" and "string_pointer v = Some p"
  shows "parse_value (Suc m) e s = Some (v, t)"
  using assms by (auto simp: string_pointer_def split: list.splits if_splits dest: expect_value)

lemma parse_simple_json:
  assumes "0 < n"
  shows "(\<exists>p. string_pointer v = Some p) \<Longrightarrow> parse_json s = Some (v, t) \<longleftrightarrow> parse_value n d s = Some (v, t)"
  using assms parse_simple_value unfolding parse_json_def by (metis gr0_conv_Suc)

text \<open>The next key.\<close>

definition key_start :: "token_state \<Rightarrow> rune list \<Rightarrow> rune list option" where
  "key_start st s =
     (if st = ObjectStart then Some s
      else (case skip_space s of c # u \<Rightarrow> if c = 0x2C then Some u else None | [] \<Rightarrow> None))"

definition read_key :: "token_state \<Rightarrow> rune list \<Rightarrow> (rune list \<times> rune list) option" where
  "read_key st s =
     (case key_start st s of
        None \<Rightarrow> None
      | Some q \<Rightarrow> (case skip_space q of c # t \<Rightarrow> if c = 0x22 then unquote t else None | [] \<Rightarrow> None))"

lemma skip_space_idem [simp]: "skip_space (skip_space s) = skip_space s"
  by (simp add: skip_space_def)

lemma key_token_at:
  assumes "dec_state d \<in> {ObjectStart, ObjectKey}" and "\<And>u. skip_space (dec_rest d) \<noteq> 0x7D # u \<or> dec_state d = ObjectKey"
  shows "(case skip_space (dec_rest d) of
            c # t \<Rightarrow> if c = 0x22 then unquote t else None | [] \<Rightarrow> None) = Some (rs, u) \<Longrightarrow>
      token_at d = (Inr (Scalar (JString rs)), d\<lparr>dec_state := ObjectColon, dec_rest := u\<rparr>)"
    and "(case skip_space (dec_rest d) of
            c # t \<Rightarrow> if c = 0x22 then unquote t else None | [] \<Rightarrow> None) = None \<Longrightarrow>
      \<exists>e d'. token_at d = (Inl e, d')"
  using assms
  by (auto simp: token_at_def open_delim_def close_delim_def value_allowed_def split: list.splits if_splits option.splits)

lemma Token_key:
  assumes "dec_state d \<in> {ObjectStart, ObjectComma}" and "dec_More d"
  shows "read_key (dec_state d) (dec_rest d) = Some (rs, u) \<Longrightarrow>
      dec_Token d = (Inr (Scalar (JString rs)), d\<lparr>dec_state := ObjectColon, dec_rest := u\<rparr>)"
    and "read_key (dec_state d) (dec_rest d) = None \<Longrightarrow> \<exists>e d'. dec_Token d = (Inl e, d')"
proof -
  obtain c t where c: "skip_space (dec_rest d) = c # t" "c \<noteq> 0x7D" "c \<noteq> 0x5D"
    using assms(2) by (auto simp: dec_More_def split: list.splits)
  have "(read_key (dec_state d) (dec_rest d) = Some (rs, u) \<longrightarrow>
      dec_Token d = (Inr (Scalar (JString rs)), d\<lparr>dec_state := ObjectColon, dec_rest := u\<rparr>)) \<and>
    (read_key (dec_state d) (dec_rest d) = None \<longrightarrow> (\<exists>e d'. dec_Token d = (Inl e, d')))"
  proof (cases "dec_state d = ObjectStart")
    case True
    then have "dec_Token d = token_at d" using c by (simp add: dec_Token_def)
    then show ?thesis
      using True c key_token_at [of d] by (auto simp: read_key_def key_start_def)
  next
    case False
    then have st: "dec_state d = ObjectComma" using assms(1) by simp
    show ?thesis
    proof (cases "c = 0x2C")
      case True
      let ?d = "d\<lparr>dec_state := ObjectKey, dec_rest := t\<rparr>"
      have "dec_Token d = token_at ?d" using True c st by (simp add: dec_Token_def)
      then show ?thesis
        using True c st key_token_at [of ?d] by (auto simp: read_key_def key_start_def)
    next
      case False
      then show ?thesis
        using c st
        by (auto simp: read_key_def key_start_def dec_Token_def token_at_def open_delim_def value_allowed_def)
    qed
  qed
  then show "read_key (dec_state d) (dec_rest d) = Some (rs, u) \<Longrightarrow>
      dec_Token d = (Inr (Scalar (JString rs)), d\<lparr>dec_state := ObjectColon, dec_rest := u\<rparr>)"
    "read_key (dec_state d) (dec_rest d) = None \<Longrightarrow> \<exists>e d'. dec_Token d = (Inl e, d')" by blast+
qed

lemma object_rest_step:
  assumes "skip_space s = c # x" and "c \<noteq> 0x7D" and "st \<in> {ObjectStart, ObjectComma}"
  shows "object_rest (Suc n) d st s =
    (case read_key st s of
       None \<Rightarrow> None
     | Some (name, t) \<Rightarrow>
         (case skip_space t of
            [] \<Rightarrow> None
          | k # t \<Rightarrow>
              if k \<noteq> 0x3A then None
              else
                (case parse_value n d t of
                   None \<Rightarrow> None
                 | Some (v, t) \<Rightarrow> map_option (\<lambda>(ms, w). ((name, v) # ms, w)) (object_rest n d ObjectComma t))))"
proof -
  have o: "object_rest (Suc n) d st s = (case key_start st s of None \<Rightarrow> None | Some q \<Rightarrow> parse_members (Suc n) d q)"
    using assms by (auto simp: object_rest_def key_start_def)
  show ?thesis
    unfolding o read_key_def parse_members_rest
    by (auto split: option.splits list.splits if_splits)
qed

text \<open>The members that are left, as the loop reads them and the closing brace behind them.\<close>

definition stream_rest :: "decoder \<Rightarrow> bytes list \<Rightarrow> bytes option list \<Rightarrow> 32 word \<Rightarrow> (bytes option list \<times> decoder) option" where
  "stream_rest d allowed vals seen =
     (case decodeFields d allowed vals seen of
        Inl e \<Rightarrow> None
      | Inr (vs, d1) \<Rightarrow> (case dec_Token d1 of (Inl e, d2) \<Rightarrow> None | (Inr t, d2) \<Rightarrow> Some (vs, d2)))"

definition in_object :: "decoder \<Rightarrow> bool" where
  "in_object d \<longleftrightarrow> dec_stack d = [TopValue] \<and> dec_state d \<in> {ObjectStart, ObjectComma}"

lemma stream_end:
  assumes "in_object d" and "\<not> dec_More d" and "2 * length (dec_rest d) < n"
  shows "stream_rest d allowed vals seen =
    (case object_rest n e (dec_state d) (dec_rest d) of
       None \<Rightarrow> None
     | Some (ms, u) \<Rightarrow> map_option (\<lambda>vs. (vs, \<lparr>dec_state = TopValue, dec_stack = [], dec_rest = u\<rparr>)) (assign_fields allowed ms vals seen))"
proof -
  have f: "decodeFields d allowed vals seen = Inr (vals, d)" using assms(2) by (simp add: decodeFields.simps)
  obtain k where k: "n = Suc k" using assms(3) by (cases n) auto
  consider "skip_space (dec_rest d) = []" | u where "skip_space (dec_rest d) = 0x7D # u" | u where "skip_space (dec_rest d) = 0x5D # u"
    using assms(2) by (auto simp: dec_More_def split: list.splits)
  then show ?thesis
  proof cases
    case 1
    then show ?thesis using f by (simp add: stream_rest_def dec_Token_def object_rest_def)
  next
    case (2 u)
    have "dec_Token d = (Inr (Delim 0x7D), \<lparr>dec_state = TopValue, dec_stack = [], dec_rest = u\<rparr>)"
      using 2 assms(1) by (auto simp: dec_Token_def token_at_def close_delim_def in_object_def value_end_def)
    then show ?thesis using f 2 by (simp add: stream_rest_def object_rest_def)
  next
    case (3 u)
    have "dec_Token d = (Inl SyntaxError, d)"
      using 3 assms(1) by (auto simp: dec_Token_def token_at_def close_delim_def in_object_def)
    moreover have "object_rest n e (dec_state d) (dec_rest d) = None"
      using 3 k by (simp add: object_rest_def parse_members_rest)
    ultimately show ?thesis using f by (simp add: stream_rest_def)
  qed
qed

lemma decode_key_value:
  "dec_Decode (d\<lparr>dec_state := ObjectColon, dec_rest := u\<rparr>) =
    (case skip_space u of
       [] \<Rightarrow> None
     | k # t \<Rightarrow>
         if k \<noteq> 0x3A then None
         else
           (case parse_json t of
              None \<Rightarrow> None
            | Some (v, y) \<Rightarrow> Some (v, d\<lparr>dec_state := ObjectComma, dec_rest := y\<rparr>)))"
  by (auto simp: dec_Decode_def prepare_decode_def value_end_def split: list.splits option.splits)

lemma read_key_shorter: "read_key st s = Some (name, t) \<Longrightarrow> length t < length s"
  by (auto simp: read_key_def key_start_def split: if_splits list.splits option.splits dest!: skip_space_shorter unquote_shorter)

lemma stream_members:
  assumes "in_object d" and "2 * length (dec_rest d) < n"
  shows "stream_rest d allowed vals seen =
    (case object_rest n e (dec_state d) (dec_rest d) of
       None \<Rightarrow> None
     | Some (ms, u) \<Rightarrow> map_option (\<lambda>vs. (vs, \<lparr>dec_state = TopValue, dec_stack = [], dec_rest = u\<rparr>)) (assign_fields allowed ms vals seen))"
  using assms
proof (induction d allowed vals seen arbitrary: n rule: decodeFields.induct)
  case (1 d allowed vals seen)
  show ?case
  proof (cases "dec_More d")
    case False
    with 1(2,3) stream_end show ?thesis by blast
  next
    case more: True
    then obtain c x where c: "skip_space (dec_rest d) = c # x" "c \<noteq> 0x7D" by (auto simp: dec_More_def split: list.splits)
    have st: "dec_state d \<in> {ObjectStart, ObjectComma}" using 1(2) by (simp add: in_object_def)
    obtain k where k: "n = Suc k" using 1(3) by (cases n) auto
    note step = object_rest_step [OF c st, of k e]
    show ?thesis
    proof (cases "read_key (dec_state d) (dec_rest d)")
      case None
      obtain er d' where "dec_Token d = (Inl er, d')" using Token_key(2) [OF st more None] by blast
      then have "decodeFields d allowed vals seen = Inl ErrInvalidJSON" using more by (simp add: decodeFields.simps)
      then show ?thesis using None step k by (simp add: stream_rest_def)
    next
      case (Some nt)
      obtain name t where nt: "read_key (dec_state d) (dec_rest d) = Some (name, t)" using Some by (cases nt) auto
      note tok = Token_key(1) [OF st more nt]
      let ?d1 = "d\<lparr>dec_state := ObjectColon, dec_rest := t\<rparr>"
      have short: "length t < length (dec_rest d)" by (rule read_key_shorter [OF nt])
      have stuck: ?thesis if "decodeFields d allowed vals seen = Inl er"
        "\<And>ms u. object_rest n e (dec_state d) (dec_rest d) = Some (ms, u) \<Longrightarrow> assign_fields allowed ms vals seen = None" for er
        using that by (auto simp: stream_rest_def split: option.splits)
      show ?thesis
      proof (cases "\<exists>index. slices_Index allowed (of_runes name) = Some index \<and> \<not> bit seen index")
        case False
        have "decodeFields d allowed vals seen = Inl ErrExtraField"
          using False more tok by (auto simp: decodeFields.simps [of d] split: option.splits)
        moreover have "assign_fields allowed ms vals seen = None"
          if r: "object_rest n e (dec_state d) (dec_rest d) = Some (ms, u)" for ms u
        proof -
          obtain v ms' where "ms = (name, v) # ms'"
            using r unfolding k step nt by (auto split: list.splits if_splits option.splits)
          then show ?thesis using False by (auto split: option.splits)
        qed
        ultimately show ?thesis by (rule stuck)
      next
        case True
        then obtain index where ix: "slices_Index allowed (of_runes name) = Some index" "\<not> bit seen index" by blast
        show ?thesis
        proof (cases "\<exists>q y v z p. skip_space t = 0x3A # q \<and> parse_json q = Some (v, z) \<and> string_pointer v = Some p")
          case False
          have "decodeFields d allowed vals seen = Inl ErrInvalidJSON"
            using False more tok ix by (auto simp: decodeFields.simps [of d] decode_key_value split: option.splits list.splits)
          moreover have "assign_fields allowed ms vals seen = None"
            if r: "object_rest n e (dec_state d) (dec_rest d) = Some (ms, u)" for ms u
          proof -
            obtain q v z ms' where q: "skip_space t = 0x3A # q" "parse_value k e q = Some (v, z)" "ms = (name, v) # ms'"
              using r unfolding k step nt by (auto split: list.splits if_splits option.splits)
            have "0 < k" using q(2) by (cases k) auto
            then have "string_pointer v = None"
              using False q parse_simple_json [of k v q z e] by (cases "string_pointer v") auto
            then show ?thesis using q(3) ix by simp
          qed
          ultimately show ?thesis by (rule stuck)
        next
          case True
          then obtain q v z p where q: "skip_space t = 0x3A # q" "parse_json q = Some (v, z)" "string_pointer v = Some p" by blast
          let ?d2 = "d\<lparr>dec_state := ObjectComma, dec_rest := z\<rparr>"
          have dec: "dec_Decode ?d1 = Some (v, ?d2)" using q by (simp add: decode_key_value)
          have len: "length z < length (dec_rest d)" "2 * length z < k"
            using parse_json_shorter [OF q(2)] skip_space_shorter [OF q(1)] short 1(3) k by auto
          then have "0 < k" by simp
          then have pv: "parse_value k e q = Some (v, z)" using parse_simple_json [of k v q z e] q(2,3) by auto
          have f: "decodeFields d allowed vals seen = decodeFields ?d2 allowed (vals[index := p]) (seen OR push_bit index 1)"
            using more tok ix dec q(3) by (simp add: decodeFields.simps [of d])
          have "stream_rest ?d2 allowed (vals[index := p]) (seen OR push_bit index 1) =
            (case object_rest k e ObjectComma z of
               None \<Rightarrow> None
             | Some (ms, u) \<Rightarrow> map_option (\<lambda>vs. (vs, \<lparr>dec_state = TopValue, dec_stack = [], dec_rest = u\<rparr>))
                 (assign_fields allowed ms (vals[index := p]) (seen OR push_bit index 1)))"
            using 1(1) [OF _ tok [symmetric] refl refl refl ix(1,2) dec refl q(3), of k] more 1(2) len
            by (simp add: in_object_def)
          moreover have "object_rest n e (dec_state d) (dec_rest d) =
            map_option (\<lambda>(ms, w). ((name, v) # ms, w)) (object_rest k e ObjectComma z)"
            unfolding k step using nt q(1) pv by simp
          ultimately show ?thesis
            unfolding stream_rest_def f using ix q(3) by (cases "object_rest k e ObjectComma z") (auto simp: stream_rest_def)
        qed
      qed
    qed
  qed
qed

lemma decode_document_iff:
  "decode_document body allowed = Inr vals \<longleftrightarrow>
    valid_string body \<and> (\<exists>ms. json_document body = Some (JObject ms) \<and>
      assign_fields allowed ms (replicate (length allowed) None) 0 = Some vals)"
proof (cases "valid_string body \<and> (\<exists>t. skip_space (runes body) = 0x7B # t)")
  case False
  have "decode_document body allowed \<noteq> Inr vals"
  proof (cases "valid_string body")
    case True
    then have n: "skip_space (runes body) \<noteq> 0x7B # t" for t using False by blast
    show ?thesis
      using n
      by (auto simp: decode_document_def NewDecoder_def dec_Token_def token_at_def open_delim_def close_delim_def
          split: list.splits option.splits if_splits)
  qed (simp add: decode_document_def)
  moreover have "json_document body \<noteq> Some (JObject ms)" if "valid_string body" for ms
    using False that by (auto simp: json_document_def parse_json_def dest: expect_value split: option.splits list.splits if_splits)
  ultimately show ?thesis by blast
next
  case True
  then obtain t where t: "valid_string body" "skip_space (runes body) = 0x7B # t" by blast
  let ?n = "2 * length (runes body)" and ?d = "\<lparr>dec_state = ObjectStart, dec_stack = [TopValue], dec_rest = t\<rparr>"
  have n: "2 * length t < ?n" using skip_space_shorter [OF t(2)] by simp
  have tok: "dec_Token (NewDecoder body) = (Inr (Delim 0x7B), ?d)"
    using t by (simp add: NewDecoder_def dec_Token_def token_at_def open_delim_def value_allowed_def)
  have parse: "parse_json (runes body) = map_option (\<lambda>(ms, u). (JObject ms, u)) (object_rest ?n (maxNestingDepth - 1) ObjectStart t)"
    using t n by (auto simp: parse_json_def object_rest_def maxNestingDepth_def parse_members_rest split: list.splits)
  have top: "fst (dec_Token \<lparr>dec_state = TopValue, dec_stack = [], dec_rest = u\<rparr>) = Inl EOF \<longleftrightarrow> skip_space u = []" for u
    by (auto simp: dec_Token_def token_at_def open_delim_def close_delim_def split: list.splits option.splits)
  note rest = stream_members [of ?d ?n allowed "replicate (length allowed) None" 0 "maxNestingDepth - 1"]
  have "decode_document body allowed = Inr vals \<longleftrightarrow>
    (\<exists>d2. stream_rest ?d allowed (replicate (length allowed) None) 0 = Some (vals, d2) \<and> fst (dec_Token d2) = Inl EOF)"
    using t(1) tok by (auto simp: decode_document_def stream_rest_def split: sum.splits prod.splits if_splits)
  also have "\<dots> \<longleftrightarrow> (\<exists>ms u. object_rest ?n (maxNestingDepth - 1) ObjectStart t = Some (ms, u) \<and> skip_space u = [] \<and>
      assign_fields allowed ms (replicate (length allowed) None) 0 = Some vals)"
    using rest n by (auto simp: in_object_def top split: option.splits)
  also have "\<dots> \<longleftrightarrow> (\<exists>ms. json_document body = Some (JObject ms) \<and>
      assign_fields allowed ms (replicate (length allowed) None) 0 = Some vals)"
    by (auto simp: json_document_def parse split: option.splits if_splits)
  finally show ?thesis using t(1) by blast
qed

text \<open>The members that a list of fields accepts: each field at most once, and strings or null for their values.\<close>

definition accepted :: "bytes list \<Rightarrow> (bytes \<times> json) list \<Rightarrow> bool" where
  "accepted allowed fs \<longleftrightarrow> distinct (map fst fs) \<and> set (map fst fs) \<subseteq> set allowed \<and> (\<forall>(k, v) \<in> set fs. string_pointer v \<noteq> None)"

definition named :: "(rune list \<times> json) list \<Rightarrow> (bytes \<times> json) list" where
  "named ms = map (\<lambda>(k, v). (of_runes k, v)) ms"

definition field_value :: "(bytes \<times> json) list \<Rightarrow> bytes \<Rightarrow> bytes option" where
  "field_value fs k = (case map_of fs k of Some v \<Rightarrow> the (string_pointer v) | None \<Rightarrow> None)"

lemma slices_Index_Some: "slices_Index xs x = Some i \<Longrightarrow> i < length xs \<and> xs ! i = x"
  by (induction xs arbitrary: i) (auto split: if_splits)

lemma slices_Index_None: "slices_Index xs x = None \<longleftrightarrow> x \<notin> set xs"
  by (induction xs) auto

lemma slices_Index_nth: "distinct xs \<Longrightarrow> i < length xs \<Longrightarrow> slices_Index xs (xs ! i) = Some i"
proof (induction xs arbitrary: i)
  case (Cons x xs)
  then show ?case by (cases i) (auto simp: in_set_conv_nth)
qed simp

lemma seen_bit: "i < 32 \<Longrightarrow> j < 32 \<Longrightarrow> bit (seen OR push_bit i (1 :: 32 word)) j \<longleftrightarrow> bit seen j \<or> i = j"
  by (auto simp: bit_or_iff bit_exp_iff)

lemma assign_fields_iff:
  assumes "distinct allowed" and "length allowed \<le> 32" and "length vals = length allowed"
  shows "assign_fields allowed ms vals seen = Some vals' \<longleftrightarrow>
    accepted allowed (named ms) \<and> (\<forall>i < length allowed. allowed ! i \<in> fst ` set (named ms) \<longrightarrow> \<not> bit seen i) \<and>
    length vals' = length allowed \<and>
    (\<forall>i < length allowed. vals' ! i = (if allowed ! i \<in> fst ` set (named ms) then field_value (named ms) (allowed ! i) else vals ! i))"
  using assms
proof (induction ms arbitrary: vals seen)
  case Nil
  then show ?case by (auto simp: accepted_def named_def intro: nth_equalityI)
next
  case (Cons m ms)
  obtain name v where m: "m = (name, v)" by force
  let ?k = "of_runes name"
  have nm: "named (m # ms) = (?k, v) # named ms" by (simp add: named_def m)
  show ?case
  proof (cases "\<exists>index p. slices_Index allowed ?k = Some index \<and> \<not> bit seen index \<and> string_pointer v = Some p")
    case False
    have "\<not> (accepted allowed (named (m # ms)) \<and> (\<forall>i < length allowed. allowed ! i \<in> fst ` set (named (m # ms)) \<longrightarrow> \<not> bit seen i))"
    proof
      assume a: "accepted allowed (named (m # ms)) \<and> (\<forall>i < length allowed. allowed ! i \<in> fst ` set (named (m # ms)) \<longrightarrow> \<not> bit seen i)"
      then have "?k \<in> set allowed" "string_pointer v \<noteq> None" by (auto simp: accepted_def nm)
      then obtain index where "slices_Index allowed ?k = Some index" using slices_Index_None [of allowed ?k] by auto
      with slices_Index_Some [OF this] a False \<open>string_pointer v \<noteq> None\<close> show False by (auto simp: nm)
    qed
    moreover have "assign_fields allowed (m # ms) vals seen = None" using False by (auto simp: m split: option.splits)
    ultimately show ?thesis by auto
  next
    case True
    then obtain index p where ix: "slices_Index allowed ?k = Some index" "\<not> bit seen index" "string_pointer v = Some p" by blast
    note at = slices_Index_Some [OF ix(1)]
    have uniq: "allowed ! i = ?k \<longleftrightarrow> i = index" if "i < length allowed" for i
      using that at Cons.prems(1) by (metis nth_eq_iff_index_eq)
    have b: "bit (seen OR push_bit index (1 :: 32 word)) i \<longleftrightarrow> bit seen i \<or> i = index" if "i < length allowed" for i
      using seen_bit [of index i seen] that at Cons.prems(2) by auto
    have acc: "accepted allowed (named (m # ms)) \<longleftrightarrow> accepted allowed (named ms) \<and> ?k \<notin> fst ` set (named ms)"
      using ix at nth_mem [of index allowed] by (auto simp: accepted_def nm)
    have fv: "field_value (named (m # ms)) k = (if k = ?k then p else field_value (named ms) k)" for k
      using ix(3) by (simp add: field_value_def nm)
    have "assign_fields allowed (m # ms) vals seen = Some vals' \<longleftrightarrow>
        assign_fields allowed ms (vals[index := p]) (seen OR push_bit index 1) = Some vals'"
      using ix by (simp add: m)
    also have "\<dots> \<longleftrightarrow> accepted allowed (named ms) \<and>
        (\<forall>i < length allowed. allowed ! i \<in> fst ` set (named ms) \<longrightarrow> \<not> bit seen i \<and> i \<noteq> index) \<and> length vals' = length allowed \<and>
        (\<forall>i < length allowed. vals' ! i = (if allowed ! i \<in> fst ` set (named ms) then field_value (named ms) (allowed ! i) else vals[index := p] ! i))"
      using Cons.IH [of "vals[index := p]" "seen OR push_bit index 1"] Cons.prems b by auto
    also have "\<dots> \<longleftrightarrow> accepted allowed (named (m # ms)) \<and>
        (\<forall>i < length allowed. allowed ! i \<in> fst ` set (named (m # ms)) \<longrightarrow> \<not> bit seen i) \<and> length vals' = length allowed \<and>
        (\<forall>i < length allowed. vals' ! i =
          (if allowed ! i \<in> fst ` set (named (m # ms)) then field_value (named (m # ms)) (allowed ! i) else vals ! i))"
    proof (cases "?k \<in> fst ` set (named ms)")
      case True
      then have "index < length allowed \<and> allowed ! index \<in> fst ` set (named ms)" using at by simp
      then show ?thesis using True acc by blast
    next
      case False
      then have "i \<noteq> index" if "i < length allowed" "allowed ! i \<in> fst ` set (named ms)" for i
        using that at False by metis
      then have ne: "allowed ! i \<in> fst ` set (named ms) \<longrightarrow> i \<noteq> index" if "i < length allowed" for i using that by blast
      have mem: "allowed ! i \<in> fst ` set (named (m # ms)) \<longleftrightarrow> i = index \<or> allowed ! i \<in> fst ` set (named ms)"
        if "i < length allowed" for i using uniq [OF that] by (auto simp: nm)
      have val: "(if allowed ! i \<in> fst ` set (named ms) then field_value (named ms) (allowed ! i) else vals[index := p] ! i) =
          (if allowed ! i \<in> fst ` set (named (m # ms)) then field_value (named (m # ms)) (allowed ! i) else vals ! i)"
        if "i < length allowed" for i
      proof (cases "i = index")
        case True
        then show ?thesis using False at mem [OF that] fv Cons.prems(3) by simp
      next
        case False
        then show ?thesis using mem [OF that] fv uniq [OF that] by simp
      qed
      have "(\<forall>i < length allowed. allowed ! i \<in> fst ` set (named ms) \<longrightarrow> \<not> bit seen i \<and> i \<noteq> index) \<longleftrightarrow>
          (\<forall>i < length allowed. allowed ! i \<in> fst ` set (named (m # ms)) \<longrightarrow> \<not> bit seen i)"
        using mem ne ix(2) by blast
      then show ?thesis using val False acc by simp
    qed
    finally show ?thesis .
  qed
qed

section \<open>Request bodies, declaratively\<close>

text \<open>An object of strings that was written can be read back.\<close>

definition string_object :: "(string \<times> bytes) list \<Rightarrow> bytes" where
  "string_object fs = json_object (map (\<lambda>(k, s). (k, json_string s)) fs)"

definition string_members :: "(string \<times> bytes) list \<Rightarrow> (rune list \<times> json) list" where
  "string_members fs = map (\<lambda>(k, s). (runes k, JString (runes s))) fs"

lemma parse_string_members:
  assumes "fs \<noteq> []" and "\<forall>(k, s) \<in> set fs. valid_string k \<and> valid_string s"
  shows "parse_members (Suc (length fs + n)) d
      (runes (strings_Join (map (\<lambda>(k, s). json_field k (json_string s)) fs) '','' @ CHR ''}'' # t)) =
    Some (string_members fs, runes t)"
  using assms
proof (induction fs)
  case (Cons f fs)
  obtain k s where f: "f = (k, s)" by force
  have v: "valid_string k" "valid_string s" using Cons.prems(2) f by auto
  show ?case
  proof (cases fs)
    case Nil
    have "parse_value (Suc n) d (runes (json_string s @ CHR ''}'' # t)) = Some (JString (runes s), 0x7D # runes t)"
      using parse_json_string [OF v(2), of n d "CHR ''}'' # t"] by (simp add: byte_def)
    from parse_member [OF v(1) this] show ?thesis by (simp add: Nil f json_field_def string_members_def)
  next
    case (Cons f2 fs2)
    let ?rest = "strings_Join (map (\<lambda>(k, s). json_field k (json_string s)) fs) '','' @ CHR ''}'' # t"
    have "parse_value (Suc (length fs + n)) d (runes (json_string s @ CHR '','' # ?rest)) = Some (JString (runes s), 0x2C # runes ?rest)"
      using parse_json_string [OF v(2), of "length fs + n" d "CHR '','' # ?rest"] by (simp add: byte_def)
    from parse_member [OF v(1) this] have "parse_members (Suc (Suc (length fs + n))) d
        (runes (json_field k (json_string s) @ CHR '','' # ?rest)) =
      map_option (\<lambda>(ms, w). ((runes k, JString (runes s)) # ms, w)) (parse_members (Suc (length fs + n)) d (runes ?rest))"
      by (simp add: json_field_def)
    moreover have "parse_members (Suc (length fs + n)) d (runes ?rest) = Some (string_members fs, runes t)"
      using Cons.IH Cons.prems(2) Cons by simp
    ultimately show ?thesis by (simp add: Cons f string_members_def)
  qed
qed simp

lemma parse_string_object:
  assumes "fs \<noteq> []" and "\<forall>(k, s) \<in> set fs. valid_string k \<and> valid_string s"
  shows "parse_json (runes (string_object fs @ t)) = Some (JObject (string_members fs), runes t)"
proof -
  let ?body = "strings_Join (map (\<lambda>(k, s). json_field k (json_string s)) fs) '','' @ CHR ''}'' # t"
  have o: "string_object fs @ t = CHR ''{'' # ?body"
  proof -
    have "map (\<lambda>(k, v). json_field k v) (map (\<lambda>(k, s). (k, json_string s)) fs) = map (\<lambda>(k, s). json_field k (json_string s)) fs"
      by (induction fs) auto
    then show ?thesis unfolding string_object_def json_object_def by (simp del: map_map)
  qed
  have r: "runes (CHR ''{'' # ?body) = 0x7B # runes ?body" by (simp add: byte_def)
  obtain k s fs' where fs: "fs = (k, s) # fs'" using assms(1) by (cases fs) auto
  then have "valid_string k" using assms(2) by simp
  then obtain q where q: "runes ?body = 0x22 # q"
    using unquote_json_string by (cases fs') (simp add: fs json_field_def, metis, simp add: fs json_field_def, metis append.assoc)
  let ?n = "2 * length (runes (CHR ''{'' # ?body))"
  have "parse_value (Suc ?n) maxNestingDepth (runes (CHR ''{'' # ?body)) =
      parse_value (Suc (Suc (length fs + ?n))) maxNestingDepth (runes (CHR ''{'' # ?body))"
    by (rule parse_fuel [symmetric]) simp
  also have "\<dots> = Some (JObject (string_members fs), runes t)"
    using parse_string_members [OF assms, of ?n "maxNestingDepth - 1" t] q
    unfolding r by (simp del: parse_members.simps add: maxNestingDepth_def)
  finally show ?thesis by (simp add: parse_json_def o)
qed

lemma document_string_object:
  assumes "fs \<noteq> []" and "\<forall>(k, s) \<in> set fs. valid_string k \<and> valid_string s"
  shows "json_document (string_object fs) = Some (JObject (string_members fs))"
  using parse_string_object [OF assms, of "[]"] by (simp add: json_document_def skip_space_def)

definition request_of :: "json \<Rightarrow> request option" where
  "request_of v =
     (case v of
        JObject ms \<Rightarrow>
          if accepted request_fields (named ms) then
            (case (field_value (named ms) ''payload'', field_value (named ms) ''payload_id'') of
               (Some p, Some i) \<Rightarrow> if i = [] then None else Some \<lparr>req_Payload = p, req_PayloadID = i\<rparr>
             | _ \<Rightarrow> None)
          else None
      | _ \<Rightarrow> None)"

lemma field_value_absent: "k \<notin> fst ` set fs \<Longrightarrow> field_value fs k = None"
  by (simp add: field_value_def map_of_eq_None_iff [THEN iffD2])

lemma decode_document_request:
  "decode_document body request_fields = Inr vals \<longleftrightarrow>
    valid_string body \<and> (\<exists>ms. json_document body = Some (JObject ms) \<and> accepted request_fields (named ms) \<and>
      vals = [field_value (named ms) ''payload'', field_value (named ms) ''payload_id''])"
proof -
  note rf = request_fields_def
  have two: "(\<forall>i < length request_fields. P i) \<longleftrightarrow> P 0 \<and> P 1" for P
    by (auto simp: rf less_Suc_eq)
  have "assign_fields request_fields ms (replicate (length request_fields) None) 0 = Some vals \<longleftrightarrow>
      accepted request_fields (named ms) \<and> vals = [field_value (named ms) ''payload'', field_value (named ms) ''payload_id'']" for ms
  proof -
    have "assign_fields request_fields ms (replicate (length request_fields) None) 0 = Some vals \<longleftrightarrow>
        accepted request_fields (named ms) \<and> length vals = 2 \<and>
        vals ! 0 = field_value (named ms) ''payload'' \<and> vals ! 1 = field_value (named ms) ''payload_id''"
      by (subst assign_fields_iff) (auto simp only: two, auto simp: rf field_value_absent split: if_splits)
    also have "\<dots> \<longleftrightarrow> accepted request_fields (named ms) \<and> vals = [field_value (named ms) ''payload'', field_value (named ms) ''payload_id'']"
      by (auto simp: numeral_2_eq_2 length_Suc_conv)
    finally show ?thesis .
  qed
  then show ?thesis unfolding decode_document_iff by simp
qed

lemma request_of_Some:
  "request_of v = Some req \<longleftrightarrow>
    (\<exists>ms p i. v = JObject ms \<and> accepted request_fields (named ms) \<and> field_value (named ms) ''payload'' = Some p \<and>
      field_value (named ms) ''payload_id'' = Some i \<and> i \<noteq> [] \<and> req = \<lparr>req_Payload = p, req_PayloadID = i\<rparr>)"
  by (cases v) (auto simp: request_of_def split: option.splits)

lemma decodeRequest_iff:
  "fst (decodeRequest b maxBytes w) = Inr req \<longleftrightarrow>
    (\<exists>body v. read_limited b (int64_succ maxBytes) = Some body \<and> int (length body) \<le> maxBytes \<and> valid_string body \<and>
      json_document body = Some v \<and> request_of v = Some req)"
proof (cases "read_limited b (int64_succ maxBytes)")
  case None
  then have "fst (decodeRequest b maxBytes w) \<noteq> Inr req"
    by (auto simp: decodeRequest_def decodeObject_def split: prod.splits option.splits)
  with None show ?thesis by simp
next
  case (Some body)
  have "fst (decodeRequest b maxBytes w) = Inr req \<longleftrightarrow> int (length body) \<le> maxBytes \<and>
    (\<exists>vals p i. decode_document body request_fields = Inr vals \<and> vals ! 0 = Some p \<and> vals ! 1 = Some i \<and> i \<noteq> [] \<and>
      req = \<lparr>req_Payload = p, req_PayloadID = i\<rparr>)"
    using Some by (auto simp: decodeRequest_def decodeObject_def split: sum.splits option.splits)
  also have "\<dots> \<longleftrightarrow> int (length body) \<le> maxBytes \<and> valid_string body \<and> (\<exists>v. json_document body = Some v \<and> request_of v = Some req)"
    unfolding decode_document_request request_of_Some by auto
  finally show ?thesis using Some by auto
qed

lemma int64_succ_small: "0 \<le> n \<Longrightarrow> n < 2 ^ 63 - 1 \<Longrightarrow> int64_succ n = n + 1"
proof -
  assume n: "0 \<le> n" "n < 2 ^ 63 - 1"
  have "int64_succ n = sint (word_of_int (n + 1) :: 64 word)" by (simp add: int64_succ_def)
  also have "\<dots> = signed_take_bit 63 (n + 1)" by (subst sint_sbintrunc') simp
  also have "\<dots> = n + 1" using n by (intro signed_take_bit_int_eq_self) simp_all
  finally show ?thesis .
qed

lemma read_limited_small:
  "0 \<le> n \<Longrightarrow> (\<exists>body. read_limited b (n + 1) = Some body \<and> int (length body) \<le> n \<and> P body) \<longleftrightarrow>
    \<not> rb_fails b \<and> int (length (rb_bytes b)) \<le> n \<and> P (rb_bytes b)"
  by (auto simp: read_limited_def)

text \<open>
  C16. Strict decoding. The token-by-token reading of a body accepts exactly the bodies that arrive without an error,
  have at most the permitted length, are UTF-8 and one JSON document with nothing behind it, namely an object with the
  fields \<^verbatim>\<open>payload\<close> and \<^verbatim>\<open>payload_id\<close>, each exactly once and in any order, no other field, both strings and the
  second one not empty; and it returns these strings.
\<close>

theorem strict_decoding:
  assumes "0 \<le> maxBytes" and "maxBytes < 2 ^ 63 - 1"
  shows "fst (decodeRequest b maxBytes w) = Inr req \<longleftrightarrow>
    \<not> rb_fails b \<and> int (length (rb_bytes b)) \<le> maxBytes \<and> valid_string (rb_bytes b) \<and>
    (\<exists>v. json_document (rb_bytes b) = Some v \<and> request_of v = Some req)"
  unfolding decodeRequest_iff int64_succ_small [OF assms]
  using read_limited_small [OF assms(1), of b "\<lambda>body. valid_string body \<and> (\<exists>v. json_document body = Some v \<and> request_of v = Some req)"]
  by blast

lemma request_of_written:
  assumes "valid_string p" and "valid_string i" and "i \<noteq> []"
  shows "request_of (JObject (string_members [(''payload'', p), (''payload_id'', i)])) = Some \<lparr>req_Payload = p, req_PayloadID = i\<rparr>"
proof -
  have k: "of_runes (runes k) = k" if "k \<in> {''payload'', ''payload_id''}" for k
    using that by (intro of_runes_runes) (auto simp: byte_def)
  have n: "named (string_members [(''payload'', p), (''payload_id'', i)]) = [(''payload'', JString (runes p)), (''payload_id'', JString (runes i))]"
    using k [of "''payload''"] k [of "''payload_id''"] by (simp add: named_def string_members_def)
  show ?thesis
    using assms by (simp add: request_of_def n accepted_def request_fields_def field_value_def string_pointer_def of_runes_runes)
qed

text \<open>Strings of characters that need no escape are written as they are.\<close>

definition plain_char :: "char \<Rightarrow> bool" where
  "plain_char c \<longleftrightarrow> byte c < 0x80 \<and> \<not> escaped (byte c)"

lemma json_string_plain: "list_all plain_char s \<Longrightarrow> json_string s = [quote_char] @ s @ [quote_char] \<and> valid_string s"
proof (induction s)
  case (Cons c s)
  then have c: "byte c < 0x80" "map_of short_escapes (byte c) = None"
    by (auto simp: plain_char_def escaped_def short_escapes_def)
  then have "json_chunk (byte c, [c]) = [c]"
    using Cons.prems by (auto simp: json_chunk_def json_rune_def rune_error_def encode_rune_ascii plain_char_def escaped_def)
  with Cons c show ?case by (simp add: json_string_def)
qed (simp add: json_string_def)

definition sample_body :: request_body where
  "sample_body = \<lparr>rb_bytes = string_object [(''payload'', ''ab''), (''payload_id'', ''i'')], rb_fails = False\<rparr>"

lemma sample_body_facts:
  "length (rb_bytes sample_body) = 33" "valid_string (rb_bytes sample_body)"
  "\<exists>v. json_document (rb_bytes sample_body) = Some v \<and> request_of v = Some \<lparr>req_Payload = ''ab'', req_PayloadID = ''i''\<rparr>"
proof -
  let ?fs = "[(''payload'', ''ab''), (''payload_id'', ''i'')]"
  have str: "json_string s = [quote_char] @ s @ [quote_char]" if "s \<in> {''payload'', ''payload_id'', ''ab'', ''i''}" for s
    using that by (intro json_string_plain [THEN conjunct1]) (auto simp: plain_char_def escaped_def byte_def)
  show "length (rb_bytes sample_body) = 33"
    by (simp add: sample_body_def string_object_def json_object_def json_field_def str)
  have ascii: "list_all (\<lambda>c. byte c < 0x80) (string_object ?fs)"
    by (simp add: string_object_def json_object_def json_field_def str quote_char_def byte_def)
  have "valid_string s" if "list_all (\<lambda>c. byte c < 0x80) s" for s using that by (induction s) auto
  from this [OF ascii] show "valid_string (rb_bytes sample_body)" by (simp add: sample_body_def)
  have "json_document (string_object ?fs) = Some (JObject (string_members ?fs))"
    by (rule document_string_object) (simp_all add: byte_def)
  moreover have "request_of (JObject (string_members ?fs)) = Some \<lparr>req_Payload = ''ab'', req_PayloadID = ''i''\<rparr>"
    by (rule request_of_written) (simp_all add: byte_def)
  ultimately show "\<exists>v. json_document (rb_bytes sample_body) = Some v \<and> request_of v = Some \<lparr>req_Payload = ''ab'', req_PayloadID = ''i''\<rparr>"
    by (simp add: sample_body_def)
qed

lemma sample_body_decodes: "fst (decodeRequest sample_body 100 w) = Inr \<lparr>req_Payload = ''ab'', req_PayloadID = ''i''\<rparr>"
  unfolding decodeRequest_iff using sample_body_facts by (auto simp: int64_succ_small read_limited_def) (simp add: sample_body_def)

definition decoding_world :: world where
  "decoding_world = \<lparr>w_ctx = \<lambda>_. None, w_polls = 0, w_clock = \<lambda>_. 0, w_times = 0, w_rand = \<lambda>_. Some ''0123456789abcdef'', w_draws = 0,
     w_reqid = [], w_log = []\<rparr>"

lemma strict_decoding_witness:
  "fst (decodeRequest sample_body 100 decoding_world) = Inr \<lparr>req_Payload = ''ab'', req_PayloadID = ''i''\<rparr>"
  by (subst strict_decoding) (use sample_body_facts in \<open>auto simp: sample_body_def\<close>)

end
