(* ===== verification/Proxy_Server.thy ===== *)
theory Proxy_Server
  imports Request_Decoding Engine "HOL-Library.Multiset"
begin

text \<open>
  \<^verbatim>\<open>internal/proxy/server.go\<close>: authentication, the two handlers over the processor, readiness, and the middleware
  that bounds the requests in flight and survives panics. The interfaces that the server is configured with are
  records of functions; a call may panic, which is \<^const>\<open>None\<close>. A path that \<^verbatim>\<open>http.ServeMux\<close> redirects because it is
  not clean is left out, and so are the deadlines that are set on the connection.
\<close>

section \<open>Configuration and interfaces\<close>

record ServerConfig =
  sc_MaxBodyBytes :: int
  sc_ConcurrencyLimit :: int
  sc_RequestTimeout :: int
  sc_RateLimitRPS :: rat
  sc_RateLimitBurst :: int
  sc_AllowedModels :: "bytes list option"
  sc_EnableGenerate :: bool
  sc_Draining :: bool

record 'w PIIProcessor =
  pp_Mask :: "Scope \<Rightarrow> bytes \<Rightarrow> 'w \<Rightarrow> (error + Masked) option \<times> 'w"
  pp_Demask :: "Scope \<Rightarrow> bytes \<Rightarrow> 'w \<Rightarrow> (error + bytes) option \<times> 'w"
  pp_Process :: "Scope \<Rightarrow> bytes \<Rightarrow> 'w \<Rightarrow> (error + bytes) option \<times> 'w"

record ProviderRequest =
  pq_RequestID :: bytes
  pq_Model :: bytes
  pq_Text :: bytes

type_synonym 'w LLMProvider = "ProviderRequest \<Rightarrow> 'w \<Rightarrow> (error + bytes) option \<times> 'w"

record 'w Server =
  sv_processor :: "'w PIIProcessor option"
  sv_health :: "('w \<Rightarrow> error option \<times> 'w) option"
  sv_config :: ServerConfig
  sv_capacity :: nat
  sv_systems :: "(bytes \<Rightarrow> Consumer option) option"
  sv_defaultSystem :: bytes
  sv_provider :: "'w LLMProvider option"

definition NewServer ::
  "'w PIIProcessor option \<Rightarrow> ('w \<Rightarrow> error option \<times> 'w) option \<Rightarrow> ServerConfig \<Rightarrow> 'w Server"
where
  "NewServer p health cfg =
     (let conf = cfg\<lparr>
        sc_RequestTimeout := (if sc_RequestTimeout cfg \<le> 0 then 10 * 1000000000 else sc_RequestTimeout cfg),
        sc_MaxBodyBytes := (if sc_MaxBodyBytes cfg \<le> 0 then 2 * 2 ^ 20 else sc_MaxBodyBytes cfg),
        sc_ConcurrencyLimit := (if sc_ConcurrencyLimit cfg \<le> 0 then 100 else sc_ConcurrencyLimit cfg),
        sc_RateLimitRPS := (if sc_RateLimitRPS cfg \<le> 0 then 10000 else sc_RateLimitRPS cfg),
        sc_RateLimitBurst := (if sc_RateLimitBurst cfg \<le> 0 then 1000 else sc_RateLimitBurst cfg),
        sc_AllowedModels := (case sc_AllowedModels cfg of None \<Rightarrow> Some [''mock''] | Some ms \<Rightarrow> Some ms)\<rparr>
      in \<lparr>sv_processor = p, sv_health = health, sv_config = conf, sv_capacity = nat (sc_ConcurrencyLimit conf),
          sv_systems = None, sv_defaultSystem = [], sv_provider = None\<rparr>)"

definition ConfigureSystems :: "(bytes \<Rightarrow> Consumer option) \<Rightarrow> bytes \<Rightarrow> 'w Server \<Rightarrow> 'w Server" where
  "ConfigureSystems resolver defaultSystem s = s\<lparr>sv_systems := Some resolver, sv_defaultSystem := defaultSystem\<rparr>"

definition ConfigureProvider :: "'w LLMProvider \<Rightarrow> 'w Server \<Rightarrow> 'w Server" where
  "ConfigureProvider provider s = s\<lparr>sv_provider := Some provider\<rparr>"

record http_request =
  rq_Method :: bytes
  rq_Path :: bytes
  rq_SystemID :: bytes
  rq_APIKey :: bytes
  rq_RequestID :: bytes
  rq_Body :: request_body

section \<open>Writing a response\<close>

text \<open>The recorder, with the status lines and the body that reach the connection.\<close>

record recorder =
  rw_status :: nat
  rw_sent :: "nat list"
  rw_header :: "bytes \<rightharpoonup> bytes"
  rw_body :: bytes

definition recorder_WriteHeader :: "nat \<Rightarrow> recorder \<Rightarrow> recorder" where
  "recorder_WriteHeader status rw =
     (if rw_status rw = 0 then rw\<lparr>rw_status := status, rw_sent := rw_sent rw @ [status]\<rparr> else rw)"

definition recorder_Write :: "bytes \<Rightarrow> recorder \<Rightarrow> recorder" where
  "recorder_Write body rw =
     (let rw = (if rw_status rw = 0 then recorder_WriteHeader 200 rw else rw) in rw\<lparr>rw_body := rw_body rw @ body\<rparr>)"

definition set_header :: "bytes \<Rightarrow> bytes \<Rightarrow> recorder \<Rightarrow> recorder" where
  "set_header name val rw = rw\<lparr>rw_header := (rw_header rw)(name \<mapsto> val)\<rparr>"

definition writeJSON :: "nat \<Rightarrow> bytes \<Rightarrow> recorder \<Rightarrow> recorder" where
  "writeJSON status json rw =
     recorder_Write (json @ [CHR 0x0A])
       (recorder_WriteHeader status (set_header ''Content-Type'' ''application/json; charset=utf-8'' rw))"

definition error_body :: "nat \<Rightarrow> bytes \<Rightarrow> bytes" where
  "error_body status code =
     json_object [(''error'', json_object [(''code'', json_string code),
       (''retryable'', if status = 429 \<or> status \<ge> 500 then ''true'' else ''false'')])]"

definition writeError :: "nat \<Rightarrow> bytes \<Rightarrow> recorder \<Rightarrow> recorder" where
  "writeError status code rw = writeJSON status (error_body status code) rw"

text \<open>The status and the code of every error.\<close>

definition pii_error :: "proxy_error \<Rightarrow> nat \<times> string" where
  "pii_error e =
     (case e of
        ErrOf ErrCanceled \<Rightarrow> (504, ''request_timeout'')
      | ErrOf ErrDeadlineExceeded \<Rightarrow> (504, ''request_timeout'')
      | ErrOf ErrConflict \<Rightarrow> (409, ''context_conflict'')
      | ErrOf ErrContextGone \<Rightarrow> (410, ''context_gone'')
      | ErrOf ErrDemaskDenied \<Rightarrow> (403, ''demask_denied'')
      | ErrOf ErrStoreUnavailable \<Rightarrow> (503, ''pii_unavailable'')
      | ErrOf ErrDetectionUnavailable \<Rightarrow> (503, ''pii_unavailable'')
      | ErrOf ErrInvalidPolicy \<Rightarrow> (503, ''pii_unavailable'')
      | ErrBodyTooLarge \<Rightarrow> (413, ''body_too_large'')
      | ErrInvalidJSON \<Rightarrow> (400, ''invalid_request'')
      | ErrMissingField \<Rightarrow> (400, ''invalid_request'')
      | ErrExtraField \<Rightarrow> (400, ''invalid_request'')
      | ErrOf ErrInvalidRequest \<Rightarrow> (400, ''invalid_request'')
      | _ \<Rightarrow> (500, ''internal_error''))"

definition writePIIError :: "proxy_error \<Rightarrow> recorder \<Rightarrow> recorder" where
  "writePIIError e rw = writeError (fst (pii_error e)) (snd (pii_error e)) rw"

definition writeProviderError :: "error \<Rightarrow> recorder \<Rightarrow> recorder" where
  "writeProviderError e rw =
     (if e = ErrCanceled \<or> e = ErrDeadlineExceeded then writeError 504 ''request_timeout'' rw
      else if e = ErrInvalidModel then writeError 400 ''invalid_model'' rw
      else writeError 502 ''provider_failed'' rw)"

section \<open>Handlers\<close>

definition draining :: "'w Server \<Rightarrow> bool" where
  "draining s = sc_Draining (sv_config s)"

text \<open>The consumer of a request, or the refusal that has been written.\<close>

definition consumer :: "'w Server \<Rightarrow> http_request \<Rightarrow> recorder \<Rightarrow> recorder + Consumer" where
  "consumer s r rw =
     (if draining s then Inl (writeError 503 ''draining'' rw)
      else if rq_Method r \<noteq> ''POST'' then Inl (writeError 405 ''method_not_allowed'' (set_header ''Allow'' ''POST'' rw))
      else
        (case (sv_systems s, sv_processor s) of
           (Some resolve, Some _) \<Rightarrow>
             (let sid = (if rq_SystemID r \<noteq> [] then rq_SystemID r else sv_defaultSystem s) in
              case resolve sid of
                None \<Rightarrow> Inl (writeError 403 ''system_unavailable'' rw)
              | Some c \<Rightarrow>
                  if \<not> co_Enabled c then Inl (writeError 403 ''system_unavailable'' rw)
                  else if co_APIKey c \<noteq> [] \<and> rq_APIKey r \<noteq> co_APIKey c then Inl (writeError 401 ''authentication_failed'' rw)
                  else Inr c)
         | _ \<Rightarrow> Inl (writeError 503 ''not_configured'' rw)))"

text \<open>A handler returns or panics; what it has written so far is in the recorder.\<close>

datatype flow = Done recorder | Panicked recorder

definition scope_of :: "Consumer \<Rightarrow> bytes \<Rightarrow> Scope" where
  "scope_of c context_id = \<lparr>s_TenantID = co_ID c, s_ContextID = context_id, s_Policy = co_Policy c\<rparr>"

definition handleProcess :: "'a world_scheme Server \<Rightarrow> http_request \<Rightarrow> recorder \<Rightarrow> 'a world_scheme \<Rightarrow> flow \<times> 'a world_scheme" where
  "handleProcess s r rw w =
     (case consumer s r rw of
        Inl rw \<Rightarrow> (Done rw, w)
      | Inr c \<Rightarrow>
          (case decodeRequest (rq_Body r) (sc_MaxBodyBytes (sv_config s)) w of
             (Inl e, w) \<Rightarrow> (Done (writePIIError e rw), w)
           | (Inr req, w) \<Rightarrow>
               (case sv_processor s of
                  None \<Rightarrow> (Panicked rw, w)
                | Some p \<Rightarrow>
                    (case pp_Process p (scope_of c (req_PayloadID req)) (req_Payload req) w of
                       (None, w) \<Rightarrow> (Panicked rw, w)
                     | (Some (Inl e), w) \<Rightarrow> (Done (writePIIError (ErrOf e) rw), w)
                     | (Some (Inr result), w) \<Rightarrow> (Done (writeJSON 200 (json_object [(''result'', json_string result)]) rw), w)))))"

record generateRequest =
  gr_RequestID :: bytes
  gr_Model :: bytes
  gr_Text :: bytes

definition generate_fields :: "bytes list" where "generate_fields = [''request_id'', ''model'', ''text'']"

definition complete_generate :: "bytes option list \<Rightarrow> generateRequest option" where
  "complete_generate vals =
     (case (vals ! 0, vals ! 1, vals ! 2) of
        (Some request_id, Some model, Some txt) \<Rightarrow>
          if request_id = [] \<or> model = [] then None
          else Some \<lparr>gr_RequestID = request_id, gr_Model = model, gr_Text = txt\<rparr>
      | _ \<Rightarrow> None)"

text \<open>The last step: whatever the model answered is restored or cleaned for the caller.\<close>

definition generate_answer ::
  "'a world_scheme PIIProcessor \<Rightarrow> Scope \<Rightarrow> generateRequest \<Rightarrow> bytes \<Rightarrow> recorder \<Rightarrow> 'a world_scheme \<Rightarrow> flow \<times> 'a world_scheme"
where
  "generate_answer p scope req result rw w =
     (case pp_Demask p scope result w of
        (None, w) \<Rightarrow> (Panicked rw, w)
      | (Some (Inl e), w) \<Rightarrow> (Done (writePIIError (ErrOf e) rw), w)
      | (Some (Inr answer), w) \<Rightarrow>
          (Done (writeJSON 200 (json_object [(''request_id'', json_string (gr_RequestID req)), (''text'', json_string answer)]) rw), w))"

definition generate_call ::
  "'a world_scheme PIIProcessor \<Rightarrow> 'a world_scheme LLMProvider \<Rightarrow> http_request \<Rightarrow> Scope \<Rightarrow> generateRequest \<Rightarrow> recorder \<Rightarrow>
    'a world_scheme \<Rightarrow> flow \<times> 'a world_scheme"
where
  "generate_call p provider r scope req rw w =
     (case pp_Mask p scope (gr_Text req) w of
        (None, w) \<Rightarrow> (Panicked rw, w)
      | (Some (Inl e), w) \<Rightarrow> (Done (writePIIError (ErrOf e) rw), w)
      | (Some (Inr masked), w) \<Rightarrow>
          (case ctx_Err w of
             (Some e, w) \<Rightarrow> (Done (writePIIError (ErrOf e) rw), w)
           | (None, w) \<Rightarrow>
               (case provider \<lparr>pq_RequestID = rq_RequestID r, pq_Model = gr_Model req, pq_Text = m_Text masked\<rparr> w of
                  (None, w) \<Rightarrow> (Panicked rw, w)
                | (Some (Inl e), w) \<Rightarrow> (Done (writeProviderError e rw), w)
                | (Some (Inr result), w) \<Rightarrow> generate_answer p scope req result rw w)))"

definition handleGenerate :: "'a world_scheme Server \<Rightarrow> http_request \<Rightarrow> recorder \<Rightarrow> 'a world_scheme \<Rightarrow> flow \<times> 'a world_scheme" where
  "handleGenerate s r rw w =
     (case consumer s r rw of
        Inl rw \<Rightarrow> (Done rw, w)
      | Inr c \<Rightarrow>
          (case sv_provider s of
             None \<Rightarrow> (Done (writeError 503 ''provider_unavailable'' rw), w)
           | Some provider \<Rightarrow>
               (case decodeObject (rq_Body r) (sc_MaxBodyBytes (sv_config s)) generate_fields w of
                  (Inl e, w) \<Rightarrow> (Done (writePIIError e rw), w)
                | (Inr vals, w) \<Rightarrow>
                    (case complete_generate vals of
                       None \<Rightarrow> (Done (writeError 400 ''missing_field'' rw), w)
                     | Some req \<Rightarrow>
                         if gr_Model req \<notin> set (case sc_AllowedModels (sv_config s) of None \<Rightarrow> [] | Some ms \<Rightarrow> ms)
                         then (Done (writeError 400 ''invalid_model'' rw), w)
                         else
                           (case sv_processor s of
                              None \<Rightarrow> (Panicked rw, w)
                            | Some p \<Rightarrow> generate_call p provider r (scope_of c (gr_RequestID req)) req rw w)))))"

definition handleHealth :: "recorder \<Rightarrow> 'w \<Rightarrow> flow \<times> 'w" where
  "handleHealth rw w = (Done (writeJSON 200 (json_object [(''status'', json_string ''ok'')]) rw), w)"

definition handleReady :: "'w Server \<Rightarrow> recorder \<Rightarrow> 'w \<Rightarrow> flow \<times> 'w" where
  "handleReady s rw w =
     (if draining s then (Done (writeError 503 ''draining'' rw), w)
      else
        (case (sv_systems s, sv_processor s) of
           (Some resolve, Some _) \<Rightarrow>
             if sc_EnableGenerate (sv_config s) \<and> sv_provider s = None then (Done (writeError 503 ''not_ready'' rw), w)
             else if resolve (sv_defaultSystem s) = None then (Done (writeError 503 ''not_ready'' rw), w)
             else
               (case sv_health s of
                  None \<Rightarrow> (Done (writeJSON 200 (json_object [(''status'', json_string ''ready'')]) rw), w)
                | Some check \<Rightarrow>
                    (case check w of
                       (Some e, w) \<Rightarrow> (Done (writeError 503 ''dependency_unavailable'' rw), w)
                     | (None, w) \<Rightarrow> (Done (writeJSON 200 (json_object [(''status'', json_string ''ready'')]) rw), w)))
         | _ \<Rightarrow> (Done (writeError 503 ''not_ready'' rw), w)))"

definition route :: "'a world_scheme Server \<Rightarrow> http_request \<Rightarrow> recorder \<Rightarrow> 'a world_scheme \<Rightarrow> flow \<times> 'a world_scheme" where
  "route s r rw w =
     (if rq_Path r = ''/process'' then handleProcess s r rw w
      else if rq_Path r = ''/v1/generate'' \<and> sc_EnableGenerate (sv_config s) then handleGenerate s r rw w
      else if rq_Path r \<in> {''/live'', ''/healthz''} then handleHealth rw w
      else if rq_Path r \<in> {''/ready'', ''/readyz''} then handleReady s rw w
      else (Done (writeError 404 ''not_found'' rw), w))"

section \<open>Middleware\<close>

text \<open>
  What all requests share: the slots of \<^verbatim>\<open>sem\<close> that are taken, the gauge, the answers of the rate limiter
  \<^verbatim>\<open>golang.org/x/time/rate\<close>, and what is counted and logged.
\<close>

datatype http_event =
    ObserveRejected bytes
  | LogPanic bytes bytes
  | ObserveRequest nat bytes
  | LogRequest bytes bytes nat

record gate =
  ga_slots :: nat
  ga_active :: int
  ga_allow :: "nat \<Rightarrow> bool"
  ga_asked :: nat
  ga_log :: "http_event list"

definition requestOperation :: "bytes \<Rightarrow> bytes" where
  "requestOperation path =
     (if path = ''/process'' then ''process''
      else if path = ''/v1/generate'' then ''generate''
      else if path = ''/live'' \<or> path = ''/healthz'' then ''live''
      else if path = ''/ready'' \<or> path = ''/readyz'' then ''ready''
      else ''other'')"

definition log_http :: "http_event list \<Rightarrow> gate \<Rightarrow> gate" where
  "log_http es g = g\<lparr>ga_log := ga_log g @ es\<rparr>"

definition limiter_Allow :: "gate \<Rightarrow> bool \<times> gate" where
  "limiter_Allow g = (ga_allow g (ga_asked g), g\<lparr>ga_asked := Suc (ga_asked g)\<rparr>)"

text \<open>A slot is taken without waiting, or the request is refused.\<close>

definition acquireRequest :: "'w Server \<Rightarrow> recorder \<Rightarrow> gate \<Rightarrow> (recorder + unit) \<times> gate" where
  "acquireRequest s rw g =
     (case limiter_Allow g of
        (False, g) \<Rightarrow>
          (Inl (writeError 429 ''rate_limit_exceeded'' (set_header ''Retry-After'' ''1'' rw)), log_http [ObserveRejected ''rate_limit''] g)
      | (True, g) \<Rightarrow>
          if ga_slots g < sv_capacity s then (Inr (), g\<lparr>ga_slots := Suc (ga_slots g)\<rparr>)
          else
            (Inl (writeError 429 ''concurrency_exceeded'' (set_header ''Retry-After'' ''1'' rw)), log_http [ObserveRejected ''concurrency''] g))"

definition serve_enter :: "gate \<Rightarrow> gate" where
  "serve_enter g = g\<lparr>ga_active := ga_active g + 1\<rparr>"

text \<open>The deferred calls of an admitted request.\<close>

definition serve_leave :: "gate \<Rightarrow> gate" where
  "serve_leave g = g\<lparr>ga_active := ga_active g - 1, ga_slots := ga_slots g - 1\<rparr>"

definition recovered :: "bytes \<Rightarrow> bytes \<Rightarrow> flow \<Rightarrow> gate \<Rightarrow> recorder \<times> gate" where
  "recovered operation reqID fl g =
     (case fl of
        Done rw \<Rightarrow> (rw, g)
      | Panicked rw \<Rightarrow>
          (if rw_status rw = 0 then writeError 500 ''internal_error'' rw else rw,
           log_http [ObserveRejected ''panic'', LogPanic reqID operation] g))"

definition recordRequest :: "recorder \<Rightarrow> bytes \<Rightarrow> bytes \<Rightarrow> gate \<Rightarrow> gate" where
  "recordRequest rw operation reqID g =
     (let status = (if rw_status rw = 0 then 200 else rw_status rw)
      in log_http [ObserveRequest status operation, LogRequest reqID operation status] g)"

definition finish :: "bytes \<Rightarrow> bytes \<Rightarrow> flow \<Rightarrow> gate \<Rightarrow> recorder \<times> gate" where
  "finish operation reqID fl g =
     (case recovered operation reqID fl g of (rw, g) \<Rightarrow> (rw, recordRequest rw operation reqID g))"

definition new_recorder :: recorder where
  "new_recorder = \<lparr>rw_status = 0, rw_sent = [], rw_header = Map.empty, rw_body = []\<rparr>"

definition common_headers :: "bytes \<Rightarrow> recorder \<Rightarrow> recorder" where
  "common_headers reqID rw =
     set_header ''Cache-Control'' ''no-store'' (set_header ''X-Content-Type-Options'' ''nosniff''
       (set_header ''X-Request-ID'' reqID rw))"

definition guarded :: "bytes \<Rightarrow> bool" where
  "guarded operation \<longleftrightarrow> operation = ''process'' \<or> operation = ''generate''"

text \<open>
  A request whose identifier is known, from its first to its last step. No random bytes for the identifier is a panic
  of \<^verbatim>\<open>NextRequestID\<close>.
\<close>

definition serve_identified ::
  "'a world_scheme Server \<Rightarrow> http_request \<Rightarrow> bytes \<Rightarrow> bytes \<Rightarrow> gate \<Rightarrow> 'a world_scheme \<Rightarrow> recorder \<times> gate \<times> 'a world_scheme"
where
  "serve_identified s r operation reqID g w =
     (let rw = common_headers reqID new_recorder; r = r\<lparr>rq_RequestID := reqID\<rparr>; w = w\<lparr>w_reqid := reqID\<rparr> in
      if guarded operation then
        (case acquireRequest s rw g of
           (Inl rw, g) \<Rightarrow> (case finish operation reqID (Done rw) g of (rw, g) \<Rightarrow> (rw, g, w))
         | (Inr _, g) \<Rightarrow>
             (case route s r rw w of
                (fl, w) \<Rightarrow> (case finish operation reqID fl (serve_leave (serve_enter g)) of (rw, g) \<Rightarrow> (rw, g, w))))
      else
        (case route s r rw w of
           (fl, w) \<Rightarrow> (case finish operation reqID fl g of (rw, g) \<Rightarrow> (rw, g, w))))"

definition withMiddleware ::
  "'a world_scheme Server \<Rightarrow> http_request \<Rightarrow> gate \<Rightarrow> 'a world_scheme \<Rightarrow> recorder \<times> gate \<times> 'a world_scheme"
where
  "withMiddleware s r g w =
     (case rand_Read w of
        (None, w) \<Rightarrow>
          (case finish (requestOperation (rq_Path r)) [] (Panicked new_recorder) g of (rw, g) \<Rightarrow> (rw, g, w))
      | (Some bs, w) \<Rightarrow> serve_identified s r (requestOperation (rq_Path r)) (hex_encode bs) g w)"

section \<open>Every request gets one answer\<close>

text \<open>The body belongs to the status, and an error says whether a retry makes sense.\<close>

definition fresh :: "recorder \<Rightarrow> bool" where
  "fresh rw \<longleftrightarrow> rw_status rw = 0 \<and> rw_sent rw = [] \<and> rw_body rw = []"

definition answered :: "recorder \<Rightarrow> bool" where
  "answered rw \<longleftrightarrow> rw_sent rw = [rw_status rw] \<and>
     (rw_status rw = 200 \<or> 400 \<le> rw_status rw \<and> (\<exists>code. rw_body rw = error_body (rw_status rw) code @ [CHR 0x0A]))"

lemma fresh_set_header [simp]: "fresh (set_header n v rw) = fresh rw"
  by (simp add: fresh_def set_header_def)

lemma fresh_new [simp]: "fresh (common_headers reqID new_recorder)" "fresh new_recorder"
  by (simp_all add: fresh_def common_headers_def set_header_def new_recorder_def)

lemma answered_writeError [intro!]: "fresh rw \<Longrightarrow> 400 \<le> status \<Longrightarrow> answered (writeError status code rw)"
  by (auto simp: fresh_def answered_def writeError_def writeJSON_def recorder_Write_def recorder_WriteHeader_def set_header_def)

lemma answered_writeJSON [intro!]: "fresh rw \<Longrightarrow> answered (writeJSON 200 body rw)"
  by (auto simp: fresh_def answered_def writeJSON_def recorder_Write_def recorder_WriteHeader_def set_header_def)

lemma pii_error_status: "400 \<le> fst (pii_error e)"
  by (auto simp: pii_error_def split: proxy_error.splits error.splits)

lemma answered_writePIIError [intro!]: "fresh rw \<Longrightarrow> answered (writePIIError e rw)"
  by (auto simp: writePIIError_def pii_error_status)

lemma answered_writeProviderError [intro!]: "fresh rw \<Longrightarrow> answered (writeProviderError e rw)"
  by (auto simp: writeProviderError_def)

text \<open>A handler that returns has answered; one that panics has written nothing yet.\<close>

definition flow_ok :: "flow \<Rightarrow> bool" where
  "flow_ok fl = (case fl of Done rw \<Rightarrow> answered rw | Panicked rw \<Rightarrow> fresh rw)"

lemma flow_ok_simps [simp]: "flow_ok (Done rw) = answered rw" "flow_ok (Panicked rw) = fresh rw"
  by (simp_all add: flow_ok_def)

lemma consumer_refused: "fresh rw \<Longrightarrow> consumer s r rw = Inl rw' \<Longrightarrow> answered rw'"
  by (auto simp: consumer_def Let_def split: if_splits option.splits)

lemma handleProcess_answers: "fresh rw \<Longrightarrow> flow_ok (fst (handleProcess s r rw w))"
  by (auto simp: handleProcess_def consumer_refused split: sum.splits prod.splits option.splits)

lemma generate_answers: "fresh rw \<Longrightarrow> flow_ok (fst (generate_call p provider r scope req rw w))"
  by (auto simp: generate_call_def generate_answer_def split: sum.splits prod.splits option.splits)

lemma handleGenerate_answers: "fresh rw \<Longrightarrow> flow_ok (fst (handleGenerate s r rw w))"
  by (auto simp: handleGenerate_def consumer_refused generate_answers split: sum.splits prod.splits option.splits)

lemma handleReady_answers: "fresh rw \<Longrightarrow> flow_ok (fst (handleReady s rw w))"
  by (auto simp: handleReady_def split: sum.splits prod.splits option.splits)

lemma route_answers: "fresh rw \<Longrightarrow> flow_ok (fst (route s r rw w))"
  using handleProcess_answers handleGenerate_answers handleReady_answers
  by (auto simp: route_def handleHealth_def)

lemma finish_answers:
  assumes "flow_ok fl" and "finish operation reqID fl g = (rw, g')"
  shows "answered rw" "ga_log g' = ga_log g @ (case fl of Done _ \<Rightarrow> [] | Panicked _ \<Rightarrow> [ObserveRejected ''panic'', LogPanic reqID operation]) @
      [ObserveRequest (rw_status rw) operation, LogRequest reqID operation (rw_status rw)]"
    "ga_slots g' = ga_slots g" "ga_active g' = ga_active g"
proof -
  have st: "answered rw \<Longrightarrow> rw_status rw \<noteq> 0" for rw by (auto simp: answered_def)
  have r: "answered (fst (recovered operation reqID fl g))"
    using assms(1) by (cases fl) (auto simp: recovered_def fresh_def intro: answered_writeError)
  then show "answered rw" using assms(2) by (auto simp: finish_def split: prod.splits)
  then show "ga_log g' = ga_log g @ (case fl of Done _ \<Rightarrow> [] | Panicked _ \<Rightarrow> [ObserveRejected ''panic'', LogPanic reqID operation]) @
      [ObserveRequest (rw_status rw) operation, LogRequest reqID operation (rw_status rw)]"
    "ga_slots g' = ga_slots g" "ga_active g' = ga_active g"
    using assms(2) st by (auto simp: finish_def recovered_def recordRequest_def log_http_def Let_def split: flow.splits prod.splits)
qed

lemma acquireRequest_result:
  assumes "acquireRequest s rw g = (a, g')" and "fresh rw"
  shows "case a of
      Inl rw' \<Rightarrow> answered rw' \<and> rw_status rw' = 429 \<and> ga_slots g' = ga_slots g \<and> ga_active g' = ga_active g \<and>
        (\<exists>reason. ga_log g' = ga_log g @ [ObserveRejected reason] \<and> (reason = ''concurrency'' \<longrightarrow> sv_capacity s \<le> ga_slots g))
    | Inr _ \<Rightarrow> ga_slots g' = Suc (ga_slots g) \<and> ga_slots g < sv_capacity s \<and> ga_active g' = ga_active g \<and> ga_log g' = ga_log g"
  using assms
  by (cases "ga_allow g (ga_asked g)")
    (auto simp: acquireRequest_def limiter_Allow_def log_http_def writeError_def writeJSON_def recorder_Write_def
      recorder_WriteHeader_def set_header_def fresh_def answered_def split: if_splits)

lemma serve_identified_result:
  assumes "serve_identified s r operation reqID g w = (rw, g', w')"
  shows "answered rw" "ga_slots g' = ga_slots g" "ga_active g' = ga_active g"
    "\<exists>before. ga_log g' = ga_log g @ before @ [ObserveRequest (rw_status rw) operation, LogRequest reqID operation (rw_status rw)] \<and>
      (\<forall>e \<in> set before. \<forall>st oper. e \<noteq> ObserveRequest st oper)"
proof -
  let ?rw = "common_headers reqID new_recorder" and ?r = "r\<lparr>rq_RequestID := reqID\<rparr>" and ?w = "w\<lparr>w_reqid := reqID\<rparr>"
  have *: "answered rw \<and> ga_slots g' = ga_slots g \<and> ga_active g' = ga_active g \<and>
    (\<exists>before. ga_log g' = ga_log g @ before @ [ObserveRequest (rw_status rw) operation, LogRequest reqID operation (rw_status rw)] \<and>
      (\<forall>e \<in> set before. \<forall>st oper. e \<noteq> ObserveRequest st oper))"
  proof (cases "guarded operation")
    case False
    obtain fl u where fl: "route s ?r ?rw ?w = (fl, u)" by force
    then have ok: "flow_ok fl" using route_answers [OF fresh_new(1), of s ?r reqID ?w] by simp
    have f: "finish operation reqID fl g = (rw, g')" using assms False fl by (auto simp: serve_identified_def split: prod.splits)
    from finish_answers [OF ok f] show ?thesis by (cases fl) auto
  next
    case guarded: True
    obtain a h where a: "acquireRequest s ?rw g = (a, h)" by force
    note acq = acquireRequest_result [OF a fresh_new(1)]
    show ?thesis
    proof (cases a)
      case (Inl refused)
      then have f: "finish operation reqID (Done refused) h = (rw, g')"
        using assms guarded a by (auto simp: serve_identified_def split: prod.splits)
      from finish_answers [OF _ f] acq Inl show ?thesis by auto
    next
      case (Inr unit)
      obtain fl u where fl: "route s ?r ?rw ?w = (fl, u)" by force
      then have ok: "flow_ok fl" using route_answers [OF fresh_new(1), of s ?r reqID ?w] by simp
      have f: "finish operation reqID fl (serve_leave (serve_enter h)) = (rw, g')"
        using assms guarded a Inr fl by (auto simp: serve_identified_def split: prod.splits)
      from finish_answers [OF ok f] acq Inr show ?thesis by (cases fl) (auto simp: serve_leave_def serve_enter_def)
    qed
  qed
  then show "answered rw" "ga_slots g' = ga_slots g" "ga_active g' = ga_active g"
    "\<exists>before. ga_log g' = ga_log g @ before @ [ObserveRequest (rw_status rw) operation, LogRequest reqID operation (rw_status rw)] \<and>
      (\<forall>e \<in> set before. \<forall>st oper. e \<noteq> ObserveRequest st oper)" by blast+
qed

text \<open>
  C14. Every request gets exactly one answer, also one that is refused by a limit or whose handler panics: one status
  line goes out, an error carries a body that says whether a retry makes sense, the request is counted once under
  this status, and the slot and the gauge are given back.
\<close>

theorem every_request_answered:
  assumes "withMiddleware s r g w = (rw, g', w')"
  shows "rw_sent rw = [rw_status rw] \<and>
    (rw_status rw = 200 \<or> 400 \<le> rw_status rw \<and> (\<exists>code. rw_body rw = error_body (rw_status rw) code @ [CHR 0x0A])) \<and>
    (\<exists>before reqID. ga_log g' = ga_log g @ before @ [ObserveRequest (rw_status rw) (requestOperation (rq_Path r)),
        LogRequest reqID (requestOperation (rq_Path r)) (rw_status rw)] \<and> (\<forall>e \<in> set before. \<forall>st oper. e \<noteq> ObserveRequest st oper)) \<and>
    ga_slots g' = ga_slots g \<and> ga_active g' = ga_active g"
proof (cases "fst (rand_Read w)")
  case None
  then have f: "finish (requestOperation (rq_Path r)) [] (Panicked new_recorder) g = (rw, g')"
    using assms by (auto simp: withMiddleware_def split: prod.splits option.splits)
  from finish_answers [OF _ f] show ?thesis by (auto simp: answered_def)
next
  case (Some bs)
  then have "serve_identified s r (requestOperation (rq_Path r)) (hex_encode bs) g (snd (rand_Read w)) = (rw, g', w')"
    using assms by (auto simp: withMiddleware_def split: prod.splits option.splits)
  from serve_identified_result [OF this] show ?thesis unfolding answered_def by blast
qed

section \<open>Requests side by side\<close>

text \<open>
  Handlers of several requests run interleaved; only the admission and the deferred calls touch what they share. The
  state is the gate and the admitted requests that have not ended.
\<close>

inductive server_step :: "'w Server \<Rightarrow> gate \<times> http_request multiset \<Rightarrow> gate \<times> http_request multiset \<Rightarrow> bool" for s where
  refused: "acquireRequest s rw g = (Inl rw', g') \<Longrightarrow> server_step s (g, R) (g', R)"
| admitted: "acquireRequest s rw g = (Inr (), g') \<Longrightarrow> server_step s (g, R) (serve_enter g', add_mset r R)"
| ended: "r \<in># R \<Longrightarrow> finish operation reqID fl (serve_leave g) = (rw, g') \<Longrightarrow> server_step s (g, R) (g', R - {#r#})"

inductive_cases server_stepE: "server_step s (g, R) (g', R')"

definition idle :: "gate \<Rightarrow> bool" where
  "idle g \<longleftrightarrow> ga_slots g = 0 \<and> ga_active g = 0"

lemma finish_gate: "finish operation reqID fl g = (rw, g') \<Longrightarrow> ga_slots g' = ga_slots g \<and> ga_active g' = ga_active g"
  by (auto simp: finish_def recovered_def recordRequest_def log_http_def Let_def split: flow.splits prod.splits)

lemma acquire_gate:
  "acquireRequest s rw g = (Inr u, g') \<Longrightarrow> ga_slots g' = Suc (ga_slots g) \<and> ga_slots g < sv_capacity s \<and> ga_active g' = ga_active g"
  "acquireRequest s rw g = (Inl rw', g') \<Longrightarrow> ga_slots g' = ga_slots g \<and> ga_active g' = ga_active g"
  by (cases "ga_allow g (ga_asked g)"; auto simp: acquireRequest_def limiter_Allow_def log_http_def split: if_splits)+

definition gate_inv :: "'w Server \<Rightarrow> gate \<times> http_request multiset \<Rightarrow> bool" where
  "gate_inv s gR \<longleftrightarrow> ga_slots (fst gR) = size (snd gR) \<and> ga_active (fst gR) = int (size (snd gR)) \<and> size (snd gR) \<le> sv_capacity s"

lemma gate_inv_step: "server_step s x y \<Longrightarrow> gate_inv s x \<Longrightarrow> gate_inv s y"
proof (induction rule: server_step.induct)
  case (ended r R operation reqID fl g rw g')
  then have "0 < size R" by (auto simp: nonempty_has_size [symmetric])
  with ended finish_gate [OF ended(2)] show ?case by (auto simp: gate_inv_def serve_leave_def size_Diff_singleton of_nat_diff)
qed (auto simp: gate_inv_def serve_enter_def dest!: acquire_gate)

text \<open>
  C15. The limit on concurrency holds for every interleaving of requests: starting from an idle server, the slots taken
  and the gauge are the number of requests in flight, which never exceeds the capacity; a request is refused for
  lack of slots only when the capacity is used up.
\<close>

theorem concurrency_limited:
  assumes "idle g0" and "(server_step s)\<^sup>*\<^sup>* (g0, {#}) (g, R)"
  shows "size R \<le> sv_capacity s \<and> ga_slots g = size R \<and> ga_active g = int (size R) \<and>
    (fst (limiter_Allow g) \<longrightarrow> (\<forall>rw. (\<exists>g'. acquireRequest s rw g = (Inr (), g')) \<longleftrightarrow> size R < sv_capacity s))"
proof -
  have "gate_inv s (g0, {#})" using assms(1) by (simp add: gate_inv_def idle_def)
  with assms(2) have "gate_inv s (g, R)" by (induction rule: rtranclp_induct) (auto intro: gate_inv_step)
  then show ?thesis by (auto simp: gate_inv_def acquireRequest_def limiter_Allow_def)
qed

end
