(* ===== verification/Proxy_Properties.thy ===== *)
theory Proxy_Properties
  imports Proxy_Server
begin

text \<open>Who is served, and what leaves for the language model. Then the examples for the facts about the server.\<close>

section \<open>Who is served\<close>

text \<open>The consumer on whose behalf a request is served.\<close>

definition authorised :: "'w Server \<Rightarrow> http_request \<Rightarrow> Consumer option" where
  "authorised s r =
     (if draining s \<or> rq_Method r \<noteq> ''POST'' \<or> sv_processor s = None then None
      else
        (case sv_systems s of
           None \<Rightarrow> None
         | Some resolve \<Rightarrow>
             (case resolve (if rq_SystemID r \<noteq> [] then rq_SystemID r else sv_defaultSystem s) of
                None \<Rightarrow> None
              | Some c \<Rightarrow> if co_Enabled c \<and> (co_APIKey c = [] \<or> rq_APIKey r = co_APIKey c) then Some c else None)))"

lemma consumer_authorised: "consumer s r rw = Inr c \<longleftrightarrow> authorised s r = Some c"
  by (auto simp: consumer_def authorised_def Let_def split: option.splits if_splits)

lemma consumer_refusal:
  "fresh rw \<Longrightarrow> consumer s r rw = Inl rw' \<Longrightarrow> rw_status rw' \<in> {401, 403, 405, 503}"
  by (auto simp: consumer_def Let_def writeError_def writeJSON_def recorder_Write_def recorder_WriteHeader_def set_header_def fresh_def
      split: option.splits if_splits)

lemma consumer_frame: "sv_processor s \<noteq> None \<Longrightarrow> consumer (s\<lparr>sv_processor := Some p, sv_provider := l\<rparr>) r rw = consumer s r rw"
  by (auto simp: consumer_def draining_def Let_def split: option.splits)

lemma authorised_frame [simp]: "authorised s (r\<lparr>rq_RequestID := i\<rparr>) = authorised s r"
  by (simp add: authorised_def cong: option.case_cong)

lemma acquireRequest_frame: "acquireRequest (s\<lparr>sv_processor := p, sv_provider := l\<rparr>) = acquireRequest s"
  by (simp add: fun_eq_iff acquireRequest_def limiter_Allow_def cong: bool.case_cong)

text \<open>A refused request of the two guarded paths.\<close>

lemma route_refused:
  assumes "authorised s r = None" and "rq_Path r \<in> {''/process'', ''/v1/generate''}" and "fresh rw"
  shows "\<exists>rw'. route s r rw w = (Done rw', w) \<and> rw_status rw' \<in> {401, 403, 404, 405, 503} \<and>
    (sv_processor s \<noteq> None \<longrightarrow> route (s\<lparr>sv_processor := Some p, sv_provider := l\<rparr>) r rw w = (Done rw', w))"
proof -
  obtain rw' where c: "consumer s r rw = Inl rw'"
    using assms(1) consumer_authorised [of s r rw] by (cases "consumer s r rw") auto
  note st = consumer_refusal [OF assms(3) c]
  have n: "rw_status (writeError 404 ''not_found'' rw) = 404"
    using assms(3) by (simp add: writeError_def writeJSON_def recorder_Write_def recorder_WriteHeader_def set_header_def fresh_def)
  show ?thesis
    using c st n assms(2) by (auto simp: route_def handleProcess_def handleGenerate_def consumer_frame)
qed

lemma not_ok_429:
  "fresh rw \<Longrightarrow> acquireRequest s rw g = (Inl rw', g') \<Longrightarrow> rw_status rw' = 429"
  using acquireRequest_result [of s rw g "Inl rw'" g'] by simp

lemma requestOperation_guarded:
  "p \<in> {''/process'', ''/v1/generate''} \<Longrightarrow> guarded (requestOperation p)"
  by (auto simp: requestOperation_def guarded_def)

lemma finish_Done: "finish operation reqID (Done rw) g = (rw', g') \<Longrightarrow> rw' = rw"
  by (auto simp: finish_def recovered_def)

text \<open>An admitted request of a guarded path, without the bookkeeping.\<close>

lemma middleware_cases:
  assumes "withMiddleware s r g w = (rw, g', w')" and "rq_Path r \<in> {''/process'', ''/v1/generate''}"
  obtains (panic) "rw_status rw = 500" "w' = snd (rand_Read w)"
  | (limited) reqID where "rw_status rw = 429" "w' = (snd (rand_Read w))\<lparr>w_reqid := reqID\<rparr>"
  | (routed) reqID fl bs where "route s (r\<lparr>rq_RequestID := reqID\<rparr>) (common_headers reqID new_recorder)
        ((snd (rand_Read w))\<lparr>w_reqid := reqID\<rparr>) = (fl, w')"
      "rw = (case fl of Done rw \<Rightarrow> rw | Panicked rw \<Rightarrow> writeError 500 ''internal_error'' rw)"
      "fst (rand_Read w) = Some bs" "reqID = hex_encode bs"
proof (cases "fst (rand_Read w)")
  case None
  then have "finish (requestOperation (rq_Path r)) [] (Panicked new_recorder) g = (rw, g')"
    using assms(1) by (auto simp: withMiddleware_def split: prod.splits option.splits)
  then have "rw_status rw = 500"
    by (auto simp: finish_def recovered_def new_recorder_def writeError_def writeJSON_def recorder_Write_def recorder_WriteHeader_def
        set_header_def)
  moreover have "w' = snd (rand_Read w)" using None assms(1) by (auto simp: withMiddleware_def split: prod.splits option.splits)
  ultimately show thesis by (rule panic)
next
  case (Some bs)
  let ?id = "hex_encode bs"
  have s: "serve_identified s r (requestOperation (rq_Path r)) ?id g (snd (rand_Read w)) = (rw, g', w')"
    using Some assms(1) by (auto simp: withMiddleware_def split: prod.splits option.splits)
  have guard: "guarded (requestOperation (rq_Path r))" by (rule requestOperation_guarded [OF assms(2)])
  let ?rw = "common_headers ?id new_recorder" and ?u = "(snd (rand_Read w))\<lparr>w_reqid := ?id\<rparr>"
  obtain a h where a: "acquireRequest s ?rw g = (a, h)" by force
  show thesis
  proof (cases a)
    case (Inl refused)
    then have "rw = refused" "w' = ?u" using s a guard by (auto simp: serve_identified_def dest: finish_Done split: prod.splits)
    then show ?thesis using limited not_ok_429 [OF fresh_new(1)] a Inl by blast
  next
    case (Inr unit)
    obtain fl v where fl: "route s (r\<lparr>rq_RequestID := ?id\<rparr>) ?rw ?u = (fl, v)" by force
    then have ok: "flow_ok fl" using route_answers [OF fresh_new(1), of s "r\<lparr>rq_RequestID := ?id\<rparr>" ?id ?u] by simp
    have "v = w'" "rw = (case fl of Done rw \<Rightarrow> rw | Panicked rw \<Rightarrow> writeError 500 ''internal_error'' rw)"
      using s a Inr fl guard ok
      by (auto simp: serve_identified_def finish_def recovered_def fresh_def split: prod.splits flow.splits)
    with fl Some show ?thesis using routed by simp
  qed
qed

lemma writeError_status: "fresh rw \<Longrightarrow> 0 < st \<Longrightarrow> rw_status (writeError st code rw) = st"
  by (simp add: writeError_def writeJSON_def recorder_Write_def recorder_WriteHeader_def set_header_def fresh_def)

lemma error_not_ok:
  "fresh rw \<Longrightarrow> rw_status (writePIIError e rw) \<noteq> 200" "fresh rw \<Longrightarrow> rw_status (writeProviderError f rw) \<noteq> 200"
  using pii_error_status [of e] by (auto simp: writePIIError_def writeProviderError_def writeError_status split: if_splits)

lemma writeJSON_body: "fresh rw \<Longrightarrow> rw_body (writeJSON 200 json rw) = json @ [CHR 0x0A]"
  by (simp add: writeJSON_def recorder_Write_def recorder_WriteHeader_def set_header_def fresh_def)

lemma processed_request:
  fixes s :: "'a world_scheme Server"
  assumes "rq_Path r = ''/process''" and "withMiddleware s r g w = (rw, g', w')" and "rw_status rw = 200"
  shows "\<exists>c p req result u v. authorised s r = Some c \<and> sv_processor s = Some p \<and>
      decodeRequest (rq_Body r) (sc_MaxBodyBytes (sv_config s)) u = (Inr req, v) \<and>
      pp_Process p (scope_of c (req_PayloadID req)) (req_Payload req) v = (Some (Inr result), w') \<and>
      rw_body rw = json_object [(''result'', json_string result)] @ [CHR 0x0A]"
proof -
  have path: "rq_Path r \<in> {''/process'', ''/v1/generate''}" using assms(1) by simp
  show ?thesis
  proof (cases rule: middleware_cases [OF assms(2) path])
    case (3 reqID fl bs)
    define u where "u = (snd (rand_Read w))\<lparr>w_reqid := reqID\<rparr>"
    let ?rw = "common_headers reqID new_recorder" and ?r = "r\<lparr>rq_RequestID := reqID\<rparr>"
    have h: "handleProcess s ?r ?rw u = (fl, w')" using 3(1) assms(1) by (simp add: route_def u_def)
    obtain c where c: "consumer s ?r ?rw = Inr c"
      using h assms(3) 3(2) consumer_refusal [OF fresh_new(1), of s ?r] by (cases "consumer s ?r ?rw") (fastforce simp: handleProcess_def)+
    have auth: "authorised s r = Some c" using c by (simp add: consumer_authorised)
    obtain d v where d: "decodeRequest (rq_Body r) (sc_MaxBodyBytes (sv_config s)) u = (d, v)" by force
    obtain p where p: "sv_processor s = Some p" using auth by (auto simp: authorised_def split: if_splits)
    obtain req where req: "d = Inr req"
      using h c d assms(3) 3(2) error_not_ok(1) by (cases d) (auto simp: handleProcess_def)
    obtain res where res: "fst (pp_Process p (scope_of c (req_PayloadID req)) (req_Payload req) v) = Some (Inr res)"
      using h c d p req assms(3) 3(2) error_not_ok(1) writeError_status
      by (cases "fst (pp_Process p (scope_of c (req_PayloadID req)) (req_Payload req) v)")
        (auto simp: handleProcess_def split: prod.splits sum.splits)
    then obtain x where x: "pp_Process p (scope_of c (req_PayloadID req)) (req_Payload req) v = (Some (Inr res), x)"
      by (metis prod.collapse)
    have "x = w'" "rw = writeJSON 200 (json_object [(''result'', json_string res)]) ?rw"
      using h c d p req x 3(2) by (auto simp: handleProcess_def)
    then show ?thesis using auth p d req x writeJSON_body [OF fresh_new(1)] by blast
  qed (use assms in auto)
qed

lemma unauthorised_request:
  fixes s :: "'a world_scheme Server"
  assumes "rq_Path r = ''/process''" and "withMiddleware s r g w = (rw, g', w')" and "authorised s r = None"
  shows "400 \<le> rw_status rw \<and>
    (sv_processor s \<noteq> None \<longrightarrow> withMiddleware (s\<lparr>sv_processor := Some p2, sv_provider := l2\<rparr>) r g w = (rw, g', w'))"
proof -
  have path: "rq_Path r \<in> {''/process'', ''/v1/generate''}" using assms(1) by simp
  have "400 \<le> rw_status rw"
  proof (cases rule: middleware_cases [OF assms(2) path])
    case (3 reqID fl bs)
    obtain rw' where "fl = Done rw'" "rw_status rw' \<in> {401, 403, 404, 405, 503}"
      using route_refused [of s "r\<lparr>rq_RequestID := reqID\<rparr>" "common_headers reqID new_recorder"
          "(snd (rand_Read w))\<lparr>w_reqid := reqID\<rparr>" l2 p2] assms(3) path 3(1) by auto
    then show ?thesis using 3(2) by auto
  qed auto
  moreover have "withMiddleware (s\<lparr>sv_processor := Some p2, sv_provider := l2\<rparr>) r g w = withMiddleware s r g w"
    if "sv_processor s \<noteq> None"
  proof -
    have same: "route (s\<lparr>sv_processor := Some p2, sv_provider := l2\<rparr>) (r\<lparr>rq_RequestID := i\<rparr>) (common_headers i new_recorder) u =
        route s (r\<lparr>rq_RequestID := i\<rparr>) (common_headers i new_recorder) u" for i u
      using route_refused [of s "r\<lparr>rq_RequestID := i\<rparr>" "common_headers i new_recorder" u l2 p2] assms(3) path that by auto
    show ?thesis unfolding withMiddleware_def serve_identified_def Let_def acquireRequest_frame same ..
  qed
  ultimately show ?thesis
    using assms(2) by simp
qed

text \<open>
  C12. Only authorised requests are processed. An answer 200 of \<^verbatim>\<open>/process\<close> means that the server is not draining, that
  the consumer is known and enabled, that the key is the consumer's unless it has none, that the body decoded, and that
  the body of the answer is the result of processing the payload in the consumer's own scope. A request that is not
  authorised is refused with an error, and neither the processor nor the model provider has any influence on what
  happens.
\<close>

theorem process_authorised:
  fixes s :: "'a world_scheme Server"
  assumes "rq_Path r = ''/process''" and "withMiddleware s r g w = (rw, g', w')"
  shows "(rw_status rw = 200 \<longrightarrow> (\<exists>c p req result u v. authorised s r = Some c \<and> sv_processor s = Some p \<and>
      decodeRequest (rq_Body r) (sc_MaxBodyBytes (sv_config s)) u = (Inr req, v) \<and>
      pp_Process p (scope_of c (req_PayloadID req)) (req_Payload req) v = (Some (Inr result), w') \<and>
      rw_body rw = json_object [(''result'', json_string result)] @ [CHR 0x0A])) \<and>
    (authorised s r = None \<longrightarrow> 400 \<le> rw_status rw \<and> (sv_processor s \<noteq> None \<longrightarrow>
      (\<forall>p2 l2. withMiddleware (s\<lparr>sv_processor := Some p2, sv_provider := l2\<rparr>) r g w = (rw, g', w'))))"
  using processed_request [OF assms] unauthorised_request [OF assms] by blast

section \<open>What leaves for the language model\<close>

lemma generate_call_calls:
  fixes calls :: "'a world_scheme \<Rightarrow> ProviderRequest list"
  assumes "\<And>q u. calls (snd (provider q u)) = calls u @ [q]"
    and "\<And>sc t u. calls (snd (pp_Mask p sc t u)) = calls u" and "\<And>sc t u. calls (snd (pp_Demask p sc t u)) = calls u"
    and "\<And>u. calls (snd (ctx_Err u)) = calls u"
    and "generate_call p provider r scope req rw w = (fl, w')"
  shows "calls w' = calls w \<or> (\<exists>masked v. pp_Mask p scope (gr_Text req) w = (Some (Inr masked), v) \<and>
    calls w' = calls w @ [\<lparr>pq_RequestID = rq_RequestID r, pq_Model = gr_Model req, pq_Text = m_Text masked\<rparr>])"
proof -
  obtain m v where m: "pp_Mask p scope (gr_Text req) w = (m, v)" by force
  then have v: "calls v = calls w" using assms(2) by (metis snd_conv)
  show ?thesis
  proof (cases "\<exists>masked. m = Some (Inr masked)")
    case False
    then have "w' = v" using m assms(5) by (auto simp: generate_call_def split: option.splits sum.splits)
    then show ?thesis using v by simp
  next
    case True
    then obtain masked where masked: "m = Some (Inr masked)" by blast
    let ?q = "\<lparr>pq_RequestID = rq_RequestID r, pq_Model = gr_Model req, pq_Text = m_Text masked\<rparr>"
    obtain e x where e: "ctx_Err v = (e, x)" by force
    then have x: "calls x = calls w" using v assms(4) by (metis snd_conv)
    show ?thesis
    proof (cases e)
      case (Some err)
      then have "w' = x" using m masked e assms(5) by (simp add: generate_call_def)
      then show ?thesis using x by simp
    next
      case None
      obtain a y where y: "provider ?q x = (a, y)" by force
      then have cy: "calls y = calls w @ [?q]" using x assms(1) by (metis snd_conv)
      have "calls w' = calls y"
      proof (cases "\<exists>result. a = Some (Inr result)")
        case False
        then have "w' = y" using m masked e None y assms(5) by (auto simp: generate_call_def split: option.splits sum.splits)
        then show ?thesis by simp
      next
        case True
        then obtain result where "a = Some (Inr result)" by blast
        then have "generate_answer p scope req result rw y = (fl, w')" using m masked e None y assms(5) by (simp add: generate_call_def)
        then have "w' = snd (pp_Demask p scope result y)" by (auto simp: generate_answer_def split: prod.splits option.splits sum.splits)
        then show ?thesis using assms(3) by simp
      qed
      then show ?thesis using cy m [unfolded masked] by (intro disjI2 exI [of _ masked] exI [of _ v]) simp
    qed
  qed
qed

lemma handler_provider_calls:
  fixes calls :: "'a world_scheme \<Rightarrow> ProviderRequest list"
  assumes h: "handleGenerate s r rw u = (fl, w')" and prov: "sv_provider s = Some provider"
    and one: "\<And>q u. calls (snd (provider q u)) = calls u @ [q]"
    and none: "\<And>p sc t u. sv_processor s = Some p \<Longrightarrow> calls (snd (pp_Mask p sc t u)) = calls u \<and> calls (snd (pp_Demask p sc t u)) = calls u"
    and frame: "\<And>u i. calls (snd (ctx_Err u)) = calls u \<and> calls (snd (rand_Read u)) = calls u \<and> calls (u\<lparr>w_reqid := i\<rparr>) = calls u"
  shows "calls w' = calls u \<or>
    (\<exists>c p vals req masked v. consumer s r rw = Inr c \<and> sv_processor s = Some p \<and>
      fst (decodeObject (rq_Body r) (sc_MaxBodyBytes (sv_config s)) generate_fields u) = Inr vals \<and>
      complete_generate vals = Some req \<and> (\<exists>ms. sc_AllowedModels (sv_config s) = Some ms \<and> gr_Model req \<in> set ms) \<and>
      fst (pp_Mask p (scope_of c (gr_RequestID req)) (gr_Text req) v) = Some (Inr masked) \<and>
      calls w' = calls u @ [\<lparr>pq_RequestID = rq_RequestID r, pq_Model = gr_Model req, pq_Text = m_Text masked\<rparr>])"
proof (cases "consumer s r rw")
  case (Inl a)
  then show ?thesis using h by (simp add: handleGenerate_def)
next
  case (Inr c)
  then have auth: "authorised s r = Some c" by (metis consumer_authorised)
  obtain d v where d: "decodeObject (rq_Body r) (sc_MaxBodyBytes (sv_config s)) generate_fields u = (d, v)" by force
  then have "v = u \<or> v = snd (ctx_Err u)" by (auto simp: decodeObject_def split: option.splits prod.splits if_splits)
  then have v: "calls v = calls u" using frame by auto
  obtain p where p: "sv_processor s = Some p" using auth by (auto simp: authorised_def split: if_splits)
  show ?thesis
  proof (cases "\<exists>vals req. d = Inr vals \<and> complete_generate vals = Some req \<and>
      gr_Model req \<in> set (case sc_AllowedModels (sv_config s) of None \<Rightarrow> [] | Some ms \<Rightarrow> ms)")
    case False
    then have "w' = v" using h Inr prov d by (auto simp: handleGenerate_def split: sum.splits option.splits if_splits)
    then show ?thesis using v by simp
  next
    case True
    then obtain vals req where req: "d = Inr vals" "complete_generate vals = Some req"
      "gr_Model req \<in> set (case sc_AllowedModels (sv_config s) of None \<Rightarrow> [] | Some ms \<Rightarrow> ms)" by blast
    then have "generate_call p provider r (scope_of c (gr_RequestID req)) req rw v = (fl, w')"
      using h Inr prov d p by (simp add: handleGenerate_def)
    from generate_call_calls [OF one _ _ _ this] none [OF p] frame v
    consider (silent) "calls w' = calls u" | (called) masked x where
      "pp_Mask p (scope_of c (gr_RequestID req)) (gr_Text req) v = (Some (Inr masked), x)"
      "calls w' = calls u @ [\<lparr>pq_RequestID = rq_RequestID r, pq_Model = gr_Model req, pq_Text = m_Text masked\<rparr>]" by auto
    then show ?thesis
    proof cases
      case called
      have "\<exists>ms. sc_AllowedModels (sv_config s) = Some ms \<and> gr_Model req \<in> set ms"
        using req(3) by (cases "sc_AllowedModels (sv_config s)") auto
      with called show ?thesis
        by (intro disjI2 exI [of _ c] exI [of _ p] exI [of _ vals] exI [of _ req] exI [of _ masked] exI [of _ v])
          (use Inr p d req(1,2) in simp)
    qed simp
  qed
qed

text \<open>
  C13. The language model sees masked texts only. A request to \<^verbatim>\<open>/v1/generate\<close> makes at most one call of the provider,
  and only for an authorised consumer, an allowed model and a complete body; the text of the call is the masked text
  that the processor made from the caller's text in the consumer's scope, and its identifier is the server's own, not
  the caller's. (The provider's calls are counted by \<open>calls\<close>, which nothing else changes.)
\<close>

theorem provider_sees_masked:
  fixes calls :: "'a world_scheme \<Rightarrow> ProviderRequest list"
  assumes "rq_Path r = ''/v1/generate''" and "withMiddleware s r g w = (rw, g', w')" and "sv_provider s = Some provider"
    and "\<And>q u. calls (snd (provider q u)) = calls u @ [q]"
    and "\<And>p sc t u. sv_processor s = Some p \<Longrightarrow> calls (snd (pp_Mask p sc t u)) = calls u \<and> calls (snd (pp_Demask p sc t u)) = calls u"
    and "\<And>u i. calls (snd (ctx_Err u)) = calls u \<and> calls (snd (rand_Read u)) = calls u \<and> calls (u\<lparr>w_reqid := i\<rparr>) = calls u"
  shows "calls w' = calls w \<or>
    (\<exists>c p vals req masked bs (u :: 'a world_scheme) v. authorised s r = Some c \<and> sv_processor s = Some p \<and> sc_EnableGenerate (sv_config s) \<and>
      fst (decodeObject (rq_Body r) (sc_MaxBodyBytes (sv_config s)) generate_fields u) = Inr vals \<and>
      complete_generate vals = Some req \<and> (\<exists>ms. sc_AllowedModels (sv_config s) = Some ms \<and> gr_Model req \<in> set ms) \<and>
      fst (pp_Mask p (scope_of c (gr_RequestID req)) (gr_Text req) v) = Some (Inr masked) \<and> fst (rand_Read w) = Some bs \<and>
      calls w' = calls w @ [\<lparr>pq_RequestID = hex_encode bs, pq_Model = gr_Model req, pq_Text = m_Text masked\<rparr>])"
proof (cases rule: middleware_cases [OF assms(2)])
  case (4 reqID fl bs)
  let ?rw = "common_headers reqID new_recorder" and ?r = "r\<lparr>rq_RequestID := reqID\<rparr>"
  define u where "u = (snd (rand_Read w))\<lparr>w_reqid := reqID\<rparr>"
  have u: "calls u = calls w" using assms(6) by (simp add: u_def)
  have route: "route s ?r ?rw u = (fl, w')" using 4(1) by (simp add: u_def)
  show ?thesis
  proof (cases "sc_EnableGenerate (sv_config s)")
    case False
    then show ?thesis using route assms(1) u by (simp add: route_def)
  next
    case True
    then have "handleGenerate s ?r ?rw u = (fl, w')" using route assms(1) by (simp add: route_def)
    from handler_provider_calls [OF this assms(3-6)] show ?thesis
      using True u 4(3,4) by (simp add: consumer_authorised) metis
  qed
qed (use assms(1,6) in simp_all)

section \<open>Examples\<close>

text \<open>A server whose processor and model answer what they are given, for a system with a key.\<close>

definition sample_consumer :: Consumer where
  "sample_consumer = \<lparr>co_ID = ''s'', co_Enabled = True, co_APIKey = ''k'',
     co_Policy = \<lparr>cp_DetectionProfile = ''balanced'', cp_Version = ''v1'', cp_Mode = ''format'', cp_DetectTypes = None, cp_MaskTypes = None,
       cp_AllowDemask = True, cp_TTL = 1, cp_Rules = []\<rparr>\<rparr>"

definition echo_processor :: "'w PIIProcessor" where
  "echo_processor = \<lparr>pp_Mask = (\<lambda>sc t w. (Some (Inr \<lparr>m_Text = t, m_ContextID = [], m_PolicyVersion = []\<rparr>), w)),
     pp_Demask = (\<lambda>sc t w. (Some (Inr t), w)), pp_Process = (\<lambda>sc t w. (Some (Inr t), w))\<rparr>"

definition sample_config :: ServerConfig where
  "sample_config = \<lparr>sc_MaxBodyBytes = 100, sc_ConcurrencyLimit = 1, sc_RequestTimeout = 1, sc_RateLimitRPS = 1, sc_RateLimitBurst = 1,
     sc_AllowedModels = None, sc_EnableGenerate = True, sc_Draining = False\<rparr>"

definition sample_server :: "'w LLMProvider \<Rightarrow> 'w Server" where
  "sample_server provider =
     ConfigureProvider provider (ConfigureSystems (\<lambda>i. if i = ''s'' then Some sample_consumer else None) ''s''
       (NewServer (Some echo_processor) None sample_config))"

definition sample_request :: "bytes \<Rightarrow> http_request" where
  "sample_request path = \<lparr>rq_Method = ''POST'', rq_Path = path, rq_SystemID = [], rq_APIKey = ''k'', rq_RequestID = [], rq_Body = sample_body\<rparr>"

definition sample_gate :: gate where
  "sample_gate = \<lparr>ga_slots = 0, ga_active = 0, ga_allow = \<lambda>_. True, ga_asked = 0, ga_log = []\<rparr>"

lemma sample_authorised: "authorised (sample_server provider) (sample_request path) = Some sample_consumer"
  by (simp add: authorised_def sample_server_def ConfigureProvider_def ConfigureSystems_def NewServer_def sample_config_def Let_def
      draining_def sample_request_def sample_consumer_def)

lemma sample_capacity [simp]: "sv_capacity (sample_server provider) = 1"
  by (simp add: sample_server_def ConfigureProvider_def ConfigureSystems_def NewServer_def sample_config_def Let_def)

text \<open>Its answer to a request that it processes.\<close>

lemma sample_request_processed:
  "\<exists>rw g w. withMiddleware (sample_server provider) (sample_request ''/process'') sample_gate decoding_world = (rw, g, w) \<and>
    rw_status rw = 200"
proof -
  let ?s = "sample_server provider" and ?w = "snd (rand_Read decoding_world)"
  have r: "fst (rand_Read decoding_world) = Some ''0123456789abcdef''" by (simp add: rand_Read_def decoding_world_def)
  let ?id = "hex_encode ''0123456789abcdef''" and ?op = "requestOperation ''/process''"
  let ?r = "(sample_request ''/process'')\<lparr>rq_RequestID := ?id\<rparr>" and ?rw = "common_headers ?id new_recorder" and ?u = "?w\<lparr>w_reqid := ?id\<rparr>"
  have auth: "consumer ?s ?r ?rw = Inr sample_consumer" using sample_authorised by (simp add: consumer_authorised)
  have max: "sc_MaxBodyBytes (sv_config ?s) = 100" "sv_processor ?s = Some echo_processor"
    by (simp_all add: sample_server_def ConfigureProvider_def ConfigureSystems_def NewServer_def sample_config_def Let_def)
  obtain v where dec: "decodeRequest sample_body 100 ?u = (Inr \<lparr>req_Payload = ''ab'', req_PayloadID = ''i''\<rparr>, v)"
    using sample_body_decodes by (metis prod.collapse)
  have "handleProcess ?s ?r ?rw ?u = (Done (writeJSON 200 (json_object [(''result'', json_string ''ab'')]) ?rw), v)"
    using auth max dec by (simp add: handleProcess_def sample_request_def echo_processor_def)
  then have route: "route ?s ?r ?rw ?u = (Done (writeJSON 200 (json_object [(''result'', json_string ''ab'')]) ?rw), v)"
    by (simp add: route_def sample_request_def)
  have guard: "guarded ?op" by (simp add: guarded_def requestOperation_def)
  have acq: "\<exists>h. acquireRequest ?s ?rw sample_gate = (Inr (), h)"
    by (simp add: acquireRequest_def limiter_Allow_def sample_gate_def)
  then obtain h where h: "acquireRequest ?s ?rw sample_gate = (Inr (), h)" by blast
  have "rw_status (fst (withMiddleware ?s (sample_request ''/process'') sample_gate decoding_world)) = 200"
    using r route guard h
    by (cases "rand_Read decoding_world")
      (simp add: withMiddleware_def serve_identified_def finish_def recovered_def sample_request_def writeJSON_def recorder_Write_def
        recorder_WriteHeader_def set_header_def common_headers_def new_recorder_def)
  then show ?thesis by (metis prod.collapse)
qed

lemma process_authorised_witness:
  "\<exists>rw g (w :: world). withMiddleware (sample_server (\<lambda>q w. (None, w))) (sample_request ''/process'') sample_gate decoding_world = (rw, g, w) \<and>
    (\<exists>result. rw_body rw = json_object [(''result'', json_string result)] @ [CHR 0x0A])"
proof -
  obtain rw g and w :: world where
    m: "withMiddleware (sample_server (\<lambda>q w. (None, w))) (sample_request ''/process'') sample_gate decoding_world = (rw, g, w)"
    and ok: "rw_status rw = 200"
    using sample_request_processed [of "\<lambda>q w. (None, w)"] by blast
  have path: "rq_Path (sample_request ''/process'') = ''/process''" by (simp add: sample_request_def)
  from process_authorised [OF path m] ok m show ?thesis by blast
qed

lemma every_request_answered_witness:
  "rw_sent (fst (withMiddleware (sample_server (\<lambda>q w. (None, w))) (sample_request ''/x'') sample_gate (decoding_world\<lparr>w_rand := \<lambda>_. None\<rparr>))) = [500]"
proof -
  let ?m = "withMiddleware (sample_server (\<lambda>q w. (None, w))) (sample_request ''/x'') sample_gate (decoding_world\<lparr>w_rand := \<lambda>_. None\<rparr>)"
  have "rw_status (fst ?m) = 500"
    by (simp add: withMiddleware_def rand_Read_def finish_def recovered_def new_recorder_def writeError_def writeJSON_def recorder_Write_def
        recorder_WriteHeader_def set_header_def)
  then show ?thesis using every_request_answered [of _ _ _ _ "fst ?m" "fst (snd ?m)" "snd (snd ?m)"] by simp
qed

lemma concurrency_limited_witness:
  "\<exists>g. (server_step (sample_server (\<lambda>q (w :: world). (None, w))))\<^sup>*\<^sup>* (sample_gate, {#}) (g, {#sample_request ''/process''#}) \<and> ga_slots g = 1"
proof -
  let ?s = "sample_server (\<lambda>q (w :: world). (None, w))"
  obtain h where "acquireRequest ?s new_recorder sample_gate = (Inr (), h)"
    by (simp add: acquireRequest_def limiter_Allow_def sample_gate_def)
  from server_step.admitted [OF this, of "{#}" "sample_request ''/process''"]
  have st: "(server_step ?s)\<^sup>*\<^sup>* (sample_gate, {#}) (serve_enter h, {#sample_request ''/process''#})" by blast
  moreover have "idle sample_gate" by (simp add: idle_def sample_gate_def)
  ultimately show ?thesis using concurrency_limited [of sample_gate ?s] by fastforce
qed

text \<open>A provider that keeps the calls it gets, in the log of the world.\<close>

record call_world = world + cw_calls :: "ProviderRequest list"

lemma provider_sees_masked_witness:
  "\<exists>rw g (w :: call_world). withMiddleware (sample_server (\<lambda>q w. (None, w\<lparr>cw_calls := cw_calls w @ [q]\<rparr>))) (sample_request ''/v1/generate'')
      sample_gate (world.extend decoding_world \<lparr>cw_calls = []\<rparr>) = (rw, g, w) \<and> (cw_calls w = [] \<or> length (cw_calls w) = 1)"
proof -
  let ?p = "\<lambda>q (w :: call_world). (None :: (error + bytes) option, w\<lparr>cw_calls := cw_calls w @ [q]\<rparr>)"
  let ?w = "world.extend decoding_world \<lparr>cw_calls = []\<rparr> :: call_world"
  obtain rw g and w :: call_world where m: "withMiddleware (sample_server ?p) (sample_request ''/v1/generate'') sample_gate ?w = (rw, g, w)"
    by (rule prod_cases3)
  have path: "rq_Path (sample_request ''/v1/generate'') = ''/v1/generate''" by (simp add: sample_request_def)
  have prov: "sv_provider (sample_server ?p) = Some ?p" and proc: "sv_processor (sample_server ?p) = Some echo_processor"
    by (simp_all add: sample_server_def ConfigureProvider_def ConfigureSystems_def NewServer_def sample_config_def Let_def)
  have frame: "cw_calls (snd (ctx_Err u)) = cw_calls u \<and> cw_calls (snd (rand_Read u)) = cw_calls u \<and> cw_calls (u\<lparr>w_reqid := i\<rparr>) = cw_calls u"
    for u :: call_world and i by (simp add: ctx_Err_def rand_Read_def)
  have "cw_calls ?w = []" by (simp add: world.defs decoding_world_def)
  moreover have prov_calls: "cw_calls (snd (?p q u)) = cw_calls u @ [q]" for q u by simp
  moreover have "cw_calls (snd (pp_Mask p sc t u)) = cw_calls u \<and> cw_calls (snd (pp_Demask p sc t u)) = cw_calls u"
    if "sv_processor (sample_server ?p) = Some p" for p sc t u
  proof -
    have "p = echo_processor" using that proc by simp
    then show ?thesis by (simp add: echo_processor_def)
  qed
  note proc_calls = this
  have "cw_calls w = cw_calls ?w \<or> (\<exists>x. cw_calls w = cw_calls ?w @ [x])"
    using provider_sees_masked [OF path m prov prov_calls proc_calls frame] by fast
  ultimately show ?thesis using m by auto
qed

end
