(* ===== verification/Config.thy ===== *)
theory Config
  imports Policy Number_Detectors Markers
begin

text \<open>
  \<^verbatim>\<open>internal/platform/config/config.go\<close>: the configuration of the service, its validation, the resolution of secrets
  and the policies of the systems. What the code reads of its surroundings is a record of functions: the environment
  variables, the file system, \<^verbatim>\<open>regexp.Compile\<close>, and the two number formats of the standard library that it uses. It
  is fixed during one call. A Go map is the list of its entries with distinct keys. The quoted arguments of messages
  are left out; durations are in nanoseconds.
\<close>

section \<open>Data\<close>

record environ =
  env_Getenv :: "bytes \<Rightarrow> bytes"
  env_Lstat :: "bytes \<Rightarrow> (bool \<times> bool) option"
  env_ReadFile :: "bytes \<Rightarrow> bytes option"
  env_Compile :: "bytes \<Rightarrow> regex option"
  env_ParseDuration :: "bytes \<Rightarrow> int option"
  env_ParseFloat :: "rune list \<Rightarrow> rat option"

type_synonym RuntimeMode = bytes

definition RuntimeProcessOnly :: RuntimeMode where "RuntimeProcessOnly = ''process_only''"
definition RuntimeTestGenerate :: RuntimeMode where "RuntimeTestGenerate = ''test_generate''"

record CustomPIIType =
  ct_Type :: bytes
  ct_Pattern :: bytes
  ct_Confidence :: bytes

record ProviderConfig =
  pv_BaseURL :: bytes
  pv_Timeout :: int
  pv_Models :: "bytes list option"

record ServerSettings =
  ss_Addr :: bytes
  ss_ReadHeaderTimeout :: int
  ss_ReadTimeout :: int
  ss_WriteTimeout :: int
  ss_IdleTimeout :: int
  ss_MaxBodyBytes :: int
  ss_ConcurrencyLimit :: int
  ss_RequestTimeout :: int
  ss_RateLimitRPS :: rat
  ss_RateLimitBurst :: int
  ss_DrainDelay :: int
  ss_ShutdownTimeout :: int

record StoreConfig =
  st_TTL :: int
  st_CleanupEvery :: int
  st_Mode :: bytes
  st_RedisAddr :: bytes
  st_RedisPassword :: bytes
  st_RedisDB :: int
  st_PoolSize :: int
  st_MinIdleConns :: int
  st_PoolTimeout :: int
  st_KeyPrefix :: bytes

record SecurityConfig =
  sec_LogLevel :: bytes
  sec_ActiveKeyID :: bytes
  sec_EncryptionKeys :: "(bytes \<times> bytes) list option"
  sec_EncryptionKeyFiles :: "(bytes \<times> bytes) list option"

record RuleCfg =
  rc_Type :: bytes
  rc_Requires :: "bytes list option"

record SystemConfig =
  sy_DetectionProfile :: bytes
  sy_AllowAnonymous :: bool
  sy_DetectTypes :: "bytes list option"
  sy_MaskTypes :: "bytes list option"
  sy_ID :: bytes
  sy_Enabled :: "bool option"
  sy_Types :: "bytes list option"
  sy_MaskMode :: bytes
  sy_AllowDemask :: "bool option"
  sy_APIKey :: bytes
  sy_APIKeyFile :: bytes
  sy_Rules :: "RuleCfg list option"

record Config =
  cf_Version :: bytes
  cf_Runtime :: RuntimeMode
  cf_Server :: ServerSettings
  cf_Provider :: "ProviderConfig option"
  cf_Store :: StoreConfig
  cf_Security :: SecurityConfig
  cf_Systems :: "SystemConfig list"
  cf_Default :: bytes
  cf_CustomPIITypes :: "CustomPIIType list option"

definition time_Second :: int where "time_Second = 1000000000"

definition Default_config :: Config where
  "Default_config =
     \<lparr>cf_Version = ''v1'', cf_Runtime = RuntimeProcessOnly,
      cf_Server = \<lparr>ss_Addr = '':8080'', ss_ReadHeaderTimeout = 5 * time_Second, ss_ReadTimeout = 30 * time_Second,
        ss_WriteTimeout = 30 * time_Second, ss_IdleTimeout = 60 * time_Second, ss_MaxBodyBytes = 2 * 2 ^ 20,
        ss_ConcurrencyLimit = 256, ss_RequestTimeout = 10 * time_Second, ss_RateLimitRPS = 10000, ss_RateLimitBurst = 1000,
        ss_DrainDelay = 5 * time_Second, ss_ShutdownTimeout = 15 * time_Second\<rparr>,
      cf_Provider = None,
      cf_Store = \<lparr>st_TTL = 24 * time_Hour, st_CleanupEvery = time_Hour, st_Mode = ''memory'', st_RedisAddr = [],
        st_RedisPassword = [], st_RedisDB = 0, st_PoolSize = 128, st_MinIdleConns = 16, st_PoolTimeout = time_Second,
        st_KeyPrefix = ''alfagen:context:''\<rparr>,
      cf_Security = \<lparr>sec_LogLevel = ''info'', sec_ActiveKeyID = [], sec_EncryptionKeys = None, sec_EncryptionKeyFiles = None\<rparr>,
      cf_Systems = [], cf_Default = ''benchmark'', cf_CustomPIITypes = None\<rparr>"

section \<open>Custom categories\<close>

definition confidence :: "CustomPIIType \<Rightarrow> error + Confidence" where
  "confidence ct =
     (if ct_Confidence ct = ''low'' then Inr ConfidenceLow
      else if ct_Confidence ct = ''medium'' then Inr ConfidenceMedium
      else if ct_Confidence ct = ''high'' then Inr ConfidenceHigh
      else Inl (ErrText ''confidence must be low, medium or high''))"

definition custom_type_detector :: "environ \<Rightarrow> CustomPIIType \<Rightarrow> error + PatternDetector" where
  "custom_type_detector env ct =
     (case confidence ct of
        Inl e \<Rightarrow> Inl e
      | Inr conf \<Rightarrow> NewPatternDetector (env_Compile env) (ct_Type ct) (ct_Pattern ct) conf)"

fun custom_detectors_loop :: "environ \<Rightarrow> CustomPIIType list \<Rightarrow> error + PatternDetector list" where
  "custom_detectors_loop env [] = Inr []"
| "custom_detectors_loop env (ct # cts) =
     (case custom_type_detector env ct of
        Inl e \<Rightarrow> Inl e
      | Inr d \<Rightarrow> (case custom_detectors_loop env cts of Inl e \<Rightarrow> Inl e | Inr ds \<Rightarrow> Inr (d # ds)))"

definition opt_list :: "'a list option \<Rightarrow> 'a list" where
  "opt_list xs = (case xs of None \<Rightarrow> [] | Some l \<Rightarrow> l)"

definition CustomDetectors :: "environ \<Rightarrow> Config \<Rightarrow> error + PatternDetector list" where
  "CustomDetectors env c = custom_detectors_loop env (opt_list (cf_CustomPIITypes c))"

definition lower_char :: "char \<Rightarrow> bool" where "lower_char c \<longleftrightarrow> 0x61 \<le> byte c \<and> byte c \<le> 0x7A"
definition digit_ascii :: "char \<Rightarrow> bool" where "digit_ascii c \<longleftrightarrow> 0x30 \<le> byte c \<and> byte c \<le> 0x39"

definition validCustomTypeName :: "bytes \<Rightarrow> bool" where
  "validCustomTypeName t =
     (case t of
        [] \<Rightarrow> False
      | c # cs \<Rightarrow> lower_char c \<and> list_all (\<lambda>d. lower_char d \<or> digit_ascii d \<or> d = CHR ''_'') cs)"

definition validBuiltinType :: "bytes \<Rightarrow> bool" where
  "validBuiltinType t \<longleftrightarrow> list_ex (\<lambda>ty. ty = t) AllTypes"

fun validate_custom_loop :: "environ \<Rightarrow> bytes list \<Rightarrow> CustomPIIType list \<Rightarrow> error option" where
  "validate_custom_loop env seen [] = None"
| "validate_custom_loop env seen (ct # cts) =
     (if ct_Type ct = [] then Some (ErrText ''config: custom_pii_types.type is required'')
      else if \<not> validCustomTypeName (ct_Type ct) then Some (ErrText ''config: custom_pii_types.type must be snake_case'')
      else if validBuiltinType (ct_Type ct) then Some (ErrText ''config: custom_pii_types type collides with a built-in type'')
      else if ct_Type ct \<in> set seen then Some (ErrText ''config: duplicate custom_pii_types type'')
      else
        (case custom_type_detector env ct of
           Inl e \<Rightarrow> Some (ErrText ''config: invalid custom_pii_types'')
         | Inr d \<Rightarrow> validate_custom_loop env (ct_Type ct # seen) cts))"

definition validateCustomTypes :: "environ \<Rightarrow> Config \<Rightarrow> error option" where
  "validateCustomTypes env c = validate_custom_loop env [] (opt_list (cf_CustomPIITypes c))"

definition allValidTypes :: "Config \<Rightarrow> bytes list" where
  "allValidTypes c = BuiltinTypes @ map ct_Type (opt_list (cf_CustomPIITypes c))"

section \<open>Secrets\<close>

text \<open>\<^verbatim>\<open>filepath.IsAbs\<close> of Unix.\<close>

definition IsAbs :: "bytes \<Rightarrow> bool" where "IsAbs path = strings_HasPrefix path ''/''"

definition expandEnvironment :: "environ \<Rightarrow> bytes \<Rightarrow> bytes" where
  "expandEnvironment env val =
     (if 3 < length val \<and> gslice val 0 2 = ''${'' \<and> val ! (length val - 1) = CHR ''}''
      then env_Getenv env (gslice val 2 (length val - 1)) else val)"

definition errSecretUnresolved :: error where "errSecretUnresolved = ErrText ''config: secret is unresolved''"
definition errSecretFileInvalid :: error where "errSecretFileInvalid = ErrText ''config: secret file is invalid''"

text \<open>The information of \<^verbatim>\<open>os.Lstat\<close>: whether the file is a symbolic link, and whether it is regular.\<close>

definition readSecretFile :: "environ \<Rightarrow> bytes \<Rightarrow> error + bytes" where
  "readSecretFile env path =
     (if path = [] \<or> \<not> IsAbs path then Inl errSecretFileInvalid
      else
        (case env_Lstat env path of
           None \<Rightarrow> Inl errSecretFileInvalid
         | Some (symlink, regular) \<Rightarrow>
             if symlink \<or> \<not> regular then Inl errSecretFileInvalid
             else
               (case env_ReadFile env path of
                  None \<Rightarrow> Inl errSecretFileInvalid
                | Some content \<Rightarrow>
                    (let content = strings_TrimSuffix content [CHR 0x0A] in
                     if content = [] \<or> CHR 0x0A \<in> set content then Inl errSecretFileInvalid else Inr content))))"

text \<open>\<^verbatim>\<open>(value, ok, err)\<close>: an error, or the value if there is one.\<close>

definition resolveSecret :: "environ \<Rightarrow> bytes \<Rightarrow> bytes \<Rightarrow> error + bytes option" where
  "resolveSecret env literal file =
     (if literal \<noteq> [] then
        (let v = expandEnvironment env literal in if v = [] then Inl errSecretUnresolved else Inr (Some v))
      else if file \<noteq> [] then (case readSecretFile env file of Inl e \<Rightarrow> Inl e | Inr v \<Rightarrow> Inr (Some v))
      else Inr None)"

fun read_key_files :: "environ \<Rightarrow> (bytes \<times> bytes) list \<Rightarrow> error + (bytes \<times> bytes) list" where
  "read_key_files env [] = Inr []"
| "read_key_files env ((k, path) # ks) =
     (case readSecretFile env path of
        Inl e \<Rightarrow> Inl e
      | Inr v \<Rightarrow> (case read_key_files env ks of Inl e \<Rightarrow> Inl e | Inr vs \<Rightarrow> Inr ((k, v) # vs)))"

text \<open>A file entry replaces a literal one with the same identifier.\<close>

definition ResolvedEncryptionKeys :: "environ \<Rightarrow> Config \<Rightarrow> error + (bytes \<times> bytes) list" where
  "ResolvedEncryptionKeys env c =
     (case read_key_files env (opt_list (sec_EncryptionKeyFiles (cf_Security c))) of
        Inl e \<Rightarrow> Inl e
      | Inr files \<Rightarrow>
          Inr (files @ filter (\<lambda>(k, v). k \<notin> fst ` set files)
            (map (\<lambda>(k, v). (k, expandEnvironment env v)) (opt_list (sec_EncryptionKeys (cf_Security c))))))"

definition encryptionKeyAvailable :: "environ \<Rightarrow> Config \<Rightarrow> bytes \<Rightarrow> error + bool" where
  "encryptionKeyAvailable env c k =
     (case map_of (opt_list (sec_EncryptionKeys (cf_Security c))) k of
        Some literal \<Rightarrow> Inr (expandEnvironment env literal \<noteq> [])
      | None \<Rightarrow>
          (case map_of (opt_list (sec_EncryptionKeyFiles (cf_Security c))) k of
             Some path \<Rightarrow> (case readSecretFile env path of Inl e \<Rightarrow> Inl e | Inr v \<Rightarrow> Inr True)
           | None \<Rightarrow> Inr False))"

section \<open>Policies\<close>

definition type_set :: "bytes list \<Rightarrow> (PIIType \<times> bool) list" where
  "type_set ts = map (\<lambda>t. (t, True)) (remdups ts)"

definition unchecked_policy :: "SystemConfig \<Rightarrow> Policy" where
  "unchecked_policy s =
     (let p = New_policy (sy_ID s);
          p = (if sy_DetectionProfile s \<noteq> [] then p\<lparr>po_DetectionProfile := sy_DetectionProfile s\<rparr> else p);
          p = (case sy_DetectTypes s of Some ts \<Rightarrow> p\<lparr>po_DetectTypes := Some ts\<rparr> | None \<Rightarrow> p);
          p = (case sy_Enabled s of Some b \<Rightarrow> p\<lparr>po_Enabled := b\<rparr> | None \<Rightarrow> p);
          p = (case sy_AllowDemask s of Some b \<Rightarrow> p\<lparr>po_AllowDemask := b\<rparr> | None \<Rightarrow> p);
          p = (if sy_MaskMode s \<noteq> [] then p\<lparr>po_MaskMode := sy_MaskMode s\<rparr> else p);
          p = (if opt_list (sy_Types s) \<noteq> [] then p\<lparr>po_Types := Some (type_set (opt_list (sy_Types s)))\<rparr> else p);
          p = (case sy_MaskTypes s of Some ts \<Rightarrow> p\<lparr>po_Types := Some (type_set ts)\<rparr> | None \<Rightarrow> p)
      in p\<lparr>po_Rules := po_Rules p @
        map (\<lambda>r. \<lparr>ru_Type = rc_Type r, ru_Requires = opt_list (rc_Requires r)\<rparr>) (opt_list (sy_Rules s))\<rparr>)"

definition buildPolicy :: "SystemConfig \<Rightarrow> error + Policy" where
  "buildPolicy s =
     (case Validate (unchecked_policy s) of Some e \<Rightarrow> Inl e | None \<Rightarrow> Inr (unchecked_policy s))"

definition PolicyFor :: "Config \<Rightarrow> bytes \<Rightarrow> error + Policy" where
  "PolicyFor c systemID =
     (case find (\<lambda>s. sy_ID s = systemID) (cf_Systems c) of
        None \<Rightarrow> Inl (ErrText ''config: unknown system'')
      | Some s \<Rightarrow>
          (case buildPolicy s of
             Inl e \<Rightarrow> Inl e
           | Inr pol \<Rightarrow> Inr (pol\<lparr>po_Version := cf_Version c, po_TTL := st_TTL (cf_Store c)\<rparr>)))"

definition ResolveSystem :: "environ \<Rightarrow> Config \<Rightarrow> bytes \<Rightarrow> Consumer option" where
  "ResolveSystem env c systemID =
     (case find (\<lambda>s. sy_ID s = systemID) (cf_Systems c) of
        None \<Rightarrow> None
      | Some s \<Rightarrow>
          (case PolicyFor c systemID of
             Inl e \<Rightarrow> None
           | Inr pol \<Rightarrow>
               (case resolveSecret env (sy_APIKey s) (sy_APIKeyFile s) of
                  Inl e \<Rightarrow> None
                | Inr key \<Rightarrow>
                    if key = None \<and> \<not> sy_AllowAnonymous s then None
                    else
                      Some \<lparr>co_ID = systemID, co_Enabled = po_Enabled pol, co_APIKey = (case key of Some k \<Rightarrow> k | None \<Rightarrow> []),
                        co_Policy = Contract pol\<rparr>)))"

section \<open>Validation\<close>

definition validateServer :: "Config \<Rightarrow> error option" where
  "validateServer c =
     (let s = cf_Server c in
      if st_CleanupEvery (cf_Store c) \<le> 0 \<or> ss_ReadHeaderTimeout s \<le> 0 \<or> ss_ReadTimeout s \<le> 0 \<or> ss_WriteTimeout s \<le> 0 \<or>
        ss_IdleTimeout s \<le> 0
      then Some (ErrText ''config: timeouts and cleanup interval must be positive'')
      else if ss_MaxBodyBytes s \<le> 0 then Some (ErrText ''config: max_body_bytes must be positive'')
      else if ss_ConcurrencyLimit s \<le> 0 then Some (ErrText ''config: concurrency_limit must be positive'')
      else if ss_RequestTimeout s \<le> 0 \<or> ss_RateLimitRPS s \<le> 0 \<or> ss_RateLimitBurst s \<le> 0
      then Some (ErrText ''config: request timeout and rate limits must be positive'')
      else if ss_DrainDelay s \<le> 0 \<or> ss_ShutdownTimeout s \<le> 0
      then Some (ErrText ''config: drain_delay and shutdown_timeout must be positive'')
      else if ss_ShutdownTimeout s < ss_RequestTimeout s
      then Some (ErrText ''config: shutdown_timeout must not be less than request_timeout'')
      else None)"

text \<open>The next two fill in a default, so they return the configuration.\<close>

definition validateRuntime :: "Config \<Rightarrow> error + Config" where
  "validateRuntime c =
     (let c = (if cf_Runtime c = [] then c\<lparr>cf_Runtime := RuntimeProcessOnly\<rparr> else c) in
      if cf_Runtime c = RuntimeProcessOnly then
        (if cf_Provider c \<noteq> None then Inl (ErrText ''config: provider_forbidden'') else Inr c)
      else if cf_Runtime c = RuntimeTestGenerate then
        (case cf_Provider c of
           None \<Rightarrow> Inl (ErrText ''config: provider base_url, positive timeout and models are required'')
         | Some p \<Rightarrow>
             if pv_BaseURL p = [] \<or> pv_Timeout p \<le> 0 \<or> opt_list (pv_Models p) = []
             then Inl (ErrText ''config: provider base_url, positive timeout and models are required'')
             else Inr c)
      else Inl (ErrText ''config: runtime.mode must be process_only or test_generate''))"

definition validateRedis :: "environ \<Rightarrow> Config \<Rightarrow> error option" where
  "validateRedis env c =
     (let s = cf_Store c in
      if st_PoolSize s < 0 \<or> st_MinIdleConns s < 0 \<or> st_PoolTimeout s < 0 \<or> (0 < st_PoolSize s \<and> st_PoolSize s < st_MinIdleConns s)
      then Some (ErrText ''config: invalid redis pool settings'')
      else if st_RedisAddr s = [] \<or> sec_ActiveKeyID (cf_Security c) = []
      then Some (ErrText ''config: redis address and active encryption key are required'')
      else if encryptionKeyAvailable env c (sec_ActiveKeyID (cf_Security c)) \<noteq> Inr True
      then Some (ErrText ''config: active encryption key is unavailable'')
      else None)"

definition validateStore :: "environ \<Rightarrow> Config \<Rightarrow> error + Config" where
  "validateStore env c =
     (if st_TTL (cf_Store c) \<le> 0 then Inl (ErrText ''config: store ttl must be positive'')
      else
        (let c = (if st_Mode (cf_Store c) = [] then c\<lparr>cf_Store := (cf_Store c)\<lparr>st_Mode := ''memory''\<rparr>\<rparr> else c) in
         if st_Mode (cf_Store c) \<noteq> ''memory'' \<and> st_Mode (cf_Store c) \<noteq> ''redis''
         then Inl (ErrText ''config: store mode must be memory or redis'')
         else if st_Mode (cf_Store c) = ''redis'' then (case validateRedis env c of Some e \<Rightarrow> Inl e | None \<Rightarrow> Inr c)
         else Inr c))"

fun validate_key_files :: "(bytes \<times> bytes) list \<Rightarrow> (bytes \<times> bytes) list \<Rightarrow> error option" where
  "validate_key_files keys [] = None"
| "validate_key_files keys ((k, path) # files) =
     (if k \<in> fst ` set keys then Some (ErrText ''config: security encryption key has conflicting literal and file'')
      else if \<not> IsAbs path then Some (ErrText ''config: security encryption key file must be an absolute path'')
      else validate_key_files keys files)"

definition validateKeyFiles :: "Config \<Rightarrow> error option" where
  "validateKeyFiles c =
     validate_key_files (opt_list (sec_EncryptionKeys (cf_Security c))) (opt_list (sec_EncryptionKeyFiles (cf_Security c)))"

fun validate_rule_types :: "bytes list \<Rightarrow> RuleCfg list \<Rightarrow> error option" where
  "validate_rule_types validTypes [] = None"
| "validate_rule_types validTypes (r # rs) =
     (if rc_Type r \<notin> set validTypes then Some (ErrText ''config: system rule unknown type'')
      else if list_ex (\<lambda>q. q \<notin> set validTypes) (opt_list (rc_Requires r))
      then Some (ErrText ''config: system rule requires unknown type'')
      else validate_rule_types validTypes rs)"

definition validateSystemTypes :: "SystemConfig \<Rightarrow> bytes list \<Rightarrow> error option" where
  "validateSystemTypes s validTypes =
     (if list_ex (\<lambda>t. t \<notin> set validTypes) (opt_list (sy_Types s) @ opt_list (sy_DetectTypes s) @ opt_list (sy_MaskTypes s))
      then Some (ErrText ''config: system unknown type'')
      else validate_rule_types validTypes (opt_list (sy_Rules s)))"

definition validateSystem :: "SystemConfig \<Rightarrow> bytes list \<Rightarrow> error option" where
  "validateSystem s validTypes =
     (if sy_APIKey s \<noteq> [] \<and> sy_APIKeyFile s \<noteq> [] then Some (ErrText ''config: system api_key and api_key_file conflict'')
      else if sy_APIKeyFile s \<noteq> [] \<and> \<not> IsAbs (sy_APIKeyFile s)
      then Some (ErrText ''config: system api_key_file must be an absolute path'')
      else if sy_MaskMode s \<noteq> [] \<and> sy_MaskMode s \<noteq> MaskModeFormat \<and> sy_MaskMode s \<noteq> MaskModeToken
      then Some (ErrText ''config: system unknown mask_mode'')
      else validateSystemTypes s validTypes)"

fun validate_systems_loop :: "Config \<Rightarrow> bytes list \<Rightarrow> bytes list \<Rightarrow> SystemConfig list \<Rightarrow> error + bytes list" where
  "validate_systems_loop c validTypes seen [] = Inr seen"
| "validate_systems_loop c validTypes seen (s # ss) =
     (if sy_ID s = [] then Inl (ErrText ''config: system with empty id'')
      else if sy_ID s \<in> set seen then Inl (ErrText ''config: duplicate system id'')
      else
        (case validateSystem s validTypes of
           Some e \<Rightarrow> Inl e
         | None \<Rightarrow>
             (case PolicyFor c (sy_ID s) of
                Inl e \<Rightarrow> Inl e
              | Inr pol \<Rightarrow>
                  if ValidateContract (Contract pol) validTypes \<noteq> None then Inl (ErrText ''config: invalid policy for system'')
                  else validate_systems_loop c validTypes (sy_ID s # seen) ss)))"

definition validateSystems :: "environ \<Rightarrow> Config \<Rightarrow> error option" where
  "validateSystems env c =
     (if cf_Default c = [] then Some (ErrText ''config: default_system is required'')
      else
        (case validateCustomTypes env c of
           Some e \<Rightarrow> Some e
         | None \<Rightarrow>
             (case validate_systems_loop c (allValidTypes c) [] (cf_Systems c) of
                Inl e \<Rightarrow> Some e
              | Inr seen \<Rightarrow> if cf_Default c \<notin> set seen then Some (ErrText ''config: default_system not found in systems'') else None)))"

definition Validate_config :: "environ \<Rightarrow> Config \<Rightarrow> error + Config" where
  "Validate_config env c =
     (if cf_Version c = [] then Inl (ErrText ''config: version is required'')
      else
        (case validateServer c of
           Some e \<Rightarrow> Inl e
         | None \<Rightarrow>
             (case validateRuntime c of
                Inl e \<Rightarrow> Inl e
              | Inr c \<Rightarrow>
                  (case validateStore env c of
                     Inl e \<Rightarrow> Inl e
                   | Inr c \<Rightarrow>
                       (case validateKeyFiles c of
                          Some e \<Rightarrow> Inl e
                        | None \<Rightarrow> (case validateSystems env c of Some e \<Rightarrow> Inl e | None \<Rightarrow> Inr c))))))"

end
