(* ===== verification/Config_Source.thy ===== *)
theory Config_Source
  imports Config Request_Decoding "HOL-Library.AList"
begin

text \<open>
  \<^verbatim>\<open>internal/platform/config/source.go\<close>: reading a configuration document. JSON documents are read strictly, on top of
  the token stream of \<^theory_text>\<open>Request_Decoding\<close>; the decoder of YAML documents is a parameter. A \<^verbatim>\<open>json.RawMessage\<close> is the
  value that it holds, because the code only decodes it again or compares it with \<open>null\<close>. The functions that read a
  field give one error value, without the place and the cause that their message names.
\<close>

section \<open>Sources\<close>

record Document =
  doc_Data :: bytes
  doc_Format :: bytes
  doc_Revision :: bytes

text \<open>
  A source is what its \<^verbatim>\<open>Read\<close> does. The YAML decoder gives the decoded configuration, starting from the one it is
  given, and whether the stream ends behind it.
\<close>

type_synonym 'a source = "'a world_scheme \<Rightarrow> (error + Document) \<times> 'a world_scheme"

type_synonym yaml_decoder = "bytes \<Rightarrow> Config \<Rightarrow> (Config \<times> bool) option"

definition fileSource_Read :: "environ \<Rightarrow> bytes \<Rightarrow> 'a source" where
  "fileSource_Read env path w =
     (case ctx_Err w of
        (Some e, w) \<Rightarrow> (Inl e, w)
      | (None, w) \<Rightarrow>
          (case env_ReadFile env path of
             None \<Rightarrow> (Inl (ErrText ''config: read''), w)
           | Some data \<Rightarrow>
               (case ctx_Err w of
                  (Some e, w) \<Rightarrow> (Inl e, w)
                | (None, w) \<Rightarrow> (Inr \<lparr>doc_Data = data, doc_Format = ''yaml'', doc_Revision = []\<rparr>, w))))"

section \<open>Duplicate keys\<close>

definition errParseJSON :: error where "errParseJSON = ErrText ''config: parse json''"

text \<open>
  The first argument bounds the nesting of the calls; \<^const>\<open>None\<close> means that the bound was too small. Every call but
  one follows a token that has been read, so twice the length of the input is enough (\<open>reject_terminates\<close>).
\<close>

fun checkJSONValue :: "nat \<Rightarrow> token \<Rightarrow> decoder \<Rightarrow> (error + decoder) option"
  and check_elements :: "nat \<Rightarrow> decoder \<Rightarrow> (error + decoder) option"
  and checkJSONObject :: "nat \<Rightarrow> bytes list \<Rightarrow> decoder \<Rightarrow> (error + decoder) option"
where
  "checkJSONValue 0 tok d = None"
| "checkJSONValue (Suc n) tok d =
     (if tok = Delim 0x7B then checkJSONObject n [] d
      else if tok = Delim 0x5B then check_elements n d
      else Some (Inr d))"
| "check_elements 0 d = None"
| "check_elements (Suc n) d =
     (if dec_More d then
        (case dec_Token d of
           (Inl e, d1) \<Rightarrow> Some (Inl errParseJSON)
         | (Inr tok, d1) \<Rightarrow>
             (case checkJSONValue n tok d1 of
                None \<Rightarrow> None
              | Some (Inl e) \<Rightarrow> Some (Inl e)
              | Some (Inr d2) \<Rightarrow> check_elements n d2))
      else
        (case dec_Token d of
           (Inl e, d1) \<Rightarrow> Some (Inl (ErrText ''json: end of array''))
         | (Inr tok, d1) \<Rightarrow> Some (Inr d1)))"
| "checkJSONObject 0 seen d = None"
| "checkJSONObject (Suc n) seen d =
     (if dec_More d then
        (case dec_Token d of
           (Inl e, d1) \<Rightarrow> Some (Inl errParseJSON)
         | (Inr (Scalar (JString rs)), d1) \<Rightarrow>
             if of_runes rs \<in> set seen then Some (Inl (ErrText ''config: duplicate json key''))
             else
               (case dec_Token d1 of
                  (Inl e, d2) \<Rightarrow> Some (Inl errParseJSON)
                | (Inr tok, d2) \<Rightarrow>
                    (case checkJSONValue n tok d2 of
                       None \<Rightarrow> None
                     | Some (Inl e) \<Rightarrow> Some (Inl e)
                     | Some (Inr d3) \<Rightarrow> checkJSONObject n (of_runes rs # seen) d3))
         | (Inr tok, d1) \<Rightarrow> Some (Inl (ErrText ''config: expected json key'')))
      else
        (case dec_Token d of
           (Inl e, d1) \<Rightarrow> Some (Inl (ErrText ''json: end of object''))
         | (Inr tok, d1) \<Rightarrow> Some (Inr d1)))"

fun reject_loop :: "nat \<Rightarrow> decoder \<Rightarrow> error option option" where
  "reject_loop 0 d = None"
| "reject_loop (Suc n) d =
     (case dec_Token d of
        (Inl EOF, d1) \<Rightarrow> Some None
      | (Inl e, d1) \<Rightarrow> Some (Some errParseJSON)
      | (Inr tok, d1) \<Rightarrow>
          (case checkJSONValue n tok d1 of
             None \<Rightarrow> None
           | Some (Inl e) \<Rightarrow> Some (Some e)
           | Some (Inr d2) \<Rightarrow> reject_loop n d2))"

definition rejectDuplicateKeys :: "bytes \<Rightarrow> error option option" where
  "rejectDuplicateKeys data = reject_loop (Suc (2 * length (runes data))) (NewDecoder data)"

section \<open>Fields\<close>

definition errField :: error where "errField = ErrText ''config: invalid field''"

type_synonym raw_object = "(bytes \<times> json) list"

text \<open>A Go map of the members of an object: of two members with one name the last one is kept.\<close>

definition object_map :: "(rune list \<times> json) list \<Rightarrow> raw_object" where
  "object_map ms = fold (\<lambda>(k, v) m. AList.update (of_runes k) v m) ms []"

definition objectField :: "json \<Rightarrow> error + raw_object" where
  "objectField raw = (case raw of JNull \<Rightarrow> Inr [] | JObject ms \<Rightarrow> Inr (object_map ms) | _ \<Rightarrow> Inl errField)"

definition stringField :: "json \<Rightarrow> error + bytes" where
  "stringField raw = (case assign_string raw [] of None \<Rightarrow> Inl errField | Some v \<Rightarrow> Inr v)"

definition parseDuration :: "environ \<Rightarrow> bytes \<Rightarrow> error + int" where
  "parseDuration env s =
     (case env_ParseDuration env s of None \<Rightarrow> Inl (ErrText ''config: invalid duration'') | Some d \<Rightarrow> Inr d)"

definition durationField :: "environ \<Rightarrow> json \<Rightarrow> error + int" where
  "durationField env raw =
     (case assign_string raw [] of
        None \<Rightarrow> Inl errField
      | Some s \<Rightarrow> (case parseDuration env s of Inl e \<Rightarrow> Inl errField | Inr d \<Rightarrow> Inr d))"

text \<open>The types \<^verbatim>\<open>int\<close> and \<^verbatim>\<open>int64\<close> have the same width.\<close>

definition intField :: "json \<Rightarrow> error + int" where
  "intField raw = (case assign_int raw 0 of None \<Rightarrow> Inl errField | Some v \<Rightarrow> Inr v)"

definition int64Field :: "json \<Rightarrow> error + int" where
  "int64Field raw = (case assign_int raw 0 of None \<Rightarrow> Inl errField | Some v \<Rightarrow> Inr v)"

definition floatField :: "environ \<Rightarrow> json \<Rightarrow> error + rat" where
  "floatField env raw =
     (case raw of
        JNull \<Rightarrow> Inr 0
      | JNumber ds \<Rightarrow> (case env_ParseFloat env ds of None \<Rightarrow> Inl errField | Some v \<Rightarrow> Inr v)
      | _ \<Rightarrow> Inl errField)"

definition boolField :: "json \<Rightarrow> error + bool" where
  "boolField raw = (case raw of JNull \<Rightarrow> Inr False | JBool b \<Rightarrow> Inr b | _ \<Rightarrow> Inl errField)"

definition boolPtrField :: "json \<Rightarrow> error + bool option" where
  "boolPtrField raw = (case raw of JNull \<Rightarrow> Inr (Some False) | JBool b \<Rightarrow> Inr (Some b) | _ \<Rightarrow> Inl errField)"

text \<open>Null is an empty string as an element and as a value of a map, and the nil slice or map itself.\<close>

fun string_elements :: "json list \<Rightarrow> bytes list option" where
  "string_elements [] = Some []"
| "string_elements (v # vs) =
     (case assign_string v [] of None \<Rightarrow> None | Some s \<Rightarrow> map_option (\<lambda>ss. s # ss) (string_elements vs))"

definition stringSliceField :: "json \<Rightarrow> error + bytes list option" where
  "stringSliceField raw =
     (case raw of
        JNull \<Rightarrow> Inr None
      | JArray vs \<Rightarrow> (case string_elements vs of None \<Rightarrow> Inl errField | Some ss \<Rightarrow> Inr (Some ss))
      | _ \<Rightarrow> Inl errField)"

definition stringMapField :: "json \<Rightarrow> error + (bytes \<times> bytes) list option" where
  "stringMapField raw =
     (case raw of
        JNull \<Rightarrow> Inr None
      | JObject ms \<Rightarrow>
          (case string_elements (map snd ms) of
             None \<Rightarrow> Inl errField
           | Some ss \<Rightarrow> Inr (Some (fold (\<lambda>(k, v) m. AList.update (of_runes k) v m) (zip (map fst ms) ss) [])))
      | _ \<Rightarrow> Inl errField)"

definition nonNullIntField :: "json \<Rightarrow> error + int" where
  "nonNullIntField raw = (if raw = JNull then Inl errField else intField raw)"

definition detectionProfileField :: "json \<Rightarrow> error + bytes" where
  "detectionProfileField raw =
     (if raw = JNull then Inl (ErrText ''config: invalid detection_profile'')
      else (case stringField raw of Inl e \<Rightarrow> Inl (ErrText ''config: invalid detection_profile'') | Inr v \<Rightarrow> Inr v))"

text \<open>
  A field: its name and the effect of reading it on the structure it belongs to. Of a read that fails only the error
  is used.
\<close>

type_synonym 'c jsonField = "bytes \<times> (json \<Rightarrow> 'c \<Rightarrow> error + 'c)"

definition jsonValue :: "bytes \<Rightarrow> ('t \<Rightarrow> 'c \<Rightarrow> 'c) \<Rightarrow> (json \<Rightarrow> error + 't) \<Rightarrow> 'c jsonField" where
  "jsonValue name dest parse = (name, \<lambda>raw c. case parse raw of Inl e \<Rightarrow> Inl e | Inr v \<Rightarrow> Inr (dest v c))"

fun readJSONFields :: "raw_object \<Rightarrow> 'c jsonField list \<Rightarrow> 'c \<Rightarrow> error + 'c" where
  "readJSONFields m [] c = Inr c"
| "readJSONFields m ((name, rd) # fs) c =
     (case map_of m name of
        None \<Rightarrow> readJSONFields m fs c
      | Some raw \<Rightarrow> (case rd raw c of Inl e \<Rightarrow> Inl e | Inr c \<Rightarrow> readJSONFields m fs c))"

definition jsonSection :: "bytes \<Rightarrow> ('c \<Rightarrow> 't) \<Rightarrow> ('t \<Rightarrow> 'c \<Rightarrow> 'c) \<Rightarrow> (raw_object \<Rightarrow> 't \<Rightarrow> error + 't) \<Rightarrow> 'c jsonField" where
  "jsonSection name src dest parse =
     (name, \<lambda>raw c.
        (case objectField raw of
           Inl e \<Rightarrow> Inl e
         | Inr section \<Rightarrow> (case parse section (src c) of Inl e \<Rightarrow> Inl e | Inr t \<Rightarrow> Inr (dest t c))))"

text \<open>Decoding a list of objects fails before any of them is parsed.\<close>

fun object_elements :: "json list \<Rightarrow> raw_object list option" where
  "object_elements [] = Some []"
| "object_elements (v # vs) =
     (case objectField v of Inl e \<Rightarrow> None | Inr m \<Rightarrow> map_option (\<lambda>ms. m # ms) (object_elements vs))"

fun parse_items :: "(raw_object \<Rightarrow> 't \<Rightarrow> error + 't) \<Rightarrow> 't \<Rightarrow> raw_object list \<Rightarrow> error + 't list" where
  "parse_items parse zero [] = Inr []"
| "parse_items parse zero (m # ms) =
     (case parse m zero of
        Inl e \<Rightarrow> Inl e
      | Inr v \<Rightarrow> (case parse_items parse zero ms of Inl e \<Rightarrow> Inl e | Inr vs \<Rightarrow> Inr (v # vs)))"

definition jsonList :: "(raw_object \<Rightarrow> 't \<Rightarrow> error + 't) \<Rightarrow> 't \<Rightarrow> json \<Rightarrow> error + 't list" where
  "jsonList parse zero raw =
     (case raw of
        JNull \<Rightarrow> Inr []
      | JArray vs \<Rightarrow> (case object_elements vs of None \<Rightarrow> Inl errField | Some ms \<Rightarrow> parse_items parse zero ms)
      | _ \<Rightarrow> Inl errField)"

section \<open>Sections\<close>

definition configJSONFields :: "bytes list" where
  "configJSONFields = [''version'', ''runtime'', ''server'', ''provider'', ''store'', ''security'', ''systems'',
     ''default_system'', ''custom_pii_types'']"

definition runtimeJSONFields :: "bytes list" where "runtimeJSONFields = [''mode'']"

definition serverJSONFields :: "bytes list" where
  "serverJSONFields = [''addr'', ''read_header_timeout'', ''read_timeout'', ''write_timeout'', ''idle_timeout'',
     ''max_body_bytes'', ''concurrency_limit'', ''request_timeout'', ''rate_limit_rps'', ''rate_limit_burst'',
     ''drain_delay'', ''shutdown_timeout'']"

definition providerJSONFields :: "bytes list" where "providerJSONFields = [''base_url'', ''timeout'', ''models'']"

definition storeJSONFields :: "bytes list" where
  "storeJSONFields = [''ttl'', ''cleanup_every'', ''mode'', ''redis_addr'', ''redis_password'', ''redis_db'', ''key_prefix'',
     ''pool_size'', ''min_idle_conns'', ''pool_timeout'']"

definition securityJSONFields :: "bytes list" where
  "securityJSONFields = [''log_level'', ''active_key_id'', ''encryption_keys'', ''encryption_key_files'']"

definition systemJSONFields :: "bytes list" where
  "systemJSONFields = [''allow_anonymous'', ''detect_types'', ''mask_types'', ''id'', ''enabled'', ''types'', ''mask_mode'',
     ''allow_demask'', ''api_key'', ''api_key_file'', ''rules'', ''detection_profile'']"

definition ruleJSONFields :: "bytes list" where "ruleJSONFields = [''type'', ''requires'']"

definition customPIITypeJSONFields :: "bytes list" where
  "customPIITypeJSONFields = [''type'', ''pattern'', ''confidence'']"

definition checkUnknown :: "raw_object \<Rightarrow> bytes list \<Rightarrow> error option" where
  "checkUnknown m known =
     (if list_ex (\<lambda>(k, v). k \<notin> set known) m then Some (ErrText ''config: unknown field'') else None)"

text \<open>The parsers begin with the check; the ones that read field by field do it in the order of their fields.\<close>

definition parse_known :: "raw_object \<Rightarrow> bytes list \<Rightarrow> 'c jsonField list \<Rightarrow> 'c \<Rightarrow> error + 'c" where
  "parse_known m known fs c =
     (case checkUnknown m known of Some e \<Rightarrow> Inl e | None \<Rightarrow> readJSONFields m fs c)"

definition parseJSONServer :: "environ \<Rightarrow> raw_object \<Rightarrow> ServerSettings \<Rightarrow> error + ServerSettings" where
  "parseJSONServer env m =
     parse_known m serverJSONFields
       [jsonValue ''addr'' (\<lambda>v s. s\<lparr>ss_Addr := v\<rparr>) stringField,
        jsonValue ''read_header_timeout'' (\<lambda>v s. s\<lparr>ss_ReadHeaderTimeout := v\<rparr>) (durationField env),
        jsonValue ''read_timeout'' (\<lambda>v s. s\<lparr>ss_ReadTimeout := v\<rparr>) (durationField env),
        jsonValue ''write_timeout'' (\<lambda>v s. s\<lparr>ss_WriteTimeout := v\<rparr>) (durationField env),
        jsonValue ''idle_timeout'' (\<lambda>v s. s\<lparr>ss_IdleTimeout := v\<rparr>) (durationField env),
        jsonValue ''max_body_bytes'' (\<lambda>v s. s\<lparr>ss_MaxBodyBytes := v\<rparr>) int64Field,
        jsonValue ''concurrency_limit'' (\<lambda>v s. s\<lparr>ss_ConcurrencyLimit := v\<rparr>) intField,
        jsonValue ''request_timeout'' (\<lambda>v s. s\<lparr>ss_RequestTimeout := v\<rparr>) (durationField env),
        jsonValue ''rate_limit_rps'' (\<lambda>v s. s\<lparr>ss_RateLimitRPS := v\<rparr>) (floatField env),
        jsonValue ''rate_limit_burst'' (\<lambda>v s. s\<lparr>ss_RateLimitBurst := v\<rparr>) intField,
        jsonValue ''drain_delay'' (\<lambda>v s. s\<lparr>ss_DrainDelay := v\<rparr>) (durationField env),
        jsonValue ''shutdown_timeout'' (\<lambda>v s. s\<lparr>ss_ShutdownTimeout := v\<rparr>) (durationField env)]"

definition parseJSONRuntime :: "raw_object \<Rightarrow> RuntimeMode \<Rightarrow> error + RuntimeMode" where
  "parseJSONRuntime m = parse_known m runtimeJSONFields [jsonValue ''mode'' (\<lambda>v r. v) stringField]"

definition parseJSONProvider :: "environ \<Rightarrow> raw_object \<Rightarrow> ProviderConfig \<Rightarrow> error + ProviderConfig" where
  "parseJSONProvider env m =
     parse_known m providerJSONFields
       [jsonValue ''base_url'' (\<lambda>v p. p\<lparr>pv_BaseURL := v\<rparr>) stringField,
        jsonValue ''timeout'' (\<lambda>v p. p\<lparr>pv_Timeout := v\<rparr>) (durationField env),
        jsonValue ''models'' (\<lambda>v p. p\<lparr>pv_Models := v\<rparr>) stringSliceField]"

definition parseJSONStore :: "environ \<Rightarrow> raw_object \<Rightarrow> StoreConfig \<Rightarrow> error + StoreConfig" where
  "parseJSONStore env m =
     parse_known m storeJSONFields
       [jsonValue ''pool_size'' (\<lambda>v s. s\<lparr>st_PoolSize := v\<rparr>) nonNullIntField,
        jsonValue ''min_idle_conns'' (\<lambda>v s. s\<lparr>st_MinIdleConns := v\<rparr>) nonNullIntField,
        jsonValue ''pool_timeout'' (\<lambda>v s. s\<lparr>st_PoolTimeout := v\<rparr>) (durationField env),
        jsonValue ''ttl'' (\<lambda>v s. s\<lparr>st_TTL := v\<rparr>) (durationField env),
        jsonValue ''cleanup_every'' (\<lambda>v s. s\<lparr>st_CleanupEvery := v\<rparr>) (durationField env),
        jsonValue ''mode'' (\<lambda>v s. s\<lparr>st_Mode := v\<rparr>) stringField,
        jsonValue ''redis_addr'' (\<lambda>v s. s\<lparr>st_RedisAddr := v\<rparr>) stringField,
        jsonValue ''redis_password'' (\<lambda>v s. s\<lparr>st_RedisPassword := v\<rparr>) stringField,
        jsonValue ''redis_db'' (\<lambda>v s. s\<lparr>st_RedisDB := v\<rparr>) intField,
        jsonValue ''key_prefix'' (\<lambda>v s. s\<lparr>st_KeyPrefix := v\<rparr>) stringField]"

definition parseJSONSecurity :: "raw_object \<Rightarrow> SecurityConfig \<Rightarrow> error + SecurityConfig" where
  "parseJSONSecurity m =
     parse_known m securityJSONFields
       [jsonValue ''log_level'' (\<lambda>v s. s\<lparr>sec_LogLevel := v\<rparr>) stringField,
        jsonValue ''active_key_id'' (\<lambda>v s. s\<lparr>sec_ActiveKeyID := v\<rparr>) stringField,
        jsonValue ''encryption_keys'' (\<lambda>v s. s\<lparr>sec_EncryptionKeys := v\<rparr>) stringMapField,
        jsonValue ''encryption_key_files'' (\<lambda>v s. s\<lparr>sec_EncryptionKeyFiles := v\<rparr>) stringMapField]"

definition parseJSONRule :: "raw_object \<Rightarrow> RuleCfg \<Rightarrow> error + RuleCfg" where
  "parseJSONRule m =
     parse_known m ruleJSONFields
       [jsonValue ''type'' (\<lambda>v r. r\<lparr>rc_Type := v\<rparr>) stringField,
        jsonValue ''requires'' (\<lambda>v r. r\<lparr>rc_Requires := v\<rparr>) stringSliceField]"

definition zero_rule :: RuleCfg where "zero_rule = \<lparr>rc_Type = [], rc_Requires = None\<rparr>"

definition rulesField :: "json \<Rightarrow> error + RuleCfg list" where
  "rulesField raw = jsonList parseJSONRule zero_rule raw"

text \<open>The detection profile is read in front of the check for unknown fields.\<close>

definition parseJSONSystem :: "raw_object \<Rightarrow> SystemConfig \<Rightarrow> error + SystemConfig" where
  "parseJSONSystem m s =
     (case readJSONFields m [jsonValue ''detection_profile'' (\<lambda>v s. s\<lparr>sy_DetectionProfile := v\<rparr>) detectionProfileField] s of
        Inl e \<Rightarrow> Inl e
      | Inr s \<Rightarrow>
          parse_known m systemJSONFields
            [jsonValue ''allow_anonymous'' (\<lambda>v s. s\<lparr>sy_AllowAnonymous := v\<rparr>) boolField,
             jsonValue ''detect_types'' (\<lambda>v s. s\<lparr>sy_DetectTypes := v\<rparr>) stringSliceField,
             jsonValue ''mask_types'' (\<lambda>v s. s\<lparr>sy_MaskTypes := v\<rparr>) stringSliceField,
             jsonValue ''id'' (\<lambda>v s. s\<lparr>sy_ID := v\<rparr>) stringField,
             jsonValue ''enabled'' (\<lambda>v s. s\<lparr>sy_Enabled := v\<rparr>) boolPtrField,
             jsonValue ''types'' (\<lambda>v s. s\<lparr>sy_Types := v\<rparr>) stringSliceField,
             jsonValue ''mask_mode'' (\<lambda>v s. s\<lparr>sy_MaskMode := v\<rparr>) stringField,
             jsonValue ''allow_demask'' (\<lambda>v s. s\<lparr>sy_AllowDemask := v\<rparr>) boolPtrField,
             jsonValue ''api_key'' (\<lambda>v s. s\<lparr>sy_APIKey := v\<rparr>) stringField,
             jsonValue ''api_key_file'' (\<lambda>v s. s\<lparr>sy_APIKeyFile := v\<rparr>) stringField,
             jsonValue ''rules'' (\<lambda>v s. s\<lparr>sy_Rules := Some v\<rparr>) rulesField] s)"

definition parseJSONCustomPIIType :: "raw_object \<Rightarrow> CustomPIIType \<Rightarrow> error + CustomPIIType" where
  "parseJSONCustomPIIType m =
     parse_known m customPIITypeJSONFields
       [jsonValue ''type'' (\<lambda>v t. t\<lparr>ct_Type := v\<rparr>) stringField,
        jsonValue ''pattern'' (\<lambda>v t. t\<lparr>ct_Pattern := v\<rparr>) stringField,
        jsonValue ''confidence'' (\<lambda>v t. t\<lparr>ct_Confidence := v\<rparr>) stringField]"

text \<open>The zero values of the element types and of a provider.\<close>

definition zero_system :: SystemConfig where
  "zero_system =
     \<lparr>sy_DetectionProfile = [], sy_AllowAnonymous = False, sy_DetectTypes = None, sy_MaskTypes = None, sy_ID = [],
      sy_Enabled = None, sy_Types = None, sy_MaskMode = [], sy_AllowDemask = None, sy_APIKey = [], sy_APIKeyFile = [],
      sy_Rules = None\<rparr>"

definition zero_custom_type :: CustomPIIType where
  "zero_custom_type = \<lparr>ct_Type = [], ct_Pattern = [], ct_Confidence = []\<rparr>"

definition zero_provider :: ProviderConfig where
  "zero_provider = \<lparr>pv_BaseURL = [], pv_Timeout = 0, pv_Models = None\<rparr>"

definition parseJSONConfig :: "environ \<Rightarrow> raw_object \<Rightarrow> Config \<Rightarrow> error + Config" where
  "parseJSONConfig env m =
     parse_known m configJSONFields
       [jsonValue ''version'' (\<lambda>v c. c\<lparr>cf_Version := v\<rparr>) stringField,
        jsonSection ''runtime'' cf_Runtime (\<lambda>v c. c\<lparr>cf_Runtime := v\<rparr>) parseJSONRuntime,
        jsonSection ''server'' cf_Server (\<lambda>v c. c\<lparr>cf_Server := v\<rparr>) (parseJSONServer env),
        jsonSection ''provider'' (\<lambda>c. case cf_Provider c of None \<Rightarrow> zero_provider | Some p \<Rightarrow> p)
          (\<lambda>v c. c\<lparr>cf_Provider := Some v\<rparr>) (parseJSONProvider env),
        jsonSection ''store'' cf_Store (\<lambda>v c. c\<lparr>cf_Store := v\<rparr>) (parseJSONStore env),
        jsonSection ''security'' cf_Security (\<lambda>v c. c\<lparr>cf_Security := v\<rparr>) parseJSONSecurity,
        jsonValue ''systems'' (\<lambda>v c. c\<lparr>cf_Systems := v\<rparr>) (jsonList parseJSONSystem zero_system),
        jsonValue ''default_system'' (\<lambda>v c. c\<lparr>cf_Default := v\<rparr>) stringField,
        jsonValue ''custom_pii_types'' (\<lambda>v c. c\<lparr>cf_CustomPIITypes := Some v\<rparr>) (jsonList parseJSONCustomPIIType zero_custom_type)]"

section \<open>Documents\<close>

text \<open>Nothing but space, as \<^verbatim>\<open>bytes.TrimSpace\<close> sees it.\<close>

definition blank_document :: "bytes \<Rightarrow> bool" where
  "blank_document data = list_all unicode_IsSpace (runes data)"

definition parseJSON :: "environ \<Rightarrow> bytes \<Rightarrow> error + Config" where
  "parseJSON env data =
     (if blank_document data then Inl (ErrText ''config: empty json document'')
      else if \<not> valid_string data then Inl (ErrText ''config: invalid utf-8 in json document'')
      else if rejectDuplicateKeys data \<noteq> Some None then Inl (case rejectDuplicateKeys data of Some (Some e) \<Rightarrow> e | _ \<Rightarrow> errParseJSON)
      else
        (case dec_Decode (NewDecoder data) of
           None \<Rightarrow> Inl errParseJSON
         | Some (v, d) \<Rightarrow>
             (case objectField v of
                Inl e \<Rightarrow> Inl errParseJSON
              | Inr m \<Rightarrow>
                  if skip_space (dec_rest d) \<noteq> [] then Inl (ErrText ''config: expected one json document'')
                  else
                    (case parseJSONConfig env m (Default_config\<lparr>cf_Version := []\<rparr>) of
                       Inl e \<Rightarrow> Inl e
                     | Inr cfg \<Rightarrow> Validate_config env cfg))))"

definition parseYAML :: "yaml_decoder \<Rightarrow> environ \<Rightarrow> bytes \<Rightarrow> error + Config" where
  "parseYAML yaml env data =
     (case yaml data (Default_config\<lparr>cf_Version := []\<rparr>) of
        None \<Rightarrow> Inl (ErrText ''config: parse yaml'')
      | Some (cfg, ends) \<Rightarrow>
          if \<not> ends then Inl (ErrText ''config: expected one document'') else Validate_config env cfg)"

definition parseDocument :: "yaml_decoder \<Rightarrow> environ \<Rightarrow> Document \<Rightarrow> error + Config" where
  "parseDocument yaml env doc =
     (if doc_Format doc = ''yaml'' then parseYAML yaml env (doc_Data doc)
      else if doc_Format doc = ''json'' then parseJSON env (doc_Data doc)
      else Inl (ErrText ''config: unsupported format''))"

text \<open>\<^verbatim>\<open>config.Load\<close>, which is used where no source is involved.\<close>

definition Load :: "yaml_decoder \<Rightarrow> environ \<Rightarrow> bytes \<Rightarrow> error + Config" where
  "Load yaml env path =
     (case env_ReadFile env path of None \<Rightarrow> Inl (ErrText ''config: read'') | Some data \<Rightarrow> parseYAML yaml env data)"

end
