(* ===== verification/Config_Manager.thy ===== *)
theory Config_Manager
  imports Config_Source
begin

text \<open>
  \<^verbatim>\<open>internal/platform/config/manager.go\<close> and \<^verbatim>\<open>secret.go\<close>: snapshots of the configuration that are reloaded while the
  service runs. The source is what its \<^verbatim>\<open>Read\<close> does when it is called, so a reload has it, the environment and the YAML
  decoder as arguments, and they may differ between reloads. The lock of reloads makes each of them one step. The
  values of HOL are immutable, so the copies that the code makes are the values themselves.
\<close>

section \<open>State\<close>

record snapshot =
  sn_version :: bytes
  sn_systems :: "(bytes \<times> Consumer) list"

text \<open>The counter of reloads by status; \<^const>\<open>None\<close> when there are no metrics.\<close>

record Manager =
  mg_pollInterval :: int
  mg_metrics :: "(bytes \<Rightarrow> nat) option"
  mg_current :: snapshot
  mg_initial :: Config
  mg_ran :: bool

definition record_status :: "bytes \<Rightarrow> (bytes \<Rightarrow> nat) option \<Rightarrow> (bytes \<Rightarrow> nat) option" where
  "record_status status metrics = map_option (\<lambda>f. f(status := Suc (f status))) metrics"

section \<open>Comparisons\<close>

definition stringSliceEqual :: "bytes list option \<Rightarrow> bytes list option \<Rightarrow> bool" where
  "stringSliceEqual a b \<longleftrightarrow> (a = None) = (b = None) \<and> length (opt_list a) = length (opt_list b) \<and>
     list_all (\<lambda>i. opt_list a ! i = opt_list b ! i) [0..<length (opt_list a)]"

text \<open>The required categories of a rule are nil exactly when there are none.\<close>

definition nil_slice :: "bytes list \<Rightarrow> bytes list option" where
  "nil_slice xs = (if xs = [] then None else Some xs)"

definition consumerEqual :: "Consumer \<Rightarrow> Consumer \<Rightarrow> bool" where
  "consumerEqual a b \<longleftrightarrow>
     co_ID a = co_ID b \<and> co_Enabled a = co_Enabled b \<and> co_APIKey a = co_APIKey b \<and>
     (let pa = co_Policy a; pb = co_Policy b in
      cp_DetectionProfile pa = cp_DetectionProfile pb \<and> cp_Version pa = cp_Version pb \<and> cp_Mode pa = cp_Mode pb \<and>
      cp_AllowDemask pa = cp_AllowDemask pb \<and> cp_TTL pa = cp_TTL pb \<and>
      stringSliceEqual (cp_DetectTypes pa) (cp_DetectTypes pb) \<and> stringSliceEqual (cp_MaskTypes pa) (cp_MaskTypes pb) \<and>
      length (cp_Rules pa) = length (cp_Rules pb) \<and>
      list_all (\<lambda>i. pr_Type (cp_Rules pa ! i) = pr_Type (cp_Rules pb ! i) \<and>
          stringSliceEqual (nil_slice (pr_Requires (cp_Rules pa ! i))) (nil_slice (pr_Requires (cp_Rules pb ! i))))
        [0..<length (cp_Rules pa)])"

definition systemsEqual :: "(bytes \<times> Consumer) list \<Rightarrow> (bytes \<times> Consumer) list \<Rightarrow> bool" where
  "systemsEqual a b \<longleftrightarrow> length a = length b \<and>
     list_all (\<lambda>(k, ca). case map_of b k of None \<Rightarrow> False | Some cb \<Rightarrow> consumerEqual ca cb) a"

text \<open>\<^verbatim>\<open>reflect.DeepEqual\<close> of two maps, which are lists of entries with distinct keys here; nil is not an empty map.\<close>

definition maps_equal :: "('k \<times> 'v) list option \<Rightarrow> ('k \<times> 'v) list option \<Rightarrow> bool" where
  "maps_equal a b \<longleftrightarrow>
     (case (a, b) of (None, None) \<Rightarrow> True | (Some xs, Some ys) \<Rightarrow> set xs = set ys | _ \<Rightarrow> False)"

definition security_equal :: "SecurityConfig \<Rightarrow> SecurityConfig \<Rightarrow> bool" where
  "security_equal a b \<longleftrightarrow> sec_LogLevel a = sec_LogLevel b \<and> sec_ActiveKeyID a = sec_ActiveKeyID b \<and>
     maps_equal (sec_EncryptionKeys a) (sec_EncryptionKeys b) \<and> maps_equal (sec_EncryptionKeyFiles a) (sec_EncryptionKeyFiles b)"

definition immutableEqual :: "Config \<Rightarrow> Config \<Rightarrow> bool" where
  "immutableEqual a b \<longleftrightarrow>
     cf_Runtime a = cf_Runtime b \<and> cf_Server a = cf_Server b \<and> cf_Provider a = cf_Provider b \<and> cf_Store a = cf_Store b \<and>
     security_equal (cf_Security a) (cf_Security b) \<and> cf_CustomPIITypes a = cf_CustomPIITypes b \<and> cf_Default a = cf_Default b"

section \<open>Candidates\<close>

definition system_enabled :: "SystemConfig \<Rightarrow> bool" where
  "system_enabled s \<longleftrightarrow> sy_Enabled s = None \<or> sy_Enabled s = Some True"

definition buildConsumer :: "environ \<Rightarrow> SystemConfig \<Rightarrow> bytes \<Rightarrow> int \<Rightarrow> Consumer option" where
  "buildConsumer env s version ttl =
     (case buildPolicy s of
        Inl e \<Rightarrow> None
      | Inr pol \<Rightarrow>
          (let pol = pol\<lparr>po_Version := version, po_TTL := ttl\<rparr>; secret = resolveSecret env (sy_APIKey s) (sy_APIKeyFile s) in
           if system_enabled s \<and> (isl secret \<or> secret = Inr None \<and> \<not> sy_AllowAnonymous s) then None
           else
             Some \<lparr>co_ID = sy_ID s, co_Enabled = po_Enabled pol,
               co_APIKey = (case secret of Inr (Some k) \<Rightarrow> k | _ \<Rightarrow> []), co_Policy = Contract pol\<rparr>))"

fun candidate_loop ::
  "environ \<Rightarrow> Config \<Rightarrow> SystemConfig list \<Rightarrow> (bytes \<times> Consumer) list \<Rightarrow> error + (bytes \<times> Consumer) list"
where
  "candidate_loop env cfg [] acc = Inr acc"
| "candidate_loop env cfg (s # ss) acc =
     (case buildConsumer env s (cf_Version cfg) (st_TTL (cf_Store cfg)) of
        None \<Rightarrow>
          if system_enabled s
          then Inl (ErrText ''config: system has unresolvable api key without anonymous access'')
          else candidate_loop env cfg ss acc
      | Some c \<Rightarrow> candidate_loop env cfg ss (AList.update (sy_ID s) c acc))"

definition buildCandidate ::
  "yaml_decoder \<Rightarrow> environ \<Rightarrow> 'a source \<Rightarrow> Config option \<Rightarrow> 'a world_scheme \<Rightarrow>
   (error + snapshot \<times> Config) \<times> 'a world_scheme"
where
  "buildCandidate yaml env src initial w =
     (case src w of
        (Inl e, w) \<Rightarrow> (Inl e, w)
      | (Inr doc, w) \<Rightarrow>
          (case parseDocument yaml env doc of
             Inl e \<Rightarrow> Inl e
           | Inr cfg \<Rightarrow>
               if (case initial of None \<Rightarrow> False | Some i \<Rightarrow> \<not> immutableEqual cfg i)
               then Inl (ErrText ''config: immutable fields changed'')
               else
                 (case candidate_loop env cfg (cf_Systems cfg) [] of
                    Inl e \<Rightarrow> Inl e
                  | Inr systems \<Rightarrow> Inr (\<lparr>sn_version = cf_Version cfg, sn_systems = systems\<rparr>, cfg)), w))"

section \<open>The manager\<close>

text \<open>Besides the answer, the counters after the call.\<close>

definition NewManagerFromSource ::
  "yaml_decoder \<Rightarrow> environ \<Rightarrow> 'a source \<Rightarrow> int \<Rightarrow> (bytes \<Rightarrow> nat) option \<Rightarrow> 'a world_scheme \<Rightarrow>
   (error + Manager) \<times> (bytes \<Rightarrow> nat) option \<times> 'a world_scheme"
where
  "NewManagerFromSource yaml env src pollInterval metrics w =
     (if pollInterval \<le> 0 then (Inl (ErrText ''config: poll interval must be positive''), metrics, w)
      else
        (case buildCandidate yaml env src None w of
           (Inl e, w) \<Rightarrow> (Inl e, record_status ''error'' metrics, w)
         | (Inr (cand, cfg), w) \<Rightarrow>
             (Inr \<lparr>mg_pollInterval = pollInterval, mg_metrics = record_status ''success'' metrics, mg_current = cand,
                 mg_initial = cfg, mg_ran = False\<rparr>,
              record_status ''success'' metrics, w)))"

definition NewManager ::
  "yaml_decoder \<Rightarrow> environ \<Rightarrow> bytes \<Rightarrow> int \<Rightarrow> (bytes \<Rightarrow> nat) option \<Rightarrow> 'a world_scheme \<Rightarrow>
   (error + Manager) \<times> (bytes \<Rightarrow> nat) option \<times> 'a world_scheme"
where
  "NewManager yaml env path = NewManagerFromSource yaml env (fileSource_Read env path)"

definition Manager_ResolveSystem :: "Manager \<Rightarrow> bytes \<Rightarrow> Consumer option" where
  "Manager_ResolveSystem m k = map_of (sn_systems (mg_current m)) k"

definition count_reload :: "bytes \<Rightarrow> Manager \<Rightarrow> Manager" where
  "count_reload status m = m\<lparr>mg_metrics := record_status status (mg_metrics m)\<rparr>"

definition ReloadContext ::
  "yaml_decoder \<Rightarrow> environ \<Rightarrow> 'a source \<Rightarrow> Manager \<Rightarrow> 'a world_scheme \<Rightarrow> error option \<times> Manager \<times> 'a world_scheme"
where
  "ReloadContext yaml env src m w =
     (case buildCandidate yaml env src (Some (mg_initial m)) w of
        (Inl e, w) \<Rightarrow> (Some e, count_reload ''error'' m, w)
      | (Inr (cand, cfg), w) \<Rightarrow>
          if sn_version cand = sn_version (mg_current m) then
            (if systemsEqual (sn_systems cand) (sn_systems (mg_current m)) then (None, count_reload ''noop'' m, w)
             else (Some (ErrText ''config: version unchanged but parameters differ''), count_reload ''error'' m, w))
          else (None, count_reload ''success'' (m\<lparr>mg_current := cand\<rparr>), w))"

definition Initial :: "Manager \<Rightarrow> Config" where "Initial m = mg_initial m"

definition Version :: "Manager \<Rightarrow> bytes" where "Version m = sn_version (mg_current m)"

text \<open>
  What the loop of \<^verbatim>\<open>Run\<close> selects, one after the other: a tick, with what the reload finds, or the end of the context.
  Only the first call of \<^verbatim>\<open>Run\<close> enters the loop.
\<close>

datatype 'a selected = Tick environ "'a source" | Cancelled

fun Run_loop :: "yaml_decoder \<Rightarrow> 'a selected list \<Rightarrow> Manager \<Rightarrow> 'a world_scheme \<Rightarrow> Manager \<times> 'a world_scheme" where
  "Run_loop yaml [] m w = (m, w)"
| "Run_loop yaml (Cancelled # xs) m w = (m, w)"
| "Run_loop yaml (Tick env src # xs) m w =
     (case ReloadContext yaml env src m w of (e, m, w) \<Rightarrow> Run_loop yaml xs m w)"

definition Run :: "yaml_decoder \<Rightarrow> 'a selected list \<Rightarrow> Manager \<Rightarrow> 'a world_scheme \<Rightarrow> Manager \<times> 'a world_scheme" where
  "Run yaml xs m w = (if mg_ran m then (m, w) else Run_loop yaml xs (m\<lparr>mg_ran := True\<rparr>) w)"

section \<open>Secrets of Kubernetes\<close>

datatype k8s_error = NotFound | Forbidden | Timeout | ServerTimeout | ServiceUnavailable | OtherK8s

text \<open>A client gives the data of a secret and its version, or an error of one of the kinds that are told apart.\<close>

record secret =
  se_Data :: "(bytes \<times> bytes) list"
  se_ResourceVersion :: bytes

type_synonym 'a k8s_client = "bytes \<Rightarrow> bytes \<Rightarrow> 'a world_scheme \<Rightarrow> (k8s_error + secret) \<times> 'a world_scheme"

record 'a kubernetesSecretSource =
  ks_client :: "'a k8s_client"
  ks_namespace :: bytes
  ks_name :: bytes
  ks_key :: bytes

definition NewKubernetesSecretSource ::
  "'a k8s_client option \<Rightarrow> bytes \<Rightarrow> bytes \<Rightarrow> bytes \<Rightarrow> error + 'a kubernetesSecretSource"
where
  "NewKubernetesSecretSource client namespace name key =
     (case client of
        None \<Rightarrow> Inl (ErrText ''config: kubernetes client is nil'')
      | Some c \<Rightarrow>
          if namespace = [] \<or> name = [] \<or> key = []
          then Inl (ErrText ''config: kubernetes namespace, name and key are required'')
          else Inr \<lparr>ks_client = c, ks_namespace = namespace, ks_name = name, ks_key = key\<rparr>)"

definition classifyK8sError :: "k8s_error \<Rightarrow> error" where
  "classifyK8sError e =
     (if e = NotFound then ErrText ''config: kubernetes secret not_found''
      else if e = Forbidden then ErrText ''config: kubernetes secret forbidden''
      else if e = Timeout \<or> e = ServerTimeout \<or> e = ServiceUnavailable then ErrText ''config: kubernetes secret unavailable''
      else ErrText ''config: kubernetes secret invalid'')"

definition Secret_Read :: "'a kubernetesSecretSource \<Rightarrow> 'a source" where
  "Secret_Read s w =
     (case ctx_Err w of
        (Some e, w) \<Rightarrow> (Inl e, w)
      | (None, w) \<Rightarrow>
          (case ks_client s (ks_namespace s) (ks_name s) w of
             (Inl e, w) \<Rightarrow> (Inl (classifyK8sError e), w)
           | (Inr secret, w) \<Rightarrow>
               (case map_of (se_Data secret) (ks_key s) of
                  None \<Rightarrow> Inl (ErrText ''config: kubernetes secret key not found'')
                | Some data \<Rightarrow>
                    if data = [] then Inl (ErrText ''config: kubernetes secret key is empty'')
                    else Inr \<lparr>doc_Data = data, doc_Format = ''json'', doc_Revision = se_ResourceVersion secret\<rparr>, w)))"

end
