(* ===== verification/Json_Struct.thy ===== *)
theory Json_Struct
  imports Request_Decoding
begin

text \<open>
  \<^verbatim>\<open>json.Decoder.Decode\<close> into a structure after \<^verbatim>\<open>DisallowUnknownFields\<close>, and the values that
  \<^verbatim>\<open>json.Encoder.Encode\<close> writes. A member goes to the field with its name, up to case; a later one replaces an
  earlier one; null leaves a field alone.
\<close>

section \<open>Definitions\<close>

fun assign_known :: "string list \<Rightarrow> (string \<Rightarrow> json \<Rightarrow> 's \<Rightarrow> 's option) \<Rightarrow> (rune list \<times> json) list \<Rightarrow> 's \<Rightarrow> 's option" where
  "assign_known names assign [] s = Some s"
| "assign_known names assign ((n, v) # ms) s =
     (case struct_field names n of
        None \<Rightarrow> None
      | Some f \<Rightarrow> (case assign f v s of None \<Rightarrow> None | Some s \<Rightarrow> assign_known names assign ms s))"

definition decode_struct ::
  "string list \<Rightarrow> (string \<Rightarrow> json \<Rightarrow> 's \<Rightarrow> 's option) \<Rightarrow> 's \<Rightarrow> decoder \<Rightarrow> ('s \<times> decoder) option"
where
  "decode_struct names assign zero d =
     (case dec_Decode d of
        Some (JObject ms, d) \<Rightarrow> map_option (\<lambda>s. (s, d)) (assign_known names assign ms zero)
      | Some (JNull, d) \<Rightarrow> Some (zero, d)
      | _ \<Rightarrow> None)"

text \<open>\<^verbatim>\<open>Encode\<close> ends a value with a line feed.\<close>

definition encode_line :: "bytes \<Rightarrow> bytes" where "encode_line v = v @ [CHR 0x0A]"

text \<open>One structure from the whole input, as the callers that look for the end ask for it.\<close>

definition decode_only ::
  "string list \<Rightarrow> (string \<Rightarrow> json \<Rightarrow> 's \<Rightarrow> 's option) \<Rightarrow> 's \<Rightarrow> bytes \<Rightarrow> 's option"
where
  "decode_only names assign zero s =
     (case decode_struct names assign zero (NewDecoder s) of
        None \<Rightarrow> None
      | Some (x, d) \<Rightarrow> if fst (dec_Token d) = Inl EOF then Some x else None)"

section \<open>What was written is read back\<close>

lemma decode_string_object:
  assumes "fs \<noteq> []" and "\<forall>(k, s) \<in> set fs. valid_string k \<and> valid_string s"
  shows "decode_struct names assign zero (NewDecoder (string_object fs @ t)) =
    map_option (\<lambda>s. (s, \<lparr>dec_state = TopValue, dec_stack = [], dec_rest = runes t\<rparr>)) (assign_known names assign (string_members fs) zero)"
proof -
  have "\<exists>u. runes (string_object fs @ t) = 0x7B # u" by (simp add: string_object_def json_object_def byte_def)
  then obtain u where u: "runes (string_object fs @ t) = 0x7B # u" by blast
  then have "prepare_decode (NewDecoder (string_object fs @ t)) = Some (NewDecoder (string_object fs @ t))"
    by (simp add: prepare_decode_def NewDecoder_def value_allowed_def skip_space_def json_space_def)
  with parse_string_object [OF assms, of t] show ?thesis
    by (simp add: decode_struct_def dec_Decode_def NewDecoder_def value_end_def)
qed

lemma Token_at_end: "skip_space t = [] \<Longrightarrow> fst (dec_Token \<lparr>dec_state = TopValue, dec_stack = [], dec_rest = t\<rparr>) = Inl EOF"
  by (simp add: dec_Token_def)

lemma decode_only_written:
  assumes "fs \<noteq> []" and "\<forall>(k, s) \<in> set fs. valid_string k \<and> valid_string s" and "t = [] \<or> t = [CHR 0x0A]"
  shows "decode_only names assign zero (string_object fs @ t) = assign_known names assign (string_members fs) zero"
proof -
  have "skip_space (runes t) = []" using assms(3) by (auto simp: skip_space_def json_space_def byte_def)
  then show ?thesis
    by (simp add: decode_only_def decode_string_object [OF assms(1,2)] Token_at_end split: option.split)
qed

end
