(* ===== verification/Provider.thy ===== *)
theory Provider
  imports Json_Struct Proxy_Server
begin

text \<open>
  \<^verbatim>\<open>internal/llm/client.go\<close>: the language model behind HTTP. \<^verbatim>\<open>url.Parse\<close> and the HTTP client are parameters; the
  client does not follow redirects.
\<close>

record url =
  url_Scheme :: bytes
  url_Host :: bytes
  url_User :: "bytes option"
  url_RawQuery :: bytes
  url_Fragment :: bytes

record http_response =
  rs_StatusCode :: int
  rs_Body :: request_body

text \<open>A POST of a JSON body to an address.\<close>

type_synonym 'w http_client = "bytes \<Rightarrow> bytes \<Rightarrow> 'w \<Rightarrow> (error + http_response) \<times> 'w"

record 'w HTTPProvider =
  hp_endpoint :: bytes
  hp_client :: "'w http_client"
  hp_models :: "bytes list"

fun strip_right :: "bytes \<Rightarrow> bytes" where
  "strip_right [] = []"
| "strip_right (c # s) = (if strip_right s = [] \<and> c = CHR ''/'' then [] else c # strip_right s)"

definition NewHTTPProvider ::
  "(bytes \<Rightarrow> url option) \<Rightarrow> bytes \<Rightarrow> 'w http_client option \<Rightarrow> bytes list \<Rightarrow> error + 'w HTTPProvider"
where
  "NewHTTPProvider parse baseURL client models =
     (case parse baseURL of
        None \<Rightarrow> Inl (ErrText ''provider: invalid base URL'')
      | Some u \<Rightarrow>
          if (url_Scheme u \<noteq> ''http'' \<and> url_Scheme u \<noteq> ''https'') \<or> url_Host u = [] \<or> url_User u \<noteq> None \<or>
            url_RawQuery u \<noteq> [] \<or> url_Fragment u \<noteq> []
          then Inl (ErrText ''provider: invalid base URL'')
          else
            (case client of
               None \<Rightarrow> Inl (ErrText ''provider: HTTP client is required'')
             | Some c \<Rightarrow> Inr \<lparr>hp_endpoint = strip_right baseURL @ ''/v1/generate'', hp_client = c, hp_models = models\<rparr>))"

record ProviderResponse =
  px_RequestID :: "bytes option"
  px_Text :: "bytes option"

definition response_fields :: "string list" where "response_fields = [''request_id'', ''text'']"

definition assign_response :: "string \<Rightarrow> json \<Rightarrow> ProviderResponse \<Rightarrow> ProviderResponse option" where
  "assign_response f v r =
     (if f = ''request_id'' then map_option (\<lambda>x. r\<lparr>px_RequestID := x\<rparr>) (string_pointer v)
      else map_option (\<lambda>x. r\<lparr>px_Text := x\<rparr>) (string_pointer v))"

definition marshal_request :: "ProviderRequest \<Rightarrow> bytes" where
  "marshal_request r = string_object [(''request_id'', pq_RequestID r), (''model'', pq_Model r), (''text'', pq_Text r)]"

definition max_response :: int where "max_response = 4 * 2 ^ 20"

definition read_response :: "bytes \<Rightarrow> bytes \<Rightarrow> error + bytes" where
  "read_response request_id data =
     (case decode_struct response_fields assign_response \<lparr>px_RequestID = None, px_Text = None\<rparr> (NewDecoder data) of
        None \<Rightarrow> Inl (ErrText ''provider: invalid response'')
      | Some (r, d) \<Rightarrow>
          if fst (dec_Token d) \<noteq> Inl EOF then Inl (ErrText ''provider: trailing response data'')
          else
            (case (px_RequestID r, px_Text r) of
               (Some i, Some t) \<Rightarrow> if i \<noteq> request_id then Inl (ErrText ''provider: request ID mismatch'') else Inr t
             | _ \<Rightarrow> Inl (ErrText ''provider: request ID mismatch'')))"

definition Provider_Generate :: "(bytes \<Rightarrow> url option) \<Rightarrow> 'w HTTPProvider \<Rightarrow> ProviderRequest \<Rightarrow> 'w \<Rightarrow> (error + bytes) \<times> 'w" where
  "Provider_Generate parse p r w =
     (if pq_Model r \<notin> set (hp_models p) then (Inl ErrInvalidModel, w)
      else if parse (hp_endpoint p) = None then (Inl (ErrText ''provider: build request''), w)
      else
        (case hp_client p (hp_endpoint p) (marshal_request r) w of
           (Inl e, w) \<Rightarrow> (Inl (if e = ErrCanceled \<or> e = ErrDeadlineExceeded then e else ErrText ''provider: request failed''), w)
         | (Inr resp, w) \<Rightarrow>
             (if rs_StatusCode resp \<noteq> 200 then Inl (ErrText ''provider: unexpected status'')
              else
                (case read_limited (rs_Body resp) (max_response + 1) of
                   None \<Rightarrow> Inl (ErrText ''provider: oversized or unreadable response'')
                 | Some data \<Rightarrow>
                     if int (length data) > max_response then Inl (ErrText ''provider: oversized or unreadable response'')
                     else read_response (pq_RequestID r) data), w)))"

text \<open>As the interface of the server, where a call may also panic.\<close>

definition LLMProvider_of :: "(bytes \<Rightarrow> url option) \<Rightarrow> 'w HTTPProvider \<Rightarrow> 'w LLMProvider" where
  "LLMProvider_of parse p r w = (case Provider_Generate parse p r w of (x, w) \<Rightarrow> (Some x, w))"

section \<open>An answer\<close>

lemma response_names: "list_all (\<lambda>f. struct_field response_fields (runes f) = Some f) response_fields"
  by (simp add: response_fields_def struct_field_def byte_def)

lemma read_written_response:
  assumes "valid_string i" and "valid_string t" and "u = [] \<or> u = [CHR 0x0A]"
  shows "read_response i (string_object [(''request_id'', i), (''text'', t)] @ u) = Inr t"
proof -
  let ?fs = "[(''request_id'', i), (''text'', t)]"
  have s: "skip_space (runes u) = []" using assms(3) by (auto simp: skip_space_def json_space_def byte_def)
  have a: "assign_known response_fields assign_response (string_members ?fs) \<lparr>px_RequestID = None, px_Text = None\<rparr> =
      Some \<lparr>px_RequestID = Some i, px_Text = Some t\<rparr>"
    using response_names assms(1,2)
    by (simp add: response_fields_def string_members_def assign_response_def string_pointer_def of_runes_runes)
  have "valid_string ''request_id''" "valid_string ''text''" by (simp_all add: byte_def)
  then have v: "\<forall>(k, s) \<in> set ?fs. valid_string k \<and> valid_string s" using assms(1,2) by simp
  show ?thesis
    unfolding read_response_def decode_string_object [OF list.simps(3) v] a by (simp add: Token_at_end [OF s])
qed

end
