(* ===== verification/Edit_Distance.thy ===== *)
theory Edit_Distance
  imports Go_Strings
begin

text \<open>
  The Levenshtein distance of \<^verbatim>\<open>internal/mock/client/quality.go\<close>: two rows, a diagonal band and the common ends
  trimmed off. \<^const>\<open>None\<close> is the panic of an index that is out of range. The reference is the least number of
  insertions, deletions and replacements that turn one list into the other.
\<close>

section \<open>The code\<close>

text \<open>The cells of a row from \<open>j\<close> on, \<open>k\<close> of them.\<close>

primrec band_cells :: "rune \<Rightarrow> rune list \<Rightarrow> nat \<Rightarrow> nat list \<Rightarrow> nat \<Rightarrow> nat \<Rightarrow> nat list \<Rightarrow> nat list option" where
  "band_cells c right limit previous 0 j current = Some current"
| "band_cells c right limit previous (Suc k) j current =
     (if j - 1 < length right \<and> j < length previous \<and> j < length current then
        (let cost = (if c = right ! (j - 1) then 0 else 1);
             v = min limit (min (previous ! j + 1) (min (current ! (j - 1) + 1) (previous ! (j - 1) + cost)))
         in band_cells c right limit previous k (Suc j) (current[j := v]))
      else None)"

text \<open>An assignment to an element.\<close>

definition assign_at :: "nat list \<Rightarrow> nat \<Rightarrow> nat \<Rightarrow> nat list option" where
  "assign_at xs i v = (if i < length xs then Some (xs[i := v]) else None)"

definition band_row :: "rune \<Rightarrow> rune list \<Rightarrow> nat \<Rightarrow> nat list \<Rightarrow> nat \<Rightarrow> nat list \<Rightarrow> nat list option" where
  "band_row c right limit previous i current =
     (let width = length right; band = limit - 1; from = max 1 (i - band); to = min width (i + band) in
      case assign_at current 0 (min i limit) of
        None \<Rightarrow> None
      | Some current \<Rightarrow>
          (case (if from > 1 then assign_at current (from - 1) limit else Some current) of
             None \<Rightarrow> None
           | Some current \<Rightarrow>
               (case band_cells c right limit previous (Suc to - from) from current of
                  None \<Rightarrow> None
                | Some current \<Rightarrow> if to < width then assign_at current (to + 1) limit else Some current)))"

fun band_rows :: "rune list \<Rightarrow> nat \<Rightarrow> rune list \<Rightarrow> nat \<Rightarrow> nat list \<Rightarrow> nat list \<Rightarrow> nat list option" where
  "band_rows right limit [] i previous current = Some previous"
| "band_rows right limit (c # cs) i previous current =
     (case band_row c right limit previous i current of
        None \<Rightarrow> None
      | Some current \<Rightarrow> band_rows right limit cs (Suc i) current previous)"

text \<open>The loops run over the longer list, the rows over the shorter one.\<close>

definition bandedDistance :: "rune list \<Rightarrow> rune list \<Rightarrow> nat \<Rightarrow> nat option" where
  "bandedDistance left right limit =
     (let (left, right) = (if length right > length left then (right, left) else (left, right)); width = length right in
      case band_rows right limit left 1 (map (\<lambda>j. min j limit) [0..<width + 1]) (replicate (width + 1) 0) of
        None \<Rightarrow> None
      | Some previous \<Rightarrow> if width < length previous then Some (min (previous ! width) limit) else None)"

fun trim_common :: "rune list \<Rightarrow> rune list \<Rightarrow> rune list \<times> rune list" where
  "trim_common (x # xs) (y # ys) = (if x = y then trim_common xs ys else (x # xs, y # ys))"
| "trim_common xs ys = (xs, ys)"

definition trim_common_end :: "rune list \<Rightarrow> rune list \<Rightarrow> rune list \<times> rune list" where
  "trim_common_end xs ys = (case trim_common (rev xs) (rev ys) of (us, vs) \<Rightarrow> (rev us, rev vs))"

definition absInt :: "int \<Rightarrow> int" where "absInt v = (if v < 0 then - v else v)"

definition levenshteinAtMost :: "rune list \<Rightarrow> rune list \<Rightarrow> int \<Rightarrow> int option" where
  "levenshteinAtMost left right limit =
     (if limit \<le> 0 then Some 0
      else
        (let (left, right) = trim_common left right; (left, right) = trim_common_end left right in
         if left = [] then Some (min (int (length right)) limit)
         else if right = [] then Some (min (int (length left)) limit)
         else if absInt (int (length left) - int (length right)) \<ge> limit then Some limit
         else map_option int (bandedDistance left right (nat limit))))"

section \<open>The distance\<close>

inductive edits :: "'a list \<Rightarrow> 'a list \<Rightarrow> nat \<Rightarrow> bool" where
  nothing: "edits [] [] 0"
| keep: "edits xs ys n \<Longrightarrow> edits (x # xs) (x # ys) n"
| replace: "edits xs ys n \<Longrightarrow> edits (x # xs) (y # ys) (Suc n)"
| insert: "edits xs ys n \<Longrightarrow> edits xs (y # ys) (Suc n)"
| delete: "edits xs ys n \<Longrightarrow> edits (x # xs) ys (Suc n)"

text \<open>The least number, by the usual recursion.\<close>

fun distance :: "'a list \<Rightarrow> 'a list \<Rightarrow> nat" where
  "distance [] ys = length ys"
| "distance (x # xs) [] = Suc (length xs)"
| "distance (x # xs) (y # ys) =
     min (Suc (distance xs (y # ys))) (min (Suc (distance (x # xs) ys)) (distance xs ys + (if x = y then 0 else 1)))"

lemma distance_Nil2 [simp]: "distance xs [] = length xs"
  by (cases xs) simp_all

lemma distance_insert: "distance xs (y # ys) \<le> Suc (distance xs ys)"
  by (cases xs) simp_all

lemma distance_delete: "distance (x # xs) ys \<le> Suc (distance xs ys)"
  by (cases ys) simp_all

lemma edits_insertions: "edits [] ys (length ys)"
  by (induction ys) (auto intro: edits.intros)

lemma edits_distance: "edits xs ys (distance xs ys)"
proof (induction xs ys rule: distance.induct)
  case (2 x xs)
  show ?case by (induction xs arbitrary: x) (auto intro: edits.intros)
next
  case (3 x xs y ys)
  then show ?case by (auto simp: min_def intro: edits.intros)
qed (simp add: edits_insertions)

lemma distance_least: "edits xs ys n \<Longrightarrow> distance xs ys \<le> n"
proof (induction rule: edits.induct)
  case (insert xs ys n y)
  then show ?case using distance_insert [of xs y ys] by simp
next
  case (delete xs ys n x)
  then show ?case using distance_delete [of x xs ys] by simp
qed auto

lemma edits_append: "edits xs ys n \<Longrightarrow> edits us vs m \<Longrightarrow> edits (xs @ us) (ys @ vs) (n + m)"
  by (induction rule: edits.induct) (auto intro: edits.intros)

lemma edits_rev: "edits xs ys n \<Longrightarrow> edits (rev xs) (rev ys) n"
proof (induction rule: edits.induct)
  case (keep xs ys n x)
  then show ?case using edits_append [of _ _ _ "[x]" "[x]" 0] by (simp add: edits.intros)
next
  case (replace xs ys n x y)
  then show ?case using edits_append [of _ _ _ "[x]" "[y]" 1] by (simp add: edits.intros)
next
  case (insert xs ys n y)
  then show ?case using edits_append [of _ _ _ "[]" "[y]" 1] by (simp add: edits.intros)
next
  case (delete xs ys n x)
  then show ?case using edits_append [of _ _ _ "[x]" "[]" 1] by (simp add: edits.intros)
qed (simp add: edits.nothing)

lemma distance_rev: "distance (rev xs) (rev ys) = distance xs ys"
  using distance_least [OF edits_rev [OF edits_distance [of xs ys]]]
    distance_least [OF edits_rev [OF edits_distance [of "rev xs" "rev ys"]]] by simp

lemma edits_sym: "edits xs ys n \<Longrightarrow> edits ys xs n"
  by (induction rule: edits.induct) (auto intro: edits.intros)

lemma distance_sym: "distance xs ys = distance ys xs"
  by (rule antisym) (rule distance_least [OF edits_sym [OF edits_distance]])+

lemma edits_drop: "edits xs zs n \<Longrightarrow> zs = y # ys \<Longrightarrow> \<exists>m \<le> Suc n. edits xs ys m"
proof (induction arbitrary: ys rule: edits.induct)
  case (keep xs zs n x)
  have "edits (x # xs) ys (Suc n)" using keep.hyps keep.prems by (simp add: edits.delete)
  then show ?case by blast
next
  case (replace xs zs n x z)
  have "edits (x # xs) ys (Suc n)" using replace.hyps replace.prems by (simp add: edits.delete)
  then show ?case by (intro exI [of _ "Suc n"]) simp
next
  case (insert xs zs n z)
  then have "edits xs ys n" by simp
  then show ?case by (intro exI [of _ n]) simp
next
  case (delete xs zs n x)
  then show ?case by (metis Suc_le_mono edits.delete)
qed simp

lemma distance_drop: "distance xs ys \<le> Suc (distance xs (y # ys))"
  using edits_drop [OF edits_distance [of xs "y # ys"] refl] distance_least by (meson le_trans)

lemma distance_keep: "distance (x # xs) (x # ys) = distance xs ys"
  using distance_drop [of xs ys x] distance_drop [of ys xs x] by (simp add: distance_sym min_def)

lemma distance_snoc:
  "distance (xs @ [x]) (ys @ [y]) =
     min (Suc (distance xs (ys @ [y]))) (min (Suc (distance (xs @ [x]) ys)) (distance xs ys + (if x = y then 0 else 1)))"
  using distance_rev [of "xs @ [x]" "ys @ [y]"] distance_rev [of xs "ys @ [y]"] distance_rev [of "xs @ [x]" ys] distance_rev [of xs ys]
  by simp

lemma edits_length: "edits xs ys n \<Longrightarrow> length xs \<le> length ys + n \<and> length ys \<le> length xs + n"
  by (induction rule: edits.induct) auto

lemma distance_length: "length xs \<le> length ys + distance xs ys \<and> length ys \<le> length xs + distance xs ys"
  using edits_length [OF edits_distance] by blast

lemma distance_zero: "distance xs ys = 0 \<longleftrightarrow> xs = ys"
proof
  have "edits xs ys n \<Longrightarrow> n = 0 \<Longrightarrow> xs = ys" for n by (induction rule: edits.induct) auto
  then show "distance xs ys = 0 \<Longrightarrow> xs = ys" using edits_distance [of xs ys] by metis
  show "xs = ys \<Longrightarrow> distance xs ys = 0"
    by (induction xs arbitrary: ys) auto
qed

section \<open>The band\<close>

text \<open>The entry of the full table, capped at the limit, and a row that is right where the next one reads it.\<close>

definition entry :: "'a list \<Rightarrow> 'a list \<Rightarrow> nat \<Rightarrow> nat \<Rightarrow> nat \<Rightarrow> nat" where
  "entry left right limit i j = min limit (distance (take i left) (take j right))"

definition row_ok :: "'a list \<Rightarrow> 'a list \<Rightarrow> nat \<Rightarrow> nat \<Rightarrow> nat list \<Rightarrow> bool" where
  "row_ok left right limit i row \<longleftrightarrow> length row = Suc (length right) \<and>
     (\<forall>j \<le> length right. i \<le> j + limit \<longrightarrow> j \<le> i + limit \<longrightarrow> row ! j = entry left right limit i j)"

lemma cap_step:
  "min l (min (Suc a) (min (Suc b) (c + k))) = min l (min (min l a + 1) (min (min l b + 1) (min l c + k)))" for l :: nat
  by (simp add: min_def)

lemma entry_step:
  assumes "i < length left" and "j < length right"
  shows "entry left right limit (Suc i) (Suc j) =
    min limit (min (entry left right limit i (Suc j) + 1) (min (entry left right limit (Suc i) j + 1)
      (entry left right limit i j + (if left ! i = right ! j then 0 else 1))))"
  unfolding entry_def take_Suc_conv_app_nth [OF assms(1)] take_Suc_conv_app_nth [OF assms(2)] distance_snoc by (rule cap_step)

lemma entry_outside:
  assumes "i \<le> length left" and "j \<le> length right" and "j + limit \<le> i \<or> i + limit \<le> j"
  shows "entry left right limit i j = limit"
  using distance_length [of "take i left" "take j right"] assms by (auto simp: entry_def min_absorb1 min_absorb2)

lemma entry_first: "i \<le> length left \<Longrightarrow> entry left right limit i 0 = min i limit"
  by (simp add: entry_def)

lemma band_cells_ok:
  assumes "row_ok left right limit i previous" and "i < length left" and "length current = Suc (length right)"
    and "1 \<le> j" and "j + k = Suc to" and "to \<le> length right" and "current ! (j - 1) = entry left right limit (Suc i) (j - 1)"
    and "Suc i \<le> j + limit" and "to \<le> i + limit"
  shows "\<exists>row. band_cells (left ! i) right limit previous k j current = Some row \<and> length row = length current \<and>
    (\<forall>j'. j \<le> j' \<longrightarrow> j' \<le> to \<longrightarrow> row ! j' = entry left right limit (Suc i) j') \<and>
    (\<forall>j'. j' < j \<or> to < j' \<longrightarrow> row ! j' = current ! j')"
  using assms(3-9)
proof (induction k arbitrary: j current)
  case (Suc k)
  obtain j0 where j: "j = Suc j0" using Suc.prems(2) by (cases j) auto
  have j0: "j0 < length right" using Suc.prems(3,4) j by simp
  have len: "length previous = Suc (length right)" using assms(1) by (simp add: row_ok_def)
  have p: "previous ! j = entry left right limit i j" "previous ! j0 = entry left right limit i j0"
    using assms(1) Suc.prems(3,4,6,7) j by (simp_all add: row_ok_def)
  define v where "v = min limit (min (previous ! j + 1) (min (current ! (j - 1) + 1)
    (previous ! (j - 1) + (if left ! i = right ! (j - 1) then 0 else 1))))"
  define next_row where "next_row = current[j := v]"
  have v: "v = entry left right limit (Suc i) j"
    using entry_step [OF assms(2) j0, of limit] p Suc.prems(5) by (simp add: v_def j)
  have step: "band_cells (left ! i) right limit previous (Suc k) j current =
      band_cells (left ! i) right limit previous k (Suc j) next_row"
    using j0 j len Suc.prems(1) by (simp add: Let_def next_row_def v_def)
  have n: "length next_row = Suc (length right)" "next_row ! (Suc j - 1) = entry left right limit (Suc i) (Suc j - 1)"
    using v Suc.prems(1) j0 j by (simp_all add: next_row_def)
  have b: "1 \<le> Suc j" "Suc j + k = Suc to" "Suc i \<le> Suc j + limit" using Suc.prems by simp_all
  from Suc.IH [OF n(1) b(1,2) Suc.prems(4) n(2) b(3) Suc.prems(7)]
  obtain row where row: "band_cells (left ! i) right limit previous k (Suc j) next_row = Some row"
    "length row = length next_row" "\<forall>j'. Suc j \<le> j' \<longrightarrow> j' \<le> to \<longrightarrow> row ! j' = entry left right limit (Suc i) j'"
    "\<forall>j'. j' < Suc j \<or> to < j' \<longrightarrow> row ! j' = next_row ! j'" by blast
  have "row ! j = entry left right limit (Suc i) j" using row(4) n(2) by simp
  then have "\<forall>j'. j \<le> j' \<longrightarrow> j' \<le> to \<longrightarrow> row ! j' = entry left right limit (Suc i) j'"
    using row(3) by (metis Suc_leI le_neq_implies_less)
  moreover have "row ! j' = current ! j'" if "j' < j \<or> to < j'" for j'
  proof -
    have "j' \<noteq> j" "j' < Suc j \<or> to < j'" using that Suc.prems(3) by auto
    then show ?thesis using row(4) by (auto simp: next_row_def)
  qed
  ultimately show ?case using step row(1,2) Suc.prems(1) n(1) by auto
qed auto

lemma band_row_ok:
  assumes "row_ok left right limit i previous" and "i < length left" and "length current = Suc (length right)"
    and "0 < limit" and "Suc i \<le> length right + limit"
  shows "\<exists>row. band_row (left ! i) right limit previous (Suc i) current = Some row \<and> row_ok left right limit (Suc i) row"
proof -
  define lo hi where "lo = max 1 (Suc i - (limit - 1))" and "hi = min (length right) (Suc i + (limit - 1))"
  have b: "1 \<le> lo" "lo \<le> Suc hi" "lo \<le> Suc (length right)" "hi \<le> length right" "hi \<le> i + limit" "Suc i \<le> lo + limit"
    using assms(4,5) by (auto simp: lo_def hi_def)
  define cur1 where "cur1 = current[0 := min (Suc i) limit]"
  define cur2 where "cur2 = (if lo > 1 then cur1[lo - 1 := limit] else cur1)"
  have l: "length cur1 = Suc (length right)" "length cur2 = Suc (length right)" using assms(3) by (simp_all add: cur1_def cur2_def)
  have c: "cur2 ! (lo - 1) = entry left right limit (Suc i) (lo - 1)"
  proof (cases "lo > 1")
    case True
    then have "(lo - 1) + limit \<le> Suc i" by (auto simp: lo_def)
    then show ?thesis using True b(3) l(1) entry_outside [of "Suc i" left "lo - 1" right limit] assms(2) by (simp add: cur2_def)
  next
    case False
    then have "lo = 1" using b(1) by simp
    then show ?thesis using entry_first [of "Suc i" left right limit] assms(2,3) by (simp add: cur2_def cur1_def)
  qed
  obtain row where row: "band_cells (left ! i) right limit previous (Suc hi - lo) lo cur2 = Some row" "length row = Suc (length right)"
    "\<forall>j'. lo \<le> j' \<longrightarrow> j' \<le> hi \<longrightarrow> row ! j' = entry left right limit (Suc i) j'"
    "\<forall>j'. j' < lo \<or> hi < j' \<longrightarrow> row ! j' = cur2 ! j'"
    using band_cells_ok [OF assms(1,2) l(2) b(1) _ b(4) c b(6,5), of "Suc hi - lo"] b(2) l(2) by auto
  define out where "out = (if hi < length right then row[hi + 1 := limit] else row)"
  have a: "assign_at current 0 (min (Suc i) limit) = Some cur1"
    "(if lo > 1 then assign_at cur1 (lo - 1) limit else Some cur1) = Some cur2"
    "(if hi < length right then assign_at row (hi + 1) limit else Some row) = Some out"
    using assms(3) b(3) l(1) row(2) by (auto simp: assign_at_def cur1_def cur2_def out_def)
  have "band_row (left ! i) right limit previous (Suc i) current = Some out"
    unfolding band_row_def Let_def lo_def [symmetric] hi_def [symmetric] a(1) option.case a(2) row(1) by (rule a(3))
  moreover have "out ! j = entry left right limit (Suc i) j"
    if "j \<le> length right" "Suc i \<le> j + limit" "j \<le> Suc i + limit" for j
  proof -
    consider "j < lo" | "lo \<le> j" "j \<le> hi" | "hi < j" by linarith
    then show ?thesis
    proof cases
      case 1
      then have "j = lo - 1" using that(2) by (auto simp: lo_def max_def split: if_splits)
      then show ?thesis using 1 row(4) c b(2,3) row(2) by (auto simp: out_def nth_list_update)
    next
      case 2
      then show ?thesis using row(3) by (simp add: out_def)
    next
      case 3
      then have "j = hi + 1" "hi < length right" "Suc i + limit \<le> j" using that(1,3) assms(4) by (auto simp: hi_def min_def split: if_splits)
      then show ?thesis using row(2) entry_outside [of "Suc i" left j right limit] assms(2) that(1) by (simp add: out_def)
    qed
  qed
  ultimately show ?thesis using row(2) by (auto simp: row_ok_def out_def)
qed

lemma band_rows_ok:
  assumes "drop i left = cs" and "i \<le> length left" and "row_ok left right limit i previous" and "length current = Suc (length right)"
    and "0 < limit" and "length left \<le> length right + limit"
  shows "\<exists>row. band_rows right limit cs (Suc i) previous current = Some row \<and> row_ok left right limit (length left) row"
  using assms(1-4)
proof (induction cs arbitrary: i previous current)
  case (Cons c cs)
  then have i: "i < length left" "left ! i = c" "drop (Suc i) left = cs"
    using Cons_nth_drop_Suc [of i left] by (cases "i < length left"; simp)+
  then have "Suc i \<le> length right + limit" using assms(6) by simp
  with band_row_ok [OF Cons.prems(3) i(1) Cons.prems(4) assms(5)] i(2)
  obtain row where row: "band_row c right limit previous (Suc i) current = Some row" "row_ok left right limit (Suc i) row" by blast
  have "length previous = Suc (length right)" using Cons.prems(3) by (simp add: row_ok_def)
  with Cons.IH [OF i(3) _ row(2)] i(1) row(1) show ?case by simp
qed auto

lemma bandedDistance_ok:
  assumes "0 < limit" and "length left < length right + limit" and "length right < length left + limit"
  shows "bandedDistance left right limit = Some (min (distance left right) limit)"
proof -
  have main: "(case band_rows r limit l 1 (map (\<lambda>j. min j limit) [0..<length r + 1]) (replicate (length r + 1) 0) of
      None \<Rightarrow> None | Some previous \<Rightarrow> if length r < length previous then Some (min (previous ! length r) limit) else None) =
    Some (min (distance l r) limit)" if "length r \<le> length l" "length l \<le> length r + limit" for l r :: "rune list"
  proof -
    have "row_ok l r limit 0 (map (\<lambda>j. min j limit) [0..<length r + 1])"
      by (auto simp: row_ok_def entry_def nth_append)
    from band_rows_ok [OF _ _ this _ assms(1) that(2), of l "replicate (length r + 1) 0"]
    obtain row where "band_rows r limit l 1 (map (\<lambda>j. min j limit) [0..<length r + 1]) (replicate (length r + 1) 0) = Some row"
      "row_ok l r limit (length l) row" by auto
    then show ?thesis using that by (simp add: row_ok_def entry_def min.commute)
  qed
  show ?thesis
    using main [of right left] main [of left right] assms(2,3) distance_sym [of left right]
    by (auto simp: bandedDistance_def Let_def)
qed

lemma trim_common_distance: "trim_common xs ys = (us, vs) \<Longrightarrow> distance us vs = distance xs ys"
  by (induction xs ys rule: trim_common.induct) (auto simp: distance_keep simp del: distance.simps(3) split: if_splits)

lemma trim_common_end_distance: "trim_common_end xs ys = (us, vs) \<Longrightarrow> distance us vs = distance xs ys"
  using trim_common_distance [of "rev xs" "rev ys"]
  by (auto simp: trim_common_end_def distance_rev split: prod.splits)

lemma levenshtein_ok:
  assumes "0 \<le> limit"
  shows "levenshteinAtMost left right limit = Some (min (int (distance left right)) limit)"
proof (cases "limit = 0")
  case True
  then show ?thesis by (simp add: levenshteinAtMost_def)
next
  case False
  then have pos: "0 < limit" using assms by simp
  obtain l1 r1 where t1: "trim_common left right = (l1, r1)" by force
  obtain l r where t2: "trim_common_end l1 r1 = (l, r)" by force
  have d: "distance left right = distance l r" using trim_common_distance [OF t1] trim_common_end_distance [OF t2] by simp
  have far: "distance l r \<ge> nat limit" if "absInt (int (length l) - int (length r)) \<ge> limit"
    using distance_length [of l r] that by (auto simp: absInt_def split: if_splits)
  have near: "bandedDistance l r (nat limit) = Some (min (distance l r) (nat limit))"
    if "\<not> absInt (int (length l) - int (length r)) \<ge> limit"
    using that pos by (intro bandedDistance_ok) (auto simp: absInt_def split: if_splits)
  show ?thesis
    unfolding levenshteinAtMost_def t1 t2 Let_def d prod.case
    using pos far near by (auto simp: min_def)
qed

end
