(* ===== verification/Quality.thy ===== *)
theory Quality
  imports Edit_Distance Pii
begin

text \<open>
  \<^verbatim>\<open>internal/mock/client/quality.go\<close>: the annotated data sets that the load client evaluates masks with, and the
  distance between an expected and an actual mask. The decoders of the data sets, the file system and SHA-256 are
  parameters; \<^verbatim>\<open>float64\<close> is a rational number.
\<close>

section \<open>Fixtures\<close>

record MaskSpan =
  sp_Type :: bytes
  sp_Start :: int
  sp_End :: int

record MaskFixture =
  fx_Name :: bytes
  fx_Payload :: bytes
  fx_ExpectedMask :: bytes
  fx_Spans :: "MaskSpan list"
  fx_allowUnchanged :: bool

definition rejectsUnchanged :: "MaskFixture \<Rightarrow> bytes \<Rightarrow> bool" where
  "rejectsUnchanged f masked \<longleftrightarrow> \<not> fx_allowUnchanged f \<and> masked = fx_Payload f"

definition supportedMaskSpanTypes :: "bytes list" where "supportedMaskSpanTypes = AllTypes"

definition four_mib :: nat where "four_mib = 4 * 2 ^ 20"

fun validate_spans :: "bytes \<Rightarrow> int \<Rightarrow> MaskSpan list \<Rightarrow> error option" where
  "validate_spans payload previousEnd [] = None"
| "validate_spans payload previousEnd (s # ss) =
     (if sp_Type s \<notin> set supportedMaskSpanTypes then Some (ErrText ''span has invalid type'')
      else if sp_Start s < previousEnd \<or> sp_Start s < 0 \<or> sp_End s \<le> sp_Start s \<or> sp_End s > int (length payload)
      then Some (ErrText ''span is invalid or overlaps'')
      else if \<not> rune_start (payload ! nat (sp_Start s)) \<or>
        sp_End s < int (length payload) \<and> \<not> rune_start (payload ! nat (sp_End s))
      then Some (ErrText ''span is not on a UTF-8 boundary'')
      else validate_spans payload (sp_End s) ss)"

definition validateMaskFixture :: "MaskFixture \<Rightarrow> error option" where
  "validateMaskFixture f =
     (if fx_Payload f = [] \<or> \<not> valid_string (fx_Payload f) \<or> \<not> valid_string (fx_ExpectedMask f)
      then Some (ErrText ''payload must be non-empty UTF-8 and expected_mask, when present, must be UTF-8'')
      else if length (fx_Payload f) > four_mib \<or> length (fx_ExpectedMask f) > four_mib
      then Some (ErrText ''payload or expected_mask exceeds 4 MiB'')
      else if fx_Spans f = [] then Some (ErrText ''at least one PII span is required'')
      else validate_spans (fx_Payload f) 0 (fx_Spans f))"

section \<open>The distance of masks\<close>

definition span_budget :: "MaskFixture \<Rightarrow> int" where
  "span_budget f =
     sum_list (map (\<lambda>s. int (length (runes (gslice (fx_Payload f) (nat (sp_Start s)) (nat (sp_End s)))))) (fx_Spans f))"

text \<open>\<^const>\<open>None\<close> is a panic of the distance.\<close>

definition NormalizedSpanLevenshtein :: "MaskFixture \<Rightarrow> bytes \<Rightarrow> (error + rat) option" where
  "NormalizedSpanLevenshtein f actual =
     (case validateMaskFixture f of
        Some e \<Rightarrow> Some (Inl e)
      | None \<Rightarrow>
          if fx_ExpectedMask f = [] then Some (Inl (ErrText ''expected_mask is required for quality distance''))
          else if \<not> valid_string actual then Some (Inl (ErrText ''actual mask is not UTF-8''))
          else if span_budget f = 0 then Some (Inl (ErrText ''PII span budget is empty''))
          else
            (case levenshteinAtMost (runes (fx_ExpectedMask f)) (runes actual) (span_budget f) of
               None \<Rightarrow> None
             | Some d \<Rightarrow> Some (Inr (rat_of_int d / rat_of_int (span_budget f)))))"

section \<open>Data sets\<close>

record maskDataset =
  ds_Schema :: bytes
  ds_OffsetUnit :: bytes
  ds_Synthetic :: bool
  ds_Entries :: "MaskFixture list"

definition maxMaskDatasetSize :: nat where "maxMaskDatasetSize = 32 * 2 ^ 20"

fun check_entries :: "bytes list \<Rightarrow> MaskFixture list \<Rightarrow> error option" where
  "check_entries seen [] = None"
| "check_entries seen (e # es) =
     (if fx_Name e = [] \<or> length (fx_Name e) > 128 \<or> fx_Name e \<in> set seen then Some (ErrText ''invalid mask dataset entry name'')
      else if fx_ExpectedMask e = [] then Some (ErrText ''invalid mask dataset entry: expected_mask is required'')
      else
        (case validateMaskFixture e of
           Some err \<Rightarrow> Some (ErrText ''invalid mask dataset entry'')
         | None \<Rightarrow> check_entries (fx_Name e # seen) es))"

text \<open>The file, if it can be read, and the strict decoder, which gives nothing when it or the end behind it fails.\<close>

definition LoadMaskDataset ::
  "bytes option \<Rightarrow> (bytes \<Rightarrow> maskDataset option) \<Rightarrow> (bytes \<Rightarrow> bytes) \<Rightarrow> error + MaskFixture list \<times> bytes"
where
  "LoadMaskDataset file decode sum256 =
     (case file of
        None \<Rightarrow> Inl (ErrText ''open'')
      | Some raw \<Rightarrow>
          if length raw > maxMaskDatasetSize then Inl (ErrText ''mask dataset exceeds 32 MiB'')
          else
            (case decode raw of
               None \<Rightarrow> Inl (ErrText ''invalid mask dataset'')
             | Some d \<Rightarrow>
                 if ds_Schema d \<noteq> ''alfagen.mask-eval.v1'' \<or> ds_OffsetUnit d \<noteq> ''utf8_bytes'' \<or> \<not> ds_Synthetic d \<or>
                   ds_Entries d = [] \<or> length (ds_Entries d) > 10000
                 then Inl (ErrText ''unsupported mask dataset'')
                 else
                   (case check_entries [] (ds_Entries d) of
                      Some e \<Rightarrow> Inl e
                    | None \<Rightarrow> Inr (ds_Entries d, hex_encode (sum256 raw)))))"

text \<open>\<^verbatim>\<open>strings.Index\<close>.\<close>

fun strings_Index :: "bytes \<Rightarrow> bytes \<Rightarrow> nat option" where
  "strings_Index [] v = (if v = [] then Some 0 else None)"
| "strings_Index (c # s) v = (if strings_HasPrefix (c # s) v then Some 0 else map_option Suc (strings_Index s v))"

fun occurrence_loop :: "bytes \<Rightarrow> bytes \<Rightarrow> nat \<Rightarrow> nat \<Rightarrow> nat option" where
  "occurrence_loop text val 0 offset = map_option (\<lambda>i. offset + i) (strings_Index (drop offset text) val)"
| "occurrence_loop text val (Suc n) offset =
     (case strings_Index (drop offset text) val of
        None \<Rightarrow> None
      | Some i \<Rightarrow> occurrence_loop text val n (offset + i + length val))"

definition occurrenceIndex :: "bytes \<Rightarrow> bytes \<Rightarrow> int \<Rightarrow> nat option" where
  "occurrenceIndex text val occurrence = (if occurrence < 0 then None else occurrence_loop text val (nat occurrence) 0)"

record reliabilityExpected =
  re_Type :: bytes
  re_Value :: bytes
  re_Occurrence :: int

record reliabilityEntry =
  rl_ID :: bytes
  rl_Text :: bytes
  rl_Expected :: "reliabilityExpected list"

fun reliability_spans :: "bytes \<Rightarrow> reliabilityExpected list \<Rightarrow> error + MaskSpan list" where
  "reliability_spans text [] = Inr []"
| "reliability_spans text (x # xs) =
     (if re_Type x \<notin> set supportedMaskSpanTypes \<or> re_Value x = [] \<or> re_Occurrence x < 0
      then Inl (ErrText ''invalid reliability expectation'')
      else
        (case occurrenceIndex text (re_Value x) (re_Occurrence x) of
           None \<Rightarrow> Inl (ErrText ''reliability expectation not found'')
         | Some start \<Rightarrow>
             (case reliability_spans text xs of
                Inl e \<Rightarrow> Inl e
              | Inr ss \<Rightarrow> Inr (\<lparr>sp_Type = re_Type x, sp_Start = int start, sp_End = int (start + length (re_Value x))\<rparr> # ss))))"

text \<open>
  The fixture and the categories it covers. The order that \<^verbatim>\<open>sort.Slice\<close> gives spans with the same start makes no
  difference, because the validation refuses them.
\<close>

definition reliabilityFixture :: "reliabilityEntry \<Rightarrow> bytes list \<Rightarrow> error + MaskFixture \<times> bytes list" where
  "reliabilityFixture e covered =
     (case reliability_spans (rl_Text e) (rl_Expected e) of
        Inl err \<Rightarrow> Inl err
      | Inr spans \<Rightarrow>
          (let f = \<lparr>fx_Name = rl_ID e, fx_Payload = rl_Text e, fx_ExpectedMask = [], fx_Spans = sort_key sp_Start spans,
             fx_allowUnchanged = False\<rparr> in
           case validateMaskFixture f of
             Some err \<Rightarrow> Inl (ErrText ''invalid reliability dataset entry'')
           | None \<Rightarrow> Inr (f, covered @ map re_Type (rl_Expected e))))"

definition checkReliabilityCoverage :: "bytes list \<Rightarrow> error option" where
  "checkReliabilityCoverage covered =
     (if list_all (\<lambda>t. t \<in> set covered) supportedMaskSpanTypes then None
      else Some (ErrText ''reliability dataset misses categories''))"

text \<open>\<^verbatim>\<open>bytes.TrimSpace\<close>.\<close>

definition bytes_TrimSpace :: "bytes \<Rightarrow> bytes" where
  "bytes_TrimSpace s =
     (let space = (\<lambda>(r, b). unicode_IsSpace r) in concat (map snd (rev (dropWhile space (rev (dropWhile space (chunks s)))))))"

fun reliability_lines ::
  "(bytes \<Rightarrow> reliabilityEntry option) \<Rightarrow> bytes list \<Rightarrow> bytes list \<Rightarrow> bytes list \<Rightarrow> error + MaskFixture list \<times> bytes list"
where
  "reliability_lines decode [] seen covered = Inr ([], covered)"
| "reliability_lines decode (l # ls) seen covered =
     (if bytes_TrimSpace l = [] then reliability_lines decode ls seen covered
      else
        (case decode (bytes_TrimSpace l) of
           None \<Rightarrow> Inl (ErrText ''invalid reliability dataset line'')
         | Some e \<Rightarrow>
             if rl_Expected e = [] then reliability_lines decode ls seen covered
             else if rl_ID e = [] \<or> rl_Text e = [] \<or> rl_ID e \<in> set seen then Inl (ErrText ''invalid reliability dataset entry'')
             else
               (case reliabilityFixture e covered of
                  Inl err \<Rightarrow> Inl err
                | Inr (f, covered) \<Rightarrow>
                    (case reliability_lines decode ls (rl_ID e # seen) covered of
                       Inl err \<Rightarrow> Inl err
                     | Inr (fs, covered) \<Rightarrow> Inr (f # fs, covered)))))"

definition readReliabilityDataset :: "bytes option \<Rightarrow> error + bytes" where
  "readReliabilityDataset file =
     (case file of
        None \<Rightarrow> Inl (ErrText ''open'')
      | Some raw \<Rightarrow>
          if length raw > maxMaskDatasetSize then Inl (ErrText ''reliability dataset exceeds 32 MiB'') else Inr raw)"

definition LoadReliabilityDataset ::
  "bytes option \<Rightarrow> (bytes \<Rightarrow> reliabilityEntry option) \<Rightarrow> (bytes \<Rightarrow> bytes) \<Rightarrow> error + MaskFixture list \<times> bytes"
where
  "LoadReliabilityDataset file decode sum256 =
     (case readReliabilityDataset file of
        Inl e \<Rightarrow> Inl e
      | Inr raw \<Rightarrow>
          (case reliability_lines decode (strings_Split raw (CHR 0x0A)) [] [] of
             Inl e \<Rightarrow> Inl e
           | Inr (entries, covered) \<Rightarrow>
               if entries = [] then Inl (ErrText ''reliability dataset has no positive entries'')
               else
                 (case checkReliabilityCoverage covered of
                    Some e \<Rightarrow> Inl e
                  | None \<Rightarrow> Inr (entries, hex_encode (sum256 raw)))))"

section \<open>Accumulation\<close>

text \<open>The lock makes each call one step.\<close>

record qualityAccumulator =
  qa_count :: int
  qa_sum :: rat
  qa_max :: rat
  qa_categories :: "bytes \<rightharpoonup> int"

fun record_types :: "bytes list \<Rightarrow> MaskSpan list \<Rightarrow> (bytes \<rightharpoonup> int) \<Rightarrow> bytes \<rightharpoonup> int" where
  "record_types seen [] m = m"
| "record_types seen (s # ss) m =
     (if sp_Type s \<in> set seen then record_types seen ss m
      else record_types (sp_Type s # seen) ss
        (m(sp_Type s \<mapsto> (case m (sp_Type s) of None \<Rightarrow> 0 | Some n \<Rightarrow> n) + 1)))"

definition recordCategories :: "MaskSpan list \<Rightarrow> qualityAccumulator \<Rightarrow> qualityAccumulator" where
  "recordCategories spans q = q\<lparr>qa_categories := record_types [] spans (qa_categories q)\<rparr>"

definition record_distance :: "rat \<Rightarrow> MaskSpan list \<Rightarrow> qualityAccumulator \<Rightarrow> qualityAccumulator" where
  "record_distance d spans q =
     recordCategories spans
       (q\<lparr>qa_count := qa_count q + 1, qa_sum := qa_sum q + d, qa_max := (if d > qa_max q then d else qa_max q)\<rparr>)"

definition accumulator_snapshot :: "qualityAccumulator \<Rightarrow> int \<times> rat \<times> rat \<times> (bytes \<rightharpoonup> int)" where
  "accumulator_snapshot q =
     (qa_count q, if qa_count q > 0 then qa_sum q / rat_of_int (qa_count q) else 0, qa_max q, qa_categories q)"

section \<open>Properties\<close>

text \<open>
  C29. The optimised distance is the Levenshtein distance capped at the limit: trimming common ends, the early answers
  and the band of two reused rows change nothing, and no index is out of range.
\<close>

theorem levenshtein_exact:
  assumes "0 \<le> limit"
  shows "levenshteinAtMost left right limit = Some (min (int (distance left right)) limit)"
  using assms by (rule levenshtein_ok)

lemma levenshtein_exact_witness:
  "levenshteinAtMost [1, 2, 3] [4, 2, 3, 5] 9 = Some 2"
  using levenshtein_exact [of 9 "[1, 2, 3]" "[4, 2, 3, 5]"] by simp

lemma span_budget_nonneg: "0 \<le> span_budget f"
  by (auto simp: span_budget_def intro!: sum_list_nonneg)

lemma valid_runes_inject: "valid_string s \<Longrightarrow> valid_string t \<Longrightarrow> runes s = runes t \<longleftrightarrow> s = t"
  using of_runes_runes by metis

lemma quality_distance:
  assumes "NormalizedSpanLevenshtein f actual = Some (Inr q)"
  shows "0 \<le> q \<and> q \<le> 1 \<and> (q = 0 \<longleftrightarrow> actual = fx_ExpectedMask f) \<and>
    q = min 1 (rat_of_nat (distance (runes (fx_ExpectedMask f)) (runes actual)) / rat_of_int (span_budget f))"
proof -
  let ?b = "span_budget f" and ?d = "int (distance (runes (fx_ExpectedMask f)) (runes actual))"
  have l: "levenshteinAtMost (runes (fx_ExpectedMask f)) (runes actual) ?b = Some (min ?d ?b)"
    using span_budget_nonneg by (rule levenshtein_ok)
  have v: "validateMaskFixture f = None" "valid_string actual" "?b \<noteq> 0" and q: "q = rat_of_int (min ?d ?b) / rat_of_int ?b"
    using assms l by (auto simp: NormalizedSpanLevenshtein_def split: option.splits if_splits)
  have b: "0 < ?b" using v(3) span_budget_nonneg [of f] by simp
  have "valid_string (fx_ExpectedMask f)" using v(1) by (auto simp: validateMaskFixture_def split: if_splits)
  then have eq: "actual = fx_ExpectedMask f \<longleftrightarrow> ?d = 0"
    using valid_runes_inject [OF v(2), of "fx_ExpectedMask f"] distance_zero [of "runes (fx_ExpectedMask f)" "runes actual"] by auto
  have "q = min 1 (rat_of_int ?d / rat_of_int ?b)"
  proof (cases "?d \<le> ?b")
    case True
    then show ?thesis using q b by (simp add: min_def)
  next
    case False
    then have "1 \<le> rat_of_int ?d / rat_of_int ?b" using b by (simp add: le_divide_eq)
    then show ?thesis using q b False by (simp add: min_def)
  qed
  then show ?thesis using eq b by (auto simp: min_def divide_eq_0_iff)
qed

text \<open>
  The measure of masks never panics, and when it gives a number, this is the number of edited runes per annotated
  rune, capped at 1; it is 0 exactly for the expected mask.
\<close>

theorem quality_distance_exact:
  "NormalizedSpanLevenshtein f actual \<noteq> None \<and>
   (\<forall>q. NormalizedSpanLevenshtein f actual = Some (Inr q) \<longrightarrow> 0 \<le> q \<and> q \<le> 1 \<and> (q = 0 \<longleftrightarrow> actual = fx_ExpectedMask f) \<and>
     q = min 1 (rat_of_nat (distance (runes (fx_ExpectedMask f)) (runes actual)) / rat_of_int (span_budget f)))"
proof -
  have "NormalizedSpanLevenshtein f actual \<noteq> None"
    using levenshtein_ok [OF span_budget_nonneg] by (auto simp: NormalizedSpanLevenshtein_def split: option.splits)
  then show ?thesis using quality_distance by blast
qed

definition sample_fixture :: MaskFixture where
  "sample_fixture = \<lparr>fx_Name = ''n'', fx_Payload = ''77'', fx_ExpectedMask = ''*7'',
     fx_Spans = [\<lparr>sp_Type = TypeCVV, sp_Start = 0, sp_End = 2\<rparr>], fx_allowUnchanged = False\<rparr>"

lemma sample_fixture_distance: "NormalizedSpanLevenshtein sample_fixture ''77'' = Some (Inr (1 / 2))"
proof -
  have "rune_start (CHR ''7'')" by code_simp
  then have v: "validateMaskFixture sample_fixture = None"
    by (simp add: validateMaskFixture_def sample_fixture_def four_mib_def supportedMaskSpanTypes_def AllTypes_def byte_def)
  have "span_budget sample_fixture = 2" by code_simp
  moreover have "runes ''*7'' = [0x2A, 0x37]" "runes ''77'' = [0x37, 0x37]" by code_simp+
  then have "levenshteinAtMost (runes ''*7'') (runes ''77'') 2 = Some 1" using levenshtein_ok [of 2] by simp
  moreover have "valid_string ''77''" by (simp add: byte_def)
  ultimately show ?thesis using v by (simp add: NormalizedSpanLevenshtein_def sample_fixture_def)
qed

lemma quality_distance_exact_witness:
  "(1 / 2 :: rat) = min 1 (rat_of_nat (distance (runes (fx_ExpectedMask sample_fixture)) (runes ''77'')) / rat_of_int (span_budget sample_fixture))"
  using quality_distance_exact [of sample_fixture "''77''"] sample_fixture_distance by blast

end
