(* ===== verification/Startup.thy ===== *)
theory Startup
  imports Config_Manager All_Detectors Redis Provider Quality
begin

text \<open>
  \<^verbatim>\<open>cmd/proxy/main.go\<close>: how the process is put together. The components are the ones of the other theories; what
  the standard library and the clients of other services give is a record of parameters. The connection pool of the
  Redis client, the metrics of that pool, the listener and the goroutines have no counterpart: what the two loops do
  in the background is a function of what they see.
\<close>

section \<open>Parameters and options\<close>

record 'a platform =
  pf_env :: environ
  pf_yaml :: yaml_decoder
  pf_crypto :: crypto
  pf_sum256 :: "bytes \<Rightarrow> bytes"
  pf_hmac :: "bytes \<Rightarrow> bytes \<Rightarrow> bytes"
  pf_url :: "bytes \<Rightarrow> url option"
  pf_kubernetes :: "error + 'a TTLStore_ext k8s_client"
  pf_redis :: "StoreConfig \<Rightarrow> 'a TTLStore_scheme redis_client"
  pf_http :: "int \<Rightarrow> 'a TTLStore_scheme http_client"
  pf_Listen :: "bytes \<Rightarrow> error option"

record 'a runOptions =
  ro_configPath :: bytes
  ro_source :: "'a TTLStore_ext source option"
  ro_poll :: int

definition deploymentProfileLocal :: bytes where "deploymentProfileLocal = ''local''"
definition deploymentProfileProduction :: bytes where "deploymentProfileProduction = ''production''"

section \<open>The source of the configuration\<close>

text \<open>\<^verbatim>\<open>cmp.Or\<close> of a variable and its default.\<close>

definition getenv_or :: "environ \<Rightarrow> bytes \<Rightarrow> bytes \<Rightarrow> bytes" where
  "getenv_or env name fallback = (if env_Getenv env name = [] then fallback else env_Getenv env name)"

definition defaultNamespace :: "environ \<Rightarrow> bytes" where
  "defaultNamespace env =
     (case env_ReadFile env ''/var/run/secrets/kubernetes.io/serviceaccount/namespace'' of
        None \<Rightarrow> []
      | Some data \<Rightarrow> bytes_TrimSpace data)"

definition kubernetesSourceLocation :: "environ \<Rightarrow> bytes \<times> bytes \<times> bytes" where
  "kubernetesSourceLocation env =
     (getenv_or env ''ALFAGEN_CONFIG_NAMESPACE'' (defaultNamespace env),
      getenv_or env ''ALFAGEN_CONFIG_SECRET'' ''backend-config'',
      getenv_or env ''ALFAGEN_CONFIG_KEY'' ''config.json'')"

definition NewInClusterSecretSource ::
  "error + 'a k8s_client \<Rightarrow> bytes \<Rightarrow> bytes \<Rightarrow> bytes \<Rightarrow> error + 'a kubernetesSecretSource"
where
  "NewInClusterSecretSource cluster namespace name secret_key =
     (case cluster of Inl e \<Rightarrow> Inl e | Inr client \<Rightarrow> NewKubernetesSecretSource (Some client) namespace name secret_key)"

definition buildSource :: "'a platform \<Rightarrow> 'a runOptions \<Rightarrow> error + 'a TTLStore_ext source \<times> int" where
  "buildSource pf opts =
     (case ro_source opts of
        Some src \<Rightarrow>
          if ro_poll opts \<le> 0 then Inl (ErrText ''config: poll interval must be positive'') else Inr (src, ro_poll opts)
      | None \<Rightarrow>
          (let env = pf_env pf; sourceMode = getenv_or env ''ALFAGEN_CONFIG_SOURCE'' ''file'' in
           case env_ParseDuration env (getenv_or env ''ALFAGEN_CONFIG_POLL'' ''5s'') of
             None \<Rightarrow> Inl (ErrText ''config: invalid ALFAGEN_CONFIG_POLL'')
           | Some poll \<Rightarrow>
               if sourceMode = ''file'' then
                 Inr (fileSource_Read env (getenv_or env ''ALFAGEN_CONFIG_FILE'' (ro_configPath opts)), poll)
               else if sourceMode = ''kubernetes'' then
                 (case kubernetesSourceLocation env of
                    (namespace, name, secret_key) \<Rightarrow>
                      (case NewInClusterSecretSource (pf_kubernetes pf) namespace name secret_key of
                         Inl e \<Rightarrow> Inl e
                       | Inr src \<Rightarrow> Inr (Secret_Read src, poll)))
               else Inl (ErrText ''config: invalid ALFAGEN_CONFIG_SOURCE'')))"

section \<open>The production gate\<close>

fun production_loop :: "SystemConfig list \<Rightarrow> nat \<Rightarrow> error + nat" where
  "production_loop [] n = Inr n"
| "production_loop (s # ss) n =
     (if \<not> system_enabled s then production_loop ss n
      else if sy_APIKey s \<noteq> [] then Inl (ErrText ''config: production forbids a literal api_key for system'')
      else if sy_AllowAnonymous s then
        (if sy_APIKeyFile s \<noteq> [] then Inl (ErrText ''config: production anonymous system must not configure api_key_file'')
         else production_loop ss (Suc n))
      else if sy_APIKeyFile s = [] then Inl (ErrText ''config: production requires a file-backed api_key for system'')
      else production_loop ss (Suc n))"

definition validateProductionSystems :: "SystemConfig list \<Rightarrow> error option" where
  "validateProductionSystems systems =
     (case production_loop systems 0 of
        Inl e \<Rightarrow> Some e
      | Inr n \<Rightarrow> if n = 0 then Some (ErrText ''config: production requires at least one enabled system'') else None)"

definition validateDeploymentProfile :: "environ \<Rightarrow> Config \<Rightarrow> error option" where
  "validateDeploymentProfile env cfg =
     (let profile = getenv_or env ''ALFAGEN_DEPLOYMENT_PROFILE'' deploymentProfileLocal; sec = cf_Security cfg in
      if profile \<noteq> deploymentProfileLocal \<and> profile \<noteq> deploymentProfileProduction
      then Some (ErrText ''config: invalid ALFAGEN_DEPLOYMENT_PROFILE'')
      else if profile \<noteq> deploymentProfileProduction then None
      else if cf_Runtime cfg \<noteq> RuntimeProcessOnly then Some (ErrText ''config: production requires runtime.mode=process_only'')
      else if st_Mode (cf_Store cfg) \<noteq> ''redis'' then Some (ErrText ''config: production requires store.mode=redis'')
      else if sec_ActiveKeyID sec = [] then Some (ErrText ''config: production requires an active encryption key'')
      else if opt_list (sec_EncryptionKeys sec) \<noteq> [] then Some (ErrText ''config: production forbids literal encryption keys'')
      else if map_of (opt_list (sec_EncryptionKeyFiles sec)) (sec_ActiveKeyID sec) = None
      then Some (ErrText ''config: production requires a file-backed active encryption key'')
      else validateProductionSystems (cf_Systems cfg))"

section \<open>Storage\<close>

fun decode_keys :: "(bytes \<times> bytes) list \<Rightarrow> error + (bytes \<times> bytes) list" where
  "decode_keys [] = Inr []"
| "decode_keys ((k, v) # ks) =
     (case DecodeKey v of
        Inl e \<Rightarrow> Inl (ErrText ''encryption key'')
      | Inr raw \<Rightarrow> (case decode_keys ks of Inl e \<Rightarrow> Inl e | Inr rest \<Rightarrow> Inr ((k, raw) # rest)))"

definition buildCodec :: "'a platform \<Rightarrow> Config \<Rightarrow> error + Codec" where
  "buildCodec pf cfg =
     (case ResolvedEncryptionKeys (pf_env pf) cfg of
        Inl e \<Rightarrow> Inl e
      | Inr resolved \<Rightarrow>
          (case decode_keys resolved of
             Inl e \<Rightarrow> Inl e
           | Inr keys \<Rightarrow> NewCodec (pf_crypto pf) (sec_ActiveKeyID (cf_Security cfg)) keys))"

record 'a components =
  cm_store :: "'a TTLStore_scheme store_ops"
  cm_memoryStore :: bool
  cm_redisClient :: "'a TTLStore_scheme redis_client option"

text \<open>The memory store is part of the world; a new one is empty.\<close>

definition new_memory_store :: "int \<Rightarrow> 'a TTLStore_scheme \<Rightarrow> 'a TTLStore_scheme" where
  "new_memory_store ttl w = w\<lparr>ts_items := Map.empty, ts_ttl := ttl\<rparr>"

definition buildStorage :: "'a platform \<Rightarrow> Config \<Rightarrow> 'a TTLStore_scheme \<Rightarrow> (error + 'a components) \<times> 'a TTLStore_scheme" where
  "buildStorage pf cfg w =
     (let st = cf_Store cfg in
      if st_Mode st = ''redis'' then
        (case buildCodec pf cfg of
           Inl e \<Rightarrow> (Inl e, w)
         | Inr codec \<Rightarrow>
             (let client = pf_redis pf st in
              case rc_Ping client w of
                (Some e, w) \<Rightarrow> (Inl (ErrText ''redis unavailable''), w)
              | (None, w) \<Rightarrow>
                  (case NewRedisStore (Some client) (Some codec) (st_TTL st) (st_KeyPrefix st) of
                     Inl e \<Rightarrow> (Inl e, w)
                   | Inr s \<Rightarrow>
                       (Inr \<lparr>cm_store = Redis_ops (pf_crypto pf) s, cm_memoryStore = False, cm_redisClient = Some client\<rparr>, w))))
      else (Inr \<lparr>cm_store = TTL_ops, cm_memoryStore = True, cm_redisClient = None\<rparr>, new_memory_store (st_TTL st) w))"

section \<open>The service\<close>

text \<open>The processor as the interface that the server calls; its methods do not panic.\<close>

definition processor_interface :: "'a Processor \<Rightarrow> 'a world_scheme PIIProcessor" where
  "processor_interface p =
     \<lparr>pp_Mask = (\<lambda>scope text w. case Mask p scope text w of (r, w) \<Rightarrow> (Some r, w)),
      pp_Demask = (\<lambda>scope text w. case Demask p scope text w of (r, w) \<Rightarrow> (Some r, w)),
      pp_Process = (\<lambda>scope text w. case Process p scope text w of (r, w) \<Rightarrow> (Some r, w))\<rparr>"

record 'a service_parts = "'a components" +
  cm_proc :: "'a TTLStore_ext Processor"
  cm_srv :: "'a TTLStore_scheme Server"
  cm_provider :: "'a TTLStore_scheme HTTPProvider option"

definition server_config :: "Config \<Rightarrow> ServerConfig" where
  "server_config cfg =
     (let s = cf_Server cfg; enableGenerate = (cf_Runtime cfg = RuntimeTestGenerate) in
      \<lparr>sc_MaxBodyBytes = ss_MaxBodyBytes s, sc_ConcurrencyLimit = ss_ConcurrencyLimit s, sc_RequestTimeout = ss_RequestTimeout s,
       sc_RateLimitRPS = ss_RateLimitRPS s, sc_RateLimitBurst = ss_RateLimitBurst s,
       sc_AllowedModels = (if enableGenerate then Option.bind (cf_Provider cfg) pv_Models else None),
       sc_EnableGenerate = enableGenerate, sc_Draining = False\<rparr>)"

text \<open>
  \<^const>\<open>None\<close> is the panic of the access to a provider that is not configured, which the validation excludes. The
  metrics observe context decisions too.
\<close>

definition buildComponents ::
  "'a platform \<Rightarrow> Config \<Rightarrow> 'a TTLStore_scheme \<Rightarrow> (error + 'a service_parts) option \<times> 'a TTLStore_scheme"
where
  "buildComponents pf cfg w =
     (case buildStorage pf cfg w of
        (Inl e, w) \<Rightarrow> (Some (Inl e), w)
      | (Inr comps, w) \<Rightarrow>
          (case CustomDetectors (pf_env pf) cfg of
             Inl e \<Rightarrow> Some (Inl e)
           | Inr customDetectors \<Rightarrow>
               (let detReg = NewRegistry (All @ map custom_detector customDetectors);
                    proc = \<lparr>pr_store = cm_store comps, pr_registry = detReg, pr_metrics = Some True,
                      pr_sum256 = pf_sum256 pf, pr_hmac = pf_hmac pf\<rparr>;
                    srv = NewServer (Some (processor_interface proc)) (Some (Check (Some (cm_store comps)) (Some detReg)))
                      (server_config cfg);
                    parts = \<lparr>cm_store = cm_store comps, cm_memoryStore = cm_memoryStore comps,
                      cm_redisClient = cm_redisClient comps, cm_proc = proc, cm_srv = srv, cm_provider = None\<rparr>
                in
                if cf_Runtime cfg \<noteq> RuntimeTestGenerate then Some (Inr parts)
                else
                  (case cf_Provider cfg of
                     None \<Rightarrow> None
                   | Some pv \<Rightarrow>
                       (case NewHTTPProvider (pf_url pf) (pv_BaseURL pv) (Some (pf_http pf (pv_Timeout pv))) (opt_list (pv_Models pv)) of
                          Inl e \<Rightarrow> Some (Inl e)
                        | Inr provider \<Rightarrow>
                            Some (Inr (parts\<lparr>cm_provider := Some provider,
                              cm_srv := ConfigureProvider (LLMProvider_of (pf_url pf) provider) srv\<rparr>))))), w))"

record 'a service =
  sr_manager :: Manager
  sr_parts :: "'a service_parts"

text \<open>
  The server for a state of the manager, which resolves the systems, and of the flag that stops new requests.
\<close>

definition serving :: "'a service \<Rightarrow> Manager \<Rightarrow> bool \<Rightarrow> 'a TTLStore_scheme Server" where
  "serving sr m drain =
     (let srv = cm_srv (sr_parts sr) in
      ConfigureSystems (Manager_ResolveSystem m) (cf_Default (Initial (sr_manager sr)))
        (srv\<lparr>sv_config := (sv_config srv)\<lparr>sc_Draining := drain\<rparr>\<rparr>))"

text \<open>Everything that \<^verbatim>\<open>run\<close> does before it serves.\<close>

definition start_service ::
  "'a platform \<Rightarrow> 'a runOptions \<Rightarrow> 'a TTLStore_scheme \<Rightarrow> (error + 'a service) option \<times> 'a TTLStore_scheme"
where
  "start_service pf opts w =
     (case buildSource pf opts of
        Inl e \<Rightarrow> (Some (Inl e), w)
      | Inr (src, poll) \<Rightarrow>
          (case NewManagerFromSource (pf_yaml pf) (pf_env pf) src poll (Some (\<lambda>_. 0)) w of
             (Inl e, _, w) \<Rightarrow> (Some (Inl e), w)
           | (Inr mgr, _, w) \<Rightarrow>
               (let cfg = Initial mgr in
                case validateDeploymentProfile (pf_env pf) cfg of
                  Some e \<Rightarrow> (Some (Inl e), w)
                | None \<Rightarrow>
                    (case buildComponents pf cfg w of
                       (None, w) \<Rightarrow> (None, w)
                     | (Some (Inl e), w) \<Rightarrow> (Some (Inl e), w)
                     | (Some (Inr parts), w) \<Rightarrow>
                         (case pf_Listen pf (ss_Addr (cf_Server cfg)) of
                            Some e \<Rightarrow> (Some (Inl e), w)
                          | None \<Rightarrow> (Some (Inr \<lparr>sr_manager = mgr, sr_parts = parts\<rparr>), w))))))"

text \<open>The loop that cleans the memory store: before each tick something else happens; \<^const>\<open>None\<close> is the end of the context.\<close>

fun cleanupMemoryStore ::
  "bool \<Rightarrow> ('a TTLStore_scheme \<Rightarrow> 'a TTLStore_scheme) option list \<Rightarrow> 'a TTLStore_scheme \<Rightarrow> 'a TTLStore_scheme"
where
  "cleanupMemoryStore False events w = w"
| "cleanupMemoryStore True [] w = w"
| "cleanupMemoryStore True (None # events) w = w"
| "cleanupMemoryStore True (Some others # events) w = cleanupMemoryStore True events (TTL_Cleanup (others w))"

text \<open>
  How serving ends: by itself, with what \<^verbatim>\<open>Serve\<close> returned, or by a signal. The answer has the steps that are taken,
  in order; the last argument is what \<^verbatim>\<open>Shutdown\<close> returns.
\<close>

datatype serve_end = ServeFailed error | ErrServerClosed | ServeReturned | Signalled

datatype shutdown_step = LogSignal | StoreDraining | Wait int | Shutdown int | LogStopped

definition serveUntilStopped :: "ServerSettings \<Rightarrow> serve_end \<Rightarrow> error option \<Rightarrow> error option \<times> shutdown_step list" where
  "serveUntilStopped settings fin shutdown =
     (case fin of
        ServeFailed e \<Rightarrow> (Some e, [])
      | _ \<Rightarrow>
          (let steps = (if fin = Signalled then [LogSignal, StoreDraining, Wait (ss_DrainDelay settings)] else [])
                 @ [Shutdown (ss_ShutdownTimeout settings)] in
           case shutdown of
             Some e \<Rightarrow> (Some e, steps)
           | None \<Rightarrow> (None, steps @ [LogStopped])))"

definition run_service ::
  "'a platform \<Rightarrow> 'a runOptions \<Rightarrow> serve_end \<Rightarrow> error option \<Rightarrow> 'a TTLStore_scheme \<Rightarrow>
   (error option \<times> shutdown_step list) option \<times> 'a TTLStore_scheme"
where
  "run_service pf opts fin shutdown w =
     (case start_service pf opts w of
        (None, w) \<Rightarrow> (None, w)
      | (Some (Inl e), w) \<Rightarrow> (Some (Some e, []), w)
      | (Some (Inr sr), w) \<Rightarrow> (Some (serveUntilStopped (cf_Server (Initial (sr_manager sr))) fin shutdown), w))"

end
