(* ===== verification/Duplicate_Keys.thy ===== *)
theory Duplicate_Keys
  imports Config_Source
begin

text \<open>
  The check for duplicate keys of \<^theory_text>\<open>Config_Source\<close>: it returns for every input, and on a document of one value it
  accepts exactly the values in which no object has a name twice.
\<close>

section \<open>The check returns\<close>

lemma token_at_shorter: "token_at d = (Inr tok, d1) \<Longrightarrow> length (dec_rest d1) < length (dec_rest d)"
  by (auto simp: token_at_def open_delim_def close_delim_def split: list.splits option.splits if_splits
      dest!: skip_space_shorter unquote_shorter parse_json_shorter)

lemma dec_Token_shorter: "dec_Token d = (Inr tok, d1) \<Longrightarrow> length (dec_rest d1) < length (dec_rest d)"
proof (cases "skip_space (dec_rest d)")
  case (Cons c t)
  assume "dec_Token d = (Inr tok, d1)"
  then show ?thesis
    using skip_space_shorter [OF Cons] token_at_shorter [of d tok d1] token_at_shorter [of "d\<lparr>dec_state := st, dec_rest := t\<rparr>" tok d1 for st]
    by (fastforce simp: dec_Token_def Cons split: if_splits)
qed (simp add: dec_Token_def)

lemma check_shorter:
  "checkJSONValue n tok d = Some (Inr d1) \<Longrightarrow> length (dec_rest d1) \<le> length (dec_rest d)"
  "check_elements n d = Some (Inr d1) \<Longrightarrow> length (dec_rest d1) \<le> length (dec_rest d)"
  "checkJSONObject n seen d = Some (Inr d1) \<Longrightarrow> length (dec_rest d1) \<le> length (dec_rest d)"
proof (induction n arbitrary: tok seen d d1)
  case (Suc n)
  { case 1
    then show ?case using Suc.IH(2,3) by (auto split: if_splits) }
  { case 2
    have "length (dec_rest d1) \<le> length (dec_rest d)"
      if "dec_Token d = (Inr t, e)" "checkJSONValue n t e = Some (Inr e2)" "check_elements n e2 = Some (Inr d1)" for t e e2
      using dec_Token_shorter [OF that(1)] Suc.IH(1) [OF that(2)] Suc.IH(2) [OF that(3)] by simp
    then show ?case
      using 2 by (auto split: if_splits prod.splits sum.splits option.splits dest!: dec_Token_shorter) }
  { case 3
    have "length (dec_rest d1) \<le> length (dec_rest d)"
      if "dec_Token d = (Inr k, e)" "dec_Token e = (Inr t, e2)" "checkJSONValue n t e2 = Some (Inr e3)"
        "checkJSONObject n seen' e3 = Some (Inr d1)" for k e t e2 e3 seen'
      using dec_Token_shorter [OF that(1)] dec_Token_shorter [OF that(2)] Suc.IH(1) [OF that(3)] Suc.IH(3) [OF that(4)] by simp
    then show ?case
      using 3 by (auto split: if_splits prod.splits sum.splits option.splits token.splits json.splits dest!: dec_Token_shorter) }
qed simp_all

lemma check_enough_fuel:
  "2 * length (dec_rest d) + 1 < n \<Longrightarrow> checkJSONValue n tok d \<noteq> None"
  "2 * length (dec_rest d) < n \<Longrightarrow> check_elements n d \<noteq> None"
  "2 * length (dec_rest d) < n \<Longrightarrow> checkJSONObject n seen d \<noteq> None"
proof (induction n arbitrary: tok seen d)
  case (Suc n)
  { case 1
    then have "check_elements n d \<noteq> None" "checkJSONObject n [] d \<noteq> None" by (intro Suc.IH(2,3); simp)+
    then show ?case by auto }
  { case 2
    have v: "checkJSONValue n t d1 \<noteq> None" if "dec_Token d = (Inr t, d1)" for t d1
      using dec_Token_shorter [OF that] 2 Suc.IH(1) by simp
    have e: "check_elements n d2 \<noteq> None"
      if "dec_Token d = (Inr t, d1)" "checkJSONValue n t d1 = Some (Inr d2)" for t d1 d2
      using dec_Token_shorter [OF that(1)] check_shorter(1) [OF that(2)] 2 Suc.IH(2) by simp
    show ?case using v e by (auto split: prod.splits sum.splits option.splits) }
  { case 3
    have v: "checkJSONValue n t d2 \<noteq> None" if "dec_Token d = (Inr k, d1)" "dec_Token d1 = (Inr t, d2)" for k d1 t d2
      using dec_Token_shorter [OF that(1)] dec_Token_shorter [OF that(2)] 3 Suc.IH(1) by simp
    have e: "checkJSONObject n seen' d3 \<noteq> None"
      if "dec_Token d = (Inr k, d1)" "dec_Token d1 = (Inr t, d2)" "checkJSONValue n t d2 = Some (Inr d3)" for k d1 t d2 d3 seen'
      using dec_Token_shorter [OF that(1)] dec_Token_shorter [OF that(2)] check_shorter(1) [OF that(3)] 3 Suc.IH(3) by simp
    show ?case
      using v e by (auto split: prod.splits sum.splits option.splits token.splits json.splits) (metis option.distinct(1))+ }
qed simp_all

lemma reject_enough_fuel: "2 * length (dec_rest d) < n \<Longrightarrow> \<exists>r. reject_loop n d = Some r"
proof (induction n arbitrary: d)
  case (Suc n)
  have v: "checkJSONValue n t d1 \<noteq> None" if "dec_Token d = (Inr t, d1)" for t d1
    using dec_Token_shorter [OF that] Suc.prems by (intro check_enough_fuel) simp
  have l: "\<exists>r. reject_loop n d2 = Some r"
    if "dec_Token d = (Inr t, d1)" "checkJSONValue n t d1 = Some (Inr d2)" for t d1 d2
    using dec_Token_shorter [OF that(1)] check_shorter(1) [OF that(2)] Suc.prems Suc.IH by simp
  show ?case using v l by (auto split: prod.splits sum.splits option.splits token_error.splits)
qed simp

text \<open>
  C22. The check for duplicate keys returns for every input, also for one that is not JSON: each of its calls but the
  one for an opening bracket follows a token that has been read, so twice the length of the input bounds how deep
  they are nested.
\<close>

theorem reject_terminates: "\<exists>r. rejectDuplicateKeys data = Some r"
  unfolding rejectDuplicateKeys_def using reject_enough_fuel [of "NewDecoder data"]
  by (simp add: NewDecoder_def del: reject_loop.simps)

section \<open>The check is exact\<close>

fun unique_keys :: "json \<Rightarrow> bool" where
  "unique_keys (JArray vs) = (\<forall>v \<in> set vs. unique_keys v)"
| "unique_keys (JObject ms) = (distinct (map (of_runes \<circ> fst) ms) \<and> (\<forall>m \<in> set ms. unique_keys (snd m)))"
| "unique_keys _ = True"

text \<open>The numbers of the value, at any depth, can be floating point numbers.\<close>

fun numbers_fit :: "json \<Rightarrow> bool" where
  "numbers_fit (JArray vs) = (\<forall>v \<in> set vs. numbers_fit v)"
| "numbers_fit (JObject ms) = (\<forall>m \<in> set ms. numbers_fit (snd m))"
| "numbers_fit (JNumber ds) = number_fits ds"
| "numbers_fit _ = True"

text \<open>Both at once, for the induction.\<close>

fun accepted :: "json \<Rightarrow> bool" where
  "accepted (JArray vs) = (\<forall>v \<in> set vs. accepted v)"
| "accepted (JObject ms) = (distinct (map (of_runes \<circ> fst) ms) \<and> (\<forall>m \<in> set ms. accepted (snd m)))"
| "accepted v = scalar_fits v"

lemma accepted_iff: "accepted v \<longleftrightarrow> unique_keys v \<and> numbers_fit v"
  by (induction v rule: accepted.induct) (auto simp: scalar_fits_def)

text \<open>What the check does with the next value, and what comes of it: the decoder behind the value, or an error.\<close>

definition check_next :: "nat \<Rightarrow> decoder \<Rightarrow> (error + decoder) option" where
  "check_next m d =
     (case token_at d of (Inl e, d1) \<Rightarrow> Some (Inl errParseJSON) | (Inr tok, d1) \<Rightarrow> checkJSONValue m tok d1)"

definition outcome :: "bool \<Rightarrow> decoder \<Rightarrow> (error + decoder) option \<Rightarrow> bool" where
  "outcome ok d r \<longleftrightarrow> (if ok then r = Some (Inr d) else \<exists>e. r = Some (Inl e))"

text \<open>The elements of an array, or the members of an object, that are left begin at \<open>s\<close>.\<close>

definition items_at :: "token_state \<Rightarrow> token_state \<Rightarrow> decoder \<Rightarrow> rune list \<Rightarrow> bool" where
  "items_at start comma d s \<longleftrightarrow>
     dec_state d = start \<and> dec_rest d = s \<or> dec_state d = comma \<and> skip_space (dec_rest d) = 0x2C # s"

lemma items_at_length: "items_at start comma d s \<Longrightarrow> length s \<le> length (dec_rest d)"
  using skip_space_shorter [of "dec_rest d" "0x2C" s] by (auto simp: items_at_def)

lemma parse_value_head:
  assumes "parse_value n d s = Some (v, t)"
  obtains c u where "skip_space s = c # u" "c \<noteq> 0x5D" "c \<noteq> 0x7D"
proof -
  obtain c u where c: "skip_space s = c # u" using assms by (cases n) (auto split: list.splits)
  have none: "scan_number (b # u) = None" if "b = 0x5D \<or> b = 0x7D" for b
    using that by (auto simp: scan_number_def scan_integer_def scan_digits_def is_digit_rune_def)
  have "c \<noteq> 0x5D" "c \<noteq> 0x7D" using assms c none [of c] by (cases n; auto)+
  with c show ?thesis by (rule that)
qed

lemma parse_scalar:
  assumes "parse_value (Suc n) d s = Some (v, t)" and "skip_space s = r # u" and "r \<noteq> 0x7B" and "r \<noteq> 0x5B"
  shows "parse_json (r # u) = Some (v, t)" and "accepted v \<longleftrightarrow> scalar_fits v"
proof -
  have r: "skip_space (r # u) = r # u" using assms(2) by (metis skip_space_idem)
  show "parse_json (r # u) = Some (v, t)"
    using assms r by (simp add: parse_json_def split del: if_split cong: if_cong)
  show "accepted v \<longleftrightarrow> scalar_fits v" using assms by (auto split: if_splits dest: expect_value)
qed

lemma close_array:
  assumes "skip_space (dec_rest d) = 0x5D # u" and "dec_state d \<in> {ArrayStart, ArrayComma}" and "dec_stack d = st # stack"
  shows "check_elements (Suc m) d = Some (Inr (d\<lparr>dec_state := value_end st, dec_stack := stack, dec_rest := u\<rparr>))"
  using assms by (auto simp: dec_More_def dec_Token_def token_at_def close_delim_def)

lemma close_object:
  assumes "skip_space (dec_rest d) = 0x7D # u" and "dec_state d \<in> {ObjectStart, ObjectComma}" and "dec_stack d = st # stack"
  shows "checkJSONObject (Suc m) seen d = Some (Inr (d\<lparr>dec_state := value_end st, dec_stack := stack, dec_rest := u\<rparr>))"
  using assms by (auto simp: dec_More_def dec_Token_def token_at_def close_delim_def)

lemma check_element:
  assumes "items_at ArrayStart ArrayComma d s" and "parse_value n dd s = Some (v, t)"
  shows "\<exists>st \<in> {ArrayStart, ArrayValue}. check_elements (Suc m) d =
    (case check_next m (d\<lparr>dec_state := st, dec_rest := s\<rparr>) of
       None \<Rightarrow> None | Some (Inl e) \<Rightarrow> Some (Inl e) | Some (Inr d2) \<Rightarrow> check_elements m d2)"
proof (cases "dec_state d = ArrayStart")
  case True
  then have s: "dec_rest d = s" using assms(1) by (simp add: items_at_def)
  then have same: "d\<lparr>dec_state := ArrayStart, dec_rest := s\<rparr> = d" using True by simp
  have more: "dec_More d" by (rule parse_value_head [OF assms(2)]) (use s in \<open>simp add: dec_More_def\<close>)
  have "dec_Token d = token_at d" 
    using True by (cases "skip_space (dec_rest d)") (simp_all add: dec_Token_def, simp add: token_at_def)
  then have "check_elements (Suc m) d =
      (case check_next m d of None \<Rightarrow> None | Some (Inl e) \<Rightarrow> Some (Inl e) | Some (Inr d2) \<Rightarrow> check_elements m d2)"
    using more by (cases "token_at d"; cases "fst (token_at d)") (simp_all add: check_next_def)
  then show ?thesis using same by (intro bexI [of _ ArrayStart]) simp_all
next
  case False
  then have s: "dec_state d = ArrayComma" "skip_space (dec_rest d) = 0x2C # s" using assms(1) by (auto simp: items_at_def)
  then show ?thesis
    by (intro bexI [of _ ArrayValue]) (auto simp: check_next_def dec_More_def dec_Token_def split: prod.splits sum.splits)
qed

lemma check_member:
  assumes "items_at ObjectStart ObjectComma d s" and "skip_space s = 0x22 # q" and "unquote q = Some (name, t)"
    and "skip_space t = 0x3A # u"
  shows "checkJSONObject (Suc m) seen d =
    (if of_runes name \<in> set seen then Some (Inl (ErrText ''config: duplicate json key''))
     else
       (case check_next m (d\<lparr>dec_state := ObjectValue, dec_rest := u\<rparr>) of
          None \<Rightarrow> None | Some (Inl e) \<Rightarrow> Some (Inl e) | Some (Inr d2) \<Rightarrow> checkJSONObject m (of_runes name # seen) d2))"
proof -
  have more: "dec_More d" using assms(1,2) by (auto simp: items_at_def dec_More_def)
  have "read_key (dec_state d) (dec_rest d) = Some (name, t)"
    using assms(1-3) by (auto simp: read_key_def key_start_def items_at_def)
  then have key: "dec_Token d = (Inr (Scalar (JString name)), d\<lparr>dec_state := ObjectColon, dec_rest := t\<rparr>)"
    using assms(1) more by (intro Token_key) (auto simp: items_at_def)
  have "dec_Token (d\<lparr>dec_state := ObjectColon, dec_rest := t\<rparr>) = token_at (d\<lparr>dec_state := ObjectValue, dec_rest := u\<rparr>)"
    using assms(4) by (simp add: dec_Token_def)
  with more key show ?thesis by (auto simp: check_next_def split: prod.splits sum.splits)
qed

lemma check_exact:
  "parse_value n dd (dec_rest d) = Some (v, t) \<Longrightarrow> value_allowed (dec_state d) \<Longrightarrow> 2 * length (dec_rest d) \<le> m \<Longrightarrow>
    outcome (accepted v) (d\<lparr>dec_state := value_end (dec_state d), dec_rest := t\<rparr>) (check_next m d)"
  "parse_elements n dd s = Some (vs, t) \<Longrightarrow> items_at ArrayStart ArrayComma d s \<Longrightarrow> dec_stack d = st # stack \<Longrightarrow>
    2 * length (dec_rest d) < m \<Longrightarrow>
    outcome (\<forall>v \<in> set vs. accepted v) (d\<lparr>dec_state := value_end st, dec_stack := stack, dec_rest := t\<rparr>) (check_elements m d)"
  "parse_members n dd s = Some (ms, t) \<Longrightarrow> items_at ObjectStart ObjectComma d s \<Longrightarrow> dec_stack d = st # stack \<Longrightarrow>
    2 * length (dec_rest d) < m \<Longrightarrow>
    outcome (distinct (map (of_runes \<circ> fst) ms) \<and> (\<forall>b \<in> set ms. of_runes (fst b) \<notin> set seen \<and> accepted (snd b)))
      (d\<lparr>dec_state := value_end st, dec_stack := stack, dec_rest := t\<rparr>) (checkJSONObject m seen d)"
proof (induction n arbitrary: d dd s v vs ms t m st stack seen)
  case (Suc n)
  { case 1
    obtain r u where s: "skip_space (dec_rest d) = r # u" using 1(1) by (auto split: list.splits)
    obtain m' where m: "m = Suc m'" using 1(3) skip_space_shorter [OF s] by (cases m) auto
    have len: "2 * length u < m'" using 1(3) skip_space_shorter [OF s] m by simp
    let ?in = "\<lambda>st0. d\<lparr>dec_stack := dec_state d # dec_stack d, dec_state := st0, dec_rest := u\<rparr>"
    have out: "(?in st0)\<lparr>dec_state := e, dec_stack := dec_stack d, dec_rest := t\<rparr> = d\<lparr>dec_state := e, dec_rest := t\<rparr>" for st0 e
      by simp
    show ?case
    proof (cases "r = 0x7B \<or> r = 0x5B")
      case False
      then have r: "r \<noteq> 0x7B" "r \<noteq> 0x5B" "r \<noteq> 0x5D" "r \<noteq> 0x7D"
        using parse_value_head [OF 1(1)] s by (metis list.inject)+
      moreover have "\<not> (r = 0x22 \<and> dec_state d \<in> {ObjectStart, ObjectKey})" using 1(2) by (auto simp: value_allowed_def)
      ultimately have "token_at d = (if scalar_fits v then Inr (Scalar v) else Inl RangeError,
          d\<lparr>dec_state := value_end (dec_state d), dec_rest := t\<rparr>)"
        using parse_scalar(1) [OF 1(1) s] s 1(2) by (simp add: token_at_def) blast
      then show ?thesis using parse_scalar(2) [OF 1(1) s] r m by (simp add: check_next_def outcome_def)
    next
      case True
      obtain k where k: "m' = Suc k" using len by (cases m') auto
      obtain c x where c: "skip_space u = c # x" using 1(1) s True by (auto split: list.splits if_splits)
      show ?thesis
      proof (cases "r = 0x7B")
        case True
        have nx: "check_next m d = checkJSONObject m' [] (?in ObjectStart)"
          using s True 1(2) m by (simp add: check_next_def token_at_def open_delim_def)
        show ?thesis
        proof (cases "c = 0x7D")
          case brace: True
          then have "v = JObject []" "t = x" using 1(1) s True c by (auto split: if_splits)
          then show ?thesis
            using close_object [of "?in ObjectStart" x "dec_state d" "dec_stack d" k "[]"] brace c nx k by (simp add: outcome_def)
        next
          case False
          then obtain ms where ms: "parse_members n (dd - 1) u = Some (ms, t)" "v = JObject ms"
            using 1(1) s True c by (auto split: if_splits)
          show ?thesis
            using Suc.IH(3) [OF ms(1), of "?in ObjectStart" "dec_state d" "dec_stack d" m' "[]"] len nx ms(2)
            by (simp add: items_at_def comp_def)
        qed
      next
        case False
        then have r: "r = 0x5B" using True by simp
        have nx: "check_next m d = check_elements m' (?in ArrayStart)"
          using s r 1(2) m by (simp add: check_next_def token_at_def open_delim_def)
        show ?thesis
        proof (cases "c = 0x5D")
          case bracket: True
          then have "v = JArray []" "t = x" using 1(1) s r c by (auto split: if_splits)
          then show ?thesis
            using close_array [of "?in ArrayStart" x "dec_state d" "dec_stack d" k] bracket c nx k by (simp add: outcome_def)
        next
          case False
          then obtain vs where vs: "parse_elements n (dd - 1) u = Some (vs, t)" "v = JArray vs"
            using 1(1) s r c by (auto split: if_splits)
          show ?thesis
            using Suc.IH(2) [OF vs(1), of "?in ArrayStart" "dec_state d" "dec_stack d" m'] len nx vs(2)
            by (simp add: items_at_def)
        qed
      qed
    qed }
  { case 2
    obtain v t1 c u where v: "parse_value n dd s = Some (v, t1)" "skip_space t1 = c # u" "c = 0x2C \<or> c = 0x5D"
      and vs: "c = 0x2C \<Longrightarrow> \<exists>ws. parse_elements n dd u = Some (ws, t) \<and> vs = v # ws" "c = 0x5D \<Longrightarrow> vs = [v] \<and> t = u"
      using 2(1) by (auto split: option.splits list.splits if_splits)
    obtain m' where m: "m = Suc m'" using 2(4) by (cases m) auto
    obtain st0 where st0: "st0 \<in> {ArrayStart, ArrayValue}" and e: "check_elements m d =
      (case check_next m' (d\<lparr>dec_state := st0, dec_rest := s\<rparr>) of
         None \<Rightarrow> None | Some (Inl e) \<Rightarrow> Some (Inl e) | Some (Inr d2) \<Rightarrow> check_elements m' d2)"
      using check_element [OF 2(2) v(1), of m'] m by blast
    let ?d = "d\<lparr>dec_state := ArrayComma, dec_rest := t1\<rparr>"
    have len: "length t1 < length s" "2 * length s \<le> m'"
      using parse_shorter(1) [OF v(1)] items_at_length [OF 2(2)] 2(4) m by auto
    have o: "outcome (accepted v) ?d (check_next m' (d\<lparr>dec_state := st0, dec_rest := s\<rparr>))"
      using Suc.IH(1) [of dd "d\<lparr>dec_state := st0, dec_rest := s\<rparr>" v t1 m'] v(1) st0 len(2)
      by (auto simp: value_allowed_def value_end_def)
    show ?case
    proof (cases "accepted v")
      case False
      then show ?thesis using o e v(3) vs by (auto simp: outcome_def)
    next
      case True
      then have e: "check_elements m d = check_elements m' ?d" using o e by (simp add: outcome_def)
      show ?thesis
      proof (cases "c = 0x2C")
        case True
        then obtain ws where ws: "parse_elements n dd u = Some (ws, t)" "vs = v # ws" using vs(1) by blast
        have "items_at ArrayStart ArrayComma ?d u" using v(2) True by (simp add: items_at_def)
        from Suc.IH(2) [OF ws(1) this, of st stack m'] show ?thesis
          using \<open>accepted v\<close> ws(2) e 2(3) len by (simp add: outcome_def)
      next
        case False
        obtain k where "m' = Suc k" using len by (cases m') auto
        then show ?thesis
          using close_array [of ?d u st stack k] False \<open>accepted v\<close> v(2,3) vs(2) e 2(3) by (simp add: outcome_def)
      qed
    qed }
  { case 3
    obtain q name t0 k v t1 c u where key: "skip_space s = 0x22 # q" "unquote q = Some (name, t0)" "skip_space t0 = 0x3A # k"
      and v: "parse_value n dd k = Some (v, t1)" "skip_space t1 = c # u" "c = 0x2C \<or> c = 0x7D"
      and ms: "c = 0x2C \<Longrightarrow> \<exists>ns. parse_members n dd u = Some (ns, t) \<and> ms = (name, v) # ns" "c = 0x7D \<Longrightarrow> ms = [(name, v)] \<and> t = u"
      using 3(1) by (auto split: option.splits list.splits if_splits)
    obtain m' where m: "m = Suc m'" using 3(4) by (cases m) auto
    note e = check_member [OF 3(2) key, of m' seen]
    let ?d = "d\<lparr>dec_state := ObjectComma, dec_rest := t1\<rparr>"
    have len: "length t1 < length k" "2 * length k < m'"
      using parse_shorter(1) [OF v(1)] skip_space_shorter [OF key(1)] unquote_shorter [OF key(2)] skip_space_shorter [OF key(3)]
        items_at_length [OF 3(2)] 3(4) m by auto
    have o: "outcome (accepted v) ?d (check_next m' (d\<lparr>dec_state := ObjectValue, dec_rest := k\<rparr>))"
      using Suc.IH(1) [of dd "d\<lparr>dec_state := ObjectValue, dec_rest := k\<rparr>" v t1 m'] v(1) len(2)
      by (auto simp: value_allowed_def value_end_def)
    show ?case
    proof (cases "accepted v \<and> of_runes name \<notin> set seen")
      case False
      then show ?thesis using o e v(3) ms m by (auto simp: outcome_def)
    next
      case True
      then have e: "checkJSONObject m seen d = checkJSONObject m' (of_runes name # seen) ?d" using o e m by (simp add: outcome_def)
      show ?thesis
      proof (cases "c = 0x2C")
        case comma: True
        then obtain ns where ns: "parse_members n dd u = Some (ns, t)" "ms = (name, v) # ns" using ms(1) by blast
        have "items_at ObjectStart ObjectComma ?d u" using v(2) comma by (simp add: items_at_def)
        from Suc.IH(3) [OF ns(1) this, of st stack m' "of_runes name # seen"] show ?thesis
          using True ns(2) e 3(3) len by (auto simp: outcome_def image_iff split: if_splits)
      next
        case False
        obtain j where "m' = Suc j" using len by (cases m') auto
        then show ?thesis
          using close_object [of ?d u st stack j "of_runes name # seen"] False True v(2,3) ms(2) e 3(3) by (simp add: outcome_def)
      qed
    qed }
qed simp_all

lemma token_at_EOF: "fst (token_at d) = Inl EOF \<Longrightarrow> skip_space (dec_rest d) = []"
  by (cases "skip_space (dec_rest d)")
    (auto simp: token_at_def open_delim_def close_delim_def split: if_splits list.splits option.splits)

lemma reject_exact:
  assumes "json_document data = Some v"
  shows "rejectDuplicateKeys data = Some None \<longleftrightarrow> unique_keys v \<and> numbers_fit v"
proof -
  obtain t where p: "parse_json (runes data) = Some (v, t)" "skip_space t = []"
    using assms by (auto simp: json_document_def split: option.splits if_splits)
  let ?d = "NewDecoder data" and ?e = "\<lparr>dec_state = TopValue, dec_stack = [], dec_rest = t\<rparr>"
  let ?m = "2 * length (runes data)"
  have m: "?m = Suc (?m - 1)" using parse_json_shorter [OF p(1)] by simp
  have o: "outcome (accepted v) ?e (check_next ?m ?d)"
    using check_exact(1) [of "Suc ?m" maxNestingDepth ?d v t ?m] p(1) [unfolded parse_json_def]
    by (simp add: NewDecoder_def value_allowed_def value_end_def del: parse_value.simps)
  have "dec_Token ?d = token_at ?d"
    by (cases "skip_space (runes data)") (simp_all add: NewDecoder_def dec_Token_def, simp add: token_at_def)
  moreover have "reject_loop ?m ?e = Some None" using p(2) by (subst m) (simp add: dec_Token_def)
  moreover have "fst (token_at ?d) \<noteq> Inl EOF"
    using parse_value_head [OF p(1) [unfolded parse_json_def]] token_at_EOF [of ?d] by (metis NewDecoder_def decoder.select_convs(3) list.distinct(1))
  ultimately show ?thesis
    using o unfolding accepted_iff [symmetric] rejectDuplicateKeys_def reject_loop.simps(2) [of ?m ?d]
    by (cases "token_at ?d"; cases "fst (token_at ?d)")
      (auto simp: check_next_def outcome_def simp del: reject_loop.simps(2) checkJSONValue.simps split: if_splits token_error.splits)
qed

text \<open>
  C21. On a document of one JSON value the check for duplicate keys, which walks over tokens and keeps its own track
  of what is a key, accepts exactly the values in which no object, at any depth, has two members whose
  names are the same string and every number can be a floating point number: the decoder turns every
  number it passes into one, so a number that is too large is refused here as well.
\<close>

theorem reject_duplicate_keys_exact:
  assumes "json_document data = Some v"
  shows "rejectDuplicateKeys data = Some None \<longleftrightarrow> unique_keys v \<and> numbers_fit v"
  using assms by (rule reject_exact)

lemma repeated_member: "json_document ''{\"a\":1,\"a\":[]}'' = Some (JObject [([0x61], JNumber [0x31]), ([0x61], JArray [])])"
  by code_simp

lemma large_number: "json_document ''[1e400]'' = Some (JArray [JNumber [0x31, 0x65, 0x34, 0x30, 0x30]])"
  by code_simp

lemma largest_numbers:
  "\<not> number_fits [0x31, 0x65, 0x34, 0x30, 0x30]" "\<not> number_fits [0x2D, 0x31, 0x65, 0x2B, 0x33, 0x30, 0x39]"
  "number_fits [0x31, 0x2E, 0x37, 0x65, 0x33, 0x30, 0x38]" "number_fits [0x31, 0x65, 0x2D, 0x34, 0x30, 0x30]"
  by code_simp+

text \<open>A repeated name, a number that is too large, and neither.\<close>

lemma reject_duplicate_keys_exact_witness:
  "rejectDuplicateKeys ''{\"a\":1,\"a\":[]}'' \<noteq> Some None \<and> rejectDuplicateKeys ''[1e400]'' \<noteq> Some None"
  using reject_duplicate_keys_exact [OF repeated_member] reject_duplicate_keys_exact [OF large_number] largest_numbers(1)
  by simp

end
