(* ===== verification/Config_Properties.thy ===== *)
theory Config_Properties
  imports Duplicate_Keys
begin

text \<open>
  What a configuration that has passed the validation is good for: the facts that the start of the service, the
  manager and the processor rely on.
\<close>

section \<open>The checks one by one\<close>

lemma custom_loop_valid:
  "validate_custom_loop env seen cts = None \<Longrightarrow>
    distinct (map ct_Type cts) \<and> set (map ct_Type cts) \<inter> set seen = {} \<and>
    (\<forall>ct \<in> set cts. validCustomTypeName (ct_Type ct) \<and> \<not> validBuiltinType (ct_Type ct) \<and> (\<exists>d. custom_type_detector env ct = Inr d))"
  by (induction env seen cts rule: validate_custom_loop.induct) (auto split: if_splits sum.splits)

lemma systems_loop_valid:
  "validate_systems_loop c validTypes seen ss = Inr seen' \<Longrightarrow>
    distinct (map sy_ID ss) \<and> set (map sy_ID ss) \<inter> set seen = {} \<and> set seen' = set (map sy_ID ss) \<union> set seen \<and>
    (\<forall>s \<in> set ss. sy_ID s \<noteq> [] \<and> validateSystem s validTypes = None \<and>
      (\<exists>pol. PolicyFor c (sy_ID s) = Inr pol \<and> ValidateContract (Contract pol) validTypes = None))"
  by (induction c validTypes seen ss rule: validate_systems_loop.induct) (auto split: if_splits sum.splits option.splits)

lemma custom_detectors_total:
  "\<forall>ct \<in> set cts. \<exists>d. custom_type_detector env ct = Inr d \<Longrightarrow> \<exists>ds. custom_detectors_loop env cts = Inr ds"
  by (induction cts) auto

lemma custom_type_detector_type: "custom_type_detector env ct = Inr d \<Longrightarrow> pd_typ d = ct_Type ct"
  by (auto simp: custom_type_detector_def NewPatternDetector_def split: sum.splits if_splits option.splits)

lemma custom_detectors_types: "custom_detectors_loop env cts = Inr ds \<Longrightarrow> map pd_typ ds = map ct_Type cts"
  by (induction cts arbitrary: ds) (auto split: sum.splits dest: custom_type_detector_type)

definition runtime_ok :: "Config \<Rightarrow> bool" where
  "runtime_ok c \<longleftrightarrow>
     cf_Runtime c = RuntimeProcessOnly \<and> cf_Provider c = None \<or>
     cf_Runtime c = RuntimeTestGenerate \<and>
       (\<exists>p. cf_Provider c = Some p \<and> pv_BaseURL p \<noteq> [] \<and> 0 < pv_Timeout p \<and> opt_list (pv_Models p) \<noteq> [])"

definition default_runtime :: "Config \<Rightarrow> Config" where
  "default_runtime c = (if cf_Runtime c = [] then c\<lparr>cf_Runtime := RuntimeProcessOnly\<rparr> else c)"

definition store_ok :: "environ \<Rightarrow> Config \<Rightarrow> bool" where
  "store_ok env c \<longleftrightarrow> 0 < st_TTL (cf_Store c) \<and>
     (st_Mode (cf_Store c) = ''memory'' \<or> st_Mode (cf_Store c) = ''redis'' \<and> validateRedis env c = None)"

definition default_store :: "Config \<Rightarrow> Config" where
  "default_store c = (if st_Mode (cf_Store c) = [] then c\<lparr>cf_Store := (cf_Store c)\<lparr>st_Mode := ''memory''\<rparr>\<rparr> else c)"

lemma modes_differ: "RuntimeProcessOnly \<noteq> []" "RuntimeTestGenerate \<noteq> []" "RuntimeProcessOnly \<noteq> RuntimeTestGenerate"
  by (simp_all add: RuntimeProcessOnly_def RuntimeTestGenerate_def)

lemma validateRuntime_iff: "validateRuntime c = Inr c' \<longleftrightarrow> c' = default_runtime c \<and> runtime_ok c'"
  unfolding validateRuntime_def default_runtime_def [symmetric] Let_def runtime_ok_def
  using modes_differ by (auto split: option.splits)

lemma validateStore_iff: "validateStore env c = Inr c' \<longleftrightarrow> c' = default_store c \<and> store_ok env c'"
proof -
  have ttl: "st_TTL (cf_Store (default_store c)) = st_TTL (cf_Store c)" by (simp add: default_store_def)
  show ?thesis
    unfolding validateStore_def default_store_def [symmetric] Let_def store_ok_def
    using ttl by (auto split: option.splits)
qed

lemma default_frames [simp]:
  "default_runtime (default_runtime c) = default_runtime c" "default_store (default_store c) = default_store c"
  "default_runtime (default_store c) = default_store (default_runtime c)"
  "cf_Version (default_runtime c) = cf_Version c" "cf_Version (default_store c) = cf_Version c"
  "cf_Runtime (default_store c) = cf_Runtime c" "cf_Provider (default_store c) = cf_Provider c"
  "validateServer (default_runtime c) = validateServer c" "validateServer (default_store c) = validateServer c"
  using modes_differ by (simp_all add: default_runtime_def default_store_def validateServer_def Let_def)

lemma runtime_ok_store [simp]: "runtime_ok (default_store c) = runtime_ok c"
  by (simp add: runtime_ok_def)

lemma Validate_config_checks:
  assumes "Validate_config env c0 = Inr c"
  shows "cf_Version c \<noteq> []" "validateServer c = None" "validateRuntime c = Inr c" "validateStore env c = Inr c"
    "validateKeyFiles c = None" "validateSystems env c = None"
proof -
  obtain c1 where r: "cf_Version c0 \<noteq> []" "validateServer c0 = None" "validateRuntime c0 = Inr c1"
    and s: "validateStore env c1 = Inr c" and k: "validateKeyFiles c = None" "validateSystems env c = None"
    using assms by (auto simp: Validate_config_def split: if_splits sum.splits option.splits)
  have c: "c = default_store (default_runtime c0)" "runtime_ok c" "store_ok env c"
    using r(3) s by (auto simp: validateRuntime_iff validateStore_iff)
  show "cf_Version c \<noteq> []" "validateServer c = None" using r c(1) by simp_all
  show "validateRuntime c = Inr c" "validateStore env c = Inr c"
    using c by (simp_all add: validateRuntime_iff validateStore_iff)
  show "validateKeyFiles c = None" "validateSystems env c = None" by (rule k)+
qed

lemma Validate_config_defaults: "Validate_config env c0 = Inr c \<Longrightarrow> c = default_store (default_runtime c0)"
  by (auto simp: Validate_config_def validateRuntime_iff validateStore_iff split: if_splits sum.splits option.splits)

lemma Validate_config_idem: "Validate_config env c0 = Inr c \<Longrightarrow> Validate_config env c = Inr c"
  using Validate_config_checks [of env c0 c] by (simp add: Validate_config_def)

lemma validateSystems_valid:
  assumes "validateSystems env c = None"
  shows "distinct (map sy_ID (cf_Systems c))" "cf_Default c \<in> set (map sy_ID (cf_Systems c))"
    "s \<in> set (cf_Systems c) \<Longrightarrow> sy_ID s \<noteq> [] \<and>
      (\<exists>pol. PolicyFor c (sy_ID s) = Inr pol \<and> ValidateContract (Contract pol) (allValidTypes c) = None)"
    "distinct (allValidTypes c)" "\<exists>ds. CustomDetectors env c = Inr ds \<and> map pd_typ ds = map ct_Type (opt_list (cf_CustomPIITypes c))"
    "\<forall>ct \<in> set (opt_list (cf_CustomPIITypes c)). validCustomTypeName (ct_Type ct)"
proof -
  obtain seen where v: "validateCustomTypes env c = None" "validate_systems_loop c (allValidTypes c) [] (cf_Systems c) = Inr seen"
    "cf_Default c \<in> set seen"
    using assms by (auto simp: validateSystems_def split: if_splits sum.splits option.splits)
  from systems_loop_valid [OF v(2)] v(3)
  show "distinct (map sy_ID (cf_Systems c))" "cf_Default c \<in> set (map sy_ID (cf_Systems c))"
    "s \<in> set (cf_Systems c) \<Longrightarrow> sy_ID s \<noteq> [] \<and>
      (\<exists>pol. PolicyFor c (sy_ID s) = Inr pol \<and> ValidateContract (Contract pol) (allValidTypes c) = None)" by auto
  from custom_loop_valid [OF v(1) [unfolded validateCustomTypes_def]]
  have cu: "distinct (map ct_Type (opt_list (cf_CustomPIITypes c)))"
    "\<forall>ct \<in> set (opt_list (cf_CustomPIITypes c)). validCustomTypeName (ct_Type ct) \<and> ct_Type ct \<notin> set AllTypes \<and>
      (\<exists>d. custom_type_detector env ct = Inr d)" by (auto simp: validBuiltinType_def list_ex_iff)
  then show "distinct (allValidTypes c)" "\<forall>ct \<in> set (opt_list (cf_CustomPIITypes c)). validCustomTypeName (ct_Type ct)"
    using distinct_AllTypes by (auto simp: allValidTypes_def BuiltinTypes_def)
  show "\<exists>ds. CustomDetectors env c = Inr ds \<and> map pd_typ ds = map ct_Type (opt_list (cf_CustomPIITypes c))"
    unfolding CustomDetectors_def using custom_detectors_total [of _ env] cu(2) custom_detectors_types by blast
qed

section \<open>Properties\<close>

text \<open>
  A configuration that passes the validation, with the defaults that this fills in, passes it again unchanged. Its
  limits are positive and a request cannot outlive the shutdown; a provider is configured exactly in the mode that
  calls it; the default system is one of the systems, whose identifiers differ and whose policies are valid contracts
  over the categories of the configuration; and the detectors of the configured categories can be built.
\<close>

theorem validated_config:
  assumes "Validate_config env c0 = Inr c"
  shows "Validate_config env c = Inr c \<and>
    0 < ss_MaxBodyBytes (cf_Server c) \<and> 0 < ss_ConcurrencyLimit (cf_Server c) \<and> 0 < st_TTL (cf_Store c) \<and>
    0 < ss_RequestTimeout (cf_Server c) \<and> ss_RequestTimeout (cf_Server c) \<le> ss_ShutdownTimeout (cf_Server c) \<and>
    (cf_Runtime c = RuntimeProcessOnly \<and> cf_Provider c = None \<or>
     cf_Runtime c = RuntimeTestGenerate \<and> (\<exists>p. cf_Provider c = Some p \<and> pv_BaseURL p \<noteq> [] \<and> opt_list (pv_Models p) \<noteq> [])) \<and>
    distinct (map sy_ID (cf_Systems c)) \<and> cf_Default c \<in> set (map sy_ID (cf_Systems c)) \<and>
    (\<forall>s \<in> set (cf_Systems c). \<exists>pol. PolicyFor c (sy_ID s) = Inr pol \<and> ValidateContract (Contract pol) (allValidTypes c) = None) \<and>
    distinct (allValidTypes c) \<and>
    (\<exists>ds. CustomDetectors env c = Inr ds \<and> map pd_typ ds = map ct_Type (opt_list (cf_CustomPIITypes c)))"
proof -
  note v = Validate_config_checks [OF assms]
  have "0 < ss_MaxBodyBytes (cf_Server c)" "0 < ss_ConcurrencyLimit (cf_Server c)" "0 < ss_RequestTimeout (cf_Server c)"
    "ss_RequestTimeout (cf_Server c) \<le> ss_ShutdownTimeout (cf_Server c)"
    using v(2) by (auto simp: validateServer_def Let_def split: if_splits)
  moreover have "runtime_ok c" "store_ok env c" using v(3,4) by (simp_all add: validateRuntime_iff validateStore_iff)
  ultimately show ?thesis
    using Validate_config_idem [OF assms] validateSystems_valid [OF v(6)]
    by (auto simp: runtime_ok_def store_ok_def simp del: set_map)
qed

lemma validCustomTypeName_token: "validCustomTypeName t \<Longrightarrow> token_type t"
proof -
  have "byte (CHR ''_'') = 0x5F" by (simp add: byte_def)
  then have "token_char c" if "lower_char c \<or> digit_ascii c \<or> c = CHR ''_''" for c
    using that by (auto simp: token_char_def lower_char_def digit_ascii_def)
  then show "validCustomTypeName t \<Longrightarrow> ?thesis"
    by (cases t) (auto simp: validCustomTypeName_def token_type_def list_all_iff)
qed

lemma builtin_token_types: "list_all token_type AllTypes"
  by code_simp

text \<open>
  C20. The restriction of the names of configured categories does what it is there for: whatever category a
  configuration that passes the validation knows, built in or configured, each token issued for it is recognised by
  the marker expression, whatever the value, the nonce and the number of collisions.
\<close>

theorem configured_tokens_recognised:
  assumes "Validate_config env c0 = Inr c" and "typ \<in> set (allValidTypes c)" and "\<And>k m. 16 \<le> length (hmac k m)"
  shows "is_marker (make_token hmac nonce typ v n)"
proof -
  have "token_type typ"
    using assms(2) builtin_token_types validateSystems_valid(6) [OF Validate_config_checks(6) [OF assms(1)]] validCustomTypeName_token
    by (auto simp: allValidTypes_def BuiltinTypes_def list_all_iff)
  then show ?thesis using assms(3) by (rule make_token_marker)
qed

section \<open>Strict documents\<close>

lemma parse_known_Inr:
  "parse_known m known fs c = Inr c' \<longleftrightarrow> fst ` set m \<subseteq> set known \<and> readJSONFields m fs c = Inr c'"
  by (auto simp: parse_known_def checkUnknown_def list_ex_iff)

text \<open>What no field but an absent one writes is left alone.\<close>

lemma readJSONFields_frame:
  assumes "readJSONFields m fs c = Inr c'" and "map_of m n = None"
    and "list_all (\<lambda>(name, rd). name = n \<or> (\<forall>raw c c'. rd raw c = Inr c' \<longrightarrow> proj c' = proj c)) fs"
  shows "proj c' = proj c"
  using assms
  by (induction m fs c rule: readJSONFields.induct) (auto split: option.splits sum.splits)

lemma parseJSONConfig_frame:
  assumes "parseJSONConfig env m c = Inr c'"
  shows "map_of m ''version'' = None \<Longrightarrow> cf_Version c' = cf_Version c"
    and "map_of m ''runtime'' = None \<Longrightarrow> cf_Runtime c' = cf_Runtime c"
    and "map_of m ''server'' = None \<Longrightarrow> cf_Server c' = cf_Server c"
    and "map_of m ''provider'' = None \<Longrightarrow> cf_Provider c' = cf_Provider c"
    and "map_of m ''store'' = None \<Longrightarrow> cf_Store c' = cf_Store c"
    and "map_of m ''security'' = None \<Longrightarrow> cf_Security c' = cf_Security c"
    and "map_of m ''systems'' = None \<Longrightarrow> cf_Systems c' = cf_Systems c"
    and "map_of m ''default_system'' = None \<Longrightarrow> cf_Default c' = cf_Default c"
    and "map_of m ''custom_pii_types'' = None \<Longrightarrow> cf_CustomPIITypes c' = cf_CustomPIITypes c"
proof -
  note r = conjunct2 [OF assms [unfolded parseJSONConfig_def parse_known_Inr]]
  note frame = readJSONFields_frame [OF r]
  show "map_of m ''version'' = None \<Longrightarrow> cf_Version c' = cf_Version c"
    by (rule frame) (auto simp: jsonValue_def jsonSection_def split: sum.splits)
  show "map_of m ''runtime'' = None \<Longrightarrow> cf_Runtime c' = cf_Runtime c"
    by (rule frame) (auto simp: jsonValue_def jsonSection_def split: sum.splits)
  show "map_of m ''server'' = None \<Longrightarrow> cf_Server c' = cf_Server c"
    by (rule frame) (auto simp: jsonValue_def jsonSection_def split: sum.splits)
  show "map_of m ''provider'' = None \<Longrightarrow> cf_Provider c' = cf_Provider c"
    by (rule frame) (auto simp: jsonValue_def jsonSection_def split: sum.splits)
  show "map_of m ''store'' = None \<Longrightarrow> cf_Store c' = cf_Store c"
    by (rule frame) (auto simp: jsonValue_def jsonSection_def split: sum.splits)
  show "map_of m ''security'' = None \<Longrightarrow> cf_Security c' = cf_Security c"
    by (rule frame) (auto simp: jsonValue_def jsonSection_def split: sum.splits)
  show "map_of m ''systems'' = None \<Longrightarrow> cf_Systems c' = cf_Systems c"
    by (rule frame) (auto simp: jsonValue_def jsonSection_def split: sum.splits)
  show "map_of m ''default_system'' = None \<Longrightarrow> cf_Default c' = cf_Default c"
    by (rule frame) (auto simp: jsonValue_def jsonSection_def split: sum.splits)
  show "map_of m ''custom_pii_types'' = None \<Longrightarrow> cf_CustomPIITypes c' = cf_CustomPIITypes c"
    by (rule frame) (auto simp: jsonValue_def jsonSection_def split: sum.splits)
qed

text \<open>Every field that is there has been read.\<close>

lemma readJSONFields_reads:
  "readJSONFields m fs c = Inr c' \<Longrightarrow> (n, rd) \<in> set fs \<Longrightarrow> map_of m n = Some raw \<Longrightarrow> \<exists>a b. rd raw a = Inr b"
proof (induction m fs c rule: readJSONFields.induct)
  case (2 m name rd' fs c)
  show ?case
  proof (cases "(n, rd) = (name, rd')")
    case True
    with 2(3,5) show ?thesis by (auto split: sum.splits)
  next
    case False
    with 2 show ?thesis by (auto split: option.splits sum.splits)
  qed
qed simp

text \<open>
  The names of an object, and which of them a document may use at each of its levels: the object
  itself, its sections, the systems with their rules, and the configured categories.
\<close>

definition names_in :: "bytes list \<Rightarrow> json \<Rightarrow> bool" where
  "names_in known v = (case v of JObject ms \<Rightarrow> (\<forall>m \<in> set ms. of_runes (fst m) \<in> set known) | _ \<Rightarrow> True)"

definition member :: "json \<Rightarrow> bytes \<Rightarrow> json option" where
  "member v n = (case v of JObject ms \<Rightarrow> map_of (object_map ms) n | _ \<Rightarrow> None)"

definition elements :: "json option \<Rightarrow> json list" where
  "elements v = (case v of Some (JArray vs) \<Rightarrow> vs | _ \<Rightarrow> [])"

definition sections :: "(bytes \<times> bytes list) list" where
  "sections = [(''runtime'', runtimeJSONFields), (''server'', serverJSONFields), (''provider'', providerJSONFields),
     (''store'', storeJSONFields), (''security'', securityJSONFields)]"

definition known_names :: "json \<Rightarrow> bool" where
  "known_names v \<longleftrightarrow> names_in configJSONFields v \<and>
     (\<forall>(n, known) \<in> set sections. case member v n of None \<Rightarrow> True | Some s \<Rightarrow> names_in known s) \<and>
     (\<forall>s \<in> set (elements (member v ''systems'')). names_in systemJSONFields s \<and>
        (\<forall>r \<in> set (elements (member s ''rules'')). names_in ruleJSONFields r)) \<and>
     (\<forall>t \<in> set (elements (member v ''custom_pii_types'')). names_in customPIITypeJSONFields t)"

lemma object_map_names: "fst ` set (object_map ms) = of_runes ` fst ` set ms"
proof -
  have "fst ` set (fold (\<lambda>(k, v) m. AList.update (of_runes k) v m) ms m) = of_runes ` fst ` set ms \<union> fst ` set m" for m
  proof (induction ms arbitrary: m)
    case (Cons kv ms)
    obtain k v where "kv = (k, v)" by force
    with Cons.IH [of "AList.update (of_runes k) v m"] show ?case by (simp add: dom_update)
  qed simp
  then show ?thesis by (simp add: object_map_def)
qed

lemma names_in_object: "objectField v = Inr m \<Longrightarrow> fst ` set m \<subseteq> set known \<Longrightarrow> names_in known v"
proof (cases v)
  case (JObject ms)
  moreover assume "objectField v = Inr m" and "fst ` set m \<subseteq> set known"
  ultimately have "of_runes ` fst ` set ms \<subseteq> set known" using object_map_names [of ms] by (simp add: objectField_def)
  with JObject show ?thesis by (auto simp: names_in_def)
qed (simp_all add: names_in_def)

lemma member_object: "objectField v = Inr m \<Longrightarrow> member v n = map_of m n"
  by (auto simp: objectField_def member_def split: json.splits)

lemma section_known:
  assumes "snd (jsonSection n src dest parse) raw a = Inr b" and "\<And>m x y. parse m x = Inr y \<Longrightarrow> fst ` set m \<subseteq> set known"
  shows "names_in known raw"
proof -
  obtain m t where "objectField raw = Inr m" "parse m (src a) = Inr t"
    using assms(1) by (auto simp: jsonSection_def split: sum.splits)
  from names_in_object [OF this(1) assms(2) [OF this(2)]] show ?thesis .
qed

lemma list_known:
  assumes "jsonList parse zero raw = Inr ts" and "v \<in> set (elements (Some raw))"
  obtains m t where "objectField v = Inr m" "parse m zero = Inr t"
proof -
  have items: "\<exists>m t. objectField v = Inr m \<and> parse m zero = Inr t"
    if "object_elements vs = Some ms" "parse_items parse zero ms = Inr ts" "v \<in> set vs" for vs ms ts
    using that by (induction vs arbitrary: ms ts) (auto split: sum.splits)
  from assms obtain vs ms where "object_elements vs = Some ms" "parse_items parse zero ms = Inr ts" "v \<in> set vs"
    by (auto simp: jsonList_def elements_def split: json.splits option.splits)
  from items [OF this] that show thesis by blast
qed

lemma rule_known:
  assumes "parseJSONSystem m zero = Inr s" and "objectField v = Inr m"
  shows "names_in systemJSONFields v" and "r \<in> set (elements (member v ''rules'')) \<Longrightarrow> names_in ruleJSONFields r"
proof -
  from assms(1) obtain z fs where k: "parse_known m systemJSONFields fs z = Inr s"
    and rd: "(''rules'', snd (jsonValue ''rules'' (\<lambda>v s :: SystemConfig. s\<lparr>sy_Rules := Some v\<rparr>) rulesField)) \<in> set fs"
    unfolding parseJSONSystem_def by (auto simp: jsonValue_def split: sum.splits)
  then have kn: "fst ` set m \<subseteq> set systemJSONFields" "readJSONFields m fs z = Inr s" by (simp_all add: parse_known_Inr)
  then show "names_in systemJSONFields v" using names_in_object [OF assms(2)] by blast
  assume r: "r \<in> set (elements (member v ''rules''))"
  then obtain raw where raw: "map_of m ''rules'' = Some raw"
    using member_object [OF assms(2)] by (cases "map_of m ''rules''") (auto simp: elements_def)
  obtain a b where "snd (jsonValue ''rules'' (\<lambda>v s :: SystemConfig. s\<lparr>sy_Rules := Some v\<rparr>) rulesField) raw a = Inr b"
    using readJSONFields_reads [OF kn(2) rd raw] by blast
  then obtain ts where "jsonList parseJSONRule zero_rule raw = Inr ts"
    by (auto simp: jsonValue_def rulesField_def split: sum.splits)
  then show "names_in ruleJSONFields r"
    by (rule list_known [where v = r])
      (use r raw member_object [OF assms(2)] in \<open>auto simp: parseJSONRule_def parse_known_Inr intro: names_in_object\<close>)
qed

lemma sections_known:
  assumes "parseJSONConfig env m c = Inr c'"
  shows "\<forall>(n, known) \<in> set sections. \<forall>s. map_of m n = Some s \<longrightarrow> names_in known s"
proof -
  note r = conjunct2 [OF assms [unfolded parseJSONConfig_def parse_known_Inr]]
  have known: "names_in known s"
    if "(n, snd (jsonSection n src dest parse)) \<in> set fs" "readJSONFields m fs c = Inr c'" "map_of m n = Some s"
      "\<And>m x y. parse m x = Inr y \<Longrightarrow> fst ` set m \<subseteq> set known"
    for n src and dest :: "'t \<Rightarrow> Config \<Rightarrow> Config" and parse fs known s
    using readJSONFields_reads [OF that(2,1,3)] section_known that(4) by metis
  have "names_in runtimeJSONFields s" if "map_of m ''runtime'' = Some s" for s
    by (rule known [OF _ r that, where src = cf_Runtime and dest = "\<lambda>v c. c\<lparr>cf_Runtime := v\<rparr>" and parse = parseJSONRuntime])
      (simp_all add: jsonSection_def parseJSONRuntime_def parse_known_Inr)
  moreover have "names_in serverJSONFields s" if "map_of m ''server'' = Some s" for s
    by (rule known [OF _ r that, where src = cf_Server and dest = "\<lambda>v c. c\<lparr>cf_Server := v\<rparr>" and parse = "parseJSONServer env"])
      (simp_all add: jsonSection_def parseJSONServer_def parse_known_Inr)
  moreover have "names_in providerJSONFields s" if "map_of m ''provider'' = Some s" for s
    by (rule known [OF _ r that, where src = "\<lambda>c. case cf_Provider c of None \<Rightarrow> zero_provider | Some p \<Rightarrow> p"
        and dest = "\<lambda>v c. c\<lparr>cf_Provider := Some v\<rparr>" and parse = "parseJSONProvider env"])
      (simp_all add: jsonSection_def parseJSONProvider_def parse_known_Inr)
  moreover have "names_in storeJSONFields s" if "map_of m ''store'' = Some s" for s
    by (rule known [OF _ r that, where src = cf_Store and dest = "\<lambda>v c. c\<lparr>cf_Store := v\<rparr>" and parse = "parseJSONStore env"])
      (simp_all add: jsonSection_def parseJSONStore_def parse_known_Inr)
  moreover have "names_in securityJSONFields s" if "map_of m ''security'' = Some s" for s
    by (rule known [OF _ r that, where src = cf_Security and dest = "\<lambda>v c. c\<lparr>cf_Security := v\<rparr>" and parse = parseJSONSecurity])
      (simp_all add: jsonSection_def parseJSONSecurity_def parse_known_Inr)
  ultimately show ?thesis by (simp add: sections_def)
qed

lemma systems_known:
  assumes "parseJSONConfig env m c = Inr c'" and "s \<in> set (elements (map_of m ''systems''))"
  shows "names_in systemJSONFields s \<and> (\<forall>r \<in> set (elements (member s ''rules'')). names_in ruleJSONFields r)"
proof -
  note r = conjunct2 [OF assms(1) [unfolded parseJSONConfig_def parse_known_Inr]]
  obtain raw where raw: "map_of m ''systems'' = Some raw" using assms(2) by (cases "map_of m ''systems''") (auto simp: elements_def)
  let ?rd = "snd (jsonValue ''systems'' (\<lambda>v c :: Config. c\<lparr>cf_Systems := v\<rparr>) (jsonList parseJSONSystem zero_system))"
  obtain a b where "?rd raw a = Inr b" using readJSONFields_reads [OF r _ raw, of ?rd] by (auto simp: jsonValue_def)
  then obtain ts where "jsonList parseJSONSystem zero_system raw = Inr ts" by (auto simp: jsonValue_def split: sum.splits)
  then obtain x t where "objectField s = Inr x" "parseJSONSystem x zero_system = Inr t"
    by (rule list_known [where v = s]) (use assms(2) raw in simp)
  with rule_known show ?thesis by blast
qed

lemma custom_known:
  assumes "parseJSONConfig env m c = Inr c'" and "t \<in> set (elements (map_of m ''custom_pii_types''))"
  shows "names_in customPIITypeJSONFields t"
proof -
  note r = conjunct2 [OF assms(1) [unfolded parseJSONConfig_def parse_known_Inr]]
  obtain raw where raw: "map_of m ''custom_pii_types'' = Some raw"
    using assms(2) by (cases "map_of m ''custom_pii_types''") (auto simp: elements_def)
  let ?rd = "snd (jsonValue ''custom_pii_types'' (\<lambda>v c :: Config. c\<lparr>cf_CustomPIITypes := Some v\<rparr>) (jsonList parseJSONCustomPIIType zero_custom_type))"
  obtain a b where "?rd raw a = Inr b" using readJSONFields_reads [OF r _ raw, of ?rd] by (auto simp: jsonValue_def)
  then obtain ts where "jsonList parseJSONCustomPIIType zero_custom_type raw = Inr ts"
    by (auto simp: jsonValue_def split: sum.splits)
  then obtain x u where "objectField t = Inr x" "parseJSONCustomPIIType x zero_custom_type = Inr u"
    by (rule list_known [where v = t]) (use assms(2) raw in simp)
  then show ?thesis by (auto simp: parseJSONCustomPIIType_def parse_known_Inr intro: names_in_object)
qed

lemma document_known:
  assumes "parseJSONConfig env m c = Inr c'" and "objectField v = Inr m"
  shows "known_names v"
  using assms sections_known [OF assms(1)] systems_known [OF assms(1)] custom_known [OF assms(1)] member_object [OF assms(2)]
  by (auto simp: known_names_def parseJSONConfig_def parse_known_Inr intro: names_in_object split: option.splits)

text \<open>
  C19. The JSON reader is strict. A document that it accepts is valid UTF-8 and holds exactly one JSON value, an object
  in which, at any depth, no name occurs twice and no number is too large for a \<^verbatim>\<open>float64\<close>. Every name in it is a
  known one of its level: of the document, of each section, of each system and each of its rules, and
  of each configured category. It states a version and the systems; everything else, the sections for
  the runtime, the server, the provider, the store and the security, the default system and the
  configured categories, may be absent and then has its default; and the result has passed the validation.
\<close>

theorem strict_configuration:
  assumes "parseJSON env data = Inr cfg"
  shows "valid_string data \<and>
    (\<exists>v. json_document data = Some v \<and> unique_keys v \<and> numbers_fit v \<and> known_names v \<and>
      member v ''version'' \<noteq> None \<and> member v ''systems'' \<noteq> None \<and>
      (member v ''runtime'' = None \<longrightarrow> cf_Runtime cfg = cf_Runtime Default_config) \<and>
      (member v ''server'' = None \<longrightarrow> cf_Server cfg = cf_Server Default_config) \<and>
      (member v ''provider'' = None \<longrightarrow> cf_Provider cfg = cf_Provider Default_config) \<and>
      (member v ''store'' = None \<longrightarrow> cf_Store cfg = cf_Store Default_config) \<and>
      (member v ''security'' = None \<longrightarrow> cf_Security cfg = cf_Security Default_config) \<and>
      (member v ''default_system'' = None \<longrightarrow> cf_Default cfg = cf_Default Default_config) \<and>
      (member v ''custom_pii_types'' = None \<longrightarrow> cf_CustomPIITypes cfg = cf_CustomPIITypes Default_config)) \<and>
    Validate_config env cfg = Inr cfg"
proof -
  let ?c = "Default_config\<lparr>cf_Version := []\<rparr>"
  obtain v d m c where p: "valid_string data" "rejectDuplicateKeys data = Some None" "dec_Decode (NewDecoder data) = Some (v, d)"
    "objectField v = Inr m" "skip_space (dec_rest d) = []" "parseJSONConfig env m ?c = Inr c" "Validate_config env c = Inr cfg"
    using assms by (auto simp: parseJSON_def split: if_splits option.splits sum.splits prod.splits)
  have doc: "json_document data = Some v"
    using p(3,5) by (auto simp: dec_Decode_def prepare_decode_def NewDecoder_def value_allowed_def json_document_def split: option.splits)
  have cfg: "cfg = default_store (default_runtime c)" using p(7) by (rule Validate_config_defaults)
  note frame = parseJSONConfig_frame [OF p(6)]
  note given = validateSystems_valid(2) [OF Validate_config_checks(6) [OF p(7)]] Validate_config_checks(1) [OF p(7)]
  have "cf_Systems c \<noteq> []" "cf_Version c \<noteq> []" using given cfg by (auto simp: default_runtime_def default_store_def split: if_splits)
  moreover have "cf_Systems ?c = []" "cf_Version ?c = []" by (simp_all add: Default_config_def)
  ultimately have stated: "map_of m ''version'' \<noteq> None" "map_of m ''systems'' \<noteq> None" using frame(1,7) by metis+
  have kept: "cf_Server cfg = cf_Server c" "cf_Provider cfg = cf_Provider c" "cf_Security cfg = cf_Security c"
    "cf_Default cfg = cf_Default c" "cf_CustomPIITypes cfg = cf_CustomPIITypes c"
    "cf_Store c = cf_Store Default_config \<Longrightarrow> cf_Store cfg = cf_Store Default_config"
    "cf_Runtime c = cf_Runtime Default_config \<Longrightarrow> cf_Runtime cfg = cf_Runtime Default_config"
    using modes_differ by (simp_all add: cfg default_store_def default_runtime_def Default_config_def)
  have "unique_keys v \<and> numbers_fit v" using p(2) reject_exact [OF doc] by blast
  then show ?thesis
    using p(1) doc document_known [OF p(6,4)] stated frame kept Validate_config_idem [OF p(7)]
    by (intro conjI exI [of _ v]) (simp_all add: member_object [OF p(4)])
qed

section \<open>An example\<close>

definition sample_environ :: environ where
  "sample_environ =
     \<lparr>env_Getenv = (\<lambda>k. []), env_Lstat = (\<lambda>p. None), env_ReadFile = (\<lambda>p. None), env_Compile = (\<lambda>e. Some (Lit [0x53] False)),
      env_ParseDuration = (\<lambda>s. None), env_ParseFloat = (\<lambda>ds. None)\<rparr>"

definition sample_system :: SystemConfig where
  "sample_system = zero_system\<lparr>sy_ID := ''benchmark'', sy_AllowAnonymous := True, sy_MaskTypes := Some [''staff_id'']\<rparr>"

definition sample_config :: Config where
  "sample_config = Default_config\<lparr>cf_Systems := [sample_system],
     cf_CustomPIITypes := Some [\<lparr>ct_Type = ''staff_id'', ct_Pattern = ''S'', ct_Confidence = ''high''\<rparr>]\<rparr>"

lemma sample_custom_types: "validateCustomTypes sample_environ sample_config = None"
proof -
  have "validCustomTypeName ''staff_id''" "\<not> validBuiltinType ''staff_id''" by code_simp+
  then show ?thesis
    by (simp add: validateCustomTypes_def sample_config_def opt_list_def custom_type_detector_def confidence_def
        NewPatternDetector_def sample_environ_def)
qed

lemma sample_systems:
  "validate_systems_loop sample_config (allValidTypes sample_config) [] (cf_Systems sample_config) = Inr [''benchmark'']"
  by code_simp

lemma sample_config_valid: "Validate_config sample_environ sample_config = Inr sample_config"
proof -
  have "validateServer sample_config = None" "cf_Version sample_config \<noteq> []"
    by (simp_all add: validateServer_def sample_config_def Default_config_def time_Second_def time_Hour_def)
  moreover have "validateRuntime sample_config = Inr sample_config"
    by (simp add: validateRuntime_def sample_config_def Default_config_def RuntimeProcessOnly_def)
  moreover have "validateStore sample_environ sample_config = Inr sample_config"
    by (simp add: validateStore_def sample_config_def Default_config_def time_Hour_def)
  moreover have "validateKeyFiles sample_config = None"
    by (simp add: validateKeyFiles_def sample_config_def Default_config_def opt_list_def)
  moreover have "validateSystems sample_environ sample_config = None"
    using sample_custom_types sample_systems by (simp add: validateSystems_def sample_config_def Default_config_def)
  ultimately show ?thesis by (simp add: Validate_config_def)
qed

lemma validated_config_witness:
  "distinct (map sy_ID (cf_Systems sample_config)) \<and> (\<exists>ds. CustomDetectors sample_environ sample_config = Inr ds \<and> map pd_typ ds = [''staff_id''])"
  using validated_config [OF sample_config_valid] by (auto simp: sample_config_def opt_list_def)

lemma configured_tokens_recognised_witness: "is_marker (make_token sample_mac ''n'' ''staff_id'' ''77'' 5)"
  by (rule configured_tokens_recognised [OF sample_config_valid])
    (simp_all add: sample_config_def allValidTypes_def opt_list_def sample_mac_def)

text \<open>A JSON document, and what is read of it.\<close>

definition sample_json :: bytes where
  "sample_json = ''{\"version\":\"v1\",\"systems\":[{\"id\":\"benchmark\"}]}''"

definition json_config :: Config where
  "json_config = Default_config\<lparr>cf_Systems := [zero_system\<lparr>sy_ID := ''benchmark''\<rparr>]\<rparr>"

definition text_runes :: "bytes \<Rightarrow> rune list" where "text_runes s = map byte s"

definition sample_members :: "(rune list \<times> json) list" where
  "sample_members = [(text_runes ''version'', JString (text_runes ''v1'')),
     (text_runes ''systems'', JArray [JObject [(text_runes ''id'', JString (text_runes ''benchmark''))]])]"

lemma of_text_runes: "list_all (\<lambda>c. byte c < 0x80) s \<Longrightarrow> of_runes (text_runes s) = s"
  by (induction s) (simp_all add: text_runes_def encode_rune_ascii)

lemma sample_texts:
  "of_runes (text_runes ''version'') = ''version''" "of_runes (text_runes ''v1'') = ''v1''"
  "of_runes (text_runes ''systems'') = ''systems''" "of_runes (text_runes ''id'') = ''id''"
  "of_runes (text_runes ''benchmark'') = ''benchmark''"
  by (rule of_text_runes, simp add: byte_def)+

lemma sample_json_value: "parse_json (runes sample_json) = Some (JObject sample_members, [])"
  by code_simp

lemma sample_json_text: "valid_string sample_json" "\<not> blank_document sample_json"
  by (simp_all add: sample_json_def blank_document_def unicode_IsSpace_def white_space_table_def byte_def)

lemma sample_json_unique: "rejectDuplicateKeys sample_json = Some None"
proof -
  have "json_document sample_json = Some (JObject sample_members)"
    by (simp add: json_document_def sample_json_value skip_space_def)
  from reject_exact [OF this] show ?thesis by (simp add: sample_members_def sample_texts)
qed

lemma json_config_valid: "Validate_config sample_environ json_config = Inr json_config"
proof -
  have "validateServer json_config = None" "cf_Version json_config \<noteq> []"
    by (simp_all add: validateServer_def json_config_def Default_config_def time_Second_def time_Hour_def)
  moreover have "validateRuntime json_config = Inr json_config"
    by (simp add: validateRuntime_def json_config_def Default_config_def RuntimeProcessOnly_def)
  moreover have "validateStore sample_environ json_config = Inr json_config"
    by (simp add: validateStore_def json_config_def Default_config_def time_Hour_def)
  moreover have "validateKeyFiles json_config = None"
    by (simp add: validateKeyFiles_def json_config_def Default_config_def opt_list_def)
  moreover have "validate_systems_loop json_config (allValidTypes json_config) [] (cf_Systems json_config) = Inr [''benchmark'']"
    by code_simp
  then have "validateSystems sample_environ json_config = None"
    by (simp add: validateSystems_def validateCustomTypes_def json_config_def Default_config_def opt_list_def)
  ultimately show ?thesis by (simp add: Validate_config_def)
qed

lemma sample_json_parsed: "parseJSON sample_environ sample_json = Inr json_config"
proof -
  have "parseJSONConfig sample_environ (object_map sample_members) (Default_config\<lparr>cf_Version := []\<rparr>) = Inr json_config"
    by (simp add: object_map_def sample_members_def sample_texts parseJSONConfig_def parse_known_def checkUnknown_def
        configJSONFields_def jsonValue_def jsonSection_def stringField_def assign_string_def jsonList_def objectField_def
        parseJSONSystem_def systemJSONFields_def json_config_def Default_config_def zero_system_def)
  then show ?thesis
    using sample_json_text sample_json_unique json_config_valid sample_json_value
    by (simp add: parseJSON_def objectField_def dec_Decode_def prepare_decode_def NewDecoder_def value_allowed_def skip_space_def)
qed

text \<open>A misspelt name, at the top or in a rule, is noticed.\<close>

lemma sample_names:
  "\<not> known_names (JObject [(text_runes ''versoin'', JNull)])"
  "\<not> known_names (JObject [(text_runes ''systems'', JArray [JObject [(text_runes ''rules'', JArray [JObject [(text_runes ''x'', JNull)]])]])])"
proof -
  have t: "of_runes (text_runes ''versoin'') = ''versoin''" "of_runes (text_runes ''rules'') = ''rules''"
    "of_runes (text_runes ''x'') = ''x''"
    by (rule of_text_runes, simp add: byte_def)+
  show "\<not> known_names (JObject [(text_runes ''versoin'', JNull)])"
    by (simp add: known_names_def names_in_def configJSONFields_def t)
  show "\<not> known_names (JObject [(text_runes ''systems'', JArray [JObject [(text_runes ''rules'', JArray [JObject [(text_runes ''x'', JNull)]])]])])"
    by (simp add: known_names_def names_in_def member_def object_map_def elements_def ruleJSONFields_def t sample_texts)
qed

lemma strict_configuration_witness:
  "\<exists>v. json_document sample_json = Some v \<and> unique_keys v \<and> known_names v \<and> member v ''systems'' \<noteq> None"
  using strict_configuration [OF sample_json_parsed] by blast

end
