(* ===== verification/Manager_Properties.thy ===== *)
theory Manager_Properties
  imports Config_Manager Config_Properties
begin

text \<open>
  What the manager of the configuration promises: a reload publishes exactly the document that it read, or nothing,
  and whatever has been published is a validated policy.
\<close>

section \<open>Comparisons\<close>

lemma list_all_upt: "list_all P [0..<n] \<longleftrightarrow> (\<forall>i<n. P i)"
  by (auto simp: list_all_iff)

lemma stringSliceEqual_iff: "stringSliceEqual a b \<longleftrightarrow> a = b"
  by (cases a; cases b) (auto simp: stringSliceEqual_def opt_list_def list_all_upt intro: nth_equalityI)

lemma nil_slice_inject: "nil_slice xs = nil_slice ys \<longleftrightarrow> xs = ys"
  by (auto simp: nil_slice_def)

lemma consumerEqual_iff: "consumerEqual a b \<longleftrightarrow> a = b"
proof -
  have rules: "rs = qs \<longleftrightarrow> length rs = length qs \<and> list_all (\<lambda>i. pr_Type (rs ! i) = pr_Type (qs ! i) \<and>
      stringSliceEqual (nil_slice (pr_Requires (rs ! i))) (nil_slice (pr_Requires (qs ! i)))) [0..<length rs]"
    for rs qs :: "PolicyRule list"
    unfolding list_eq_iff_nth_eq [of rs qs] list_all_upt stringSliceEqual_iff nil_slice_inject
    by (auto intro: PolicyRule.equality)
  have "cp_Rules (co_Policy a) = cp_Rules (co_Policy b) \<and> co_ID a = co_ID b \<and> co_Enabled a = co_Enabled b \<and> co_APIKey a = co_APIKey b \<and>
      cp_DetectionProfile (co_Policy a) = cp_DetectionProfile (co_Policy b) \<and> cp_Version (co_Policy a) = cp_Version (co_Policy b) \<and>
      cp_Mode (co_Policy a) = cp_Mode (co_Policy b) \<and> cp_AllowDemask (co_Policy a) = cp_AllowDemask (co_Policy b) \<and>
      cp_TTL (co_Policy a) = cp_TTL (co_Policy b) \<and> cp_DetectTypes (co_Policy a) = cp_DetectTypes (co_Policy b) \<and>
      cp_MaskTypes (co_Policy a) = cp_MaskTypes (co_Policy b) \<longleftrightarrow> a = b"
    by (auto intro!: Consumer.equality CPolicy.equality)
  then show ?thesis
    unfolding consumerEqual_def Let_def stringSliceEqual_iff [of "cp_DetectTypes _"] stringSliceEqual_iff [of "cp_MaskTypes _"]
      rules [symmetric] by blast
qed

lemma systemsEqual_map:
  assumes "systemsEqual a b" and "distinct (map fst a)" and "distinct (map fst b)"
  shows "map_of a = map_of b"
proof -
  have sub: "(k, c) \<in> set b" if "(k, c) \<in> set a" for k c
  proof -
    have "case map_of b k of None \<Rightarrow> False | Some cb \<Rightarrow> consumerEqual c cb"
      using assms(1) that by (fastforce simp: systemsEqual_def list_all_iff)
    then show ?thesis by (auto simp: consumerEqual_iff split: option.splits dest: map_of_SomeD)
  qed
  have "distinct a" "distinct b" "length a = length b" using assms by (auto simp: distinct_map systemsEqual_def)
  then have "card (set a) = card (set b)" by (simp add: distinct_card)
  then have "set a = set b" using sub by (intro card_subset_eq) auto
  then show ?thesis using assms(2,3) by (metis map_of_inject_set)
qed

section \<open>Candidates\<close>

text \<open>The consumer of a system of a configuration.\<close>

definition configured :: "environ \<Rightarrow> Config \<Rightarrow> bytes \<Rightarrow> Consumer option" where
  "configured env cfg k =
     (case find (\<lambda>s. sy_ID s = k) (cf_Systems cfg) of
        None \<Rightarrow> None
      | Some s \<Rightarrow> buildConsumer env s (cf_Version cfg) (st_TTL (cf_Store cfg)))"

lemma candidate_loop_result:
  assumes "candidate_loop env cfg ss acc = Inr systems" and "distinct (map sy_ID ss)" and "\<forall>s \<in> set ss. sy_ID s \<notin> set (map fst acc)"
    and "distinct (map fst acc)"
  shows "distinct (map fst systems) \<and>
    (\<forall>k. map_of systems k =
      (case find (\<lambda>s. sy_ID s = k) ss of
         None \<Rightarrow> map_of acc k
       | Some s \<Rightarrow> buildConsumer env s (cf_Version cfg) (st_TTL (cf_Store cfg)))) \<and>
    (\<forall>s \<in> set ss. system_enabled s \<longrightarrow> buildConsumer env s (cf_Version cfg) (st_TTL (cf_Store cfg)) \<noteq> None)"
  using assms
proof (induction env cfg ss acc rule: candidate_loop.induct)
  case (2 env cfg s ss acc)
  show ?case
  proof (cases "buildConsumer env s (cf_Version cfg) (st_TTL (cf_Store cfg))")
    case None
    with 2 have e: "\<not> system_enabled s" "candidate_loop env cfg ss acc = Inr systems" by (auto split: if_splits)
    have "map_of acc (sy_ID s) = None" using 2(5) by (simp add: map_of_eq_None_iff)
    moreover have "find (\<lambda>s'. sy_ID s' = sy_ID s) ss = None" using 2(4) by (auto simp: find_None_iff) (metis imageI)
    ultimately show ?thesis using 2(1) [OF None e(1) e(2)] 2(4-) e(1) None by auto
  next
    case (Some c)
    let ?acc = "AList.update (sy_ID s) c acc"
    have none: "find (\<lambda>s'. sy_ID s' = sy_ID s) ss = None" using 2(4) by (auto simp: find_None_iff) (metis imageI)
    have "candidate_loop env cfg ss ?acc = Inr systems" "distinct (map fst ?acc)" using 2(3,6) Some by (simp_all add: distinct_update)
    moreover have "\<forall>s \<in> set ss. sy_ID s \<notin> set (map fst ?acc)"
      using 2(4,5) by (auto simp: dom_update [unfolded dom_map_of_conv_image_fst]) (metis imageI)
    ultimately show ?thesis using 2(2) [OF Some] 2(4) none Some by (auto simp: update_conv split: option.splits)
  qed
qed simp

section \<open>Published snapshots\<close>

lemma parsed_is_validated: "parseDocument yaml env doc = Inr cfg \<Longrightarrow> \<exists>c0. Validate_config env c0 = Inr cfg"
  by (auto simp: parseDocument_def parseYAML_def parseJSON_def Let_def split: if_splits option.splits prod.splits sum.splits)

lemma immutableEqual_refl: "immutableEqual cfg cfg"
  by (auto simp: immutableEqual_def security_equal_def maps_equal_def split: option.splits)

lemma immutableEqual_types: "immutableEqual a b \<Longrightarrow> allValidTypes a = allValidTypes b \<and> st_TTL (cf_Store a) = st_TTL (cf_Store b)"
  by (auto simp: immutableEqual_def allValidTypes_def)

text \<open>A snapshot of an accepted document.\<close>

definition snapshot_of :: "yaml_decoder \<Rightarrow> Config \<Rightarrow> environ \<Rightarrow> Document \<Rightarrow> snapshot \<Rightarrow> bool" where
  "snapshot_of yaml initial env doc sn \<longleftrightarrow> distinct (map fst (sn_systems sn)) \<and>
     (\<exists>cfg. parseDocument yaml env doc = Inr cfg \<and> immutableEqual cfg initial \<and> sn_version sn = cf_Version cfg \<and>
       map_of (sn_systems sn) = configured env cfg)"

lemma buildCandidate_result:
  assumes "buildCandidate yaml env src initial w = (Inr (sn, cfg), w')"
  shows "\<exists>doc. fst (src w) = Inr doc \<and> parseDocument yaml env doc = Inr cfg \<and> sn_version sn = cf_Version cfg \<and>
    distinct (map fst (sn_systems sn)) \<and> map_of (sn_systems sn) = configured env cfg \<and>
    (\<forall>i. initial = Some i \<longrightarrow> immutableEqual cfg i)"
proof -
  obtain doc u where d: "src w = (Inr doc, u)" using assms by (auto simp: buildCandidate_def split: prod.splits sum.splits)
  then obtain systems where s: "parseDocument yaml env doc = Inr cfg" "candidate_loop env cfg (cf_Systems cfg) [] = Inr systems"
    "sn = \<lparr>sn_version = cf_Version cfg, sn_systems = systems\<rparr>" "\<forall>i. initial = Some i \<longrightarrow> immutableEqual cfg i"
    using assms by (auto simp: buildCandidate_def split: sum.splits if_splits option.splits)
  obtain c0 where "Validate_config env c0 = Inr cfg" using parsed_is_validated [OF s(1)] by blast
  from candidate_loop_result [OF s(2) validateSystems_valid(1) [OF Validate_config_checks(6) [OF this]]]
  have r: "distinct (map fst systems)" "\<And>k. map_of systems k = (case find (\<lambda>s. sy_ID s = k) (cf_Systems cfg) of
      None \<Rightarrow> None | Some s \<Rightarrow> buildConsumer env s (cf_Version cfg) (st_TTL (cf_Store cfg)))"
    by (simp_all split: option.split)
  have "map_of systems = configured env cfg" by (rule ext) (simp add: r(2) configured_def)
  with d s r(1) show ?thesis by auto
qed

text \<open>
  A step of the manager, with the world around it: a reload from any source in any environment, or something that
  happens outside.
\<close>

inductive manager_step :: "yaml_decoder \<Rightarrow> Manager \<times> 'a world_scheme \<Rightarrow> Manager \<times> 'a world_scheme \<Rightarrow> bool"
  for yaml :: yaml_decoder
where
  reload: "ReloadContext yaml env src m w = (r, m', w') \<Longrightarrow> manager_step yaml (m, w) (m', w')"
| outside: "manager_step yaml (m, w) (m, w')"

inductive_cases manager_stepE: "manager_step yaml (m, w) (m', w')"

definition manager_ok :: "yaml_decoder \<Rightarrow> Manager \<Rightarrow> bool" where
  "manager_ok yaml m \<longleftrightarrow> (\<exists>env doc. snapshot_of yaml (mg_initial m) env doc (mg_current m))"

lemma count_reload_frame [simp]:
  "mg_current (count_reload s m) = mg_current m" "mg_initial (count_reload s m) = mg_initial m"
  by (simp_all add: count_reload_def)

lemma Manager_ResolveSystem_map: "Manager_ResolveSystem m = map_of (sn_systems (mg_current m))"
  by (rule ext) (simp add: Manager_ResolveSystem_def)

lemma NewManager_ok:
  assumes "NewManagerFromSource yaml env src poll metrics w = (Inr m, ms, w')"
  shows "manager_ok yaml m"
proof -
  obtain cand cfg where "buildCandidate yaml env src None w = (Inr (cand, cfg), w')" "mg_current m = cand" "mg_initial m = cfg"
    using assms by (auto simp: NewManagerFromSource_def split: if_splits prod.splits sum.splits)
  then show ?thesis
    using buildCandidate_result [of yaml env src None w cand cfg w'] immutableEqual_refl
    by (auto simp: manager_ok_def snapshot_of_def)
qed

text \<open>The three ends of a reload: nothing, the same snapshot, or a new one.\<close>

lemma ReloadContext_cases:
  assumes "ReloadContext yaml env src m w = (r, m', w')"
  obtains (failed) e where "r = Some e" "mg_current m' = mg_current m" "mg_initial m' = mg_initial m"
  | (same) cand cfg where "r = None" "buildCandidate yaml env src (Some (mg_initial m)) w = (Inr (cand, cfg), w')"
      "mg_current m' = mg_current m" "mg_initial m' = mg_initial m"
      "sn_version cand = sn_version (mg_current m)" "systemsEqual (sn_systems cand) (sn_systems (mg_current m))"
  | (published) cand cfg where "r = None" "buildCandidate yaml env src (Some (mg_initial m)) w = (Inr (cand, cfg), w')"
      "mg_current m' = cand" "mg_initial m' = mg_initial m" "sn_version cand \<noteq> sn_version (mg_current m)"
  using assms by (auto simp: ReloadContext_def split: if_splits prod.splits sum.splits)

lemma ReloadContext_ok:
  assumes "ReloadContext yaml env src m w = (r, m', w')" and "manager_ok yaml m"
  shows "manager_ok yaml m' \<and> mg_initial m' = mg_initial m"
proof (cases rule: ReloadContext_cases [OF assms(1)])
  case (3 cand cfg)
  from buildCandidate_result [OF 3(2)] 3(3,4) show ?thesis by (auto simp: manager_ok_def snapshot_of_def)
qed (use assms(2) in \<open>simp_all add: manager_ok_def\<close>)

lemma manager_reachable:
  assumes "(manager_step yaml)\<^sup>*\<^sup>* (m0, w0) (m, w)" and "manager_ok yaml m0"
  shows "manager_ok yaml m \<and> mg_initial m = mg_initial m0"
  using assms
proof (induction rule: rtranclp_induct2)
  case (step a u b v)
  then show ?case using ReloadContext_ok by (metis manager_stepE)
qed simp

section \<open>What a consumer is\<close>

lemma readSecretFile_nonempty: "readSecretFile env path = Inr v \<Longrightarrow> v \<noteq> []"
  by (auto simp: readSecretFile_def Let_def split: if_splits option.splits)

lemma resolveSecret_nonempty: "resolveSecret env lit file = Inr (Some v) \<Longrightarrow> v \<noteq> []"
  by (auto simp: resolveSecret_def Let_def split: if_splits sum.splits dest: readSecretFile_nonempty)

lemma unchecked_policy_enabled: "po_Enabled (unchecked_policy s) = system_enabled s"
  by (auto simp: unchecked_policy_def system_enabled_def New_policy_def Let_def split: option.splits)

lemma buildConsumer_result:
  assumes "buildConsumer env s version ttl = Some c"
  shows "co_ID c = sy_ID s" "co_Enabled c = system_enabled s"
    "\<exists>pol. buildPolicy s = Inr pol \<and> co_Policy c = Contract (pol\<lparr>po_Version := version, po_TTL := ttl\<rparr>)"
    "co_Enabled c \<Longrightarrow> sy_AllowAnonymous s \<or> co_APIKey c \<noteq> []"
  using assms unchecked_policy_enabled [of s]
  by (auto simp: buildConsumer_def buildPolicy_def Let_def isl_def dest: resolveSecret_nonempty
      split: sum.splits if_splits option.splits)

lemma configured_valid:
  assumes "Validate_config env c0 = Inr cfg" and "configured env' cfg k = Some c"
  shows "\<exists>s \<in> set (cf_Systems cfg). sy_ID s = k \<and> buildConsumer env' s (cf_Version cfg) (st_TTL (cf_Store cfg)) = Some c \<and>
    ValidateContract (co_Policy c) (allValidTypes cfg) = None"
proof -
  obtain s where s: "find (\<lambda>s. sy_ID s = k) (cf_Systems cfg) = Some s"
    "buildConsumer env' s (cf_Version cfg) (st_TTL (cf_Store cfg)) = Some c"
    using assms(2) by (auto simp: configured_def split: option.splits)
  then have "s \<in> set (cf_Systems cfg)" "sy_ID s = k" by (auto simp: find_Some_iff)
  moreover obtain pol where pol: "buildPolicy s = Inr pol"
    "co_Policy c = Contract (pol\<lparr>po_Version := cf_Version cfg, po_TTL := st_TTL (cf_Store cfg)\<rparr>)"
    using buildConsumer_result(3) [OF s(2)] by blast
  have "PolicyFor cfg k = Inr (pol\<lparr>po_Version := cf_Version cfg, po_TTL := st_TTL (cf_Store cfg)\<rparr>)"
    using s(1) pol(1) by (simp add: PolicyFor_def)
  moreover obtain p where "PolicyFor cfg (sy_ID s) = Inr p" "ValidateContract (Contract p) (allValidTypes cfg) = None"
    using validateSystems_valid(3) [OF Validate_config_checks(6) [OF assms(1)] \<open>s \<in> set (cf_Systems cfg)\<close>] by blast
  ultimately show ?thesis using s(2) pol(2) by auto
qed

text \<open>For an enabled system the resolver of the configuration itself gives the same consumer.\<close>

lemma configured_ResolveSystem:
  assumes "find (\<lambda>s. sy_ID s = k) (cf_Systems cfg) = Some s" and "system_enabled s"
  shows "ResolveSystem env cfg k = configured env cfg k"
proof -
  have "sy_ID s = k" using assms(1) by (auto simp: find_Some_iff)
  then show ?thesis
    using assms
    by (auto simp: ResolveSystem_def configured_def PolicyFor_def buildConsumer_def Let_def isl_def split: sum.splits option.splits)
qed

lemma manager_ok_consumer:
  assumes "manager_ok yaml m" and "Manager_ResolveSystem m k = Some c"
  obtains env doc cfg s where "parseDocument yaml env doc = Inr cfg" "immutableEqual cfg (mg_initial m)"
    "sn_version (mg_current m) = cf_Version cfg" "s \<in> set (cf_Systems cfg)" "sy_ID s = k" "k \<noteq> []"
    "buildConsumer env s (cf_Version cfg) (st_TTL (cf_Store cfg)) = Some c"
    "ValidateContract (co_Policy c) (allValidTypes cfg) = None"
proof -
  obtain env doc cfg where d: "parseDocument yaml env doc = Inr cfg" "immutableEqual cfg (mg_initial m)"
    "sn_version (mg_current m) = cf_Version cfg" "map_of (sn_systems (mg_current m)) = configured env cfg"
    using assms(1) by (auto simp: manager_ok_def snapshot_of_def)
  obtain c0 where v: "Validate_config env c0 = Inr cfg" using parsed_is_validated [OF d(1)] by blast
  then obtain s where s: "s \<in> set (cf_Systems cfg)" "sy_ID s = k"
    "buildConsumer env s (cf_Version cfg) (st_TTL (cf_Store cfg)) = Some c"
    "ValidateContract (co_Policy c) (allValidTypes cfg) = None"
    using configured_valid [of env c0 cfg env k c] assms(2) d(4) by (auto simp: Manager_ResolveSystem_def)
  with validateSystems_valid(3) [OF Validate_config_checks(6) [OF v]] have "k \<noteq> []" by blast
  with d s that show thesis by blast
qed

section \<open>Properties\<close>

text \<open>
  C18. Whatever reloads happen, from whatever sources and in whatever environments, a consumer that the manager gives
  out belongs to a system of an accepted document, has the version of the published snapshot and the lifetime of the
  first one, and a policy that is a valid contract over the categories the service was started with; and an enabled
  consumer has an API key unless its system allows anonymous access.
\<close>

theorem published_consumers_valid:
  assumes "NewManagerFromSource yaml env src poll metrics w = (Inr m0, ms, w0)"
    and "(manager_step yaml)\<^sup>*\<^sup>* (m0, w0) (m, w')" and "Manager_ResolveSystem m k = Some c"
  shows "\<exists>env doc cfg. parseDocument yaml env doc = Inr cfg \<and> immutableEqual cfg (Initial m0) \<and> Version m = cf_Version cfg \<and>
    co_ID c = k \<and> cp_Version (co_Policy c) = Version m \<and> cp_TTL (co_Policy c) = st_TTL (cf_Store (Initial m0)) \<and>
    ValidateContract (co_Policy c) (allValidTypes (Initial m0)) = None \<and>
    (\<exists>s \<in> set (cf_Systems cfg). sy_ID s = k \<and> co_Enabled c = system_enabled s \<and>
      (co_Enabled c \<longrightarrow> sy_AllowAnonymous s \<or> co_APIKey c \<noteq> []))"
proof -
  have ok: "manager_ok yaml m" "mg_initial m = mg_initial m0"
    using manager_reachable [OF assms(2) NewManager_ok [OF assms(1)]] by simp_all
  obtain env doc cfg s where d: "parseDocument yaml env doc = Inr cfg" "immutableEqual cfg (mg_initial m)"
    "sn_version (mg_current m) = cf_Version cfg" and s: "s \<in> set (cf_Systems cfg)" "sy_ID s = k" "k \<noteq> []"
    "buildConsumer env s (cf_Version cfg) (st_TTL (cf_Store cfg)) = Some c"
    and v: "ValidateContract (co_Policy c) (allValidTypes cfg) = None"
    by (rule manager_ok_consumer [OF ok(1) assms(3)])
  from buildConsumer_result [OF s(4)] s(1,2) v d ok(2) immutableEqual_types [of cfg "mg_initial m0"] show ?thesis
    by (auto simp: Initial_def Version_def Contract_def intro!: exI [of _ env] exI [of _ doc] bexI [of _ s])
qed

text \<open>
  C17. A reload is all or nothing. When it reports an error the published snapshot stays as it was. When it reports
  none, the document that was read has been accepted, its immutable fields agree with the first configuration, and
  the manager now resolves exactly the systems of this document, an enabled one as the configuration itself does; and
  if the version is the one that was published before, nobody sees a difference.
\<close>

theorem reload_all_or_nothing:
  assumes "manager_ok yaml m" and "ReloadContext yaml env src m w = (r, m', w')"
  shows "Initial m' = Initial m \<and> (r \<noteq> None \<longrightarrow> mg_current m' = mg_current m) \<and>
    (r = None \<longrightarrow> (\<exists>doc cfg. fst (src w) = Inr doc \<and> parseDocument yaml env doc = Inr cfg \<and> immutableEqual cfg (Initial m) \<and>
        Version m' = cf_Version cfg \<and> Manager_ResolveSystem m' = configured env cfg \<and>
        (\<forall>k s. find (\<lambda>s. sy_ID s = k) (cf_Systems cfg) = Some s \<longrightarrow> system_enabled s \<longrightarrow>
          Manager_ResolveSystem m' k = ResolveSystem env cfg k)) \<and>
      (Version m' = Version m \<longrightarrow> Manager_ResolveSystem m' = Manager_ResolveSystem m))"
proof (cases rule: ReloadContext_cases [OF assms(2)])
  case (1 e)
  then show ?thesis by (simp add: Initial_def)
next
  case (2 cand cfg)
  have "distinct (map fst (sn_systems (mg_current m)))" using assms(1) by (auto simp: manager_ok_def snapshot_of_def)
  with buildCandidate_result [OF 2(2)] systemsEqual_map [OF 2(6)] 2 configured_ResolveSystem [of _ cfg _ env]
  show ?thesis by (auto simp: Initial_def Version_def Manager_ResolveSystem_map)
next
  case (3 cand cfg)
  with buildCandidate_result [OF 3(2)] configured_ResolveSystem [of _ cfg _ env]
  show ?thesis by (auto simp: Initial_def Version_def Manager_ResolveSystem_map)
qed

section \<open>An example\<close>

definition sample_source :: "'a source" where
  "sample_source w = (Inr \<lparr>doc_Data = [], doc_Format = ''yaml'', doc_Revision = []\<rparr>, w)"

definition sample_yaml :: yaml_decoder where "sample_yaml data cfg = Some (sample_config, True)"

definition sample_consumer :: Consumer where
  "sample_consumer = \<lparr>co_ID = ''benchmark'', co_Enabled = True, co_APIKey = [],
     co_Policy = Contract ((unchecked_policy sample_system)\<lparr>po_Version := ''v1'', po_TTL := 24 * time_Hour\<rparr>)\<rparr>"

definition sample_manager :: Manager where
  "sample_manager = \<lparr>mg_pollInterval = 1, mg_metrics = None,
     mg_current = \<lparr>sn_version = ''v1'', sn_systems = [(''benchmark'', sample_consumer)]\<rparr>, mg_initial = sample_config, mg_ran = False\<rparr>"

lemma sample_consumer_built: "buildConsumer sample_environ sample_system ''v1'' (24 * time_Hour) = Some sample_consumer"
proof -
  have "Validate (unchecked_policy sample_system) = None" by code_simp
  then show ?thesis
    by (simp add: buildConsumer_def buildPolicy_def resolveSecret_def unchecked_policy_enabled system_enabled_def
        sample_system_def zero_system_def sample_consumer_def)
qed

lemma sample_candidate:
  "i = None \<or> i = Some sample_config \<Longrightarrow>
    buildCandidate sample_yaml sample_environ sample_source i w = (Inr (mg_current sample_manager, sample_config), w)"
  using sample_config_valid sample_consumer_built immutableEqual_refl [of sample_config]
  by (auto simp: buildCandidate_def sample_source_def parseDocument_def parseYAML_def sample_yaml_def sample_manager_def
      sample_config_def Default_config_def sample_system_def)

lemma sample_manager_starts:
  "NewManagerFromSource sample_yaml sample_environ sample_source 1 None w = (Inr sample_manager, None, w)"
  by (simp add: NewManagerFromSource_def sample_candidate record_status_def) (simp add: sample_manager_def)

lemma published_consumers_valid_witness:
  "Manager_ResolveSystem sample_manager ''benchmark'' = Some sample_consumer \<and>
   ValidateContract (co_Policy sample_consumer) (allValidTypes sample_config) = None"
proof -
  have "Manager_ResolveSystem sample_manager ''benchmark'' = Some sample_consumer"
    by (simp add: Manager_ResolveSystem_def sample_manager_def)
  with published_consumers_valid [OF sample_manager_starts rtranclp.rtrancl_refl this]
  show ?thesis by (auto simp: Initial_def sample_manager_def)
qed

lemma reload_all_or_nothing_witness:
  "\<forall>w :: world. fst (ReloadContext sample_yaml sample_environ sample_source sample_manager w) = None \<and>
   Version (fst (snd (ReloadContext sample_yaml sample_environ sample_source sample_manager w))) = ''v1''"
proof
  fix w :: world
  let ?r = "ReloadContext sample_yaml sample_environ sample_source sample_manager w"
  have "buildCandidate sample_yaml sample_environ sample_source (Some (mg_initial sample_manager)) w =
      (Inr (mg_current sample_manager, sample_config), w)"
    by (rule sample_candidate) (simp add: sample_manager_def)
  then have "fst ?r = None"
    by (auto simp: ReloadContext_def systemsEqual_def sample_manager_def consumerEqual_iff)
  moreover have "parseDocument sample_yaml sample_environ \<lparr>doc_Data = [], doc_Format = ''yaml'', doc_Revision = []\<rparr> = Inr sample_config"
    by (simp add: parseDocument_def parseYAML_def sample_yaml_def sample_config_valid)
  moreover have "cf_Version sample_config = ''v1''" by (simp add: sample_config_def Default_config_def)
  moreover obtain m' w' where r: "?r = (None, m', w')" using \<open>fst ?r = None\<close> by (cases ?r) auto
  ultimately show "fst ?r = None \<and> Version (fst (snd ?r)) = ''v1''"
    using reload_all_or_nothing [OF NewManager_ok [OF sample_manager_starts] r] by (auto simp: sample_source_def)
qed

end
