(* ===== verification/Startup_Properties.thy ===== *)
theory Startup_Properties
  imports Startup Manager_Properties Proxy_Properties
begin

text \<open>
  What holds of the service as \<^verbatim>\<open>cmd/proxy/main.go\<close> puts it together: the configuration, the registry of detectors, the
  manager with its reloads, the processor and the server fit.
\<close>

section \<open>Parts that fit\<close>

lemma ValidateContract_mono:
  assumes "ValidateContract pol valid = None" and "set valid \<subseteq> set valid'"
  shows "ValidateContract pol valid' = None"
proof -
  have k: "knownTypes ts valid \<Longrightarrow> knownTypes ts valid'" for ts using assms(2) by (auto simp: knownTypes_def list_all_iff)
  have r: "validateRules pol valid rs = None \<Longrightarrow> validateRules pol valid' rs = None" for rs
    unfolding validateRules_None using assms(2) by blast
  have "\<not> (\<not> ValidProfile (cp_DetectionProfile pol) \<or> cp_Version pol = [] \<or> cp_TTL pol \<le> 0 \<or>
      (cp_Mode pol \<noteq> ''tokens'' \<and> cp_Mode pol \<noteq> ''benchmark''))"
    "knownTypes (elems (cp_DetectTypes pol)) valid" "knownTypes (elems (cp_MaskTypes pol)) valid"
    "validateMaskTypes pol = None" "validateRules pol valid (cp_Rules pol) = None"
    using assms(1) by (simp_all add: ValidateContract_def split: if_split_asm option.split_asm)
  then show ?thesis unfolding ValidateContract_def using k r by simp
qed

lemma custom_supported: "SupportedTypes (custom_detector d) = [pd_typ d]"
  by (simp add: SupportedTypes_def custom_detector_def simple_detector_def)

lemma registry_types:
  assumes "CustomDetectors env cfg = Inr ds"
  shows "set (allValidTypes cfg) \<subseteq> set (SupportedTypeNames (NewRegistry (All @ map custom_detector ds)))"
proof -
  have "map pd_typ ds = map ct_Type (opt_list (cf_CustomPIITypes cfg))"
    using custom_detectors_types assms unfolding CustomDetectors_def by blast
  then have "ct_Type ` set (opt_list (cf_CustomPIITypes cfg)) = pd_typ ` set ds" by (metis set_map)
  then show ?thesis
    using builtin_types
    by (auto simp: allValidTypes_def BuiltinTypes_def SupportedTypeNames_def NewRegistry_def Let_def custom_supported)
qed

text \<open>What is true of the parts that a start has built.\<close>

lemma started:
  assumes "start_service pf opts w = (Some (Inr sr), w')"
  obtains src poll ms w1 w2 where "buildSource pf opts = Inr (src, poll)"
    "NewManagerFromSource (pf_yaml pf) (pf_env pf) src poll (Some (\<lambda>_. 0)) w = (Inr (sr_manager sr), ms, w1)"
    "validateDeploymentProfile (pf_env pf) (Initial (sr_manager sr)) = None"
    "buildComponents pf (Initial (sr_manager sr)) w1 = (Some (Inr (sr_parts sr)), w2)"
  using assms by (auto simp: start_service_def Let_def split: sum.splits option.splits prod.splits)

lemma built:
  assumes "buildComponents pf cfg w = (Some (Inr parts), w')"
  obtains comps ds where "buildStorage pf cfg w = (Inr comps, w')" "CustomDetectors (pf_env pf) cfg = Inr ds"
    "pr_registry (cm_proc parts) = NewRegistry (All @ map custom_detector ds)" "cm_store parts = cm_store comps"
    "pr_store (cm_proc parts) = cm_store comps"
    "sv_processor (cm_srv parts) = Some (processor_interface (cm_proc parts))"
    "sc_EnableGenerate (sv_config (cm_srv parts)) \<longleftrightarrow> cf_Runtime cfg = RuntimeTestGenerate"
    "cf_Runtime cfg \<noteq> RuntimeTestGenerate \<Longrightarrow> sv_provider (cm_srv parts) = None \<and> cm_provider parts = None"
proof -
  obtain comps u where st: "buildStorage pf cfg w = (Inr comps, u)"
    using assms by (cases "buildStorage pf cfg w"; cases "fst (buildStorage pf cfg w)") (simp_all add: buildComponents_def)
  obtain ds where ds: "CustomDetectors (pf_env pf) cfg = Inr ds"
    using assms st by (cases "CustomDetectors (pf_env pf) cfg") (simp_all add: buildComponents_def)
  note b = assms [unfolded buildComponents_def, simplified st ds Let_def, simplified]
  show thesis
  proof (cases "cf_Runtime cfg = RuntimeTestGenerate")
    case False
    with b have "u = w'" and p: "parts = \<lparr>cm_store = cm_store comps, cm_memoryStore = cm_memoryStore comps,
        cm_redisClient = cm_redisClient comps, cm_proc = cm_proc parts, cm_srv = cm_srv parts, cm_provider = None\<rparr>"
      "cm_proc parts = \<lparr>pr_store = cm_store comps, pr_registry = NewRegistry (All @ map custom_detector ds), pr_metrics = Some True,
        pr_sum256 = pf_sum256 pf, pr_hmac = pf_hmac pf\<rparr>"
      "cm_srv parts = NewServer (Some (processor_interface (cm_proc parts)))
        (Some (Check (Some (cm_store comps)) (Some (NewRegistry (All @ map custom_detector ds))))) (server_config cfg)"
      by auto
    then show ?thesis using st ds False by (intro that) (simp_all add: NewServer_def Let_def server_config_def)
  next
    case True
    then obtain pv provider where pv: "cf_Provider cfg = Some pv"
      "NewHTTPProvider (pf_url pf) (pv_BaseURL pv) (Some (pf_http pf (pv_Timeout pv))) (opt_list (pv_Models pv)) = Inr provider"
      using b by (auto split: option.splits sum.splits)
    with b True have "u = w'" and p: "cm_proc parts = \<lparr>pr_store = cm_store comps, pr_registry = NewRegistry (All @ map custom_detector ds),
        pr_metrics = Some True, pr_sum256 = pf_sum256 pf, pr_hmac = pf_hmac pf\<rparr>" "cm_store parts = cm_store comps"
      "cm_srv parts = ConfigureProvider (LLMProvider_of (pf_url pf) provider) (NewServer (Some (processor_interface (cm_proc parts)))
        (Some (Check (Some (cm_store comps)) (Some (NewRegistry (All @ map custom_detector ds))))) (server_config cfg))"
      by auto
    then show ?thesis using st ds True by (intro that) (simp_all add: ConfigureProvider_def NewServer_def Let_def server_config_def)
  qed
qed

lemma initial_configured:
  assumes "NewManagerFromSource yaml env src poll metrics w = (Inr m, ms, w')"
  shows "\<exists>doc c0. parseDocument yaml env doc = Inr (Initial m) \<and> Validate_config env c0 = Inr (Initial m) \<and>
    map_of (sn_systems (mg_current m)) = configured env (Initial m)"
proof -
  obtain cand cfg where c: "buildCandidate yaml env src None w = (Inr (cand, cfg), w')" "mg_current m = cand" "mg_initial m = cfg"
    using assms by (auto simp: NewManagerFromSource_def split: if_splits prod.splits sum.splits)
  from buildCandidate_result [OF c(1)] c(2,3) parsed_is_validated [of yaml env _ cfg] show ?thesis
    by (auto simp: Initial_def)
qed

lemma authorised_consumer:
  assumes "consumer (serving sr m d) r rw = Inr c"
  shows "\<exists>k. Manager_ResolveSystem m k = Some c" "co_Enabled c" "co_APIKey c = [] \<or> rq_APIKey r = co_APIKey c"
  using assms by (auto simp: consumer_def serving_def ConfigureSystems_def Let_def split: if_splits option.splits)

section \<open>The production profile\<close>






section \<open>Properties\<close>

text \<open>
  C23. The parts of the service agree on what a valid request is. Whatever reloads have happened, when the server
  admits a request for a consumer, the processor accepts the scope that the server builds for it: no request of an
  authorised caller is refused because of its tenant or its policy.
\<close>

theorem admitted_scopes_valid:
  assumes "start_service pf opts w = (Some (Inr sr), w0)"
    and "(manager_step (pf_yaml pf))\<^sup>*\<^sup>* (sr_manager sr, u) (m, u')"
    and "consumer (serving sr m d) r rw = Inr c" and "context_id \<noteq> []"
  shows "sv_processor (serving sr m d) = Some (processor_interface (cm_proc (sr_parts sr))) \<and>
    validate (cm_proc (sr_parts sr)) (scope_of c context_id) = None"
proof -
  obtain src poll ms w1 w2 where st:
    "NewManagerFromSource (pf_yaml pf) (pf_env pf) src poll (Some (\<lambda>_. 0)) w = (Inr (sr_manager sr), ms, w1)"
    "buildComponents pf (Initial (sr_manager sr)) w1 = (Some (Inr (sr_parts sr)), w2)"
    by (rule started [OF assms(1)])
  obtain ds where b: "CustomDetectors (pf_env pf) (Initial (sr_manager sr)) = Inr ds"
    "pr_registry (cm_proc (sr_parts sr)) = NewRegistry (All @ map custom_detector ds)"
    "sv_processor (cm_srv (sr_parts sr)) = Some (processor_interface (cm_proc (sr_parts sr)))"
    by (rule built [OF st(2)])
  have ok: "manager_ok (pf_yaml pf) m" "mg_initial m = mg_initial (sr_manager sr)"
    using manager_reachable [OF assms(2) NewManager_ok [OF st(1)]] by simp_all
  obtain k where "Manager_ResolveSystem m k = Some c" using authorised_consumer(1) [OF assms(3)] by blast
  from manager_ok_consumer [OF ok(1) this] obtain env cfg s where s: "immutableEqual cfg (mg_initial m)" "sy_ID s = k" "k \<noteq> []"
    "buildConsumer env s (cf_Version cfg) (st_TTL (cf_Store cfg)) = Some c"
    "ValidateContract (co_Policy c) (allValidTypes cfg) = None" by metis
  have "set (allValidTypes cfg) \<subseteq> set (SupportedTypeNames (pr_registry (cm_proc (sr_parts sr))))"
    using registry_types [OF b(1)] immutableEqual_types [OF s(1)] ok(2) b(2) by (simp add: Initial_def)
  from ValidateContract_mono [OF s(5) this] buildConsumer_result(1) [OF s(4)] s(2,3) b(3) assms(4)
  show ?thesis by (simp add: validate_def scope_of_def serving_def ConfigureSystems_def Let_def)
qed

text \<open>
  The start of the service never panics, whatever the configuration: the provider is read only in the mode in
  which the validation has asked for it.
\<close>

theorem startup_never_panics: "fst (start_service pf opts w) \<noteq> None"
proof
  assume "fst (start_service pf opts w) = None"
  then obtain src poll m ms w1 where m: "NewManagerFromSource (pf_yaml pf) (pf_env pf) src poll (Some (\<lambda>_. 0)) w = (Inr m, ms, w1)"
    and b: "fst (buildComponents pf (Initial m) w1) = None"
    by (auto simp: start_service_def Let_def split: sum.splits option.splits prod.splits)
  obtain c0 where "Validate_config (pf_env pf) c0 = Inr (Initial m)" using initial_configured [OF m] by blast
  from Validate_config_checks(3) [OF this] have "runtime_ok (Initial m)" by (simp add: validateRuntime_iff)
  then show False
    using b by (auto simp: buildComponents_def runtime_ok_def Let_def modes_differ split: sum.splits option.splits prod.splits if_splits)
qed


section \<open>An example\<close>

text \<open>A production service with one system, whose key, like that of the store, is in a file.\<close>

definition production_key :: bytes where "production_key = replicate 43 (CHR ''A'') @ ''=''"

definition production_environ :: environ where
  "production_environ =
     \<lparr>env_Getenv = (\<lambda>k. if k = ''ALFAGEN_DEPLOYMENT_PROFILE'' then ''production'' else []), env_Lstat = (\<lambda>p. Some (False, True)),
      env_ReadFile = (\<lambda>p. Some production_key), env_Compile = (\<lambda>e. None), env_ParseDuration = (\<lambda>s. None),
      env_ParseFloat = (\<lambda>ds. None)\<rparr>"

definition production_system :: SystemConfig where
  "production_system = zero_system\<lparr>sy_ID := ''benchmark'', sy_APIKeyFile := ''/api''\<rparr>"

definition production_config :: Config where
  "production_config = Default_config\<lparr>cf_Systems := [production_system],
     cf_Store := (cf_Store Default_config)\<lparr>st_Mode := ''redis'', st_RedisAddr := ''redis:6379''\<rparr>,
     cf_Security := (cf_Security Default_config)\<lparr>sec_ActiveKeyID := ''k1'', sec_EncryptionKeyFiles := Some [(''k1'', ''/key'')]\<rparr>\<rparr>"

text \<open>A later document, with the key of the system in it.\<close>

definition literal_system :: SystemConfig where
  "literal_system = production_system\<lparr>sy_APIKey := ''literal'', sy_APIKeyFile := []\<rparr>"

definition literal_config :: Config where
  "literal_config = production_config\<lparr>cf_Version := ''v2'', cf_Systems := [literal_system]\<rparr>"

definition production_platform :: "unit platform" where
  "production_platform =
     \<lparr>pf_env = production_environ, pf_yaml = (\<lambda>data cfg. Some (if data = [] then production_config else literal_config, True)),
      pf_crypto = plain_crypto sample_record, pf_sum256 = (\<lambda>s. s), pf_hmac = (\<lambda>k s. s), pf_url = (\<lambda>s. None), pf_kubernetes = Inl (ErrText []),
      pf_redis = (\<lambda>s. \<lparr>rc_Get = (\<lambda>k w. (Inr None, w)), rc_SetNX = (\<lambda>k v t w. (Inr True, w)), rc_Ping = (\<lambda>w. (None, w))\<rparr>),
      pf_http = (\<lambda>t u b w. (Inl (ErrText []), w)), pf_Listen = (\<lambda>a. None)\<rparr>"

definition production_options :: "unit runOptions" where
  "production_options = \<lparr>ro_configPath = [], ro_source = Some sample_source, ro_poll = 1\<rparr>"

lemma production_key_file: "readSecretFile production_environ (CHR ''/'' # p) = Inr production_key"
  by (simp add: readSecretFile_def production_environ_def IsAbs_def strings_HasPrefix_def strings_TrimSuffix_def
      strings_HasSuffix_def production_key_def)

lemma production_key_decodes: "DecodeKey production_key = Inr (replicate 32 (CHR 0x00))"
  by code_simp

lemma production_config_valid: "Validate_config production_environ production_config = Inr production_config"
proof -
  have "validateServer production_config = None" "cf_Version production_config \<noteq> []"
    by (simp_all add: validateServer_def production_config_def Default_config_def time_Second_def time_Hour_def)
  moreover have "validateRuntime production_config = Inr production_config"
    by (simp add: validateRuntime_def production_config_def Default_config_def RuntimeProcessOnly_def)
  moreover have "encryptionKeyAvailable production_environ production_config ''k1'' = Inr True"
    using production_key_file [of "''key''"]
    by (simp add: encryptionKeyAvailable_def production_config_def Default_config_def opt_list_def)
  then have "validateStore production_environ production_config = Inr production_config"
    by (simp add: validateStore_def validateRedis_def production_config_def Default_config_def time_Hour_def time_Second_def)
  moreover have "validateKeyFiles production_config = None"
    by (simp add: validateKeyFiles_def production_config_def Default_config_def opt_list_def IsAbs_def strings_HasPrefix_def)
  moreover have "validate_systems_loop production_config (allValidTypes production_config) [] (cf_Systems production_config) = Inr [''benchmark'']"
    by code_simp
  then have "validateSystems production_environ production_config = None"
    by (simp add: validateSystems_def validateCustomTypes_def production_config_def Default_config_def opt_list_def)
  ultimately show ?thesis by (simp add: Validate_config_def)
qed

definition production_consumer :: Consumer where
  "production_consumer = \<lparr>co_ID = ''benchmark'', co_Enabled = True, co_APIKey = production_key,
     co_Policy = Contract ((unchecked_policy production_system)\<lparr>po_Version := ''v1'', po_TTL := 24 * time_Hour\<rparr>)\<rparr>"

lemma production_consumer_built: "buildConsumer production_environ production_system ''v1'' (24 * time_Hour) = Some production_consumer"
proof -
  have "Validate (unchecked_policy production_system) = None" by code_simp
  then show ?thesis
    using production_key_file [of "''api''"]
    by (simp add: buildConsumer_def buildPolicy_def resolveSecret_def unchecked_policy_enabled system_enabled_def
        production_system_def zero_system_def production_consumer_def)
qed

lemma production_manager:
  "\<exists>m ms. NewManagerFromSource (pf_yaml production_platform) production_environ sample_source 1 metrics w = (Inr m, ms, w) \<and>
    Initial m = production_config \<and> Manager_ResolveSystem m ''benchmark'' = Some production_consumer \<and> Version m = ''v1''"
  using production_config_valid production_consumer_built
  by (simp add: NewManagerFromSource_def buildCandidate_def sample_source_def parseDocument_def parseYAML_def
      production_platform_def Initial_def Manager_ResolveSystem_def Version_def)
    (simp add: production_config_def Default_config_def production_system_def)

lemma production_gate_open: "validateDeploymentProfile production_environ production_config = None"
  by (simp add: validateDeploymentProfile_def validateProductionSystems_def getenv_or_def production_environ_def
      production_config_def Default_config_def deploymentProfileProduction_def deploymentProfileLocal_def opt_list_def
      production_system_def zero_system_def system_enabled_def)

lemma production_storage: "\<exists>comps. buildStorage production_platform production_config w = (Inr comps, w)"
proof -
  have "ResolvedEncryptionKeys production_environ production_config = Inr [(''k1'', production_key)]"
    using production_key_file [of "''key''"]
    by (simp add: ResolvedEncryptionKeys_def production_config_def Default_config_def opt_list_def)
  then have "\<exists>codec. buildCodec production_platform production_config = Inr codec"
    by (simp add: buildCodec_def production_platform_def production_key_decodes NewCodec_def)
      (simp add: production_config_def Default_config_def)
  then show ?thesis
    by (auto simp: buildStorage_def Let_def production_platform_def NewRedisStore_def)
      (simp_all add: production_config_def Default_config_def time_Hour_def)
qed

lemma production_starts:
  "\<exists>sr. start_service production_platform production_options w = (Some (Inr sr), w) \<and>
    Manager_ResolveSystem (sr_manager sr) ''benchmark'' = Some production_consumer \<and> Initial (sr_manager sr) = production_config \<and>
    sv_processor (cm_srv (sr_parts sr)) \<noteq> None \<and> Version (sr_manager sr) = ''v1''"
proof -
  obtain m ms where m: "NewManagerFromSource (pf_yaml production_platform) production_environ sample_source 1 (Some (\<lambda>_. 0)) w = (Inr m, ms, w)"
    "Initial m = production_config" "Manager_ResolveSystem m ''benchmark'' = Some production_consumer" "Version m = ''v1''"
    using production_manager by blast
  obtain comps where "buildStorage production_platform production_config w = (Inr comps, w)" using production_storage by blast
  moreover have "CustomDetectors (pf_env production_platform) production_config = Inr []" "cf_Runtime production_config \<noteq> RuntimeTestGenerate"
    by (simp_all add: CustomDetectors_def production_config_def Default_config_def opt_list_def RuntimeProcessOnly_def RuntimeTestGenerate_def)
  ultimately have "\<exists>parts. buildComponents production_platform production_config w = (Some (Inr parts), w)"
    by (simp add: buildComponents_def Let_def)
  then obtain parts where "buildComponents production_platform production_config w = (Some (Inr parts), w)" by blast
  then show ?thesis
    using m production_gate_open built [of production_platform production_config w parts w]
    by (auto simp: start_service_def buildSource_def production_options_def Let_def)
      (auto simp: production_platform_def)
qed

definition production_request :: http_request where
  "production_request = \<lparr>rq_Method = ''POST'', rq_Path = ''/process'', rq_SystemID = [], rq_APIKey = production_key, rq_RequestID = [],
     rq_Body = sample_body\<rparr>"

lemma production_admits:
  assumes "Manager_ResolveSystem (sr_manager sr) ''benchmark'' = Some production_consumer"
    and "Initial (sr_manager sr) = production_config" and "sv_processor (cm_srv (sr_parts sr)) \<noteq> None"
  shows "consumer (serving sr (sr_manager sr) False) production_request rw = Inr production_consumer"
  using assms
  by (auto simp: consumer_def serving_def ConfigureSystems_def Let_def draining_def production_request_def production_consumer_def
      production_config_def Default_config_def)

lemma admitted_scopes_valid_witness:
  "\<forall>w. \<exists>sr. start_service production_platform production_options w = (Some (Inr sr), w) \<and>
    validate (cm_proc (sr_parts sr)) (scope_of production_consumer ''id'') = None"
proof
  fix w
  obtain sr where sr: "start_service production_platform production_options w = (Some (Inr sr), w)"
    "consumer (serving sr (sr_manager sr) False) production_request new_recorder = Inr production_consumer"
    using production_starts [of w] production_admits by blast
  from admitted_scopes_valid [OF sr(1) rtranclp.rtrancl_refl sr(2), of "''id''"] sr(1)
  show "\<exists>sr. start_service production_platform production_options w = (Some (Inr sr), w) \<and>
    validate (cm_proc (sr_parts sr)) (scope_of production_consumer ''id'') = None" by auto
qed


section \<open>Reloads pass by the production profile\<close>

text \<open>
  The profile is checked when the service starts and not when it reloads. A later document whose
  system has its key in the document itself, which the same check refuses, is published all the
  same, and the service then admits callers with this key.
\<close>

definition literal_consumer :: Consumer where
  "literal_consumer = \<lparr>co_ID = ''benchmark'', co_Enabled = True, co_APIKey = ''literal'',
     co_Policy = Contract ((unchecked_policy literal_system)\<lparr>po_Version := ''v2'', po_TTL := 24 * time_Hour\<rparr>)\<rparr>"

definition literal_source :: "'a source" where
  "literal_source w = (Inr \<lparr>doc_Data = ''x'', doc_Format = ''yaml'', doc_Revision = []\<rparr>, w)"

lemma literal_refused: "validateDeploymentProfile production_environ literal_config \<noteq> None"
  by (simp add: validateDeploymentProfile_def validateProductionSystems_def getenv_or_def production_environ_def literal_config_def
      production_config_def Default_config_def deploymentProfileProduction_def deploymentProfileLocal_def opt_list_def
      literal_system_def production_system_def zero_system_def system_enabled_def)

lemma literal_config_valid: "Validate_config production_environ literal_config = Inr literal_config"
proof -
  have "validateServer literal_config = None" "cf_Version literal_config \<noteq> []"
    by (simp_all add: validateServer_def literal_config_def production_config_def Default_config_def time_Second_def time_Hour_def)
  moreover have "validateRuntime literal_config = Inr literal_config"
    by (simp add: validateRuntime_def literal_config_def production_config_def Default_config_def RuntimeProcessOnly_def)
  moreover have "encryptionKeyAvailable production_environ literal_config ''k1'' = Inr True"
    using production_key_file [of "''key''"]
    by (simp add: encryptionKeyAvailable_def literal_config_def production_config_def Default_config_def opt_list_def)
  then have "validateStore production_environ literal_config = Inr literal_config"
    by (simp add: validateStore_def validateRedis_def literal_config_def production_config_def Default_config_def time_Hour_def time_Second_def)
  moreover have "validateKeyFiles literal_config = None"
    by (simp add: validateKeyFiles_def literal_config_def production_config_def Default_config_def opt_list_def IsAbs_def strings_HasPrefix_def)
  moreover have "validate_systems_loop literal_config (allValidTypes literal_config) [] (cf_Systems literal_config) = Inr [''benchmark'']"
    by code_simp
  then have "validateSystems production_environ literal_config = None"
    by (simp add: validateSystems_def validateCustomTypes_def literal_config_def production_config_def Default_config_def opt_list_def)
  ultimately show ?thesis by (simp add: Validate_config_def)
qed

lemma literal_consumer_built: "buildConsumer production_environ literal_system ''v2'' (24 * time_Hour) = Some literal_consumer"
proof -
  have "Validate (unchecked_policy literal_system) = None" by code_simp
  moreover have "resolveSecret production_environ ''literal'' [] = Inr (Some ''literal'')" by code_simp
  ultimately show ?thesis
    by (simp add: buildConsumer_def buildPolicy_def unchecked_policy_enabled system_enabled_def
        literal_system_def production_system_def zero_system_def literal_consumer_def)
qed

lemma literal_candidate:
  "buildCandidate (pf_yaml production_platform) production_environ literal_source (Some production_config) w =
    (Inr (\<lparr>sn_version = ''v2'', sn_systems = [(''benchmark'', literal_consumer)]\<rparr>, literal_config), w)"
proof -
  have "immutableEqual literal_config production_config"
    using immutableEqual_refl [of production_config] by (simp add: literal_config_def immutableEqual_def)
  then show ?thesis
    using literal_config_valid literal_consumer_built
    by (simp add: buildCandidate_def literal_source_def parseDocument_def parseYAML_def production_platform_def)
      (simp add: literal_config_def production_config_def Default_config_def literal_system_def production_system_def)
qed

lemma reload_bypasses_gate:
  "\<exists>sr m. start_service production_platform production_options w = (Some (Inr sr), w) \<and>
    ReloadContext (pf_yaml production_platform) production_environ literal_source (sr_manager sr) w = (None, m, w) \<and>
    validateDeploymentProfile production_environ literal_config \<noteq> None \<and>
    consumer (serving sr m False) (production_request\<lparr>rq_APIKey := ''literal''\<rparr>) new_recorder = Inr literal_consumer"
proof -
  obtain sr where sr: "start_service production_platform production_options w = (Some (Inr sr), w)"
    "Initial (sr_manager sr) = production_config" "sv_processor (cm_srv (sr_parts sr)) \<noteq> None"
    "Version (sr_manager sr) = ''v1''"
    using production_starts [of w] by blast
  let ?m = "count_reload ''success'' ((sr_manager sr)\<lparr>mg_current := \<lparr>sn_version = ''v2'', sn_systems = [(''benchmark'', literal_consumer)]\<rparr>\<rparr>)"
  have "ReloadContext (pf_yaml production_platform) production_environ literal_source (sr_manager sr) w = (None, ?m, w)"
    using literal_candidate [of w] sr(2,4) by (simp add: ReloadContext_def Initial_def Version_def)
  moreover have "consumer (serving sr ?m False) (production_request\<lparr>rq_APIKey := ''literal''\<rparr>) new_recorder = Inr literal_consumer"
    using sr(2,3)
    by (auto simp: consumer_def serving_def ConfigureSystems_def Let_def draining_def production_request_def literal_consumer_def
        Manager_ResolveSystem_def production_config_def Default_config_def)
  ultimately show ?thesis using sr(1) literal_refused by blast
qed

end
