(* ===== verification/Mock_Markers.thy ===== *)
theory Mock_Markers
  imports Markers Context "HOL-Library.Multiset"
begin

text \<open>
  The transformations of \<^verbatim>\<open>internal/mock/llm/server.go\<close>: the mock of the language model returns a text as it is, with
  its markers in another order, or with one marker spoiled. What \<^verbatim>\<open>math/rand\<close> draws is a parameter: a permutation of
  the first numbers and a number below a bound, for each seed.
\<close>

section \<open>The code\<close>

definition upper_items :: "class_item list" where
  "upper_items = [ClsRange 0x41 0x5A, ClsRange 0x5F 0x5F]"

definition markerRe :: regex where
  "markerRe =
     Cat [Lit [0x3C] False, Plus (Cls False False upper_items), Lit [0x5F] False,
       Rep 32 (Some 32) (Cls False False hex_items), Lit [0x5F] False, Plus (Cls False False digit_items), Lit [0x3E] False]"

record marker =
  mk_start :: nat
  mk_end :: nat
  mk_value :: bytes

definition findMarkers :: "bytes \<Rightarrow> marker list" where
  "findMarkers text =
     map (\<lambda>m. \<lparr>mk_start = rm_start m, mk_end = rm_end m, mk_value = gslice text (rm_start m) (rm_end m)\<rparr>)
       (regexp_FindAll markerRe text)"

definition isIdentity :: "nat list \<Rightarrow> bool" where
  "isIdentity perm \<longleftrightarrow> list_all (\<lambda>(i, p). p = i) (zip [0..<length perm] perm)"

definition swap_at :: "'a list \<Rightarrow> nat \<Rightarrow> nat \<Rightarrow> 'a list" where
  "swap_at xs i j = xs[i := xs ! j, j := xs ! i]"

text \<open>The last resort when equal markers trade places: the first element goes where a different one is.\<close>

definition move_first :: "'a list \<Rightarrow> 'a list" where
  "move_first xs = (case find (\<lambda>i. xs ! i \<noteq> xs ! 0) [1..<length xs] of None \<Rightarrow> xs | Some i \<Rightarrow> swap_at xs 0 i)"

fun rewrite_markers :: "bytes \<Rightarrow> nat \<Rightarrow> marker list \<Rightarrow> bytes list \<Rightarrow> bytes" where
  "rewrite_markers text from (m # ms) (v # vs) = gslice text from (mk_start m) @ v @ rewrite_markers text (mk_end m) ms vs"
| "rewrite_markers text from _ _ = drop from text"

definition reorder :: "(64 word \<Rightarrow> nat \<Rightarrow> nat list) \<Rightarrow> 64 word \<Rightarrow> bytes \<Rightarrow> bytes" where
  "reorder perm_of seed text =
     (let ms = findMarkers text; vals = map mk_value ms in
      if length ms < 2 then text
      else if length (remdups vals) < 2 then text
      else
        (let perm = perm_of (seed + of_nat (length ms)) (length ms);
             perm = (if isIdentity perm then swap_at perm 0 1 else perm);
             reordered = map (\<lambda>p. vals ! p) perm;
             reordered = (if vals = reordered then move_first reordered else reordered)
         in rewrite_markers text 0 ms reordered))"

text \<open>\<^const>\<open>None\<close> is the panic of a slice that is out of range.\<close>

definition corrupt :: "(64 word \<Rightarrow> nat \<Rightarrow> nat) \<Rightarrow> 64 word \<Rightarrow> bytes \<Rightarrow> bytes option" where
  "corrupt intn seed text =
     (let ms = findMarkers text in
      if ms = [] then Some text
      else
        (let chosen = ms ! intn (seed + of_nat (length ms)) (length ms) in
         case strings_LastIndexByte (mk_value chosen) (CHR ''_'') of
           None \<Rightarrow> None
         | Some counterSep \<Rightarrow>
             (let nonceStart = (case strings_LastIndexByte (take counterSep (mk_value chosen)) (CHR ''_'') of
                    None \<Rightarrow> 0
                  | Some nonceSep \<Rightarrow> nonceSep + 1);
                  pos = mk_start chosen + nonceStart
              in if pos < length text then Some (take pos text @ ''g'' @ drop (pos + 1) text) else None)))"

definition ModeEcho :: bytes where "ModeEcho = ''echo''"
definition ModeReorder :: bytes where "ModeReorder = ''reorder''"
definition ModeCorrupt :: bytes where "ModeCorrupt = ''corrupt''"

record rand_source =
  rd_Perm :: "64 word \<Rightarrow> nat \<Rightarrow> nat list"
  rd_Intn :: "64 word \<Rightarrow> nat \<Rightarrow> nat"

definition transform :: "rand_source \<Rightarrow> bytes \<Rightarrow> 64 word \<Rightarrow> bytes \<Rightarrow> bytes option" where
  "transform rd mode seed text =
     (if mode = ModeReorder then Some (reorder (rd_Perm rd) seed text)
      else if mode = ModeCorrupt then corrupt (rd_Intn rd) seed text
      else Some text)"

text \<open>What the documentation of \<^verbatim>\<open>math/rand\<close> says of the two functions.\<close>

definition rand_ok :: "rand_source \<Rightarrow> bool" where
  "rand_ok rd \<longleftrightarrow> (\<forall>s n. mset (rd_Perm rd s n) = mset [0..<n]) \<and> (\<forall>s n. 0 < n \<longrightarrow> rd_Intn rd s n < n)"

section \<open>What the expression matches\<close>

text \<open>The shape of a marker whose category is written with the given characters.\<close>

definition marker_shape :: "class_item list \<Rightarrow> bytes \<Rightarrow> nat \<Rightarrow> nat \<Rightarrow> bool" where
  "marker_shape items s i j \<longleftrightarrow>
     (\<exists>a e. i < length s \<and> s ! i = CHR ''<'' \<and> Suc i < a \<and> class_run items s (Suc i) a \<and>
        a < length s \<and> s ! a = CHR ''_'' \<and> class_run hex_items s (Suc a) (a + 33) \<and>
        a + 33 < length s \<and> s ! (a + 33) = CHR ''_'' \<and> a + 34 < e \<and> class_run digit_items s (a + 34) e \<and>
        e < length s \<and> s ! e = CHR ''>'' \<and> j = Suc e)"

lemma marker_at_shape: "marker_at = marker_shape type_items"
  by (intro ext) (simp add: marker_at_def marker_shape_def)

lemma upper_ascii: "ascii_class upper_items"
  by (auto simp: ascii_class_def upper_items_def class_match_def)

lemma upper_in_type: "in_class upper_items ch \<Longrightarrow> in_class type_items ch"
  by (auto simp: in_class_def upper_items_def type_items_def class_match_def)

lemma upper_shape: "marker_shape upper_items s i j \<Longrightarrow> marker_at s i j"
  unfolding marker_at_shape marker_shape_def class_run_def using upper_in_type by blast

lemma markerRe_iff: "(\<exists>d. (j, d) \<in> set (rm s markerRe (i, c))) \<longleftrightarrow> marker_shape upper_items s i j"
proof -
  have chars: "char_of (0x3C::nat) = CHR ''<''" "char_of (0x5F::nat) = CHR ''_''" "char_of (0x3E::nat) = CHR ''>''"
    by (simp_all add: char_of_def bit_Suc_0_iff)
  have lit: "(y, d') \<in> set (rm s (Lit [l] False) (x, d)) \<longleftrightarrow> x < length s \<and> s ! x = char_of l \<and> y = Suc x \<and> d' = d"
    if "l < 0x80" for l x y d d'
    using lit_ascii [OF that] that by (auto simp: byte_eq_char)
  note cls = plus_class [OF upper_ascii] plus_class [OF items_ascii(3)] rep_class [OF items_ascii(2)]
  have "(\<exists>d. (j, d) \<in> set (rm s markerRe (i, c))) \<longleftrightarrow>
    (\<exists>a e. i < length s \<and> s ! i = CHR ''<'' \<and> (Suc i < a \<and> class_run upper_items s (Suc i) a) \<and>
        a < length s \<and> s ! a = CHR ''_'' \<and> class_run hex_items s (Suc a) (Suc a + 32) \<and>
        Suc a + 32 < length s \<and> s ! (Suc a + 32) = CHR ''_'' \<and>
        (Suc (Suc a + 32) < e \<and> class_run digit_items s (Suc (Suc a + 32)) e) \<and>
        e < length s \<and> s ! e = CHR ''>'' \<and> j = Suc e)"
    unfolding markerRe_def rm.simps(9) in_rm_cat in_rm_cat_Nil
    by (simp del: rm.simps rm_cat.simps add: lit cls chars) blast
  then show ?thesis by (simp add: marker_shape_def add.commute)
qed

lemma findMarkers_shape:
  assumes "m \<in> set (findMarkers text)"
  shows "marker_shape upper_items text (mk_start m) (mk_end m)" "mk_value m = gslice text (mk_start m) (mk_end m)"
proof -
  obtain r where r: "r \<in> set (regexp_FindAll markerRe text)" "mk_start m = rm_start r" "mk_end m = rm_end r"
    "mk_value m = gslice text (rm_start r) (rm_end r)"
    using assms by (auto simp: findMarkers_def)
  obtain a b t where "rm text markerRe (rm_start r, Map.empty) = (a, b) # t" "\<lparr>rm_start = rm_start r, rm_end = a, rm_groups = b\<rparr> = r"
    using FindAll_match_at [OF r(1)] by (auto simp: match_at_def split: list.splits)
  then have "\<exists>d. (rm_end r, d) \<in> set (rm text markerRe (rm_start r, Map.empty))"
    by (metis list.set_intros(1) rmatch.select_convs(2))
  with r show "marker_shape upper_items text (mk_start m) (mk_end m)" "mk_value m = gslice text (mk_start m) (mk_end m)"
    unfolding markerRe_iff by simp_all
qed

text \<open>Whether there is a marker depends on its bytes only.\<close>

lemma class_run_local:
  assumes "class_run items s (i + x) (i + y)" and "i' + y \<le> length t" and "\<forall>k < y. t ! (i' + k) = s ! (i + k)"
  shows "class_run items t (i' + x) (i' + y)"
  unfolding class_run_def
proof (intro conjI ballI)
  show "i' + x \<le> i' + y" "i' + y \<le> length t" using assms(1,2) by (simp_all add: class_run_def)
  fix k assume "k \<in> {i' + x..<i' + y}"
  then obtain k' where "k = i' + k'" "x \<le> k'" "k' < y" by (metis atLeastLessThan_iff le_Suc_ex nat_add_left_cancel_le nat_add_left_cancel_less le_add1 le_trans)
  with assms(1,3) show "in_class items (t ! k)" by (simp add: class_run_def)
qed

lemma marker_shape_local:
  assumes "marker_shape items s i (i + n)" and "i' + n \<le> length t" and "\<forall>k < n. t ! (i' + k) = s ! (i + k)"
  shows "marker_shape items t i' (i' + n)"
proof -
  obtain a e where ae: "s ! i = CHR ''<''" "Suc i < a" "class_run items s (Suc i) a" "s ! a = CHR ''_''"
    "class_run hex_items s (Suc a) (a + 33)" "s ! (a + 33) = CHR ''_''" "a + 34 < e" "class_run digit_items s (a + 34) e"
    "s ! e = CHR ''>''" "i + n = Suc e"
    using assms(1) by (auto simp: marker_shape_def)
  define b f where "b = a - i" and "f = e - i"
  then have bf: "a = i + b" "e = i + f" "n = Suc f" "1 < b" "b + 34 < f" using ae(2,7,10) by simp_all
  have eq: "t ! (i' + k) = s ! (i + k)" if "k < n" for k using assms(3) that by blast
  have run: "class_run it s (i + x) (i + y) \<Longrightarrow> y \<le> n \<Longrightarrow> class_run it t (i' + x) (i' + y)" for it x y
    using class_run_local [of it s i x y i' t] assms(2,3) by simp
  show ?thesis
    unfolding marker_shape_def
    by (intro exI [of _ "i' + b"] exI [of _ "i' + f"])
      (use ae bf assms(2) eq [of 0] eq [of b] eq [of "b + 33"] eq [of f] run [of items 1 b] run [of hex_items "b + 1" "b + 33"]
        run [of digit_items "b + 34" f] in \<open>simp add: add.assoc\<close>)
qed

lemma marker_shape_bounds: "marker_shape items s i j \<Longrightarrow> i < j \<and> j \<le> length s"
  by (auto simp: marker_shape_def)

section \<open>A spoiled marker\<close>

lemma items_no_underscore: "in_class hex_items ch \<Longrightarrow> ch \<noteq> CHR ''_''" "in_class digit_items ch \<Longrightarrow> ch \<noteq> CHR ''_''"
  by (auto simp: in_class_def items_defs class_match_def byte_def)

lemma no_g_in_class: "\<not> in_class type_items (CHR ''g'')" "\<not> in_class hex_items (CHR ''g'')" "\<not> in_class digit_items (CHR ''g'')"
  by (simp_all add: in_class_def items_defs class_match_def byte_def)

lemma IndexByte_append: "c \<notin> set xs \<Longrightarrow> strings_IndexByte (xs @ c # ys) c = Some (length xs)"
  by (induction xs) auto

lemma LastIndexByte_eq:
  assumes "i < length s" and "s ! i = c" and "\<And>k. i < k \<Longrightarrow> k < length s \<Longrightarrow> s ! k \<noteq> c"
  shows "strings_LastIndexByte s c = Some i"
proof -
  have s: "rev s = rev (drop (Suc i) s) @ c # rev (take i s)"
    using assms(1,2) by (metis id_take_nth_drop rev.simps(2) rev_append append.assoc append_Cons append_Nil)
  have "c \<notin> set (rev (drop (Suc i) s))"
  proof
    assume "c \<in> set (rev (drop (Suc i) s))"
    then obtain k where "k < length s - Suc i" "drop (Suc i) s ! k = c" by (auto simp: in_set_conv_nth)
    with assms(3) [of "Suc i + k"] show False by simp
  qed
  then have "strings_IndexByte (rev s) c = Some (length s - Suc i)" unfolding s by (subst IndexByte_append) simp_all
  then show ?thesis using assms(1) by (simp add: strings_LastIndexByte_def)
qed

text \<open>The first digit of the number behind the category, as the code finds it.\<close>

lemma nonce_position:
  assumes "marker_shape items s i j" and "v = gslice s i j"
  shows "\<exists>a. strings_LastIndexByte v (CHR ''_'') = Some (a + 33) \<and> strings_LastIndexByte (take (a + 33) v) (CHR ''_'') = Some a \<and>
    0 < a \<and> i + a + 34 < j \<and> in_class hex_items (s ! (i + a + 1))"
proof -
  obtain b e where be: "i < length s" "Suc i < b" "s ! b = CHR ''_''" "class_run hex_items s (Suc b) (b + 33)" "s ! (b + 33) = CHR ''_''"
    "b + 34 < e" "class_run digit_items s (b + 34) e" "e < length s" "s ! e = CHR ''>''" "j = Suc e"
    using assms(1) by (auto simp: marker_shape_def)
  define a where "a = b - i"
  then have b: "b = i + a" "0 < a" using be(2) by simp_all
  have v: "v ! k = s ! (i + k)" if "k < j - i" for k
    using that assms(2) be(1,8,10) by (simp add: gslice_def)
  have len: "length v = j - i" using assms(2) be(8,10) by (simp add: gslice_def)
  have "strings_LastIndexByte v (CHR ''_'') = Some (a + 33)"
  proof (rule LastIndexByte_eq)
    show "a + 33 < length v" "v ! (a + 33) = CHR ''_''" using be(5,6,10) b v [of "a + 33"] len by (simp_all add: add.assoc)
    fix k assume k: "a + 33 < k" "k < length v"
    then have "i + k = e \<or> b + 34 \<le> i + k \<and> i + k < e" using be(10) b len by auto
    then show "v ! k \<noteq> CHR ''_''"
      using v [of k] k(2) len be(7,9) items_no_underscore(2) by (auto simp: class_run_def)
  qed
  moreover have "strings_LastIndexByte (take (a + 33) v) (CHR ''_'') = Some a"
  proof (rule LastIndexByte_eq)
    show "a < length (take (a + 33) v)" "take (a + 33) v ! a = CHR ''_''" using be(3,6,10) b v [of a] len by simp_all
    fix k assume k: "a < k" "k < length (take (a + 33) v)"
    then have "Suc b \<le> i + k \<and> i + k < b + 33" using b len by auto
    then show "take (a + 33) v ! k \<noteq> CHR ''_''"
      using v [of k] k(2) len be(4) items_no_underscore(1) by (auto simp: class_run_def)
  qed
  moreover have "in_class hex_items (s ! (i + a + 1))" using be(4) b by (auto simp: class_run_def)
  ultimately show ?thesis using b be(6,10) by (intro exI [of _ a]) simp
qed

text \<open>No marker has a letter g after its first character, and the first one is not a letter.\<close>

lemma marker_no_g: "marker_at s i j \<Longrightarrow> i \<le> k \<Longrightarrow> k < j \<Longrightarrow> s ! k \<noteq> CHR ''g''"
proof -
  assume m: "marker_at s i j" and k: "i \<le> k" "k < j"
  obtain a e where ae: "s ! i = CHR ''<''" "Suc i < a" "class_run type_items s (Suc i) a" "s ! a = CHR ''_''"
      "class_run hex_items s (Suc a) (a + 33)" "s ! (a + 33) = CHR ''_''" "a + 34 < e"
      "class_run digit_items s (a + 34) e" "e < length s" "s ! e = CHR ''>''" "j = Suc e"
    using m by (auto simp: marker_at_def)
  from k ae(11) consider "k = i" | "k \<in> {Suc i..<a}" | "k = a" | "k \<in> {Suc a..<a + 33}" | "k = a + 33" | "k \<in> {a + 34..<e}" | "k = e"
    by fastforce
  then show "s ! k \<noteq> CHR ''g''" using ae no_g_in_class by cases (auto simp: class_run_def, (metis atLeastLessThan_iff)+)
qed

text \<open>Another byte changes the markers that contain it and no other.\<close>

lemma markers_after_g:
  assumes "pos < length s"
  shows "marker_at (s[pos := CHR ''g'']) i j \<longleftrightarrow> marker_at s i j \<and> \<not> (i \<le> pos \<and> pos < j)"
proof -
  let ?t = "s[pos := CHR ''g'']"
  have eq: "marker_at u i j \<Longrightarrow> marker_at t i j"
    if "length t = length u" "\<forall>k. k \<noteq> pos \<longrightarrow> t ! k = u ! k" "\<not> (i \<le> pos \<and> pos < j)" for t u
  proof -
    assume m: "marker_at u i j"
    then have ij: "i < j" "j \<le> length u" using marker_shape_bounds unfolding marker_at_shape by blast+
    have "\<forall>k < j - i. t ! (i + k) = u ! (i + k)" using that(2,3) by auto
    then show "marker_at t i j"
      using marker_shape_local [of type_items u i "j - i" i t] m ij that(1) unfolding marker_at_shape by simp
  qed
  have "\<not> (i \<le> pos \<and> pos < j)" if "marker_at ?t i j" using marker_no_g [OF that, of pos] assms by auto
  then show ?thesis using eq [of ?t s] eq [of s ?t] by (auto simp: nth_list_update)
qed

lemma corrupt_result:
  assumes "\<forall>s n. 0 < n \<longrightarrow> intn s n < n" and "findMarkers text \<noteq> []"
  shows "\<exists>m pos. m \<in> set (findMarkers text) \<and> mk_start m < pos \<and> pos < mk_end m \<and> in_class hex_items (text ! pos) \<and>
    pos < length text \<and> corrupt intn seed text = Some (text[pos := CHR ''g''])"
proof -
  let ?ms = "findMarkers text"
  define m where "m = ?ms ! intn (seed + of_nat (length ?ms)) (length ?ms)"
  have m: "m \<in> set ?ms" using assms by (simp add: m_def)
  note sh = findMarkers_shape [OF m]
  obtain a where a: "strings_LastIndexByte (mk_value m) (CHR ''_'') = Some (a + 33)"
    "strings_LastIndexByte (take (a + 33) (mk_value m)) (CHR ''_'') = Some a" "mk_start m + a + 34 < mk_end m"
    "in_class hex_items (text ! (mk_start m + a + 1))"
    using nonce_position [OF sh] by blast
  have pos: "mk_start m + a + 1 < length text" using marker_shape_bounds [OF sh(1)] a(3) by simp
  have "text[mk_start m + a + 1 := CHR ''g''] = take (mk_start m + a + 1) text @ ''g'' @ drop (mk_start m + a + 1 + 1) text"
    using upd_conv_take_nth_drop [OF pos] by simp
  with m a pos assms(2) show ?thesis
    by (intro exI [of _ m] exI [of _ "mk_start m + a + 1"]) (simp add: corrupt_def Let_def m_def [symmetric])
qed

section \<open>Markers in another order\<close>

lemma found_is_marker: "m \<in> set (findMarkers text) \<Longrightarrow> is_marker (mk_value m)"
proof -
  assume m: "m \<in> set (findMarkers text)"
  note sh = findMarkers_shape [OF m]
  have b: "mk_start m < mk_end m" "mk_end m \<le> length text" using marker_shape_bounds [OF sh(1)] by simp_all
  have eq: "\<forall>k < mk_end m - mk_start m. mk_value m ! (0 + k) = text ! (mk_start m + k)"
    using b by (simp add: sh(2) gslice_def)
  have len: "0 + (mk_end m - mk_start m) \<le> length (mk_value m)" using b by (simp add: sh(2) gslice_def)
  have "marker_shape type_items text (mk_start m) (mk_start m + (mk_end m - mk_start m))"
    using upper_shape [OF sh(1)] b(1) by (simp add: marker_at_shape)
  from marker_shape_local [OF this len eq]
  have "marker_shape type_items (mk_value m) 0 (mk_end m - mk_start m)" by simp
  then show ?thesis using b by (simp add: is_marker_def marker_at_shape sh(2) gslice_def)
qed

lemma marker_prefix_free: "is_marker v \<Longrightarrow> is_marker u \<Longrightarrow> v @ x = u @ y \<Longrightarrow> v = u \<and> x = y"
  using marker_at_shift [of v 0 "length v" "[]" x] marker_at_shift [of u 0 "length u" "[]" y]
    marker_at_unique [of "v @ x" 0 "length v" "length u"] by (simp add: is_marker_def)

lemma rewrite_same:
  assumes "sorted_wrt (\<lambda>a b. mk_end a \<le> mk_start b) ms" and "\<forall>m \<in> set ms. from \<le> mk_start m \<and> mk_start m \<le> mk_end m \<and>
    mk_end m \<le> length text \<and> mk_value m = gslice text (mk_start m) (mk_end m)"
  shows "rewrite_markers text from ms (map mk_value ms) = drop from text"
  using assms
proof (induction ms arbitrary: "from")
  case (Cons m ms)
  have "rewrite_markers text (mk_end m) ms (map mk_value ms) = drop (mk_end m) text"
    by (rule Cons.IH) (use Cons.prems in auto)
  moreover have "drop from text = gslice text from (mk_start m) @ drop (mk_start m) text"
    "drop (mk_start m) text = gslice text (mk_start m) (mk_end m) @ drop (mk_end m) text"
    using Cons.prems(2) by (simp_all add: gslice_def)
      (metis append_take_drop_id drop_drop le_add_diff_inverse2)+
  ultimately show ?case using Cons.prems(2) by simp
qed simp

lemma rewrite_inject:
  assumes "length us = length ms" and "length vs = length ms" and "\<forall>v \<in> set us \<union> set vs. is_marker v"
    and "rewrite_markers text from ms us = rewrite_markers text from ms vs"
  shows "us = vs"
  using assms
proof (induction ms arbitrary: "from" us vs)
  case (Cons m ms)
  obtain u us' v vs' where uv: "us = u # us'" "vs = v # vs'" using Cons.prems(1,2) by (cases us; cases vs) auto
  have "u @ rewrite_markers text (mk_end m) ms us' = v @ rewrite_markers text (mk_end m) ms vs'" using Cons.prems(4) uv by simp
  with marker_prefix_free [of u v] Cons.prems(3) uv
  have "u = v" "rewrite_markers text (mk_end m) ms us' = rewrite_markers text (mk_end m) ms vs'" by auto
  with Cons.IH [of us' vs' "mk_end m"] Cons.prems uv show ?case by auto
qed simp

lemma findMarkers_text: "rewrite_markers text 0 (findMarkers text) (map mk_value (findMarkers text)) = text"
proof -
  have "sorted_wrt (\<lambda>a b. mk_end a \<le> mk_start b) (findMarkers text)"
    using FindAll_ordered [of markerRe "text"] by (simp add: findMarkers_def sorted_wrt_map)
  then show ?thesis
    using rewrite_same [of "findMarkers text" 0 "text"] findMarkers_shape marker_shape_bounds by (fastforce simp: less_imp_le)
qed

lemma mset_swap_at: "i < length xs \<Longrightarrow> j < length xs \<Longrightarrow> mset (swap_at xs i j) = mset xs"
  by (simp add: swap_at_def mset_swap)

lemma length_swap_at [simp]: "length (swap_at xs i j) = length xs"
  by (simp add: swap_at_def)

lemma move_first_ok:
  assumes "2 \<le> card (set xs)"
  shows "mset (move_first xs) = mset xs" "move_first xs \<noteq> xs"
proof -
  have "find (\<lambda>i. xs ! i \<noteq> xs ! 0) [1..<length xs] \<noteq> None"
  proof
    assume "find (\<lambda>i. xs ! i \<noteq> xs ! 0) [1..<length xs] = None"
    then have "xs ! i = xs ! 0" if "i < length xs" for i using that by (cases i) (auto simp: find_None_iff)
    then have "set xs \<subseteq> {xs ! 0}" by (auto simp: in_set_conv_nth)
    then have "card (set xs) \<le> card {xs ! 0}" by (rule card_mono [rotated]) simp
    with assms show False by simp
  qed
  then obtain i where i: "find (\<lambda>i. xs ! i \<noteq> xs ! 0) [1..<length xs] = Some i" by blast
  then obtain k where "k < length xs - 1" "xs ! i \<noteq> xs ! 0" "i = Suc k" by (auto simp: find_Some_iff)
  then have b: "1 \<le> i" "i < length xs" "xs ! i \<noteq> xs ! 0" by auto
  have "0 < length xs" using b(2) by linarith
  then show "mset (move_first xs) = mset xs" using i mset_swap_at [OF _ b(2), of 0] by (simp add: move_first_def)
  have "move_first xs ! 0 = xs ! i" using i b \<open>0 < length xs\<close> by (auto simp: move_first_def swap_at_def)
  with b(3) show "move_first xs \<noteq> xs" by metis
qed

lemma mset_permuted:
  assumes "mset perm = mset [0..<length vals]"
  shows "mset (map (\<lambda>p. vals ! p) perm) = mset vals"
proof -
  have "mset (map (\<lambda>p. vals ! p) perm) = mset (map (\<lambda>p. vals ! p) [0..<length vals])" using assms by (metis mset_map)
  then show ?thesis by (simp add: map_nth)
qed

definition marker_values :: "bytes \<Rightarrow> bytes list" where "marker_values text = map mk_value (findMarkers text)"

lemma reorder_result:
  assumes "\<forall>s n. mset (perm_of s n) = mset [0..<n]"
  shows "\<exists>vs. mset vs = mset (marker_values text) \<and> reorder perm_of seed text = rewrite_markers text 0 (findMarkers text) vs \<and>
    (vs \<noteq> marker_values text \<longleftrightarrow> 2 \<le> card (set (marker_values text)))"
proof (cases "2 \<le> card (set (marker_values text))")
  case True
  have two: "2 \<le> length (findMarkers text)" using True card_length [of "marker_values text"] by (simp add: marker_values_def)
  define perm0 where "perm0 = perm_of (seed + of_nat (length (findMarkers text))) (length (findMarkers text))"
  define perm where "perm = (if isIdentity perm0 then swap_at perm0 0 1 else perm0)"
  define vs0 where "vs0 = map (\<lambda>p. marker_values text ! p) perm"
  define vs where "vs = (if marker_values text = vs0 then move_first vs0 else vs0)"
  have p0: "mset perm0 = mset [0..<length (marker_values text)]" using assms(1) by (simp add: perm0_def marker_values_def)
  then have "length perm0 = length (marker_values text)" by (metis length_upt minus_nat.diff_0 size_mset)
  then have "0 < length perm0" "1 < length perm0" using two unfolding marker_values_def by (simp_all only: length_map)
  from mset_swap_at [OF this] have "mset perm = mset perm0" by (simp add: perm_def)
  with p0 have "mset perm = mset [0..<length (marker_values text)]" by (rule trans [rotated])
  then have v0: "mset vs0 = mset (marker_values text)" unfolding vs0_def by (rule mset_permuted)
  then have "card (set vs0) = card (set (marker_values text))" by (metis set_mset_mset)
  with True have "2 \<le> card (set vs0)" by simp
  note mv = move_first_ok [OF this]
  have "mset vs = mset (marker_values text)" unfolding vs_def by (simp only: mv(1) v0 if_distrib [of mset] if_cancel)
  moreover have "vs \<noteq> marker_values text" using mv(2) by (metis vs_def)
  moreover have "reorder perm_of seed text = rewrite_markers text 0 (findMarkers text) vs"
    using True two unfolding reorder_def Let_def vs_def vs0_def perm_def perm0_def marker_values_def
    by (simp add: length_remdups_card_conv)
  ultimately show ?thesis using True by blast
next
  case False
  then have "reorder perm_of seed text = text"
    by (simp add: reorder_def Let_def marker_values_def length_remdups_card_conv)
  then show ?thesis using False findMarkers_text unfolding marker_values_def by (metis (no_types, lifting))
qed

section \<open>The result is text\<close>

lemma findMarkers_boundaries:
  assumes "valid_string text" and "m \<in> set (findMarkers text)"
  shows "rune_boundary text (mk_start m)" "rune_boundary text (mk_end m)" "valid_string (mk_value m)"
proof -
  obtain r where r: "r \<in> set (regexp_FindAll markerRe text)" "m = \<lparr>mk_start = rm_start r, mk_end = rm_end r,
      mk_value = gslice text (rm_start r) (rm_end r)\<rparr>"
    using assms(2) by (auto simp: findMarkers_def)
  from FindAll_match_ok [OF assms(1) r(1)] have "match_ok text r" .
  then show "rune_boundary text (mk_start m)" "rune_boundary text (mk_end m)" "valid_string (mk_value m)"
    using valid_slice [OF assms(1)] by (simp_all add: match_ok_def r(2))
qed

lemma valid_rewrite:
  assumes "valid_string text" and "sorted_wrt (\<lambda>a b. mk_end a \<le> mk_start b) ms" and "rune_boundary text from"
    and "\<forall>m \<in> set ms. from \<le> mk_start m \<and> mk_start m \<le> mk_end m \<and> rune_boundary text (mk_start m) \<and> rune_boundary text (mk_end m)"
    and "\<forall>v \<in> set vs. valid_string v"
  shows "valid_string (rewrite_markers text from ms vs)"
  using assms(2-5)
proof (induction ms arbitrary: "from" vs)
  case Nil
  then show ?case using rune_boundary_split [OF assms(1)] by simp
next
  case (Cons m ms)
  show ?case
  proof (cases vs)
    case Nil
    then show ?thesis using rune_boundary_split [OF assms(1)] Cons.prems(2) by simp
  next
    case (Cons v vs')
    have "valid_string (rewrite_markers text (mk_end m) ms vs')" by (rule Cons.IH) (use Cons.prems Cons in auto)
    moreover have "valid_string (gslice text from (mk_start m))" using valid_slice [OF assms(1)] Cons.prems(2,3) by simp
    ultimately show ?thesis using Cons Cons.prems(4) by (simp add: valid_string_append)
  qed
qed

lemma valid_set_ascii:
  assumes "valid_string s" and "pos < length s" and "byte (s ! pos) < 0x80" and "byte c < 0x80"
  shows "valid_string (s[pos := c])"
proof -
  have "valid_string (take pos s)" "valid_string (drop (Suc pos) s)"
    using ascii_boundary [OF assms(1-3)] rune_boundary_split [OF assms(1)] by simp_all
  moreover have "s[pos := c] = take pos s @ [c] @ drop (Suc pos) s" using upd_conv_take_nth_drop [OF assms(2)] by simp
  moreover have "valid_string [c]" using assms(4) by simp
  ultimately show ?thesis by (metis valid_string_append)
qed

lemma transform_valid:
  assumes "rand_ok rd" and "valid_string text"
  shows "\<exists>t. transform rd mode seed text = Some t \<and> valid_string t"
proof -
  have "sorted_wrt (\<lambda>a b. mk_end a \<le> mk_start b) (findMarkers text)"
    using FindAll_ordered [of markerRe "text"] by (simp add: findMarkers_def sorted_wrt_map)
  moreover have "mk_start m \<le> mk_end m" if "m \<in> set (findMarkers text)" for m
    using marker_shape_bounds [OF findMarkers_shape(1) [OF that]] by simp
  ultimately have r: "valid_string (rewrite_markers text 0 (findMarkers text) vs)" if "\<forall>v \<in> set vs. valid_string v" for vs
    using that findMarkers_boundaries [OF assms(2)] by (intro valid_rewrite [OF assms(2)]) (simp_all add: assms(2))
  obtain vs where vs: "mset vs = mset (marker_values text)"
    "reorder (rd_Perm rd) seed text = rewrite_markers text 0 (findMarkers text) vs"
    using reorder_result [of "rd_Perm rd" "text" seed] assms(1) unfolding rand_ok_def by blast
  then have "set vs = mk_value ` set (findMarkers text)" unfolding marker_values_def by (metis set_map set_mset_mset)
  then have "valid_string (reorder (rd_Perm rd) seed text)"
    using r [of vs] findMarkers_boundaries(3) [OF assms(2)] by (auto simp: vs(2))
  moreover have "\<exists>t. corrupt (rd_Intn rd) seed text = Some t \<and> valid_string t"
  proof (cases "findMarkers text = []")
    case True
    then show ?thesis using assms(2) by (simp add: corrupt_def)
  next
    case False
    obtain m pos where c: "in_class hex_items (text ! pos)" "pos < length text" "corrupt (rd_Intn rd) seed text = Some (text[pos := CHR ''g''])"
      using corrupt_result [OF _ False, of "rd_Intn rd" seed] assms(1) unfolding rand_ok_def by blast
    have "byte (text ! pos) < 0x80" using c(1) items_ascii(2) by (auto simp: in_class_def ascii_class_def)
    then show ?thesis using valid_set_ascii [OF assms(2) c(2), of "CHR ''g''"] c(3) by (simp add: byte_def)
  qed
  ultimately show ?thesis using assms(2) by (auto simp: transform_def)
qed

section \<open>Properties\<close>

text \<open>
  The spoiling mode spoils exactly one marker. Without markers the text comes back as it is; otherwise one byte
  inside one marker changes, and the service finds in the result the markers that it finds in the text, except those
  that contain this byte. No slice is out of range.
\<close>

theorem corrupt_spoils_one:
  assumes "rand_ok rd"
  shows "(findMarkers text = [] \<longrightarrow> transform rd ModeCorrupt seed text = Some text) \<and>
    (findMarkers text \<noteq> [] \<longrightarrow> (\<exists>m pos. m \<in> set (findMarkers text) \<and> mk_start m < pos \<and> pos < mk_end m \<and>
      transform rd ModeCorrupt seed text = Some (text[pos := CHR ''g'']) \<and>
      (\<forall>i j. marker_at (text[pos := CHR ''g'']) i j \<longleftrightarrow> marker_at text i j \<and> \<not> (i \<le> pos \<and> pos < j))))"
proof -
  have mode: "transform rd ModeCorrupt seed text = corrupt (rd_Intn rd) seed text"
    by (simp add: transform_def ModeCorrupt_def ModeReorder_def)
  show ?thesis
    unfolding mode using corrupt_result [of "rd_Intn rd" "text" seed] assms markers_after_g
    by (auto simp: corrupt_def rand_ok_def) blast
qed

text \<open>
  The reordering mode returns the text with its markers permuted: everything between them stays in place, the
  markers are the same ones with the same multiplicities, and the text changes exactly when it has two different ones.
\<close>

theorem reorder_permutes:
  assumes "rand_ok rd"
  shows "\<exists>vs. mset vs = mset (marker_values text) \<and>
    transform rd ModeReorder seed text = Some (rewrite_markers text 0 (findMarkers text) vs) \<and>
    rewrite_markers text 0 (findMarkers text) (marker_values text) = text \<and>
    (transform rd ModeReorder seed text \<noteq> Some text \<longleftrightarrow> 2 \<le> card (set (marker_values text)))"
proof -
  have mode: "transform rd ModeReorder seed text = Some (reorder (rd_Perm rd) seed text)"
    by (simp add: transform_def)
  obtain vs where vs: "mset vs = mset (marker_values text)"
    "reorder (rd_Perm rd) seed text = rewrite_markers text 0 (findMarkers text) vs"
    "vs \<noteq> marker_values text \<longleftrightarrow> 2 \<le> card (set (marker_values text))"
    using reorder_result [of "rd_Perm rd" "text" seed] assms unfolding rand_ok_def by blast
  have same: "rewrite_markers text 0 (findMarkers text) (marker_values text) = text"
    unfolding marker_values_def by (rule findMarkers_text)
  have "length vs = length (findMarkers text)" "set vs = set (marker_values text)"
    using vs(1) by (metis length_map marker_values_def size_mset) (metis vs(1) set_mset_mset)
  then have "rewrite_markers text 0 (findMarkers text) vs = text \<Longrightarrow> vs = marker_values text"
    using rewrite_inject [of vs "findMarkers text" "marker_values text" "text" 0] same found_is_marker
    by (auto simp: marker_values_def)
  then have "reorder (rd_Perm rd) seed text \<noteq> text \<longleftrightarrow> vs \<noteq> marker_values text" using same vs(2) by auto
  then show ?thesis using vs same mode by auto
qed

text \<open>A random source that draws the identity and the first number, and a text with two markers.\<close>

definition first_rand :: rand_source where
  "first_rand = \<lparr>rd_Perm = (\<lambda>s n. [0..<n]), rd_Intn = (\<lambda>s n. 0)\<rparr>"

lemma first_rand_ok: "rand_ok first_rand"
  by (simp add: rand_ok_def first_rand_def)

definition two_markers :: bytes where
  "two_markers = ''<A_0123456789abcdef0123456789abcdef_1> and <B_0123456789abcdef0123456789abcdef_2>''"

lemma two_markers_values: "marker_values two_markers =
    [''<A_0123456789abcdef0123456789abcdef_1>'', ''<B_0123456789abcdef0123456789abcdef_2>'']"
  by code_simp

lemma corrupt_spoils_one_witness:
  "\<exists>pos < length two_markers. transform first_rand ModeCorrupt 0 two_markers = Some (two_markers[pos := CHR ''g''])"
proof -
  have ne: "findMarkers two_markers \<noteq> []" using two_markers_values by (auto simp: marker_values_def)
  from corrupt_spoils_one [OF first_rand_ok, of two_markers 0] ne
  obtain m pos where m: "m \<in> set (findMarkers two_markers)" "pos < mk_end m"
    "transform first_rand ModeCorrupt 0 two_markers = Some (two_markers[pos := CHR ''g''])" by blast
  then show ?thesis using marker_shape_bounds [OF findMarkers_shape(1) [OF m(1)]] by (intro exI [of _ pos]) simp
qed

lemma reorder_permutes_witness: "transform first_rand ModeReorder 0 two_markers \<noteq> Some two_markers"
  using reorder_permutes [OF first_rand_ok, of two_markers 0] unfolding two_markers_values by auto

text \<open>
  A category of the configuration may have digits in its name. The service recognises its tokens, the mock does not.
\<close>

lemma digit_category_unseen:
  "is_marker ''<ID2_0123456789abcdef0123456789abcdef_1>'' \<and> findMarkers ''<ID2_0123456789abcdef0123456789abcdef_1>'' = []"
proof
  show "findMarkers ''<ID2_0123456789abcdef0123456789abcdef_1>'' = []" by code_simp
  have "is_marker (''<'' @ ''ID2'' @ ''_'' @ ''0123456789abcdef0123456789abcdef'' @ ''_'' @ ''1'' @ ''>'')"
    by (rule marker_intro) (simp_all add: in_class_def items_defs class_match_def byte_def)
  then show "is_marker ''<ID2_0123456789abcdef0123456789abcdef_1>''" by simp
qed

end
