(* ===== verification/Mock_Model.thy ===== *)
theory Mock_Model
  imports Mock_Markers Provider "HOL-Library.AList"
begin

text \<open>
  The mock of the language model, \<^verbatim>\<open>internal/mock/llm/server.go\<close>. The handler is part of the world: its
  configuration, the texts that it has captured and the requests that it has counted. The captured texts are a list
  of entries; \<^verbatim>\<open>range\<close> over the map starts where the world says. The text of the metrics page is a parameter. An
  answer that is never written, because the request was cancelled or the handler panicked, is \<^const>\<open>None\<close>.
\<close>

section \<open>State\<close>

record MockConfig =
  mc_Disabled :: bool
  mc_Mode :: bytes
  mc_Seed :: "64 word"
  mc_Delay :: int
  mc_Status :: int
  mc_CaptureTTL :: int
  mc_CaptureLimit :: int

definition MockConfig_Validate :: "MockConfig \<Rightarrow> error option" where
  "MockConfig_Validate c =
     (if mc_Mode c \<notin> {[], ModeEcho, ModeReorder, ModeCorrupt} then Some (ErrText ''unknown mode'')
      else if mc_Delay c < 0 then Some (ErrText ''delay must not be negative'')
      else if mc_CaptureTTL c < 0 then Some (ErrText ''capture TTL must not be negative'')
      else if mc_CaptureLimit c < 0 then Some (ErrText ''capture limit must not be negative'')
      else if mc_Status c \<noteq> 0 \<and> mc_Status c \<noteq> 200 \<and> (mc_Status c < 400 \<or> mc_Status c > 599) then Some (ErrText ''invalid status'')
      else None)"

record receivedItem =
  ri_text :: bytes
  ri_expiresAt :: int

record mock_world = world +
  mo_cfg :: MockConfig
  mo_items :: "(bytes \<times> receivedItem) list"
  mo_requests :: "(bytes \<times> bytes) list"
  mo_pick :: "nat \<Rightarrow> nat"
  mo_picks :: nat

definition config_defaults :: "MockConfig \<Rightarrow> MockConfig" where
  "config_defaults c =
     c\<lparr>mc_Status := (if mc_Status c = 0 then 200 else mc_Status c),
       mc_CaptureTTL := (if mc_CaptureTTL c \<le> 0 then 300 * 1000000000 else mc_CaptureTTL c),
       mc_CaptureLimit := (if mc_CaptureLimit c \<le> 0 then 1000 else mc_CaptureLimit c),
       mc_Mode := (if mc_Mode c = [] then ModeEcho else mc_Mode c)\<rparr>"

definition NewDynamicHandler :: "MockConfig \<Rightarrow> 'a mock_world_scheme \<Rightarrow> 'a mock_world_scheme" where
  "NewDynamicHandler c w = w\<lparr>mo_cfg := config_defaults c, mo_items := [], mo_requests := []\<rparr>"

definition SetConfig :: "MockConfig \<Rightarrow> 'a mock_world_scheme \<Rightarrow> 'a mock_world_scheme" where
  "SetConfig c w = w\<lparr>mo_cfg := config_defaults c\<rparr>"

section \<open>Answers\<close>

type_synonym answer = "(int \<times> bytes) option"

definition mock_writeJSON :: "int \<Rightarrow> bytes \<Rightarrow> answer" where
  "mock_writeJSON status val = Some (status, encode_line val)"

definition mock_failure :: "int \<Rightarrow> bytes \<Rightarrow> bool \<Rightarrow> answer" where
  "mock_failure status code retryable =
     mock_writeJSON status (json_object
       [(''error'', json_object [(''code'', json_string code), (''retryable'', if retryable then ''true'' else ''false'')])])"

definition mock_count :: "bytes \<Rightarrow> bytes \<Rightarrow> 'a mock_world_scheme \<Rightarrow> 'a mock_world_scheme" where
  "mock_count mode status w = w\<lparr>mo_requests := mo_requests w @ [(mode, status)]\<rparr>"

section \<open>Generation\<close>

record mockRequest =
  mq_RequestID :: bytes
  mq_Model :: bytes
  mq_Text :: "bytes option"

definition mock_fields :: "string list" where "mock_fields = [''request_id'', ''model'', ''text'']"

definition assign_mock :: "string \<Rightarrow> json \<Rightarrow> mockRequest \<Rightarrow> mockRequest option" where
  "assign_mock f v r =
     (if f = ''request_id'' then map_option (\<lambda>x. r\<lparr>mq_RequestID := x\<rparr>) (assign_string v (mq_RequestID r))
      else if f = ''model'' then map_option (\<lambda>x. r\<lparr>mq_Model := x\<rparr>) (assign_string v (mq_Model r))
      else map_option (\<lambda>x. r\<lparr>mq_Text := x\<rparr>) (string_pointer v))"

text \<open>
  A body that is longer than the limit, or whose transport fails, is refused, at the latest by the reading behind the
  value. All refusals are answered alike.
\<close>

definition mock_decode :: "request_body \<Rightarrow> (bytes \<times> bytes) option" where
  "mock_decode b =
     (if rb_fails b \<or> int (length (rb_bytes b)) > max_response then None
      else
        (case decode_only mock_fields assign_mock \<lparr>mq_RequestID = [], mq_Model = [], mq_Text = None\<rparr> (rb_bytes b) of
           None \<Rightarrow> None
         | Some r \<Rightarrow>
             (case mq_Text r of
                None \<Rightarrow> None
              | Some t \<Rightarrow> if mq_RequestID r = [] \<or> mq_Model r = [] then None else Some (mq_RequestID r, t))))"

definition remove_nth :: "nat \<Rightarrow> 'a list \<Rightarrow> 'a list" where
  "remove_nth n xs = take n xs @ drop (Suc n) xs"

definition capture :: "MockConfig \<Rightarrow> bytes \<Rightarrow> bytes \<Rightarrow> 'a mock_world_scheme \<Rightarrow> 'a mock_world_scheme" where
  "capture cfg request_id text w =
     (case time_Now w of (now, w) \<Rightarrow>
        (let items = filter (\<lambda>(i, item). now < ri_expiresAt item) (mo_items w); full = (int (length items) \<ge> mc_CaptureLimit cfg);
             items = (if full \<and> items \<noteq> [] then remove_nth (mo_pick w (mo_picks w) mod length items) items else items)
         in
         case time_Now w of (now, w) \<Rightarrow>
           w\<lparr>mo_items := AList.update request_id \<lparr>ri_text = text, ri_expiresAt = now + mc_CaptureTTL cfg\<rparr> items,
             mo_picks := (if full then Suc (mo_picks w) else mo_picks w)\<rparr>))"

definition mock_answer :: "rand_source \<Rightarrow> MockConfig \<Rightarrow> bytes \<Rightarrow> bytes \<Rightarrow> 'a mock_world_scheme \<Rightarrow> answer \<times> 'a mock_world_scheme" where
  "mock_answer rd cfg request_id text w =
     (if mc_Status cfg \<noteq> 200 then
        (mock_failure (mc_Status cfg) ''configured_failure'' (mc_Status cfg = 429 \<or> mc_Status cfg \<ge> 500),
         mock_count (mc_Mode cfg) (itoa (nat (mc_Status cfg))) w)
      else
        (let w = capture cfg request_id text w in
         case transform rd (mc_Mode cfg) (mc_Seed cfg) text of
           None \<Rightarrow> (None, w)
         | Some out \<Rightarrow>
             (mock_writeJSON 200 (string_object [(''request_id'', request_id), (''text'', out)]), mock_count (mc_Mode cfg) ''200'' w)))"

definition mock_handleGenerate :: "rand_source \<Rightarrow> request_body \<Rightarrow> MockConfig \<Rightarrow> 'a mock_world_scheme \<Rightarrow> answer \<times> 'a mock_world_scheme" where
  "mock_handleGenerate rd b cfg w =
     (case mock_decode b of
        None \<Rightarrow> (mock_failure 400 ''invalid_request'' False, mock_count (mc_Mode cfg) ''400'' w)
      | Some (request_id, text) \<Rightarrow>
          if mc_Delay cfg > 0 then
            (case ctx_Err w of
               (Some e, w) \<Rightarrow> (None, mock_count (mc_Mode cfg) ''cancelled'' w)
             | (None, w) \<Rightarrow> mock_answer rd cfg request_id text w)
          else mock_answer rd cfg request_id text w)"

section \<open>The other routes\<close>

definition received_prefix :: bytes where "received_prefix = ''/__test/received/''"

definition not_found :: answer where
  "not_found = mock_writeJSON 404 (string_object [(''error'', ''not_found'')])"

definition handleReceived :: "bytes \<Rightarrow> 'a mock_world_scheme \<Rightarrow> answer \<times> 'a mock_world_scheme" where
  "handleReceived path w =
     (let i = drop (length received_prefix) path in
      case map_of (mo_items w) i of
        None \<Rightarrow> (not_found, w)
      | Some item \<Rightarrow>
          (case time_Now w of (now, w) \<Rightarrow>
             if \<not> now < ri_expiresAt item then (not_found, w\<lparr>mo_items := AList.delete i (mo_items w)\<rparr>)
             else
               (case time_Now w of (now, w) \<Rightarrow>
                  if now > ri_expiresAt item then (not_found, w)
                  else (mock_writeJSON 200 (string_object [(''request_id'', i), (''text'', ri_text item)]), w))))"

definition ServeHTTP ::
  "rand_source \<Rightarrow> ((bytes \<times> bytes) list \<Rightarrow> bytes) \<Rightarrow> bytes \<Rightarrow> bytes \<Rightarrow> request_body \<Rightarrow> 'a mock_world_scheme \<Rightarrow>
   answer \<times> 'a mock_world_scheme"
where
  "ServeHTTP rd expose verb path body w =
     (let cfg = mo_cfg w in
      if verb = ''POST'' \<and> path = ''/v1/generate'' then
        (if mc_Disabled cfg then (mock_failure 503 ''disabled'' True, w) else mock_handleGenerate rd body cfg w)
      else if verb = ''GET'' \<and> strings_HasPrefix path received_prefix then handleReceived path w
      else if verb = ''GET'' \<and> path = ''/live'' then (mock_writeJSON 200 (string_object [(''status'', ''ok'')]), w)
      else if verb = ''GET'' \<and> path = ''/ready'' then
        (if mc_Disabled cfg then (mock_writeJSON 503 (string_object [(''status'', ''disabled'')]), w)
         else (mock_writeJSON 200 (string_object [(''status'', ''ready'')]), w))
      else if verb = ''GET'' \<and> path = ''/metrics'' then (Some (200, expose (mo_requests w)), w)
      else (not_found, w))"

section \<open>Captured texts\<close>

lemma length_remove_nth: "n < length xs \<Longrightarrow> length (remove_nth n xs) = length xs - 1"
  by (simp add: remove_nth_def)

lemma set_remove_nth: "set (remove_nth n xs) \<subseteq> set xs"
  by (auto simp: remove_nth_def dest: in_set_takeD in_set_dropD)

lemma distinct_remove_nth: "distinct (map f xs) \<Longrightarrow> distinct (map f (remove_nth n xs))"
  by (auto simp: remove_nth_def take_map [symmetric] drop_map [symmetric] dest: set_take_disj_set_drop_if_distinct [of "map f xs" n "Suc n"])

lemma length_update_le: "length (AList.update k v xs) \<le> Suc (length xs)"
  by (induction xs) auto

definition captured_ok :: "'a mock_world_scheme \<Rightarrow> bool" where
  "captured_ok w \<longleftrightarrow> distinct (map fst (mo_items w)) \<and> int (length (mo_items w)) \<le> mc_CaptureLimit (mo_cfg w) \<and>
     0 < mc_CaptureLimit (mo_cfg w)"

lemma capture_ok:
  assumes "captured_ok w"
  shows "captured_ok (capture (mo_cfg w) i t w) \<and> mo_cfg (capture (mo_cfg w) i t w) = mo_cfg w"
proof -
  define items where "items = filter (\<lambda>(i, item). fst (time_Now w) < ri_expiresAt item) (mo_items w)"
  define kept where "kept = (if int (length items) \<ge> mc_CaptureLimit (mo_cfg w) \<and> items \<noteq> []
    then remove_nth (mo_pick w (mo_picks w) mod length items) items else items)"
  have "length items \<le> length (mo_items w)" unfolding items_def by (rule length_filter_le)
  then have i: "int (length items) \<le> mc_CaptureLimit (mo_cfg w)" using assms by (simp add: captured_ok_def)
  have d: "distinct (map fst items)" using assms by (simp add: captured_ok_def items_def distinct_map_filter)
  have pos: "0 < mc_CaptureLimit (mo_cfg w)" using assms by (simp add: captured_ok_def)
  have "distinct (map fst kept)" using d distinct_remove_nth by (auto simp: kept_def)
  moreover have "int (length kept) < mc_CaptureLimit (mo_cfg w)"
  proof (cases "int (length items) \<ge> mc_CaptureLimit (mo_cfg w)")
    case True
    then have "items \<noteq> []" using pos by auto
    moreover have "length items \<noteq> 0" using \<open>items \<noteq> []\<close> by simp
    ultimately have "length kept = length items - 1" "length items \<noteq> 0" using True by (simp_all add: kept_def length_remove_nth)
    then show ?thesis using i by linarith
  qed (simp add: kept_def)
  moreover have "mo_items (capture (mo_cfg w) i t w) = AList.update i \<lparr>ri_text = t,
      ri_expiresAt = fst (time_Now (snd (time_Now w))) + mc_CaptureTTL (mo_cfg w)\<rparr> kept"
    "mo_cfg (capture (mo_cfg w) i t w) = mo_cfg w"
    by (simp_all add: capture_def time_Now_def Let_def items_def kept_def)
  ultimately show ?thesis
    using pos length_update_le [of i "\<lparr>ri_text = t, ri_expiresAt = fst (time_Now (snd (time_Now w))) + mc_CaptureTTL (mo_cfg w)\<rparr>" kept]
    by (simp add: captured_ok_def distinct_update)
qed

lemma captured_ok_cong: "mo_items w' = mo_items w \<Longrightarrow> mo_cfg w' = mo_cfg w \<Longrightarrow> captured_ok w' = captured_ok w"
  by (simp add: captured_ok_def)

lemma mock_count_frame [simp]: "mo_items (mock_count m s w) = mo_items w" "mo_cfg (mock_count m s w) = mo_cfg w"
  by (simp_all add: mock_count_def)

lemma ctx_Err_mock: "ctx_Err w = (e, w') \<Longrightarrow> mo_items w' = mo_items w \<and> mo_cfg w' = mo_cfg w"
  by (auto simp: ctx_Err_def)

lemma mock_answer_ok:
  assumes "captured_ok w" and "mock_answer rd (mo_cfg w) i t w = (a, w')"
  shows "captured_ok w' \<and> mo_cfg w' = mo_cfg w"
proof -
  from assms(2) consider "w' = mock_count (mc_Mode (mo_cfg w)) (itoa (nat (mc_Status (mo_cfg w)))) w"
    | "w' = capture (mo_cfg w) i t w" | "w' = mock_count (mc_Mode (mo_cfg w)) ''200'' (capture (mo_cfg w) i t w)"
    by (auto simp: mock_answer_def Let_def split: if_splits option.splits)
  then show ?thesis
    using assms(1) capture_ok [OF assms(1), of i t] by cases (auto simp: captured_ok_def)
qed

lemma handleReceived_items:
  assumes "handleReceived path w = (a, w')"
  shows "mo_cfg w' = mo_cfg w" "mo_items w' = mo_items w \<or> mo_items w' = AList.delete (drop (length received_prefix) path) (mo_items w)"
proof -
  have "mo_cfg w' = mo_cfg w \<and> (mo_items w' = mo_items w \<or> mo_items w' = AList.delete (drop (length received_prefix) path) (mo_items w))"
  proof (cases "map_of (mo_items w) (drop (length received_prefix) path)")
    case None
    then show ?thesis using assms by (simp add: handleReceived_def)
  next
    case (Some item)
    then show ?thesis using assms by (auto simp: handleReceived_def time_Now_def Let_def split: if_split_asm)
  qed
  then show "mo_cfg w' = mo_cfg w" "mo_items w' = mo_items w \<or> mo_items w' = AList.delete (drop (length received_prefix) path) (mo_items w)"
    by simp_all
qed

lemma handleReceived_ok:
  assumes "captured_ok w" and "handleReceived path w = (a, w')"
  shows "captured_ok w' \<and> mo_cfg w' = mo_cfg w"
proof -
  let ?del = "AList.delete (drop (length received_prefix) path) (mo_items w)"
  have "length ?del \<le> length (mo_items w)" by (rule length_delete_le)
  moreover have "distinct (map fst ?del)" using assms(1) by (simp add: captured_ok_def distinct_delete)
  ultimately show ?thesis using assms(1) handleReceived_items [OF assms(2)] unfolding captured_ok_def by fastforce
qed

lemma ServeHTTP_ok:
  assumes "captured_ok w" and "ServeHTTP rd expose verb path body w = (a, w')"
  shows "captured_ok w' \<and> mo_cfg w' = mo_cfg w"
proof -
  have g: "captured_ok w1 \<and> mo_cfg w1 = mo_cfg w" if "mock_handleGenerate rd body (mo_cfg w) w = (a1, w1)" for a1 w1
  proof -
    from that consider "w1 = mock_count (mc_Mode (mo_cfg w)) ''400'' w"
      | i t where "mock_answer rd (mo_cfg w) i t w = (a1, w1)"
      | e u where "ctx_Err w = (Some e, u)" "w1 = mock_count (mc_Mode (mo_cfg w)) ''cancelled'' u"
      | i t u where "ctx_Err w = (None, u)" "mock_answer rd (mo_cfg w) i t u = (a1, w1)"
      by (auto simp: mock_handleGenerate_def split: option.splits prod.splits if_splits)
    then show ?thesis
    proof cases
      case 1
      then show ?thesis using assms(1) by (simp add: captured_ok_def)
    next
      case (2 i t)
      then show ?thesis using mock_answer_ok [OF assms(1)] by blast
    next
      case (3 e u)
      then show ?thesis using assms(1) ctx_Err_mock [OF 3(1)] by (simp add: captured_ok_def)
    next
      case (4 i t u)
      then have "mo_items u = mo_items w" "mo_cfg u = mo_cfg w" using ctx_Err_mock by blast+
      moreover from this have "captured_ok u" using captured_ok_cong assms(1) by metis
      ultimately show ?thesis using 4(2) mock_answer_ok [of u rd i t a1 w1] by simp
    qed
  qed
  from assms(2) consider "w' = w" | "mock_handleGenerate rd body (mo_cfg w) w = (a, w')" | "handleReceived path w = (a, w')"
    by (auto simp: ServeHTTP_def Let_def split: if_splits)
  then show ?thesis using assms(1) g handleReceived_ok [OF assms(1)] by cases auto
qed

text \<open>A request, or something that happens outside of the handler.\<close>

inductive mock_step :: "'a mock_world_scheme \<Rightarrow> 'a mock_world_scheme \<Rightarrow> bool" where
  served: "ServeHTTP rd expose verb path body w = (a, w') \<Longrightarrow> mock_step w w'"
| outside: "mo_items w' = mo_items w \<Longrightarrow> mo_cfg w' = mo_cfg w \<Longrightarrow> mock_step w w'"

lemma mock_reachable: "mock_step\<^sup>*\<^sup>* w w' \<Longrightarrow> captured_ok w \<Longrightarrow> captured_ok w' \<and> mo_cfg w' = mo_cfg w"
proof (induction rule: rtranclp_induct)
  case (step u v)
  from step.hyps(2) show ?case
  proof cases
    case (served rd expose verb path body a)
    then show ?thesis using step ServeHTTP_ok [of u rd expose verb path body a v] by simp
  next
    case outside
    then show ?thesis using step captured_ok_cong [of v u] by simp
  qed
qed simp

section \<open>The provider and the mock\<close>

definition mock_client :: "rand_source \<Rightarrow> ((bytes \<times> bytes) list \<Rightarrow> bytes) \<Rightarrow> 'a mock_world_scheme http_client" where
  "mock_client rd expose addr body w =
     (case ServeHTTP rd expose ''POST'' ''/v1/generate'' \<lparr>rb_bytes = body, rb_fails = False\<rparr> w of
        (None, w) \<Rightarrow> (Inl ErrCanceled, w)
      | (Some (status, val), w) \<Rightarrow> (Inr \<lparr>rs_StatusCode = status, rs_Body = \<lparr>rb_bytes = val, rb_fails = False\<rparr>\<rparr>, w))"

lemma mock_names: "list_all (\<lambda>f. valid_string f \<and> struct_field mock_fields (runes f) = Some f) mock_fields"
  by (simp add: mock_fields_def struct_field_def byte_def)

lemma mock_reads_request:
  assumes "valid_string (pq_RequestID r)" and "valid_string (pq_Model r)" and "valid_string (pq_Text r)"
    and "pq_RequestID r \<noteq> []" and "pq_Model r \<noteq> []" and "int (length (marshal_request r)) \<le> max_response"
  shows "mock_decode \<lparr>rb_bytes = marshal_request r, rb_fails = False\<rparr> = Some (pq_RequestID r, pq_Text r)"
proof -
  let ?fs = "[(''request_id'', pq_RequestID r), (''model'', pq_Model r), (''text'', pq_Text r)]"
  have "assign_known mock_fields assign_mock (string_members ?fs) \<lparr>mq_RequestID = [], mq_Model = [], mq_Text = None\<rparr> =
      Some \<lparr>mq_RequestID = pq_RequestID r, mq_Model = pq_Model r, mq_Text = Some (pq_Text r)\<rparr>"
    using mock_names assms(1-3)
    by (simp add: mock_fields_def string_members_def assign_mock_def assign_string_def string_pointer_def of_runes_runes)
  moreover have "\<forall>(k, s) \<in> set ?fs. valid_string k \<and> valid_string s"
    using mock_names assms(1-3) by (simp add: mock_fields_def)
  ultimately have "decode_only mock_fields assign_mock \<lparr>mq_RequestID = [], mq_Model = [], mq_Text = None\<rparr> (string_object ?fs) =
      Some \<lparr>mq_RequestID = pq_RequestID r, mq_Model = pq_Model r, mq_Text = Some (pq_Text r)\<rparr>"
    using decode_only_written [of ?fs "[]" mock_fields assign_mock] by (metis append_Nil2 list.distinct(1))
  then show ?thesis using assms(4-6) by (simp add: mock_decode_def marshal_request_def)
qed

lemma mock_serves_request:
  assumes "mock_decode b = Some (i, t)" and "\<not> mc_Disabled (mo_cfg w)" and "mc_Delay (mo_cfg w) \<le> 0" and "mc_Status (mo_cfg w) = 200"
    and "transform rd (mc_Mode (mo_cfg w)) (mc_Seed (mo_cfg w)) t = Some out"
  shows "ServeHTTP rd expose ''POST'' ''/v1/generate'' b w =
    (Some (200, encode_line (string_object [(''request_id'', i), (''text'', out)])),
     mock_count (mc_Mode (mo_cfg w)) ''200'' (capture (mo_cfg w) i t w))"
  using assms by (simp add: ServeHTTP_def mock_handleGenerate_def mock_answer_def mock_writeJSON_def Let_def)

lemma captured_text: "map_option ri_text (map_of (mo_items (capture cfg i t w)) i) = Some t"
  by (simp add: capture_def time_Now_def Let_def update_conv')

section \<open>Properties\<close>

text \<open>
  C28. The provider and the mock understand each other. A request that fits into the limits reaches the mock unchanged,
  which keeps its text under the identifier of the request, and the provider returns exactly what the mode of the mock
  makes of the text; no escape, limit or check of the identifier stands in the way.
\<close>

theorem provider_over_mock:
  assumes "valid_string (pq_RequestID r)" and "valid_string (pq_Model r)" and "valid_string (pq_Text r)"
    and "pq_RequestID r \<noteq> []" and "pq_Model r \<noteq> []" and "pq_Model r \<in> set (hp_models p)"
    and "rand_ok rd" and "hp_client p = mock_client rd expose" and "parse (hp_endpoint p) \<noteq> None"
    and "\<not> mc_Disabled (mo_cfg w)" and "mc_Delay (mo_cfg w) \<le> 0" and "mc_Status (mo_cfg w) = 200"
    and "int (length (marshal_request r)) \<le> max_response"
    and "transform rd (mc_Mode (mo_cfg w)) (mc_Seed (mo_cfg w)) (pq_Text r) = Some out"
    and "int (length (encode_line (string_object [(''request_id'', pq_RequestID r), (''text'', out)]))) \<le> max_response"
  shows "fst (Provider_Generate parse p r w) = Inr out \<and>
    map_option ri_text (map_of (mo_items (snd (Provider_Generate parse p r w))) (pq_RequestID r)) = Some (pq_Text r)"
proof -
  let ?body = "encode_line (string_object [(''request_id'', pq_RequestID r), (''text'', out)])"
  let ?w = "mock_count (mc_Mode (mo_cfg w)) ''200'' (capture (mo_cfg w) (pq_RequestID r) (pq_Text r) w)"
  have c: "hp_client p (hp_endpoint p) (marshal_request r) w = (Inr \<lparr>rs_StatusCode = 200, rs_Body = \<lparr>rb_bytes = ?body, rb_fails = False\<rparr>\<rparr>, ?w)"
    unfolding assms(8) mock_client_def
    by (simp add: mock_serves_request [OF mock_reads_request [OF assms(1-5) assms(13)] assms(10-12) assms(14)])
  have "valid_string out" using transform_valid [OF assms(7) assms(3)] assms(14) by (metis option.inject)
  then have "read_response (pq_RequestID r) ?body = Inr out"
    unfolding encode_line_def by (rule read_written_response [OF assms(1)]) simp
  moreover have "read_limited \<lparr>rb_bytes = ?body, rb_fails = False\<rparr> (max_response + 1) = Some ?body"
    using assms(15) by (auto simp: read_limited_def max_response_def)
  ultimately have "Provider_Generate parse p r w = (Inr out, ?w)"
    using assms(6,9,15) c by (simp add: Provider_Generate_def)
  then show ?thesis using captured_text by simp
qed

text \<open>
  The mock never keeps more texts than its limit says, and one for each identifier, whatever requests come in and
  whatever else happens to the world in between.
\<close>

theorem captured_limited:
  assumes "mock_step\<^sup>*\<^sup>* (NewDynamicHandler cfg w0) w"
  shows "int (length (mo_items w)) \<le> mc_CaptureLimit (config_defaults cfg) \<and> distinct (map fst (mo_items w))"
proof -
  have "captured_ok (NewDynamicHandler cfg w0)" "mo_cfg (NewDynamicHandler cfg w0) = config_defaults cfg"
    by (simp_all add: captured_ok_def NewDynamicHandler_def config_defaults_def)
  with mock_reachable [OF assms] have "captured_ok w" "mo_cfg w = config_defaults cfg" by simp_all
  then show ?thesis unfolding captured_ok_def by metis
qed

definition sample_mock :: "unit mock_world_scheme" where
  "sample_mock = \<lparr>w_ctx = \<lambda>_. None, w_polls = 0, w_clock = \<lambda>_. 0, w_times = 0, w_rand = \<lambda>_. None, w_draws = 0, w_reqid = [], w_log = [],
     mo_cfg = config_defaults \<lparr>mc_Disabled = False, mc_Mode = ModeEcho, mc_Seed = 0, mc_Delay = 0, mc_Status = 0, mc_CaptureTTL = 0, mc_CaptureLimit = 1\<rparr>,
     mo_items = [], mo_requests = [], mo_pick = \<lambda>_. 0, mo_picks = 0\<rparr>"

definition sample_provider :: "unit mock_world_scheme HTTPProvider" where
  "sample_provider = \<lparr>hp_endpoint = ''http://mock/v1/generate'', hp_client = mock_client first_rand (\<lambda>_. []), hp_models = [''mock'']\<rparr>"

lemma provider_over_mock_witness:
  "fst (Provider_Generate (\<lambda>s. Some \<lparr>url_Scheme = ''http'', url_Host = ''mock'', url_User = None, url_RawQuery = [], url_Fragment = []\<rparr>)
    sample_provider \<lparr>pq_RequestID = ''i'', pq_Model = ''mock'', pq_Text = ''hi''\<rparr> sample_mock) = Inr ''hi''"
proof -
  let ?r = "\<lparr>pq_RequestID = ''i'', pq_Model = ''mock'', pq_Text = ''hi''\<rparr>"
  have str: "json_string s = [quote_char] @ s @ [quote_char]" if "s \<in> {''request_id'', ''model'', ''text'', ''i'', ''mock'', ''hi''}" for s
    using that by (intro json_string_plain [THEN conjunct1]) (auto simp: plain_char_def escaped_def byte_def)
  have m: "int (length (marshal_request ?r)) \<le> max_response"
    "int (length (encode_line (string_object [(''request_id'', ''i''), (''text'', ''hi'')]))) \<le> max_response"
    by (simp_all add: marshal_request_def string_object_def json_object_def json_field_def str encode_line_def max_response_def)
  show ?thesis
    by (rule provider_over_mock [where rd = first_rand and expose = "\<lambda>_. []", THEN conjunct1])
      (use m first_rand_ok in \<open>simp_all add: byte_def sample_provider_def sample_mock_def config_defaults_def transform_def
        ModeEcho_def ModeReorder_def ModeCorrupt_def\<close>)
qed

lemma captured_limited_witness:
  "length (mo_items (snd (ServeHTTP first_rand (\<lambda>_. []) ''GET'' ''/live'' \<lparr>rb_bytes = [], rb_fails = False\<rparr>
    (NewDynamicHandler (mo_cfg sample_mock) sample_mock)))) \<le> 1"
proof -
  let ?w = "NewDynamicHandler (mo_cfg sample_mock) sample_mock"
  obtain a w where s: "ServeHTTP first_rand (\<lambda>_. []) ''GET'' ''/live'' \<lparr>rb_bytes = [], rb_fails = False\<rparr> ?w = (a, w)" by force
  then have "mock_step\<^sup>*\<^sup>* ?w w" by (intro r_into_rtranclp mock_step.served [OF s])
  from captured_limited [OF this] s
  show ?thesis by (simp add: sample_mock_def config_defaults_def)
qed

end
