(* ===== verification/Mock_Config.thy ===== *)
theory Mock_Config
  imports Mock_Model Config_Source
begin

text \<open>
  \<^verbatim>\<open>internal/mock/llm/config.go\<close>: the document that configures the mock and its reloads. A reload has the source and the
  number format of durations as arguments, which may differ from one to the next.
\<close>

section \<open>Documents\<close>

record DocConfig =
  dc_Version :: bytes
  dc_Enabled :: bool
  dc_Addr :: bytes
  dc_Mode :: bytes
  dc_Seed :: int
  dc_Delay :: bytes
  dc_Status :: int
  dc_CaptureTTL :: bytes
  dc_CaptureLimit :: int

definition doc_fields :: "string list" where
  "doc_fields = [''version'', ''enabled'', ''addr'', ''mode'', ''seed'', ''delay'', ''status'', ''capture_ttl'', ''capture_limit'']"

definition assign_bool :: "json \<Rightarrow> bool \<Rightarrow> bool option" where
  "assign_bool v old = (case v of JBool b \<Rightarrow> Some b | JNull \<Rightarrow> Some old | _ \<Rightarrow> None)"

definition assign_doc :: "string \<Rightarrow> json \<Rightarrow> DocConfig \<Rightarrow> DocConfig option" where
  "assign_doc f v c =
     (if f = ''version'' then map_option (\<lambda>x. c\<lparr>dc_Version := x\<rparr>) (assign_string v (dc_Version c))
      else if f = ''enabled'' then map_option (\<lambda>x. c\<lparr>dc_Enabled := x\<rparr>) (assign_bool v (dc_Enabled c))
      else if f = ''addr'' then map_option (\<lambda>x. c\<lparr>dc_Addr := x\<rparr>) (assign_string v (dc_Addr c))
      else if f = ''mode'' then map_option (\<lambda>x. c\<lparr>dc_Mode := x\<rparr>) (assign_string v (dc_Mode c))
      else if f = ''seed'' then map_option (\<lambda>x. c\<lparr>dc_Seed := x\<rparr>) (assign_int v (dc_Seed c))
      else if f = ''delay'' then map_option (\<lambda>x. c\<lparr>dc_Delay := x\<rparr>) (assign_string v (dc_Delay c))
      else if f = ''status'' then map_option (\<lambda>x. c\<lparr>dc_Status := x\<rparr>) (assign_int v (dc_Status c))
      else if f = ''capture_ttl'' then map_option (\<lambda>x. c\<lparr>dc_CaptureTTL := x\<rparr>) (assign_string v (dc_CaptureTTL c))
      else map_option (\<lambda>x. c\<lparr>dc_CaptureLimit := x\<rparr>) (assign_int v (dc_CaptureLimit c)))"

definition zero_doc :: DocConfig where
  "zero_doc = \<lparr>dc_Version = [], dc_Enabled = False, dc_Addr = [], dc_Mode = [], dc_Seed = 0, dc_Delay = [], dc_Status = 0,
     dc_CaptureTTL = [], dc_CaptureLimit = 0\<rparr>"

definition DocConfig_Validate :: "(bytes \<Rightarrow> int option) \<Rightarrow> DocConfig \<Rightarrow> error option" where
  "DocConfig_Validate duration c =
     (if dc_Version c = [] then Some (ErrText ''mock-llm config: version required'')
      else if dc_Addr c = [] then Some (ErrText ''mock-llm config: addr required'')
      else if dc_Mode c \<notin> {[], ModeEcho, ModeReorder, ModeCorrupt} then Some (ErrText ''mock-llm config: unknown mode'')
      else if duration (dc_Delay c) = None \<or> dc_Delay c = [] then Some (ErrText ''mock-llm config: delay must be a valid duration'')
      else if dc_Status c \<noteq> 0 \<and> dc_Status c \<noteq> 200 \<and> (dc_Status c < 400 \<or> dc_Status c > 599)
      then Some (ErrText ''mock-llm config: invalid status'')
      else if duration (dc_CaptureTTL c) = None \<or> dc_CaptureTTL c = []
      then Some (ErrText ''mock-llm config: capture_ttl must be a valid duration'')
      else if dc_CaptureLimit c < 0 then Some (ErrText ''mock-llm config: capture_limit must not be negative'')
      else None)"

definition HandlerConfig :: "(bytes \<Rightarrow> int option) \<Rightarrow> DocConfig \<Rightarrow> error + MockConfig" where
  "HandlerConfig duration c =
     (case DocConfig_Validate duration c of
        Some e \<Rightarrow> Inl e
      | None \<Rightarrow>
          (case duration (dc_Delay c) of
             None \<Rightarrow> Inl (ErrText ''mock-llm config: delay'')
           | Some delay \<Rightarrow>
               (case duration (dc_CaptureTTL c) of
                  None \<Rightarrow> Inl (ErrText ''mock-llm config: capture_ttl'')
                | Some captureTTL \<Rightarrow>
                    Inr \<lparr>mc_Disabled = (\<not> dc_Enabled c), mc_Mode = dc_Mode c, mc_Seed = word_of_int (dc_Seed c), mc_Delay = delay,
                      mc_Status = dc_Status c, mc_CaptureTTL = captureTTL, mc_CaptureLimit = dc_CaptureLimit c\<rparr>)))"

section \<open>Reloads\<close>

record Reloader =
  rl_current :: "DocConfig option"
  rl_raw :: bytes
  rl_version :: bytes
  rl_addr :: bytes

definition parse_doc :: "(bytes \<Rightarrow> int option) \<Rightarrow> bytes \<Rightarrow> error + DocConfig" where
  "parse_doc duration data =
     (case decode_only doc_fields assign_doc zero_doc data of
        None \<Rightarrow> Inl (ErrText ''mock-llm config: expected one JSON document'')
      | Some c \<Rightarrow> (case DocConfig_Validate duration c of Some e \<Rightarrow> Inl e | None \<Rightarrow> Inr c))"

definition reloadLocked ::
  "(bytes \<Rightarrow> int option) \<Rightarrow> 'a source \<Rightarrow> Reloader \<Rightarrow> 'a world_scheme \<Rightarrow> error option \<times> Reloader \<times> 'a world_scheme"
where
  "reloadLocked duration src r w =
     (case src w of
        (Inl e, w) \<Rightarrow> (Some e, r, w)
      | (Inr doc, w) \<Rightarrow>
          (case parse_doc duration (doc_Data doc) of
             Inl e \<Rightarrow> (Some e, r, w)
           | Inr cfg \<Rightarrow>
               if rl_current r \<noteq> None \<and> dc_Addr cfg \<noteq> rl_addr r
               then (Some (ErrText ''mock-llm config: listen address is immutable''), r, w)
               else if rl_current r \<noteq> None \<and> dc_Version cfg = rl_version r then
                 (if doc_Data doc = rl_raw r then (None, r, w)
                  else (Some (ErrText ''mock-llm config: version unchanged but content differs''), r, w))
               else
                 (None, \<lparr>rl_current = Some cfg, rl_raw = doc_Data doc, rl_version = dc_Version cfg, rl_addr = dc_Addr cfg\<rparr>, w)))"

definition NewReloader ::
  "(bytes \<Rightarrow> int option) \<Rightarrow> 'a source \<Rightarrow> int \<Rightarrow> 'a world_scheme \<Rightarrow> (error + Reloader) \<times> 'a world_scheme"
where
  "NewReloader duration src poll w =
     (if poll \<le> 0 then (Inl (ErrText ''mock-llm config: poll interval must be positive''), w)
      else
        (case reloadLocked duration src \<lparr>rl_current = None, rl_raw = [], rl_version = [], rl_addr = []\<rparr> w of
           (Some e, r, w) \<Rightarrow> (Inl e, w)
         | (None, r, w) \<Rightarrow> (Inr r, w)))"

definition changedSnapshot ::
  "(bytes \<Rightarrow> int option) \<Rightarrow> 'a source \<Rightarrow> bytes \<Rightarrow> Reloader \<Rightarrow> 'a world_scheme \<Rightarrow> DocConfig option \<times> Reloader \<times> 'a world_scheme"
where
  "changedSnapshot duration src version r w =
     (case reloadLocked duration src r w of
        (Some e, r, w) \<Rightarrow> (None, r, w)
      | (None, r, w) \<Rightarrow>
          (case rl_current r of
             None \<Rightarrow> (None, r, w)
           | Some cur \<Rightarrow> (if dc_Version cur = version then None else Some cur, r, w)))"

text \<open>
  What the loop selects: a tick, with what its reload sees and whether the receiver takes what is sent before the
  context ends, or the end of the context. The result has the documents that were sent.
\<close>

datatype 'a watch_event = WatchTick "bytes \<Rightarrow> int option" "'a source" bool | WatchDone

fun watch_loop :: "'a watch_event list \<Rightarrow> bytes \<Rightarrow> Reloader \<Rightarrow> 'a world_scheme \<Rightarrow> DocConfig list \<times> Reloader \<times> 'a world_scheme" where
  "watch_loop [] lastVersion r w = ([], r, w)"
| "watch_loop (WatchDone # es) lastVersion r w = ([], r, w)"
| "watch_loop (WatchTick duration src taken # es) lastVersion r w =
     (case changedSnapshot duration src lastVersion r w of
        (None, r, w) \<Rightarrow> watch_loop es lastVersion r w
      | (Some cur, r, w) \<Rightarrow>
          if taken then (case watch_loop es (dc_Version cur) r w of (cs, r, w) \<Rightarrow> (cur # cs, r, w)) else ([], r, w))"

definition watchSnapshots :: "'a watch_event list \<Rightarrow> Reloader \<Rightarrow> 'a world_scheme \<Rightarrow> DocConfig list \<times> Reloader \<times> 'a world_scheme" where
  "watchSnapshots es r w = watch_loop es (case rl_current r of None \<Rightarrow> [] | Some cur \<Rightarrow> dc_Version cur) r w"

section \<open>What is published\<close>

lemma reloadLocked_cases:
  assumes "reloadLocked duration src r w = (e, r', w')"
  obtains (kept) "r' = r"
  | (published) cfg data where "e = None" "parse_doc duration data = Inr cfg"
      "r' = \<lparr>rl_current = Some cfg, rl_raw = data, rl_version = dc_Version cfg, rl_addr = dc_Addr cfg\<rparr>"
      "rl_current r = None \<or> dc_Addr cfg = rl_addr r \<and> dc_Version cfg \<noteq> rl_version r"
  using assms by (auto simp: reloadLocked_def split: if_split_asm prod.split_asm sum.split_asm)

text \<open>The fields of a reloader agree with its document, which has been accepted with the address of the first one.\<close>

definition reloader_ok :: "bytes \<Rightarrow> Reloader \<Rightarrow> bool" where
  "reloader_ok addr r \<longleftrightarrow> (\<exists>cfg duration. rl_current r = Some cfg \<and> rl_version r = dc_Version cfg \<and> rl_addr r = addr \<and>
     dc_Addr cfg = addr \<and> DocConfig_Validate duration cfg = None)"

lemma parse_doc_valid: "parse_doc duration data = Inr cfg \<Longrightarrow> DocConfig_Validate duration cfg = None"
  by (auto simp: parse_doc_def split: option.splits)

lemma reloadLocked_ok:
  assumes "reloader_ok addr r" and "reloadLocked duration src r w = (e, r', w')"
  shows "reloader_ok addr r'"
  using assms(2)
proof (cases rule: reloadLocked_cases)
  case (published cfg data)
  then show ?thesis using assms(1) parse_doc_valid by (auto simp: reloader_ok_def)
qed (use assms(1) in simp)

lemma NewReloader_ok:
  assumes "NewReloader duration src poll w = (Inr r, w')"
  shows "reloader_ok (rl_addr r) r"
proof -
  obtain data cfg where "parse_doc duration data = Inr cfg"
    "r = \<lparr>rl_current = Some cfg, rl_raw = data, rl_version = dc_Version cfg, rl_addr = dc_Addr cfg\<rparr>"
    using assms by (auto simp: NewReloader_def reloadLocked_def split: if_split_asm prod.split_asm sum.split_asm option.split_asm)
  then show ?thesis using parse_doc_valid by (auto simp: reloader_ok_def)
qed

lemma changedSnapshot_ok:
  assumes "changedSnapshot duration src version r w = (cur, r', w')" and "reloader_ok addr r"
  shows "reloader_ok addr r' \<and> (\<forall>c. cur = Some c \<longrightarrow> rl_current r' = Some c \<and> dc_Version c \<noteq> version)"
proof -
  obtain e u v where r: "reloadLocked duration src r w = (e, u, v)" by (cases "reloadLocked duration src r w") auto
  from reloadLocked_ok [OF assms(2) this] assms(1) r show ?thesis
    by (auto simp: changedSnapshot_def split: option.splits if_splits)
qed

text \<open>
  Every document that the watcher sends has been accepted with the address of the first one, and neighbours have
  different versions.
\<close>

lemma watch_loop_versions:
  assumes "watch_loop es version r w = (cs, r', w')" and "reloader_ok addr r"
  shows "reloader_ok addr r' \<and> (\<forall>c \<in> set cs. dc_Addr c = addr \<and> (\<exists>duration. DocConfig_Validate duration c = None)) \<and>
    successively (\<noteq>) (version # map dc_Version cs)"
  using assms
proof (induction es version r w arbitrary: cs r' w' rule: watch_loop.induct)
  case (3 duration src taken es version r w)
  obtain cur u v where c: "changedSnapshot duration src version r w = (cur, u, v)"
    by (cases "changedSnapshot duration src version r w") auto
  note ok = changedSnapshot_ok [OF c "3.prems"(2)]
  show ?case
  proof (cases cur)
    case None
    with c have l: "watch_loop es version u v = (cs, r', w')" using "3.prems"(1) by simp
    show ?thesis by (rule "3.IH"(1) [OF c [symmetric] None refl l]) (use ok in simp_all)
  next
    case (Some d)
    then have d: "dc_Addr d = addr \<and> (\<exists>duration. DocConfig_Validate duration d = None)" "dc_Version d \<noteq> version"
      using ok by (auto simp: reloader_ok_def)
    show ?thesis
    proof (cases taken)
      case False
      then show ?thesis using "3.prems"(1) c Some ok by simp
    next
      case True
      obtain ds r1 w1 where l: "watch_loop es (dc_Version d) u v = (ds, r1, w1)"
        by (cases "watch_loop es (dc_Version d) u v") auto
      have cs: "cs = d # ds" "r' = r1" using "3.prems"(1) c Some True l by auto
      have "reloader_ok addr r1 \<and> (\<forall>c \<in> set ds. dc_Addr c = addr \<and> (\<exists>duration. DocConfig_Validate duration c = None)) \<and>
          successively (\<noteq>) (dc_Version d # map dc_Version ds)"
        by (rule "3.IH"(2) [OF c [symmetric] Some refl True l]) (use ok in simp_all)
      with d cs show ?thesis by auto
    qed
  qed
qed auto

end
