(* ===== verification/Run_Config.thy ===== *)
theory Run_Config
  imports Quality Provider Config_Source Mock_Config
begin

text \<open>
  \<^verbatim>\<open>internal/mock/client/config.go\<close> and the validation of \<^verbatim>\<open>runner.go\<close>: what configures a load test, as a document and
  as the configuration of the runner, and the reloads of the document. \<^verbatim>\<open>float64\<close> is a rational number, so the tests for
  NaN and infinities are always negative; durations are in nanoseconds.
\<close>

section \<open>Documents\<close>

definition ModeProcess :: bytes where "ModeProcess = ''process''"
definition ModeGenerate :: bytes where "ModeGenerate = ''generate''"

definition ScenarioRequest :: bytes where "ScenarioRequest = ''request''"
definition ScenarioMaskOnly :: bytes where "ScenarioMaskOnly = ''mask_only''"
definition ScenarioRoundTrip :: bytes where "ScenarioRoundTrip = ''round_trip''"
definition ScenarioStableRetry :: bytes where "ScenarioStableRetry = ''stable_retry''"
definition ScenarioExpectedConflict :: bytes where "ScenarioExpectedConflict = ''expected_conflict''"
definition ScenarioMixed :: bytes where "ScenarioMixed = ''mixed''"

record RunDoc =
  td_RunID :: bytes
  td_Version :: bytes
  td_Enabled :: bool
  td_Mode :: bytes
  td_Scenario :: bytes
  td_TargetURL :: bytes
  td_Seed :: int
  td_RatePerSecond :: rat
  td_Duration :: bytes
  td_Concurrency :: int
  td_MaxInFlight :: int
  td_RequestTimeout :: bytes
  td_OperationLimit :: int
  td_PayloadProfile :: bytes
  td_OperationWeights :: "(bytes \<times> rat) list"
  td_SystemID :: bytes
  td_APIKeyEnv :: bytes
  td_APIKeyFile :: bytes

definition run_doc_fields :: "string list" where
  "run_doc_fields = [''run_id'', ''version'', ''enabled'', ''mode'', ''scenario'', ''target_url'', ''seed'', ''rate_per_second'',
     ''duration'', ''concurrency'', ''max_in_flight'', ''request_timeout'', ''operation_limit'', ''payload_profile'',
     ''operation_weights'', ''system_id'', ''api_key_env'', ''api_key_file'']"

definition zero_run_doc :: RunDoc where
  "zero_run_doc = \<lparr>td_RunID = [], td_Version = [], td_Enabled = False, td_Mode = [], td_Scenario = [], td_TargetURL = [],
     td_Seed = 0, td_RatePerSecond = 0, td_Duration = [], td_Concurrency = 0, td_MaxInFlight = 0, td_RequestTimeout = [],
     td_OperationLimit = 0, td_PayloadProfile = [], td_OperationWeights = [], td_SystemID = [], td_APIKeyEnv = [],
     td_APIKeyFile = []\<rparr>"

definition assign_float :: "environ \<Rightarrow> json \<Rightarrow> rat \<Rightarrow> rat option" where
  "assign_float env v old = (case v of JNumber ds \<Rightarrow> env_ParseFloat env ds | JNull \<Rightarrow> Some old | _ \<Rightarrow> None)"

text \<open>A member of an object goes to the map; null is 0 as a value, and removes the map itself.\<close>

fun assign_weights :: "environ \<Rightarrow> (rune list \<times> json) list \<Rightarrow> (bytes \<times> rat) list \<Rightarrow> (bytes \<times> rat) list option" where
  "assign_weights env [] ws = Some ws"
| "assign_weights env ((k, v) # ms) ws =
     (case assign_float env v 0 of None \<Rightarrow> None | Some x \<Rightarrow> assign_weights env ms (AList.update (of_runes k) x ws))"

definition assign_weight_map :: "environ \<Rightarrow> json \<Rightarrow> (bytes \<times> rat) list \<Rightarrow> (bytes \<times> rat) list option" where
  "assign_weight_map env v old =
     (case v of JObject ms \<Rightarrow> assign_weights env ms old | JNull \<Rightarrow> Some [] | _ \<Rightarrow> None)"

definition assign_run_doc :: "environ \<Rightarrow> string \<Rightarrow> json \<Rightarrow> RunDoc \<Rightarrow> RunDoc option" where
  "assign_run_doc env f v c =
     (if f = ''run_id'' then map_option (\<lambda>x. c\<lparr>td_RunID := x\<rparr>) (assign_string v (td_RunID c))
      else if f = ''version'' then map_option (\<lambda>x. c\<lparr>td_Version := x\<rparr>) (assign_string v (td_Version c))
      else if f = ''enabled'' then map_option (\<lambda>x. c\<lparr>td_Enabled := x\<rparr>) (assign_bool v (td_Enabled c))
      else if f = ''mode'' then map_option (\<lambda>x. c\<lparr>td_Mode := x\<rparr>) (assign_string v (td_Mode c))
      else if f = ''scenario'' then map_option (\<lambda>x. c\<lparr>td_Scenario := x\<rparr>) (assign_string v (td_Scenario c))
      else if f = ''target_url'' then map_option (\<lambda>x. c\<lparr>td_TargetURL := x\<rparr>) (assign_string v (td_TargetURL c))
      else if f = ''seed'' then map_option (\<lambda>x. c\<lparr>td_Seed := x\<rparr>) (assign_int v (td_Seed c))
      else if f = ''rate_per_second'' then map_option (\<lambda>x. c\<lparr>td_RatePerSecond := x\<rparr>) (assign_float env v (td_RatePerSecond c))
      else if f = ''duration'' then map_option (\<lambda>x. c\<lparr>td_Duration := x\<rparr>) (assign_string v (td_Duration c))
      else if f = ''concurrency'' then map_option (\<lambda>x. c\<lparr>td_Concurrency := x\<rparr>) (assign_int v (td_Concurrency c))
      else if f = ''max_in_flight'' then map_option (\<lambda>x. c\<lparr>td_MaxInFlight := x\<rparr>) (assign_int v (td_MaxInFlight c))
      else if f = ''request_timeout'' then map_option (\<lambda>x. c\<lparr>td_RequestTimeout := x\<rparr>) (assign_string v (td_RequestTimeout c))
      else if f = ''operation_limit'' then map_option (\<lambda>x. c\<lparr>td_OperationLimit := x\<rparr>) (assign_int v (td_OperationLimit c))
      else if f = ''payload_profile'' then map_option (\<lambda>x. c\<lparr>td_PayloadProfile := x\<rparr>) (assign_string v (td_PayloadProfile c))
      else if f = ''operation_weights''
      then map_option (\<lambda>x. c\<lparr>td_OperationWeights := x\<rparr>) (assign_weight_map env v (td_OperationWeights c))
      else if f = ''system_id'' then map_option (\<lambda>x. c\<lparr>td_SystemID := x\<rparr>) (assign_string v (td_SystemID c))
      else if f = ''api_key_env'' then map_option (\<lambda>x. c\<lparr>td_APIKeyEnv := x\<rparr>) (assign_string v (td_APIKeyEnv c))
      else map_option (\<lambda>x. c\<lparr>td_APIKeyFile := x\<rparr>) (assign_string v (td_APIKeyFile c)))"

section \<open>The configuration of the runner\<close>

record ReportEnvironment =
  re_Runner :: bytes
  re_Host :: bytes
  re_ResourceLimits :: "(bytes \<times> rat) list"

record RunConfig =
  ru_Version :: bytes
  ru_Mode :: bytes
  ru_Scenario :: bytes
  ru_TargetURL :: bytes
  ru_Seed :: int
  ru_RatePerSecond :: rat
  ru_Concurrency :: int
  ru_MaxInFlight :: int
  ru_MaxConnections :: int
  ru_RequestTimeout :: int
  ru_Duration :: int
  ru_OperationLimit :: int
  ru_PayloadProfile :: bytes
  ru_SystemID :: bytes
  ru_APIKey :: bytes
  ru_Enabled :: bool
  ru_OperationWeights :: "(bytes \<times> rat) list"
  ru_CommitSHA :: bytes
  ru_ImageTag :: bytes
  ru_RunID :: bytes
  ru_ReplayIndex :: "int option"
  ru_Environment :: ReportEnvironment
  ru_Payloads :: "bytes list"
  ru_DatasetSHA256 :: bytes
  ru_IDNamespace :: bytes
  ru_MaskFixtures :: "MaskFixture list"

definition scenarioOf :: "RunConfig \<Rightarrow> bytes" where
  "scenarioOf c = (if ru_Scenario c = [] then ScenarioRequest else ru_Scenario c)"

text \<open>The conversion to an integer drops the fraction; the dividend is one second.\<close>

definition intervalFor :: "rat \<Rightarrow> int" where
  "intervalFor rate = (if rate < 0 then - \<lfloor>- (rat_of_int time_Second / rate)\<rfloor> else \<lfloor>rat_of_int time_Second / rate\<rfloor>)"

text \<open>\<^verbatim>\<open>url.URL.Hostname\<close>: the host without a port and without brackets.\<close>

definition validOptionalPort :: "bytes \<Rightarrow> bool" where
  "validOptionalPort port =
     (case port of [] \<Rightarrow> True | c # ds \<Rightarrow> c = CHR '':'' \<and> list_all digit_ascii ds)"

definition url_Hostname :: "url \<Rightarrow> bytes" where
  "url_Hostname u =
     (let host = (case strings_LastIndexByte (url_Host u) (CHR '':'') of
                    None \<Rightarrow> url_Host u
                  | Some i \<Rightarrow> if validOptionalPort (drop i (url_Host u)) then take i (url_Host u) else url_Host u)
      in if strings_HasPrefix host ''['' \<and> strings_HasSuffix host '']'' then gslice host 1 (length host - 1) else host)"

definition validateTargetURL :: "(bytes \<Rightarrow> url option) \<Rightarrow> bytes \<Rightarrow> error option" where
  "validateTargetURL parse val =
     (case parse val of
        None \<Rightarrow> Some (ErrText ''target URL must be an absolute HTTP(S) URL without credentials or fragment'')
      | Some u \<Rightarrow>
          if url_Hostname u = [] \<or> url_Scheme u \<noteq> ''http'' \<and> url_Scheme u \<noteq> ''https'' \<or> url_User u \<noteq> None \<or> url_Fragment u \<noteq> []
          then Some (ErrText ''target URL must be an absolute HTTP(S) URL without credentials or fragment'') else None)"

definition validateTarget :: "(bytes \<Rightarrow> url option) \<Rightarrow> bytes \<Rightarrow> bytes \<Rightarrow> rat \<Rightarrow> error option" where
  "validateTarget parse mode target rate =
     (if mode \<noteq> ModeProcess \<and> mode \<noteq> ModeGenerate then Some (ErrText ''unknown mode'')
      else if target = [] then Some (ErrText ''target URL required'')
      else
        (case validateTargetURL parse target of
           Some e \<Rightarrow> Some e
         | None \<Rightarrow>
             if rate \<le> 0 then Some (ErrText ''rate per second must be positive'')
             else if intervalFor rate \<le> 0 then Some (ErrText ''rate per second is too high'')
             else None))"

definition weight_of :: "(bytes \<times> rat) list \<Rightarrow> bytes \<Rightarrow> rat" where
  "weight_of ws k = (case map_of ws k of None \<Rightarrow> 0 | Some x \<Rightarrow> x)"

definition weighted_scenarios :: "bytes list" where
  "weighted_scenarios = [ScenarioMaskOnly, ScenarioRoundTrip, ScenarioStableRetry, ScenarioExpectedConflict]"

fun validate_weights :: "(bytes \<times> rat) list \<Rightarrow> error option" where
  "validate_weights [] = None"
| "validate_weights ((k, x) # ws) =
     (if k \<notin> set weighted_scenarios then Some (ErrText ''unknown operation weight'')
      else if x < 0 then Some (ErrText ''operation weight must be finite and non-negative'')
      else validate_weights ws)"

definition validateOperationWeights :: "(bytes \<times> rat) list \<Rightarrow> error option" where
  "validateOperationWeights ws =
     (if ws = [] then Some (ErrText ''mixed scenario requires operation weights'')
      else
        (case validate_weights ws of
           Some e \<Rightarrow> Some e
         | None \<Rightarrow>
             if weight_of ws ScenarioMaskOnly + weight_of ws ScenarioRoundTrip + weight_of ws ScenarioStableRetry +
               weight_of ws ScenarioExpectedConflict \<le> 0
             then Some (ErrText ''operation weights must have a positive finite sum'') else None))"

definition validateLimits :: "RunConfig \<Rightarrow> error option" where
  "validateLimits c =
     (if ru_MaxConnections c < 0 then Some (ErrText ''max connections must not be negative'')
      else
        (let c = (if ru_Concurrency c = 0 then c\<lparr>ru_Concurrency := ru_MaxInFlight c\<rparr> else c) in
         if ru_Concurrency c \<le> 0 then Some (ErrText ''concurrency must be positive'')
         else if ru_MaxInFlight c \<le> 0 then Some (ErrText ''max in-flight must be positive'')
         else if ru_RequestTimeout c \<le> 0 then Some (ErrText ''request timeout must be positive'')
         else if ru_Duration c < 0 then Some (ErrText ''duration must not be negative'')
         else if ru_OperationLimit c < 0 then Some (ErrText ''operation limit must not be negative'')
         else if ru_PayloadProfile c = [] then Some (ErrText ''payload profile required'')
         else if ru_SystemID c = [] then Some (ErrText ''system ID required'')
         else None))"

definition validateRunScenario :: "RunConfig \<Rightarrow> error option" where
  "validateRunScenario c =
     (let s = scenarioOf c in
      if s = ScenarioRequest then None
      else if s = ScenarioMaskOnly then
        (if ru_Mode c \<noteq> ModeProcess then Some (ErrText ''mask_only scenario requires process mode'') else None)
      else if s = ScenarioRoundTrip \<or> s = ScenarioStableRetry \<or> s = ScenarioExpectedConflict then
        (if ru_Mode c \<noteq> ModeProcess then Some (ErrText ''scenario requires process mode'') else None)
      else if s = ScenarioMixed then
        (if ru_Mode c \<noteq> ModeProcess then Some (ErrText ''mixed scenario requires process mode'')
         else validateOperationWeights (ru_OperationWeights c))
      else Some (ErrText ''unknown scenario''))"

fun validate_fixtures :: "MaskFixture list \<Rightarrow> error option" where
  "validate_fixtures [] = None"
| "validate_fixtures (f # fs) =
     (if fx_Payload f = [] then Some (ErrText ''mask fixture: payload required'')
      else if fx_Spans f = [] \<and> fx_ExpectedMask f = [] then validate_fixtures fs
      else (case validateMaskFixture f of Some e \<Rightarrow> Some (ErrText ''mask fixture'') | None \<Rightarrow> validate_fixtures fs))"

definition validateFixtures :: "RunConfig \<Rightarrow> error option" where
  "validateFixtures c =
     (case ru_ReplayIndex c of
        Some i \<Rightarrow> if i < 0 then Some (ErrText ''replay index must not be negative'') else validate_fixtures (ru_MaskFixtures c)
      | None \<Rightarrow> validate_fixtures (ru_MaskFixtures c))"

definition RunConfig_Validate :: "(bytes \<Rightarrow> url option) \<Rightarrow> RunConfig \<Rightarrow> error option" where
  "RunConfig_Validate parse c =
     (case validateTarget parse (ru_Mode c) (ru_TargetURL c) (ru_RatePerSecond c) of
        Some e \<Rightarrow> Some e
      | None \<Rightarrow>
          (case validateLimits c of
             Some e \<Rightarrow> Some e
           | None \<Rightarrow> (case validateRunScenario c of Some e \<Rightarrow> Some e | None \<Rightarrow> validateFixtures c)))"

section \<open>The validation of documents\<close>

definition doc_validateScenario :: "RunDoc \<Rightarrow> error option" where
  "doc_validateScenario c =
     (let s = td_Scenario c in
      if s \<noteq> [] \<and> s \<noteq> ScenarioRequest \<and> s \<noteq> ScenarioMaskOnly \<and> s \<noteq> ScenarioRoundTrip \<and> s \<noteq> ScenarioStableRetry \<and>
        s \<noteq> ScenarioExpectedConflict \<and> s \<noteq> ScenarioMixed
      then Some (ErrText ''mock-client config: unknown scenario'')
      else if s \<noteq> [] \<and> s \<noteq> ScenarioRequest \<and> td_Mode c \<noteq> ModeProcess
      then Some (ErrText ''mock-client config: scenario requires process mode'')
      else None)"

definition validateDurations :: "environ \<Rightarrow> RunDoc \<Rightarrow> error option" where
  "validateDurations env c =
     (if td_Duration c \<noteq> [] \<and> (case env_ParseDuration env (td_Duration c) of None \<Rightarrow> True | Some d \<Rightarrow> d < 0)
      then Some (ErrText ''mock-client config: duration must be a non-negative duration'')
      else if (case env_ParseDuration env (td_RequestTimeout c) of None \<Rightarrow> True | Some d \<Rightarrow> d \<le> 0)
      then Some (ErrText ''mock-client config: request_timeout must be a positive duration'')
      else None)"

definition validateCredentials :: "RunDoc \<Rightarrow> error option" where
  "validateCredentials c =
     (if td_APIKeyEnv c \<noteq> [] \<and> td_APIKeyFile c \<noteq> []
      then Some (ErrText ''mock-client config: api_key_env and api_key_file are mutually exclusive'')
      else if td_APIKeyFile c \<noteq> [] \<and> \<not> IsAbs (td_APIKeyFile c)
      then Some (ErrText ''mock-client config: api_key_file must be absolute'')
      else None)"

definition RunDoc_Validate :: "environ \<Rightarrow> (bytes \<Rightarrow> url option) \<Rightarrow> RunDoc \<Rightarrow> error option" where
  "RunDoc_Validate env parse c =
     (if td_Version c = [] then Some (ErrText ''mock-client config: version required'')
      else if td_Mode c \<noteq> ModeProcess \<and> td_Mode c \<noteq> ModeGenerate then Some (ErrText ''mock-client config: unknown mode'')
      else
        (case doc_validateScenario c of
           Some e \<Rightarrow> Some e
         | None \<Rightarrow>
             (case validateTarget parse (td_Mode c) (td_TargetURL c) (td_RatePerSecond c) of
                Some e \<Rightarrow> Some e
              | None \<Rightarrow>
                  if td_MaxInFlight c \<le> 0 then Some (ErrText ''mock-client config: max_in_flight must be positive'')
                  else if td_Concurrency c < 0 then Some (ErrText ''mock-client config: concurrency must not be negative'')
                  else
                    (case validateDurations env c of
                       Some e \<Rightarrow> Some e
                     | None \<Rightarrow>
                         if td_OperationLimit c < 0 then Some (ErrText ''mock-client config: operation_limit must not be negative'')
                         else if td_PayloadProfile c = [] then Some (ErrText ''mock-client config: payload_profile required'')
                         else if td_SystemID c = [] then Some (ErrText ''mock-client config: system_id required'')
                         else
                           (case validateCredentials c of
                              Some e \<Rightarrow> Some e
                            | None \<Rightarrow>
                                if td_Scenario c = ScenarioMixed then validateOperationWeights (td_OperationWeights c) else None)))))"

text \<open>\<^verbatim>\<open>envOr\<close> with the empty default is the variable itself.\<close>

definition run_api_key :: "environ \<Rightarrow> RunDoc \<Rightarrow> error + bytes" where
  "run_api_key env c =
     (if td_APIKeyFile c = [] then Inr (if td_APIKeyEnv c = [] then [] else env_Getenv env (td_APIKeyEnv c))
      else
        (case env_ReadFile env (td_APIKeyFile c) of
           None \<Rightarrow> Inl (ErrText ''mock-client config: API key file unavailable'')
         | Some raw \<Rightarrow>
             if 4096 < length raw then Inl (ErrText ''mock-client config: API key file is too large'')
             else if bytes_TrimSpace raw = [] then Inl (ErrText ''mock-client config: API key file is empty'')
             else Inr (bytes_TrimSpace raw)))"

definition RunnerConfig :: "environ \<Rightarrow> (bytes \<Rightarrow> url option) \<Rightarrow> RunDoc \<Rightarrow> error + RunConfig" where
  "RunnerConfig env parse c =
     (case RunDoc_Validate env parse c of
        Some e \<Rightarrow> Inl e
      | None \<Rightarrow>
          (case env_ParseDuration env (td_RequestTimeout c) of
             None \<Rightarrow> Inl (ErrText ''mock-client config: request_timeout'')
           | Some timeout \<Rightarrow>
               (case (if td_Duration c = [] then Some 0 else env_ParseDuration env (td_Duration c)) of
                  None \<Rightarrow> Inl (ErrText ''mock-client config: duration'')
                | Some duration \<Rightarrow>
                    (case run_api_key env c of
                       Inl e \<Rightarrow> Inl e
                     | Inr apiKey \<Rightarrow>
                         Inr \<lparr>ru_Version = td_Version c, ru_Mode = td_Mode c, ru_Scenario = td_Scenario c,
                           ru_TargetURL = td_TargetURL c, ru_Seed = td_Seed c, ru_RatePerSecond = td_RatePerSecond c,
                           ru_Concurrency = (if td_Concurrency c = 0 then td_MaxInFlight c else td_Concurrency c),
                           ru_MaxInFlight = td_MaxInFlight c, ru_MaxConnections = 0, ru_RequestTimeout = timeout,
                           ru_Duration = duration, ru_OperationLimit = td_OperationLimit c,
                           ru_PayloadProfile = td_PayloadProfile c, ru_SystemID = td_SystemID c, ru_APIKey = apiKey,
                           ru_Enabled = td_Enabled c, ru_OperationWeights = td_OperationWeights c, ru_CommitSHA = [],
                           ru_ImageTag = [], ru_RunID = [], ru_ReplayIndex = None,
                           ru_Environment = \<lparr>re_Runner = [], re_Host = [], re_ResourceLimits = []\<rparr>, ru_Payloads = [],
                           ru_DatasetSHA256 = [], ru_IDNamespace = [], ru_MaskFixtures = []\<rparr>))))"

section \<open>Reloads\<close>

record RunReloader =
  rr_current :: "RunDoc option"
  rr_raw :: bytes
  rr_version :: bytes

definition parse_run_doc :: "environ \<Rightarrow> (bytes \<Rightarrow> url option) \<Rightarrow> bytes \<Rightarrow> error + RunDoc" where
  "parse_run_doc env parse data =
     (case decode_only run_doc_fields (assign_run_doc env) zero_run_doc data of
        None \<Rightarrow> Inl (ErrText ''mock-client config: expected one JSON document'')
      | Some c \<Rightarrow> (case RunDoc_Validate env parse c of Some e \<Rightarrow> Inl e | None \<Rightarrow> Inr c))"

definition run_reload ::
  "environ \<Rightarrow> (bytes \<Rightarrow> url option) \<Rightarrow> 'a source \<Rightarrow> RunReloader \<Rightarrow> 'a world_scheme \<Rightarrow> error option \<times> RunReloader \<times> 'a world_scheme"
where
  "run_reload env parse src r w =
     (case src w of
        (Inl e, w) \<Rightarrow> (Some e, r, w)
      | (Inr doc, w) \<Rightarrow>
          (case parse_run_doc env parse (doc_Data doc) of
             Inl e \<Rightarrow> (Some e, r, w)
           | Inr cfg \<Rightarrow>
               if rr_current r \<noteq> None \<and> td_Version cfg = rr_version r then
                 (if doc_Data doc = rr_raw r then (None, r, w)
                  else (Some (ErrText ''mock-client config: version unchanged but content differs''), r, w))
               else (None, \<lparr>rr_current = Some cfg, rr_raw = doc_Data doc, rr_version = td_Version cfg\<rparr>, w)))"

definition NewRunReloader ::
  "environ \<Rightarrow> (bytes \<Rightarrow> url option) \<Rightarrow> 'a source \<Rightarrow> int \<Rightarrow> 'a world_scheme \<Rightarrow> (error + RunReloader) \<times> 'a world_scheme"
where
  "NewRunReloader env parse src poll w =
     (if poll \<le> 0 then (Inl (ErrText ''mock-client config: poll interval must be positive''), w)
      else
        (case run_reload env parse src \<lparr>rr_current = None, rr_raw = [], rr_version = []\<rparr> w of
           (Some e, r, w) \<Rightarrow> (Inl e, w)
         | (None, r, w) \<Rightarrow> (Inr r, w)))"

definition run_changedSnapshot ::
  "environ \<Rightarrow> (bytes \<Rightarrow> url option) \<Rightarrow> 'a source \<Rightarrow> bytes \<Rightarrow> RunReloader \<Rightarrow> 'a world_scheme \<Rightarrow>
   RunDoc option \<times> RunReloader \<times> 'a world_scheme"
where
  "run_changedSnapshot env parse src version r w =
     (case run_reload env parse src r w of
        (Some e, r, w) \<Rightarrow> (None, r, w)
      | (None, r, w) \<Rightarrow>
          (case rr_current r of
             None \<Rightarrow> (None, r, w)
           | Some cur \<Rightarrow> (if td_Version cur = version then None else Some cur, r, w)))"

datatype 'a run_watch_event = RunWatchTick environ "'a source" bool | RunWatchDone

fun run_watch_loop ::
  "(bytes \<Rightarrow> url option) \<Rightarrow> 'a run_watch_event list \<Rightarrow> bytes \<Rightarrow> RunReloader \<Rightarrow> 'a world_scheme \<Rightarrow>
   RunDoc list \<times> RunReloader \<times> 'a world_scheme"
where
  "run_watch_loop parse [] lastVersion r w = ([], r, w)"
| "run_watch_loop parse (RunWatchDone # es) lastVersion r w = ([], r, w)"
| "run_watch_loop parse (RunWatchTick env src taken # es) lastVersion r w =
     (case run_changedSnapshot env parse src lastVersion r w of
        (None, r, w) \<Rightarrow> run_watch_loop parse es lastVersion r w
      | (Some cur, r, w) \<Rightarrow>
          if taken then (case run_watch_loop parse es (td_Version cur) r w of (cs, r, w) \<Rightarrow> (cur # cs, r, w)) else ([], r, w))"

definition run_watchSnapshots ::
  "(bytes \<Rightarrow> url option) \<Rightarrow> 'a run_watch_event list \<Rightarrow> RunReloader \<Rightarrow> 'a world_scheme \<Rightarrow> RunDoc list \<times> RunReloader \<times> 'a world_scheme"
where
  "run_watchSnapshots parse es r w =
     run_watch_loop parse es (case rr_current r of None \<Rightarrow> [] | Some cur \<Rightarrow> td_Version cur) r w"

section \<open>What an accepted document guarantees\<close>

lemma RunDoc_Validate_facts:
  assumes "RunDoc_Validate env parse c = None"
  shows "td_Version c \<noteq> []" "validateTarget parse (td_Mode c) (td_TargetURL c) (td_RatePerSecond c) = None"
    "doc_validateScenario c = None" "0 < td_MaxInFlight c" "0 \<le> td_Concurrency c" "validateDurations env c = None"
    "0 \<le> td_OperationLimit c" "td_PayloadProfile c \<noteq> []" "td_SystemID c \<noteq> []" "validateCredentials c = None"
    "td_Scenario c = ScenarioMixed \<longrightarrow> validateOperationWeights (td_OperationWeights c) = None"
  using assms unfolding RunDoc_Validate_def by (auto split: if_split_asm option.split_asm)

lemma scenarios_agree:
  assumes "doc_validateScenario c = None"
    and "td_Scenario c = ScenarioMixed \<longrightarrow> validateOperationWeights (td_OperationWeights c) = None"
    and "ru_Scenario cfg = td_Scenario c" and "ru_Mode cfg = td_Mode c" and "ru_OperationWeights cfg = td_OperationWeights c"
  shows "validateRunScenario cfg = None"
proof (cases "td_Scenario c = [] \<or> td_Scenario c = ScenarioRequest")
  case True
  then show ?thesis using assms(3) by (auto simp: validateRunScenario_def scenarioOf_def)
next
  case False
  then have m: "td_Mode c = ModeProcess"
    using assms(1) by (simp add: doc_validateScenario_def Let_def split: if_split_asm)
  have "td_Scenario c = ScenarioMaskOnly \<or> td_Scenario c = ScenarioRoundTrip \<or> td_Scenario c = ScenarioStableRetry \<or>
    td_Scenario c = ScenarioExpectedConflict \<or> td_Scenario c = ScenarioMixed"
    using assms(1) False by (simp add: doc_validateScenario_def Let_def split: if_split_asm)
  then show ?thesis using False m assms by (elim disjE) (simp_all add: validateRunScenario_def scenarioOf_def Let_def)
qed

text \<open>The two validations agree: what a valid document is turned into is a valid configuration of the runner.\<close>

lemma RunnerConfig_valid:
  assumes "RunnerConfig env parse c = Inr cfg"
  shows "RunConfig_Validate parse cfg = None"
proof -
  have v: "RunDoc_Validate env parse c = None"
    using assms by (auto simp: RunnerConfig_def split: option.splits)
  note f = RunDoc_Validate_facts [OF v]
  obtain timeout duration apiKey where
    d: "env_ParseDuration env (td_RequestTimeout c) = Some timeout"
      "(if td_Duration c = [] then Some 0 else env_ParseDuration env (td_Duration c)) = Some duration"
      "run_api_key env c = Inr apiKey"
    using assms v by (auto simp: RunnerConfig_def split: option.splits sum.splits)
  have cfg: "ru_Mode cfg = td_Mode c" "ru_TargetURL cfg = td_TargetURL c" "ru_RatePerSecond cfg = td_RatePerSecond c"
    "ru_Scenario cfg = td_Scenario c" "ru_OperationWeights cfg = td_OperationWeights c" "ru_MaskFixtures cfg = []"
    "ru_ReplayIndex cfg = None" "ru_MaxConnections cfg = 0" "ru_MaxInFlight cfg = td_MaxInFlight c"
    "ru_Concurrency cfg = (if td_Concurrency c = 0 then td_MaxInFlight c else td_Concurrency c)"
    "ru_RequestTimeout cfg = timeout" "ru_Duration cfg = duration" "ru_OperationLimit cfg = td_OperationLimit c"
    "ru_PayloadProfile cfg = td_PayloadProfile c" "ru_SystemID cfg = td_SystemID c"
    using assms v d by (auto simp: RunnerConfig_def)
  have "0 < timeout \<and> 0 \<le> duration" using f(6) d by (auto simp: validateDurations_def split: if_split_asm)
  then have "validateLimits cfg = None" using f cfg by (auto simp: validateLimits_def Let_def)
  moreover have "validateRunScenario cfg = None" by (rule scenarios_agree [OF f(3,11) cfg(4,1,5)])
  moreover have "validateFixtures cfg = None" using cfg by (simp add: validateFixtures_def)
  ultimately show ?thesis using f(2) cfg by (simp add: RunConfig_Validate_def)
qed

lemma run_reload_cases:
  assumes "run_reload env parse src r w = (e, r', w')"
  obtains (kept) "r' = r"
  | (published) cfg data where "e = None" "parse_run_doc env parse data = Inr cfg"
      "r' = \<lparr>rr_current = Some cfg, rr_raw = data, rr_version = td_Version cfg\<rparr>"
      "rr_current r = None \<or> td_Version cfg \<noteq> rr_version r"
  using assms by (auto simp: run_reload_def split: if_split_asm prod.split_asm sum.split_asm)

end
