(* ===== verification/Load_Run.thy ===== *)
theory Load_Run
  imports Run_Config
begin

text \<open>
  \<^verbatim>\<open>internal/mock/client/runner.go\<close>: what one operation of a load test does. The HTTP client, the generator of
  \<^verbatim>\<open>math/rand\<close> and \<^verbatim>\<open>http.ParseTime\<close> are parameters, \<^verbatim>\<open>float64\<close> is a rational number, and the Prometheus
  collectors, which repeat the counters, are left out. The state that the operations share is part of the world.
\<close>

section \<open>The rule that stops a run\<close>

datatype requestDisposition = dispositionSuccess | dispositionInvalid | dispositionRateLimited | dispositionCancelled

record availabilityTracker =
  tk_consecutive :: int
  tk_maximum :: int
  tk_stopped :: bool

definition consecutiveInvalidLimit :: int where "consecutiveInvalidLimit = 5"

text \<open>Stopping cancels the context of the requests.\<close>

definition tracker_record :: "requestDisposition \<Rightarrow> availabilityTracker \<Rightarrow> availabilityTracker" where
  "tracker_record d t =
     (if tk_stopped t then t
      else
        (case d of
           dispositionSuccess \<Rightarrow> t\<lparr>tk_consecutive := 0\<rparr>
         | dispositionInvalid \<Rightarrow>
             (let n = tk_consecutive t + 1 in
              t\<lparr>tk_consecutive := n, tk_maximum := (if n > tk_maximum t then n else tk_maximum t),
                tk_stopped := (consecutiveInvalidLimit \<le> n)\<rparr>)
         | dispositionRateLimited \<Rightarrow> t
         | dispositionCancelled \<Rightarrow> t))"

section \<open>Pacing\<close>

text \<open>The time of the next request; \<^const>\<open>None\<close> is the zero time, and the answer is the delay.\<close>

definition pacer_step :: "rat \<Rightarrow> int \<Rightarrow> gotime \<Rightarrow> int \<times> gotime" where
  "pacer_step rate current nxt =
     (let due = (case nxt of Some t \<Rightarrow> if t > current then t else current | None \<Rightarrow> current)
      in (due - current, Some (due + intervalFor rate)))"

section \<open>Latencies\<close>

record reservoir =
  rv_size :: nat
  rv_count :: nat
  rv_max :: int
  rv_samples :: "int list"

definition newReservoir :: "nat \<Rightarrow> reservoir" where
  "newReservoir capacity = \<lparr>rv_size = capacity, rv_count = 0, rv_max = 0, rv_samples = []\<rparr>"

text \<open>The generator gives a number below the count.\<close>

definition reservoir_record :: "(nat \<Rightarrow> nat) \<Rightarrow> int \<Rightarrow> reservoir \<Rightarrow> reservoir" where
  "reservoir_record intn d r =
     (let r = r\<lparr>rv_count := Suc (rv_count r), rv_max := (if d > rv_max r then d else rv_max r)\<rparr> in
      if length (rv_samples r) < rv_size r then r\<lparr>rv_samples := rv_samples r @ [d]\<rparr>
      else (let j = intn (rv_count r) in if j < rv_size r then r\<lparr>rv_samples := (rv_samples r)[j := d]\<rparr> else r))"

definition quantileIndex :: "nat \<Rightarrow> rat \<Rightarrow> nat" where
  "quantileIndex n q = (let i = nat \<lfloor>of_nat n * q\<rfloor> in if i \<ge> n then n - 1 else i)"

definition percentiles :: "reservoir \<Rightarrow> int \<times> int \<times> int \<times> int" where
  "percentiles r =
     (if rv_samples r = [] then (0, 0, 0, 0)
      else
        (let sorted = sort (rv_samples r); n = length sorted in
         (sorted ! quantileIndex n (1/2), sorted ! quantileIndex n (95/100), sorted ! quantileIndex n (99/100), rv_max r)))"

section \<open>The shared state\<close>

record runCounters =
  rn_planned :: int
  rn_sent :: int
  rn_dropped :: int
  rn_success :: int
  rn_failed :: int
  rn_httpRequests :: int
  rn_retries :: int
  rn_final429 :: int
  rn_completedPairs :: int
  rn_timeouts :: int

record run_world = world +
  lw_counts :: runCounters
  lw_inflight :: int
  lw_tracker :: availabilityTracker
  lw_next :: gotime
  lw_res :: reservoir
  lw_quality :: qualityAccumulator
  lw_httpStatus :: "bytes \<Rightarrow> nat"
  lw_errors :: "bytes \<Rightarrow> nat"

definition count_up :: "(runCounters \<Rightarrow> runCounters) \<Rightarrow> 'a run_world_scheme \<Rightarrow> 'a run_world_scheme" where
  "count_up f w = w\<lparr>lw_counts := f (lw_counts w)\<rparr>"

definition availability :: "requestDisposition \<Rightarrow> 'a run_world_scheme \<Rightarrow> 'a run_world_scheme" where
  "availability d w = w\<lparr>lw_tracker := tracker_record d (lw_tracker w)\<rparr>"

definition recordError :: "bytes \<Rightarrow> 'a run_world_scheme \<Rightarrow> 'a run_world_scheme" where
  "recordError category w = w\<lparr>lw_errors := (lw_errors w)(category := Suc (lw_errors w category))\<rparr>"

definition recordStatus :: "bytes \<Rightarrow> 'a run_world_scheme \<Rightarrow> 'a run_world_scheme" where
  "recordStatus status w = w\<lparr>lw_httpStatus := (lw_httpStatus w)(status := Suc (lw_httpStatus w status))\<rparr>"

text \<open>The context of the requests is also cancelled when the tracker stops.\<close>

definition requests_Err :: "'a run_world_scheme \<Rightarrow> error option \<times> 'a run_world_scheme" where
  "requests_Err w = (case ctx_Err w of (e, w) \<Rightarrow> (if tk_stopped (lw_tracker w) then Some ErrCanceled else e, w))"

definition wait_for :: "int \<Rightarrow> 'a run_world_scheme \<Rightarrow> error option \<times> 'a run_world_scheme" where
  "wait_for delay w = (if delay \<le> 0 then (None, w) else requests_Err w)"

definition pacer_wait :: "rat \<Rightarrow> 'a run_world_scheme \<Rightarrow> error option \<times> 'a run_world_scheme" where
  "pacer_wait rate w =
     (case time_Now w of
        (current, w) \<Rightarrow>
          (case pacer_step rate current (lw_next w) of (delay, nxt) \<Rightarrow> wait_for delay (w\<lparr>lw_next := nxt\<rparr>)))"

section \<open>One attempt\<close>

record run_request =
  hq_url :: bytes
  hq_SystemID :: bytes
  hq_APIKey :: "bytes option"
  hq_body :: bytes

record run_response =
  hr_StatusCode :: int
  hr_Body :: request_body
  hr_RetryAfter :: bytes

record 'w run_platform =
  rp_client :: "run_request \<Rightarrow> 'w \<Rightarrow> (error + run_response) \<times> 'w"
  rp_parse :: "bytes \<Rightarrow> url option"
  rp_ParseTime :: "bytes \<Rightarrow> int option"
  rp_Intn :: "64 word \<Rightarrow> nat \<Rightarrow> nat \<Rightarrow> nat"
  rp_Float64 :: "64 word \<Rightarrow> rat"

record requestResult =
  qr_body :: bytes
  qr_disposition :: requestDisposition

definition requestAttemptsLimit :: nat where "requestAttemptsLimit = 3"
definition defaultRetryAfter :: int where "defaultRetryAfter = time_Second"
definition firstTransientRetryBackoff :: int where "firstTransientRetryBackoff = 100 * 1000000"

text \<open>\<^verbatim>\<open>strconv.ParseInt(s, 10, 64)\<close>.\<close>

definition ParseInt :: "bytes \<Rightarrow> int option" where
  "ParseInt s =
     (let (neg, ds) = (case s of [] \<Rightarrow> (False, []) | c # t \<Rightarrow> if c = CHR ''-'' then (True, t) else if c = CHR ''+'' then (False, t) else (False, s));
          n = foldl (\<lambda>n c. 10 * n + (int (byte c) - 0x30)) 0 ds; v = (if neg then - n else n)
      in if ds = [] \<or> \<not> list_all digit_ascii ds \<or> v < - (2 ^ 63) \<or> 2 ^ 63 \<le> v then None else Some v)"

text \<open>The product of a number of seconds and the duration of a second is computed with 64 bits.\<close>

definition parseRetryAfter :: "(bytes \<Rightarrow> int option) \<Rightarrow> bytes \<Rightarrow> int \<Rightarrow> int" where
  "parseRetryAfter parse_time header now =
     (let header = bytes_TrimSpace header;
          dated = (case parse_time header of Some at_time \<Rightarrow> max 0 (at_time - now) | None \<Rightarrow> defaultRetryAfter)
      in (case ParseInt header of
            Some seconds \<Rightarrow> if 0 \<le> seconds then sint (word_of_int (seconds * time_Second) :: 64 word) else dated
          | None \<Rightarrow> dated))"

text \<open>The latency goes to the reservoir, whose generator is seeded with 1.\<close>

definition record_latency :: "'w run_platform \<Rightarrow> int \<Rightarrow> 'a run_world_scheme \<Rightarrow> 'a run_world_scheme" where
  "record_latency pf d w =
     w\<lparr>lw_res := reservoir_record (rp_Intn pf 1 (rv_count (lw_res w) - rv_size (lw_res w))) d (lw_res w)\<rparr>"

definition attemptTransportError ::
  "'w run_platform \<Rightarrow> error \<Rightarrow> int \<Rightarrow> 'a run_world_scheme \<Rightarrow> (requestResult \<times> bool \<times> int) \<times> 'a run_world_scheme"
where
  "attemptTransportError pf e dur w =
     (let w = record_latency pf dur w; invalid = \<lparr>qr_body = [], qr_disposition = dispositionInvalid\<rparr> in
      if e = ErrDeadlineExceeded then
        ((invalid, True, 0), recordError ''timeout'' (count_up (\<lambda>c. c\<lparr>rn_timeouts := rn_timeouts c + 1\<rparr>) w))
      else
        (case (if e = ErrCanceled then (Some e, w) else requests_Err w) of
           (Some _, w) \<Rightarrow> ((\<lparr>qr_body = [], qr_disposition = dispositionCancelled\<rparr>, False, 0), recordError ''cancelled'' w)
         | (None, w) \<Rightarrow> ((invalid, True, 0), recordError ''transport'' w)))"

text \<open>
  The body is bounded by 4 MiB; \<^const>\<open>None\<close> is a body that cannot be read or is longer. What was read of it is
  dropped, since nobody looks at the body of a failure.
\<close>

definition bounded_body :: "request_body \<Rightarrow> bytes option" where
  "bounded_body b =
     (case read_limited b (max_response + 1) of None \<Rightarrow> None | Some raw \<Rightarrow> if int (length raw) > max_response then None else Some raw)"

definition classify_response ::
  "'a run_world_scheme run_platform \<Rightarrow> run_response \<Rightarrow> bool \<Rightarrow> int \<Rightarrow> 'a run_world_scheme \<Rightarrow>
   (requestResult \<times> bool \<times> int) \<times> 'a run_world_scheme"
where
  "classify_response pf resp captureResponse expectedStatus w =
     (let body = bounded_body (hr_Body resp); status = hr_StatusCode resp;
          raw = (case body of Some raw \<Rightarrow> if captureResponse then raw else [] | None \<Rightarrow> []);
          result = (\<lambda>d. \<lparr>qr_body = raw, qr_disposition = d\<rparr>) in
      if status = 429 then
        (let w = (if body = None then recordError ''response_body'' w else w) in
         case time_Now (recordError ''http_status'' w) of
           (now, w) \<Rightarrow> ((result dispositionRateLimited, True, parseRetryAfter (rp_ParseTime pf) (hr_RetryAfter resp) now), w))
      else if body = None then
        ((\<lparr>qr_body = [], qr_disposition = dispositionInvalid\<rparr>, True, 0), recordError ''response_body'' w)
      else if status = expectedStatus then ((result dispositionSuccess, False, 0), w)
      else ((result dispositionInvalid, 500 \<le> status, 0), recordError ''http_status'' w))"

definition sendAttempt ::
  "'a run_world_scheme run_platform \<Rightarrow> bytes \<Rightarrow> RunConfig \<Rightarrow> bool \<Rightarrow> int \<Rightarrow> 'a run_world_scheme \<Rightarrow>
   (requestResult \<times> bool \<times> int) \<times> 'a run_world_scheme"
where
  "sendAttempt pf body cfg captureResponse expectedStatus w =
     (if rp_parse pf (ru_TargetURL cfg) = None then
        ((\<lparr>qr_body = [], qr_disposition = dispositionInvalid\<rparr>, False, 0), recordError ''build'' w)
      else
        (let req = \<lparr>hq_url = ru_TargetURL cfg, hq_SystemID = ru_SystemID cfg,
               hq_APIKey = (if ru_APIKey cfg = [] then None else Some (ru_APIKey cfg)), hq_body = body\<rparr>;
             w = count_up (\<lambda>c. c\<lparr>rn_httpRequests := rn_httpRequests c + 1\<rparr>) w in
         case time_Now w of
           (start, w) \<Rightarrow>
             (case rp_client pf req w of
                (answer, w) \<Rightarrow>
                  (case time_Now w of
                     (stop, w) \<Rightarrow>
                       (case answer of
                          Inl e \<Rightarrow> attemptTransportError pf e (stop - start) w
                        | Inr resp \<Rightarrow>
                            (case time_Now w of
                               (stop, w) \<Rightarrow>
                                 classify_response pf resp captureResponse expectedStatus
                                   (record_latency pf (stop - start) (recordStatus (decimal (nat (hr_StatusCode resp))) w))))))))"

section \<open>Retries\<close>

definition final_result :: "requestResult \<Rightarrow> 'a run_world_scheme \<Rightarrow> requestResult \<times> 'a run_world_scheme" where
  "final_result result w =
     (result,
      if qr_disposition result = dispositionRateLimited
      then recordError ''final_rate_limited'' (count_up (\<lambda>c. c\<lparr>rn_final429 := rn_final429 c + 1\<rparr>) w) else w)"

definition cancelled_result :: requestResult where
  "cancelled_result = \<lparr>qr_body = [], qr_disposition = dispositionCancelled\<rparr>"

fun send_loop ::
  "'a run_world_scheme run_platform \<Rightarrow> nat \<Rightarrow> bytes \<Rightarrow> RunConfig \<Rightarrow> bool \<Rightarrow> int \<Rightarrow> 'a run_world_scheme \<Rightarrow>
   requestResult \<times> 'a run_world_scheme"
where
  "send_loop pf 0 body cfg captureResponse expectedStatus w = (\<lparr>qr_body = [], qr_disposition = dispositionInvalid\<rparr>, w)"
| "send_loop pf (Suc left) body cfg captureResponse expectedStatus w =
     (case pacer_wait (ru_RatePerSecond cfg) w of
        (Some e, w) \<Rightarrow> (cancelled_result, w)
      | (None, w) \<Rightarrow>
          (case sendAttempt pf body cfg captureResponse expectedStatus w of
             ((result, retryable, retryAfter), w) \<Rightarrow>
               if \<not> retryable \<or> left = 0 then final_result result w
               else
                 (let attempt = requestAttemptsLimit - left;
                      retryAfter = (if qr_disposition result \<noteq> dispositionRateLimited \<and> retryAfter \<le> 0
                                    then int attempt * firstTransientRetryBackoff else retryAfter) in
                  case wait_for retryAfter w of
                    (Some e, w) \<Rightarrow> (cancelled_result, w)
                  | (None, w) \<Rightarrow>
                      send_loop pf left body cfg captureResponse expectedStatus
                        (count_up (\<lambda>c. c\<lparr>rn_retries := rn_retries c + 1\<rparr>) w))))"

definition sendHTTPExpected ::
  "'a run_world_scheme run_platform \<Rightarrow> bytes \<Rightarrow> RunConfig \<Rightarrow> bool \<Rightarrow> int \<Rightarrow> 'a run_world_scheme \<Rightarrow>
   requestResult \<times> 'a run_world_scheme"
where
  "sendHTTPExpected pf body cfg captureResponse expectedStatus w =
     send_loop pf requestAttemptsLimit body cfg captureResponse expectedStatus w"

definition sendHTTP ::
  "'a run_world_scheme run_platform \<Rightarrow> bytes \<Rightarrow> RunConfig \<Rightarrow> bool \<Rightarrow> 'a run_world_scheme \<Rightarrow> requestResult \<times> 'a run_world_scheme"
where
  "sendHTTP pf body cfg captureResponse w = sendHTTPExpected pf body cfg captureResponse 200 w"

section \<open>Payloads\<close>

definition signed_decimal :: "int \<Rightarrow> bytes" where
  "signed_decimal n = (if n < 0 then CHR ''-'' # decimal (nat (- n)) else decimal (nat n))"

definition operationID :: "int \<Rightarrow> RunConfig \<Rightarrow> bytes" where
  "operationID idx cfg =
     (let i = ''op-'' @ ru_Mode cfg @ ''-'' @ scenarioOf cfg @ ''-'' @ ru_PayloadProfile cfg @ ''-'' @
            signed_decimal (ru_Seed cfg) @ ''-'' @ signed_decimal idx;
          i = (if ru_IDNamespace cfg = [] then i else ru_IDNamespace cfg @ ''-'' @ i)
      in if ru_DatasetSHA256 cfg = [] then i else i @ ''-'' @ ru_DatasetSHA256 cfg)"

text \<open>Russian words with capital initials.\<close>

definition ru_title :: "string list \<Rightarrow> bytes" where
  "ru_title ws =
     strings_Join (map (\<lambda>s. of_runes (case ru_runes s of [] \<Rightarrow> [] | r # rs \<Rightarrow> (if r = 0x451 then 0x401 else r - 0x20) # rs)) ws) '' ''"

definition payload_names :: "bytes list" where
  "payload_names = [ru_title [''ivanov'', ''ivan'', ''ivanoviC''], ru_title [''petrova'', ''anna'', ''sergeevna''],
     ru_title [''sidorov'', ''pEtr'', ''alekseeviC'']]"

definition payload_emails :: "bytes list" where
  "payload_emails = [''demo@example.test'', ''user@example.test'', ''test@example.test'']"

definition payload_phones :: "bytes list" where
  "payload_phones = [''+7 (999) 123-45-67'', ''+7 (495) 000-11-22'', ''+7 (812) 333-44-55'']"

text \<open>A generator is the sequence of its answers, and \<open>k\<close> numbers have been drawn.\<close>

definition shortPayload :: "(nat \<Rightarrow> nat \<Rightarrow> nat) \<Rightarrow> nat \<Rightarrow> bytes" where
  "shortPayload rng k =
     ru_title [''klient''] @ '' '' @ payload_names ! rng k 3 @ '', '' @ ru ''telefon'' @ '' '' @ payload_phones ! rng (k + 2) 3 @
     '', email '' @ payload_emails ! rng (k + 1) 3"

definition long_size :: nat where "long_size = 450 * 1024"

function long_loop :: "(nat \<Rightarrow> nat \<Rightarrow> nat) \<Rightarrow> nat \<Rightarrow> bytes \<Rightarrow> bytes" where
  "long_loop rng k acc =
     (if length acc < long_size then long_loop rng (k + 3) (acc @ shortPayload rng k @ '' '') else acc)"
  by pat_completeness auto
termination
  by (relation "measure (\<lambda>(rng, k, acc). long_size - length acc)") auto

declare long_loop.simps [simp del]

definition longPayload :: "(nat \<Rightarrow> nat \<Rightarrow> nat) \<Rightarrow> bytes" where "longPayload rng = long_loop rng 0 []"

definition payloadFor :: "bytes \<Rightarrow> (nat \<Rightarrow> nat \<Rightarrow> nat) \<Rightarrow> bytes" where
  "payloadFor profile rng =
     (if profile = ''large'' \<or> profile = ''long'' \<or> profile = ''long-100k'' then longPayload rng
      else if profile = ''medium'' then concat (map (\<lambda>i. shortPayload rng (3 * i) @ '' '') [0..<24])
      else shortPayload rng 0)"

definition seed_at :: "RunConfig \<Rightarrow> int \<Rightarrow> 64 word" where
  "seed_at cfg idx = word_of_int (ru_Seed cfg) + word_of_int idx"

definition cyclic :: "'a list \<Rightarrow> int \<Rightarrow> 'a" where "cyclic xs idx = xs ! nat (idx mod int (length xs))"

definition fixtureFor :: "'w run_platform \<Rightarrow> int \<Rightarrow> RunConfig \<Rightarrow> MaskFixture" where
  "fixtureFor pf idx cfg =
     (if ru_MaskFixtures cfg \<noteq> [] then cyclic (ru_MaskFixtures cfg) idx
      else if ru_Payloads cfg \<noteq> [] then
        \<lparr>fx_Name = ''dataset'', fx_Payload = cyclic (ru_Payloads cfg) idx, fx_ExpectedMask = [], fx_Spans = [], fx_allowUnchanged = True\<rparr>
      else
        \<lparr>fx_Name = ''synthetic'', fx_Payload = payloadFor (ru_PayloadProfile cfg) (rp_Intn pf (seed_at cfg idx)),
          fx_ExpectedMask = [], fx_Spans = [], fx_allowUnchanged = False\<rparr>)"

definition process_body :: "bytes \<Rightarrow> bytes \<Rightarrow> bytes" where
  "process_body payload payload_id = string_object [(''payload'', payload), (''payload_id'', payload_id)]"

definition buildRequest :: "'w run_platform \<Rightarrow> int \<Rightarrow> RunConfig \<Rightarrow> bytes" where
  "buildRequest pf idx cfg =
     (let payload = (if ru_Payloads cfg \<noteq> [] then cyclic (ru_Payloads cfg) idx
            else payloadFor (ru_PayloadProfile cfg) (rp_Intn pf (seed_at cfg idx)));
          opID = operationID idx cfg
      in if ru_Mode cfg = ModeGenerate
         then string_object [(''model'', ''mock''), (''request_id'', opID), (''text'', payload)]
         else process_body payload opID)"

text \<open>The answer of the service.\<close>

definition decodeProcessResult :: "bytes \<Rightarrow> bytes option" where
  "decodeProcessResult raw =
     (case decode_only [''result''] (\<lambda>f v r. string_pointer v) None raw of None \<Rightarrow> None | Some r \<Rightarrow> r)"

end
