(* ===== verification/Load_Operations.thy ===== *)
theory Load_Operations
  imports Load_Run
begin

text \<open>
  \<^verbatim>\<open>internal/mock/client/runner.go\<close>: the scenarios of a load test. Each sends one or more requests to the service, looks
  at the answers and tells the tracker what it thinks of them; the answer is whether the operation succeeded.
\<close>

section \<open>Which scenario\<close>

definition normalizedWeights :: "RunConfig \<Rightarrow> (bytes \<times> rat) list" where
  "normalizedWeights cfg =
     (if scenarioOf cfg \<noteq> ScenarioMixed then []
      else
        (let total = sum_list (map (weight_of (ru_OperationWeights cfg)) weighted_scenarios)
         in map (\<lambda>k. (k, weight_of (ru_OperationWeights cfg) k / total)) weighted_scenarios))"

fun pick_scenario :: "(bytes \<times> rat) list \<Rightarrow> bytes list \<Rightarrow> rat \<Rightarrow> bytes" where
  "pick_scenario ws [] val = ScenarioExpectedConflict"
| "pick_scenario ws (s # ss) val = (let val = val - weight_of ws s in if val < 0 then s else pick_scenario ws ss val)"

definition operationScenario :: "'w run_platform \<Rightarrow> int \<Rightarrow> RunConfig \<Rightarrow> bytes" where
  "operationScenario pf idx cfg =
     (if scenarioOf cfg \<noteq> ScenarioMixed then scenarioOf cfg
      else pick_scenario (normalizedWeights cfg) weighted_scenarios
        (rp_Float64 pf (word_of_int (ru_Seed cfg) + word_of_int idx * 7919)))"

definition expectedRequestsPerOperation :: "RunConfig \<Rightarrow> rat" where
  "expectedRequestsPerOperation cfg =
     (let s = scenarioOf cfg in
      if s = ScenarioRoundTrip \<or> s = ScenarioStableRetry then 2
      else if s = ScenarioExpectedConflict then 3
      else if s = ScenarioMixed then
        (let ws = normalizedWeights cfg in
         weight_of ws ScenarioMaskOnly + 2 * weight_of ws ScenarioRoundTrip + 2 * weight_of ws ScenarioStableRetry +
           3 * weight_of ws ScenarioExpectedConflict)
      else 1)"

definition operationIntervalFor :: "RunConfig \<Rightarrow> int" where
  "operationIntervalFor cfg =
     (let expected = expectedRequestsPerOperation cfg
      in intervalFor (if expected > 1 then ru_RatePerSecond cfg / expected else ru_RatePerSecond cfg))"

section \<open>The scenarios\<close>

type_synonym 'w operation = "'w \<Rightarrow> bool \<times> 'w"

text \<open>An answer that is not what it should be.\<close>

definition invalid :: "bytes \<Rightarrow> 'a run_world_scheme operation" where
  "invalid category w = (False, availability dispositionInvalid (recordError category w))"

definition sendMaskOnly :: "'a run_world_scheme run_platform \<Rightarrow> int \<Rightarrow> RunConfig \<Rightarrow> 'a run_world_scheme operation" where
  "sendMaskOnly pf idx cfg w =
     (let fixture = fixtureFor pf idx cfg in
      case sendHTTP pf (process_body (fx_Payload fixture) (operationID idx cfg)) cfg True w of
        (result, w) \<Rightarrow>
          if qr_disposition result \<noteq> dispositionSuccess then (False, availability (qr_disposition result) w)
          else
            (case decodeProcessResult (qr_body result) of
               None \<Rightarrow> invalid ''response_json'' w
             | Some masked \<Rightarrow>
                 if rejectsUnchanged fixture masked then invalid ''mask_unchanged'' w
                 else (True, availability dispositionSuccess w)))"

text \<open>
  Two requests with the same body, as \<^verbatim>\<open>sendStableRetry\<close> and \<^verbatim>\<open>sendExpectedConflict\<close> begin: the second answer has to be
  the first one. The answer is the payload of the fixture, unless one of them failed.
\<close>

definition send_twice ::
  "bytes \<Rightarrow> bytes \<Rightarrow> 'a run_world_scheme run_platform \<Rightarrow> int \<Rightarrow> RunConfig \<Rightarrow> 'a run_world_scheme operation"
where
  "send_twice first_error second_error pf idx cfg w =
     (let fixture = fixtureFor pf idx cfg; body = process_body (fx_Payload fixture) (operationID idx cfg) in
      case sendHTTP pf body cfg True w of
        (one, w) \<Rightarrow>
          if qr_disposition one \<noteq> dispositionSuccess then (False, availability (qr_disposition one) w)
          else
            (case decodeProcessResult (qr_body one) of
               None \<Rightarrow> invalid first_error w
             | Some firstMask \<Rightarrow>
                 if rejectsUnchanged fixture firstMask then invalid first_error w
                 else
                   (case sendHTTP pf body cfg True (availability dispositionSuccess w) of
                      (two, w) \<Rightarrow>
                        if qr_disposition two \<noteq> dispositionSuccess then (False, availability (qr_disposition two) w)
                        else if decodeProcessResult (qr_body two) \<noteq> Some firstMask then invalid second_error w
                        else (True, availability dispositionSuccess w))))"

definition sendStableRetry :: "'a run_world_scheme run_platform \<Rightarrow> int \<Rightarrow> RunConfig \<Rightarrow> 'a run_world_scheme operation" where
  "sendStableRetry pf idx cfg w = send_twice ''stable_retry_first'' ''stable_retry_mismatch'' pf idx cfg w"

definition conflict_suffix :: bytes where "conflict_suffix = '' [synthetic conflict]''"

definition sendExpectedConflict :: "'a run_world_scheme run_platform \<Rightarrow> int \<Rightarrow> RunConfig \<Rightarrow> 'a run_world_scheme operation" where
  "sendExpectedConflict pf idx cfg w =
     (case send_twice ''conflict_first'' ''conflict_stability'' pf idx cfg w of
        (False, w) \<Rightarrow> (False, w)
      | (True, w) \<Rightarrow>
          (case sendHTTPExpected pf
             (process_body (fx_Payload (fixtureFor pf idx cfg) @ conflict_suffix) (operationID idx cfg)) cfg False 409 w of
             (conflict, w) \<Rightarrow>
               (let w = availability (qr_disposition conflict) w in
                if qr_disposition conflict \<noteq> dispositionSuccess then (False, recordError ''expected_conflict'' w) else (True, w))))"

text \<open>What a round trip thinks of the mask; \<^const>\<open>None\<close> is the panic of the distance.\<close>

definition judge_mask :: "MaskFixture \<Rightarrow> bytes \<Rightarrow> 'a run_world_scheme \<Rightarrow> (bool \<times> 'a run_world_scheme) option" where
  "judge_mask fixture masked w =
     (if fx_ExpectedMask fixture = [] \<and> rejectsUnchanged fixture masked then Some (invalid ''mask_unchanged'' w)
      else if fx_ExpectedMask fixture \<noteq> [] then
        (case NormalizedSpanLevenshtein fixture masked of
           None \<Rightarrow> None
         | Some (Inl e) \<Rightarrow> Some (invalid ''quality'' w)
         | Some (Inr d) \<Rightarrow>
             Some (True, availability dispositionSuccess (w\<lparr>lw_quality := record_distance d (fx_Spans fixture) (lw_quality w)\<rparr>)))
      else Some (True, availability dispositionSuccess (w\<lparr>lw_quality := recordCategories (fx_Spans fixture) (lw_quality w)\<rparr>)))"

definition demask_back ::
  "'a run_world_scheme run_platform \<Rightarrow> bytes \<Rightarrow> bytes \<Rightarrow> bytes \<Rightarrow> RunConfig \<Rightarrow> 'a run_world_scheme operation"
where
  "demask_back pf payload masked payload_id cfg w =
     (case sendHTTP pf (process_body masked payload_id) cfg True w of
        (result, w) \<Rightarrow>
          if qr_disposition result \<noteq> dispositionSuccess then (False, availability (qr_disposition result) w)
          else
            (case decodeProcessResult (qr_body result) of
               None \<Rightarrow> invalid ''response_json'' w
             | Some answer \<Rightarrow>
                 if answer \<noteq> payload then invalid ''demask_mismatch'' w
                 else (True, count_up (\<lambda>c. c\<lparr>rn_completedPairs := rn_completedPairs c + 1\<rparr>) (availability dispositionSuccess w))))"

definition sendRoundTrip ::
  "'a run_world_scheme run_platform \<Rightarrow> int \<Rightarrow> RunConfig \<Rightarrow> 'a run_world_scheme \<Rightarrow> (bool \<times> 'a run_world_scheme) option"
where
  "sendRoundTrip pf idx cfg w =
     (let fixture = fixtureFor pf idx cfg; payload_id = operationID idx cfg in
      case sendHTTP pf (process_body (fx_Payload fixture) payload_id) cfg True w of
        (result, w) \<Rightarrow>
          if qr_disposition result \<noteq> dispositionSuccess then Some (False, availability (qr_disposition result) w)
          else
            (case decodeProcessResult (qr_body result) of
               None \<Rightarrow> Some (invalid ''response_json'' w)
             | Some masked \<Rightarrow>
                 (case judge_mask fixture masked w of
                    None \<Rightarrow> None
                  | Some (False, w) \<Rightarrow> Some (False, w)
                  | Some (True, w) \<Rightarrow> Some (demask_back pf (fx_Payload fixture) masked payload_id cfg w))))"

definition send_request :: "'a run_world_scheme run_platform \<Rightarrow> int \<Rightarrow> RunConfig \<Rightarrow> 'a run_world_scheme operation" where
  "send_request pf idx cfg w =
     (case sendHTTP pf (buildRequest pf idx cfg) cfg False w of
        (result, w) \<Rightarrow> (qr_disposition result = dispositionSuccess, availability (qr_disposition result) w))"

definition run_scenario ::
  "'a run_world_scheme run_platform \<Rightarrow> int \<Rightarrow> RunConfig \<Rightarrow> 'a run_world_scheme \<Rightarrow> (bool \<times> 'a run_world_scheme) option"
where
  "run_scenario pf idx cfg w =
     (let s = operationScenario pf idx cfg in
      if s = ScenarioRoundTrip then sendRoundTrip pf idx cfg w
      else if s = ScenarioMaskOnly then Some (sendMaskOnly pf idx cfg w)
      else if s = ScenarioStableRetry then Some (sendStableRetry pf idx cfg w)
      else if s = ScenarioExpectedConflict then Some (sendExpectedConflict pf idx cfg w)
      else Some (send_request pf idx cfg w))"

text \<open>The end of an operation: its outcome is counted and it is no longer in flight.\<close>

definition finish_operation :: "bool \<Rightarrow> 'a run_world_scheme \<Rightarrow> 'a run_world_scheme" where
  "finish_operation ok w =
     (let w = count_up (\<lambda>c. if ok then c\<lparr>rn_success := rn_success c + 1\<rparr> else c\<lparr>rn_failed := rn_failed c + 1\<rparr>) w
      in w\<lparr>lw_inflight := lw_inflight w - 1\<rparr>)"

definition sendOne ::
  "'a run_world_scheme run_platform \<Rightarrow> int \<Rightarrow> RunConfig \<Rightarrow> 'a run_world_scheme \<Rightarrow> 'a run_world_scheme option"
where
  "sendOne pf idx cfg w = (case run_scenario pf idx cfg w of None \<Rightarrow> None | Some (ok, w) \<Rightarrow> Some (finish_operation ok w))"

end
