(* ===== verification/Load_Schedule.thy ===== *)
theory Load_Schedule
  imports Load_Operations
begin

text \<open>
  \<^verbatim>\<open>internal/mock/client/runner.go\<close>: the runner and its planning window. A tick plans every slot that has come due,
  launches what fits and drops the rest; the configuration may be replaced at any time. The goroutines are a list of
  the launched operations. Planning reads the number of operations in flight once; while it launches, others can only
  end, so that it is one step. Counters do not overflow.
\<close>

section \<open>The runner\<close>

record load_runner =
  ld_cfg :: RunConfig
  ld_reloadRejected :: bool

definition NewRunner :: "(bytes \<Rightarrow> url option) \<Rightarrow> RunConfig \<Rightarrow> error + load_runner" where
  "NewRunner parse cfg =
     (case RunConfig_Validate parse cfg of Some e \<Rightarrow> Inl e | None \<Rightarrow> Inr \<lparr>ld_cfg = cfg, ld_reloadRejected = False\<rparr>)"

text \<open>What a new runner shares with its operations.\<close>

definition fresh_run :: "'a run_world_scheme \<Rightarrow> 'a run_world_scheme" where
  "fresh_run w =
     w\<lparr>lw_counts := \<lparr>rn_planned = 0, rn_sent = 0, rn_dropped = 0, rn_success = 0, rn_failed = 0, rn_httpRequests = 0, rn_retries = 0,
          rn_final429 = 0, rn_completedPairs = 0, rn_timeouts = 0\<rparr>,
        lw_inflight := 0, lw_tracker := \<lparr>tk_consecutive = 0, tk_maximum = 0, tk_stopped = False\<rparr>, lw_next := None,
        lw_res := newReservoir 1024, lw_quality := \<lparr>qa_count = 0, qa_sum = 0, qa_max = 0, qa_categories = Map.empty\<rparr>,
        lw_httpStatus := (\<lambda>_. 0), lw_errors := (\<lambda>_. 0)\<rparr>"

definition RecordReloadFailure :: "load_runner \<Rightarrow> load_runner" where
  "RecordReloadFailure r = r\<lparr>ld_reloadRejected := True\<rparr>"

definition Runner_SetConfig :: "(bytes \<Rightarrow> url option) \<Rightarrow> RunConfig \<Rightarrow> load_runner \<Rightarrow> error option \<times> load_runner" where
  "Runner_SetConfig parse cfg r =
     (case RunConfig_Validate parse cfg of
        Some e \<Rightarrow> (Some e, RecordReloadFailure r)
      | None \<Rightarrow>
          if ru_MaxConnections cfg \<noteq> ru_MaxConnections (ld_cfg r)
          then (Some (ErrText ''max connections cannot change during a run''), RecordReloadFailure r)
          else (None, \<lparr>ld_cfg = cfg, ld_reloadRejected = False\<rparr>))"

section \<open>Slots\<close>

record realTicker =
  tc_next :: int
  tc_interval :: int

definition ticker_Due :: "int \<Rightarrow> realTicker \<Rightarrow> int \<times> realTicker" where
  "ticker_Due now t =
     (if now < tc_next t then (0, t)
      else (let n = (now - tc_next t) div tc_interval t + 1 in (n, t\<lparr>tc_next := tc_next t + n * tc_interval t\<rparr>)))"

definition new_ticker :: "int \<Rightarrow> int \<Rightarrow> realTicker" where
  "new_ticker d now = \<lparr>tc_next = now + d, tc_interval = d\<rparr>"

definition concurrencyOf :: "RunConfig \<Rightarrow> int" where
  "concurrencyOf cfg = (if ru_Concurrency cfg > 0 then ru_Concurrency cfg else ru_MaxInFlight cfg)"

section \<open>Planning\<close>

text \<open>The answers are whether the limit of operations has been reached, and the indices of the operations that start.\<close>

definition plan :: "RunConfig \<Rightarrow> int \<Rightarrow> 'a run_world_scheme \<Rightarrow> bool \<times> int list \<times> 'a run_world_scheme" where
  "plan cfg due w =
     (let c = lw_counts w; limit = ru_OperationLimit cfg; remaining = limit - rn_planned c in
      if \<not> ru_Enabled cfg \<or> due = 0 then (False, [], w)
      else if limit > 0 \<and> remaining \<le> 0 then (True, [], w)
      else
        (let due = (if limit > 0 then min due remaining else due);
             first = rn_planned c;
             available = max 0 (min (ru_MaxInFlight cfg) (concurrencyOf cfg) - lw_inflight w);
             launch = min due available;
             w = w\<lparr>lw_counts := c\<lparr>rn_planned := rn_planned c + due, rn_dropped := rn_dropped c + (due - launch),
                     rn_sent := rn_sent c + launch\<rparr>, lw_inflight := lw_inflight w + launch\<rparr>
         in (limit > 0 \<and> limit \<le> first + due,
             map (\<lambda>i. case ru_ReplayIndex cfg of None \<Rightarrow> i | Some j \<Rightarrow> j) [first .. first + launch - 1], w)))"

record runnerExecution =
  ex_initial :: RunConfig
  ex_start :: int
  ex_interval :: int
  ex_activeDuration :: int
  ex_ticker :: realTicker
  ex_timer :: "int option"

definition resetDurationTimer :: "int \<Rightarrow> int \<Rightarrow> runnerExecution \<Rightarrow> runnerExecution" where
  "resetDurationTimer nxt now e =
     e\<lparr>ex_activeDuration := nxt, ex_timer := (if nxt \<le> 0 then None else Some (max now (ex_start e + nxt)))\<rparr>"

definition start_execution :: "RunConfig \<Rightarrow> int \<Rightarrow> int \<Rightarrow> runnerExecution" where
  "start_execution cfg start now =
     resetDurationTimer (ru_Duration cfg) now
       \<lparr>ex_initial = cfg, ex_start = start, ex_interval = operationIntervalFor cfg, ex_activeDuration = 0,
         ex_ticker = \<lparr>tc_next = start + operationIntervalFor cfg, tc_interval = operationIntervalFor cfg\<rparr>, ex_timer = None\<rparr>"

text \<open>
  The two wake-ups. The readings of the clock are arguments: \<open>later\<close> is the one of a new timer or ticker.
\<close>

definition tick ::
  "int \<Rightarrow> int \<Rightarrow> load_runner \<Rightarrow> runnerExecution \<Rightarrow> 'a run_world_scheme \<Rightarrow> (bool \<times> int list) \<times> runnerExecution \<times> 'a run_world_scheme"
where
  "tick now later r e w =
     (let cfg = ld_cfg r;
          e = (if ru_Duration cfg \<noteq> ex_activeDuration e then resetDurationTimer (ru_Duration cfg) later e else e);
          finished = (ru_Duration cfg > 0 \<and> ex_start e + ru_Duration cfg \<le> now);
          now = (if finished then ex_start e + ru_Duration cfg else now) in
      case ticker_Due now (ex_ticker e) of
        (due, t) \<Rightarrow>
          (let e = e\<lparr>ex_ticker := t\<rparr> in
           if \<not> ru_Enabled cfg then ((False, []), e, w)
           else
             (let i = operationIntervalFor cfg;
                  e = (if i \<noteq> ex_interval e then e\<lparr>ex_interval := i, ex_ticker := new_ticker i later\<rparr> else e) in
              case plan cfg due w of (reached, launched, w) \<Rightarrow> ((reached \<or> finished, launched), e, w))))"

definition durationElapsed ::
  "int \<Rightarrow> int \<Rightarrow> load_runner \<Rightarrow> runnerExecution \<Rightarrow> 'a run_world_scheme \<Rightarrow> (bool \<times> int list) \<times> runnerExecution \<times> 'a run_world_scheme"
where
  "durationElapsed now later r e w =
     (let cfg = ld_cfg r; duration = ru_Duration cfg in
      if duration \<le> 0 \<or> now < ex_start e + duration then ((False, []), resetDurationTimer duration later e, w)
      else
        (case ticker_Due (ex_start e + duration) (ex_ticker e) of
           (due, t) \<Rightarrow> (case plan cfg due w of (_, launched, w) \<Rightarrow> ((True, launched), e\<lparr>ex_ticker := t\<rparr>, w))))"

section \<open>Runs\<close>

record 'a load_state =
  ls_runner :: load_runner
  ls_exec :: runnerExecution
  ls_pending :: "(int \<times> RunConfig) list"
  ls_open :: bool
  ls_world :: "'a run_world_scheme"

definition start_run :: "load_runner \<Rightarrow> int \<Rightarrow> int \<Rightarrow> 'a run_world_scheme \<Rightarrow> 'a load_state" where
  "start_run r start now w =
     \<lparr>ls_runner = r, ls_exec = start_execution (ld_cfg r) start now, ls_pending = [], ls_open = True, ls_world = fresh_run w\<rparr>"

definition woken :: "(bool \<times> int list) \<times> runnerExecution \<times> 'a run_world_scheme \<Rightarrow> 'a load_state \<Rightarrow> 'a load_state" where
  "woken x s =
     (case x of
        ((fin, launched), e, w) \<Rightarrow>
          s\<lparr>ls_exec := e, ls_pending := ls_pending s @ map (\<lambda>i. (i, ld_cfg (ls_runner s))) launched,
            ls_open := (\<not> fin), ls_world := w\<rparr>)"

text \<open>Operations at work leave the plan and the number of operations in flight alone.\<close>

definition same_plan :: "'a run_world_scheme \<Rightarrow> 'a run_world_scheme \<Rightarrow> bool" where
  "same_plan w w' \<longleftrightarrow>
     rn_planned (lw_counts w') = rn_planned (lw_counts w) \<and> rn_sent (lw_counts w') = rn_sent (lw_counts w) \<and>
     rn_dropped (lw_counts w') = rn_dropped (lw_counts w) \<and> rn_success (lw_counts w') = rn_success (lw_counts w) \<and>
     rn_failed (lw_counts w') = rn_failed (lw_counts w) \<and> lw_inflight w' = lw_inflight w"

inductive load_step :: "(bytes \<Rightarrow> url option) \<Rightarrow> RunConfig set \<Rightarrow> 'a load_state \<Rightarrow> 'a load_state \<Rightarrow> bool"
  for parse :: "bytes \<Rightarrow> url option" and configs :: "RunConfig set"
where
  Tick: "ls_open s \<Longrightarrow> load_step parse configs s (woken (tick now later (ls_runner s) (ls_exec s) (ls_world s)) s)"
| Elapsed: "ls_open s \<Longrightarrow> ex_timer (ls_exec s) \<noteq> None \<Longrightarrow>
    load_step parse configs s (woken (durationElapsed now later (ls_runner s) (ls_exec s) (ls_world s)) s)"
| Cancelled: "load_step parse configs s (s\<lparr>ls_open := False\<rparr>)"
| Reload: "cfg \<in> configs \<Longrightarrow> load_step parse configs s (s\<lparr>ls_runner := snd (Runner_SetConfig parse cfg (ls_runner s))\<rparr>)"
| Rejected: "load_step parse configs s (s\<lparr>ls_runner := RecordReloadFailure (ls_runner s)\<rparr>)"
| Work: "same_plan (ls_world s) w \<Longrightarrow> load_step parse configs s (s\<lparr>ls_world := w\<rparr>)"
| Finish: "op \<in> set (ls_pending s) \<Longrightarrow>
    load_step parse configs s (s\<lparr>ls_pending := remove1 op (ls_pending s), ls_world := finish_operation ok (ls_world s)\<rparr>)"

inductive_cases load_stepE: "load_step parse configs s s'"

section \<open>Reports\<close>

record ReportParameters =
  pm_TargetRPS :: rat
  pm_DurationSeconds :: rat
  pm_Concurrency :: int
  pm_MaxInFlight :: int
  pm_MaxConnections :: int
  pm_RequestTimeoutMS :: int
  pm_PayloadProfile :: bytes
  pm_OperationWeights :: "(bytes \<times> rat) list"

record ReportCounts =
  ct_PlannedOperations :: int
  ct_SentRequests :: int
  ct_DroppedOperations :: int
  ct_SuccessfulOperations :: int
  ct_FailedOperations :: int
  ct_Timeouts :: int
  ct_HTTPRequests :: int
  ct_CompletedPairs :: int
  ct_Retries :: int
  ct_FinalRateLimited :: int
  ct_MaxInvalidStreak :: int

record ReportLatency =
  la_P50 :: rat
  la_P95 :: rat
  la_P99 :: rat
  la_Max :: rat
  la_Target :: rat
  la_TargetMet :: bool

record Report =
  rp_SchemaVersion :: bytes
  rp_RunID :: bytes
  rp_Seed :: int
  rp_Scenario :: bytes
  rp_CommitSHA :: bytes
  rp_ImageTag :: bytes
  rp_StartedAt :: gotime
  rp_FinishedAt :: gotime
  rp_Parameters :: ReportParameters
  rp_Counts :: ReportCounts
  rp_HTTPStatuses :: "bytes \<Rightarrow> nat"
  rp_LatencyMS :: ReportLatency
  rp_StopReason :: bytes
  rp_Environment :: ReportEnvironment
  rp_Verdict :: bytes

definition seconds :: "int \<Rightarrow> rat" where "seconds d = of_int d / of_int time_Second"
definition durationMilliseconds :: "int \<Rightarrow> rat" where "durationMilliseconds d = of_int d / 1000000"

definition normalizedEnvironment :: "ReportEnvironment \<Rightarrow> ReportEnvironment" where
  "normalizedEnvironment e =
     e\<lparr>re_Runner := (if re_Runner e = [] then ''same_vps'' else re_Runner e),
       re_Host := (if re_Host e = [] then ''local'' else re_Host e)\<rparr>"

definition report_counts :: "'a run_world_scheme \<Rightarrow> ReportCounts" where
  "report_counts w =
     (let c = lw_counts w in
      \<lparr>ct_PlannedOperations = rn_planned c, ct_SentRequests = rn_httpRequests c, ct_DroppedOperations = rn_dropped c,
       ct_SuccessfulOperations = rn_success c, ct_FailedOperations = rn_failed c, ct_Timeouts = rn_timeouts c,
       ct_HTTPRequests = rn_httpRequests c, ct_CompletedPairs = rn_completedPairs c, ct_Retries = rn_retries c,
       ct_FinalRateLimited = rn_final429 c, ct_MaxInvalidStreak = tk_maximum (lw_tracker w)\<rparr>)"

definition report_latency :: "'a run_world_scheme \<Rightarrow> ReportLatency" where
  "report_latency w =
     (case percentiles (lw_res w) of
        (p50, p95, p99, maximum) \<Rightarrow>
          \<lparr>la_P50 = durationMilliseconds p50, la_P95 = durationMilliseconds p95, la_P99 = durationMilliseconds p99,
           la_Max = durationMilliseconds maximum, la_Target = durationMilliseconds time_Second,
           la_TargetMet = (p95 \<le> time_Second)\<rparr>)"

definition verdict :: "error option \<Rightarrow> runCounters \<Rightarrow> bytes" where
  "verdict ctx_error c =
     (if ctx_error \<noteq> None then ''CANCELLED''
      else if rn_failed c > 0 \<or> rn_dropped c > 0 \<or> rn_success c = 0 then ''HARNESS_ERROR''
      else ''PASS'')"

definition run_report :: "runnerExecution \<Rightarrow> 'a run_world_scheme \<Rightarrow> Report \<times> 'a run_world_scheme" where
  "run_report e w =
     (case time_Now w of
        (finishedAt, w) \<Rightarrow>
          (case ctx_Err w of
             (ctx_error, w) \<Rightarrow>
               (let cfg = ex_initial e in
                (\<lparr>rp_SchemaVersion = ''alfagen.load.v1'', rp_RunID = ru_RunID cfg, rp_Seed = ru_Seed cfg, rp_Scenario = scenarioOf cfg,
                   rp_CommitSHA = ru_CommitSHA cfg, rp_ImageTag = ru_ImageTag cfg, rp_StartedAt = Some (ex_start e),
                   rp_FinishedAt = Some finishedAt,
                   rp_Parameters = \<lparr>pm_TargetRPS = ru_RatePerSecond cfg, pm_DurationSeconds = seconds (ru_Duration cfg),
                     pm_Concurrency = concurrencyOf cfg, pm_MaxInFlight = ru_MaxInFlight cfg,
                     pm_MaxConnections = ru_MaxConnections cfg, pm_RequestTimeoutMS = ru_RequestTimeout cfg div 1000000,
                     pm_PayloadProfile = ru_PayloadProfile cfg, pm_OperationWeights = normalizedWeights cfg\<rparr>,
                   rp_Counts = report_counts w, rp_HTTPStatuses = lw_httpStatus w, rp_LatencyMS = report_latency w,
                   rp_StopReason = (if tk_stopped (lw_tracker w) then ''five_consecutive_invalid'' else []),
                   rp_Environment = normalizedEnvironment (ru_Environment cfg),
                   rp_Verdict = verdict ctx_error (lw_counts w)\<rparr>, w))))"

section \<open>Progress\<close>

text \<open>\<^verbatim>\<open>progress.go\<close>: a snapshot while the run goes on or after it; the last argument is when it finished.\<close>

record RunProgress =
  pg_RunID :: bytes
  pg_ConfigVersion :: bytes
  pg_ReloadRejected :: bool
  pg_StartedAt :: int
  pg_ElapsedSeconds :: rat
  pg_DurationSeconds :: rat
  pg_OperationLimit :: int
  pg_TargetRPS :: rat
  pg_HTTPRPS :: rat
  pg_SuccessfulRPS :: rat
  pg_InFlight :: int
  pg_Counts :: ReportCounts
  pg_LatencyMS :: ReportLatency
  pg_HTTPStatuses :: "bytes \<Rightarrow> nat"

definition Progress :: "load_runner \<Rightarrow> runnerExecution \<Rightarrow> gotime \<Rightarrow> 'a run_world_scheme \<Rightarrow> RunProgress \<times> 'a run_world_scheme" where
  "Progress r e finishedAt w =
     (case time_Now w of
        (now, w) \<Rightarrow>
          (let end_time = (case finishedAt of None \<Rightarrow> now | Some t \<Rightarrow> t); c = lw_counts w; cfg = ld_cfg r;
               elapsed = max 0 (seconds (end_time - ex_start e));
               rate = (\<lambda>n. if elapsed > 0 then of_int n / elapsed else 0);
               counts = (report_counts w)\<lparr>ct_MaxInvalidStreak := 0\<rparr>;
               latency = (report_latency w)\<lparr>la_Target := 0, la_TargetMet := False\<rparr>
           in (\<lparr>pg_RunID = ru_RunID (ex_initial e), pg_ConfigVersion = ru_Version cfg, pg_ReloadRejected = ld_reloadRejected r,
                pg_StartedAt = ex_start e, pg_ElapsedSeconds = elapsed, pg_DurationSeconds = seconds (ru_Duration cfg),
                pg_OperationLimit = ru_OperationLimit cfg, pg_TargetRPS = ru_RatePerSecond cfg,
                pg_HTTPRPS = rate (ct_HTTPRequests counts), pg_SuccessfulRPS = rate (ct_SuccessfulOperations counts),
                pg_InFlight = lw_inflight w, pg_Counts = counts, pg_LatencyMS = latency,
                pg_HTTPStatuses = lw_httpStatus w\<rparr>, w)))"

end
