(* ===== verification/Load_Client.thy ===== *)
theory Load_Client
  imports Load_Schedule
begin

text \<open>
  \<^verbatim>\<open>internal/mock/client/client.go\<close>: the options of a paced run, the validation of its report, and the finite client
  without pacing. The workers of the finite client are given by the order in which their requests end. The encoder of
  the report is a parameter.
\<close>

section \<open>Options\<close>

record Options =
  op_URL :: bytes
  op_Payload :: bytes
  op_SystemID :: bytes
  op_APIKey :: bytes
  op_Concurrency :: int
  op_Total :: int
  op_Version :: bytes
  op_Mode :: bytes
  op_Scenario :: bytes
  op_Seed :: int
  op_TargetRPS :: rat
  op_Duration :: int
  op_MaxInFlight :: int
  op_RequestTimeout :: int
  op_PayloadProfile :: bytes
  op_OperationWeights :: "(bytes \<times> rat) list"
  op_CommitSHA :: bytes
  op_ImageTag :: bytes
  op_RunID :: bytes
  op_ReplayIndex :: "int option"
  op_Environment :: ReportEnvironment
  op_MaskFixtures :: "MaskFixture list"
  op_Payloads :: "bytes list"
  op_DatasetSHA256 :: bytes

definition or_else :: "'b::zero \<Rightarrow> 'b \<Rightarrow> 'b" where "or_else x fallback = (if x = 0 then fallback else x)"
definition or_text :: "bytes \<Rightarrow> bytes \<Rightarrow> bytes" where "or_text x fallback = (if x = [] then fallback else x)"

definition report_config :: "Options \<Rightarrow> bytes \<Rightarrow> RunConfig" where
  "report_config o' runID =
     (let mode = or_text (op_Mode o') ModeProcess; scenario = or_text (op_Scenario o') ScenarioMaskOnly;
          concurrency = or_else (op_Concurrency o') 256;
          fixtures = (if op_MaskFixtures o' = [] \<and> op_Payload o' \<noteq> [] \<and> mode = ModeProcess \<and> scenario \<noteq> ScenarioRequest
            then [\<lparr>fx_Name = ''synthetic'', fx_Payload = op_Payload o', fx_ExpectedMask = [], fx_Spans = [], fx_allowUnchanged = False\<rparr>]
            else op_MaskFixtures o')
      in \<lparr>ru_Version = op_Version o', ru_Mode = mode, ru_Scenario = scenario, ru_TargetURL = op_URL o', ru_Seed = op_Seed o',
          ru_RatePerSecond = or_else (op_TargetRPS o') 1000, ru_Concurrency = concurrency,
          ru_MaxInFlight = or_else (op_MaxInFlight o') concurrency, ru_MaxConnections = 0,
          ru_RequestTimeout = or_else (op_RequestTimeout o') (10 * time_Second), ru_Duration = op_Duration o',
          ru_OperationLimit = (if op_ReplayIndex o' \<noteq> None then 1 else op_Total o'),
          ru_PayloadProfile = or_text (op_PayloadProfile o') ''small'', ru_SystemID = op_SystemID o', ru_APIKey = op_APIKey o',
          ru_Enabled = True, ru_OperationWeights = op_OperationWeights o', ru_CommitSHA = op_CommitSHA o',
          ru_ImageTag = op_ImageTag o', ru_RunID = runID, ru_ReplayIndex = op_ReplayIndex o', ru_Environment = op_Environment o',
          ru_Payloads = op_Payloads o', ru_DatasetSHA256 = op_DatasetSHA256 o', ru_IDNamespace = runID,
          ru_MaskFixtures = fixtures\<rparr>)"

text \<open>The runner that \<^verbatim>\<open>RunReport\<close> starts.\<close>

definition RunReport_runner ::
  "(bytes \<Rightarrow> url option) \<Rightarrow> Options \<Rightarrow> 'a world_scheme \<Rightarrow> (error + load_runner) \<times> 'a world_scheme"
where
  "RunReport_runner parse o' w =
     (if op_RunID o' \<noteq> [] then (NewRunner parse (report_config o' (op_RunID o')), w)
      else
        (case rand_Read w of
           (None, w) \<Rightarrow> (Inl (ErrText ''create run ID''), w)
         | (Some nonce, w) \<Rightarrow> (NewRunner parse (report_config o' (''synthetic-'' @ hex_encode nonce)), w)))"

section \<open>The validation of a report\<close>

definition report_numbers :: "Report \<Rightarrow> rat list" where
  "report_numbers r =
     [pm_TargetRPS (rp_Parameters r), pm_DurationSeconds (rp_Parameters r), la_P50 (rp_LatencyMS r), la_P95 (rp_LatencyMS r),
      la_P99 (rp_LatencyMS r), la_Max (rp_LatencyMS r), la_Target (rp_LatencyMS r)]"

definition count_numbers :: "ReportCounts \<Rightarrow> int list" where
  "count_numbers c =
     [ct_PlannedOperations c, ct_SentRequests c, ct_DroppedOperations c, ct_SuccessfulOperations c, ct_FailedOperations c,
      ct_Timeouts c, ct_HTTPRequests c, ct_CompletedPairs c, ct_Retries c, ct_FinalRateLimited c, ct_MaxInvalidStreak c]"

definition validateReportMeasures :: "Report \<Rightarrow> error option" where
  "validateReportMeasures r =
     (let p = rp_Parameters r in
      if list_ex (\<lambda>v. v < 0) (report_numbers r) then Some (ErrText ''load report: numeric values must be finite and non-negative'')
      else if pm_Concurrency p \<le> 0 \<or> pm_MaxInFlight p \<le> 0 \<or> pm_MaxConnections p < 0 \<or> pm_RequestTimeoutMS p \<le> 0 \<or>
        pm_PayloadProfile p = []
      then Some (ErrText ''load report: invalid parameters'')
      else if list_ex (\<lambda>v. v < 0) (count_numbers (rp_Counts r)) then Some (ErrText ''load report: counts must not be negative'')
      else if 0 < rp_HTTPStatuses r [] then Some (ErrText ''load report: invalid status counts'')
      else None)"

definition validateReport :: "Report \<Rightarrow> error option" where
  "validateReport r =
     (if rp_SchemaVersion r \<noteq> ''alfagen.load.v1'' then Some (ErrText ''load report: unsupported schema_version'')
      else if rp_RunID r = [] \<or> rp_Scenario r = [] \<or>
        (case (rp_StartedAt r, rp_FinishedAt r) of (Some s, Some f) \<Rightarrow> f < s | _ \<Rightarrow> True)
      then Some (ErrText ''load report: invalid identity or timestamps'')
      else if rp_Verdict r \<notin> {''PASS'', ''SLO_MISSED'', ''HARNESS_ERROR'', ''CANCELLED''}
      then Some (ErrText ''load report: invalid verdict'')
      else
        (case validateReportMeasures r of
           Some e \<Rightarrow> Some e
         | None \<Rightarrow>
             if re_Runner (rp_Environment r) \<noteq> ''external'' \<and> re_Runner (rp_Environment r) \<noteq> ''same_vps''
             then Some (ErrText ''load report: environment.runner must be external or same_vps'')
             else if list_ex (\<lambda>(k, v). v < 0) (re_ResourceLimits (rp_Environment r))
             then Some (ErrText ''load report: invalid resource limit'')
             else None))"

definition WriteJSON :: "(Report \<Rightarrow> bytes) \<Rightarrow> Report \<Rightarrow> error + bytes" where
  "WriteJSON encode r = (case validateReport r of Some e \<Rightarrow> Inl e | None \<Rightarrow> Inr (encode r))"

section \<open>The finite client\<close>

record finite_world = world +
  fi_success :: int
  fi_failed :: int
  fi_attempts :: int
  fi_retries :: int
  fi_final429 :: int
  fi_totalLatency :: int
  fi_tracker :: availabilityTracker

record 'w finite_platform =
  fp_client :: "run_request \<Rightarrow> 'w \<Rightarrow> (error + run_response) \<times> 'w"
  fp_parse :: "bytes \<Rightarrow> url option"
  fp_ParseTime :: "bytes \<Rightarrow> int option"

definition finite_Err :: "'a finite_world_scheme \<Rightarrow> error option \<times> 'a finite_world_scheme" where
  "finite_Err w = (case ctx_Err w of (e, w) \<Rightarrow> (if tk_stopped (fi_tracker w) then Some ErrCanceled else e, w))"

record finiteAttemptResult =
  fa_disposition :: requestDisposition
  fa_sent :: bool
  fa_retryable :: bool
  fa_latency :: int
  fa_retryAfter :: int

definition classifyFiniteResponse ::
  "(bytes \<Rightarrow> int option) \<Rightarrow> finiteAttemptResult \<Rightarrow> run_response \<Rightarrow> 'a finite_world_scheme \<Rightarrow>
   finiteAttemptResult \<times> 'a finite_world_scheme"
where
  "classifyFiniteResponse parse_time result resp w =
     (let bodyOK = (bounded_body (hr_Body resp) \<noteq> None) in
      if bodyOK \<and> hr_StatusCode resp = 200 then (result\<lparr>fa_disposition := dispositionSuccess\<rparr>, w)
      else if hr_StatusCode resp = 429 then
        (case time_Now w of
           (now, w) \<Rightarrow>
             (result\<lparr>fa_disposition := dispositionRateLimited, fa_retryable := True,
                fa_retryAfter := parseRetryAfter parse_time (hr_RetryAfter resp) now\<rparr>, w))
      else (result\<lparr>fa_retryable := (\<not> bodyOK \<or> 500 \<le> hr_StatusCode resp)\<rparr>, w))"

definition finiteAttempt ::
  "'a finite_world_scheme finite_platform \<Rightarrow> Options \<Rightarrow> bytes \<Rightarrow> 'a finite_world_scheme \<Rightarrow> finiteAttemptResult \<times> 'a finite_world_scheme"
where
  "finiteAttempt pf o' body w =
     (let result = \<lparr>fa_disposition = dispositionInvalid, fa_sent = False, fa_retryable = False, fa_latency = 0, fa_retryAfter = 0\<rparr> in
      if fp_parse pf (op_URL o') = None then (result, w)
      else
        (case time_Now w of
           (started, w) \<Rightarrow>
             (case fp_client pf \<lparr>hq_url = op_URL o', hq_SystemID = op_SystemID o', hq_APIKey = Some (op_APIKey o'), hq_body = body\<rparr> w of
                (answer, w) \<Rightarrow>
                  (case time_Now w of
                     (now, w) \<Rightarrow>
                       (let result = result\<lparr>fa_sent := True, fa_latency := now - started\<rparr> in
                        case answer of
                          Inr resp \<Rightarrow> classifyFiniteResponse (fp_ParseTime pf) result resp w
                        | Inl e \<Rightarrow>
                            (case (if e = ErrCanceled then (Some e, w) else finite_Err w) of
                               (Some _, w) \<Rightarrow> (result\<lparr>fa_disposition := dispositionCancelled, fa_retryable := False\<rparr>, w)
                             | (None, w) \<Rightarrow> (result\<lparr>fa_retryable := True\<rparr>, w)))))))"

text \<open>The disposition, the attempts, the retries, whether the last answer was a limit, and the latency.\<close>

fun finite_loop ::
  "'a finite_world_scheme finite_platform \<Rightarrow> nat \<Rightarrow> Options \<Rightarrow> bytes \<Rightarrow> int \<Rightarrow> int \<Rightarrow> 'a finite_world_scheme \<Rightarrow>
   (requestDisposition \<times> int \<times> int \<times> bool \<times> int) \<times> 'a finite_world_scheme"
where
  "finite_loop pf 0 o' body totalLatency retries w =
     ((dispositionInvalid, int requestAttemptsLimit, retries, False, totalLatency), w)"
| "finite_loop pf (Suc left) o' body totalLatency retries w =
     (let attempt = int (requestAttemptsLimit - left) in
      case finiteAttempt pf o' body w of
        (result, w) \<Rightarrow>
          (let totalLatency = totalLatency + fa_latency result; d = fa_disposition result in
           if \<not> fa_sent result then ((d, attempt - 1, retries, False, totalLatency), w)
           else if \<not> fa_retryable result \<or> left = 0
           then ((d, attempt, retries, d = dispositionRateLimited, totalLatency), w)
           else
             (let delay = (if d = dispositionRateLimited then fa_retryAfter result else attempt * firstTransientRetryBackoff) in
              case (if delay \<le> 0 then (None, w) else finite_Err w) of
                (Some _, w) \<Rightarrow> ((dispositionCancelled, attempt, retries, False, totalLatency), w)
              | (None, w) \<Rightarrow> finite_loop pf left o' body totalLatency (retries + 1) w)))"

definition finiteRequest ::
  "'a finite_world_scheme finite_platform \<Rightarrow> Options \<Rightarrow> bytes \<Rightarrow> 'a finite_world_scheme \<Rightarrow>
   (requestDisposition \<times> int \<times> int \<times> bool \<times> int) \<times> 'a finite_world_scheme"
where
  "finiteRequest pf o' body w = finite_loop pf requestAttemptsLimit o' body 0 0 w"

definition finite_count :: "requestDisposition \<times> int \<times> int \<times> bool \<times> int \<Rightarrow> 'a finite_world_scheme \<Rightarrow> 'a finite_world_scheme" where
  "finite_count x w =
     (case x of
        (d, attempts, retries, final429, latency) \<Rightarrow>
          (let w = w\<lparr>fi_attempts := fi_attempts w + attempts, fi_retries := fi_retries w + retries,
                 fi_final429 := fi_final429 w + (if final429 then 1 else 0), fi_tracker := tracker_record d (fi_tracker w)\<rparr> in
           if d = dispositionSuccess then w\<lparr>fi_success := fi_success w + 1, fi_totalLatency := fi_totalLatency w + latency\<rparr>
           else if d \<noteq> dispositionCancelled then w\<lparr>fi_failed := fi_failed w + 1\<rparr>
           else w))"

definition finite_request ::
  "'a finite_world_scheme finite_platform \<Rightarrow> Options \<Rightarrow> bytes \<Rightarrow> nat \<Rightarrow> 'a finite_world_scheme \<Rightarrow> 'a finite_world_scheme"
where
  "finite_request pf o' runID i w =
     (case finiteRequest pf o' (process_body (op_Payload o') (runID @ ''-'' @ decimal i)) w of (x, w) \<Rightarrow> finite_count x w)"

text \<open>The indices that were handed to the workers, in the order in which their requests end.\<close>

definition finite_Run ::
  "'a finite_world_scheme finite_platform \<Rightarrow> Options \<Rightarrow> nat list \<Rightarrow> 'a finite_world_scheme \<Rightarrow> error option \<times> 'a finite_world_scheme"
where
  "finite_Run pf o' jobs w =
     (if op_Concurrency o' \<le> 0 \<or> op_Total o' \<le> 0 then (Some (ErrText ''positive concurrency and request count required''), w)
      else
        (let w = w\<lparr>fi_success := 0, fi_failed := 0, fi_attempts := 0, fi_retries := 0, fi_final429 := 0, fi_totalLatency := 0,
                   fi_tracker := \<lparr>tk_consecutive = 0, tk_maximum = 0, tk_stopped = False\<rparr>\<rparr> in
         case time_Now w of
           (start, w) \<Rightarrow>
             (let runID = ''load-'' @ signed_decimal start; w = fold (finite_request pf o' runID) jobs w in
              case ctx_Err w of
                (Some e, w) \<Rightarrow> (Some e, w)
              | (None, w) \<Rightarrow>
                  (if tk_stopped (fi_tracker w) then Some (ErrText ''load stopped after five consecutive invalid requests'')
                   else if 0 < fi_failed w then Some (ErrText ''load run had failed requests'')
                   else None, w))))"

end
