(* ===== verification/Load_Properties.thy ===== *)
theory Load_Properties
  imports Load_Client "HOL-Library.Sublist"
begin

text \<open>What holds of load tests: when they stop, which slots they plan, what becomes of planned operations, and reports.\<close>

section \<open>Five answers in a row\<close>

text \<open>Limits and cancellations are neutral.\<close>

definition outcomes :: "requestDisposition list \<Rightarrow> requestDisposition list" where
  "outcomes ds = filter (\<lambda>d. d = dispositionSuccess \<or> d = dispositionInvalid) ds"

definition new_tracker :: availabilityTracker where
  "new_tracker = \<lparr>tk_consecutive = 0, tk_maximum = 0, tk_stopped = False\<rparr>"

abbreviation streak :: "nat \<Rightarrow> requestDisposition list" where "streak n \<equiv> replicate n dispositionInvalid"

text \<open>The invalid answers at the end.\<close>

definition run_end :: "requestDisposition list \<Rightarrow> nat" where
  "run_end zs = length (takeWhile (\<lambda>d. d = dispositionInvalid) (rev zs))"

lemma run_end_simps [simp]:
  "run_end [] = 0" "run_end (zs @ [dispositionInvalid]) = Suc (run_end zs)" "run_end (zs @ [dispositionSuccess]) = 0"
  by (simp_all add: run_end_def)

lemma prefix_streak: "prefix (streak n) ys \<longleftrightarrow> n \<le> length (takeWhile (\<lambda>d. d = dispositionInvalid) ys)"
proof (induction n arbitrary: ys)
  case (Suc n)
  then show ?case by (cases ys) auto
qed simp

lemma suffix_streak: "suffix (streak n) zs \<longleftrightarrow> n \<le> run_end zs"
  by (simp add: run_end_def suffix_to_prefix prefix_streak)

lemma sublist_streak_snoc: "sublist (streak n) (zs @ [d]) \<longleftrightarrow> sublist (streak n) zs \<or> n \<le> run_end (zs @ [d])"
proof -
  have "sublist (streak n) (zs @ [d]) \<longleftrightarrow> sublist (streak n) zs \<or> suffix (streak n) (zs @ [d])"
    by (metis sublist_append_rightI sublist_order.order_trans sublist_snoc suffix_imp_sublist)
  then show ?thesis by (simp only: suffix_streak)
qed

definition tracked :: "requestDisposition list \<Rightarrow> availabilityTracker \<Rightarrow> bool" where
  "tracked ds t \<longleftrightarrow>
     tk_maximum t \<le> 5 \<and> (tk_stopped t \<longleftrightarrow> tk_maximum t = 5) \<and>
     (\<forall>n \<le> 5. sublist (streak n) (outcomes ds) \<longleftrightarrow> int n \<le> tk_maximum t) \<and>
     (\<not> tk_stopped t \<longrightarrow> tk_consecutive t = int (run_end (outcomes ds)) \<and> tk_consecutive t \<le> tk_maximum t)"

lemma tracked_empty: "tracked [] new_tracker"
  by (simp add: tracked_def new_tracker_def outcomes_def)

lemma tracked_stopped:
  assumes "tracked ds t" and "tk_stopped t"
  shows "tracked (ds @ [d]) t"
proof -
  have o: "outcomes (ds @ [d]) = outcomes ds @ outcomes [d]" by (simp add: outcomes_def)
  have "sublist (streak n) (outcomes ds)" if "n \<le> 5" for n using assms that by (auto simp: tracked_def)
  then have "sublist (streak n) (outcomes (ds @ [d]))" if "n \<le> 5" for n
    unfolding o using that by (meson sublist_append_rightI sublist_order.order_trans)
  then show ?thesis using assms by (auto simp: tracked_def)
qed

lemma tracked_invalid:
  assumes "tracked ds t" and "\<not> tk_stopped t"
  shows "tracked (ds @ [dispositionInvalid]) (tracker_record dispositionInvalid t)"
proof -
  let ?o = "outcomes ds" and ?m = "max (tk_maximum t) (tk_consecutive t + 1)"
  have o: "outcomes (ds @ [dispositionInvalid]) = ?o @ [dispositionInvalid]" by (simp add: outcomes_def)
  have c: "tk_maximum t < 5" "tk_consecutive t = int (run_end ?o)" "tk_consecutive t \<le> tk_maximum t"
    "\<And>n. n \<le> 5 \<Longrightarrow> sublist (streak n) ?o \<longleftrightarrow> int n \<le> tk_maximum t"
    using assms by (auto simp: tracked_def)
  have b: "sublist (streak n) (?o @ [dispositionInvalid]) \<longleftrightarrow> int n \<le> ?m" if "n \<le> 5" for n
    using c(2) c(4) [OF that] unfolding sublist_streak_snoc run_end_simps by linarith
  have "tracker_record dispositionInvalid t =
      \<lparr>tk_consecutive = tk_consecutive t + 1, tk_maximum = ?m, tk_stopped = (5 \<le> tk_consecutive t + 1)\<rparr>"
    using assms(2) by (cases t) (simp add: tracker_record_def Let_def consecutiveInvalidLimit_def)
  then show ?thesis using c(1-3) b by (auto simp: tracked_def o)
qed

lemma tracked_success:
  assumes "tracked ds t" and "\<not> tk_stopped t"
  shows "tracked (ds @ [dispositionSuccess]) (tracker_record dispositionSuccess t)"
proof -
  have o: "outcomes (ds @ [dispositionSuccess]) = outcomes ds @ [dispositionSuccess]" by (simp add: outcomes_def)
  have "tk_maximum t < 5" "\<And>n. n \<le> 5 \<Longrightarrow> sublist (streak n) (outcomes ds) \<longleftrightarrow> int n \<le> tk_maximum t" "0 \<le> tk_maximum t"
    using assms by (auto simp: tracked_def)
  then have "sublist (streak n) (outcomes ds @ [dispositionSuccess]) \<longleftrightarrow> int n \<le> tk_maximum t" if "n \<le> 5" for n
    using that unfolding sublist_streak_snoc run_end_simps by auto
  then show ?thesis using assms \<open>0 \<le> tk_maximum t\<close> by (simp add: tracked_def o tracker_record_def)
qed

lemma tracked_step: "tracked ds t \<Longrightarrow> tracked (ds @ [d]) (tracker_record d t)"
proof (cases "tk_stopped t")
  case True
  then show "tracked ds t \<Longrightarrow> ?thesis" using tracked_stopped by (simp add: tracker_record_def)
next
  case False
  assume t: "tracked ds t"
  show ?thesis
  proof (cases d)
    case dispositionSuccess
    then show ?thesis using tracked_success [OF t False] by simp
  next
    case dispositionInvalid
    then show ?thesis using tracked_invalid [OF t False] by simp
  qed (use t False in \<open>simp_all add: tracked_def outcomes_def tracker_record_def\<close>)
qed

lemma tracked_fold: "tracked ds (fold tracker_record ds new_tracker)"
proof (induction ds rule: rev_induct)
  case (snoc d ds)
  then show ?case using tracked_step by simp
qed (simp add: tracked_empty)

text \<open>
  C27. A run stops exactly when five answers in a row were invalid, where limits and cancellations do not count, neither
  as an answer nor as an interruption; and the reported streak is the longest one, up to five.
\<close>

theorem stops_after_five_invalid:
  "(tk_stopped (fold tracker_record ds new_tracker) \<longleftrightarrow> sublist (streak 5) (outcomes ds)) \<and>
   (n \<le> 5 \<longrightarrow> (int n \<le> tk_maximum (fold tracker_record ds new_tracker) \<longleftrightarrow> sublist (streak n) (outcomes ds)))"
proof -
  have t: "\<And>n. n \<le> 5 \<Longrightarrow> sublist (streak n) (outcomes ds) \<longleftrightarrow> int n \<le> tk_maximum (fold tracker_record ds new_tracker)"
    "tk_maximum (fold tracker_record ds new_tracker) \<le> 5"
    "tk_stopped (fold tracker_record ds new_tracker) \<longleftrightarrow> tk_maximum (fold tracker_record ds new_tracker) = 5"
    using tracked_fold [of ds] by (auto simp: tracked_def)
  from t(1) [of 5] t(1) [of n] t(2,3) show ?thesis by auto
qed

lemma stops_after_five_invalid_witness:
  "let ds = [dispositionInvalid, dispositionRateLimited, dispositionInvalid, dispositionSuccess]
   in int 2 \<le> tk_maximum (fold tracker_record ds new_tracker)"
proof -
  have "sublist (streak 2) (outcomes [dispositionInvalid, dispositionRateLimited, dispositionInvalid, dispositionSuccess])"
    by (simp add: outcomes_def numeral_2_eq_2)
  with stops_after_five_invalid
    [of "[dispositionInvalid, dispositionRateLimited, dispositionInvalid, dispositionSuccess]" 2]
  show ?thesis by (simp add: Let_def)
qed

section \<open>Slots\<close>

text \<open>The slots of a ticker up to a time.\<close>

definition slots :: "realTicker \<Rightarrow> int \<Rightarrow> int" where
  "slots t now = (if now < tc_next t then 0 else (now - tc_next t) div tc_interval t + 1)"

fun due_total :: "int list \<Rightarrow> realTicker \<Rightarrow> int" where
  "due_total [] t = 0"
| "due_total (now # nows) t = (case ticker_Due now t of (n, t) \<Rightarrow> n + due_total nows t)"

lemma ticker_Due_slots:
  "ticker_Due now t = (slots t now, t\<lparr>tc_next := tc_next t + slots t now * tc_interval t\<rparr>)"
  by (simp add: ticker_Due_def slots_def Let_def)

lemma div_below: "0 < i \<Longrightarrow> x < k * i \<Longrightarrow> x div i < k" for i x k :: int
proof (rule ccontr)
  assume i: "0 < i" and x: "x < k * i" and "\<not> x div i < k"
  then have "k * i \<le> x div i * i" by (simp add: mult_right_mono)
  also have "\<dots> \<le> x" using div_mult_mod_eq [of x i] pos_mod_sign [OF i, of x] by linarith
  finally show False using x by simp
qed

lemma slots_passed:
  assumes "0 < tc_interval t"
  shows "now < tc_next t + slots t now * tc_interval t" "0 \<le> slots t now"
proof -
  let ?d = "now - tc_next t" and ?i = "tc_interval t"
  have "?d = ?d div ?i * ?i + ?d mod ?i" "?d mod ?i < ?i" using assms by simp_all
  then have "?d < ?d div ?i * ?i + ?i" by linarith
  then have "?d < (?d div ?i + 1) * ?i" by (simp add: distrib_right)
  then show "now < tc_next t + slots t now * tc_interval t" by (auto simp: slots_def)
  show "0 \<le> slots t now" using assms by (auto simp: slots_def pos_imp_zdiv_nonneg_iff)
qed

lemma slots_before:
  assumes "0 < tc_interval t" and "a \<le> m" and "m < tc_next t + slots t a * tc_interval t"
  shows "slots t m = slots t a"
proof (cases "a < tc_next t")
  case True
  then show ?thesis using assms(3) by (simp add: slots_def)
next
  case False
  have k: "slots t a = (a - tc_next t) div tc_interval t + 1" using False by (simp add: slots_def)
  have "(a - tc_next t) div tc_interval t \<le> (m - tc_next t) div tc_interval t" using assms(1,2) by (simp add: zdiv_mono1)
  moreover have "(m - tc_next t) div tc_interval t < slots t a" by (rule div_below [OF assms(1)]) (use assms(3) in linarith)
  ultimately show ?thesis using False assms(2) k by (simp add: slots_def)
qed

lemma slots_behind:
  assumes "0 < tc_interval t" and "tc_next t + slots t a * tc_interval t \<le> m"
  shows "slots t m = slots t a + slots (t\<lparr>tc_next := tc_next t + slots t a * tc_interval t\<rparr>) m"
proof -
  let ?i = "tc_interval t" and ?k = "slots t a"
  have "0 \<le> ?k * ?i" using assms(1) slots_passed(2) [OF assms(1)] by simp
  then have m: "tc_next t \<le> m" using assms(2) by linarith
  have "(m - (tc_next t + ?k * ?i) + ?k * ?i) div ?i = ?k + (m - (tc_next t + ?k * ?i)) div ?i"
    by (rule div_mult_self1) (use assms(1) in simp)
  moreover have "m - (tc_next t + ?k * ?i) + ?k * ?i = m - tc_next t" by simp
  ultimately show ?thesis using assms(2) m by (simp add: slots_def)
qed

lemma slots_split:
  assumes "0 < tc_interval t"
  shows "slots t (max a m) = slots t a + slots (t\<lparr>tc_next := tc_next t + slots t a * tc_interval t\<rparr>) m"
proof (cases "m < tc_next t + slots t a * tc_interval t")
  case True
  then have "max a m < tc_next t + slots t a * tc_interval t" using slots_passed(1) [OF assms, of a] by simp
  then have "slots t (max a m) = slots t a" using slots_before [OF assms, of a "max a m"] by simp
  then show ?thesis using True by (simp add: slots_def [of "t\<lparr>tc_next := _\<rparr>"])
next
  case False
  then have "max a m = m" using slots_passed(1) [OF assms, of a] by simp
  then show ?thesis using slots_behind [OF assms, of a m] False by simp
qed

text \<open>
  No slot is lost and none is planned twice: however late and however often the ticker wakes up, the slots that
  have come due are the ones up to the latest reading of the clock.
\<close>

theorem slots_exact:
  assumes "0 < tc_interval t" and "nows \<noteq> []"
  shows "due_total nows t = slots t (Max (set nows))"
  using assms
proof (induction nows arbitrary: t)
  case (Cons a nows)
  let ?t = "t\<lparr>tc_next := tc_next t + slots t a * tc_interval t\<rparr>"
  show ?case
  proof (cases "nows = []")
    case True
    then show ?thesis by (simp add: ticker_Due_slots)
  next
    case False
    have "due_total (a # nows) t = slots t a + slots ?t (Max (set nows))"
      using Cons.IH [of ?t] Cons.prems(1) False by (simp add: ticker_Due_slots)
    moreover have "Max (set (a # nows)) = max a (Max (set nows))" using False by simp
    ultimately show ?thesis using slots_split [OF Cons.prems(1)] by simp
  qed
qed simp

lemma slots_exact_witness: "due_total [3, 25, 24] \<lparr>tc_next = 10, tc_interval = 5\<rparr> = 4"
  using slots_exact [of "\<lparr>tc_next = 10, tc_interval = 5\<rparr>" "[3, 25, 24]"] by (simp add: slots_def)

section \<open>What becomes of planned operations\<close>

definition capacity :: "RunConfig \<Rightarrow> int" where "capacity cfg = min (ru_MaxInFlight cfg) (concurrencyOf cfg)"

text \<open>The counters agree with each other and with the operations that are at work.\<close>

definition balanced :: "int \<Rightarrow> 'a run_world_scheme \<Rightarrow> int \<Rightarrow> bool" where
  "balanced bound w pending \<longleftrightarrow>
     (let c = lw_counts w in
      rn_planned c = rn_sent c + rn_dropped c \<and> rn_sent c = rn_success c + rn_failed c + pending \<and> lw_inflight w = pending \<and>
      0 \<le> pending \<and> pending \<le> bound \<and> 0 \<le> rn_success c \<and> 0 \<le> rn_failed c \<and> 0 \<le> rn_dropped c)"

lemma intervalFor_antimono: "0 < r \<Longrightarrow> r \<le> s \<Longrightarrow> intervalFor s \<le> intervalFor r"
  by (auto simp: intervalFor_def time_Second_def intro!: floor_mono divide_left_mono)

lemma operation_interval:
  assumes "RunConfig_Validate parse cfg = None"
  shows "0 < operationIntervalFor cfg"
proof -
  have r: "0 < ru_RatePerSecond cfg" "0 < intervalFor (ru_RatePerSecond cfg)"
    using assms by (auto simp: RunConfig_Validate_def validateTarget_def split: if_split_asm option.split_asm)
  have "ru_RatePerSecond cfg / x \<le> ru_RatePerSecond cfg" "0 < ru_RatePerSecond cfg / x" if "1 < x" for x
    using r(1) that by (simp_all add: divide_le_eq)
  then show ?thesis using intervalFor_antimono r by (fastforce simp: operationIntervalFor_def Let_def)
qed

lemma plan_cases:
  assumes "plan cfg due w = (reached, launched, w')" and "0 \<le> due"
  obtains (idle) "launched = []" "w' = w"
  | (planned) d l where "0 < d" "0 \<le> l" "l \<le> d" "l \<le> max 0 (capacity cfg - lw_inflight w)" "length launched = nat l"
      "0 < ru_OperationLimit cfg \<longrightarrow> rn_planned (lw_counts w) + d \<le> ru_OperationLimit cfg"
      "w' = w\<lparr>lw_counts := (lw_counts w)\<lparr>rn_planned := rn_planned (lw_counts w) + d,
          rn_dropped := rn_dropped (lw_counts w) + (d - l), rn_sent := rn_sent (lw_counts w) + l\<rparr>,
        lw_inflight := lw_inflight w + l\<rparr>"
proof (cases "\<not> ru_Enabled cfg \<or> due = 0 \<or> 0 < ru_OperationLimit cfg \<and> ru_OperationLimit cfg - rn_planned (lw_counts w) \<le> 0")
  case True
  then have "plan cfg due w = (False, [], w) \<or> plan cfg due w = (True, [], w)"
    by (cases "\<not> ru_Enabled cfg \<or> due = 0") (simp_all add: plan_def Let_def)
  then have "launched = []" "w' = w" using assms(1) by auto
  then show thesis by (rule idle)
next
  case False
  let ?c = "lw_counts w" and ?limit = "ru_OperationLimit cfg"
  define d where "d = (if 0 < ?limit then min due (?limit - rn_planned ?c) else due)"
  define l where "l = min d (max 0 (capacity cfg - lw_inflight w))"
  have p: "plan cfg due w =
      (0 < ?limit \<and> ?limit \<le> rn_planned ?c + d,
       map (\<lambda>i. case ru_ReplayIndex cfg of None \<Rightarrow> i | Some j \<Rightarrow> j) [rn_planned ?c .. rn_planned ?c + l - 1],
       w\<lparr>lw_counts := ?c\<lparr>rn_planned := rn_planned ?c + d, rn_dropped := rn_dropped ?c + (d - l), rn_sent := rn_sent ?c + l\<rparr>,
         lw_inflight := lw_inflight w + l\<rparr>)"
    using False unfolding plan_def d_def l_def capacity_def Let_def by (simp only: if_False simp_thms de_Morgan_disj)
  have "0 < d" using False assms(2) by (auto simp: d_def)
  moreover have "0 \<le> l" "l \<le> d" "l \<le> max 0 (capacity cfg - lw_inflight w)" using \<open>0 < d\<close> by (auto simp: l_def)
  moreover have "0 < ?limit \<longrightarrow> rn_planned ?c + d \<le> ?limit" by (simp add: d_def min_def)
  moreover have "length launched = nat l" using p assms(1) by auto
  ultimately show thesis using planned p assms(1) by auto
qed

lemma plan_balanced:
  assumes "plan cfg due w = (reached, launched, w')" and "0 \<le> due" and "balanced bound w n" and "capacity cfg \<le> bound"
  shows "balanced bound w' (n + int (length launched))"
  using assms(1,2)
proof (cases rule: plan_cases)
  case (planned d l)
  then show ?thesis using assms(3,4) by (simp add: balanced_def Let_def) linarith
qed (use assms(3) in simp)

lemma plan_limited:
  assumes "plan cfg due w = (reached, launched, w')" and "0 \<le> due" and "0 < ru_OperationLimit cfg"
    and "rn_planned (lw_counts w) \<le> k" and "ru_OperationLimit cfg \<le> k"
  shows "rn_planned (lw_counts w') \<le> k"
  using assms(1,2) by (cases rule: plan_cases) (use assms(3-5) in simp_all)

text \<open>A wake-up plans with a number of slots that is not negative, and leaves a ticker that makes progress.\<close>

lemma ticker_Due_facts:
  assumes "ticker_Due now t = (due, t')" and "0 < tc_interval t"
  shows "0 \<le> due" "tc_interval t' = tc_interval t"
  using assms slots_passed(2) by (auto simp: ticker_Due_slots)

lemma tick_plans:
  assumes "tick now later r e w = ((fin, launched), e', w')" and "0 < operationIntervalFor (ld_cfg r)"
    and "0 < tc_interval (ex_ticker e)"
  shows "0 < tc_interval (ex_ticker e') \<and> (\<exists>due reached. 0 \<le> due \<and> plan (ld_cfg r) due w = (reached, launched, w'))"
proof -
  let ?cfg = "ld_cfg r"
  let ?e = "if ru_Duration ?cfg \<noteq> ex_activeDuration e then resetDurationTimer (ru_Duration ?cfg) later e else e"
  let ?fin = "ru_Duration ?cfg > 0 \<and> ex_start ?e + ru_Duration ?cfg \<le> now"
  obtain due t where d: "ticker_Due (if ?fin then ex_start ?e + ru_Duration ?cfg else now) (ex_ticker ?e) = (due, t)"
    by (cases "ticker_Due (if ?fin then ex_start ?e + ru_Duration ?cfg else now) (ex_ticker ?e)") auto
  have t: "0 \<le> due" "0 < tc_interval t"
    using ticker_Due_facts [OF d] assms(3) by (simp_all add: resetDurationTimer_def split: if_split_asm)
  obtain reached idx w1 where p: "plan ?cfg due w = (reached, idx, w1)" by (cases "plan ?cfg due w") auto
  show ?thesis
  proof (cases "ru_Enabled ?cfg")
    case False
    then have "plan ?cfg due w = (False, [], w)" by (simp add: plan_def Let_def)
    moreover have "launched = []" "w' = w" "ex_ticker e' = t"
      using assms(1) d False by (auto simp: tick_def Let_def)
    ultimately show ?thesis using t by auto
  next
    case True
    then have "launched = idx" "w' = w1"
      "ex_ticker e' = (if operationIntervalFor ?cfg \<noteq> ex_interval ?e then new_ticker (operationIntervalFor ?cfg) later else t)"
      using assms(1) d p by (auto simp: tick_def Let_def)
    then show ?thesis using t p assms(2) by (auto simp: new_ticker_def)
  qed
qed

lemma durationElapsed_plans:
  assumes "durationElapsed now later r e w = ((fin, launched), e', w')" and "0 < tc_interval (ex_ticker e)"
  shows "0 < tc_interval (ex_ticker e') \<and> (\<exists>due reached. 0 \<le> due \<and> plan (ld_cfg r) due w = (reached, launched, w'))"
proof (cases "ru_Duration (ld_cfg r) \<le> 0 \<or> now < ex_start e + ru_Duration (ld_cfg r)")
  case True
  moreover have "plan (ld_cfg r) 0 w = (False, [], w)" by (simp add: plan_def Let_def)
  ultimately show ?thesis using assms by (auto simp: durationElapsed_def Let_def resetDurationTimer_def)
next
  case False
  obtain due t where d: "ticker_Due (ex_start e + ru_Duration (ld_cfg r)) (ex_ticker e) = (due, t)"
    by (cases "ticker_Due (ex_start e + ru_Duration (ld_cfg r)) (ex_ticker e)") auto
  obtain reached idx w1 where "plan (ld_cfg r) due w = (reached, idx, w1)" by (cases "plan (ld_cfg r) due w") auto
  then show ?thesis
    using ticker_Due_facts [OF d assms(2)] assms d False by (auto simp: durationElapsed_def Let_def)
qed

text \<open>The invariant of a run whose configurations have a capacity of at most \<open>bound\<close>, and a limit of at most \<open>k\<close> if \<open>limited\<close>.\<close>

definition admitted :: "(bytes \<Rightarrow> url option) \<Rightarrow> int \<Rightarrow> bool \<Rightarrow> int \<Rightarrow> RunConfig \<Rightarrow> bool" where
  "admitted parse bound limited k cfg \<longleftrightarrow>
     RunConfig_Validate parse cfg = None \<and> capacity cfg \<le> bound \<and>
     (limited \<longrightarrow> 0 < ru_OperationLimit cfg \<and> ru_OperationLimit cfg \<le> k)"

definition load_ok :: "(bytes \<Rightarrow> url option) \<Rightarrow> int \<Rightarrow> bool \<Rightarrow> int \<Rightarrow> 'a load_state \<Rightarrow> bool" where
  "load_ok parse bound limited k s \<longleftrightarrow>
     admitted parse bound limited k (ld_cfg (ls_runner s)) \<and> 0 < tc_interval (ex_ticker (ls_exec s)) \<and>
     balanced bound (ls_world s) (int (length (ls_pending s))) \<and>
     (limited \<longrightarrow> rn_planned (lw_counts (ls_world s)) \<le> k)"

lemma woken_ok:
  assumes "load_ok parse bound limited k s"
    and "0 < tc_interval (ex_ticker (fst (snd x)))" and "plan (ld_cfg (ls_runner s)) due (ls_world s) = (reached, snd (fst x), snd (snd x))"
    and "0 \<le> due"
  shows "load_ok parse bound limited k (woken x s)"
proof -
  obtain fin launched e w where x: "x = ((fin, launched), e, w)" by (metis prod.exhaust)
  have p: "plan (ld_cfg (ls_runner s)) due (ls_world s) = (reached, launched, w)" using assms(3) x by simp
  have "balanced bound w (int (length (ls_pending s)) + int (length launched))"
    using plan_balanced [OF p assms(4)] assms(1) by (simp add: load_ok_def admitted_def)
  moreover have "limited \<longrightarrow> rn_planned (lw_counts w) \<le> k"
    using plan_limited [OF p assms(4)] assms(1) by (simp add: load_ok_def admitted_def)
  ultimately show ?thesis using assms(1,2) x by (simp add: load_ok_def woken_def)
qed

lemma balanced_finish:
  assumes "balanced bound w n" and "0 < n"
  shows "balanced bound (finish_operation ok w) (n - 1)"
  using assms by (auto simp: balanced_def finish_operation_def count_up_def Let_def)

lemmas load_step_cases = load_stepE [consumes 1, case_names Tick Elapsed Cancelled Reload Rejected Work Finish]

lemma load_step_ok:
  assumes "load_step parse configs s s'" and "load_ok parse bound limited k s"
    and "\<forall>cfg \<in> configs. RunConfig_Validate parse cfg = None \<longrightarrow> admitted parse bound limited k cfg"
  shows "load_ok parse bound limited k s'"
  using assms(1)
proof (cases rule: load_step_cases)
  case (Tick now later)
  let ?x = "tick now later (ls_runner s) (ls_exec s) (ls_world s)"
  have "0 < operationIntervalFor (ld_cfg (ls_runner s))" "0 < tc_interval (ex_ticker (ls_exec s))"
    using assms(2) operation_interval by (auto simp: load_ok_def admitted_def)
  moreover obtain fin launched e w where "?x = ((fin, launched), e, w)" by (metis prod.exhaust)
  ultimately show ?thesis using tick_plans woken_ok [OF assms(2), of ?x] Tick by (metis fst_conv snd_conv)
next
  case (Elapsed now later)
  let ?x = "durationElapsed now later (ls_runner s) (ls_exec s) (ls_world s)"
  have "0 < tc_interval (ex_ticker (ls_exec s))" using assms(2) by (simp add: load_ok_def)
  moreover obtain fin launched e w where "?x = ((fin, launched), e, w)" by (metis prod.exhaust)
  ultimately show ?thesis using durationElapsed_plans woken_ok [OF assms(2), of ?x] Elapsed by (metis fst_conv snd_conv)
next
  case (Reload cfg)
  have "admitted parse bound limited k (ld_cfg (snd (Runner_SetConfig parse cfg (ls_runner s))))"
    using Reload assms(2,3) by (auto simp: Runner_SetConfig_def RecordReloadFailure_def load_ok_def split: option.split)
  then show ?thesis using assms(2) Reload by (simp add: load_ok_def)
next
  case (Finish x ok)
  then have n: "0 < length (ls_pending s)" by (cases "ls_pending s") auto
  then have "int (length (remove1 x (ls_pending s))) = int (length (ls_pending s)) - 1"
    using Finish by (simp add: length_remove1 of_nat_diff Suc_leI)
  then have "balanced bound (finish_operation ok (ls_world s)) (int (length (remove1 x (ls_pending s))))"
    using balanced_finish [of bound "ls_world s" "int (length (ls_pending s))" ok] assms(2) n by (simp add: load_ok_def)
  moreover have "rn_planned (lw_counts (finish_operation ok (ls_world s))) = rn_planned (lw_counts (ls_world s))"
    by (simp add: finish_operation_def count_up_def Let_def)
  ultimately show ?thesis using assms(2) Finish by (simp add: load_ok_def)
next
  case (Work w)
  then have "balanced bound w n = balanced bound (ls_world s) n" "rn_planned (lw_counts w) = rn_planned (lw_counts (ls_world s))"
    for n by (simp_all add: same_plan_def balanced_def Let_def)
  then show ?thesis using assms(2) Work by (simp add: load_ok_def)
qed (use assms(2) in \<open>simp_all add: load_ok_def RecordReloadFailure_def\<close>)

lemma start_run_ok:
  assumes "NewRunner parse cfg = Inr r" and "admitted parse bound limited k cfg" and "0 \<le> bound" and "limited \<longrightarrow> 0 \<le> k"
  shows "load_ok parse bound limited k (start_run r start now w)"
proof -
  have "ld_cfg r = cfg" "RunConfig_Validate parse cfg = None"
    using assms(1) by (auto simp: NewRunner_def split: option.splits)
  then show ?thesis
    using assms operation_interval [of parse cfg]
    by (simp add: load_ok_def start_run_def start_execution_def resetDurationTimer_def fresh_run_def balanced_def Let_def)
qed

lemma load_reachable:
  assumes "(load_step parse configs)\<^sup>*\<^sup>* s s'" and "load_ok parse bound limited k s"
    and "\<forall>cfg \<in> configs. RunConfig_Validate parse cfg = None \<longrightarrow> admitted parse bound limited k cfg"
  shows "load_ok parse bound limited k s'"
  using assms(1,2) by (induction rule: rtranclp_induct) (auto intro: load_step_ok [OF _ _ assms(3)])

text \<open>
  C25. The counters of a load test account for every planned operation: it was dropped, has succeeded, has failed or is
  at work, whatever the clock, the reloads and the interleaving of the operations. Never more operations are at work
  than the largest capacity of the configurations, and a run whose verdict is \<^verbatim>\<open>PASS\<close> has done all that was planned. This holds for runs without a limit on the operations (limit 0, the
  duration ends the run) too; when every configuration has a limit, never more are planned than the
  largest one.
\<close>

theorem load_accounting:
  assumes "NewRunner parse cfg = Inr r" and "(load_step parse configs)\<^sup>*\<^sup>* (start_run r start now w) s"
    and "\<forall>c \<in> insert cfg configs. capacity c \<le> bound"
  shows "let c = lw_counts (ls_world s); pending = int (length (ls_pending s)) in
    rn_planned c = rn_dropped c + rn_success c + rn_failed c + pending \<and> pending \<le> bound \<and>
    ((\<forall>c \<in> insert cfg configs. 0 < ru_OperationLimit c \<and> ru_OperationLimit c \<le> k) \<longrightarrow> rn_planned c \<le> k) \<and>
    (pending = 0 \<and> verdict None c = ''PASS'' \<longrightarrow> rn_success c = rn_planned c \<and> 0 < rn_planned c)"
proof -
  have v: "RunConfig_Validate parse cfg = None" using assms(1) by (auto simp: NewRunner_def split: option.splits)
  then have "0 < ru_MaxInFlight cfg" "0 < concurrencyOf cfg"
    by (auto simp: RunConfig_Validate_def validateLimits_def concurrencyOf_def Let_def split: if_split_asm option.split_asm)
  then have b: "0 \<le> bound" using assms(3) by (auto simp: capacity_def)
  have "load_ok parse bound l k s"
    if "l \<longrightarrow> (\<forall>c \<in> insert cfg configs. 0 < ru_OperationLimit c \<and> ru_OperationLimit c \<le> k)" for l
  proof (rule load_reachable [OF assms(2)])
    show "load_ok parse bound l k (start_run r start now w)"
      by (rule start_run_ok [OF assms(1)]) (use assms(3) v b that in \<open>auto simp: admitted_def\<close>)
  qed (use assms(3) that in \<open>auto simp: admitted_def\<close>)
  from this [of False] this [of True] show ?thesis by (auto simp: load_ok_def balanced_def verdict_def Let_def split: if_split_asm)
qed

text \<open>A run with one slot: its only operation starts, ends well, and the run passes.\<close>

definition sample_url :: url where
  "sample_url = \<lparr>url_Scheme = ''http'', url_Host = ''a:1'', url_User = None, url_RawQuery = [], url_Fragment = []\<rparr>"

definition sample_run :: RunConfig where
  "sample_run = report_config
     \<lparr>op_URL = ''http://a:1/process'', op_Payload = ''x'', op_SystemID = ''s'', op_APIKey = [], op_Concurrency = 0, op_Total = 1,
      op_Version = ''1'', op_Mode = [], op_Scenario = [], op_Seed = 0, op_TargetRPS = 0, op_Duration = 0, op_MaxInFlight = 0,
      op_RequestTimeout = 0, op_PayloadProfile = [], op_OperationWeights = [], op_CommitSHA = [], op_ImageTag = [],
      op_RunID = [], op_ReplayIndex = None, op_Environment = \<lparr>re_Runner = [], re_Host = [], re_ResourceLimits = []\<rparr>,
      op_MaskFixtures = [], op_Payloads = [], op_DatasetSHA256 = []\<rparr> ''r''"

lemma sample_run_valid: "NewRunner (\<lambda>_. Some sample_url) sample_run = Inr \<lparr>ld_cfg = sample_run, ld_reloadRejected = False\<rparr>"
proof -
  have "RunConfig_Validate (\<lambda>_. Some sample_url) sample_run = None" by code_simp
  then show ?thesis by (simp add: NewRunner_def)
qed

lemma load_accounting_witness:
  "\<forall>w :: unit run_world_scheme.
     let s = woken (tick 1000000 0 \<lparr>ld_cfg = sample_run, ld_reloadRejected = False\<rparr>
           (start_execution sample_run 0 0) (fresh_run w)) (start_run \<lparr>ld_cfg = sample_run, ld_reloadRejected = False\<rparr> 0 0 w);
         c = lw_counts (ls_world s)
     in rn_planned c = rn_dropped c + rn_success c + rn_failed c + int (length (ls_pending s)) \<and> rn_planned c \<le> 1"
proof
  fix w :: "unit run_world_scheme"
  let ?r = "\<lparr>ld_cfg = sample_run, ld_reloadRejected = False\<rparr>"
  let ?init = "start_run ?r 0 0 w"
  let ?s = "woken (tick 1000000 0 ?r (start_execution sample_run 0 0) (fresh_run w)) ?init"
  have "load_step (\<lambda>_. Some sample_url) {} ?init (woken (tick 1000000 0 (ls_runner ?init) (ls_exec ?init) (ls_world ?init)) ?init)"
    by (rule load_step.Tick [where s = ?init and now = 1000000 and later = 0]) (simp add: start_run_def)
  moreover have "ls_runner ?init = ?r" "ls_exec ?init = start_execution sample_run 0 0" "ls_world ?init = fresh_run w"
    by (simp_all add: start_run_def)
  ultimately have "load_step (\<lambda>_. Some sample_url) {} ?init ?s" by simp
  then have "(load_step (\<lambda>_. Some sample_url) {})\<^sup>*\<^sup>* ?init ?s" by (rule r_into_rtranclp)
  moreover have "capacity sample_run \<le> 256 \<and> 0 < ru_OperationLimit sample_run \<and> ru_OperationLimit sample_run \<le> 1" by code_simp
  ultimately show "let s = ?s; c = lw_counts (ls_world s)
     in rn_planned c = rn_dropped c + rn_success c + rn_failed c + int (length (ls_pending s)) \<and> rn_planned c \<le> 1"
    using load_accounting [OF sample_run_valid, of "{}" 0 0 w ?s 256 1] by (simp add: Let_def)
qed

section \<open>Reports\<close>

text \<open>
  A report of a run passes its own validation, if the timeout is at least a millisecond; with a shorter one, which the
  configuration accepts, the finished run has no valid report.
\<close>

lemma report_accepted:
  assumes "RunConfig_Validate parse (ex_initial e) = None" and "ru_RunID (ex_initial e) \<noteq> []"
    and "1000000 \<le> ru_RequestTimeout (ex_initial e)"
    and "re_Runner (ru_Environment (ex_initial e)) \<in> {[], ''same_vps'', ''external''}"
    and "re_ResourceLimits (ru_Environment (ex_initial e)) = []"
    and "ex_start e \<le> w_clock w (w_times w)"
    and "list_all (\<lambda>v. 0 \<le> v) (count_numbers (report_counts w))" and "lw_httpStatus w [] = 0"
    and "list_all (\<lambda>v. 0 \<le> v) (rv_samples (lw_res w))" and "0 \<le> rv_max (lw_res w)"
  shows "validateReport (fst (run_report e w)) = None"
proof -
  let ?cfg = "ex_initial e"
  have cfg: "0 < ru_RatePerSecond ?cfg" "0 < ru_MaxInFlight ?cfg" "0 < concurrencyOf ?cfg" "0 \<le> ru_MaxConnections ?cfg"
    "0 \<le> ru_Duration ?cfg" "ru_PayloadProfile ?cfg \<noteq> []"
    using assms(1) by (auto simp: RunConfig_Validate_def validateTarget_def validateLimits_def concurrencyOf_def Let_def
      split: if_split_asm option.split_asm)
  have sc: "scenarioOf ?cfg \<noteq> []" by (simp add: scenarioOf_def ScenarioRequest_def)
  have q: "quantileIndex n x < n" if "0 < n" for n x using that by (simp add: quantileIndex_def Let_def)
  have p: "0 \<le> a \<and> 0 \<le> b \<and> 0 \<le> c \<and> 0 \<le> d" if "percentiles (lw_res w) = (a, b, c, d)" for a b c d
  proof (cases "rv_samples (lw_res w) = []")
    case False
    have "0 \<le> sort (rv_samples (lw_res w)) ! i" if "i < length (sort (rv_samples (lw_res w)))" for i
      using that assms(9) nth_mem [OF that] by (simp add: list_all_iff)
    then show ?thesis using that False assms(10) q by (auto simp: percentiles_def Let_def)
  qed (use that in \<open>simp add: percentiles_def\<close>)
  obtain p50 p95 p99 m where l: "percentiles (lw_res w) = (p50, p95, p99, m)" by (metis prod.exhaust)
  have env: "re_Runner (normalizedEnvironment (ru_Environment ?cfg)) \<in> {''same_vps'', ''external''}"
    "re_ResourceLimits (normalizedEnvironment (ru_Environment ?cfg)) = []"
    using assms(4,5) by (auto simp: normalizedEnvironment_def)
  obtain w1 where t: "run_report e w = (fst (run_report e w), w1)" by (metis prod.collapse)
  let ?r = "fst (run_report e w)"
  have same: "report_counts (snd (ctx_Err (snd (time_Now w)))) = report_counts w"
    "lw_httpStatus (snd (ctx_Err (snd (time_Now w)))) = lw_httpStatus w" "lw_res (snd (ctx_Err (snd (time_Now w)))) = lw_res w"
    by (simp_all add: report_counts_def ctx_Err_def time_Now_def)
  have r: "rp_SchemaVersion ?r = ''alfagen.load.v1''" "rp_RunID ?r = ru_RunID ?cfg" "rp_Scenario ?r = scenarioOf ?cfg"
    "rp_StartedAt ?r = Some (ex_start e)" "rp_FinishedAt ?r = Some (w_clock w (w_times w))"
    "rp_Verdict ?r \<in> {''PASS'', ''HARNESS_ERROR'', ''CANCELLED''}"
    "rp_Environment ?r = normalizedEnvironment (ru_Environment ?cfg)"
    "rp_Counts ?r = report_counts w" "rp_HTTPStatuses ?r = lw_httpStatus w"
    "pm_TargetRPS (rp_Parameters ?r) = ru_RatePerSecond ?cfg" "pm_DurationSeconds (rp_Parameters ?r) = seconds (ru_Duration ?cfg)"
    "pm_Concurrency (rp_Parameters ?r) = concurrencyOf ?cfg" "pm_MaxInFlight (rp_Parameters ?r) = ru_MaxInFlight ?cfg"
    "pm_MaxConnections (rp_Parameters ?r) = ru_MaxConnections ?cfg"
    "pm_RequestTimeoutMS (rp_Parameters ?r) = ru_RequestTimeout ?cfg div 1000000"
    "pm_PayloadProfile (rp_Parameters ?r) = ru_PayloadProfile ?cfg"
    "rp_LatencyMS ?r = report_latency w"
    using same by (simp_all add: run_report_def time_Now_def ctx_Err_def Let_def verdict_def report_latency_def)
  have "\<not> list_ex (\<lambda>v. v < 0) (report_numbers ?r)"
    using p [OF l] cfg by (simp add: report_numbers_def r report_latency_def l durationMilliseconds_def seconds_def time_Second_def)
  moreover have "\<not> list_ex (\<lambda>v. v < 0) (count_numbers (report_counts w))"
    using assms(7) by (auto simp: list_all_iff list_ex_iff)
  moreover have "0 < ru_RequestTimeout ?cfg div 1000000" using assms(3) by (simp add: pos_imp_zdiv_pos_iff)
  ultimately have "validateReportMeasures ?r = None"
    using cfg assms(8) by (simp add: validateReportMeasures_def r Let_def)
  then show ?thesis using r env sc assms(2,6) by (auto simp: validateReport_def)
qed

lemma short_timeout_report:
  assumes "ru_RequestTimeout (ex_initial e) < 1000000"
  shows "validateReport (fst (run_report e w)) \<noteq> None"
proof -
  have "pm_RequestTimeoutMS (rp_Parameters (fst (run_report e w))) = ru_RequestTimeout (ex_initial e) div 1000000"
    by (simp add: run_report_def time_Now_def ctx_Err_def Let_def)
  moreover have "ru_RequestTimeout (ex_initial e) div 1000000 \<le> 0" using assms by linarith
  ultimately have "validateReportMeasures (fst (run_report e w)) \<noteq> None" by (simp add: validateReportMeasures_def Let_def)
  then show ?thesis by (auto simp: validateReport_def)
qed

end
