(* ===== verification/Load_Frame.thy ===== *)
theory Load_Frame
  imports Load_Schedule
begin

text \<open>
  What an operation of a load test leaves alone. The locale collects the facts about a view of the world that no step of
  an operation changes; the plan and the number of operations in flight are such a view, so that the runs of
  \<^verbatim>\<open>sendOne\<close> are steps of the run.
\<close>

locale run_frame =
  fixes q :: "'a run_world_scheme \<Rightarrow> 'q"
  assumes q_polls: "q (w\<lparr>w_polls := n\<rparr>) = q w" and q_times: "q (w\<lparr>w_times := n\<rparr>) = q w"
    and q_tracker: "q (w\<lparr>lw_tracker := t\<rparr>) = q w" and q_next: "q (w\<lparr>lw_next := x\<rparr>) = q w"
    and q_res: "q (w\<lparr>lw_res := r\<rparr>) = q w" and q_quality: "q (w\<lparr>lw_quality := a\<rparr>) = q w"
    and q_status: "q (w\<lparr>lw_httpStatus := m\<rparr>) = q w" and q_errors: "q (w\<lparr>lw_errors := m'\<rparr>) = q w"
    and q_http: "q (count_up (\<lambda>c. c\<lparr>rn_httpRequests := rn_httpRequests c + 1\<rparr>) w) = q w"
    and q_retries: "q (count_up (\<lambda>c. c\<lparr>rn_retries := rn_retries c + 1\<rparr>) w) = q w"
    and q_final: "q (count_up (\<lambda>c. c\<lparr>rn_final429 := rn_final429 c + 1\<rparr>) w) = q w"
    and q_pairs: "q (count_up (\<lambda>c. c\<lparr>rn_completedPairs := rn_completedPairs c + 1\<rparr>) w) = q w"
    and q_timeouts: "q (count_up (\<lambda>c. c\<lparr>rn_timeouts := rn_timeouts c + 1\<rparr>) w) = q w"
begin

lemmas q_updates = q_tracker q_next q_res q_quality q_status q_errors q_http q_retries q_final q_pairs q_timeouts

lemma q_recorded [simp]:
  "q (availability d w) = q w" "q (recordError c w) = q w" "q (recordStatus s w) = q w" "q (record_latency pf i w) = q w"
  by (simp_all add: availability_def recordError_def recordStatus_def record_latency_def q_updates)

lemma q_ctx_Err: "ctx_Err w = (e, w') \<Longrightarrow> q w' = q w"
  and q_time_Now: "time_Now w = (t, w') \<Longrightarrow> q w' = q w"
  by (auto simp: ctx_Err_def time_Now_def q_polls q_times)

lemma q_requests_Err: "requests_Err w = (e, w') \<Longrightarrow> q w' = q w"
  by (auto simp: requests_Err_def dest!: q_ctx_Err split: prod.splits)

lemma q_wait_for: "wait_for d w = (e, w') \<Longrightarrow> q w' = q w"
  by (auto simp: wait_for_def dest!: q_requests_Err split: if_split_asm)

lemma q_pacer_wait: "pacer_wait rate w = (e, w') \<Longrightarrow> q w' = q w"
  by (auto simp: pacer_wait_def q_next dest!: q_time_Now q_wait_for split: prod.splits)

lemma q_attemptTransportError: "attemptTransportError pf e d w = (x, w') \<Longrightarrow> q w' = q w"
  by (auto simp: attemptTransportError_def Let_def q_updates dest!: q_requests_Err split: if_split_asm prod.splits option.splits)

lemma q_classify_response: "classify_response pf resp c s w = (x, w') \<Longrightarrow> q w' = q w"
  by (auto simp: classify_response_def Let_def dest!: q_time_Now split: if_split_asm prod.splits)

lemma q_final_result: "final_result x w = (y, w') \<Longrightarrow> q w' = q w"
  by (auto simp: final_result_def q_updates)

lemma q_invalid: "invalid c w = (ok, w') \<Longrightarrow> q w' = q w"
  by (auto simp: invalid_def)

lemma q_judge_mask: "judge_mask fixture masked w = Some (ok, w') \<Longrightarrow> q w' = q w"
  by (auto simp: judge_mask_def q_updates dest!: q_invalid split: if_split_asm option.splits sum.splits)

text \<open>The client of the platform must leave the view alone as well.\<close>

lemma q_sendAttempt:
  assumes "\<And>req w. q (snd (rp_client pf req w)) = q w" and "sendAttempt pf body cfg c s w = (x, w')"
  shows "q w' = q w"
proof -
  have client: "rp_client pf req w = (a, w') \<Longrightarrow> q w' = q w" for req w a w' using assms(1) [of req w] by simp
  show ?thesis
    using assms(2) by (auto simp: sendAttempt_def Let_def q_updates
      dest!: client q_time_Now q_attemptTransportError q_classify_response split: if_split_asm prod.splits sum.splits)
qed

lemma q_send_loop:
  assumes "\<And>req w. q (snd (rp_client pf req w)) = q w" and "send_loop pf n body cfg c s w = (x, w')"
  shows "q w' = q w"
  using assms(2)
proof (induction n arbitrary: w)
  case (Suc n)
  obtain e w1 where 1: "pacer_wait (ru_RatePerSecond cfg) w = (e, w1)" by (metis prod.exhaust)
  obtain r retryable after w2 where 2: "sendAttempt pf body cfg c s w1 = ((r, retryable, after), w2)" by (metis prod.exhaust)
  have "q w1 = q w" "q w2 = q w1" using q_pacer_wait [OF 1] q_sendAttempt [OF assms(1) 2] by auto
  then show ?case
    using Suc.prems by (auto simp: 1 2 Let_def q_updates dest!: q_final_result q_wait_for Suc.IH split: option.splits if_split_asm prod.splits)
qed simp

lemma q_sendHTTP:
  assumes "\<And>req w. q (snd (rp_client pf req w)) = q w"
  shows "sendHTTPExpected pf body cfg c s w = (x, w') \<Longrightarrow> q w' = q w"
    and "sendHTTP pf body cfg c w = (x, w') \<Longrightarrow> q w' = q w"
  by (auto simp: sendHTTP_def sendHTTPExpected_def intro: q_send_loop [OF assms])

lemma q_send_twice:
  assumes "\<And>req w. q (snd (rp_client pf req w)) = q w" and "send_twice e1 e2 pf idx cfg w = (ok, w')"
  shows "q w' = q w"
  using assms(2) by (auto simp: send_twice_def Let_def dest!: q_sendHTTP(2) [OF assms(1)] q_invalid
    split: prod.splits if_split_asm option.splits)

lemma q_operations:
  assumes "\<And>req w. q (snd (rp_client pf req w)) = q w"
  shows "sendMaskOnly pf idx cfg w = (ok, w') \<Longrightarrow> q w' = q w"
    and "send_request pf idx cfg w = (ok, w') \<Longrightarrow> q w' = q w"
    and "sendStableRetry pf idx cfg w = (ok, w') \<Longrightarrow> q w' = q w"
    and "sendExpectedConflict pf idx cfg w = (ok, w') \<Longrightarrow> q w' = q w"
    and "demask_back pf payload masked i cfg w = (ok, w') \<Longrightarrow> q w' = q w"
      apply (auto simp: sendMaskOnly_def Let_def dest!: q_sendHTTP(2) [OF assms] q_invalid
        split: prod.splits if_split_asm option.splits) [1]
     apply (auto simp: send_request_def dest!: q_sendHTTP(2) [OF assms] split: prod.splits) [1]
    apply (auto simp: sendStableRetry_def dest!: q_send_twice [OF assms]) [1]
   apply (auto simp: sendExpectedConflict_def Let_def dest!: q_send_twice [OF assms] q_sendHTTP(1) [OF assms]
      split: prod.splits bool.splits if_split_asm) [1]
  apply (auto simp: demask_back_def q_updates dest!: q_sendHTTP(2) [OF assms] q_invalid
      split: prod.splits if_split_asm option.splits) [1]
  done

lemma q_sendRoundTrip:
  assumes "\<And>req w. q (snd (rp_client pf req w)) = q w" and "sendRoundTrip pf idx cfg w = Some (ok, w')"
  shows "q w' = q w"
  using assms(2) by (auto simp: sendRoundTrip_def Let_def
    dest!: q_sendHTTP(2) [OF assms(1)] q_invalid q_judge_mask q_operations(5) [OF assms(1)]
    split: prod.splits if_split_asm option.splits bool.splits)

lemma q_run_scenario:
  assumes "\<And>req w. q (snd (rp_client pf req w)) = q w" and "run_scenario pf idx cfg w = Some (ok, w')"
  shows "q w' = q w"
  using assms(2) by (auto simp: run_scenario_def Let_def dest!: q_sendRoundTrip [OF assms(1)] q_operations [OF assms(1)]
    split: if_split_asm)

end

text \<open>The plan of a run.\<close>

definition plan_view :: "'a run_world_scheme \<Rightarrow> int list" where
  "plan_view w =
     (let c = lw_counts w in [rn_planned c, rn_sent c, rn_dropped c, rn_success c, rn_failed c, lw_inflight w])"

interpretation plan_frame: run_frame plan_view
  by unfold_locales (simp_all add: plan_view_def count_up_def Let_def)

lemma same_plan_view: "same_plan w w' \<longleftrightarrow> plan_view w' = plan_view w"
  by (auto simp: same_plan_def plan_view_def Let_def)

text \<open>What a goroutine of the run does is a step of work and the end of its operation.\<close>

theorem sendOne_steps:
  assumes "sendOne pf idx cfg (ls_world s) = Some w'" and "(idx, cfg) \<in> set (ls_pending s)"
    and "\<And>req w. plan_view (snd (rp_client pf req w)) = plan_view w"
  shows "(load_step parse configs)\<^sup>*\<^sup>* s (s\<lparr>ls_pending := remove1 (idx, cfg) (ls_pending s), ls_world := w'\<rparr>)"
proof -
  obtain ok w1 where r: "run_scenario pf idx cfg (ls_world s) = Some (ok, w1)" and w': "w' = finish_operation ok w1"
    using assms(1) by (auto simp: sendOne_def split: option.splits)
  have "load_step parse configs s (s\<lparr>ls_world := w1\<rparr>)"
    using load_step.Work plan_frame.q_run_scenario [OF assms(3) r] by (simp add: same_plan_view)
  moreover have "load_step parse configs (s\<lparr>ls_world := w1\<rparr>)
      (s\<lparr>ls_pending := remove1 (idx, cfg) (ls_pending s), ls_world := w'\<rparr>)"
    using load_step.Finish [of "(idx, cfg)" "s\<lparr>ls_world := w1\<rparr>" parse configs ok] assms(2) w' by simp
  ultimately show ?thesis by (meson converse_rtranclp_into_rtranclp r_into_rtranclp)
qed

end
