(* ===== verification/Files.thy ===== *)
theory Files
  imports World Go_Strings
begin

text \<open>
  What the administration and the load client use of \<^verbatim>\<open>path/filepath\<close> on Unix and of the file system. A world has a
  map of its regular files; every call of the system reads the next answer of a sequence and may fail. A temporary
  file has a fresh name that nobody else uses and is not in the map; \<^verbatim>\<open>os.Rename\<close> replaces a file in one step.
\<close>

section \<open>Paths\<close>

definition slash :: char where "slash = CHR ''/''"
definition parent_dir :: bytes where "parent_dir = ''..''"

fun clean_parts :: "bool \<Rightarrow> bytes list \<Rightarrow> bytes list \<Rightarrow> bytes list" where
  "clean_parts rooted out [] = out"
| "clean_parts rooted out (c # cs) =
     (if c = [] \<or> c = ''.'' then clean_parts rooted out cs
      else if c \<noteq> parent_dir then clean_parts rooted (out @ [c]) cs
      else if out \<noteq> [] \<and> last out \<noteq> parent_dir then clean_parts rooted (butlast out) cs
      else if rooted then clean_parts rooted out cs
      else clean_parts rooted (out @ [c]) cs)"

definition rooted :: "bytes \<Rightarrow> bool" where "rooted p \<longleftrightarrow> (\<exists>q. p = slash # q)"

lemma rooted_code [code]: "rooted p = (case p of [] \<Rightarrow> False | c # q \<Rightarrow> c = slash)"
  by (auto simp: rooted_def split: list.splits)

definition filepath_Clean :: "bytes \<Rightarrow> bytes" where
  "filepath_Clean p =
     (if p = [] then ''.''
      else
        (let s = strings_Join (clean_parts (rooted p) [] (strings_Split p slash)) [slash] in
         if rooted p then slash # s else if s = [] then ''.'' else s))"

text \<open>Everything up to the last slash, and what is behind it.\<close>

definition dir_part :: "bytes \<Rightarrow> bytes" where
  "dir_part p = (case strings_LastIndexByte p slash of None \<Rightarrow> [] | Some i \<Rightarrow> take (Suc i) p)"

definition file_part :: "bytes \<Rightarrow> bytes" where
  "file_part p = (case strings_LastIndexByte p slash of None \<Rightarrow> p | Some i \<Rightarrow> drop (Suc i) p)"

definition filepath_Dir :: "bytes \<Rightarrow> bytes" where "filepath_Dir p = filepath_Clean (dir_part p)"

fun strip_slashes :: "bytes \<Rightarrow> bytes" where
  "strip_slashes [] = []"
| "strip_slashes (c # s) = (if strip_slashes s = [] \<and> c = slash then [] else c # strip_slashes s)"

definition filepath_Base :: "bytes \<Rightarrow> bytes" where
  "filepath_Base p =
     (if p = [] then ''.'' else if strip_slashes p = [] then [slash] else file_part (strip_slashes p))"

text \<open>\<^verbatim>\<open>filepath.Join\<close> of two elements.\<close>

definition filepath_Join :: "bytes \<Rightarrow> bytes \<Rightarrow> bytes" where
  "filepath_Join a b =
     (if a \<noteq> [] then filepath_Clean (a @ slash # b) else if b \<noteq> [] then filepath_Clean b else [])"

section \<open>Files\<close>

record file_world = world +
  fw_files :: "bytes \<Rightarrow> bytes option"
  fw_faults :: "nat \<Rightarrow> error option"
  fw_calls :: nat

definition os_ErrNotExist :: error where "os_ErrNotExist = ErrText ''file does not exist''"

definition os_call :: "'a file_world_scheme \<Rightarrow> error option \<times> 'a file_world_scheme" where
  "os_call w = (fw_faults w (fw_calls w), w\<lparr>fw_calls := Suc (fw_calls w)\<rparr>)"

text \<open>Calls one after the other, until one fails.\<close>

fun os_calls :: "nat \<Rightarrow> 'a file_world_scheme \<Rightarrow> error option \<times> 'a file_world_scheme" where
  "os_calls 0 w = (None, w)"
| "os_calls (Suc n) w = (case os_call w of (Some e, w) \<Rightarrow> (Some e, w) | (None, w) \<Rightarrow> os_calls n w)"

definition os_ReadFile :: "bytes \<Rightarrow> 'a file_world_scheme \<Rightarrow> (error + bytes) \<times> 'a file_world_scheme" where
  "os_ReadFile path w =
     (case os_call w of
        (Some e, w) \<Rightarrow> (Inl e, w)
      | (None, w) \<Rightarrow> ((case fw_files w path of None \<Rightarrow> Inl os_ErrNotExist | Some data \<Rightarrow> Inr data), w))"

definition os_Remove :: "bytes \<Rightarrow> 'a file_world_scheme \<Rightarrow> error option \<times> 'a file_world_scheme" where
  "os_Remove path w =
     (case os_call w of
        (Some e, w) \<Rightarrow> (Some e, w)
      | (None, w) \<Rightarrow>
          if fw_files w path = None then (Some os_ErrNotExist, w) else (None, w\<lparr>fw_files := (fw_files w)(path := None)\<rparr>))"

text \<open>A file that is written under a temporary name and renamed, where \<open>n\<close> calls come before the renaming.\<close>

definition replace_file :: "nat \<Rightarrow> bytes \<Rightarrow> bytes \<Rightarrow> 'a file_world_scheme \<Rightarrow> error option \<times> 'a file_world_scheme" where
  "replace_file n path data w =
     (case os_calls (Suc n) w of
        (Some e, w) \<Rightarrow> (Some e, w)
      | (None, w) \<Rightarrow> (None, w\<lparr>fw_files := (fw_files w)(path := Some data)\<rparr>))"

section \<open>What the calls leave alone\<close>

definition same_files :: "'a file_world_scheme \<Rightarrow> 'a file_world_scheme \<Rightarrow> bool" where
  "same_files w w' \<longleftrightarrow> fw_files w' = fw_files w \<and> fw_faults w' = fw_faults w"

lemma same_files_refl [simp]: "same_files w w"
  by (simp add: same_files_def)

lemma same_files_trans: "same_files a b \<Longrightarrow> same_files b c \<Longrightarrow> same_files a c"
  by (simp add: same_files_def)

lemma os_call_same: "os_call w = (e, w') \<Longrightarrow> same_files w w'"
  by (auto simp: os_call_def same_files_def)

lemma os_calls_same: "os_calls n w = (e, w') \<Longrightarrow> same_files w w'"
proof (induction n arbitrary: w)
  case (Suc n)
  then show ?case by (auto split: prod.splits option.splits dest: os_call_same intro: same_files_trans)
qed simp

lemma os_ReadFile_same: "os_ReadFile path w = (r, w') \<Longrightarrow> same_files w w'"
  by (auto simp: os_ReadFile_def split: prod.splits option.splits dest: os_call_same)

lemma os_ReadFile_content: "os_ReadFile path w = (Inr data, w') \<Longrightarrow> fw_files w path = Some data"
  by (auto simp: os_ReadFile_def same_files_def split: prod.splits option.splits dest!: os_call_same)

lemma replace_file_result:
  assumes "replace_file n path data w = (e, w')"
  shows "fw_faults w' = fw_faults w"
    "fw_files w' = (case e of None \<Rightarrow> (fw_files w)(path := Some data) | Some _ \<Rightarrow> fw_files w)"
  using assms by (auto simp: replace_file_def same_files_def simp del: os_calls.simps split: prod.splits option.splits
    dest!: os_calls_same)

lemma os_Remove_result:
  assumes "os_Remove path w = (e, w')"
  shows "fw_faults w' = fw_faults w"
    "fw_files w' = (case e of None \<Rightarrow> (fw_files w)(path := None) | Some _ \<Rightarrow> fw_files w)"
  using assms by (auto simp: os_Remove_def same_files_def split: prod.splits option.splits if_splits dest!: os_call_same)

lemma time_Now_files [simp]: "time_Now w = (t, w') \<Longrightarrow> same_files w w'"
  by (auto simp: time_Now_def same_files_def)

lemma rand_Read_files [simp]: "rand_Read w = (b, w') \<Longrightarrow> same_files w w'"
  by (auto simp: rand_Read_def same_files_def)

section \<open>Files of a directory\<close>

definition plain_name :: "bytes \<Rightarrow> bool" where
  "plain_name n \<longleftrightarrow> n \<noteq> [] \<and> n \<noteq> ''.'' \<and> n \<noteq> parent_dir \<and> slash \<notin> set n"

text \<open>The parts of a clean rooted path.\<close>

lemma strings_Split_not_Nil [simp]: "strings_Split s c \<noteq> []"
  by (induction s) (auto split: list.splits)

lemma strings_Split_snoc: "c \<notin> set n \<Longrightarrow> strings_Split (d @ c # n) c = strings_Split d c @ [n]"
proof (induction d)
  case Nil
  have "strings_Split n c = [n]" if "c \<notin> set n" for n
    using that by (induction n) auto
  then show ?case using Nil by simp
next
  case (Cons a d)
  then show ?case by (cases "strings_Split d c") (auto split: list.splits)
qed

lemma clean_parts_append: "clean_parts r out (xs @ ys) = clean_parts r (clean_parts r out xs) ys"
  by (induction r out xs rule: clean_parts.induct) auto

lemma clean_parts_plain:
  "list_all plain_name out \<Longrightarrow> list_all (\<lambda>c. slash \<notin> set c) cs \<Longrightarrow> list_all plain_name (clean_parts True out cs)"
proof (induction True out cs rule: clean_parts.induct)
  case (2 out c cs)
  have "list_all plain_name (butlast out)"
    using 2(6) by (metis in_set_butlastD list_all_iff)
  then show ?case using 2 by (simp add: plain_name_def)
qed simp

lemma clean_parts_id: "list_all plain_name cs \<Longrightarrow> clean_parts True out cs = out @ cs"
  by (induction cs arbitrary: out) (simp_all add: plain_name_def)

lemma strings_Split_pieces: "list_all (\<lambda>p. c \<notin> set p) (strings_Split s c)"
  by (induction s c rule: strings_Split.induct) (auto split: list.splits)

lemma strings_Join_snoc: "xs \<noteq> [] \<Longrightarrow> strings_Join (xs @ [x]) sep = strings_Join xs sep @ sep @ x"
  by (induction xs sep rule: strings_Join.induct) auto

lemma strings_Split_Join:
  assumes "cs \<noteq> []" and "list_all (\<lambda>p. c \<notin> set p) cs"
  shows "strings_Split (strings_Join cs [c]) c = cs"
  using assms
proof (induction cs rule: rev_induct)
  case (snoc x xs)
  show ?case
  proof (cases xs)
    case Nil
    then show ?thesis using snoc.prems strings_Split_snoc [of c x "[]"]
      by simp
  next
    case (Cons y ys)
    then have "strings_Join (xs @ [x]) [c] = strings_Join xs [c] @ c # x" using strings_Join_snoc [of xs] by simp
    then show ?thesis using snoc Cons by (simp add: strings_Split_snoc)
  qed
qed simp

lemma strings_IndexByte_append: "c \<notin> set n \<Longrightarrow> strings_IndexByte (n @ c # d) c = Some (length n)"
  by (induction n) auto

lemma last_slash:
  assumes "slash \<notin> set n"
  shows "dir_part (d @ slash # n) = d @ [slash]" "file_part (d @ slash # n) = n"
proof -
  have "strings_IndexByte (rev (d @ slash # n)) slash = Some (length n)"
    using strings_IndexByte_append [of slash "rev n" "rev d"] assms by simp
  then have "strings_LastIndexByte (d @ slash # n) slash = Some (length d)" by (simp add: strings_LastIndexByte_def)
  then show "dir_part (d @ slash # n) = d @ [slash]" "file_part (d @ slash # n) = n"
    by (simp_all add: dir_part_def file_part_def)
qed

text \<open>The parts of a clean path.\<close>

definition path_parts :: "bytes \<Rightarrow> bytes list" where
  "path_parts p = clean_parts True [] (strings_Split p slash)"

lemma path_parts_plain: "list_all plain_name (path_parts p)"
  unfolding path_parts_def by (rule clean_parts_plain) (simp_all add: strings_Split_pieces)

lemma Clean_rooted: "rooted p \<Longrightarrow> filepath_Clean p = slash # strings_Join (path_parts p) [slash]"
  by (auto simp: filepath_Clean_def path_parts_def rooted_def)

lemma path_parts_snoc:
  assumes "slash \<notin> set n"
  shows "path_parts (d @ slash # n) = clean_parts True (path_parts d) [n]"
  by (simp add: path_parts_def strings_Split_snoc [OF assms] clean_parts_append)

lemma path_parts_Join:
  assumes "list_all plain_name cs"
  shows "path_parts (slash # strings_Join cs [slash]) = cs"
proof (cases "cs = []")
  case False
  moreover have "list_all (\<lambda>p. slash \<notin> set p) cs" using assms by (auto simp: list_all_iff plain_name_def)
  ultimately have "strings_Split (slash # strings_Join cs [slash]) slash = [] # cs" by (simp add: strings_Split_Join)
  then show ?thesis using clean_parts_id [OF assms, of "[]"] by (simp add: path_parts_def)
qed (simp add: path_parts_def)

lemma Join_file:
  assumes "rooted d" and "plain_name n"
  shows "filepath_Join d n = slash # strings_Join (path_parts d @ [n]) [slash]"
proof -
  have n: "slash \<notin> set n" using assms(2) by (simp add: plain_name_def)
  have r: "rooted (d @ slash # n)" "d \<noteq> []" using assms(1) by (auto simp: rooted_def)
  have "path_parts (d @ slash # n) = path_parts d @ [n]"
    using path_parts_snoc [OF n] assms(2) by (simp add: plain_name_def)
  then show ?thesis using r by (simp add: filepath_Join_def Clean_rooted)
qed

lemma Join_file_last:
  assumes "rooted d" and "plain_name n"
  obtains q where "filepath_Join d n = q @ slash # n" "path_parts (q @ [slash]) = path_parts d" "rooted (q @ [slash])"
proof (cases "path_parts d = []")
  case True
  then show ?thesis using that [of "[]"] Join_file [OF assms] by (simp add: rooted_def path_parts_def)
next
  case False
  let ?q = "slash # strings_Join (path_parts d) [slash]"
  have "filepath_Join d n = ?q @ slash # n" using Join_file [OF assms] strings_Join_snoc [OF False] by simp
  moreover have "path_parts (?q @ [slash]) = path_parts d"
    using path_parts_snoc [of "[]" ?q] path_parts_Join [OF path_parts_plain] by simp
  ultimately show ?thesis using that [of ?q] by (simp add: rooted_def)
qed

text \<open>A file of a directory is found in it again.\<close>

lemma Dir_Join:
  assumes "rooted d" and "plain_name n"
  shows "filepath_Dir (filepath_Join d n) = filepath_Clean d"
proof -
  obtain q where q: "filepath_Join d n = q @ slash # n" "path_parts (q @ [slash]) = path_parts d" "rooted (q @ [slash])"
    by (rule Join_file_last [OF assms])
  have "slash \<notin> set n" using assms(2) by (simp add: plain_name_def)
  then show ?thesis using q assms(1) by (simp add: filepath_Dir_def last_slash Clean_rooted)
qed

lemma strip_no_slash: "slash \<notin> set n \<Longrightarrow> strip_slashes n = n"
  by (induction n) auto

lemma strip_slashes_file: "n \<noteq> [] \<Longrightarrow> slash \<notin> set n \<Longrightarrow> strip_slashes (q @ n) = q @ n"
proof (induction q)
  case Nil
  then show ?case by (simp add: strip_no_slash)
qed simp

lemma Base_Join:
  assumes "rooted d" and "plain_name n"
  shows "filepath_Base (filepath_Join d n) = n"
proof -
  obtain q where q: "filepath_Join d n = q @ slash # n" by (rule Join_file_last [OF assms])
  have n: "n \<noteq> []" "slash \<notin> set n" using assms(2) by (simp_all add: plain_name_def)
  have "strip_slashes ((q @ [slash]) @ n) = (q @ [slash]) @ n" by (rule strip_slashes_file [OF n])
  then show ?thesis using q n by (simp add: filepath_Base_def last_slash)
qed

lemma Join_rooted: "rooted d \<Longrightarrow> plain_name n \<Longrightarrow> rooted (filepath_Join d n) \<and> filepath_Join d n \<noteq> []"
  by (simp add: Join_file rooted_def)

end
