(* ===== verification/Supervisor.thy ===== *)
theory Supervisor
  imports Files Load_Schedule
begin

text \<open>
  \<^verbatim>\<open>internal/mock/client/managed.go\<close>: the process that keeps a load client alive, starts one run for each new identifier
  and writes a status that survives a restart. The JSON of the status is a parameter. What a turn of the loop sees, in
  particular whether the run has ended, is an event.
\<close>

section \<open>The status\<close>

record RunStatus =
  ru_status_RunID :: bytes
  ru_status_State :: bytes
  ru_status_UpdatedAt :: gotime
  ru_status_ConfigVersion :: bytes
  ru_status_FailureCode :: bytes
  ru_status_Progress :: "RunProgress option"

record status_codec =
  sx_Marshal :: "RunStatus \<Rightarrow> bytes option"
  sx_Unmarshal :: "bytes \<Rightarrow> RunStatus option"

definition zero_status :: RunStatus where
  "zero_status = \<lparr>ru_status_RunID = [], ru_status_State = [], ru_status_UpdatedAt = None, ru_status_ConfigVersion = [],
     ru_status_FailureCode = [], ru_status_Progress = None\<rparr>"

definition ReadRunStatus :: "status_codec \<Rightarrow> bytes \<Rightarrow> 'a file_world_scheme \<Rightarrow> (error + RunStatus) \<times> 'a file_world_scheme" where
  "ReadRunStatus cx path w =
     (case os_ReadFile path w of
        (Inl e, w) \<Rightarrow> (Inl e, w)
      | (Inr raw, w) \<Rightarrow> ((case sx_Unmarshal cx raw of None \<Rightarrow> Inl (ErrText ''invalid run status'') | Some s \<Rightarrow> Inr s), w))"

text \<open>The calls before the renaming create, write and close the temporary file.\<close>

definition WriteRunStatus ::
  "status_codec \<Rightarrow> bytes \<Rightarrow> RunStatus \<Rightarrow> 'a file_world_scheme \<Rightarrow> error option \<times> 'a file_world_scheme"
where
  "WriteRunStatus cx path status w =
     (case sx_Marshal cx status of
        None \<Rightarrow> (Some (ErrText ''run status''), w)
      | Some raw \<Rightarrow> replace_file 3 path raw w)"

section \<open>The supervisor\<close>

text \<open>How a run ended: with a failure, which may carry a code.\<close>

datatype run_outcome = RunCompleted | RunFailed "bytes option"

text \<open>A run has the document that its goroutine was started with.\<close>

record managedRun =
  mr_doc :: RunDoc
  mr_stopping :: bool

record runSupervisor =
  sp_status :: RunStatus
  sp_active :: "managedRun option"

definition sup_collect :: "run_outcome option \<Rightarrow> runSupervisor \<Rightarrow> runSupervisor" where
  "sup_collect done_result s =
     (case (sp_active s, done_result) of
        (Some active, Some fin) \<Rightarrow>
          (let st = sp_status s;
               st = (case fin of
                       RunCompleted \<Rightarrow> st\<lparr>ru_status_State := ''completed''\<rparr>
                     | RunFailed code \<Rightarrow>
                         st\<lparr>ru_status_State := ''failed'',
                            ru_status_FailureCode := (case code of None \<Rightarrow> ''run_failed'' | Some c \<Rightarrow> c)\<rparr>);
               st = (if mr_stopping active then st\<lparr>ru_status_State := ''stopped'', ru_status_FailureCode := []\<rparr> else st)
           in \<lparr>sp_status = st, sp_active = None\<rparr>)
      | _ \<Rightarrow> s)"

text \<open>The answer has the document whose run is started.\<close>

definition sup_advance :: "RunDoc \<Rightarrow> run_outcome option \<Rightarrow> runSupervisor \<Rightarrow> runSupervisor \<times> RunDoc option" where
  "sup_advance doc done_result s =
     (let s = sup_collect done_result s; st = sp_status s in
      case sp_active s of
        Some active \<Rightarrow>
          if \<not> td_Enabled doc \<or> td_RunID doc \<noteq> ru_status_RunID st
          then (\<lparr>sp_status = st\<lparr>ru_status_State := ''stopping''\<rparr>, sp_active = Some (active\<lparr>mr_stopping := True\<rparr>)\<rparr>, None)
          else (s, None)
      | None \<Rightarrow>
          if \<not> td_Enabled doc \<or> td_RunID doc = [] \<or> td_RunID doc = ru_status_RunID st then (s, None)
          else
            (\<lparr>sp_status = st\<lparr>ru_status_RunID := td_RunID doc, ru_status_State := ''running'', ru_status_FailureCode := [],
                ru_status_Progress := None\<rparr>,
              sp_active = Some \<lparr>mr_doc = doc, mr_stopping = False\<rparr>\<rparr>, Some doc))"

definition refreshProgress :: "RunProgress option \<Rightarrow> runSupervisor \<Rightarrow> runSupervisor" where
  "refreshProgress progress s =
     (case progress of
        None \<Rightarrow> s
      | Some p \<Rightarrow>
          if pg_RunID p = ru_status_RunID (sp_status s) then s\<lparr>sp_status := (sp_status s)\<lparr>ru_status_Progress := Some p\<rparr>\<rparr> else s)"

text \<open>
  What one turn of the loop sees: the current document, whether the active run has ended, its progress, and whether the
  context has ended after the turn.
\<close>

record sup_event =
  se_doc :: "RunDoc option"
  se_done :: "run_outcome option"
  se_progress :: "RunProgress option"
  se_ctx :: "error option"

text \<open>One turn before it writes the status: the document whose run it starts is in the list.\<close>

definition sup_turn :: "RunDoc \<Rightarrow> sup_event \<Rightarrow> runSupervisor \<Rightarrow> runSupervisor \<times> RunDoc list" where
  "sup_turn doc ev s =
     (case sup_advance doc (se_done ev) s of
        (s, started) \<Rightarrow>
          (refreshProgress (se_progress ev) (s\<lparr>sp_status := (sp_status s)\<lparr>ru_status_ConfigVersion := td_Version doc\<rparr>\<rparr>),
           case started of None \<Rightarrow> [] | Some d \<Rightarrow> [d]))"

definition stamped :: "int \<Rightarrow> runSupervisor \<Rightarrow> runSupervisor" where
  "stamped now s = s\<lparr>sp_status := (sp_status s)\<lparr>ru_status_UpdatedAt := Some now\<rparr>\<rparr>"

text \<open>
  Why the loop ends, which is the error it returns, and the documents whose runs were started. \<^const>\<open>None\<close> means that
  the events end first.
\<close>

datatype sup_end = BadInterval | BadStatus error | ConfigurationUnavailable | StatusUnwritten error | ContextEnded error

fun supervise_loop ::
  "status_codec \<Rightarrow> bytes \<Rightarrow> sup_event list \<Rightarrow> runSupervisor \<Rightarrow> 'a file_world_scheme \<Rightarrow>
   sup_end option \<times> RunDoc list \<times> runSupervisor \<times> 'a file_world_scheme"
where
  "supervise_loop cx path [] s w = (None, [], s, w)"
| "supervise_loop cx path (ev # evs) s w =
     (case se_doc ev of
        None \<Rightarrow> (Some ConfigurationUnavailable, [], s, w)
      | Some doc \<Rightarrow>
          (case (sup_turn doc ev s, time_Now w) of
             ((s, started), (now, w)) \<Rightarrow>
               (case WriteRunStatus cx path (sp_status (stamped now s)) w of
                  (Some e, w) \<Rightarrow> (Some (StatusUnwritten e), started, stamped now s, w)
                | (None, w) \<Rightarrow>
                    (case se_ctx ev of
                       Some e \<Rightarrow> (Some (ContextEnded e), started, stamped now s, w)
                     | None \<Rightarrow>
                         (case supervise_loop cx path evs (stamped now s) w of
                            (e, later, s, w) \<Rightarrow> (e, started @ later, s, w))))))"

definition SuperviseWithProgress ::
  "status_codec \<Rightarrow> bytes \<Rightarrow> int \<Rightarrow> sup_event list \<Rightarrow> 'a file_world_scheme \<Rightarrow>
   sup_end option \<times> RunDoc list \<times> 'a file_world_scheme"
where
  "SuperviseWithProgress cx path interval evs w =
     (if interval \<le> 0 then (Some BadInterval, [], w)
      else
        (case ReadRunStatus cx path w of
           (r, w) \<Rightarrow>
             (case (case r of Inr st \<Rightarrow> Inr st | Inl e \<Rightarrow> if e = os_ErrNotExist then Inr zero_status else Inl e) of
                Inl e \<Rightarrow> (Some (BadStatus e), [], w)
              | Inr st \<Rightarrow>
                  (let st = st\<lparr>ru_status_State := (if ru_status_RunID st = [] then ''idle'' else ''interrupted'')\<rparr> in
                   case supervise_loop cx path evs \<lparr>sp_status = st, sp_active = None\<rparr> w of
                     (e, started, s, w) \<Rightarrow> (e, started, w)))))"

section \<open>No run is repeated\<close>

text \<open>The identifier that the status on disk tells.\<close>

definition stored_run :: "status_codec \<Rightarrow> bytes \<Rightarrow> 'a file_world_scheme \<Rightarrow> bytes" where
  "stored_run cx path w =
     (case Option.bind (fw_files w path) (sx_Unmarshal cx) of None \<Rightarrow> [] | Some st \<Rightarrow> ru_status_RunID st)"

text \<open>
  JSON keeps identifiers that are valid UTF-8, and replaces what is not when it decodes. Identifiers of documents were
  decoded from JSON as well.
\<close>

definition status_codec_ok :: "status_codec \<Rightarrow> bool" where
  "status_codec_ok cx \<longleftrightarrow>
     (\<forall>st raw. sx_Marshal cx st = Some raw \<longrightarrow> valid_string (ru_status_RunID st) \<longrightarrow>
        map_option ru_status_RunID (sx_Unmarshal cx raw) = Some (ru_status_RunID st)) \<and>
     (\<forall>raw st. sx_Unmarshal cx raw = Some st \<longrightarrow> valid_string (ru_status_RunID st))"

definition decoded_events :: "sup_event list \<Rightarrow> bool" where
  "decoded_events evs \<longleftrightarrow> list_all (\<lambda>ev. pred_option (\<lambda>doc. valid_string (td_RunID doc)) (se_doc ev)) evs"

text \<open>No call fails with the error that stands for a missing file.\<close>

definition faults_differ :: "'a file_world_scheme \<Rightarrow> bool" where
  "faults_differ w \<longleftrightarrow> (\<forall>n. fw_faults w n \<noteq> Some os_ErrNotExist)"

lemma sup_advance_ids:
  assumes "sup_advance doc done_result s = (s', started)"
  shows "case started of None \<Rightarrow> ru_status_RunID (sp_status s') = ru_status_RunID (sp_status s)
    | Some d \<Rightarrow> d = doc \<and> td_Enabled d \<and> td_RunID d \<noteq> ru_status_RunID (sp_status s) \<and> ru_status_RunID (sp_status s') = td_RunID d"
proof -
  have "ru_status_RunID (sp_status (sup_collect done_result s)) = ru_status_RunID (sp_status s)"
    by (auto simp: sup_collect_def Let_def split: option.split run_outcome.split)
  then show ?thesis using assms by (auto simp: sup_advance_def Let_def split: option.splits if_split_asm)
qed

lemma refreshProgress_id [simp]: "ru_status_RunID (sp_status (refreshProgress p s)) = ru_status_RunID (sp_status s)"
  by (simp add: refreshProgress_def split: option.split)

lemma WriteRunStatus_stored:
  assumes "WriteRunStatus cx path st w = (None, w')" and "status_codec_ok cx" and "valid_string (ru_status_RunID st)"
  shows "stored_run cx path w' = ru_status_RunID st"
proof -
  obtain raw where r: "sx_Marshal cx st = Some raw" "replace_file 3 path raw w = (None, w')"
    using assms(1) by (auto simp: WriteRunStatus_def split: option.splits)
  then have "map_option ru_status_RunID (sx_Unmarshal cx raw) = Some (ru_status_RunID st)"
    using assms(2,3) by (simp add: status_codec_ok_def)
  then show ?thesis using replace_file_result(2) [OF r(2)] by (auto simp: stored_run_def)
qed

text \<open>The runs that follow one with identifier \<open>i\<close>.\<close>

definition new_runs :: "bytes \<Rightarrow> RunDoc list \<Rightarrow> bool" where
  "new_runs i ds \<longleftrightarrow> successively (\<noteq>) (i # map td_RunID ds) \<and> list_all td_Enabled ds"

definition last_run :: "bytes \<Rightarrow> RunDoc list \<Rightarrow> bytes" where
  "last_run i ds = last (i # map td_RunID ds)"

lemma new_runs_simps [simp]:
  "new_runs i []" "last_run i [] = i"
  "new_runs i (d # ds) \<longleftrightarrow> td_RunID d \<noteq> i \<and> td_Enabled d \<and> new_runs (td_RunID d) ds"
  "last_run i (d # ds) = last_run (td_RunID d) ds"
  by (auto simp: new_runs_def last_run_def)

lemma new_runs_append: "new_runs i (ds @ ds') \<longleftrightarrow> new_runs i ds \<and> new_runs (last_run i ds) ds'"
  by (induction ds arbitrary: i) auto

lemma sup_turn_ids:
  assumes "sup_turn doc ev s = (s', started)" and "valid_string (td_RunID doc)" and "valid_string (ru_status_RunID (sp_status s))"
  shows "new_runs (ru_status_RunID (sp_status s)) started"
    and "last_run (ru_status_RunID (sp_status s)) started = ru_status_RunID (sp_status (stamped now s'))"
    and "valid_string (ru_status_RunID (sp_status (stamped now s')))"
proof -
  obtain s1 st where a: "sup_advance doc (se_done ev) s = (s1, st)" by fastforce
  show "new_runs (ru_status_RunID (sp_status s)) started"
    and "last_run (ru_status_RunID (sp_status s)) started = ru_status_RunID (sp_status (stamped now s'))"
    and "valid_string (ru_status_RunID (sp_status (stamped now s')))"
    using sup_advance_ids [OF a] assms a by (auto simp: sup_turn_def stamped_def split: option.splits)
qed

lemma supervise_loop_ids:
  assumes "supervise_loop cx path evs s w = (e, ds, s', w')" and "status_codec_ok cx" and "decoded_events evs"
    and "valid_string (ru_status_RunID (sp_status s))" and "stored_run cx path w = ru_status_RunID (sp_status s)"
  shows "new_runs (ru_status_RunID (sp_status s)) ds \<and>
    ((\<forall>x. e \<noteq> Some (StatusUnwritten x)) \<longrightarrow> stored_run cx path w' = last_run (ru_status_RunID (sp_status s)) ds)"
  using assms(1,3-5)
proof (induction evs arbitrary: s w e ds s' w')
  case (Cons ev evs)
  show ?case
  proof (cases "se_doc ev")
    case (Some doc)
    obtain s1 started where a: "sup_turn doc ev s = (s1, started)" by fastforce
    obtain now w1 where t: "time_Now w = (now, w1)" by fastforce
    let ?s = "stamped now s1"
    have d: "valid_string (td_RunID doc)" "decoded_events evs" using Cons.prems(2) Some by (simp_all add: decoded_events_def)
    note ids = sup_turn_ids(1) [OF a d(1) Cons.prems(3)] sup_turn_ids(2,3) [OF a d(1) Cons.prems(3), where now = now]
    obtain we w2 where wr: "WriteRunStatus cx path (sp_status ?s) w1 = (we, w2)" by fastforce
    show ?thesis
    proof (cases "we \<noteq> None \<or> se_ctx ev \<noteq> None")
      case True
      then show ?thesis
        using Cons.prems(1) Some a t wr ids WriteRunStatus_stored [OF _ assms(2) ids(3)] by (auto split: option.splits)
    next
      case False
      obtain e' ds' s2 w3 where l: "supervise_loop cx path evs ?s w2 = (e', ds', s2, w3)" by (metis prod.exhaust)
      have "e = e'" "ds = started @ ds'" "w' = w3" using Cons.prems(1) Some a t wr l False by auto
      moreover have "stored_run cx path w2 = ru_status_RunID (sp_status ?s)"
        by (rule WriteRunStatus_stored [OF _ assms(2) ids(3)]) (use wr False in simp)
      ultimately show ?thesis
        using Cons.IH [OF l d(2) ids(3)] ids(1,2) by (auto simp: new_runs_append last_run_def)
    qed
  qed (use Cons.prems in auto)
qed simp

text \<open>A lifetime of the supervisor begins with the identifier that the status on disk tells.\<close>

lemma supervise_start:
  assumes "SuperviseWithProgress cx path interval evs w = (e, ds, w')" and "ds \<noteq> []" and "faults_differ w" and "status_codec_ok cx"
  obtains s s' w1 where "supervise_loop cx path evs s w1 = (e, ds, s', w')" "ru_status_RunID (sp_status s) = stored_run cx path w"
    "stored_run cx path w1 = stored_run cx path w" "valid_string (ru_status_RunID (sp_status s))"
proof -
  obtain x w1 where f: "os_ReadFile path w = (x, w1)" by fastforce
  have files: "stored_run cx path w1 = stored_run cx path w"
    using os_ReadFile_same [OF f] by (simp add: same_files_def stored_run_def)
  have i: "\<not> interval \<le> 0" using assms(1,2) by (auto simp: SuperviseWithProgress_def)
  show thesis
  proof (cases x)
    case (Inl err)
    then have "err = os_ErrNotExist"
      using assms(1,2) f i by (auto simp: SuperviseWithProgress_def ReadRunStatus_def split: if_split_asm)
    moreover from this have "fw_files w path = None"
      using f Inl assms(3) by (auto simp: os_ReadFile_def os_call_def faults_differ_def split: option.splits)
    moreover obtain s' where "supervise_loop cx path evs
        \<lparr>sp_status = zero_status\<lparr>ru_status_State := ''idle''\<rparr>, sp_active = None\<rparr> w1 = (e, ds, s', w')"
      using assms(1) f i Inl calculation(1)
      by (auto simp: SuperviseWithProgress_def ReadRunStatus_def zero_status_def Let_def split: prod.splits)
    ultimately show thesis using that files by (simp add: stored_run_def zero_status_def)
  next
    case (Inr raw)
    obtain st where st: "sx_Unmarshal cx raw = Some st"
      using assms(1,2) f i Inr
      by (auto simp: SuperviseWithProgress_def ReadRunStatus_def os_ErrNotExist_def split: option.splits)
    have "fw_files w path = Some raw" using os_ReadFile_content f Inr by blast
    then have "stored_run cx path w = ru_status_RunID st" using st by (simp add: stored_run_def)
    moreover have "valid_string (ru_status_RunID st)" using assms(4) st by (auto simp: status_codec_ok_def)
    moreover obtain state s' where "supervise_loop cx path evs
        \<lparr>sp_status = st\<lparr>ru_status_State := state\<rparr>, sp_active = None\<rparr> w1 = (e, ds, s', w')"
      using assms(1) f i Inr st
      by (auto simp: SuperviseWithProgress_def ReadRunStatus_def Let_def split: prod.splits)
    ultimately show thesis using that files by simp
  qed
qed

lemma supervise_ids:
  assumes "SuperviseWithProgress cx path interval evs w = (e, ds, w')" and "status_codec_ok cx" and "decoded_events evs"
    and "faults_differ w"
  shows "new_runs (stored_run cx path w) ds \<and>
    (ds \<noteq> [] \<and> (\<forall>x. e \<noteq> Some (StatusUnwritten x)) \<longrightarrow> stored_run cx path w' = td_RunID (last ds))"
proof (cases "ds = []")
  case False
  then obtain s s' w1 where "supervise_loop cx path evs s w1 = (e, ds, s', w')"
    and s: "ru_status_RunID (sp_status s) = stored_run cx path w" "stored_run cx path w1 = stored_run cx path w"
      "valid_string (ru_status_RunID (sp_status s))"
    by (rule supervise_start [OF assms(1) _ assms(4,2)])
  from supervise_loop_ids [OF this(1) assms(2,3) s(3)] s False show ?thesis by (simp add: last_run_def last_map)
qed simp

text \<open>
  C26. A run is not replayed. Over two lifetimes of the supervisor with the same status file, of which the first does
  not end because it cannot write the status, no run is started right after a run with the same identifier; and only
  enabled documents are started.
\<close>

theorem runs_not_replayed:
  assumes "SuperviseWithProgress cx path i evs w = (e, ds, w')" and "\<forall>x. e \<noteq> Some (StatusUnwritten x)"
    and "SuperviseWithProgress cx path i' evs' v = (e', ds', v')" and "fw_files v path = fw_files w' path"
    and "status_codec_ok cx" and "decoded_events evs" "decoded_events evs'" and "faults_differ w" "faults_differ v"
  shows "successively (\<noteq>) (map td_RunID (ds @ ds')) \<and> list_all td_Enabled (ds @ ds')"
proof -
  note first = supervise_ids [OF assms(1,5,6,8)]
  note second = supervise_ids [OF assms(3,5,7,9)]
  have same: "stored_run cx path v = stored_run cx path w'" using assms(4) by (simp add: stored_run_def)
  have "successively (\<noteq>) (map td_RunID ds)" "list_all td_Enabled ds"
    using first by (auto simp: new_runs_def successively_Cons)
  moreover have "successively (\<noteq>) (map td_RunID ds')" "list_all td_Enabled ds'"
    using second by (auto simp: new_runs_def successively_Cons)
  moreover have "ds \<noteq> [] \<Longrightarrow> ds' \<noteq> [] \<Longrightarrow> td_RunID (last ds) \<noteq> td_RunID (hd ds')"
    using first second assms(2) same by (auto simp: new_runs_def successively_Cons hd_map)
  ultimately show ?thesis by (auto simp: successively_append_iff last_map hd_map)
qed

text \<open>
  The first supervisor runs \<open>a\<close> and its context ends; the second one finds \<open>a\<close> still desired, waits, and runs \<open>b\<close>.
\<close>

definition sample_status :: "bytes \<Rightarrow> RunStatus" where
  "sample_status i = zero_status\<lparr>ru_status_RunID := i, ru_status_State := ''running'', ru_status_UpdatedAt := Some 0\<rparr>"

definition sample_codec :: status_codec where
  "sample_codec =
     \<lparr>sx_Marshal = (\<lambda>st. Some (ru_status_RunID st)),
      sx_Unmarshal = (\<lambda>raw. if valid_string raw then Some (sample_status raw) else None)\<rparr>"

definition sample_event :: "bytes \<Rightarrow> error option \<Rightarrow> sup_event" where
  "sample_event i ctx =
     \<lparr>se_doc = Some (zero_run_doc\<lparr>td_RunID := i, td_Enabled := True\<rparr>), se_done = Some RunCompleted, se_progress = None, se_ctx = ctx\<rparr>"

definition sample_disk :: "bytes option \<Rightarrow> file_world" where
  "sample_disk content =
     \<lparr>w_ctx = (\<lambda>_. None), w_polls = 0, w_clock = (\<lambda>_. 0), w_times = 0, w_rand = (\<lambda>_. None), w_draws = 0, w_reqid = [], w_log = [],
      fw_files = (\<lambda>_. content), fw_faults = (\<lambda>_. None), fw_calls = 0\<rparr>"

lemma sample_strings [simp]: "valid_string ''a''" "valid_string ''b''"
  by (simp_all add: byte_def)

lemma sample_codec_ok: "status_codec_ok sample_codec"
  by (auto simp: status_codec_ok_def sample_codec_def sample_status_def split: if_split_asm)

lemma runs_not_replayed_witness:
  "\<exists>ds ds' e e' w' v'.
     SuperviseWithProgress sample_codec [] 1 [sample_event ''a'' (Some ErrCanceled)] (sample_disk None) = (e, ds, w') \<and>
     SuperviseWithProgress sample_codec [] 1 [sample_event ''a'' None, sample_event ''b'' None] (sample_disk (Some ''a'')) =
       (e', ds', v') \<and>
     map td_RunID (ds @ ds') = [''a'', ''b''] \<and> successively (\<noteq>) (map td_RunID (ds @ ds')) \<and> list_all td_Enabled (ds @ ds')"
proof -
  let ?a = "sample_event ''a'' (Some ErrCanceled)" and ?bs = "[sample_event ''a'' None, sample_event ''b'' None]"
  obtain e ds w' where one: "SuperviseWithProgress sample_codec [] 1 [?a] (sample_disk None) = (e, ds, w')"
    by (metis prod.exhaust)
  obtain e' ds' v' where two: "SuperviseWithProgress sample_codec [] 1 ?bs (sample_disk (Some ''a'')) = (e', ds', v')"
    by (metis prod.exhaust)
  note evals = SuperviseWithProgress_def ReadRunStatus_def os_ReadFile_def os_call_def sample_disk_def sample_codec_def
    sample_event_def sup_turn_def sup_advance_def sup_collect_def refreshProgress_def stamped_def WriteRunStatus_def
    replace_file_def time_Now_def sample_status_def zero_status_def zero_run_doc_def os_ErrNotExist_def eval_nat_numeral
  have r1: "e = Some (ContextEnded ErrCanceled)" "map td_RunID ds = [''a'']" "fw_files w' [] = Some ''a''"
    using one by (auto simp: evals)
  have r2: "map td_RunID ds' = [''b'']" using two by (auto simp: evals)
  have "decoded_events [?a]" "decoded_events ?bs" by (simp_all add: decoded_events_def sample_event_def)
  then have "successively (\<noteq>) (map td_RunID (ds @ ds')) \<and> list_all td_Enabled (ds @ ds')"
    using runs_not_replayed [OF one _ two _ sample_codec_ok] r1 by (simp add: sample_disk_def faults_differ_def)
  then show ?thesis using one two r1 r2 by auto
qed

end
