(* ===== verification/Dataset.thy ===== *)
theory Dataset
  imports Files
begin

text \<open>
  \<^verbatim>\<open>internal/mock/client/dataset.go\<close>: the payloads of a load test come from the files that a manifest lists, each of which
  has to match its size and digest. The decoder of the manifest and SHA-256 are parameters.
\<close>

record dataset_entry =
  de_File :: bytes
  de_Bytes :: int
  de_Tokens :: int
  de_SHA256 :: bytes

record dataset_manifest =
  dm_Schema :: bytes
  dm_Encoding :: bytes
  dm_Tokens :: int
  dm_Payloads :: "dataset_entry list"

definition supported_manifest :: "dataset_manifest \<Rightarrow> bool" where
  "supported_manifest m \<longleftrightarrow>
     dm_Schema m = ''alfagen.load-data.v1'' \<and> dm_Encoding m = ''cl100k_base'' \<and> dm_Tokens m = 100000 \<and>
     dm_Payloads m \<noteq> [] \<and> length (dm_Payloads m) \<le> 100"

definition valid_entry :: "int \<Rightarrow> dataset_entry \<Rightarrow> bool" where
  "valid_entry tokens d \<longleftrightarrow>
     de_File d = filepath_Base (de_File d) \<and> de_File d \<noteq> ''.'' \<and> de_Tokens d = tokens \<and> 0 < de_Bytes d \<and> de_Bytes d \<le> 2 * 2 ^ 20"

fun load_entries ::
  "(bytes \<Rightarrow> bytes) \<Rightarrow> bytes \<Rightarrow> int \<Rightarrow> dataset_entry list \<Rightarrow> 'a file_world_scheme \<Rightarrow> (error + bytes list) \<times> 'a file_world_scheme"
where
  "load_entries sum256 dir tokens [] w = (Inr [], w)"
| "load_entries sum256 dir tokens (d # ds) w =
     (if \<not> valid_entry tokens d then (Inl (ErrText ''invalid dataset entry''), w)
      else
        (case os_ReadFile (filepath_Join dir (de_File d)) w of
           (Inl e, w) \<Rightarrow> (Inl (ErrText ''read dataset entry''), w)
         | (Inr raw, w) \<Rightarrow>
             if \<not> valid_string raw \<or> int (length raw) \<noteq> de_Bytes d \<or> hex_encode (sum256 raw) \<noteq> de_SHA256 d
             then (Inl (ErrText ''dataset entry failed integrity check''), w)
             else (case load_entries sum256 dir tokens ds w of (r, w) \<Rightarrow> (map_sum id (\<lambda>ps. raw # ps) r, w))))"

definition LoadDataset ::
  "(bytes \<Rightarrow> dataset_manifest option) \<Rightarrow> (bytes \<Rightarrow> bytes) \<Rightarrow> bytes \<Rightarrow> 'a file_world_scheme \<Rightarrow>
   (error + bytes list \<times> bytes) \<times> 'a file_world_scheme"
where
  "LoadDataset decode sum256 path w =
     (case os_ReadFile path w of
        (Inl e, w) \<Rightarrow> (Inl e, w)
      | (Inr data, w) \<Rightarrow>
          (case decode data of
             None \<Rightarrow> (Inl (ErrText ''invalid dataset manifest''), w)
           | Some m \<Rightarrow>
               if \<not> supported_manifest m then (Inl (ErrText ''unsupported dataset manifest''), w)
               else
                 (case load_entries sum256 (filepath_Dir path) (dm_Tokens m) (dm_Payloads m) w of
                    (r, w) \<Rightarrow> (map_sum id (\<lambda>ps. (ps, hex_encode (sum256 data))) r, w))))"

section \<open>What is loaded\<close>

text \<open>A payload of a directory: a file of it that has the size and the digest of its entry.\<close>

definition loaded_payload :: "(bytes \<Rightarrow> bytes) \<Rightarrow> bytes \<Rightarrow> int \<Rightarrow> 'a file_world_scheme \<Rightarrow> dataset_entry \<Rightarrow> bytes \<Rightarrow> bool" where
  "loaded_payload sum256 dir tokens w d raw \<longleftrightarrow>
     valid_entry tokens d \<and> fw_files w (filepath_Join dir (de_File d)) = Some raw \<and> valid_string raw \<and>
     int (length raw) = de_Bytes d \<and> hex_encode (sum256 raw) = de_SHA256 d"

lemma map_sum_Inr: "map_sum id f r = Inr y \<longleftrightarrow> (\<exists>x. r = Inr x \<and> y = f x)"
  by (cases r) auto

lemma load_entries_result:
  assumes "load_entries sum256 dir tokens ds w = (Inr ps, w')"
  shows "list_all2 (loaded_payload sum256 dir tokens w) ds ps"
  using assms
proof (induction ds arbitrary: w ps w')
  case (Cons d ds)
  obtain x w1 where f: "os_ReadFile (filepath_Join dir (de_File d)) w = (x, w1)" by fastforce
  obtain r w2 where l: "load_entries sum256 dir tokens ds w1 = (r, w2)" by fastforce
  obtain raw qs where *: "x = Inr raw" "valid_entry tokens d" "valid_string raw" "int (length raw) = de_Bytes d"
    "hex_encode (sum256 raw) = de_SHA256 d" "r = Inr qs" "ps = raw # qs"
    using Cons.prems f l by (cases r) (auto split: if_split_asm sum.splits)
  have "fw_files w1 = fw_files w" using os_ReadFile_same [OF f] by (simp add: same_files_def)
  then have "loaded_payload sum256 dir tokens w1 = loaded_payload sum256 dir tokens w"
    by (simp add: loaded_payload_def fun_eq_iff)
  then have "list_all2 (loaded_payload sum256 dir tokens w) ds qs" using Cons.IH [of w1 qs] l *(6) by simp
  moreover have "loaded_payload sum256 dir tokens w d raw"
    using os_ReadFile_content f * by (simp add: loaded_payload_def) blast
  ultimately show ?case using *(7) by simp
qed simp

text \<open>A name that is its own base has no slash, unless it is the root.\<close>

lemma file_part_plain: "slash \<notin> set (file_part p)"
proof (cases "slash \<in> set p")
  case True
  then obtain d n where "p = d @ slash # n" "slash \<notin> set n" using split_list_last [of slash p] by blast
  then show ?thesis by (simp add: last_slash)
next
  case False
  then show ?thesis by (auto simp: file_part_def split: option.split dest: in_set_dropD)
qed

lemma valid_entry_name:
  assumes "valid_entry tokens d" and "de_File d \<noteq> [slash]" and "de_File d \<noteq> parent_dir"
  shows "plain_name (de_File d)"
proof -
  have f: "de_File d = filepath_Base (de_File d)" "de_File d \<noteq> ''.''" using assms(1) by (simp_all add: valid_entry_def)
  then have "de_File d \<noteq> []" by (auto simp: filepath_Base_def)
  moreover have "slash \<notin> set (de_File d)"
    using f assms(2) file_part_plain by (metis filepath_Base_def)
  ultimately show ?thesis using f(2) assms(3) by (simp add: plain_name_def)
qed

text \<open>
  A dataset that is loaded has between one and a hundred payloads, in the order of the manifest: each is a file of the
  directory of the manifest itself, is valid UTF-8 of at most 2 MiB, and matches the digest of its entry. No other
  file than these and the manifest decides the result.
\<close>

theorem dataset_loaded:
  assumes "LoadDataset decode sum256 path w = (Inr (ps, digest), w')"
  shows "\<exists>data m. fw_files w path = Some data \<and> decode data = Some m \<and> digest = hex_encode (sum256 data) \<and>
    0 < length ps \<and> length ps \<le> 100 \<and> length (dm_Payloads m) = length ps \<and>
    (\<forall>i < length ps. fw_files w (filepath_Join (filepath_Dir path) (de_File (dm_Payloads m ! i))) = Some (ps ! i) \<and>
       valid_string (ps ! i) \<and> 0 < length (ps ! i) \<and> length (ps ! i) \<le> 2 * 2 ^ 20 \<and>
       hex_encode (sum256 (ps ! i)) = de_SHA256 (dm_Payloads m ! i) \<and>
       (plain_name (de_File (dm_Payloads m ! i)) \<or> de_File (dm_Payloads m ! i) \<in> {[slash], parent_dir}))"
proof -
  obtain x w1 where f: "os_ReadFile path w = (x, w1)" by fastforce
  obtain data m r w2 where *: "x = Inr data" "decode data = Some m" "supported_manifest m" "digest = hex_encode (sum256 data)"
    "load_entries sum256 (filepath_Dir path) (dm_Tokens m) (dm_Payloads m) w1 = (Inr ps, w2)"
    using assms f by (auto simp: LoadDataset_def map_sum_Inr
      split: sum.splits option.splits if_split_asm prod.splits)
  have "fw_files w1 = fw_files w" using os_ReadFile_same [OF f] by (simp add: same_files_def)
  then have all: "list_all2 (loaded_payload sum256 (filepath_Dir path) (dm_Tokens m) w) (dm_Payloads m) ps"
    using load_entries_result [OF *(5)] by (simp add: loaded_payload_def [abs_def])
  have entry: "fw_files w (filepath_Join (filepath_Dir path) (de_File d)) = Some raw \<and> valid_string raw \<and>
      0 < length raw \<and> length raw \<le> 2 * 2 ^ 20 \<and> hex_encode (sum256 raw) = de_SHA256 d \<and>
      (plain_name (de_File d) \<or> de_File d \<in> {[slash], parent_dir})"
    if "loaded_payload sum256 (filepath_Dir path) (dm_Tokens m) w d raw" for d raw
  proof -
    have "valid_entry (dm_Tokens m) d" "int (length raw) = de_Bytes d" using that by (simp_all add: loaded_payload_def)
    then have "0 < int (length raw)" "int (length raw) \<le> 2 * 2 ^ 20" by (simp_all add: valid_entry_def)
    then have "0 < length raw" "length raw \<le> 2 * 2 ^ 20" by simp_all
    then show ?thesis using that valid_entry_name [OF \<open>valid_entry (dm_Tokens m) d\<close>] by (auto simp: loaded_payload_def)
  qed
  have "length (dm_Payloads m) = length ps" using list_all2_lengthD [OF all] .
  moreover have "0 < length ps" "length ps \<le> 100" using *(3) calculation by (auto simp: supported_manifest_def)
  moreover have "fw_files w path = Some data" using os_ReadFile_content f *(1) by blast
  moreover have "loaded_payload sum256 (filepath_Dir path) (dm_Tokens m) w (dm_Payloads m ! i) (ps ! i)" if "i < length ps" for i
    using list_all2_nthD2 [OF all that] .
  ultimately show ?thesis using *(2,4) entry by blast
qed

text \<open>A manifest with one payload.\<close>

definition sample_manifest :: dataset_manifest where
  "sample_manifest =
     \<lparr>dm_Schema = ''alfagen.load-data.v1'', dm_Encoding = ''cl100k_base'', dm_Tokens = 100000,
      dm_Payloads = [\<lparr>de_File = ''a'', de_Bytes = 1, de_Tokens = 100000, de_SHA256 = ''78''\<rparr>]\<rparr>"

definition sample_directory :: file_world where
  "sample_directory =
     \<lparr>w_ctx = (\<lambda>_. None), w_polls = 0, w_clock = (\<lambda>_. 0), w_times = 0, w_rand = (\<lambda>_. None), w_draws = 0, w_reqid = [], w_log = [],
      fw_files = [''/d/m'' \<mapsto> ''{}'', ''/d/a'' \<mapsto> ''x''], fw_faults = (\<lambda>_. None), fw_calls = 0\<rparr>"

lemma sample_paths: "filepath_Dir ''/d/m'' = ''/d''" "filepath_Join ''/d'' ''a'' = ''/d/a''" "filepath_Base ''a'' = ''a''"
  by code_simp+

lemma sample_dataset:
  "fst (LoadDataset (\<lambda>_. Some sample_manifest) (\<lambda>x. x) ''/d/m'' sample_directory) = Inr ([''x''], hex_encode ''{}'')"
proof -
  have "valid_string ''x''" by (simp add: byte_def)
  moreover have "hex_encode ''x'' = ''78''" by code_simp
  ultimately show ?thesis
    by (simp add: LoadDataset_def os_ReadFile_def os_call_def sample_directory_def sample_manifest_def supported_manifest_def
      valid_entry_def sample_paths)
qed

lemma dataset_loaded_witness: "fw_files sample_directory (filepath_Join (filepath_Dir ''/d/m'') ''a'') = Some ''x''"
proof -
  obtain w' where "LoadDataset (\<lambda>_. Some sample_manifest) (\<lambda>x. x) ''/d/m'' sample_directory = (Inr ([''x''], hex_encode ''{}''), w')"
    using sample_dataset by (metis prod.collapse)
  from dataset_loaded [OF this] show ?thesis by (auto simp: sample_manifest_def)
qed

end
