(* ===== verification/Spec2Isabelle.thy ===== *)
theory Spec2Isabelle
  imports Pattern Mask_Result Detector_Properties Redis Proxy_Properties Startup_Properties Load_Properties Load_Frame
    Supervisor Dataset
begin

text \<open>
  AlfaGen is a service in front of a language model. It finds personal data in a text, replaces
  it by masks or opaque tokens, keeps what it replaced in a context store, and restores the
  answer of the model for callers that may see the data. This development models the Go code
  under \<^verbatim>\<open>internal\<close>, apart from the administration and the observability, and the command of the proxy.

  The parts of the program and the theories that model them:

  \<^item> The language. \<^verbatim>\<open>Prelude\<close> has byte strings, slices and lemmas on lists. \<^verbatim>\<open>Unicode\<close>, \<^verbatim>\<open>Utf8\<close> and
    \<^verbatim>\<open>Go_Strings\<close> are what the source uses of \<^verbatim>\<open>unicode\<close>, \<^verbatim>\<open>unicode/utf8\<close>, \<^verbatim>\<open>strings\<close> and \<^verbatim>\<open>strconv\<close>. A Go
    string is a list of bytes, a rune is a number, an offset counts bytes. \<^verbatim>\<open>Regex\<close> gives the leftmost-first matches
    of the syntax trees of \<^verbatim>\<open>regexp/syntax\<close>; \<^verbatim>\<open>Regex_Spans\<close> has executable tests that tell which
    expressions have no empty match and which groups lie where. Of \<^verbatim>\<open>encoding/json\<close>, \<^verbatim>\<open>Json\<close> writes lists of strings,
    \<^verbatim>\<open>Json_Parse\<close> has the token stream and the values of a document, and \<^verbatim>\<open>Json_Struct\<close> the decoding into
    structures. \<^verbatim>\<open>Files\<close> is what is used of \<^verbatim>\<open>path/filepath\<close> and of files, where every call may fail.
  \<^item> Domain types and surroundings. \<^verbatim>\<open>Pii\<close> models \<^verbatim>\<open>pii.go\<close> and \<^verbatim>\<open>contracts.go\<close>. \<^verbatim>\<open>World\<close> is the state that is
    passed along: cancellation of the context, the clock, random bytes and the events sent to the
    observers; a context may be cancelled between any two polls.
  \<^item> Detection. \<^verbatim>\<open>Pattern\<close> (\<^verbatim>\<open>detectors/pattern.go\<close>) is a regular expression with a prefilter of literals.
    \<^verbatim>\<open>Helpers\<close> (\<^verbatim>\<open>detectors/helpers.go\<close>) scans values behind labels and looks for markers near a candidate.
    \<^verbatim>\<open>Number_Detectors\<close>, \<^verbatim>\<open>Date_Detectors\<close>, \<^verbatim>\<open>Label_Detectors\<close>, \<^verbatim>\<open>Address_Detector\<close> and \<^verbatim>\<open>Name_Detector\<close> are the
    detectors, \<^verbatim>\<open>All_Detectors\<close> their list (\<^verbatim>\<open>detectors/all.go\<close>) and the contract they keep,
    \<^verbatim>\<open>Detector_Properties\<close> what holds of single ones.
  \<^item> From findings to decisions. \<^verbatim>\<open>Normalize\<close> (\<^verbatim>\<open>normalize.go\<close>) is the view that the detectors see,
    \<^verbatim>\<open>Registry\<close> (\<^verbatim>\<open>registry.go\<close>) runs them, moves their findings to the original text and resolves overlaps,
    \<^verbatim>\<open>Context\<close> (\<^verbatim>\<open>context.go\<close>) suppresses and promotes weak candidates, \<^verbatim>\<open>Policy\<close> (\<^verbatim>\<open>policy/*.go\<close>) says what
    a system wants masked.
  \<^item> Masking and storage. \<^verbatim>\<open>Masking\<close> (\<^verbatim>\<open>masking/transform.go\<close>) has the masks, \<^verbatim>\<open>Tokens\<close> and \<^verbatim>\<open>Markers\<close>
    (\<^verbatim>\<open>engine/tokens.go\<close>) the opaque tokens and their restoration, \<^verbatim>\<open>Store\<close> (\<^verbatim>\<open>store/store.go\<close>) the records and
    the store in memory, \<^verbatim>\<open>Codec\<close> (\<^verbatim>\<open>store/codec.go\<close>) the sealed records and \<^verbatim>\<open>Redis\<close> (\<^verbatim>\<open>store/redis.go\<close>) the
    store that replicas share.
  \<^item> The processor. \<^verbatim>\<open>Engine\<close> models \<^verbatim>\<open>engine/processor.go\<close> and \<^verbatim>\<open>engine/verify.go\<close>: \<^verbatim>\<open>Process\<close>, \<^verbatim>\<open>Mask\<close> and
    \<^verbatim>\<open>Demask\<close> read the store, detect, mask, verify, save and report. \<^verbatim>\<open>Engine_Frame\<close>, \<^verbatim>\<open>Processing\<close> and
    \<^verbatim>\<open>Mask_Result\<close> prove what they do to the store, what they answer and what a masked text looks like.
  \<^item> The server. \<^verbatim>\<open>Request_Decoding\<close> (\<^verbatim>\<open>proxy/decode.go\<close>) reads a request strictly, \<^verbatim>\<open>Proxy_Server\<close>
    (\<^verbatim>\<open>proxy/server.go\<close>) authenticates it, bounds the requests in flight and calls the processor, \<^verbatim>\<open>Proxy_Properties\<close>
    says what callers may cause and learn. \<^verbatim>\<open>Provider\<close> (\<^verbatim>\<open>llm/client.go\<close>) is the client of the language model.
  \<^item> The configuration, under \<^verbatim>\<open>platform/config\<close>. \<^verbatim>\<open>Config\<close> has the data, its defaults and its validation,
    \<^verbatim>\<open>Config_Source\<close> the strict reader with \<^verbatim>\<open>Duplicate_Keys\<close> and the sources, \<^verbatim>\<open>Config_Manager\<close> the
    reloads; \<^verbatim>\<open>Config_Properties\<close> and \<^verbatim>\<open>Manager_Properties\<close> prove what an accepted or published configuration is.
    \<^verbatim>\<open>Startup\<close> (\<^verbatim>\<open>cmd/proxy/main.go\<close>) puts the service together, \<^verbatim>\<open>Startup_Properties\<close> says that its parts fit.
  \<^item> The mock model, under \<^verbatim>\<open>mock/llm\<close>: \<^verbatim>\<open>Mock_Markers\<close>, \<^verbatim>\<open>Mock_Model\<close> and \<^verbatim>\<open>Mock_Config\<close>.
  \<^item> The load client, under \<^verbatim>\<open>mock/client\<close>. \<^verbatim>\<open>Edit_Distance\<close> and \<^verbatim>\<open>Quality\<close> (\<^verbatim>\<open>quality.go\<close>) measure masks,
    \<^verbatim>\<open>Run_Config\<close> (\<^verbatim>\<open>config.go\<close>) has the configuration of a run, \<^verbatim>\<open>Load_Run\<close>, \<^verbatim>\<open>Load_Operations\<close> and
    \<^verbatim>\<open>Load_Schedule\<close> (\<^verbatim>\<open>runner.go\<close>, \<^verbatim>\<open>progress.go\<close>) attempts, scenarios and the planning of runs, \<^verbatim>\<open>Load_Client\<close>
    (\<^verbatim>\<open>client.go\<close>) the entry points, \<^verbatim>\<open>Dataset\<close> (\<^verbatim>\<open>dataset.go\<close>) the payloads and \<^verbatim>\<open>Supervisor\<close> (\<^verbatim>\<open>managed.go\<close>) the
    process that starts runs. \<^verbatim>\<open>Load_Frame\<close> shows that operations are steps of a run, \<^verbatim>\<open>Load_Properties\<close> what
    holds of every run.

  The interfaces are locales. \<open>context_store\<close> states what the processor relies on; the store in memory is
  interpreted in it, and the facts about \<^verbatim>\<open>Process\<close> hold for every store that keeps it.
  \<open>world_frame\<close> and \<open>run_frame\<close> collect what a step leaves alone. \<open>span_detector\<close> and \<open>sound_detector\<close> are the contract
  of a detector; every built-in one is interpreted, so that a collection over all of them succeeds.

  What the properties show: a finding is a rune-aligned piece of the text with its text as value,
  from the detectors through the normalised view, the registry and the resolution of overlaps to
  the mask; the mask replaces exactly the findings, and in token mode the mapping restores the
  text; a masked text contains no critical value that the recognizers find; a demask without
  permission uses nothing of the record; the record of a key is never replaced while it lives,
  for every interleaving of clients and cleanups, and replicas on Redis agree on it; every call
  reports one operation. A request is processed only when it is authorised, in the scope of its
  consumer, and the language model sees masked text only. A reload publishes an accepted document
  or changes nothing, and every scope that the server admits passes the validation of the processor
  that a validated configuration builds. The distance between masks is the Levenshtein distance, a
  load test accounts for every operation it has planned, and a restart does not replay its last run.

  Bounds and fuel. Most loops are structural recursion or have a termination proof. The values of a JSON document
  and the walk that looks for repeated names descend with fuel, one more than twice the number of runes: every
  level of nesting and every member consumes a token, and \<^verbatim>\<open>Duplicate_Keys\<close> proves that the walk with this fuel
  agrees with the values. Other bounds are those of the code
  (windows of 512 bytes and 96 runes, values of 512 bytes, three words of a name, the limits on literals of
  the prefilter, three attempts of a request). The star of an expression is iterated at most once for every
  byte that is left, which is enough because an iteration that consumes nothing ends it. Integers of the code that stay
  small are unbounded here; what wraps around, as the seconds of \<^verbatim>\<open>Retry-After\<close> and the seeds of a run, is computed
  with words.

  Parameters, because the code is not in the repository: AES-GCM, HMAC, SHA-256 and random numbers, the Redis
  client, the HTTP clients, the rate limiter, the environment and its files, the YAML decoder, the Kubernetes client,
  \<^verbatim>\<open>regexp.Compile\<close> for configured expressions, \<^verbatim>\<open>url.Parse\<close>, \<^verbatim>\<open>time.ParseDuration\<close>, \<^verbatim>\<open>strconv.ParseFloat\<close>
  and \<^verbatim>\<open>http.ParseTime\<close>, \<^verbatim>\<open>math/rand\<close>, and the JSON of records, reports, statuses and data sets.
  Expressions in the source are given by their syntax trees, floating point numbers by rational numbers.

  Not modelled. Durations reported to the observers, log lines, Prometheus collectors and the text of wrapped errors;
  mutexes and deep copies, since values do not share memory. The observability and the transport of the load
  client wire libraries and decide nothing of the above. The administration (\<^verbatim>\<open>internal/admin\<close>) edits documents
  that the configuration reads, and its pages, certificates and statistics rest on libraries; the commands other
  than the proxy read flags and start what is modelled here.
\<close>

end
